(* ===== verification/Prelude.thy ===== *)
theory Prelude
  imports Complex_Main "HOL-Library.List_Lexorder"
begin

text \<open>
  What every component of the development shares: Go strings as lists of code points, the
  parts of package \<open>strings\<close> the sources use, times and durations in nanoseconds, the
  result type of a fallible call, and the list lemmas the component proofs rest on.

  A Go string that is valid UTF-8 is its list of code points (\<open>gostr\<close>): \<open>len\<close> of the
  source counts the bytes of the encoding (\<open>go_len\<close>), ranging over it or converting it
  to \<open>[]rune\<close> gives the list itself.
\<close>

named_theorems go_simps \<comment> \<open>the laws of a component's operations its clients rewrite with\<close>

section \<open>Strings\<close>

type_synonym rune = nat
type_synonym gostr = "rune list"

text \<open>A string literal of the source (ASCII); literals in Chinese are lists of code points.\<close>

definition lit :: "string \<Rightarrow> gostr" where
  "lit s = map of_char s"

lemma lit_inject [simp]: "lit a = lit b \<longleftrightarrow> a = b"
proof -
  have "inj (of_char :: char \<Rightarrow> nat)" by (rule inj_of_char)
  then show ?thesis by (simp add: lit_def inj_map_eq_map)
qed

lemma lit_Nil [simp]: "lit [] = []"
  by (simp add: lit_def)

lemma lit_eq_Nil [simp]: "lit s = [] \<longleftrightarrow> s = []" "[] = lit s \<longleftrightarrow> s = []"
  by (auto simp: lit_def)

lemma lit_Cons: "lit (c # s) = of_char c # lit s"
  by (simp add: lit_def)

text \<open>The code points with the property White\_Space, which \<open>unicode.IsSpace\<close> tests.\<close>

definition is_space :: "rune \<Rightarrow> bool" where
  "is_space r \<longleftrightarrow> (9 \<le> r \<and> r \<le> 13) \<or> r = 32 \<or> r = 133 \<or> r = 160 \<or> r = 5760 \<or>
     (8192 \<le> r \<and> r \<le> 8202) \<or> r = 8232 \<or> r = 8233 \<or> r = 8239 \<or> r = 8287 \<or> r = 12288"

text \<open>\<open>strings.TrimSpace\<close>.\<close>

definition trim_left :: "gostr \<Rightarrow> gostr" where
  "trim_left s = dropWhile is_space s"

definition trim_right :: "gostr \<Rightarrow> gostr" where
  "trim_right s = rev (dropWhile is_space (rev s))"

definition trim_space :: "gostr \<Rightarrow> gostr" where
  "trim_space s = trim_right (trim_left s)"

lemma trim_space_Nil [simp]: "trim_space [] = []"
  by (simp add: trim_space_def trim_left_def trim_right_def)

lemma dropWhile_hd: "dropWhile P xs = y # ys \<Longrightarrow> \<not> P y"
  by (induction xs) (auto split: if_splits)

lemma trim_left_fix: "s = [] \<or> \<not> is_space (hd s) \<Longrightarrow> trim_left s = s"
  by (cases s) (auto simp: trim_left_def)

lemma trim_right_fix: "s = [] \<or> \<not> is_space (last s) \<Longrightarrow> trim_right s = s"
  by (cases s rule: rev_cases) (auto simp: trim_right_def)

lemma trim_left_hd: "trim_left s \<noteq> [] \<Longrightarrow> \<not> is_space (hd (trim_left s))"
  by (cases "trim_left s") (auto simp: trim_left_def dest: dropWhile_hd)

lemma trim_right_last: "trim_right s \<noteq> [] \<Longrightarrow> \<not> is_space (last (trim_right s))"
  by (cases "dropWhile is_space (rev s)") (auto simp: trim_right_def last_rev dest: dropWhile_hd)

lemma trim_right_prefix: "\<exists>t. s = trim_right s @ t"
proof -
  have "rev s = takeWhile is_space (rev s) @ dropWhile is_space (rev s)" by simp
  then have "s = rev (dropWhile is_space (rev s)) @ rev (takeWhile is_space (rev s))"
    by (metis rev_append rev_rev_ident)
  then show ?thesis unfolding trim_right_def by blast
qed

lemma trim_right_hd: "trim_right s \<noteq> [] \<Longrightarrow> hd (trim_right s) = hd s"
  by (metis hd_append2 trim_right_prefix)

lemma trim_space_hd: "trim_space s \<noteq> [] \<Longrightarrow> \<not> is_space (hd (trim_space s))"
  unfolding trim_space_def
  by (metis trim_left_hd trim_right_hd trim_right_prefix append_Nil append_self_conv2 list.size(3)
      Nil_is_append_conv)

lemma trim_space_last: "trim_space s \<noteq> [] \<Longrightarrow> \<not> is_space (last (trim_space s))"
  unfolding trim_space_def by (rule trim_right_last)

lemma trim_space_fix:
  "s = [] \<or> (\<not> is_space (hd s) \<and> \<not> is_space (last s)) \<Longrightarrow> trim_space s = s"
  unfolding trim_space_def by (metis trim_left_fix trim_right_fix)

lemma trim_space_idem [simp]: "trim_space (trim_space s) = trim_space s"
  by (rule trim_space_fix) (metis trim_space_hd trim_space_last)

lemma trim_space_set: "set (trim_space s) \<subseteq> set s"
  unfolding trim_space_def trim_right_def trim_left_def
  by (auto dest!: set_dropWhileD)

text \<open>\<open>strings.ToLower\<close>; \<open>lw\<close> is the Unicode table for the code points beyond ASCII.\<close>

definition lower_rune :: "(rune \<Rightarrow> rune) \<Rightarrow> rune \<Rightarrow> rune" where
  "lower_rune lw r = (if 65 \<le> r \<and> r \<le> 90 then r + 32 else if r < 128 then r else lw r)"

definition to_lower :: "(rune \<Rightarrow> rune) \<Rightarrow> gostr \<Rightarrow> gostr" where
  "to_lower lw s = map (lower_rune lw) s"

text \<open>\<open>strings.HasPrefix\<close>, \<open>TrimPrefix\<close>, \<open>HasSuffix\<close>, \<open>TrimSuffix\<close>, \<open>Contains\<close>.\<close>

definition has_prefix :: "gostr \<Rightarrow> gostr \<Rightarrow> bool" where
  "has_prefix s p \<longleftrightarrow> take (length p) s = p"

definition trim_prefix :: "gostr \<Rightarrow> gostr \<Rightarrow> gostr" where
  "trim_prefix s p = (if has_prefix s p then drop (length p) s else s)"

definition has_suffix :: "gostr \<Rightarrow> gostr \<Rightarrow> bool" where
  "has_suffix s p \<longleftrightarrow> length p \<le> length s \<and> drop (length s - length p) s = p"

definition trim_suffix :: "gostr \<Rightarrow> gostr \<Rightarrow> gostr" where
  "trim_suffix s p = (if has_suffix s p then take (length s - length p) s else s)"

fun str_contains :: "gostr \<Rightarrow> gostr \<Rightarrow> bool" where
  "str_contains [] p = (p = [])"
| "str_contains (r # s) p = (has_prefix (r # s) p \<or> str_contains s p)"

lemma has_prefix_append [simp]: "has_prefix (p @ s) p"
  by (simp add: has_prefix_def)

lemma trim_prefix_append [simp]: "trim_prefix (p @ s) p = s"
  by (simp add: trim_prefix_def)

lemma has_suffix_append [simp]: "has_suffix (s @ p) p"
  by (simp add: has_suffix_def)

lemma trim_suffix_append [simp]: "trim_suffix (s @ p) p = s"
  by (simp add: trim_suffix_def)

text \<open>\<open>strings.Split\<close> on a separator of one rune: at least one part.\<close>

fun split_on :: "rune \<Rightarrow> gostr \<Rightarrow> gostr list" where
  "split_on c [] = [[]]"
| "split_on c (r # s) =
     (if r = c then [] # split_on c s
      else (case split_on c s of [] \<Rightarrow> [[r]] | p # ps \<Rightarrow> (r # p) # ps))"

lemma split_on_not_Nil [simp]: "split_on c s \<noteq> []"
  by (induction s) (auto split: list.splits)

text \<open>\<open>strings.Join\<close>.\<close>

fun join :: "gostr list \<Rightarrow> gostr \<Rightarrow> gostr" where
  "join [] sep = []"
| "join [p] sep = p"
| "join (p # q # ps) sep = p @ sep @ join (q # ps) sep"

text \<open>\<open>strings.Fields\<close>: the maximal runs of non-space runes.\<close>

function str_fields :: "gostr \<Rightarrow> gostr list" where
  "str_fields s =
     (case trim_left s of [] \<Rightarrow> []
      | t \<Rightarrow> takeWhile (\<lambda>r. \<not> is_space r) t # str_fields (dropWhile (\<lambda>r. \<not> is_space r) t))"
  by pat_completeness auto
termination
proof (relation "measure length", goal_cases)
  case 1
  then show ?case by simp
next
  case (2 s r u)
  have r: "\<not> is_space r"
    using trim_left_hd [of s] 2 by simp
  have "length (dropWhile (\<lambda>r. \<not> is_space r) (r # u)) \<le> length u"
    using r by (simp add: length_dropWhile_le)
  moreover have "length (trim_left s) \<le> length s"
    by (simp add: trim_left_def length_dropWhile_le)
  ultimately show ?case using 2 r by simp
qed

declare str_fields.simps [simp del]

lemma str_fields_Nil [simp]: "str_fields [] = []"
  by (subst str_fields.simps) (simp add: trim_left_def)

text \<open>A word is what \<open>str_fields\<close> returns: not empty and without spaces.\<close>

definition is_word :: "gostr \<Rightarrow> bool" where
  "is_word t \<longleftrightarrow> t \<noteq> [] \<and> (\<forall>r\<in>set t. \<not> is_space r)"

lemma str_fields_words: "t \<in> set (str_fields s) \<Longrightarrow> is_word t \<and> set t \<subseteq> set s"
proof (induction s rule: str_fields.induct)
  case (1 s)
  show ?case
  proof (cases "trim_left s")
    case Nil
    then show ?thesis using "1.prems" by (subst (asm) str_fields.simps) simp
  next
    case (Cons r u)
    have r: "\<not> is_space r" using trim_left_hd [of s] Cons by simp
    have sub: "set (r # u) \<subseteq> set s"
      unfolding Cons [symmetric] trim_left_def by (auto dest: set_dropWhileD)
    consider "t = takeWhile (\<lambda>r. \<not> is_space r) (r # u)" | "t \<in> set (str_fields (dropWhile (\<lambda>r. \<not> is_space r) (r # u)))"
      using "1.prems" Cons by (subst (asm) str_fields.simps) auto
    then show ?thesis
    proof cases
      case 1
      then show ?thesis using r sub by (auto simp: is_word_def dest: set_takeWhileD)
    next
      case 2
      then have "is_word t \<and> set t \<subseteq> set (dropWhile (\<lambda>r. \<not> is_space r) (r # u))"
        using "1.IH" Cons by simp
      then show ?thesis using sub by (meson set_dropWhileD subset_eq)
    qed
  qed
qed

lemma str_fields_Cons_word:
  assumes "is_word w" "s = [] \<or> is_space (hd s)"
  shows "str_fields (w @ s) = w # str_fields s"
proof -
  obtain r u where w: "w = r # u" "\<not> is_space r" using assms(1) by (cases w) (auto simp: is_word_def)
  have t: "trim_left (w @ s) = w @ s" by (rule trim_left_fix) (simp add: w)
  have tw: "takeWhile (\<lambda>r. \<not> is_space r) (w @ s) = w" "dropWhile (\<lambda>r. \<not> is_space r) (w @ s) = s"
    using assms by (cases s; auto simp: is_word_def takeWhile_append dropWhile_append)+
  have "str_fields (w @ s) = (case w @ s of [] \<Rightarrow> []
      | t \<Rightarrow> takeWhile (\<lambda>r. \<not> is_space r) t # str_fields (dropWhile (\<lambda>r. \<not> is_space r) t))"
    by (subst str_fields.simps) (simp only: t)
  also have "\<dots> = w # str_fields s" using tw w(1) by (simp del: takeWhile.simps dropWhile.simps)
  finally show ?thesis .
qed

lemma str_fields_space: "is_space r \<Longrightarrow> str_fields (r # s) = str_fields s"
  by (subst str_fields.simps, subst (2) str_fields.simps) (simp add: trim_left_def)

text \<open>Splitting words that were joined by a space gives the words back.\<close>

lemma str_fields_join:
  assumes "\<And>w. w \<in> set ws \<Longrightarrow> is_word w"
  shows "str_fields (join ws [32]) = ws"
  using assms
proof (induction ws "[32 :: nat]" rule: join.induct)
  case (2 w)
  then show ?case using str_fields_Cons_word [of w "[]"] by simp
next
  case (3 w w' ws)
  then show ?case using str_fields_Cons_word [of w "32 # join (w' # ws) [32]"]
    by (simp add: str_fields_space is_space_def)
qed simp

lemma join_words_ends:
  assumes "\<And>w. w \<in> set ws \<Longrightarrow> is_word w" "ws \<noteq> []"
  shows "join ws [32] \<noteq> [] \<and> \<not> is_space (hd (join ws [32])) \<and> \<not> is_space (last (join ws [32]))"
  using assms
proof (induction ws "[32 :: nat]" rule: join.induct)
  case (2 w)
  then show ?case by (auto simp: is_word_def)
next
  case (3 w w' ws)
  then show ?case by (force simp: is_word_def)
qed simp

lemma set_join: "set (join ps sep) \<subseteq> (\<Union>p\<in>set ps. set p) \<union> set sep"
  by (induction ps sep rule: join.induct) auto

lemma map_join: "map f (join ps sep) = join (map (map f) ps) (map f sep)"
  by (induction ps sep rule: join.induct) auto

lemma join_Cons: "ps \<noteq> [] \<Longrightarrow> join (p # ps) sep = p @ sep @ join ps sep"
  by (cases ps) auto

lemma join_snoc: "ps \<noteq> [] \<Longrightarrow> join (ps @ [p]) sep = join ps sep @ sep @ p"
  by (induction ps sep rule: join.induct) (auto simp: join_Cons)

text \<open>Splitting at a separator and joining with it are inverse.\<close>

lemma join_split: "join (split_on c s) [c] = s"
  by (induction s) (auto simp: join_Cons split: list.splits, metis append_Cons join.simps(2,3) list.exhaust)

lemma split_no_sep: "c \<notin> set s \<Longrightarrow> split_on c s = [s]"
  by (induction s) auto

lemma split_append: "c \<notin> set p \<Longrightarrow> split_on c (p @ c # s) = p # split_on c s"
  by (induction p) auto

lemma split_join:
  "(\<And>p. p \<in> set ps \<Longrightarrow> c \<notin> set p) \<Longrightarrow> ps \<noteq> [] \<Longrightarrow> split_on c (join ps [c]) = ps"
  by (induction ps "[c]" rule: join.induct) (auto simp: split_no_sep split_append)

lemma split_parts: "p \<in> set (split_on c s) \<Longrightarrow> c \<notin> set p \<and> set p \<subseteq> set s"
  by (induction s arbitrary: p) (fastforce split: if_splits list.splits)+

text \<open>The number of bytes of the UTF-8 encoding, which \<open>len\<close> counts.\<close>

definition rune_len :: "rune \<Rightarrow> nat" where
  "rune_len r = (if r < 128 then 1 else if r < 2048 then 2 else if r < 65536 then 3 else 4)"

definition go_len :: "gostr \<Rightarrow> nat" where
  "go_len s = sum_list (map rune_len s)"

lemma go_len_ge: "length s \<le> go_len s"
  by (induction s) (auto simp: go_len_def rune_len_def)

lemma go_len_0 [simp]: "go_len s = 0 \<longleftrightarrow> s = []"
  by (cases s) (auto simp: go_len_def rune_len_def)

text \<open>\<open>strconv.Itoa\<close> and \<open>FormatInt\<close> in base ten.\<close>

fun nat_digits :: "nat \<Rightarrow> gostr" where
  "nat_digits n = (if n < 10 then [48 + n] else nat_digits (n div 10) @ [48 + n mod 10])"

declare nat_digits.simps [simp del]

definition itoa :: "int \<Rightarrow> gostr" where
  "itoa i = (if i < 0 then 45 # nat_digits (nat (- i)) else nat_digits (nat i))"

text \<open>
  Reading a decimal integer; \<open>strconv.Atoi\<close> also fails outside the range of \<open>int\<close>, which has
  64 bits.
\<close>

fun digits_value :: "nat \<Rightarrow> gostr \<Rightarrow> nat option" where
  "digits_value acc [] = Some acc"
| "digits_value acc (r # s) =
     (if 48 \<le> r \<and> r \<le> 57 then digits_value (acc * 10 + (r - 48)) s else None)"

fun parse_int :: "gostr \<Rightarrow> int option" where
  "parse_int [] = None"
| "parse_int (r # s) =
     (if r = 45 then (if s = [] then None else map_option (\<lambda>n. - int n) (digits_value 0 s))
      else if r = 43 then (if s = [] then None else map_option int (digits_value 0 s))
      else map_option int (digits_value 0 (r # s)))"

definition atoi :: "gostr \<Rightarrow> int option" where
  "atoi s = (case parse_int s of None \<Rightarrow> None
             | Some i \<Rightarrow> if - (2 ^ 63) \<le> i \<and> i < 2 ^ 63 then Some i else None)"

lemma digits_value_append:
  "digits_value acc (s @ t) = (case digits_value acc s of None \<Rightarrow> None | Some a \<Rightarrow> digits_value a t)"
  by (induction s arbitrary: acc) auto

lemma digits_value_nat_digits: "digits_value 0 (nat_digits n) = Some n"
proof (induction n rule: nat_digits.induct)
  case (1 n)
  then show ?case by (subst nat_digits.simps) (auto simp: digits_value_append)
qed

lemma nat_digits_not_Nil [simp]: "nat_digits n \<noteq> []"
  by (subst nat_digits.simps) simp

lemma nat_digits_set: "r \<in> set (nat_digits n) \<Longrightarrow> 48 \<le> r \<and> r \<le> 57"
proof (induction n arbitrary: r rule: nat_digits.induct)
  case (1 n)
  then show ?case by (subst (asm) (2) nat_digits.simps) (auto split: if_splits)
qed

lemma parse_int_itoa [simp]: "parse_int (itoa i) = Some i"
proof (cases "i < 0")
  case True
  then show ?thesis by (simp add: itoa_def digits_value_nat_digits)
next
  case False
  obtain r s where rs: "nat_digits (nat i) = r # s"
    by (cases "nat_digits (nat i)") auto
  then have "r \<noteq> 45 \<and> r \<noteq> 43" using nat_digits_set [of r "nat i"] by auto
  then show ?thesis
    using False rs digits_value_nat_digits [of "nat i"] by (simp add: itoa_def del: digits_value.simps)
qed

lemma itoa_inject [simp]: "itoa i = itoa j \<longleftrightarrow> i = j"
  by (metis option.inject parse_int_itoa)

section \<open>Time\<close>

text \<open>
  A \<open>time.Time\<close> is the number of nanoseconds since the Unix epoch, \<open>time.Duration\<close> a number
  of nanoseconds; \<open>zero_time\<close> is the zero value of \<open>time.Time\<close> (1 January of the year 1).
\<close>

type_synonym gotime = int
type_synonym duration = int

definition second :: duration where "second = 1000000000"
definition millisecond :: duration where "millisecond = 1000000"

definition zero_time :: gotime where "zero_time = - 62135596800 * 1000000000"

text \<open>The times that RFC 3339 can write: the years 1 to 9999.\<close>

definition valid_time :: "gotime \<Rightarrow> bool" where
  "valid_time t \<longleftrightarrow> zero_time \<le> t \<and> t < 253402300800 * 1000000000"

definition is_zero :: "gotime \<Rightarrow> bool" where "is_zero t \<longleftrightarrow> t = zero_time"

section \<open>Loops that keep the first occurrence\<close>

text \<open>
  The loop that five files of the source repeat: trim each item, skip it when it is empty or
  was seen, else record it and append it to the output.
\<close>

fun uniq_loop :: "gostr set \<Rightarrow> gostr list \<Rightarrow> gostr list" where
  "uniq_loop seen [] = []"
| "uniq_loop seen (x # xs) =
     (let item = trim_space x in
      if item = [] then uniq_loop seen xs
      else if item \<in> seen then uniq_loop seen xs
      else item # uniq_loop (insert item seen) xs)"

lemma uniq_loop_set: "set (uniq_loop seen xs) = trim_space ` set xs - insert [] seen"
  by (induction xs arbitrary: seen) (auto simp: Let_def)

lemma uniq_loop_distinct: "distinct (uniq_loop seen xs)"
  by (induction xs arbitrary: seen) (auto simp: Let_def uniq_loop_set)

lemma uniq_loop_length: "length (uniq_loop seen xs) \<le> length xs"
  by (induction xs arbitrary: seen) (auto simp: Let_def le_SucI)

lemma uniq_loop_fixed:
  "distinct xs \<Longrightarrow> (\<And>x. x \<in> set xs \<Longrightarrow> x \<noteq> [] \<and> trim_space x = x \<and> x \<notin> seen) \<Longrightarrow>
   uniq_loop seen xs = xs"
proof (induction xs arbitrary: seen)
  case Nil
  then show ?case by simp
next
  case (Cons a xs)
  have "uniq_loop (insert a seen) xs = xs"
    using Cons.prems by (intro Cons.IH) auto
  then show ?case using Cons.prems(2) [of a] by (simp add: Let_def)
qed

lemma uniq_loop_idem: "uniq_loop {} (uniq_loop {} xs) = uniq_loop {} xs"
  by (rule uniq_loop_fixed) (auto simp: uniq_loop_distinct uniq_loop_set)

text \<open>Searching an appended list, as after the insertion of a row.\<close>

lemma find_append: "List.find P (xs @ ys) = (case List.find P xs of None \<Rightarrow> List.find P ys | Some x \<Rightarrow> Some x)"
  by (induction xs) auto

end
