(* ===== verification/Steps.thy ===== *)
theory Steps
  imports Main
begin

text \<open>
  Sequences of steps that may fail, as the operations of the services are: a step takes the state of the world and
  returns an error or a result with the state after it.
\<close>

text \<open>One step after the other, up to the first error.\<close>

definition andthen :: "('w \<Rightarrow> ('e + 'a) \<times> 'w) \<Rightarrow> ('a \<Rightarrow> 'w \<Rightarrow> ('e + 'b) \<times> 'w) \<Rightarrow> 'w \<Rightarrow> ('e + 'b) \<times> 'w" where
  "andthen m k w = (case m w of (Inl e, w1) \<Rightarrow> (Inl e, w1) | (Inr x, w1) \<Rightarrow> k x w1)"

definition done_with :: "'a \<Rightarrow> 'w \<Rightarrow> ('e + 'a) \<times> 'w" where
  "done_with x w = (Inr x, w)"

definition fail_with :: "'e \<Rightarrow> 'w \<Rightarrow> ('e + 'a) \<times> 'w" where
  "fail_with e w = (Inl e, w)"

lemma andthen_Inr:
  "andthen m k w = (Inr x, w') \<longleftrightarrow> (\<exists>y w1. m w = (Inr y, w1) \<and> k y w1 = (Inr x, w'))"
  by (auto simp: andthen_def split: sum.splits prod.splits)

lemma simple_Inr [simp]:
  "done_with y w = (Inr x, w') \<longleftrightarrow> x = y \<and> w' = w" "fail_with e w \<noteq> (Inr x, w')"
  by (auto simp: done_with_def fail_with_def)

end
