(* ===== verification/Paths.thy ===== *)
theory Paths
  imports Prelude
begin

text \<open>What the services use of the packages \<open>path\<close> and \<open>path/filepath\<close>, with the slash as separator.\<close>

text \<open>\<open>filepath.Base\<close> and \<open>filepath.Ext\<close>.\<close>

definition strip_slashes :: "gostr \<Rightarrow> gostr" where
  "strip_slashes s = rev (dropWhile (\<lambda>r. r = 47) (rev s))"

definition file_base :: "gostr \<Rightarrow> gostr" where
  "file_base s =
     (if s = [] then lit ''.''
      else let t = strip_slashes s in
        if t = [] then lit ''/'' else rev (takeWhile (\<lambda>r. r \<noteq> 47) (rev t)))"

definition file_ext :: "gostr \<Rightarrow> gostr" where
  "file_ext s =
     (let tail = rev (takeWhile (\<lambda>r. r \<noteq> 47) (rev s)) in
      if 46 \<in> set tail then 46 # rev (takeWhile (\<lambda>r. r \<noteq> 46) (rev tail)) else [])"

text \<open>\<open>path.Join\<close> of relative elements, cleaned.\<close>

definition clean_step :: "gostr \<Rightarrow> gostr list \<Rightarrow> gostr list" where
  "clean_step c out =
     (if c = lit ''.'' then out
      else if c = lit ''..'' then (if out = [] \<or> last out = lit ''..'' then out @ [c] else butlast out)
      else out @ [c])"

definition path_join :: "gostr list \<Rightarrow> gostr" where
  "path_join elems =
     (let parts = filter (\<lambda>c. c \<noteq> []) (concat (map (split_on 47) elems)); out = fold clean_step parts [] in
      if parts = [] then [] else if out = [] then lit ''.'' else join out [47])"

end
