(* ===== verification/RefreshTokens.thy ===== *)
theory RefreshTokens
  imports Prelude
begin

text \<open>
  The in-memory refresh token store of \<open>backend/pkg/store/refresh_token_store.go\<close>: families of
  rotated tokens with replay detection.  The state has the four maps of the struct; the mutex
  makes every method one atomic step.  \<open>H\<close> is \<open>refreshTokenHash\<close> (SHA-256 in hex), the random
  values of \<open>generateRefreshToken\<close> and \<open>generateFamilyID\<close> are inputs (\<open>None\<close> is an error of
  \<open>crypto/rand\<close>), and so is the clock.
\<close>

section \<open>The store\<close>

datatype refresh_err = ErrInvalidRefreshToken | ErrRefreshTokenReplay | ErrRandom

record refresh_family =
  fam_user :: gostr
  fam_current :: gostr
  fam_expiry :: gotime

record mem_refresh =
  families :: "gostr \<rightharpoonup> refresh_family"
  tokenFamily :: "gostr \<rightharpoonup> gostr"
  familyTokens :: "gostr \<rightharpoonup> gostr set"
  userFamilies :: "gostr \<rightharpoonup> gostr set"

definition new_memory_refresh_store :: mem_refresh where
  "new_memory_refresh_store =
     \<lparr>families = Map.empty, tokenFamily = Map.empty, familyTokens = Map.empty,
      userFamilies = Map.empty\<rparr>"

definition mem_new_token ::
    "(gostr \<Rightarrow> gostr) \<Rightarrow> gostr option \<Rightarrow> gostr option \<Rightarrow> gotime \<Rightarrow> gostr \<Rightarrow> duration \<Rightarrow>
     mem_refresh \<Rightarrow> (refresh_err + gostr) \<times> mem_refresh" where
  "mem_new_token H rnd_token rnd_family now user ttl s =
     (case rnd_token of None \<Rightarrow> (Inl ErrRandom, s)
      | Some tok \<Rightarrow>
     (case rnd_family of None \<Rightarrow> (Inl ErrRandom, s)
      | Some fid \<Rightarrow>
        let h = H tok;
            fams = (case userFamilies s user of None \<Rightarrow> {} | Some fs \<Rightarrow> fs)
        in (Inr tok,
            s\<lparr>families := (families s)(fid \<mapsto>
                 \<lparr>fam_user = user, fam_current = h, fam_expiry = now + ttl\<rparr>),
              tokenFamily := (tokenFamily s)(h \<mapsto> fid),
              familyTokens := (familyTokens s)(fid \<mapsto> {h}),
              userFamilies := (userFamilies s)(user \<mapsto> insert fid fams)\<rparr>)))"

definition revoke_family :: "gostr \<Rightarrow> mem_refresh \<Rightarrow> mem_refresh" where
  "revoke_family fid s =
     (let user = (case families s fid of None \<Rightarrow> [] | Some F \<Rightarrow> fam_user F);
          toks = (case familyTokens s fid of None \<Rightarrow> {} | Some hs \<Rightarrow> hs);
          s1 = s\<lparr>tokenFamily := (\<lambda>h. if h \<in> toks then None else tokenFamily s h),
                 familyTokens := (familyTokens s)(fid := None),
                 families := (families s)(fid := None)\<rparr>
      in if user \<noteq> [] then
           (case userFamilies s1 user of None \<Rightarrow> s1
            | Some fams \<Rightarrow>
                let rest = fams - {fid} in
                s1\<lparr>userFamilies := (userFamilies s1)(user := (if rest = {} then None else Some rest))\<rparr>)
         else s1)"

definition mem_rotate ::
    "(gostr \<Rightarrow> gostr) \<Rightarrow> gostr option \<Rightarrow> gotime \<Rightarrow> duration \<Rightarrow> gostr \<Rightarrow>
     mem_refresh \<Rightarrow> (refresh_err + gostr \<times> gostr) \<times> mem_refresh" where
  "mem_rotate H rnd now ttl token s =
     (let h = H token in
      case tokenFamily s h of None \<Rightarrow> (Inl ErrInvalidRefreshToken, s)
      | Some fid \<Rightarrow>
     (case families s fid of None \<Rightarrow> (Inl ErrInvalidRefreshToken, revoke_family fid s)
      | Some F \<Rightarrow>
        if fam_expiry F < now then (Inl ErrInvalidRefreshToken, revoke_family fid s)
        else if fam_current F \<noteq> h then (Inl ErrRefreshTokenReplay, revoke_family fid s)
        else (case rnd of None \<Rightarrow> (Inl ErrRandom, s)
              | Some new \<Rightarrow>
                let h' = H new;
                    toks = (case familyTokens s fid of None \<Rightarrow> {} | Some hs \<Rightarrow> hs)
                in (Inr (fam_user F, new),
                    s\<lparr>families := (families s)(fid \<mapsto> F\<lparr>fam_current := h', fam_expiry := now + ttl\<rparr>),
                      tokenFamily := (tokenFamily s)(h' \<mapsto> fid),
                      familyTokens := (familyTokens s)(fid \<mapsto> insert h' toks)\<rparr>))))"

definition mem_delete_token :: "(gostr \<Rightarrow> gostr) \<Rightarrow> gostr \<Rightarrow> mem_refresh \<Rightarrow> mem_refresh" where
  "mem_delete_token H token s =
     (case tokenFamily s (H token) of None \<Rightarrow> s | Some fid \<Rightarrow> revoke_family fid s)"

text \<open>
  \<open>RevokeUserRefreshTokens\<close> collects the user's family IDs by ranging over a map; \<open>ids\<close> is the
  order the runtime yields (a list with the elements of that set).
\<close>

definition mem_revoke_user :: "gostr list \<Rightarrow> mem_refresh \<Rightarrow> mem_refresh" where
  "mem_revoke_user ids s = fold revoke_family ids s"

definition user_family_ids :: "mem_refresh \<Rightarrow> gostr \<Rightarrow> gostr set" where
  "user_family_ids s user = (case userFamilies s user of None \<Rightarrow> {} | Some fs \<Rightarrow> fs)"

section \<open>The invariant between the four maps\<close>

definition mem_ok :: "mem_refresh \<Rightarrow> bool" where
  "mem_ok s \<longleftrightarrow>
     (\<forall>h fid. tokenFamily s h = Some fid \<longleftrightarrow> (\<exists>hs. familyTokens s fid = Some hs \<and> h \<in> hs)) \<and>
     (\<forall>fid. families s fid = None \<longleftrightarrow> familyTokens s fid = None) \<and>
     (\<forall>fid F. families s fid = Some F \<longrightarrow> tokenFamily s (fam_current F) = Some fid) \<and>
     (\<forall>fid F. families s fid = Some F \<longrightarrow> fid \<in> user_family_ids s (fam_user F)) \<and>
     (\<forall>u fid. u \<noteq> [] \<longrightarrow> fid \<in> user_family_ids s u \<longrightarrow>
        (\<exists>F. families s fid = Some F \<and> fam_user F = u))"

lemma mem_okD:
  assumes "mem_ok s"
  shows "tokenFamily s h = Some fid \<longleftrightarrow> (\<exists>hs. familyTokens s fid = Some hs \<and> h \<in> hs)"
    and "families s fid = None \<longleftrightarrow> familyTokens s fid = None"
    and "families s fid = Some F \<Longrightarrow> tokenFamily s (fam_current F) = Some fid"
    and "families s fid = Some F \<Longrightarrow> fid \<in> user_family_ids s (fam_user F)"
    and "u \<noteq> [] \<Longrightarrow> fid \<in> user_family_ids s u \<Longrightarrow> \<exists>F. families s fid = Some F \<and> fam_user F = u"
  using assms unfolding mem_ok_def by blast+

lemma mem_ok_empty: "mem_ok new_memory_refresh_store"
  by (simp add: mem_ok_def new_memory_refresh_store_def user_family_ids_def)

lemma mem_ok_token_family:
  "mem_ok s \<Longrightarrow> tokenFamily s h = Some fid \<Longrightarrow> \<exists>F. families s fid = Some F"
  by (metis mem_okD(1,2) not_None_eq)

text \<open>What revoking a family does to each of the maps.\<close>

lemma revoke_family_families: "families (revoke_family fid s) = (families s)(fid := None)"
  by (simp add: revoke_family_def Let_def split: option.splits)

lemma revoke_family_familyTokens:
  "familyTokens (revoke_family fid s) = (familyTokens s)(fid := None)"
  by (simp add: revoke_family_def Let_def split: option.splits)

lemma revoke_family_tokenFamily:
  assumes "mem_ok s"
  shows "tokenFamily (revoke_family fid s) h =
    (if tokenFamily s h = Some fid then None else tokenFamily s h)"
  using mem_okD(1) [OF assms, of h fid]
  by (auto simp: revoke_family_def Let_def split: option.splits)

lemma revoke_family_users:
  assumes "mem_ok s"
  shows "user_family_ids (revoke_family fid s) u =
    (if u \<noteq> [] then user_family_ids s u - {fid} else user_family_ids s u)"
proof (cases "families s fid")
  case None
  then have "u \<noteq> [] \<Longrightarrow> fid \<notin> user_family_ids s u"
    using mem_okD(5) [OF assms] by fastforce
  then show ?thesis using None
    by (auto simp: revoke_family_def Let_def user_family_ids_def split: option.splits)
next
  case (Some F)
  have other: "fid \<notin> user_family_ids s u" if "u \<noteq> []" "u \<noteq> fam_user F"
    using mem_okD(5) [OF assms that(1), of fid] Some that(2) by auto
  show ?thesis
  proof (cases "u = fam_user F")
    case True
    then show ?thesis using Some
      by (auto simp: revoke_family_def Let_def user_family_ids_def split: option.splits)
  next
    case False
    then have "user_family_ids (revoke_family fid s) u = user_family_ids s u"
      using Some by (simp add: revoke_family_def Let_def user_family_ids_def split: option.splits)
    then show ?thesis using False other by auto
  qed
qed

lemmas revoke_family_simps =
  revoke_family_families revoke_family_familyTokens revoke_family_tokenFamily revoke_family_users

lemma mem_okI:
  assumes "\<And>h fid. tokenFamily s h = Some fid \<longleftrightarrow> (\<exists>hs. familyTokens s fid = Some hs \<and> h \<in> hs)"
    and "\<And>fid. families s fid = None \<longleftrightarrow> familyTokens s fid = None"
    and "\<And>fid F. families s fid = Some F \<Longrightarrow> tokenFamily s (fam_current F) = Some fid"
    and "\<And>fid F. families s fid = Some F \<Longrightarrow> fid \<in> user_family_ids s (fam_user F)"
    and "\<And>u fid. u \<noteq> [] \<Longrightarrow> fid \<in> user_family_ids s u \<Longrightarrow>
           \<exists>F. families s fid = Some F \<and> fam_user F = u"
  shows "mem_ok s"
  using assms unfolding mem_ok_def by blast

lemma mem_ok_revoke:
  assumes ok: "mem_ok s"
  shows "mem_ok (revoke_family fid s)"
proof (rule mem_okI)
  fix h f
  show "tokenFamily (revoke_family fid s) h = Some f \<longleftrightarrow>
      (\<exists>hs. familyTokens (revoke_family fid s) f = Some hs \<and> h \<in> hs)"
    using mem_okD(1) [OF ok, of h f] by (auto simp: revoke_family_simps ok)
next
  fix f
  show "families (revoke_family fid s) f = None \<longleftrightarrow> familyTokens (revoke_family fid s) f = None"
    using mem_okD(2) [OF ok, of f] by (simp add: revoke_family_simps)
next
  fix f F
  assume "families (revoke_family fid s) f = Some F"
  then have f: "families s f = Some F" "f \<noteq> fid"
    by (auto simp: revoke_family_simps split: if_splits)
  show "tokenFamily (revoke_family fid s) (fam_current F) = Some f"
    using mem_okD(3) [OF ok f(1)] f(2) by (simp add: revoke_family_simps ok)
  show "f \<in> user_family_ids (revoke_family fid s) (fam_user F)"
    using mem_okD(4) [OF ok f(1)] f(2) by (auto simp: revoke_family_simps ok)
next
  fix u f
  assume "u \<noteq> []" "f \<in> user_family_ids (revoke_family fid s) u"
  then show "\<exists>F. families (revoke_family fid s) f = Some F \<and> fam_user F = u"
    using mem_okD(5) [OF ok, of u f] by (auto simp: revoke_family_simps ok)
qed

text \<open>The four operations keep the invariant when the random values are new.\<close>

lemma mem_ok_new_token:
  assumes ok: "mem_ok s" and h: "tokenFamily s (H tok) = None" and f: "families s fid = None"
  shows "mem_ok (snd (mem_new_token H (Some tok) (Some fid) now user ttl s))"
proof -
  have nf: "fid \<notin> user_family_ids s u" if "u \<noteq> []" for u
    using mem_okD(5) [OF ok that, of fid] f by auto
  have tf: "tokenFamily s h' \<noteq> Some fid" for h'
    using mem_okD(1) [OF ok, of h' fid] mem_okD(2) [OF ok, of fid] f by auto
  show ?thesis
  proof (rule mem_okI, goal_cases)
    case (1 h' f')
    then show ?case
      using mem_okD(1) [OF ok, of h' f'] h tf [of h'] by (auto simp: mem_new_token_def Let_def)
  next
    case (2 f')
    then show ?case using mem_okD(2) [OF ok, of f'] by (simp add: mem_new_token_def Let_def)
  next
    case (3 f' F)
    then show ?case using mem_okD(3) [OF ok, of f' F] h
      by (auto simp: mem_new_token_def Let_def split: if_splits)
  next
    case (4 f' F)
    then show ?case using mem_okD(4) [OF ok, of f' F]
      by (auto simp: mem_new_token_def Let_def user_family_ids_def split: if_splits option.splits)
  next
    case (5 u f')
    then show ?case using mem_okD(5) [OF ok, of u f'] nf [of u]
      by (auto simp: mem_new_token_def Let_def user_family_ids_def split: if_splits option.splits)
  qed
qed

lemma mem_ok_rotate:
  assumes ok: "mem_ok s" and fresh: "\<And>new. rnd = Some new \<Longrightarrow> tokenFamily s (H new) = None"
  shows "mem_ok (snd (mem_rotate H rnd now ttl token s))"
proof (cases "tokenFamily s (H token)")
  case None
  then show ?thesis using ok by (simp add: mem_rotate_def Let_def)
next
  case (Some fid)
  obtain F where F: "families s fid = Some F" using mem_ok_token_family [OF ok Some] by blast
  obtain hs where hs: "familyTokens s fid = Some hs" using mem_okD(1) [OF ok] Some by blast
  show ?thesis
  proof (cases "fam_expiry F < now \<or> fam_current F \<noteq> H token \<or> rnd = None")
    case True
    then show ?thesis using Some F ok mem_ok_revoke [OF ok, of fid]
      by (auto simp: mem_rotate_def Let_def)
  next
    case False
    then obtain new where new: "rnd = Some new" by auto
    have nh: "tokenFamily s (H new) = None" using fresh [OF new] .
    have nhs: "familyTokens s f = Some hs' \<Longrightarrow> H new \<notin> hs'" for f hs'
      using mem_okD(1) [OF ok, of "H new" f] nh by auto
    have eq: "snd (mem_rotate H rnd now ttl token s) =
        s\<lparr>families := (families s)(fid \<mapsto> F\<lparr>fam_current := H new, fam_expiry := now + ttl\<rparr>),
          tokenFamily := (tokenFamily s)(H new \<mapsto> fid),
          familyTokens := (familyTokens s)(fid \<mapsto> insert (H new) hs)\<rparr>"
      using Some F hs False new by (auto simp: mem_rotate_def Let_def)
    show ?thesis unfolding eq
    proof (rule mem_okI, goal_cases)
      case (1 h' f')
      then show ?case using mem_okD(1) [OF ok, of h' f'] hs nh nhs by auto
    next
      case (2 f')
      then show ?case using mem_okD(2) [OF ok, of f'] by simp
    next
      case (3 f' F')
      then show ?case using mem_okD(3) [OF ok, of f' F'] nh by (auto split: if_splits)
    next
      case (4 f' F')
      then show ?case using mem_okD(4) [OF ok, of f' F'] mem_okD(4) [OF ok F]
        by (auto simp: user_family_ids_def split: if_splits)
    next
      case (5 u f')
      then show ?case using mem_okD(5) [OF ok, of u f'] F
        by (auto simp: user_family_ids_def)
    qed
  qed
qed

lemma mem_ok_delete: "mem_ok s \<Longrightarrow> mem_ok (mem_delete_token H token s)"
  by (simp add: mem_delete_token_def mem_ok_revoke split: option.splits)

lemma mem_ok_revoke_user: "mem_ok s \<Longrightarrow> mem_ok (mem_revoke_user ids s)"
  unfolding mem_revoke_user_def by (induction ids arbitrary: s) (simp_all add: mem_ok_revoke)

lemma mem_revoke_user_families:
  "families (mem_revoke_user ids s) f = (if f \<in> set ids then None else families s f)"
  unfolding mem_revoke_user_def
  by (induction ids arbitrary: s) (auto simp: revoke_family_families)

section \<open>The state of a token\<close>

datatype token_status = Unknown | Current gostr | Spent gostr

definition mem_status :: "(gostr \<Rightarrow> gostr) \<Rightarrow> gotime \<Rightarrow> mem_refresh \<Rightarrow> gostr \<Rightarrow> token_status" where
  "mem_status H now s token =
     (case tokenFamily s (H token) of None \<Rightarrow> Unknown
      | Some fid \<Rightarrow> (case families s fid of None \<Rightarrow> Unknown
         | Some F \<Rightarrow> if fam_expiry F < now then Unknown
                    else if fam_current F = H token then Current (fam_user F)
                    else Spent (fam_user F)))"

definition mem_family :: "(gostr \<Rightarrow> gostr) \<Rightarrow> mem_refresh \<Rightarrow> gostr \<Rightarrow> gostr option" where
  "mem_family H s token = tokenFamily s (H token)"

text \<open>
  The contract the services rely on.  \<open>status\<close> classifies a presented token at a time,
  \<open>family\<close> names the family of a token the store has a record of, \<open>rotate\<close> presents a token
  with the random replacement drawn for it.
\<close>

locale refresh_store =
  fixes ok :: "'s \<Rightarrow> bool"
    and status :: "gotime \<Rightarrow> 's \<Rightarrow> gostr \<Rightarrow> token_status"
    and family :: "'s \<Rightarrow> gostr \<Rightarrow> gostr option"
    and rotate :: "gostr \<Rightarrow> gotime \<Rightarrow> duration \<Rightarrow> gostr \<Rightarrow> 's \<Rightarrow>
                   (refresh_err + gostr \<times> gostr) \<times> 's"
  assumes status_family: "status now s t \<noteq> Unknown \<Longrightarrow> family s t \<noteq> None"
    and rotate_current:
      "ok s \<Longrightarrow> status now s t = Current u \<Longrightarrow> family s new = None \<Longrightarrow> 0 \<le> ttl \<Longrightarrow>
       \<exists>s'. rotate new now ttl t s = (Inr (u, new), s') \<and> ok s' \<and>
            status now s' new = Current u \<and> status now s' t = Spent u \<and>
            family s' new = family s t \<and> family s' t = family s t"
    and rotate_spent:
      "ok s \<Longrightarrow> status now s t = Spent u \<Longrightarrow>
       \<exists>s'. rotate new now ttl t s = (Inl ErrRefreshTokenReplay, s') \<and> ok s' \<and>
            (\<forall>now' t'. family s t' = family s t \<longrightarrow> status now' s' t' = Unknown)"
    and rotate_unknown:
      "ok s \<Longrightarrow> status now s t = Unknown \<Longrightarrow>
       \<exists>s'. rotate new now ttl t s = (Inl ErrInvalidRefreshToken, s') \<and> ok s'"
begin

text \<open>
  A copied token: two parties hold the current token \<open>t\<close>.  The first to present it is served,
  the second is told of the replay, and from then on the replacement the first party got is
  refused as well.
\<close>

lemma theft_detected:
  assumes "ok s" and "status now s t = Current u" and "family s new = None" and "0 \<le> ttl"
  shows "\<exists>s1 s2 s3. rotate new now ttl t s = (Inr (u, new), s1) \<and>
           rotate new2 now ttl t s1 = (Inl ErrRefreshTokenReplay, s2) \<and>
           rotate new3 now ttl new s2 = (Inl ErrInvalidRefreshToken, s3)"
proof -
  obtain s1 where s1: "rotate new now ttl t s = (Inr (u, new), s1)" "ok s1"
      "status now s1 t = Spent u" "family s1 new = family s1 t"
    using rotate_current [OF assms] by metis
  obtain s2 where s2: "rotate new2 now ttl t s1 = (Inl ErrRefreshTokenReplay, s2)" "ok s2"
      "status now s2 new = Unknown"
    using rotate_spent [OF s1(2,3)] s1(4) by metis
  show ?thesis using s1(1) s2(1) rotate_unknown [OF s2(2,3)] by blast
qed

end

lemma mem_rotate_current:
  assumes ok: "mem_ok s" and st: "mem_status H now s t = Current u"
    and fresh: "mem_family H s new = None" and ttl: "0 \<le> ttl"
  shows "\<exists>s'. mem_rotate H (Some new) now ttl t s = (Inr (u, new), s') \<and> mem_ok s' \<and>
            mem_status H now s' new = Current u \<and> mem_status H now s' t = Spent u \<and>
            mem_family H s' new = mem_family H s t \<and> mem_family H s' t = mem_family H s t"
proof -
  obtain fid F where f: "tokenFamily s (H t) = Some fid" "families s fid = Some F"
      "\<not> fam_expiry F < now" "fam_current F = H t" "u = fam_user F"
    using st by (auto simp: mem_status_def split: option.splits if_splits)
  have ne: "H new \<noteq> H t" using fresh f(1) by (auto simp: mem_family_def)
  obtain s' where s': "mem_rotate H (Some new) now ttl t s = (Inr (u, new), s')"
    using f by (simp add: mem_rotate_def Let_def)
  have "mem_ok s'"
    using mem_ok_rotate [OF ok, of "Some new" H now ttl t] fresh s' by (simp add: mem_family_def)
  moreover have "mem_status H now s' new = Current u \<and> mem_status H now s' t = Spent u \<and>
      mem_family H s' new = Some fid \<and> mem_family H s' t = Some fid"
    using s' f ne ttl by (auto simp: mem_rotate_def Let_def mem_status_def mem_family_def)
  ultimately show ?thesis using s' f(1) by (simp add: mem_family_def)
qed

lemma mem_rotate_spent:
  assumes ok: "mem_ok s" and st: "mem_status H now s t = Spent u"
  shows "\<exists>s'. mem_rotate H (Some new) now ttl t s = (Inl ErrRefreshTokenReplay, s') \<and> mem_ok s' \<and>
            (\<forall>now' t'. mem_family H s t' = mem_family H s t \<longrightarrow> mem_status H now' s' t' = Unknown)"
proof -
  obtain fid F where f: "tokenFamily s (H t) = Some fid" "families s fid = Some F"
      "\<not> fam_expiry F < now" "fam_current F \<noteq> H t"
    using st by (auto simp: mem_status_def split: option.splits if_splits)
  then have "mem_rotate H (Some new) now ttl t s = (Inl ErrRefreshTokenReplay, revoke_family fid s)"
    by (simp add: mem_rotate_def Let_def)
  then show ?thesis using f(1) mem_ok_revoke [OF ok, of fid]
    by (simp add: mem_status_def mem_family_def revoke_family_tokenFamily ok)
qed

lemma mem_rotate_unknown:
  assumes ok: "mem_ok s" and st: "mem_status H now s t = Unknown"
  shows "\<exists>s'. mem_rotate H (Some new) now ttl t s = (Inl ErrInvalidRefreshToken, s') \<and> mem_ok s'"
  using st mem_ok_revoke [OF ok] ok
  by (auto simp: mem_status_def mem_rotate_def Let_def split: option.splits if_splits)

interpretation mem: refresh_store mem_ok "mem_status H" "mem_family H" "\<lambda>new. mem_rotate H (Some new)"
  for H
proof (unfold_locales, goal_cases)
  case (1 now s t)
  then show ?case by (auto simp: mem_status_def mem_family_def split: option.splits)
next
  case (2 s now t u new ttl)
  then show ?case by (rule mem_rotate_current)
next
  case (3 s now t u new ttl)
  then show ?case by (rule mem_rotate_spent)
next
  case (4 s now t new ttl)
  then show ?case by (rule mem_rotate_unknown)
qed

section \<open>Runs of the store\<close>

text \<open>
  A run is a sequence of calls at arbitrary times.  The second component of a configuration is a
  ghost: the hashes issued so far.  Every random token is new (its hash was not issued before)
  and so is every random family ID; everything else is arbitrary, in particular which tokens the
  callers present.
\<close>

type_synonym refresh_conf = "mem_refresh \<times> gostr set"

inductive mem_step :: "(gostr \<Rightarrow> gostr) \<Rightarrow> refresh_conf \<Rightarrow> refresh_conf \<Rightarrow> bool" for H where
  step_new: "H tok \<notin> iss \<Longrightarrow> families s fid = None \<Longrightarrow>
     mem_step H (s, iss)
       (snd (mem_new_token H (Some tok) (Some fid) now user ttl s), insert (H tok) iss)"
| step_rotate: "H new \<notin> iss \<Longrightarrow>
     mem_step H (s, iss) (snd (mem_rotate H (Some new) now ttl token s), insert (H new) iss)"
| step_rand_error: "mem_step H (s, iss) (snd (mem_rotate H None now ttl token s), iss)"
| step_delete: "mem_step H (s, iss) (mem_delete_token H token s, iss)"
| step_revoke_user: "set ids = user_family_ids s user \<Longrightarrow> mem_step H (s, iss) (mem_revoke_user ids s, iss)"

inductive_cases mem_stepE: "mem_step H (s, iss) c"

definition conf_ok :: "refresh_conf \<Rightarrow> bool" where
  "conf_ok c \<longleftrightarrow> mem_ok (fst c) \<and> (\<forall>h. tokenFamily (fst c) h \<noteq> None \<longrightarrow> h \<in> snd c)"

lemma conf_ok_initial: "conf_ok (new_memory_refresh_store, {})"
  by (simp add: conf_ok_def mem_ok_empty, simp add: new_memory_refresh_store_def)

lemma mem_revoke_user_tokenFamily:
  "mem_ok s \<Longrightarrow> tokenFamily (mem_revoke_user ids s) h =
     (case tokenFamily s h of None \<Rightarrow> None | Some f \<Rightarrow> if f \<in> set ids then None else Some f)"
  unfolding mem_revoke_user_def
  by (induction ids arbitrary: s)
     (auto simp: revoke_family_tokenFamily mem_ok_revoke split: option.splits)

lemma mem_rotate_tokenFamily:
  assumes "mem_ok s" and "tokenFamily (snd (mem_rotate H rnd now ttl token s)) h \<noteq> None"
  shows "tokenFamily s h \<noteq> None \<or> (\<exists>new. rnd = Some new \<and> h = H new)"
  using assms(2)
  by (auto simp: mem_rotate_def Let_def revoke_family_tokenFamily assms(1)
      split: option.splits if_splits)

lemma conf_ok_step: "mem_step H c c' \<Longrightarrow> conf_ok c \<Longrightarrow> conf_ok c'"
proof (induction rule: mem_step.induct)
  case (step_new tok iss s fid now user ttl)
  have "mem_ok (snd (mem_new_token H (Some tok) (Some fid) now user ttl s))"
    using step_new by (intro mem_ok_new_token) (auto simp: conf_ok_def)
  moreover have "tokenFamily (snd (mem_new_token H (Some tok) (Some fid) now user ttl s)) =
      (tokenFamily s)(H tok \<mapsto> fid)"
    by (simp add: mem_new_token_def Let_def)
  ultimately show ?case using step_new.prems by (auto simp: conf_ok_def)
next
  case (step_rotate new iss s now ttl token)
  have "mem_ok (snd (mem_rotate H (Some new) now ttl token s))"
    using step_rotate by (intro mem_ok_rotate) (auto simp: conf_ok_def)
  then show ?case using step_rotate mem_rotate_tokenFamily [of s H "Some new" now ttl token]
    by (auto simp: conf_ok_def)
next
  case (step_rand_error s iss now ttl token)
  then show ?case
    using mem_rotate_tokenFamily [of s H None now ttl token] mem_ok_rotate [of s None H now ttl token]
    by (auto simp: conf_ok_def)
next
  case (step_delete s iss token)
  then show ?case using mem_ok_delete [of s H token]
    by (auto simp: conf_ok_def mem_delete_token_def revoke_family_tokenFamily
        split: option.splits if_splits)
next
  case (step_revoke_user ids s user iss)
  then show ?case using mem_ok_revoke_user [of s ids]
    by (auto simp: conf_ok_def mem_revoke_user_tokenFamily split: option.splits if_splits)
qed

text \<open>A hash that was issued and is not the current hash of any family never becomes it again.\<close>

definition retired :: "gostr \<Rightarrow> refresh_conf \<Rightarrow> bool" where
  "retired h c \<longleftrightarrow> h \<in> snd c \<and> (\<forall>fid F. families (fst c) fid = Some F \<longrightarrow> fam_current F \<noteq> h)"

lemma retired_step: "mem_step H c c' \<Longrightarrow> retired h c \<Longrightarrow> retired h c'"
proof (induction rule: mem_step.induct)
  case (step_new tok iss s fid now user ttl)
  then show ?case by (auto simp: retired_def mem_new_token_def Let_def)
next
  case (step_rotate new iss s now ttl token)
  then show ?case
    by (auto simp: retired_def mem_rotate_def Let_def revoke_family_families
        split: option.splits if_splits)
next
  case (step_rand_error s iss now ttl token)
  then show ?case
    by (auto simp: retired_def mem_rotate_def Let_def revoke_family_families
        split: option.splits if_splits)
next
  case (step_delete s iss token)
  then show ?case
    by (auto simp: retired_def mem_delete_token_def revoke_family_families split: option.splits if_splits)
next
  case (step_revoke_user ids s user iss)
  then show ?case by (auto simp: retired_def mem_revoke_user_families split: if_splits)
qed

lemma retired_steps: "(mem_step H)\<^sup>*\<^sup>* c c' \<Longrightarrow> retired h c \<Longrightarrow> retired h c'"
  by (induction rule: rtranclp_induct) (blast intro: retired_step)+

lemma conf_ok_steps: "(mem_step H)\<^sup>*\<^sup>* c c' \<Longrightarrow> conf_ok c \<Longrightarrow> conf_ok c'"
  by (induction rule: rtranclp_induct) (blast intro: conf_ok_step)+

lemma retired_not_served: "retired (H t) c \<Longrightarrow> fst (mem_rotate H rnd now ttl t (fst c)) \<noteq> Inr x"
  by (auto simp: retired_def mem_rotate_def Let_def split: option.splits if_splits)

lemma rotate_retires:
  assumes "conf_ok (s, iss)" and "H new \<notin> iss"
    and "mem_rotate H (Some new) now ttl t s = (Inr x, s')"
  shows "retired (H t) (s', insert (H new) iss)"
proof -
  obtain fid F where f: "tokenFamily s (H t) = Some fid" "families s fid = Some F"
      "fam_current F = H t"
    using assms(3) by (auto simp: mem_rotate_def Let_def split: option.splits if_splits)
  have ok: "mem_ok s" and iss: "H t \<in> iss" using assms(1) f(1) by (auto simp: conf_ok_def)
  have other: "fam_current F' \<noteq> H t" if "families s f' = Some F'" "f' \<noteq> fid" for f' F'
    using mem_okD(3) [OF ok that(1)] f(1) that(2) by auto
  have fam: "families s' = (families s)(fid \<mapsto> F\<lparr>fam_current := H new, fam_expiry := now + ttl\<rparr>)"
    using assms(3) f by (auto simp: mem_rotate_def Let_def split: if_splits)
  show ?thesis using other iss assms(2) by (auto simp: retired_def fam)
qed

section \<open>Properties\<close>

definition demo_store :: mem_refresh where
  "demo_store = snd (mem_new_token id (Some (lit ''t0'')) (Some (lit ''f'')) 0 (lit ''u'') 100
     new_memory_refresh_store)"

lemma demo_reachable: "(mem_step id)\<^sup>*\<^sup>* (new_memory_refresh_store, {}) (demo_store, {lit ''t0''})"
proof -
  have "mem_step id (new_memory_refresh_store, {}) (demo_store, insert (id (lit ''t0'')) {})"
    unfolding demo_store_def
    by (rule mem_step.step_new) (simp_all add: new_memory_refresh_store_def)
  then show ?thesis by auto
qed

lemmas demo_simps = demo_store_def mem_new_token_def new_memory_refresh_store_def Let_def

text \<open>
  In every state the store can reach, by any calls at any times, the four maps agree: a token
  hash points to a family exactly when the family lists it, every family has its current hash on
  record, and the per-user index names exactly the user's families.
\<close>

theorem refresh_maps_agree:
  assumes "(mem_step H)\<^sup>*\<^sup>* (new_memory_refresh_store, {}) (s, iss)"
  shows "mem_ok s"
  using conf_ok_steps [OF assms conf_ok_initial] by (simp add: conf_ok_def)

theorem refresh_maps_agree_witness: "mem_ok demo_store"
  using refresh_maps_agree [OF demo_reachable] .

text \<open>
  C5: A refresh token is accepted at most once: when presenting it has produced a replacement, no
  later call in any continuation of the run, at any time, accepts it again.
\<close>

theorem refresh_single_use:
  assumes "(mem_step H)\<^sup>*\<^sup>* (new_memory_refresh_store, {}) (s, iss)" and "H new \<notin> iss"
    and "mem_rotate H (Some new) now ttl t s = (Inr x, s')"
    and "(mem_step H)\<^sup>*\<^sup>* (s', insert (H new) iss) (s2, iss2)"
  shows "fst (mem_rotate H rnd now2 ttl2 t s2) \<noteq> Inr y"
proof -
  have "conf_ok (s, iss)" using conf_ok_steps [OF assms(1) conf_ok_initial] .
  then have "retired (H t) (s', insert (H new) iss)" using assms(2,3) by (rule rotate_retires)
  then have "retired (H t) (s2, iss2)" by (rule retired_steps [OF assms(4)])
  then show ?thesis using retired_not_served [of H t "(s2, iss2)"] by simp
qed

theorem refresh_single_use_witness:
  "fst (mem_rotate id (Some (lit ''t1'')) 5 100 (lit ''t0'') demo_store) = Inr (lit ''u'', lit ''t1'') \<and>
   fst (mem_rotate id (Some (lit ''t2'')) 6 100 (lit ''t0'')
     (snd (mem_rotate id (Some (lit ''t1'')) 5 100 (lit ''t0'') demo_store))) \<noteq> Inr (lit ''u'', lit ''t2'')"
proof -
  obtain s' where s': "mem_rotate id (Some (lit ''t1'')) 5 100 (lit ''t0'') demo_store =
      (Inr (lit ''u'', lit ''t1''), s')"
    by (simp add: demo_simps mem_rotate_def)
  have "id (lit ''t1'') \<notin> {lit ''t0''}" by simp
  from refresh_single_use [OF demo_reachable this s' rtranclp.rtrancl_refl]
  show ?thesis using s' by simp
qed

text \<open>
  C27: Replay detection.  If a current token was copied, the first party to present it gets the
  replacement, the second is told \<open>ErrRefreshTokenReplay\<close>, and after that the replacement held by
  the first party is refused too: the whole family is revoked.
\<close>

theorem refresh_theft_detected:
  assumes "(mem_step H)\<^sup>*\<^sup>* (new_memory_refresh_store, {}) (s, iss)" and "H new \<notin> iss"
    and "mem_status H now s t = Current u" and "0 \<le> ttl"
  shows "\<exists>s1 s2 s3. mem_rotate H (Some new) now ttl t s = (Inr (u, new), s1) \<and>
           mem_rotate H (Some new2) now ttl t s1 = (Inl ErrRefreshTokenReplay, s2) \<and>
           mem_rotate H (Some new3) now ttl new s2 = (Inl ErrInvalidRefreshToken, s3)"
proof -
  have "conf_ok (s, iss)" using conf_ok_steps [OF assms(1) conf_ok_initial] .
  then have "mem_ok s" and "mem_family H s new = None"
    using assms(2) by (auto simp: conf_ok_def mem_family_def)
  then show ?thesis using mem.theft_detected assms(3,4) by blast
qed

theorem refresh_theft_detected_witness:
  "\<exists>s1 s2 s3. mem_rotate id (Some (lit ''a'')) 5 100 (lit ''t0'') demo_store = (Inr (lit ''u'', lit ''a''), s1) \<and>
     mem_rotate id (Some (lit ''b'')) 5 100 (lit ''t0'') s1 = (Inl ErrRefreshTokenReplay, s2) \<and>
     mem_rotate id (Some (lit ''c'')) 5 100 (lit ''a'') s2 = (Inl ErrInvalidRefreshToken, s3)"
  by (rule refresh_theft_detected [OF demo_reachable]) (simp_all add: demo_simps mem_status_def)

text \<open>
  Revoking a user's refresh tokens, in whatever order the runtime enumerates the families,
  makes every token of that user unknown and leaves every other token's state as it was.
\<close>

theorem refresh_revoke_user:
  assumes "(mem_step H)\<^sup>*\<^sup>* (new_memory_refresh_store, {}) (s, iss)" and "user \<noteq> []"
    and "set ids = user_family_ids s user"
  shows "mem_status H now (mem_revoke_user ids s) t =
    (case mem_status H now s t of
       Unknown \<Rightarrow> Unknown
     | Current v \<Rightarrow> if v = user then Unknown else Current v
     | Spent v \<Rightarrow> if v = user then Unknown else Spent v)"
proof -
  have ok: "mem_ok s" using conf_ok_steps [OF assms(1) conf_ok_initial] by (simp add: conf_ok_def)
  have mem: "fid \<in> set ids \<longleftrightarrow> fam_user F = user" if "families s fid = Some F" for fid F
    using mem_okD(4) [OF ok that] mem_okD(5) [OF ok assms(2), of fid] that assms(3) by auto
  show ?thesis
  proof (cases "tokenFamily s (H t)")
    case None
    then show ?thesis by (simp add: mem_status_def mem_revoke_user_tokenFamily ok)
  next
    case (Some fid)
    obtain F where F: "families s fid = Some F" using mem_ok_token_family [OF ok Some] by blast
    show ?thesis using Some F mem [OF F]
      by (simp add: mem_status_def mem_revoke_user_tokenFamily mem_revoke_user_families ok)
  qed
qed

theorem refresh_revoke_user_witness:
  "mem_status id 5 demo_store (lit ''t0'') = Current (lit ''u'') \<and>
   mem_status id 5 (mem_revoke_user [lit ''f''] demo_store) (lit ''t0'') = Unknown"
proof -
  have st: "mem_status id 5 demo_store (lit ''t0'') = Current (lit ''u'')"
    by (simp add: demo_simps mem_status_def)
  have ids: "set [lit ''f''] = user_family_ids demo_store (lit ''u'')"
    by (simp add: demo_simps user_family_ids_def)
  show ?thesis using refresh_revoke_user [OF demo_reachable _ ids, of 5 "lit ''t0''"] st by simp
qed

end
