(* ===== verification/RedisApi.thy ===== *)
theory RedisApi
  imports Prelude
begin

text \<open>
  The Redis server as the sources use it through \<open>go-redis\<close>.  The server is a parameter of every
  component that talks to it: a function from the time, a command and the state of the connection
  (any type \<open>'w\<close>) to an error or a reply and the next state.  The locale \<open>redis_server\<close> states the
  documented behaviour the components rely on: a reply is what the command does to the key space,
  and a failed call (a timeout, a lost connection) may or may not have reached the server.
  \<open>faulty_redis\<close> is a server that satisfies it, with an arbitrary schedule of failures.
\<close>

section \<open>Commands and replies\<close>

datatype redis_err = RedisErr gostr

text \<open>A stream has a counter for the next ID, its entries, and the IDs pending in the one group used.\<close>

datatype rval = VStr gostr | VHash "gostr \<rightharpoonup> gostr" | VSet "gostr list" | VInt int
  | VStream nat "(nat \<times> (gostr \<times> gostr) list) list" "nat list"

datatype rcmd =
    Get gostr
  | Set gostr gostr duration              \<comment> \<open>expiry 0: the key is kept\<close>
  | SetNX gostr gostr duration
  | Exists gostr
  | Del "gostr list"
  | Ttl gostr
  | HGetAll gostr
  | HSet gostr "(gostr \<times> gostr) list"
  | Expire gostr duration
  | SAdd gostr gostr
  | SRem gostr gostr
  | SMembers gostr
  | IncrWindow gostr int                  \<comment> \<open>the Lua script: INCR, then PEXPIRE on the first\<close>
  | XAdd gostr "(gostr \<times> gostr) list"    \<comment> \<open>without the approximate trimming at MAXLEN\<close>
  | XAck gostr gostr nat
  | XDel gostr nat
  | Multi "rcmd list"                     \<comment> \<open>MULTI ... EXEC of write commands\<close>
  | MultiWatched gostr "rcmd list"        \<comment> \<open>the same under WATCH of a key\<close>

datatype rreply =
    RNil | ROk | RStr gostr | RInt int | RHash "gostr \<rightharpoonup> gostr" | RMembers "gostr list" | RTxFailed

type_synonym 'w redis = "gotime \<Rightarrow> rcmd \<Rightarrow> 'w \<Rightarrow> (redis_err + rreply) \<times> 'w"

section \<open>The key space\<close>

text \<open>A key holds a value and, if it expires, the time at which it does.\<close>

type_synonym keyspace = "gostr \<rightharpoonup> rval \<times> gotime option"

definition live :: "gotime \<Rightarrow> keyspace \<Rightarrow> gostr \<Rightarrow> rval option" where
  "live now K k =
     (case K k of None \<Rightarrow> None
      | Some (v, None) \<Rightarrow> Some v
      | Some (v, Some d) \<Rightarrow> if now < d then Some v else None)"

definition deadline :: "gotime \<Rightarrow> keyspace \<Rightarrow> gostr \<Rightarrow> gotime option" where
  "deadline now K k = (if live now K k = None then None else (case K k of None \<Rightarrow> None | Some (_, d) \<Rightarrow> d))"

definition until :: "gotime \<Rightarrow> duration \<Rightarrow> gotime option" where
  "until now ttl = (if ttl = 0 then None else Some (now + ttl))"

definition hash_of :: "rval option \<Rightarrow> (gostr \<rightharpoonup> gostr)" where
  "hash_of v = (case v of Some (VHash h) \<Rightarrow> h | _ \<Rightarrow> Map.empty)"

definition members_of :: "rval option \<Rightarrow> gostr list" where
  "members_of v = (case v of Some (VSet ms) \<Rightarrow> ms | _ \<Rightarrow> [])"

definition counter_of :: "rval option \<Rightarrow> int" where
  "counter_of v = (case v of Some (VInt n) \<Rightarrow> n | _ \<Rightarrow> 0)"

definition stream_of :: "rval option \<Rightarrow> nat \<times> (nat \<times> (gostr \<times> gostr) list) list \<times> nat list" where
  "stream_of v = (case v of Some (VStream n es ps) \<Rightarrow> (n, es, ps) | _ \<Rightarrow> (0, [], []))"

text \<open>\<open>TTL\<close> answers in seconds, rounded to the nearest; the client turns them into a duration.\<close>

definition ttl_seconds :: "duration \<Rightarrow> duration" where
  "ttl_seconds left = (left div millisecond + 500) div 1000 * second"

lemma ttl_seconds_bound: "left - second \<le> ttl_seconds left" "second \<le> left \<Longrightarrow> 0 < ttl_seconds left"
proof -
  have l: "left = left div millisecond * millisecond + left mod millisecond" "left mod millisecond < millisecond"
      "0 \<le> left mod millisecond"
    by (simp_all add: millisecond_def)
  have q: "left div millisecond + 500 = (left div millisecond + 500) div 1000 * 1000 + (left div millisecond + 500) mod 1000"
      "(left div millisecond + 500) mod 1000 < 1000"
    by simp_all
  show "left - second \<le> ttl_seconds left"
    using l q unfolding ttl_seconds_def second_def millisecond_def by linarith
  show "0 < ttl_seconds left" if "second \<le> left"
    using l q that unfolding ttl_seconds_def second_def millisecond_def by linarith
qed

text \<open>The effect of a write command; the others leave the key space alone.\<close>

fun rwrite :: "gotime \<Rightarrow> rcmd \<Rightarrow> keyspace \<Rightarrow> keyspace" where
  "rwrite now (Set k v ttl) K = K(k \<mapsto> (VStr v, until now ttl))"
| "rwrite now (SetNX k v ttl) K = (if live now K k = None then K(k \<mapsto> (VStr v, until now ttl)) else K)"
| "rwrite now (Del ks) K = (\<lambda>k. if k \<in> set ks then None else K k)"
| "rwrite now (HSet k fs) K =
     K(k \<mapsto> (VHash (hash_of (live now K k) ++ map_of (rev fs)), deadline now K k))"
| "rwrite now (Expire k ttl) K =
     (case live now K k of None \<Rightarrow> K | Some v \<Rightarrow> K(k \<mapsto> (v, Some (now + ttl))))"
| "rwrite now (SAdd k m) K =
     K(k \<mapsto> (VSet (List.insert m (members_of (live now K k))), deadline now K k))"
| "rwrite now (SRem k m) K =
     (case removeAll m (members_of (live now K k)) of [] \<Rightarrow> K(k := None)
      | ms \<Rightarrow> K(k \<mapsto> (VSet ms, deadline now K k)))"
| "rwrite now (IncrWindow k ms) K =
     (let n = counter_of (live now K k) + 1 in
      K(k \<mapsto> (VInt n, if n = 1 then Some (now + ms * millisecond) else deadline now K k)))"
| "rwrite now (XAdd k fs) K =
     (let (n, es, ps) = stream_of (live now K k) in
      K(k \<mapsto> (VStream (n + 1) (es @ [(n, fs)]) ps, deadline now K k)))"
| "rwrite now (XAck k g i) K =
     (case live now K k of Some (VStream n es ps) \<Rightarrow> K(k \<mapsto> (VStream n es (removeAll i ps), deadline now K k))
      | _ \<Rightarrow> K)"
| "rwrite now (XDel k i) K =
     (case live now K k of
        Some (VStream n es ps) \<Rightarrow> K(k \<mapsto> (VStream n (filter (\<lambda>e. fst e \<noteq> i) es) ps, deadline now K k))
      | _ \<Rightarrow> K)"
| "rwrite now (Multi cs) K = fold (rwrite now) cs K"
| "rwrite now (MultiWatched _ cs) K = fold (rwrite now) cs K"
| "rwrite now _ K = K"

text \<open>Which replies a command may have.  The order of \<open>SMEMBERS\<close> is up to the server.\<close>

fun rreply_ok :: "gotime \<Rightarrow> rcmd \<Rightarrow> keyspace \<Rightarrow> rreply \<Rightarrow> bool" where
  "rreply_ok now (Get k) K r = (r = (case live now K k of Some (VStr s) \<Rightarrow> RStr s | _ \<Rightarrow> RNil))"
| "rreply_ok now (SetNX k v ttl) K r = (r = RInt (if live now K k = None then 1 else 0))"
| "rreply_ok now (Exists k) K r = (r = RInt (if live now K k = None then 0 else 1))"
| "rreply_ok now (Del ks) K r =
     (r = RInt (int (length (filter (\<lambda>k. live now K k \<noteq> None) (remdups ks)))))"
| "rreply_ok now (Ttl k) K r =
     (r = RInt (case live now K k of None \<Rightarrow> - 2
                | Some _ \<Rightarrow> (case deadline now K k of None \<Rightarrow> - 1 | Some d \<Rightarrow> ttl_seconds (d - now))))"
| "rreply_ok now (HGetAll k) K r = (r = RHash (hash_of (live now K k)))"
| "rreply_ok now (SMembers k) K r =
     (\<exists>ms. r = RMembers ms \<and> set ms = set (members_of (live now K k)))"
| "rreply_ok now (IncrWindow k ms) K r = (r = RInt (counter_of (live now K k) + 1))"
| "rreply_ok now (MultiWatched _ _) K r = (r = ROk \<or> r = RTxFailed)"
| "rreply_ok now _ K r = (r = ROk)"

definition reffect :: "gotime \<Rightarrow> rcmd \<Rightarrow> rreply \<Rightarrow> keyspace \<Rightarrow> keyspace" where
  "reffect now c r K = (if r = RTxFailed then K else rwrite now c K)"

section \<open>What is assumed of a server\<close>

locale redis_server =
  fixes rdo :: "'w redis"
    and ks :: "'w \<Rightarrow> keyspace"
  assumes reply: "rdo now c w = (Inr r, w') \<Longrightarrow> rreply_ok now c (ks w) r \<and> ks w' = reffect now c r (ks w)"
    and failure: "rdo now c w = (Inl e, w') \<Longrightarrow> ks w' = ks w \<or> ks w' = rwrite now c (ks w)"
begin

lemma get_reply:
  "rdo now (Get k) w = (Inr r, w') \<Longrightarrow>
   r = (case live now (ks w) k of Some (VStr s) \<Rightarrow> RStr s | _ \<Rightarrow> RNil) \<and> ks w' = ks w"
  using reply [of now "Get k" w r w'] by (auto simp: reffect_def)

lemma get_state: "rdo now (Get k) w = (r, w') \<Longrightarrow> ks w' = ks w"
  using reply [of now "Get k" w _ w'] failure [of now "Get k" w _ w'] by (cases r) (auto simp: reffect_def)

lemma exists_reply:
  "rdo now (Exists k) w = (Inr r, w') \<Longrightarrow>
   r = RInt (if live now (ks w) k = None then 0 else 1) \<and> ks w' = ks w"
  using reply [of now "Exists k" w r w'] by (auto simp: reffect_def)

lemma set_reply: "rdo now (Set k v ttl) w = (Inr r, w') \<Longrightarrow> ks w' = (ks w)(k \<mapsto> (VStr v, until now ttl))"
  using reply [of now "Set k v ttl" w r w'] by (auto simp: reffect_def)

lemma setnx_reply:
  "rdo now (SetNX k v ttl) w = (Inr r, w') \<Longrightarrow>
   r = RInt (if live now (ks w) k = None then 1 else 0) \<and>
   ks w' = (if live now (ks w) k = None then (ks w)(k \<mapsto> (VStr v, until now ttl)) else ks w)"
  using reply [of now "SetNX k v ttl" w r w'] by (auto simp: reffect_def)

lemma del_reply:
  "rdo now (Del kl) w = (Inr r, w') \<Longrightarrow>
   r = RInt (int (length (filter (\<lambda>k. live now (ks w) k \<noteq> None) (remdups kl)))) \<and>
   ks w' = (\<lambda>k. if k \<in> set kl then None else ks w k)"
  using reply [of now "Del kl" w r w'] by (auto simp: reffect_def)

lemma incr_reply:
  "rdo now (IncrWindow k ms) w = (Inr r, w') \<Longrightarrow>
   r = RInt (counter_of (live now (ks w) k) + 1) \<and> ks w' = rwrite now (IncrWindow k ms) (ks w)"
  using reply [of now "IncrWindow k ms" w r w'] by (auto simp: reffect_def)

lemma hgetall_reply:
  "rdo now (HGetAll k) w = (Inr r, w') \<Longrightarrow> r = RHash (hash_of (live now (ks w) k)) \<and> ks w' = ks w"
  using reply [of now "HGetAll k" w r w'] by (auto simp: reffect_def)

lemma smembers_reply:
  "rdo now (SMembers k) w = (Inr r, w') \<Longrightarrow>
   (\<exists>ms. r = RMembers ms \<and> set ms = set (members_of (live now (ks w) k))) \<and> ks w' = ks w"
  using reply [of now "SMembers k" w r w'] by (auto simp: reffect_def)

lemma ttl_reply:
  "rdo now (Ttl k) w = (Inr r, w') \<Longrightarrow>
   r = RInt (case live now (ks w) k of None \<Rightarrow> - 2
             | Some _ \<Rightarrow> (case deadline now (ks w) k of None \<Rightarrow> - 1 | Some d \<Rightarrow> ttl_seconds (d - now))) \<and> ks w' = ks w"
  using reply [of now "Ttl k" w r w'] by (auto simp: reffect_def)

lemma expire_state:
  "rdo now (Expire k ttl) w = (r, w') \<Longrightarrow> ks w' = ks w \<or> ks w' = rwrite now (Expire k ttl) (ks w)"
  using reply [of now "Expire k ttl" w _ w'] failure [of now "Expire k ttl" w _ w']
  by (cases r) (auto simp: reffect_def)

lemma hset_reply:
  "rdo now (HSet k fs) w = (Inr r, w') \<Longrightarrow>
   ks w' = (ks w)(k \<mapsto> (VHash (hash_of (live now (ks w) k) ++ map_of (rev fs)), deadline now (ks w) k))"
  using reply [of now "HSet k fs" w r w'] by (auto simp: reffect_def)

lemma multi_reply: "rdo now (Multi cs) w = (Inr r, w') \<Longrightarrow> r = ROk \<and> ks w' = fold (rwrite now) cs (ks w)"
  using reply [of now "Multi cs" w r w'] by (auto simp: reffect_def)

end

section \<open>A server with an arbitrary schedule of failures\<close>

fun rrun :: "gotime \<Rightarrow> rcmd \<Rightarrow> keyspace \<Rightarrow> rreply" where
  "rrun now (Get k) K = (case live now K k of Some (VStr s) \<Rightarrow> RStr s | _ \<Rightarrow> RNil)"
| "rrun now (SetNX k v ttl) K = RInt (if live now K k = None then 1 else 0)"
| "rrun now (Exists k) K = RInt (if live now K k = None then 0 else 1)"
| "rrun now (Del ks) K = RInt (int (length (filter (\<lambda>k. live now K k \<noteq> None) (remdups ks))))"
| "rrun now (Ttl k) K =
     RInt (case live now K k of None \<Rightarrow> - 2
           | Some _ \<Rightarrow> (case deadline now K k of None \<Rightarrow> - 1 | Some d \<Rightarrow> ttl_seconds (d - now)))"
| "rrun now (HGetAll k) K = RHash (hash_of (live now K k))"
| "rrun now (SMembers k) K = RMembers (members_of (live now K k))"
| "rrun now (IncrWindow k ms) K = RInt (counter_of (live now K k) + 1)"
| "rrun now _ K = ROk"

lemma rrun_ok: "rreply_ok now c K (rrun now c K)"
  by (cases c) auto

lemma rrun_not_failed: "rrun now c K \<noteq> RTxFailed"
  by (cases c) (auto split: option.splits rval.splits)

text \<open>
  The schedule: the next call succeeds (\<open>None\<close>), or fails before (\<open>Some False\<close>) or after
  (\<open>Some True\<close>) the command took effect.  An exhausted schedule means success.
\<close>

fun faulty_redis :: "(keyspace \<times> bool option list) redis" where
  "faulty_redis now c (K, []) = (Inr (rrun now c K), (rwrite now c K, []))"
| "faulty_redis now c (K, None # fs) = (Inr (rrun now c K), (rwrite now c K, fs))"
| "faulty_redis now c (K, Some b # fs) =
     (Inl (RedisErr (lit ''io'')), (if b then rwrite now c K else K, fs))"

interpretation fr: redis_server faulty_redis fst
proof
  fix now c w r w'
  assume "faulty_redis now c w = (Inr r, w')"
  then show "rreply_ok now c (fst w) r \<and> fst w' = reffect now c r (fst w)"
    by (cases "(now, c, w)" rule: faulty_redis.cases)
       (auto simp: rrun_ok reffect_def rrun_not_failed)
next
  fix now c w e w'
  assume "faulty_redis now c w = (Inl e, w')"
  then show "fst w' = fst w \<or> fst w' = rwrite now c (fst w)"
    by (cases "(now, c, w)" rule: faulty_redis.cases) auto
qed

lemma redis_server_faulty: "redis_server faulty_redis fst"
  by (rule fr.redis_server_axioms)

end
