(* ===== verification/TokenRevoker.thy ===== *)
theory TokenRevoker
  imports RedisApi
begin

text \<open>
  The revocation stores of \<open>backend/pkg/store/token_revoker.go\<close>: revoked token IDs until their
  expiry and a per-user cutoff, in memory and in Redis, and the contract both satisfy
  (\<open>token_revoker\<close>), on which the session store rests.  \<open>fmt\<close> and \<open>prs\<close> are
  \<open>time.Format\<close> and \<open>time.Parse\<close> with RFC3339Nano.
\<close>

section \<open>In memory\<close>

record mem_revoker =
  rv_tokens :: "gostr \<rightharpoonup> gotime"
  rv_users :: "gostr \<rightharpoonup> gotime"

definition new_memory_revoker :: mem_revoker where
  "new_memory_revoker = \<lparr>rv_tokens = Map.empty, rv_users = Map.empty\<rparr>"

definition mem_revoke ::
    "gotime \<Rightarrow> gostr \<Rightarrow> duration \<Rightarrow> mem_revoker \<Rightarrow> redis_err option \<times> mem_revoker" where
  "mem_revoke now token ttl r =
     (if ttl \<le> 0 then (None, r)
      else (None, r\<lparr>rv_tokens := (rv_tokens r)(token \<mapsto> now + ttl)\<rparr>))"

definition mem_is_revoked ::
    "gotime \<Rightarrow> gostr \<Rightarrow> mem_revoker \<Rightarrow> (redis_err + bool) \<times> mem_revoker" where
  "mem_is_revoked now token r =
     (case rv_tokens r token of None \<Rightarrow> (Inr False, r)
      | Some expiry \<Rightarrow>
          if expiry < now then (Inr False, r\<lparr>rv_tokens := (rv_tokens r)(token := None)\<rparr>)
          else (Inr True, r))"

definition user_cutoff :: "mem_revoker \<Rightarrow> gostr \<Rightarrow> gotime" where
  "user_cutoff r user = (case rv_users r user of None \<Rightarrow> zero_time | Some t \<Rightarrow> t)"

definition mem_revoker_user ::
    "gotime \<Rightarrow> gostr \<Rightarrow> gotime \<Rightarrow> mem_revoker \<Rightarrow> redis_err option \<times> mem_revoker" where
  "mem_revoker_user now user since r =
     (let u = trim_space user in
      if u = [] then (None, r)
      else
        let since' = (if is_zero since then now else since);
            prev = user_cutoff r u
        in if is_zero prev \<or> prev < since'
           then (None, r\<lparr>rv_users := (rv_users r)(u \<mapsto> since')\<rparr>)
           else (None, r))"

definition mem_revoked_after ::
    "gotime \<Rightarrow> gostr \<Rightarrow> mem_revoker \<Rightarrow> (redis_err + gotime) \<times> mem_revoker" where
  "mem_revoked_after now user r =
     (let u = trim_space user in if u = [] then (Inr zero_time, r) else (Inr (user_cutoff r u), r))"

section \<open>In Redis\<close>

definition revocation_key :: "gostr \<Rightarrow> gostr" where
  "revocation_key token = lit ''revoked:'' @ token"

definition user_revocation_cutoff_key :: "gostr \<Rightarrow> gostr" where
  "user_revocation_cutoff_key user = lit ''revoked-user-since:'' @ user"

definition redis_revoke ::
    "'w redis \<Rightarrow> gotime \<Rightarrow> gostr \<Rightarrow> duration \<Rightarrow> 'w \<Rightarrow> redis_err option \<times> 'w" where
  "redis_revoke rdo now token ttl w =
     (if ttl \<le> 0 then (None, w)
      else (case rdo now (Set (revocation_key token) (lit ''1'') ttl) w of
              (Inl e, w') \<Rightarrow> (Some e, w')
            | (Inr _, w') \<Rightarrow> (None, w')))"

definition redis_is_revoked ::
    "'w redis \<Rightarrow> gotime \<Rightarrow> gostr \<Rightarrow> 'w \<Rightarrow> (redis_err + bool) \<times> 'w" where
  "redis_is_revoked rdo now token w =
     (case rdo now (Exists (revocation_key token)) w of
        (Inl e, w') \<Rightarrow> (Inl e, w')
      | (Inr r, w') \<Rightarrow> (Inr (case r of RInt n \<Rightarrow> 0 < n | _ \<Rightarrow> False), w'))"

definition redis_revoker_user ::
    "'w redis \<Rightarrow> (gotime \<Rightarrow> gostr) \<Rightarrow> (gostr \<Rightarrow> gotime option) \<Rightarrow> gotime \<Rightarrow> gostr \<Rightarrow> gotime \<Rightarrow>
     'w \<Rightarrow> redis_err option \<times> 'w" where
  "redis_revoker_user rdo fmt prs now user since w =
     (let u = trim_space user in
      if u = [] then (None, w)
      else
        let since' = (if is_zero since then now else since);
            key = user_revocation_cutoff_key u
        in (case rdo now (Get key) w of
              (Inl e, w1) \<Rightarrow> (Some e, w1)
            | (Inr r, w1) \<Rightarrow>
                let prev = prs (case r of RStr s \<Rightarrow> s | _ \<Rightarrow> []) in
                if (case prev of None \<Rightarrow> False | Some p \<Rightarrow> \<not> p < since') then (None, w1)
                else (case rdo now (Set key (fmt since') 0) w1 of
                        (Inl e, w2) \<Rightarrow> (Some e, w2)
                      | (Inr _, w2) \<Rightarrow> (None, w2))))"

definition redis_revoked_after ::
    "'w redis \<Rightarrow> (gostr \<Rightarrow> gotime option) \<Rightarrow> gotime \<Rightarrow> gostr \<Rightarrow> 'w \<Rightarrow> (redis_err + gotime) \<times> 'w" where
  "redis_revoked_after rdo prs now user w =
     (let u = trim_space user in
      if u = [] then (Inr zero_time, w)
      else (case rdo now (Get (user_revocation_cutoff_key u)) w of
              (Inl e, w') \<Rightarrow> (Inl e, w')
            | (Inr (RStr raw), w') \<Rightarrow>
                (Inr (case prs raw of None \<Rightarrow> zero_time | Some t \<Rightarrow> t), w')
            | (Inr _, w') \<Rightarrow> (Inr zero_time, w')))"

section \<open>The contract\<close>

text \<open>
  \<open>revoked\<close> says whether a token ID is revoked at a time, \<open>cutoff\<close> gives the revocation time of
  a user (zero when there is none).  Queries keep both, a revocation lasts until its expiry, a
  cutoff never moves back, and a call that fails has at most the effect of one that succeeds.
\<close>

locale token_revoker =
  fixes revoke :: "gotime \<Rightarrow> gostr \<Rightarrow> duration \<Rightarrow> 's \<Rightarrow> redis_err option \<times> 's"
    and is_revoked :: "gotime \<Rightarrow> gostr \<Rightarrow> 's \<Rightarrow> (redis_err + bool) \<times> 's"
    and revoke_user :: "gotime \<Rightarrow> gostr \<Rightarrow> gotime \<Rightarrow> 's \<Rightarrow> redis_err option \<times> 's"
    and revoked_after :: "gotime \<Rightarrow> gostr \<Rightarrow> 's \<Rightarrow> (redis_err + gotime) \<times> 's"
    and inv :: "'s \<Rightarrow> bool"
    and revoked :: "gotime \<Rightarrow> 's \<Rightarrow> gostr \<Rightarrow> bool"
    and cutoff :: "'s \<Rightarrow> gostr \<Rightarrow> gotime"
  assumes revoke_inv: "inv s \<Longrightarrow> revoke now tok ttl s = (e, s') \<Longrightarrow> inv s'"
    and revoke_done:
      "inv s \<Longrightarrow> revoke now tok ttl s = (None, s') \<Longrightarrow> 0 < ttl \<Longrightarrow> now' < now + ttl \<Longrightarrow>
       revoked now' s' tok"
    and revoke_expires:
      "inv s \<Longrightarrow> revoke now tok ttl s = (None, s') \<Longrightarrow> 0 < ttl \<Longrightarrow> now + ttl < now' \<Longrightarrow>
       \<not> revoked now' s' tok"
    and revoke_nothing: "inv s \<Longrightarrow> revoke now tok ttl s = (e, s') \<Longrightarrow> ttl \<le> 0 \<Longrightarrow> s' = s"
    and revoke_keeps:
      "inv s \<Longrightarrow> revoke now tok ttl s = (e, s') \<Longrightarrow> revoked now' s t \<Longrightarrow>
       t \<noteq> tok \<or> ttl \<le> 0 \<or> now' < now + ttl \<Longrightarrow> revoked now' s' t"
    and revoke_other:
      "inv s \<Longrightarrow> revoke now tok ttl s = (e, s') \<Longrightarrow> t \<noteq> tok \<Longrightarrow> revoked now' s' t = revoked now' s t"
    and revoke_cutoff: "inv s \<Longrightarrow> revoke now tok ttl s = (e, s') \<Longrightarrow> cutoff s' u = cutoff s u"
    and is_revoked_result:
      "inv s \<Longrightarrow> is_revoked now tok s = (q, s') \<Longrightarrow> q = Inr b \<Longrightarrow> b = revoked now s tok"
    and is_revoked_state:
      "inv s \<Longrightarrow> is_revoked now tok s = (q, s') \<Longrightarrow>
       inv s' \<and> cutoff s' u = cutoff s u \<and> (now \<le> now' \<longrightarrow> revoked now' s' t = revoked now' s t)"
    and revoke_user_done:
      "inv s \<Longrightarrow> revoke_user now user since s = (None, s') \<Longrightarrow> trim_space user \<noteq> [] \<Longrightarrow>
       valid_time now \<Longrightarrow> valid_time since \<Longrightarrow> \<not> is_zero since \<Longrightarrow> since \<le> cutoff s' (trim_space user)"
    and revoke_user_mono:
      "inv s \<Longrightarrow> revoke_user now user since s = (e, s') \<Longrightarrow> valid_time now \<Longrightarrow> valid_time since \<Longrightarrow>
       inv s' \<and> cutoff s u \<le> cutoff s' u \<and> revoked now' s' t = revoked now' s t"
    and revoke_user_other:
      "inv s \<Longrightarrow> revoke_user now user since s = (e, s') \<Longrightarrow> u \<noteq> trim_space user \<Longrightarrow> cutoff s' u = cutoff s u"
    and revoked_after_result:
      "inv s \<Longrightarrow> revoked_after now user s = (q', s') \<Longrightarrow> q' = Inr c \<Longrightarrow> trim_space user \<noteq> [] \<Longrightarrow>
       c = cutoff s (trim_space user)"
    and revoked_after_state:
      "inv s \<Longrightarrow> revoked_after now user s = (q', s') \<Longrightarrow>
       inv s' \<and> cutoff s' u = cutoff s u \<and> revoked now' s' t = revoked now' s t"

definition mem_revoked :: "gotime \<Rightarrow> mem_revoker \<Rightarrow> gostr \<Rightarrow> bool" where
  "mem_revoked now r token = (case rv_tokens r token of None \<Rightarrow> False | Some e \<Rightarrow> now \<le> e)"

text \<open>The cutoffs in memory are never before the zero time.\<close>

definition mem_revoker_inv :: "mem_revoker \<Rightarrow> bool" where
  "mem_revoker_inv r \<longleftrightarrow> (\<forall>u t. rv_users r u = Some t \<longrightarrow> zero_time \<le> t)"

lemma new_memory_revoker_inv: "mem_revoker_inv new_memory_revoker"
  by (simp add: mem_revoker_inv_def new_memory_revoker_def)

lemmas mem_revoker_defs =
  mem_revoke_def mem_is_revoked_def mem_revoked_after_def mem_revoked_def mem_revoker_user_def
  user_cutoff_def mem_revoker_inv_def is_zero_def valid_time_def

interpretation mr: token_revoker mem_revoke mem_is_revoked mem_revoker_user mem_revoked_after
  mem_revoker_inv mem_revoked user_cutoff
proof (unfold_locales, goal_cases)
  case (10 s now user since s')
  then show ?case
    by (auto simp: mem_revoker_defs Let_def split: if_splits option.splits)
next
  case (11 s now user since e s' u now' t)
  then show ?case
    by (auto simp: mem_revoker_defs Let_def split: if_splits option.splits)
qed (auto simp: mem_revoker_defs Let_def split: if_splits option.splits)

subsection \<open>The Redis store satisfies it\<close>

lemma revocation_keys_differ: "revocation_key a \<noteq> user_revocation_cutoff_key b"
proof
  assume "revocation_key a = user_revocation_cutoff_key b"
  then have "take 8 (revocation_key a) = take 8 (user_revocation_cutoff_key b)" by simp
  moreover have "take 8 (revocation_key a) = lit ''revoked:''"
    by (simp add: revocation_key_def lit_Cons)
  moreover have "take 8 (user_revocation_cutoff_key b) = lit ''revoked-''"
    by (simp add: user_revocation_cutoff_key_def lit_Cons)
  ultimately show False by simp
qed

lemmas revocation_keys_differ' [simp] = revocation_keys_differ revocation_keys_differ [symmetric]

lemma user_key_inject [simp]: "user_revocation_cutoff_key a = user_revocation_cutoff_key b \<longleftrightarrow> a = b"
  by (simp add: user_revocation_cutoff_key_def)

lemma revocation_key_inject [simp]: "revocation_key a = revocation_key b \<longleftrightarrow> a = b"
  by (simp add: revocation_key_def)

definition redis_revoked :: "('w \<Rightarrow> keyspace) \<Rightarrow> gotime \<Rightarrow> 'w \<Rightarrow> gostr \<Rightarrow> bool" where
  "redis_revoked ks now w token = (live now (ks w) (revocation_key token) \<noteq> None)"

definition cutoff_value :: "(gostr \<Rightarrow> gotime option) \<Rightarrow> (rval \<times> gotime option) option \<Rightarrow> gotime" where
  "cutoff_value prs v =
     (case v of Some (VStr s, _) \<Rightarrow> (case prs s of None \<Rightarrow> zero_time | Some t \<Rightarrow> t) | _ \<Rightarrow> zero_time)"

definition redis_cutoff :: "('w \<Rightarrow> keyspace) \<Rightarrow> (gostr \<Rightarrow> gotime option) \<Rightarrow> 'w \<Rightarrow> gostr \<Rightarrow> gotime" where
  "redis_cutoff ks prs w user = cutoff_value prs (ks w (user_revocation_cutoff_key user))"

text \<open>A cutoff key holds a time the store wrote, without an expiry.\<close>

definition cutoff_entry :: "(gostr \<Rightarrow> gotime option) \<Rightarrow> (rval \<times> gotime option) option \<Rightarrow> bool" where
  "cutoff_entry prs v =
     (case v of None \<Rightarrow> True
      | Some (VStr s, None) \<Rightarrow> (case prs s of None \<Rightarrow> False | Some t \<Rightarrow> zero_time \<le> t)
      | _ \<Rightarrow> False)"

definition redis_revoker_inv :: "('w \<Rightarrow> keyspace) \<Rightarrow> (gostr \<Rightarrow> gotime option) \<Rightarrow> 'w \<Rightarrow> bool" where
  "redis_revoker_inv ks prs w \<longleftrightarrow> (\<forall>u. cutoff_entry prs (ks w (user_revocation_cutoff_key u)))"

lemma cutoff_entryE:
  assumes "cutoff_entry prs v"
  obtains "v = None" | s t where "v = Some (VStr s, None)" "prs s = Some t" "zero_time \<le> t"
proof (cases v)
  case (Some p)
  obtain a b where p: "p = (a, b)" by force
  show thesis using that assms Some p
    by (cases a; cases b) (auto simp: cutoff_entry_def split: option.splits)
qed (rule that)

lemma cutoff_value_simps [simp]:
  "cutoff_value prs None = zero_time"
  "prs s = Some t \<Longrightarrow> cutoff_value prs (Some (VStr s, d)) = t"
  by (auto simp: cutoff_value_def)

text \<open>
  \<open>time.Format\<close> with RFC3339Nano writes the times of the years 1 to 9999 in full, and
  \<open>time.Parse\<close> reads them back; it fails on the empty string.
\<close>

locale redis_time = redis_server rdo ks
  for rdo :: "'w redis" and ks :: "'w \<Rightarrow> keyspace" +
  fixes fmt :: "gotime \<Rightarrow> gostr" and prs :: "gostr \<Rightarrow> gotime option"
  assumes parse_format: "valid_time t \<Longrightarrow> prs (fmt t) = Some t"
    and parse_empty: "prs [] = None"
begin

abbreviation "entry w u \<equiv> ks w (user_revocation_cutoff_key u)"

lemma rev_step:
  assumes "redis_revoke rdo now tok ttl w = (e, w')"
  shows "ks w' = ks w \<or>
         0 < ttl \<and> ks w' = (ks w)(revocation_key tok \<mapsto> (VStr (lit ''1''), Some (now + ttl)))"
    and "e = None \<Longrightarrow> 0 < ttl \<Longrightarrow>
         ks w' = (ks w)(revocation_key tok \<mapsto> (VStr (lit ''1''), Some (now + ttl)))"
  using assms
  by (auto simp: redis_revoke_def until_def split: if_splits prod.splits sum.splits
           dest!: failure set_reply)

lemma user_step:
  assumes "redis_revoker_user rdo fmt prs now user since w = (e, w')" and "redis_revoker_inv ks prs w"
    and "valid_time now" "valid_time since"
  defines "u \<equiv> trim_space user" and "since' \<equiv> (if is_zero since then now else since)"
  shows "ks w' = ks w \<or>
         (cutoff_value prs (entry w u) \<le> since' \<and>
              ks w' = (ks w)(user_revocation_cutoff_key u \<mapsto> (VStr (fmt since'), None)))"
    and "e = None \<Longrightarrow> u \<noteq> [] \<Longrightarrow> since' \<le> cutoff_value prs (entry w' u)"
proof -
  define key where "key = user_revocation_cutoff_key u"
  have valid: "valid_time since'" using assms by (simp add: since'_def)
  have ent: "cutoff_entry prs (ks w key)" using assms by (simp add: redis_revoker_inv_def key_def)
  obtain q w1 where g: "rdo now (Get key) w = (q, w1)" by force
  have w1: "ks w1 = ks w" using get_state [OF g] .
  have q: "case q of Inl _ \<Rightarrow> True
           | Inr r \<Rightarrow> r = (case live now (ks w) key of Some (VStr s) \<Rightarrow> RStr s | _ \<Rightarrow> RNil)"
    using g get_reply [of now key w] by (cases q) auto
  note defs = redis_revoker_user_def Let_def live_def until_def parse_empty parse_format valid_time_def g
  show "ks w' = ks w \<or> (cutoff_value prs (entry w u) \<le> since' \<and>
          ks w' = (ks w)(user_revocation_cutoff_key u \<mapsto> (VStr (fmt since'), None)))"
    using ent q w1 assms(1) valid
    by (auto simp: defs simp flip: u_def since'_def key_def elim!: cutoff_entryE
        split: if_splits prod.splits sum.splits dest!: failure set_reply)
  show "e = None \<Longrightarrow> u \<noteq> [] \<Longrightarrow> since' \<le> cutoff_value prs (entry w' u)"
    using ent q w1 assms(1) valid
    by (auto simp: defs simp flip: u_def since'_def key_def elim!: cutoff_entryE
        split: if_splits prod.splits sum.splits dest!: failure set_reply)
qed

sublocale rr: token_revoker "redis_revoke rdo" "redis_is_revoked rdo"
  "redis_revoker_user rdo fmt prs" "redis_revoked_after rdo prs"
  "redis_revoker_inv ks prs" "redis_revoked ks" "redis_cutoff ks prs"
proof (unfold_locales, goal_cases)
  case (1 s now tok ttl e s')
  then show ?case using rev_step(1) [OF 1(2)] by (auto simp: redis_revoker_inv_def)
next
  case (2 s now tok ttl s' now')
  then show ?case using rev_step(2) [OF 2(2)] by (auto simp: redis_revoked_def live_def)
next
  case (3 s now tok ttl s' now')
  then show ?case using rev_step(2) [OF 3(2)] by (auto simp: redis_revoked_def live_def)
next
  case (4 s now tok ttl e s')
  then show ?case by (auto simp: redis_revoke_def)
next
  case (5 s now tok ttl e s' now' t)
  then show ?case using rev_step(1) [OF 5(2)] by (auto simp: redis_revoked_def live_def)
next
  case (6 s now tok ttl e s' t now')
  then show ?case using rev_step(1) [OF 6(2)] by (auto simp: redis_revoked_def live_def)
next
  case (7 s now tok ttl e s' u)
  then show ?case using rev_step(1) [OF 7(2)] by (auto simp: redis_cutoff_def)
next
  case (8 s now tok q s' b)
  then show ?case
    by (auto simp: redis_is_revoked_def redis_revoked_def split: prod.splits sum.splits if_splits dest!: exists_reply)
next
  case (9 s now tok q s' u now' t)
  then have "ks s' = ks s"
    by (auto simp: redis_is_revoked_def split: prod.splits sum.splits dest!: exists_reply failure)
  then show ?case using 9 by (simp add: redis_revoker_inv_def redis_cutoff_def redis_revoked_def)
next
  case (10 s now user since s')
  then show ?case using user_step(2) [OF 10(2) 10(1)] by (simp add: redis_cutoff_def)
next
  case (11 s now user since e s' u now' t)
  define since' where "since' = (if is_zero since then now else since)"
  have "prs (fmt since') = Some since'" "zero_time \<le> since'"
    using 11(3,4) by (simp_all add: since'_def parse_format valid_time_def)
  then have new: "cutoff_entry prs (Some (VStr (fmt since'), None))"
      "cutoff_value prs (Some (VStr (fmt since'), None)) = since'"
    by (simp_all add: cutoff_entry_def)
  show ?case
    using user_step(1) [OF 11(2) 11(1) 11(3,4), folded since'_def]
  proof
    assume "ks s' = ks s"
    then show ?thesis using 11(1) by (simp add: redis_revoker_inv_def redis_cutoff_def redis_revoked_def)
  next
    assume "cutoff_value prs (entry s (trim_space user)) \<le> since' \<and>
      ks s' = (ks s)(user_revocation_cutoff_key (trim_space user) \<mapsto> (VStr (fmt since'), None))"
    then show ?thesis using 11(1) new
      by (simp add: redis_revoker_inv_def redis_cutoff_def redis_revoked_def live_def)
  qed
next
  case (12 s now user since e s' u)
  then show ?case
    by (auto simp: redis_revoker_user_def redis_cutoff_def Let_def split: if_splits prod.splits sum.splits
        dest!: failure get_state set_reply)
next
  case (13 s now user q s' c)
  define u where "u = trim_space user"
  obtain r where g: "rdo now (Get (user_revocation_cutoff_key u)) s = (r, s')"
    using 13(2,4) by (auto simp: redis_revoked_after_def Let_def u_def split: prod.splits sum.splits rreply.splits)
  have "cutoff_entry prs (ks s (user_revocation_cutoff_key u))"
    using 13(1) by (simp add: redis_revoker_inv_def)
  then show ?case
    using 13(2-) g get_reply [of now "user_revocation_cutoff_key u" s]
    by (cases r) (auto simp: redis_revoked_after_def redis_cutoff_def Let_def live_def
        simp flip: u_def elim!: cutoff_entryE)
next
  case (14 s now user q s' u now' t)
  then have "ks s' = ks s"
    by (auto simp: redis_revoked_after_def Let_def
        split: if_splits prod.splits sum.splits rreply.splits dest!: get_state)
  then show ?case using 14 by (simp add: redis_revoker_inv_def redis_cutoff_def redis_revoked_def)
qed

lemma redis_token_revoker:
  "token_revoker (redis_revoke rdo) (redis_is_revoked rdo) (redis_revoker_user rdo fmt prs)
     (redis_revoked_after rdo prs) (redis_revoker_inv ks prs) (redis_revoked ks) (redis_cutoff ks prs)"
  by (rule rr.token_revoker_axioms)

end

interpretation frt: redis_time faulty_redis fst itoa parse_int
  by unfold_locales simp_all

end
