(* ===== verification/Sessions.thy ===== *)
theory Sessions
  imports TokenRevoker "HOL-Library.AList"
begin

text \<open>
  The JWT session store of \<open>backend/pkg/store/session_jwt.go\<close>.  The JWT library and the PEM
  loaders are parameters: \<open>jparse\<close> is \<open>jwt.ParseWithClaims\<close> with its key function and options,
  \<open>jsign\<close> is \<open>SignedString\<close>, \<open>ndate\<close> is \<open>jwt.NewNumericDate\<close>; the locale \<open>jwt_library\<close> states
  what the library documents.  The revocation store behind the interface is a record of
  operations, the contract of \<open>TokenRevoker\<close> its laws.
\<close>

section \<open>Data\<close>

record jwt_claims =
  c_sub :: gostr
  c_iss :: gostr
  c_aud :: "gostr list"
  c_exp :: "gotime option"
  c_iat :: "gotime option"
  c_nbf :: "gotime option"
  c_id :: gostr

datatype session_err =
    InvalidTokenFormat | StoreNotConfigured | TokenKeyIdRequired | UnknownTokenKey | JwtErr gostr
  | JtiMissing | TokenRevoked | IssuedAtMissing | TokenRevokedForUser | SubjectMissing
  | RevokerErr redis_err | UserRevocationUnsupported | KeyFileErr gostr

text \<open>\<open>JWTOptions\<close>, and the options of the parser.\<close>

record jwt_options =
  jo_issuer :: gostr
  jo_audience :: gostr
  jo_leeway :: duration

record parser_options =
  po_methods :: "gostr list"
  po_check_iat :: bool
  po_leeway :: duration
  po_issuer :: "gostr option"
  po_audience :: "gostr option"

text \<open>\<open>TokenRevoker\<close>, and the optional \<open>UserTokenRevoker\<close>.\<close>

record 's user_revoker_ops =
  uo_revoke :: "gotime \<Rightarrow> gostr \<Rightarrow> gotime \<Rightarrow> 's \<Rightarrow> redis_err option \<times> 's"
  uo_after :: "gotime \<Rightarrow> gostr \<Rightarrow> 's \<Rightarrow> (redis_err + gotime) \<times> 's"

record 's revoker_ops =
  ro_revoke :: "gotime \<Rightarrow> gostr \<Rightarrow> duration \<Rightarrow> 's \<Rightarrow> redis_err option \<times> 's"
  ro_is_revoked :: "gotime \<Rightarrow> gostr \<Rightarrow> 's \<Rightarrow> (redis_err + bool) \<times> 's"
  ro_user :: "'s user_revoker_ops option"

record ('k, 'p, 's) jwt_store =
  js_ttl :: duration
  js_revoker :: "'s revoker_ops option"
  js_signer :: "'p option"
  js_kid :: gostr
  js_verifiers :: "(gostr \<times> 'k) list"
  js_issuer :: gostr
  js_audience :: gostr
  js_leeway :: duration

type_synonym 'k jwt_parse =
  "(gostr option \<Rightarrow> session_err + 'k) \<Rightarrow> parser_options \<Rightarrow> gotime \<Rightarrow> gostr \<Rightarrow> session_err + jwt_claims"

type_synonym 'p jwt_sign = "'p \<Rightarrow> gostr \<Rightarrow> jwt_claims \<Rightarrow> session_err + gostr"

section \<open>Operations\<close>

definition normalize_jwt_options :: "jwt_options \<Rightarrow> jwt_options" where
  "normalize_jwt_options o0 =
     (let iss = trim_space (jo_issuer o0);
          aud = trim_space (jo_audience o0)
      in \<lparr>jo_issuer = (if iss = [] then lit ''onebook-auth'' else iss),
          jo_audience = (if aud = [] then lit ''onebook-api'' else aud),
          jo_leeway = (if jo_leeway o0 \<le> 0 then 30 * second else jo_leeway o0)\<rparr>)"

fun load_verifiers ::
    "(gostr \<Rightarrow> session_err + 'k) \<Rightarrow> (gostr \<times> gostr) list \<Rightarrow> (gostr \<times> 'k) list \<Rightarrow>
     session_err + (gostr \<times> 'k) list" where
  "load_verifiers load_pub [] vs = Inr vs"
| "load_verifiers load_pub ((kid0, path0) # fs) vs =
     (let kid = trim_space kid0; path = trim_space path0 in
      if kid = [] \<or> path = [] then load_verifiers load_pub fs vs
      else (case load_pub path of Inl e \<Rightarrow> Inl e
            | Inr pub \<Rightarrow> load_verifiers load_pub fs (AList.update kid pub vs)))"

definition new_jwt_store ::
    "(gostr \<Rightarrow> session_err + 'p) \<Rightarrow> (gostr \<Rightarrow> session_err + 'k) \<Rightarrow> ('p \<Rightarrow> 'k) \<Rightarrow> gostr \<Rightarrow> gostr \<Rightarrow> gostr \<Rightarrow>
     (gostr \<times> gostr) list \<Rightarrow> duration \<Rightarrow> 's revoker_ops option \<Rightarrow> jwt_options \<Rightarrow>
     session_err + ('k, 'p, 's) jwt_store" where
  "new_jwt_store load_priv load_pub pub_of private_path public_path key_id verify_files ttl revoker opts =
     (case load_priv private_path of Inl e \<Rightarrow> Inl e
      | Inr priv \<Rightarrow>
          let kid = (if trim_space key_id = [] then lit ''jwt-active'' else key_id) in
          (case (if trim_space public_path \<noteq> [] then load_pub public_path else Inr (pub_of priv)) of
             Inl e \<Rightarrow> Inl e
           | Inr active \<Rightarrow>
               (case load_verifiers load_pub verify_files [(kid, active)] of Inl e \<Rightarrow> Inl e
                | Inr vs \<Rightarrow>
                    let o1 = normalize_jwt_options opts in
                    Inr \<lparr>js_ttl = ttl, js_revoker = revoker, js_signer = Some priv, js_kid = kid,
                         js_verifiers = vs, js_issuer = jo_issuer o1, js_audience = jo_audience o1,
                         js_leeway = jo_leeway o1\<rparr>)))"

definition new_session ::
    "(gotime \<Rightarrow> gotime) \<Rightarrow> 'p jwt_sign \<Rightarrow> ('k, 'p, 's) jwt_store \<Rightarrow> gotime \<Rightarrow> gostr \<Rightarrow> gostr \<Rightarrow>
     session_err + gostr" where
  "new_session ndate jsign st now jti user =
     (let claims = \<lparr>c_sub = user, c_iss = js_issuer st, c_aud = [js_audience st],
                    c_exp = Some (ndate (now + js_ttl st)), c_iat = Some (ndate now),
                    c_nbf = Some (ndate now), c_id = jti\<rparr>
      in case js_signer st of None \<Rightarrow> Inl StoreNotConfigured
         | Some key \<Rightarrow> jsign key (js_kid st) claims)"

definition key_func :: "('k, 'p, 's) jwt_store \<Rightarrow> gostr option \<Rightarrow> session_err + 'k" where
  "key_func st header_kid =
     (let kid = trim_space (case header_kid of None \<Rightarrow> [] | Some k \<Rightarrow> k) in
      if kid = [] then Inl TokenKeyIdRequired
      else (case map_of (js_verifiers st) kid of None \<Rightarrow> Inl UnknownTokenKey | Some pub \<Rightarrow> Inr pub))"

definition parser_opts :: "('k, 'p, 's) jwt_store \<Rightarrow> parser_options" where
  "parser_opts st =
     \<lparr>po_methods = [lit ''RS256''], po_check_iat = True, po_leeway = js_leeway st,
      po_issuer = (if js_issuer st \<noteq> [] then Some (js_issuer st) else None),
      po_audience = (if js_audience st \<noteq> [] then Some (js_audience st) else None)\<rparr>"

definition parse_and_verify ::
    "'k jwt_parse \<Rightarrow> ('k, 'p, 's) jwt_store \<Rightarrow> gotime \<Rightarrow> gostr \<Rightarrow> session_err + jwt_claims" where
  "parse_and_verify jparse st now token0 =
     (let token = trim_space token0 in
      if token = [] then Inl InvalidTokenFormat
      else if js_verifiers st = [] then Inl StoreNotConfigured
      else (case jparse (key_func st) (parser_opts st) now token of
              Inl e \<Rightarrow> Inl e
            | Inr claims \<Rightarrow> if trim_space (c_id claims) = [] then Inl JtiMissing else Inr claims))"

definition check_subject :: "jwt_claims \<Rightarrow> session_err + gostr" where
  "check_subject claims = (if trim_space (c_sub claims) = [] then Inl SubjectMissing else Inr (c_sub claims))"

definition check_user_cutoff ::
    "'s user_revoker_ops \<Rightarrow> gotime \<Rightarrow> jwt_claims \<Rightarrow> 's \<Rightarrow> (session_err + gostr) \<times> 's" where
  "check_user_cutoff u now claims s =
     (case uo_after u now (c_sub claims) s of
        (Inl e, s') \<Rightarrow> (Inl (RevokerErr e), s')
      | (Inr cutoff, s') \<Rightarrow>
          if \<not> is_zero cutoff
          then (case c_iat claims of None \<Rightarrow> (Inl IssuedAtMissing, s')
                | Some issued_at \<Rightarrow>
                    if \<not> cutoff < issued_at then (Inl TokenRevokedForUser, s')
                    else (check_subject claims, s'))
          else (check_subject claims, s'))"

definition get_user_id_by_token ::
    "'k jwt_parse \<Rightarrow> ('k, 'p, 's) jwt_store \<Rightarrow> gotime \<Rightarrow> gostr \<Rightarrow> 's \<Rightarrow> (session_err + gostr) \<times> 's" where
  "get_user_id_by_token jparse st now token s =
     (case parse_and_verify jparse st now token of Inl e \<Rightarrow> (Inl e, s)
      | Inr claims \<Rightarrow>
          (case js_revoker st of None \<Rightarrow> (check_subject claims, s)
           | Some r \<Rightarrow>
               (case ro_is_revoked r now (c_id claims) s of
                  (Inl e, s1) \<Rightarrow> (Inl (RevokerErr e), s1)
                | (Inr True, s1) \<Rightarrow> (Inl TokenRevoked, s1)
                | (Inr False, s1) \<Rightarrow>
                    (case ro_user r of None \<Rightarrow> (check_subject claims, s1)
                     | Some u \<Rightarrow> check_user_cutoff u now claims s1))))"

definition delete_session ::
    "'k jwt_parse \<Rightarrow> ('k, 'p, 's) jwt_store \<Rightarrow> gotime \<Rightarrow> gostr \<Rightarrow> 's \<Rightarrow> session_err option \<times> 's" where
  "delete_session jparse st now token s =
     (case js_revoker st of None \<Rightarrow> (None, s)
      | Some r \<Rightarrow>
          (case parse_and_verify jparse st now token of Inl _ \<Rightarrow> (None, s)
           | Inr claims \<Rightarrow>
               (case c_exp claims of None \<Rightarrow> (None, s)
                | Some expires \<Rightarrow>
                    let ttl = expires - now;
                        (e, s') = ro_revoke r now (c_id claims) ttl s
                    in (map_option RevokerErr e, s'))))"

definition revoke_user_sessions ::
    "('k, 'p, 's) jwt_store \<Rightarrow> gotime \<Rightarrow> gostr \<Rightarrow> gotime \<Rightarrow> 's \<Rightarrow> session_err option \<times> 's" where
  "revoke_user_sessions st now user since s =
     (case js_revoker st of None \<Rightarrow> (None, s)
      | Some r \<Rightarrow>
          (case ro_user r of None \<Rightarrow> (Some UserRevocationUnsupported, s)
           | Some u \<Rightarrow>
               let (e, s') = uo_revoke u now user since s in (map_option RevokerErr e, s')))"

record jwk =
  jk_kty :: gostr
  jk_use :: gostr
  jk_kid :: gostr
  jk_alg :: gostr
  jk_n :: gostr
  jk_e :: gostr

definition jwks ::
    "('k \<Rightarrow> gostr) \<Rightarrow> ('k \<Rightarrow> gostr) \<Rightarrow> ('k, 'p, 's) jwt_store \<Rightarrow> jwk list" where
  "jwks enc_n enc_e st =
     map (\<lambda>kid. case map_of (js_verifiers st) kid of
                   Some pub \<Rightarrow> \<lparr>jk_kty = lit ''RSA'', jk_use = lit ''sig'', jk_kid = kid, jk_alg = lit ''RS256'',
                                jk_n = enc_n pub, jk_e = enc_e pub\<rparr>
                 | None \<Rightarrow> \<lparr>jk_kty = lit ''RSA'', jk_use = lit ''sig'', jk_kid = kid, jk_alg = lit ''RS256'',
                            jk_n = [], jk_e = []\<rparr>)
       (sort (map fst (js_verifiers st)))"

section \<open>What is assumed of the JWT library\<close>

text \<open>The claim checks documented for the parser options.\<close>

definition claims_ok :: "parser_options \<Rightarrow> gotime \<Rightarrow> jwt_claims \<Rightarrow> bool" where
  "claims_ok po now c \<longleftrightarrow>
     (case c_exp c of None \<Rightarrow> True | Some t \<Rightarrow> now < t + po_leeway po) \<and>
     (case c_nbf c of None \<Rightarrow> True | Some t \<Rightarrow> t - po_leeway po \<le> now) \<and>
     (po_check_iat po \<longrightarrow> (case c_iat c of None \<Rightarrow> True | Some t \<Rightarrow> t - po_leeway po \<le> now)) \<and>
     (case po_issuer po of None \<Rightarrow> True | Some i \<Rightarrow> c_iss c = i) \<and>
     (case po_audience po of None \<Rightarrow> True | Some a \<Rightarrow> a \<in> set (c_aud c))"

text \<open>The parser takes tokens signed with RS256 only; without such a list the library accepts any method.\<close>

definition rs256_only :: "parser_options \<Rightarrow> bool" where
  "rs256_only po \<longleftrightarrow> po_methods po = [lit ''RS256'']"

lemma parser_opts_rs256 [simp]: "rs256_only (parser_opts st)"
  by (simp add: rs256_only_def parser_opts_def)

text \<open>
  \<open>content\<close> is the header key id and the claims of a well-formed token, \<open>signed\<close> says that it
  has an RS256 signature that a public key verifies, \<open>pub_of\<close> is the public half of a private key.
\<close>

locale jwt_library =
  fixes jparse :: "'k jwt_parse"
    and jsign :: "'p jwt_sign"
    and ndate :: "gotime \<Rightarrow> gotime"
    and pub_of :: "'p \<Rightarrow> 'k"
    and content :: "gostr \<Rightarrow> (gostr option \<times> jwt_claims) option"
    and signed :: "'k \<Rightarrow> gostr \<Rightarrow> bool"
  assumes parse_accepts:
      "rs256_only po \<Longrightarrow> content tok = Some (hk, c) \<Longrightarrow> kf hk = Inr k \<Longrightarrow> signed k tok \<Longrightarrow> claims_ok po now c \<Longrightarrow>
       jparse kf po now tok = Inr c"
    and parse_only:
      "jparse kf po now tok = Inr c \<Longrightarrow> rs256_only po \<Longrightarrow>
       \<exists>kid k. content tok = Some (kid, c) \<and> kf kid = Inr k \<and> signed k tok \<and> claims_ok po now c"
    and sign_content:
      "jsign p kid c = Inr tok \<Longrightarrow>
       content tok = Some (Some kid, c) \<and> signed (pub_of p) tok \<and> trim_space tok = tok \<and> tok \<noteq> []"
    and numeric_date: "ndate t = t div second * second"
begin

lemma verify_content:
  "parse_and_verify jparse st now tok = Inr c \<Longrightarrow> \<exists>kid. content (trim_space tok) = Some (kid, c)"
  by (auto simp: parse_and_verify_def Let_def split: if_splits sum.splits dest!: parse_only)

lemma verify_claims:
  "parse_and_verify jparse st now tok = Inr c \<Longrightarrow> claims_ok (parser_opts st) now c \<and> trim_space (c_id c) \<noteq> []"
  by (auto simp: parse_and_verify_def Let_def split: if_splits sum.splits dest!: parse_only)

lemma verify_same:
  "parse_and_verify jparse st now tok = Inr c \<Longrightarrow> parse_and_verify jparse st now' tok = Inr c' \<Longrightarrow> c' = c"
  using verify_content [of st now tok c] verify_content [of st now' tok c'] by auto

lemma verify_later:
  assumes "parse_and_verify jparse st now tok = Inr c" and "claims_ok (parser_opts st) now' c"
  shows "parse_and_verify jparse st now' tok = Inr c"
proof -
  from assms(1) obtain kid k where "content (trim_space tok) = Some (kid, c)" "key_func st kid = Inr k"
      "signed k (trim_space tok)"
    by (auto simp: parse_and_verify_def Let_def split: if_splits sum.splits dest!: parse_only)
  then have "jparse (key_func st) (parser_opts st) now' (trim_space tok) = Inr c"
    using assms(2) by (rule parse_accepts [OF parser_opts_rs256])
  then show ?thesis using assms(1) by (auto simp: parse_and_verify_def Let_def split: if_splits sum.splits)
qed

end

lemma claims_ok_later:
  "claims_ok po now c \<Longrightarrow> now \<le> now' \<Longrightarrow> c_exp c = Some e \<Longrightarrow> now' < e + po_leeway po \<Longrightarrow>
   claims_ok po now' c"
  by (auto simp: claims_ok_def split: option.splits)

section \<open>The session store over a revocation store\<close>

definition revoker_of ::
    "(gotime \<Rightarrow> gostr \<Rightarrow> duration \<Rightarrow> 's \<Rightarrow> redis_err option \<times> 's) \<Rightarrow>
     (gotime \<Rightarrow> gostr \<Rightarrow> 's \<Rightarrow> (redis_err + bool) \<times> 's) \<Rightarrow>
     (gotime \<Rightarrow> gostr \<Rightarrow> gotime \<Rightarrow> 's \<Rightarrow> redis_err option \<times> 's) \<Rightarrow>
     (gotime \<Rightarrow> gostr \<Rightarrow> 's \<Rightarrow> (redis_err + gotime) \<times> 's) \<Rightarrow> 's revoker_ops" where
  "revoker_of rv isr ru ra =
     \<lparr>ro_revoke = rv, ro_is_revoked = isr, ro_user = Some \<lparr>uo_revoke = ru, uo_after = ra\<rparr>\<rparr>"

text \<open>Calls of the store over time: any calls, the logouts with tokens of the set \<open>T\<close>.\<close>

inductive session_run ::
    "'k jwt_parse \<Rightarrow> ('k, 'p, 's) jwt_store \<Rightarrow> gostr set \<Rightarrow> gotime \<Rightarrow> 's \<Rightarrow> gotime \<Rightarrow> 's \<Rightarrow> bool"
  for jparse st T where
  run_refl: "session_run jparse st T t s t s"
| run_get:
    "session_run jparse st T t s t1 s1 \<Longrightarrow> t1 \<le> t2 \<Longrightarrow> valid_time t2 \<Longrightarrow>
     get_user_id_by_token jparse st t2 tok s1 = (res, s2) \<Longrightarrow> session_run jparse st T t s t2 s2"
| run_delete:
    "session_run jparse st T t s t1 s1 \<Longrightarrow> t1 \<le> t2 \<Longrightarrow> valid_time t2 \<Longrightarrow> tok \<in> T \<Longrightarrow>
     delete_session jparse st t2 tok s1 = (er, s2) \<Longrightarrow> session_run jparse st T t s t2 s2"
| run_revoke_user:
    "session_run jparse st T t s t1 s1 \<Longrightarrow> t1 \<le> t2 \<Longrightarrow> valid_time t2 \<Longrightarrow> valid_time since \<Longrightarrow>
     revoke_user_sessions st t2 user since s1 = (er, s2) \<Longrightarrow> session_run jparse st T t s t2 s2"

lemma session_run_time: "session_run jparse st T t s t' s' \<Longrightarrow> t \<le> t'"
  by (induction rule: session_run.induct) auto

locale sessions =
  jwt_library jparse jsign ndate pub_of content signed +
  token_revoker revoke is_revoked revoke_user revoked_after inv revoked cutoff
  for jparse :: "'k jwt_parse" and jsign :: "'p jwt_sign" and ndate pub_of content signed
    and revoke :: "gotime \<Rightarrow> gostr \<Rightarrow> duration \<Rightarrow> 's \<Rightarrow> redis_err option \<times> 's"
    and is_revoked revoke_user revoked_after inv revoked cutoff +
  fixes st :: "('k, 'p, 's) jwt_store"
  assumes attached: "js_revoker st = Some (revoker_of revoke is_revoked revoke_user revoked_after)"
begin

lemma get_state:
  assumes "inv s" "get_user_id_by_token jparse st now tok s = (res, s')"
  shows "inv s' \<and> cutoff s' u = cutoff s u \<and> (now \<le> now' \<longrightarrow> revoked now' s' t = revoked now' s t)"
proof (cases "parse_and_verify jparse st now tok")
  case (Inr c)
  obtain q s1 where q: "is_revoked now (c_id c) s = (q, s1)" by force
  obtain q' s2 where q': "revoked_after now (c_sub c) s1 = (q', s2)" by force
  have "s' = s1 \<or> s' = s2"
    using assms(2) Inr q q'
    by (auto simp: get_user_id_by_token_def attached revoker_of_def check_user_cutoff_def
        split: sum.splits bool.splits if_splits option.splits)
  then show ?thesis
    using is_revoked_state [OF assms(1) q, of u now' t] revoked_after_state [OF _ q', of u now' t] by auto
qed (use assms in \<open>simp add: get_user_id_by_token_def\<close>)

lemma delete_state:
  assumes "inv s" "delete_session jparse st now tok s = (res, s')"
  shows "inv s'" and "cutoff s' u = cutoff s u"
    and "revoked now' s t \<Longrightarrow>
         (\<And>c. parse_and_verify jparse st now tok = Inr c \<Longrightarrow> c_id c = t \<Longrightarrow>
              case c_exp c of None \<Rightarrow> True | Some d \<Rightarrow> now' < d) \<Longrightarrow> revoked now' s' t"
  using assms
  by (auto simp: delete_session_def attached revoker_of_def Let_def
      split: sum.splits prod.splits option.splits
      dest: revoke_inv revoke_cutoff intro: revoke_keeps)

lemma revoke_user_state:
  assumes "inv s" "revoke_user_sessions st now user since s = (res, s')" "valid_time now" "valid_time since"
  shows "inv s' \<and> cutoff s u \<le> cutoff s' u \<and> revoked now' s' t = revoked now' s t"
  using assms
  by (auto simp: revoke_user_sessions_def attached revoker_of_def split: prod.splits
      dest: revoke_user_mono [where u = u and t = t and now' = now'])

lemma run_cutoff:
  assumes "session_run jparse st T t s t' s'" "inv s"
  shows "inv s' \<and> cutoff s u \<le> cutoff s' u"
  using assms
proof (induction rule: session_run.induct)
  case (run_get t s t1 s1 t2 tok res s2)
  then show ?case using get_state [of s1 t2 tok res s2 u] by simp
next
  case (run_delete t s t1 s1 t2 tok er s2)
  then show ?case using delete_state [of s1 t2 tok er s2] by simp
next
  case (run_revoke_user t s t1 s1 t2 since user er s2)
  then show ?case using revoke_user_state [of s1 t2 user since er s2 u]
    by (auto intro: order_trans)
qed simp

text \<open>
  A revocation outlives every call of the store, provided the token IDs of accepted tokens
  determine their expiry.
\<close>

lemma run_revoked:
  assumes "session_run jparse st T t s t' s'" "inv s" "revoked d s i" "t' \<le> d"
    and "\<And>t tok c. tok \<in> T \<Longrightarrow> parse_and_verify jparse st t tok = Inr c \<Longrightarrow> c_id c = i \<Longrightarrow> c_exp c = Some e"
    and "d < e"
  shows "revoked d s' i"
  using assms
proof (induction rule: session_run.induct)
  case (run_get t s t1 s1 t2 tok res s2)
  then show ?case using get_state [of s1 t2 tok res s2 undefined d i] run_cutoff [of T t s t1 s1] by simp
next
  case (run_delete t s t1 s1 t2 tok er s2)
  then show ?case using delete_state(3) [of s1 t2 tok er s2 d i] run_cutoff [of T t s t1 s1] by fastforce
next
  case (run_revoke_user t s t1 s1 t2 since user er s2)
  then show ?case using revoke_user_state [of s1 t2 user since er s2 undefined d i] run_cutoff [of T t s t1 s1]
    by simp
qed simp

lemma get_revoked:
  assumes "inv s" "parse_and_verify jparse st now tok = Inr c" "revoked now s (c_id c)"
  shows "\<exists>e. fst (get_user_id_by_token jparse st now tok s) = Inl e"
  using assms
  by (auto simp: get_user_id_by_token_def attached revoker_of_def split: sum.splits prod.splits bool.splits
      dest!: is_revoked_result [OF assms(1)])

lemma delete_revokes:
  assumes "inv s" "parse_and_verify jparse st now tok = Inr c" "c_exp c = Some e" "now < e"
    and "delete_session jparse st now tok s = (None, s')" and "now' < e"
  shows "revoked now' s' (c_id c)"
  using assms
  by (auto simp: delete_session_def attached revoker_of_def Let_def split: prod.splits
      intro: revoke_done)

lemma logout_rejected:
  assumes "inv s" "parse_and_verify jparse st now tok = Inr c" "c_exp c = Some e" "now < e"
    and "\<And>t tok c'. tok \<in> T \<Longrightarrow> parse_and_verify jparse st t tok = Inr c' \<Longrightarrow> c_id c' = c_id c \<Longrightarrow> c_exp c' = Some e"
    and "delete_session jparse st now tok s = (None, s')"
    and "session_run jparse st T now s' t1 s''" "t1 \<le> t" "t < e"
  shows "\<exists>er. fst (get_user_id_by_token jparse st t tok s'') = Inl er"
proof (cases "parse_and_verify jparse st t tok")
  case (Inl a)
  then show ?thesis by (simp add: get_user_id_by_token_def)
next
  case (Inr c')
  then have c': "c' = c" using verify_same [OF assms(2)] by simp
  have "inv s'" using delete_state(1) [OF assms(1,6)] .
  then have "revoked t s'' (c_id c)" "inv s''"
    using run_revoked [OF assms(7) _ delete_revokes [OF assms(1-4,6) assms(9)] assms(8) assms(5) assms(9)]
      run_cutoff [OF assms(7)] by auto
  then show ?thesis using get_revoked Inr c' by simp
qed

text \<open>Inside the leeway the same token is accepted again.\<close>

lemma logout_gap:
  assumes "inv s" "parse_and_verify jparse st now tok = Inr c" "c_exp c = Some e" "now < e"
    and "delete_session jparse st now tok s = (None, s')"
    and "e < t" "t < e + js_leeway st"
    and "is_revoked t (c_id c) s' = (Inr b, s1)"
    and "revoked_after t (c_sub c) s1 = (Inr d, s2)" "cutoff s (trim_space (c_sub c)) = zero_time"
    and "trim_space (c_sub c) \<noteq> []"
  shows "fst (get_user_id_by_token jparse st t tok s') = Inr (c_sub c)"
proof -
  have s': "inv s'" using delete_state(1) [OF assms(1,5)] .
  then have s1: "inv s1" "cutoff s1 u = cutoff s' u" for u
    using is_revoked_state [OF _ assms(8)] by auto
  have "parse_and_verify jparse st t tok = Inr c"
  proof (rule verify_later [OF assms(2)], rule claims_ok_later [of _ now])
    show "claims_ok (parser_opts st) now c" using verify_claims [OF assms(2)] by simp
  qed (use assms in \<open>simp_all add: parser_opts_def\<close>)
  moreover have "\<not> revoked t s' (c_id c)"
    using assms by (auto simp: delete_session_def attached revoker_of_def Let_def split: prod.splits
        dest: revoke_expires)
  then have "b = False" using is_revoked_result [OF s' assms(8)] by simp
  moreover have "d = zero_time"
    using revoked_after_result [OF s1(1) assms(9) refl assms(11)] s1(2) assms(10)
      delete_state(2) [OF assms(1,5)] by simp
  ultimately show ?thesis
    using assms by (simp add: get_user_id_by_token_def attached revoker_of_def check_user_cutoff_def
        check_subject_def is_zero_def)
qed

lemma user_revocation_rejects:
  assumes "inv s" "valid_time now" "valid_time since" "\<not> is_zero since" "trim_space user \<noteq> []"
    and "revoke_user_sessions st now user since s = (None, s')"
    and "session_run jparse st T now s' t1 s''"
    and "parse_and_verify jparse st t tok = Inr c" "trim_space (c_sub c) = trim_space user"
    and "\<And>i. c_iat c = Some i \<Longrightarrow> i \<le> since"
  shows "\<exists>er. fst (get_user_id_by_token jparse st t tok s'') = Inl er"
proof -
  have s': "since \<le> cutoff s' (trim_space user)" "inv s'"
    using revoke_user_state [OF assms(1,6,2,3)] revoke_user_done [OF assms(1) _ assms(5,2,3,4)] assms(6)
    by (auto simp: revoke_user_sessions_def attached revoker_of_def split: prod.splits)
  then have s'': "since \<le> cutoff s'' (trim_space user)" "inv s''"
    using run_cutoff [OF assms(7), of "trim_space user"] by auto
  have late: "\<not> is_zero (cutoff s'' (trim_space user))"
    using s'' assms(3,4) by (auto simp: is_zero_def valid_time_def)
  show ?thesis
  proof (cases "is_revoked t (c_id c) s''")
    case (Pair q s1)
    have s1: "inv s1" "cutoff s1 (trim_space user) = cutoff s'' (trim_space user)"
      using is_revoked_state [OF s''(2) Pair] by auto
    obtain q' s2 where ra: "revoked_after t (c_sub c) s1 = (q', s2)" by force
    have "x = cutoff s'' (trim_space user)" if "q' = Inr x" for x
      using revoked_after_result [OF s1(1) ra that] assms(5,9) s1(2) by simp
    then show ?thesis
      using Pair ra late s''(1) assms(8,10)
      by (auto simp: get_user_id_by_token_def attached revoker_of_def check_user_cutoff_def
          split: sum.splits bool.splits option.splits)
  qed
qed

lemma new_session_accepted:
  assumes "inv s" "new_session ndate jsign st now jti user = Inr tok" "trim_space jti \<noteq> []"
    and "trim_space user \<noteq> []"
    and "js_signer st = Some p" "trim_space (js_kid st) = js_kid st" "js_kid st \<noteq> []"
    and "map_of (js_verifiers st) (js_kid st) = Some (pub_of p)"
    and "0 < js_leeway st" "now \<le> t" "t < ndate (now + js_ttl st) + js_leeway st"
    and "\<not> revoked t s jti" "cutoff s (trim_space user) < ndate now \<or> is_zero (cutoff s (trim_space user))"
    and "is_revoked t jti s = (Inr b, s1)" "revoked_after t user s1 = (Inr d, s2)"
  shows "get_user_id_by_token jparse st t tok s = (Inr user, s2)"
proof -
  define c where "c = \<lparr>c_sub = user, c_iss = js_issuer st, c_aud = [js_audience st],
    c_exp = Some (ndate (now + js_ttl st)), c_iat = Some (ndate now), c_nbf = Some (ndate now), c_id = jti\<rparr>"
  have tok: "content tok = Some (Some (js_kid st), c)" "signed (pub_of p) tok" "trim_space tok = tok" "tok \<noteq> []"
    using assms(2,5) sign_content [of p "js_kid st" c tok] by (auto simp: new_session_def c_def)
  have "ndate now \<le> now"
    by (simp add: numeric_date second_def minus_mod_eq_div_mult [symmetric])
  then have ok: "claims_ok (parser_opts st) t c"
    using assms(9-11) by (auto simp: claims_ok_def parser_opts_def c_def)
  have kf: "key_func st (Some (js_kid st)) = Inr (pub_of p)"
    using assms(6-8) by (simp add: key_func_def)
  have pv: "parse_and_verify jparse st t tok = Inr c"
    using parse_accepts [where kf = "key_func st", OF parser_opts_rs256 tok(1) kf tok(2) ok] tok(3,4) assms(3,8)
    by (auto simp: parse_and_verify_def c_def)
  have s1: "inv s1" "cutoff s1 (trim_space user) = cutoff s (trim_space user)"
    using is_revoked_state [OF assms(1,14)] by auto
  have "b = False" using is_revoked_result [OF assms(1,14)] assms(12) by simp
  moreover have "d = cutoff s (trim_space user)"
    using revoked_after_result [OF s1(1) assms(15) refl assms(4)] s1(2) by simp
  ultimately show ?thesis
    using pv assms(4,13,14,15)
    by (auto simp: get_user_id_by_token_def attached revoker_of_def check_user_cutoff_def
        check_subject_def c_def)
qed

text \<open>
  The issue time of a token is truncated to the second, the cutoff is not: a session opened
  after the revocation, in the same second, is rejected too.
\<close>

lemma new_session_same_second:
  assumes "inv s" "valid_time now" "valid_time since" "\<not> is_zero since" "trim_space user \<noteq> []"
    and "revoke_user_sessions st now user since s = (None, s')" "session_run jparse st T now s' t1 s''"
    and "new_session ndate jsign st created jti user = Inr tok" "created div second = since div second"
  shows "\<exists>er. fst (get_user_id_by_token jparse st t tok s'') = Inl er"
proof (cases "parse_and_verify jparse st t tok")
  case (Inl a)
  then show ?thesis by (simp add: get_user_id_by_token_def)
next
  case (Inr c)
  have "c_sub c = user" "c_iat c = Some (ndate created)"
    using assms(8) verify_content [OF Inr]
    by (auto simp: new_session_def dest!: sign_content split: option.splits)
  moreover have "ndate created \<le> since"
    unfolding numeric_date assms(9) by (simp add: second_def minus_mod_eq_div_mult [symmetric])
  ultimately show ?thesis
    using user_revocation_rejects [OF assms(1-7) Inr] by simp
qed

end

section \<open>A library that satisfies the assumptions\<close>

text \<open>
  Tokens that carry their key and their claims in plain numbers, between two marks.  Every
  private key is its own public key.
\<close>

definition enc_str :: "gostr \<Rightarrow> gostr" where
  "enc_str s = length s # s"

fun dec_str :: "gostr \<Rightarrow> (gostr \<times> gostr) option" where
  "dec_str [] = None"
| "dec_str (n # xs) = (if n \<le> length xs then Some (take n xs, drop n xs) else None)"

fun enc_time :: "gotime option \<Rightarrow> gostr" where
  "enc_time None = [0]"
| "enc_time (Some t) = [if t < 0 then 1 else 2, nat \<bar>t\<bar>]"

fun dec_time :: "gostr \<Rightarrow> (gotime option \<times> gostr) option" where
  "dec_time (n # xs) =
     (if n = 0 then Some (None, xs)
      else (case xs of [] \<Rightarrow> None | m # ys \<Rightarrow> Some (Some (if n = 1 then - int m else int m), ys)))"
| "dec_time [] = None"

fun dec_strs :: "nat \<Rightarrow> gostr \<Rightarrow> (gostr list \<times> gostr) option" where
  "dec_strs 0 xs = Some ([], xs)"
| "dec_strs (Suc n) xs =
     (case dec_str xs of None \<Rightarrow> None
      | Some (s, ys) \<Rightarrow> map_option (\<lambda>(ss, zs). (s # ss, zs)) (dec_strs n ys))"

definition plain_encode :: "nat \<Rightarrow> gostr \<Rightarrow> jwt_claims \<Rightarrow> gostr" where
  "plain_encode key kid c =
     1 # key # enc_str kid @ enc_str (c_sub c) @ enc_str (c_iss c) @
     enc_time (c_exp c) @ enc_time (c_iat c) @ enc_time (c_nbf c) @ enc_str (c_id c) @
     length (c_aud c) # concat (map enc_str (c_aud c)) @ [1]"

definition plain_decode :: "gostr \<Rightarrow> (nat \<times> gostr option \<times> jwt_claims) option" where
  "plain_decode tok =
     (case tok of x # key # t0 \<Rightarrow>
        Option.bind (dec_str t0) (\<lambda>(kid, t1). Option.bind (dec_str t1) (\<lambda>(sb, t2).
        Option.bind (dec_str t2) (\<lambda>(iss, t3). Option.bind (dec_time t3) (\<lambda>(e, t4).
        Option.bind (dec_time t4) (\<lambda>(ia, t5). Option.bind (dec_time t5) (\<lambda>(nb, t6).
        Option.bind (dec_str t6) (\<lambda>(jti, t7).
          case t7 of [] \<Rightarrow> None
          | n # t8 \<Rightarrow> map_option (\<lambda>(aud, _). (key, Some kid,
              \<lparr>c_sub = sb, c_iss = iss, c_aud = aud, c_exp = e, c_iat = ia, c_nbf = nb, c_id = jti\<rparr>))
              (dec_strs n t8))))))))
      | _ \<Rightarrow> None)"

definition plain_content :: "gostr \<Rightarrow> (gostr option \<times> jwt_claims) option" where
  "plain_content tok = map_option snd (plain_decode tok)"

definition plain_signed :: "nat \<Rightarrow> gostr \<Rightarrow> bool" where
  "plain_signed key tok = (map_option fst (plain_decode tok) = Some key)"

definition plain_sign :: "nat jwt_sign" where
  "plain_sign key kid c = Inr (plain_encode key kid c)"

definition plain_parse :: "nat jwt_parse" where
  "plain_parse kf po now tok =
     (case plain_decode tok of None \<Rightarrow> Inl (JwtErr (lit ''malformed''))
      | Some (key, kid, c) \<Rightarrow>
          (case kf kid of Inl e \<Rightarrow> Inl e
           | Inr k \<Rightarrow> if k = key \<and> claims_ok po now c then Inr c else Inl (JwtErr (lit ''invalid''))))"

definition whole_seconds :: "gotime \<Rightarrow> gotime" where
  "whole_seconds t = t div second * second"

lemma dec_str_enc [simp]: "dec_str (enc_str s @ t) = Some (s, t)"
  by (simp add: enc_str_def)

lemma dec_time_enc [simp]: "dec_time (enc_time e @ t) = Some (e, t)"
  by (cases e) auto

lemma dec_strs_enc [simp]: "dec_strs (length ss) (concat (map enc_str ss) @ t) = Some (ss, t)"
  by (induction ss) auto

lemma plain_decode_encode [simp]: "plain_decode (plain_encode key kid c) = Some (key, Some kid, c)"
  by (simp add: plain_decode_def plain_encode_def)

lemma trim_plain_encode [simp]: "trim_space (plain_encode key kid c) = plain_encode key kid c"
  by (rule trim_space_fix) (simp add: plain_encode_def is_space_def)

lemma plain_encode_not_Nil [simp]: "plain_encode key kid c \<noteq> []"
  by (simp add: plain_encode_def)

interpretation plain: jwt_library plain_parse plain_sign whole_seconds "\<lambda>k. k" plain_content plain_signed
  by unfold_locales
    (auto simp: plain_parse_def plain_sign_def plain_content_def plain_signed_def whole_seconds_def
      split: option.splits sum.splits if_splits)

section \<open>The two revocation stores behind the interface\<close>

definition mem_ops :: "mem_revoker revoker_ops" where
  "mem_ops = revoker_of mem_revoke mem_is_revoked mem_revoker_user mem_revoked_after"

definition redis_ops ::
    "'w redis \<Rightarrow> (gotime \<Rightarrow> gostr) \<Rightarrow> (gostr \<Rightarrow> gotime option) \<Rightarrow> 'w revoker_ops" where
  "redis_ops rdo fmt prs =
     revoker_of (redis_revoke rdo) (redis_is_revoked rdo) (redis_revoker_user rdo fmt prs)
       (redis_revoked_after rdo prs)"

interpretation plain_mem: sessions plain_parse plain_sign whole_seconds "\<lambda>k. k" plain_content plain_signed
  mem_revoke mem_is_revoked mem_revoker_user mem_revoked_after mem_revoker_inv mem_revoked user_cutoff
  "st\<lparr>js_revoker := Some mem_ops\<rparr>" for st
  by unfold_locales (simp add: mem_ops_def)

interpretation plain_redis: sessions plain_parse plain_sign whole_seconds "\<lambda>k. k" plain_content plain_signed
  "redis_revoke faulty_redis" "redis_is_revoked faulty_redis" "redis_revoker_user faulty_redis itoa parse_int"
  "redis_revoked_after faulty_redis parse_int" "redis_revoker_inv fst parse_int" "redis_revoked fst"
  "redis_cutoff fst parse_int"
  "st\<lparr>js_revoker := Some (redis_ops faulty_redis itoa parse_int)\<rparr>" for st
  by unfold_locales (simp add: redis_ops_def)

lemma sessions_redis:
  assumes "jwt_library jparse jsign ndate pub_of content signed" "redis_time rdo ks fmt prs"
    and "js_revoker st = Some (redis_ops rdo fmt prs)"
  shows "sessions jparse jsign ndate pub_of content signed (redis_revoke rdo) (redis_is_revoked rdo)
    (redis_revoker_user rdo fmt prs) (redis_revoked_after rdo prs) (redis_revoker_inv ks prs)
    (redis_revoked ks) (redis_cutoff ks prs) st"
  using assms
  by (simp add: sessions_def sessions_axioms_def redis_ops_def redis_time.redis_token_revoker)

lemma sessions_mem:
  assumes "jwt_library jparse jsign ndate pub_of content signed" and "js_revoker st = Some mem_ops"
  shows "sessions jparse jsign ndate pub_of content signed mem_revoke mem_is_revoked mem_revoker_user
    mem_revoked_after mem_revoker_inv mem_revoked user_cutoff st"
  using assms by (simp add: sessions_def sessions_axioms_def mem_ops_def mr.token_revoker_axioms)

lemma mem_is_revoked_total: "\<exists>s'. mem_is_revoked t i s = (Inr (mem_revoked t s i), s')"
  by (auto simp: mem_is_revoked_def mem_revoked_def split: option.splits)

lemma mem_revoked_after_total: "trim_space u \<noteq> [] \<Longrightarrow> mem_revoked_after t u s = (Inr (user_cutoff s (trim_space u)), s)"
  by (simp add: mem_revoked_after_def)

text \<open>A store with one key, as the constructor builds it, over either revocation store.\<close>

definition demo_sessions :: "'s revoker_ops \<Rightarrow> (nat, nat, 's) jwt_store" where
  "demo_sessions r =
     \<lparr>js_ttl = 3600 * second, js_revoker = Some r, js_signer = Some 7, js_kid = lit ''k'',
      js_verifiers = [(lit ''k'', 7)], js_issuer = lit ''onebook-auth'', js_audience = lit ''onebook-api'',
      js_leeway = 30 * second\<rparr>"

definition demo_claims :: jwt_claims where
  "demo_claims =
     \<lparr>c_sub = lit ''u'', c_iss = lit ''onebook-auth'', c_aud = [lit ''onebook-api''],
      c_exp = Some (3600 * second), c_iat = Some 0, c_nbf = Some 0, c_id = lit ''j''\<rparr>"

definition demo_jwt :: gostr where
  "demo_jwt = plain_encode 7 (lit ''k'') demo_claims"

lemma demo_verified:
  "- 30 * second \<le> t \<Longrightarrow> t < 3630 * second \<Longrightarrow>
   parse_and_verify plain_parse (demo_sessions r) t demo_jwt = Inr demo_claims"
  by (simp add: parse_and_verify_def Let_def plain_parse_def demo_jwt_def key_func_def demo_sessions_def
      parser_opts_def claims_ok_def demo_claims_def is_space_def trim_space_fix lit_Cons second_def)

lemma demo_revoker [simp]: "js_revoker (demo_sessions r) = Some r"
  by (simp add: demo_sessions_def)

lemma demo_logout:
  "- 30 * second \<le> t \<Longrightarrow> t < 3630 * second \<Longrightarrow>
   delete_session plain_parse (demo_sessions r) t demo_jwt s =
     (let (e, s') = ro_revoke r t (lit ''j'') (3600 * second - t) s in (map_option RevokerErr e, s'))"
  by (simp add: delete_session_def demo_verified) (simp add: demo_claims_def)

section \<open>Properties\<close>

text \<open>
  C6: a token that was logged out is rejected until it expires.  Once \<open>DeleteSession\<close> returned no
  error for a valid token, every later \<open>GetUserIDByToken\<close> before its expiry fails, whatever calls of the
  store happened in between and whichever of their Redis commands failed.  The tokens presented
  for logout must have distinct IDs (or the same expiry).
\<close>

theorem session_logout_rejected:
  fixes st :: "('k, 'p, 'w) jwt_store" and jsign :: "'p jwt_sign"
  assumes "jwt_library jparse jsign ndate pub_of content signed" and "redis_time rdo ks fmt prs"
    and "js_revoker st = Some (redis_ops rdo fmt prs)" and "redis_revoker_inv ks prs w"
    and "parse_and_verify jparse st now tok = Inr c" and "c_exp c = Some e" and "now < e"
    and "\<And>t tok' c'. tok' \<in> T \<Longrightarrow> parse_and_verify jparse st t tok' = Inr c' \<Longrightarrow> c_id c' = c_id c \<Longrightarrow>
           c_exp c' = Some e"
    and "delete_session jparse st now tok w = (None, w')"
    and "session_run jparse st T now w' t1 w''" and "t1 \<le> t" and "t < e"
  shows "\<exists>er. fst (get_user_id_by_token jparse st t tok w'') = Inl er"
  using sessions.logout_rejected [OF sessions_redis [OF assms(1-3)] assms(4-12)] .

theorem session_logout_rejected_witness:
  "\<exists>er. fst (get_user_id_by_token plain_parse (demo_sessions (redis_ops faulty_redis itoa parse_int))
     (3599 * second) demo_jwt (Map.empty(revocation_key (lit ''j'') \<mapsto> (VStr (lit ''1''), Some (3600 * second))),
       [])) = Inl er"
proof (rule session_logout_rejected [where T = "{demo_jwt}" and now = 0 and w = "(Map.empty, [])" and c = demo_claims
      and e = "3600 * second"])
  let ?st = "demo_sessions (redis_ops faulty_redis itoa parse_int)"
  show "parse_and_verify plain_parse ?st 0 demo_jwt = Inr demo_claims"
    by (rule demo_verified) (simp_all add: second_def)
  then show "c_exp c' = Some (3600 * second)"
    if "tok' \<in> {demo_jwt}" "parse_and_verify plain_parse ?st t tok' = Inr c'" for t tok' c'
    using that plain.verify_same [of ?st 0 demo_jwt demo_claims t c'] by (simp add: demo_claims_def)
  show "delete_session plain_parse ?st 0 demo_jwt (Map.empty, []) =
     (None, (Map.empty(revocation_key (lit ''j'') \<mapsto> (VStr (lit ''1''), Some (3600 * second))), []))"
    by (simp add: demo_logout second_def)
       (simp add: redis_ops_def revoker_of_def redis_revoke_def until_def)
  show "jwt_library plain_parse plain_sign whole_seconds (\<lambda>k. k) plain_content plain_signed"
    by (rule plain.jwt_library_axioms)
  show "redis_time faulty_redis fst itoa parse_int" by (rule frt.redis_time_axioms)
qed (auto simp: redis_revoker_inv_def cutoff_entry_def demo_claims_def second_def intro: run_refl)

text \<open>
  A token that was logged out is accepted again after it expired.  The revocation ends at the
  expiry of the token, verification goes on for the leeway (30 seconds unless configured), so
  between the two the logged out session works again.
\<close>

theorem session_logout_gap:
  fixes st :: "('k, 'p, mem_revoker) jwt_store" and jsign :: "'p jwt_sign"
  assumes "jwt_library jparse jsign ndate pub_of content signed"
    and "js_revoker st = Some mem_ops" and "mem_revoker_inv s"
    and "parse_and_verify jparse st now tok = Inr c" and "c_exp c = Some e" and "now < e"
    and "delete_session jparse st now tok s = (None, s')"
    and "e < t" and "t < e + js_leeway st"
    and "user_cutoff s (trim_space (c_sub c)) = zero_time" and "trim_space (c_sub c) \<noteq> []"
  shows "fst (get_user_id_by_token jparse st t tok s') = Inr (c_sub c)"
proof -
  note S = sessions_mem [OF assms(1,2)]
  obtain s1 where s1: "mem_is_revoked t (c_id c) s' = (Inr (mem_revoked t s' (c_id c)), s1)"
    using mem_is_revoked_total by blast
  show ?thesis
    using sessions.logout_gap [OF S assms(3-9) s1 mem_revoked_after_total assms(10,11)] assms(11) by blast
qed

theorem session_logout_gap_witness:
  "fst (get_user_id_by_token plain_parse (demo_sessions mem_ops) (3610 * second) demo_jwt
     \<lparr>rv_tokens = [lit ''j'' \<mapsto> 3600 * second], rv_users = Map.empty\<rparr>) = Inr (lit ''u'')"
proof -
  have "fst (get_user_id_by_token plain_parse (demo_sessions mem_ops) (3610 * second) demo_jwt
     \<lparr>rv_tokens = [lit ''j'' \<mapsto> 3600 * second], rv_users = Map.empty\<rparr>) = Inr (c_sub demo_claims)"
  proof (rule session_logout_gap [where now = 0 and s = new_memory_revoker and e = "3600 * second",
        OF plain.jwt_library_axioms])
    show "parse_and_verify plain_parse (demo_sessions mem_ops) 0 demo_jwt = Inr demo_claims"
      by (rule demo_verified) (simp_all add: second_def)
    show "delete_session plain_parse (demo_sessions mem_ops) 0 demo_jwt new_memory_revoker =
      (None, \<lparr>rv_tokens = [lit ''j'' \<mapsto> 3600 * second], rv_users = Map.empty\<rparr>)"
      by (simp add: demo_logout second_def)
        (simp add: mem_ops_def revoker_of_def mem_revoke_def new_memory_revoker_def)
  qed (simp_all add: mem_revoker_inv_def second_def demo_claims_def demo_sessions_def user_cutoff_def
        new_memory_revoker_def trim_space_fix is_space_def lit_Cons)
  then show ?thesis by (simp add: demo_claims_def)
qed

text \<open>
  C28: revoking a user's sessions rejects, for good, every token of the user issued at or before the
  revocation, whatever calls follow and whichever Redis commands fail.
\<close>

theorem session_user_revocation:
  fixes st :: "('k, 'p, 'w) jwt_store" and jsign :: "'p jwt_sign"
  assumes "jwt_library jparse jsign ndate pub_of content signed" and "redis_time rdo ks fmt prs"
    and "js_revoker st = Some (redis_ops rdo fmt prs)" and "redis_revoker_inv ks prs w"
    and "valid_time now" and "valid_time since" and "\<not> is_zero since" and "trim_space user \<noteq> []"
    and "revoke_user_sessions st now user since w = (None, w')"
    and "session_run jparse st T now w' t1 w''"
    and "parse_and_verify jparse st t tok = Inr c" and "trim_space (c_sub c) = trim_space user"
    and "\<And>i. c_iat c = Some i \<Longrightarrow> i \<le> since"
  shows "\<exists>er. fst (get_user_id_by_token jparse st t tok w'') = Inl er"
  using sessions.user_revocation_rejects [OF sessions_redis [OF assms(1-3)] assms(4-13)] .

theorem session_user_revocation_witness:
  "\<exists>er. fst (get_user_id_by_token plain_parse (demo_sessions (redis_ops faulty_redis itoa parse_int))
     (100 * second) demo_jwt
     (Map.empty(user_revocation_cutoff_key (lit ''u'') \<mapsto> (VStr (itoa (50 * second)), None)), [])) = Inl er"
proof (rule session_user_revocation [where T = "{}" and now = "50 * second" and w = "(Map.empty, [])"
      and c = demo_claims and since = "50 * second" and user = "lit ''u''"])
  let ?st = "demo_sessions (redis_ops faulty_redis itoa parse_int)"
  show "parse_and_verify plain_parse ?st (100 * second) demo_jwt = Inr demo_claims"
    by (rule demo_verified) (simp_all add: second_def)
  show "revoke_user_sessions ?st (50 * second) (lit ''u'') (50 * second) (Map.empty, []) =
     (None, (Map.empty(user_revocation_cutoff_key (lit ''u'') \<mapsto> (VStr (itoa (50 * second)), None)), []))"
    by (simp add: revoke_user_sessions_def redis_ops_def revoker_of_def redis_revoker_user_def until_def
        live_def is_zero_def zero_time_def second_def trim_space_fix is_space_def lit_Cons)
  show "jwt_library plain_parse plain_sign whole_seconds (\<lambda>k. k) plain_content plain_signed"
    by (rule plain.jwt_library_axioms)
  show "redis_time faulty_redis fst itoa parse_int" by (rule frt.redis_time_axioms)
qed (auto simp: redis_revoker_inv_def cutoff_entry_def demo_claims_def second_def valid_time_def zero_time_def
      is_zero_def trim_space_fix is_space_def lit_Cons intro: run_refl)

text \<open>
  A new session works.  A token that \<open>NewSession\<close> signed is accepted for its user from its issue
  until its expiry (and the leeway), unless its ID is revoked or a revocation of the user reaches the
  second of its issue.
\<close>

theorem session_roundtrip:
  fixes st :: "('k, 'p, mem_revoker) jwt_store" and jsign :: "'p jwt_sign"
  assumes "jwt_library jparse jsign ndate pub_of content signed"
    and "js_revoker st = Some mem_ops" and "mem_revoker_inv s"
    and "new_session ndate jsign st now jti user = Inr tok" and "trim_space jti \<noteq> []"
    and "trim_space user \<noteq> []"
    and "js_signer st = Some p" and "trim_space (js_kid st) = js_kid st" and "js_kid st \<noteq> []"
    and "map_of (js_verifiers st) (js_kid st) = Some (pub_of p)" and "0 < js_leeway st"
    and "now \<le> t" and "t < ndate (now + js_ttl st) + js_leeway st"
    and "\<not> mem_revoked t s jti"
    and "user_cutoff s (trim_space user) < ndate now \<or> is_zero (user_cutoff s (trim_space user))"
  shows "fst (get_user_id_by_token jparse st t tok s) = Inr user"
proof -
  note S = sessions_mem [OF assms(1,2)]
  obtain s1 where s1: "mem_is_revoked t jti s = (Inr (mem_revoked t s jti), s1)"
    using mem_is_revoked_total by blast
  show ?thesis
    using sessions.new_session_accepted [OF S assms(3-15) s1 mem_revoked_after_total] assms(6) by simp
qed

theorem session_roundtrip_witness:
  "fst (get_user_id_by_token plain_parse (demo_sessions mem_ops) second
     (plain_encode 7 (lit ''k'') demo_claims) new_memory_revoker) = Inr (lit ''u'')"
proof (rule session_roundtrip [where now = 0 and jti = "lit ''j''" and p = 7, OF plain.jwt_library_axioms])
  show "new_session whole_seconds plain_sign (demo_sessions mem_ops) 0 (lit ''j'') (lit ''u'') =
     Inr (plain_encode 7 (lit ''k'') demo_claims)"
    by (simp add: new_session_def demo_sessions_def plain_sign_def demo_claims_def whole_seconds_def second_def)
qed (simp_all add: mem_revoker_inv_def second_def demo_sessions_def user_cutoff_def is_zero_def zero_time_def
      new_memory_revoker_def trim_space_fix is_space_def lit_Cons whole_seconds_def mem_revoked_def)

end
