(* ===== verification/Base64.thy ===== *)
theory Base64
  imports Prelude
begin

text \<open>
  \<open>base64.RawURLEncoding\<close> of \<open>encoding/base64\<close> and the big-endian bytes of \<open>math/big\<close>, which carry the
  public keys of the published key set.
\<close>

definition base64_char :: "nat \<Rightarrow> rune" where
  "base64_char v =
     (if v < 26 then 65 + v else if v < 52 then 71 + v else if v < 62 then v - 4 else if v = 62 then 45 else 95)"

definition base64_value :: "rune \<Rightarrow> nat option" where
  "base64_value r =
     (if 65 \<le> r \<and> r \<le> 90 then Some (r - 65) else if 97 \<le> r \<and> r \<le> 122 then Some (r - 71)
      else if 48 \<le> r \<and> r \<le> 57 then Some (r + 4) else if r = 45 then Some 62 else if r = 95 then Some 63 else None)"

fun base64_encode :: "nat list \<Rightarrow> gostr" where
  "base64_encode [] = []"
| "base64_encode [a] = [base64_char (a div 4), base64_char (a mod 4 * 16)]"
| "base64_encode [a, b] = [base64_char (a div 4), base64_char (a mod 4 * 16 + b div 16), base64_char (b mod 16 * 4)]"
| "base64_encode (a # b # c # bs) =
     base64_char (a div 4) # base64_char (a mod 4 * 16 + b div 16) # base64_char (b mod 16 * 4 + c div 64) #
     base64_char (c mod 64) # base64_encode bs"

text \<open>Trailing bits are ignored, as the decoder is not strict.\<close>

fun base64_bytes :: "nat list \<Rightarrow> nat list option" where
  "base64_bytes [] = Some []"
| "base64_bytes [w] = None"
| "base64_bytes [w, x] = Some [w * 4 + x div 16]"
| "base64_bytes [w, x, y] = Some [w * 4 + x div 16, x mod 16 * 16 + y div 4]"
| "base64_bytes (w # x # y # z # vs) =
     map_option (\<lambda>bs. (w * 4 + x div 16) # (x mod 16 * 16 + y div 4) # (y mod 4 * 64 + z) # bs) (base64_bytes vs)"

text \<open>Line breaks are skipped.\<close>

definition base64_decode :: "gostr \<Rightarrow> nat list option" where
  "base64_decode s =
     (let vs = map base64_value (filter (\<lambda>r. r \<noteq> 10 \<and> r \<noteq> 13) s) in
      if None \<in> set vs then None else base64_bytes (map the vs))"

text \<open>\<open>big.Int.Bytes\<close> and \<open>big.Int.SetBytes\<close>.\<close>

fun big_bytes :: "nat \<Rightarrow> nat list" where
  "big_bytes n = (if n = 0 then [] else big_bytes (n div 256) @ [n mod 256])"

declare big_bytes.simps [simp del]

definition big_of_bytes :: "nat list \<Rightarrow> nat" where
  "big_of_bytes bs = foldl (\<lambda>n b. n * 256 + b) 0 bs"

lemma base64_value_char: "v < 64 \<Longrightarrow> base64_value (base64_char v) = Some v"
  by (auto simp: base64_value_def base64_char_def)

lemma base64_char_range: "v < 64 \<Longrightarrow> 45 \<le> base64_char v \<and> base64_char v \<le> 122"
  by (auto simp: base64_char_def)

text \<open>The groups of six bits that the encoder writes.\<close>

fun sextets :: "nat list \<Rightarrow> nat list" where
  "sextets [] = []"
| "sextets [a] = [a div 4, a mod 4 * 16]"
| "sextets [a, b] = [a div 4, a mod 4 * 16 + b div 16, b mod 16 * 4]"
| "sextets (a # b # c # bs) = a div 4 # (a mod 4 * 16 + b div 16) # (b mod 16 * 4 + c div 64) # c mod 64 # sextets bs"

lemma encode_sextets: "base64_encode bs = map base64_char (sextets bs)"
  by (induction bs rule: sextets.induct) auto

lemma sextet_bounds:
  fixes a b c :: nat
  assumes "a < 256" "b < 256"
  shows "a div 4 < 64" "a mod 4 * 16 < 64" "a mod 4 * 16 + b div 16 < 64" "a mod 16 * 4 < 64" "a mod 16 * 4 + b div 64 < 64"
proof -
  have "a mod 4 < 4" "a mod 16 < 16" "b div 16 < 16" "b div 64 < 4" using assms by auto
  then show "a mod 4 * 16 < 64" "a mod 4 * 16 + b div 16 < 64" "a mod 16 * 4 < 64" "a mod 16 * 4 + b div 64 < 64"
    by linarith+
  show "a div 4 < 64" using assms by auto
qed

lemma sextets_bounded: "list_all (\<lambda>b. b < 256) bs \<Longrightarrow> list_all (\<lambda>v. v < 64) (sextets bs)"
proof (induction bs rule: sextets.induct)
  case (2 a)
  then show ?case using sextet_bounds [of a a] by simp
next
  case (3 a b)
  then show ?case using sextet_bounds [of a b] sextet_bounds [of b b] by simp
next
  case (4 a b c bs)
  then show ?case using sextet_bounds [of a b] sextet_bounds [of b c] by simp
qed simp

lemma regroup:
  fixes a b c :: nat
  assumes "b < 256" "c < 256"
  shows "a div 4 * 4 + (a mod 4 * 16 + b div 16) div 16 = a"
    and "(a mod 4 * 16 + b div 16) mod 16 * 16 + (b mod 16 * 4 + c div 64) div 4 = b"
    and "(b mod 16 * 4 + c div 64) mod 4 * 64 + c mod 64 = c"
    and "(a mod 4 * 16 + b div 16) mod 16 * 16 + b mod 16 * 4 div 4 = b"
proof -
  have small: "b div 16 < 16" "c div 64 < 4" using assms by auto
  have q: "(a mod 4 * 16 + b div 16) div 16 = a mod 4" "(a mod 4 * 16 + b div 16) mod 16 = b div 16"
    using small by auto
  have r: "(b mod 16 * 4 + c div 64) div 4 = b mod 16" "(b mod 16 * 4 + c div 64) mod 4 = c div 64"
    using small by auto
  show "a div 4 * 4 + (a mod 4 * 16 + b div 16) div 16 = a" unfolding q by simp
  show "(a mod 4 * 16 + b div 16) mod 16 * 16 + (b mod 16 * 4 + c div 64) div 4 = b" unfolding q r by simp
  show "(b mod 16 * 4 + c div 64) mod 4 * 64 + c mod 64 = c" unfolding r by simp
  show "(a mod 4 * 16 + b div 16) mod 16 * 16 + b mod 16 * 4 div 4 = b" unfolding q by simp
qed

lemma bytes_sextets: "list_all (\<lambda>b. b < 256) bs \<Longrightarrow> base64_bytes (sextets bs) = Some bs"
proof (induction bs rule: sextets.induct)
  case (2 a)
  then show ?case by simp
next
  case (3 a b)
  then show ?case using regroup(1) [where a = a and b = b and c = 0] regroup(4) [where a = a and b = b and c = 0] by simp
next
  case (4 a b c bs)
  then show ?case using regroup(1) [where a = a and b = b and c = c] regroup(2) [where a = a and b = b and c = c] regroup(3) [where b = b and c = c] by simp
qed simp

theorem base64_roundtrip:
  assumes "list_all (\<lambda>b. b < 256) bs"
  shows "base64_decode (base64_encode bs) = Some bs"
proof -
  have vs: "list_all (\<lambda>v. v < 64) (sextets bs)" using sextets_bounded [OF assms] .
  have "filter (\<lambda>r. r \<noteq> 10 \<and> r \<noteq> 13) (base64_encode bs) = base64_encode bs"
    unfolding encode_sextets filter_id_conv using vs base64_char_range by (fastforce simp: list_all_iff)
  moreover have "map base64_value (base64_encode bs) = map Some (sextets bs)"
    unfolding encode_sextets using vs base64_value_char by (auto simp: list_all_iff)
  ultimately show ?thesis using bytes_sextets [OF assms] by (auto simp: base64_decode_def Let_def comp_def)
qed

lemma trim_base64_encode [simp]:
  assumes "list_all (\<lambda>b. b < 256) bs"
  shows "trim_space (base64_encode bs) = base64_encode bs"
proof -
  have "\<not> is_space r" if "r \<in> set (base64_encode bs)" for r
    using that sextets_bounded [OF assms] base64_char_range unfolding encode_sextets
    by (fastforce simp: list_all_iff is_space_def)
  then show ?thesis by (cases "base64_encode bs = []") (auto intro!: trim_space_fix)
qed

lemma big_bytes_bytes [simp]: "list_all (\<lambda>b. b < 256) (big_bytes n)"
  by (induction n rule: big_bytes.induct) (simp add: big_bytes.simps)

lemma big_bytes_roundtrip [simp]: "big_of_bytes (big_bytes n) = n"
proof (induction n rule: big_bytes.induct)
  case (1 n)
  then show ?case by (simp add: big_bytes.simps [of n] big_of_bytes_def)
qed

end
