(* ===== verification/ServiceTokens.thy ===== *)
theory ServiceTokens
  imports Sessions Base64
begin

text \<open>
  Tokens between services (\<open>backend/internal/servicetoken/token.go\<close>) and the verification of user tokens
  against the key set that the auth service publishes (\<open>backend/internal/usertoken/verifier.go\<close>).  The JWT
  library is the interface \<open>jwt_library\<close> of the session store; the PEM loaders and
  \<open>time.ParseDuration\<close> are parameters.  The library compares the header algorithm with the allowed
  methods before it calls the key function, so the key function sees RS256 tokens only.
\<close>

section \<open>Service tokens\<close>

record signer_options =
  so_private_key_path :: gostr
  so_key_id :: gostr
  so_issuer :: gostr
  so_ttl :: duration

record 'p signer =
  sg_issuer :: gostr
  sg_ttl :: duration
  sg_key :: 'p
  sg_kid :: gostr

definition default_key_id :: gostr where
  "default_key_id = lit ''internal-active''"

definition new_signer :: "(gostr \<Rightarrow> session_err + 'p) \<Rightarrow> signer_options \<Rightarrow> session_err + 'p signer" where
  "new_signer load_priv o0 =
     (let issuer = trim_space (so_issuer o0); kid = trim_space (so_key_id o0); path = trim_space (so_private_key_path o0) in
      if issuer = [] then Inl (JwtErr (lit ''service token issuer is required''))
      else if path = [] then Inl (JwtErr (lit ''service token private key path is required''))
      else
        case load_priv path of
          Inl e \<Rightarrow> Inl e
        | Inr key \<Rightarrow>
            Inr \<lparr>sg_issuer = issuer, sg_ttl = (if so_ttl o0 \<le> 0 then 60 * second else so_ttl o0), sg_key = key,
                 sg_kid = (if kid = [] then default_key_id else kid)\<rparr>)"

definition service_claims :: "(gotime \<Rightarrow> gotime) \<Rightarrow> 'p signer \<Rightarrow> gotime \<Rightarrow> gostr \<Rightarrow> gostr \<Rightarrow> jwt_claims" where
  "service_claims ndate s now jti audience =
     \<lparr>c_sub = sg_issuer s, c_iss = sg_issuer s, c_aud = [audience], c_exp = Some (ndate (now + sg_ttl s)),
      c_iat = Some (ndate now), c_nbf = Some (ndate now), c_id = jti\<rparr>"

definition service_sign ::
  "(gotime \<Rightarrow> gotime) \<Rightarrow> 'p jwt_sign \<Rightarrow> 'p signer \<Rightarrow> gotime \<Rightarrow> gostr \<Rightarrow> gostr \<Rightarrow> session_err + gostr" where
  "service_sign ndate jsign s now jti audience0 =
     (let audience = trim_space audience0 in
      if audience = [] then Inl (JwtErr (lit ''service token audience is required''))
      else jsign (sg_key s) (sg_kid s) (service_claims ndate s now jti audience))"

text \<open>The verification keys of the configuration are in the order in which the runtime iterates over the map.\<close>

record verifier_options =
  vo_public_key_path :: gostr
  vo_key_map :: "(gostr \<times> gostr) list"
  vo_default_key_id :: gostr
  vo_audience :: gostr
  vo_issuers :: "gostr list"
  vo_leeway :: duration

record 'k service_verifier =
  sv_audience :: gostr
  sv_issuers :: "gostr set"
  sv_leeway :: duration
  sv_keys :: "(gostr \<times> 'k) list"

definition new_service_verifier ::
  "(gostr \<Rightarrow> session_err + 'k) \<Rightarrow> verifier_options \<Rightarrow> session_err + 'k service_verifier" where
  "new_service_verifier load_pub o0 =
     (let audience = trim_space (vo_audience o0);
          issuers = set (filter (\<lambda>i. i \<noteq> []) (map trim_space (vo_issuers o0)));
          kid0 = trim_space (vo_default_key_id o0); kid = (if kid0 = [] then default_key_id else kid0);
          path = trim_space (vo_public_key_path o0)
      in if audience = [] then Inl (JwtErr (lit ''service token audience is required''))
         else if issuers = {} then Inl (JwtErr (lit ''at least one allowed issuer is required''))
         else
           case (if path = [] then Inr [] else case load_pub path of Inl e \<Rightarrow> Inl e | Inr pub \<Rightarrow> Inr [(kid, pub)]) of
             Inl e \<Rightarrow> Inl e
           | Inr keys0 \<Rightarrow>
               (case load_verifiers load_pub (vo_key_map o0) keys0 of
                  Inl e \<Rightarrow> Inl e
                | Inr keys \<Rightarrow>
                    if keys = [] then Inl (JwtErr (lit ''internal service verifier requires rsa public key''))
                    else Inr \<lparr>sv_audience = audience, sv_issuers = issuers,
                              sv_leeway = (if vo_leeway o0 \<le> 0 then 15 * second else vo_leeway o0), sv_keys = keys\<rparr>))"

definition service_key :: "'k service_verifier \<Rightarrow> gostr option \<Rightarrow> session_err + 'k" where
  "service_key v header_kid =
     (let kid = trim_space (case header_kid of None \<Rightarrow> [] | Some k \<Rightarrow> k) in
      if kid = [] then Inl TokenKeyIdRequired
      else (case map_of (sv_keys v) kid of None \<Rightarrow> Inl UnknownTokenKey | Some pub \<Rightarrow> Inr pub))"

definition service_parser :: "'k service_verifier \<Rightarrow> parser_options" where
  "service_parser v =
     \<lparr>po_methods = [lit ''RS256''], po_check_iat = True, po_leeway = sv_leeway v, po_issuer = None,
      po_audience = Some (sv_audience v)\<rparr>"

lemma service_parser_rs256 [simp]: "rs256_only (service_parser v)"
  by (simp add: rs256_only_def service_parser_def)

definition service_verify ::
  "'k jwt_parse \<Rightarrow> 'k service_verifier \<Rightarrow> gotime \<Rightarrow> gostr \<Rightarrow> session_err + jwt_claims" where
  "service_verify jparse v now token0 =
     (let token = trim_space token0 in
      if token = [] then Inl (JwtErr (lit ''token required''))
      else
        case jparse (service_key v) (service_parser v) now token of
          Inl e \<Rightarrow> Inl e
        | Inr c \<Rightarrow>
            if c_iss c \<notin> sv_issuers v then Inl (JwtErr (lit ''issuer not allowed''))
            else if c_id c = [] then Inl (JwtErr (lit ''jti required''))
            else if trim_space (c_sub c) = [] then Inl (JwtErr (lit ''subject required''))
            else Inr c)"

text \<open>The token of an \<open>Authorization\<close> header.\<close>

definition bearer_token :: "gostr \<Rightarrow> gostr option" where
  "bearer_token header =
     (let h = trim_space header in
      if \<not> has_prefix h (lit ''Bearer '') then None
      else let token = trim_space (trim_prefix h (lit ''Bearer '')) in if token = [] then None else Some token)"

text \<open>\<open>kid=path,kid2=path2\<close>; later entries replace earlier ones.  \<open>None\<close>: a bad entry.\<close>

definition verify_entry :: "gostr \<Rightarrow> (gostr \<times> gostr) option" where
  "verify_entry pair =
     (let kid = trim_space (takeWhile (\<lambda>r. r \<noteq> 61) pair); path = trim_space (drop 1 (dropWhile (\<lambda>r. r \<noteq> 61) pair)) in
      if 61 \<notin> set pair \<or> kid = [] \<or> path = [] then None else Some (kid, path))"

fun verify_entries :: "gostr list \<Rightarrow> (gostr \<times> gostr) list \<Rightarrow> (gostr \<times> gostr) list option" where
  "verify_entries [] out = Some out"
| "verify_entries (p # ps) out =
     (let pair = trim_space p in
      if pair = [] then verify_entries ps out
      else case verify_entry pair of None \<Rightarrow> None | Some (kid, path) \<Rightarrow> verify_entries ps (AList.update kid path out))"

definition parse_verify_public_keys :: "gostr \<Rightarrow> (gostr \<times> gostr) list option" where
  "parse_verify_public_keys raw = (let r = trim_space raw in if r = [] then Some [] else verify_entries (split_on 44 r) [])"

section \<open>User tokens\<close>

type_synonym rsa_key = "nat \<times> nat"   \<comment> \<open>modulus and exponent\<close>

record keyset_lib =
  kl_upper :: "rune \<Rightarrow> rune"
  kl_lower :: "rune \<Rightarrow> rune"
  kl_duration :: "gostr \<Rightarrow> duration option"    \<comment> \<open>\<open>time.ParseDuration\<close>\<close>

record user_verifier =
  uv_issuer :: gostr
  uv_audience :: gostr
  uv_leeway :: duration
  uv_keys :: "gostr \<rightharpoonup> rsa_key"
  uv_expire :: gotime

text \<open>What fetching the key set gives: an error, or status, decoded keys and the \<open>Cache-Control\<close> header.\<close>

datatype jwks_reply = FetchError session_err | FetchReply int gostr "session_err + jwk list"

definition upper_rune :: "(rune \<Rightarrow> rune) \<Rightarrow> rune \<Rightarrow> rune" where
  "upper_rune up r = (if 97 \<le> r \<and> r \<le> 122 then r - 32 else if r < 128 then r else up r)"

definition parse_rsa_public_key :: "gostr \<Rightarrow> gostr \<Rightarrow> session_err + rsa_key" where
  "parse_rsa_public_key n_raw e_raw =
     (case (base64_decode (trim_space n_raw), base64_decode (trim_space e_raw)) of
        (Some nb, Some eb) \<Rightarrow>
          let n = big_of_bytes nb; e = big_of_bytes eb in
          if n = 0 \<or> 2 ^ 63 \<le> e then Inl (JwtErr (lit ''invalid rsa key''))
          else if e = 0 then Inl (JwtErr (lit ''invalid rsa exponent''))
          else Inr (n, e)
      | _ \<Rightarrow> Inl (JwtErr (lit ''illegal base64 data'')))"

definition add_jwk :: "keyset_lib \<Rightarrow> jwk \<Rightarrow> (gostr \<rightharpoonup> rsa_key) \<Rightarrow> (gostr \<rightharpoonup> rsa_key)" where
  "add_jwk kl k m =
     (let kid = trim_space (jk_kid k) in
      if map (upper_rune (kl_upper kl)) (trim_space (jk_kty k)) \<noteq> lit ''RSA'' \<or> kid = [] then m
      else case parse_rsa_public_key (jk_n k) (jk_e k) of Inl _ \<Rightarrow> m | Inr pub \<Rightarrow> m(kid \<mapsto> pub))"

fun max_age :: "keyset_lib \<Rightarrow> gostr list \<Rightarrow> duration" where
  "max_age kl [] = 0"
| "max_age kl (p # ps) =
     (let part = to_lower (kl_lower kl) (trim_space p) in
      if \<not> has_prefix part (lit ''max-age='') then max_age kl ps
      else case kl_duration kl (trim_space (trim_prefix part (lit ''max-age='')) @ lit ''s'') of
             None \<Rightarrow> 0 | Some d \<Rightarrow> d)"

definition parse_cache_max_age :: "keyset_lib \<Rightarrow> gostr \<Rightarrow> duration" where
  "parse_cache_max_age kl header =
     (let h = trim_space header in if h = [] then 0 else max_age kl (split_on 44 h))"

definition refresh_jwks :: "keyset_lib \<Rightarrow> gotime \<Rightarrow> jwks_reply \<Rightarrow> user_verifier \<Rightarrow> session_err + user_verifier" where
  "refresh_jwks kl now reply v =
     (case reply of
        FetchError e \<Rightarrow> Inl e
      | FetchReply status cache_control body \<Rightarrow>
          if status \<noteq> 200 then Inl (JwtErr (lit ''fetch jwks: status '' @ itoa status))
          else
            case body of
              Inl e \<Rightarrow> Inl e
            | Inr ks \<Rightarrow>
                let keys = fold (add_jwk kl) ks Map.empty; ttl = parse_cache_max_age kl cache_control in
                if keys = Map.empty then Inl (JwtErr (lit ''jwks contains no usable rsa keys''))
                else Inr (v\<lparr>uv_keys := keys, uv_expire := now + (if ttl \<le> 0 then 300 * second else ttl)\<rparr>))"

definition new_user_verifier ::
  "keyset_lib \<Rightarrow> gotime \<Rightarrow> gostr \<Rightarrow> gostr \<Rightarrow> gostr \<Rightarrow> duration \<Rightarrow> jwks_reply \<Rightarrow> session_err + user_verifier" where
  "new_user_verifier kl now url issuer0 audience0 leeway reply =
     (let issuer = trim_space issuer0; audience = trim_space audience0 in
      if trim_space url = [] then Inl (JwtErr (lit ''token verifier requires jwksURL''))
      else refresh_jwks kl now reply
        \<lparr>uv_issuer = (if issuer = [] then lit ''onebook-auth'' else issuer),
         uv_audience = (if audience = [] then lit ''onebook-api'' else audience),
         uv_leeway = (if leeway \<le> 0 then 30 * second else leeway), uv_keys = Map.empty, uv_expire = zero_time\<rparr>)"

definition user_key :: "user_verifier \<Rightarrow> gostr option \<Rightarrow> session_err + rsa_key" where
  "user_key v header_kid =
     (let kid = trim_space (case header_kid of None \<Rightarrow> [] | Some k \<Rightarrow> k) in
      if kid = [] then Inl UnknownTokenKey
      else (case uv_keys v kid of None \<Rightarrow> Inl UnknownTokenKey | Some pub \<Rightarrow> Inr pub))"

definition user_parser :: "user_verifier \<Rightarrow> parser_options" where
  "user_parser v =
     \<lparr>po_methods = [lit ''RS256''], po_check_iat = True, po_leeway = uv_leeway v, po_issuer = Some (uv_issuer v),
      po_audience = Some (uv_audience v)\<rparr>"

lemma user_parser_rs256 [simp]: "rs256_only (user_parser v)"
  by (simp add: rs256_only_def user_parser_def)

definition parse_jwks :: "rsa_key jwt_parse \<Rightarrow> user_verifier \<Rightarrow> gotime \<Rightarrow> gostr \<Rightarrow> session_err + jwt_claims" where
  "parse_jwks jparse v now token = jparse (user_key v) (user_parser v) now token"

text \<open>\<open>reply\<close>: what the key set server answers if it is asked.\<close>

definition verify_jwks ::
  "keyset_lib \<Rightarrow> rsa_key jwt_parse \<Rightarrow> gotime \<Rightarrow> jwks_reply \<Rightarrow> gostr \<Rightarrow> user_verifier \<Rightarrow>
   (session_err + jwt_claims) \<times> user_verifier" where
  "verify_jwks kl jparse now reply token v =
     (case parse_jwks jparse v now token of
        Inr c \<Rightarrow> (Inr c, v)
      | Inl e \<Rightarrow>
          if e \<noteq> UnknownTokenKey \<and> \<not> uv_expire v < now then (Inl e, v)
          else
            case refresh_jwks kl now reply v of
              Inl e' \<Rightarrow> (Inl e', v)
            | Inr v' \<Rightarrow> (parse_jwks jparse v' now token, v'))"

definition verify_subject ::
  "keyset_lib \<Rightarrow> rsa_key jwt_parse \<Rightarrow> gotime \<Rightarrow> jwks_reply \<Rightarrow> gostr \<Rightarrow> user_verifier \<Rightarrow>
   (session_err + gostr) \<times> user_verifier" where
  "verify_subject kl jparse now reply token v =
     (case verify_jwks kl jparse now reply token v of
        (Inl e, v') \<Rightarrow> (Inl e, v')
      | (Inr c, v') \<Rightarrow>
          (let sb = trim_space (c_sub c) in (if sb = [] then Inl SubjectMissing else Inr sb, v')))"

section \<open>What the auth service publishes\<close>

text \<open>The key set of the session store: the coding of a key, the claims of its tokens, and a store that can sign.\<close>

definition published_n :: "rsa_key \<Rightarrow> gostr" where "published_n k = base64_encode (big_bytes (fst k))"
definition published_e :: "rsa_key \<Rightarrow> gostr" where "published_e k = base64_encode (big_bytes (snd k))"

definition rsa_key_ok :: "rsa_key \<Rightarrow> bool" where
  "rsa_key_ok k \<longleftrightarrow> 0 < fst k \<and> 0 < snd k \<and> snd k < 2 ^ 63"

definition published_jwk :: "(rsa_key, 'p, 's) jwt_store \<Rightarrow> gostr \<Rightarrow> jwk" where
  "published_jwk st kid =
     (case map_of (js_verifiers st) kid of
        Some pub \<Rightarrow> \<lparr>jk_kty = lit ''RSA'', jk_use = lit ''sig'', jk_kid = kid, jk_alg = lit ''RS256'',
                     jk_n = published_n pub, jk_e = published_e pub\<rparr>
      | None \<Rightarrow> \<lparr>jk_kty = lit ''RSA'', jk_use = lit ''sig'', jk_kid = kid, jk_alg = lit ''RS256'', jk_n = [], jk_e = []\<rparr>)"

definition session_claims :: "(gotime \<Rightarrow> gotime) \<Rightarrow> ('k, 'p, 's) jwt_store \<Rightarrow> gotime \<Rightarrow> gostr \<Rightarrow> gostr \<Rightarrow> jwt_claims" where
  "session_claims ndate st now jti user =
     \<lparr>c_sub = user, c_iss = js_issuer st, c_aud = [js_audience st], c_exp = Some (ndate (now + js_ttl st)),
      c_iat = Some (ndate now), c_nbf = Some (ndate now), c_id = jti\<rparr>"

definition signing_store :: "('p \<Rightarrow> rsa_key) \<Rightarrow> (rsa_key, 'p, 's) jwt_store \<Rightarrow> 'p \<Rightarrow> bool" where
  "signing_store pub_of st p \<longleftrightarrow>
     js_signer st = Some p \<and> js_kid st \<noteq> [] \<and> map_of (js_verifiers st) (js_kid st) = Some (pub_of p) \<and>
     rsa_key_ok (pub_of p) \<and> list_all (\<lambda>(kid, pub). trim_space kid = kid) (js_verifiers st)"

section \<open>What the verifiers accept\<close>

text \<open>An error of the key function reaches the caller.\<close>

locale jwt_key_errors =
  jwt_library jparse jsign ndate pub_of content signed
  for jparse :: "'k jwt_parse" and jsign :: "'p jwt_sign" and ndate pub_of content signed +
  assumes parse_key_error: "content tok = Some (hk, c) \<Longrightarrow> kf hk = Inl e \<Longrightarrow> jparse kf po now tok = Inl e"
begin

lemma service_signed:
  assumes "service_sign ndate jsign s now jti audience = Inr tok"
  shows "content tok = Some (Some (sg_kid s), service_claims ndate s now jti (trim_space audience)) \<and>
    signed (pub_of (sg_key s)) tok \<and> trim_space tok = tok \<and> tok \<noteq> []"
  using assms sign_content by (auto simp: service_sign_def Let_def split: if_splits)

lemma service_accepts:
  assumes "service_sign ndate jsign s now jti audience = Inr tok"
    and "trim_space audience = sv_audience v" and "sg_issuer s \<in> sv_issuers v" and "trim_space (sg_issuer s) \<noteq> []"
    and "jti \<noteq> []" and "trim_space (sg_kid s) = sg_kid s" and "sg_kid s \<noteq> []"
    and "map_of (sv_keys v) (sg_kid s) = Some (pub_of (sg_key s))" and "0 < sv_leeway v"
    and "now \<le> t" and "t < ndate (now + sg_ttl s) + sv_leeway v"
  shows "service_verify jparse v t tok = Inr (service_claims ndate s now jti (sv_audience v))"
proof -
  let ?c = "service_claims ndate s now jti (sv_audience v)"
  have tok: "content tok = Some (Some (sg_kid s), ?c)" "signed (pub_of (sg_key s)) tok" "trim_space tok = tok" "tok \<noteq> []"
    using service_signed [OF assms(1)] assms(2) by auto
  have "ndate now \<le> now" by (simp add: numeric_date second_def minus_mod_eq_div_mult [symmetric])
  then have ok: "claims_ok (service_parser v) t ?c"
    using assms(9-11) by (auto simp: claims_ok_def service_parser_def service_claims_def)
  have "service_key v (Some (sg_kid s)) = Inr (pub_of (sg_key s))" using assms(6-8) by (simp add: service_key_def)
  from parse_accepts [where kf = "service_key v", OF service_parser_rs256 tok(1) this tok(2) ok]
  show ?thesis using tok(3,4) assms(3,4,5) by (simp add: service_verify_def) (simp add: service_claims_def)
qed

text \<open>A token reaches the one service it was signed for, and not after its time.\<close>

lemma service_rejects:
  assumes "service_sign ndate jsign s now jti audience = Inr tok"
    and "trim_space audience \<noteq> sv_audience v \<or> sg_issuer s \<notin> sv_issuers v \<or> ndate (now + sg_ttl s) + sv_leeway v \<le> t"
  shows "\<exists>e. service_verify jparse v t tok = Inl e"
proof (cases "service_verify jparse v t tok")
  case (Inr c)
  have tok: "content tok = Some (Some (sg_kid s), service_claims ndate s now jti (trim_space audience))" "trim_space tok = tok"
    using service_signed [OF assms(1)] by auto
  obtain p where "jparse (service_key v) (service_parser v) t tok = Inr p" "c = p" "c_iss c \<in> sv_issuers v"
    using Inr tok(2) by (auto simp: service_verify_def Let_def split: if_splits sum.splits)
  then have "claims_ok (service_parser v) t c" "c = service_claims ndate s now jti (trim_space audience)" "c_iss c \<in> sv_issuers v"
    using parse_only [of "service_key v" "service_parser v" t tok c] tok(1) by auto
  then show ?thesis using assms(2) by (auto simp: claims_ok_def service_parser_def service_claims_def)
qed auto

text \<open>The store that signs user tokens, and what it publishes.\<close>

lemma session_signed:
  assumes "new_session ndate jsign st now jti user = Inr tok" "js_signer st = Some p"
  shows "content tok = Some (Some (js_kid st), session_claims ndate st now jti user) \<and> signed (pub_of p) tok"
  using assms sign_content by (auto simp: new_session_def session_claims_def Let_def)

end

lemma parse_published_key: "rsa_key_ok k \<Longrightarrow> parse_rsa_public_key (published_n k) (published_e k) = Inr k"
  by (simp add: parse_rsa_public_key_def published_n_def published_e_def base64_roundtrip rsa_key_ok_def)

lemma fold_add_jwk:
  assumes "\<And>k. k \<in> set ks \<Longrightarrow> trim_space (jk_kid k) = kid \<Longrightarrow>
      map (upper_rune (kl_upper kl)) (trim_space (jk_kty k)) = lit ''RSA'' \<and> parse_rsa_public_key (jk_n k) (jk_e k) = Inr pub"
    and "kid \<noteq> []" and "m kid = Some pub \<or> (\<exists>k\<in>set ks. trim_space (jk_kid k) = kid)"
  shows "fold (add_jwk kl) ks m kid = Some pub"
  using assms
proof (induction ks arbitrary: m)
  case (Cons k ks)
  show ?case
  proof (cases "trim_space (jk_kid k) = kid")
    case True
    then have "add_jwk kl k m kid = Some pub" using Cons.prems(1) [of k] Cons.prems(2) by (simp add: add_jwk_def)
    then show ?thesis using Cons.IH [of "add_jwk kl k m"] Cons.prems(1,2) by simp
  next
    case False
    then have "add_jwk kl k m kid = m kid" by (auto simp: add_jwk_def Let_def split: sum.split)
    then show ?thesis using Cons.IH [of "add_jwk kl k m"] Cons.prems False by auto
  qed
qed simp

lemma upper_RSA [simp]: "map (upper_rune up) (trim_space (lit ''RSA'')) = lit ''RSA''"
  by (simp add: trim_space_fix lit_Cons is_space_def upper_rune_def)

lemma jwks_published: "jwks published_n published_e st = map (published_jwk st) (sort (map fst (js_verifiers st)))"
  unfolding jwks_def published_jwk_def by simp

lemma published_keys:
  assumes "signing_store pub_of st p"
  shows "fold (add_jwk kl) (jwks published_n published_e st) Map.empty (js_kid st) = Some (pub_of p)"
proof (rule fold_add_jwk)
  show "js_kid st \<noteq> []" using assms by (simp add: signing_store_def)
  have trim: "trim_space kid = kid" if "kid \<in> set (map fst (js_verifiers st))" for kid
    using assms that by (auto simp: signing_store_def list_all_iff)
  show "map (upper_rune (kl_upper kl)) (trim_space (jk_kty k)) = lit ''RSA'' \<and>
      parse_rsa_public_key (jk_n k) (jk_e k) = Inr (pub_of p)"
    if k_in: "k \<in> set (jwks published_n published_e st)" and k_kid: "trim_space (jk_kid k) = js_kid st" for k
  proof -
    obtain kid where kid: "kid \<in> set (map fst (js_verifiers st))" and k: "k = published_jwk st kid"
      using k_in unfolding jwks_published by auto
    then have "kid = js_kid st" using k_kid trim [OF kid] by (auto simp: published_jwk_def split: option.splits)
    then show ?thesis using k assms by (simp add: published_jwk_def signing_store_def parse_published_key)
  qed
  have "js_kid st \<in> set (map fst (js_verifiers st))"
    using assms by (auto simp: signing_store_def intro: map_of_SomeD image_eqI [where x = "(js_kid st, pub_of p)"])
  then have "published_jwk st (js_kid st) \<in> set (jwks published_n published_e st)" "trim_space (js_kid st) = js_kid st"
    using trim unfolding jwks_published by auto
  then show "Map.empty (js_kid st) = Some (pub_of p) \<or>
      (\<exists>k\<in>set (jwks published_n published_e st). trim_space (jk_kid k) = js_kid st)"
    by (intro disjI2 bexI) (auto simp: published_jwk_def split: option.splits)
qed

context jwt_key_errors
begin

lemma parse_signed:
  assumes "new_session ndate jsign st now jti user = Inr tok" "js_signer st = Some p" "claims_ok po t (session_claims ndate st now jti user)"
    and "kf (Some (js_kid st)) = Inr (pub_of p)" and "rs256_only po"
  shows "jparse kf po t tok = Inr (session_claims ndate st now jti user)"
  using session_signed [OF assms(1,2)] parse_accepts [where kf = kf, OF assms(5) _ assms(4) _ assms(3)] by blast

end

interpretation plain_errors: jwt_key_errors plain_parse plain_sign whole_seconds "\<lambda>k. k" plain_content plain_signed
  by unfold_locales (auto simp: plain_parse_def plain_content_def)

text \<open>The same library with keys of two numbers; the exponent is always 65537.\<close>

definition plain_rsa_parse :: "rsa_key jwt_parse" where
  "plain_rsa_parse kf = plain_parse (\<lambda>h. case kf h of Inl e \<Rightarrow> Inl e | Inr k \<Rightarrow> Inr (fst k))"

definition plain_rsa_signed :: "rsa_key \<Rightarrow> gostr \<Rightarrow> bool" where
  "plain_rsa_signed k = plain_signed (fst k)"

definition plain_rsa_public :: "nat \<Rightarrow> rsa_key" where
  "plain_rsa_public p = (p, 65537)"

interpretation plain_rsa: jwt_key_errors plain_rsa_parse plain_sign whole_seconds plain_rsa_public plain_content plain_rsa_signed
  by unfold_locales
    (auto simp: plain_rsa_parse_def plain_rsa_signed_def plain_rsa_public_def plain_parse_def plain_sign_def plain_content_def
      plain_signed_def whole_seconds_def split: option.splits sum.splits if_splits)

definition demo_signer :: "nat signer" where
  "demo_signer = \<lparr>sg_issuer = lit ''book'', sg_ttl = 60 * second, sg_key = 7, sg_kid = lit ''k''\<rparr>"

definition demo_service_verifier :: "nat service_verifier" where
  "demo_service_verifier =
     \<lparr>sv_audience = lit ''ingest'', sv_issuers = {lit ''book''}, sv_leeway = 15 * second, sv_keys = [(lit ''k'', 7)]\<rparr>"

definition demo_rsa_store :: "(rsa_key, nat, unit) jwt_store" where
  "demo_rsa_store =
     \<lparr>js_ttl = 3600 * second, js_revoker = None, js_signer = Some 7, js_kid = lit ''k'', js_verifiers = [(lit ''k'', (7, 65537))],
      js_issuer = lit ''onebook-auth'', js_audience = lit ''onebook-api'', js_leeway = 30 * second\<rparr>"

definition demo_user_verifier :: "(gostr \<rightharpoonup> rsa_key) \<Rightarrow> user_verifier" where
  "demo_user_verifier keys =
     \<lparr>uv_issuer = lit ''onebook-auth'', uv_audience = lit ''onebook-api'', uv_leeway = 30 * second, uv_keys = keys, uv_expire = - 1\<rparr>"

definition demo_keyset_lib :: keyset_lib where
  "demo_keyset_lib = \<lparr>kl_upper = (\<lambda>r. r), kl_lower = (\<lambda>r. r), kl_duration = (\<lambda>s. None)\<rparr>"

lemma demo_rsa_session:
  "new_session whole_seconds plain_sign demo_rsa_store 0 (lit ''j'') (lit ''u'') =
     Inr (plain_encode 7 (lit ''k'') (session_claims whole_seconds demo_rsa_store 0 (lit ''j'') (lit ''u'')))"
  by (simp add: new_session_def demo_rsa_store_def plain_sign_def session_claims_def)

lemmas trims = trim_space_fix lit_Cons is_space_def

section \<open>Properties\<close>

text \<open>
  C29: a service token is accepted by the service it was signed for and by no other.  A verifier of the
  audience that lists the issuer and has its key accepts the token from its issue until its expiry and the
  leeway; a verifier of another audience, one that does not list the issuer, or a later verification refuses it.
\<close>

theorem service_token_audience:
  assumes "jwt_key_errors jparse jsign ndate pub_of content signed"
    and "service_sign ndate jsign s now jti audience = Inr tok"
    and "jti \<noteq> []" and "trim_space (sg_issuer s) \<noteq> []" and "trim_space (sg_kid s) = sg_kid s" and "sg_kid s \<noteq> []"
    and "map_of (sv_keys v) (sg_kid s) = Some (pub_of (sg_key s))" and "0 < sv_leeway v" and "now \<le> t"
  shows "(\<exists>c. service_verify jparse v t tok = Inr c \<and> c_iss c = sg_issuer s \<and> c_id c = jti) \<longleftrightarrow>
    trim_space audience = sv_audience v \<and> sg_issuer s \<in> sv_issuers v \<and> t < ndate (now + sg_ttl s) + sv_leeway v"
proof (cases "trim_space audience = sv_audience v \<and> sg_issuer s \<in> sv_issuers v \<and> t < ndate (now + sg_ttl s) + sv_leeway v")
  case True
  then have "service_verify jparse v t tok = Inr (service_claims ndate s now jti (sv_audience v))"
    using jwt_key_errors.service_accepts [OF assms(1,2) _ _ assms(4,3,5,6,7,8,9)] by blast
  then show ?thesis using True by (simp add: service_claims_def)
next
  case False
  then show ?thesis using jwt_key_errors.service_rejects [OF assms(1,2), of v t] by force
qed

theorem service_token_audience_witness:
  "\<exists>tok. service_sign whole_seconds plain_sign demo_signer 0 (lit ''j'') (lit ''ingest'') = Inr tok \<and>
     (\<exists>c. service_verify plain_parse demo_service_verifier (74 * second) tok = Inr c \<and> c_iss c = lit ''book'' \<and> c_id c = lit ''j'') \<and>
     \<not> (\<exists>c. service_verify plain_parse (demo_service_verifier\<lparr>sv_audience := lit ''indexer''\<rparr>) (74 * second) tok = Inr c \<and>
          c_iss c = lit ''book'' \<and> c_id c = lit ''j'')"
proof -
  define tok where "tok = plain_encode 7 (lit ''k'') (service_claims whole_seconds demo_signer 0 (lit ''j'') (lit ''ingest''))"
  have signed: "service_sign whole_seconds plain_sign demo_signer 0 (lit ''j'') (lit ''ingest'') = Inr tok"
    by (simp add: service_sign_def plain_sign_def tok_def demo_signer_def trims)
  have "(\<exists>c. service_verify plain_parse v (74 * second) tok = Inr c \<and> c_iss c = sg_issuer demo_signer \<and> c_id c = lit ''j'') \<longleftrightarrow>
      trim_space (lit ''ingest'') = sv_audience v \<and> sg_issuer demo_signer \<in> sv_issuers v \<and>
      74 * second < whole_seconds (0 + sg_ttl demo_signer) + sv_leeway v"
    if "sv_keys v = [(lit ''k'', 7)]" "0 < sv_leeway v" for v
    by (rule service_token_audience [OF plain_errors.jwt_key_errors_axioms signed])
      (use that in \<open>simp_all add: demo_signer_def trims second_def\<close>)
  from this [of demo_service_verifier] this [of "demo_service_verifier\<lparr>sv_audience := lit ''indexer''\<rparr>"]
  show ?thesis
    using signed by (simp add: demo_service_verifier_def demo_signer_def trims second_def whole_seconds_def)
qed


text \<open>
  C30: a service verifies the users' tokens with the key set that the auth service publishes.  A token of a
  new session is accepted for its user when the key set server answers with the current key set: with a cold
  cache, with the right key in the cache, and, after the signing key was replaced under the same ID, once the
  cache has expired.
\<close>

theorem session_token_verified:
  assumes "jwt_key_errors jparse jsign ndate pub_of content signed" and "signing_store pub_of st p"
    and "new_session ndate jsign st now jti user = Inr tok" and "trim_space user \<noteq> []"
    and "uv_issuer v = js_issuer st" and "uv_audience v = js_audience st" and "0 < uv_leeway v"
    and "now \<le> t" and "t < ndate (now + js_ttl st) + uv_leeway v"
    and "uv_keys v (js_kid st) = None \<or> uv_keys v (js_kid st) = Some (pub_of p) \<or> uv_expire v < t"
  shows "fst (verify_subject kl jparse t (FetchReply 200 cc (Inr (jwks published_n published_e st))) tok v) =
    Inr (trim_space user)"
proof -
  note J = assms(1) and L = assms(1) [unfolded jwt_key_errors_def, THEN conjunct1]
  let ?c = "session_claims ndate st now jti user"
  let ?keys = "fold (add_jwk kl) (jwks published_n published_e st) Map.empty"
  have st: "js_signer st = Some p" "js_kid st \<noteq> []" "trim_space (js_kid st) = js_kid st"
    using assms(2) map_of_SomeD by (fastforce simp: signing_store_def list_all_iff)+
  have content: "content tok = Some (Some (js_kid st), ?c)"
    using jwt_key_errors.session_signed [OF J assms(3) st(1)] by simp
  have key: "user_key w (Some (js_kid st)) = (case uv_keys w (js_kid st) of None \<Rightarrow> Inl UnknownTokenKey | Some k \<Rightarrow> Inr k)" for w
    using st(2,3) by (simp add: user_key_def)
  have "ndate now \<le> now"
    using jwt_library.numeric_date [OF L] by (simp add: second_def minus_mod_eq_div_mult [symmetric])
  then have ok: "claims_ok (user_parser v) t ?c"
    using assms(5-9) by (auto simp: claims_ok_def user_parser_def session_claims_def)
  have accept: "parse_jwks jparse w t tok = Inr ?c" if "uv_keys w (js_kid st) = Some (pub_of p)" "user_parser w = user_parser v" for w
    unfolding parse_jwks_def using jwt_key_errors.parse_signed [OF J assms(3) st(1), of "user_parser w" t "user_key w"] that ok
    by (simp add: key)
  have fresh: "?keys (js_kid st) = Some (pub_of p)" using published_keys [OF assms(2)] .
  then have "?keys \<noteq> Map.empty" by auto
  then obtain w where w: "refresh_jwks kl t (FetchReply 200 cc (Inr (jwks published_n published_e st))) v = Inr w"
      "uv_keys w (js_kid st) = Some (pub_of p)" "user_parser w = user_parser v"
    using fresh by (simp add: refresh_jwks_def Let_def user_parser_def)
  have sub: "trim_space (c_sub ?c) = trim_space user" by (simp add: session_claims_def)
  show ?thesis
  proof (cases "parse_jwks jparse v t tok")
    case (Inr c)
    then have "c = ?c" using jwt_library.parse_only [OF L] content by (fastforce simp: parse_jwks_def)
    then show ?thesis using Inr sub assms(4) by (simp add: verify_subject_def verify_jwks_def Let_def)
  next
    case (Inl e)
    have "uv_keys v (js_kid st) \<noteq> Some (pub_of p)" using Inl accept [of v] by auto
    moreover have "e = UnknownTokenKey" if "uv_keys v (js_kid st) = None"
      using Inl jwt_key_errors.parse_key_error [OF J content, of "user_key v"] that by (simp add: parse_jwks_def key)
    ultimately have "e = UnknownTokenKey \<or> uv_expire v < t" using assms(10) by auto
    then show ?thesis using Inl w accept [OF w(2,3)] sub assms(4) by (auto simp: verify_subject_def verify_jwks_def Let_def)
  qed
qed

theorem session_token_verified_witness:
  "fst (verify_subject demo_keyset_lib plain_rsa_parse second
     (FetchReply 200 [] (Inr (jwks published_n published_e demo_rsa_store)))
     (plain_encode 7 (lit ''k'') (session_claims whole_seconds demo_rsa_store 0 (lit ''j'') (lit ''u'')))
     (demo_user_verifier [lit ''k'' \<mapsto> (5, 3)])) = Inr (trim_space (lit ''u''))"
  by (rule session_token_verified [OF plain_rsa.jwt_key_errors_axioms _ demo_rsa_session, where p = 7])
    (simp_all add: signing_store_def rsa_key_ok_def demo_rsa_store_def demo_user_verifier_def plain_rsa_public_def trims
      second_def whole_seconds_def)


text \<open>
  A withdrawn key stays trusted.  When the key set in the cache has expired and the key set server no
  longer lists the key, or does not answer, a token signed with that key is still accepted: the expiry of the
  cache matters for tokens that fail only.
\<close>

theorem withdrawn_key_accepted:
  assumes "jwt_key_errors jparse jsign ndate pub_of content signed"
    and "new_session ndate jsign st now jti user = Inr tok" and "js_signer st = Some p" and "trim_space user \<noteq> []"
    and "trim_space (js_kid st) = js_kid st" and "js_kid st \<noteq> []" and "uv_keys v (js_kid st) = Some (pub_of p)"
    and "uv_issuer v = js_issuer st" and "uv_audience v = js_audience st" and "0 < uv_leeway v"
    and "uv_expire v < now" and "now \<le> t" and "t < ndate (now + js_ttl st) + uv_leeway v"
  shows "verify_subject kl jparse t reply tok v = (Inr (trim_space user), v)"
proof -
  note L = assms(1) [unfolded jwt_key_errors_def, THEN conjunct1]
  have "ndate now \<le> now"
    using jwt_library.numeric_date [OF L] by (simp add: second_def minus_mod_eq_div_mult [symmetric])
  then have ok: "claims_ok (user_parser v) t (session_claims ndate st now jti user)"
    using assms(8-13) by (auto simp: claims_ok_def user_parser_def session_claims_def)
  have "parse_jwks jparse v t tok = Inr (session_claims ndate st now jti user)"
    unfolding parse_jwks_def
    by (rule jwt_key_errors.parse_signed [OF assms(1-3) ok]) (simp_all add: user_key_def assms(5-7))
  then show ?thesis using assms(4) by (simp add: verify_subject_def verify_jwks_def Let_def session_claims_def)
qed

theorem withdrawn_key_accepted_witness:
  "verify_subject demo_keyset_lib plain_rsa_parse second (FetchReply 200 [] (Inr []))
     (plain_encode 7 (lit ''k'') (session_claims whole_seconds demo_rsa_store 0 (lit ''j'') (lit ''u'')))
     (demo_user_verifier [lit ''k'' \<mapsto> (7, 65537)]) =
   (Inr (trim_space (lit ''u'')), demo_user_verifier [lit ''k'' \<mapsto> (7, 65537)])"
  by (rule withdrawn_key_accepted [OF plain_rsa.jwt_key_errors_axioms demo_rsa_session, where p = 7])
    (simp_all add: demo_rsa_store_def demo_user_verifier_def plain_rsa_public_def trims second_def whole_seconds_def)

end
