(* ===== verification/Sql.thy ===== *)
theory Sql
  imports Prelude
begin

text \<open>
  The database behind the stores.  A call is a statement or a transaction on the tables, which
  takes effect as a whole or, when it fails, not at all.  The connection may be lost before or
  after the server did its work: an outcome is taken from a schedule for each call, and an
  exhausted schedule means that the calls succeed.
\<close>

datatype 'e db_error = DbDown | NotFound | UniqueViolation | AppError 'e

datatype db_outcome = DbOk | DbLost | DbUnknown

type_synonym 't db = "'t \<times> db_outcome list"

type_synonym ('t, 'e, 'a) statement = "'t \<Rightarrow> ('e db_error + 'a) \<times> 't"

text \<open>A statement that fails is rolled back.\<close>

definition atomically :: "('t, 'e, 'a) statement \<Rightarrow> 't \<Rightarrow> ('e db_error + 'a) \<times> 't" where
  "atomically f t = (case f t of (Inl e, _) \<Rightarrow> (Inl e, t) | (Inr a, t') \<Rightarrow> (Inr a, t'))"

fun db_call :: "('t, 'e, 'a) statement \<Rightarrow> 't db \<Rightarrow> ('e db_error + 'a) \<times> 't db" where
  "db_call f (t, []) = (let (r, t') = atomically f t in (r, (t', [])))"
| "db_call f (t, DbOk # os) = (let (r, t') = atomically f t in (r, (t', os)))"
| "db_call f (t, DbLost # os) = (Inl DbDown, (t, os))"
| "db_call f (t, DbUnknown # os) = (Inl DbDown, (snd (atomically f t), os))"

lemma atomically_inv: "(\<And>a t'. f t = (Inr a, t') \<Longrightarrow> P t') \<Longrightarrow> P t \<Longrightarrow> P (snd (atomically f t))"
  by (auto simp: atomically_def split: sum.splits prod.splits)

text \<open>Whatever happens to a call, the tables are the old ones or those of a successful statement.\<close>

lemma db_call_inv:
  assumes "\<And>a t'. f t = (Inr a, t') \<Longrightarrow> P t'" "P t"
  shows "P (fst (snd (db_call f (t, os))))"
proof -
  have "P (snd (atomically f t))" using assms by (rule atomically_inv)
  then show ?thesis using assms(2)
    by (cases "(f, t, os)" rule: db_call.cases) (auto simp: split_beta)
qed

lemma db_call_result:
  "db_call f (t, os) = (Inr a, (t', os')) \<Longrightarrow> f t = (Inr a, t')"
  by (cases "(f, t, os)" rule: db_call.cases)
    (auto simp: atomically_def split_beta prod_eq_iff split: sum.splits prod.splits)

lemma db_call_error:
  assumes "db_call f (t, os) = (Inl e, (t', os'))"
  shows "t' = t \<or> (\<exists>a. f t = (Inr a, t'))" and "e \<noteq> DbDown \<Longrightarrow> t' = t \<and> (\<exists>t2. f t = (Inl e, t2))"
  using assms
  by (cases "(f, t, os)" rule: db_call.cases;
      auto simp: atomically_def split_beta prod_eq_iff split: sum.splits prod.splits)+

lemma db_call_query:
  "(\<And>a t'. f t = (Inr a, t') \<Longrightarrow> t' = t) \<Longrightarrow> fst (snd (db_call f (t, os))) = t"
  by (rule db_call_inv [where P = "\<lambda>u. u = t"]) auto

lemma db_call_ok [simp]: "db_call f (t, []) = (case f t of (Inl e, _) \<Rightarrow> (Inl e, (t, [])) | (Inr a, t') \<Rightarrow> (Inr a, (t', [])))"
  by (simp add: atomically_def split: sum.splits prod.splits)

declare db_call.simps(1) [simp del]

end
