(* ===== verification/JobStore.thy ===== *)
theory JobStore
  imports Sql "HOL-Library.Product_Lexorder"
begin

text \<open>
  The job table of \<open>backend/pkg/queue/postgres_job_store.go\<close> and the interface \<open>jobStore\<close> of
  \<open>queue.go\<close>.  The table is the list of its rows; its unique index allows one active job (queued or
  processing) for a job type and a resource.
\<close>

section \<open>Rows\<close>

datatype job_state = StatusQueued | StatusProcessing | StatusDone | StatusFailed

record job_status =
  jb_id :: gostr
  jb_book_id :: gostr
  jb_status :: job_state
  jb_error :: gostr
  jb_attempts :: int
  jb_payload :: gostr
  jb_created :: gotime
  jb_updated :: gotime

record async_job =
  aj_id :: gostr
  aj_type :: gostr
  aj_resource_type :: gostr
  aj_resource_id :: gostr
  aj_status :: job_state
  aj_attempts :: int
  aj_error :: gostr
  aj_payload :: gostr
  aj_created :: gotime
  aj_updated :: gotime

datatype job_err = JobTerminal

definition job_from_model :: "async_job \<Rightarrow> job_status" where
  "job_from_model m =
     \<lparr>jb_id = aj_id m, jb_book_id = aj_resource_id m, jb_status = aj_status m, jb_error = aj_error m,
      jb_attempts = aj_attempts m, jb_payload = aj_payload m, jb_created = aj_created m,
      jb_updated = aj_updated m\<rparr>"

definition active :: "job_state \<Rightarrow> bool" where
  "active st \<longleftrightarrow> st = StatusQueued \<or> st = StatusProcessing"

definition job_resource :: "async_job \<Rightarrow> gostr \<times> gostr \<times> gostr" where
  "job_resource m = (aj_type m, aj_resource_type m, aj_resource_id m)"

text \<open>The primary key, and the index \<open>idx_async_jobs_active_resource\<close>.\<close>

definition job_keys_ok :: "async_job list \<Rightarrow> bool" where
  "job_keys_ok rows \<longleftrightarrow>
     distinct (map aj_id rows) \<and> distinct (map job_resource (filter (\<lambda>m. active (aj_status m)) rows))"

section \<open>Statements\<close>

definition find_active ::
    "gostr \<Rightarrow> gostr \<Rightarrow> gostr \<Rightarrow> (async_job list, job_err, async_job) statement" where
  "find_active jt rt rid rows =
     (case sort_key (\<lambda>m. (- aj_created m, aj_id m))
             (filter (\<lambda>m. job_resource m = (jt, rt, rid) \<and> active (aj_status m)) rows) of
        [] \<Rightarrow> (Inl NotFound, rows)
      | m # _ \<Rightarrow> (Inr m, rows))"

definition insert_job :: "async_job \<Rightarrow> (async_job list, job_err, unit) statement" where
  "insert_job m rows =
     (if job_keys_ok (rows @ [m]) then (Inr (), rows @ [m]) else (Inl UniqueViolation, rows))"

definition find_job :: "gostr \<Rightarrow> (async_job list, job_err, async_job) statement" where
  "find_job jid rows =
     (case filter (\<lambda>m. aj_id m = jid) rows of [] \<Rightarrow> (Inl NotFound, rows) | m # _ \<Rightarrow> (Inr m, rows))"

definition update_jobs ::
    "(async_job \<Rightarrow> async_job) \<Rightarrow> gostr \<Rightarrow> (async_job list, job_err, unit) statement" where
  "update_jobs f jid rows =
     (let rows' = map (\<lambda>m. if aj_id m = jid then f m else m) rows in
      if job_keys_ok rows' then (Inr (), rows') else (Inl UniqueViolation, rows))"

definition mark_processing_tx ::
    "gotime \<Rightarrow> gostr \<Rightarrow> (async_job list, job_err, async_job) statement" where
  "mark_processing_tx now jid rows =
     (case find_job jid rows of
        (Inl e, _) \<Rightarrow> (Inl e, rows)
      | (Inr m, _) \<Rightarrow>
          if aj_status m = StatusDone \<or> aj_status m = StatusFailed then (Inl (AppError JobTerminal), rows)
          else
            let m' = m\<lparr>aj_attempts := aj_attempts m + 1, aj_status := StatusProcessing, aj_updated := now\<rparr> in
            (case update_jobs (\<lambda>_. m') (aj_id m) rows of
               (Inl e, _) \<Rightarrow> (Inl e, rows)
             | (Inr _, rows') \<Rightarrow> (Inr m', rows')))"

section \<open>Operations\<close>

definition create_or_get_active_job ::
    "gotime \<Rightarrow> gostr \<Rightarrow> gostr \<Rightarrow> gostr \<Rightarrow> gostr \<Rightarrow> gostr \<Rightarrow> async_job list db \<Rightarrow>
     (job_err db_error + job_status \<times> bool) \<times> async_job list db" where
  "create_or_get_active_job now new_id jt rt rid payload d =
     (case db_call (find_active jt rt rid) d of
        (Inr existing, d1) \<Rightarrow> (Inr (job_from_model existing, False), d1)
      | (Inl e, d1) \<Rightarrow>
          if e \<noteq> NotFound then (Inl e, d1)
          else
            let m = \<lparr>aj_id = new_id, aj_type = jt, aj_resource_type = rt, aj_resource_id = rid,
                     aj_status = StatusQueued, aj_attempts = 0, aj_error = [], aj_payload = payload,
                     aj_created = now, aj_updated = now\<rparr>
            in (case db_call (insert_job m) d1 of
                  (Inr _, d2) \<Rightarrow> (Inr (job_from_model m, True), d2)
                | (Inl e2, d2) \<Rightarrow>
                    (case db_call (find_active jt rt rid) d2 of
                       (Inr race, d3) \<Rightarrow> (Inr (job_from_model race, False), d3)
                     | (Inl _, d3) \<Rightarrow> (Inl e2, d3))))"

definition get_job ::
    "gostr \<Rightarrow> async_job list db \<Rightarrow> (job_err db_error + job_status option) \<times> async_job list db" where
  "get_job jid d =
     (case db_call (find_job (trim_space jid)) d of
        (Inr m, d') \<Rightarrow> (Inr (Some (job_from_model m)), d')
      | (Inl e, d') \<Rightarrow> (if e = NotFound then Inr None else Inl e, d'))"

definition mark_processing ::
    "gotime \<Rightarrow> gostr \<Rightarrow> async_job list db \<Rightarrow> (job_err db_error + job_status) \<times> async_job list db" where
  "mark_processing now jid d =
     (case db_call (mark_processing_tx now (trim_space jid)) d of
        (Inl e, d') \<Rightarrow> (Inl e, d')
      | (Inr m, d') \<Rightarrow> (Inr (job_from_model m), d'))"

definition update_state ::
    "gotime \<Rightarrow> gostr \<Rightarrow> job_state \<Rightarrow> gostr \<Rightarrow> async_job list db \<Rightarrow>
     job_err db_error option \<times> async_job list db" where
  "update_state now jid st msg d =
     (case db_call (update_jobs (\<lambda>m. m\<lparr>aj_status := st, aj_error := msg, aj_updated := now\<rparr>)
                      (trim_space jid)) d of
        (Inl e, d') \<Rightarrow> (Some e, d')
      | (Inr _, d') \<Rightarrow> (None, d'))"

definition mark_queued where "mark_queued now jid msg = update_state now jid StatusQueued msg"
definition mark_done where "mark_done now jid = update_state now jid StatusDone []"
definition mark_failed where "mark_failed now jid msg = update_state now jid StatusFailed msg"

section \<open>The table as a map\<close>

definition job_of :: "async_job list db \<Rightarrow> gostr \<Rightarrow> job_status option" where
  "job_of d i = map_option job_from_model (find (\<lambda>m. aj_id m = i) (fst d))"

definition job_store_inv :: "async_job list db \<Rightarrow> bool" where
  "job_store_inv d \<longleftrightarrow> job_keys_ok (fst d) \<and> (\<forall>m\<in>set (fst d). 0 \<le> aj_attempts m)"

lemma find_map_id:
  "(\<And>m. aj_id (f m) = aj_id m) \<Longrightarrow>
   find (\<lambda>m. aj_id m = i) (map (\<lambda>m. if aj_id m = k then f m else m) xs) =
     map_option (\<lambda>m. if i = k then f m else m) (find (\<lambda>m. aj_id m = i) xs)"
  by (induction xs) auto

lemma find_in_set: "find P xs = Some x \<Longrightarrow> x \<in> set xs \<and> P x"
  by (induction xs) (auto split: if_splits)

lemma find_distinct_key:
  "distinct (map key xs) \<Longrightarrow> x \<in> set xs \<Longrightarrow> find (\<lambda>y. key y = key x) xs = Some x"
  by (induction xs) auto

lemma filter_find: "(case filter P xs of [] \<Rightarrow> None | x # _ \<Rightarrow> Some x) = find P xs"
  by (induction xs) auto

lemma find_job_eq:
  "find_job jid rows = (case find (\<lambda>m. aj_id m = jid) rows of None \<Rightarrow> (Inl NotFound, rows) | Some m \<Rightarrow> (Inr m, rows))"
  unfolding find_job_def filter_find [symmetric] by (auto split: list.splits)

lemma update_jobs_ok:
  "update_jobs f jid rows = (Inr a, rows') \<Longrightarrow>
   rows' = map (\<lambda>m. if aj_id m = jid then f m else m) rows \<and> job_keys_ok rows'"
  by (auto simp: update_jobs_def Let_def split: if_splits)

lemma mark_processing_tx_ok:
  assumes "mark_processing_tx now jid rows = (Inr m', rows')"
  shows "\<exists>m. find (\<lambda>m. aj_id m = jid) rows = Some m \<and> active (aj_status m) \<and>
     m' = m\<lparr>aj_attempts := aj_attempts m + 1, aj_status := StatusProcessing, aj_updated := now\<rparr> \<and>
     rows' = map (\<lambda>x. if aj_id x = jid then m' else x) rows \<and> job_keys_ok rows'"
proof (cases "find (\<lambda>m. aj_id m = jid) rows")
  case None
  then show ?thesis using assms by (simp add: mark_processing_tx_def find_job_eq)
next
  case (Some m)
  then have "aj_id m = jid" by (auto dest: find_in_set)
  moreover have "active (aj_status m)"
    using assms Some by (cases "aj_status m") (auto simp: mark_processing_tx_def find_job_eq active_def)
  moreover define m2 where
    "m2 = m\<lparr>aj_attempts := aj_attempts m + 1, aj_status := StatusProcessing, aj_updated := now\<rparr>"
  moreover have "\<exists>a. update_jobs (\<lambda>_. m2) jid rows = (Inr a, rows') \<and> m' = m2"
    using assms Some calculation
    by (simp add: mark_processing_tx_def find_job_eq Let_def split: if_splits sum.splits prod.splits)
  ultimately show ?thesis using Some update_jobs_ok [of "\<lambda>_. m2" jid rows] by blast
qed

lemma mark_processing_tx_terminal:
  "mark_processing_tx now jid rows = (Inl (AppError JobTerminal), rows') \<Longrightarrow>
   \<exists>m. find (\<lambda>m. aj_id m = jid) rows = Some m \<and> \<not> active (aj_status m)"
  by (auto simp: mark_processing_tx_def find_job_eq Let_def active_def update_jobs_def
      split: option.splits if_splits)

lemma find_active_ok:
  assumes "find_active jt rt rid rows = (Inr m, rows')"
  shows "m \<in> set rows \<and> job_resource m = (jt, rt, rid) \<and> active (aj_status m) \<and> rows' = rows"
proof -
  obtain ms where ms: "sort_key (\<lambda>m. (- aj_created m, aj_id m))
      (filter (\<lambda>m. job_resource m = (jt, rt, rid) \<and> active (aj_status m)) rows) = m # ms"
    using assms by (auto simp: find_active_def split: list.splits)
  have "set (m # ms) = set (filter (\<lambda>m. job_resource m = (jt, rt, rid) \<and> active (aj_status m)) rows)"
    unfolding ms [symmetric] by simp
  then show ?thesis using assms by (auto simp: find_active_def split: list.splits)
qed

lemma find_active_none:
  "find_active jt rt rid rows = (Inl e, rows') \<Longrightarrow>
   e = NotFound \<and> (\<forall>m\<in>set rows. job_resource m = (jt, rt, rid) \<longrightarrow> \<not> active (aj_status m))"
proof -
  assume "find_active jt rt rid rows = (Inl e, rows')"
  then have "sort_key (\<lambda>m. (- aj_created m, aj_id m))
      (filter (\<lambda>m. job_resource m = (jt, rt, rid) \<and> active (aj_status m)) rows) = []" and e: "e = NotFound"
    by (auto simp: find_active_def split: list.splits)
  then have "filter (\<lambda>m. job_resource m = (jt, rt, rid) \<and> active (aj_status m)) rows = []"
    by (auto dest: arg_cong [of _ _ set])
  then show ?thesis using e by (auto simp: filter_empty_conv)
qed

section \<open>The contract of a job store\<close>

record 's job_store_ops =
  st_create :: "gotime \<Rightarrow> gostr \<Rightarrow> gostr \<Rightarrow> gostr \<Rightarrow> gostr \<Rightarrow> gostr \<Rightarrow> 's \<Rightarrow>
                (job_err db_error + job_status \<times> bool) \<times> 's"
  st_get :: "gostr \<Rightarrow> 's \<Rightarrow> (job_err db_error + job_status option) \<times> 's"
  st_processing :: "gotime \<Rightarrow> gostr \<Rightarrow> 's \<Rightarrow> (job_err db_error + job_status) \<times> 's"
  st_queued :: "gotime \<Rightarrow> gostr \<Rightarrow> gostr \<Rightarrow> 's \<Rightarrow> job_err db_error option \<times> 's"
  st_done :: "gotime \<Rightarrow> gostr \<Rightarrow> 's \<Rightarrow> job_err db_error option \<times> 's"
  st_failed :: "gotime \<Rightarrow> gostr \<Rightarrow> gostr \<Rightarrow> 's \<Rightarrow> job_err db_error option \<times> 's"

definition set_job_state :: "gotime \<Rightarrow> job_state \<Rightarrow> gostr \<Rightarrow> job_status \<Rightarrow> job_status" where
  "set_job_state now st msg j = j\<lparr>jb_status := st, jb_error := msg, jb_updated := now\<rparr>"

definition mark_effect ::
    "gotime \<Rightarrow> gostr \<Rightarrow> job_state \<Rightarrow> gostr \<Rightarrow> (gostr \<rightharpoonup> job_status) \<Rightarrow> (gostr \<rightharpoonup> job_status)" where
  "mark_effect now jid st msg J =
     (case J jid of None \<Rightarrow> J | Some j \<Rightarrow> J(jid \<mapsto> set_job_state now st msg j))"

definition processing_effect ::
    "gotime \<Rightarrow> gostr \<Rightarrow> (gostr \<rightharpoonup> job_status) \<Rightarrow> job_status \<Rightarrow> (gostr \<rightharpoonup> job_status) \<Rightarrow> bool" where
  "processing_effect now jid J j J' \<longleftrightarrow>
     (\<exists>j0. J jid = Some j0 \<and> active (jb_status j0) \<and>
        j = j0\<lparr>jb_attempts := jb_attempts j0 + 1, jb_status := StatusProcessing, jb_updated := now\<rparr> \<and>
        J' = J(jid \<mapsto> j))"

locale job_store =
  fixes ops :: "'s job_store_ops"
    and inv :: "'s \<Rightarrow> bool"
    and job :: "'s \<Rightarrow> gostr \<Rightarrow> job_status option"
  assumes job_id: "inv s \<Longrightarrow> job s i = Some j \<Longrightarrow> jb_id j = i \<and> 0 \<le> jb_attempts j"
    and create_new:
      "inv s \<Longrightarrow> st_create ops now nid jt rt rid pl s = (Inr (j, True), s') \<Longrightarrow>
       inv s' \<and> job s nid = None \<and> jb_id j = nid \<and> jb_book_id j = rid \<and> jb_status j = StatusQueued \<and>
       jb_attempts j = 0 \<and> jb_payload j = pl \<and> job s' = (job s)(nid \<mapsto> j)"
    and create_existing:
      "inv s \<Longrightarrow> st_create ops now nid jt rt rid pl s = (Inr (j, False), s') \<Longrightarrow>
       inv s' \<and> active (jb_status j) \<and> jb_book_id j = rid \<and> job s' (jb_id j) = Some j"
    and create_inv: "inv s \<Longrightarrow> st_create ops now nid jt rt rid pl s = (q, s') \<Longrightarrow>
       inv s' \<and> (\<forall>i. i \<noteq> nid \<longrightarrow> job s' i = job s i)"
    and processing_ok:
      "inv s \<Longrightarrow> st_processing ops now i s = (Inr j, s') \<Longrightarrow>
       inv s' \<and> processing_effect now (trim_space i) (job s) j (job s')"
    and processing_terminal:
      "inv s \<Longrightarrow> st_processing ops now i s = (Inl (AppError JobTerminal), s') \<Longrightarrow>
       inv s' \<and> job s' = job s \<and> (\<exists>j. job s (trim_space i) = Some j \<and> \<not> active (jb_status j))"
    and processing_error:
      "inv s \<Longrightarrow> st_processing ops now i s = (Inl e, s') \<Longrightarrow>
       inv s' \<and> (job s' = job s \<or> (\<exists>j. processing_effect now (trim_space i) (job s) j (job s')))"
    and queued_ok:
      "inv s \<Longrightarrow> st_queued ops now i msg s = (None, s') \<Longrightarrow>
       inv s' \<and> job s' = mark_effect now (trim_space i) StatusQueued msg (job s)"
    and done_ok:
      "inv s \<Longrightarrow> st_done ops now i s = (None, s') \<Longrightarrow>
       inv s' \<and> job s' = mark_effect now (trim_space i) StatusDone [] (job s)"
    and failed_ok:
      "inv s \<Longrightarrow> st_failed ops now i msg s = (None, s') \<Longrightarrow>
       inv s' \<and> job s' = mark_effect now (trim_space i) StatusFailed msg (job s)"
    and queued_error:
      "inv s \<Longrightarrow> st_queued ops now i msg s = (Some e, s') \<Longrightarrow>
       inv s' \<and> (job s' = job s \<or> job s' = mark_effect now (trim_space i) StatusQueued msg (job s))"
    and done_error:
      "inv s \<Longrightarrow> st_done ops now i s = (Some e, s') \<Longrightarrow>
       inv s' \<and> (job s' = job s \<or> job s' = mark_effect now (trim_space i) StatusDone [] (job s))"
    and failed_error:
      "inv s \<Longrightarrow> st_failed ops now i msg s = (Some e, s') \<Longrightarrow>
       inv s' \<and> (job s' = job s \<or> job s' = mark_effect now (trim_space i) StatusFailed msg (job s))"

definition postgres_jobs :: "async_job list db job_store_ops" where
  "postgres_jobs =
     \<lparr>st_create = create_or_get_active_job, st_get = get_job, st_processing = mark_processing,
      st_queued = mark_queued, st_done = mark_done, st_failed = mark_failed\<rparr>"

lemma job_of_update:
  assumes "rows' = map (\<lambda>m. if aj_id m = k then f m else m) rows" and "\<And>m. aj_id (f m) = aj_id m"
  shows "job_of (rows', os') =
    (case find (\<lambda>m. aj_id m = k) rows of None \<Rightarrow> job_of (rows, os)
     | Some m \<Rightarrow> (job_of (rows, os))(k \<mapsto> job_from_model (f m)))"
proof
  fix i
  show "job_of (rows', os') i = (case find (\<lambda>m. aj_id m = k) rows of None \<Rightarrow> job_of (rows, os)
     | Some m \<Rightarrow> (job_of (rows, os))(k \<mapsto> job_from_model (f m))) i"
    using find_map_id [of f i k rows, OF assms(2)] assms(1)
    by (cases "i = k"; cases "find (\<lambda>m. aj_id m = i) rows")
      (auto simp: job_of_def split: option.splits)
qed

lemma update_state_effect:
  assumes "update_state now jid st msg (rows, os) = (r, (rows', os'))" and "job_store_inv (rows, os)"
  shows "job_store_inv (rows', os') \<and>
     (job_of (rows', os') = mark_effect now (trim_space jid) st msg (job_of (rows, os)) \<or>
      r \<noteq> None \<and> job_of (rows', os') = job_of (rows, os))"
proof -
  define f :: "async_job \<Rightarrow> async_job" where "f = (\<lambda>m. m\<lparr>aj_status := st, aj_error := msg, aj_updated := now\<rparr>)"
  have eff: "job_store_inv (rows2, os2) \<and>
      job_of (rows2, os2) = mark_effect now (trim_space jid) st msg (job_of (rows, os))"
    if "update_jobs f (trim_space jid) rows = (Inr a, rows2)" for a rows2 os2
  proof -
    have r2: "rows2 = map (\<lambda>m. if aj_id m = trim_space jid then f m else m) rows" "job_keys_ok rows2"
      using update_jobs_ok [OF that] by auto
    have J: "job_of (rows2, os2) =
      (case find (\<lambda>m. aj_id m = trim_space jid) rows of None \<Rightarrow> job_of (rows, os)
       | Some m \<Rightarrow> (job_of (rows, os))(trim_space jid \<mapsto> job_from_model (f m)))"
      by (rule job_of_update [OF r2(1)]) (simp add: f_def)
    have "job_of (rows, os) (trim_space jid) =
        map_option job_from_model (find (\<lambda>m. aj_id m = trim_space jid) rows)"
      by (simp add: job_of_def)
    then have "job_of (rows2, os2) = mark_effect now (trim_space jid) st msg (job_of (rows, os))"
      unfolding J mark_effect_def
      by (auto simp: f_def set_job_state_def job_from_model_def split: option.splits)
    then show ?thesis using assms(2) r2 by (auto simp: job_store_inv_def f_def)
  qed
  show ?thesis
    using assms eff
    by (auto simp: update_state_def simp flip: f_def split: sum.splits prod.splits
        dest!: db_call_result db_call_error(1))
      (auto simp: job_store_inv_def job_of_def)
qed

lemma mark_processing_effect:
  assumes "mark_processing now jid (rows, os) = (r, (rows', os'))" and "job_store_inv (rows, os)"
  shows "job_store_inv (rows', os')" (is ?inv)
    and "r = Inr j \<Longrightarrow>
      processing_effect now (trim_space jid) (job_of (rows, os)) j (job_of (rows', os'))"
    and "r = Inl e \<Longrightarrow> job_of (rows', os') = job_of (rows, os) \<or>
      (\<exists>j. processing_effect now (trim_space jid) (job_of (rows, os)) j (job_of (rows', os')))"
    and "r = Inl (AppError JobTerminal) \<Longrightarrow> job_of (rows', os') = job_of (rows, os) \<and>
      (\<exists>j. job_of (rows, os) (trim_space jid) = Some j \<and> \<not> active (jb_status j))"
proof -
  have eff: "job_store_inv (rows2, os2) \<and>
      processing_effect now (trim_space jid) (job_of (rows, os)) (job_from_model m') (job_of (rows2, os2))"
    if tx: "mark_processing_tx now (trim_space jid) rows = (Inr m', rows2)" for m' rows2 os2
  proof -
    obtain m where m: "find (\<lambda>m. aj_id m = trim_space jid) rows = Some m" "active (aj_status m)"
      "m' = m\<lparr>aj_attempts := aj_attempts m + 1, aj_status := StatusProcessing, aj_updated := now\<rparr>"
      "rows2 = map (\<lambda>x. if aj_id x = trim_space jid then m' else x) rows" "job_keys_ok rows2"
      using mark_processing_tx_ok [OF tx] by blast
    have id: "aj_id m' = trim_space jid" "m \<in> set rows" using m(1,3) by (auto dest: find_in_set)
    have "rows2 = map (\<lambda>x. if aj_id x = trim_space jid then (\<lambda>x. m'\<lparr>aj_id := aj_id x\<rparr>) x else x) rows"
      unfolding m(4) using id by auto
    then have J: "job_of (rows2, os2) = (job_of (rows, os))(trim_space jid \<mapsto> job_from_model m')"
      using job_of_update [of rows2 "trim_space jid" "\<lambda>x. m'\<lparr>aj_id := aj_id x\<rparr>" rows os2 os] m(1,3) id
      by simp
    have "job_of (rows, os) (trim_space jid) = Some (job_from_model m)" using m(1) by (simp add: job_of_def)
    then show ?thesis
      using J m id assms(2) by (auto simp: processing_effect_def job_from_model_def job_store_inv_def)
  qed
  have call: "(\<exists>m' os2. r = Inr (job_from_model m') \<and> mark_processing_tx now (trim_space jid) rows = (Inr m', rows')) \<or>
      (\<exists>e. r = Inl e \<and> (rows' = rows \<or> (\<exists>m'. mark_processing_tx now (trim_space jid) rows = (Inr m', rows'))) \<and>
        (e \<noteq> DbDown \<longrightarrow> rows' = rows \<and> (\<exists>t2. mark_processing_tx now (trim_space jid) rows = (Inl e, t2))))"
    using assms(1) unfolding mark_processing_def
    by (auto split: sum.splits prod.splits dest: db_call_result db_call_error)
  have same: "job_store_inv (rows, os')" "job_of (rows, os') = job_of (rows, os)"
    using assms(2) by (simp_all add: job_store_inv_def job_of_def fun_eq_iff)
  show ?inv using call eff same(1) by metis
  show "processing_effect now (trim_space jid) (job_of (rows, os)) j (job_of (rows', os'))" if "r = Inr j"
    using call eff that by fastforce
  show "job_of (rows', os') = job_of (rows, os) \<or>
      (\<exists>j. processing_effect now (trim_space jid) (job_of (rows, os)) j (job_of (rows', os')))" if "r = Inl e"
    using call eff same that by (metis Inl_Inr_False sum.inject(1))
  show "job_of (rows', os') = job_of (rows, os) \<and>
      (\<exists>j. job_of (rows, os) (trim_space jid) = Some j \<and> \<not> active (jb_status j))"
    if "r = Inl (AppError JobTerminal)"
    using call same that mark_processing_tx_terminal [of now "trim_space jid" rows]
    by (auto simp: job_of_def job_from_model_def)
qed

lemma find_active_call:
  assumes "db_call (find_active jt rt rid) (rows, os) = (r, (rows', os'))"
  shows "rows' = rows"
    and "r = Inr m \<Longrightarrow> m \<in> set rows \<and> job_resource m = (jt, rt, rid) \<and> active (aj_status m)"
proof -
  show "rows' = rows"
  proof (cases r)
    case (Inl e)
    then show ?thesis using db_call_error(1) [OF assms [unfolded Inl]] find_active_ok by blast
  next
    case (Inr m)
    then show ?thesis using find_active_ok [OF db_call_result [OF assms [unfolded Inr]]] by blast
  qed
  show "m \<in> set rows \<and> job_resource m = (jt, rt, rid) \<and> active (aj_status m)" if "r = Inr m"
    using find_active_ok [OF db_call_result [OF assms [unfolded that]]] by blast
qed

lemma insert_job_ok:
  "insert_job m rows = (Inr a, rows') \<Longrightarrow> rows' = rows @ [m] \<and> job_keys_ok rows'"
  by (auto simp: insert_job_def split: if_splits)

lemma job_of_insert:
  assumes "job_keys_ok (rows @ [m])"
  shows "job_of (rows @ [m], os') = (job_of (rows, os))(aj_id m \<mapsto> job_from_model m)"
    and "job_of (rows, os) (aj_id m) = None"
proof -
  have "find (\<lambda>x. aj_id x = aj_id m) rows = None"
    using assms by (auto simp: job_keys_ok_def find_None_iff image_iff)
  then show "job_of (rows @ [m], os') = (job_of (rows, os))(aj_id m \<mapsto> job_from_model m)"
    and "job_of (rows, os) (aj_id m) = None"
    by (auto simp: job_of_def find_append fun_eq_iff split: option.splits)
qed

lemma job_of_row: "job_store_inv (rows, os) \<Longrightarrow> m \<in> set rows \<Longrightarrow> job_of (rows, os) (aj_id m) = Some (job_from_model m)"
  using find_distinct_key [of aj_id rows m] by (simp add: job_of_def job_store_inv_def job_keys_ok_def)

lemma job_of_schedule: "job_of (rows, os') = job_of (rows, os)" "job_store_inv (rows, os') = job_store_inv (rows, os)"
  by (simp_all add: job_of_def job_store_inv_def fun_eq_iff)

lemma create_effect:
  assumes c: "create_or_get_active_job now nid jt rt rid pl (rows, os) = (r, (rows', os'))"
    and inv: "job_store_inv (rows, os)"
  defines "m \<equiv> \<lparr>aj_id = nid, aj_type = jt, aj_resource_type = rt, aj_resource_id = rid, aj_status = StatusQueued,
     aj_attempts = 0, aj_error = [], aj_payload = pl, aj_created = now, aj_updated = now\<rparr>"
  shows "rows' = rows \<and> r \<noteq> Inr (job_from_model m', True) \<or> rows' = rows @ [m] \<and> job_keys_ok rows'"
    and "r = Inr (j, True) \<Longrightarrow> j = job_from_model m \<and> rows' = rows @ [m]"
    and "r = Inr (j, False) \<Longrightarrow>
      \<exists>x\<in>set rows'. j = job_from_model x \<and> job_resource x = (jt, rt, rid) \<and> active (aj_status x)"
proof -
  obtain r1 rows1 os1 where q1: "db_call (find_active jt rt rid) (rows, os) = (r1, (rows1, os1))"
    by (metis surj_pair)
  obtain r2 rows2 os2 where q2: "db_call (insert_job m) (rows, os1) = (r2, (rows2, os2))"
    by (metis surj_pair)
  obtain r3 rows3 os3 where q3: "db_call (find_active jt rt rid) (rows2, os2) = (r3, (rows3, os3))"
    by (metis surj_pair)
  note f1 = find_active_call [OF q1] and f3 = find_active_call [OF q3]
  have i: "rows2 = rows \<and> (\<forall>a. r2 \<noteq> Inr a) \<or> rows2 = rows @ [m] \<and> job_keys_ok rows2"
    using q2 by (cases r2) (auto dest!: db_call_result db_call_error(1) insert_job_ok)
  show "rows' = rows \<and> r \<noteq> Inr (job_from_model m', True) \<or> rows' = rows @ [m] \<and> job_keys_ok rows'"
    and "r = Inr (j, True) \<Longrightarrow> j = job_from_model m \<and> rows' = rows @ [m]"
    and "r = Inr (j, False) \<Longrightarrow>
      \<exists>x\<in>set rows'. j = job_from_model x \<and> job_resource x = (jt, rt, rid) \<and> active (aj_status x)"
    using c q1 q2 q3 f1 f3 i
    by (auto simp: create_or_get_active_job_def simp flip: m_def split: sum.splits if_splits)
qed

interpretation pg: job_store postgres_jobs job_store_inv job_of
proof (unfold_locales, goal_cases)
  case (1 s i j)
  then show ?case
    by (cases s) (auto simp: job_of_def job_from_model_def job_store_inv_def dest!: find_in_set)
next
  case (2 s now nid jt rt rid pl j s')
  obtain rows os rows' os' where s: "s = (rows, os)" "s' = (rows', os')" by force
  define m where "m = \<lparr>aj_id = nid, aj_type = jt, aj_resource_type = rt, aj_resource_id = rid,
     aj_status = StatusQueued, aj_attempts = 0, aj_error = [], aj_payload = pl, aj_created = now, aj_updated = now\<rparr>"
  have c: "create_or_get_active_job now nid jt rt rid pl (rows, os) = (Inr (j, True), (rows', os'))"
    using 2(2) s by (simp add: postgres_jobs_def)
  note e = create_effect [OF c 2(1) [unfolded s], folded m_def]
  have j: "j = job_from_model m" "rows' = rows @ [m]" "job_keys_ok (rows @ [m])"
    using e(1) [where m' = m] e(2) [where j = j] by auto
  have "job_store_inv s'" using 2(1) j s by (auto simp: job_store_inv_def m_def)
  then show ?case
    using job_of_insert(1) [OF j(3), of os' os] job_of_insert(2) [OF j(3), of os] j s by (simp add: job_from_model_def) (simp add: m_def)
next
  case (3 s now nid jt rt rid pl j s')
  obtain rows os rows' os' where s: "s = (rows, os)" "s' = (rows', os')" by force
  have c: "create_or_get_active_job now nid jt rt rid pl (rows, os) = (Inr (j, False), (rows', os'))"
    using 3(2) s by (simp add: postgres_jobs_def)
  note e = create_effect [OF c 3(1) [unfolded s]]
  have inv: "job_store_inv s'" using e(1) 3(1) s by (auto simp: job_store_inv_def)
  obtain x where x: "x \<in> set rows'" "j = job_from_model x" "job_resource x = (jt, rt, rid)" "active (aj_status x)"
    using e(3) by blast
  then show ?case
    using job_of_row [OF inv [unfolded s] x(1)] inv s by (simp add: job_from_model_def job_resource_def)
next
  case (4 s now nid jt rt rid pl q s')
  obtain rows os rows' os' where s: "s = (rows, os)" "s' = (rows', os')" by force
  have c: "create_or_get_active_job now nid jt rt rid pl (rows, os) = (q, (rows', os'))"
    using 4(2) s by (simp add: postgres_jobs_def)
  show ?case
    using create_effect(1) [OF c 4(1) [unfolded s], of undefined] 4(1) s
    by (auto simp: job_store_inv_def job_of_def find_append split: option.splits)
next
  case (5 s now i j s')
  then show ?case using mark_processing_effect [of now i "fst s" "snd s"]
    by (cases s; cases s') (auto simp: postgres_jobs_def)
next
  case (6 s now i s')
  then show ?case using mark_processing_effect [of now i "fst s" "snd s"]
    by (cases s; cases s') (auto simp: postgres_jobs_def)
next
  case (7 s now i e s')
  then show ?case using mark_processing_effect [of now i "fst s" "snd s"]
    by (cases s; cases s') (auto simp: postgres_jobs_def)
qed (auto simp: postgres_jobs_def mark_queued_def mark_done_def mark_failed_def dest!: update_state_effect)

section \<open>A store whose calls do not fail\<close>

text \<open>\<open>ok\<close> describes the states in which the calls of the store succeed.\<close>

locale reliable_job_store = job_store ops inv job
  for ops :: "'s job_store_ops" and inv and job +
  fixes ok :: "'s \<Rightarrow> bool"
  assumes processing_runs:
      "inv s \<Longrightarrow> ok s \<Longrightarrow> job s (trim_space i) = Some j \<Longrightarrow> active (jb_status j) \<Longrightarrow>
       \<exists>j' s'. st_processing ops now i s = (Inr j', s') \<and> ok s'"
    and processing_stops:
      "inv s \<Longrightarrow> ok s \<Longrightarrow> job s (trim_space i) = Some j \<Longrightarrow> \<not> active (jb_status j) \<Longrightarrow>
       \<exists>s'. st_processing ops now i s = (Inl (AppError JobTerminal), s') \<and> ok s'"
    and queued_runs:
      "inv s \<Longrightarrow> ok s \<Longrightarrow> job s (trim_space i) = Some j \<Longrightarrow> active (jb_status j) \<Longrightarrow>
       \<exists>s'. st_queued ops now i msg s = (None, s') \<and> ok s'"
    and done_runs: "inv s \<Longrightarrow> ok s \<Longrightarrow> \<exists>s'. st_done ops now i s = (None, s') \<and> ok s'"
    and failed_runs: "inv s \<Longrightarrow> ok s \<Longrightarrow> \<exists>s'. st_failed ops now i msg s = (None, s') \<and> ok s'"

text \<open>An update that activates no job keeps the keys.\<close>

lemma job_keys_ok_map:
  assumes "job_keys_ok rows"
    and "\<And>m. m \<in> set rows \<Longrightarrow> aj_id (g m) = aj_id m \<and> job_resource (g m) = job_resource m \<and>
           (active (aj_status (g m)) \<longrightarrow> active (aj_status m))"
  shows "job_keys_ok (map g rows)"
proof -
  let ?A = "\<lambda>m. active (aj_status m)"
  have "filter (\<lambda>m. ?A (g m)) rows = filter (\<lambda>m. ?A (g m)) (filter ?A rows)"
    using assms(2) by (auto intro: filter_cong)
  then have f: "filter ?A (map g rows) = map g (filter (\<lambda>m. ?A (g m)) (filter ?A rows))"
    by (simp add: filter_map o_def)
  let ?fs = "filter (\<lambda>m. ?A (g m)) (filter ?A rows)"
  have r: "map job_resource (map g ?fs) = map job_resource ?fs"
    unfolding map_map using assms(2) by (intro map_cong) auto
  have i: "map aj_id (map g rows) = map aj_id rows"
    unfolding map_map using assms(2) by (intro map_cong) auto
  have "distinct (map job_resource ?fs)"
    using assms(1) unfolding job_keys_ok_def by (blast intro: distinct_map_filter)
  then show ?thesis
    using assms(1) unfolding job_keys_ok_def f r i by blast
qed

lemma update_jobs_runs:
  assumes "job_keys_ok rows"
    and "\<And>m. m \<in> set rows \<Longrightarrow> aj_id m = jid \<Longrightarrow> aj_id (f m) = aj_id m \<and> job_resource (f m) = job_resource m \<and>
           (active (aj_status (f m)) \<longrightarrow> active (aj_status m))"
  shows "update_jobs f jid rows = (Inr (), map (\<lambda>m. if aj_id m = jid then f m else m) rows)"
  using job_keys_ok_map [OF assms(1), of "\<lambda>m. if aj_id m = jid then f m else m"] assms(2)
  by (auto simp: update_jobs_def Let_def)

lemma update_state_runs:
  assumes "job_store_inv s" "snd s = []"
    and "active st \<Longrightarrow> \<exists>j. job_of s (trim_space i) = Some j \<and> active (jb_status j)"
  shows "\<exists>s'. update_state now i st msg s = (None, s') \<and> snd s' = []"
proof -
  obtain rows where s: "s = (rows, [])" using assms(2) by (cases s) auto
  have "active (aj_status m)" if "m \<in> set rows" "aj_id m = trim_space i" "active st" for m
    using assms(3) [OF that(3)] job_of_row [of rows "[]" m] assms(1) that s by (auto simp: job_from_model_def)
  then have "update_jobs (\<lambda>m. m\<lparr>aj_status := st, aj_error := msg, aj_updated := now\<rparr>) (trim_space i) rows =
     (Inr (), map (\<lambda>m. if aj_id m = trim_space i then m\<lparr>aj_status := st, aj_error := msg, aj_updated := now\<rparr> else m) rows)"
    using assms(1) s by (intro update_jobs_runs) (auto simp: job_store_inv_def job_resource_def)
  then show ?thesis by (simp add: update_state_def s)
qed

lemma mark_processing_runs:
  assumes "job_store_inv s" "snd s = []" "job_of s (trim_space i) = Some j"
  shows "active (jb_status j) \<Longrightarrow> \<exists>j' s'. mark_processing now i s = (Inr j', s') \<and> snd s' = []"
    and "\<not> active (jb_status j) \<Longrightarrow>
      \<exists>s'. mark_processing now i s = (Inl (AppError JobTerminal), s') \<and> snd s' = []"
proof -
  obtain rows where s: "s = (rows, [])" using assms(2) by (cases s) auto
  obtain m where m: "find (\<lambda>m. aj_id m = trim_space i) rows = Some m" "jb_status j = aj_status m"
    using assms(3) s by (auto simp: job_of_def job_from_model_def)
  have id: "m \<in> set rows" "aj_id m = trim_space i" using find_in_set [OF m(1)] by auto
  show "\<exists>s'. mark_processing now i s = (Inl (AppError JobTerminal), s') \<and> snd s' = []"
    if "\<not> active (jb_status j)"
    using that m s by (cases "aj_status m") (auto simp: mark_processing_def mark_processing_tx_def find_job_eq active_def)
  show "\<exists>j' s'. mark_processing now i s = (Inr j', s') \<and> snd s' = []" if "active (jb_status j)"
  proof -
    define m2 where "m2 = m\<lparr>aj_attempts := aj_attempts m + 1, aj_status := StatusProcessing, aj_updated := now\<rparr>"
    have "x = m" if "x \<in> set rows" "aj_id x = trim_space i" for x
      using find_distinct_key [of aj_id rows x] that m(1) assms(1) s by (simp add: job_store_inv_def job_keys_ok_def)
    then have "update_jobs (\<lambda>_. m2) (trim_space i) rows =
      (Inr (), map (\<lambda>x. if aj_id x = trim_space i then m2 else x) rows)"
      using assms(1) s that m(2) by (intro update_jobs_runs) (auto simp: job_store_inv_def m2_def job_resource_def)
    then show ?thesis
      using that m id s
      by (auto simp: mark_processing_def mark_processing_tx_def find_job_eq active_def Let_def simp flip: m2_def)
  qed
qed

interpretation pgr: reliable_job_store postgres_jobs job_store_inv job_of "\<lambda>d. snd d = []"
proof (unfold_locales, goal_cases)
  case (1 s i j now)
  then show ?case using mark_processing_runs(1) by (simp add: postgres_jobs_def)
next
  case (2 s i j now)
  then show ?case using mark_processing_runs(2) by (simp add: postgres_jobs_def)
next
  case (3 s i j now msg)
  then show ?case using update_state_runs [of s StatusQueued i] by (simp add: postgres_jobs_def mark_queued_def)
next
  case (4 s now i)
  then show ?case using update_state_runs [of s StatusDone i]
    by (simp add: postgres_jobs_def mark_done_def active_def)
next
  case (5 s now i msg)
  then show ?case using update_state_runs [of s StatusFailed i]
    by (simp add: postgres_jobs_def mark_failed_def active_def)
qed

end
