(* ===== verification/RabbitQueue.thy ===== *)
theory RabbitQueue
  imports JobStore
begin

text \<open>
  The RabbitMQ job queue of \<open>backend/pkg/queue/rabbitmq_queue.go\<close> with its envelope
  (\<open>job_envelope.go\<close>) over any job store.  The calls of the AMQP library are inputs: the record
  \<open>amqp_calls\<close> holds the outcome of each call one operation makes.  The JSON codec (\<open>enc\<close>, \<open>dec\<close>) is a
  parameter.
\<close>

section \<open>Envelopes and configuration\<close>

record envelope =
  en_job_id :: gostr
  en_job_type :: gostr
  en_resource_type :: gostr
  en_resource_id :: gostr
  en_attempt :: int
  en_requested :: gotime
  en_trace :: gostr
  en_payload :: gostr

datatype queue_err =
    UrlRequired | ExchangeRequired | QueueNameRequired | JobTypeRequired | ResourceTypeRequired
  | StoreRequired | ResourceIdRequired | StoreError "job_err db_error" | AmqpError gostr | CtxDone
  | ConfirmClosed | NotAcknowledged | EncodeError gostr | BadEnvelope gostr

definition decode_envelope :: "(gostr \<Rightarrow> gostr + envelope) \<Rightarrow> gostr \<Rightarrow> queue_err + envelope" where
  "decode_envelope dec data =
     (case dec data of Inl e \<Rightarrow> Inl (BadEnvelope e)
      | Inr env \<Rightarrow>
          if trim_space (en_job_id env) = [] then Inl (BadEnvelope (lit ''jobId required''))
          else if trim_space (en_job_type env) = [] then Inl (BadEnvelope (lit ''jobType required''))
          else if trim_space (en_resource_type env) = [] then Inl (BadEnvelope (lit ''resourceType required''))
          else if trim_space (en_resource_id env) = [] then Inl (BadEnvelope (lit ''resourceId required''))
          else Inr env)"

record 's rabbit_config =
  rc_url :: gostr
  rc_exchange :: gostr
  rc_queue_name :: gostr
  rc_dlq_name :: gostr
  rc_consumer_name :: gostr
  rc_job_type :: gostr
  rc_resource_type :: gostr
  rc_max_retries :: int
  rc_retry_delay :: duration
  rc_reconnect_delay :: duration
  rc_store :: "'s job_store_ops option"

record 's rabbit_queue =
  rq_url :: gostr
  rq_exchange :: gostr
  rq_dlx :: gostr
  rq_queue_name :: gostr
  rq_dlq_name :: gostr
  rq_consumer_name :: gostr
  rq_job_type :: gostr
  rq_resource_type :: gostr
  rq_max_retries :: int
  rq_retry_delay :: duration
  rq_reconnect_delay :: duration
  rq_store :: "'s job_store_ops"

definition default_dlq_name :: "gostr \<Rightarrow> gostr" where
  "default_dlq_name name =
     (let q = trim_space name in
      if q = [] then []
      else if has_suffix q (lit ''.jobs'') then trim_suffix q (lit ''.jobs'') @ lit ''.dlq''
      else q @ lit ''.dlq'')"

definition default_dlx_exchange :: "gostr \<Rightarrow> gostr" where
  "default_dlx_exchange name = (let e = trim_space name in if e = [] then [] else e @ lit ''.dlx'')"

definition new_rabbit_queue :: "'s rabbit_config \<Rightarrow> queue_err + 's rabbit_queue" where
  "new_rabbit_queue cfg =
     (let url = trim_space (rc_url cfg);
          exchange = trim_space (rc_exchange cfg);
          queue_name = trim_space (rc_queue_name cfg)
      in if url = [] then Inl UrlRequired
         else if exchange = [] then Inl ExchangeRequired
         else if queue_name = [] then Inl QueueNameRequired
         else if trim_space (rc_job_type cfg) = [] then Inl JobTypeRequired
         else if trim_space (rc_resource_type cfg) = [] then Inl ResourceTypeRequired
         else (case rc_store cfg of None \<Rightarrow> Inl StoreRequired
               | Some st \<Rightarrow>
                   let dlq = trim_space (rc_dlq_name cfg);
                       consumer = trim_space (rc_consumer_name cfg)
                   in Inr \<lparr>rq_url = url, rq_exchange = exchange, rq_dlx = default_dlx_exchange exchange,
                           rq_queue_name = queue_name,
                           rq_dlq_name = (if dlq = [] then default_dlq_name queue_name else dlq),
                           rq_consumer_name = (if consumer = [] then queue_name else consumer),
                           rq_job_type = trim_space (rc_job_type cfg),
                           rq_resource_type = trim_space (rc_resource_type cfg),
                           rq_max_retries = (if rc_max_retries cfg \<le> 0 then 3 else rc_max_retries cfg),
                           rq_retry_delay = (if rc_retry_delay cfg \<le> 0 then 2 * second else rc_retry_delay cfg),
                           rq_reconnect_delay =
                             (if rc_reconnect_delay cfg \<le> 0 then 2 * second else rc_reconnect_delay cfg),
                           rq_store = st\<rparr>))"

section \<open>Publishing\<close>

datatype confirm_result = CtxCancelled | ChannelClosed | Confirmed bool

record amqp_calls =
  ac_dial :: "gostr + nat"
  ac_topology_channel :: "gostr option"
  ac_declares :: "gostr option list"     \<comment> \<open>two exchanges, two queues, two bindings\<close>
  ac_channel :: "gostr option"
  ac_confirm :: "gostr option"
  ac_publish :: "gostr option"
  ac_delivered :: bool                   \<comment> \<open>the broker stored the message\<close>
  ac_confirmation :: confirm_result

record broker =
  bk_conn :: "nat option"
  bk_closed :: bool                      \<comment> \<open>\<open>IsClosed\<close> of that connection\<close>
  bk_messages :: "(gostr \<times> gostr \<times> gostr) list"

text \<open>The first error of the declarations, in order.\<close>

fun first_error :: "gostr option list \<Rightarrow> gostr option" where
  "first_error [] = None"
| "first_error (None # es) = first_error es"
| "first_error (Some e # es) = Some e"

definition ensure_topology :: "amqp_calls \<Rightarrow> broker \<Rightarrow> (queue_err + nat) \<times> broker" where
  "ensure_topology a b =
     (case (if bk_closed b then None else bk_conn b) of
        Some c \<Rightarrow> (Inr c, b)
      | None \<Rightarrow>
          (case ac_dial a of Inl e \<Rightarrow> (Inl (AmqpError e), b)
           | Inr c \<Rightarrow>
               (case ac_topology_channel a of Some e \<Rightarrow> (Inl (AmqpError e), b)
                | None \<Rightarrow>
                    (case first_error (ac_declares a) of Some e \<Rightarrow> (Inl (AmqpError e), b)
                     | None \<Rightarrow> (Inr c, b\<lparr>bk_conn := Some c, bk_closed := False\<rparr>)))))"

definition reset_connection :: "nat \<Rightarrow> broker \<Rightarrow> broker" where
  "reset_connection c b = (if bk_conn b = Some c then b\<lparr>bk_conn := None\<rparr> else b)"

definition publish ::
    "(envelope \<Rightarrow> gostr + gostr) \<Rightarrow> amqp_calls \<Rightarrow> 's rabbit_queue \<Rightarrow> gostr \<Rightarrow> envelope \<Rightarrow> broker \<Rightarrow>
     queue_err option \<times> broker" where
  "publish enc a q routing_key env b =
     (case ensure_topology a b of (Inl e, b1) \<Rightarrow> (Some e, b1)
      | (Inr c, b1) \<Rightarrow>
          (case ac_channel a of Some e \<Rightarrow> (Some (AmqpError e), reset_connection c b1)
           | None \<Rightarrow>
          (case ac_confirm a of Some e \<Rightarrow> (Some (AmqpError e), b1)
           | None \<Rightarrow>
          (case enc env of Inl e \<Rightarrow> (Some (EncodeError e), b1)
           | Inr body \<Rightarrow>
          (case ac_publish a of Some e \<Rightarrow> (Some (AmqpError e), reset_connection c b1)
           | None \<Rightarrow>
               let b2 = (if ac_delivered a
                         then b1\<lparr>bk_messages := bk_messages b1 @ [(rq_exchange q, routing_key, body)]\<rparr> else b1)
               in (case ac_confirmation a of
                     CtxCancelled \<Rightarrow> (Some CtxDone, b2)
                   | ChannelClosed \<Rightarrow> (Some ConfirmClosed, b2)
                   | Confirmed ack \<Rightarrow> (if ack then None else Some NotAcknowledged, b2)))))))"

text \<open>A publisher confirmation means that the broker has the message.\<close>

definition confirms_ok :: "amqp_calls \<Rightarrow> bool" where
  "confirms_ok a \<longleftrightarrow> (ac_confirmation a = Confirmed True \<longrightarrow> ac_delivered a)"

section \<open>Enqueueing\<close>

type_synonym 'b publish_fn = "gostr \<Rightarrow> envelope \<Rightarrow> 'b \<Rightarrow> queue_err option \<times> 'b"

definition enqueue_with_payload ::
    "'s rabbit_queue \<Rightarrow> 'b publish_fn \<Rightarrow> (queue_err \<Rightarrow> gostr) \<Rightarrow> gotime \<Rightarrow> gostr \<Rightarrow> gostr \<Rightarrow> gostr \<Rightarrow>
     's \<times> 'b \<Rightarrow> (queue_err + job_status) \<times> 's \<times> 'b" where
  "enqueue_with_payload q pub show_err now new_id resource payload sb =
     (let rid = trim_space resource; (s, b) = sb in
      if rid = [] then (Inl ResourceIdRequired, (s, b))
      else
        (case st_create (rq_store q) now new_id (rq_job_type q) (rq_resource_type q) rid payload s of
           (Inl e, s1) \<Rightarrow> (Inl (StoreError e), (s1, b))
         | (Inr (job, False), s1) \<Rightarrow> (Inr job, (s1, b))
         | (Inr (job, True), s1) \<Rightarrow>
             let env = \<lparr>en_job_id = jb_id job, en_job_type = rq_job_type q,
                        en_resource_type = rq_resource_type q, en_resource_id = rid,
                        en_attempt = jb_attempts job, en_requested = jb_created job, en_trace = [],
                        en_payload = payload\<rparr>
             in (case pub (rq_queue_name q) env b of
                   (None, b1) \<Rightarrow> (Inr job, (s1, b1))
                 | (Some e, b1) \<Rightarrow>
                     let (_, s2) = st_failed (rq_store q) now (jb_id job) (show_err e) s1
                     in (Inl e, (s2, b1)))))"

definition enqueue ::
    "(gostr \<Rightarrow> gostr \<Rightarrow> gostr + gostr) \<Rightarrow> 's rabbit_queue \<Rightarrow> 'b publish_fn \<Rightarrow> (queue_err \<Rightarrow> gostr) \<Rightarrow> gotime \<Rightarrow>
     gostr \<Rightarrow> gostr \<Rightarrow> 's \<times> 'b \<Rightarrow> (queue_err + job_status) \<times> 's \<times> 'b" where
  "enqueue default_payload q pub show_err now new_id resource sb =
     (case default_payload (rq_resource_type q @ lit ''Id'') resource of
        Inl e \<Rightarrow> (Inl (EncodeError e), sb)
      | Inr payload \<Rightarrow> enqueue_with_payload q pub show_err now new_id resource payload sb)"

section \<open>Consuming\<close>

datatype disposition = FailureRequeue | FailureDeadLetter

datatype delivery_action = Ack | NackRequeue | NackDead | Unsettled

text \<open>The handler is any state transformer; an error carries its message.\<close>

type_synonym 'h handler = "job_status \<Rightarrow> 'h \<Rightarrow> gostr option \<times> 'h"

definition handle_processing_error ::
    "'s rabbit_queue \<Rightarrow> gotime \<Rightarrow> job_status \<Rightarrow> gostr \<Rightarrow> 's \<Rightarrow> (queue_err + disposition) \<times> 's" where
  "handle_processing_error q now job msg s =
     (if rq_max_retries q \<le> jb_attempts job
      then (case st_failed (rq_store q) now (jb_id job) msg s of
              (Some e, s') \<Rightarrow> (Inl (StoreError e), s')
            | (None, s') \<Rightarrow> (Inr FailureDeadLetter, s'))
      else (case st_queued (rq_store q) now (jb_id job) msg s of
              (Some e, s') \<Rightarrow> (Inl (StoreError e), s')
            | (None, s') \<Rightarrow> (Inr FailureRequeue, s')))"

definition handle_delivery ::
    "(gostr \<Rightarrow> gostr + envelope) \<Rightarrow> 's rabbit_queue \<Rightarrow> 'h handler \<Rightarrow> bool \<Rightarrow> gotime \<Rightarrow> gostr \<Rightarrow> 's \<times> 'h \<Rightarrow>
     (delivery_action \<times> queue_err option) \<times> 's \<times> 'h" where
  "handle_delivery dec q handler ctx_done now body sh =
     (let (s, h) = sh in
      case decode_envelope dec body of Inl _ \<Rightarrow> ((NackDead, None), (s, h))
      | Inr env \<Rightarrow>
          (case st_processing (rq_store q) now (en_job_id env) s of
             (Inl e, s1) \<Rightarrow>
               if e = AppError JobTerminal then ((Ack, None), (s1, h))
               else ((NackRequeue, Some (StoreError e)), (s1, h))
           | (Inr job, s1) \<Rightarrow>
               (case handler job h of
                  (Some msg, h1) \<Rightarrow>
                    (case handle_processing_error q now job msg s1 of
                       (Inl e, s2) \<Rightarrow> ((NackRequeue, Some e), (s2, h1))
                     | (Inr FailureDeadLetter, s2) \<Rightarrow> ((NackDead, None), (s2, h1))
                     | (Inr FailureRequeue, s2) \<Rightarrow>
                         if 0 < rq_retry_delay q \<and> ctx_done then ((Unsettled, Some CtxDone), (s2, h1))
                         else ((NackRequeue, None), (s2, h1)))
                | (None, h1) \<Rightarrow>
                    (case st_done (rq_store q) now (jb_id job) s1 of
                       (Some e, s2) \<Rightarrow> ((NackRequeue, Some (StoreError e)), (s2, h1))
                     | (None, s2) \<Rightarrow> ((Ack, None), (s2, h1))))))"

text \<open>The broker delivers a message again after every requeue, here at most \<open>n\<close> times.\<close>

fun deliver_until ::
    "nat \<Rightarrow> (gostr \<Rightarrow> gostr + envelope) \<Rightarrow> 's rabbit_queue \<Rightarrow> 'h handler \<Rightarrow> gotime \<Rightarrow> gostr \<Rightarrow> 's \<times> 'h \<Rightarrow>
     delivery_action \<times> 's \<times> 'h" where
  "deliver_until 0 dec q handler now body sh = (NackRequeue, sh)"
| "deliver_until (Suc n) dec q handler now body sh =
     (case handle_delivery dec q handler False now body sh of
        ((NackRequeue, _), sh') \<Rightarrow> deliver_until n dec q handler now body sh'
      | ((act, _), sh') \<Rightarrow> (act, sh'))"

section \<open>What one delivery does\<close>

context job_store
begin

lemma processing_keeps_terminal:
  assumes "inv s" "job s (trim_space i) = Some j" "\<not> active (jb_status j)"
    and "st_processing ops now i s = (r, s')"
  shows "job s' = job s \<and> (\<exists>e. r = Inl e) \<and> inv s'"
  using assms processing_ok [of s now i _ s'] processing_error [of s now i _ s']
  by (cases r) (auto simp: processing_effect_def)

lemma delivery_terminal:
  assumes "rq_store q = ops" "inv s" "decode_envelope dec body = Inr env"
    and "job s (trim_space (en_job_id env)) = Some j" "\<not> active (jb_status j)"
    and "handle_delivery dec q handler c now body (s, h) = ((act, e), (s', h'))"
  shows "h' = h \<and> job s' = job s \<and> inv s' \<and> (act = Ack \<or> act = NackRequeue)"
proof -
  obtain r s1 where r: "st_processing ops now (en_job_id env) s = (r, s1)" by force
  have "job s1 = job s \<and> (\<exists>e. r = Inl e) \<and> inv s1"
    using processing_keeps_terminal [OF assms(2,4,5) r] .
  then show ?thesis using assms(1,3,6) r by (auto simp: handle_delivery_def split: if_splits)
qed

end

context reliable_job_store
begin

text \<open>One delivery of an active job, when the store works.\<close>

lemma delivery_active:
  assumes "rq_store q = ops" "inv s" "ok s" "decode_envelope dec body = Inr env"
    and "job s (trim_space (en_job_id env)) = Some j" "active (jb_status j)"
  shows "\<exists>act s' h' j'. handle_delivery dec q handler False now body (s, h) = ((act, None), (s', h')) \<and>
     inv s' \<and> ok s' \<and> job s' (trim_space (en_job_id env)) = Some j' \<and> jb_attempts j' = jb_attempts j + 1 \<and>
     (act = Ack \<and> jb_status j' = StatusDone \<or>
      act = NackDead \<and> jb_status j' = StatusFailed \<and> rq_max_retries q \<le> jb_attempts j + 1 \<or>
      act = NackRequeue \<and> jb_status j' = StatusQueued \<and> jb_attempts j + 1 < rq_max_retries q)"
proof -
  let ?i = "trim_space (en_job_id env)"
  obtain j1 s1 where p: "st_processing ops now (en_job_id env) s = (Inr j1, s1)" "ok s1"
    using processing_runs [OF assms(2,3,5,6)] by blast
  have i1: "inv s1" and eff: "processing_effect now ?i (job s) j1 (job s1)"
    using processing_ok [OF assms(2) p(1)] by auto
  have j1: "job s1 ?i = Some j1" "jb_attempts j1 = jb_attempts j + 1" "jb_status j1 = StatusProcessing"
    using eff assms(5) by (auto simp: processing_effect_def)
  have id: "jb_id j1 = ?i" using job_id [OF i1 j1(1)] by simp
  obtain s2 where d: "st_done ops now ?i s1 = (None, s2)" "ok s2" using done_runs [OF i1 p(2)] by blast
  have d2: "inv s2" "job s2 = mark_effect now ?i StatusDone [] (job s1)"
    using done_ok [OF i1 d(1)] by auto
  obtain h1 hr where h: "handler j1 h = (hr, h1)" by force
  show ?thesis
  proof (cases hr)
    case None
    have "handle_delivery dec q handler False now body (s, h) = ((Ack, None), (s2, h1))"
      using None h by (simp add: handle_delivery_def assms(1,4) p(1) id d(1))
    moreover have "job s2 ?i = Some (set_job_state now StatusDone [] j1)"
      unfolding d2(2) by (simp add: mark_effect_def j1)
    ultimately show ?thesis using d(2) d2(1) j1(2) by (fastforce simp: set_job_state_def)
  next
    case (Some msg)
    obtain s3 where f: "st_failed ops now ?i msg s1 = (None, s3)" "ok s3"
      using failed_runs [OF i1 p(2)] by blast
    obtain s4 where g: "st_queued ops now ?i msg s1 = (None, s4)" "ok s4"
      using queued_runs [OF i1 p(2), of "?i" j1] j1 by (auto simp: active_def)
    have f2: "inv s3" "job s3 = mark_effect now ?i StatusFailed msg (job s1)"
      using failed_ok [OF i1 f(1)] by auto
    have g2: "inv s4" "job s4 = mark_effect now ?i StatusQueued msg (job s1)"
      using queued_ok [OF i1 g(1)] by auto
    show ?thesis
    proof (cases "rq_max_retries q \<le> jb_attempts j1")
      case True
      have "handle_delivery dec q handler False now body (s, h) = ((NackDead, None), (s3, h1))"
        using Some h True by (simp add: handle_delivery_def handle_processing_error_def assms(1,4) p(1) id f(1))
      moreover have "job s3 ?i = Some (set_job_state now StatusFailed msg j1)"
        unfolding f2(2) by (simp add: mark_effect_def j1)
      ultimately show ?thesis using f(2) f2(1) j1(2) True by (fastforce simp: set_job_state_def)
    next
      case False
      have "handle_delivery dec q handler False now body (s, h) = ((NackRequeue, None), (s4, h1))"
        using Some h False by (simp add: handle_delivery_def handle_processing_error_def assms(1,4) p(1) id g(1))
      moreover have "job s4 ?i = Some (set_job_state now StatusQueued msg j1)"
        unfolding g2(2) by (simp add: mark_effect_def j1)
      ultimately show ?thesis using g(2) g2(1) j1(2) False by (fastforce simp: set_job_state_def)
    qed
  qed
qed

lemma deliver_until_settles:
  assumes "rq_store q = ops" "inv s" "ok s" "decode_envelope dec body = Inr env"
    and "job s (trim_space (en_job_id env)) = Some j" "active (jb_status j)"
    and "rq_max_retries q - jb_attempts j \<le> int n" "0 < n"
  shows "\<exists>act s' h' j'. deliver_until n dec q handler now body (s, h) = (act, (s', h')) \<and>
     job s' (trim_space (en_job_id env)) = Some j' \<and>
     jb_attempts j' \<le> max (rq_max_retries q) (jb_attempts j + 1) \<and>
     (act = Ack \<and> jb_status j' = StatusDone \<or> act = NackDead \<and> jb_status j' = StatusFailed)"
  using assms
proof (induction n arbitrary: s h j)
  case (Suc n)
  obtain act s' h' j' where d:
    "handle_delivery dec q handler False now body (s, h) = ((act, None), (s', h'))"
    "inv s'" "ok s'" "job s' (trim_space (en_job_id env)) = Some j'" "jb_attempts j' = jb_attempts j + 1"
    and act: "act = Ack \<and> jb_status j' = StatusDone \<or>
      act = NackDead \<and> jb_status j' = StatusFailed \<and> rq_max_retries q \<le> jb_attempts j + 1 \<or>
      act = NackRequeue \<and> jb_status j' = StatusQueued \<and> jb_attempts j + 1 < rq_max_retries q"
    using delivery_active [OF Suc.prems(1-6), where handler = handler and now = now and h = h] by blast
  consider "act = Ack" "jb_status j' = StatusDone" | "act = NackDead" "jb_status j' = StatusFailed"
    | "act = NackRequeue" "jb_status j' = StatusQueued" "jb_attempts j + 1 < rq_max_retries q"
    using act by blast
  then show ?case
  proof cases
    case 3
    have "\<exists>act s'' h'' j''. deliver_until n dec q handler now body (s', h') = (act, (s'', h'')) \<and>
        job s'' (trim_space (en_job_id env)) = Some j'' \<and>
        jb_attempts j'' \<le> max (rq_max_retries q) (jb_attempts j' + 1) \<and>
        (act = Ack \<and> jb_status j'' = StatusDone \<or> act = NackDead \<and> jb_status j'' = StatusFailed)"
      by (rule Suc.IH [OF Suc.prems(1) d(2,3) Suc.prems(4) d(4)])
        (use Suc.prems(7) d(5) 3 in \<open>simp_all add: active_def\<close>)
    then show ?thesis using d(1,5) 3 by simp
  qed (simp_all add: d)
qed simp

end

section \<open>Enqueueing over the job table\<close>

text \<open>What an enqueue that reports success did: it found an active job, or stored one and published it.\<close>

lemma publish_ok:
  assumes "publish enc a q key env b = (None, b')" "confirms_ok a"
  shows "\<exists>body. enc env = Inr body \<and> bk_messages b' = bk_messages b @ [(rq_exchange q, key, body)]"
  using assms
  by (auto simp: publish_def ensure_topology_def confirms_ok_def Let_def
      split: sum.splits prod.splits option.splits if_splits confirm_result.splits)

lemma publish_messages:
  "publish enc a q key env b = (r, b') \<Longrightarrow>
   bk_messages b' = bk_messages b \<or> (\<exists>body. bk_messages b' = bk_messages b @ [(rq_exchange q, key, body)])"
  by (auto simp: publish_def ensure_topology_def reset_connection_def Let_def
      split: sum.splits prod.splits option.splits if_splits confirm_result.splits)

text \<open>A queue over the Postgres table, used in the examples.\<close>

definition demo_rabbit :: "async_job list db rabbit_queue" where
  "demo_rabbit =
     \<lparr>rq_url = lit ''amqp'', rq_exchange = lit ''onebook'', rq_dlx = lit ''onebook.dlx'',
      rq_queue_name = lit ''ingest.jobs'', rq_dlq_name = lit ''ingest.dlq'', rq_consumer_name = lit ''c'',
      rq_job_type = lit ''ingest'', rq_resource_type = lit ''book'', rq_max_retries = 2,
      rq_retry_delay = 2 * second, rq_reconnect_delay = 2 * second, rq_store = postgres_jobs\<rparr>"

definition demo_row :: "job_state \<Rightarrow> async_job" where
  "demo_row st =
     \<lparr>aj_id = lit ''j1'', aj_type = lit ''ingest'', aj_resource_type = lit ''book'', aj_resource_id = lit ''b1'',
      aj_status = st, aj_attempts = 0, aj_error = [], aj_payload = lit ''p'', aj_created = 5, aj_updated = 5\<rparr>"

definition demo_envelope :: envelope where
  "demo_envelope =
     \<lparr>en_job_id = lit ''j1'', en_job_type = lit ''ingest'', en_resource_type = lit ''book'',
      en_resource_id = lit ''b1'', en_attempt = 0, en_requested = 5, en_trace = [], en_payload = lit ''p''\<rparr>"

definition demo_decode :: "gostr \<Rightarrow> gostr + envelope" where
  "demo_decode body = (if body = lit ''m'' then Inr demo_envelope else Inl (lit ''json''))"

lemma trim_j1 [simp]: "trim_space (lit ''j1'') = lit ''j1''"
  by (simp add: trim_space_fix lit_Cons is_space_def)

lemma demo_envelope_id [simp]: "en_job_id demo_envelope = lit ''j1''"
  by (simp add: demo_envelope_def)

lemma demo_job_id: "trim_space (en_job_id demo_envelope) = lit ''j1''"
  by simp

lemma demo_decoded: "decode_envelope demo_decode (lit ''m'') = Inr demo_envelope"
  by (simp add: decode_envelope_def demo_decode_def demo_envelope_def trim_space_fix lit_Cons is_space_def)

section \<open>Properties\<close>

text \<open>
  C26: a message settles after a bounded number of deliveries, whether its handler succeeds or fails.  Delivered again
  after every requeue, to a worker that is not being stopped and whose job table does not fail, an active job with \<open>a\<close>
  attempts is acknowledged as done or dead-lettered as failed within the configured number of retries less \<open>a\<close> (at least
  one) deliveries, and its attempts never exceed the limit.
\<close>

theorem rabbit_settles:
  assumes "rq_store q = postgres_jobs" and "job_store_inv (rows, [])"
    and "decode_envelope dec body = Inr env"
    and "job_of (rows, []) (trim_space (en_job_id env)) = Some j" and "active (jb_status j)"
    and "rq_max_retries q - jb_attempts j \<le> int n" and "0 < n"
  shows "\<exists>act d' h' j'. deliver_until n dec q handler now body ((rows, []), h) = (act, (d', h')) \<and>
     job_of d' (trim_space (en_job_id env)) = Some j' \<and>
     jb_attempts j' \<le> max (rq_max_retries q) (jb_attempts j + 1) \<and>
     (act = Ack \<and> jb_status j' = StatusDone \<or> act = NackDead \<and> jb_status j' = StatusFailed)"
  using pgr.deliver_until_settles [OF assms(1,2) _ assms(3-7)] by simp

theorem rabbit_settles_witness:
  "\<exists>act d' h' j'. deliver_until 2 demo_decode demo_rabbit (\<lambda>j h. (Some (lit ''boom''), h + 1)) 9 (lit ''m'')
       (([demo_row StatusQueued], []), 0::nat) = (act, (d', h')) \<and>
     job_of d' (lit ''j1'') = Some j' \<and> jb_attempts j' \<le> 2 \<and>
     (act = Ack \<and> jb_status j' = StatusDone \<or> act = NackDead \<and> jb_status j' = StatusFailed)"
  using rabbit_settles [where env = demo_envelope, unfolded demo_job_id, of demo_rabbit "[demo_row StatusQueued]" demo_decode "lit ''m''"
      "job_from_model (demo_row StatusQueued)" 2 "\<lambda>j h. (Some (lit ''boom''), h + 1)" 9 "0::nat"]
  by (simp add: demo_decoded demo_rabbit_def job_store_inv_def job_keys_ok_def job_of_def
      demo_row_def job_from_model_def active_def)

text \<open>
  A message of a finished job is never handled again.  Delivered for a job that is done or failed, it
  leaves the handler uncalled and the jobs as they are, and is acknowledged (or, when the database
  fails, requeued).
\<close>

theorem rabbit_terminal_skipped:
  assumes "rq_store q = postgres_jobs" and "job_store_inv d" and "decode_envelope dec body = Inr env"
    and "job_of d (trim_space (en_job_id env)) = Some j" and "\<not> active (jb_status j)"
    and "handle_delivery dec q handler c now body (d, h) = ((act, e), (d', h'))"
  shows "h' = h \<and> job_of d' = job_of d \<and> (act = Ack \<or> act = NackRequeue)"
  using pg.delivery_terminal [OF assms] by simp

theorem rabbit_terminal_skipped_witness:
  "let r = handle_delivery demo_decode demo_rabbit (\<lambda>j h. (None, h + 1)) False 9 (lit ''m'')
       (([demo_row StatusFailed], [DbLost]), 0::nat)
   in snd (snd r) = 0 \<and> job_of (fst (snd r)) = job_of ([demo_row StatusFailed], [DbLost])"
proof -
  obtain act e d' h' where r: "handle_delivery demo_decode demo_rabbit (\<lambda>j h. (None, h + 1)) False 9 (lit ''m'')
      (([demo_row StatusFailed], [DbLost]), 0::nat) = ((act, e), (d', h'))" by (metis surj_pair)
  have "h' = 0 \<and> job_of d' = job_of ([demo_row StatusFailed], [DbLost]) \<and> (act = Ack \<or> act = NackRequeue)"
    using r by (rule rabbit_terminal_skipped [where j = "job_from_model (demo_row StatusFailed)" and env = demo_envelope, rotated 5])
      (simp_all add: demo_decoded demo_rabbit_def job_store_inv_def job_keys_ok_def job_of_def
        demo_row_def job_from_model_def active_def)
  then show ?thesis unfolding Let_def r by simp
qed

text \<open>
  An enqueue that succeeds leaves the resource with an active job.  It returns a job that the table
  holds as active for the resource; either it publishes nothing, or the job is new with the fresh ID and
  exactly one message, its envelope, is added to the exchange.
\<close>

theorem rabbit_enqueue:
  assumes "rq_store q = postgres_jobs" and "job_store_inv d" and "confirms_ok a"
    and "enqueue_with_payload q (publish enc a q) show_err now nid res payload (d, b) = (Inr job, (d', b'))"
  shows "job_of d' (jb_id job) = Some job \<and> active (jb_status job) \<and> jb_book_id job = trim_space res \<and>
    (bk_messages b' = bk_messages b \<or>
     job_of d nid = None \<and> jb_id job = nid \<and>
       (\<exists>env msg. enc env = Inr msg \<and> en_job_id env = nid \<and> en_resource_id env = trim_space res \<and>
          en_payload env = payload \<and>
          bk_messages b' = bk_messages b @ [(rq_exchange q, rq_queue_name q, msg)]))"
proof -
  obtain r d1 where c: "st_create postgres_jobs now nid (rq_job_type q) (rq_resource_type q) (trim_space res) payload d =
      (r, d1)" by (metis surj_pair)
  obtain j cr where r: "r = Inr (j, cr)"
    using assms(1,4) c by (cases r) (auto simp: enqueue_with_payload_def Let_def split: if_splits)
  show ?thesis
  proof (cases cr)
    case False
    then show ?thesis
      using assms(1,4) c r pg.create_existing [OF assms(2), of now nid "rq_job_type q"]
      by (auto simp: enqueue_with_payload_def Let_def split: if_splits)
  next
    case True
    have "st_create postgres_jobs now nid (rq_job_type q) (rq_resource_type q) (trim_space res) payload d =
        (Inr (j, True), d1)" using c r True by simp
    note new = pg.create_new [OF assms(2) this]
    show ?thesis
      using assms(1,4) c r True new publish_ok [OF _ assms(3), of enc q "rq_queue_name q"]
      by (fastforce simp: enqueue_with_payload_def Let_def active_def
          split: if_splits option.splits prod.splits)
  qed
qed

theorem rabbit_enqueue_witness:
  "job_of ([demo_row StatusQueued], []) (lit ''j1'') = Some (job_from_model (demo_row StatusQueued)) \<and>
   active (jb_status (job_from_model (demo_row StatusQueued)))"
proof -
  define a where "a = \<lparr>ac_dial = Inr 1, ac_topology_channel = None, ac_declares = [], ac_channel = None, ac_confirm = None,
     ac_publish = None, ac_delivered = True, ac_confirmation = Confirmed True\<rparr>"
  have "enqueue_with_payload demo_rabbit (publish (\<lambda>_. Inr (lit ''m'')) a demo_rabbit) (\<lambda>_. []) 5 (lit ''j1'')
      (lit ''b1'') (lit ''p'') (([], []), \<lparr>bk_conn = None, bk_closed = False, bk_messages = []\<rparr>) =
    (Inr (job_from_model (demo_row StatusQueued)), (([demo_row StatusQueued], []),
      \<lparr>bk_conn = Some 1, bk_closed = False, bk_messages = [(lit ''onebook'', lit ''ingest.jobs'', lit ''m'')]\<rparr>))"
    by (simp add: enqueue_with_payload_def Let_def demo_rabbit_def postgres_jobs_def create_or_get_active_job_def
        find_active_def insert_job_def job_keys_ok_def active_def a_def publish_def ensure_topology_def
        demo_row_def job_from_model_def trim_space_fix lit_Cons is_space_def)
  from rabbit_enqueue [OF _ _ _ this] show ?thesis
    by (simp add: a_def confirms_ok_def demo_rabbit_def job_store_inv_def job_keys_ok_def job_from_model_def demo_row_def)
qed

text \<open>
  An enqueue can report success for a job that nothing will ever run.  When the insert commits but its
  reply is lost, \<open>CreateOrGetActiveJob\<close> finds its own row, reports it as not created and nothing is
  published; from then on every enqueue for the resource returns that queued job and publishes nothing.
\<close>

theorem rabbit_lost_message:
  assumes "rq_store q = postgres_jobs" and "trim_space res \<noteq> []"
    and "\<forall>x\<in>set rows. job_resource x = (rq_job_type q, rq_resource_type q, trim_space res) \<longrightarrow> \<not> active (aj_status x)"
    and "m = \<lparr>aj_id = nid, aj_type = rq_job_type q, aj_resource_type = rq_resource_type q,
           aj_resource_id = trim_space res, aj_status = StatusQueued, aj_attempts = 0, aj_error = [],
           aj_payload = payload, aj_created = now, aj_updated = now\<rparr>"
    and "job_keys_ok (rows @ [m])"
  shows "enqueue_with_payload q pub show_err now nid res payload ((rows, [DbOk, DbUnknown]), b) =
           (Inr (job_from_model m), ((rows @ [m], []), b)) \<and>
         enqueue_with_payload q pub' show_err now' nid' res payload' ((rows @ [m], []), b') =
           (Inr (job_from_model m), ((rows @ [m], []), b'))"
proof -
  have none: "filter (\<lambda>x. job_resource x = (rq_job_type q, rq_resource_type q, trim_space res) \<and> active (aj_status x)) rows = []"
    using assms(3) by (auto simp: filter_empty_conv)
  have f: "find_active (rq_job_type q) (rq_resource_type q) (trim_space res) rows = (Inl NotFound, rows)"
    and g: "find_active (rq_job_type q) (rq_resource_type q) (trim_space res) (rows @ [m]) = (Inr m, rows @ [m])"
    using none assms(4) by (simp_all add: find_active_def job_resource_def active_def)
  show ?thesis
    using assms f g
    by (simp_all add: enqueue_with_payload_def postgres_jobs_def create_or_get_active_job_def atomically_def
        insert_job_def flip: assms(4))
qed

theorem rabbit_lost_message_witness:
  "enqueue_with_payload demo_rabbit (\<lambda>_ _ b. (None, b + 1)) (\<lambda>_. []) 5 (lit ''j1'') (lit ''b1'') (lit ''p'')
     (([], [DbOk, DbUnknown]), 0::nat) =
   (Inr (job_from_model (demo_row StatusQueued)), (([demo_row StatusQueued], []), 0))"
proof -
  have "demo_row StatusQueued = \<lparr>aj_id = lit ''j1'', aj_type = rq_job_type demo_rabbit,
      aj_resource_type = rq_resource_type demo_rabbit, aj_resource_id = trim_space (lit ''b1''),
      aj_status = StatusQueued, aj_attempts = 0, aj_error = [], aj_payload = lit ''p'', aj_created = 5, aj_updated = 5\<rparr>"
    by (simp add: demo_row_def demo_rabbit_def trim_space_fix lit_Cons is_space_def)
  from rabbit_lost_message [where pub = "\<lambda>_ _ b. (None, b + 1)" and b = "0::nat" and show_err = "\<lambda>_. []"
      and pub' = "\<lambda>_ _ b. (None, b + 1)" and now' = 5 and nid' = "[]" and payload' = "[]" and b' = "0::nat",
      OF _ _ _ this, of "[]"]
  show ?thesis
    by (simp add: demo_rabbit_def job_keys_ok_def demo_row_def active_def trim_space_fix lit_Cons is_space_def)
qed

end
