(* ===== verification/RedisQueue.thy ===== *)
theory RedisQueue
  imports TokenRevoker
begin

text \<open>
  The Redis job queue of \<open>backend/pkg/queue/redis_queue.go\<close>: jobs as hashes, one key per book for the
  job in flight, and a stream of messages.  The blocking reads of the consumer loop are not modelled:
  \<open>handle_message\<close> is what the loop does with each message it got.
\<close>

section \<open>Data\<close>

record redis_job =
  rj_id :: gostr
  rj_book_id :: gostr
  rj_status :: gostr
  rj_error :: gostr
  rj_attempts :: int
  rj_payload :: gostr
  rj_created :: gotime
  rj_updated :: gotime

definition no_job :: redis_job where
  "no_job = \<lparr>rj_id = [], rj_book_id = [], rj_status = [], rj_error = [], rj_attempts = 0, rj_payload = [],
             rj_created = zero_time, rj_updated = zero_time\<rparr>"

record redis_queue_config =
  qc_addr :: gostr
  qc_stream :: gostr
  qc_group :: gostr
  qc_consumer :: gostr
  qc_job_ttl :: duration
  qc_max_retries :: int
  qc_block :: duration
  qc_claim_idle :: duration
  qc_retry_delay :: duration
  qc_max_len :: int
  qc_read_count :: int
  qc_claim_count :: int

record redis_queue =
  q_stream :: gostr
  q_group :: gostr
  q_consumer :: gostr
  q_job_ttl :: duration
  q_max_retries :: int
  q_block :: duration
  q_claim_idle :: duration
  q_retry_delay :: duration
  q_max_len :: int
  q_read_count :: int
  q_claim_count :: int

datatype redis_queue_err = AddrRequired | StreamRequired | BookIdRequired | RedisFailed redis_err

definition positive_or :: "int \<Rightarrow> int \<Rightarrow> int" where
  "positive_or x d = (if x \<le> 0 then d else x)"

text \<open>\<open>fresh\<close> is the ID the constructor generates for a consumer without a name.\<close>

definition new_redis_queue :: "gostr \<Rightarrow> redis_queue_config \<Rightarrow> redis_queue_err + redis_queue" where
  "new_redis_queue fresh cfg =
     (let addr = trim_space (qc_addr cfg); stream = trim_space (qc_stream cfg);
          group = trim_space (qc_group cfg); consumer = trim_space (qc_consumer cfg)
      in if addr = [] then Inl AddrRequired
         else if stream = [] then Inl StreamRequired
         else Inr \<lparr>q_stream = stream,
                   q_group = (if group = [] then lit ''default'' else group),
                   q_consumer = (if consumer = [] then fresh else consumer),
                   q_job_ttl = positive_or (qc_job_ttl cfg) (24 * 3600 * second),
                   q_max_retries = positive_or (qc_max_retries cfg) 3,
                   q_block = positive_or (qc_block cfg) (5 * second),
                   q_claim_idle = positive_or (qc_claim_idle cfg) (30 * second),
                   q_retry_delay = positive_or (qc_retry_delay cfg) (2 * second),
                   q_max_len = positive_or (qc_max_len cfg) 10000,
                   q_read_count = positive_or (qc_read_count cfg) 10,
                   q_claim_count = positive_or (qc_claim_count cfg) 10\<rparr>)"

definition job_key :: "redis_queue \<Rightarrow> gostr \<Rightarrow> gostr" where
  "job_key q job_id = lit ''job:'' @ q_stream q @ lit '':'' @ job_id"

definition unique_job_key :: "redis_queue \<Rightarrow> gostr \<Rightarrow> gostr" where
  "unique_job_key q book_id = lit ''job:'' @ q_stream q @ lit '':unique:'' @ trim_space book_id"

section \<open>Job records\<close>

text \<open>\<open>fmt\<close> and \<open>prs\<close> are \<open>time.Format\<close> and \<open>time.Parse\<close> with RFC3339Nano.\<close>

definition job_fields :: "(gotime \<Rightarrow> gostr) \<Rightarrow> redis_job \<Rightarrow> (gostr \<times> gostr) list" where
  "job_fields fmt job =
     [(lit ''id'', rj_id job), (lit ''bookId'', rj_book_id job), (lit ''status'', rj_status job),
      (lit ''error'', rj_error job), (lit ''attempts'', itoa (rj_attempts job)),
      (lit ''createdAt'', fmt (rj_created job)), (lit ''updatedAt'', fmt (rj_updated job))]"

definition write_status ::
    "'w redis \<Rightarrow> (gotime \<Rightarrow> gostr) \<Rightarrow> redis_queue \<Rightarrow> gotime \<Rightarrow> redis_job \<Rightarrow> 'w \<Rightarrow> redis_err option \<times> 'w" where
  "write_status rdo fmt q now job w =
     (let key = job_key q (rj_id job) in
      case rdo now (HSet key (job_fields fmt job)) w of
        (Inl e, w1) \<Rightarrow> (Some e, w1)
      | (Inr _, w1) \<Rightarrow> (None, snd (rdo now (Expire key (q_job_ttl q)) w1)))"

definition field :: "(gostr \<rightharpoonup> gostr) \<Rightarrow> gostr \<Rightarrow> gostr" where
  "field data k = (case data k of None \<Rightarrow> [] | Some v \<Rightarrow> v)"

definition decode_job_status :: "(gostr \<Rightarrow> gotime option) \<Rightarrow> gostr \<Rightarrow> (gostr \<rightharpoonup> gostr) \<Rightarrow> redis_job" where
  "decode_job_status prs job_id data =
     no_job\<lparr>rj_id := job_id,
            rj_book_id := field data (lit ''bookId''),
            rj_status := field data (lit ''status''),
            rj_error := field data (lit ''error''),
            rj_attempts := (let v = field data (lit ''attempts'') in
                            if v \<noteq> [] then (case atoi v of Some n \<Rightarrow> n | None \<Rightarrow> 0) else 0),
            rj_created := (let v = field data (lit ''createdAt'') in
                           if v \<noteq> [] then (case prs v of Some t \<Rightarrow> t | None \<Rightarrow> zero_time) else zero_time),
            rj_updated := (let v = field data (lit ''updatedAt'') in
                           if v \<noteq> [] then (case prs v of Some t \<Rightarrow> t | None \<Rightarrow> zero_time) else zero_time)\<rparr>"

definition redis_get_job ::
    "'w redis \<Rightarrow> (gostr \<Rightarrow> gotime option) \<Rightarrow> redis_queue \<Rightarrow> gotime \<Rightarrow> gostr \<Rightarrow> 'w \<Rightarrow>
     (redis_err + redis_job option) \<times> 'w" where
  "redis_get_job rdo prs q now job_id0 w =
     (let job_id = trim_space job_id0 in
      if job_id = [] then (Inr None, w)
      else (case rdo now (HGetAll (job_key q job_id)) w of
              (Inl e, w1) \<Rightarrow> (Inl e, w1)
            | (Inr r, w1) \<Rightarrow>
                let data = (case r of RHash h \<Rightarrow> h | _ \<Rightarrow> Map.empty) in
                if dom data = {} then (Inr None, w1)
                else (Inr (Some (decode_job_status prs job_id data)), w1)))"

definition get_unique_job ::
    "'w redis \<Rightarrow> (gostr \<Rightarrow> gotime option) \<Rightarrow> redis_queue \<Rightarrow> gotime \<Rightarrow> gostr \<Rightarrow> 'w \<Rightarrow>
     (redis_err + redis_job option) \<times> 'w" where
  "get_unique_job rdo prs q now book_id0 w =
     (let book_id = trim_space book_id0 in
      if book_id = [] then (Inr None, w)
      else (case rdo now (Get (unique_job_key q book_id)) w of
              (Inl e, w1) \<Rightarrow> (Inl e, w1)
            | (Inr (RStr job_id), w1) \<Rightarrow>
                (case redis_get_job rdo prs q now job_id w1 of
                   (Inl e, w2) \<Rightarrow> (Inl e, w2)
                 | (Inr None, w2) \<Rightarrow> (Inr None, snd (rdo now (Del [unique_job_key q book_id]) w2))
                 | (Inr (Some job), w2) \<Rightarrow>
                     if rj_status job = lit ''queued'' \<or> rj_status job = lit ''processing''
                     then (Inr (Some job), w2)
                     else (Inr None, snd (rdo now (Del [unique_job_key q book_id]) w2)))
            | (Inr _, w1) \<Rightarrow> (Inr None, w1)))"

section \<open>Enqueueing\<close>

definition message_fields :: "gostr \<Rightarrow> gostr \<Rightarrow> (gostr \<times> gostr) list" where
  "message_fields job_id book_id = [(lit ''job_id'', job_id), (lit ''book_id'', book_id)]"

definition redis_enqueue_with_payload ::
    "'w redis \<Rightarrow> (gotime \<Rightarrow> gostr) \<Rightarrow> (gostr \<Rightarrow> gotime option) \<Rightarrow> redis_queue \<Rightarrow> gotime \<Rightarrow> gostr \<Rightarrow> gostr \<Rightarrow>
     gostr \<Rightarrow> 'w \<Rightarrow> (redis_queue_err + redis_job) \<times> 'w" where
  "redis_enqueue_with_payload rdo fmt prs q now new_id book_id0 payload w =
     (let book_id = trim_space book_id0 in
      if book_id = [] then (Inl BookIdRequired, w)
      else (case get_unique_job rdo prs q now book_id w of
              (Inr (Some existing), w1) \<Rightarrow> (Inr existing, w1)
            | (_, w1) \<Rightarrow>
                let job = no_job\<lparr>rj_id := new_id, rj_book_id := book_id, rj_status := lit ''queued'',
                                 rj_payload := payload, rj_created := now, rj_updated := now\<rparr>
                in (case write_status rdo fmt q now job w1 of
                      (Some e, w2) \<Rightarrow> (Inl (RedisFailed e), w2)
                    | (None, w2) \<Rightarrow>
                        (case rdo now (XAdd (q_stream q) (message_fields new_id book_id)) w2 of
                           (Inl e, w3) \<Rightarrow>
                             (Inl (RedisFailed e), snd (rdo now (Del [unique_job_key q book_id]) w3))
                         | (Inr _, w3) \<Rightarrow>
                             (Inr job, snd (rdo now (Set (unique_job_key q book_id) new_id (q_job_ttl q)) w3))))))"

definition redis_enqueue where
  "redis_enqueue rdo fmt prs q now new_id book_id w =
     redis_enqueue_with_payload rdo fmt prs q now new_id book_id [] w"

section \<open>Marking\<close>

definition redis_mark_processing ::
    "'w redis \<Rightarrow> (gotime \<Rightarrow> gostr) \<Rightarrow> (gostr \<Rightarrow> gotime option) \<Rightarrow> redis_queue \<Rightarrow> gotime \<Rightarrow> gostr \<Rightarrow> gostr \<Rightarrow>
     'w \<Rightarrow> (redis_err + redis_job) \<times> 'w" where
  "redis_mark_processing rdo fmt prs q now job_id book_id w =
     (case redis_get_job rdo prs q now job_id w of
        (Inl e, w1) \<Rightarrow> (Inl e, w1)
      | (Inr found, w1) \<Rightarrow>
          let job0 = (case found of None \<Rightarrow> no_job | Some j \<Rightarrow> j);
              job1 = (if rj_id job0 = [] then no_job\<lparr>rj_id := job_id\<rparr> else job0);
              job2 = (if book_id \<noteq> [] then job1\<lparr>rj_book_id := book_id\<rparr> else job1);
              job3 = job2\<lparr>rj_attempts := rj_attempts job2 + 1, rj_status := lit ''processing'', rj_updated := now\<rparr>;
              job = (if is_zero (rj_created job3) then job3\<lparr>rj_created := now\<rparr> else job3)
          in (case write_status rdo fmt q now job w1 of
                (Some e, w2) \<Rightarrow> (Inl e, w2)
              | (None, w2) \<Rightarrow> (Inr job, w2)))"

definition redis_mark ::
    "'w redis \<Rightarrow> (gotime \<Rightarrow> gostr) \<Rightarrow> (gostr \<Rightarrow> gotime option) \<Rightarrow> redis_queue \<Rightarrow> gotime \<Rightarrow> gostr \<Rightarrow> gostr \<Rightarrow>
     gostr \<Rightarrow> (redis_job \<Rightarrow> rcmd) \<Rightarrow> 'w \<Rightarrow> redis_err option \<times> 'w" where
  "redis_mark rdo fmt prs q now job_id status msg unique w =
     (case redis_get_job rdo prs q now job_id w of
        (Inl e, w1) \<Rightarrow> (Some e, w1)
      | (Inr found, w1) \<Rightarrow>
          let job0 = (case found of None \<Rightarrow> no_job | Some j \<Rightarrow> j);
              job = job0\<lparr>rj_status := status, rj_error := msg, rj_updated := now\<rparr>;
              w2 = snd (rdo now (unique job) w1)
          in write_status rdo fmt q now job w2)"

definition redis_mark_queued where
  "redis_mark_queued rdo fmt prs q now job_id msg =
     redis_mark rdo fmt prs q now job_id (lit ''queued'') msg
       (\<lambda>job. Set (unique_job_key q (rj_book_id job)) (rj_id job) (q_job_ttl q))"

definition redis_mark_done where
  "redis_mark_done rdo fmt prs q now job_id =
     redis_mark rdo fmt prs q now job_id (lit ''done'') [] (\<lambda>job. Del [unique_job_key q (rj_book_id job)])"

definition redis_mark_failed where
  "redis_mark_failed rdo fmt prs q now job_id msg =
     redis_mark rdo fmt prs q now job_id (lit ''failed'') msg (\<lambda>job. Del [unique_job_key q (rj_book_id job)])"

section \<open>Handling a message\<close>

definition ack_and_del :: "'w redis \<Rightarrow> redis_queue \<Rightarrow> gotime \<Rightarrow> nat \<Rightarrow> 'w \<Rightarrow> 'w" where
  "ack_and_del rdo q now msg_id w =
     snd (rdo now (XDel (q_stream q) msg_id) (snd (rdo now (XAck (q_stream q) (q_group q) msg_id) w)))"

definition requeue_and_ack ::
    "'w redis \<Rightarrow> redis_queue \<Rightarrow> gotime \<Rightarrow> nat \<Rightarrow> gostr \<Rightarrow> gostr \<Rightarrow> 'w \<Rightarrow> redis_err option \<times> 'w" where
  "requeue_and_ack rdo q now msg_id job_id book_id w =
     (case rdo now (Multi [XAdd (q_stream q) (message_fields job_id book_id),
                           XAck (q_stream q) (q_group q) msg_id, XDel (q_stream q) msg_id]) w of
        (Inl e, w1) \<Rightarrow> (Some e, w1)
      | (Inr _, w1) \<Rightarrow> (None, w1))"

definition handle_message ::
    "'w redis \<Rightarrow> (gotime \<Rightarrow> gostr) \<Rightarrow> (gostr \<Rightarrow> gotime option) \<Rightarrow> redis_queue \<Rightarrow>
     (redis_job \<Rightarrow> 'h \<Rightarrow> gostr option \<times> 'h) \<Rightarrow> bool \<Rightarrow> gotime \<Rightarrow> nat \<times> (gostr \<rightharpoonup> gostr) \<Rightarrow>
     'w \<times> 'h \<Rightarrow> 'w \<times> 'h" where
  "handle_message rdo fmt prs q handler ctx_done now msg wh =
     (let (w, h) = wh; (msg_id, vals) = msg;
          job_id = field vals (lit ''job_id''); book_id = field vals (lit ''book_id'')
      in if job_id = [] \<or> book_id = [] then (ack_and_del rdo q now msg_id w, h)
         else
           (case redis_mark_processing rdo fmt prs q now job_id book_id w of
              (Inl _, w1) \<Rightarrow> (ack_and_del rdo q now msg_id w1, h)
            | (Inr job, w1) \<Rightarrow>
                (case handler job h of
                   (None, h1) \<Rightarrow>
                     (ack_and_del rdo q now msg_id (snd (redis_mark_done rdo fmt prs q now job_id w1)), h1)
                 | (Some msg_err, h1) \<Rightarrow>
                     if q_max_retries q \<le> rj_attempts job
                     then (ack_and_del rdo q now msg_id
                             (snd (redis_mark_failed rdo fmt prs q now job_id msg_err w1)), h1)
                     else
                       let w2 = snd (redis_mark_queued rdo fmt prs q now job_id msg_err w1) in
                       if 0 < q_retry_delay q \<and> ctx_done then (w2, h1)
                       else (snd (requeue_and_ack rdo q now msg_id job_id book_id w2), h1))))"

section \<open>Properties\<close>

lemma job_fields_map:
  "map_of (rev (job_fields fmt job)) (lit ''bookId'') = Some (rj_book_id job)"
  "map_of (rev (job_fields fmt job)) (lit ''status'') = Some (rj_status job)"
  "map_of (rev (job_fields fmt job)) (lit ''error'') = Some (rj_error job)"
  "map_of (rev (job_fields fmt job)) (lit ''attempts'') = Some (itoa (rj_attempts job))"
  "map_of (rev (job_fields fmt job)) (lit ''createdAt'') = Some (fmt (rj_created job))"
  "map_of (rev (job_fields fmt job)) (lit ''updatedAt'') = Some (fmt (rj_updated job))"
  by (simp_all add: job_fields_def)

lemma decode_job_fields:
  assumes "\<And>t. valid_time t \<Longrightarrow> prs (fmt t) = Some t" and "prs [] = None"
    and "valid_time (rj_created job)" "valid_time (rj_updated job)"
    and "- (2 ^ 63) \<le> rj_attempts job" "rj_attempts job < 2 ^ 63"
  shows "decode_job_status prs (rj_id job) (h ++ map_of (rev (job_fields fmt job))) = job\<lparr>rj_payload := []\<rparr>"
proof -
  have t: "fmt t \<noteq> []" if "valid_time t" for t using assms(1) [OF that] assms(2) by auto
  have "itoa (rj_attempts job) \<noteq> []" using parse_int_itoa [of "rj_attempts job"] by (metis option.distinct(1) parse_int.simps(1))
  then show ?thesis
    using assms t
    by (simp add: decode_job_status_def field_def map_add_def job_fields_map atoi_def no_job_def)
qed

context redis_time
begin

lemma written_job:
  assumes "write_status rdo fmt q now job w = (None, w')" and "0 < q_job_ttl q"
  shows "live now (ks w') (job_key q (rj_id job)) =
     Some (VHash (hash_of (live now (ks w) (job_key q (rj_id job))) ++ map_of (rev (job_fields fmt job))))"
proof -
  let ?k = "job_key q (rj_id job)"
  obtain r w1 where h: "rdo now (HSet ?k (job_fields fmt job)) w = (Inr r, w1)"
      and w': "w' = snd (rdo now (Expire ?k (q_job_ttl q)) w1)"
    using assms(1) by (auto simp: write_status_def Let_def split: prod.splits sum.splits)
  have k1: "ks w1 = (ks w)(?k \<mapsto> (VHash (hash_of (live now (ks w) ?k) ++ map_of (rev (job_fields fmt job))),
      deadline now (ks w) ?k))"
    using hset_reply [OF h] .
  have l1: "live now (ks w1) ?k = Some (VHash (hash_of (live now (ks w) ?k) ++ map_of (rev (job_fields fmt job))))"
    unfolding k1 by (auto simp: live_def deadline_def split: option.splits if_splits)
  have "ks w' = ks w1 \<or> ks w' = rwrite now (Expire ?k (q_job_ttl q)) (ks w1)"
    using expire_state [of now ?k "q_job_ttl q" w1 _ w'] w' by (metis prod.collapse)
  then show ?thesis using l1 assms(2) by (auto simp: live_def split: option.splits)
qed

end

text \<open>
  The Redis queue keeps every field of a job but its payload.  A job whose status was written is read
  back with its ID, book, status, error, attempts and times, and with an empty payload: the payload of
  \<open>EnqueueWithPayload\<close> is not stored and never reaches a handler.
\<close>

theorem redis_job_loses_payload:
  assumes "redis_time rdo ks fmt prs"
    and "write_status rdo fmt q now job w = (None, w1)" and "0 < q_job_ttl q"
    and "redis_get_job rdo prs q now (rj_id job) w1 = (Inr found, w2)"
    and "trim_space (rj_id job) = rj_id job" and "rj_id job \<noteq> []"
    and "valid_time (rj_created job)" and "valid_time (rj_updated job)"
    and "- (2 ^ 63) \<le> rj_attempts job" and "rj_attempts job < 2 ^ 63"
  shows "found = Some (job\<lparr>rj_payload := []\<rparr>)"
proof -
  have fp: "\<And>t. valid_time t \<Longrightarrow> prs (fmt t) = Some t" "prs [] = None"
    using redis_time.parse_format [OF assms(1)] redis_time.parse_empty [OF assms(1)] by auto
  obtain r where g: "rdo now (HGetAll (job_key q (rj_id job))) w1 = (Inr r, w2)"
    using assms(4-6) by (auto simp: redis_get_job_def Let_def split: prod.splits sum.splits if_splits)
  have r: "r = RHash (hash_of (live now (ks w1) (job_key q (rj_id job))))"
    using redis_server.hgetall_reply [OF redis_time.axioms(1) [OF assms(1)] g] by blast
  show ?thesis
    using assms(4-6) g r decode_job_fields [OF fp assms(7-10)]
    by (auto simp: redis_get_job_def redis_time.written_job [OF assms(1-3)] hash_of_def job_fields_def
        split: if_splits)
qed

definition demo_redis_queue :: redis_queue where
  "demo_redis_queue =
     \<lparr>q_stream = lit ''s'', q_group = lit ''g'', q_consumer = lit ''c'', q_job_ttl = 100 * second, q_max_retries = 3,
      q_block = 5 * second, q_claim_idle = 30 * second, q_retry_delay = 2 * second, q_max_len = 10000,
      q_read_count = 10, q_claim_count = 10\<rparr>"

theorem redis_job_loses_payload_witness:
  "fst (redis_get_job faulty_redis parse_int demo_redis_queue 7 (lit ''j'')
      (snd (write_status faulty_redis itoa demo_redis_queue 7
         (no_job\<lparr>rj_id := lit ''j'', rj_payload := lit ''p''\<rparr>) (Map.empty, [])))) =
    Inr (Some (no_job\<lparr>rj_id := lit ''j''\<rparr>))"
proof -
  let ?job = "no_job\<lparr>rj_id := lit ''j'', rj_payload := lit ''p''\<rparr>"
  have j: "trim_space (lit ''j'') = lit ''j''" by (simp add: trim_space_fix lit_Cons is_space_def)
  obtain w1 where w: "write_status faulty_redis itoa demo_redis_queue 7 ?job (Map.empty, []) = (None, (w1, []))"
    by (simp add: write_status_def Let_def)
  obtain found w2 where g: "redis_get_job faulty_redis parse_int demo_redis_queue 7 (rj_id ?job) (w1, []) = (Inr found, w2)"
    by (cases "dom (hash_of (live 7 w1 (job_key demo_redis_queue (lit ''j'')))) = {}")
      (simp_all add: redis_get_job_def Let_def j)
  have "found = Some (?job\<lparr>rj_payload := []\<rparr>)"
    using redis_job_loses_payload [OF frt.redis_time_axioms w _ g]
    by (simp add: demo_redis_queue_def second_def j no_job_def valid_time_def zero_time_def)
  then show ?thesis using g w by (simp add: no_job_def)
qed

text \<open>
  One failed read loses a job.  When the status of a message's job cannot be read, for example because
  the connection times out, the message is acknowledged and deleted and its handler never runs; the
  job itself stays as it was.
\<close>

theorem redis_message_lost:
  assumes "live now K (q_stream q) = Some (VStream n es ps)"
    and "field vals (lit ''job_id'') = job" and "field vals (lit ''book_id'') \<noteq> []" and "trim_space job \<noteq> []"
  shows "handle_message faulty_redis fmt prs q handler c now (i, vals) ((K, [Some b]), h) =
     ((K(q_stream q \<mapsto> (VStream n (filter (\<lambda>e. fst e \<noteq> i) es) (removeAll i ps), deadline now K (q_stream q))), []), h)"
proof -
  have "job \<noteq> []" using assms(4) by auto
  then show ?thesis
    using assms
    by (simp add: handle_message_def redis_mark_processing_def redis_get_job_def ack_and_del_def Let_def)
      (auto simp: live_def deadline_def split: option.splits if_splits)
qed

theorem redis_message_lost_witness:
  "handle_message faulty_redis itoa parse_int demo_redis_queue (\<lambda>j h. (None, h + 1)) False 7
      (0, [lit ''job_id'' \<mapsto> lit ''j'', lit ''book_id'' \<mapsto> lit ''b''])
      (([lit ''s'' \<mapsto> (VStream 1 [(0, message_fields (lit ''j'') (lit ''b''))] [0], None)], [Some False]), 0::nat) =
    (([lit ''s'' \<mapsto> (VStream 1 [] [], None)], []), 0)"
proof -
  let ?K = "[lit ''s'' \<mapsto> (VStream 1 [(0, message_fields (lit ''j'') (lit ''b''))] [0], None)]"
  have j: "trim_space (lit ''j'') = lit ''j''" by (simp add: trim_space_fix lit_Cons is_space_def)
  have "live 7 ?K (q_stream demo_redis_queue) = Some (VStream 1 [(0, message_fields (lit ''j'') (lit ''b''))] [0])"
    by (simp add: live_def demo_redis_queue_def)
  from redis_message_lost [OF this, of "[lit ''job_id'' \<mapsto> lit ''j'', lit ''book_id'' \<mapsto> lit ''b'']" "lit ''j''"
      itoa parse_int "\<lambda>j h. (None, h + 1)" False 0 False "0::nat"]
  show ?thesis by (simp add: j field_def deadline_def live_def demo_redis_queue_def)
qed

end
