(* ===== verification/RateLimit.thy ===== *)
theory RateLimit
  imports RedisApi
begin

text \<open>
  The fixed-window rate limiter of \<open>backend/internal/ratelimit/fixed_window.go\<close> and the security alerter
  of \<open>backend/services/auth/internal/security/alerter.go\<close>, which count in Redis with the same script
  (\<open>IncrWindow\<close> of \<open>RedisApi\<close>).
\<close>

section \<open>The limiter\<close>

record limiter =
  lm_limit :: int
  lm_window :: duration
  lm_prefix :: gostr

datatype limiter_err = LimitNotPositive | LimiterAddrRequired

definition new_limiter :: "gostr \<Rightarrow> gostr \<Rightarrow> int \<Rightarrow> duration \<Rightarrow> limiter_err + limiter" where
  "new_limiter addr prefix limit window =
     (if limit \<le> 0 \<or> window \<le> 0 then Inl LimitNotPositive
      else if trim_space addr = [] then Inl LimiterAddrRequired
      else let p = trim_space prefix in
        Inr \<lparr>lm_limit = limit, lm_window = window,
             lm_prefix = (if p = [] then lit ''onebook:ratelimit'' else p)\<rparr>)"

text \<open>Milliseconds since the epoch; the clock is after 1970, so the division truncates downwards.\<close>

definition unix_milli :: "gotime \<Rightarrow> int" where
  "unix_milli t = t div millisecond"

definition window_key :: "limiter \<Rightarrow> gostr \<Rightarrow> int \<Rightarrow> gostr" where
  "window_key l key slot = lm_prefix l @ lit '':'' @ key @ lit '':'' @ itoa slot"

definition allow_redis :: "'w redis \<Rightarrow> limiter \<Rightarrow> gotime \<Rightarrow> gostr \<Rightarrow> 'w \<Rightarrow> bool \<times> 'w" where
  "allow_redis rdo l now key w =
     (let window_ms = lm_window l div millisecond in
      if window_ms \<le> 0 then (True, w)
      else
        let slot = unix_milli now div window_ms in
        (case rdo now (IncrWindow (window_key l key slot) window_ms) w of
           (Inl e, w1) \<Rightarrow> (False, w1)
         | (Inr r, w1) \<Rightarrow> ((case r of RInt n \<Rightarrow> n \<le> lm_limit l | _ \<Rightarrow> False), w1)))"

definition normal_key :: "gostr \<Rightarrow> gostr" where
  "normal_key key = (let k = trim_space key in if k = [] then lit ''unknown'' else k)"

definition allow :: "'w redis \<Rightarrow> limiter option \<Rightarrow> gotime \<Rightarrow> gostr \<Rightarrow> 'w \<Rightarrow> bool \<times> 'w" where
  "allow rdo lo now key w =
     (case lo of None \<Rightarrow> (False, w) | Some l \<Rightarrow> allow_redis rdo l now (normal_key key) w)"

section \<open>The alerter\<close>

record alert_result =
  ar_triggered :: bool
  ar_count :: int
  ar_threshold :: int
  ar_window :: duration

definition no_alert :: alert_result where
  "no_alert = \<lparr>ar_triggered = False, ar_count = 0, ar_threshold = 0, ar_window = 0\<rparr>"

text \<open>The alerter is its key prefix, or none without an address.\<close>

definition new_alerter :: "gostr \<Rightarrow> gostr \<Rightarrow> gostr option" where
  "new_alerter addr prefix =
     (if trim_space addr = [] then None
      else let p = trim_space prefix in Some (if p = [] then lit ''onebook:auth:alerts'' else p))"

definition alert_rule :: "gostr \<Rightarrow> gostr \<Rightarrow> (int \<times> duration) option" where
  "alert_rule event0 outcome0 =
     (let event = trim_space event0; outcome = trim_space outcome0 in
      if outcome = lit ''rate_limited'' then Some (20, 60 * second)
      else if outcome \<noteq> lit ''fail'' then None
      else if event \<in> {lit ''auth.login'', lit ''auth.signup''} then Some (10, 5 * 60 * second)
      else if event \<in> {lit ''auth.refresh'', lit ''auth.logout'', lit ''auth.password.change''}
        then Some (15, 5 * 60 * second)
      else if event \<in> {lit ''auth.authorize'', lit ''auth.admin.authorize''} then Some (25, 5 * 60 * second)
      else None)"

definition sanitize_segment :: "gostr \<Rightarrow> gostr" where
  "sanitize_segment in0 =
     (let s = trim_space in0 in
      if s = [] then lit ''unknown''
      else map (\<lambda>r. if r = 58 \<or> r = 124 \<or> r = 32 then 95 else r) s)"

definition observe ::
    "'w redis \<Rightarrow> gostr option \<Rightarrow> gotime \<Rightarrow> gostr \<Rightarrow> gostr \<Rightarrow> gostr \<Rightarrow> 'w \<Rightarrow> (redis_err + alert_result) \<times> 'w" where
  "observe rdo alerter now event outcome ip0 w =
     (case alerter of None \<Rightarrow> (Inr no_alert, w)
      | Some prefix \<Rightarrow>
          (case alert_rule event outcome of None \<Rightarrow> (Inr no_alert, w)
           | Some (threshold, window) \<Rightarrow>
               let ip = (if trim_space ip0 = [] then lit ''unknown'' else trim_space ip0);
                   window_ms = window div millisecond
               in if window_ms \<le> 0 then (Inr no_alert, w)
                  else
                    let slot = unix_milli now div window_ms;
                        key = prefix @ lit '':'' @ sanitize_segment event @ lit '':'' @ sanitize_segment outcome @
                              lit '':'' @ sanitize_segment ip @ lit '':'' @ itoa slot
                    in (case rdo now (IncrWindow key window_ms) w of
                          (Inl e, w1) \<Rightarrow> (Inl e, w1)
                        | (Inr r, w1) \<Rightarrow>
                            let count = (case r of RInt n \<Rightarrow> n | _ \<Rightarrow> 0) in
                            (Inr \<lparr>ar_triggered = threshold \<le> count, ar_count = count, ar_threshold = threshold,
                                  ar_window = window\<rparr>, w1))))"

section \<open>Counting within a window\<close>

text \<open>The last colon of a key separates the slot.\<close>

lemma colon_split:
  assumes "a @ 58 # x = b @ 58 # y" "58 \<notin> set x" "58 \<notin> set y"
  shows "a = b \<and> x = (y :: gostr)"
proof -
  have "rev x @ 58 # rev a = rev y @ 58 # rev b"
    using arg_cong [OF assms(1), of rev] by simp
  then have "takeWhile (\<lambda>r. r \<noteq> 58) (rev x @ 58 # rev a) = takeWhile (\<lambda>r. r \<noteq> 58) (rev y @ 58 # rev b)"
    by simp
  moreover have "\<forall>r\<in>set x. r \<noteq> 58" "\<forall>r\<in>set y. r \<noteq> 58" using assms(2,3) by auto
  ultimately have "rev x = rev y" by (simp add: takeWhile_append)
  then show ?thesis using assms(1) by simp
qed

lemma itoa_no_colon: "58 \<notin> set (itoa i)"
  using nat_digits_set [of 58] by (auto simp: itoa_def)

lemma window_key_inject: "window_key l k s = window_key l k' s' \<longleftrightarrow> k = k' \<and> s = s'"
proof
  assume "window_key l k s = window_key l k' s'"
  then have "k @ 58 # itoa s = k' @ 58 # itoa s'" by (simp add: window_key_def lit_Cons)
  then show "k = k' \<and> s = s'" using colon_split [OF _ itoa_no_colon itoa_no_colon] by fastforce
qed simp

text \<open>
  What the counter of a key and a slot says when \<open>n\<close> calls were allowed: it is at least \<open>n\<close>, and it
  does not expire before the slot ends.
\<close>

definition window_end :: "int \<Rightarrow> int \<Rightarrow> gotime" where
  "window_end window_ms slot = (slot + 1) * window_ms * millisecond"

definition counted :: "limiter \<Rightarrow> gostr \<Rightarrow> int \<Rightarrow> keyspace \<Rightarrow> nat \<Rightarrow> bool" where
  "counted l k slot K n \<longleftrightarrow>
     K (window_key l k slot) = None \<and> n = 0 \<or>
     (\<exists>v d. K (window_key l k slot) = Some (VInt v, Some d) \<and> int n \<le> v \<and> int n \<le> lm_limit l \<and>
        window_end (lm_window l div millisecond) slot \<le> d)"

lemma slot_bounds:
  assumes "slot = unix_milli now div ms" "0 < ms"
  shows "now < window_end ms slot" and "window_end ms slot \<le> now + ms * millisecond"
proof -
  have m: "unix_milli now = slot * ms + unix_milli now mod ms" "0 \<le> unix_milli now mod ms" "unix_milli now mod ms < ms"
    using assms by simp_all
  have n: "now = unix_milli now * millisecond + now mod millisecond" "0 \<le> now mod millisecond"
      "now mod millisecond < millisecond"
    by (simp_all add: unix_milli_def millisecond_def)
  have u: "unix_milli now < (slot + 1) * ms" "slot * ms \<le> unix_milli now"
    using m by (simp_all add: algebra_simps)
  have "now < (unix_milli now + 1) * millisecond" using n by (simp add: algebra_simps)
  also have "\<dots> \<le> (slot + 1) * ms * millisecond"
    using u(1) by (intro mult_right_mono) (auto simp: millisecond_def)
  finally show "now < window_end ms slot" by (simp add: window_end_def)
  have "slot * ms * millisecond \<le> unix_milli now * millisecond"
    using u(2) by (intro mult_right_mono) (auto simp: millisecond_def)
  also have "\<dots> \<le> now" using n(1,2) by linarith
  finally show "window_end ms slot \<le> now + ms * millisecond"
    by (simp add: window_end_def algebra_simps)
qed

lemma counted_incr:
  assumes "counted l k slot K n" "slot = unix_milli now div ms" "ms = lm_window l div millisecond" "0 < ms" "0 < lm_limit l"
  defines "K' \<equiv> rwrite now (IncrWindow (window_key l k slot) ms) K"
    and "c \<equiv> counter_of (live now K (window_key l k slot)) + 1"
  shows "counted l k slot K' n" and "c \<le> lm_limit l \<Longrightarrow> counted l k slot K' (Suc n)"
  using assms(1) slot_bounds [OF assms(2,4)] assms(3,5)
  by (auto simp: counted_def K'_def c_def live_def counter_of_def deadline_def Let_def)

lemma window_key_other:
  "k \<noteq> window_key l k2 s2 \<Longrightarrow> rwrite now (IncrWindow (window_key l k2 s2) ms) K k = K k"
  by (simp add: Let_def)

lemma counted_other:
  "(k, slot) \<noteq> (k2, slot2) \<Longrightarrow> counted l k slot K n \<Longrightarrow>
   counted l k slot (rwrite now (IncrWindow (window_key l k2 slot2) ms) K) n"
  by (auto simp: counted_def window_key_inject Let_def)

text \<open>Calls in order, each at its time and with its key; the answers are collected.\<close>

fun allow_all :: "'w redis \<Rightarrow> limiter \<Rightarrow> (gotime \<times> gostr) list \<Rightarrow> 'w \<Rightarrow> bool list \<times> 'w" where
  "allow_all rdo l [] w = ([], w)"
| "allow_all rdo l ((now, key) # cs) w =
     (let (b, w1) = allow rdo (Some l) now key w; (bs, w2) = allow_all rdo l cs w1 in (b # bs, w2))"

definition in_window :: "limiter \<Rightarrow> gostr \<Rightarrow> int \<Rightarrow> gotime \<times> gostr \<Rightarrow> bool" where
  "in_window l k slot c \<longleftrightarrow>
     normal_key (snd c) = k \<and> unix_milli (fst c) div (lm_window l div millisecond) = slot"

definition allowed_in :: "limiter \<Rightarrow> gostr \<Rightarrow> int \<Rightarrow> (gotime \<times> gostr) list \<Rightarrow> bool list \<Rightarrow> nat" where
  "allowed_in l k slot cs bs = length (filter (\<lambda>(c, b). b \<and> in_window l k slot c) (zip cs bs))"

context redis_server
begin

lemma allow_step:
  assumes "allow rdo (Some l) now key w = (b, w')" "counted l k slot (ks w) n"
    and "0 < lm_window l div millisecond" "0 < lm_limit l"
  shows "counted l k slot (ks w') (if b \<and> in_window l k slot (now, key) then Suc n else n)"
proof -
  let ?ms = "lm_window l div millisecond"
  let ?k2 = "normal_key key" and ?s2 = "unix_milli now div ?ms"
  obtain r where r: "rdo now (IncrWindow (window_key l ?k2 ?s2) ?ms) w = (r, w')"
    and b: "b = (case r of Inl _ \<Rightarrow> False | Inr (RInt n) \<Rightarrow> n \<le> lm_limit l | Inr _ \<Rightarrow> False)"
    using assms(1,3) by (auto simp: allow_def allow_redis_def Let_def split: prod.splits sum.splits)
  have keep: "counted l k slot (rwrite now (IncrWindow (window_key l ?k2 ?s2) ?ms) (ks w)) n"
    using counted_other [of k slot ?k2 ?s2 l "ks w" n now ?ms] assms(2)
      counted_incr(1) [OF _ refl refl assms(3,4), of ?k2 now "ks w" n]
    by (cases "(k, slot) = (?k2, ?s2)") auto
  show ?thesis
  proof (cases r)
    case (Inl e)
    then show ?thesis using failure [OF r [unfolded Inl]] keep assms(2) b unfolding counted_def by auto
  next
    case (Inr q)
    have q: "q = RInt (counter_of (live now (ks w) (window_key l ?k2 ?s2)) + 1)"
      and ks': "ks w' = rwrite now (IncrWindow (window_key l ?k2 ?s2) ?ms) (ks w)"
      using incr_reply [of now _ ?ms w q w'] r Inr by auto
    have b': "b \<longleftrightarrow> counter_of (live now (ks w) (window_key l ?k2 ?s2)) + 1 \<le> lm_limit l"
      using b Inr q by simp
    show ?thesis
    proof (cases "b \<and> in_window l k slot (now, key)")
      case True
      then have e: "k = ?k2" "slot = ?s2" by (auto simp: in_window_def)
      have "counted l ?k2 ?s2 (rwrite now (IncrWindow (window_key l ?k2 ?s2) ?ms) (ks w)) (Suc n)"
        using counted_incr(2) [OF assms(2) [unfolded e] refl refl assms(3,4)] True b' by simp
      then show ?thesis using True unfolding ks' e by simp
    next
      case False
      then show ?thesis using keep unfolding ks' by (simp only: if_False if_not_P)
    qed
  qed
qed

lemma allow_all_counted:
  assumes "allow_all rdo l cs w = (bs, w')" "counted l k slot (ks w) n"
    and "0 < lm_window l div millisecond" "0 < lm_limit l"
  shows "counted l k slot (ks w') (n + allowed_in l k slot cs bs)"
  using assms(1,2)
proof (induction cs arbitrary: w bs n w')
  case Nil
  then show ?case by (simp add: allowed_in_def)
next
  case (Cons c cs)
  obtain b w1 where a: "allow rdo (Some l) (fst c) (snd c) w = (b, w1)" by force
  obtain bs1 w2 where r: "allow_all rdo l cs w1 = (bs1, w2)" by force
  have e: "bs = b # bs1" "w' = w2" using Cons.prems(1) a r by (cases c; simp)+
  have "counted l k slot (ks w1) (if b \<and> in_window l k slot c then Suc n else n)"
    using allow_step [OF a Cons.prems(2) assms(3,4)] by simp
  from Cons.IH [OF r this] show ?case
    unfolding e by (auto simp: allowed_in_def split: if_splits)
qed

end

section \<open>Properties\<close>

text \<open>
  C32: the limiter never exceeds its quota.  In any sequence of calls, with any keys and at any times, at
  most \<open>limit\<close> calls of a key are allowed within one window, whichever of the Redis commands fail.
\<close>

theorem limiter_quota:
  assumes "redis_server rdo ks" and "new_limiter addr prefix limit window = Inr l"
    and "millisecond \<le> window" and "ks w (window_key l k slot) = None"
    and "allow_all rdo (l::limiter) cs w = (bs, w')"
  shows "int (allowed_in l k slot cs bs) \<le> limit"
proof -
  have l: "lm_limit l = limit" "lm_window l = window" "0 < limit"
    using assms(2) by (auto simp: new_limiter_def Let_def split: if_splits)
  have "0 < window div millisecond"
    using assms(3) by (simp add: millisecond_def pos_imp_zdiv_pos_iff)
  then have "counted l k slot (ks w') (0 + allowed_in l k slot cs bs)"
    using redis_server.allow_all_counted [OF assms(1) assms(5), of k slot 0] assms(4) l
    by (simp add: counted_def)
  then show ?thesis using l by (auto simp: counted_def)
qed

theorem limiter_quota_witness:
  "int (allowed_in \<lparr>lm_limit = 1, lm_window = second, lm_prefix = lit ''p''\<rparr> (lit ''k'') 0 [(5, lit ''k''), (6, lit ''k'')]
     (fst (allow_all faulty_redis \<lparr>lm_limit = 1, lm_window = second, lm_prefix = lit ''p''\<rparr>
       [(5, lit ''k''), (6, lit ''k'')] (Map.empty, [])))) \<le> 1"
proof -
  let ?l = "\<lparr>lm_limit = 1, lm_window = second, lm_prefix = lit ''p''\<rparr>"
  obtain bs w' where r: "allow_all faulty_redis ?l [(5, lit ''k''), (6, lit ''k'')] (Map.empty, []) = (bs, w')"
    using prod.exhaust by blast
  have "new_limiter (lit ''a'') (lit ''p'') 1 second = Inr ?l"
    by (simp add: new_limiter_def second_def trim_space_fix lit_Cons is_space_def)
  from limiter_quota [OF redis_server_faulty this _ _ r, of "lit ''k''" 0] show ?thesis
    unfolding r by (simp add: second_def millisecond_def)
qed

text \<open>
  A window shorter than a millisecond switches the limiter off.  The constructor accepts it, and then
  every call of every key is allowed.
\<close>

theorem limiter_fails_open:
  assumes "trim_space addr \<noteq> []" and "0 < limit" and "0 < window" and "window < millisecond"
  shows "\<exists>l. new_limiter addr prefix limit window = Inr l \<and>
    (\<forall>now key w. allow rdo (Some l) now key w = (True, w))"
proof -
  have "window div millisecond = 0" using assms by (simp add: millisecond_def)
  then show ?thesis using assms
    by (simp add: new_limiter_def Let_def allow_def allow_redis_def)
qed

theorem limiter_fails_open_witness:
  "\<exists>l. new_limiter (lit ''a'') (lit ''p'') 1 999999 = Inr l \<and>
    (\<forall>now key w. allow faulty_redis (Some l) now key w = (True, w))"
  by (rule limiter_fails_open) (simp_all add: millisecond_def trim_space_fix lit_Cons is_space_def)

end
