(* ===== verification/OtpStore.thy ===== *)
theory OtpStore
  imports RedisApi
begin

text \<open>
  The one-time codes of \<open>backend/services/auth/internal/server/otp_store.go\<close>: challenges with their
  attempts, the resend limit, verification tokens, and the normalisation of identifiers.  The JSON
  codecs, bcrypt, the address parser and the generated values (codes, IDs) are parameters.
\<close>

section \<open>Data\<close>

record otp_store =
  ot_prefix :: gostr
  ot_challenge_ttl :: duration
  ot_challenge_persist :: duration
  ot_resend_after :: duration
  ot_verification_ttl :: duration
  ot_max_attempts :: int

record otp_challenge =
  oc_id :: gostr
  oc_channel :: gostr
  oc_identifier :: gostr
  oc_purpose :: gostr
  oc_code_hash :: gostr
  oc_expires :: gotime
  oc_attempts :: int
  oc_max :: int

record verification_token =
  vt_channel :: gostr
  vt_identifier :: gostr
  vt_purpose :: gostr
  vt_expires :: gotime

datatype otp_err =
    OtpAddrRequired | OtpNotConfigured | OtpPurposeInvalid | IdentifierRequired | OtpSendRateLimited
  | OtpGenerate gostr | OtpHash gostr | OtpMarshal gostr | OtpUnmarshal gostr | OtpChallengeRequired
  | OtpCodeRequired | OtpChallengeInvalid | OtpCodeExpired | OtpCodeInvalid
  | VerificationTokenRequired | VerificationTokenInvalid | OtpRedis redis_err
  | EmailRequired | EmailInvalid | PhoneInvalid | ChannelInvalid

definition new_otp_store :: "gostr \<Rightarrow> otp_err + otp_store" where
  "new_otp_store addr =
     (if trim_space addr = [] then Inl OtpAddrRequired
      else let ttl = 600 * second in
        Inr \<lparr>ot_prefix = lit ''onebook:auth:otp'', ot_challenge_ttl = ttl,
             ot_challenge_persist = ttl + 60 * second, ot_resend_after = 60 * second,
             ot_verification_ttl = 600 * second, ot_max_attempts = 5\<rparr>)"

text \<open>The JSON codecs, and bcrypt.\<close>

record otp_lib =
  ol_enc :: "otp_challenge \<Rightarrow> gostr + gostr"
  ol_dec :: "gostr \<Rightarrow> gostr + otp_challenge"
  ol_enc_token :: "verification_token \<Rightarrow> gostr + gostr"
  ol_dec_token :: "gostr \<Rightarrow> gostr + verification_token"
  ol_hash :: "gostr \<Rightarrow> gostr + gostr"
  ol_compare :: "gostr \<Rightarrow> gostr \<Rightarrow> bool"
  ol_lower :: "rune \<Rightarrow> rune"

section \<open>Purposes and keys\<close>

definition normalize_purpose :: "(rune \<Rightarrow> rune) \<Rightarrow> gostr \<Rightarrow> gostr" where
  "normalize_purpose lw purpose =
     (let p = trim_space (to_lower lw purpose) in
      if p \<in> {lit ''signup'', lit ''signup_password'', lit ''signup_otp''} then lit ''signup''
      else if p \<in> {lit ''login'', lit ''login_otp''} then lit ''login''
      else if p \<in> {lit ''password_reset'', lit ''reset_password''} then lit ''password_reset''
      else p)"

definition valid_purpose :: "(rune \<Rightarrow> rune) \<Rightarrow> gostr \<Rightarrow> bool" where
  "valid_purpose lw purpose =
     (normalize_purpose lw purpose \<in> {lit ''signup'', lit ''login'', lit ''password_reset''})"

definition challenge_key :: "otp_store \<Rightarrow> gostr \<Rightarrow> gostr" where
  "challenge_key st cid = ot_prefix st @ lit '':challenge:'' @ cid"

definition resend_key :: "otp_store \<Rightarrow> gostr \<Rightarrow> gostr \<Rightarrow> gostr \<Rightarrow> gostr" where
  "resend_key st channel identifier purpose =
     ot_prefix st @ lit '':resend:'' @ purpose @ lit '':'' @ channel @ lit '':'' @ identifier"

definition verification_token_key :: "otp_store \<Rightarrow> gostr \<Rightarrow> gostr" where
  "verification_token_key st token = ot_prefix st @ lit '':verification-token:'' @ token"

section \<open>Challenges\<close>

text \<open>A command whose error the source drops.\<close>

definition best_effort :: "'w redis \<Rightarrow> gotime \<Rightarrow> rcmd \<Rightarrow> 'w \<Rightarrow> 'w" where
  "best_effort rdo now c w = snd (rdo now c w)"

definition create_challenge ::
    "'w redis \<Rightarrow> otp_lib \<Rightarrow> otp_store option \<Rightarrow> gotime \<Rightarrow> (gostr + gostr) \<Rightarrow> gostr \<Rightarrow> gostr \<Rightarrow> gostr \<Rightarrow> gostr \<Rightarrow>
     'w \<Rightarrow> (otp_err + gostr \<times> gostr \<times> int \<times> int) \<times> 'w" where
  "create_challenge rdo lib ost now gen new_id channel identifier0 purpose0 w =
     (case ost of None \<Rightarrow> (Inl OtpNotConfigured, w)
      | Some st \<Rightarrow>
          let purpose = normalize_purpose (ol_lower lib) purpose0;
              identifier = trim_space identifier0
          in if \<not> valid_purpose (ol_lower lib) purpose then (Inl OtpPurposeInvalid, w)
             else if identifier = [] then (Inl IdentifierRequired, w)
             else
               let rkey = resend_key st channel identifier purpose in
               (case rdo now (SetNX rkey (lit ''1'') (ot_resend_after st)) w of
                  (Inl e, w1) \<Rightarrow> (Inl (OtpRedis e), w1)
                | (Inr r, w1) \<Rightarrow>
                    if r \<noteq> RInt 1 then (Inl OtpSendRateLimited, w1)
                    else (case gen of
                      Inl e \<Rightarrow> (Inl (OtpGenerate e), best_effort rdo now (Del [rkey]) w1)
                    | Inr code \<Rightarrow> (case ol_hash lib code of
                      Inl e \<Rightarrow> (Inl (OtpHash e), best_effort rdo now (Del [rkey]) w1)
                    | Inr code_hash \<Rightarrow>
                        let ch = \<lparr>oc_id = new_id, oc_channel = channel, oc_identifier = identifier,
                                  oc_purpose = purpose, oc_code_hash = code_hash,
                                  oc_expires = now + ot_challenge_ttl st, oc_attempts = 0,
                                  oc_max = ot_max_attempts st\<rparr>
                        in (case ol_enc lib ch of
                              Inl e \<Rightarrow> (Inl (OtpMarshal e), best_effort rdo now (Del [rkey]) w1)
                            | Inr raw \<Rightarrow>
                                (case rdo now (Set (challenge_key st new_id) raw (ot_challenge_persist st)) w1 of
                                   (Inl e, w2) \<Rightarrow> (Inl (OtpRedis e), best_effort rdo now (Del [rkey]) w2)
                                 | (Inr _, w2) \<Rightarrow>
                                     (Inr (new_id, code, ot_challenge_ttl st div second,
                                           ot_resend_after st div second), w2)))))))"

text \<open>A wrong code: count the attempt, and drop the challenge at the limit.\<close>

definition count_attempt ::
    "'w redis \<Rightarrow> otp_lib \<Rightarrow> gotime \<Rightarrow> gostr \<Rightarrow> otp_challenge \<Rightarrow> 'w \<Rightarrow> 'w" where
  "count_attempt rdo lib now key ch0 w =
     (let ch = ch0\<lparr>oc_attempts := oc_attempts ch0 + 1\<rparr> in
      if oc_max ch \<le> oc_attempts ch then best_effort rdo now (Del [key]) w
      else (case ol_enc lib ch of Inl _ \<Rightarrow> w
            | Inr raw \<Rightarrow>
                (case rdo now (Ttl key) w of
                   (Inr (RInt ttl), w1) \<Rightarrow>
                     if 0 < ttl then best_effort rdo now (Set key raw ttl) w1 else w1
                 | (_, w1) \<Rightarrow> w1)))"

definition verify_challenge ::
    "'w redis \<Rightarrow> otp_lib \<Rightarrow> otp_store option \<Rightarrow> gotime \<Rightarrow> gostr \<Rightarrow> gostr \<Rightarrow> gostr \<Rightarrow> gostr \<Rightarrow> gostr \<Rightarrow>
     'w \<Rightarrow> otp_err option \<times> 'w" where
  "verify_challenge rdo lib ost now cid0 channel identifier0 purpose0 code0 w =
     (case ost of None \<Rightarrow> (Some OtpNotConfigured, w)
      | Some st \<Rightarrow>
          let cid = trim_space cid0;
              purpose = normalize_purpose (ol_lower lib) purpose0;
              identifier = trim_space identifier0;
              code = trim_space code0;
              key = challenge_key st cid
          in if cid = [] then (Some OtpChallengeRequired, w)
             else if \<not> valid_purpose (ol_lower lib) purpose then (Some OtpPurposeInvalid, w)
             else if identifier = [] then (Some IdentifierRequired, w)
             else if code = [] then (Some OtpCodeRequired, w)
             else (case rdo now (Get key) w of
                (Inl e, w1) \<Rightarrow> (Some (OtpRedis e), w1)
              | (Inr (RStr raw), w1) \<Rightarrow>
                  (case ol_dec lib raw of Inl e \<Rightarrow> (Some (OtpUnmarshal e), w1)
                   | Inr ch \<Rightarrow>
                       if oc_id ch = [] \<or> oc_channel ch \<noteq> channel \<or> oc_identifier ch \<noteq> identifier \<or>
                          oc_purpose ch \<noteq> purpose
                       then (Some OtpChallengeInvalid, w1)
                       else if oc_expires ch < now
                       then (Some OtpCodeExpired, best_effort rdo now (Del [key]) w1)
                       else if oc_max ch \<le> oc_attempts ch
                       then (Some OtpChallengeInvalid, best_effort rdo now (Del [key]) w1)
                       else if \<not> ol_compare lib (oc_code_hash ch) code
                       then (Some OtpCodeInvalid, count_attempt rdo lib now key ch w1)
                       else (case rdo now (Del [key]) w1 of
                               (Inl e, w2) \<Rightarrow> (Some (OtpRedis e), w2)
                             | (Inr _, w2) \<Rightarrow> (None, w2)))
              | (Inr _, w1) \<Rightarrow> (Some OtpChallengeInvalid, w1)))"

definition delete_challenge ::
    "'w redis \<Rightarrow> otp_lib \<Rightarrow> otp_store option \<Rightarrow> gotime \<Rightarrow> gostr \<Rightarrow> gostr \<Rightarrow> gostr \<Rightarrow> gostr \<Rightarrow>
     'w \<Rightarrow> otp_err option \<times> 'w" where
  "delete_challenge rdo lib ost now cid0 channel identifier0 purpose0 w =
     (case ost of None \<Rightarrow> (Some OtpNotConfigured, w)
      | Some st \<Rightarrow>
          let cid = trim_space cid0;
              identifier = trim_space identifier0;
              purpose = normalize_purpose (ol_lower lib) purpose0
          in if cid = [] \<or> identifier = [] \<or> \<not> valid_purpose (ol_lower lib) purpose then (None, w)
             else (case rdo now (Del [challenge_key st cid, resend_key st channel identifier purpose]) w of
                     (Inl e, w1) \<Rightarrow> (Some (OtpRedis e), w1)
                   | (Inr _, w1) \<Rightarrow> (None, w1)))"

section \<open>Verification tokens\<close>

definition create_verification_token ::
    "'w redis \<Rightarrow> otp_lib \<Rightarrow> otp_store option \<Rightarrow> gotime \<Rightarrow> gostr \<Rightarrow> gostr \<Rightarrow> gostr \<Rightarrow> gostr \<Rightarrow>
     'w \<Rightarrow> (otp_err + gostr \<times> int) \<times> 'w" where
  "create_verification_token rdo lib ost now token channel identifier purpose0 w =
     (case ost of None \<Rightarrow> (Inl OtpNotConfigured, w)
      | Some st \<Rightarrow>
          let purpose = normalize_purpose (ol_lower lib) purpose0;
              payload = \<lparr>vt_channel = channel, vt_identifier = trim_space identifier, vt_purpose = purpose,
                         vt_expires = now + ot_verification_ttl st\<rparr>
          in (case ol_enc_token lib payload of Inl e \<Rightarrow> (Inl (OtpMarshal e), w)
              | Inr raw \<Rightarrow>
                  (case rdo now (Set (verification_token_key st token) raw (ot_verification_ttl st)) w of
                     (Inl e, w1) \<Rightarrow> (Inl (OtpRedis e), w1)
                   | (Inr _, w1) \<Rightarrow> (Inr (token, ot_verification_ttl st div second), w1))))"

definition validate_verification_token ::
    "'w redis \<Rightarrow> otp_lib \<Rightarrow> otp_store option \<Rightarrow> gotime \<Rightarrow> gostr \<Rightarrow> gostr \<Rightarrow> gostr \<Rightarrow> gostr \<Rightarrow>
     'w \<Rightarrow> otp_err option \<times> 'w" where
  "validate_verification_token rdo lib ost now token0 channel identifier purpose w =
     (case ost of None \<Rightarrow> (Some OtpNotConfigured, w)
      | Some st \<Rightarrow>
          let token = trim_space token0 in
          if token = [] then (Some VerificationTokenRequired, w)
          else (case rdo now (Get (verification_token_key st token)) w of
                  (Inl e, w1) \<Rightarrow> (Some (OtpRedis e), w1)
                | (Inr (RStr raw), w1) \<Rightarrow>
                    (case ol_dec_token lib raw of Inl e \<Rightarrow> (Some (OtpUnmarshal e), w1)
                     | Inr p \<Rightarrow>
                         if vt_channel p \<noteq> channel \<or> vt_identifier p \<noteq> trim_space identifier \<or>
                            vt_purpose p \<noteq> normalize_purpose (ol_lower lib) purpose \<or> vt_expires p < now
                         then (Some VerificationTokenInvalid, w1) else (None, w1))
                | (Inr _, w1) \<Rightarrow> (Some VerificationTokenInvalid, w1)))"

definition consume_verification_token ::
    "'w redis \<Rightarrow> otp_store option \<Rightarrow> gotime \<Rightarrow> gostr \<Rightarrow> 'w \<Rightarrow> otp_err option \<times> 'w" where
  "consume_verification_token rdo ost now token0 w =
     (case ost of None \<Rightarrow> (Some OtpNotConfigured, w)
      | Some st \<Rightarrow>
          let token = trim_space token0 in
          if token = [] then (Some VerificationTokenRequired, w)
          else (case rdo now (Del [verification_token_key st token]) w of
                  (Inl e, w1) \<Rightarrow> (Some (OtpRedis e), w1)
                | (Inr r, w1) \<Rightarrow> if r = RInt 0 then (Some VerificationTokenInvalid, w1) else (None, w1)))"

section \<open>Identifiers\<close>

definition normalize_email :: "(rune \<Rightarrow> rune) \<Rightarrow> (gostr \<Rightarrow> bool) \<Rightarrow> gostr \<Rightarrow> otp_err + gostr" where
  "normalize_email lw is_address email0 =
     (let email = trim_space (to_lower lw email0) in
      if email = [] then Inl EmailRequired
      else if \<not> is_address email then Inl EmailInvalid
      else Inr email)"

definition normalize_cn_phone :: "gostr \<Rightarrow> otp_err + gostr" where
  "normalize_cn_phone phone =
     (let d0 = filter (\<lambda>r. 48 \<le> r \<and> r \<le> 57) phone;
          d1 = (if has_prefix d0 (lit ''0086'') then trim_prefix d0 (lit ''0086'') else d0);
          d2 = (if has_prefix d1 (lit ''86'') \<and> length d1 = 13 then trim_prefix d1 (lit ''86'') else d1)
      in if length d2 \<noteq> 11 \<or> \<not> has_prefix d2 (lit ''1'') then Inl PhoneInvalid
         else Inr (lit ''+86'' @ d2))"

definition normalize_identifier ::
    "(rune \<Rightarrow> rune) \<Rightarrow> (gostr \<Rightarrow> bool) \<Rightarrow> gostr \<Rightarrow> gostr \<Rightarrow> otp_err + gostr \<times> gostr" where
  "normalize_identifier lw is_address channel identifier =
     (let c0 = trim_space (to_lower lw channel);
          c = (if c0 = [] then (if str_contains identifier (lit ''@'') then lit ''email'' else lit ''phone'') else c0)
      in if c = lit ''email''
         then map_sum id (Pair (lit ''email'')) (normalize_email lw is_address identifier)
         else if c \<in> {lit ''phone'', lit ''sms''}
         then map_sum id (Pair (lit ''phone'')) (normalize_cn_phone identifier)
         else Inl ChannelInvalid)"

section \<open>Facts about the operations\<close>

lemma store_keys [simp]:
  "challenge_key st i \<noteq> resend_key st c d p" "challenge_key st i \<noteq> verification_token_key st t"
  "resend_key st c d p \<noteq> challenge_key st i" "verification_token_key st t \<noteq> challenge_key st i"
  "challenge_key st i = challenge_key st j \<longleftrightarrow> i = j"
  "verification_token_key st t = verification_token_key st u \<longleftrightarrow> t = u"
  by (simp_all add: challenge_key_def resend_key_def verification_token_key_def lit_Cons)

context redis_server
begin

lemma absent_kept:
  assumes "rdo now c w = (r, w')" "ks w k = None"
    and "case c of Get _ \<Rightarrow> True | Ttl _ \<Rightarrow> True | Del _ \<Rightarrow> True | Set k' _ _ \<Rightarrow> k' \<noteq> k | SetNX k' _ _ \<Rightarrow> k' \<noteq> k | _ \<Rightarrow> False"
  shows "ks w' k = None"
proof (cases r)
  case (Inl e)
  then show ?thesis using failure [of now c w e w'] assms by (cases c) auto
next
  case (Inr q)
  then show ?thesis using reply [of now c w q w'] assms by (cases c) (auto simp: reffect_def)
qed

lemma best_effort_absent:
  "ks w k = None \<Longrightarrow> case c of Get _ \<Rightarrow> True | Ttl _ \<Rightarrow> True | Del _ \<Rightarrow> True | Set k' _ _ \<Rightarrow> k' \<noteq> k
     | SetNX k' _ _ \<Rightarrow> k' \<noteq> k | _ \<Rightarrow> False \<Longrightarrow> ks (best_effort rdo now c w) k = None"
  unfolding best_effort_def using absent_kept [of now c w] by (metis prod.collapse)

lemma create_absent:
  assumes "create_challenge rdo lib (Some st) now gen nid ch idf pu w = (r, w')"
    and "ks w (challenge_key st cid) = None" "nid \<noteq> cid"
  shows "ks w' (challenge_key st cid) = None"
  using assms
  by (auto simp: create_challenge_def Let_def split: if_splits prod.splits sum.splits
      intro!: best_effort_absent elim!: absent_kept)

lemma delete_absent:
  assumes "delete_challenge rdo lib (Some st) now c ch idf pu w = (r, w')"
    and "ks w (challenge_key st cid) = None"
  shows "ks w' (challenge_key st cid) = None"
  using assms
  by (auto simp: delete_challenge_def Let_def split: if_splits prod.splits sum.splits dest: absent_kept)

lemma verify_absent:
  assumes "verify_challenge rdo lib (Some st) now c ch idf pu co w = (r, w')"
    and "ks w (challenge_key st cid) = None"
  shows "ks w' (challenge_key st cid) = None \<and> (trim_space c = cid \<longrightarrow> r \<noteq> None)"
proof -
  let ?key = "challenge_key st (trim_space c)"
  have keep: "ks w2 (challenge_key st cid) = None" if "rdo now (Get ?key) w = (q, w2)" for q w2
    using absent_kept [OF that assms(2)] by simp
  have count: "ks (count_attempt rdo lib now ?key cc w2) (challenge_key st cid) = None"
    if "ks w2 (challenge_key st cid) = None" "trim_space c \<noteq> cid" for w2 cc
    using that
    by (auto simp: count_attempt_def Let_def split: prod.splits sum.splits rreply.splits
        intro!: best_effort_absent elim!: absent_kept)
  show ?thesis
  proof (cases "trim_space c = cid")
    case True
    then show ?thesis
      using assms keep get_reply [of now ?key w]
      by (auto simp: verify_challenge_def Let_def live_def split: if_splits prod.splits sum.splits rreply.splits)
  next
    case False
    then show ?thesis
      using assms keep count
      by (auto simp: verify_challenge_def Let_def split: if_splits prod.splits sum.splits rreply.splits
          intro!: best_effort_absent elim!: absent_kept)
  qed
qed

lemma token_absent:
  assumes "ks w (challenge_key st cid) = None"
  shows "create_verification_token rdo lib (Some st) now t ch idf pu w = (r1, w1) \<Longrightarrow> ks w1 (challenge_key st cid) = None"
    and "validate_verification_token rdo lib (Some st) now t ch idf pu w = (r2, w2) \<Longrightarrow> ks w2 (challenge_key st cid) = None"
    and "consume_verification_token rdo (Some st) now t w = (r3, w3) \<Longrightarrow> ks w3 (challenge_key st cid) = None"
  using assms
  by (auto simp: create_verification_token_def validate_verification_token_def consume_verification_token_def
      Let_def split: if_splits prod.splits sum.splits rreply.splits elim!: absent_kept)

end

text \<open>Calls of the store, with any arguments; new challenges get IDs other than \<open>cid\<close>.\<close>

inductive otp_run :: "'w redis \<Rightarrow> otp_lib \<Rightarrow> otp_store \<Rightarrow> gostr \<Rightarrow> 'w \<Rightarrow> 'w \<Rightarrow> bool"
  for rdo lib st cid where
  otp_refl: "otp_run rdo lib st cid w w"
| otp_create:
    "otp_run rdo lib st cid w w1 \<Longrightarrow>
     create_challenge rdo lib (Some st) now gen nid ch idf pu w1 = (r, w2) \<Longrightarrow> nid \<noteq> cid \<Longrightarrow>
     otp_run rdo lib st cid w w2"
| otp_verify:
    "otp_run rdo lib st cid w w1 \<Longrightarrow> verify_challenge rdo lib (Some st) now c ch idf pu co w1 = (e, w2) \<Longrightarrow>
     otp_run rdo lib st cid w w2"
| otp_delete:
    "otp_run rdo lib st cid w w1 \<Longrightarrow> delete_challenge rdo lib (Some st) now c ch idf pu w1 = (e, w2) \<Longrightarrow>
     otp_run rdo lib st cid w w2"
| otp_token:
    "otp_run rdo lib st cid w w1 \<Longrightarrow>
     create_verification_token rdo lib (Some st) now t ch idf pu w1 = (q, w2) \<Longrightarrow> otp_run rdo lib st cid w w2"
| otp_validate:
    "otp_run rdo lib st cid w w1 \<Longrightarrow>
     validate_verification_token rdo lib (Some st) now t ch idf pu w1 = (e, w2) \<Longrightarrow> otp_run rdo lib st cid w w2"
| otp_consume:
    "otp_run rdo lib st cid w w1 \<Longrightarrow> consume_verification_token rdo (Some st) now t w1 = (e, w2) \<Longrightarrow>
     otp_run rdo lib st cid w w2"

context redis_server
begin

lemma run_absent:
  "otp_run rdo lib st cid w w' \<Longrightarrow> ks w (challenge_key st cid) = None \<Longrightarrow> ks w' (challenge_key st cid) = None"
proof (induction rule: otp_run.induct)
  case (otp_verify w w1 now c ch idf pu co e w2)
  then show ?case using verify_absent by blast
qed (auto dest: create_absent delete_absent token_absent)

lemma verified_absent:
  assumes "verify_challenge rdo lib (Some st) now c ch idf pu co w = (None, w')"
  shows "ks w' (challenge_key st (trim_space c)) = None"
  using assms
  by (auto simp: verify_challenge_def Let_def
      split: if_splits prod.splits sum.splits rreply.splits dest!: del_reply)

end

section \<open>Wrong guesses\<close>

text \<open>Guesses for one challenge, each at its time; what each call answered.\<close>

fun guess_all ::
    "'w redis \<Rightarrow> otp_lib \<Rightarrow> otp_store \<Rightarrow> gostr \<Rightarrow> gostr \<Rightarrow> gostr \<Rightarrow> gostr \<Rightarrow> (gotime \<times> gostr) list \<Rightarrow> 'w \<Rightarrow>
     otp_err option list \<times> 'w" where
  "guess_all rdo lib st cid ch idf pu [] w = ([], w)"
| "guess_all rdo lib st cid ch idf pu ((now, code) # gs) w =
     (let (e, w1) = verify_challenge rdo lib (Some st) now cid ch idf pu code w;
          (es, w2) = guess_all rdo lib st cid ch idf pu gs w1 in (e # es, w2))"

text \<open>
  The entry of a challenge after \<open>n\<close> counted guesses.  Every write rounds the rest of its life to
  seconds, so the bound on its deadline loses a second with each attempt.
\<close>

definition guessed :: "otp_lib \<Rightarrow> int \<Rightarrow> (rval \<times> gotime option) option \<Rightarrow> nat \<Rightarrow> bool" where
  "guessed lib m entry n \<longleftrightarrow>
     int n \<le> m \<and>
     (case entry of None \<Rightarrow> True
      | Some (VStr raw, Some d) \<Rightarrow>
          (\<exists>ch. ol_dec lib raw = Inr ch \<and> oc_max ch = m \<and> int n \<le> oc_attempts ch \<and>
             oc_expires ch + (m - oc_attempts ch) * second \<le> d)
      | _ \<Rightarrow> False)"

text \<open>The codec reads back what it wrote, and writes every challenge.\<close>

definition otp_codec :: "otp_lib \<Rightarrow> bool" where
  "otp_codec lib \<longleftrightarrow> (\<forall>ch. \<exists>raw. ol_enc lib ch = Inr raw \<and> ol_dec lib raw = Inr ch)"

lemma guess_step:
  assumes "verify_challenge faulty_redis lib (Some st) now cid ch idf pu co (K, []) = (e, w')"
    and "guessed lib m (K (challenge_key st (trim_space cid))) n" "otp_codec lib"
    and "e \<noteq> None"
  shows "\<exists>K'. w' = (K', []) \<and>
    guessed lib m (K' (challenge_key st (trim_space cid))) (if e = Some OtpCodeInvalid then Suc n else n)"
proof -
  let ?k = "challenge_key st (trim_space cid)"
  show ?thesis
  proof (cases "live now K ?k")
    case None
    then show ?thesis
      using assms by (auto simp: verify_challenge_def Let_def split: if_splits)
  next
    case (Some v)
    then obtain raw d c where K: "K ?k = Some (VStr raw, Some d)" "now < d" "v = VStr raw"
      and c: "ol_dec lib raw = Inr c" "oc_max c = m" "int n \<le> oc_attempts c"
        "oc_expires c + (m - oc_attempts c) * second \<le> d" and n: "int n \<le> m"
      using assms(2) by (cases v) (auto simp: guessed_def live_def split: option.splits if_splits)
    obtain raw2 where raw2: "ol_enc lib (c\<lparr>oc_attempts := oc_attempts c + 1\<rparr>) = Inr raw2"
        "ol_dec lib raw2 = Inr (c\<lparr>oc_attempts := oc_attempts c + 1\<rparr>)"
      using assms(3) unfolding otp_codec_def by blast
    show ?thesis
    proof (cases "e = Some OtpCodeInvalid")
      case False
      then show ?thesis
        using assms Some K c n
        by (auto simp: verify_challenge_def Let_def best_effort_def guessed_def split: if_splits)
    next
      case True
      then have w': "w' = count_attempt faulty_redis lib now ?k c (K, [])" and
        lt: "oc_attempts c < m" and t: "now \<le> oc_expires c"
        using assms(1) Some K c
        by (auto simp: verify_challenge_def Let_def split: if_splits)
      show ?thesis
      proof (cases "m \<le> oc_attempts c + 1")
        case True
        then show ?thesis
          using w' c lt \<open>e = _\<close> by (auto simp: count_attempt_def best_effort_def guessed_def)
      next
        case False
        have "second \<le> (m - oc_attempts c) * second" using False by (simp add: second_def)
        then have "0 < ttl_seconds (d - now)"
          using c(4) t by (intro ttl_seconds_bound(2)) linarith
        moreover have "oc_expires c + (m - (oc_attempts c + 1)) * second \<le> now + ttl_seconds (d - now)"
          using ttl_seconds_bound(1) [of "d - now"] c(4) by (simp add: algebra_simps)
        ultimately show ?thesis
          using w' c lt \<open>e = _\<close> False raw2 Some K
          by (auto simp: count_attempt_def best_effort_def guessed_def until_def deadline_def Let_def)
      qed
    qed
  qed
qed

lemma guess_all_bound:
  assumes "guess_all faulty_redis lib st cid ch idf pu gs (K, []) = (es, w')"
    and "guessed lib m (K (challenge_key st (trim_space cid))) n" "otp_codec lib" "None \<notin> set es"
  shows "int (n + length (filter (\<lambda>e. e = Some OtpCodeInvalid) es)) \<le> m"
  using assms
proof (induction gs arbitrary: K es n w')
  case Nil
  then show ?case by (simp add: guessed_def)
next
  case (Cons g gs)
  obtain e w1 where v: "verify_challenge faulty_redis lib (Some st) (fst g) cid ch idf pu (snd g) (K, []) = (e, w1)"
    using prod.exhaust by blast
  obtain es1 w2 where r: "guess_all faulty_redis lib st cid ch idf pu gs w1 = (es1, w2)"
    using prod.exhaust by blast
  have es: "es = e # es1" using Cons.prems(1) v r by (cases g) simp
  have "e \<noteq> None" using Cons.prems(4) es by (cases e) auto
  then obtain K' where K': "w1 = (K', [])"
      "guessed lib m (K' (challenge_key st (trim_space cid))) (if e = Some OtpCodeInvalid then Suc n else n)"
    using guess_step [OF v Cons.prems(2,3)] by blast
  have "int ((if e = Some OtpCodeInvalid then Suc n else n) +
      length (filter (\<lambda>e. e = Some OtpCodeInvalid) es1)) \<le> m"
    using Cons.IH [of K', OF _ K'(2) Cons.prems(3)] r K'(1) Cons.prems(4) es by auto
  then show ?case using es by (auto split: if_splits)
qed

section \<open>Properties\<close>

text \<open>
  Calls that follow one another: after a successful verification, every later verification of the same challenge
  fails, whatever calls of the store come between and whichever Redis commands fail, unless a new challenge is created
  with the same ID.  \<open>OtpRace\<close> has the calls that overlap.
\<close>

theorem otp_single_use_in_turn:
  assumes "redis_server rdo ks"
    and "verify_challenge rdo lib (Some st) now cid ch idf pu code w = (None, w1)"
    and "otp_run rdo lib st (trim_space cid) w1 w2"
    and "trim_space cid' = trim_space cid"
  shows "fst (verify_challenge rdo lib (Some st) now' cid' ch' idf' pu' code' w2) \<noteq> None"
proof -
  have "ks w2 (challenge_key st (trim_space cid)) = None"
    using redis_server.run_absent [OF assms(1,3)] redis_server.verified_absent [OF assms(1,2)] by simp
  then show ?thesis
    using redis_server.verify_absent [OF assms(1), of lib st now' cid' ch' idf' pu' code' w2] assms(4)
    by (metis prod.collapse)
qed

text \<open>A codec that writes the numbers of a challenge one after the other, and a store, for the examples.\<close>

definition demo_otp :: otp_store where
  "demo_otp =
     \<lparr>ot_prefix = lit ''p'', ot_challenge_ttl = 600 * second, ot_challenge_persist = 660 * second,
      ot_resend_after = 60 * second, ot_verification_ttl = 600 * second, ot_max_attempts = 5\<rparr>"

definition demo_challenge :: "int \<Rightarrow> otp_challenge" where
  "demo_challenge n =
     \<lparr>oc_id = lit ''c'', oc_channel = lit ''email'', oc_identifier = lit ''a'', oc_purpose = lit ''login'',
      oc_code_hash = lit ''123456'', oc_expires = 600 * second, oc_attempts = n, oc_max = 5\<rparr>"

definition enc_challenge :: "otp_challenge \<Rightarrow> gostr" where
  "enc_challenge c =
     length (oc_id c) # oc_id c @ length (oc_channel c) # oc_channel c @
     length (oc_identifier c) # oc_identifier c @ length (oc_purpose c) # oc_purpose c @
     length (oc_code_hash c) # oc_code_hash c @
     concat (map (\<lambda>i. [if i < 0 then 1 else 0, nat \<bar>i\<bar>]) [oc_expires c, oc_attempts c, oc_max c])"

fun take_str :: "gostr \<Rightarrow> gostr \<times> gostr" where
  "take_str [] = ([], [])"
| "take_str (n # xs) = (take n xs, drop n xs)"

fun take_num :: "gostr \<Rightarrow> int \<times> gostr" where
  "take_num (s # n # xs) = (if s = 1 then - int n else int n, xs)"
| "take_num xs = (0, [])"

definition dec_challenge :: "gostr \<Rightarrow> otp_challenge" where
  "dec_challenge t0 =
     (let (a, t1) = take_str t0; (b, t2) = take_str t1; (c, t3) = take_str t2; (d, t4) = take_str t3;
          (e, t5) = take_str t4; (x, t6) = take_num t5; (y, t7) = take_num t6; (z, t8) = take_num t7
      in \<lparr>oc_id = a, oc_channel = b, oc_identifier = c, oc_purpose = d, oc_code_hash = e, oc_expires = x,
          oc_attempts = y, oc_max = z\<rparr>)"

definition demo_otp_lib :: otp_lib where
  "demo_otp_lib =
     \<lparr>ol_enc = \<lambda>c. Inr (enc_challenge c), ol_dec = \<lambda>s. Inr (dec_challenge s),
      ol_enc_token = \<lambda>t. Inl [], ol_dec_token = \<lambda>s. Inl [], ol_hash = Inr, ol_compare = (=), ol_lower = id\<rparr>"

lemma dec_enc_challenge: "dec_challenge (enc_challenge c) = c"
  by (simp add: dec_challenge_def enc_challenge_def)

lemma demo_otp_codec: "otp_codec demo_otp_lib"
  by (simp add: otp_codec_def demo_otp_lib_def dec_enc_challenge)

lemma login_purpose: "normalize_purpose id (lit ''login'') = lit ''login''" "valid_purpose id (lit ''login'')"
  by (simp_all add: valid_purpose_def normalize_purpose_def to_lower_def lower_rune_def lit_Cons
      trim_space_fix is_space_def)

lemma otp_trims:
  "trim_space (lit ''c'') = lit ''c''" "trim_space (lit ''a'') = lit ''a''" "trim_space (lit ''123456'') = lit ''123456''"
  "trim_space (lit ''0'') = lit ''0''"
  by (simp_all add: lit_Cons trim_space_fix is_space_def)

lemma demo_verify:
  "verify_challenge faulty_redis demo_otp_lib (Some demo_otp) 0 (lit ''c'') (lit ''email'') (lit ''a'') (lit ''login'')
     (lit ''123456'') ([challenge_key demo_otp (lit ''c'') \<mapsto> (VStr (enc_challenge (demo_challenge 0)), Some (660 * second))], [])
   = (None, (Map.empty, []))"
  by (simp add: verify_challenge_def otp_trims login_purpose demo_otp_lib_def dec_enc_challenge live_def
      second_def Let_def)
    (simp add: demo_challenge_def second_def fun_eq_iff)

lemma demo_gone:
  "verify_challenge faulty_redis demo_otp_lib (Some demo_otp) t (lit ''c'') (lit ''email'') (lit ''a'') (lit ''login'')
     (lit ''0'') (Map.empty, []) = (Some OtpChallengeInvalid, (Map.empty, []))"
  by (simp add: verify_challenge_def otp_trims login_purpose demo_otp_lib_def live_def Let_def)

lemma demo_wrong:
  "verify_challenge faulty_redis demo_otp_lib (Some demo_otp) 0 (lit ''c'') (lit ''email'') (lit ''a'') (lit ''login'')
     (lit ''0'') ([challenge_key demo_otp (lit ''c'') \<mapsto> (VStr (enc_challenge (demo_challenge 4)), Some (660 * second))], [])
   = (Some OtpCodeInvalid, (Map.empty, []))"
  by (simp add: verify_challenge_def otp_trims login_purpose demo_otp_lib_def dec_enc_challenge live_def
      second_def Let_def)
    (simp add: demo_challenge_def second_def fun_eq_iff count_attempt_def best_effort_def)

theorem otp_single_use_in_turn_witness:
  "fst (verify_challenge faulty_redis demo_otp_lib (Some demo_otp) 1 (lit ''c'') (lit ''email'') (lit ''a'')
     (lit ''login'') (lit ''123456'') (Map.empty, [])) \<noteq> None"
  by (rule otp_single_use_in_turn [OF redis_server_faulty demo_verify otp_refl refl])

text \<open>
  Guesses that follow one another: a challenge survives at most its limit of wrong guesses.  While the store works, of
  any sequence of guesses that never finds the code, at most \<open>MaxAttempt\<close> (less the attempts already counted) are
  compared with it; all later ones are turned away.
\<close>

theorem otp_guess_limit:
  assumes "otp_codec lib"
    and "K (challenge_key st (trim_space cid)) = Some (VStr raw, Some d)" and "ol_dec lib raw = Inr c"
    and "0 \<le> oc_attempts c" and "oc_attempts c \<le> oc_max c"
    and "oc_expires c + (oc_max c - oc_attempts c) * second \<le> d"
    and "guess_all faulty_redis lib st cid ch idf pu gs (K, []) = (es, w')" and "None \<notin> set es"
  shows "int (length (filter (\<lambda>e. e = Some OtpCodeInvalid) es)) \<le> oc_max c - oc_attempts c"
proof -
  have "guessed lib (oc_max c) (K (challenge_key st (trim_space cid))) (nat (oc_attempts c))"
    using assms by (simp add: guessed_def)
  from guess_all_bound [OF assms(7) this assms(1,8)] show ?thesis using assms(4) by simp
qed

theorem otp_guess_limit_witness:
  "int (length (filter (\<lambda>e. e = Some OtpCodeInvalid)
     (fst (guess_all faulty_redis demo_otp_lib demo_otp (lit ''c'') (lit ''email'') (lit ''a'') (lit ''login'')
        [(0, lit ''0''), (1, lit ''0'')]
        ([challenge_key demo_otp (lit ''c'') \<mapsto> (VStr (enc_challenge (demo_challenge 4)), Some (660 * second))], [])))))
    \<le> 1"
proof -
  let ?K = "[challenge_key demo_otp (lit ''c'') \<mapsto> (VStr (enc_challenge (demo_challenge 4)), Some (660 * second))]"
  let ?g = "guess_all faulty_redis demo_otp_lib demo_otp (lit ''c'') (lit ''email'') (lit ''a'') (lit ''login'')
      [(0, lit ''0''), (1, lit ''0'')] (?K, [])"
  have g: "?g = ([Some OtpCodeInvalid, Some OtpChallengeInvalid], (Map.empty, []))"
    by (simp add: demo_wrong demo_gone)
  show ?thesis
    using otp_guess_limit [OF demo_otp_codec, of ?K demo_otp "lit ''c''" "enc_challenge (demo_challenge 4)"
        "660 * second" "demo_challenge 4", OF _ _ _ _ _ g]
    unfolding g by (simp add: otp_trims demo_otp_lib_def dec_enc_challenge demo_challenge_def second_def)
qed

text \<open>
  A normalised phone number is a fixed point.  The normal form is \<open>+86\<close>, a one and ten more digits,
  and normalising it again gives the same number.
\<close>

theorem phone_normal_form:
  assumes "normalize_cn_phone p = Inr q"
  shows "normalize_cn_phone q = Inr q \<and> (\<exists>ds. q = lit ''+861'' @ ds \<and> length ds = 10 \<and> (\<forall>r\<in>set ds. 48 \<le> r \<and> r \<le> 57))"
proof -
  define d0 where "d0 = filter (\<lambda>r. 48 \<le> r \<and> r \<le> 57) p"
  define d1 where "d1 = (if has_prefix d0 (lit ''0086'') then trim_prefix d0 (lit ''0086'') else d0)"
  define d2 where "d2 = (if has_prefix d1 (lit ''86'') \<and> length d1 = 13 then trim_prefix d1 (lit ''86'') else d1)"
  have "normalize_cn_phone p =
      (if length d2 \<noteq> 11 \<or> \<not> has_prefix d2 (lit ''1'') then Inl PhoneInvalid else Inr (lit ''+86'' @ d2))"
    unfolding normalize_cn_phone_def Let_def d2_def d1_def d0_def by (rule refl)
  then have q: "q = lit ''+86'' @ d2" "length d2 = 11" "has_prefix d2 (lit ''1'')"
    using assms by (simp_all split: if_splits)
  have "\<forall>r\<in>set d0. 48 \<le> r \<and> r \<le> 57" by (simp add: d0_def)
  then have "\<forall>r\<in>set d1. 48 \<le> r \<and> r \<le> 57" by (auto simp: d1_def trim_prefix_def dest: in_set_dropD)
  then have digits: "\<forall>r\<in>set d2. 48 \<le> r \<and> r \<le> 57" by (auto simp: d2_def trim_prefix_def dest: in_set_dropD)
  obtain ds where ds: "d2 = 49 # ds" using q(2,3) by (cases d2) (auto simp: has_prefix_def lit_Cons)
  have "filter (\<lambda>r. 48 \<le> r \<and> r \<le> 57) q = lit ''86'' @ d2"
    using digits by (simp add: q(1) lit_Cons filter_id_conv)
  then have "normalize_cn_phone q = Inr q"
    using q(2) by (simp add: normalize_cn_phone_def q(1) ds has_prefix_def trim_prefix_def lit_Cons)
  then show ?thesis using q ds digits by (auto simp: lit_Cons)
qed

theorem phone_normal_form_witness:
  "normalize_cn_phone (lit ''+8613800138000'') = Inr (lit ''+8613800138000'') \<and>
   (\<exists>ds. lit ''+8613800138000'' = lit ''+861'' @ ds \<and> length ds = 10 \<and> (\<forall>r\<in>set ds. 48 \<le> r \<and> r \<le> 57))"
  by (rule phone_normal_form [of "lit ''138-0013-8000''"])
    (simp add: normalize_cn_phone_def has_prefix_def lit_Cons)

end
