(* ===== verification/OtpRace.thy ===== *)
theory OtpRace
  imports OtpStore
begin

text \<open>
  \<open>VerifyChallenge\<close> of \<open>backend/services/auth/internal/server/otp_store.go\<close> one Redis command at a time, and
  requests that run at once: the commands of a request interleave with those of every other one.
\<close>

section \<open>The steps of a verification\<close>

record verify_call =
  vq_id :: gostr
  vq_channel :: gostr
  vq_identifier :: gostr
  vq_purpose :: gostr
  vq_code :: gostr

text \<open>
  Where a request is: before its \<open>GET\<close>; a wrong code before the \<open>TTL\<close>, with the counted challenge, or before the
  \<open>SET\<close>; before the \<open>DEL\<close> of a challenge that is used up, with its error; before the \<open>DEL\<close> of an accepted code.
\<close>

datatype verify_phase =
    VerifyStart
  | VerifyCount gostr
  | VerifyStore gostr duration
  | VerifyDrop otp_err
  | VerifyAccept
  | VerifyDone "otp_err option"

text \<open>What follows from the challenge that was read.\<close>

definition verify_read :: "otp_lib \<Rightarrow> gotime \<Rightarrow> verify_call \<Rightarrow> gostr \<Rightarrow> verify_phase" where
  "verify_read lib now q raw =
     (case ol_dec lib raw of
        Inl e \<Rightarrow> VerifyDone (Some (OtpUnmarshal e))
      | Inr ch \<Rightarrow>
          if oc_id ch = [] \<or> oc_channel ch \<noteq> vq_channel q \<or> oc_identifier ch \<noteq> trim_space (vq_identifier q) \<or>
             oc_purpose ch \<noteq> normalize_purpose (ol_lower lib) (vq_purpose q)
          then VerifyDone (Some OtpChallengeInvalid)
          else if oc_expires ch < now then VerifyDrop OtpCodeExpired
          else if oc_max ch \<le> oc_attempts ch then VerifyDrop OtpChallengeInvalid
          else if ol_compare lib (oc_code_hash ch) (trim_space (vq_code q)) then VerifyAccept
          else
            (let counted = ch\<lparr>oc_attempts := oc_attempts ch + 1\<rparr> in
             if oc_max ch \<le> oc_attempts counted then VerifyDrop OtpCodeInvalid
             else case ol_enc lib counted of Inl _ \<Rightarrow> VerifyDone (Some OtpCodeInvalid) | Inr raw' \<Rightarrow> VerifyCount raw'))"

text \<open>A step sends at most one command.\<close>

definition verify_step ::
    "'w redis \<Rightarrow> otp_lib \<Rightarrow> otp_store \<Rightarrow> gotime \<Rightarrow> verify_call \<Rightarrow> verify_phase \<Rightarrow> 'w \<Rightarrow> verify_phase \<times> 'w" where
  "verify_step rdo lib st now q p w =
     (let key = challenge_key st (trim_space (vq_id q)) in
      case p of
        VerifyStart \<Rightarrow>
          if trim_space (vq_id q) = [] then (VerifyDone (Some OtpChallengeRequired), w)
          else if \<not> valid_purpose (ol_lower lib) (normalize_purpose (ol_lower lib) (vq_purpose q))
          then (VerifyDone (Some OtpPurposeInvalid), w)
          else if trim_space (vq_identifier q) = [] then (VerifyDone (Some IdentifierRequired), w)
          else if trim_space (vq_code q) = [] then (VerifyDone (Some OtpCodeRequired), w)
          else (case rdo now (Get key) w of
                  (Inl e, w1) \<Rightarrow> (VerifyDone (Some (OtpRedis e)), w1)
                | (Inr (RStr raw), w1) \<Rightarrow> (verify_read lib now q raw, w1)
                | (Inr _, w1) \<Rightarrow> (VerifyDone (Some OtpChallengeInvalid), w1))
      | VerifyCount raw \<Rightarrow>
          (case rdo now (Ttl key) w of
             (Inr (RInt ttl), w1) \<Rightarrow> (if 0 < ttl then VerifyStore raw ttl else VerifyDone (Some OtpCodeInvalid), w1)
           | (_, w1) \<Rightarrow> (VerifyDone (Some OtpCodeInvalid), w1))
      | VerifyStore raw ttl \<Rightarrow> (VerifyDone (Some OtpCodeInvalid), best_effort rdo now (Set key raw ttl) w)
      | VerifyDrop e \<Rightarrow> (VerifyDone (Some e), best_effort rdo now (Del [key]) w)
      | VerifyAccept \<Rightarrow>
          (case rdo now (Del [key]) w of
             (Inl e, w1) \<Rightarrow> (VerifyDone (Some (OtpRedis e)), w1)
           | (Inr _, w1) \<Rightarrow> (VerifyDone None, w1))
      | VerifyDone e \<Rightarrow> (VerifyDone e, w))"

text \<open>A request that runs alone takes three steps.\<close>

definition verify_alone ::
    "'w redis \<Rightarrow> otp_lib \<Rightarrow> otp_store \<Rightarrow> gotime \<Rightarrow> verify_call \<Rightarrow> 'w \<Rightarrow> verify_phase \<times> 'w" where
  "verify_alone rdo lib st now q w =
     (let (p1, w1) = verify_step rdo lib st now q VerifyStart w; (p2, w2) = verify_step rdo lib st now q p1 w1
      in verify_step rdo lib st now q p2 w2)"

lemma verify_step_done [simp]: "verify_step rdo lib st now q (VerifyDone e) w = (VerifyDone e, w)"
  by (simp add: verify_step_def)

lemma verify_step_drop [simp]:
  "verify_step rdo lib st now q (VerifyDrop e) w =
   (VerifyDone (Some e), best_effort rdo now (Del [challenge_key st (trim_space (vq_id q))]) w)"
  by (simp add: verify_step_def)

lemma verify_step_store [simp]:
  "verify_step rdo lib st now q (VerifyStore raw ttl) w =
   (VerifyDone (Some OtpCodeInvalid), best_effort rdo now (Set (challenge_key st (trim_space (vq_id q))) raw ttl) w)"
  by (simp add: verify_step_def)

text \<open>Counting a wrong guess.\<close>

lemma count_steps:
  assumes "ol_enc lib (ch\<lparr>oc_attempts := oc_attempts ch + 1\<rparr>) = Inr raw" "\<not> oc_max ch \<le> oc_attempts ch + 1"
  shows "(let (p2, w2) = verify_step rdo lib st now q (VerifyCount raw) w in verify_step rdo lib st now q p2 w2) =
    (VerifyDone (Some OtpCodeInvalid), count_attempt rdo lib now (challenge_key st (trim_space (vq_id q))) ch w)"
proof -
  obtain r w1 where r: "rdo now (Ttl (challenge_key st (trim_space (vq_id q)))) w = (r, w1)" by (metis surj_pair)
  show ?thesis
    using assms by (cases r) (auto simp: count_attempt_def verify_step_def [of _ _ _ _ _ "VerifyCount raw"] r Let_def split: rreply.split)
qed

text \<open>
  The steps of a verification are the verification.  A request whose steps no other request interrupts answers
  what \<open>VerifyChallenge\<close> answers, and leaves Redis as it does, whatever the server replies.
\<close>

theorem otp_verify_steps:
  "verify_alone rdo lib st now q w =
   (case verify_challenge rdo lib (Some st) now (vq_id q) (vq_channel q) (vq_identifier q) (vq_purpose q) (vq_code q) w of
      (e, w') \<Rightarrow> (VerifyDone e, w'))"
proof -
  let ?key = "challenge_key st (trim_space (vq_id q))"
  obtain g w1 where g: "rdo now (Get ?key) w = (g, w1)" by (metis surj_pair)
  show ?thesis
  proof (cases "trim_space (vq_id q) = [] \<or> \<not> valid_purpose (ol_lower lib) (normalize_purpose (ol_lower lib) (vq_purpose q)) \<or>
      trim_space (vq_identifier q) = [] \<or> trim_space (vq_code q) = [] \<or> \<not> (\<exists>raw ch. g = Inr (RStr raw) \<and> ol_dec lib raw = Inr ch)")
    case True
    then show ?thesis
      by (auto simp: verify_alone_def verify_challenge_def verify_step_def [of _ _ _ _ _ VerifyStart] verify_read_def g Let_def
          split: sum.split rreply.split)
  next
    case False
    then obtain raw ch where raw: "g = Inr (RStr raw)" "ol_dec lib raw = Inr ch" by blast
    have start: "verify_step rdo lib st now q VerifyStart w = (verify_read lib now q raw, w1)"
      using False g raw by (simp add: verify_step_def Let_def)
    let ?v = "verify_challenge rdo lib (Some st) now (vq_id q) (vq_channel q) (vq_identifier q) (vq_purpose q) (vq_code q) w"
    let ?wrong = "oc_id ch = [] \<or> oc_channel ch \<noteq> vq_channel q \<or> oc_identifier ch \<noteq> trim_space (vq_identifier q) \<or>
             oc_purpose ch \<noteq> normalize_purpose (ol_lower lib) (vq_purpose q)"
    have v: "?v = (if ?wrong then (Some OtpChallengeInvalid, w1)
        else if oc_expires ch < now then (Some OtpCodeExpired, best_effort rdo now (Del [?key]) w1)
        else if oc_max ch \<le> oc_attempts ch then (Some OtpChallengeInvalid, best_effort rdo now (Del [?key]) w1)
        else if \<not> ol_compare lib (oc_code_hash ch) (trim_space (vq_code q))
        then (Some OtpCodeInvalid, count_attempt rdo lib now ?key ch w1)
        else case rdo now (Del [?key]) w1 of (Inl e, w2) \<Rightarrow> (Some (OtpRedis e), w2) | (Inr _, w2) \<Rightarrow> (None, w2))"
      using False g raw by (simp add: verify_challenge_def Let_def)
    show ?thesis
    proof (cases "?wrong \<or> oc_expires ch < now \<or> oc_max ch \<le> oc_attempts ch \<or> ol_compare lib (oc_code_hash ch) (trim_space (vq_code q))")
      case True
      then show ?thesis unfolding verify_alone_def start v
        by (auto simp: verify_read_def raw verify_step_def [of _ _ _ _ _ VerifyAccept] split: prod.split sum.split)
    next
      case fails: False
      show ?thesis
      proof (cases "\<exists>r. \<not> oc_max ch \<le> oc_attempts ch + 1 \<and> ol_enc lib (ch\<lparr>oc_attempts := oc_attempts ch + 1\<rparr>) = Inr r")
        case True
        then obtain r where r: "\<not> oc_max ch \<le> oc_attempts ch + 1" "ol_enc lib (ch\<lparr>oc_attempts := oc_attempts ch + 1\<rparr>) = Inr r" by blast
        have "verify_read lib now q raw = VerifyCount r" using fails r raw by (simp add: verify_read_def)
        then show ?thesis using fails count_steps [OF r(2,1)] unfolding verify_alone_def start v by simp
      next
        case no: False
        show ?thesis using fails no unfolding verify_alone_def start v
          by (auto simp: verify_read_def raw count_attempt_def Let_def split: sum.split)
      qed
    qed
  qed
qed

section \<open>Requests that run at once\<close>

text \<open>Before the last command of an accepted code, or before a counted challenge is written back.\<close>

definition in_flight :: "verify_phase \<Rightarrow> bool" where
  "in_flight p \<longleftrightarrow> (case p of VerifyAccept \<Rightarrow> True | VerifyStore _ _ \<Rightarrow> True | _ \<Rightarrow> False)"

text \<open>The commands that the other operations send; none of them writes the challenge \<open>cid\<close>.\<close>

definition other_command :: "gostr \<Rightarrow> rcmd \<Rightarrow> bool" where
  "other_command k c \<longleftrightarrow>
     (case c of Get _ \<Rightarrow> True | Ttl _ \<Rightarrow> True | Del _ \<Rightarrow> True | Set k' _ _ \<Rightarrow> k' \<noteq> k | SetNX k' _ _ \<Rightarrow> k' \<noteq> k | _ \<Rightarrow> False)"

text \<open>
  Any number of verifications, numbered, each with its call, and single commands of other operations, in any order and
  at any times; \<open>ph\<close> says where each verification is.
\<close>

inductive otp_system ::
    "'w redis \<Rightarrow> otp_lib \<Rightarrow> otp_store \<Rightarrow> gostr \<Rightarrow> (nat \<Rightarrow> verify_call) \<Rightarrow>
     (nat \<Rightarrow> verify_phase) \<Rightarrow> 'w \<Rightarrow> (nat \<Rightarrow> verify_phase) \<Rightarrow> 'w \<Rightarrow> bool"
  for rdo lib st cid calls ph w where
  sys_refl: "otp_system rdo lib st cid calls ph w ph w"
| sys_verify:
    "otp_system rdo lib st cid calls ph w ph1 w1 \<Longrightarrow> verify_step rdo lib st now (calls i) (ph1 i) w1 = (p, w2) \<Longrightarrow>
     otp_system rdo lib st cid calls ph w (ph1(i := p)) w2"
| sys_other:
    "otp_system rdo lib st cid calls ph w ph1 w1 \<Longrightarrow> rdo now c w1 = (r, w2) \<Longrightarrow> other_command (challenge_key st cid) c \<Longrightarrow>
     otp_system rdo lib st cid calls ph w ph1 w2"

lemma read_not_store [simp]: "verify_read lib now q raw \<noteq> VerifyStore r ttl" "verify_read lib now q raw \<noteq> VerifyDone None"
  by (auto simp: verify_read_def Let_def split: sum.split)

context redis_server
begin

text \<open>While the challenge is absent, a request that is not in flight is not accepted.\<close>

lemma step_absent:
  assumes "verify_step rdo lib st now q p w = (p', w')" "ks w (challenge_key st cid) = None"
    and "trim_space (vq_id q) = cid \<Longrightarrow> \<not> in_flight p"
  shows "ks w' (challenge_key st cid) = None \<and>
    (trim_space (vq_id q) = cid \<longrightarrow> \<not> in_flight p' \<and> (p' = VerifyDone None \<longrightarrow> p = VerifyDone None))"
proof (cases "trim_space (vq_id q) = cid")
  case True
  let ?k = "challenge_key st (trim_space (vq_id q))"
  have k: "ks w ?k = None" using assms(2) True by simp
  show ?thesis
  proof (cases p)
    case VerifyStart
    then show ?thesis
      using assms(1,2) True get_reply [of now ?k w] k absent_kept [of now "Get ?k" w]
      by (auto simp: verify_step_def in_flight_def live_def Let_def split: if_splits prod.splits sum.splits rreply.splits)
  next
    case (VerifyCount raw)
    then show ?thesis
      using assms(1,2) True ttl_reply [of now ?k w] k absent_kept [of now "Ttl ?k" w]
      by (auto simp: verify_step_def in_flight_def live_def Let_def split: if_splits prod.splits sum.splits rreply.splits)
  next
    case (VerifyDrop e)
    then show ?thesis using assms(1,2) True by (auto simp: in_flight_def intro: best_effort_absent)
  qed (use assms True in \<open>auto simp: in_flight_def\<close>)
next
  case False
  let ?k = "challenge_key st (trim_space (vq_id q))"
  have "ks w1 (challenge_key st cid) = None" if "rdo now (Get ?k) w = (r, w1) \<or> rdo now (Ttl ?k) w = (r, w1) \<or> rdo now (Del [?k]) w = (r, w1)" for r w1
    using that absent_kept [OF _ assms(2), of now _ r w1] by auto
  then show ?thesis
    using assms(1,2) False
    by (cases p) (auto simp: verify_step_def Let_def split: if_splits prod.splits sum.splits rreply.splits intro!: best_effort_absent)
qed

lemma system_absent:
  assumes "otp_system rdo lib st cid calls ph w ph' w'" "ks w (challenge_key st cid) = None"
    and "\<And>j. trim_space (vq_id (calls j)) = cid \<Longrightarrow> \<not> in_flight (ph j)"
  shows "ks w' (challenge_key st cid) = None \<and>
    (\<forall>j. trim_space (vq_id (calls j)) = cid \<longrightarrow> \<not> in_flight (ph' j) \<and> (ph' j = VerifyDone None \<longrightarrow> ph j = VerifyDone None))"
  using assms(1)
proof (induction rule: otp_system.induct)
  case sys_refl
  then show ?case using assms(2,3) by blast
next
  case (sys_verify ph1 w1 now i p w2)
  then show ?case using step_absent [OF sys_verify.hyps(2), of cid] by auto
next
  case (sys_other ph1 w1 now c r w2)
  then show ?case using absent_kept [OF sys_other.hyps(2), of "challenge_key st cid"] by (auto simp: other_command_def)
qed

lemma accepted_absent:
  "verify_step rdo lib st now q VerifyAccept w = (VerifyDone None, w') \<Longrightarrow> ks w' (challenge_key st (trim_space (vq_id q))) = None"
  by (auto simp: verify_step_def Let_def split: prod.splits sum.splits dest!: del_reply)

end

section \<open>Properties\<close>

text \<open>
  C7: a code that is accepted works once, unless another request is already past its check.  When the \<open>DEL\<close> of an
  accepted verification is answered, and no other request on the challenge is just then between its check and its own
  \<open>DEL\<close>, or between counting a wrong guess and writing it back, no other request on the challenge is ever accepted:
  whatever requests run from then on, however their commands interleave and whichever of them fail, unless a challenge
  is created with the same ID.
\<close>

theorem otp_single_use:
  assumes "redis_server rdo ks" "trim_space (vq_id (calls i)) = cid"
    and "verify_step rdo lib st now (calls i) VerifyAccept w = (VerifyDone None, w1)"
    and "\<And>j. j \<noteq> i \<Longrightarrow> trim_space (vq_id (calls j)) = cid \<Longrightarrow> \<not> in_flight (ph j)"
    and "otp_system rdo lib st cid calls (ph(i := VerifyDone None)) w1 ph' w2"
    and "j \<noteq> i" "trim_space (vq_id (calls j)) = cid" "ph j \<noteq> VerifyDone None"
  shows "ph' j \<noteq> VerifyDone None"
proof -
  have "ks w1 (challenge_key st cid) = None" using redis_server.accepted_absent [OF assms(1,3)] assms(2) by simp
  moreover have "\<not> in_flight ((ph(i := VerifyDone None)) j)" if "trim_space (vq_id (calls j)) = cid" for j
    using assms(4) [OF _ that] by (cases "j = i") (auto simp: in_flight_def)
  ultimately show ?thesis
    using redis_server.system_absent [OF assms(1,5)] assms(6-8) by fastforce
qed

text \<open>A login code, sent by two requests; the second one comes when the first is done.\<close>

definition demo_call :: "string \<Rightarrow> verify_call" where
  "demo_call code = \<lparr>vq_id = lit ''c'', vq_channel = lit ''email'', vq_identifier = lit ''a'', vq_purpose = lit ''login'', vq_code = lit code\<rparr>"

definition demo_challenges :: "int \<Rightarrow> keyspace" where
  "demo_challenges n = [challenge_key demo_otp (lit ''c'') \<mapsto> (VStr (enc_challenge (demo_challenge n)), Some (660 * second))]"

lemma demo_accept:
  "verify_step faulty_redis demo_otp_lib demo_otp 0 (demo_call ''123456'') VerifyAccept (demo_challenges 0, []) = (VerifyDone None, (Map.empty, []))"
  by (simp add: verify_step_def demo_call_def demo_challenges_def otp_trims fun_eq_iff)

theorem otp_single_use_witness:
  "fst (verify_step faulty_redis demo_otp_lib demo_otp 1 (demo_call ''123456'') VerifyStart (Map.empty, [])) \<noteq> VerifyDone None"
proof -
  let ?ph = "(\<lambda>_ :: nat. VerifyStart)(0 := VerifyAccept)" and ?s = "verify_step faulty_redis demo_otp_lib demo_otp 1 (demo_call ''123456'') VerifyStart (Map.empty, [])"
  have run: "otp_system faulty_redis demo_otp_lib demo_otp (lit ''c'') (\<lambda>_. demo_call ''123456'') (?ph(0 := VerifyDone None)) (Map.empty, [])
      ((?ph(0 := VerifyDone None))(1 := fst ?s)) (snd ?s)"
    by (rule sys_verify [OF sys_refl, where i = 1 and now = 1]) simp
  have "((?ph(0 := VerifyDone None))(1 := fst ?s)) 1 \<noteq> VerifyDone None"
    by (rule otp_single_use [where calls = "\<lambda>_. demo_call ''123456''" and ph = ?ph and i = 0 and j = 1
        and ph' = "(?ph(0 := VerifyDone None))(1 := fst ?s)", OF redis_server_faulty _ demo_accept _ run])
      (simp_all add: demo_call_def otp_trims in_flight_def)
  then show ?thesis by simp
qed

text \<open>
  C12: a code works twice when two requests overlap.  On a server that does not fail, if each of two requests alone would
  be accepted now, both are accepted when their commands alternate: both have read the challenge before the first of them
  deletes it, and neither looks whether its own \<open>DEL\<close> deleted anything.
\<close>

theorem otp_code_used_twice:
  assumes "fst (verify_challenge faulty_redis lib (Some st) now (vq_id q) (vq_channel q) (vq_identifier q) (vq_purpose q) (vq_code q) (K, [])) = None"
    and "fst (verify_challenge faulty_redis lib (Some st) now (vq_id q') (vq_channel q') (vq_identifier q') (vq_purpose q') (vq_code q') (K, [])) = None"
  shows "let step = verify_step faulty_redis lib st now; (p, w1) = step q VerifyStart (K, []); (p', w2) = step q' VerifyStart w1;
      (r, w3) = step q p w2; (r', w4) = step q' p' w3
    in r = VerifyDone None \<and> r' = VerifyDone None"
proof -
  have start: "verify_step faulty_redis lib st now q VerifyStart (K, []) = (VerifyAccept, (K, []))"
    if "fst (verify_challenge faulty_redis lib (Some st) now (vq_id q) (vq_channel q) (vq_identifier q) (vq_purpose q) (vq_code q) (K, [])) = None" for q
    using that
    by (auto simp: verify_challenge_def verify_step_def verify_read_def Let_def split: if_splits option.splits rval.splits sum.splits)
  show ?thesis
    unfolding Let_def start [OF assms(1)] prod.case start [OF assms(2)] by (simp add: verify_step_def)
qed

theorem otp_code_used_twice_witness:
  "let step = verify_step faulty_redis demo_otp_lib demo_otp 0; q = demo_call ''123456'';
      (p, w1) = step q VerifyStart (demo_challenges 0, []); (p', w2) = step q VerifyStart w1; (r, w3) = step q p w2; (r', w4) = step q p' w3
    in r = VerifyDone None \<and> r' = VerifyDone None"
  using otp_code_used_twice [of demo_otp_lib demo_otp 0 "demo_call ''123456''" "demo_challenges 0" "demo_call ''123456''"] demo_verify
  by (simp add: demo_call_def demo_challenges_def Let_def)

text \<open>Every request takes its next step, one after the other.\<close>

fun verify_round ::
    "'w redis \<Rightarrow> otp_lib \<Rightarrow> otp_store \<Rightarrow> gotime \<Rightarrow> verify_call list \<Rightarrow> verify_phase list \<Rightarrow> 'w \<Rightarrow> verify_phase list \<times> 'w" where
  "verify_round rdo lib st now (q # qs) (p # ps) w =
     (let (p', w1) = verify_step rdo lib st now q p w; (ps', w2) = verify_round rdo lib st now qs ps w1 in (p' # ps', w2))"
| "verify_round rdo lib st now _ _ w = ([], w)"

lemma round_keeps:
  "(\<And>q. q \<in> set qs \<Longrightarrow> verify_step rdo lib st now q p w = (p', w)) \<Longrightarrow>
   verify_round rdo lib st now qs (replicate (length qs) p) w = (replicate (length qs) p', w)"
  by (induction qs) simp_all

lemma round_stores:
  assumes "\<And>q. q \<in> set qs \<Longrightarrow> trim_space (vq_id q) = cid" "qs \<noteq> []"
  shows "verify_round faulty_redis lib st now qs (replicate (length qs) (VerifyStore raw ttl)) (K, []) =
    (replicate (length qs) (VerifyDone (Some OtpCodeInvalid)), (K(challenge_key st cid \<mapsto> (VStr raw, until now ttl)), []))"
  using assms
proof (induction qs arbitrary: K)
  case (Cons q qs)
  then show ?case by (cases "qs = []") (simp_all add: best_effort_def fun_eq_iff)
qed simp

text \<open>
  C13: wrong guesses that overlap count as one.  On a server that does not fail, any number of wrong guesses at a challenge
  with at least two attempts left that read it at the same time are all compared with the code, and the challenge that
  they leave has lost one attempt: the limit of attempts does not bound the guesses.
\<close>

theorem otp_guesses_race:
  assumes "otp_codec lib" "K (challenge_key st cid) = Some (VStr raw, Some d)" "ol_dec lib raw = Inr c" "now + second \<le> d"
    and "oc_attempts c + 1 < oc_max c" "qs \<noteq> []"
    and "list_all (\<lambda>q. trim_space (vq_id q) = cid \<and> fst (verify_challenge faulty_redis lib (Some st) now (vq_id q) (vq_channel q)
      (vq_identifier q) (vq_purpose q) (vq_code q) (K, [])) = Some OtpCodeInvalid) qs"
  shows "let round = verify_round faulty_redis lib st now qs; (ps, w1) = round (replicate (length qs) VerifyStart) (K, []);
      (ps', w2) = round ps w1; (ps'', (K', fs)) = round ps' w2
    in ps'' = replicate (length qs) (VerifyDone (Some OtpCodeInvalid)) \<and>
      (case K' (challenge_key st cid) of
         Some (VStr raw', _) \<Rightarrow> ol_dec lib raw' = Inr (c\<lparr>oc_attempts := oc_attempts c + 1\<rparr>)
       | _ \<Rightarrow> False)"
proof -
  obtain raw' where raw': "ol_enc lib (c\<lparr>oc_attempts := oc_attempts c + 1\<rparr>) = Inr raw'"
      "ol_dec lib raw' = Inr (c\<lparr>oc_attempts := oc_attempts c + 1\<rparr>)"
    using assms(1) unfolding otp_codec_def by blast
  have live: "live now K (challenge_key st cid) = Some (VStr raw)"
    using assms(2,4) by (simp add: live_def second_def)
  let ?ttl = "ttl_seconds (d - now)"
  have "0 < ?ttl" using assms(4) by (intro ttl_seconds_bound(2)) simp
  have one: "verify_step faulty_redis lib st now q VerifyStart (K, []) = (VerifyCount raw', (K, []))"
    "verify_step faulty_redis lib st now q (VerifyCount raw') (K, []) = (VerifyStore raw' ?ttl, (K, []))" if "q \<in> set qs" for q
  proof -
    have q: "trim_space (vq_id q) = cid" "fst (verify_challenge faulty_redis lib (Some st) now (vq_id q) (vq_channel q)
        (vq_identifier q) (vq_purpose q) (vq_code q) (K, [])) = Some OtpCodeInvalid"
      using assms(7) that by (simp_all add: list_all_iff)
    show "verify_step faulty_redis lib st now q VerifyStart (K, []) = (VerifyCount raw', (K, []))"
      using q live assms(3,5) raw'
      by (auto simp: verify_challenge_def verify_step_def verify_read_def Let_def split: if_splits)
    show "verify_step faulty_redis lib st now q (VerifyCount raw') (K, []) = (VerifyStore raw' ?ttl, (K, []))"
      using q live assms(2) \<open>0 < ?ttl\<close> by (simp add: verify_step_def deadline_def)
  qed
  have "verify_round faulty_redis lib st now qs (replicate (length qs) VerifyStart) (K, []) = (replicate (length qs) (VerifyCount raw'), (K, []))"
    "verify_round faulty_redis lib st now qs (replicate (length qs) (VerifyCount raw')) (K, []) = (replicate (length qs) (VerifyStore raw' ?ttl), (K, []))"
    by (rule round_keeps, erule one)+
  moreover have "verify_round faulty_redis lib st now qs (replicate (length qs) (VerifyStore raw' ?ttl)) (K, []) =
      (replicate (length qs) (VerifyDone (Some OtpCodeInvalid)), (K(challenge_key st cid \<mapsto> (VStr raw', until now ?ttl)), []))"
    by (rule round_stores [OF _ assms(6)]) (use assms(7) in \<open>simp add: list_all_iff\<close>)
  ultimately show ?thesis by (simp add: raw')
qed

text \<open>Any number of wrong guesses at once.\<close>

lemma demo_guess:
  "fst (verify_challenge faulty_redis demo_otp_lib (Some demo_otp) 0 (lit ''c'') (lit ''email'') (lit ''a'') (lit ''login'') (lit ''0'')
     (demo_challenges 0, [])) = Some OtpCodeInvalid"
  by (simp add: verify_challenge_def demo_challenges_def otp_trims login_purpose demo_otp_lib_def dec_enc_challenge live_def
      second_def Let_def)
    (simp add: demo_challenge_def second_def)

theorem otp_guesses_race_witness:
  "\<forall>n. let qs = replicate (Suc n) (demo_call ''0''); round = verify_round faulty_redis demo_otp_lib demo_otp 0 qs;
      (ps, w1) = round (replicate (length qs) VerifyStart) (demo_challenges 0, []); (ps', w2) = round ps w1; (ps'', (K', fs)) = round ps' w2
    in ps'' = replicate (length qs) (VerifyDone (Some OtpCodeInvalid)) \<and>
      (case K' (challenge_key demo_otp (lit ''c'')) of
         Some (VStr raw', _) \<Rightarrow> ol_dec demo_otp_lib raw' = Inr ((demo_challenge 0)\<lparr>oc_attempts := oc_attempts (demo_challenge 0) + 1\<rparr>)
       | _ \<Rightarrow> False)"
proof
  fix n
  show "let qs = replicate (Suc n) (demo_call ''0''); round = verify_round faulty_redis demo_otp_lib demo_otp 0 qs;
      (ps, w1) = round (replicate (length qs) VerifyStart) (demo_challenges 0, []); (ps', w2) = round ps w1; (ps'', (K', fs)) = round ps' w2
    in ps'' = replicate (length qs) (VerifyDone (Some OtpCodeInvalid)) \<and>
      (case K' (challenge_key demo_otp (lit ''c'')) of
         Some (VStr raw', _) \<Rightarrow> ol_dec demo_otp_lib raw' = Inr ((demo_challenge 0)\<lparr>oc_attempts := oc_attempts (demo_challenge 0) + 1\<rparr>)
       | _ \<Rightarrow> False)"
    unfolding Let_def [where s = "replicate (Suc n) (demo_call ''0'')"]
    by (rule otp_guesses_race [OF demo_otp_codec, where raw = "enc_challenge (demo_challenge 0)" and d = "660 * second"])
      (simp_all add: demo_challenges_def demo_guess [unfolded demo_challenges_def] demo_call_def otp_trims list_all_iff,
        simp_all add: demo_otp_lib_def dec_enc_challenge demo_challenge_def second_def)
qed

end
