(* ===== verification/RedisRefresh.thy ===== *)
theory RedisRefresh
  imports RedisApi
begin

text \<open>
  The Redis refresh token store of \<open>backend/pkg/store/refresh_token_store.go\<close>.  \<open>H\<close> is
  \<open>refreshTokenHash\<close>; the random values are inputs, \<open>None\<close> being an error of \<open>crypto/rand\<close>; one reading
  of the clock stands for a whole call.  \<open>RotateToken\<close> retries while the watched family key changes,
  until the context of the call ends: the number of tries it has time for is an input.
\<close>

section \<open>The store\<close>

datatype redis_refresh_err = RrInvalid | RrReplay | RrRandom | RrRedis redis_err | RrDeadline

definition token_family_key :: "gostr \<Rightarrow> gostr" where
  "token_family_key h = lit ''refresh:token:'' @ h"

definition family_key :: "gostr \<Rightarrow> gostr" where
  "family_key fid = lit ''refresh:family:'' @ fid"

definition family_tokens_key :: "gostr \<Rightarrow> gostr" where
  "family_tokens_key fid = lit ''refresh:family_tokens:'' @ fid"

definition user_families_key :: "gostr \<Rightarrow> gostr" where
  "user_families_key user = lit ''refresh:user_families:'' @ user"

definition hash_field :: "(gostr \<rightharpoonup> gostr) \<Rightarrow> gostr \<Rightarrow> gostr" where
  "hash_field m k = (case m k of None \<Rightarrow> [] | Some v \<Rightarrow> v)"

text \<open>The commands that make a token the current one of its family.\<close>

definition token_cmds :: "gostr \<Rightarrow> gostr \<Rightarrow> gostr \<Rightarrow> duration \<Rightarrow> rcmd list" where
  "token_cmds fid user h ttl =
     [Set (token_family_key h) fid ttl,
      HSet (family_key fid) [(lit ''userId'', user), (lit ''currentHash'', h)],
      Expire (family_key fid) ttl,
      SAdd (family_tokens_key fid) h,
      Expire (family_tokens_key fid) ttl,
      SAdd (user_families_key user) fid,
      Expire (user_families_key user) ttl]"

definition redis_new_token ::
  "'w redis \<Rightarrow> (gostr \<Rightarrow> gostr) \<Rightarrow> gostr option \<Rightarrow> gostr option \<Rightarrow> gotime \<Rightarrow> gostr \<Rightarrow> duration \<Rightarrow>
   'w \<Rightarrow> (redis_refresh_err + gostr) \<times> 'w" where
  "redis_new_token rdo H rnd_token rnd_family now user ttl w =
     (case rnd_token of None \<Rightarrow> (Inl RrRandom, w)
      | Some tok \<Rightarrow>
     (case rnd_family of None \<Rightarrow> (Inl RrRandom, w)
      | Some fid \<Rightarrow>
          (case rdo now (Multi (token_cmds fid user (H tok) ttl)) w of
             (Inl e, w1) \<Rightarrow> (Inl (RrRedis e), w1)
           | (Inr _, w1) \<Rightarrow> (Inr tok, w1))))"

text \<open>The commands that revoke a family, and the user that a revocation reads when it has none.\<close>

definition revoke_cmds :: "gostr \<Rightarrow> gostr \<Rightarrow> gostr list \<Rightarrow> rcmd list" where
  "revoke_cmds fid user hashes =
     map (\<lambda>h. Del [token_family_key h]) hashes @ [Del [family_tokens_key fid], Del [family_key fid]] @
     (if user \<noteq> [] then [SRem (user_families_key user) fid] else [])"

definition reply_hash :: "rreply \<Rightarrow> (gostr \<rightharpoonup> gostr)" where
  "reply_hash r = (case r of RHash m \<Rightarrow> m | _ \<Rightarrow> Map.empty)"

definition reply_members :: "rreply \<Rightarrow> gostr list" where
  "reply_members r = (case r of RMembers ms \<Rightarrow> ms | _ \<Rightarrow> [])"

definition revoked_user ::
  "'w redis \<Rightarrow> gotime \<Rightarrow> gostr \<Rightarrow> gostr \<Rightarrow> 'w \<Rightarrow> (redis_refresh_err + gostr) \<times> 'w" where
  "revoked_user rdo now fid user w =
     (if user = [] then
        (case rdo now (HGetAll (family_key fid)) w of
           (Inl e, w1) \<Rightarrow> (Inl (RrRedis e), w1)
         | (Inr r, w1) \<Rightarrow> (Inr (hash_field (reply_hash r) (lit ''userId'')), w1))
      else (Inr user, w))"

definition redis_revoke_family ::
  "'w redis \<Rightarrow> gotime \<Rightarrow> gostr \<Rightarrow> gostr \<Rightarrow> 'w \<Rightarrow> redis_refresh_err option \<times> 'w" where
  "redis_revoke_family rdo now fid user0 w =
     (case revoked_user rdo now fid user0 w of
        (Inl e, w1) \<Rightarrow> (Some e, w1)
      | (Inr user, w1) \<Rightarrow>
          (case rdo now (SMembers (family_tokens_key fid)) w1 of
             (Inl e, w2) \<Rightarrow> (Some (RrRedis e), w2)
           | (Inr r, w2) \<Rightarrow>
               (case rdo now (Multi (revoke_cmds fid user (reply_members r))) w2 of
                  (Inl e, w3) \<Rightarrow> (Some (RrRedis e), w3)
                | (Inr _, w3) \<Rightarrow> (None, w3))))"

text \<open>The function under \<open>WATCH\<close>: the outcome, whether the family must be revoked, and its user.\<close>

datatype watch_result = WatchChanged | WatchErr redis_refresh_err bool gostr | WatchOk gostr gostr

definition watch_family ::
  "'w redis \<Rightarrow> (gostr \<Rightarrow> gostr) \<Rightarrow> gostr option \<Rightarrow> gotime \<Rightarrow> duration \<Rightarrow> gostr \<Rightarrow> gostr \<Rightarrow> 'w \<Rightarrow> watch_result \<times> 'w" where
  "watch_family rdo H rnd now ttl h fid w =
     (case rdo now (HGetAll (family_key fid)) w of
        (Inl e, w1) \<Rightarrow> (WatchErr (RrRedis e) False [], w1)
      | (Inr r, w1) \<Rightarrow>
          let m = reply_hash r;
              current = hash_field m (lit ''currentHash''); user = hash_field m (lit ''userId'')
          in if m = Map.empty then (WatchErr RrInvalid True [], w1)
             else if current = [] \<or> user = [] then (WatchErr RrInvalid True user, w1)
             else if current \<noteq> h then (WatchErr RrReplay True user, w1)
             else
               (case rnd of None \<Rightarrow> (WatchErr RrRandom False user, w1)
                | Some new \<Rightarrow>
                    (case rdo now (MultiWatched (family_key fid) (token_cmds fid user (H new) ttl)) w1 of
                       (Inl e, w2) \<Rightarrow> (WatchErr (RrRedis e) False user, w2)
                     | (Inr RTxFailed, w2) \<Rightarrow> (WatchChanged, w2)
                     | (Inr _, w2) \<Rightarrow> (WatchOk user new, w2))))"

fun redis_rotate ::
  "'w redis \<Rightarrow> (gostr \<Rightarrow> gostr) \<Rightarrow> (nat \<Rightarrow> gostr option) \<Rightarrow> gotime \<Rightarrow> duration \<Rightarrow> gostr \<Rightarrow> nat \<Rightarrow>
   'w \<Rightarrow> (redis_refresh_err + gostr \<times> gostr) \<times> 'w" where
  "redis_rotate rdo H rnds now ttl token 0 w = (Inl RrDeadline, w)"
| "redis_rotate rdo H rnds now ttl token (Suc tries) w =
     (let h = H token in
      case rdo now (Get (token_family_key h)) w of
        (Inl e, w1) \<Rightarrow> (Inl (RrRedis e), w1)
      | (Inr (RStr fid), w1) \<Rightarrow>
          (case watch_family rdo H (rnds tries) now ttl h fid w1 of
             (WatchChanged, w2) \<Rightarrow> redis_rotate rdo H rnds now ttl token tries w2
           | (WatchErr e revoke user, w2) \<Rightarrow>
               (Inl e, if revoke then snd (redis_revoke_family rdo now fid user w2) else w2)
           | (WatchOk user new, w2) \<Rightarrow> (Inr (user, new), w2))
      | (Inr _, w1) \<Rightarrow> (Inl RrInvalid, w1))"

definition redis_delete_token ::
  "'w redis \<Rightarrow> (gostr \<Rightarrow> gostr) \<Rightarrow> gotime \<Rightarrow> gostr \<Rightarrow> 'w \<Rightarrow> redis_refresh_err option \<times> 'w" where
  "redis_delete_token rdo H now token w =
     (case rdo now (Get (token_family_key (H token))) w of
        (Inl e, w1) \<Rightarrow> (Some (RrRedis e), w1)
      | (Inr (RStr fid), w1) \<Rightarrow>
          (case rdo now (HGetAll (family_key fid)) w1 of
             (Inl e, w2) \<Rightarrow> (Some (RrRedis e), w2)
           | (Inr r, w2) \<Rightarrow>
               redis_revoke_family rdo now fid
                 (hash_field (reply_hash r) (lit ''userId'')) w2)
      | (Inr _, w1) \<Rightarrow> (None, w1))"

fun revoke_families ::
  "'w redis \<Rightarrow> gotime \<Rightarrow> gostr \<Rightarrow> gostr list \<Rightarrow> 'w \<Rightarrow> redis_refresh_err option \<times> 'w" where
  "revoke_families rdo now user [] w = (None, w)"
| "revoke_families rdo now user (fid # fids) w =
     (case redis_revoke_family rdo now fid user w of
        (Some e, w1) \<Rightarrow> (Some e, w1)
      | (None, w1) \<Rightarrow> revoke_families rdo now user fids w1)"

definition redis_revoke_user ::
  "'w redis \<Rightarrow> gotime \<Rightarrow> gostr \<Rightarrow> 'w \<Rightarrow> redis_refresh_err option \<times> 'w" where
  "redis_revoke_user rdo now user w =
     (case rdo now (SMembers (user_families_key user)) w of
        (Inl e, w1) \<Rightarrow> (Some (RrRedis e), w1)
      | (Inr r, w1) \<Rightarrow>
          (case revoke_families rdo now user (reply_members r) w1 of
             (Some e, w2) \<Rightarrow> (Some e, w2)
           | (None, w2) \<Rightarrow>
               (case rdo now (Del [user_families_key user]) w2 of
                  (Inl e, w3) \<Rightarrow> (Some (RrRedis e), w3)
                | (Inr _, w3) \<Rightarrow> (None, w3))))"

section \<open>A spent token\<close>

text \<open>A token is spent when it is not the current one of its family.\<close>

definition spent :: "gostr \<Rightarrow> keyspace \<Rightarrow> bool" where
  "spent h K \<longleftrightarrow>
     (\<forall>fid d m d'. K (token_family_key h) = Some (VStr fid, d) \<longrightarrow> K (family_key fid) = Some (VHash m, d') \<longrightarrow>
        m (lit ''currentHash'') \<noteq> Some h)"

text \<open>A command that does not issue the token with the hash \<open>h\<close>.\<close>

fun harmless :: "gostr \<Rightarrow> rcmd \<Rightarrow> bool" where
  "harmless h (Set k v ttl) = (k \<noteq> token_family_key h)"
| "harmless h (SetNX k v ttl) = (k \<noteq> token_family_key h)"
| "harmless h (HSet k fs) = (map_of (rev fs) (lit ''currentHash'') \<noteq> Some h)"
| "harmless h (Multi cs) = (\<forall>c\<in>set cs. harmless h c)"
| "harmless h (MultiWatched _ cs) = (\<forall>c\<in>set cs. harmless h c)"
| "harmless h _ = True"

lemma keys_differ [simp]:
  "token_family_key h = token_family_key h' \<longleftrightarrow> h = h'" "family_key f = family_key f' \<longleftrightarrow> f = f'"
  "token_family_key h \<noteq> family_key f" "family_key f \<noteq> token_family_key h"
  "token_family_key h \<noteq> family_tokens_key f" "token_family_key h \<noteq> user_families_key u"
  "family_key f \<noteq> family_tokens_key f'" "family_key f \<noteq> user_families_key u"
  by (simp_all add: token_family_key_def family_key_def family_tokens_key_def user_families_key_def lit_Cons)

lemma spent_upd:
  assumes "spent h K" "k = token_family_key h \<Longrightarrow> \<nexists>fid. v = VStr fid"
    and "\<And>m. v = VHash m \<Longrightarrow> m (lit ''currentHash'') = Some h \<Longrightarrow> \<exists>m d. K k = Some (VHash m, d) \<and> m (lit ''currentHash'') = Some h"
  shows "spent h (K(k \<mapsto> (v, d)))"
  unfolding spent_def
proof (intro allI impI)
  fix fid d1 m d2
  assume 1: "(K(k \<mapsto> (v, d))) (token_family_key h) = Some (VStr fid, d1)" and 2: "(K(k \<mapsto> (v, d))) (family_key fid) = Some (VHash m, d2)"
  have t: "K (token_family_key h) = Some (VStr fid, d1)" using 1 assms(2) by (auto split: if_splits)
  show "m (lit ''currentHash'') \<noteq> Some h"
  proof (cases "family_key fid = k")
    case True
    then show ?thesis using 2 assms(1,3) t by (auto simp: spent_def)
  next
    case False
    then show ?thesis using 2 assms(1) t by (auto simp: spent_def)
  qed
qed

lemma live_raw: "live now K k = Some v \<Longrightarrow> \<exists>d. K k = Some (v, d)"
  by (auto simp: live_def split: option.splits if_splits)

lemma hash_of_Some: "hash_of v f = Some x \<Longrightarrow> \<exists>m. v = Some (VHash m) \<and> m f = Some x"
  by (auto simp: hash_of_def split: option.splits rval.splits)

lemma spent_del: "spent h K \<Longrightarrow> (\<And>k. K' k = None \<or> K' k = K k) \<Longrightarrow> spent h K'"
  unfolding spent_def by (metis option.distinct(1))

lemma spent_fold:
  "(\<And>c K. c \<in> set cs \<Longrightarrow> spent h K \<Longrightarrow> spent h (f c K)) \<Longrightarrow> spent h K \<Longrightarrow> spent h (fold f cs K)"
  by (induction cs arbitrary: K) auto

lemma spent_hset:
  assumes "harmless h (HSet k fs)" "spent h K"
  shows "spent h (rwrite now (HSet k fs) K)"
proof -
  have "\<exists>m d. K k = Some (VHash m, d) \<and> m (lit ''currentHash'') = Some h"
    if "(hash_of (live now K k) ++ map_of (rev fs)) (lit ''currentHash'') = Some h"
    using that assms(1) by (auto simp: map_add_Some_iff dest!: hash_of_Some live_raw)
  then show ?thesis unfolding rwrite.simps by (intro spent_upd [OF assms(2)]) auto
qed

lemma spent_expire:
  assumes "spent h K"
  shows "spent h (rwrite now (Expire k ttl) K)"
proof (cases "live now K k")
  case (Some v)
  obtain d where d: "K k = Some (v, d)" using live_raw [OF Some] by blast
  have "spent h (K(k \<mapsto> (v, Some (now + ttl))))"
    unfolding spent_def using assms d by (auto simp: spent_def split: if_splits)
  then show ?thesis by (simp only: rwrite.simps option.case Some)
qed (use assms in simp)

lemma spent_other:
  assumes "spent h K" "\<And>fid. v \<noteq> VStr fid" "\<And>m. v \<noteq> VHash m"
  shows "spent h (K(k \<mapsto> (v, d)))"
  by (rule spent_upd [OF assms(1)]) (use assms in auto)

lemma spent_write: "harmless h c \<Longrightarrow> spent h K \<Longrightarrow> spent h (rwrite now c K)"
proof (induction c arbitrary: K)
  case (Set k v ttl)
  then show ?case unfolding rwrite.simps by (intro spent_upd) auto
next
  case (SetNX k v ttl)
  then have "spent h (K(k \<mapsto> (VStr v, until now ttl)))" by (intro spent_upd) auto
  then show ?case using SetNX.prems(2) by (simp only: rwrite.simps split: if_split) blast
next
  case (Del kl)
  then show ?case unfolding rwrite.simps by (elim spent_del) simp
next
  case (HSet k fs)
  then show ?case by (rule spent_hset)
next
  case (Expire k ttl)
  then show ?case by (intro spent_expire)
next
  case (SAdd k m)
  then show ?case unfolding rwrite.simps by (intro spent_other) simp_all
next
  case (SRem k m)
  have "spent h (K(k := None))" by (rule spent_del [OF SRem.prems(2)]) simp
  moreover have "spent h (K(k \<mapsto> (VSet ms, d)))" for ms d by (rule spent_other [OF SRem.prems(2)]) simp_all
  ultimately show ?case by (simp only: rwrite.simps split: list.split) blast
next
  case (IncrWindow k ms)
  then show ?case unfolding rwrite.simps Let_def by (intro spent_other) simp_all
next
  case (XAdd k fs)
  have "spent h (K(k \<mapsto> (VStream n es ps, d)))" for n es ps d by (rule spent_other [OF XAdd.prems(2)]) simp_all
  then show ?case by (simp only: rwrite.simps Let_def case_prod_beta)
next
  case (XAck k g i)
  have "spent h (K(k \<mapsto> (VStream n es ps, d)))" for n es ps d by (rule spent_other [OF XAck.prems(2)]) simp_all
  then show ?case using XAck.prems(2) by (simp only: rwrite.simps split: option.split rval.split) blast
next
  case (XDel k i)
  have "spent h (K(k \<mapsto> (VStream n es ps, d)))" for n es ps d by (rule spent_other [OF XDel.prems(2)]) simp_all
  then show ?case using XDel.prems(2) by (simp only: rwrite.simps split: option.split rval.split) blast
next
  case (Multi cs)
  then show ?case by (auto intro: spent_fold)
next
  case (MultiWatched k cs)
  then show ?case by (auto intro: spent_fold)
qed auto

text \<open>What a write leaves alone, and the hash it leaves at a key.\<close>

lemma write_other:
  "k \<noteq> k' \<Longrightarrow> rwrite now (Set k' v ttl) K k = K k" "k \<noteq> k' \<Longrightarrow> rwrite now (HSet k' fs) K k = K k"
  "k \<noteq> k' \<Longrightarrow> rwrite now (Expire k' ttl) K k = K k" "k \<noteq> k' \<Longrightarrow> rwrite now (SAdd k' m) K k = K k"
  by (simp_all split: option.split)

definition hash_at :: "keyspace \<Rightarrow> gostr \<Rightarrow> (gostr \<rightharpoonup> gostr) option" where
  "hash_at K k = (case K k of Some (VHash m, _) \<Rightarrow> Some m | _ \<Rightarrow> None)"

lemma hash_at_expire: "hash_at (rwrite now (Expire k' ttl) K) k = hash_at K k"
proof (cases "live now K k'")
  case (Some v)
  then show ?thesis using live_raw [OF Some] by (auto simp: hash_at_def)
qed simp

lemma hash_at_sadd: "k \<noteq> k' \<Longrightarrow> hash_at (rwrite now (SAdd k' m) K) k = hash_at K k"
  by (simp add: hash_at_def)

lemma hash_at_hset: "hash_at (rwrite now (HSet k fs) K) k = Some (hash_of (live now K k) ++ map_of (rev fs))"
  by (simp add: hash_at_def)

definition not_issued :: "gostr \<Rightarrow> (gostr \<Rightarrow> gostr) \<Rightarrow> gostr option \<Rightarrow> bool" where
  "not_issued h H rnd \<longleftrightarrow> (case rnd of None \<Rightarrow> True | Some tok \<Rightarrow> H tok \<noteq> h)"

lemma harmless_token_cmds: "h' \<noteq> h \<Longrightarrow> c \<in> set (token_cmds fid user h' ttl) \<Longrightarrow> harmless h c"
  by (auto simp: token_cmds_def lit_Cons)

context redis_server
begin

lemma spent_call: "rdo now c w = (r, w') \<Longrightarrow> harmless h c \<Longrightarrow> spent h (ks w) \<Longrightarrow> spent h (ks w')"
proof (cases r)
  case (Inl e)
  assume a: "rdo now c w = (r, w')" "harmless h c" "spent h (ks w)"
  from failure [OF a(1) [unfolded Inl]] show ?thesis using spent_write [OF a(2,3), of now] a(3) by (elim disjE) simp_all
next
  case (Inr x)
  assume a: "rdo now c w = (r, w')" "harmless h c" "spent h (ks w)"
  from reply [OF a(1) [unfolded Inr]] have "ks w' = reffect now c x (ks w)" by simp
  then show ?thesis using spent_write [OF a(2,3), of now] a(3) by (cases "x = RTxFailed") (simp_all add: reffect_def)
qed

lemma spent_snd: "harmless h c \<Longrightarrow> spent h (ks w) \<Longrightarrow> spent h (ks (snd (rdo now c w)))"
  by (cases "rdo now c w") (simp add: spent_call)

lemma spent_revoke_family:
  assumes "spent h (ks w)"
  shows "spent h (ks (snd (redis_revoke_family rdo now fid user w)))"
proof -
  obtain r0 w0 where c0: "rdo now (HGetAll (family_key fid)) w = (r0, w0)" by (metis surj_pair)
  have s0: "spent h (ks w0)" using spent_call [OF c0 _ assms] by simp
  obtain ru w1 where q1: "revoked_user rdo now fid user w = (ru, w1)" by (metis surj_pair)
  have s1: "spent h (ks w1)"
    using q1 s0 assms c0 by (cases "user = []"; cases r0) (auto simp: revoked_user_def)
  obtain r2 w2 where c2: "rdo now (SMembers (family_tokens_key fid)) w1 = (r2, w2)" by (metis surj_pair)
  have s2: "spent h (ks w2)" using spent_call [OF c2 _ s1] by simp
  have s3: "spent h (ks (snd (rdo now (Multi (revoke_cmds fid u hashes)) w2)))" for u hashes
    by (rule spent_snd [OF _ s2]) (auto simp: revoke_cmds_def)
  show ?thesis
  proof (cases ru)
    case (Inr u)
    show ?thesis
    proof (cases r2)
      case (Inr x)
      obtain r3 w3 where c3: "rdo now (Multi (revoke_cmds fid u (reply_members x))) w2 = (r3, w3)" by (metis surj_pair)
      then have "spent h (ks w3)" using s3 [of u "reply_members x"] by simp
      then show ?thesis using \<open>ru = Inr u\<close> by (cases r3) (simp_all add: redis_revoke_family_def q1 c2 Inr c3)
    qed (simp add: redis_revoke_family_def q1 c2 Inr s2)
  qed (simp add: redis_revoke_family_def q1 s1)
qed

lemma spent_revoke_families: "spent h (ks w) \<Longrightarrow> spent h (ks (snd (revoke_families rdo now user fids w)))"
proof (induction fids arbitrary: w)
  case (Cons fid fids)
  obtain r w1 where c: "redis_revoke_family rdo now fid user w = (r, w1)" by (metis surj_pair)
  then have "spent h (ks w1)" using spent_revoke_family [OF Cons.prems, of now fid user] by simp
  then show ?case using Cons.IH c by (cases r) simp_all
qed simp

lemma spent_watch:
  assumes "spent h (ks w)" "not_issued h H rnd"
  shows "spent h (ks (snd (watch_family rdo H rnd now ttl h' fid w)))"
proof -
  obtain r w1 where c: "rdo now (HGetAll (family_key fid)) w = (r, w1)" by (metis surj_pair)
  have s1: "spent h (ks w1)" using spent_call [OF c _ assms(1)] by simp
  have s2: "spent h (ks (snd (rdo now (MultiWatched (family_key fid) (token_cmds fid user (H new) ttl)) w1)))"
    if "rnd = Some new" for new user
    by (rule spent_snd) (use assms(2) that s1 harmless_token_cmds [of "H new" h] in \<open>auto simp: not_issued_def\<close>)
  show ?thesis
    unfolding watch_family_def c Let_def
    using s1 s2 by (auto split: sum.splits option.splits prod.splits rreply.splits) (metis snd_conv)+
qed

lemma spent_rotate:
  assumes "\<And>n. not_issued h H (rnds n)"
  shows "spent h (ks w) \<Longrightarrow> spent h (ks (snd (redis_rotate rdo H rnds now ttl token tries w)))"
proof (induction tries arbitrary: w)
  case (Suc n)
  obtain r w1 where c: "rdo now (Get (token_family_key (H token))) w = (r, w1)" by (metis surj_pair)
  have s1: "spent h (ks w1)" using spent_call [OF c _ Suc.prems] by simp
  show ?case
  proof (cases "\<exists>fid. r = Inr (RStr fid)")
    case True
    then obtain fid where r: "r = Inr (RStr fid)" by blast
    obtain q w2 where q: "watch_family rdo H (rnds n) now ttl (H token) fid w1 = (q, w2)" by (metis surj_pair)
    have "spent h (ks w2)" using spent_watch [OF s1 assms [of n], of now ttl "H token" fid] q by simp
    then show ?thesis using Suc.IH [of w2] spent_revoke_family [of h w2] q
      by (cases q) (simp_all add: c r Let_def)
  next
    case False
    then show ?thesis using s1 by (cases r) (auto simp: c Let_def split: rreply.splits)
  qed
qed simp

text \<open>A spent token is not accepted.\<close>

lemma spent_not_current:
  assumes "spent h (ks w)" "rdo now (Get (token_family_key h)) w = (Inr (RStr fid), w1)"
    "watch_family rdo H rnd now ttl h fid w1 = (q, w2)"
  shows "\<exists>e b u. q = WatchErr e b u"
proof -
  have k: "ks w1 = ks w" "\<exists>d. ks w (token_family_key h) = Some (VStr fid, d)"
    using get_reply [OF assms(2)] by (auto split: option.splits rval.splits dest: live_raw)
  obtain r w3 where c: "rdo now (HGetAll (family_key fid)) w1 = (r, w3)" by (metis surj_pair)
  show ?thesis
  proof (cases r)
    case (Inl e)
    then show ?thesis using assms(3) c by (auto simp: watch_family_def)
  next
    case (Inr x)
    then have x: "x = RHash (hash_of (live now (ks w1) (family_key fid)))" using hgetall_reply c by metis
    have "hash_field (hash_of (live now (ks w1) (family_key fid))) (lit ''currentHash'') \<noteq> h \<or> h = []"
      using assms(1) k by (auto simp: hash_field_def spent_def dest!: hash_of_Some live_raw split: option.splits)
    then show ?thesis using assms(3) c Inr x by (auto simp: watch_family_def reply_hash_def Let_def split: if_splits)
  qed
qed

lemma spent_refused:
  assumes "spent (H token) (ks w)"
  shows "\<exists>e. fst (redis_rotate rdo H rnds now ttl token tries w) = Inl e"
proof (cases tries)
  case (Suc n)
  obtain r w1 where c: "rdo now (Get (token_family_key (H token))) w = (r, w1)" by (metis surj_pair)
  show ?thesis
  proof (cases "\<exists>fid. r = Inr (RStr fid)")
    case True
    then obtain fid where r: "r = Inr (RStr fid)" by blast
    obtain q w2 where q: "watch_family rdo H (rnds n) now ttl (H token) fid w1 = (q, w2)" by (metis surj_pair)
    obtain e b u where "q = WatchErr e b u" using spent_not_current [OF assms c [unfolded r] q] by blast
    then show ?thesis using q by (simp add: Suc c r Let_def)
  next
    case False
    then show ?thesis by (cases r) (auto simp: Suc c Let_def split: rreply.splits)
  qed
qed simp

text \<open>A token that was accepted is spent.\<close>

lemma accepted_spent:
  assumes "redis_rotate rdo H rnds now ttl token tries w = (Inr (user, new), w')" "H new \<noteq> H token"
  shows "spent (H token) (ks w')"
  using assms(1)
proof (induction tries arbitrary: w)
  case (Suc n)
  obtain r w1 where c: "rdo now (Get (token_family_key (H token))) w = (r, w1)" by (metis surj_pair)
  from Suc.prems obtain fid where r: "r = Inr (RStr fid)" by (auto simp: c Let_def split: sum.splits rreply.splits)
  have k: "ks w1 = ks w" "\<exists>d. ks w (token_family_key (H token)) = Some (VStr fid, d)"
    using get_reply [OF c [unfolded r]] by (auto split: option.splits rval.splits dest: live_raw)
  obtain q w2 where q: "watch_family rdo H (rnds n) now ttl (H token) fid w1 = (q, w2)" by (metis surj_pair)
  show ?case
  proof (cases q)
    case WatchChanged
    then show ?thesis using Suc.IH [of w2] Suc.prems q by (simp add: c r Let_def)
  next
    case (WatchErr e b u)
    then show ?thesis using Suc.prems q by (simp add: c r Let_def)
  next
    case (WatchOk u x)
    then have res: "x = new" "w2 = w'" using Suc.prems q by (simp_all add: c r Let_def)
    obtain r3 w3 where c3: "rdo now (HGetAll (family_key fid)) w1 = (r3, w3)" by (metis surj_pair)
    have k3: "ks w3 = ks w1" using reply [of now _ w1 _ w3] failure [of now _ w1 _ w3] c3
      by (cases r3) (fastforce simp: reffect_def)+
    obtain r4 where c4: "rdo now (MultiWatched (family_key fid) (token_cmds fid u (H new) ttl)) w3 = (Inr r4, w')" "r4 \<noteq> RTxFailed"
      using q WatchOk c3 res by (auto simp: watch_family_def Let_def split: sum.splits option.splits prod.splits rreply.splits if_splits)
    then have "ks w' = fold (rwrite now) (token_cmds fid u (H new) ttl) (ks w)"
      using reply [OF c4(1)] k k3 by (simp add: reffect_def)
    then have K: "ks w' = rwrite now (Multi (token_cmds fid u (H new) ttl)) (ks w)" by simp
    have ne: "H token \<noteq> H new" using assms(2) by simp
    have t: "ks w' (token_family_key (H token)) = ks w (token_family_key (H token))"
      unfolding K by (simp add: token_cmds_def write_other ne del: rwrite.simps(1-6))
    have "\<exists>m. hash_at (ks w') (family_key fid) = Some m \<and> m (lit ''currentHash'') = Some (H new)"
      unfolding K by (simp add: token_cmds_def hash_at_expire hash_at_sadd hash_at_hset del: rwrite.simps(1-6))
    then have "\<exists>m d. ks w' (family_key fid) = Some (VHash m, d) \<and> m (lit ''currentHash'') = Some (H new)"
      by (auto simp: hash_at_def split: option.splits rval.splits)
    then show ?thesis using t k(2) ne unfolding spent_def by auto
  qed
qed simp

end


section \<open>Runs\<close>

datatype refresh_call =
    CallNew "gostr option" "gostr option" gotime gostr duration
  | CallRotate "nat \<Rightarrow> gostr option" gotime duration gostr nat
  | CallDelete gotime gostr
  | CallRevokeUser gotime gostr

fun refresh_exec :: "'w redis \<Rightarrow> (gostr \<Rightarrow> gostr) \<Rightarrow> refresh_call \<Rightarrow> 'w \<Rightarrow> 'w" where
  "refresh_exec rdo H (CallNew tok fid now user ttl) w = snd (redis_new_token rdo H tok fid now user ttl w)"
| "refresh_exec rdo H (CallRotate rnds now ttl token tries) w = snd (redis_rotate rdo H rnds now ttl token tries w)"
| "refresh_exec rdo H (CallDelete now token) w = snd (redis_delete_token rdo H now token w)"
| "refresh_exec rdo H (CallRevokeUser now user) w = snd (redis_revoke_user rdo now user w)"

text \<open>The call draws no token with the hash \<open>h\<close>.\<close>

fun draws_other :: "gostr \<Rightarrow> (gostr \<Rightarrow> gostr) \<Rightarrow> refresh_call \<Rightarrow> bool" where
  "draws_other h H (CallNew tok fid now user ttl) = not_issued h H tok"
| "draws_other h H (CallRotate rnds now ttl token tries) = (\<forall>n<tries. not_issued h H (rnds n))"
| "draws_other h H _ = True"

lemma rotate_draws:
  "(\<And>n. n < tries \<Longrightarrow> rnds n = rnds' n) \<Longrightarrow> redis_rotate rdo H rnds now ttl token tries w = redis_rotate rdo H rnds' now ttl token tries w"
proof (induction tries arbitrary: w)
  case (Suc n)
  have eq: "redis_rotate rdo H rnds now ttl token n x = redis_rotate rdo H rnds' now ttl token n x" for x
    by (rule Suc.IH) (simp add: Suc.prems)
  have "rnds n = rnds' n" by (simp add: Suc.prems)
  then show ?case by (simp add: eq cong: sum.case_cong rreply.case_cong prod.case_cong watch_result.case_cong)
qed simp

context redis_server
begin

lemma spent_new_token:
  assumes "spent h (ks w)" "not_issued h H tok"
  shows "spent h (ks (snd (redis_new_token rdo H tok fid now user ttl w)))"
proof (cases "tok = None \<or> fid = None")
  case True
  then show ?thesis using assms(1) by (auto simp: redis_new_token_def split: option.splits)
next
  case False
  then obtain t f where tf: "tok = Some t" "fid = Some f" by auto
  obtain r w1 where c: "rdo now (Multi (token_cmds f user (H t) ttl)) w = (r, w1)" by (metis surj_pair)
  have "spent h (ks w1)"
    by (rule spent_call [OF c _ assms(1)]) (use assms(2) tf harmless_token_cmds [of "H t" h] in \<open>auto simp: not_issued_def\<close>)
  then show ?thesis using c tf by (cases r) (simp_all add: redis_new_token_def)
qed

lemma spent_delete_token:
  assumes "spent h (ks w)"
  shows "spent h (ks (snd (redis_delete_token rdo H now token w)))"
proof -
  obtain r w1 where c: "rdo now (Get (token_family_key (H token))) w = (r, w1)" by (metis surj_pair)
  have s1: "spent h (ks w1)" using spent_call [OF c _ assms] by simp
  show ?thesis
  proof (cases "\<exists>fid. r = Inr (RStr fid)")
    case True
    then obtain fid where r: "r = Inr (RStr fid)" by blast
    obtain r2 w2 where c2: "rdo now (HGetAll (family_key fid)) w1 = (r2, w2)" by (metis surj_pair)
    have s2: "spent h (ks w2)" using spent_call [OF c2 _ s1] by simp
    then show ?thesis using spent_revoke_family [OF s2] c2 by (cases r2) (simp_all add: redis_delete_token_def c r)
  next
    case False
    then show ?thesis using s1 by (cases r) (auto simp: redis_delete_token_def c split: rreply.splits)
  qed
qed

lemma spent_revoke_user:
  assumes "spent h (ks w)"
  shows "spent h (ks (snd (redis_revoke_user rdo now user w)))"
proof -
  obtain r w1 where c: "rdo now (SMembers (user_families_key user)) w = (r, w1)" by (metis surj_pair)
  have s1: "spent h (ks w1)" using spent_call [OF c _ assms] by simp
  show ?thesis
  proof (cases r)
    case (Inr x)
    obtain r2 w2 where c2: "revoke_families rdo now user (reply_members x) w1 = (r2, w2)" by (metis surj_pair)
    have s2: "spent h (ks w2)" using spent_revoke_families [OF s1, of now user "reply_members x"] c2 by simp
    have "spent h (ks (snd (rdo now (Del [user_families_key user]) w2)))" by (rule spent_snd [OF _ s2]) simp
    then show ?thesis using s2 c2
      by (cases r2; cases "rdo now (Del [user_families_key user]) w2") (auto simp: redis_revoke_user_def c Inr split: sum.splits)
  qed (simp add: redis_revoke_user_def c s1)
qed

lemma spent_exec:
  assumes "spent h (ks w)" "draws_other h H call"
  shows "spent h (ks (refresh_exec rdo H call w))"
proof (cases call)
  case (CallRotate rnds now ttl token tries)
  define rnds' where "rnds' = (\<lambda>n. if n < tries then rnds n else None)"
  have "redis_rotate rdo H rnds now ttl token tries w = redis_rotate rdo H rnds' now ttl token tries w"
    by (rule rotate_draws) (simp add: rnds'_def)
  moreover have "not_issued h H (rnds' n)" for n
    using assms(2) CallRotate by (simp add: rnds'_def not_issued_def)
  ultimately show ?thesis using spent_rotate [of h H rnds' w now ttl token tries] assms(1) CallRotate by simp
qed (use assms in \<open>simp_all add: spent_new_token spent_delete_token spent_revoke_user\<close>)

lemma spent_run:
  "spent h (ks w) \<Longrightarrow> (\<And>call. call \<in> set calls \<Longrightarrow> draws_other h H call) \<Longrightarrow> spent h (ks (fold (refresh_exec rdo H) calls w))"
  by (induction calls arbitrary: w) (auto intro: spent_exec)

end

section \<open>Properties\<close>

text \<open>
  A refresh token of the Redis store is accepted at most once.  After a successful rotation the same
  token is refused, whatever calls of the store come between, however often the watched key changes and
  whichever Redis commands fail, provided that no later token has the same hash.
\<close>

theorem redis_refresh_single_use:
  assumes "redis_server rdo ks"
    and "redis_rotate rdo H rnds now ttl token tries w = (Inr (user, new), w1)" "H new \<noteq> H token"
    and "\<forall>call\<in>set calls. draws_other (H token) H call"
  shows "\<exists>e. fst (redis_rotate rdo H rnds2 now2 ttl2 token tries2 (fold (refresh_exec rdo H) calls w1)) = Inl e"
proof (rule redis_server.spent_refused [OF assms(1)])
  show "spent (H token) (ks (fold (refresh_exec rdo H) calls w1))"
    by (rule redis_server.spent_run [OF assms(1) redis_server.accepted_spent [OF assms(1,2,3)]]) (use assms(4) in blast)
qed

text \<open>The family of a user after its token \<open>[97]\<close> was rotated to \<open>[98]\<close>.\<close>

definition demo_family :: keyspace where
  "demo_family =
     [token_family_key [97] \<mapsto> (VStr [102], Some 1000), token_family_key [98] \<mapsto> (VStr [102], Some 1001),
      family_key [102] \<mapsto> (VHash [lit ''userId'' \<mapsto> [117], lit ''currentHash'' \<mapsto> [98]], Some 1001),
      family_tokens_key [102] \<mapsto> (VSet [[97], [98]], Some 1001), user_families_key [117] \<mapsto> (VSet [[102]], Some 1001)]"

lemma field_names [simp]: "lit ''userId'' \<noteq> lit ''currentHash''" "lit ''currentHash'' \<noteq> lit ''userId''"
  by (simp_all add: lit_Cons)

lemmas demo_steps = watch_family_def redis_revoke_family_def revoked_user_def
  reply_hash_def hash_field_def live_def until_def hash_of_def Let_def

lemma demo_family_keys:
  "demo_family (token_family_key [97]) = Some (VStr [102], Some 1000)"
  "demo_family (token_family_key [98]) = Some (VStr [102], Some 1001)"
  "demo_family (family_key [102]) = Some (VHash [lit ''userId'' \<mapsto> [117], lit ''currentHash'' \<mapsto> [98]], Some 1001)"
  by (simp_all add: demo_family_def)

text \<open>
  A replay that was detected may leave the family alive: the error of the revocation is dropped, so
  when one of its commands fails the replay is reported, but the stolen token's successor still works.
\<close>

theorem redis_replay_not_revoked:
  "fst (redis_rotate faulty_redis id (\<lambda>_. Some [99]) 2 1000 [97] 1 (demo_family, [None, None, Some False])) = Inl RrReplay \<and>
   fst (redis_rotate faulty_redis id (\<lambda>_. Some [99]) 3 1000 [98] 1
     (snd (redis_rotate faulty_redis id (\<lambda>_. Some [99]) 2 1000 [97] 1 (demo_family, [None, None, Some False])))) = Inr ([117], [99])"
  by (simp add: demo_steps demo_family_keys)

theorem redis_refresh_single_use_witness:
  "\<exists>e. fst (redis_rotate faulty_redis id (\<lambda>_. Some [100]) 9 1000 [98] 3
     (fold (refresh_exec faulty_redis id) [CallRotate (\<lambda>_. Some [100]) 3 1000 [99] 1]
       (snd (redis_rotate faulty_redis id (\<lambda>_. Some [99]) 2 1000 [98] 1 (demo_family, []))))) = Inl e"
proof (rule redis_refresh_single_use [OF redis_server_faulty])
  show "redis_rotate faulty_redis id (\<lambda>_. Some [99]) 2 1000 [98] 1 (demo_family, []) =
    (Inr ([117], [99]), snd (redis_rotate faulty_redis id (\<lambda>_. Some [99]) 2 1000 [98] 1 (demo_family, [])))"
    by (simp add: demo_steps demo_family_keys prod_eq_iff)
qed (simp_all add: not_issued_def)

end
