(* ===== verification/RefreshFamilies.thy ===== *)
theory RefreshFamilies
  imports RedisRefresh
begin

text \<open>
  The families of a user in the Redis refresh store: every family that lives is listed under its user, and outlived by
  that list, while all tokens have the same lifetime and the clock does not go back.  Revoking a user therefore reaches
  all of the user's tokens.
\<close>

section \<open>What a call writes at the keys of families and users\<close>

lemma user_keys [simp]:
  "user_families_key u = user_families_key v \<longleftrightarrow> u = v" "user_families_key u \<noteq> token_family_key h" "user_families_key u \<noteq> family_key f"
  "user_families_key u \<noteq> family_tokens_key f" "family_tokens_key f \<noteq> user_families_key u" "family_tokens_key f \<noteq> family_key g"
  "family_tokens_key f \<noteq> token_family_key h"
  by (simp_all add: token_family_key_def family_key_def family_tokens_key_def user_families_key_def lit_Cons)

lemma live_raw_deadline: "live now K k = Some v \<Longrightarrow> \<exists>d. K k = Some (v, d) \<and> (case d of None \<Rightarrow> True | Some x \<Rightarrow> now < x)"
  by (auto simp: live_def split: option.splits if_splits)

lemma live_later: "live now K k = Some v \<Longrightarrow> t \<le> now \<Longrightarrow> live t K k = Some v"
  by (auto simp: live_def split: option.splits if_splits)

text \<open>A value, and then its expiry.\<close>

lemma expire_set:
  assumes "K k = Some (v, d)" "case d of None \<Rightarrow> True | Some x \<Rightarrow> now < x"
  shows "rwrite now (Expire k ttl) K = K(k \<mapsto> (v, Some (now + ttl)))"
  using assms by (simp add: live_def split: option.splits)

lemma deadline_ahead: "case deadline now K k of None \<Rightarrow> True | Some x \<Rightarrow> now < x"
  by (auto simp: deadline_def live_def split: option.splits if_splits)

lemma hset_expire:
  "rwrite now (Expire k ttl) (rwrite now (HSet k fs) K) = K(k \<mapsto> (VHash (hash_of (live now K k) ++ map_of (rev fs)), Some (now + ttl)))"
  by (subst expire_set [of _ k _ "deadline now K k"], simp, rule deadline_ahead, simp)

lemma sadd_expire:
  "rwrite now (Expire k ttl) (rwrite now (SAdd k m) K) = K(k \<mapsto> (VSet (List.insert m (members_of (live now K k))), Some (now + ttl)))"
  by (subst expire_set [of _ k _ "deadline now K k"], simp, rule deadline_ahead, simp)

lemma live_other: "k \<noteq> k' \<Longrightarrow> live now (K(k' \<mapsto> x)) k = live now K k"
  by (simp add: live_def)

lemma token_cmds_effect:
  "fold (rwrite now) (token_cmds fid user h ttl) K =
   K(token_family_key h \<mapsto> (VStr fid, until now ttl),
     family_key fid \<mapsto> (VHash (hash_of (live now K (family_key fid)) ++ [lit ''userId'' \<mapsto> user, lit ''currentHash'' \<mapsto> h]), Some (now + ttl)),
     family_tokens_key fid \<mapsto> (VSet (List.insert h (members_of (live now K (family_tokens_key fid)))), Some (now + ttl)),
     user_families_key user \<mapsto> (VSet (List.insert fid (members_of (live now K (user_families_key user)))), Some (now + ttl)))"
proof -
  have "fold (rwrite now) (token_cmds fid user h ttl) K =
      rwrite now (Expire (user_families_key user) ttl) (rwrite now (SAdd (user_families_key user) fid)
        (rwrite now (Expire (family_tokens_key fid) ttl) (rwrite now (SAdd (family_tokens_key fid) h)
          (rwrite now (Expire (family_key fid) ttl) (rwrite now (HSet (family_key fid) [(lit ''userId'', user), (lit ''currentHash'', h)])
            (rwrite now (Set (token_family_key h) fid ttl) K))))))"
    by (simp only: token_cmds_def fold.simps o_apply id_apply)
  also have "\<dots> = K(token_family_key h \<mapsto> (VStr fid, until now ttl),
     family_key fid \<mapsto> (VHash (hash_of (live now K (family_key fid)) ++ [lit ''userId'' \<mapsto> user, lit ''currentHash'' \<mapsto> h]), Some (now + ttl)),
     family_tokens_key fid \<mapsto> (VSet (List.insert h (members_of (live now K (family_tokens_key fid)))), Some (now + ttl)),
     user_families_key user \<mapsto> (VSet (List.insert fid (members_of (live now K (user_families_key user)))), Some (now + ttl)))"
    unfolding sadd_expire hset_expire by (simp add: live_other map_add_def fun_eq_iff lit_Cons)
  finally show ?thesis .
qed

lemma revoke_cmds_family:
  "fold (rwrite now) (revoke_cmds fid user hashes) K (family_key f) = (if f = fid then None else K (family_key f))"
proof -
  have dels: "fold (rwrite now) (map (\<lambda>h. Del [token_family_key h]) hashes) K (family_key f) = K (family_key f)" for K
    by (induction hashes arbitrary: K) simp_all
  have srem: "rwrite now (SRem (user_families_key u) m) K (family_key f) = K (family_key f)" for u m K
    by (simp split: list.split)
  show ?thesis using dels srem by (auto simp: revoke_cmds_def simp del: rwrite.simps(7))
qed

lemma revoke_cmds_user:
  "fold (rwrite now) (revoke_cmds fid user hashes) K (user_families_key u) =
   (if u = user \<and> user \<noteq> [] then rwrite now (SRem (user_families_key user) fid) K (user_families_key u) else K (user_families_key u))"
proof -
  have dels: "\<forall>v. fold (rwrite now) (map (\<lambda>h. Del [token_family_key h]) hashes) K (user_families_key v) = K (user_families_key v)" for K
    by (induction hashes arbitrary: K) simp_all
  let ?K = "rwrite now (Del [family_key fid]) (rwrite now (Del [family_tokens_key fid])
      (fold (rwrite now) (map (\<lambda>h. Del [token_family_key h]) hashes) K))"
  have same: "?K (user_families_key v) = K (user_families_key v)" for v using dels by simp
  have "rwrite now (SRem (user_families_key user) fid) ?K (user_families_key u) =
      (if u = user then rwrite now (SRem (user_families_key user) fid) K (user_families_key u) else K (user_families_key u))"
    using same [of user] same [of u] by (auto simp: live_def deadline_def simp del: rwrite.simps(3) split: list.split)
  then show ?thesis using same by (cases "u = user") (simp_all add: revoke_cmds_def del: rwrite.simps)
qed

section \<open>The invariant\<close>

definition listed :: "duration \<Rightarrow> gotime \<Rightarrow> keyspace \<Rightarrow> bool" where
  "listed ttl now K \<longleftrightarrow>
     (\<forall>fid v d. K (family_key fid) = Some (v, d) \<longrightarrow> (\<exists>x. d = Some x \<and> x \<le> now + ttl)) \<and>
     (\<forall>fid m x u. K (family_key fid) = Some (VHash m, Some x) \<longrightarrow> now < x \<longrightarrow> m (lit ''userId'') = Some u \<longrightarrow>
        (\<exists>fs y. K (user_families_key u) = Some (VSet fs, Some y) \<and> fid \<in> set fs \<and> x \<le> y))"

lemma listed_bound: "listed ttl now K \<Longrightarrow> K (family_key fid) = Some (v, d) \<Longrightarrow> \<exists>x. d = Some x \<and> x \<le> now + ttl"
  by (simp add: listed_def)

lemma listed_member:
  "listed ttl now K \<Longrightarrow> K (family_key fid) = Some (VHash m, Some x) \<Longrightarrow> now < x \<Longrightarrow> m (lit ''userId'') = Some u \<Longrightarrow>
   \<exists>fs y. K (user_families_key u) = Some (VSet fs, Some y) \<and> fid \<in> set fs \<and> x \<le> y"
  by (simp add: listed_def)

lemma listed_later:
  assumes "listed ttl t K" "t \<le> now"
  shows "listed ttl now K"
  using assms unfolding listed_def by (meson add_mono_thms_linordered_semiring(3) le_less_trans order_trans)

lemma listed_same:
  "listed ttl now K \<Longrightarrow> (\<And>f. K' (family_key f) = K (family_key f)) \<Longrightarrow> (\<And>u. K' (user_families_key u) = K (user_families_key u)) \<Longrightarrow>
   listed ttl now K'"
  by (simp add: listed_def)

lemma listed_token_cmds:
  assumes "listed ttl now K" "0 < ttl"
  shows "listed ttl now (fold (rwrite now) (token_cmds fid user h ttl) K)"
proof -
  let ?K = "fold (rwrite now) (token_cmds fid user h ttl) K"
  have fid: "\<exists>m. ?K (family_key fid) = Some (VHash m, Some (now + ttl)) \<and> m (lit ''userId'') = Some user"
    by (simp add: token_cmds_effect lit_Cons)
  have other: "?K (family_key f) = K (family_key f)" if "f \<noteq> fid" for f using that by (simp add: token_cmds_effect)
  have user: "?K (user_families_key user) =
      Some (VSet (List.insert fid (members_of (live now K (user_families_key user)))), Some (now + ttl))"
    by (simp add: token_cmds_effect)
  have users: "?K (user_families_key u) = K (user_families_key u)" if "u \<noteq> user" for u using that by (simp add: token_cmds_effect)
  show ?thesis
    unfolding listed_def
  proof (intro conjI allI impI)
    fix f v d assume "?K (family_key f) = Some (v, d)"
    then show "\<exists>x. d = Some x \<and> x \<le> now + ttl"
      using fid other listed_bound [OF assms(1)] by (cases "f = fid") auto
  next
    fix f m x u assume f: "?K (family_key f) = Some (VHash m, Some x)" "now < x" "m (lit ''userId'') = Some u"
    show "\<exists>fs y. ?K (user_families_key u) = Some (VSet fs, Some y) \<and> f \<in> set fs \<and> x \<le> y"
    proof (cases "f = fid")
      case True
      then show ?thesis using f fid user by auto
    next
      case False
      then have k: "K (family_key f) = Some (VHash m, Some x)" using f(1) other by simp
      obtain fs y where fs: "K (user_families_key u) = Some (VSet fs, Some y)" "f \<in> set fs" "x \<le> y"
        using listed_member [OF assms(1) k f(2,3)] by blast
      have x: "x \<le> now + ttl" using listed_bound [OF assms(1) k] by simp
      have "live now K (user_families_key u) = Some (VSet fs)" using fs f(2) by (simp add: live_def)
      then show ?thesis using fs user users x by (cases "u = user") (auto simp: members_of_def)
    qed
  qed
qed

lemma listed_revoke_cmds:
  assumes "listed ttl now K"
  shows "listed ttl now (fold (rwrite now) (revoke_cmds fid user hashes) K)"
  unfolding listed_def
proof (intro conjI allI impI)
  let ?K = "fold (rwrite now) (revoke_cmds fid user hashes) K"
  fix f v d assume "?K (family_key f) = Some (v, d)"
  then show "\<exists>x. d = Some x \<and> x \<le> now + ttl"
    using listed_bound [OF assms] by (auto simp: revoke_cmds_family split: if_splits)
next
  let ?K = "fold (rwrite now) (revoke_cmds fid user hashes) K"
  fix f m x u assume f: "?K (family_key f) = Some (VHash m, Some x)" "now < x" "m (lit ''userId'') = Some u"
  then have k: "K (family_key f) = Some (VHash m, Some x)" "f \<noteq> fid" by (auto simp: revoke_cmds_family split: if_splits)
  obtain fs y where fs: "K (user_families_key u) = Some (VSet fs, Some y)" "f \<in> set fs" "x \<le> y"
    using listed_member [OF assms k(1) f(2,3)] by blast
  have live: "live now K (user_families_key u) = Some (VSet fs)" using fs f(2) by (simp add: live_def)
  show "\<exists>fs y. ?K (user_families_key u) = Some (VSet fs, Some y) \<and> f \<in> set fs \<and> x \<le> y"
  proof (cases "u = user \<and> user \<noteq> []")
    case False
    then show ?thesis using fs by (auto simp: revoke_cmds_user)
  next
    case True
    have "f \<in> set (removeAll fid fs)" using fs(2) k(2) by simp
    moreover from this obtain g gs where "removeAll fid fs = g # gs" by (cases "removeAll fid fs") auto
    ultimately show ?thesis
      using True fs(1,3) live by (auto simp: revoke_cmds_user members_of_def deadline_def)
  qed
qed

text \<open>No family of the user lives.\<close>

definition no_family :: "gostr \<Rightarrow> gotime \<Rightarrow> keyspace \<Rightarrow> bool" where
  "no_family u now K \<longleftrightarrow> (\<forall>fid m. live now K (family_key fid) = Some (VHash m) \<longrightarrow> m (lit ''userId'') \<noteq> Some u)"

lemma listed_forget_user:
  assumes "listed ttl now K" "no_family u now K"
  shows "listed ttl now (rwrite now (Del [user_families_key u]) K)"
  unfolding listed_def
proof (intro conjI allI impI)
  fix f v d assume "rwrite now (Del [user_families_key u]) K (family_key f) = Some (v, d)"
  then show "\<exists>x. d = Some x \<and> x \<le> now + ttl" using listed_bound [OF assms(1)] by simp
next
  fix f m x w assume f: "rwrite now (Del [user_families_key u]) K (family_key f) = Some (VHash m, Some x)" "now < x"
    "m (lit ''userId'') = Some w"
  then have "live now K (family_key f) = Some (VHash m)" "K (family_key f) = Some (VHash m, Some x)" by (simp_all add: live_def)
  then have "w \<noteq> u" using assms(2) f(3) by (auto simp: no_family_def)
  then show "\<exists>fs y. rwrite now (Del [user_families_key u]) K (user_families_key w) = Some (VSet fs, Some y) \<and> f \<in> set fs \<and> x \<le> y"
    using listed_member [OF assms(1), of f m x w] f by simp
qed

text \<open>The families of one key space are among those of another.\<close>

definition fewer_families :: "keyspace \<Rightarrow> keyspace \<Rightarrow> bool" where
  "fewer_families K' K \<longleftrightarrow> (\<forall>f. K' (family_key f) = None \<or> K' (family_key f) = K (family_key f))"

lemma fewer_refl [simp]: "fewer_families K K"
  by (simp add: fewer_families_def)

lemma fewer_trans: "fewer_families K2 K1 \<Longrightarrow> fewer_families K1 K \<Longrightarrow> fewer_families K2 K"
  unfolding fewer_families_def by metis

lemma fewer_revoke: "fewer_families (fold (rwrite now) (revoke_cmds fid user hashes) K) K"
  by (simp add: fewer_families_def revoke_cmds_family)

lemma fewer_live: "fewer_families K' K \<Longrightarrow> live now K' (family_key f) = Some v \<Longrightarrow> live now K (family_key f) = Some v"
  by (drule fewer_families_def [THEN iffD1, THEN spec, of _ _ f]) (auto simp: live_def)

lemma fewer_no_family: "fewer_families K' K \<Longrightarrow> no_family u now K \<Longrightarrow> no_family u now K'"
  unfolding no_family_def using fewer_live by blast

lemma no_family_later: "no_family u t K \<Longrightarrow> t \<le> now \<Longrightarrow> no_family u now K"
  unfolding no_family_def using live_later by blast

lemma no_family_token_cmds:
  assumes "no_family u now K" "user \<noteq> u"
  shows "no_family u now (fold (rwrite now) (token_cmds fid user h ttl) K)"
  unfolding no_family_def
proof (intro allI impI)
  let ?K = "fold (rwrite now) (token_cmds fid user h ttl) K"
  fix f m assume f: "live now ?K (family_key f) = Some (VHash m)"
  show "m (lit ''userId'') \<noteq> Some u"
  proof (cases "f = fid")
    case True
    then show ?thesis using f assms(2) live_raw [OF f] by (auto simp: token_cmds_effect lit_Cons)
  next
    case False
    then have "live now K (family_key f) = Some (VHash m)" using f by (simp add: token_cmds_effect live_def)
    then show ?thesis using assms(1) by (simp add: no_family_def)
  qed
qed

section \<open>The operations\<close>

context redis_server
begin

text \<open>A command that keeps the lists, and one that changes no family and no list.\<close>

lemma listed_call:
  assumes "rdo now c w = (r, w')" "listed ttl now (ks w)" "listed ttl now (rwrite now c (ks w))"
  shows "listed ttl now (ks w')"
proof (cases r)
  case (Inl e)
  then show ?thesis using failure [of now c w e w'] assms by auto
next
  case (Inr q)
  then show ?thesis using reply [of now c w q w'] assms by (auto simp: reffect_def)
qed

lemma reading_call:
  assumes "rdo now c w = (r, w')" "rwrite now c (ks w) = ks w"
  shows "ks w' = ks w"
  using assms reply [of now c w _ w'] failure [of now c w _ w'] by (cases r) (auto simp: reffect_def)

lemma fewer_call:
  assumes "rdo now c w = (r, w')" "fewer_families (rwrite now c (ks w)) (ks w)"
  shows "fewer_families (ks w') (ks w)"
  using assms reply [of now c w _ w'] failure [of now c w _ w'] by (cases r) (auto simp: reffect_def)

lemma revoke_family_keeps:
  assumes "redis_revoke_family rdo now fid user w = (res, w')" "listed ttl now (ks w)"
  shows "listed ttl now (ks w') \<and> fewer_families (ks w') (ks w) \<and> (res = None \<longrightarrow> ks w' (family_key fid) = None)"
proof -
  obtain ru w1 where u: "revoked_user rdo now fid user w = (ru, w1)" by (metis surj_pair)
  obtain r0 w0 where c0: "rdo now (HGetAll (family_key fid)) w = (r0, w0)" by (metis surj_pair)
  have "ks w0 = ks w" by (rule reading_call [OF c0]) simp
  then have k1: "ks w1 = ks w" using u c0 by (auto simp: revoked_user_def split: if_splits sum.splits)
  obtain rm w2 where m: "rdo now (SMembers (family_tokens_key fid)) w1 = (rm, w2)" by (metis surj_pair)
  have k2: "ks w2 = ks w" using reading_call [OF m] k1 by simp
  show ?thesis
  proof (cases "\<exists>u q. ru = Inr u \<and> rm = Inr q")
    case False
    then show ?thesis using assms u m k1 k2 by (auto simp: redis_revoke_family_def split: sum.splits)
  next
    case True
    then obtain v q where vq: "ru = Inr v" "rm = Inr q" by blast
    let ?c = "Multi (revoke_cmds fid v (reply_members q))"
    obtain r3 w3 where c3: "rdo now ?c w2 = (r3, w3)" by (metis surj_pair)
    have "listed ttl now (ks w3)"
      by (rule listed_call [OF c3]) (use assms(2) k2 listed_revoke_cmds in simp_all)
    moreover have "fewer_families (ks w3) (ks w2)" by (rule fewer_call [OF c3]) (simp add: fewer_revoke)
    moreover have "ks w3 (family_key fid) = None" if "r3 = Inr x" for x
      using multi_reply [OF c3 [unfolded that]] by (simp add: revoke_cmds_family)
    ultimately show ?thesis using assms(1) u m vq c3 k2 by (cases r3) (auto simp: redis_revoke_family_def)
  qed
qed

lemma revoke_families_keeps:
  "revoke_families rdo now user fids w = (res, w') \<Longrightarrow> listed ttl now (ks w) \<Longrightarrow>
   listed ttl now (ks w') \<and> fewer_families (ks w') (ks w) \<and> (res = None \<longrightarrow> (\<forall>f\<in>set fids. ks w' (family_key f) = None))"
proof (induction fids arbitrary: w)
  case (Cons f fids)
  obtain r w1 where f: "redis_revoke_family rdo now f user w = (r, w1)" by (metis surj_pair)
  note k = revoke_family_keeps [OF f Cons.prems(2)]
  show ?case
  proof (cases r)
    case (Some e)
    then show ?thesis using Cons.prems f k by auto
  next
    case None
    then have rest: "revoke_families rdo now user fids w1 = (res, w')" using Cons.prems(1) f by simp
    note i = Cons.IH [OF rest] k
    then have less: "fewer_families (ks w') (ks w1)" by blast
    then have "ks w' (family_key f) = None" using None k by (auto simp: fewer_families_def dest: spec [of _ f])
    then show ?thesis using i fewer_trans [OF less] by auto
  qed
qed simp

text \<open>Revoking a user leaves the user no family.\<close>

lemma members_reply:
  assumes "rdo now (SMembers (user_families_key u)) w = (Inr q, w1)" "listed ttl now (ks w)"
    "live now (ks w) (family_key f) = Some (VHash m)" "m (lit ''userId'') = Some u"
  shows "f \<in> set (reply_members q)"
proof -
  obtain x where x: "ks w (family_key f) = Some (VHash m, Some x)" "now < x"
    using live_raw_deadline [OF assms(3)] listed_bound [OF assms(2)] by force
  obtain fs y where fs: "ks w (user_families_key u) = Some (VSet fs, Some y)" "f \<in> set fs" "x \<le> y"
    using listed_member [OF assms(2) x assms(4)] by blast
  have "live now (ks w) (user_families_key u) = Some (VSet fs)" using fs x by (simp add: live_def)
  then show ?thesis using smembers_reply [OF assms(1)] fs(2) by (auto simp: reply_members_def members_of_def)
qed

lemma revoke_user_keeps:
  assumes "redis_revoke_user rdo now u w = (res, w')" "listed ttl now (ks w)"
  shows "listed ttl now (ks w') \<and> fewer_families (ks w') (ks w) \<and> (res = None \<longrightarrow> no_family u now (ks w'))"
proof -
  obtain r w1 where r: "rdo now (SMembers (user_families_key u)) w = (r, w1)" by (metis surj_pair)
  have k1: "ks w1 = ks w" by (rule reading_call [OF r]) simp
  show ?thesis
  proof (cases r)
    case (Inl e)
    then show ?thesis using assms r k1 by (auto simp: redis_revoke_user_def)
  next
    case (Inr q)
    obtain r2 w2 where r2: "revoke_families rdo now u (reply_members q) w1 = (r2, w2)" by (metis surj_pair)
    note k = revoke_families_keeps [OF r2, of ttl]
    show ?thesis
    proof (cases r2)
      case (Some e)
      then show ?thesis using assms r Inr r2 k k1 by (auto simp: redis_revoke_user_def)
    next
      case None
      have gone: "no_family u now (ks w2)"
        unfolding no_family_def
      proof (intro allI impI notI)
        fix f m assume f: "live now (ks w2) (family_key f) = Some (VHash m)" "m (lit ''userId'') = Some u"
        have "live now (ks w) (family_key f) = Some (VHash m)" using fewer_live [OF _ f(1), of "ks w"] k assms(2) k1 by simp
        from members_reply [OF r [unfolded Inr] assms(2) this f(2)]
        have "ks w2 (family_key f) = None" using k assms(2) k1 None by simp
        then show False using f(1) by (simp add: live_def)
      qed
      obtain r3 w3 where r3: "rdo now (Del [user_families_key u]) w2 = (r3, w3)" by (metis surj_pair)
      have l3: "listed ttl now (ks w3)"
        by (rule listed_call [OF r3]) (use k assms(2) k1 gone listed_forget_user in simp_all)
      have less: "fewer_families (ks w3) (ks w2)" by (rule fewer_call [OF r3]) (simp add: fewer_families_def)
      have "fewer_families (ks w3) (ks w)" using fewer_trans [OF less] k assms(2) k1 by simp
      then show ?thesis using fewer_no_family [OF less gone] assms r Inr r2 None r3 l3 by (cases r3) (auto simp: redis_revoke_user_def)
    qed
  qed
qed

lemma new_token_keeps:
  assumes "listed ttl now (ks w)" "0 < ttl"
  shows "listed ttl now (ks (snd (redis_new_token rdo H rt rf now user ttl w)))"
proof (cases "\<exists>tok fid. rt = Some tok \<and> rf = Some fid")
  case True
  then obtain tok fid where t: "rt = Some tok" "rf = Some fid" by blast
  obtain r w1 where r: "rdo now (Multi (token_cmds fid user (H tok) ttl)) w = (r, w1)" by (metis surj_pair)
  have "listed ttl now (ks w1)" by (rule listed_call [OF r assms(1)]) (use listed_token_cmds [OF assms] in simp)
  then show ?thesis using t r by (cases r) (simp_all add: redis_new_token_def)
qed (use assms in \<open>auto simp: redis_new_token_def split: option.split\<close>)

lemma watch_keeps:
  assumes "watch_family rdo H rnd now ttl h fid w = (q, w')" "listed ttl now (ks w)" "0 < ttl"
  shows "listed ttl now (ks w')"
proof -
  obtain r w1 where r: "rdo now (HGetAll (family_key fid)) w = (r, w1)" by (metis surj_pair)
  have k1: "ks w1 = ks w" by (rule reading_call [OF r]) simp
  have l: "listed ttl now (ks w2)" if "rdo now (MultiWatched (family_key fid) (token_cmds fid user (H new) ttl)) w1 = (x, w2)" for user new x w2
    by (rule listed_call [OF that]) (use assms(2,3) k1 listed_token_cmds in simp_all)
  show ?thesis
    using assms(1,2) k1 l unfolding watch_family_def r
    by (auto simp: Let_def split: sum.splits option.splits prod.splits rreply.splits if_splits)
qed

lemma rotate_keeps:
  "listed ttl now (ks w) \<Longrightarrow> 0 < ttl \<Longrightarrow> listed ttl now (ks (snd (redis_rotate rdo H rnds now ttl tok tries w)))"
proof (induction tries arbitrary: w)
  case (Suc tries)
  obtain r w1 where r: "rdo now (Get (token_family_key (H tok))) w = (r, w1)" by (metis surj_pair)
  have k1: "ks w1 = ks w" by (rule get_state [OF r])
  show ?case
  proof (cases "\<exists>fid. r = Inr (RStr fid)")
    case False
    then show ?thesis using Suc.prems r k1 by (auto simp: Let_def split: sum.splits rreply.splits)
  next
    case True
    then obtain fid where fid: "r = Inr (RStr fid)" by blast
    obtain q w2 where q: "watch_family rdo H (rnds tries) now ttl (H tok) fid w1 = (q, w2)" by (metis surj_pair)
    have l2: "listed ttl now (ks w2)" using watch_keeps [OF q] Suc.prems k1 by simp
    have rev: "listed ttl now (ks (snd (redis_revoke_family rdo now fid user w2)))" for user
      using revoke_family_keeps [OF _ l2] by (metis surj_pair snd_conv)
    show ?thesis using l2 rev Suc.IH [OF l2 Suc.prems(2)] by (cases q) (simp_all add: r fid q Let_def)
  qed
qed simp

lemma delete_token_keeps:
  assumes "listed ttl now (ks w)"
  shows "listed ttl now (ks (snd (redis_delete_token rdo H now tok w))) \<and>
    fewer_families (ks (snd (redis_delete_token rdo H now tok w))) (ks w)"
proof -
  obtain r w1 where r: "rdo now (Get (token_family_key (H tok))) w = (r, w1)" by (metis surj_pair)
  have k1: "ks w1 = ks w" by (rule get_state [OF r])
  show ?thesis
  proof (cases "\<exists>fid. r = Inr (RStr fid)")
    case False
    then show ?thesis using assms r k1 by (auto simp: redis_delete_token_def split: sum.splits rreply.splits)
  next
    case True
    then obtain fid where fid: "r = Inr (RStr fid)" by blast
    obtain q w2 where q: "rdo now (HGetAll (family_key fid)) w1 = (q, w2)" by (metis surj_pair)
    have k2: "ks w2 = ks w" using reading_call [OF q] k1 by simp
    have "listed ttl now (ks (snd (redis_revoke_family rdo now fid user w2))) \<and>
        fewer_families (ks (snd (redis_revoke_family rdo now fid user w2))) (ks w2)" for user
      using revoke_family_keeps [of now fid user w2] assms k2 by (metis surj_pair snd_conv)
    then show ?thesis using assms k2 by (cases q) (simp_all add: redis_delete_token_def r fid q)
  qed
qed

text \<open>Without a family, nothing is issued to the user, and no family comes but by a new login.\<close>

lemma no_family_call:
  assumes "rdo now c w = (r, w')" "no_family u now (ks w)" "no_family u now (rwrite now c (ks w))"
  shows "no_family u now (ks w')"
  using assms reply [of now c w _ w'] failure [of now c w _ w'] by (cases r) (auto simp: reffect_def split: if_splits)

lemma new_token_no_family:
  assumes "no_family u now (ks w)" "user \<noteq> u"
  shows "no_family u now (ks (snd (redis_new_token rdo H rt rf now user ttl w)))"
proof (cases "\<exists>tok fid. rt = Some tok \<and> rf = Some fid")
  case True
  then obtain tok fid where t: "rt = Some tok" "rf = Some fid" by blast
  obtain r w1 where r: "rdo now (Multi (token_cmds fid user (H tok) ttl)) w = (r, w1)" by (metis surj_pair)
  have "no_family u now (ks w1)" by (rule no_family_call [OF r assms(1)]) (use no_family_token_cmds [OF assms] in simp)
  then show ?thesis using t r by (cases r) (simp_all add: redis_new_token_def)
qed (use assms in \<open>auto simp: redis_new_token_def split: option.split\<close>)

lemma watch_no_family:
  assumes "watch_family rdo H rnd now ttl h fid w = (q, w')" "no_family u now (ks w)"
  shows "no_family u now (ks w')"
proof -
  obtain r w1 where r: "rdo now (HGetAll (family_key fid)) w = (r, w1)" by (metis surj_pair)
  have k1: "ks w1 = ks w" by (rule reading_call [OF r]) simp
  have user: "hash_field (reply_hash x) (lit ''userId'') \<noteq> u" if "r = Inr x" "hash_field (reply_hash x) (lit ''userId'') \<noteq> []" for x
  proof -
    have "reply_hash x = hash_of (live now (ks w) (family_key fid))"
      using hgetall_reply [OF r [unfolded that(1)]] by (simp add: reply_hash_def)
    then have "\<exists>m. live now (ks w) (family_key fid) = Some (VHash m) \<and> m (lit ''userId'') = Some (hash_field (reply_hash x) (lit ''userId''))"
      using that(2) hash_of_Some [of "live now (ks w) (family_key fid)" "lit ''userId''" "hash_field (reply_hash x) (lit ''userId'')"]
      by (auto simp: hash_field_def split: option.splits)
    then show ?thesis using assms(2) by (auto simp: no_family_def)
  qed
  have l: "no_family u now (ks w2)"
    if "rdo now (MultiWatched (family_key fid) (token_cmds fid user (H new) ttl)) w1 = (x, w2)" "user \<noteq> u" for user new x w2
    by (rule no_family_call [OF that(1)]) (use assms(2) k1 no_family_token_cmds that(2) in simp_all)
  show ?thesis
    using assms(1,2) k1 l user unfolding watch_family_def r
    by (auto simp: Let_def split: sum.splits option.splits prod.splits rreply.splits if_splits)
qed

lemma rotate_no_family:
  "listed life now (ks w) \<Longrightarrow> 0 < life \<Longrightarrow> no_family u now (ks w) \<Longrightarrow>
   no_family u now (ks (snd (redis_rotate rdo H rnds now life tok tries w)))"
proof (induction tries arbitrary: w)
  case (Suc tries)
  obtain r w1 where r: "rdo now (Get (token_family_key (H tok))) w = (r, w1)" by (metis surj_pair)
  have k1: "ks w1 = ks w" by (rule get_state [OF r])
  show ?case
  proof (cases "\<exists>fid. r = Inr (RStr fid)")
    case False
    then show ?thesis using Suc.prems r k1 by (auto simp: Let_def split: sum.splits rreply.splits)
  next
    case True
    then obtain fid where fid: "r = Inr (RStr fid)" by blast
    obtain q w2 where q: "watch_family rdo H (rnds tries) now life (H tok) fid w1 = (q, w2)" by (metis surj_pair)
    have l2: "listed life now (ks w2)" "no_family u now (ks w2)"
      using watch_keeps [OF q] watch_no_family [OF q, of u] Suc.prems k1 by simp_all
    have "fewer_families (ks (snd (redis_revoke_family rdo now fid user w2))) (ks w2)" for user
      using revoke_family_keeps [OF _ l2(1)] by (metis surj_pair snd_conv)
    then have rev: "no_family u now (ks (snd (redis_revoke_family rdo now fid user w2)))" for user
      using fewer_no_family l2(2) by blast
    show ?thesis using l2 rev Suc.IH [OF l2(1) Suc.prems(2) l2(2)] by (cases q) (simp_all add: r fid q Let_def)
  qed
qed simp

text \<open>Nothing is issued to the user.\<close>

lemma no_family_refused:
  "no_family u now (ks w) \<Longrightarrow> case fst (redis_rotate rdo H rnds now ttl tok tries w) of Inl _ \<Rightarrow> True | Inr (v, _) \<Rightarrow> v \<noteq> u"
proof (induction tries arbitrary: w)
  case (Suc tries)
  obtain r w1 where r: "rdo now (Get (token_family_key (H tok))) w = (r, w1)" by (metis surj_pair)
  have k1: "ks w1 = ks w" by (rule get_state [OF r])
  show ?case
  proof (cases "\<exists>fid. r = Inr (RStr fid)")
    case False
    then show ?thesis using r by (auto simp: Let_def split: sum.splits rreply.splits)
  next
    case True
    then obtain fid where fid: "r = Inr (RStr fid)" by blast
    obtain q w2 where q: "watch_family rdo H (rnds tries) now ttl (H tok) fid w1 = (q, w2)" by (metis surj_pair)
    obtain g w3 where g: "rdo now (HGetAll (family_key fid)) w1 = (g, w3)" by (metis surj_pair)
    have k3: "ks w3 = ks w" using reading_call [OF g] k1 by simp
    show ?thesis
    proof (cases q)
      case WatchChanged
      then have "ks w2 = ks w3"
        using q g unfolding watch_family_def
        by (auto simp: Let_def reffect_def split: sum.splits option.splits prod.splits rreply.splits if_splits dest: reply)
      then show ?thesis using Suc.IH [of w2] Suc.prems k3 WatchChanged by (simp add: r fid q Let_def)
    next
      case (WatchErr e rv us)
      then show ?thesis by (simp add: r fid q Let_def)
    next
      case (WatchOk v new)
      then obtain x where x: "g = Inr x" "hash_field (reply_hash x) (lit ''userId'') = v" "v \<noteq> []"
        using q g unfolding watch_family_def
        by (auto simp: Let_def split: sum.splits option.splits prod.splits rreply.splits if_splits)
      have "reply_hash x = hash_of (live now (ks w) (family_key fid))"
        using hgetall_reply [OF g [unfolded x(1)]] k1 by (simp add: reply_hash_def)
      then have "\<exists>m. live now (ks w) (family_key fid) = Some (VHash m) \<and> m (lit ''userId'') = Some v"
        using x(2,3) hash_of_Some [of "live now (ks w) (family_key fid)" "lit ''userId''" v]
        by (auto simp: hash_field_def split: option.splits)
      then have "v \<noteq> u" using Suc.prems by (auto simp: no_family_def)
      then show ?thesis using WatchOk by (simp add: r fid q Let_def)
    qed
  qed
qed simp

end

section \<open>Runs\<close>

text \<open>Calls with one lifetime of tokens, in the order of their times.\<close>

fun call_time :: "refresh_call \<Rightarrow> gotime" where
  "call_time (CallNew tok fid now user ttl) = now"
| "call_time (CallRotate rnds now ttl token tries) = now"
| "call_time (CallDelete now token) = now"
| "call_time (CallRevokeUser now user) = now"

fun call_lives :: "duration \<Rightarrow> refresh_call \<Rightarrow> bool" where
  "call_lives ttl0 (CallNew tok fid now user ttl) = (ttl = ttl0)"
| "call_lives ttl0 (CallRotate rnds now ttl token tries) = (ttl = ttl0)"
| "call_lives ttl0 _ = True"

text \<open>The call is not a login of the user.\<close>

fun not_login :: "gostr \<Rightarrow> refresh_call \<Rightarrow> bool" where
  "not_login u (CallNew tok fid now user ttl) = (user \<noteq> u)"
| "not_login u _ = True"

context redis_server
begin

lemma listed_exec:
  assumes "listed ttl t (ks w)" "t \<le> call_time c" "call_lives ttl c" "0 < ttl"
  shows "listed ttl (call_time c) (ks (refresh_exec rdo H c w))"
proof -
  have l: "listed ttl (call_time c) (ks w)" by (rule listed_later [OF assms(1,2)])
  show ?thesis
  proof (cases c)
    case (CallRevokeUser now user)
    then show ?thesis using revoke_user_keeps [OF _ l] by (metis call_time.simps(4) refresh_exec.simps(4) surj_pair snd_conv)
  qed (use l assms(3,4) in \<open>simp_all add: new_token_keeps rotate_keeps delete_token_keeps\<close>)
qed

lemma listed_run:
  "listed ttl t (ks w) \<Longrightarrow> sorted (t # map call_time calls @ [now]) \<Longrightarrow> list_all (call_lives ttl) calls \<Longrightarrow> 0 < ttl \<Longrightarrow>
   listed ttl now (ks (fold (refresh_exec rdo H) calls w))"
proof (induction calls arbitrary: t w)
  case Nil
  then show ?case using listed_later by simp
next
  case (Cons c calls)
  have "listed ttl (call_time c) (ks (refresh_exec rdo H c w))" using listed_exec Cons.prems by simp
  then show ?case using Cons.IH [of "call_time c" "refresh_exec rdo H c w"] Cons.prems by simp
qed

text \<open>A call that is not a new login of the user leaves the user without families.\<close>

lemma no_family_exec:
  assumes "listed ttl t (ks w)" "t \<le> call_time c" "call_lives ttl c" "0 < ttl" "no_family u t (ks w)" "not_login u c"
  shows "no_family u (call_time c) (ks (refresh_exec rdo H c w))"
proof -
  have l: "listed ttl (call_time c) (ks w)" by (rule listed_later [OF assms(1,2)])
  have n: "no_family u (call_time c) (ks w)" by (rule no_family_later [OF assms(5,2)])
  show ?thesis
  proof (cases c)
    case (CallRevokeUser now user)
    have "fewer_families (ks (snd (redis_revoke_user rdo now user w))) (ks w)"
      using revoke_user_keeps [OF _ l] CallRevokeUser by (metis call_time.simps(4) surj_pair snd_conv)
    then show ?thesis using CallRevokeUser n fewer_no_family by simp
  next
    case (CallDelete now tok)
    then show ?thesis using delete_token_keeps [where ttl = ttl and now = now and w = w and tok = tok and H = H] l n fewer_no_family by auto
  qed (use l n assms(3,4,6) in \<open>simp_all add: new_token_no_family rotate_no_family\<close>)
qed

lemma no_family_run:
  "listed ttl t (ks w) \<Longrightarrow> no_family u t (ks w) \<Longrightarrow> sorted (t # map call_time calls @ [now]) \<Longrightarrow>
   list_all (call_lives ttl) calls \<Longrightarrow> list_all (not_login u) calls \<Longrightarrow> 0 < ttl \<Longrightarrow>
   no_family u now (ks (fold (refresh_exec rdo H) calls w))"
proof (induction calls arbitrary: t w)
  case Nil
  then show ?case using no_family_later by simp
next
  case (Cons c calls)
  have "listed ttl (call_time c) (ks (refresh_exec rdo H c w))" using listed_exec Cons.prems by simp
  moreover have "no_family u (call_time c) (ks (refresh_exec rdo H c w))" using no_family_exec Cons.prems by simp
  ultimately show ?case using Cons.IH [of "call_time c" "refresh_exec rdo H c w"] Cons.prems by simp
qed

lemma revoked_user_refused:
  assumes "ks w0 = Map.empty" "sorted (map call_time calls @ now # map call_time later @ [t])"
    and "list_all (call_lives ttl) (calls @ later)" "0 < ttl" "list_all (not_login u) later"
    and "redis_revoke_user rdo now u (fold (refresh_exec rdo H) calls w0) = (None, w)"
  shows "case fst (redis_rotate rdo H rnds t ttl' tok tries (fold (refresh_exec rdo H) later w)) of Inl _ \<Rightarrow> True | Inr (v, _) \<Rightarrow> v \<noteq> u"
proof (rule no_family_refused)
  define t0 where "t0 = (case calls of [] \<Rightarrow> now | c # _ \<Rightarrow> call_time c)"
  have s: "sorted (t0 # map call_time calls @ [now])" "sorted (now # map call_time later @ [t])"
    using assms(2) by (cases calls; auto simp: t0_def sorted_append)+
  moreover have "listed ttl t0 (ks w0)" by (simp add: listed_def assms(1))
  ultimately have "listed ttl now (ks (fold (refresh_exec rdo H) calls w0))" using listed_run assms(3,4) by (metis list_all_append)
  then have "listed ttl now (ks w)" "no_family u now (ks w)" using revoke_user_keeps [OF assms(6)] by blast+
  then show "no_family u t (ks (fold (refresh_exec rdo H) later w))"
    using no_family_run s(2) assms(3-5) by (metis list_all_append)
qed

end

end
