(* ===== verification/ClientIp.thy ===== *)
theory ClientIp
  imports Prelude
begin

text \<open>
  Whose request it is (\<open>backend/internal/util/client_ip.go\<close>): the address that rate limits and audit entries are kept
  under.  The functions of package \<open>net\<close> that read and print addresses are parameters.
\<close>

record ('i, 'n) ip_lib =
  il_parse :: "gostr \<Rightarrow> 'i option"                      \<comment> \<open>\<open>ParseIP\<close>\<close>
  il_show :: "'i \<Rightarrow> gostr"
  il_host :: "gostr \<Rightarrow> gostr option"                     \<comment> \<open>\<open>SplitHostPort\<close>, the host\<close>
  il_cidr :: "gostr \<Rightarrow> gostr + 'n"                       \<comment> \<open>\<open>ParseCIDR\<close>, the network\<close>
  il_single :: "'i \<Rightarrow> 'n"                                \<comment> \<open>the network of one address\<close>
  il_in :: "'n \<Rightarrow> 'i \<Rightarrow> bool"

section \<open>Trusted proxies\<close>

definition proxy_entry :: "('i, 'n) ip_lib \<Rightarrow> gostr \<Rightarrow> gostr + 'n" where
  "proxy_entry l entry =
     (if 47 \<in> set entry then il_cidr l entry
      else case il_parse l entry of None \<Rightarrow> Inl (lit ''invalid IP address: '' @ entry) | Some ip \<Rightarrow> Inr (il_single l ip))"

fun proxy_nets :: "('i, 'n) ip_lib \<Rightarrow> gostr list \<Rightarrow> gostr + 'n list" where
  "proxy_nets l [] = Inr []"
| "proxy_nets l (raw # rest) =
     (if trim_space raw = [] then proxy_nets l rest
      else case proxy_entry l (trim_space raw) of
        Inl e \<Rightarrow> Inl e
      | Inr n \<Rightarrow> map_sum id ((#) n) (proxy_nets l rest))"

text \<open>\<open>None\<close>: nobody is trusted.\<close>

definition new_trusted_proxies :: "('i, 'n) ip_lib \<Rightarrow> gostr list \<Rightarrow> gostr + 'n list option" where
  "new_trusted_proxies l entries =
     map_sum id (\<lambda>nets. if nets = [] then None else Some nets) (proxy_nets l entries)"


section \<open>The address of a request\<close>





section \<open>Properties\<close>









end
