(* ===== verification/Language.thy ===== *)
theory Language
  imports Prelude "HOL-Library.Word"
begin

unbundle bit_operations_syntax

text \<open>
  Text normalisation, language detection, tokens and sparse vectors of
  \<open>backend/pkg/retrieval/language.go\<close>.  The tables of package \<open>unicode\<close> are a parameter;
  \<open>float32\<close> is read as a real number.
\<close>

record unicode =
  un_lower :: "rune \<Rightarrow> rune"       \<comment> \<open>\<open>ToLower\<close> beyond ASCII\<close>
  un_letter :: "rune \<Rightarrow> bool"      \<comment> \<open>\<open>IsLetter\<close>, \<open>\\p{L}\<close>\<close>
  un_number :: "rune \<Rightarrow> bool"      \<comment> \<open>\<open>\\p{N}\<close>\<close>
  un_digit :: "rune \<Rightarrow> bool"       \<comment> \<open>\<open>IsDigit\<close>\<close>
  un_punct :: "rune \<Rightarrow> bool"       \<comment> \<open>\<open>IsPunct\<close>\<close>
  un_han :: "rune \<Rightarrow> bool"         \<comment> \<open>\<open>In(r, Han)\<close>\<close>

section \<open>Normalisation\<close>

text \<open>\<open>\\r\\n\<close> becomes \<open>\\n\<close>, then a lone \<open>\\r\<close> does, and a tab becomes a space.\<close>

fun crlf :: "gostr \<Rightarrow> gostr" where
  "crlf [] = []"
| "crlf [r] = [r]"
| "crlf (r # r' # s) = (if r = 13 \<and> r' = 10 then 10 # crlf s else r # crlf (r' # s))"

definition line_breaks :: "gostr \<Rightarrow> gostr" where
  "line_breaks s = map (\<lambda>r. if r = 13 then 10 else if r = 9 then 32 else r) (crlf s)"

text \<open>The full-width comma, full stop, colon, semicolon, question and exclamation mark, parentheses.\<close>

definition ascii_punct :: "rune \<Rightarrow> rune" where
  "ascii_punct r =
     (if r = 65292 then 44 else if r = 12290 then 46 else if r = 65306 then 58 else if r = 65307 then 59
      else if r = 65311 then 63 else if r = 65281 then 33 else if r = 65288 then 40 else if r = 65289 then 41
      else r)"

definition squeeze_line :: "gostr \<Rightarrow> gostr" where
  "squeeze_line line = join (str_fields line) [32]"

definition normalize_text :: "unicode \<Rightarrow> gostr \<Rightarrow> gostr" where
  "normalize_text u text0 =
     (let text = trim_space text0 in
      if text = [] then []
      else
        let t1 = line_breaks (to_lower (un_lower u) text);
            t2 = join (map squeeze_line (split_on 10 t1)) [10]
        in trim_space (map ascii_punct t2))"

section \<open>Language\<close>

definition is_latin_letter :: "rune \<Rightarrow> bool" where
  "is_latin_letter r \<longleftrightarrow> (97 \<le> r \<and> r \<le> 122) \<or> (65 \<le> r \<and> r \<le> 90)"

definition detect_language :: "unicode \<Rightarrow> gostr \<Rightarrow> gostr" where
  "detect_language u text0 =
     (let text = normalize_text u text0 in
      if text = [] then lit ''other''
      else
        let cjk = length (filter (un_han u) text);
            latin = length (filter (\<lambda>r. \<not> un_han u r \<and> is_latin_letter r) text)
        in if latin < cjk \<and> 2 \<le> cjk then lit ''zh''
           else if cjk \<le> latin \<and> 3 \<le> latin then lit ''en''
           else lit ''other'')"

section \<open>Tokens\<close>

text \<open>\<open>[^\\p{L}\\p{N}]+\<close> replaced by one space; \<open>gap\<close> says that the last rune was replaced.\<close>

fun replace_runs :: "(rune \<Rightarrow> bool) \<Rightarrow> bool \<Rightarrow> gostr \<Rightarrow> gostr" where
  "replace_runs keep gap [] = []"
| "replace_runs keep gap (r # s) =
     (if keep r then r # replace_runs keep False s
      else if gap then replace_runs keep True s
      else 32 # replace_runs keep True s)"

definition tokenize_latin :: "unicode \<Rightarrow> gostr \<Rightarrow> gostr list" where
  "tokenize_latin u text =
     filter (\<lambda>f. 2 \<le> length f)
       (map trim_space (str_fields (replace_runs (\<lambda>r. un_letter u r \<or> un_number u r) False text)))"

fun bigrams :: "gostr \<Rightarrow> gostr list" where
  "bigrams [] = []"
| "bigrams [r] = [[r]]"
| "bigrams (r # r' # s) = [r] # [r, r'] # bigrams (r' # s)"

definition tokenize_chinese :: "unicode \<Rightarrow> gostr \<Rightarrow> gostr list" where
  "tokenize_chinese u text =
     bigrams (filter (\<lambda>r. \<not> (is_space r \<or> un_punct u r) \<and> (un_letter u r \<or> un_digit u r \<or> un_han u r)) text)"

definition tokenize :: "unicode \<Rightarrow> gostr \<Rightarrow> gostr \<Rightarrow> gostr list" where
  "tokenize u text0 language =
     (let text = normalize_text u text0; l = trim_space language in
      if text = [] then []
      else if l = lit ''zh'' then tokenize_chinese u text
      else if l = lit ''en'' then tokenize_latin u text
      else
        let tokens = tokenize_latin u text in
        if tokens \<noteq> [] then tokens else tokenize_chinese u text)"

section \<open>Sparse vectors\<close>

text \<open>The bytes of the UTF-8 encoding.\<close>

definition utf8_rune :: "rune \<Rightarrow> nat list" where
  "utf8_rune r =
     (if r < 128 then [r]
      else if r < 2048 then [192 + r div 64, 128 + r mod 64]
      else if r < 65536 then [224 + r div 4096, 128 + r div 64 mod 64, 128 + r mod 64]
      else [240 + r div 262144, 128 + r div 4096 mod 64, 128 + r div 64 mod 64, 128 + r mod 64])"

text \<open>\<open>fnv.New32a\<close>.\<close>

definition fnv32a :: "nat list \<Rightarrow> 32 word" where
  "fnv32a bs = fold (\<lambda>b h. (h XOR of_nat b) * 16777619) bs 2166136261"

definition sparse_hash_mod :: "32 word" where
  "sparse_hash_mod = 65521"

definition hash_token :: "gostr \<Rightarrow> 32 word" where
  "hash_token token = fnv32a (concat (map utf8_rune token)) mod sparse_hash_mod"

record sparse_vector =
  sv_indices :: "32 word list"
  sv_values :: "real list"

definition build_sparse_vector :: "unicode \<Rightarrow> gostr \<Rightarrow> gostr \<Rightarrow> sparse_vector" where
  "build_sparse_vector u text language =
     (let tokens = tokenize u text language;
          hashes = map hash_token (filter (\<lambda>t. trim_space t \<noteq> []) tokens)
      in if hashes = [] then \<lparr>sv_indices = [], sv_values = []\<rparr>
         else
           let indices = sort (remdups hashes)
           in \<lparr>sv_indices = indices,
               sv_values = map (\<lambda>i. real (count_list hashes i) / real (length tokens)) indices\<rparr>)"

section \<open>Query variants\<close>

text \<open>The prefixes, in Chinese ``excuse me, may I ask'', ``may I ask'', ``help me'', ``I want to know'',
  ``I want to learn about'', and three in English.\<close>

definition query_prefixes :: "gostr list" where
  "query_prefixes =
     [[35831, 38382, 19968, 19979], [35831, 38382], [24110, 25105], [25105, 24819, 30693, 36947],
      [25105, 24819, 20102, 35299], lit ''what is'', lit ''how to'', lit ''tell me'']"

definition build_query_variants :: "unicode \<Rightarrow> gostr \<Rightarrow> gostr list" where
  "build_query_variants u query =
     (let normalized = normalize_text u query in
      if normalized = [] then []
      else
        let without = trim_space (trim_suffix (trim_suffix normalized (lit ''?'')) [65311]);
            v1 = [normalized] @ (if without \<noteq> [] \<and> without \<noteq> normalized then [without] else []);
            v2 = concat (map (\<lambda>p. let t = trim_space (trim_prefix without p) in
                                  if t \<noteq> [] \<and> t \<noteq> normalized \<and> t \<noteq> without then [t] else [])
                           query_prefixes)
        in uniq_loop {} (v1 @ v2))"

section \<open>Normal texts\<close>

text \<open>The table maps beyond ASCII to runes that are in lower case already.\<close>

definition lower_idem :: "unicode \<Rightarrow> bool" where
  "lower_idem u \<longleftrightarrow>
     (\<forall>r. lower_rune (un_lower u) (lower_rune (un_lower u) r) = lower_rune (un_lower u) r)"

definition plain_rune :: "unicode \<Rightarrow> rune \<Rightarrow> bool" where
  "plain_rune u r \<longleftrightarrow> lower_rune (un_lower u) r = r \<and> ascii_punct r = r \<and> r \<noteq> 9 \<and> r \<noteq> 13"

text \<open>A line is squeezed when it is words separated by single spaces.\<close>

definition squeezed :: "gostr \<Rightarrow> bool" where
  "squeezed l \<longleftrightarrow> (\<exists>ws. (\<forall>w\<in>set ws. is_word w) \<and> l = join ws [32])"

lemma squeeze_squeezed: "squeezed (squeeze_line l)"
  unfolding squeezed_def squeeze_line_def using str_fields_words by blast

lemma squeezed_fix: "squeezed l \<Longrightarrow> squeeze_line l = l"
  by (auto simp: squeezed_def squeeze_line_def str_fields_join)

lemma squeezed_ends: "squeezed l \<Longrightarrow> l \<noteq> [] \<Longrightarrow> \<not> is_space (hd l) \<and> \<not> is_space (last l)"
proof -
  assume "squeezed l" and ne: "l \<noteq> []"
  then obtain ws where ws: "\<forall>w\<in>set ws. is_word w" "l = join ws [32]" unfolding squeezed_def by blast
  have "ws \<noteq> []" using ne ws(2) by (cases ws) simp_all
  then have "\<not> is_space (hd (join ws [32])) \<and> \<not> is_space (last (join ws [32]))"
    by (intro join_words_ends [THEN conjunct2]) (use ws(1) in blast)
  then show ?thesis unfolding ws(2) .
qed

lemma squeezed_set: "squeezed l \<Longrightarrow> r \<in> set l \<Longrightarrow> \<not> is_space r \<or> r = 32"
proof -
  assume "squeezed l" and r: "r \<in> set l"
  then obtain ws where ws: "\<forall>w\<in>set ws. is_word w" "l = join ws [32]" by (auto simp: squeezed_def)
  then have "(\<exists>w\<in>set ws. r \<in> set w) \<or> r = 32" using r set_join [of ws "[32]"] by auto
  then show ?thesis using ws(1) by (auto simp: is_word_def)
qed

lemma ascii_punct_space [simp]: "is_space (ascii_punct r) = is_space r"
proof (cases "ascii_punct r = r")
  case False
  then have "r \<in> {65292, 12290, 65306, 65307, 65311, 65281, 65288, 65289}"
    unfolding ascii_punct_def by (simp split: if_splits)
  then show ?thesis by (elim insertE) (simp_all add: ascii_punct_def is_space_def)
qed simp

lemma ascii_punct_word: "is_word w \<Longrightarrow> is_word (map ascii_punct w)"
  unfolding is_word_def by simp

lemma squeezed_ascii: "squeezed l \<Longrightarrow> squeezed (map ascii_punct l)"
proof -
  assume "squeezed l"
  then obtain ws where ws: "\<forall>w\<in>set ws. is_word w" "l = join ws [32]" by (auto simp: squeezed_def)
  have "map ascii_punct l = join (map (map ascii_punct) ws) [32]"
    by (simp add: ws(2) map_join ascii_punct_def)
  then show ?thesis using ws(1) ascii_punct_word unfolding squeezed_def
    by (intro exI [of _ "map (map ascii_punct) ws"]) auto
qed

text \<open>Trimming squeezed lines drops the empty lines at both ends.\<close>

lemma trim_left_lines:
  "(\<And>l. l \<in> set ls \<Longrightarrow> squeezed l) \<Longrightarrow>
   trim_left (join ls [10]) = join (dropWhile (\<lambda>l. l = []) ls) [10]"
proof (induction ls "[10 :: nat]" rule: join.induct)
  case (2 l)
  then show ?case using squeezed_ends [of l] by (cases "l = []") (auto simp: trim_left_def intro: trim_left_fix [unfolded trim_left_def])
next
  case (3 l l' ls)
  then show ?case
  proof (cases "l = []")
    case True
    then show ?thesis using 3 by (simp add: trim_left_def is_space_def)
  next
    case False
    then have "\<not> is_space (hd (join (l # l' # ls) [10]))" using squeezed_ends [of l] 3 by simp
    then show ?thesis using False trim_left_fix by auto
  qed
qed (simp add: trim_left_def)

lemma trim_right_lines:
  "(\<And>l. l \<in> set ls \<Longrightarrow> squeezed l) \<Longrightarrow>
   trim_right (join ls [10]) = join (rev (dropWhile (\<lambda>l. l = []) (rev ls))) [10]"
proof (induction ls rule: rev_induct)
  case Nil
  then show ?case by (simp add: trim_right_def)
next
  case (snoc l ls)
  show ?case
  proof (cases "l = []")
    case True
    have "trim_right (join ls [10] @ [10]) = trim_right (join ls [10])"
      by (simp add: trim_right_def is_space_def)
    then show ?thesis using snoc True by (cases "ls = []") (auto simp: join_snoc trim_right_def)
  next
    case False
    then have "\<not> is_space (last (join (ls @ [l]) [10]))"
      using squeezed_ends [of l] snoc.prems by (cases "ls = []") (auto simp: join_snoc)
    then show ?thesis using False trim_right_fix by auto
  qed
qed

definition normal_text :: "unicode \<Rightarrow> gostr \<Rightarrow> bool" where
  "normal_text u s \<longleftrightarrow> trim_space s = s \<and> (\<forall>r\<in>set s. plain_rune u r) \<and> (\<forall>l\<in>set (split_on 10 s). squeezed l)"

lemma map_id_on: "(\<And>x. x \<in> set xs \<Longrightarrow> f x = x) \<Longrightarrow> map f xs = xs"
  by (induction xs) auto

lemma crlf_id: "13 \<notin> set s \<Longrightarrow> crlf s = s"
  by (induction s rule: crlf.induct) auto

lemma crlf_set: "set (crlf s) \<subseteq> insert 10 (set s)"
  by (induction s rule: crlf.induct) auto

lemma normal_text_fixed: "normal_text u s \<Longrightarrow> normalize_text u s = s"
proof -
  assume n: "normal_text u s"
  then have s: "trim_space s = s" and r: "\<And>r. r \<in> set s \<Longrightarrow> plain_rune u r"
    and l: "\<And>l. l \<in> set (split_on 10 s) \<Longrightarrow> squeezed l" by (auto simp: normal_text_def)
  have lower: "to_lower (un_lower u) s = s"
    unfolding to_lower_def using r by (intro map_id_on) (auto simp: plain_rune_def)
  have "13 \<notin> set s" "9 \<notin> set s" using r by (auto simp: plain_rune_def)
  then have breaks: "line_breaks s = s"
    unfolding line_breaks_def by (simp add: crlf_id) (rule map_id_on, auto)
  have "map squeeze_line (split_on 10 s) = split_on 10 s" using l squeezed_fix by (intro map_id_on) auto
  then have lines: "join (map squeeze_line (split_on 10 s)) [10] = s" by (simp add: join_split)
  have "map ascii_punct s = s" using r by (intro map_id_on) (auto simp: plain_rune_def)
  then show ?thesis using s lower breaks lines by (simp add: normalize_text_def Let_def)
qed

lemma normalize_text_normal:
  assumes "lower_idem u"
  shows "normal_text u (normalize_text u t)"
proof -
  define t1 where "t1 = line_breaks (to_lower (un_lower u) (trim_space t))"
  define ls where "ls = map (\<lambda>l. map ascii_punct (squeeze_line l)) (split_on 10 t1)"
  have t1: "lower_rune (un_lower u) r = r \<and> r \<noteq> 9 \<and> r \<noteq> 13" if "r \<in> set t1" for r
  proof -
    have "\<exists>q\<in>set (crlf (to_lower (un_lower u) (trim_space t))). r = (if q = 13 then 10 else if q = 9 then 32 else q)"
      using that unfolding t1_def line_breaks_def set_map image_iff .
    then obtain q where q: "q \<in> set (crlf (to_lower (un_lower u) (trim_space t)))"
      "r = (if q = 13 then 10 else if q = 9 then 32 else q)" by (elim bexE)
    have c: "lower_rune (un_lower u) 10 = 10" "lower_rune (un_lower u) 32 = 32" by (simp_all add: lower_rune_def)
    have "q = 10 \<or> q \<in> set (to_lower (un_lower u) (trim_space t))" using q(1) crlf_set by blast
    then have "lower_rune (un_lower u) q = q" using assms c(1) by (auto simp: to_lower_def lower_idem_def)
    then show ?thesis using q(2) c by (simp split: if_splits)
  qed
  have sq: "squeezed l" if "l \<in> set ls" for l
    using that squeezed_ascii squeeze_squeezed by (auto simp: ls_def)
  have plain: "plain_rune u r" if lr: "l \<in> set ls" "r \<in> set l" for l r
  proof -
    obtain k q where k: "k \<in> set (split_on 10 t1)" "q \<in> set (squeeze_line k)" "r = ascii_punct q"
      using lr unfolding ls_def by auto
    have "q = 32 \<or> q \<in> set t1"
      using k(2) set_join [of "str_fields k" "[32]"] str_fields_words [of _ k] split_parts [OF k(1)]
      by (fastforce simp: squeeze_line_def)
    moreover have "lower_rune (un_lower u) 32 = 32" by (simp add: lower_rune_def)
    ultimately have "lower_rune (un_lower u) q = q \<and> q \<noteq> 9 \<and> q \<noteq> 13"
      by (elim disjE) (simp, rule t1)
    then show ?thesis using k(3) by (auto simp: plain_rune_def ascii_punct_def lower_rune_def split: if_splits)
  qed
  have no_nl: "10 \<notin> set l" if "l \<in> set ls" for l
    using squeezed_set [OF sq [OF that], of 10] by (auto simp: is_space_def)
  define ms where "ms = rev (dropWhile (\<lambda>l. l = []) (rev (dropWhile (\<lambda>l. l = []) ls)))"
  have sub: "set ms \<subseteq> set ls" unfolding ms_def set_rev
  proof
    fix l assume "l \<in> set (dropWhile (\<lambda>l. l = []) (rev (dropWhile (\<lambda>l. l = []) ls)))"
    from set_dropWhileD [OF this] have "l \<in> set (dropWhile (\<lambda>l. l = []) ls)" by simp
    from set_dropWhileD [OF this] show "l \<in> set ls" by simp
  qed
  have n: "normalize_text u t = join ms [10]"
  proof (cases "trim_space t = []")
    case True
    then have "ls = [[]]" by (simp add: ls_def t1_def line_breaks_def to_lower_def squeeze_line_def)
    then show ?thesis using True by (simp add: normalize_text_def ms_def)
  next
    case False
    have "map ascii_punct (join (map squeeze_line (split_on 10 t1)) [10]) = join ls [10]"
      by (simp add: map_join ls_def ascii_punct_def o_def)
    moreover have "trim_left (join ls [10]) = join (dropWhile (\<lambda>l. l = []) ls) [10]"
      using sq by (rule trim_left_lines)
    moreover have "trim_right (join (dropWhile (\<lambda>l. l = []) ls) [10]) = join ms [10]"
      unfolding ms_def using sq by (intro trim_right_lines) (auto dest: set_dropWhileD)
    ultimately show ?thesis using False by (simp add: normalize_text_def Let_def t1_def trim_space_def)
  qed
  have "split_on 10 (join ms [10]) = (if ms = [] then [[]] else ms)"
    using split_join [of ms 10] no_nl sub by auto
  moreover have "plain_rune u r" if "r \<in> set (join ms [10])" for r
    using that set_join [of ms "[10]"] plain sub
    by (fastforce simp: plain_rune_def lower_rune_def ascii_punct_def)
  moreover have "squeezed []" unfolding squeezed_def by (intro exI [of _ "[]"]) simp
  ultimately show ?thesis
    using sq sub n by (auto simp: normal_text_def n [symmetric] normalize_text_def Let_def split: if_splits)
qed

section \<open>Tokens and counts\<close>

lemma word_trim_ne: "is_word w \<Longrightarrow> trim_space w \<noteq> []"
  using trim_space_fix [of w] unfolding is_word_def by auto

lemma tokenize_latin_nonblank: "t \<in> set (tokenize_latin u s) \<Longrightarrow> trim_space t \<noteq> []"
proof -
  assume "t \<in> set (tokenize_latin u s)"
  then obtain w where w: "w \<in> set (str_fields (replace_runs (\<lambda>r. un_letter u r \<or> un_number u r) False s))" "t = trim_space w"
    unfolding tokenize_latin_def by auto
  then have "is_word w" using str_fields_words by blast
  then show ?thesis using w(2) word_trim_ne trim_space_idem by simp
qed

lemma bigrams_words:
  "(\<And>r. r \<in> set s \<Longrightarrow> \<not> is_space r) \<Longrightarrow> t \<in> set (bigrams s) \<Longrightarrow> is_word t"
  by (induction s rule: bigrams.induct) (auto simp: is_word_def)

lemma tokenize_chinese_nonblank: "t \<in> set (tokenize_chinese u s) \<Longrightarrow> trim_space t \<noteq> []"
  unfolding tokenize_chinese_def by (rule word_trim_ne, rule bigrams_words, auto)

lemma tokenize_nonblank: "t \<in> set (tokenize u s l) \<Longrightarrow> trim_space t \<noteq> []"
  using tokenize_chinese_nonblank tokenize_latin_nonblank
  unfolding tokenize_def Let_def by (auto split: if_splits)

lemma sum_list_counts:
  "sum_list (map (\<lambda>i. real (count_list xs i)) (sort (remdups xs))) = real (length xs)"
proof -
  have "sum_list (map (\<lambda>i. real (count_list xs i)) (sort (remdups xs))) = (\<Sum>i\<in>set xs. real (count_list xs i))"
    by (subst sum_list_distinct_conv_sum_set) simp_all
  also have "\<dots> = real (length xs)" using sum_count_set [of xs "set xs"] by (simp flip: of_nat_sum)
  finally show ?thesis .
qed

lemma sum_list_div: "sum_list (map (\<lambda>i. f i / c) xs) = sum_list (map f xs) / (c :: real)"
  by (induction xs) (simp_all add: add_divide_distrib)

lemma hash_token_less: "hash_token t < sparse_hash_mod"
  unfolding hash_token_def sparse_hash_mod_def by (simp add: word_less_nat_alt unat_mod)


section \<open>Properties\<close>

text \<open>Normalising a text twice gives what normalising it once gives, so that an indexed chunk, a
  query and a stored variant agree however often the pipeline normalises them.\<close>

theorem normalize_text_idempotent:
  assumes "lower_idem u"
  shows "normalize_text u (normalize_text u t) = normalize_text u t"
  by (rule normal_text_fixed, rule normalize_text_normal, rule assms)

definition demo_unicode :: unicode where
  "demo_unicode = \<lparr>un_lower = id, un_letter = \<lambda>r. 97 \<le> r \<and> r \<le> 122, un_number = \<lambda>_. False, un_digit = \<lambda>_. False,
     un_punct = \<lambda>_. False, un_han = \<lambda>r. 19968 \<le> r \<and> r \<le> 40959\<rparr>"

theorem normalize_text_idempotent_witness:
  "normalize_text demo_unicode (normalize_text demo_unicode [32, 65, 9, 66, 13, 10, 65311, 32]) =
   normalize_text demo_unicode [32, 65, 9, 66, 13, 10, 65311, 32] \<and>
   normalize_text demo_unicode [32, 65, 9, 66, 13, 10, 65311, 32] = [97, 32, 98, 10, 63]"
proof
  have "lower_idem demo_unicode" by (simp add: lower_idem_def lower_rune_def demo_unicode_def)
  then show "normalize_text demo_unicode (normalize_text demo_unicode [32, 65, 9, 66, 13, 10, 65311, 32]) =
    normalize_text demo_unicode [32, 65, 9, 66, 13, 10, 65311, 32]" by (rule normalize_text_idempotent)
  show "normalize_text demo_unicode [32, 65, 9, 66, 13, 10, 65311, 32] = [97, 32, 98, 10, 63]"
    by (simp add: normalize_text_def trim_space_def trim_left_def trim_right_def is_space_def to_lower_def lower_rune_def
        line_breaks_def ascii_punct_def squeeze_line_def str_fields.simps demo_unicode_def Let_def)
qed

text \<open>C40: the sparse vector of any text is well formed: one value per index, the indices strictly
  increasing and below the hash modulus, every value positive, and the values of a text that has tokens
  sum to one.\<close>

theorem build_sparse_vector_wf:
  "let v = build_sparse_vector u t l in
     length (sv_indices v) = length (sv_values v) \<and> sorted_wrt (<) (sv_indices v) \<and>
     (\<forall>i\<in>set (sv_indices v). i < sparse_hash_mod) \<and> (\<forall>w\<in>set (sv_values v). 0 < w) \<and>
     sum_list (sv_values v) = (if tokenize u t l = [] then 0 else 1)"
proof -
  define ts where "ts = tokenize u t l"
  define hs where "hs = map hash_token ts"
  have all: "filter (\<lambda>t. trim_space t \<noteq> []) ts = ts"
    unfolding ts_def using tokenize_nonblank by (auto intro: filter_True)
  have v: "build_sparse_vector u t l =
    (if ts = [] then \<lparr>sv_indices = [], sv_values = []\<rparr>
     else \<lparr>sv_indices = sort (remdups hs), sv_values = map (\<lambda>i. real (count_list hs i) / real (length ts)) (sort (remdups hs))\<rparr>)"
    by (simp add: build_sparse_vector_def ts_def [symmetric] all hs_def Let_def)
  show ?thesis
  proof (cases "ts = []")
    case True
    then show ?thesis using v by (simp add: ts_def)
  next
    case False
    have strict: "sorted_wrt (<) (sort (remdups hs))" by (simp add: strict_sorted_iff)
    have below: "\<forall>i\<in>set (sort (remdups hs)). i < sparse_hash_mod" using hash_token_less by (auto simp: hs_def)
    have pos: "\<forall>i\<in>set (sort (remdups hs)). 0 < real (count_list hs i) / real (length ts)"
      using False by (auto simp: count_list_0_iff intro!: divide_pos_pos gr0I)
    have "sum_list (map (\<lambda>i. real (count_list hs i) / real (length ts)) (sort (remdups hs))) =
          sum_list (map (\<lambda>i. real (count_list hs i)) (sort (remdups hs))) / real (length ts)"
      by (rule sum_list_div)
    then have "sum_list (map (\<lambda>i. real (count_list hs i) / real (length ts)) (sort (remdups hs))) = 1"
      using False by (simp add: sum_list_counts hs_def)
    then show ?thesis using v False strict below pos by (simp add: ts_def [symmetric])
  qed
qed

lemma demo_tokens: "tokenize demo_unicode [97, 98] [] = [[97, 98]]"
  by (simp add: tokenize_def tokenize_latin_def normalize_text_def trim_space_def trim_left_def trim_right_def is_space_def
      to_lower_def lower_rune_def line_breaks_def ascii_punct_def squeeze_line_def str_fields.simps demo_unicode_def Let_def)

theorem build_sparse_vector_wf_witness:
  "length (sv_indices (build_sparse_vector demo_unicode [97, 98] [])) =
     length (sv_values (build_sparse_vector demo_unicode [97, 98] [])) \<and>
   sum_list (sv_values (build_sparse_vector demo_unicode [97, 98] [])) = 1"
  using build_sparse_vector_wf [of demo_unicode "[97, 98]" "[]"] demo_tokens by (simp add: Let_def)

end
