(* ===== verification/Chunking.thy ===== *)
theory Chunking
  imports Language
begin

text \<open>
  How the ingest service cuts a text into chunks (\<open>backend/services/ingest/internal/app/parser.go\<close>):
  cleaning the text, cutting it into paragraphs, sentences and pieces, and packing these units into
  chunks with an overlap, by runes or by tokens.  The texts are valid UTF-8.
\<close>

section \<open>Cleaning\<close>

definition is_control :: "rune \<Rightarrow> bool" where
  "is_control r \<longleftrightarrow> r < 32 \<or> (127 \<le> r \<and> r \<le> 159)"

text \<open>Zero-width runes and the soft hyphen go, the no-break space becomes a space.\<close>

definition sanitize_rune :: "rune \<Rightarrow> gostr" where
  "sanitize_rune r =
     (if r \<in> {8203, 8204, 8205, 65279, 8288, 173} then []
      else if r = 160 then [32]
      else if is_control r \<and> r \<noteq> 10 then []
      else [r])"

definition sanitize_text_runes :: "gostr \<Rightarrow> gostr" where
  "sanitize_text_runes s = concat (map sanitize_rune s)"

definition clean_line :: "gostr \<Rightarrow> gostr" where
  "clean_line line = (let l = trim_space line in if l = [] then [] else join (str_fields l) [32])"

definition normalize_text_preserve_newlines :: "gostr \<Rightarrow> gostr" where
  "normalize_text_preserve_newlines text =
     (let t = sanitize_text_runes (line_breaks (map (\<lambda>r. if r = 0 then 32 else r) text)) in
      trim_space (join (map clean_line (split_on 10 t)) [10]))"

section \<open>Units\<close>

record sentence_unit =
  su_text :: gostr
  su_paragraph_start :: bool

definition flush_paragraph :: "gostr list \<Rightarrow> gostr list" where
  "flush_paragraph buf =
     (let p = trim_space (join buf [32]) in if buf = [] \<or> p = [] then [] else [p])"

fun paragraph_loop :: "gostr list \<Rightarrow> gostr list \<Rightarrow> gostr list" where
  "paragraph_loop buf [] = flush_paragraph buf"
| "paragraph_loop buf (line0 # rest) =
     (let line = trim_space line0 in
      if line = [] then flush_paragraph buf @ paragraph_loop [] rest
      else paragraph_loop (buf @ [join (str_fields line) [32]]) rest)"

definition split_paragraphs :: "gostr \<Rightarrow> gostr list" where
  "split_paragraphs text = paragraph_loop [] (split_on 10 text)"

text \<open>Full stop, exclamation mark, question mark, semicolon, and their wide forms.\<close>

definition is_sentence_end :: "rune \<Rightarrow> bool" where
  "is_sentence_end r \<longleftrightarrow> r \<in> {46, 33, 63, 59, 12290, 65281, 65311, 65307, 65294}"

definition flush_sentence :: "gostr \<Rightarrow> gostr list" where
  "flush_sentence buf = (let s = trim_space buf in if s = [] then [] else [s])"

fun sentence_loop :: "gostr \<Rightarrow> gostr \<Rightarrow> gostr list" where
  "sentence_loop buf [] = flush_sentence buf"
| "sentence_loop buf (r # rest) =
     (if is_sentence_end r then flush_sentence (buf @ [r]) @ sentence_loop [] rest
      else sentence_loop (buf @ [r]) rest)"

definition split_sentences :: "gostr \<Rightarrow> gostr list" where
  "split_sentences paragraph = sentence_loop [] paragraph"

function rune_pieces :: "nat \<Rightarrow> gostr \<Rightarrow> gostr list" where
  "rune_pieces n s =
     (if n = 0 \<or> s = [] then [] else flush_sentence (take n s) @ rune_pieces n (drop n s))"
  by pat_completeness auto
termination by (relation "measure (\<lambda>(n, s). length s)") auto

declare rune_pieces.simps [simp del]

definition split_by_runes :: "gostr \<Rightarrow> int \<Rightarrow> gostr list" where
  "split_by_runes text0 limit =
     (let text = trim_space text0 in
      if limit \<le> 0 \<or> text = [] then []
      else if int (length text) \<le> limit then [text]
      else rune_pieces (nat limit) text)"

text \<open>A unit starts a paragraph when it is the first piece of the first sentence.\<close>

definition sentence_units :: "int \<Rightarrow> nat \<Rightarrow> gostr \<Rightarrow> sentence_unit list" where
  "sentence_units limit i sentence0 =
     (let sentence = trim_space sentence0 in
      if sentence = [] then []
      else concat (map (\<lambda>(j, part0).
             let part = trim_space part0 in
             if part = [] then [] else [\<lparr>su_text = part, su_paragraph_start = (i = 0 \<and> j = (0 :: nat))\<rparr>])
           (enumerate 0 (split_by_runes sentence limit))))"

definition build_sentence_units :: "gostr \<Rightarrow> int \<Rightarrow> sentence_unit list" where
  "build_sentence_units text limit =
     concat (map (\<lambda>p. concat (map (\<lambda>(i, s). sentence_units limit i s) (enumerate 0 (split_sentences p))))
       (split_paragraphs text))"

section \<open>Packing\<close>

definition separator :: "bool \<Rightarrow> gostr" where
  "separator paragraph_start = (if paragraph_start then [10, 10] else [32])"

definition separator_len :: "bool \<Rightarrow> int" where
  "separator_len paragraph_start = (if paragraph_start then 2 else 1)"

definition units_to_text :: "sentence_unit list \<Rightarrow> gostr" where
  "units_to_text units =
     trim_space (case units of [] \<Rightarrow> []
       | x # xs \<Rightarrow> su_text x @ concat (map (\<lambda>y. separator (su_paragraph_start y) @ su_text y) xs))"

definition units_len :: "sentence_unit list \<Rightarrow> int" where
  "units_len units =
     (case units of [] \<Rightarrow> 0
      | x # xs \<Rightarrow> int (length (su_text x)) +
          sum_list (map (\<lambda>y. separator_len (su_paragraph_start y) + int (length (su_text y))) xs))"

text \<open>The loop from the last unit backwards: the length so far and the next separator.\<close>

fun tail_runes :: "int \<Rightarrow> (int \<times> int) option \<Rightarrow> sentence_unit list \<Rightarrow> sentence_unit list" where
  "tail_runes overlap st [] = []"
| "tail_runes overlap st (x # xs) =
     (let n = (case st of None \<Rightarrow> int (length (su_text x)) | Some (l, sep) \<Rightarrow> l + sep + int (length (su_text x))) in
      x # (if overlap \<le> n then [] else tail_runes overlap (Some (n, separator_len (su_paragraph_start x))) xs))"

definition overlap_units :: "sentence_unit list \<Rightarrow> int \<Rightarrow> sentence_unit list" where
  "overlap_units units overlap = (if overlap \<le> 0 then [] else rev (tail_runes overlap None (rev units)))"

definition emit :: "sentence_unit list \<Rightarrow> gostr list" where
  "emit units = (let s = units_to_text units in if s = [] then [] else [s])"

fun semantic_loop :: "int \<Rightarrow> int \<Rightarrow> sentence_unit list \<Rightarrow> int \<Rightarrow> sentence_unit list \<Rightarrow> gostr list" where
  "semantic_loop limit overlap current n [] = (if current = [] then [] else emit current)"
| "semantic_loop limit overlap current n (x # rest) =
     (let unit_len = int (length (su_text x)); sep = separator_len (su_paragraph_start x);
          sep0 = (if current \<noteq> [] then sep else 0)
      in if current \<noteq> [] \<and> limit < n + sep0 + unit_len then
           let kept = overlap_units current overlap; m = units_len kept in
           if kept \<noteq> [] \<and> m + sep + unit_len \<le> limit
           then emit current @ semantic_loop limit overlap (kept @ [x]) (m + sep + unit_len) rest
           else emit current @ semantic_loop limit overlap [x] unit_len rest
         else semantic_loop limit overlap (current @ [x]) (n + sep0 + unit_len) rest)"

definition chunk_text_semantic :: "gostr \<Rightarrow> int \<Rightarrow> int \<Rightarrow> gostr list" where
  "chunk_text_semantic text limit overlap =
     (if limit \<le> 0 then [] else semantic_loop limit overlap [] 0 (build_sentence_units text limit))"

text \<open>By tokens; a text without tokens counts for a quarter of its runes, at least one.\<close>

definition token_len :: "unicode \<Rightarrow> gostr \<Rightarrow> sentence_unit \<Rightarrow> int" where
  "token_len u language x =
     (let tokens = tokenize u (su_text x) language in
      if tokens = [] then max (int (length (trim_space (su_text x))) div 4) 1 else int (length tokens))"

definition units_token_len :: "unicode \<Rightarrow> gostr \<Rightarrow> sentence_unit list \<Rightarrow> int" where
  "units_token_len u language units = sum_list (map (token_len u language) units)"

fun tail_tokens :: "unicode \<Rightarrow> gostr \<Rightarrow> int \<Rightarrow> int \<Rightarrow> sentence_unit list \<Rightarrow> sentence_unit list" where
  "tail_tokens u language overlap acc [] = []"
| "tail_tokens u language overlap acc (x # xs) =
     (if acc < overlap then x # tail_tokens u language overlap (acc + token_len u language x) xs else [])"

definition overlap_units_by_tokens :: "unicode \<Rightarrow> gostr \<Rightarrow> sentence_unit list \<Rightarrow> int \<Rightarrow> sentence_unit list" where
  "overlap_units_by_tokens u language units overlap =
     (if overlap \<le> 0 then [] else rev (tail_tokens u language overlap 0 (rev units)))"

fun token_loop ::
  "unicode \<Rightarrow> gostr \<Rightarrow> int \<Rightarrow> int \<Rightarrow> sentence_unit list \<Rightarrow> int \<Rightarrow> sentence_unit list \<Rightarrow> gostr list" where
  "token_loop u language limit overlap current n [] = (if current = [] then [] else emit current)"
| "token_loop u language limit overlap current n (x # rest) =
     (let t = token_len u language x in
      if current \<noteq> [] \<and> limit < n + t then
        let kept = overlap_units_by_tokens u language current overlap; m = units_token_len u language kept in
        if kept \<noteq> [] \<and> limit < m + t
        then emit current @ token_loop u language limit overlap [x] t rest
        else emit current @ token_loop u language limit overlap (kept @ [x]) (m + t) rest
      else token_loop u language limit overlap (current @ [x]) (n + t) rest)"

definition chunk_text_by_tokens :: "unicode \<Rightarrow> gostr \<Rightarrow> int \<Rightarrow> int \<Rightarrow> gostr list" where
  "chunk_text_by_tokens u text0 limit overlap =
     (let text = trim_space text0 in
      if text = [] \<or> limit \<le> 0 then []
      else token_loop u (detect_language u text) limit overlap [] 0
             (build_sentence_units text (max (limit * 6) 240)))"

section \<open>No text is lost\<close>

definition ink :: "gostr \<Rightarrow> gostr" where
  "ink s = filter (\<lambda>r. \<not> is_space r) s"

lemma ink_append [simp]: "ink (a @ b) = ink a @ ink b"
  by (simp add: ink_def)

lemma ink_Nil [simp]: "ink [] = []"
  by (simp add: ink_def)

lemma ink_trim_left [simp]: "ink (trim_left s) = ink s"
  by (induction s) (auto simp: ink_def trim_left_def)

lemma ink_trim_right [simp]: "ink (trim_right s) = ink s"
proof (induction s rule: rev_induct)
  case (snoc r s)
  then show ?case by (auto simp: ink_def trim_right_def)
qed (simp add: trim_right_def)

lemma ink_trim [simp]: "ink (trim_space s) = ink s"
  by (simp add: trim_space_def)

lemma trim_no_ink: "trim_space s = [] \<Longrightarrow> ink s = []"
  by (metis ink_trim ink_Nil)

lemma ink_Cons: "ink (r # s) = (if is_space r then ink s else r # ink s)"
  by (simp add: ink_def)

lemma ink_join: "(\<forall>r\<in>set sep. is_space r) \<Longrightarrow> ink (join ps sep) = concat (map ink ps)"
  by (induction ps sep rule: join.induct) (auto simp: ink_def)

lemma ink_fields: "concat (str_fields s) = ink s"
proof (induction s rule: str_fields.induct)
  case (1 s)
  show ?case
  proof (cases "trim_left s")
    case Nil
    then have "ink s = []" using ink_trim_left [of s] by simp
    then show ?thesis using Nil by (subst str_fields.simps) simp
  next
    case (Cons r t)
    define w where "w = takeWhile (\<lambda>r. \<not> is_space r) (r # t)"
    define d where "d = dropWhile (\<lambda>r. \<not> is_space r) (r # t)"
    have "ink s = ink (w @ d)" using ink_trim_left [of s] Cons by (simp add: w_def d_def del: takeWhile.simps dropWhile.simps)
    moreover have "ink w = w" unfolding ink_def w_def by (simp add: filter_id_conv) (metis set_takeWhileD)
    moreover have "concat (str_fields s) = w @ concat (str_fields d)"
      by (subst str_fields.simps) (simp add: Cons w_def d_def del: takeWhile.simps dropWhile.simps)
    moreover have "concat (str_fields d) = ink d" using "1.IH" [OF Cons] by (simp add: d_def)
    ultimately show ?thesis by simp
  qed
qed

lemma ink_words: "ink (join (str_fields s) [32]) = ink s"
proof -
  have "map ink (str_fields s) = str_fields s"
    using str_fields_words [of _ s] by (intro map_idI) (auto simp: ink_def is_word_def filter_id_conv)
  then show ?thesis by (simp add: ink_join is_space_def ink_fields)
qed

lemma ink_split: "concat (map ink (split_on c s)) = ink (filter (\<lambda>r. r \<noteq> c) s)"
proof (induction s)
  case (Cons r s)
  then show ?case by (cases "split_on c s") (auto simp: ink_def)
qed simp

lemma ink_flush_sentence [simp]: "concat (map ink (flush_sentence buf)) = ink buf"
  by (simp add: flush_sentence_def Let_def trim_no_ink)

lemma ink_flush_paragraph [simp]: "concat (map ink (flush_paragraph buf)) = concat (map ink buf)"
proof -
  have "ink (join buf [32]) = concat (map ink buf)" by (simp add: ink_join is_space_def)
  then show ?thesis by (auto simp: flush_paragraph_def Let_def dest: trim_no_ink)
qed

lemma ink_sentence_loop: "concat (map ink (sentence_loop buf s)) = ink (buf @ s)"
  by (induction buf s rule: sentence_loop.induct) (auto simp: ink_Cons)

lemma ink_paragraph_loop: "concat (map ink (paragraph_loop buf lines)) = concat (map ink buf) @ concat (map ink lines)"
proof (induction buf lines rule: paragraph_loop.induct)
  case (2 buf line0 rest)
  show ?case
  proof (cases "trim_space line0 = []")
    case True
    then have "ink line0 = []" using ink_trim [of line0] by simp
    then show ?thesis using 2 True by (simp add: Let_def)
  next
    case False
    then show ?thesis using 2 by (simp add: Let_def ink_words)
  qed
qed simp

lemma ink_rune_pieces: "n \<noteq> 0 \<Longrightarrow> concat (map ink (rune_pieces n s)) = ink s"
proof (induction n s rule: rune_pieces.induct)
  case (1 n s)
  show ?case
  proof (cases "s = []")
    case False
    then have "concat (map ink (rune_pieces n s)) = ink (take n s) @ ink (drop n s)"
      using 1 by (subst rune_pieces.simps) simp
    then show ?thesis by (metis append_take_drop_id ink_append)
  qed (simp add: rune_pieces.simps)
qed

lemma ink_split_by_runes: "0 < limit \<Longrightarrow> concat (map ink (split_by_runes s limit)) = ink s"
proof -
  assume s: "0 < limit"
  show ?thesis
  proof (cases "trim_space s = []")
    case True
    then have "ink s = []" using ink_trim [of s] by simp
    then show ?thesis using True by (simp add: split_by_runes_def)
  next
    case False
    then show ?thesis using s ink_rune_pieces [of "nat limit" "trim_space s"] by (simp add: split_by_runes_def Let_def)
  qed
qed

definition units_ink :: "sentence_unit list \<Rightarrow> gostr" where
  "units_ink xs = concat (map (\<lambda>x. ink (su_text x)) xs)"

lemma units_ink_simps [simp]: "units_ink [] = []" "units_ink (xs @ ys) = units_ink xs @ units_ink ys"
  "units_ink (x # xs) = ink (su_text x) @ units_ink xs"
  by (simp_all add: units_ink_def)

lemma units_ink_concat: "units_ink (concat xss) = concat (map units_ink xss)"
  by (induction xss) auto

lemma ink_sentence_units: "0 < limit \<Longrightarrow> units_ink (sentence_units limit i s) = ink s"
proof -
  assume limit: "0 < limit"
  have part: "units_ink (let part = trim_space p in if part = [] then [] else [\<lparr>su_text = part, su_paragraph_start = b\<rparr>]) = ink p" for p b
    by (simp add: Let_def trim_no_ink)
  have "units_ink (concat (map (\<lambda>(j, p). let part = trim_space p in
      if part = [] then [] else [\<lparr>su_text = part, su_paragraph_start = (i = 0 \<and> j = (0::nat))\<rparr>]) (enumerate k ps))) = concat (map ink ps)" for k ps
    by (induction ps arbitrary: k) (simp_all add: part units_ink_concat)
  moreover have "ink s = []" if "trim_space s = []" using ink_trim [of s] that by simp
  ultimately show ?thesis using ink_split_by_runes [OF limit, of "trim_space s"] by (auto simp: sentence_units_def Let_def)
qed

lemma ink_units: "0 < limit \<Longrightarrow> units_ink (build_sentence_units text limit) = ink text"
proof -
  assume limit: "0 < limit"
  have "units_ink (concat (map (\<lambda>(i, s). sentence_units limit i s) (enumerate k ss))) = concat (map ink ss)" for k ss
    by (induction ss arbitrary: k) (simp_all add: ink_sentence_units limit)
  then have p: "units_ink (concat (map (\<lambda>(i, s). sentence_units limit i s) (enumerate 0 (split_sentences p)))) = ink p" for p
    using ink_sentence_loop [of "[]" p] by (simp add: split_sentences_def)
  have "units_ink (build_sentence_units text limit) = concat (map ink (split_paragraphs text))"
    unfolding build_sentence_units_def by (simp only: units_ink_concat map_map comp_def p [unfolded units_ink_concat map_map comp_def])
  also have "\<dots> = ink (filter (\<lambda>r. r \<noteq> 10) text)"
    using ink_paragraph_loop [of "[]" "split_on 10 text"] by (simp add: split_paragraphs_def ink_split)
  also have "\<dots> = ink text" by (auto simp: ink_def is_space_def intro!: filter_cong)
  finally show ?thesis .
qed


section \<open>Both loops pack units\<close>

text \<open>
  The two loops are one: units go to the current group while its cost is within the limit; a full group is
  closed, and the next one starts with what \<open>keep\<close> keeps of it, if the next unit fits there.
\<close>

fun pack_groups ::
  "(sentence_unit list \<Rightarrow> int) \<Rightarrow> (sentence_unit list \<Rightarrow> sentence_unit list) \<Rightarrow> int \<Rightarrow> sentence_unit list \<Rightarrow>
   sentence_unit list \<Rightarrow> sentence_unit list list" where
  "pack_groups cost keep limit current [] = (if current = [] then [] else [current])"
| "pack_groups cost keep limit current (x # rest) =
     (if current \<noteq> [] \<and> limit < cost (current @ [x]) then
        current # pack_groups cost keep limit
          (if cost (keep current @ [x]) \<le> limit then keep current @ [x] else [x]) rest
      else pack_groups cost keep limit (current @ [x]) rest)"

definition slice :: "nat \<Rightarrow> nat \<Rightarrow> 'a list \<Rightarrow> 'a list" where
  "slice a b xs = take (b - a) (drop a xs)"

text \<open>Spans that go on from \<open>e\<close>, each from at most the end of the one before to beyond it, up to \<open>n\<close>.\<close>

fun covers :: "nat \<Rightarrow> (nat \<times> nat) list \<Rightarrow> nat \<Rightarrow> bool" where
  "covers e [] n = (e = n)"
| "covers e ((a, b) # spans) n = (a \<le> e \<and> e < b \<and> covers b spans n)"

text \<open>A group is within the limit or a single unit.\<close>

definition fits :: "(sentence_unit list \<Rightarrow> int) \<Rightarrow> int \<Rightarrow> sentence_unit list \<Rightarrow> bool" where
  "fits cost limit g \<longleftrightarrow> g \<noteq> [] \<and> (cost g \<le> limit \<or> length g = 1)"

text \<open>Every group but the last ends because the next unit does not fit.\<close>

fun full :: "(sentence_unit list \<Rightarrow> int) \<Rightarrow> int \<Rightarrow> sentence_unit list \<Rightarrow> (nat \<times> nat) list \<Rightarrow> bool" where
  "full cost limit units ((a, b) # sp # spans) = (limit < cost (slice a (Suc b) units) \<and> full cost limit units (sp # spans))"
| "full cost limit units spans = True"

lemma slice_snoc: "a \<le> b \<Longrightarrow> b < length xs \<Longrightarrow> slice a b xs @ [xs ! b] = slice a (Suc b) xs"
  by (simp add: slice_def Suc_diff_le take_Suc_conv_app_nth)

lemma slice_drop: "drop k (slice a b xs) = slice (a + k) b xs"
  by (simp add: slice_def drop_take add.commute)

lemma slice_length: "b \<le> length xs \<Longrightarrow> length (slice a b xs) = b - a"
  by (simp add: slice_def)

locale packing =
  fixes cost :: "sentence_unit list \<Rightarrow> int"
    and keep :: "sentence_unit list \<Rightarrow> sentence_unit list"
  assumes keep_suffix: "\<exists>k. keep xs = drop k xs"
begin

lemma groups_cover:
  assumes "current = slice a b xs" "rest = drop b xs" "b \<le> length xs" "a \<le> e"
    "e \<le> b" "current = [] \<longleftrightarrow> e = b" "current \<noteq> [] \<Longrightarrow> fits cost limit current"
  shows "\<exists>spans. pack_groups cost keep limit current rest = map (\<lambda>(a, b). slice a b xs) spans \<and>
    covers e spans (length xs) \<and> list_all (fits cost limit) (pack_groups cost keep limit current rest) \<and> full cost limit xs spans"
  using assms
proof (induction rest arbitrary: current a b e)
  case Nil
  have b: "b = length xs" using Nil(2,3) by simp
  show ?case
  proof (cases "current = []")
    case True
    then show ?thesis using Nil(6) b by (intro exI [of _ "[]"]) simp
  next
    case False
    then show ?thesis using Nil b by (intro exI [of _ "[(a, b)]"]) auto
  qed
next
  case (Cons x rest)
  have b: "b < length xs" "x = xs ! b" "rest = drop (Suc b) xs"
    using Cons.prems(2,3) by (auto simp: Cons_nth_drop_Suc [symmetric] le_neq_implies_less dest: sym
        intro!: le_neq_implies_less) (metis drop_all Cons_nth_drop_Suc list.inject list.distinct(1) not_le)+
  have ab: "a \<le> b" using Cons.prems(4,5) by simp
  have one: "[x] = slice b (Suc b) xs" using slice_snoc [of b b xs] b by (simp add: slice_def)
  show ?case
  proof (cases "current \<noteq> [] \<and> limit < cost (current @ [x])")
    case True
    obtain k where "keep current = drop k current" using keep_suffix by blast
    then have k: "keep current = slice (a + k) b xs" by (simp only: Cons.prems(1) slice_drop)
    have kept: "keep current @ [x] = slice (min (a + k) b) (Suc b) xs"
    proof (cases "a + k \<le> b")
      case True
      then show ?thesis using slice_snoc [of "a + k" b xs] b(1,2) k by simp
    next
      case False
      then have "keep current = []" by (simp add: k slice_def)
      then show ?thesis using False one by simp
    qed
    define next_group where "next_group = (if cost (keep current @ [x]) \<le> limit then keep current @ [x] else [x])"
    define a' where "a' = (if cost (keep current @ [x]) \<le> limit then min (a + k) b else b)"
    have "\<exists>spans. pack_groups cost keep limit next_group rest = map (\<lambda>(a, b). slice a b xs) spans \<and>
        covers b spans (length xs) \<and> list_all (fits cost limit) (pack_groups cost keep limit next_group rest) \<and> full cost limit xs spans"
    proof (rule Cons.IH [of next_group a' "Suc b" b])
      show "next_group = slice a' (Suc b) xs" using kept one by (simp add: next_group_def a'_def)
    qed (use b in \<open>auto simp: next_group_def a'_def fits_def\<close>)
    then obtain spans where "pack_groups cost keep limit next_group rest = map (\<lambda>(a, b). slice a b xs) spans"
      "covers b spans (length xs)" "list_all (fits cost limit) (pack_groups cost keep limit next_group rest)"
      "full cost limit xs spans" by blast
    moreover have "pack_groups cost keep limit current (x # rest) = current # pack_groups cost keep limit next_group rest"
      using True by (simp add: next_group_def)
    moreover from \<open>covers b spans (length xs)\<close> obtain sp rest_spans where "spans = sp # rest_spans" using b(1) by (cases spans) auto
    moreover have "current @ [x] = slice a (Suc b) xs" using slice_snoc [OF ab b(1)] b(2) Cons.prems(1) by simp
    moreover have "e < b" "fits cost limit current" using Cons.prems(5,6,7) True by auto
    ultimately show ?thesis using Cons.prems(1,4) True by (intro exI [of _ "(a, b) # spans"]) simp
  next
    case False
    have "\<exists>spans. pack_groups cost keep limit (current @ [x]) rest = map (\<lambda>(a, b). slice a b xs) spans \<and>
        covers e spans (length xs) \<and> list_all (fits cost limit) (pack_groups cost keep limit (current @ [x]) rest) \<and> full cost limit xs spans"
    proof (rule Cons.IH [of "current @ [x]" a "Suc b" e])
      show "current @ [x] = slice a (Suc b) xs" using slice_snoc [OF ab b(1)] b(2) Cons.prems(1) by simp
    qed (use b Cons.prems False in \<open>auto simp: fits_def\<close>)
    moreover have "pack_groups cost keep limit current (x # rest) = pack_groups cost keep limit (current @ [x]) rest"
      unfolding pack_groups.simps by (rule if_not_P [OF False])
    ultimately show ?thesis by simp
  qed
qed

lemma groups_cover_all:
  "\<exists>spans. pack_groups cost keep limit [] xs = map (\<lambda>(a, b). slice a b xs) spans \<and>
    covers 0 spans (length xs) \<and> list_all (fits cost limit) (pack_groups cost keep limit [] xs) \<and> full cost limit xs spans"
  by (rule groups_cover [of _ 0 0]) (simp_all add: slice_def)

end


lemma tail_tokens_prefix: "\<exists>k. tail_tokens u language overlap acc xs = take k xs"
proof (induction xs arbitrary: acc)
  case (Cons x xs)
  obtain k where "tail_tokens u language overlap (acc + token_len u language x) xs = take k xs" using Cons.IH by blast
  then have "tail_tokens u language overlap acc (x # xs) = take (if acc < overlap then Suc k else 0) (x # xs)" by simp
  then show ?case by blast
qed simp

lemma tail_runes_prefix: "\<exists>k. tail_runes overlap st xs = take k xs"
proof (induction xs arbitrary: st)
  case (Cons x xs)
  define n where "n = (case st of None \<Rightarrow> int (length (su_text x)) | Some (l, sep) \<Rightarrow> l + sep + int (length (su_text x)))"
  obtain k where "tail_runes overlap (Some (n, separator_len (su_paragraph_start x))) xs = take k xs" using Cons.IH by blast
  then have "tail_runes overlap st (x # xs) = take (if overlap \<le> n then 1 else Suc k) (x # xs)" by (simp add: n_def Let_def)
  then show ?case by blast
qed simp

lemma rev_take_rev: "\<exists>k'. rev (take k (rev xs)) = drop k' xs"
  by (metis rev_take rev_rev_ident)

interpretation by_tokens: packing "units_token_len u language" "\<lambda>xs. overlap_units_by_tokens u language xs overlap"
proof
  fix xs
  obtain k where "tail_tokens u language overlap 0 (rev xs) = take k (rev xs)" using tail_tokens_prefix by blast
  then show "\<exists>k. overlap_units_by_tokens u language xs overlap = drop k xs"
    using rev_take_rev [of k xs] by (auto simp: overlap_units_by_tokens_def intro: exI [of _ "length xs"])
qed

interpretation by_runes: packing units_len "\<lambda>xs. overlap_units xs overlap"
proof
  fix xs
  obtain k where "tail_runes overlap None (rev xs) = take k (rev xs)" using tail_runes_prefix by blast
  then show "\<exists>k. overlap_units xs overlap = drop k xs"
    using rev_take_rev [of k xs] by (auto simp: overlap_units_def intro: exI [of _ "length xs"])
qed

text \<open>The two loops of the code pack groups.\<close>

lemma units_token_len_snoc [simp]: "units_token_len u language (xs @ [x]) = units_token_len u language xs + token_len u language x"
  by (simp add: units_token_len_def)

lemma units_token_len_Nil [simp]: "units_token_len u language [] = 0"
  by (simp add: units_token_len_def)

lemma token_loop_groups:
  "n = units_token_len u language current \<Longrightarrow>
   token_loop u language limit overlap current n rest =
   concat (map emit (pack_groups (units_token_len u language) (\<lambda>xs. overlap_units_by_tokens u language xs overlap) limit current rest))"
proof (induction rest arbitrary: current n)
  case (Cons x rest)
  have one: "units_token_len u language [x] = token_len u language x" by (simp add: units_token_len_def)
  define kept where "kept = overlap_units_by_tokens u language current overlap"
  show ?case
  proof (cases "current \<noteq> [] \<and> limit < n + token_len u language x")
    case True
    have "token_loop u language limit overlap current n (x # rest) = emit current @
        (if kept \<noteq> [] \<and> limit < units_token_len u language kept + token_len u language x
         then token_loop u language limit overlap [x] (token_len u language x) rest
         else token_loop u language limit overlap (kept @ [x]) (units_token_len u language kept + token_len u language x) rest)"
      using True by (simp add: Let_def kept_def)
    moreover have "token_loop u language limit overlap [x] (token_len u language x) rest =
        concat (map emit (pack_groups (units_token_len u language) (\<lambda>xs. overlap_units_by_tokens u language xs overlap) limit [x] rest))"
      by (rule Cons.IH) (simp add: one)
    moreover have "token_loop u language limit overlap (kept @ [x]) (units_token_len u language kept + token_len u language x) rest =
        concat (map emit (pack_groups (units_token_len u language) (\<lambda>xs. overlap_units_by_tokens u language xs overlap) limit (kept @ [x]) rest))"
      by (rule Cons.IH) simp
    ultimately show ?thesis using True Cons.prems by (cases "kept = []") (simp_all add: kept_def [symmetric])
  next
    case False
    have "token_loop u language limit overlap (current @ [x]) (n + token_len u language x) rest =
        concat (map emit (pack_groups (units_token_len u language) (\<lambda>xs. overlap_units_by_tokens u language xs overlap) limit (current @ [x]) rest))"
      by (rule Cons.IH) (simp add: Cons.prems)
    moreover have "token_loop u language limit overlap current n (x # rest) = token_loop u language limit overlap (current @ [x]) (n + token_len u language x) rest"
      unfolding token_loop.simps Let_def by (rule if_not_P [OF False])
    moreover have "pack_groups (units_token_len u language) (\<lambda>xs. overlap_units_by_tokens u language xs overlap) limit current (x # rest) =
        pack_groups (units_token_len u language) (\<lambda>xs. overlap_units_by_tokens u language xs overlap) limit (current @ [x]) rest"
      using False Cons.prems by (auto simp del: One_nat_def)
    ultimately show ?thesis by simp
  qed
qed simp

lemma units_len_Nil [simp]: "units_len [] = 0"
  by (simp add: units_len_def)

lemma units_len_snoc: "units_len (xs @ [x]) =
  (if xs = [] then int (length (su_text x)) else units_len xs + separator_len (su_paragraph_start x) + int (length (su_text x)))"
  by (cases xs) (simp_all add: units_len_def)

lemma semantic_loop_groups:
  "n = units_len current \<Longrightarrow>
   semantic_loop limit overlap current n rest = concat (map emit (pack_groups units_len (\<lambda>xs. overlap_units xs overlap) limit current rest))"
proof (induction rest arbitrary: current n)
  case (Cons x rest)
  define kept where "kept = overlap_units current overlap"
  define len sep where "len = int (length (su_text x))" and "sep = separator_len (su_paragraph_start x)"
  have one: "units_len [x] = len" by (simp add: units_len_def len_def)
  have more: "units_len (xs @ [x]) = units_len xs + sep + len" if "xs \<noteq> []" for xs
    using that by (simp add: units_len_snoc len_def sep_def)
  have IH1: "semantic_loop limit overlap [x] len rest =
      concat (map emit (pack_groups units_len (\<lambda>xs. overlap_units xs overlap) limit [x] rest))"
    by (rule Cons.IH) (simp add: one)
  have IH2: "semantic_loop limit overlap (xs @ [x]) (units_len xs + sep + len) rest =
      concat (map emit (pack_groups units_len (\<lambda>xs. overlap_units xs overlap) limit (xs @ [x]) rest))" if "xs \<noteq> []" for xs
    by (rule Cons.IH) (simp add: more that)
  show ?case
  proof (cases "current = []")
    case True
    then show ?thesis using IH1 Cons.prems by (simp add: Let_def len_def)
  next
    case ne: False
    show ?thesis
    proof (cases "limit < n + sep + len")
      case True
      have "semantic_loop limit overlap current n (x # rest) = emit current @
          (if kept \<noteq> [] \<and> units_len kept + sep + len \<le> limit
           then semantic_loop limit overlap (kept @ [x]) (units_len kept + sep + len) rest
           else semantic_loop limit overlap [x] len rest)"
        using True ne by (simp add: Let_def kept_def len_def sep_def)
      then show ?thesis using True ne Cons.prems IH1 IH2 [of kept] more [of kept] more [of current]
        by (cases "kept = []") (simp_all add: kept_def [symmetric])
    next
      case False
      have "semantic_loop limit overlap current n (x # rest) = semantic_loop limit overlap (current @ [x]) (n + sep + len) rest"
        using False ne by (simp add: Let_def len_def sep_def)
      then show ?thesis using False ne Cons.prems IH2 [of current] more [of current] by simp
    qed
  qed
qed simp


section \<open>Units are trimmed and short\<close>

definition unit_ok :: "int \<Rightarrow> sentence_unit \<Rightarrow> bool" where
  "unit_ok limit x \<longleftrightarrow> su_text x \<noteq> [] \<and> trim_space (su_text x) = su_text x \<and> int (length (su_text x)) \<le> limit"

lemma trim_length: "length (trim_space s) \<le> length s"
  unfolding trim_space_def trim_left_def trim_right_def
  by (metis length_dropWhile_le length_rev order_trans)

lemma rune_pieces_short: "p \<in> set (rune_pieces n s) \<Longrightarrow> length p \<le> n"
proof (induction n s rule: rune_pieces.induct)
  case (1 n s)
  show ?case
  proof (cases "n = 0 \<or> s = []")
    case False
    then have "p \<in> set (flush_sentence (take n s)) \<or> p \<in> set (rune_pieces n (drop n s))"
      using "1.prems" by (subst (asm) rune_pieces.simps) auto
    then show ?thesis
    proof
      assume "p \<in> set (flush_sentence (take n s))"
      then have "p = trim_space (take n s)" by (auto simp: flush_sentence_def Let_def split: if_splits)
      then show ?thesis using trim_length [of "take n s"] by simp
    qed (use 1 False in blast)
  qed (use "1.prems" in \<open>simp add: rune_pieces.simps\<close>)
qed

lemma split_by_runes_short: "p \<in> set (split_by_runes s limit) \<Longrightarrow> int (length p) \<le> limit"
  using rune_pieces_short [of p "nat limit" "trim_space s"] by (auto simp: split_by_runes_def Let_def split: if_splits)

lemma enumerate_elem: "(j, p) \<in> set (enumerate k ps) \<Longrightarrow> p \<in> set ps"
  by (induction ps arbitrary: k) auto

lemma units_ok: "list_all (unit_ok limit) (build_sentence_units text limit)"
proof -
  have "unit_ok limit x" if elem: "x \<in> set (sentence_units limit i s)" for x i s
  proof -
    obtain p where p: "p \<in> set (split_by_runes (trim_space s) limit)" "su_text x = trim_space p" "trim_space p \<noteq> []"
    proof -
      have "trim_space s \<noteq> []" using elem by (auto simp: sentence_units_def Let_def)
      then obtain j p where jp: "(j, p) \<in> set (enumerate 0 (split_by_runes (trim_space s) limit))"
        "x \<in> set (let part = trim_space p in if part = [] then [] else [\<lparr>su_text = part, su_paragraph_start = (i = 0 \<and> j = 0)\<rparr>])"
        using elem unfolding sentence_units_def Let_def by auto
      have "su_text x = trim_space p" "trim_space p \<noteq> []" using jp(2) by (auto simp: Let_def split: if_splits)
      then show ?thesis using that enumerate_elem [OF jp(1)] by blast
    qed

    then show ?thesis using split_by_runes_short [OF p(1)] trim_length [of p] by (auto simp: unit_ok_def)
  qed
  then show ?thesis by (auto simp: list_all_iff build_sentence_units_def)
qed

lemma trimmed_ends: "s \<noteq> [] \<Longrightarrow> trim_space s = s \<Longrightarrow> \<not> is_space (hd s) \<and> \<not> is_space (last s)"
  by (metis trim_space_hd trim_space_last)

lemma units_text:
  assumes "list_all (unit_ok limit) xs" "xs \<noteq> []"
  shows "units_to_text xs \<noteq> [] \<and> int (length (units_to_text xs)) = units_len xs"
proof -
  obtain x ys where xs: "xs = x # ys" using assms(2) by (cases xs) auto
  define t where "t = su_text x @ concat (map (\<lambda>y. separator (su_paragraph_start y) @ su_text y) ys)"
  have x: "su_text x \<noteq> []" "\<not> is_space (hd (su_text x))"
    using assms(1) trimmed_ends [of "su_text x"] by (auto simp: xs unit_ok_def)
  have "\<not> is_space (last t)"
  proof (cases ys rule: rev_cases)
    case Nil
    then show ?thesis using assms(1) trimmed_ends [of "su_text x"] by (simp add: t_def xs unit_ok_def)
  next
    case (snoc zs z)
    then have "su_text z \<noteq> []" "\<not> is_space (last (su_text z))"
      using assms(1) trimmed_ends [of "su_text z"] by (auto simp: xs unit_ok_def)
    then show ?thesis by (simp add: t_def snoc)
  qed
  then have "trim_space t = t" using x by (intro trim_space_fix) (simp add: t_def)
  then have "units_to_text xs = t" by (simp add: units_to_text_def xs t_def)
  moreover have "int (length t) = units_len xs"
    by (simp add: t_def units_len_def xs separator_def separator_len_def length_concat comp_def if_distrib cong: map_cong)
      (induction ys, auto)
  ultimately show ?thesis using x by (simp add: t_def)
qed

lemma slice_all: "list_all P xs \<Longrightarrow> list_all P (slice a b xs)"
  by (auto simp: list_all_iff slice_def dest: in_set_takeD in_set_dropD)

lemma emit_groups:
  assumes "list_all (unit_ok m) xs" "pack_groups cost keep limit [] xs = map (\<lambda>(a, b). slice a b xs) spans"
    "list_all (fits cost limit) (pack_groups cost keep limit [] xs)"
  shows "concat (map emit (pack_groups cost keep limit [] xs)) = map (\<lambda>(a, b). units_to_text (slice a b xs)) spans"
proof -
  have "emit (slice a b xs) = [units_to_text (slice a b xs)]" if "(a, b) \<in> set spans" for a b
  proof -
    have "slice a b xs \<noteq> []" using assms(3) that unfolding assms(2) by (auto simp: list_all_iff fits_def)
    then show ?thesis using units_text [OF slice_all [OF assms(1)]] by (simp add: emit_def)
  qed
  then show ?thesis unfolding assms(2) by (induction spans) auto
qed

section \<open>Clean texts\<close>

lemma clean_line_squeezed: "squeezed (clean_line l)"
proof -
  have "squeezed []" unfolding squeezed_def by (intro exI [of _ "[]"]) simp
  then show ?thesis using squeeze_squeezed [of "trim_space l"] by (simp add: clean_line_def squeeze_line_def Let_def)
qed

lemma clean_line_fix: "squeezed l \<Longrightarrow> clean_line l = l"
proof -
  assume l: "squeezed l"
  then have "trim_space l = l" using squeezed_ends [of l] by (intro trim_space_fix) blast
  then show ?thesis using squeezed_fix [OF l] by (simp add: clean_line_def squeeze_line_def Let_def)
qed

text \<open>A rune that cleaning leaves alone.\<close>

definition clean_rune :: "rune \<Rightarrow> bool" where
  "clean_rune r \<longleftrightarrow> sanitize_rune r = [r] \<and> r \<noteq> 0 \<and> r \<noteq> 9 \<and> r \<noteq> 13"

definition clean_text :: "gostr \<Rightarrow> bool" where
  "clean_text s \<longleftrightarrow> trim_space s = s \<and> (\<forall>r\<in>set s. clean_rune r) \<and> (\<forall>l\<in>set (split_on 10 s). squeezed l)"

lemma clean_text_fixed:
  assumes "clean_text s"
  shows "normalize_text_preserve_newlines s = s"
proof -
  have r: "clean_rune r" if "r \<in> set s" for r using assms that by (simp add: clean_text_def)
  have zero: "map (\<lambda>r. if r = 0 then 32 else r) s = s" by (rule map_idI) (use r in \<open>auto simp: clean_rune_def\<close>)
  have "13 \<notin> set s" "9 \<notin> set s" using r by (auto simp: clean_rune_def)
  then have breaks: "line_breaks s = s"
    unfolding line_breaks_def by (simp add: crlf_id) (rule map_idI, auto)
  have "map sanitize_rune s = map (\<lambda>r. [r]) s" by (rule map_cong) (use r in \<open>auto simp: clean_rune_def\<close>)
  moreover have "concat (map (\<lambda>r. [r]) xs) = xs" for xs :: gostr by (induction xs) auto
  ultimately have "sanitize_text_runes s = s" by (simp only: sanitize_text_runes_def)
  moreover have "map clean_line (split_on 10 s) = split_on 10 s"
    by (rule map_idI) (use assms in \<open>auto simp: clean_text_def clean_line_fix\<close>)
  ultimately show ?thesis
    using assms zero breaks by (simp add: normalize_text_preserve_newlines_def Let_def join_split clean_text_def)
qed

lemma sanitized: "q \<in> set (sanitize_rune r) \<Longrightarrow> q = 32 \<or> q = 10 \<or> (sanitize_rune q = [q] \<and> q \<noteq> 0 \<and> q \<noteq> 9 \<and> q \<noteq> 13)"
  by (auto simp: sanitize_rune_def is_control_def split: if_splits)

lemma clean_rune_32: "clean_rune 32" and clean_rune_10: "clean_rune 10"
  by (simp_all add: clean_rune_def sanitize_rune_def is_control_def)

lemma normalized_clean: "clean_text (normalize_text_preserve_newlines text)"
proof -
  define t where "t = sanitize_text_runes (line_breaks (map (\<lambda>r. if r = 0 then 32 else r) text))"
  define ls where "ls = map clean_line (split_on 10 t)"
  have t: "clean_rune r" if rt: "r \<in> set t" for r
  proof -
    obtain q where "r \<in> set (sanitize_rune q)" using rt by (auto simp: t_def sanitize_text_runes_def)
    from sanitized [OF this] show ?thesis using clean_rune_32 clean_rune_10 by (auto simp: clean_rune_def)
  qed
  have sq: "squeezed l" if "l \<in> set ls" for l
    using that clean_line_squeezed by (auto simp: ls_def)
  have clean: "clean_rune r" if lr: "l \<in> set ls" "r \<in> set l" for l r
  proof -
    obtain k where k: "k \<in> set (split_on 10 t)" "l = clean_line k" using lr(1) by (auto simp: ls_def)
    have "r = 32 \<or> (\<exists>w\<in>set (str_fields (trim_space k)). r \<in> set w)"
      using lr(2) k(2) set_join [of "str_fields (trim_space k)" "[32]"] by (auto simp: clean_line_def Let_def split: if_splits)
    then have "r = 32 \<or> r \<in> set k" using str_fields_words [of _ "trim_space k"] trim_space_set [of k] by blast
    then show ?thesis using t split_parts [OF k(1)] clean_rune_32 by blast
  qed
  have no_nl: "10 \<notin> set l" if "l \<in> set ls" for l
    using squeezed_set [OF sq [OF that], of 10] by (auto simp: is_space_def)
  define ms where "ms = rev (dropWhile (\<lambda>l. l = []) (rev (dropWhile (\<lambda>l. l = []) ls)))"
  have sub: "set ms \<subseteq> set ls" unfolding ms_def set_rev
    by (intro subsetI) (metis set_dropWhileD set_rev)
  have "trim_left (join ls [10]) = join (dropWhile (\<lambda>l. l = []) ls) [10]"
    using sq by (rule trim_left_lines)
  moreover have "trim_right (join (dropWhile (\<lambda>l. l = []) ls) [10]) = join ms [10]"
    unfolding ms_def using sq by (intro trim_right_lines) (auto dest: set_dropWhileD)
  ultimately have n: "normalize_text_preserve_newlines text = join ms [10]"
    by (simp add: normalize_text_preserve_newlines_def Let_def t_def ls_def trim_space_def)
  have nt: "normalize_text_preserve_newlines text = trim_space (join ls [10])"
    by (simp add: normalize_text_preserve_newlines_def Let_def t_def ls_def)
  have "trim_space (join ms [10]) = join ms [10]"
    unfolding n [symmetric] nt by (rule trim_space_idem)
  moreover have "clean_rune r" if "r \<in> set (join ms [10])" for r
    using that set_join [of ms "[10]"] clean sub clean_rune_10 by auto
  moreover have "split_on 10 (join ms [10]) = (if ms = [] then [[]] else ms)"
    using split_join [of ms 10] no_nl sub by auto
  moreover have "squeezed []" unfolding squeezed_def by (intro exI [of _ "[]"]) simp
  ultimately show ?thesis using sq sub unfolding clean_text_def n by auto
qed

section \<open>Properties\<close>

text \<open>
  C33: cutting a text by tokens loses nothing and keeps to the token limit.  The units of the text are its sentences, cut to
  at most \<open>max (limit * 6) 240\<close> runes, and hold every rune of the text but its spaces, in order.  Each chunk is a run of
  consecutive units that starts no later than the run before ends and ends later than it, the last one with the last unit;
  a chunk is within the token limit unless it is a single unit, and it ends only where the next unit would exceed the limit.
\<close>

theorem chunk_text_by_tokens_covers:
  assumes "0 < limit"
  shows "let units = build_sentence_units (trim_space text) (max (limit * 6) 240);
      tokens = units_token_len u (detect_language u (trim_space text))
    in units_ink units = ink text \<and> list_all (unit_ok (max (limit * 6) 240)) units \<and>
       (\<exists>spans. chunk_text_by_tokens u text limit overlap = map (\<lambda>(a, b). units_to_text (slice a b units)) spans \<and>
         covers 0 spans (length units) \<and> list_all (\<lambda>(a, b). fits tokens limit (slice a b units)) spans \<and> full tokens limit units spans)"
proof -
  define units where "units = build_sentence_units (trim_space text) (max (limit * 6) 240)"
  define lang where "lang = detect_language u (trim_space text)"
  define groups where "groups = pack_groups (units_token_len u lang) (\<lambda>xs. overlap_units_by_tokens u lang xs overlap) limit [] units"
  have ink: "units_ink units = ink text" unfolding units_def by (subst ink_units) auto
  obtain spans where spans: "groups = map (\<lambda>(a, b). slice a b units) spans" "covers 0 spans (length units)"
    "list_all (fits (units_token_len u lang) limit) groups" "full (units_token_len u lang) limit units spans"
    using by_tokens.groups_cover_all [of u lang overlap limit units] unfolding groups_def by blast
  have "token_loop u lang limit overlap [] 0 units = concat (map emit groups)"
    unfolding groups_def by (rule token_loop_groups) simp
  also have "\<dots> = map (\<lambda>(a, b). units_to_text (slice a b units)) spans"
    using emit_groups [OF units_ok spans(1,3) [unfolded groups_def units_def]] unfolding groups_def units_def by blast
  finally have loop: "token_loop u lang limit overlap [] 0 units = map (\<lambda>(a, b). units_to_text (slice a b units)) spans" .
  have fit: "list_all (\<lambda>(a, b). fits (units_token_len u lang) limit (slice a b units)) spans"
    using spans(3) unfolding spans(1) by (auto simp: list_all_iff)
  have "\<exists>spans. chunk_text_by_tokens u text limit overlap = map (\<lambda>(a, b). units_to_text (slice a b units)) spans \<and>
    covers 0 spans (length units) \<and> list_all (\<lambda>(a, b). fits (units_token_len u lang) limit (slice a b units)) spans \<and>
    full (units_token_len u lang) limit units spans"
  proof (cases "trim_space text = []")
    case True
    have "units = []" using True
      by (simp add: units_def build_sentence_units_def split_paragraphs_def flush_paragraph_def)
    then show ?thesis using True by (intro exI [of _ "[]"]) (simp add: chunk_text_by_tokens_def)
  next
    case False
    then have "chunk_text_by_tokens u text limit overlap = map (\<lambda>(a, b). units_to_text (slice a b units)) spans"
      using assms loop by (simp add: chunk_text_by_tokens_def units_def lang_def Let_def)
    then show ?thesis using spans(2,4) fit by blast
  qed
  then show ?thesis using ink units_ok unfolding units_def lang_def Let_def by blast
qed

text \<open>Every chunk cut by runes has between one and \<open>limit\<close> runes, whatever the text and the overlap.\<close>

theorem chunk_text_semantic_bounded:
  "list_all (\<lambda>c. c \<noteq> [] \<and> int (length c) \<le> limit) (chunk_text_semantic text limit overlap)"
proof (cases "limit \<le> 0")
  case False
  define units where "units = build_sentence_units text limit"
  define groups where "groups = pack_groups units_len (\<lambda>xs. overlap_units xs overlap) limit [] units"
  obtain spans where spans: "groups = map (\<lambda>(a, b). slice a b units) spans" "list_all (fits units_len limit) groups"
    using by_runes.groups_cover_all [of overlap limit units] unfolding groups_def by blast
  have "chunk_text_semantic text limit overlap = concat (map emit groups)"
    using False semantic_loop_groups [of 0 "[]" limit overlap units] by (simp add: chunk_text_semantic_def units_def groups_def)
  also have "\<dots> = map (\<lambda>(a, b). units_to_text (slice a b units)) spans"
    using emit_groups [OF units_ok spans [unfolded groups_def units_def]] unfolding groups_def units_def by blast
  finally have eq: "chunk_text_semantic text limit overlap = map (\<lambda>(a, b). units_to_text (slice a b units)) spans" .
  have "units_to_text (slice a b units) \<noteq> [] \<and> int (length (units_to_text (slice a b units))) \<le> limit" if "(a, b) \<in> set spans" for a b
  proof -
    define g where "g = slice a b units"
    have g: "fits units_len limit g" "list_all (unit_ok limit) g"
      using spans that slice_all [OF units_ok [of limit "text"]] by (auto simp: g_def units_def list_all_iff)
    have "units_len g \<le> limit"
    proof (cases "length g = 1")
      case True
      then obtain x where "g = [x]" by (cases g) auto
      then show ?thesis using g(2) by (simp add: units_len_def unit_ok_def)
    qed (use g(1) in \<open>simp add: fits_def\<close>)
    then show ?thesis using units_text [OF g(2)] g(1) by (simp add: fits_def g_def)
  qed
  then show ?thesis unfolding eq by (auto simp: list_all_iff)
qed (simp add: chunk_text_semantic_def)


text \<open>
  Cleaning a text twice gives what cleaning it once gives, and the lines of a clean text are words
  separated by single spaces.
\<close>

theorem normalize_preserve_idempotent:
  "normalize_text_preserve_newlines (normalize_text_preserve_newlines text) = normalize_text_preserve_newlines text \<and>
   list_all squeezed (split_on 10 (normalize_text_preserve_newlines text))"
  using clean_text_fixed [OF normalized_clean] normalized_clean [of "text"] by (simp add: clean_text_def list_all_iff)

theorem chunk_text_by_tokens_covers_witness:
  "let text = lit ''ab cd. ef''; units = build_sentence_units (trim_space text) (max (2 * 6) 240);
       tokens = units_token_len demo_unicode (detect_language demo_unicode (trim_space text))
   in units_ink units = ink text \<and> list_all (unit_ok (max (2 * 6) 240)) units \<and>
      (\<exists>spans. chunk_text_by_tokens demo_unicode text 2 1 = map (\<lambda>(a, b). units_to_text (slice a b units)) spans \<and>
        covers 0 spans (length units) \<and> list_all (\<lambda>(a, b). fits tokens 2 (slice a b units)) spans \<and> full tokens 2 units spans)"
  using chunk_text_by_tokens_covers [of 2 "lit ''ab cd. ef''" demo_unicode 1] by (simp only: Let_def zero_less_numeral)

end
