(* ===== verification/PdfPages.thy ===== *)
theory PdfPages
  imports Chunking Paths "HOL-Library.Multiset"
begin

text \<open>
  From a file to its blocks of text (\<open>backend/services/ingest/internal/app/parser.go\<close>): the pages of a
  PDF, their quality, merging them with the pages that character recognition found, the sections of an
  EPUB and plain texts.  Parameters are what the extraction tools return: the output of \<open>pdftotext\<close>, the
  pages of the Go library, the JSON of PaddleOCR, the pages of the OCR service, the parsed HTML of an
  archive; and the formatting of a number with three decimals.  \<open>float64\<close> is read as a real number.
\<close>

section \<open>Pages\<close>

type_synonym metadata = "gostr \<rightharpoonup> gostr"

record chunk_payload =
  cp_content :: gostr
  cp_metadata :: metadata

record page_extraction =
  pe_page :: int
  pe_text :: gostr
  pe_method :: gostr
  pe_ocr_avg_score :: real

record page_quality =
  pq_runes :: nat
  pq_non_empty_lines :: nat
  pq_alpha_num_ratio :: real
  pq_score :: real

definition clamp01 :: "real \<Rightarrow> real" where
  "clamp01 v = (if v < 0 then 0 else if 1 < v then 1 else v)"

definition evaluate_page_quality :: "unicode \<Rightarrow> gostr \<Rightarrow> page_quality" where
  "evaluate_page_quality u text =
     (let runes = trim_space text in
      if runes = [] then \<lparr>pq_runes = 0, pq_non_empty_lines = 0, pq_alpha_num_ratio = 0, pq_score = 0\<rparr>
      else
        let alpha_num = length (filter (\<lambda>r. un_letter u r \<or> un_digit u r) runes);
            non_empty = length (filter (\<lambda>line. trim_space line \<noteq> []) (split_on 10 runes));
            ratio = real alpha_num / real (length runes);
            line_count = (if non_empty \<le> 0 then 1 else non_empty);
            avg_line_len = real (length runes) / real line_count;
            length_score = clamp01 (real (length runes) / 300);
            density_score = clamp01 (avg_line_len / 24)
        in \<lparr>pq_runes = length runes, pq_non_empty_lines = non_empty, pq_alpha_num_ratio = ratio,
            pq_score = 0.45 * length_score + 0.30 * ratio + 0.25 * density_score\<rparr>)"

definition is_low_quality_page :: "page_quality \<Rightarrow> int \<Rightarrow> real \<Rightarrow> bool" where
  "is_low_quality_page q min_runes min_score \<longleftrightarrow>
     pq_runes q = 0 \<or> (0 < min_runes \<and> int (pq_runes q) < min_runes) \<or> pq_score q < min_score"

section \<open>Merging native and recognised pages\<close>

record pdf_config =
  pc_ocr_enabled :: bool
  pc_min_runes :: int
  pc_min_score :: real
  pc_score_diff :: real

text \<open>A later page with the same number replaces an earlier one.\<close>

definition pages_by_number :: "page_extraction list \<Rightarrow> (int \<rightharpoonup> page_extraction)" where
  "pages_by_number pages = fold (\<lambda>p m. m(pe_page p \<mapsto> p)) pages Map.empty"

definition ocr_score :: "unicode \<Rightarrow> page_extraction \<Rightarrow> real" where
  "ocr_score u page =
     (let score = pq_score (evaluate_page_quality u (pe_text page)) in
      if 0 < pe_ocr_avg_score page then score * 0.8 + pe_ocr_avg_score page * 0.2 else score)"

definition choose_page ::
  "unicode \<Rightarrow> pdf_config \<Rightarrow> page_extraction option \<Rightarrow> page_extraction option \<Rightarrow> page_extraction list" where
  "choose_page u c native ocr =
     (case (native, ocr) of
        (None, None) \<Rightarrow> []
      | (Some n, None) \<Rightarrow> [n]
      | (None, Some r) \<Rightarrow> [r]
      | (Some n, Some r) \<Rightarrow>
          let q = evaluate_page_quality u (pe_text n) in
          if is_low_quality_page q (pc_min_runes c) (pc_min_score c) \<and> pq_score q + pc_score_diff c \<le> ocr_score u r
          then [r] else [n])"

text \<open>\<open>order\<close>: the page numbers in the order in which the runtime iterates over the map of all pages.\<close>

definition merge_pdf_pages ::
  "unicode \<Rightarrow> pdf_config \<Rightarrow> int list \<Rightarrow> page_extraction list \<Rightarrow> page_extraction list \<Rightarrow> page_extraction list" where
  "merge_pdf_pages u c order native_pages ocr_pages =
     (let native = pages_by_number native_pages; ocr = pages_by_number ocr_pages in
      sort_key pe_page (concat (map (\<lambda>n. choose_page u c (native n) (ocr n)) order)))"

definition iterates_pages :: "int list \<Rightarrow> page_extraction list \<Rightarrow> page_extraction list \<Rightarrow> bool" where
  "iterates_pages order native ocr \<longleftrightarrow> distinct order \<and> set order = pe_page ` set native \<union> pe_page ` set ocr"

section \<open>The pages of the tools\<close>

text \<open>The output of \<open>pdftotext\<close>, or its failure: the pages end with a form feed.\<close>

definition pdftotext_pages :: "gostr option \<Rightarrow> page_extraction list" where
  "pdftotext_pages output =
     (case output of None \<Rightarrow> []
      | Some raw \<Rightarrow>
          concat (map (\<lambda>(i, text0).
              let text = normalize_text_preserve_newlines text0 in
              if text = [] then []
              else [\<lparr>pe_page = int i + 1, pe_text = text, pe_method = lit ''pdftotext'', pe_ocr_avg_score = 0\<rparr>])
            (enumerate 0 (split_on 12 (map (\<lambda>r. if r = 0 then 32 else r) raw)))))"

text \<open>Pages that the Go library read, by number; those it failed on are left out.\<close>

definition golib_pages :: "(int \<times> gostr) list \<Rightarrow> page_extraction list" where
  "golib_pages pages =
     concat (map (\<lambda>(i, text0).
         let text = normalize_text_preserve_newlines text0 in
         if text = [] then []
         else [\<lparr>pe_page = i, pe_text = text, pe_method = lit ''golib'', pe_ocr_avg_score = 0\<rparr>]) pages)"

text \<open>\<open>err\<close>: the text of the error when neither finds a page.\<close>

definition parse_pdf_native_pages :: "gostr \<Rightarrow> gostr option \<Rightarrow> (int \<times> gostr) list \<Rightarrow> gostr + page_extraction list" where
  "parse_pdf_native_pages err output pages =
     (let ps = pdftotext_pages output; qs = golib_pages pages in
      if ps \<noteq> [] then Inr ps else if qs = [] then Inl err else Inr qs)"

text \<open>Recognised pages: number, text and average score.\<close>

record ocr_page =
  op_page :: int
  op_text :: gostr
  op_avg_score :: real

definition ocr_extractions :: "gostr \<Rightarrow> gostr \<Rightarrow> ocr_page list \<Rightarrow> gostr + page_extraction list" where
  "ocr_extractions label method pages =
     (let out = concat (map (\<lambda>p.
          let text = normalize_text_preserve_newlines (op_text p) in
          if text = [] then []
          else [\<lparr>pe_page = op_page p, pe_text = text, pe_method = method, pe_ocr_avg_score = op_avg_score p\<rparr>]) pages)
      in if out = [] then Inl (label @ lit '' extracted no usable text'') else Inr out)"

section \<open>The JSON of PaddleOCR\<close>

text \<open>The members of an object are in the order in which the runtime iterates over the map.\<close>

datatype json = JNull | JBool bool | JNum real | JStr gostr | JArr "json list" | JObj "(gostr \<times> json) list"

record ocr_entry =
  oe_text :: gostr
  oe_score :: real

definition to_int :: "json \<Rightarrow> int" where
  "to_int v =
     (case v of
        JNum x \<Rightarrow> if 0 \<le> x then \<lfloor>x\<rfloor> else \<lceil>x\<rceil>
      | JStr s \<Rightarrow> (case atoi (trim_space s) of Some i \<Rightarrow> i | None \<Rightarrow> 0)
      | _ \<Rightarrow> 0)"

definition to_float :: "(gostr \<rightharpoonup> real) \<Rightarrow> json \<Rightarrow> real" where
  "to_float parse_float v =
     (case v of
        JNum x \<Rightarrow> x
      | JStr s \<Rightarrow> (case parse_float (trim_space s) of Some x \<Rightarrow> x | None \<Rightarrow> 0)
      | _ \<Rightarrow> 0)"

definition rec_entries :: "(gostr \<rightharpoonup> real) \<Rightarrow> (gostr \<times> json) list \<Rightarrow> ocr_entry list" where
  "rec_entries parse_float m =
     (case map_of m (lit ''rec_texts'') of
        Some (JArr arr) \<Rightarrow>
          (let scores = (case map_of m (lit ''rec_scores'') of
                           Some (JArr ss) \<Rightarrow> map (to_float parse_float) ss | _ \<Rightarrow> []) in
           concat (map (\<lambda>(i, item).
             (case item of
                JStr s \<Rightarrow>
                  (let t = trim_space s in
                   if t = [] then []
                   else [\<lparr>oe_text = t, oe_score = (if i < length scores then scores ! i else 0)\<rparr>])
              | _ \<Rightarrow> [])) (enumerate 0 arr)))
      | _ \<Rightarrow> [])"

fun collect_rec_entries :: "(gostr \<rightharpoonup> real) \<Rightarrow> json \<Rightarrow> ocr_entry list" where
  "collect_rec_entries pf (JObj m) = rec_entries pf m @ concat (map (\<lambda>(k, v). collect_rec_entries pf v) m)"
| "collect_rec_entries pf (JArr xs) = concat (map (collect_rec_entries pf) xs)"
| "collect_rec_entries pf _ = []"

definition find_page_items :: "json \<Rightarrow> json list" where
  "find_page_items payload =
     (case payload of
        JArr xs \<Rightarrow> xs
      | JObj m \<Rightarrow> (case map_of m (lit ''ocrResults'') of Some (JArr xs) \<Rightarrow> xs | _ \<Rightarrow> [])
      | _ \<Rightarrow> [])"

definition build_ocr_page :: "int \<Rightarrow> ocr_entry list \<Rightarrow> ocr_page" where
  "build_ocr_page n entries0 =
     (let entries = filter (\<lambda>e. oe_text e \<noteq> []) entries0;
          scores = filter (\<lambda>x. 0 < x) (map oe_score entries)
      in \<lparr>op_page = n, op_text = join (map oe_text entries) [10],
          op_avg_score = (if scores = [] then 0 else sum_list scores / real (length scores))\<rparr>)"

definition item_page_number :: "nat \<Rightarrow> json \<Rightarrow> int" where
  "item_page_number i item =
     (case item of
        JObj m \<Rightarrow>
          (case map_of m (lit ''page_index'') of
             Some v \<Rightarrow> to_int v + 1
           | None \<Rightarrow>
               (case map_of m (lit ''page'') of
                  Some v \<Rightarrow> if to_int v \<le> 0 then int i + 1 else to_int v
                | None \<Rightarrow> int i + 1))
      | _ \<Rightarrow> int i + 1)"

definition parse_paddle_ocr_json :: "(gostr \<rightharpoonup> real) \<Rightarrow> json \<Rightarrow> gostr + ocr_page list" where
  "parse_paddle_ocr_json pf payload =
     (let items = find_page_items payload in
      if items = [] then
        (let entries = collect_rec_entries pf payload in
         if entries = [] then Inl (lit ''no rec_texts found'') else Inr [build_ocr_page 1 entries])
      else
        let pages = concat (map (\<lambda>(i, item).
              let entries = collect_rec_entries pf item in
              if entries = [] then [] else [build_ocr_page (item_page_number i item) entries]) (enumerate 0 items))
        in if pages = [] then Inl (lit ''no page texts found'') else Inr pages)"

text \<open>
  The files of the output directory in the order of their names: the name, and an error of reading it, an
  error of decoding it, or its value.
\<close>

fun read_files :: "(gostr \<rightharpoonup> real) \<Rightarrow> (gostr \<times> (gostr + (gostr + json))) list \<Rightarrow> gostr + ocr_page list" where
  "read_files pf [] = Inr []"
| "read_files pf ((name, content) # fs) =
     (case content of
        Inl e \<Rightarrow> Inl (lit ''read paddleocr json: '' @ e)
      | Inr decoded \<Rightarrow>
          (case (case decoded of Inl e \<Rightarrow> Inl e | Inr j \<Rightarrow> parse_paddle_ocr_json pf j) of
             Inl e \<Rightarrow> Inl (lit ''parse paddleocr json '' @ name @ lit '': '' @ e)
           | Inr ps \<Rightarrow> (case read_files pf fs of Inl e \<Rightarrow> Inl e | Inr qs \<Rightarrow> Inr (ps @ qs))))"

definition read_paddle_ocr_pages ::
  "(gostr \<rightharpoonup> real) \<Rightarrow> gostr \<Rightarrow> (gostr \<times> (gostr + (gostr + json))) list \<Rightarrow> gostr + ocr_page list" where
  "read_paddle_ocr_pages pf save_path files =
     (if files = [] then Inl (lit ''paddleocr output missing json in '' @ save_path)
      else
        case read_files pf files of
          Inl e \<Rightarrow> Inl e
        | Inr pages \<Rightarrow>
            if pages = [] then Inl (lit ''paddleocr json has no page text'') else Inr (sort_key op_page pages))"

section \<open>Blocks\<close>

definition build_pdf_chunks :: "unicode \<Rightarrow> (real \<Rightarrow> gostr) \<Rightarrow> page_extraction list \<Rightarrow> chunk_payload list" where
  "build_pdf_chunks u fmt3 pages =
     concat (map (\<lambda>p.
       let q = evaluate_page_quality u (pe_text p) in
       if trim_space (pe_text p) = [] then []
       else
         let meta = [lit ''source_type'' \<mapsto> lit ''pdf'', lit ''source_ref'' \<mapsto> lit ''page:'' @ itoa (pe_page p),
                     lit ''page'' \<mapsto> itoa (pe_page p), lit ''extract_method'' \<mapsto> pe_method p,
                     lit ''page_quality_score'' \<mapsto> fmt3 (pq_score q), lit ''page_runes'' \<mapsto> itoa (int (pq_runes q))]
         in [\<lparr>cp_content = pe_text p,
              cp_metadata = (if 0 < pe_ocr_avg_score p
                then meta(lit ''ocr_avg_score'' \<mapsto> fmt3 (pe_ocr_avg_score p)) else meta)\<rparr>]) pages)"

text \<open>The native pages, or the error that there are none; \<open>ocr\<close> is what recognition returns when it runs.\<close>

definition parse_pdf ::
  "unicode \<Rightarrow> (real \<Rightarrow> gostr) \<Rightarrow> pdf_config \<Rightarrow> int list \<Rightarrow> gostr + page_extraction list \<Rightarrow> gostr + page_extraction list \<Rightarrow>
   gostr + chunk_payload list" where
  "parse_pdf u fmt3 c order native_result ocr =
     (let failed = lit ''no text extracted from PDF'';
          native = (case native_result of Inl _ \<Rightarrow> [] | Inr ps \<Rightarrow> ps);
          native_err = (case native_result of Inl e \<Rightarrow> e | Inr _ \<Rightarrow> lit ''<nil>'');
          needs_ocr = pc_ocr_enabled c \<and> (native = [] \<or>
            (\<exists>p\<in>set native. is_low_quality_page (evaluate_page_quality u (pe_text p)) (pc_min_runes c) (pc_min_score c)))
      in if native = [] \<and> \<not> pc_ocr_enabled c then Inl (failed @ lit ''; native='' @ native_err)
         else if needs_ocr then
           (case ocr of
              Inl e \<Rightarrow>
                if native = [] then Inl (failed @ lit ''; native='' @ native_err @ lit ''; ocr='' @ e)
                else Inr (build_pdf_chunks u fmt3 native)
            | Inr pages \<Rightarrow>
                let selected = merge_pdf_pages u c order native pages in
                if selected = [] then Inl failed else Inr (build_pdf_chunks u fmt3 selected))
         else Inr (build_pdf_chunks u fmt3 native))"

section \<open>EPUB and plain text\<close>

datatype html_node = HText gostr | HElement gostr "html_node list" | HOther "html_node list"

definition block_tags :: "gostr list" where
  "block_tags = map lit [''p'', ''div'', ''li'', ''h1'', ''h2'', ''h3'', ''h4'', ''h5'', ''h6'']"

fun extract_text :: "html_node \<Rightarrow> gostr" where
  "extract_text (HText t) = t @ [32]"
| "extract_text (HElement tag children) =
     (if tag = lit ''script'' \<or> tag = lit ''style'' then []
      else concat (map extract_text children) @
        (if tag = lit ''br'' then [10] else if tag \<in> set block_tags then [10, 10] else []))"
| "extract_text (HOther children) = concat (map extract_text children)"

text \<open>The files of the archive: name, and the parsed content or an error.\<close>

fun parse_epub :: "(rune \<Rightarrow> rune) \<Rightarrow> (gostr \<times> (gostr + html_node)) list \<Rightarrow> gostr + chunk_payload list" where
  "parse_epub lw [] = Inr []"
| "parse_epub lw ((file, content) # files) =
     (let name = to_lower lw file in
      if \<not> (has_suffix name (lit ''.xhtml'') \<or> has_suffix name (lit ''.html'') \<or> has_suffix name (lit ''.htm''))
      then parse_epub lw files
      else
        case content of
          Inl e \<Rightarrow> Inl e
        | Inr doc \<Rightarrow>
            (let text = normalize_text_preserve_newlines (extract_text doc); base = file_base file in
             if text = [] then parse_epub lw files
             else
               case parse_epub lw files of
                 Inl e \<Rightarrow> Inl e
               | Inr chunks \<Rightarrow>
                   Inr (\<lparr>cp_content = text,
                         cp_metadata = [lit ''source_type'' \<mapsto> lit ''epub'', lit ''source_ref'' \<mapsto> lit ''section:'' @ base,
                           lit ''section'' \<mapsto> base, lit ''section_path'' \<mapsto> base,
                           lit ''extract_method'' \<mapsto> lit ''epub_html_parser'']\<rparr> # chunks)))"

definition parse_text :: "gostr + gostr \<Rightarrow> gostr + chunk_payload list" where
  "parse_text data =
     (case data of
        Inl e \<Rightarrow> Inl (lit ''read file: '' @ e)
      | Inr raw \<Rightarrow>
          let text = normalize_text_preserve_newlines raw in
          Inr (if text = [] then []
               else [\<lparr>cp_content = text,
                      cp_metadata = [lit ''source_type'' \<mapsto> lit ''text'', lit ''source_ref'' \<mapsto> lit ''text'',
                        lit ''extract_method'' \<mapsto> lit ''plain_text_parser'']\<rparr>]))"

text \<open>What the tools find in a downloaded file.\<close>

record file_views =
  fv_pdf_native :: "gostr + page_extraction list"
  fv_pdf_ocr :: "gostr + page_extraction list"
  fv_pdf_order :: "int list"
  fv_epub :: "gostr + (gostr \<times> (gostr + html_node)) list"
  fv_text :: "gostr + gostr"

definition parse_and_chunk ::
  "unicode \<Rightarrow> (real \<Rightarrow> gostr) \<Rightarrow> pdf_config \<Rightarrow> gostr \<Rightarrow> file_views \<Rightarrow> gostr + chunk_payload list" where
  "parse_and_chunk u fmt3 c filename v =
     (let ext = to_lower (un_lower u) (file_ext filename) in
      if ext = lit ''.pdf'' then parse_pdf u fmt3 c (fv_pdf_order v) (fv_pdf_native v) (fv_pdf_ocr v)
      else if ext = lit ''.epub'' then
        (case fv_epub v of Inl e \<Rightarrow> Inl (lit ''open epub: '' @ e) | Inr files \<Rightarrow> parse_epub (un_lower u) files)
      else parse_text (fv_text v))"

section \<open>Merged pages\<close>

lemma pages_by_number_fold:
  "fold (\<lambda>p m. m(pe_page p \<mapsto> p)) pages m n = (case List.find (\<lambda>p. pe_page p = n) (rev pages) of Some p \<Rightarrow> Some p | None \<Rightarrow> m n)"
proof (induction pages arbitrary: m)
  case (Cons p ps)
  show ?case by (simp only: fold.simps o_apply Cons.IH) (simp add: find_append split: option.split)
qed simp

lemma pages_by_number_Some: "pages_by_number pages n = Some p \<Longrightarrow> p \<in> set pages \<and> pe_page p = n"
proof -
  assume "pages_by_number pages n = Some p"
  then have "List.find (\<lambda>p. pe_page p = n) (rev pages) = Some p"
    unfolding pages_by_number_def pages_by_number_fold by (cases "List.find (\<lambda>p. pe_page p = n) (rev pages)") auto
  then obtain i where "i < length (rev pages)" "pe_page (rev pages ! i) = n" "p = rev pages ! i"
    unfolding find_Some_iff by blast
  then show ?thesis using nth_mem [of i "rev pages"] by auto
qed

lemma pages_by_number_None: "pages_by_number pages n = None \<longleftrightarrow> n \<notin> pe_page ` set pages"
proof -
  have "List.find (\<lambda>p. pe_page p = n) (rev pages) = None \<longleftrightarrow> n \<notin> pe_page ` set pages"
    unfolding find_None_iff by auto
  then show ?thesis unfolding pages_by_number_def pages_by_number_fold
    by (cases "List.find (\<lambda>p. pe_page p = n) (rev pages)") auto
qed

lemma choose_page_one:
  assumes "n \<in> pe_page ` set native \<union> pe_page ` set ocr"
  shows "\<exists>p. choose_page u c (pages_by_number native n) (pages_by_number ocr n) = [p] \<and> pe_page p = n \<and> p \<in> set native \<union> set ocr"
proof (cases "pages_by_number native n")
  case None
  then obtain r where r: "pages_by_number ocr n = Some r"
    using assms pages_by_number_None [of native n] pages_by_number_None [of ocr n] by auto
  then show ?thesis using None pages_by_number_Some [OF r] by (simp add: choose_page_def)
next
  case (Some p)
  show ?thesis
  proof (cases "pages_by_number ocr n")
    case None
    then show ?thesis using Some pages_by_number_Some [OF Some] by (simp add: choose_page_def)
  next
    case r: (Some r)
    show ?thesis using Some r pages_by_number_Some [OF Some] pages_by_number_Some [OF r] by (auto simp: choose_page_def Let_def)
  qed
qed

lemma sort_key_by_number:
  assumes "distinct order" "\<And>n. n \<in> set order \<Longrightarrow> pe_page (f n) = n"
  shows "sort_key pe_page (map f order) = map f (sort order)"
proof (rule sort_key_inj_key_eq)
  have "map pe_page (map f (sort order)) = sort order" unfolding map_map by (rule map_idI) (simp add: assms(2))
  then show "sorted (map pe_page (map f (sort order)))" by simp
  show "mset (map f order) = mset (map f (sort order))" unfolding mset_map mset_sort by (rule refl)
  show "inj_on pe_page (set (map f order))" using assms(2) by (auto simp: inj_on_def)
qed

section \<open>Properties\<close>

text \<open>
  Merging native and recognised pages does not depend on the order in which the runtime iterates over
  the map of pages.  The result has one page for each page number, in ascending order, and each is one of
  the given pages.
\<close>

theorem merge_pdf_pages_deterministic:
  assumes "iterates_pages order native ocr"
  shows "map pe_page (merge_pdf_pages u c order native ocr) = sorted_list_of_set (pe_page ` set native \<union> pe_page ` set ocr) \<and>
    set (merge_pdf_pages u c order native ocr) \<subseteq> set native \<union> set ocr \<and>
    merge_pdf_pages u c order native ocr = merge_pdf_pages u c (sort order) native ocr"
proof -
  define pick where "pick n = hd (choose_page u c (pages_by_number native n) (pages_by_number ocr n))" for n
  have set_order: "set order = pe_page ` set native \<union> pe_page ` set ocr" and dist: "distinct order"
    using assms by (simp_all add: iterates_pages_def)
  have one: "choose_page u c (pages_by_number native n) (pages_by_number ocr n) = [pick n]" "pe_page (pick n) = n"
      "pick n \<in> set native \<union> set ocr" if "n \<in> set order" for n
    using choose_page_one [of n native ocr u c] that set_order by (auto simp: pick_def)
  have flat: "concat (map (\<lambda>n. choose_page u c (pages_by_number native n) (pages_by_number ocr n)) ns) = map pick ns"
    if "set ns \<subseteq> set order" for ns
    using that one(1) by (induction ns) auto
  have merged: "merge_pdf_pages u c ns native ocr = map pick (sort ns)" if "set ns = set order" "distinct ns" for ns
  proof -
    have "merge_pdf_pages u c ns native ocr = sort_key pe_page (map pick ns)"
      using flat [of ns] that(1) by (simp add: merge_pdf_pages_def Let_def)
    then show ?thesis using sort_key_by_number [of ns pick] one(2) that by simp
  qed
  have "sort order = sorted_list_of_set (set order)" using dist by (simp add: sorted_list_of_set_sort_remdups distinct_remdups_id)
  moreover have "map pe_page (map pick (sort order)) = sort order" unfolding map_map by (rule map_idI) (simp add: one(2))
  moreover have "set (map pick (sort order)) \<subseteq> set native \<union> set ocr" using one(3) by auto
  moreover have "merge_pdf_pages u c (sort order) native ocr = map pick (sort order)"
    using merged [of "sort order"] dist by (simp add: sorted_sort_id)
  ultimately show ?thesis using merged [of order] dist set_order by simp
qed

definition demo_pdf_page :: "int \<Rightarrow> gostr \<Rightarrow> page_extraction" where
  "demo_pdf_page n s = \<lparr>pe_page = n, pe_text = s, pe_method = [], pe_ocr_avg_score = 1\<rparr>"

theorem merge_pdf_pages_deterministic_witness:
  "map pe_page (merge_pdf_pages demo_unicode \<lparr>pc_ocr_enabled = True, pc_min_runes = 80, pc_min_score = 0.45, pc_score_diff = 0\<rparr>
     [3, 1, 2] [demo_pdf_page 2 [97], demo_pdf_page 1 [98]] [demo_pdf_page 3 [99], demo_pdf_page 1 [100]]) = [1, 2, 3]"
proof -
  have i: "iterates_pages [3, 1, 2] [demo_pdf_page 2 [97], demo_pdf_page 1 [98]] [demo_pdf_page 3 [99], demo_pdf_page 1 [100]]"
    by (auto simp: iterates_pages_def demo_pdf_page_def)
  have "sorted_list_of_set (pe_page ` set [demo_pdf_page 2 [97], demo_pdf_page 1 [98]] \<union>
      pe_page ` set [demo_pdf_page 3 [99], demo_pdf_page 1 [100]]) = sorted_list_of_set {1, 2, 3}"
    by (rule arg_cong [of _ _ sorted_list_of_set]) (auto simp: demo_pdf_page_def)
  also have "\<dots> = [1, 2, 3]" by (simp add: sorted_list_of_set_insert_remove)
  finally show ?thesis by (rule merge_pdf_pages_deterministic [OF i, THEN conjunct1, THEN trans])
qed

text \<open>
  C44: the text of a page that PaddleOCR describes in nested objects depends on the order in which the runtime
  iterates over the map: the same object gives two texts.
\<close>

definition demo_regions :: "gostr \<Rightarrow> gostr \<Rightarrow> json" where
  "demo_regions a b =
     JObj [(a, JObj [(lit ''rec_texts'', JArr [JStr a])]), (b, JObj [(lit ''rec_texts'', JArr [JStr b])])]"

theorem ocr_text_follows_iteration:
  "parse_paddle_ocr_json pf (demo_regions [97] [98]) = Inr [\<lparr>op_page = 1, op_text = [97, 10, 98], op_avg_score = 0\<rparr>] \<and>
   parse_paddle_ocr_json pf (demo_regions [98] [97]) = Inr [\<lparr>op_page = 1, op_text = [98, 10, 97], op_avg_score = 0\<rparr>]"
  by (simp add: parse_paddle_ocr_json_def demo_regions_def find_page_items_def rec_entries_def build_ocr_page_def
      lit_Cons trim_space_fix is_space_def Let_def)

end
