(* ===== verification/Retrieval.thy ===== *)
theory Retrieval
  imports Language "HOL-Library.AList" "HOL-Library.Sublist" "HOL-Library.Multiset"
begin

text \<open>
  The hybrid retrieval pipeline of \<open>backend/pkg/retrieval/pipeline.go\<close> and the rerankers of
  \<open>reranker.go\<close>.  Scores are real numbers (the rounding of \<open>float64\<close> is not modelled).  A Go map of hits
  is an association list whose order is never relied on: every \<open>range\<close> over it goes through the
  parameter \<open>iter\<close>, an arbitrary permutation.  A search backend, the chunk loader, the rewriter and
  the HTTP call of the reranking service are parameters; \<open>Inl\<close> is an error.
\<close>

section \<open>Data\<close>

type_synonym metadata = "gostr \<Rightarrow> gostr option"

text \<open>\<open>m[key]\<close> for a string map, the empty string when the key is missing or the map is nil.\<close>

definition meta_get :: "metadata \<Rightarrow> gostr \<Rightarrow> gostr" where
  "meta_get m k = (case m k of None \<Rightarrow> [] | Some v \<Rightarrow> v)"

record chunk =
  ch_id :: gostr
  ch_book_id :: gostr
  ch_content :: gostr
  ch_metadata :: metadata
  ch_created_at :: gotime

record stage_hit =
  sh_chunk_id :: gostr
  sh_book_id :: gostr
  sh_score :: real
  sh_stage :: gostr
  sh_content :: gostr
  sh_metadata :: metadata
  sh_chunk :: chunk

type_synonym hit_map = "(gostr \<times> stage_hit) list"
type_synonym search = "gostr \<Rightarrow> gostr \<Rightarrow> int \<Rightarrow> gostr + stage_hit list"
type_synonym rerank = "gostr \<Rightarrow> stage_hit list \<Rightarrow> int \<Rightarrow> gostr + stage_hit list"

record pipeline_options =
  po_query :: gostr
  po_queries :: "gostr list"
  po_book_id :: gostr
  po_mode :: gostr
  po_top_k :: int
  po_dense_top_k :: int
  po_lexical_top_k :: int
  po_dense_weight :: real
  po_lexical_weight :: real
  po_fusion_top_k :: int
  po_rerank_top_n :: int
  po_context_budget :: int

record pipeline_result =
  pr_language :: gostr
  pr_queries :: "gostr list"
  pr_dense :: "stage_hit list"
  pr_lexical :: "stage_hit list"
  pr_fused :: "stage_hit list"
  pr_reranked :: "stage_hit list"
  pr_final :: "stage_hit list"
  pr_warnings :: "gostr list"

text \<open>A nil component is \<open>None\<close>.\<close>

record pipeline =
  pl_rewrite :: "(gostr \<Rightarrow> gostr \<Rightarrow> gostr + gostr list) option"
  pl_dense :: "search option"
  pl_lexical :: "search option"
  pl_chunk_loader :: "(gostr list \<Rightarrow> gostr + (gostr \<Rightarrow> chunk option)) option"
  pl_reranker :: "rerank option"

section \<open>Accumulating and merging hits\<close>

definition stage_hit_key :: "stage_hit \<Rightarrow> gostr" where
  "stage_hit_key hit =
     (let family = trim_space (meta_get (sh_metadata hit) (lit ''chunk_family'')) in
      if family \<noteq> [] then family
      else let chunk_id = trim_space (sh_chunk_id hit) in
      if chunk_id \<noteq> [] then chunk_id
      else trim_space (ch_id (sh_chunk hit)))"

definition merge_stage_hit :: "hit_map \<Rightarrow> stage_hit \<Rightarrow> hit_map" where
  "merge_stage_hit target hit =
     (let key = stage_hit_key hit in
      case map_of target key of
        None \<Rightarrow> AList.update key hit target
      | Some existing \<Rightarrow> if sh_score hit > sh_score existing then AList.update key hit target else target)"

definition reciprocal_rank :: "nat \<Rightarrow> real" where
  "reciprocal_rank rank = 1 / real (rank + 61)"

definition accumulate_stage_hits :: "hit_map \<Rightarrow> stage_hit list \<Rightarrow> gostr \<Rightarrow> real \<Rightarrow> hit_map" where
  "accumulate_stage_hits target hits stage weight =
     fold (\<lambda>(rank, hit) m. merge_stage_hit m (hit\<lparr>sh_stage := stage, sh_score := reciprocal_rank rank * weight\<rparr>))
       (enumerate 0 hits) target"

definition normalized_fusion_weights :: "real \<Rightarrow> real \<Rightarrow> real \<times> real" where
  "normalized_fusion_weights dense lexical =
     (if dense \<le> 0 \<and> lexical \<le> 0 then (1 / 2, 1 / 2)
      else
        let d = (if dense < 0 then 0 else dense); l = (if lexical < 0 then 0 else lexical); total = d + l in
        if total \<le> 0 then (1 / 2, 1 / 2) else (d / total, l / total))"

definition merge_metadata :: "metadata \<Rightarrow> metadata \<Rightarrow> metadata" where
  "merge_metadata base extra =
     (\<lambda>key. if trim_space (meta_get base key) = [] \<and> extra key \<noteq> None then extra key else base key)"

section \<open>Ordering\<close>

text \<open>
  \<open>sort.SliceStable\<close>: the insertion sort it runs on blocks of up to twenty elements; on longer slices
  it merges sorted blocks, with the same result for a comparison that is a strict weak order.
  \<open>insert_back\<close> moves an element down a sorted prefix, which it takes in reverse.
\<close>

fun insert_back :: "('a \<Rightarrow> 'a \<Rightarrow> bool) \<Rightarrow> 'a \<Rightarrow> 'a list \<Rightarrow> 'a list" where
  "insert_back lt x [] = [x]"
| "insert_back lt x (y # ys) = (if lt x y then y # insert_back lt x ys else x # y # ys)"

definition slice_stable :: "('a \<Rightarrow> 'a \<Rightarrow> bool) \<Rightarrow> 'a list \<Rightarrow> 'a list" where
  "slice_stable lt xs = rev (fold (insert_back lt) xs [])"

text \<open>The comparison of two hits: equal up to \<open>1e-9\<close>, the smaller chunk ID comes first.\<close>

definition hit_less :: "stage_hit \<Rightarrow> stage_hit \<Rightarrow> bool" where
  "hit_less a b \<longleftrightarrow>
     (if \<bar>sh_score a - sh_score b\<bar> < 1 / 10 ^ 9 then sh_chunk_id a < sh_chunk_id b
      else sh_score a > sh_score b)"

definition truncate_to :: "int \<Rightarrow> 'a list \<Rightarrow> 'a list" where
  "truncate_to k xs = (if 0 < k \<and> k < int (length xs) then take (nat k) xs else xs)"

definition ordered_stage_hits :: "(hit_map \<Rightarrow> hit_map) \<Rightarrow> hit_map \<Rightarrow> int \<Rightarrow> stage_hit list" where
  "ordered_stage_hits iter items top_k = truncate_to top_k (slice_stable hit_less (map snd (iter items)))"

definition fuse_one :: "gostr \<times> stage_hit \<Rightarrow> hit_map \<Rightarrow> hit_map" where
  "fuse_one = (\<lambda>(id, hit) fused.
     case map_of fused id of
       None \<Rightarrow> AList.update id (hit\<lparr>sh_stage := lit ''fusion''\<rparr>) fused
     | Some current \<Rightarrow>
         AList.update id
           (current\<lparr>sh_chunk_id := (if sh_chunk_id current = [] then sh_chunk_id hit else sh_chunk_id current),
              sh_book_id := (if sh_book_id current = [] then sh_book_id hit else sh_book_id current),
              sh_content := (if trim_space (sh_content current) = [] then sh_content hit else sh_content current),
              sh_metadata := merge_metadata (sh_metadata current) (sh_metadata hit),
              sh_score := sh_score current + sh_score hit\<rparr>) fused)"

definition fused_map :: "(hit_map \<Rightarrow> hit_map) \<Rightarrow> hit_map \<Rightarrow> hit_map \<Rightarrow> hit_map" where
  "fused_map iter dense lexical =
     fold fuse_one (iter lexical)
       (fold (\<lambda>(id, hit). AList.update id (hit\<lparr>sh_stage := lit ''fusion''\<rparr>)) (iter dense) [])"

definition fuse_stage_hits :: "(hit_map \<Rightarrow> hit_map) \<Rightarrow> hit_map \<Rightarrow> hit_map \<Rightarrow> int \<Rightarrow> stage_hit list" where
  "fuse_stage_hits iter dense lexical top_k = ordered_stage_hits iter (fused_map iter dense lexical) top_k"

section \<open>Hydrating and packing\<close>

definition hydrate_stage_hits :: "stage_hit list \<Rightarrow> (gostr \<Rightarrow> chunk option) \<Rightarrow> stage_hit list" where
  "hydrate_stage_hits hits chunks =
     map (\<lambda>hit. case chunks (sh_chunk_id hit) of
                  None \<Rightarrow> hit
                | Some c \<Rightarrow>
                    let meta = merge_metadata (ch_metadata c) (sh_metadata hit) in
                    hit\<lparr>sh_chunk := c\<lparr>ch_metadata := meta\<rparr>, sh_book_id := ch_book_id c,
                        sh_content := ch_content c, sh_metadata := meta\<rparr>) hits"

definition unique_chunk_ids :: "stage_hit list \<Rightarrow> gostr list" where
  "unique_chunk_ids hits =
     uniq_loop {} (map (\<lambda>hit. let id = trim_space (sh_chunk_id hit) in
                              if id = [] then trim_space (ch_id (sh_chunk hit)) else id) hits)"

definition hit_hash :: "stage_hit \<Rightarrow> gostr" where
  "hit_hash hit = trim_space (meta_get (sh_metadata hit) (lit ''content_sha256''))"

definition hit_text :: "stage_hit \<Rightarrow> gostr" where
  "hit_text hit =
     (let content = trim_space (sh_content hit) in
      if content = [] then trim_space (ch_content (sh_chunk hit)) else content)"

fun pack_loop :: "nat \<Rightarrow> nat \<Rightarrow> gostr set \<Rightarrow> nat \<Rightarrow> stage_hit list \<Rightarrow> stage_hit list \<Rightarrow> stage_hit list" where
  "pack_loop top_k budget seen used out [] = out"
| "pack_loop top_k budget seen used out (hit # hits) =
     (let hash = hit_hash hit in
      if hash \<noteq> [] \<and> hash \<in> seen then pack_loop top_k budget seen used out hits
      else
        let seen' = (if hash \<noteq> [] then insert hash seen else seen); content = hit_text hit in
        if content = [] then pack_loop top_k budget seen' used out hits
        else if used + length content > budget \<and> out \<noteq> [] then pack_loop top_k budget seen' used out hits
        else
          let out' = out @ [hit] in
          if top_k \<le> length out' then out'
          else pack_loop top_k budget seen' (used + length content) out' hits)"

definition pack_stage_hits :: "stage_hit list \<Rightarrow> int \<Rightarrow> int \<Rightarrow> stage_hit list" where
  "pack_stage_hits hits top_k budget =
     pack_loop (if top_k \<le> 0 then 4 else nat top_k) (if budget \<le> 0 then 2200 else nat budget) {} 0 [] hits"

definition normalize_queries :: "unicode \<Rightarrow> gostr list \<Rightarrow> gostr list" where
  "normalize_queries u items = uniq_loop {} (filter (\<lambda>q. q \<noteq> []) (map (normalize_text u) items))"

section \<open>The pipeline\<close>

definition choose_queries :: "unicode \<Rightarrow> pipeline \<Rightarrow> pipeline_options \<Rightarrow> gostr \<Rightarrow> gostr \<Rightarrow> gostr list" where
  "choose_queries u p opts query language =
     (let queries = normalize_queries u (po_queries opts) in
      if queries \<noteq> [] then queries
      else
        let variants = build_query_variants u query;
            chosen = (case pl_rewrite p of
                        None \<Rightarrow> variants
                      | Some rewrite \<Rightarrow>
                          (case rewrite query language of
                             Inl _ \<Rightarrow> variants
                           | Inr rewritten \<Rightarrow> if rewritten = [] then variants else rewritten))
        in if chosen = [] then [query] else chosen)"

text \<open>One search of one query: its hits are accumulated, its error is a warning.\<close>

definition search_stage ::
  "search option \<Rightarrow> gostr \<Rightarrow> gostr \<Rightarrow> int \<Rightarrow> gostr \<Rightarrow> real \<Rightarrow> gostr \<Rightarrow> hit_map \<times> gostr list \<Rightarrow> hit_map \<times> gostr list" where
  "search_stage search item language top_k stage weight warning st =
     (case search of
        None \<Rightarrow> st
      | Some f \<Rightarrow>
          (case f item language top_k of
             Inl _ \<Rightarrow> (fst st, snd st @ [warning])
           | Inr hits \<Rightarrow> (accumulate_stage_hits (fst st) hits stage weight, snd st)))"

definition search_query ::
  "pipeline \<Rightarrow> pipeline_options \<Rightarrow> gostr \<Rightarrow> gostr \<Rightarrow> hit_map \<times> hit_map \<times> gostr list \<Rightarrow> hit_map \<times> hit_map \<times> gostr list" where
  "search_query p opts language item st =
     (if trim_space item = [] then st
      else
        let (dense, lexical, warnings) = st;
            (dw, lw) = normalized_fusion_weights (po_dense_weight opts) (po_lexical_weight opts);
            (dense', warnings1) =
              (if po_mode opts \<noteq> lit ''lexical_only''
               then search_stage (pl_dense p) item language (po_dense_top_k opts) (lit ''dense'') dw
                      (lit ''dense retrieval unavailable'') (dense, warnings)
               else (dense, warnings));
            (lexical', warnings2) =
              (if po_mode opts \<noteq> lit ''dense_only''
               then search_stage (pl_lexical p) item language (po_lexical_top_k opts) (lit ''lexical'') lw
                      (lit ''lexical retrieval unavailable'') (lexical, warnings1)
               else (lexical, warnings1))
        in (dense', lexical', warnings2))"

definition load_chunks :: "pipeline \<Rightarrow> pipeline_result \<Rightarrow> pipeline_result" where
  "load_chunks p r =
     (case pl_chunk_loader p of
        None \<Rightarrow> r
      | Some loader \<Rightarrow>
          (case loader (unique_chunk_ids (pr_dense r @ pr_lexical r @ pr_fused r)) of
             Inl _ \<Rightarrow> r\<lparr>pr_warnings := uniq_loop {} (pr_warnings r @ [lit ''chunk hydration unavailable''])\<rparr>
           | Inr loaded \<Rightarrow>
               r\<lparr>pr_dense := hydrate_stage_hits (pr_dense r) loaded,
                 pr_lexical := hydrate_stage_hits (pr_lexical r) loaded,
                 pr_fused := hydrate_stage_hits (pr_fused r) loaded\<rparr>))"

definition choose_final :: "pipeline \<Rightarrow> pipeline_options \<Rightarrow> gostr \<Rightarrow> pipeline_result \<Rightarrow> pipeline_result" where
  "choose_final p opts query r =
     (let mode = trim_space (po_mode opts) in
      if mode = lit ''dense_only'' then r\<lparr>pr_final := pr_dense r\<rparr>
      else if mode = lit ''lexical_only'' then r\<lparr>pr_final := pr_lexical r\<rparr>
      else if mode = lit ''hybrid_best'' then
        let r' = (case pl_reranker p of
                    None \<Rightarrow> r\<lparr>pr_reranked := pr_fused r\<rparr>
                  | Some rerank \<Rightarrow>
                      if pr_fused r = [] then r\<lparr>pr_reranked := pr_fused r\<rparr>
                      else
                        (case rerank query (pr_fused r) (po_rerank_top_n opts) of
                           Inl _ \<Rightarrow> r\<lparr>pr_reranked := pr_fused r,
                                        pr_warnings := uniq_loop {} (pr_warnings r @ [lit ''reranker unavailable''])\<rparr>
                         | Inr reranked \<Rightarrow>
                             r\<lparr>pr_reranked := (if reranked \<noteq> [] then reranked else pr_fused r)\<rparr>))
        in r'\<lparr>pr_final := pr_reranked r'\<rparr>
      else r\<lparr>pr_final := pr_fused r\<rparr>)"

definition finish :: "pipeline_options \<Rightarrow> pipeline_result \<Rightarrow> pipeline_result" where
  "finish opts r =
     (let r' = (if pr_reranked r = [] \<and> trim_space (po_mode opts) \<noteq> lit ''hybrid_best''
                then r\<lparr>pr_reranked := pr_final r\<rparr> else r)
      in r'\<lparr>pr_final := pack_stage_hits (pr_final r') (po_top_k opts) (po_context_budget opts)\<rparr>)"

definition run :: "unicode \<Rightarrow> (hit_map \<Rightarrow> hit_map) \<Rightarrow> pipeline \<Rightarrow> pipeline_options \<Rightarrow> pipeline_result" where
  "run u iter p opts =
     (let query = normalize_text u (po_query opts); language = detect_language u query;
          queries = choose_queries u p opts query language;
          (dense, lexical, warnings) = fold (search_query p opts language) queries ([], [], []);
          r = \<lparr>pr_language = language, pr_queries = queries, pr_dense = [], pr_lexical = [], pr_fused = [],
               pr_reranked = [], pr_final = [], pr_warnings = uniq_loop {} warnings\<rparr>
      in if dense = [] \<and> lexical = [] then r
         else
           let r1 = r\<lparr>pr_dense := ordered_stage_hits iter dense (po_dense_top_k opts),
                     pr_lexical := ordered_stage_hits iter lexical (po_lexical_top_k opts),
                     pr_fused := fuse_stage_hits iter dense lexical (po_fusion_top_k opts)\<rparr>
           in finish opts (choose_final p opts query (load_chunks p r1)))"

section \<open>Rerankers\<close>

record service_reranker =
  sr_url :: gostr
  sr_max_docs :: int
  sr_max_chars :: int
  sr_timeout :: duration

definition new_service_reranker :: "gostr \<Rightarrow> duration \<Rightarrow> int \<Rightarrow> int \<Rightarrow> service_reranker" where
  "new_service_reranker url timeout max_docs max_chars =
     \<lparr>sr_url = trim_space url, sr_max_docs = (if max_docs \<le> 0 then 50 else max_docs),
      sr_max_chars = (if max_chars \<le> 0 then 2400 else max_chars),
      sr_timeout = (if timeout \<le> 0 then 8 * second else timeout)\<rparr>"

record rerank_request =
  rq_query :: gostr
  rq_top_n :: int
  rq_documents :: "(gostr \<times> gostr) list"

text \<open>The documents sent (ID and text) and the index by ID, the later hit of an ID replacing the earlier.\<close>

definition rerank_documents :: "service_reranker \<Rightarrow> stage_hit list \<Rightarrow> (gostr \<times> gostr) list" where
  "rerank_documents r hits =
     map (\<lambda>hit. (stage_hit_key hit,
                 if sr_max_chars r < int (length (hit_text hit)) then take (nat (sr_max_chars r)) (hit_text hit)
                 else hit_text hit))
       (filter (\<lambda>hit. hit_text hit \<noteq> []) hits)"

definition rerank_index :: "stage_hit list \<Rightarrow> gostr \<Rightarrow> stage_hit option" where
  "rerank_index hits = map_of (rev (map (\<lambda>hit. (stage_hit_key hit, hit)) (filter (\<lambda>hit. hit_text hit \<noteq> []) hits)))"

text \<open>
  \<open>post\<close> is the HTTP exchange: an error, or the status and the (limited) body; \<open>decode\<close> reads the
  results, an ID and a score each, out of the body.
\<close>

definition service_rerank ::
  "(gostr \<Rightarrow> rerank_request \<Rightarrow> gostr + (int \<times> gostr)) \<Rightarrow> (gostr \<Rightarrow> gostr + (gostr \<times> real) list) \<Rightarrow>
   service_reranker option \<Rightarrow> rerank" where
  "service_rerank post decode reranker query hits limit =
     (case reranker of
        None \<Rightarrow> Inl (lit ''reranker url required'')
      | Some r \<Rightarrow>
          if trim_space (sr_url r) = [] then Inl (lit ''reranker url required'')
          else if hits = [] then Inr []
          else if sr_max_docs r < int (length hits) then
            Inl (lit ''reranker max docs exceeded: '' @ itoa (int (length hits)) @ lit '' > '' @ itoa (sr_max_docs r))
          else
            let docs = rerank_documents r hits in
            if docs = [] then Inl (lit ''no rerankable documents'')
            else
              (case post (sr_url r) \<lparr>rq_query = query, rq_top_n = limit, rq_documents = docs\<rparr> of
                 Inl e \<Rightarrow> Inl e
               | Inr (status, body) \<Rightarrow>
                   if 400 \<le> status then
                     Inl (lit ''reranker error ('' @ itoa status @ lit ''): '' @ trim_space body)
                   else
                     (case decode body of
                        Inl e \<Rightarrow> Inl e
                      | Inr results \<Rightarrow>
                          Inr (truncate_to limit
                            (concat (map (\<lambda>(id, score). case rerank_index hits id of
                                None \<Rightarrow> []
                              | Some hit \<Rightarrow> [hit\<lparr>sh_score := score, sh_stage := lit ''rerank''\<rparr>]) results))))))"

definition token_overlap :: "gostr list \<Rightarrow> gostr list \<Rightarrow> real" where
  "token_overlap left right =
     (let right_set = uniq_loop {} right; seen = uniq_loop {} left in
      if left = [] \<or> right = [] then 0
      else if right_set = [] then 0
      else if seen = [] then 0
      else real (length (filter (\<lambda>t. t \<in> set right_set) seen)) / real (length seen))"

definition overlap_less :: "stage_hit \<Rightarrow> stage_hit \<Rightarrow> bool" where
  "overlap_less a b \<longleftrightarrow>
     (if sh_score a = sh_score b then sh_chunk_id a < sh_chunk_id b else sh_score a > sh_score b)"

definition fallback_rerank :: "unicode \<Rightarrow> rerank" where
  "fallback_rerank u query hits limit =
     (if hits = [] then Inr []
      else
        let language = detect_language u query; query_tokens = tokenize u query language;
            scored = map (\<lambda>hit. hit\<lparr>sh_score := sh_score hit +
                                     token_overlap query_tokens (tokenize u (hit_text hit) language),
                                   sh_stage := lit ''rerank''\<rparr>) hits
        in Inr (truncate_to limit (slice_stable overlap_less scored)))"

definition chain_rerank :: "rerank option \<Rightarrow> rerank option \<Rightarrow> rerank" where
  "chain_rerank primary fallback query hits limit =
     (let other = (case fallback of
                    Some f \<Rightarrow> f query hits limit
                  | None \<Rightarrow> Inl (lit ''no reranker available''))
      in case primary of
           None \<Rightarrow> other
         | Some f \<Rightarrow>
             (case f query hits limit of
                Inl _ \<Rightarrow> other
              | Inr scored \<Rightarrow> if scored \<noteq> [] then Inr scored else other))"

section \<open>Sorting\<close>

definition weak_order_on :: "'a set \<Rightarrow> ('a \<Rightarrow> 'a \<Rightarrow> bool) \<Rightarrow> bool" where
  "weak_order_on A lt \<longleftrightarrow>
     (\<forall>x\<in>A. \<forall>y\<in>A. lt x y \<longrightarrow> \<not> lt y x) \<and>
     (\<forall>x\<in>A. \<forall>y\<in>A. \<forall>z\<in>A. \<not> lt x y \<longrightarrow> \<not> lt y z \<longrightarrow> \<not> lt x z)"

lemma insert_back_mset [simp]: "mset (insert_back lt x ys) = add_mset x (mset ys)"
  by (induction ys) auto

lemma slice_stable_mset [simp]: "mset (slice_stable lt xs) = mset xs"
proof -
  have "mset (fold (insert_back lt) xs ys) = mset xs + mset ys" for ys
    by (induction xs arbitrary: ys) auto
  then show ?thesis by (simp add: slice_stable_def)
qed

lemma slice_stable_set [simp]: "set (slice_stable lt xs) = set xs"
  by (metis set_mset_mset slice_stable_mset)

lemma slice_stable_length [simp]: "length (slice_stable lt xs) = length xs"
  by (metis size_mset slice_stable_mset)

lemma insert_back_sorted:
  assumes "weak_order_on A lt" "insert x (set ys) \<subseteq> A" "sorted_wrt (\<lambda>a b. \<not> lt a b) ys"
  shows "sorted_wrt (\<lambda>a b. \<not> lt a b) (insert_back lt x ys)"
  using assms(2,3)
proof (induction ys)
  case (Cons y ys)
  have set_ins: "set (insert_back lt x ys) = insert x (set ys)"
    by (metis insert_back_mset set_mset_mset set_mset_add_mset_insert)
  show ?case
  proof (cases "lt x y")
    case True
    then have "\<not> lt y x" using assms(1) Cons.prems unfolding weak_order_on_def by auto
    then show ?thesis using True Cons set_ins by auto
  next
    case False
    have "\<not> lt x z" if "z \<in> set ys" for z
    proof -
      have "\<not> lt y z" using Cons.prems(2) that by simp
      moreover have "x \<in> A" "y \<in> A" "z \<in> A" using Cons.prems(1) that by auto
      ultimately show ?thesis using False assms(1) unfolding weak_order_on_def by blast
    qed
    then show ?thesis using False Cons.prems by simp
  qed
qed simp

lemma slice_stable_sorted:
  assumes "weak_order_on (set xs) lt"
  shows "sorted_wrt (\<lambda>a b. \<not> lt b a) (slice_stable lt xs)"
proof -
  have "sorted_wrt (\<lambda>a b. \<not> lt a b) (fold (insert_back lt) ys zs)"
    if "set ys \<union> set zs \<subseteq> set xs" "sorted_wrt (\<lambda>a b. \<not> lt a b) zs" for ys zs
    using that
  proof (induction ys arbitrary: zs)
    case (Cons y ys)
    have "set (insert_back lt y zs) = insert y (set zs)"
      by (metis insert_back_mset set_mset_mset set_mset_add_mset_insert)
    moreover have "sorted_wrt (\<lambda>a b. \<not> lt a b) (insert_back lt y zs)"
      by (rule insert_back_sorted [OF assms]) (use Cons.prems in auto)
    ultimately show ?case using Cons by auto
  qed simp
  then have "sorted_wrt (\<lambda>a b. \<not> lt a b) (fold (insert_back lt) xs [])" by simp
  then show ?thesis by (simp add: slice_stable_def sorted_wrt_rev)
qed

lemma sorted_wrt_unique:
  assumes "mset xs = mset ys" "sorted_wrt R xs" "sorted_wrt R ys"
    and "\<And>a b. a \<in> set xs \<Longrightarrow> b \<in> set xs \<Longrightarrow> R a b \<Longrightarrow> R b a \<Longrightarrow> a = b"
  shows "xs = ys"
  using assms
proof (induction xs arbitrary: ys)
  case (Cons x xs)
  then obtain y zs where ys: "ys = y # zs" by (cases ys) auto
  have eq: "set (x # xs) = set ys" using Cons.prems(1) by (metis set_mset_mset)
  have "x = y"
  proof (rule ccontr)
    assume ne: "x \<noteq> y"
    then have "y \<in> set xs" "x \<in> set zs" using eq ys by auto
    then have "R x y" "R y x" using Cons.prems(2,3) ys by auto
    then show False using Cons.prems(4) [of x y] \<open>y \<in> set xs\<close> ne by simp
  qed
  moreover have "xs = zs" using Cons.IH [of zs] Cons.prems ys calculation by auto
  ultimately show ?case using ys by simp
qed simp

lemma slice_stable_unique:
  assumes "mset xs = mset ys" "weak_order_on (set xs) lt"
    and "\<And>a b. a \<in> set xs \<Longrightarrow> b \<in> set xs \<Longrightarrow> a \<noteq> b \<Longrightarrow> lt a b \<or> lt b a"
  shows "slice_stable lt xs = slice_stable lt ys"
proof (rule sorted_wrt_unique)
  have set_eq: "set ys = set xs" using assms(1) by (metis set_mset_mset)
  show "mset (slice_stable lt xs) = mset (slice_stable lt ys)" using assms(1) by simp
  show "sorted_wrt (\<lambda>a b. \<not> lt b a) (slice_stable lt xs)" by (rule slice_stable_sorted [OF assms(2)])
  show "sorted_wrt (\<lambda>a b. \<not> lt b a) (slice_stable lt ys)"
    by (rule slice_stable_sorted) (use assms(2) set_eq in simp)
  show "a = b" if "a \<in> set (slice_stable lt xs)" "b \<in> set (slice_stable lt xs)" "\<not> lt b a" "\<not> lt a b" for a b
    using that assms(3) [of a b] by auto
qed

text \<open>Hits whose scores are equal or at least \<open>1e-9\<close> apart, with distinct chunk IDs when equal.\<close>

definition separated :: "stage_hit set \<Rightarrow> bool" where
  "separated A \<longleftrightarrow>
     (\<forall>a\<in>A. \<forall>b\<in>A. a \<noteq> b \<longrightarrow>
        1 / 10 ^ 9 \<le> \<bar>sh_score a - sh_score b\<bar> \<or> (sh_score a = sh_score b \<and> sh_chunk_id a \<noteq> sh_chunk_id b))"

lemma hit_less_separated:
  assumes "separated A" "a \<in> A" "b \<in> A"
  shows "hit_less a b \<longleftrightarrow>
    sh_score b < sh_score a \<or> (sh_score a = sh_score b \<and> sh_chunk_id a < sh_chunk_id b)"
proof (cases "a = b")
  case False
  then have "1 / 10 ^ 9 \<le> \<bar>sh_score a - sh_score b\<bar> \<or> sh_score a = sh_score b"
    using assms unfolding separated_def by blast
  then show ?thesis unfolding hit_less_def by auto
qed (simp add: hit_less_def)

lemma hit_less_weak_order: "separated A \<Longrightarrow> weak_order_on A hit_less"
  unfolding weak_order_on_def by (auto simp: hit_less_separated)

lemma hit_less_total:
  assumes "separated A" "a \<in> A" "b \<in> A" "a \<noteq> b"
  shows "hit_less a b \<or> hit_less b a"
proof -
  have "1 / 10 ^ 9 \<le> \<bar>sh_score a - sh_score b\<bar> \<or> (sh_score a = sh_score b \<and> sh_chunk_id a \<noteq> sh_chunk_id b)"
    using assms unfolding separated_def by blast
  then have "sh_score a < sh_score b \<or> sh_score b < sh_score a \<or>
    (sh_score a = sh_score b \<and> (sh_chunk_id a < sh_chunk_id b \<or> sh_chunk_id b < sh_chunk_id a))"
    by (auto simp: not_less_iff_gr_or_eq)
  then show ?thesis using assms by (auto simp: hit_less_separated)
qed

lemma ordered_same:
  assumes "mset (map snd (iter1 m1)) = mset (map snd (iter2 m2))" "separated (set (map snd (iter1 m1)))"
  shows "ordered_stage_hits iter1 m1 k = ordered_stage_hits iter2 m2 k"
  unfolding ordered_stage_hits_def
  by (subst slice_stable_unique [OF assms(1) hit_less_weak_order [OF assms(2)] hit_less_total [OF assms(2)]]) auto

section \<open>Ranks\<close>

definition hit_keys_ok :: "hit_map \<Rightarrow> bool" where
  "hit_keys_ok m \<longleftrightarrow> distinct (map fst m)"

lemma stage_hit_key_update [simp]: "stage_hit_key (hit\<lparr>sh_stage := s, sh_score := w\<rparr>) = stage_hit_key hit"
  "stage_hit_key (hit\<lparr>sh_score := w\<rparr>) = stage_hit_key hit"
  "stage_hit_key (hit\<lparr>sh_stage := s\<rparr>) = stage_hit_key hit"
  by (simp_all add: stage_hit_key_def Let_def)

text \<open>What a map of hits holds after it merged the hits of a list: the best-scored one of every key.\<close>

definition best_of :: "stage_hit list \<Rightarrow> hit_map \<Rightarrow> bool" where
  "best_of hs m \<longleftrightarrow> hit_keys_ok m \<and>
     (\<forall>k. case map_of m k of
            None \<Rightarrow> \<forall>h\<in>set hs. stage_hit_key h \<noteq> k
          | Some h \<Rightarrow> h \<in> set hs \<and> stage_hit_key h = k \<and>
              (\<forall>h'\<in>set hs. stage_hit_key h' = k \<longrightarrow> sh_score h' \<le> sh_score h))"

lemma best_of_merge:
  assumes "best_of hs m"
  shows "best_of (hs @ [h]) (merge_stage_hit m h)"
proof -
  have keys: "hit_keys_ok (merge_stage_hit m h)" using assms
    by (auto simp: best_of_def hit_keys_ok_def merge_stage_hit_def Let_def distinct_update split: option.splits)
  have look: "map_of (merge_stage_hit m h) k =
    (if k = stage_hit_key h \<and> (case map_of m k of None \<Rightarrow> True | Some e \<Rightarrow> sh_score e < sh_score h) then Some h
     else map_of m k)" for k
    by (auto simp: merge_stage_hit_def Let_def update_conv split: option.splits)
  show ?thesis unfolding best_of_def
  proof (intro conjI allI)
    fix k
    have "case map_of m k of
            None \<Rightarrow> \<forall>h\<in>set hs. stage_hit_key h \<noteq> k
          | Some h \<Rightarrow> h \<in> set hs \<and> stage_hit_key h = k \<and>
              (\<forall>h'\<in>set hs. stage_hit_key h' = k \<longrightarrow> sh_score h' \<le> sh_score h)"
      using assms unfolding best_of_def by blast
    then show "case map_of (merge_stage_hit m h) k of
            None \<Rightarrow> \<forall>h\<in>set (hs @ [h]). stage_hit_key h \<noteq> k
          | Some e \<Rightarrow> e \<in> set (hs @ [h]) \<and> stage_hit_key e = k \<and>
              (\<forall>h'\<in>set (hs @ [h]). stage_hit_key h' = k \<longrightarrow> sh_score h' \<le> sh_score e)"
      unfolding look by (cases "map_of m k") (auto intro: order_trans less_imp_le)
  qed (rule keys)
qed

definition ranked :: "stage_hit list \<Rightarrow> gostr \<Rightarrow> real \<Rightarrow> stage_hit list" where
  "ranked hits stage weight =
     map (\<lambda>(rank, hit). hit\<lparr>sh_stage := stage, sh_score := reciprocal_rank rank * weight\<rparr>) (enumerate 0 hits)"

lemma accumulate_ranked:
  "accumulate_stage_hits m hits stage w = fold (\<lambda>h m. merge_stage_hit m h) (ranked hits stage w) m"
  unfolding accumulate_stage_hits_def ranked_def fold_map
  by (rule arg_cong [where f = "\<lambda>f. fold f _ _"]) (auto simp: fun_eq_iff)

lemma best_of_fold: "best_of hs m \<Longrightarrow> best_of (hs @ new) (fold (\<lambda>h m. merge_stage_hit m h) new m)"
proof (induction new arbitrary: hs m)
  case (Cons h new)
  then show ?case using Cons.IH [OF best_of_merge [OF Cons.prems, of h]] by simp
qed simp

lemma best_of_Nil: "best_of [] []"
  by (simp add: best_of_def hit_keys_ok_def)

lemma best_of_accumulate:
  "best_of hs m \<Longrightarrow> best_of (hs @ ranked hits stage w) (accumulate_stage_hits m hits stage w)"
  unfolding accumulate_ranked by (rule best_of_fold)

lemma best_of_searches:
  "best_of hs m \<Longrightarrow>
   best_of (hs @ concat (map (\<lambda>hits. ranked hits stage w) hss))
     (fold (\<lambda>hits m. accumulate_stage_hits m hits stage w) hss m)"
proof (induction hss arbitrary: hs m)
  case (Cons hits hss)
  then show ?case using Cons.IH [OF best_of_accumulate [OF Cons.prems]] by simp
qed simp

text \<open>The best reciprocal rank of a key over the result lists of several queries, zero when no list has it.\<close>

definition best_reciprocal :: "stage_hit list list \<Rightarrow> gostr \<Rightarrow> real" where
  "best_reciprocal hss key =
     Max (set (0 # concat (map (\<lambda>hits. map (\<lambda>(r, _). reciprocal_rank r)
                                        (filter (\<lambda>(_, h). stage_hit_key h = key) (enumerate 0 hits))) hss)))"

definition score_of :: "hit_map \<Rightarrow> gostr \<Rightarrow> real" where
  "score_of m k = (case map_of m k of None \<Rightarrow> 0 | Some h \<Rightarrow> sh_score h)"

lemma reciprocal_rank_bounds: "0 < reciprocal_rank r \<and> reciprocal_rank r \<le> 1 / 61"
  by (simp add: reciprocal_rank_def field_simps)

lemma best_reciprocal_bounds: "0 \<le> best_reciprocal hss k \<and> best_reciprocal hss k \<le> 1 / 61"
proof -
  define L where "L = concat (map (\<lambda>hits. map (\<lambda>(r, _). reciprocal_rank r)
    (filter (\<lambda>(_, h). stage_hit_key h = k) (enumerate 0 hits))) hss)"
  have "r \<le> 1 / 61" if "r \<in> set (0 # L)" for r
    using that reciprocal_rank_bounds unfolding L_def by auto
  then have "Max (set (0 # L)) \<le> 1 / 61" by (intro Max.boundedI) auto
  moreover have "0 \<le> Max (set (0 # L))" by (rule Max_ge) auto
  ultimately show ?thesis unfolding best_reciprocal_def L_def by simp
qed

lemma score_of_searches:
  assumes "0 \<le> w"
  shows "score_of (fold (\<lambda>hits m. accumulate_stage_hits m hits stage w) hss []) k = best_reciprocal hss k * w"
proof -
  define m where "m = fold (\<lambda>hits m. accumulate_stage_hits m hits stage w) hss []"
  define all where "all = concat (map (\<lambda>hits. ranked hits stage w) hss)"
  define R where "R = set (concat (map (\<lambda>hits. map (\<lambda>(r, _). reciprocal_rank r)
    (filter (\<lambda>(_, h). stage_hit_key h = k) (enumerate 0 hits))) hss))"
  have best: "best_of all m" using best_of_searches [OF best_of_Nil] by (simp add: all_def m_def)
  have max: "best_reciprocal hss k = Max (insert 0 R)" by (simp add: best_reciprocal_def R_def)
  have R: "r \<in> R \<longleftrightarrow> (\<exists>h\<in>set all. stage_hit_key h = k \<and> sh_score h = r * w \<and> r \<in> R)" for r
  proof
    assume r: "r \<in> R"
    then obtain hits i h where h: "hits \<in> set hss" "(i, h) \<in> set (enumerate 0 hits)" "stage_hit_key h = k" "r = reciprocal_rank i"
      unfolding R_def by auto
    then have "h\<lparr>sh_stage := stage, sh_score := reciprocal_rank i * w\<rparr> \<in> set all"
      unfolding all_def ranked_def by force
    then show "\<exists>h\<in>set all. stage_hit_key h = k \<and> sh_score h = r * w \<and> r \<in> R"
      by (rule rev_bexI) (use h r in simp)
  qed auto
  have scored: "\<exists>r\<in>R. sh_score h = r * w" if "h \<in> set all" "stage_hit_key h = k" for h
    using that unfolding all_def ranked_def R_def by force
  have c: "case map_of m k of
            None \<Rightarrow> \<forall>h\<in>set all. stage_hit_key h \<noteq> k
          | Some h \<Rightarrow> h \<in> set all \<and> stage_hit_key h = k \<and>
              (\<forall>h'\<in>set all. stage_hit_key h' = k \<longrightarrow> sh_score h' \<le> sh_score h)"
    using best unfolding best_of_def by blast
  show ?thesis
  proof (cases "map_of m k")
    case None
    then have "\<forall>h\<in>set all. stage_hit_key h \<noteq> k" using c by simp
    then have "R = {}" using R by blast
    then show ?thesis using None by (simp add: score_of_def m_def [symmetric] max)
  next
    case (Some h)
    then have h: "h \<in> set all" "stage_hit_key h = k" "\<forall>h'\<in>set all. stage_hit_key h' = k \<longrightarrow> sh_score h' \<le> sh_score h"
      using c by simp_all
    obtain r where r: "r \<in> R" "sh_score h = r * w" using scored [OF h(1,2)] by blast
    have fin: "finite (insert 0 R)" by (simp add: R_def)
    have pos: "0 < r'" if "r' \<in> R" for r' using that reciprocal_rank_bounds unfolding R_def by auto
    have "Max (insert 0 R) * w = r * w"
    proof (rule antisym)
      have "Max (insert 0 R) \<in> insert 0 R" using fin by (rule Max_in) simp
      then have "Max (insert 0 R) \<in> R" using pos r(1) Max_ge [OF fin, of r] by fastforce
      then show "Max (insert 0 R) * w \<le> r * w" using R h(3) r(2) by metis
      show "r * w \<le> Max (insert 0 R) * w" using Max_ge [OF fin, of r] r(1) assms by (simp add: mult_right_mono)
    qed
    then show ?thesis using Some r by (auto simp: score_of_def m_def [symmetric] max)
  qed
qed

section \<open>Fusion\<close>

definition as_fused :: "stage_hit \<Rightarrow> stage_hit" where
  "as_fused hit = hit\<lparr>sh_stage := lit ''fusion''\<rparr>"

definition join_hits :: "stage_hit \<Rightarrow> stage_hit \<Rightarrow> stage_hit" where
  "join_hits current hit =
     current\<lparr>sh_chunk_id := (if sh_chunk_id current = [] then sh_chunk_id hit else sh_chunk_id current),
       sh_book_id := (if sh_book_id current = [] then sh_book_id hit else sh_book_id current),
       sh_content := (if trim_space (sh_content current) = [] then sh_content hit else sh_content current),
       sh_metadata := merge_metadata (sh_metadata current) (sh_metadata hit),
       sh_score := sh_score current + sh_score hit\<rparr>"

lemma fuse_one_lookup:
  "map_of (fuse_one (ky, hit) m) k =
     (if k = ky then Some (case map_of m ky of None \<Rightarrow> as_fused hit | Some c \<Rightarrow> join_hits c hit) else map_of m k)"
  by (auto simp: fuse_one_def as_fused_def join_hits_def update_conv split: option.splits)

lemma fuse_one_keys: "hit_keys_ok m \<Longrightarrow> hit_keys_ok (fuse_one e m)"
  by (auto simp: fuse_one_def hit_keys_ok_def distinct_update split: prod.splits option.splits)

lemma fuse_fold_lookup:
  "hit_keys_ok xs \<Longrightarrow>
   map_of (fold fuse_one xs m) k =
     (case map_of xs k of
        None \<Rightarrow> map_of m k
      | Some hit \<Rightarrow> Some (case map_of m k of None \<Rightarrow> as_fused hit | Some c \<Rightarrow> join_hits c hit))"
proof (induction xs arbitrary: m)
  case (Cons x xs)
  obtain ky hit where x: "x = (ky, hit)" by (cases x)
  have IH: "map_of (fold fuse_one xs (fuse_one x m)) k =
     (case map_of xs k of
        None \<Rightarrow> map_of (fuse_one x m) k
      | Some hit \<Rightarrow> Some (case map_of (fuse_one x m) k of None \<Rightarrow> as_fused hit | Some c \<Rightarrow> join_hits c hit))"
    by (rule Cons.IH) (use Cons.prems in \<open>simp add: hit_keys_ok_def\<close>)
  have fresh: "map_of xs ky = None" using Cons.prems by (simp add: hit_keys_ok_def x map_of_eq_None_iff)
  show ?case
  proof (cases "k = ky")
    case True
    then show ?thesis using IH fresh by (simp add: x fuse_one_lookup)
  next
    case False
    then have e: "map_of (fuse_one x m) k = map_of m k" by (simp add: x fuse_one_lookup)
    show ?thesis using IH [unfolded e] False by (simp add: x)
  qed
qed simp

lemma copy_fold_lookup:
  "hit_keys_ok xs \<Longrightarrow>
   map_of (fold (\<lambda>(id, hit). AList.update id (hit\<lparr>sh_stage := lit ''fusion''\<rparr>)) xs m) k =
     (case map_of xs k of None \<Rightarrow> map_of m k | Some hit \<Rightarrow> Some (as_fused hit))"
proof (induction xs arbitrary: m)
  case (Cons x xs)
  obtain ky hit where x: "x = (ky, hit)" by (cases x)
  have fresh: "map_of xs ky = None" using Cons.prems by (simp add: hit_keys_ok_def x map_of_eq_None_iff)
  have upd: "map_of (AList.update ky (hit\<lparr>sh_stage := lit ''fusion''\<rparr>) m) k = (if k = ky then Some (as_fused hit) else map_of m k)"
    by (simp add: update_conv as_fused_def)
  have IH: "map_of (fold (\<lambda>(id, hit). AList.update id (hit\<lparr>sh_stage := lit ''fusion''\<rparr>)) xs
       (AList.update ky (hit\<lparr>sh_stage := lit ''fusion''\<rparr>) m)) k =
     (case map_of xs k of None \<Rightarrow> if k = ky then Some (as_fused hit) else map_of m k | Some hit \<Rightarrow> Some (as_fused hit))"
    unfolding upd [symmetric] by (rule Cons.IH) (use Cons.prems in \<open>simp add: hit_keys_ok_def\<close>)
  show ?case using fresh IH by (cases "k = ky") (auto simp: x split: option.splits)
qed simp

lemma fuse_fold_keys: "hit_keys_ok m \<Longrightarrow> hit_keys_ok (fold fuse_one xs m)"
  by (induction xs arbitrary: m) (auto intro: fuse_one_keys)

lemma copy_fold_keys:
  "hit_keys_ok m \<Longrightarrow> hit_keys_ok (fold (\<lambda>(id, hit). AList.update id (hit\<lparr>sh_stage := lit ''fusion''\<rparr>)) xs m)"
  by (induction xs arbitrary: m) (auto simp: hit_keys_ok_def distinct_update)

text \<open>An iteration order of a map: some permutation of its entries.\<close>

definition iteration :: "(hit_map \<Rightarrow> hit_map) \<Rightarrow> bool" where
  "iteration iter \<longleftrightarrow> (\<forall>m. mset (iter m) = mset m)"

lemma iteration_set: "iteration iter \<Longrightarrow> set (iter m) = set m"
  unfolding iteration_def by (metis set_mset_mset)

lemma iteration_keys: "iteration iter \<Longrightarrow> hit_keys_ok (iter m) = hit_keys_ok m"
  unfolding iteration_def hit_keys_ok_def by (metis mset_eq_imp_distinct_iff mset_map)

lemma iteration_map_of: "iteration iter \<Longrightarrow> hit_keys_ok m \<Longrightarrow> map_of (iter m) = map_of m"
  using iteration_keys [of iter m] iteration_set [of iter m] unfolding hit_keys_ok_def
  by (intro map_of_eqI) (auto simp: map_of_eq_Some_iff intro: image_eqI dest: eq_key_imp_eq_value)

lemma fused_map_keys: "hit_keys_ok (fused_map iter d l)"
  unfolding fused_map_def by (intro fuse_fold_keys copy_fold_keys) (simp add: hit_keys_ok_def)

lemma fused_map_lookup:
  assumes "iteration iter" "hit_keys_ok d" "hit_keys_ok l"
  shows "map_of (fused_map iter d l) k =
    (case (map_of d k, map_of l k) of
       (None, None) \<Rightarrow> None
     | (Some a, None) \<Rightarrow> Some (as_fused a)
     | (None, Some b) \<Rightarrow> Some (as_fused b)
     | (Some a, Some b) \<Rightarrow> Some (join_hits (as_fused a) b))"
  unfolding fused_map_def
  by (simp add: fuse_fold_lookup copy_fold_lookup iteration_map_of iteration_keys assms split: option.splits)

lemma score_of_fused:
  assumes "iteration iter" "hit_keys_ok d" "hit_keys_ok l"
  shows "score_of (fused_map iter d l) k = score_of d k + score_of l k"
  unfolding score_of_def fused_map_lookup [OF assms]
  by (simp add: as_fused_def join_hits_def split: option.splits)

lemma same_map_same_hits:
  assumes "hit_keys_ok m" "hit_keys_ok m'" "map_of m = map_of m'"
  shows "mset m = mset m'"
proof -
  have "set m = set m'" using assms unfolding hit_keys_ok_def by (metis map_of_eq_Some_iff subset_antisym subrelI)
  then show ?thesis using assms unfolding hit_keys_ok_def by (metis distinct_map set_eq_iff_mset_eq_distinct)
qed

lemma fused_map_same:
  assumes "iteration iter1" "iteration iter2" "hit_keys_ok d" "hit_keys_ok l"
  shows "mset (fused_map iter1 d l) = mset (fused_map iter2 d l)"
  by (rule same_map_same_hits) (auto simp: fused_map_keys fused_map_lookup assms)

lemma weights_bounds:
  "normalized_fusion_weights a b = (d, l) \<Longrightarrow> 0 \<le> d \<and> 0 \<le> l \<and> d + l = 1"
  unfolding normalized_fusion_weights_def Let_def
  by (auto simp: add_divide_distrib [symmetric] split: if_splits)

section \<open>Packing\<close>

definition used_budget :: "stage_hit list \<Rightarrow> nat" where
  "used_budget out = sum_list (map (\<lambda>h. length (hit_text h)) out)"

definition hashes :: "stage_hit list \<Rightarrow> gostr list" where
  "hashes out = filter (\<lambda>h. h \<noteq> []) (map hit_hash out)"

definition packed :: "nat \<Rightarrow> nat \<Rightarrow> stage_hit list \<Rightarrow> bool" where
  "packed k b out \<longleftrightarrow>
     length out \<le> k \<and> (used_budget out \<le> b \<or> length out = 1) \<and> distinct (hashes out) \<and>
     (\<forall>h\<in>set out. hit_text h \<noteq> [])"

lemma hashes_append [simp]: "hashes (xs @ ys) = hashes xs @ hashes ys"
  by (simp add: hashes_def)

lemma used_budget_append [simp]: "used_budget (xs @ [h]) = used_budget xs + length (hit_text h)"
  by (simp add: used_budget_def)

lemma pack_loop_packed:
  "packed k b out \<Longrightarrow> length out < k \<Longrightarrow> set (hashes out) \<subseteq> seen \<Longrightarrow>
   packed k b (pack_loop k b seen (used_budget out) out hits) \<and>
   (\<exists>picked. pack_loop k b seen (used_budget out) out hits = out @ picked \<and> subseq picked hits)"
proof (induction hits arbitrary: seen out)
  case (Cons hit hits)
  define seen' where "seen' = (if hit_hash hit \<noteq> [] then insert (hit_hash hit) seen else seen)"
  show ?case
  proof (cases "(hit_hash hit \<noteq> [] \<and> hit_hash hit \<in> seen) \<or> hit_text hit = [] \<or>
      (used_budget out + length (hit_text hit) > b \<and> out \<noteq> [])")
    case True
    have sub: "set (hashes out) \<subseteq> seen'" using Cons.prems(3) by (auto simp: seen'_def)
    have "pack_loop k b seen (used_budget out) out (hit # hits) = pack_loop k b seen (used_budget out) out hits \<or>
          pack_loop k b seen (used_budget out) out (hit # hits) = pack_loop k b seen' (used_budget out) out hits"
      using True unfolding seen'_def by (auto simp: Let_def)
    then show ?thesis
      using Cons.IH [OF Cons.prems] Cons.IH [OF Cons.prems(1,2) sub] by (auto intro: list_emb_Cons)
  next
    case False
    have ok: "packed k b (out @ [hit])"
      using False Cons.prems by (auto simp: packed_def used_budget_def hashes_def)
    have loop: "pack_loop k b seen (used_budget out) out (hit # hits) =
      (if k \<le> length (out @ [hit]) then out @ [hit]
       else pack_loop k b seen' (used_budget (out @ [hit])) (out @ [hit]) hits)"
    proof -
      have c: "(hit_hash hit \<noteq> [] \<and> hit_hash hit \<in> seen) = False" "(hit_text hit = []) = False"
        "(used_budget out + length (hit_text hit) > b \<and> out \<noteq> []) = False" using False by auto
      show ?thesis unfolding seen'_def by (simp only: pack_loop.simps Let_def c if_False used_budget_append)
    qed
    show ?thesis
    proof (cases "k \<le> length (out @ [hit])")
      case True
      have "subseq [hit] (hit # hits)" by simp
      then show ?thesis using ok loop True by auto
    next
      case False
      have "set (hashes (out @ [hit])) \<subseteq> seen'" using Cons.prems(3) by (auto simp: seen'_def hashes_def)
      then have "packed k b (pack_loop k b seen' (used_budget (out @ [hit])) (out @ [hit]) hits) \<and>
        (\<exists>picked. pack_loop k b seen' (used_budget (out @ [hit])) (out @ [hit]) hits = (out @ [hit]) @ picked \<and> subseq picked hits)"
        using Cons.IH [OF ok] False by simp
      then obtain picked where "packed k b (pack_loop k b seen' (used_budget (out @ [hit])) (out @ [hit]) hits)"
        "pack_loop k b seen' (used_budget (out @ [hit])) (out @ [hit]) hits = out @ hit # picked" "subseq picked hits"
        by auto
      moreover from this(3) have "subseq (hit # picked) (hit # hits)" by simp
      ultimately show ?thesis unfolding loop using False by metis
    qed
  qed
qed auto

lemma pack_stage_hits_packed:
  "packed (if top_k \<le> 0 then 4 else nat top_k) (if budget \<le> 0 then 2200 else nat budget) (pack_stage_hits hits top_k budget) \<and>
   subseq (pack_stage_hits hits top_k budget) hits"
  unfolding pack_stage_hits_def
  using pack_loop_packed [of "if top_k \<le> 0 then 4 else nat top_k" "if budget \<le> 0 then 2200 else nat budget" "[]" "{}" hits]
  by (auto simp: packed_def used_budget_def hashes_def)

section \<open>Where the hits come from\<close>

text \<open>Every hit a search of the pipeline can return has its chunk ID in a given set.\<close>

definition searches_within :: "pipeline \<Rightarrow> gostr set \<Rightarrow> bool" where
  "searches_within p I \<longleftrightarrow>
     (\<forall>s q l k hits h. pl_dense p = Some s \<or> pl_lexical p = Some s \<longrightarrow> s q l k = Inr hits \<longrightarrow> h \<in> set hits \<longrightarrow>
        sh_chunk_id h \<in> I)"

definition hits_within :: "hit_map \<Rightarrow> gostr set \<Rightarrow> bool" where
  "hits_within m I \<longleftrightarrow> (\<forall>e\<in>set m. sh_chunk_id (snd e) \<in> I)"

lemma hits_within_simps [simp]:
  "hits_within [] I" "hits_within (e # m) I \<longleftrightarrow> sh_chunk_id (snd e) \<in> I \<and> hits_within m I"
  by (simp_all add: hits_within_def)

lemma set_update_subset: "set (AList.update k v m) \<subseteq> insert (k, v) (set m)"
  by (induction m) auto

lemma update_within: "hits_within m I \<Longrightarrow> sh_chunk_id h \<in> I \<Longrightarrow> hits_within (AList.update k h m) I"
  using set_update_subset [of k h m] unfolding hits_within_def by auto

lemma merge_within: "hits_within m I \<Longrightarrow> sh_chunk_id h \<in> I \<Longrightarrow> hits_within (merge_stage_hit m h) I"
  by (auto simp: merge_stage_hit_def Let_def update_within split: option.splits)

lemma ranked_within: "h \<in> set (ranked hits stage w) \<Longrightarrow> \<exists>h'\<in>set hits. sh_chunk_id h = sh_chunk_id h'"
  unfolding ranked_def by (auto simp: in_set_enumerate_eq)

lemma accumulate_within:
  assumes "hits_within m I" "\<And>h. h \<in> set hits \<Longrightarrow> sh_chunk_id h \<in> I"
  shows "hits_within (accumulate_stage_hits m hits stage w) I"
proof -
  have "\<And>h. h \<in> set (ranked hits stage w) \<Longrightarrow> sh_chunk_id h \<in> I" using ranked_within assms(2) by metis
  moreover have "hits_within (fold (\<lambda>h m. merge_stage_hit m h) hs m) I"
    if "\<And>h. h \<in> set hs \<Longrightarrow> sh_chunk_id h \<in> I" "hits_within m I" for hs m
    using that by (induction hs arbitrary: m) (simp_all add: merge_within)
  ultimately show ?thesis unfolding accumulate_ranked using assms(1) by blast
qed

lemma search_stage_within:
  assumes "hits_within (fst st) I"
    and "\<And>s q l k hits h. search = Some s \<Longrightarrow> s q l k = Inr hits \<Longrightarrow> h \<in> set hits \<Longrightarrow> sh_chunk_id h \<in> I"
  shows "hits_within (fst (search_stage search item language k stage w warning st)) I"
  using assms unfolding search_stage_def
  by (auto split: option.splits sum.splits intro!: accumulate_within)

lemma search_query_within:
  assumes "searches_within p I" "hits_within d I" "hits_within l I" "search_query p opts language item (d, l, ws) = (d', l', ws')"
  shows "hits_within d' I \<and> hits_within l' I"
proof -
  obtain dw lw where w: "normalized_fusion_weights (po_dense_weight opts) (po_lexical_weight opts) = (dw, lw)" by (metis surj_pair)
  define st1 where "st1 = (if po_mode opts \<noteq> lit ''lexical_only''
    then search_stage (pl_dense p) item language (po_dense_top_k opts) (lit ''dense'') dw
      (lit ''dense retrieval unavailable'') (d, ws) else (d, ws))"
  define st2 where "st2 = (if po_mode opts \<noteq> lit ''dense_only''
    then search_stage (pl_lexical p) item language (po_lexical_top_k opts) (lit ''lexical'') lw
      (lit ''lexical retrieval unavailable'') (l, snd st1) else (l, snd st1))"
  have 1: "hits_within (fst st1) I"
    unfolding st1_def using assms(1,2) by (auto intro!: search_stage_within simp: searches_within_def)
  have 2: "hits_within (fst st2) I"
    unfolding st2_def using assms(1,3) by (auto intro!: search_stage_within simp: searches_within_def)
  have "search_query p opts language item (d, l, ws) =
      (if trim_space item = [] then (d, l, ws) else (fst st1, fst st2, snd st2))"
    unfolding search_query_def st1_def st2_def by (simp add: w case_prod_beta Let_def)
  then show ?thesis using 1 2 assms by (auto split: if_splits)
qed

lemma searches_fold_within:
  "searches_within p I \<Longrightarrow> hits_within d I \<Longrightarrow> hits_within l I \<Longrightarrow>
   fold (search_query p opts language) queries (d, l, ws) = (d', l', ws') \<Longrightarrow>
   hits_within d' I \<and> hits_within l' I"
proof (induction queries arbitrary: d l ws)
  case (Cons q queries)
  obtain d1 l1 ws1 where q: "search_query p opts language q (d, l, ws) = (d1, l1, ws1)" by (metis surj_pair)
  have "hits_within d1 I \<and> hits_within l1 I" by (rule search_query_within [OF Cons.prems(1-3) q])
  then show ?case using Cons.IH [of d1 l1 ws1] Cons.prems q by simp
qed simp

lemma fuse_one_within: "hits_within m I \<Longrightarrow> sh_chunk_id (snd e) \<in> I \<Longrightarrow> hits_within (fuse_one e m) I"
proof -
  assume m: "hits_within m I" and e: "sh_chunk_id (snd e) \<in> I"
  obtain ky hit where x: "e = (ky, hit)" by (cases e)
  show ?thesis
  proof (cases "map_of m ky")
    case None
    then show ?thesis using update_within [OF m] e by (simp add: fuse_one_def x)
  next
    case (Some c)
    then have "sh_chunk_id c \<in> I" using map_of_SomeD [OF Some] m unfolding hits_within_def by auto
    then show ?thesis using update_within [OF m, of "join_hits c hit"] e Some
      by (simp add: fuse_one_def x join_hits_def)
  qed
qed

lemma fused_map_within:
  assumes "iteration iter" "hits_within d I" "hits_within l I"
  shows "hits_within (fused_map iter d l) I"
proof -
  have 1: "hits_within (fold fuse_one xs m) I" if "hits_within xs I" "hits_within m I" for xs m
    using that by (induction xs arbitrary: m) (simp_all add: fuse_one_within)
  have 2: "hits_within (fold (\<lambda>(id, hit). AList.update id (hit\<lparr>sh_stage := lit ''fusion''\<rparr>)) xs m) I"
    if "hits_within xs I" "hits_within m I" for xs m
    using that
  proof (induction xs arbitrary: m)
    case (Cons x xs)
    have "hits_within (AList.update (fst x) ((snd x)\<lparr>sh_stage := lit ''fusion''\<rparr>) m) I"
      using Cons.prems by (intro update_within) simp_all
    then show ?case using Cons by (simp add: case_prod_beta)
  qed simp
  have 3: "hits_within (iter d) I" "hits_within (iter l) I"
    using assms iteration_set [OF assms(1)] by (auto simp: hits_within_def)
  show ?thesis unfolding fused_map_def by (intro 1 2 3) simp
qed

lemma truncate_to_set: "set (truncate_to k xs) \<subseteq> set xs"
  unfolding truncate_to_def by (auto dest: in_set_takeD)

lemma truncate_to_length: "0 < k \<Longrightarrow> int (length (truncate_to k xs)) \<le> k"
  by (auto simp: truncate_to_def)

lemma ordered_within:
  "iteration iter \<Longrightarrow> hits_within m I \<Longrightarrow> h \<in> set (ordered_stage_hits iter m k) \<Longrightarrow> sh_chunk_id h \<in> I"
  unfolding ordered_stage_hits_def hits_within_def
  using truncate_to_set [of k "slice_stable hit_less (map snd (iter m))"] iteration_set [of iter m] by auto

lemma hydrate_within: "h \<in> set (hydrate_stage_hits hits chunks) \<Longrightarrow> \<exists>h'\<in>set hits. sh_chunk_id h = sh_chunk_id h'"
  unfolding hydrate_stage_hits_def by (auto simp: Let_def split: option.splits intro: rev_bexI)


section \<open>The contract of a reranker\<close>

text \<open>
  A reranker returns hits it was given, with another score and stage, and at most as many as it was
  asked for.
\<close>

locale reranker =
  fixes rerank :: rerank
  assumes keeps: "rerank q hits k = Inr out \<Longrightarrow> h \<in> set out \<Longrightarrow>
      \<exists>h'\<in>set hits. h = h'\<lparr>sh_score := sh_score h, sh_stage := sh_stage h\<rparr>"
    and bounded: "rerank q hits k = Inr out \<Longrightarrow> 0 < k \<Longrightarrow> int (length out) \<le> k"
begin

lemma keeps_ids: "rerank q hits k = Inr out \<Longrightarrow> h \<in> set out \<Longrightarrow> sh_chunk_id h \<in> sh_chunk_id ` set hits"
proof -
  assume "rerank q hits k = Inr out" "h \<in> set out"
  then obtain h' where "h' \<in> set hits" "h = h'\<lparr>sh_score := sh_score h, sh_stage := sh_stage h\<rparr>" using keeps by blast
  then show ?thesis by (metis image_eqI stage_hit.select_convs(1) stage_hit.surjective stage_hit.update_convs(3,4))
qed

lemma final_within:
  assumes p: "pl_reranker p = Some rerank" and iter: "iteration iter" and I: "searches_within p I"
    and h: "h \<in> set (pr_final (run u iter p opts))"
  shows "sh_chunk_id h \<in> I"
proof -
  define query where "query = normalize_text u (po_query opts)"
  define language where "language = detect_language u query"
  define queries where "queries = choose_queries u p opts query language"
  obtain d l ws where f: "fold (search_query p opts language) queries ([], [], []) = (d, l, ws)" by (metis surj_pair)
  have dl: "hits_within d I \<and> hits_within l I" by (rule searches_fold_within [OF I _ _ f]) simp_all
  define r where "r = \<lparr>pr_language = language, pr_queries = queries, pr_dense = ordered_stage_hits iter d (po_dense_top_k opts),
    pr_lexical = ordered_stage_hits iter l (po_lexical_top_k opts),
    pr_fused = fuse_stage_hits iter d l (po_fusion_top_k opts),
    pr_reranked = [], pr_final = [], pr_warnings = uniq_loop {} ws\<rparr>"
  define r1 where "r1 = load_chunks p r"
  define r2 where "r2 = choose_final p opts query r1"
  have run: "pr_final (run u iter p opts) = (if d = [] \<and> l = [] then [] else pr_final (finish opts r2))"
    unfolding run_def by (simp add: query_def [symmetric] language_def [symmetric] queries_def [symmetric] f Let_def r_def r1_def r2_def)
  have r: "\<And>h. h \<in> set (pr_dense r) \<union> set (pr_lexical r) \<union> set (pr_fused r) \<Longrightarrow> sh_chunk_id h \<in> I"
    using ordered_within [OF iter] dl fused_map_within [OF iter, of d I l] by (auto simp: r_def fuse_stage_hits_def)
  have r1: "\<And>h. h \<in> set (pr_dense r1) \<union> set (pr_lexical r1) \<union> set (pr_fused r1) \<Longrightarrow> sh_chunk_id h \<in> I"
  proof -
    fix h assume "h \<in> set (pr_dense r1) \<union> set (pr_lexical r1) \<union> set (pr_fused r1)"
    then have "\<exists>h'\<in>set (pr_dense r) \<union> set (pr_lexical r) \<union> set (pr_fused r). sh_chunk_id h = sh_chunk_id h'"
      unfolding r1_def load_chunks_def by (auto dest: hydrate_within split: option.splits sum.splits)
    then show "sh_chunk_id h \<in> I" using r by auto
  qed
  have r2: "\<And>h. h \<in> set (pr_final r2) \<Longrightarrow> sh_chunk_id h \<in> I"
  proof -
    fix h assume h: "h \<in> set (pr_final r2)"
    have "sh_chunk_id h \<in> sh_chunk_id ` (set (pr_dense r1) \<union> set (pr_lexical r1) \<union> set (pr_fused r1))"
    proof (cases "rerank query (pr_fused r1) (po_rerank_top_n opts)")
      case (Inl e)
      then show ?thesis using h unfolding r2_def choose_final_def by (auto simp: Let_def p split: if_splits)
    next
      case (Inr out)
      then show ?thesis using h keeps_ids [OF Inr, of h] unfolding r2_def choose_final_def
        by (auto simp: Let_def p split: if_splits)
    qed
    then show "sh_chunk_id h \<in> I" using r1 by auto
  qed
  have "set (pr_final (finish opts r2)) \<subseteq> set (pr_final r2)"
    unfolding finish_def Let_def using pack_stage_hits_packed by (auto dest: list_emb_set)
  then show ?thesis using r2 h run by (auto split: if_splits)
qed

end

lemma rerank_index_within: "rerank_index hits k = Some h \<Longrightarrow> h \<in> set hits"
  unfolding rerank_index_def by (drule map_of_SomeD) auto

interpretation service: reranker "service_rerank post decode r" for post decode r
proof
  show "\<exists>h'\<in>set hits. h = h'\<lparr>sh_score := sh_score h, sh_stage := sh_stage h\<rparr>"
    if "service_rerank post decode r q hits k = Inr out" "h \<in> set out" for q hits k out h
    using that truncate_to_set rerank_index_within unfolding service_rerank_def Let_def
    by (fastforce split: option.splits if_splits sum.splits)
  show "int (length out) \<le> k" if "service_rerank post decode r q hits k = Inr out" "0 < k" for q hits k out
    using that truncate_to_length [of k] unfolding service_rerank_def Let_def
    by (auto split: option.splits if_splits sum.splits)
qed

interpretation overlap: reranker "fallback_rerank u" for u
proof
  show "\<exists>h'\<in>set hits. h = h'\<lparr>sh_score := sh_score h, sh_stage := sh_stage h\<rparr>"
    if "fallback_rerank u q hits k = Inr out" "h \<in> set out" for q hits k out h
    using that truncate_to_set unfolding fallback_rerank_def Let_def
    by (fastforce split: if_splits)
  show "int (length out) \<le> k" if "fallback_rerank u q hits k = Inr out" "0 < k" for q hits k out
    using that truncate_to_length [of k] unfolding fallback_rerank_def Let_def by (auto split: if_splits)
qed

text \<open>The chain of two rerankers is a reranker; the chat service chains the reranking service and the overlap.\<close>

locale reranker_chain = first: reranker primary + second: reranker fallback for primary fallback :: rerank

sublocale reranker_chain \<subseteq> chain: reranker "chain_rerank (Some primary) (Some fallback)"
proof
  show "\<exists>h'\<in>set hits. h = h'\<lparr>sh_score := sh_score h, sh_stage := sh_stage h\<rparr>"
    if "chain_rerank (Some primary) (Some fallback) q hits k = Inr out" "h \<in> set out" for q hits k out h
    using that first.keeps second.keeps unfolding chain_rerank_def Let_def by (auto split: sum.splits if_splits)
  show "int (length out) \<le> k"
    if "chain_rerank (Some primary) (Some fallback) q hits k = Inr out" "0 < k" for q hits k out
    using that first.bounded second.bounded unfolding chain_rerank_def Let_def by (auto split: sum.splits if_splits)
qed

interpretation production: reranker_chain "service_rerank post decode r" "fallback_rerank u" for post decode r u
  by unfold_locales

section \<open>Iteration order and degradation\<close>

lemma searches_fold_keys:
  "hit_keys_ok d \<Longrightarrow> hit_keys_ok l \<Longrightarrow> fold (search_query p opts language) queries (d, l, ws) = (d', l', ws') \<Longrightarrow>
   hit_keys_ok d' \<and> hit_keys_ok l'"
proof (induction queries arbitrary: d l ws)
  case (Cons q queries)
  have acc: "hit_keys_ok (accumulate_stage_hits m hits stage w)" if "hit_keys_ok m" for m hits stage w
  proof -
    have "hit_keys_ok (fold (\<lambda>h m. merge_stage_hit m h) hs m)" if "hit_keys_ok m" for hs m
      using that by (induction hs arbitrary: m)
        (simp_all add: merge_stage_hit_def Let_def hit_keys_ok_def distinct_update split: option.splits)
    then show ?thesis unfolding accumulate_ranked using that by blast
  qed
  have st: "hit_keys_ok (fst (search_stage s q language k stage w warning st))" if "hit_keys_ok (fst st)" for s k stage w warning st
    using that acc by (auto simp: search_stage_def split: option.splits sum.splits)
  obtain d1 l1 ws1 where q: "search_query p opts language q (d, l, ws) = (d1, l1, ws1)" by (metis surj_pair)
  have "hit_keys_ok d1 \<and> hit_keys_ok l1"
  proof (cases "trim_space q = []")
    case True
    then show ?thesis using q Cons.prems by (simp add: search_query_def)
  next
    case False
    have "hit_keys_ok (fst (search_query p opts language q (d, l, ws))) \<and>
          hit_keys_ok (fst (snd (search_query p opts language q (d, l, ws))))"
      unfolding search_query_def using False Cons.prems st by (simp add: case_prod_beta Let_def)
    then show ?thesis using q by simp
  qed
  then show ?case using Cons.IH [of d1 l1 ws1] Cons.prems q by simp
qed simp

definition drop_warnings :: "pipeline_result \<Rightarrow> pipeline_result" where
  "drop_warnings r = r\<lparr>pr_warnings := []\<rparr>"

lemma drop_warnings_eq:
  "drop_warnings r = drop_warnings r' \<longleftrightarrow>
   pr_language r = pr_language r' \<and> pr_queries r = pr_queries r' \<and> pr_dense r = pr_dense r' \<and>
   pr_lexical r = pr_lexical r' \<and> pr_fused r = pr_fused r' \<and> pr_reranked r = pr_reranked r' \<and>
   pr_final r = pr_final r'"
  unfolding drop_warnings_def by (cases r, cases r') auto

lemma load_chunks_drop:
  "pl_chunk_loader p = pl_chunk_loader p' \<Longrightarrow> drop_warnings r = drop_warnings r' \<Longrightarrow>
   drop_warnings (load_chunks p r) = drop_warnings (load_chunks p' r')"
  unfolding load_chunks_def drop_warnings_eq by (simp split: option.splits sum.splits)

lemma choose_final_drop:
  "pl_reranker p = pl_reranker p' \<Longrightarrow> drop_warnings r = drop_warnings r' \<Longrightarrow>
   drop_warnings (choose_final p opts q r) = drop_warnings (choose_final p' opts q r')"
  unfolding choose_final_def drop_warnings_eq Let_def
  by (cases "pl_reranker p'") (auto split: sum.splits)

lemma finish_drop:
  "drop_warnings r = drop_warnings r' \<Longrightarrow> drop_warnings (finish opts r) = drop_warnings (finish opts r')"
  unfolding finish_def drop_warnings_eq Let_def by simp

lemma failing_dense_fold:
  assumes "pl_dense p = Some s" "\<And>q l k. \<exists>e. s q l k = Inl e"
  shows "\<exists>ws'. fold (search_query p opts language) queries (d, l, ws) =
    (fst (fold (search_query (p\<lparr>pl_dense := None\<rparr>) opts language) queries (d, l, ws0)),
     fst (snd (fold (search_query (p\<lparr>pl_dense := None\<rparr>) opts language) queries (d, l, ws0))), ws')"
proof (induction queries arbitrary: d l ws ws0)
  case (Cons q queries)
  obtain d1 l1 ws1 where q: "search_query (p\<lparr>pl_dense := None\<rparr>) opts language q (d, l, ws0) = (d1, l1, ws1)" by (metis surj_pair)
  have "\<exists>ws2. search_query p opts language q (d, l, ws) = (d1, l1, ws2)"
  proof -
    obtain e where e: "s q language (po_dense_top_k opts) = Inl e" using assms(2) by blast
    have "fst (search_query p opts language q (d, l, ws)) = d1 \<and> fst (snd (search_query p opts language q (d, l, ws))) = l1"
      using q unfolding search_query_def
      by (auto simp: case_prod_beta Let_def search_stage_def assms(1) e split: if_splits option.splits sum.splits)
    then show ?thesis by (metis prod.collapse)
  qed
  then show ?case using Cons.IH [of d1 l1] q by auto
qed simp

section \<open>A pipeline on a concrete input\<close>

definition demo_hit :: "nat \<Rightarrow> stage_hit" where
  "demo_hit n = \<lparr>sh_chunk_id = [n], sh_book_id = [], sh_score = 0, sh_stage = [], sh_content = [n],
     sh_metadata = (\<lambda>_. None),
     sh_chunk = \<lparr>ch_id = [], ch_book_id = [], ch_content = [], ch_metadata = (\<lambda>_. None), ch_created_at = 0\<rparr>\<rparr>"

definition demo_rerank :: rerank where
  "demo_rerank = chain_rerank
     (Some (service_rerank (\<lambda>_ _. Inr (200, [])) (\<lambda>_. Inr [([98], 9), ([99], 8), ([97], 1)])
        (Some (new_service_reranker (lit ''u'') 0 0 0))))
     (Some (fallback_rerank demo_unicode))"

definition demo_pipeline :: pipeline where
  "demo_pipeline = \<lparr>pl_rewrite = None, pl_dense = Some (\<lambda>_ _ _. Inl (lit ''down'')),
     pl_lexical = Some (\<lambda>_ _ _. Inr [demo_hit 97, demo_hit 98]), pl_chunk_loader = None,
     pl_reranker = Some demo_rerank\<rparr>"

definition demo_opts :: pipeline_options where
  "demo_opts = \<lparr>po_query = lit ''a'', po_queries = [lit ''a''], po_book_id = [], po_mode = lit ''hybrid_best'',
     po_top_k = 0, po_dense_top_k = 0, po_lexical_top_k = 0, po_dense_weight = 0, po_lexical_weight = 0,
     po_fusion_top_k = 0, po_rerank_top_n = 0, po_context_budget = 0\<rparr>"

lemma norm_a: "normalize_text demo_unicode [97] = [97]"
    by (simp add: normalize_text_def trim_space_def trim_left_def trim_right_def is_space_def to_lower_def lower_rune_def
        line_breaks_def ascii_punct_def squeeze_line_def str_fields.simps demo_unicode_def Let_def)
lemma lit_a: "lit ''a'' = [97]" by (simp add: lit_Cons)
lemma trims: "trim_space [n] = (if is_space n then [] else [n])"
  by (simp add: trim_space_def trim_left_def trim_right_def)

lemma demo_queries: "choose_queries demo_unicode p demo_opts q l = [[97]]"
  by (simp add: choose_queries_def normalize_queries_def demo_opts_def lit_a norm_a Let_def trims is_space_def)

lemma demo_key: "stage_hit_key (demo_hit n) = (if is_space n then [] else [n])"
  by (simp add: stage_hit_key_def demo_hit_def meta_get_def trims)

lemma demo_search:
  "search_query demo_pipeline demo_opts l [97] ([], [], []) =
    ([], [([97], (demo_hit 97)\<lparr>sh_stage := lit ''lexical'', sh_score := 1/122\<rparr>), ([98], (demo_hit 98)\<lparr>sh_stage := lit ''lexical'', sh_score := 1/124\<rparr>)],
     [lit ''dense retrieval unavailable''])"
  by (simp add: search_query_def trims is_space_def demo_opts_def demo_pipeline_def normalized_fusion_weights_def search_stage_def
     accumulate_stage_hits_def merge_stage_hit_def demo_key reciprocal_rank_def Let_def)

definition demo_lex :: "nat \<Rightarrow> real \<Rightarrow> stage_hit" where
  "demo_lex n w = (demo_hit n)\<lparr>sh_stage := lit ''lexical'', sh_score := w\<rparr>"

lemma demo_lex_sel: "sh_score (demo_lex n w) = w" "sh_chunk_id (demo_lex n w) = [n]" "stage_hit_key (demo_lex n w) = (if is_space n then [] else [n])"
  "sh_content (demo_lex n w) = [n]" "sh_metadata (demo_lex n w) = (\<lambda>_. None)"
  by (simp_all add: demo_lex_def demo_hit_def stage_hit_key_def meta_get_def trims)

definition demo_fused :: "nat \<Rightarrow> real \<Rightarrow> stage_hit" where
  "demo_fused n w = (demo_lex n w)\<lparr>sh_stage := lit ''fusion''\<rparr>"

lemma demo_fused_sel: "sh_score (demo_fused n w) = w" "sh_chunk_id (demo_fused n w) = [n]" "stage_hit_key (demo_fused n w) = (if is_space n then [] else [n])"
  "hit_text (demo_fused n w) = (if is_space n then [] else [n])"
  by (simp_all add: demo_fused_def demo_lex_def demo_hit_def stage_hit_key_def meta_get_def trims hit_text_def)

lemma demo_fold: "fold (search_query demo_pipeline demo_opts l) [[97]] ([], [], []) =
    ([], [([97], demo_lex 97 (1/122)), ([98], demo_lex 98 (1/124))], [lit ''dense retrieval unavailable''])"
  by (simp add: demo_search demo_lex_def)

lemma demo_fuse: "fuse_stage_hits (\<lambda>m. m) [] [([97], demo_lex 97 (1/122)), ([98], demo_lex 98 (1/124))] 0 =
   [demo_fused 97 (1/122), demo_fused 98 (1/124)]"
  by (simp add: fuse_stage_hits_def fused_map_def fuse_one_def ordered_stage_hits_def slice_stable_def truncate_to_def
    hit_less_def demo_fused_sel demo_fused_def [symmetric])

lemma demo_rerank_eval: "demo_rerank q [demo_fused 97 v, demo_fused 98 w] 0 =
   Inr [(demo_fused 98 w)\<lparr>sh_score := 9, sh_stage := lit ''rerank''\<rparr>, (demo_fused 97 v)\<lparr>sh_score := 1, sh_stage := lit ''rerank''\<rparr>]"
  by (simp add: demo_rerank_def chain_rerank_def service_rerank_def new_service_reranker_def trims lit_Cons is_space_def
    rerank_documents_def rerank_index_def demo_fused_sel truncate_to_def Let_def)

lemma demo_run:
  "map sh_chunk_id (pr_final (run demo_unicode (\<lambda>m. m) demo_pipeline demo_opts)) = [[98], [97]]"
proof -
  have o: "po_fusion_top_k demo_opts = 0" "po_rerank_top_n demo_opts = 0" "po_top_k demo_opts = 0" "po_context_budget demo_opts = 0"
    "trim_space (po_mode demo_opts) = lit ''hybrid_best''"
    by (simp_all add: demo_opts_def trim_space_fix lit_Cons is_space_def)
  have l: "pl_chunk_loader demo_pipeline = None" "pl_reranker demo_pipeline = Some demo_rerank" by (simp_all add: demo_pipeline_def)
  have pack: "hit_hash ((demo_fused n w)\<lparr>sh_score := v, sh_stage := st\<rparr>) = []"
    "hit_text ((demo_fused n w)\<lparr>sh_score := v, sh_stage := st\<rparr>) = (if is_space n then [] else [n])"
    "is_space 97 = False" "is_space 98 = False" for n w v st
    by (simp_all add: hit_hash_def hit_text_def demo_fused_def demo_lex_def demo_hit_def meta_get_def trims is_space_def)
  show ?thesis
    unfolding run_def Let_def demo_queries demo_fold prod.case
    by (simp add: load_chunks_def l choose_final_def o demo_rerank_eval demo_fuse finish_def pack_stage_hits_def Let_def
      pack demo_fused_sel)
qed

lemma iteration_id: "iteration (\<lambda>m. m)"
  by (simp add: iteration_def)

lemma iteration_rev: "iteration rev"
  by (simp add: iteration_def)

lemma demo_searches: "searches_within demo_pipeline {[97], [98]}"
  by (auto simp: searches_within_def demo_pipeline_def demo_hit_def)

section \<open>Properties\<close>

text \<open>C34: with the rerankers of the chat service, every chunk the pipeline returns was returned by one of
  its searches: fusing, hydrating, reranking (whatever the service replies) and packing add no chunk.\<close>

theorem run_sources_retrieved:
  assumes "pl_reranker p = Some (chain_rerank (Some (service_rerank post decode r)) (Some (fallback_rerank u)))"
    and "iteration iter" and "searches_within p I"
    and "h \<in> set (pr_final (run u iter p opts))"
  shows "sh_chunk_id h \<in> I"
  by (rule production.chain.final_within [OF assms])

text \<open>The pipeline returns at most \<open>TopK\<close> chunks (four by default), within the context budget in
  runes (2200 by default) unless it returns a single one, each with some text, no two of them with the
  same content hash.\<close>

theorem run_final_bounded:
  "length (pr_final (run u iter p opts)) \<le> (if po_top_k opts \<le> 0 then 4 else nat (po_top_k opts)) \<and>
   (used_budget (pr_final (run u iter p opts)) \<le>
      (if po_context_budget opts \<le> 0 then 2200 else nat (po_context_budget opts)) \<or>
    length (pr_final (run u iter p opts)) = 1) \<and>
   distinct (hashes (pr_final (run u iter p opts))) \<and>
   (\<forall>h\<in>set (pr_final (run u iter p opts)). hit_text h \<noteq> [])"
proof -
  define k where "k = (if po_top_k opts \<le> 0 then 4 else nat (po_top_k opts))"
  define b where "b = (if po_context_budget opts \<le> 0 then 2200 else nat (po_context_budget opts))"
  have "pr_final (run u iter p opts) = [] \<or> (\<exists>hits. pr_final (run u iter p opts) =
      pack_stage_hits hits (po_top_k opts) (po_context_budget opts))"
    unfolding run_def Let_def finish_def by (auto split: prod.splits)
  then have "packed k b (pr_final (run u iter p opts))"
  proof
    assume "pr_final (run u iter p opts) = []"
    then show ?thesis by (simp add: packed_def used_budget_def hashes_def)
  next
    assume "\<exists>hits. pr_final (run u iter p opts) = pack_stage_hits hits (po_top_k opts) (po_context_budget opts)"
    then show ?thesis unfolding k_def b_def using pack_stage_hits_packed by metis
  qed
  then show ?thesis unfolding packed_def k_def b_def .
qed

text \<open>C35: fusion is weighted reciprocal rank fusion.  The score of a key in the fused map is the dense weight
  times its best reciprocal rank over the dense result lists plus the lexical weight times its best
  reciprocal rank over the lexical ones; the weights are normalised, so it is between 0 and 1/61.\<close>

theorem reciprocal_rank_fusion:
  fixes dss lss :: "stage_hit list list"
  assumes "iteration iter" and "normalized_fusion_weights a b = (dw, lw)"
  defines "d \<equiv> fold (\<lambda>hits m. accumulate_stage_hits m hits (lit ''dense'') dw) dss []"
    and "l \<equiv> fold (\<lambda>hits m. accumulate_stage_hits m hits (lit ''lexical'') lw) lss []"
  shows "score_of (fused_map iter d l) k = dw * best_reciprocal dss k + lw * best_reciprocal lss k \<and>
    0 \<le> score_of (fused_map iter d l) k \<and> score_of (fused_map iter d l) k \<le> 1 / 61"
proof -
  have w: "0 \<le> dw" "0 \<le> lw" "dw + lw = 1" using weights_bounds [OF assms(2)] by auto
  have keys: "hit_keys_ok d" "hit_keys_ok l"
    using best_of_searches [OF best_of_Nil] unfolding d_def l_def best_of_def by blast+
  have e: "score_of (fused_map iter d l) k = dw * best_reciprocal dss k + lw * best_reciprocal lss k"
    using score_of_fused [OF assms(1) keys, of k] score_of_searches [OF w(1), of "lit ''dense''" dss k]
      score_of_searches [OF w(2), of "lit ''lexical''" lss k] by (simp add: d_def l_def mult.commute)
  have "dw * best_reciprocal dss k + lw * best_reciprocal lss k \<le> dw * (1 / 61) + lw * (1 / 61)"
    using best_reciprocal_bounds w by (intro add_mono mult_left_mono) auto
  also have "\<dots> = 1 / 61" using w(3) by (simp add: distrib_right [symmetric])
  finally show ?thesis using e w best_reciprocal_bounds by (simp add: add_nonneg_nonneg)
qed

text \<open>C36: the result of the pipeline does not depend on the iteration order of Go's maps, when the scores of
  the dense, of the lexical and of the fused hits are pairwise equal or at least \<open>1e-9\<close> apart, equal ones
  with different chunk IDs.\<close>

theorem run_iteration_independent:
  assumes "iteration iter1" and "iteration iter2"
    and "fold (search_query p opts (detect_language u (normalize_text u (po_query opts))))
           (choose_queries u p opts (normalize_text u (po_query opts)) (detect_language u (normalize_text u (po_query opts))))
           ([], [], []) = (d, l, ws)"
    and "separated (snd ` set d)" and "separated (snd ` set l)" and "separated (snd ` set (fused_map iter1 d l))"
  shows "run u iter1 p opts = run u iter2 p opts"
proof -
  have keys: "hit_keys_ok d \<and> hit_keys_ok l"
    by (rule searches_fold_keys [OF _ _ assms(3)]) (simp_all add: hit_keys_ok_def)
  have same: "ordered_stage_hits iter1 m k = ordered_stage_hits iter2 m' k"
    if "mset m = mset m'" "separated (snd ` set m)" for m m' k
  proof (rule ordered_same)
    show "mset (map snd (iter1 m)) = mset (map snd (iter2 m'))"
      using assms(1,2) that(1) unfolding iteration_def by simp
    show "separated (set (map snd (iter1 m)))" using that(2) iteration_set [OF assms(1), of m] by simp
  qed
  have "fuse_stage_hits iter1 d l k = fuse_stage_hits iter2 d l k" for k
    unfolding fuse_stage_hits_def using keys assms by (intro same fused_map_same) auto
  then show ?thesis unfolding run_def Let_def by (simp add: assms(3) same [OF refl] assms(4,5))
qed

text \<open>C11: the comparison of two hits is not an order when scores are closer than \<open>1e-9\<close>: for three hits
  that tie pairwise but for the outer two, the order returned is the iteration order of the map.\<close>

definition tied :: "nat \<Rightarrow> real \<Rightarrow> gostr \<times> stage_hit" where
  "tied n w = ([n], \<lparr>sh_chunk_id = [n], sh_book_id = [], sh_score = w, sh_stage = [], sh_content = [n],
     sh_metadata = (\<lambda>_. None),
     sh_chunk = \<lparr>ch_id = [], ch_book_id = [], ch_content = [], ch_metadata = (\<lambda>_. None), ch_created_at = 0\<rparr>\<rparr>)"

theorem near_ties_follow_iteration:
  "map sh_chunk_id (ordered_stage_hits (\<lambda>m. m) [tied 3 (12 / 10 ^ 10), tied 2 (6 / 10 ^ 10), tied 1 0] 0) = [[2], [3], [1]] \<and>
   map sh_chunk_id (ordered_stage_hits rev [tied 3 (12 / 10 ^ 10), tied 2 (6 / 10 ^ 10), tied 1 0] 0) = [[1], [2], [3]]"
  by (simp add: ordered_stage_hits_def slice_stable_def truncate_to_def tied_def hit_less_def)

text \<open>A dense search that fails on every query costs only its hits: the pipeline returns what it
  returns without a dense search, up to the warnings.\<close>

theorem run_without_dense:
  assumes "pl_dense p = Some s" and "\<And>q l k. \<exists>e. s q l k = Inl e"
  shows "drop_warnings (run u iter p opts) = drop_warnings (run u iter (p\<lparr>pl_dense := None\<rparr>) opts)"
proof -
  define query where "query = normalize_text u (po_query opts)"
  define language where "language = detect_language u query"
  define queries where "queries = choose_queries u p opts query language"
  have queries': "choose_queries u (p\<lparr>pl_dense := None\<rparr>) opts query language = queries"
    by (simp add: choose_queries_def queries_def Let_def)
  obtain d l ws where f: "fold (search_query (p\<lparr>pl_dense := None\<rparr>) opts language) queries ([], [], []) = (d, l, ws)"
    by (metis surj_pair)
  obtain ws' where f': "fold (search_query p opts language) queries ([], [], []) = (d, l, ws')"
    using failing_dense_fold [OF assms, of opts language queries "[]" "[]" "[]" "[]"] f by auto
  show ?thesis
    unfolding run_def
    by (simp add: query_def [symmetric] language_def [symmetric] queries_def [symmetric] queries' f f' Let_def)
      (auto simp: drop_warnings_def [of "\<lparr>pr_language = _, pr_queries = _, pr_dense = _, pr_lexical = _, pr_fused = _,
          pr_reranked = _, pr_final = _, pr_warnings = _\<rparr>"] intro!: finish_drop choose_final_drop load_chunks_drop)
qed

theorem run_sources_retrieved_witness:
  "\<exists>h\<in>set (pr_final (run demo_unicode (\<lambda>m. m) demo_pipeline demo_opts)).
     sh_chunk_id h = [98] \<and> sh_chunk_id h \<in> {[97], [98]}"
proof -
  have "[98] \<in> set (map sh_chunk_id (pr_final (run demo_unicode (\<lambda>m. m) demo_pipeline demo_opts)))"
    unfolding demo_run by simp
  then obtain h where h: "h \<in> set (pr_final (run demo_unicode (\<lambda>m. m) demo_pipeline demo_opts))" "sh_chunk_id h = [98]"
    by auto
  have "pl_reranker demo_pipeline = Some (chain_rerank
     (Some (service_rerank (\<lambda>_ _. Inr (200, [])) (\<lambda>_. Inr [([98], 9), ([99], 8), ([97], 1)])
        (Some (new_service_reranker (lit ''u'') 0 0 0))))
     (Some (fallback_rerank demo_unicode)))" by (simp add: demo_pipeline_def demo_rerank_def)
  from run_sources_retrieved [OF this iteration_id demo_searches h(1)] h show ?thesis by blast
qed

theorem reciprocal_rank_fusion_witness:
  "score_of (fused_map rev (fold (\<lambda>hits m. accumulate_stage_hits m hits (lit ''dense'') (1 / 2)) [[demo_hit 97, demo_hit 98]] [])
      (fold (\<lambda>hits m. accumulate_stage_hits m hits (lit ''lexical'') (1 / 2)) [[demo_hit 98], [demo_hit 98, demo_hit 97]] [])) [97] =
   1 / 2 * (1 / 61) + 1 / 2 * (1 / 62)"
proof -
  have "normalized_fusion_weights 0 0 = (1 / 2, 1 / 2)" by (simp add: normalized_fusion_weights_def)
  note f = reciprocal_rank_fusion [OF iteration_rev this, of "[[demo_hit 97, demo_hit 98]]" "[[demo_hit 98], [demo_hit 98, demo_hit 97]]" "[97]"]
  have "best_reciprocal [[demo_hit 97, demo_hit 98]] [97] = 1 / 61"
    "best_reciprocal [[demo_hit 98], [demo_hit 98, demo_hit 97]] [97] = 1 / 62"
    by (simp_all add: best_reciprocal_def demo_key is_space_def reciprocal_rank_def)
  then show ?thesis using f by simp
qed

theorem run_iteration_independent_witness:
  "run demo_unicode (\<lambda>m. m) demo_pipeline demo_opts = run demo_unicode rev demo_pipeline demo_opts"
proof (rule run_iteration_independent [OF iteration_id iteration_rev])
  show "fold (search_query demo_pipeline demo_opts (detect_language demo_unicode (normalize_text demo_unicode (po_query demo_opts))))
      (choose_queries demo_unicode demo_pipeline demo_opts (normalize_text demo_unicode (po_query demo_opts))
        (detect_language demo_unicode (normalize_text demo_unicode (po_query demo_opts)))) ([], [], []) =
    ([], [([97], demo_lex 97 (1/122)), ([98], demo_lex 98 (1/124))], [lit ''dense retrieval unavailable''])"
    unfolding demo_queries by (rule demo_fold)
  show "separated (snd ` set [([97], demo_lex 97 (1/122)), ([98], demo_lex 98 (1/124))])"
    by (auto simp: separated_def demo_lex_sel)
  show "separated (snd ` set (fused_map (\<lambda>m. m) [] [([97], demo_lex 97 (1/122)), ([98], demo_lex 98 (1/124))]))"
    by (auto simp: separated_def fused_map_def fuse_one_def demo_lex_sel)
qed (simp add: separated_def)

theorem run_without_dense_witness:
  "drop_warnings (run demo_unicode (\<lambda>m. m) demo_pipeline demo_opts) =
   drop_warnings (run demo_unicode (\<lambda>m. m) (demo_pipeline\<lparr>pl_dense := None\<rparr>) demo_opts)"
proof (rule run_without_dense)
  show "pl_dense demo_pipeline = Some (\<lambda>_ _ _. Inl (lit ''down''))" by (simp add: demo_pipeline_def)
qed simp

theorem run_final_bounded_witness:
  "length (pr_final (run demo_unicode (\<lambda>m. m) demo_pipeline demo_opts)) = 2 \<and>
   used_budget (pr_final (run demo_unicode (\<lambda>m. m) demo_pipeline demo_opts)) \<le> 2200"
proof -
  have "length (map sh_chunk_id (pr_final (run demo_unicode (\<lambda>m. m) demo_pipeline demo_opts))) = 2"
    unfolding demo_run by simp
  moreover have "po_context_budget demo_opts = 0" by (simp add: demo_opts_def)
  ultimately show ?thesis using run_final_bounded [of demo_unicode "\<lambda>m. m" demo_pipeline demo_opts] by simp
qed

end
