(* ===== verification/BookStore.thy ===== *)
theory BookStore
  imports Retrieval Sql "HOL-Library.Option_ord" "HOL-Library.Product_Lexorder"
begin

text \<open>
  The tables of books, chunks, conversations, idempotency records and outbox messages, and the
  operations of \<open>GormStore\<close> on them (\<open>backend/pkg/store/gorm_store.go\<close>, \<open>models.go\<close>,
  \<open>backend/pkg/domain/types.go\<close> and \<open>book_metadata.go\<close>).  A table is the list of its rows.  Each operation is
  one call of \<open>Sql\<close>: it takes effect as a whole, or not at all.  JSON columns hold the values they
  encode.  The rows that another transaction has locked are not modelled: a claim with
  \<open>SKIP LOCKED\<close> sees every row, as it does when the transactions run one after the other.
\<close>

section \<open>Rows\<close>

datatype book_status = BookQueued | BookProcessing | BookReady | BookFailed
datatype cleanup_status = CleanupQueued | CleanupRunning | CleanupFailed
datatype sync_status = SyncPending | SyncSynced | SyncFailed
datatype index_backend = OpenSearch | Qdrant | OtherBackend gostr
datatype idem_state = IdemProcessing | IdemCompleted | IdemFailed

record doc_entity =
  de_type :: gostr
  de_value :: gostr
  de_label :: gostr
  de_page :: gostr

record doc_fact =
  df_key :: gostr
  df_value :: gostr
  df_label :: gostr
  df_page :: gostr
  df_source_ref :: gostr

text \<open>A missing cleanup status is the empty string.\<close>

record book =
  bo_id :: gostr
  bo_owner_id :: gostr
  bo_title :: gostr
  bo_original_filename :: gostr
  bo_primary_category :: gostr
  bo_tags :: "gostr list"
  bo_format :: gostr
  bo_language :: gostr
  bo_document_type :: gostr
  bo_document_summary :: gostr
  bo_first_page_text :: gostr
  bo_keywords :: "gostr list"
  bo_entities :: "doc_entity list"
  bo_facts :: "doc_fact list"
  bo_storage_key :: gostr
  bo_status :: book_status
  bo_error_message :: gostr
  bo_size_bytes :: int
  bo_created_at :: gotime
  bo_updated_at :: gotime
  bo_deleted_at :: "gotime option"
  bo_cleanup_status :: "cleanup_status option"
  bo_cleanup_error :: gostr
  bo_cleanup_attempts :: int
  bo_cleanup_updated_at :: "gotime option"
  bo_generation :: int

record document_profile =
  dp_type :: gostr
  dp_summary :: gostr
  dp_first_page :: gostr
  dp_keywords :: "gostr list"
  dp_entities :: "doc_entity list"
  dp_facts :: "doc_fact list"

record chunk_index_status =
  ci_chunk_id :: gostr
  ci_book_id :: gostr
  ci_content_sha :: gostr
  ci_embedding_model :: gostr
  ci_embedding_dim :: int
  ci_open_search :: sync_status
  ci_open_search_at :: "gotime option"
  ci_qdrant :: sync_status
  ci_qdrant_at :: "gotime option"
  ci_last_error :: gostr
  ci_created_at :: gotime
  ci_updated_at :: gotime

record conversation =
  co_id :: gostr
  co_user_id :: gostr
  co_book_id :: gostr
  co_title :: gostr
  co_last_message_at :: "gotime option"
  co_created_at :: gotime
  co_updated_at :: gotime

text \<open>The sources and the metadata of a message are kept as JSON texts.\<close>

record message =
  me_id :: gostr
  me_conversation_id :: gostr
  me_user_id :: gostr
  me_book_id :: gostr
  me_role :: gostr
  me_content :: gostr
  me_sources :: gostr
  me_metadata :: gostr
  me_created_at :: gotime

record idem_record =
  ir_id :: gostr
  ir_scope :: gostr
  ir_actor_id :: gostr
  ir_key :: gostr
  ir_request_hash :: gostr
  ir_resource_type :: gostr
  ir_resource_id :: gostr
  ir_status_code :: int
  ir_state :: idem_state
  ir_response :: gostr
  ir_created_at :: gotime
  ir_updated_at :: gotime

text \<open>The payload is the book and the generation it encodes, \<open>None\<close> when it is not such JSON.\<close>

record outbox_message =
  om_id :: gostr
  om_topic :: gostr
  om_resource_type :: gostr
  om_resource_id :: gostr
  om_payload :: "(gostr \<times> int) option"
  om_attempts :: int
  om_last_error :: gostr
  om_available_at :: gotime
  om_locked_at :: "gotime option"
  om_dispatched_at :: "gotime option"
  om_created_at :: gotime
  om_updated_at :: gotime

text \<open>The rows of conversations and messages have a nullable book and conversation instead.\<close>

record conversation_row =
  cr_conversation :: conversation
  cr_book_id :: "gostr option"

record message_row =
  mr_message :: message
  mr_conversation_id :: "gostr option"

record tables =
  tb_books :: "book list"
  tb_chunks :: "chunk list"
  tb_index_statuses :: "chunk_index_status list"
  tb_conversations :: "conversation_row list"
  tb_messages :: "message_row list"
  tb_idempotency :: "idem_record list"
  tb_outbox :: "outbox_message list"

type_synonym 'a op = "(tables, gostr, 'a) statement"

section \<open>Normalisation\<close>

definition normalize_book_primary_category :: "(rune \<Rightarrow> rune) \<Rightarrow> gostr \<Rightarrow> gostr" where
  "normalize_book_primary_category lw value =
     (let v = trim_space (to_lower lw value) in
      if v \<in> set (map lit [''course_material'', ''research_paper'', ''project_doc'', ''policy_regulation'',
                          ''reference_book'', ''personal_note'', ''how_to_guide'']) then v
      else lit ''other'')"

definition normalize_book_format :: "(rune \<Rightarrow> rune) \<Rightarrow> gostr \<Rightarrow> gostr" where
  "normalize_book_format lw value =
     (let v = trim_space (to_lower lw value) in
      if v \<in> set (map lit [''pdf'', ''epub'', ''txt'']) then v else [])"

definition normalize_book_language :: "(rune \<Rightarrow> rune) \<Rightarrow> gostr \<Rightarrow> gostr" where
  "normalize_book_language lw value =
     (let v = trim_space (to_lower lw value) in
      if v \<in> set (map lit [''zh'', ''en'', ''other'']) then v else lit ''unknown'')"

text \<open>\<open>bookToModel\<close>, and \<open>bookFromModel\<close>, which normalises the same columns again.\<close>

definition book_to_model :: "(rune \<Rightarrow> rune) \<Rightarrow> book \<Rightarrow> book" where
  "book_to_model lw b =
     b\<lparr>bo_primary_category := normalize_book_primary_category lw (bo_primary_category b),
       bo_format := normalize_book_format lw (bo_format b),
       bo_language := normalize_book_language lw (bo_language b),
       bo_document_type := trim_space (bo_document_type b),
       bo_document_summary := trim_space (bo_document_summary b),
       bo_first_page_text := trim_space (bo_first_page_text b),
       bo_cleanup_error := trim_space (bo_cleanup_error b)\<rparr>"

definition book_from_model :: "(rune \<Rightarrow> rune) \<Rightarrow> book \<Rightarrow> book" where
  "book_from_model lw m =
     m\<lparr>bo_primary_category := normalize_book_primary_category lw (bo_primary_category m),
       bo_format := normalize_book_format lw (bo_format m),
       bo_language := normalize_book_language lw (bo_language m),
       bo_document_type := trim_space (bo_document_type m),
       bo_document_summary := trim_space (bo_document_summary m),
       bo_first_page_text := trim_space (bo_first_page_text m)\<rparr>"

definition idem_to_model :: "idem_record \<Rightarrow> idem_record" where
  "idem_to_model r =
     r\<lparr>ir_id := trim_space (ir_id r), ir_scope := trim_space (ir_scope r), ir_actor_id := trim_space (ir_actor_id r),
       ir_key := trim_space (ir_key r), ir_request_hash := trim_space (ir_request_hash r),
       ir_resource_type := trim_space (ir_resource_type r), ir_resource_id := trim_space (ir_resource_id r)\<rparr>"

definition outbox_to_model :: "outbox_message \<Rightarrow> outbox_message" where
  "outbox_to_model m =
     m\<lparr>om_id := trim_space (om_id m), om_topic := trim_space (om_topic m),
       om_resource_type := trim_space (om_resource_type m), om_resource_id := trim_space (om_resource_id m),
       om_last_error := trim_space (om_last_error m)\<rparr>"

definition conversation_to_model :: "conversation \<Rightarrow> conversation_row" where
  "conversation_to_model c =
     \<lparr>cr_conversation = c,
      cr_book_id = (if trim_space (co_book_id c) \<noteq> [] then Some (trim_space (co_book_id c)) else None)\<rparr>"

definition conversation_from_model :: "conversation_row \<Rightarrow> conversation" where
  "conversation_from_model m =
     (cr_conversation m)\<lparr>co_book_id := (case cr_book_id m of None \<Rightarrow> [] | Some b \<Rightarrow> trim_space b)\<rparr>"

definition message_to_model :: "message \<Rightarrow> message_row" where
  "message_to_model m =
     \<lparr>mr_message = m,
      mr_conversation_id =
        (if trim_space (me_conversation_id m) \<noteq> [] then Some (trim_space (me_conversation_id m)) else None)\<rparr>"

definition message_from_model :: "message_row \<Rightarrow> message" where
  "message_from_model r =
     (mr_message r)\<lparr>me_conversation_id := (case mr_conversation_id r of None \<Rightarrow> [] | Some c \<Rightarrow> trim_space c)\<rparr>"

section \<open>Statements\<close>

definition update_where :: "('r \<Rightarrow> bool) \<Rightarrow> ('r \<Rightarrow> 'r) \<Rightarrow> 'r list \<Rightarrow> 'r list" where
  "update_where P f rows = map (\<lambda>r. if P r then f r else r) rows"

text \<open>Rows are inserted as a whole; a key that is taken, or used twice, violates the primary key.\<close>

definition insert_rows :: "('r \<Rightarrow> 'k) \<Rightarrow> 'r list \<Rightarrow> 'r list \<Rightarrow> gostr db_error + 'r list" where
  "insert_rows key new rows =
     (if distinct (map key new) \<and> set (map key new) \<inter> set (map key rows) = {} then Inr (rows @ new)
      else Inl UniqueViolation)"

text \<open>\<open>ON CONFLICT (id) DO UPDATE\<close>: the row with the key is changed by \<open>f\<close>, or the new row is inserted.\<close>

definition upsert :: "('r \<Rightarrow> 'k) \<Rightarrow> ('r \<Rightarrow> 'r \<Rightarrow> 'r) \<Rightarrow> 'r \<Rightarrow> 'r list \<Rightarrow> 'r list" where
  "upsert key f new rows =
     (if key new \<in> set (map key rows) then update_where (\<lambda>r. key r = key new) (\<lambda>r. f r new) rows
      else rows @ [new])"

definition live :: "book \<Rightarrow> bool" where
  "live b \<longleftrightarrow> bo_deleted_at b = None"

section \<open>Books\<close>

text \<open>The columns an upsert of a book assigns: all but the ID, the creation time, the entities and the facts.\<close>

definition assign_book :: "book \<Rightarrow> book \<Rightarrow> book" where
  "assign_book old new =
     new\<lparr>bo_id := bo_id old, bo_created_at := bo_created_at old, bo_entities := bo_entities old,
         bo_facts := bo_facts old\<rparr>"

definition save_book :: "(rune \<Rightarrow> rune) \<Rightarrow> book \<Rightarrow> unit op" where
  "save_book lw b t = (Inr (), t\<lparr>tb_books := upsert bo_id assign_book (book_to_model lw b) (tb_books t)\<rparr>)"

text \<open>An upsert on the ID of a record fails when another record has the scope, the actor and the key.\<close>

definition assign_idem :: "idem_record \<Rightarrow> idem_record \<Rightarrow> idem_record" where
  "assign_idem old new = new\<lparr>ir_id := ir_id old, ir_created_at := ir_created_at old\<rparr>"

definition idem_triple :: "idem_record \<Rightarrow> gostr \<times> gostr \<times> gostr" where
  "idem_triple r = (ir_scope r, ir_actor_id r, ir_key r)"

definition save_idempotency_record :: "idem_record \<Rightarrow> unit op" where
  "save_idempotency_record record t =
     (let m = idem_to_model record in
      if \<exists>r\<in>set (tb_idempotency t). ir_id r \<noteq> ir_id m \<and> idem_triple r = idem_triple m then (Inl UniqueViolation, t)
      else (Inr (), t\<lparr>tb_idempotency := upsert ir_id assign_idem m (tb_idempotency t)\<rparr>))"

text \<open>The outbox row is inserted unless its ID is taken (\<open>ON CONFLICT DO NOTHING\<close>).\<close>

definition add_outbox :: "outbox_message \<Rightarrow> tables \<Rightarrow> tables" where
  "add_outbox msg t =
     (let m = outbox_to_model msg in
      if om_id m \<in> set (map om_id (tb_outbox t)) then t else t\<lparr>tb_outbox := tb_outbox t @ [m]\<rparr>)"

definition save_book_and_outbox ::
  "(rune \<Rightarrow> rune) \<Rightarrow> book \<Rightarrow> idem_record option \<Rightarrow> outbox_message option \<Rightarrow> unit op" where
  "save_book_and_outbox lw book record msg t =
     (let t1 = snd (save_book lw book t) in
      case (case record of None \<Rightarrow> (Inr (), t1) | Some r \<Rightarrow> save_idempotency_record r t1) of
        (Inl e, t2) \<Rightarrow> (Inl e, t2)
      | (Inr _, t2) \<Rightarrow> (Inr (), case msg of None \<Rightarrow> t2 | Some m \<Rightarrow> add_outbox m t2))"

definition update_book_document_profile :: "gotime \<Rightarrow> gostr \<Rightarrow> document_profile \<Rightarrow> unit op" where
  "update_book_document_profile now bid p t =
     (Inr (), t\<lparr>tb_books := update_where (\<lambda>b. bo_id b = trim_space bid \<and> live b)
        (\<lambda>b. b\<lparr>bo_document_type := trim_space (dp_type p), bo_document_summary := trim_space (dp_summary p),
                bo_first_page_text := trim_space (dp_first_page p), bo_keywords := dp_keywords p,
                bo_entities := dp_entities p, bo_facts := dp_facts p, bo_updated_at := now\<rparr>) (tb_books t)\<rparr>)"

definition set_status :: "gotime \<Rightarrow> gostr \<Rightarrow> book_status \<Rightarrow> gostr \<Rightarrow> unit op" where
  "set_status now bid status err_msg t =
     (Inr (), t\<lparr>tb_books := update_where (\<lambda>b. bo_id b = bid \<and> live b)
        (\<lambda>b. b\<lparr>bo_status := status, bo_error_message := err_msg, bo_updated_at := now\<rparr>) (tb_books t)\<rparr>)"

text \<open>True when a row was changed.\<close>

definition set_status_if_generation :: "gotime \<Rightarrow> gostr \<Rightarrow> int \<Rightarrow> book_status \<Rightarrow> gostr \<Rightarrow> bool op" where
  "set_status_if_generation now bid gen status err_msg t =
     (let P = (\<lambda>b. bo_id b = bid \<and> live b \<and> bo_generation b = gen) in
      (Inr (\<exists>b\<in>set (tb_books t). P b),
       t\<lparr>tb_books := update_where P
          (\<lambda>b. b\<lparr>bo_status := status, bo_error_message := err_msg, bo_updated_at := now\<rparr>) (tb_books t)\<rparr>))"

definition list_books :: "(rune \<Rightarrow> rune) \<Rightarrow> book list op" where
  "list_books lw t = (Inr (map (book_from_model lw) (sort_key bo_created_at (filter live (tb_books t)))), t)"

definition list_books_by_owner :: "(rune \<Rightarrow> rune) \<Rightarrow> gostr \<Rightarrow> book list op" where
  "list_books_by_owner lw owner t =
     (Inr (map (book_from_model lw)
        (sort_key bo_created_at (filter (\<lambda>b. live b \<and> bo_owner_id b = owner) (tb_books t)))), t)"

definition get_book :: "(rune \<Rightarrow> rune) \<Rightarrow> gostr \<Rightarrow> book option op" where
  "get_book lw bid t =
     (Inr (map_option (book_from_model lw) (List.find (\<lambda>b. live b \<and> bo_id b = bid) (tb_books t))), t)"

definition get_book_including_deleted :: "(rune \<Rightarrow> rune) \<Rightarrow> gostr \<Rightarrow> book option op" where
  "get_book_including_deleted lw bid t =
     (Inr (map_option (book_from_model lw) (List.find (\<lambda>b. bo_id b = bid) (tb_books t))), t)"

definition default_limit :: "int \<Rightarrow> nat" where
  "default_limit limit = (if limit \<le> 0 then 20 else nat limit)"

definition pending_cleanup :: "book \<Rightarrow> bool" where
  "pending_cleanup b \<longleftrightarrow>
     bo_deleted_at b \<noteq> None \<and> (bo_cleanup_status b = Some CleanupQueued \<or> bo_cleanup_status b = Some CleanupFailed)"

text \<open>\<open>None < Some t\<close>: nulls come first.\<close>

definition books_to_clean :: "int \<Rightarrow> book list \<Rightarrow> book list" where
  "books_to_clean limit rows = take (default_limit limit) (sort_key bo_cleanup_updated_at (filter pending_cleanup rows))"

definition list_books_pending_cleanup :: "(rune \<Rightarrow> rune) \<Rightarrow> int \<Rightarrow> book list op" where
  "list_books_pending_cleanup lw limit t = (Inr (map (book_from_model lw) (books_to_clean limit (tb_books t))), t)"

definition start_cleanup :: "gotime \<Rightarrow> book \<Rightarrow> book" where
  "start_cleanup now b =
     b\<lparr>bo_cleanup_status := Some CleanupRunning, bo_cleanup_error := [], bo_cleanup_updated_at := Some now,
       bo_updated_at := now, bo_cleanup_attempts := bo_cleanup_attempts b + 1\<rparr>"

definition claim_books_pending_cleanup :: "(rune \<Rightarrow> rune) \<Rightarrow> gotime \<Rightarrow> int \<Rightarrow> book list op" where
  "claim_books_pending_cleanup lw now limit t =
     (let models = books_to_clean limit (tb_books t); ids = map bo_id models in
      (Inr (map (\<lambda>b. book_from_model lw (start_cleanup now b)) models),
       t\<lparr>tb_books := update_where (\<lambda>b. bo_id b \<in> set ids) (start_cleanup now) (tb_books t)\<rparr>))"

definition mark_book_deleted :: "gotime \<Rightarrow> gostr \<Rightarrow> cleanup_status \<Rightarrow> unit op" where
  "mark_book_deleted now bid cleanup t =
     (Inr (), t\<lparr>tb_books := update_where (\<lambda>b. bo_id b = bid \<and> live b)
        (\<lambda>b. b\<lparr>bo_deleted_at := Some now, bo_cleanup_status := Some cleanup, bo_cleanup_error := [],
                bo_cleanup_updated_at := Some now, bo_updated_at := now\<rparr>) (tb_books t)\<rparr>)"

text \<open>The two updates of \<open>UpdateBookCleanup\<close> are two statements.\<close>

definition write_book_cleanup :: "gotime \<Rightarrow> gostr \<Rightarrow> cleanup_status \<Rightarrow> gostr \<Rightarrow> unit op" where
  "write_book_cleanup now bid status err_msg t =
     (Inr (), t\<lparr>tb_books := update_where (\<lambda>b. bo_id b = bid)
        (\<lambda>b. b\<lparr>bo_cleanup_status := Some status, bo_cleanup_error := trim_space err_msg,
                bo_cleanup_updated_at := Some now, bo_updated_at := now\<rparr>) (tb_books t)\<rparr>)"

definition bump_cleanup_attempts :: "gostr \<Rightarrow> unit op" where
  "bump_cleanup_attempts bid t =
     (Inr (), t\<lparr>tb_books := update_where (\<lambda>b. bo_id b = bid)
        (\<lambda>b. b\<lparr>bo_cleanup_attempts := bo_cleanup_attempts b + 1\<rparr>) (tb_books t)\<rparr>)"

definition update_book_cleanup ::
  "gotime \<Rightarrow> gostr \<Rightarrow> cleanup_status \<Rightarrow> gostr \<Rightarrow> bool \<Rightarrow> tables db \<Rightarrow> (gostr db_error + unit) \<times> tables db" where
  "update_book_cleanup now bid status err_msg increment d =
     (case db_call (write_book_cleanup now bid status err_msg) d of
        (Inl e, d1) \<Rightarrow> (Inl e, d1)
      | (Inr _, d1) \<Rightarrow> if increment then db_call (bump_cleanup_attempts bid) d1 else (Inr (), d1))"

text \<open>
  The foreign keys cascade: the index statuses go with their chunk, the chunks and the messages with
  their book, and the messages with their conversation.
\<close>

definition delete_chunks :: "(chunk \<Rightarrow> bool) \<Rightarrow> tables \<Rightarrow> tables" where
  "delete_chunks P t =
     (let gone = map ch_id (filter P (tb_chunks t)) in
      t\<lparr>tb_chunks := filter (\<lambda>c. \<not> P c) (tb_chunks t),
        tb_index_statuses := filter (\<lambda>i. ci_chunk_id i \<notin> set gone) (tb_index_statuses t)\<rparr>)"

definition delete_conversations :: "(conversation_row \<Rightarrow> bool) \<Rightarrow> tables \<Rightarrow> tables" where
  "delete_conversations P t =
     (let gone = map (\<lambda>r. co_id (cr_conversation r)) (filter P (tb_conversations t)) in
      t\<lparr>tb_conversations := filter (\<lambda>r. \<not> P r) (tb_conversations t),
        tb_messages := filter (\<lambda>m. \<forall>c\<in>set gone. mr_conversation_id m \<noteq> Some c) (tb_messages t)\<rparr>)"

definition delete_messages :: "(message_row \<Rightarrow> bool) \<Rightarrow> tables \<Rightarrow> tables" where
  "delete_messages P t = t\<lparr>tb_messages := filter (\<lambda>m. \<not> P m) (tb_messages t)\<rparr>"

definition delete_book_rows :: "gostr \<Rightarrow> tables \<Rightarrow> tables" where
  "delete_book_rows bid t =
     (if bid \<in> set (map bo_id (tb_books t))
      then (delete_messages (\<lambda>m. me_book_id (mr_message m) = bid) (delete_chunks (\<lambda>c. ch_book_id c = bid) t))
             \<lparr>tb_books := filter (\<lambda>b. bo_id b \<noteq> bid) (tb_books t)\<rparr>
      else t)"

definition delete_book :: "gostr \<Rightarrow> unit op" where
  "delete_book bid t =
     (Inr (),
      delete_book_rows bid
        (delete_messages (\<lambda>m. me_book_id (mr_message m) = bid)
          (delete_conversations (\<lambda>r. cr_book_id r = Some bid)
            (delete_chunks (\<lambda>c. ch_book_id c = bid) t))))"

section \<open>Lists of books\<close>

record book_list_options =
  bl_query :: gostr
  bl_owner_id :: gostr
  bl_status :: gostr
  bl_primary_category :: gostr
  bl_tag :: gostr
  bl_format :: gostr
  bl_language :: gostr
  bl_sort_by :: gostr
  bl_sort_order :: gostr
  bl_page :: int
  bl_page_size :: int

text \<open>\<open>LIKE\<close>: \<open>%\<close> stands for any text, \<open>_\<close> for any rune, a backslash escapes the next rune.\<close>

fun like :: "gostr \<Rightarrow> gostr \<Rightarrow> bool" where
  "like [] s = (s = [])"
| "like (p # ps) [] = (if p = 37 then like ps [] else False)"
| "like (p # ps) (r # s) =
     (if p = 37 then like ps (r # s) \<or> like (p # ps) s
      else if p = 95 then like ps s
      else if p = 92 then (case ps of [] \<Rightarrow> False | q # qs \<Rightarrow> q = r \<and> like qs s)
      else p = r \<and> like ps s)"

definition status_text :: "book_status \<Rightarrow> gostr" where
  "status_text s = lit (case s of BookQueued \<Rightarrow> ''queued'' | BookProcessing \<Rightarrow> ''processing''
                                | BookReady \<Rightarrow> ''ready'' | BookFailed \<Rightarrow> ''failed'')"

definition normalize_page :: "int \<Rightarrow> int \<Rightarrow> int \<times> int" where
  "normalize_page page page_size =
     (if page \<le> 0 then 1 else page,
      let ps = (if page_size \<le> 0 then 20 else page_size) in if 100 < ps then 100 else ps)"

definition sort_descending :: "(rune \<Rightarrow> rune) \<Rightarrow> gostr \<Rightarrow> bool" where
  "sort_descending lw value \<longleftrightarrow> to_lower lw (trim_space value) \<noteq> lit ''asc''"

definition book_sort_column :: "(rune \<Rightarrow> rune) \<Rightarrow> gostr \<Rightarrow> gostr" where
  "book_sort_column lw value =
     (let v = to_lower lw (trim_space value) in
      if v = lit ''title'' then lit ''title''
      else if v = lit ''createdat'' \<or> v = lit ''created_at'' then lit ''created_at''
      else lit ''updated_at'')"

text \<open>\<open>ORDER BY\<close> the column; titles compare by code points.\<close>

definition order_books :: "(rune \<Rightarrow> rune) \<Rightarrow> gostr \<Rightarrow> gostr \<Rightarrow> book list \<Rightarrow> book list" where
  "order_books lw sort_by dir rows =
     (let col = book_sort_column lw sort_by;
          up = (if col = lit ''title'' then sort_key bo_title rows
                else if col = lit ''created_at'' then sort_key bo_created_at rows
                else sort_key bo_updated_at rows)
      in if sort_descending lw dir then rev up else up)"

text \<open>The \<open>WHERE\<close> clauses.  \<open>@>\<close> holds when the tag is one of the tags; \<open>json_quoted\<close> says that Go's
  \<open>%q\<close> of the tag is a JSON string, otherwise the statement fails.\<close>

definition book_matches :: "(rune \<Rightarrow> rune) \<Rightarrow> book_list_options \<Rightarrow> book \<Rightarrow> bool" where
  "book_matches lw opts b \<longleftrightarrow>
     live b \<and>
     (let q = trim_space (bl_query opts); pat = [37] @ to_lower lw q @ [37] in
      q = [] \<or> like pat (to_lower lw (bo_title b)) \<or> like pat (to_lower lw (bo_original_filename b)) \<or>
      like pat (to_lower lw (bo_id b))) \<and>
     (let v = trim_space (bl_owner_id opts) in v = [] \<or> bo_owner_id b = v) \<and>
     (let v = trim_space (to_lower lw (bl_status opts)) in v = [] \<or> status_text (bo_status b) = v) \<and>
     (let v = trim_space (to_lower lw (bl_primary_category opts)) in v = [] \<or> bo_primary_category b = v) \<and>
     (let v = trim_space (bl_tag opts) in v = [] \<or> v \<in> set (bo_tags b)) \<and>
     (let v = trim_space (to_lower lw (bl_format opts)) in v = [] \<or> bo_format b = v) \<and>
     (let v = trim_space (to_lower lw (bl_language opts)) in v = [] \<or> bo_language b = v)"

definition list_books_with_options ::
  "(rune \<Rightarrow> rune) \<Rightarrow> (gostr \<Rightarrow> bool) \<Rightarrow> book_list_options \<Rightarrow> (book list \<times> nat) op" where
  "list_books_with_options lw json_quoted opts t =
     (if trim_space (bl_tag opts) \<noteq> [] \<and> \<not> json_quoted (trim_space (bl_tag opts)) then
        (Inl (AppError (lit ''invalid input syntax for type json'')), t)
      else
        let found = filter (book_matches lw opts) (tb_books t);
            ordered = order_books lw (bl_sort_by opts) (bl_sort_order opts) found;
            shown = (if 0 < bl_page_size opts
                     then let (page, size) = normalize_page (bl_page opts) (bl_page_size opts) in
                       take (nat size) (drop (nat ((page - 1) * size)) ordered)
                     else ordered)
        in (Inr (map (book_from_model lw) shown, length found), t))"

section \<open>Conversations and messages\<close>

definition fk_error :: "gostr db_error" where
  "fk_error = AppError (lit ''violates foreign key constraint'')"

definition insert_conversation :: "conversation_row \<Rightarrow> unit op" where
  "insert_conversation row t =
     (case insert_rows (\<lambda>r. co_id (cr_conversation r)) [row] (tb_conversations t) of
        Inl e \<Rightarrow> (Inl e, t)
      | Inr rows \<Rightarrow> (Inr (), t\<lparr>tb_conversations := rows\<rparr>))"

definition insert_message :: "message_row \<Rightarrow> unit op" where
  "insert_message row t =
     (case insert_rows (\<lambda>r. me_id (mr_message r)) [row] (tb_messages t) of
        Inl e \<Rightarrow> (Inl e, t)
      | Inr rows \<Rightarrow>
          if me_book_id (mr_message row) \<notin> set (map bo_id (tb_books t)) \<or>
             (case mr_conversation_id row of None \<Rightarrow> False
              | Some c \<Rightarrow> c \<notin> set (map (\<lambda>r. co_id (cr_conversation r)) (tb_conversations t)))
          then (Inl fk_error, t) else (Inr (), t\<lparr>tb_messages := rows\<rparr>))"

definition create_conversation :: "conversation \<Rightarrow> unit op" where
  "create_conversation c = insert_conversation (conversation_to_model c)"

definition get_conversation :: "gostr \<Rightarrow> conversation option op" where
  "get_conversation cid t =
     (Inr (map_option conversation_from_model
        (List.find (\<lambda>r. co_id (cr_conversation r) = cid) (tb_conversations t))), t)"

text \<open>The last message first, no message last, then by the update time.\<close>

definition conversation_rank :: "conversation_row \<Rightarrow> (int \<times> int) \<times> int" where
  "conversation_rank r =
     ((case co_last_message_at (cr_conversation r) of None \<Rightarrow> (1, 0) | Some x \<Rightarrow> (0, - x)),
      - co_updated_at (cr_conversation r))"

definition list_conversations_by_user :: "gostr \<Rightarrow> int \<Rightarrow> conversation list op" where
  "list_conversations_by_user uid limit t =
     (Inr (map conversation_from_model
        (take (if limit \<le> 0 then 100 else nat limit)
          (sort_key conversation_rank (filter (\<lambda>r. co_user_id (cr_conversation r) = uid) (tb_conversations t))))), t)"

definition touch_conversation :: "gotime \<Rightarrow> gostr \<Rightarrow> gotime option \<Rightarrow> conversation_row \<Rightarrow> conversation_row" where
  "touch_conversation now title last_at row =
     row\<lparr>cr_conversation := (cr_conversation row)\<lparr>
       co_updated_at := now,
       co_title := (if trim_space title \<noteq> [] then trim_space title else co_title (cr_conversation row)),
       co_last_message_at := (case last_at of None \<Rightarrow> co_last_message_at (cr_conversation row) | Some x \<Rightarrow> Some x)\<rparr>\<rparr>"

definition update_conversation :: "gotime \<Rightarrow> gostr \<Rightarrow> gostr \<Rightarrow> gotime \<Rightarrow> unit op" where
  "update_conversation now cid title last_at t =
     (Inr (), t\<lparr>tb_conversations := update_where (\<lambda>r. co_id (cr_conversation r) = cid)
        (touch_conversation now title (if is_zero last_at then None else Some last_at)) (tb_conversations t)\<rparr>)"

definition delete_conversation :: "gostr \<Rightarrow> unit op" where
  "delete_conversation cid0 t =
     (let cid = trim_space cid0 in
      if cid = [] then (Inr (), t)
      else (Inr (), delete_conversations (\<lambda>r. co_id (cr_conversation r) = cid)
                      (delete_messages (\<lambda>m. mr_conversation_id m = Some cid) t)))"

definition append_message :: "gostr \<Rightarrow> message \<Rightarrow> unit op" where
  "append_message bid m =
     (let row = message_to_model m in insert_message (row\<lparr>mr_message := (mr_message row)\<lparr>me_book_id := bid\<rparr>\<rparr>))"

definition append_conversation_message :: "gostr \<Rightarrow> message \<Rightarrow> unit op" where
  "append_conversation_message cid m = insert_message ((message_to_model m)\<lparr>mr_conversation_id := Some cid\<rparr>)"

definition save_conversation_exchange ::
  "gotime \<Rightarrow> conversation \<Rightarrow> bool \<Rightarrow> message \<Rightarrow> message \<Rightarrow> idem_record option \<Rightarrow> unit op" where
  "save_conversation_exchange now c create user_msg assistant_msg record t =
     (case (if create then create_conversation c t else (Inr (), t)) of
        (Inl e, t1) \<Rightarrow> (Inl e, t1)
      | (Inr _, t1) \<Rightarrow>
     (case insert_message (message_to_model user_msg) t1 of
        (Inl e, t2) \<Rightarrow> (Inl e, t2)
      | (Inr _, t2) \<Rightarrow>
     (case insert_message (message_to_model assistant_msg) t2 of
        (Inl e, t3) \<Rightarrow> (Inl e, t3)
      | (Inr _, t3) \<Rightarrow>
          let t4 = t3\<lparr>tb_conversations := update_where (\<lambda>r. co_id (cr_conversation r) = co_id c)
                    (touch_conversation now (co_title c) (Some (me_created_at assistant_msg))) (tb_conversations t3)\<rparr>
          in case record of None \<Rightarrow> (Inr (), t4) | Some r \<Rightarrow> save_idempotency_record r t4)))"

text \<open>The latest messages, in chronological order.\<close>

definition latest_messages :: "int \<Rightarrow> message_row list \<Rightarrow> message list" where
  "latest_messages limit rows =
     map message_from_model
       (rev (take (nat limit) (rev (sort_key (\<lambda>r. me_created_at (mr_message r)) rows))))"

definition list_messages :: "gostr \<Rightarrow> int \<Rightarrow> message list op" where
  "list_messages bid limit t =
     (if limit \<le> 0 then (Inr [], t)
      else (Inr (latest_messages limit (filter (\<lambda>r. me_book_id (mr_message r) = bid) (tb_messages t))), t))"

definition list_conversation_messages :: "gostr \<Rightarrow> int \<Rightarrow> message list op" where
  "list_conversation_messages cid limit t =
     (let rows = filter (\<lambda>r. mr_conversation_id r = Some cid) (tb_messages t) in
      (Inr (if 0 < limit then latest_messages limit rows
            else map message_from_model (sort_key (\<lambda>r. me_created_at (mr_message r)) rows)), t))"

section \<open>Chunks and their index status\<close>

definition chunk_language :: "unicode \<Rightarrow> chunk \<Rightarrow> gostr" where
  "chunk_language u c =
     (let language = normalize_book_language (un_lower u) (meta_get (ch_metadata c) (lit ''language'')) in
      if language = lit ''unknown'' then normalize_book_language (un_lower u) (detect_language u (ch_content c))
      else language)"

text \<open>The first language with the most chunks.\<close>

definition summarize_book_language :: "unicode \<Rightarrow> chunk list \<Rightarrow> gostr" where
  "summarize_book_language u chunks =
     (if chunks = [] then lit ''unknown''
      else
        let count = (\<lambda>l. int (length (filter (\<lambda>c. chunk_language u c = l) chunks))) in
        fst (fold (\<lambda>l (best, n). if n < count l then (l, count l) else (best, n))
               (map lit [''zh'', ''en'', ''other'', ''unknown'']) (lit ''unknown'', - 1)))"

definition pending_status :: "gotime \<Rightarrow> gostr \<Rightarrow> chunk \<Rightarrow> chunk_index_status" where
  "pending_status now bid c =
     \<lparr>ci_chunk_id = ch_id c, ci_book_id = bid,
      ci_content_sha = trim_space (meta_get (ch_metadata c) (lit ''content_sha256'')),
      ci_embedding_model = [], ci_embedding_dim = 0, ci_open_search = SyncPending, ci_open_search_at = None,
      ci_qdrant = SyncPending, ci_qdrant_at = None, ci_last_error = [], ci_created_at = now, ci_updated_at = now\<rparr>"

definition replace_chunks :: "unicode \<Rightarrow> gotime \<Rightarrow> gostr \<Rightarrow> chunk list \<Rightarrow> unit op" where
  "replace_chunks u now bid chunks t =
     (let t1 = delete_chunks (\<lambda>c. ch_book_id c = bid)
                 (t\<lparr>tb_index_statuses := filter (\<lambda>i. ci_book_id i \<noteq> bid) (tb_index_statuses t)\<rparr>);
          t2 = t1\<lparr>tb_books := update_where (\<lambda>b. bo_id b = bid)
                 (\<lambda>b. b\<lparr>bo_language := summarize_book_language u chunks, bo_updated_at := now\<rparr>) (tb_books t1)\<rparr>
      in if chunks = [] then (Inr (), t2)
         else
           case insert_rows ch_id (map (\<lambda>c. c\<lparr>ch_book_id := bid\<rparr>) chunks) (tb_chunks t2) of
             Inl e \<Rightarrow> (Inl e, t2)
           | Inr cs \<Rightarrow>
               if bid \<notin> set (map bo_id (tb_books t2)) then (Inl fk_error, t2)
               else
                 (case insert_rows ci_chunk_id (map (pending_status now bid) chunks) (tb_index_statuses t2) of
                    Inl e \<Rightarrow> (Inl e, t2)
                  | Inr ss \<Rightarrow> (Inr (), t2\<lparr>tb_chunks := cs, tb_index_statuses := ss\<rparr>)))"

definition list_chunks_by_book :: "gostr \<Rightarrow> chunk list op" where
  "list_chunks_by_book bid t = (Inr (sort_key ch_created_at (filter (\<lambda>c. ch_book_id c = bid) (tb_chunks t))), t)"

definition get_chunks_by_ids :: "gostr list \<Rightarrow> chunk list op" where
  "get_chunks_by_ids ids t =
     (Inr (concat (map (\<lambda>i. case List.find (\<lambda>c. ch_id c = i) (tb_chunks t) of None \<Rightarrow> [] | Some c \<Rightarrow> [c])
             (uniq_loop {} ids))), t)"

definition list_chunk_index_statuses_by_book :: "gostr \<Rightarrow> chunk_index_status list op" where
  "list_chunk_index_statuses_by_book bid t =
     (Inr (sort_key ci_updated_at (filter (\<lambda>i. ci_book_id i = bid) (tb_index_statuses t))), t)"

definition sync_error :: "sync_status \<Rightarrow> gostr \<Rightarrow> chunk_index_status \<Rightarrow> chunk_index_status" where
  "sync_error status err_msg i =
     i\<lparr>ci_last_error := (case status of SyncSynced \<Rightarrow> [] | SyncFailed \<Rightarrow> trim_space err_msg | SyncPending \<Rightarrow> ci_last_error i)\<rparr>"

definition update_chunk_index_status ::
  "gotime \<Rightarrow> gostr list \<Rightarrow> index_backend \<Rightarrow> sync_status \<Rightarrow> gostr \<Rightarrow> int \<Rightarrow> gostr \<Rightarrow> unit op" where
  "update_chunk_index_status now chunk_ids backend status model dimension err_msg t =
     (let clean = uniq_loop {} chunk_ids;
          base = (\<lambda>i. i\<lparr>ci_embedding_model := trim_space model, ci_embedding_dim := dimension, ci_updated_at := now\<rparr>);
          write = (\<lambda>f. (Inr (), t\<lparr>tb_index_statuses :=
                     update_where (\<lambda>i. ci_chunk_id i \<in> set clean) (\<lambda>i. f (sync_error status err_msg (base i)))
                       (tb_index_statuses t)\<rparr>))
      in if clean = [] then (Inr (), t)
         else
           case backend of
             OpenSearch \<Rightarrow>
               write (\<lambda>i. i\<lparr>ci_open_search := status,
                           ci_open_search_at := (if status = SyncSynced then Some now else ci_open_search_at i)\<rparr>)
           | Qdrant \<Rightarrow>
               write (\<lambda>i. i\<lparr>ci_qdrant := status,
                           ci_qdrant_at := (if status = SyncSynced then Some now else ci_qdrant_at i)\<rparr>)
           | OtherBackend b \<Rightarrow> (Inl (AppError (lit ''unknown chunk index backend: '' @ b)), t))"

section \<open>Idempotency records and the outbox\<close>

definition get_idempotency_record :: "gostr \<Rightarrow> gostr \<Rightarrow> gostr \<Rightarrow> idem_record option op" where
  "get_idempotency_record scope actor key t =
     (Inr (List.find (\<lambda>r. idem_triple r = (trim_space scope, trim_space actor, trim_space key)) (tb_idempotency t)), t)"

definition claimable :: "gostr \<Rightarrow> gotime \<Rightarrow> gotime \<Rightarrow> outbox_message \<Rightarrow> bool" where
  "claimable topic now stale_before m \<longleftrightarrow>
     om_topic m = topic \<and> om_dispatched_at m = None \<and> om_available_at m \<le> now \<and>
     (case om_locked_at m of None \<Rightarrow> True | Some x \<Rightarrow> x < stale_before)"

definition lock_message :: "gotime \<Rightarrow> outbox_message \<Rightarrow> outbox_message" where
  "lock_message now m =
     m\<lparr>om_locked_at := Some now, om_updated_at := now, om_attempts := om_attempts m + 1, om_last_error := []\<rparr>"

definition claim_outbox_messages :: "gotime \<Rightarrow> gostr \<Rightarrow> int \<Rightarrow> duration \<Rightarrow> outbox_message list op" where
  "claim_outbox_messages now topic limit lease t =
     (let stale_before = now - (if lease \<le> 0 then 30 * second else lease);
          models = take (default_limit limit)
            (sort_key om_available_at (filter (claimable (trim_space topic) now stale_before) (tb_outbox t)));
          ids = map om_id models
      in (Inr (map (lock_message now) models),
          t\<lparr>tb_outbox := update_where (\<lambda>m. om_id m \<in> set ids) (lock_message now) (tb_outbox t)\<rparr>))"

definition mark_outbox_dispatched :: "gotime \<Rightarrow> gostr \<Rightarrow> unit op" where
  "mark_outbox_dispatched now mid t =
     (Inr (), t\<lparr>tb_outbox := update_where (\<lambda>m. om_id m = trim_space mid)
        (\<lambda>m. m\<lparr>om_dispatched_at := Some now, om_locked_at := None, om_updated_at := now, om_last_error := []\<rparr>)
        (tb_outbox t)\<rparr>)"

definition release_outbox_message :: "gotime \<Rightarrow> gostr \<Rightarrow> gostr \<Rightarrow> gotime \<Rightarrow> unit op" where
  "release_outbox_message now mid err_msg available_at t =
     (Inr (), t\<lparr>tb_outbox := update_where (\<lambda>m. om_id m = trim_space mid)
        (\<lambda>m. m\<lparr>om_locked_at := None,
                om_available_at := (if is_zero available_at then now else available_at),
                om_updated_at := now, om_last_error := trim_space err_msg\<rparr>)
        (tb_outbox t)\<rparr>)"

end
