(* ===== verification/BookFacts.thy ===== *)
theory BookFacts
  imports BookStore
begin

text \<open>
  What the operations of \<open>BookStore\<close> keep: the keys and foreign keys of the tables, the outbox
  messages that were dispatched, the books that were deleted.  The operations are also given as
  steps, so that these facts hold for every sequence of calls.
\<close>

section \<open>Keys and references\<close>

lemma update_where_keys: "(\<And>r. key (f r) = key r) \<Longrightarrow> map key (update_where P f rows) = map key rows"
  by (simp add: update_where_def)

lemma update_where_set: "set (update_where P f rows) = (\<lambda>r. if P r then f r else r) ` set rows"
  by (simp add: update_where_def)

lemma update_where_keys_set: "(\<And>r. key (f r) = key r) \<Longrightarrow> key ` set (update_where P f rows) = key ` set rows"
  using update_where_keys [of key f P rows] by (metis set_map)

lemma upsert_keys:
  assumes "\<And>r. key (f r new) = key r"
  shows "map key (upsert key f new rows) =
    (if key new \<in> set (map key rows) then map key rows else map key rows @ [key new])"
  by (simp add: upsert_def update_where_keys assms)

lemma upsert_distinct:
  "(\<And>r. key (f r new) = key r) \<Longrightarrow> distinct (map key rows) \<Longrightarrow> distinct (map key (upsert key f new rows))"
  by (simp add: upsert_keys)

lemma insert_rows_keys:
  "insert_rows key new rows = Inr rows' \<Longrightarrow>
   rows' = rows @ new \<and> distinct (map key new) \<and> set (map key new) \<inter> set (map key rows) = {}"
  unfolding insert_rows_def by (auto split: if_splits)

lemma insert_rows_distinct:
  "insert_rows key new rows = Inr rows' \<Longrightarrow> distinct (map key rows) \<Longrightarrow> distinct (map key rows')"
  by (drule insert_rows_keys) auto

lemma upsert_keys_subset:
  "(\<And>r. key (f r new) = key r) \<Longrightarrow> key ` set rows \<subseteq> key ` set (upsert key f new rows)"
  using upsert_keys [of key f new rows] by (metis Un_upper1 list.set_map order_refl set_append)

lemma distinct_map_filter_key: "distinct (map key rows) \<Longrightarrow> distinct (map key (filter P rows))"
  by (rule distinct_map_filter)

text \<open>The primary keys and the unique index of the tables.\<close>

definition keys_ok :: "tables \<Rightarrow> bool" where
  "keys_ok t \<longleftrightarrow>
     distinct (map bo_id (tb_books t)) \<and> distinct (map ch_id (tb_chunks t)) \<and>
     distinct (map ci_chunk_id (tb_index_statuses t)) \<and>
     distinct (map (\<lambda>r. co_id (cr_conversation r)) (tb_conversations t)) \<and>
     distinct (map (\<lambda>r. me_id (mr_message r)) (tb_messages t)) \<and>
     distinct (map ir_id (tb_idempotency t)) \<and> distinct (map idem_triple (tb_idempotency t)) \<and>
     distinct (map om_id (tb_outbox t))"

text \<open>The foreign keys.\<close>

definition refs_ok :: "tables \<Rightarrow> bool" where
  "refs_ok t \<longleftrightarrow>
     ch_book_id ` set (tb_chunks t) \<subseteq> bo_id ` set (tb_books t) \<and>
     ci_chunk_id ` set (tb_index_statuses t) \<subseteq> ch_id ` set (tb_chunks t) \<and>
     (\<lambda>r. me_book_id (mr_message r)) ` set (tb_messages t) \<subseteq> bo_id ` set (tb_books t) \<and>
     {c. \<exists>r\<in>set (tb_messages t). mr_conversation_id r = Some c} \<subseteq>
       (\<lambda>r. co_id (cr_conversation r)) ` set (tb_conversations t)"

definition tables_ok :: "tables \<Rightarrow> bool" where
  "tables_ok t \<longleftrightarrow> keys_ok t \<and> refs_ok t"

text \<open>What an operation on books, on records or on the outbox alone keeps.\<close>

lemma tables_ok_books:
  "tables_ok t \<Longrightarrow> distinct (map bo_id bs) \<Longrightarrow> bo_id ` set (tb_books t) \<subseteq> bo_id ` set bs \<Longrightarrow>
   tables_ok (t\<lparr>tb_books := bs\<rparr>)"
  unfolding tables_ok_def keys_ok_def refs_ok_def by (simp, meson order_trans)

lemma tables_ok_update_books:
  "tables_ok t \<Longrightarrow> (\<And>b. bo_id (f b) = bo_id b) \<Longrightarrow> tables_ok (t\<lparr>tb_books := update_where P f (tb_books t)\<rparr>)"
  by (rule tables_ok_books) (simp_all add: update_where_keys update_where_keys_set tables_ok_def keys_ok_def)

lemma tables_ok_outbox:
  "tables_ok t \<Longrightarrow> distinct (map om_id os) \<Longrightarrow> tables_ok (t\<lparr>tb_outbox := os\<rparr>)"
  unfolding tables_ok_def keys_ok_def refs_ok_def by auto

lemma tables_ok_statuses:
  "tables_ok t \<Longrightarrow> distinct (map ci_chunk_id is) \<Longrightarrow> ci_chunk_id ` set is \<subseteq> ch_id ` set (tb_chunks t) \<Longrightarrow>
   tables_ok (t\<lparr>tb_index_statuses := is\<rparr>)"
  unfolding tables_ok_def keys_ok_def refs_ok_def by auto

lemma tables_ok_conversations:
  "tables_ok t \<Longrightarrow> (\<And>r. co_id (cr_conversation (f r)) = co_id (cr_conversation r)) \<Longrightarrow>
   tables_ok (t\<lparr>tb_conversations := update_where P f (tb_conversations t)\<rparr>)"
  using update_where_keys [of "\<lambda>r. co_id (cr_conversation r)" f P "tb_conversations t"]
    update_where_keys_set [of "\<lambda>r. co_id (cr_conversation r)" f P "tb_conversations t"]
  unfolding tables_ok_def keys_ok_def refs_ok_def by simp

lemma save_book_ok:
  assumes "tables_ok t" "save_book lw b t = (Inr a, t')"
  shows "tables_ok t'"
proof -
  have "distinct (map bo_id (tb_books t))" using assms(1) by (simp add: tables_ok_def keys_ok_def)
  then have "tables_ok (t\<lparr>tb_books := upsert bo_id assign_book (book_to_model lw b) (tb_books t)\<rparr>)"
    by (intro tables_ok_books [OF assms(1)] upsert_distinct upsert_keys_subset) (simp_all add: assign_book_def)
  then show ?thesis using assms(2) by (simp add: save_book_def)
qed

lemma save_idem_ok:
  assumes "tables_ok t" "save_idempotency_record r t = (Inr a, t')"
  shows "tables_ok t'"
proof -
  define m where "m = idem_to_model r"
  have fresh: "\<forall>r\<in>set (tb_idempotency t). ir_id r = ir_id m \<or> idem_triple r \<noteq> idem_triple m"
    and t': "t' = t\<lparr>tb_idempotency := upsert ir_id assign_idem m (tb_idempotency t)\<rparr>"
    using assms(2) unfolding save_idempotency_record_def by (auto simp: Let_def m_def split: if_splits)
  have ids: "distinct (map ir_id (tb_idempotency t))" and tri: "distinct (map idem_triple (tb_idempotency t))"
    using assms(1) by (auto simp: tables_ok_def keys_ok_def)
  have 1: "distinct (map ir_id (upsert ir_id assign_idem m (tb_idempotency t)))"
    by (rule upsert_distinct [OF _ ids]) (simp add: assign_idem_def)
  have 2: "distinct (map idem_triple (upsert ir_id assign_idem m (tb_idempotency t)))"
  proof (cases "ir_id m \<in> set (map ir_id (tb_idempotency t))")
    case True
    have tr: "idem_triple (assign_idem r m) = idem_triple m" for r
      by (simp add: idem_triple_def assign_idem_def)
    have same: "r = r'" if "r \<in> set (tb_idempotency t)" "r' \<in> set (tb_idempotency t)" "ir_id r = ir_id r'" for r r'
      using ids that by (auto simp: distinct_map inj_on_def)
    have same': "r = r'" if "r \<in> set (tb_idempotency t)" "r' \<in> set (tb_idempotency t)" "idem_triple r = idem_triple r'" for r r'
      using tri that by (auto simp: distinct_map inj_on_def)
    have "inj_on (\<lambda>r. if ir_id r = ir_id m then idem_triple m else idem_triple r) (set (tb_idempotency t))"
      unfolding inj_on_def using same same' fresh by (metis (no_types, lifting))
    then have "distinct (map (\<lambda>r. if ir_id r = ir_id m then idem_triple m else idem_triple r) (tb_idempotency t))"
      using ids by (simp add: distinct_map)
    then have "distinct (map idem_triple (update_where (\<lambda>r. ir_id r = ir_id m) (\<lambda>r. assign_idem r m) (tb_idempotency t)))"
      by (simp add: update_where_def o_def tr if_distrib [of idem_triple] cong: if_cong)
    then show ?thesis using True ids tri by (simp add: upsert_def)
  next
    case False
    then have "idem_triple m \<notin> set (map idem_triple (tb_idempotency t))"
      using fresh by (metis (no_types, lifting) imageE image_eqI list.set_map)
    then show ?thesis using False tri by (simp add: upsert_def)
  qed
  show ?thesis using assms(1) 1 2 unfolding t' tables_ok_def keys_ok_def refs_ok_def by simp
qed

lemma add_outbox_ok: "tables_ok t \<Longrightarrow> tables_ok (add_outbox m t)"
  unfolding add_outbox_def Let_def
  by (auto intro!: tables_ok_outbox) (auto simp: tables_ok_def keys_ok_def)

lemma save_book_and_outbox_ok:
  assumes "tables_ok t" "save_book_and_outbox lw b r m t = (Inr a, t')"
  shows "tables_ok t'"
proof -
  define t1 where "t1 = snd (save_book lw b t)"
  have 1: "tables_ok t1" using save_book_ok [OF assms(1), of lw b "()" t1] by (simp add: t1_def save_book_def)
  obtain t2 where 2: "tables_ok t2" "t' = (case m of None \<Rightarrow> t2 | Some x \<Rightarrow> add_outbox x t2)"
    using assms(2) 1 save_idem_ok [OF 1] unfolding save_book_and_outbox_def t1_def [symmetric]
    by (auto simp: Let_def split: option.splits prod.splits sum.splits)
  then show ?thesis using add_outbox_ok by (auto split: option.splits)
qed

lemma delete_chunks_ok: "tables_ok t \<Longrightarrow> tables_ok (delete_chunks P t)"
proof -
  assume ok: "tables_ok t"
  have "ci_chunk_id i \<in> ch_id ` {c \<in> set (tb_chunks t). \<not> P c}"
    if "i \<in> set (tb_index_statuses t)" "\<forall>c. P c \<longrightarrow> c \<in> set (tb_chunks t) \<longrightarrow> ci_chunk_id i \<noteq> ch_id c" for i
  proof -
    have "ci_chunk_id i \<in> ch_id ` set (tb_chunks t)" using ok that(1) unfolding tables_ok_def refs_ok_def by auto
    then obtain c where c: "c \<in> set (tb_chunks t)" "ci_chunk_id i = ch_id c" by auto
    then have "\<not> P c" using that(2) by auto
    then show ?thesis using c by auto
  qed
  then show ?thesis using ok
    unfolding tables_ok_def keys_ok_def refs_ok_def delete_chunks_def Let_def
    by (simp add: distinct_map_filter_key image_subset_iff) blast
qed

lemma delete_messages_ok: "tables_ok t \<Longrightarrow> tables_ok (delete_messages P t)"
  unfolding tables_ok_def keys_ok_def refs_ok_def delete_messages_def
  by (simp add: distinct_map_filter_key image_subset_iff) blast

lemma delete_conversations_ok: "tables_ok t \<Longrightarrow> tables_ok (delete_conversations P t)"
proof -
  assume ok: "tables_ok t"
  have "c \<in> (\<lambda>r. co_id (cr_conversation r)) ` {r \<in> set (tb_conversations t). \<not> P r}"
    if "m \<in> set (tb_messages t)" "mr_conversation_id m = Some c"
      "\<forall>r. P r \<longrightarrow> r \<in> set (tb_conversations t) \<longrightarrow> mr_conversation_id m \<noteq> Some (co_id (cr_conversation r))" for m c
  proof -
    have "c \<in> (\<lambda>r. co_id (cr_conversation r)) ` set (tb_conversations t)"
      using ok that(1,2) unfolding tables_ok_def refs_ok_def by auto
    then obtain r where r: "r \<in> set (tb_conversations t)" "c = co_id (cr_conversation r)" by auto
    then have "\<not> P r" using that(2,3) by auto
    then show ?thesis using r by auto
  qed
  then show ?thesis using ok
    unfolding tables_ok_def keys_ok_def refs_ok_def delete_conversations_def Let_def
    by (simp add: distinct_map_filter_key image_subset_iff) blast
qed

lemma delete_book_rows_ok: "tables_ok t \<Longrightarrow> tables_ok (delete_book_rows bid t)"
proof -
  assume ok: "tables_ok t"
  define t1 where "t1 = delete_messages (\<lambda>m. me_book_id (mr_message m) = bid) (delete_chunks (\<lambda>c. ch_book_id c = bid) t)"
  have t1: "tables_ok t1" unfolding t1_def by (intro delete_messages_ok delete_chunks_ok ok)
  have none: "\<forall>c\<in>set (tb_chunks t1). ch_book_id c \<noteq> bid" "\<forall>m\<in>set (tb_messages t1). me_book_id (mr_message m) \<noteq> bid"
    by (auto simp: t1_def delete_messages_def delete_chunks_def Let_def)
  have books: "tb_books t1 = tb_books t" by (simp add: t1_def delete_messages_def delete_chunks_def Let_def)
  have "tables_ok (t1\<lparr>tb_books := filter (\<lambda>b. bo_id b \<noteq> bid) (tb_books t)\<rparr>)"
    using t1 none unfolding tables_ok_def keys_ok_def refs_ok_def books
    by (simp add: distinct_map_filter_key image_subset_iff) blast
  then show ?thesis using ok by (simp add: delete_book_rows_def t1_def)
qed

lemma delete_book_ok: "tables_ok t \<Longrightarrow> delete_book bid t = (Inr a, t') \<Longrightarrow> tables_ok t'"
  unfolding delete_book_def
  by (auto intro!: delete_book_rows_ok delete_messages_ok delete_conversations_ok delete_chunks_ok)

lemma insert_conversation_ok:
  assumes "tables_ok t" "insert_conversation r t = (Inr a, t')"
  shows "tables_ok t'"
proof -
  obtain rows where rows: "insert_rows (\<lambda>r. co_id (cr_conversation r)) [r] (tb_conversations t) = Inr rows"
    and t': "t' = t\<lparr>tb_conversations := rows\<rparr>"
    using assms(2) unfolding insert_conversation_def by (auto split: sum.splits)
  have "rows = tb_conversations t @ [r]" using insert_rows_keys [OF rows] by blast
  moreover have "distinct (map (\<lambda>r. co_id (cr_conversation r)) rows)"
    using insert_rows_distinct [OF rows] assms(1) by (simp add: tables_ok_def keys_ok_def)
  ultimately show ?thesis using assms(1) unfolding t' tables_ok_def keys_ok_def refs_ok_def by auto
qed

lemma insert_message_ok:
  assumes "tables_ok t" "insert_message r t = (Inr a, t')"
  shows "tables_ok t'"
proof -
  obtain rows where rows: "insert_rows (\<lambda>r. me_id (mr_message r)) [r] (tb_messages t) = Inr rows"
    and t': "t' = t\<lparr>tb_messages := rows\<rparr>" and b: "me_book_id (mr_message r) \<in> bo_id ` set (tb_books t)"
    and c: "\<And>c. mr_conversation_id r = Some c \<Longrightarrow> c \<in> (\<lambda>r. co_id (cr_conversation r)) ` set (tb_conversations t)"
    using assms(2) unfolding insert_message_def by (auto split: sum.splits if_splits option.splits)
  have "rows = tb_messages t @ [r]" using insert_rows_keys [OF rows] by blast
  moreover have "distinct (map (\<lambda>r. me_id (mr_message r)) rows)"
    using insert_rows_distinct [OF rows] assms(1) by (simp add: tables_ok_def keys_ok_def)
  ultimately show ?thesis using assms(1) b c unfolding t' tables_ok_def keys_ok_def refs_ok_def by auto
qed

lemma save_conversation_exchange_ok:
  assumes "tables_ok t" "save_conversation_exchange now c create m1 m2 r t = (Inr a, t')"
  shows "tables_ok t'"
proof -
  obtain t1 where t1: "(if create then create_conversation c t else (Inr (), t)) = (Inr (), t1)"
    using assms(2) unfolding save_conversation_exchange_def by (auto split: prod.splits sum.splits if_splits)
  then have ok1: "tables_ok t1" using assms(1) insert_conversation_ok by (auto simp: create_conversation_def split: if_splits)
  obtain t2 where t2: "insert_message (message_to_model m1) t1 = (Inr (), t2)"
    using assms(2) t1 unfolding save_conversation_exchange_def by (auto split: prod.splits sum.splits)
  obtain t3 where t3: "insert_message (message_to_model m2) t2 = (Inr (), t3)"
    using assms(2) t1 t2 unfolding save_conversation_exchange_def by (auto split: prod.splits sum.splits)
  have ok3: "tables_ok t3" by (rule insert_message_ok [OF insert_message_ok [OF ok1 t2] t3])
  define t4 where "t4 = t3\<lparr>tb_conversations := update_where (\<lambda>r. co_id (cr_conversation r) = co_id c)
     (touch_conversation now (co_title c) (Some (me_created_at m2))) (tb_conversations t3)\<rparr>"
  have ok4: "tables_ok t4" unfolding t4_def by (rule tables_ok_conversations [OF ok3]) (simp add: touch_conversation_def)
  show ?thesis using assms(2) t1 t2 t3 ok4 save_idem_ok [OF ok4]
    unfolding save_conversation_exchange_def by (auto simp: t4_def [symmetric] Let_def split: option.splits)
qed

lemma replace_chunks_ok:
  assumes "tables_ok t" "replace_chunks u now bid chunks t = (Inr a, t')"
  shows "tables_ok t'"
proof -
  define t0 where "t0 = t\<lparr>tb_index_statuses := filter (\<lambda>i. ci_book_id i \<noteq> bid) (tb_index_statuses t)\<rparr>"
  define t1 where "t1 = delete_chunks (\<lambda>c. ch_book_id c = bid) t0"
  define t2 where "t2 = t1\<lparr>tb_books := update_where (\<lambda>b. bo_id b = bid)
    (\<lambda>b. b\<lparr>bo_language := summarize_book_language u chunks, bo_updated_at := now\<rparr>) (tb_books t1)\<rparr>"
  have ok0: "tables_ok t0" unfolding t0_def
    by (rule tables_ok_statuses [OF assms(1)])
      (use assms(1) in \<open>auto simp: tables_ok_def keys_ok_def refs_ok_def distinct_map_filter_key\<close>)
  have ok1: "tables_ok t1" unfolding t1_def by (rule delete_chunks_ok [OF ok0])
  have ok2: "tables_ok t2" unfolding t2_def by (rule tables_ok_update_books [OF ok1]) simp
  show ?thesis
  proof (cases "chunks = []")
    case True
    then show ?thesis using assms(2) ok2 by (simp add: replace_chunks_def t0_def t1_def t2_def Let_def)
  next
    case False
    obtain cs st where cs: "insert_rows ch_id (map (\<lambda>c. c\<lparr>ch_book_id := bid\<rparr>) chunks) (tb_chunks t2) = Inr cs"
      and st: "insert_rows ci_chunk_id (map (pending_status now bid) chunks) (tb_index_statuses t2) = Inr st"
      and b: "bid \<in> bo_id ` set (tb_books t2)" and t': "t' = t2\<lparr>tb_chunks := cs, tb_index_statuses := st\<rparr>"
      using assms(2) False unfolding replace_chunks_def t0_def [symmetric] t1_def [symmetric] Let_def t2_def [symmetric]
      by (auto split: sum.splits if_splits)
    have cs': "cs = tb_chunks t2 @ map (\<lambda>c. c\<lparr>ch_book_id := bid\<rparr>) chunks" "distinct (map ch_id cs)"
      using insert_rows_keys [OF cs] insert_rows_distinct [OF cs] ok2 by (auto simp: tables_ok_def keys_ok_def)
    have st': "st = tb_index_statuses t2 @ map (pending_status now bid) chunks" "distinct (map ci_chunk_id st)"
      using insert_rows_keys [OF st] insert_rows_distinct [OF st] ok2 by (auto simp: tables_ok_def keys_ok_def)
    have ids: "ci_chunk_id ` set st \<subseteq> ch_id ` set cs"
      using ok2 unfolding st'(1) cs'(1) tables_ok_def refs_ok_def
      by (simp add: pending_status_def image_Un image_image) blast
    have books: "ch_book_id ` set cs \<subseteq> bo_id ` set (tb_books t2)"
      using ok2 b unfolding cs'(1) tables_ok_def refs_ok_def by (simp add: image_Un image_image image_subset_iff)
    show ?thesis using ok2 ids books cs'(2) st'(2) unfolding t' tables_ok_def keys_ok_def refs_ok_def by simp
  qed
qed

section \<open>The operations as steps\<close>

datatype store_op =
    OpSaveBook book
  | OpSaveBookAndOutbox book "idem_record option" "outbox_message option"
  | OpUpdateProfile gostr document_profile
  | OpSetStatus gostr book_status gostr
  | OpSetStatusIfGeneration gostr int book_status gostr
  | OpClaimCleanup int
  | OpMarkDeleted gostr cleanup_status
  | OpWriteCleanup gostr cleanup_status gostr
  | OpBumpAttempts gostr
  | OpDeleteBook gostr
  | OpCreateConversation conversation
  | OpUpdateConversation gostr gostr gotime
  | OpDeleteConversation gostr
  | OpAppendMessage gostr message
  | OpAppendConversationMessage gostr message
  | OpSaveExchange conversation bool message message "idem_record option"
  | OpReplaceChunks gostr "chunk list"
  | OpUpdateIndexStatus "gostr list" index_backend sync_status gostr int gostr
  | OpSaveIdempotency idem_record
  | OpClaimOutbox gostr int duration
  | OpMarkDispatched gostr
  | OpReleaseOutbox gostr gostr gotime

text \<open>The tables after one call at the time \<open>now\<close>; a call that fails leaves them as they are.\<close>

definition store_exec :: "unicode \<Rightarrow> gotime \<times> store_op \<Rightarrow> tables \<Rightarrow> tables" where
  "store_exec u = (\<lambda>(now, step) t.
     case step of
       OpSaveBook b \<Rightarrow> snd (atomically (save_book (un_lower u) b) t)
     | OpSaveBookAndOutbox b r m \<Rightarrow> snd (atomically (save_book_and_outbox (un_lower u) b r m) t)
     | OpUpdateProfile i p \<Rightarrow> snd (atomically (update_book_document_profile now i p) t)
     | OpSetStatus i s e \<Rightarrow> snd (atomically (set_status now i s e) t)
     | OpSetStatusIfGeneration i g s e \<Rightarrow> snd (atomically (set_status_if_generation now i g s e) t)
     | OpClaimCleanup k \<Rightarrow> snd (atomically (claim_books_pending_cleanup (un_lower u) now k) t)
     | OpMarkDeleted i s \<Rightarrow> snd (atomically (mark_book_deleted now i s) t)
     | OpWriteCleanup i s e \<Rightarrow> snd (atomically (write_book_cleanup now i s e) t)
     | OpBumpAttempts i \<Rightarrow> snd (atomically (bump_cleanup_attempts i) t)
     | OpDeleteBook i \<Rightarrow> snd (atomically (delete_book i) t)
     | OpCreateConversation c \<Rightarrow> snd (atomically (create_conversation c) t)
     | OpUpdateConversation i n x \<Rightarrow> snd (atomically (update_conversation now i n x) t)
     | OpDeleteConversation i \<Rightarrow> snd (atomically (delete_conversation i) t)
     | OpAppendMessage i m \<Rightarrow> snd (atomically (append_message i m) t)
     | OpAppendConversationMessage i m \<Rightarrow> snd (atomically (append_conversation_message i m) t)
     | OpSaveExchange c new m1 m2 r \<Rightarrow> snd (atomically (save_conversation_exchange now c new m1 m2 r) t)
     | OpReplaceChunks i cs \<Rightarrow> snd (atomically (replace_chunks u now i cs) t)
     | OpUpdateIndexStatus ids b s m d e \<Rightarrow> snd (atomically (update_chunk_index_status now ids b s m d e) t)
     | OpSaveIdempotency r \<Rightarrow> snd (atomically (save_idempotency_record r) t)
     | OpClaimOutbox n k l \<Rightarrow> snd (atomically (claim_outbox_messages now n k l) t)
     | OpMarkDispatched i \<Rightarrow> snd (atomically (mark_outbox_dispatched now i) t)
     | OpReleaseOutbox i e x \<Rightarrow> snd (atomically (release_outbox_message now i e x) t))"

definition empty_tables :: tables where
  "empty_tables = \<lparr>tb_books = [], tb_chunks = [], tb_index_statuses = [], tb_conversations = [], tb_messages = [],
     tb_idempotency = [], tb_outbox = []\<rparr>"

lemma tables_ok_update_outbox:
  "tables_ok t \<Longrightarrow> (\<And>m. om_id (f m) = om_id m) \<Longrightarrow> tables_ok (t\<lparr>tb_outbox := update_where P f (tb_outbox t)\<rparr>)"
  by (rule tables_ok_outbox) (simp_all add: update_where_keys tables_ok_def keys_ok_def)

lemma tables_ok_update_statuses:
  "tables_ok t \<Longrightarrow> (\<And>m. ci_chunk_id (f m) = ci_chunk_id m) \<Longrightarrow>
   tables_ok (t\<lparr>tb_index_statuses := update_where P f (tb_index_statuses t)\<rparr>)"
  by (rule tables_ok_statuses)
    (simp_all add: update_where_keys update_where_keys_set tables_ok_def keys_ok_def refs_ok_def)

lemmas update_ok = tables_ok_update_books tables_ok_update_outbox tables_ok_update_statuses tables_ok_conversations

lemma update_chunk_index_status_ok:
  "tables_ok t \<Longrightarrow> update_chunk_index_status now ids b s m d e t = (Inr a, t') \<Longrightarrow> tables_ok t'"
  unfolding update_chunk_index_status_def Let_def
  by (auto intro!: update_ok simp: sync_error_def split: if_splits index_backend.splits)

lemma delete_conversation_ok: "tables_ok t \<Longrightarrow> delete_conversation i t = (Inr a, t') \<Longrightarrow> tables_ok t'"
  unfolding delete_conversation_def Let_def
  by (auto intro!: delete_conversations_ok delete_messages_ok split: if_splits)

lemma append_message_ok: "tables_ok t \<Longrightarrow> append_message i m t = (Inr a, t') \<Longrightarrow> tables_ok t'"
  unfolding append_message_def Let_def by (rule insert_message_ok)

lemma append_conversation_message_ok:
  "tables_ok t \<Longrightarrow> append_conversation_message i m t = (Inr a, t') \<Longrightarrow> tables_ok t'"
  unfolding append_conversation_message_def by (rule insert_message_ok)

lemma create_conversation_ok: "tables_ok t \<Longrightarrow> create_conversation c t = (Inr a, t') \<Longrightarrow> tables_ok t'"
  unfolding create_conversation_def by (rule insert_conversation_ok)

lemma simple_ops_ok:
  assumes "tables_ok t"
  shows "update_book_document_profile now i p t = (Inr a, t') \<Longrightarrow> tables_ok t'"
    and "set_status now i s e t = (Inr a, t') \<Longrightarrow> tables_ok t'"
    and "set_status_if_generation now i g s e t = (Inr b, t') \<Longrightarrow> tables_ok t'"
    and "claim_books_pending_cleanup lw now k t = (Inr bs, t') \<Longrightarrow> tables_ok t'"
    and "mark_book_deleted now i cs t = (Inr a, t') \<Longrightarrow> tables_ok t'"
    and "write_book_cleanup now i cs e t = (Inr a, t') \<Longrightarrow> tables_ok t'"
    and "bump_cleanup_attempts i t = (Inr a, t') \<Longrightarrow> tables_ok t'"
    and "update_conversation now i n x t = (Inr a, t') \<Longrightarrow> tables_ok t'"
    and "claim_outbox_messages now n k l t = (Inr ms, t') \<Longrightarrow> tables_ok t'"
    and "mark_outbox_dispatched now i t = (Inr a, t') \<Longrightarrow> tables_ok t'"
    and "release_outbox_message now i e x t = (Inr a, t') \<Longrightarrow> tables_ok t'"
  using assms
  by (auto simp: update_book_document_profile_def set_status_def set_status_if_generation_def
      claim_books_pending_cleanup_def mark_book_deleted_def write_book_cleanup_def bump_cleanup_attempts_def
      update_conversation_def claim_outbox_messages_def mark_outbox_dispatched_def release_outbox_message_def
      start_cleanup_def touch_conversation_def lock_message_def Let_def intro!: update_ok)

lemma store_exec_ok: "tables_ok t \<Longrightarrow> tables_ok (store_exec u (now, step) t)"
  unfolding store_exec_def
  by (cases step; simp; rule atomically_inv;
      (assumption | erule (1) save_book_ok save_book_and_outbox_ok simple_ops_ok delete_book_ok create_conversation_ok
         delete_conversation_ok append_message_ok append_conversation_message_ok save_conversation_exchange_ok
         replace_chunks_ok update_chunk_index_status_ok save_idem_ok))

lemma tables_always_ok: "tables_ok (fold (store_exec u) steps empty_tables)"
proof -
  have "tables_ok (fold (store_exec u) steps t)" if "tables_ok t" for t
    using that by (induction steps arbitrary: t) (auto simp: store_exec_ok)
  moreover have "tables_ok empty_tables" by (simp add: tables_ok_def keys_ok_def refs_ok_def empty_tables_def)
  ultimately show ?thesis by blast
qed

section \<open>Searching, claiming and replacing\<close>

lemma like_exact: "\<forall>r\<in>set q. r \<noteq> 37 \<and> r \<noteq> 95 \<and> r \<noteq> 92 \<Longrightarrow> like (q @ [37]) s \<longleftrightarrow> (\<exists>r. s = q @ r)"
proof (induction q arbitrary: s)
  case Nil
  have "like [37] s" for s by (induction s) auto
  then show ?case by simp
next
  case (Cons p q)
  then show ?case by (cases s) auto
qed

lemma like_anywhere:
  assumes "\<forall>r\<in>set q. r \<noteq> 37 \<and> r \<noteq> 95 \<and> r \<noteq> 92"
  shows "like (37 # q @ [37]) s \<longleftrightarrow> (\<exists>p r. s = p @ q @ r)"
proof (induction s)
  case Nil
  then show ?case using like_exact [OF assms, of "[]"] by simp
next
  case (Cons c s)
  have "like (37 # q @ [37]) (c # s) \<longleftrightarrow> (\<exists>r. c # s = q @ r) \<or> (\<exists>p r. s = p @ q @ r)"
    using Cons.IH like_exact [OF assms, of "c # s"] by simp
  also have "\<dots> \<longleftrightarrow> (\<exists>p r. c # s = p @ q @ r)"
    by (metis append_Cons append_Nil append_eq_Cons_conv)
  finally show ?case .
qed

definition dispatched :: "gostr \<Rightarrow> tables \<Rightarrow> bool" where
  "dispatched mid t \<longleftrightarrow> (\<exists>m\<in>set (tb_outbox t). om_id m = mid \<and> om_dispatched_at m \<noteq> None)"

lemma dispatched_keep:
  assumes "dispatched mid t"
    and "set (tb_outbox t') = f ` set (tb_outbox t)"
    and "\<And>m. om_id (f m) = om_id m" "\<And>m. om_dispatched_at m \<noteq> None \<Longrightarrow> om_dispatched_at (f m) \<noteq> None"
  shows "dispatched mid t'"
  using assms unfolding dispatched_def by force

lemma dispatched_same: "tb_outbox t' = tb_outbox t \<Longrightarrow> dispatched mid t \<Longrightarrow> dispatched mid t'"
  by (simp add: dispatched_def)

lemma dispatched_update:
  assumes "dispatched mid t" "tb_outbox t' = update_where P f (tb_outbox t)"
    and "\<And>m. om_id (f m) = om_id m" "\<And>m. om_dispatched_at m \<noteq> None \<Longrightarrow> om_dispatched_at (f m) \<noteq> None"
  shows "dispatched mid t'"
  by (rule dispatched_keep [OF assms(1), where f = "\<lambda>r. if P r then f r else r"]) (use assms in \<open>auto simp: update_where_set\<close>)

lemma dispatched_add: "dispatched mid t \<Longrightarrow> dispatched mid (add_outbox m t)"
  by (auto simp: dispatched_def add_outbox_def Let_def)

text \<open>The operations that leave the outbox alone.\<close>

lemma outbox_same [simp]:
  "tb_outbox (snd (save_book lw b t)) = tb_outbox t"
  "tb_outbox (snd (save_idempotency_record r t)) = tb_outbox t"
  "tb_outbox (delete_chunks P t) = tb_outbox t"
  "tb_outbox (delete_messages Q t) = tb_outbox t"
  "tb_outbox (delete_conversations R t) = tb_outbox t"
  "tb_outbox (delete_book_rows bid t) = tb_outbox t"
  by (simp_all add: save_book_def save_idempotency_record_def delete_chunks_def delete_messages_def
      delete_conversations_def delete_book_rows_def Let_def)

lemma outbox_same_insert [simp]:
  "tb_outbox (snd (insert_message r t)) = tb_outbox t"
  "tb_outbox (snd (insert_conversation c t)) = tb_outbox t"
  by (simp_all add: insert_message_def insert_conversation_def split: sum.splits)

lemma outbox_same_exchange [simp]: "tb_outbox (snd (save_conversation_exchange now c new m1 m2 r t)) = tb_outbox t"
proof -
  have i: "insert_message m t = (x, t') \<Longrightarrow> tb_outbox t' = tb_outbox t" for m t x t'
    by (metis outbox_same_insert(1) snd_conv)
  have c: "create_conversation c t = (x, t') \<Longrightarrow> tb_outbox t' = tb_outbox t" for x t'
    by (metis create_conversation_def outbox_same_insert(2) snd_conv)
  show ?thesis unfolding save_conversation_exchange_def
    by (auto split: prod.splits sum.splits option.splits if_splits simp: Let_def dest!: i c)
qed

lemma outbox_same_replace [simp]: "tb_outbox (snd (replace_chunks u now bid cs t)) = tb_outbox t"
  by (simp add: replace_chunks_def Let_def split: sum.splits)

lemma dispatched_atomically: "dispatched mid t \<Longrightarrow> dispatched mid (snd (f t)) \<Longrightarrow> dispatched mid (snd (atomically f t))"
  by (auto simp: atomically_def split: prod.splits sum.splits)

lemma dispatched_save_and_outbox:
  assumes "dispatched mid t"
  shows "dispatched mid (snd (save_book_and_outbox lw b r m t))"
proof -
  define t1 where "t1 = snd (save_book lw b t)"
  have 1: "dispatched mid t1" using assms by (simp add: t1_def dispatched_def)
  have "dispatched mid (snd (save_idempotency_record x t1))" for x using 1 by (simp add: dispatched_def)
  then have 2: "save_idempotency_record x t1 = (y, t2) \<Longrightarrow> dispatched mid t2" for x y t2 by (metis snd_conv)
  show ?thesis unfolding save_book_and_outbox_def t1_def [symmetric] Let_def
    using 1 2 dispatched_add by (auto split: option.splits prod.splits sum.splits)
qed

lemma outbox_same_ops [simp]:
  "tb_outbox (snd (update_book_document_profile now i p t)) = tb_outbox t"
  "tb_outbox (snd (set_status now i s e t)) = tb_outbox t"
  "tb_outbox (snd (set_status_if_generation now i g s e t)) = tb_outbox t"
  "tb_outbox (snd (claim_books_pending_cleanup lw now k t)) = tb_outbox t"
  "tb_outbox (snd (mark_book_deleted now i cs t)) = tb_outbox t"
  "tb_outbox (snd (write_book_cleanup now i cs e t)) = tb_outbox t"
  "tb_outbox (snd (bump_cleanup_attempts i t)) = tb_outbox t"
  "tb_outbox (snd (update_conversation now i n x t)) = tb_outbox t"
  "tb_outbox (snd (delete_book i t)) = tb_outbox t"
  "tb_outbox (snd (create_conversation c t)) = tb_outbox t"
  "tb_outbox (snd (delete_conversation i t)) = tb_outbox t"
  "tb_outbox (snd (append_message i m t)) = tb_outbox t"
  "tb_outbox (snd (append_conversation_message i m t)) = tb_outbox t"
  "tb_outbox (snd (update_chunk_index_status now ids b ss md d e t)) = tb_outbox t"
  by (simp_all add: update_book_document_profile_def set_status_def set_status_if_generation_def
      claim_books_pending_cleanup_def mark_book_deleted_def write_book_cleanup_def bump_cleanup_attempts_def
      update_conversation_def delete_book_def create_conversation_def delete_conversation_def append_message_def
      append_conversation_message_def update_chunk_index_status_def Let_def split: index_backend.splits)

lemma dispatched_claim: "dispatched mid t \<Longrightarrow> dispatched mid (snd (claim_outbox_messages now n k l t))"
  by (rule dispatched_update [where f = "lock_message now"])
    (assumption, simp add: claim_outbox_messages_def Let_def, simp_all add: lock_message_def)

lemma dispatched_mark: "dispatched mid t \<Longrightarrow> dispatched mid (snd (mark_outbox_dispatched now i t))"
  by (rule dispatched_update) (assumption, simp add: mark_outbox_dispatched_def, simp_all)

lemma dispatched_release: "dispatched mid t \<Longrightarrow> dispatched mid (snd (release_outbox_message now i e x t))"
  by (rule dispatched_update) (assumption, simp add: release_outbox_message_def, simp_all)

lemma dispatched_exec: "dispatched mid t \<Longrightarrow> dispatched mid (store_exec u (now, step) t)"
  unfolding store_exec_def
  by (cases step; simp; rule dispatched_atomically, assumption;
      (rule dispatched_claim dispatched_mark dispatched_release dispatched_save_and_outbox, assumption | rule dispatched_same, simp, assumption))

lemma dispatched_steps: "dispatched mid t \<Longrightarrow> dispatched mid (fold (store_exec u) steps t)"
  by (induction steps arbitrary: t) (auto simp: dispatched_exec)

text \<open>A claim takes rows that may be claimed, and locks exactly them.\<close>

lemma claim_rows:
  assumes "claim_outbox_messages now topic limit lease t = (Inr ms, t')"
  obtains rows where "ms = map (lock_message now) rows" "set rows \<subseteq> set (tb_outbox t)"
    "\<forall>m\<in>set rows. claimable (trim_space topic) now (now - (if lease \<le> 0 then 30 * second else lease)) m"
    "length rows \<le> default_limit limit"
    "tb_outbox t' = update_where (\<lambda>m. om_id m \<in> om_id ` set rows) (lock_message now) (tb_outbox t)"
proof -
  define rows where "rows = take (default_limit limit) (sort_key om_available_at
    (filter (claimable (trim_space topic) now (now - (if lease \<le> 0 then 30 * second else lease))) (tb_outbox t)))"
  show ?thesis
  proof (rule that [of rows])
    show "set rows \<subseteq> set (tb_outbox t)" "\<forall>m\<in>set rows. claimable (trim_space topic) now (now - (if lease \<le> 0 then 30 * second else lease)) m"
      unfolding rows_def by (auto dest: in_set_takeD)
    show "length rows \<le> default_limit limit" by (simp add: rows_def)
  qed (use assms in \<open>auto simp: claim_outbox_messages_def Let_def rows_def\<close>)
qed

definition saves :: "gostr \<Rightarrow> store_op \<Rightarrow> bool" where
  "saves bid step \<longleftrightarrow> (case step of OpSaveBook b \<Rightarrow> bo_id b = bid | OpSaveBookAndOutbox b r m \<Rightarrow> bo_id b = bid | _ \<Rightarrow> False)"

definition hidden :: "gostr \<Rightarrow> tables \<Rightarrow> bool" where
  "hidden bid t \<longleftrightarrow> (\<forall>b\<in>set (tb_books t). bo_id b = bid \<longrightarrow> \<not> live b)"

lemma hidden_same: "tb_books t' = tb_books t \<Longrightarrow> hidden bid t \<Longrightarrow> hidden bid t'"
  by (simp add: hidden_def)

lemma hidden_update:
  assumes "hidden bid t" "tb_books t' = update_where P f (tb_books t)"
    and "\<And>b. bo_id (f b) = bo_id b" "\<And>b. P b \<Longrightarrow> \<not> live b \<Longrightarrow> \<not> live (f b)"
  shows "hidden bid t'"
  using assms unfolding hidden_def by (auto simp: update_where_set)

lemma hidden_upsert:
  "hidden bid t \<Longrightarrow> bo_id b \<noteq> bid \<Longrightarrow> hidden bid (snd (save_book lw b t))"
  by (auto simp: hidden_def save_book_def upsert_def update_where_set assign_book_def book_to_model_def)

lemma hidden_subset: "hidden bid t \<Longrightarrow> set (tb_books t') \<subseteq> set (tb_books t) \<Longrightarrow> hidden bid t'"
  by (auto simp: hidden_def)

lemma books_same [simp]:
  "tb_books (snd (save_idempotency_record r t)) = tb_books t"
  "tb_books (add_outbox m t) = tb_books t"
  "tb_books (delete_chunks P t) = tb_books t"
  "tb_books (delete_messages Q t) = tb_books t"
  "tb_books (delete_conversations R t) = tb_books t"
  "tb_books (snd (insert_message mr t)) = tb_books t"
  "tb_books (snd (insert_conversation cr t)) = tb_books t"
  "tb_books (snd (update_conversation now i n x t)) = tb_books t"
  "tb_books (snd (update_chunk_index_status now ids b ss md d e t)) = tb_books t"
  "tb_books (snd (claim_outbox_messages now n k l t)) = tb_books t"
  "tb_books (snd (mark_outbox_dispatched now i t)) = tb_books t"
  "tb_books (snd (release_outbox_message now i e x t)) = tb_books t"
  by (simp_all add: save_idempotency_record_def add_outbox_def delete_chunks_def delete_messages_def
      delete_conversations_def insert_message_def insert_conversation_def update_conversation_def
      update_chunk_index_status_def claim_outbox_messages_def mark_outbox_dispatched_def release_outbox_message_def
      Let_def split: sum.splits index_backend.splits)

lemma books_same_exchange [simp]: "tb_books (snd (save_conversation_exchange now c new m1 m2 r t)) = tb_books t"
proof -
  have i: "insert_message m t = (x, t') \<Longrightarrow> tb_books t' = tb_books t" for m t x t'
    by (metis books_same(6) snd_conv)
  have c: "create_conversation c t = (x, t') \<Longrightarrow> tb_books t' = tb_books t" for x t'
    by (metis create_conversation_def books_same(7) snd_conv)
  show ?thesis unfolding save_conversation_exchange_def
    by (auto split: prod.splits sum.splits option.splits if_splits simp: Let_def dest!: i c)
qed

lemma books_same_ops [simp]:
  "tb_books (snd (create_conversation c t)) = tb_books t"
  "tb_books (snd (delete_conversation i t)) = tb_books t"
  "tb_books (snd (append_message i m t)) = tb_books t"
  "tb_books (snd (append_conversation_message i m t)) = tb_books t"
  by (simp_all add: create_conversation_def delete_conversation_def append_message_def
      append_conversation_message_def Let_def)

lemma hidden_atomically: "hidden bid t \<Longrightarrow> hidden bid (snd (f t)) \<Longrightarrow> hidden bid (snd (atomically f t))"
  by (auto simp: atomically_def split: prod.splits sum.splits)

lemma hidden_save_and_outbox:
  assumes "hidden bid t" "bo_id b \<noteq> bid"
  shows "hidden bid (snd (save_book_and_outbox lw b r m t))"
proof -
  define t1 where "t1 = snd (save_book lw b t)"
  have 1: "hidden bid t1" using hidden_upsert [OF assms] by (simp add: t1_def)
  have 2: "save_idempotency_record x t1 = (y, t2) \<Longrightarrow> tb_books t2 = tb_books t1" for x y t2
    by (metis books_same(1) snd_conv)
  have "tb_books (snd (save_book_and_outbox lw b r m t)) = tb_books t1"
    unfolding save_book_and_outbox_def t1_def [symmetric] Let_def
    using 2 by (auto split: option.splits prod.splits sum.splits)
  then show ?thesis using 1 by (rule hidden_same)
qed

lemma hidden_book_ops:
  assumes "hidden bid t"
  shows "hidden bid (snd (update_book_document_profile now i p t))" and "hidden bid (snd (set_status now i s e t))"
    and "hidden bid (snd (set_status_if_generation now i g s e t))"
    and "hidden bid (snd (claim_books_pending_cleanup lw now k t))" and "hidden bid (snd (mark_book_deleted now i cs t))"
    and "hidden bid (snd (write_book_cleanup now i cs e t))" and "hidden bid (snd (bump_cleanup_attempts i t))"
    and "hidden bid (snd (delete_book i t))"
  using assms
  by (auto simp: update_book_document_profile_def set_status_def set_status_if_generation_def
      claim_books_pending_cleanup_def mark_book_deleted_def write_book_cleanup_def bump_cleanup_attempts_def
      delete_book_def delete_book_rows_def start_cleanup_def live_def hidden_def update_where_set Let_def)

lemma hidden_replace: "hidden bid t \<Longrightarrow> hidden bid (snd (replace_chunks u now i cs t))"
  by (rule hidden_update [where P = "\<lambda>b. bo_id b = i" and f = "\<lambda>b. b\<lparr>bo_language := summarize_book_language u cs, bo_updated_at := now\<rparr>"])
    (assumption, simp_all add: replace_chunks_def live_def Let_def split: sum.splits)

lemma hidden_exec: "hidden bid t \<Longrightarrow> \<not> saves bid step \<Longrightarrow> hidden bid (store_exec u (now, step) t)"
  unfolding store_exec_def
  by (cases step; simp add: saves_def; rule hidden_atomically, assumption;
      (rule hidden_book_ops hidden_replace hidden_upsert hidden_save_and_outbox; assumption | rule hidden_same, simp, assumption))

lemma hidden_steps:
  "hidden bid t \<Longrightarrow> \<forall>e\<in>set steps. \<not> saves bid (snd e) \<Longrightarrow> hidden bid (fold (store_exec u) steps t)"
proof (induction steps arbitrary: t)
  case (Cons e steps)
  obtain now step where e: "e = (now, step)" by (cases e)
  have "hidden bid (store_exec u e t)" unfolding e
    by (rule hidden_exec [OF Cons.prems(1)]) (use Cons.prems(2) in \<open>simp add: e\<close>)
  then show ?case using Cons by simp
qed simp

section \<open>A store on a concrete input\<close>

definition demo_book :: book where
  "demo_book = \<lparr>bo_id = [1], bo_owner_id = [2], bo_title = [97], bo_original_filename = [97], bo_primary_category = [],
     bo_tags = [], bo_format = [], bo_language = [], bo_document_type = [], bo_document_summary = [],
     bo_first_page_text = [], bo_keywords = [], bo_entities = [], bo_facts = [], bo_storage_key = [3],
     bo_status = BookQueued, bo_error_message = [], bo_size_bytes = 1, bo_created_at = 0, bo_updated_at = 0,
     bo_deleted_at = None, bo_cleanup_status = None, bo_cleanup_error = [], bo_cleanup_attempts = 0,
     bo_cleanup_updated_at = None, bo_generation = 1\<rparr>"

definition demo_message :: outbox_message where
  "demo_message = \<lparr>om_id = [7], om_topic = [8], om_resource_type = [], om_resource_id = [1], om_payload = Some ([1], 1),
     om_attempts = 0, om_last_error = [], om_available_at = 0, om_locked_at = None, om_dispatched_at = None,
     om_created_at = 0, om_updated_at = 0\<rparr>"

definition demo_tables :: tables where
  "demo_tables = empty_tables\<lparr>tb_books := [demo_book], tb_outbox := [demo_message]\<rparr>"

lemma demo_tables_ok: "tables_ok demo_tables"
  by (simp add: tables_ok_def keys_ok_def refs_ok_def demo_tables_def empty_tables_def)

lemma trim_word1: "\<not> is_space n \<Longrightarrow> trim_space [n] = [n]"
  by (simp add: trims)

lemma demo_claim:
  "claim_outbox_messages now [8] 1 0 demo_tables =
     (Inr (if 0 \<le> now then [lock_message now demo_message] else []),
      demo_tables\<lparr>tb_outbox := [if 0 \<le> now then lock_message now demo_message else demo_message]\<rparr>)"
  by (simp add: claim_outbox_messages_def demo_tables_def demo_message_def claimable_def trims is_space_def
      default_limit_def update_where_def Let_def)

section \<open>Properties\<close>

text \<open>Whatever calls the store gets, in whatever order and at whatever times, the tables keep their
  primary keys, the unique index on the scope, the actor and the key of a record, and their foreign keys.
  A call that is lost is no step, one whose reply is lost is a step.\<close>

theorem store_invariant: "tables_ok (fold (store_exec u) steps empty_tables)"
  by (rule tables_always_ok)

text \<open>A message of the outbox that was dispatched is never claimed again, whatever calls follow.\<close>

theorem dispatched_never_claimed:
  assumes "tables_ok t" "dispatched mid t"
    and "claim_outbox_messages now topic limit lease (fold (store_exec u) steps t) = (Inr ms, t')"
  shows "mid \<notin> om_id ` set ms"
proof
  define t1 where "t1 = fold (store_exec u) steps t"
  have ok: "tables_ok (fold (store_exec u) steps t)" for steps
    using assms(1) by (induction steps rule: rev_induct) (auto simp: store_exec_ok)
  have "distinct (map om_id (tb_outbox t1))" using ok [of steps] by (simp add: t1_def tables_ok_def keys_ok_def)
  then have inj: "m = m'" if "m \<in> set (tb_outbox t1)" "m' \<in> set (tb_outbox t1)" "om_id m = om_id m'" for m m'
    using that by (auto simp: distinct_map inj_on_def)
  assume "mid \<in> om_id ` set ms"
  with assms(3) [folded t1_def] obtain m where m: "m \<in> set (tb_outbox t1)" "om_id m = mid" "om_dispatched_at m = None"
    by (elim claim_rows) (auto simp: lock_message_def claimable_def)
  obtain m' where "m' \<in> set (tb_outbox t1)" "om_id m' = mid" "om_dispatched_at m' \<noteq> None"
    using dispatched_steps [OF assms(2), of u steps] unfolding t1_def dispatched_def by auto
  with m inj [of m m'] show False by auto
qed

text \<open>C24: a claimed message is the claimer's for the lease: a claim that begins no later than the lease
  after it returns none of the messages that the earlier claim returned.\<close>

theorem claims_exclusive:
  assumes "tables_ok t"
    and "claim_outbox_messages now1 topic1 limit1 lease1 t = (Inr ms1, t1)"
    and "claim_outbox_messages now2 topic2 limit2 lease2 t1 = (Inr ms2, t2)"
    and "0 < lease2" "now2 \<le> now1 + lease2"
  shows "om_id ` set ms1 \<inter> om_id ` set ms2 = {}"
proof -
  from assms(2) obtain r1 where r1: "ms1 = map (lock_message now1) r1"
    "tb_outbox t1 = update_where (\<lambda>m. om_id m \<in> om_id ` set r1) (lock_message now1) (tb_outbox t)" by (elim claim_rows)
  from assms(3) obtain r2 where r2: "ms2 = map (lock_message now2) r2" "set r2 \<subseteq> set (tb_outbox t1)"
    "\<forall>m\<in>set r2. claimable (trim_space topic2) now2 (now2 - (if lease2 \<le> 0 then 30 * second else lease2)) m" by (elim claim_rows)
  have fresh: "om_id m \<notin> om_id ` set r1" if m: "m \<in> set r2" for m
  proof
    assume "om_id m \<in> om_id ` set r1"
    moreover have "m \<in> (\<lambda>m. if om_id m \<in> om_id ` set r1 then lock_message now1 m else m) ` set (tb_outbox t)"
      using m r2(2) unfolding r1(2) update_where_set by blast
    ultimately have "om_locked_at m = Some now1" by (auto simp: lock_message_def split: if_splits)
    then show False using r2(3) m assms(4,5) by (auto simp: claimable_def)
  qed
  have ids: "om_id ` set ms1 = om_id ` set r1" "om_id ` set ms2 = om_id ` set r2"
    by (simp_all add: r1(1) r2(1) image_image lock_message_def)
  show ?thesis unfolding ids
  proof (rule equals0I)
    fix i assume "i \<in> om_id ` set r1 \<inter> om_id ` set r2"
    then have i: "i \<in> om_id ` set r1" "i \<in> om_id ` set r2" by simp_all
    from i(2) obtain m where "i = om_id m" "m \<in> set r2" by (rule imageE)
    with fresh i(1) show False by simp
  qed
qed

text \<open>
  C37: a search for a text without wildcards lists exactly the live books one of whose title, file name and
  ID contains it, up to case.\<close>

theorem search_substring:
  fixes opts :: book_list_options and lw :: "rune \<Rightarrow> rune"
  defines "q \<equiv> to_lower lw (trim_space (bl_query opts))"
  assumes "\<forall>r\<in>set q. r \<noteq> 37 \<and> r \<noteq> 95 \<and> r \<noteq> 92"
    and "bl_owner_id opts = []" "bl_status opts = []" "bl_primary_category opts = []" "bl_tag opts = []"
    "bl_format opts = []" "bl_language opts = []"
  shows "book_matches lw opts b \<longleftrightarrow>
    live b \<and> (sublist q (to_lower lw (bo_title b)) \<or> sublist q (to_lower lw (bo_original_filename b)) \<or>
      sublist q (to_lower lw (bo_id b)))"
proof -
  have "like ([37] @ q @ [37]) s \<longleftrightarrow> sublist q s" for s
    using like_anywhere [OF assms(2)] by (simp add: sublist_def)
  moreover have "trim_space (bl_query opts) = [] \<longleftrightarrow> q = []" by (simp add: q_def to_lower_def)
  moreover have "to_lower lw [] = []" by (simp add: to_lower_def)
  ultimately show ?thesis unfolding book_matches_def Let_def
    by (simp add: assms(3-) q_def [symmetric]) auto
qed

definition demo_search :: book_list_options where
  "demo_search = \<lparr>bl_query = [97], bl_owner_id = [], bl_status = [], bl_primary_category = [], bl_tag = [], bl_format = [],
     bl_language = [], bl_sort_by = [], bl_sort_order = [], bl_page = 0, bl_page_size = 0\<rparr>"

theorem search_substring_witness:
  "book_matches id demo_search (demo_book\<lparr>bo_title := [66, 65]\<rparr>) \<and>
   \<not> book_matches id demo_search (demo_book\<lparr>bo_title := [66], bo_original_filename := []\<rparr>)"
proof -
  have q: "to_lower id (trim_space (bl_query demo_search)) = [97]"
    by (simp add: demo_search_def trims is_space_def to_lower_def lower_rune_def)
  have o: "bl_owner_id demo_search = []" "bl_status demo_search = []" "bl_primary_category demo_search = []"
    "bl_tag demo_search = []" "bl_format demo_search = []" "bl_language demo_search = []"
    by (simp_all add: demo_search_def)
  have r: "\<forall>r\<in>set (to_lower id (trim_space (bl_query demo_search))). r \<noteq> 37 \<and> r \<noteq> 95 \<and> r \<noteq> 92" by (simp add: q)
  show ?thesis
    unfolding search_substring [OF r o] q
    by (simp add: demo_book_def live_def to_lower_def lower_rune_def sublist_code)
qed

lemma replace_chunks_effect:
  assumes "replace_chunks u now bid chunks t = (Inr a, t')"
  shows "list_chunks_by_book bid t' = (Inr (sort_key ch_created_at (map (\<lambda>c. c\<lparr>ch_book_id := bid\<rparr>) chunks)), t') \<and>
    filter (\<lambda>i. ci_book_id i = bid) (tb_index_statuses t') = map (pending_status now bid) chunks \<and>
    (bid' \<noteq> bid \<longrightarrow> fst (list_chunks_by_book bid' t') = fst (list_chunks_by_book bid' t))"
proof -
  have none: "filter (\<lambda>c. ch_book_id c = bid) (filter (\<lambda>c. ch_book_id c \<noteq> bid) cs) = []" for cs
    by (simp add: filter_empty_conv)
  have other: "filter (\<lambda>c. ch_book_id c \<noteq> bid \<and> ch_book_id c = bid') cs = filter (\<lambda>c. ch_book_id c = bid') cs"
    if "bid' \<noteq> bid" for cs using that by (auto intro: filter_cong)
  have sts: "filter (\<lambda>i. ci_book_id i = bid) (filter P (filter (\<lambda>i. ci_book_id i \<noteq> bid) is)) = []" for P "is"
    by (auto simp: filter_empty_conv)
  show ?thesis
  proof (cases "chunks = []")
    case True
    then show ?thesis using assms none sts
      by (auto simp: other replace_chunks_def delete_chunks_def list_chunks_by_book_def Let_def filter_empty_conv)
  next
    case False
    define t2 where "t2 = (delete_chunks (\<lambda>c. ch_book_id c = bid)
        (t\<lparr>tb_index_statuses := filter (\<lambda>i. ci_book_id i \<noteq> bid) (tb_index_statuses t)\<rparr>))"
    obtain cs st where cs: "insert_rows ch_id (map (\<lambda>c. c\<lparr>ch_book_id := bid\<rparr>) chunks) (tb_chunks t2) = Inr cs"
      and st: "insert_rows ci_chunk_id (map (pending_status now bid) chunks) (tb_index_statuses t2) = Inr st"
      and t': "tb_chunks t' = cs" "tb_index_statuses t' = st"
      using assms False unfolding replace_chunks_def Let_def t2_def [symmetric]
      by (auto split: sum.splits if_splits)
    have c: "cs = tb_chunks t2 @ map (\<lambda>c. c\<lparr>ch_book_id := bid\<rparr>) chunks" using insert_rows_keys [OF cs] by blast
    have s: "st = tb_index_statuses t2 @ map (pending_status now bid) chunks" using insert_rows_keys [OF st] by blast
    have t2: "tb_chunks t2 = filter (\<lambda>c. ch_book_id c \<noteq> bid) (tb_chunks t)"
      "filter (\<lambda>i. ci_book_id i = bid) (tb_index_statuses t2) = []"
      by (auto simp: t2_def delete_chunks_def Let_def filter_empty_conv)
    have new: "filter (\<lambda>c. ch_book_id c = bid) (map (\<lambda>c. c\<lparr>ch_book_id := bid\<rparr>) chunks) = map (\<lambda>c. c\<lparr>ch_book_id := bid\<rparr>) chunks"
      "filter (\<lambda>i. ci_book_id i = bid) (map (pending_status now bid) chunks) = map (pending_status now bid) chunks"
      "bid' \<noteq> bid \<Longrightarrow> filter (\<lambda>c. ch_book_id c = bid') (map (\<lambda>c. c\<lparr>ch_book_id := bid\<rparr>) chunks) = []"
      by (auto simp: filter_map o_def pending_status_def filter_empty_conv)
    show ?thesis unfolding list_chunks_by_book_def t' c s using none t2 new by (simp add: other)
  qed
qed

text \<open>Replacing the chunks of a book makes them its chunks: the list of the book's chunks is the new
  ones by creation time, each has one index status, pending in both indexes, and the chunks of the other
  books are as before.\<close>

theorem replace_chunks_replaces:
  assumes "replace_chunks u now bid chunks t = (Inr a, t')"
  shows "list_chunks_by_book bid t' = (Inr (sort_key ch_created_at (map (\<lambda>c. c\<lparr>ch_book_id := bid\<rparr>) chunks)), t') \<and>
    filter (\<lambda>i. ci_book_id i = bid) (tb_index_statuses t') = map (pending_status now bid) chunks \<and>
    (bid' \<noteq> bid \<longrightarrow> fst (list_chunks_by_book bid' t') = fst (list_chunks_by_book bid' t))"
  by (rule replace_chunks_effect [OF assms])

text \<open>A deleted book stays invisible: whatever calls follow, \<open>GetBook\<close> does not find it, unless one of
  them saves a book with its ID.\<close>

theorem deleted_book_hidden:
  assumes "mark_book_deleted now bid cs t = (Inr a, t')"
    and "\<forall>e\<in>set steps. \<not> saves bid (snd e)"
  shows "fst (get_book lw bid (fold (store_exec u) steps t')) = Inr None"
proof -
  have t': "tb_books t' = update_where (\<lambda>b. bo_id b = bid \<and> live b)
    (\<lambda>b. b\<lparr>bo_deleted_at := Some now, bo_cleanup_status := Some cs, bo_cleanup_error := [],
      bo_cleanup_updated_at := Some now, bo_updated_at := now\<rparr>) (tb_books t)"
    using assms(1) by (auto simp: mark_book_deleted_def)
  have "hidden bid t'" unfolding hidden_def t' update_where_set
  proof (intro ballI impI, elim imageE)
    fix b r assume "bo_id b = bid" and
      "b = (if bo_id r = bid \<and> live r then r\<lparr>bo_deleted_at := Some now, bo_cleanup_status := Some cs,
        bo_cleanup_error := [], bo_cleanup_updated_at := Some now, bo_updated_at := now\<rparr> else r)"
    then show "\<not> live b" by (simp add: live_def split: if_splits)
  qed
  then have "hidden bid (fold (store_exec u) steps t')" using assms(2) by (rule hidden_steps)
  then have "List.find (\<lambda>b. live b \<and> bo_id b = bid) (tb_books (fold (store_exec u) steps t')) = None"
    unfolding hidden_def find_None_iff by blast
  then show ?thesis by (simp add: get_book_def)
qed


theorem dispatched_never_claimed_witness:
  "[7] \<notin> om_id ` set (case fst (claim_outbox_messages 90 [8] 5 0
      (fold (store_exec demo_unicode) [(9, OpSetStatus [1] BookReady [])] (snd (mark_outbox_dispatched 3 [7] demo_tables)))) of
      Inr ms \<Rightarrow> ms | Inl _ \<Rightarrow> [])"
proof -
  define t where "t = snd (mark_outbox_dispatched 3 [7] demo_tables)"
  have ok: "tables_ok t" unfolding t_def using simple_ops_ok(10) [OF demo_tables_ok, of 3 "[7]" "()"]
    by (simp add: mark_outbox_dispatched_def)
  have d: "dispatched [7] t"
    by (simp add: t_def dispatched_def mark_outbox_dispatched_def demo_tables_def demo_message_def update_where_def trims is_space_def)
  obtain ms t' where c: "claim_outbox_messages 90 [8] 5 0 (fold (store_exec demo_unicode) [(9, OpSetStatus [1] BookReady [])] t) = (Inr ms, t')"
    by (simp add: claim_outbox_messages_def Let_def)
  from dispatched_never_claimed [OF ok d c] c show ?thesis by (simp add: t_def)
qed

theorem claims_exclusive_witness:
  "\<exists>m1 m2 t1 t2. claim_outbox_messages 5 [8] 1 0 demo_tables = (Inr m1, t1) \<and> m1 \<noteq> [] \<and>
     claim_outbox_messages 6 [8] 1 second t1 = (Inr m2, t2) \<and> om_id ` set m1 \<inter> om_id ` set m2 = {}"
proof -
  define t1 where "t1 = demo_tables\<lparr>tb_outbox := [lock_message 5 demo_message]\<rparr>"
  have 1: "claim_outbox_messages 5 [8] 1 0 demo_tables = (Inr [lock_message 5 demo_message], t1)"
    unfolding demo_claim t1_def by simp
  obtain m2 t2 where 2: "claim_outbox_messages 6 [8] 1 second t1 = (Inr m2, t2)"
    by (simp add: claim_outbox_messages_def Let_def)
  have "om_id ` set [lock_message 5 demo_message] \<inter> om_id ` set m2 = {}"
    by (rule claims_exclusive [OF demo_tables_ok 1 2]) (simp_all add: second_def)
  then show ?thesis using 1 2 by blast
qed

definition demo_chunk :: "nat \<Rightarrow> chunk" where
  "demo_chunk n = \<lparr>ch_id = [n], ch_book_id = [], ch_content = [n], ch_metadata = (\<lambda>_. None), ch_created_at = int n\<rparr>"

theorem replace_chunks_replaces_witness:
  "fst (list_chunks_by_book [1] (snd (replace_chunks demo_unicode 4 [1] [demo_chunk 99, demo_chunk 97] demo_tables))) =
   Inr [(demo_chunk 97)\<lparr>ch_book_id := [1]\<rparr>, (demo_chunk 99)\<lparr>ch_book_id := [1]\<rparr>]"
proof -
  obtain t' where r: "replace_chunks demo_unicode 4 [1] [demo_chunk 99, demo_chunk 97] demo_tables = (Inr (), t')"
    by (simp add: replace_chunks_def demo_tables_def empty_tables_def delete_chunks_def demo_chunk_def insert_rows_def
        pending_status_def demo_book_def update_where_def Let_def)
  from replace_chunks_replaces [OF r] r show ?thesis by (simp add: demo_chunk_def)
qed

theorem deleted_book_hidden_witness:
  "fst (get_book id [1] (fold (store_exec demo_unicode) [(9, OpSetStatus [1] BookReady [])]
     (snd (mark_book_deleted 5 [1] CleanupQueued demo_tables)))) = Inr None \<and>
   fst (get_book id [1] demo_tables) \<noteq> Inr None"
proof
  have "mark_book_deleted 5 [1] CleanupQueued demo_tables = (Inr (), snd (mark_book_deleted 5 [1] CleanupQueued demo_tables))"
    by (simp add: mark_book_deleted_def)
  from deleted_book_hidden [OF this, of "[(9, OpSetStatus [1] BookReady [])]" id demo_unicode]
  show "fst (get_book id [1] (fold (store_exec demo_unicode) [(9, OpSetStatus [1] BookReady [])]
     (snd (mark_book_deleted 5 [1] CleanupQueued demo_tables)))) = Inr None" by (simp add: saves_def)
  show "fst (get_book id [1] demo_tables) \<noteq> Inr None"
    by (simp add: get_book_def demo_tables_def demo_book_def live_def)
qed

end
