(* ===== verification/BookSpec.thy ===== *)
theory BookSpec
  imports BookFacts
begin

text \<open>
  What the operations of the store promise about books, as a specification on a map from IDs to rows
  (deleted rows included): a save overwrites or merges, an edit changes one row, a claim picks any
  number of due rows up to the limit, and the operations that check a unique index may leave the map
  as it is.  The tables implement it.
\<close>

section \<open>The specification\<close>

type_synonym book_map = "gostr \<rightharpoonup> book"

definition merged :: "(rune \<Rightarrow> rune) \<Rightarrow> book \<Rightarrow> book_map \<Rightarrow> book_map" where
  "merged lw b m =
     m(bo_id b \<mapsto> (case m (bo_id b) of None \<Rightarrow> book_to_model lw b | Some old \<Rightarrow> assign_book old (book_to_model lw b)))"

definition edited :: "gostr \<Rightarrow> (book \<Rightarrow> bool) \<Rightarrow> (book \<Rightarrow> book) \<Rightarrow> book_map \<Rightarrow> book_map" where
  "edited bid P f m = m(bid := map_option (\<lambda>b. if P b then f b else b) (m bid))"

definition started :: "gotime \<Rightarrow> gostr set \<Rightarrow> book_map \<Rightarrow> book_map" where
  "started now S m = (\<lambda>i. if i \<in> S then map_option (start_cleanup now) (m i) else m i)"

fun touches_books :: "store_op \<Rightarrow> bool" where
  "touches_books (OpSaveBook _) = True"
| "touches_books (OpSaveBookAndOutbox _ _ _) = True"
| "touches_books (OpUpdateProfile _ _) = True"
| "touches_books (OpSetStatus _ _ _) = True"
| "touches_books (OpSetStatusIfGeneration _ _ _ _) = True"
| "touches_books (OpClaimCleanup _) = True"
| "touches_books (OpMarkDeleted _ _) = True"
| "touches_books (OpWriteCleanup _ _ _) = True"
| "touches_books (OpBumpAttempts _) = True"
| "touches_books (OpDeleteBook _) = True"
| "touches_books (OpReplaceChunks _ _) = True"
| "touches_books _ = False"

inductive book_spec :: "unicode \<Rightarrow> gotime \<Rightarrow> store_op \<Rightarrow> book_map \<Rightarrow> book_map \<Rightarrow> bool" for u now where
  save: "book_spec u now (OpSaveBook b) m (merged (un_lower u) b m)"
| save_outbox: "book_spec u now (OpSaveBookAndOutbox b r x) m (merged (un_lower u) b m)"
| save_conflict: "book_spec u now (OpSaveBookAndOutbox b (Some r) x) m m"
| profile: "book_spec u now (OpUpdateProfile bid p) m
    (edited (trim_space bid) live
      (\<lambda>b. b\<lparr>bo_document_type := trim_space (dp_type p), bo_document_summary := trim_space (dp_summary p),
             bo_first_page_text := trim_space (dp_first_page p), bo_keywords := dp_keywords p,
             bo_entities := dp_entities p, bo_facts := dp_facts p, bo_updated_at := now\<rparr>) m)"
| status: "book_spec u now (OpSetStatus bid s e) m
    (edited bid live (\<lambda>b. b\<lparr>bo_status := s, bo_error_message := e, bo_updated_at := now\<rparr>) m)"
| status_if: "book_spec u now (OpSetStatusIfGeneration bid g s e) m
    (edited bid (\<lambda>b. live b \<and> bo_generation b = g) (\<lambda>b. b\<lparr>bo_status := s, bo_error_message := e, bo_updated_at := now\<rparr>) m)"
| claim: "card S \<le> default_limit k \<Longrightarrow> (\<forall>i\<in>S. \<exists>b. m i = Some b \<and> pending_cleanup b) \<Longrightarrow>
    book_spec u now (OpClaimCleanup k) m (started now S m)"
| mark_deleted: "book_spec u now (OpMarkDeleted bid cs) m
    (edited bid live (\<lambda>b. b\<lparr>bo_deleted_at := Some now, bo_cleanup_status := Some cs, bo_cleanup_error := [],
       bo_cleanup_updated_at := Some now, bo_updated_at := now\<rparr>) m)"
| write_cleanup: "book_spec u now (OpWriteCleanup bid cs e) m
    (edited bid (\<lambda>_. True) (\<lambda>b. b\<lparr>bo_cleanup_status := Some cs, bo_cleanup_error := trim_space e,
       bo_cleanup_updated_at := Some now, bo_updated_at := now\<rparr>) m)"
| bump: "book_spec u now (OpBumpAttempts bid) m
    (edited bid (\<lambda>_. True) (\<lambda>b. b\<lparr>bo_cleanup_attempts := bo_cleanup_attempts b + 1\<rparr>) m)"
| delete: "book_spec u now (OpDeleteBook bid) m (m(bid := None))"
| replace: "book_spec u now (OpReplaceChunks bid cs) m
    (edited bid (\<lambda>_. True) (\<lambda>b. b\<lparr>bo_language := summarize_book_language u cs, bo_updated_at := now\<rparr>) m)"
| replace_conflict: "book_spec u now (OpReplaceChunks bid cs) m m"
| other: "\<not> touches_books step \<Longrightarrow> book_spec u now step m m"

inductive book_runs :: "unicode \<Rightarrow> (gotime \<times> store_op) list \<Rightarrow> book_map \<Rightarrow> book_map \<Rightarrow> bool" for u where
  book_runs_Nil: "book_runs u [] m m"
| book_runs_Cons: "book_spec u now step m m1 \<Longrightarrow> book_runs u steps m1 m2 \<Longrightarrow> book_runs u ((now, step) # steps) m m2"

section \<open>The tables implement it\<close>

definition book_rows :: "tables \<Rightarrow> book_map" where
  "book_rows t = (\<lambda>i. List.find (\<lambda>b. bo_id b = i) (tb_books t))"

lemma find_update:
  "(\<And>b. bo_id (f b) = bo_id b) \<Longrightarrow>
   List.find (\<lambda>b. bo_id b = i) (update_where P f rows) = map_option (\<lambda>b. if P b then f b else b) (List.find (\<lambda>b. bo_id b = i) rows)"
  by (induction rows) (auto simp: update_where_def)

lemma find_key: "List.find (\<lambda>b. bo_id b = i) rows = Some b \<Longrightarrow> bo_id b = i"
  by (auto simp: find_Some_iff)

lemma find_unique:
  "distinct (map f xs) \<Longrightarrow> r \<in> set xs \<Longrightarrow> P r \<Longrightarrow> (\<And>x. P x \<longleftrightarrow> Q x \<and> f x = f r) \<Longrightarrow> List.find P xs = Some r"
  by (induction xs) (auto simp: image_iff)

lemma find_filter_key:
  "List.find (\<lambda>b. bo_id b = i) (filter (\<lambda>b. bo_id b \<noteq> j) rows) = (if i = j then None else List.find (\<lambda>b. bo_id b = i) rows)"
  by (induction rows) auto

lemma rows_edited:
  assumes "tb_books t' = update_where (\<lambda>b. bo_id b = bid \<and> P b) f (tb_books t)" "\<And>b. bo_id (f b) = bo_id b"
  shows "book_rows t' = edited bid P f (book_rows t)"
proof
  fix i
  show "book_rows t' i = edited bid P f (book_rows t) i"
  proof (cases "List.find (\<lambda>b. bo_id b = i) (tb_books t)")
    case None
    then show ?thesis by (cases "i = bid") (simp_all add: book_rows_def assms(1) find_update [OF assms(2)] edited_def)
  next
    case (Some b)
    then have "bo_id b = i" by (rule find_key)
    then show ?thesis
      by (cases "i = bid") (use Some in \<open>simp_all add: book_rows_def assms(1) find_update [OF assms(2)] edited_def\<close>)
  qed
qed

lemma rows_merged: "book_rows (snd (save_book lw b t)) = merged lw b (book_rows t)"
proof
  fix i
  have ids: "bo_id (book_to_model lw b) = bo_id b" "bo_id (assign_book r (book_to_model lw b)) = bo_id r" for r
    by (simp_all add: book_to_model_def assign_book_def)
  have none: "List.find (\<lambda>x. bo_id x = bo_id b) rows = None \<longleftrightarrow> bo_id b \<notin> bo_id ` set rows" for rows
    by (induction rows) auto
  show "book_rows (snd (save_book lw b t)) i = merged lw b (book_rows t) i"
  proof (cases "bo_id b \<in> bo_id ` set (tb_books t)")
    case True
    then obtain old where old: "List.find (\<lambda>x. bo_id x = bo_id b) (tb_books t) = Some old" using none [of "tb_books t"] by auto
    have "tb_books (snd (save_book lw b t)) = update_where (\<lambda>r. bo_id r = bo_id b) (\<lambda>r. assign_book r (book_to_model lw b)) (tb_books t)"
      using True by (simp add: save_book_def upsert_def ids)
    note upd = book_rows_def this find_update [of "\<lambda>r. assign_book r (book_to_model lw b)", OF ids(2)]
    show ?thesis
    proof (cases "i = bo_id b")
      case True
      then show ?thesis using find_key [OF old] unfolding upd by (simp add: merged_def book_rows_def old)
    next
      case False
      then have "map_option (\<lambda>r. if bo_id r = bo_id b then assign_book r (book_to_model lw b) else r) (List.find (\<lambda>x. bo_id x = i) (tb_books t)) =
          List.find (\<lambda>x. bo_id x = i) (tb_books t)"
        by (cases "List.find (\<lambda>x. bo_id x = i) (tb_books t)") (auto dest: find_key)
      then show ?thesis using False unfolding upd by (simp add: merged_def book_rows_def)
    qed
  next
    case False
    then have "tb_books (snd (save_book lw b t)) = tb_books t @ [book_to_model lw b]"
      by (simp add: save_book_def upsert_def ids)
    then show ?thesis
      using False none [of "tb_books t"] unfolding book_rows_def merged_def
      by (auto simp: find_append ids split: option.splits)
  qed
qed


lemma books_kept: "tb_books (snd (f t)) = tb_books t \<Longrightarrow> tb_books (snd (atomically f t)) = tb_books t"
  by (auto simp: atomically_def split: prod.splits sum.splits)

lemma rows_kept: "tb_books t' = tb_books t \<Longrightarrow> book_rows t' = book_rows t"
  by (simp add: book_rows_def)

lemma rows_replace:
  "book_rows (snd (atomically (replace_chunks u now bid cs) t)) = book_rows t \<or>
   book_rows (snd (atomically (replace_chunks u now bid cs) t)) =
     edited bid (\<lambda>_. True) (\<lambda>b. b\<lparr>bo_language := summarize_book_language u cs, bo_updated_at := now\<rparr>) (book_rows t)"
proof (cases "replace_chunks u now bid cs t")
  case (Pair r t')
  show ?thesis
  proof (cases r)
    case (Inl e)
    then show ?thesis using Pair by (simp add: atomically_def)
  next
    case (Inr x)
    have "tb_books t' = update_where (\<lambda>b. bo_id b = bid) (\<lambda>b. b\<lparr>bo_language := summarize_book_language u cs, bo_updated_at := now\<rparr>) (tb_books t)"
      using Pair Inr unfolding replace_chunks_def Let_def by (auto simp: delete_chunks_def Let_def split: if_splits sum.splits)
    then have "book_rows t' = edited bid (\<lambda>_. True) (\<lambda>b. b\<lparr>bo_language := summarize_book_language u cs, bo_updated_at := now\<rparr>) (book_rows t)"
      by (intro rows_edited) simp_all
    then show ?thesis using Pair Inr by (simp add: atomically_def)
  qed
qed

lemma rows_save_and_outbox:
  "book_rows (snd (atomically (save_book_and_outbox lw b r x) t)) = merged lw b (book_rows t) \<or>
   r \<noteq> None \<and> book_rows (snd (atomically (save_book_and_outbox lw b r x) t)) = book_rows t"
proof -
  have add: "book_rows (case x of None \<Rightarrow> t2 | Some m \<Rightarrow> add_outbox m t2) = book_rows t2" for t2
    by (rule rows_kept) (simp split: option.split)
  show ?thesis
  proof (cases r)
    case None
    then show ?thesis using add by (simp add: atomically_def save_book_and_outbox_def Let_def rows_merged)
  next
    case (Some r)
    obtain q t2 where q: "save_idempotency_record r (snd (save_book lw b t)) = (q, t2)" by (metis surj_pair)
    then have "book_rows t2 = merged lw b (book_rows t)"
      using rows_kept [OF books_same(1), of r "snd (save_book lw b t)"] by (simp add: rows_merged)
    then show ?thesis using add q by (cases q) (simp_all add: atomically_def save_book_and_outbox_def Let_def Some)
  qed
qed

lemma rows_claim:
  assumes "distinct (map bo_id (tb_books t))"
  obtains S where "card S \<le> default_limit k" "\<forall>i\<in>S. \<exists>b. book_rows t i = Some b \<and> pending_cleanup b"
    "book_rows (snd (claim_books_pending_cleanup lw now k t)) = started now S (book_rows t)"
proof -
  define models where "models = books_to_clean k (tb_books t)"
  define S where "S = set (map bo_id models)"
  have "card S \<le> length (map bo_id models)" unfolding S_def by (rule card_length)
  also have "\<dots> \<le> default_limit k" by (simp add: models_def books_to_clean_def)
  finally have 1: "card S \<le> default_limit k" .
  have 2: "\<forall>i\<in>S. \<exists>b. book_rows t i = Some b \<and> pending_cleanup b"
  proof
    fix i assume "i \<in> S"
    then obtain b where b: "b \<in> set models" "bo_id b = i" by (auto simp: S_def)
    then have row: "b \<in> set (tb_books t)" "pending_cleanup b"
      using set_take_subset [of "default_limit k" "sort_key bo_cleanup_updated_at (filter pending_cleanup (tb_books t))"]
      by (auto simp: models_def books_to_clean_def)
    have "List.find (\<lambda>x. bo_id x = i) (tb_books t) = Some b"
      by (rule find_unique [OF assms row(1), where Q = "\<lambda>_. True"]) (use b(2) in auto)
    then show "\<exists>b. book_rows t i = Some b \<and> pending_cleanup b" using row(2) by (auto simp: book_rows_def)
  qed
  have "book_rows (snd (claim_books_pending_cleanup lw now k t)) = started now S (book_rows t)"
  proof
    fix i
    have keep: "bo_id (start_cleanup now b) = bo_id b" for b by (simp add: start_cleanup_def)
    show "book_rows (snd (claim_books_pending_cleanup lw now k t)) i = started now S (book_rows t) i"
    proof (cases "List.find (\<lambda>b. bo_id b = i) (tb_books t)")
      case None
      then show ?thesis by (simp add: book_rows_def started_def claim_books_pending_cleanup_def Let_def find_update [OF keep])
    next
      case (Some b)
      then have "bo_id b = i" by (rule find_key)
      then show ?thesis
        by (simp add: book_rows_def started_def claim_books_pending_cleanup_def Let_def find_update [OF keep] Some S_def models_def)
    qed
  qed
  then show ?thesis using 1 2 that by blast
qed

lemma rows_edits:
  "book_rows (snd (update_book_document_profile now bid p t)) = edited (trim_space bid) live
     (\<lambda>b. b\<lparr>bo_document_type := trim_space (dp_type p), bo_document_summary := trim_space (dp_summary p),
            bo_first_page_text := trim_space (dp_first_page p), bo_keywords := dp_keywords p,
            bo_entities := dp_entities p, bo_facts := dp_facts p, bo_updated_at := now\<rparr>) (book_rows t)"
  "book_rows (snd (set_status now bid s e t)) =
     edited bid live (\<lambda>b. b\<lparr>bo_status := s, bo_error_message := e, bo_updated_at := now\<rparr>) (book_rows t)"
  "book_rows (snd (set_status_if_generation now bid g s e t)) =
     edited bid (\<lambda>b. live b \<and> bo_generation b = g) (\<lambda>b. b\<lparr>bo_status := s, bo_error_message := e, bo_updated_at := now\<rparr>) (book_rows t)"
  "book_rows (snd (mark_book_deleted now bid cs t)) =
     edited bid live (\<lambda>b. b\<lparr>bo_deleted_at := Some now, bo_cleanup_status := Some cs, bo_cleanup_error := [],
       bo_cleanup_updated_at := Some now, bo_updated_at := now\<rparr>) (book_rows t)"
  "book_rows (snd (write_book_cleanup now bid cs e t)) =
     edited bid (\<lambda>_. True) (\<lambda>b. b\<lparr>bo_cleanup_status := Some cs, bo_cleanup_error := trim_space e,
       bo_cleanup_updated_at := Some now, bo_updated_at := now\<rparr>) (book_rows t)"
  "book_rows (snd (bump_cleanup_attempts bid t)) =
     edited bid (\<lambda>_. True) (\<lambda>b. b\<lparr>bo_cleanup_attempts := bo_cleanup_attempts b + 1\<rparr>) (book_rows t)"
  by (rule rows_edited; simp add: update_book_document_profile_def set_status_def set_status_if_generation_def
      mark_book_deleted_def write_book_cleanup_def bump_cleanup_attempts_def Let_def)+

lemma atomically_ok: "fst (f t) = Inr x \<Longrightarrow> snd (atomically f t) = snd (f t)"
  by (cases "f t") (simp add: atomically_def)

lemma edits_succeed:
  "fst (update_book_document_profile now bid p t) = Inr ()" "fst (set_status now bid s e t) = Inr ()"
  "fst (mark_book_deleted now bid cs t) = Inr ()" "fst (write_book_cleanup now bid cs e t) = Inr ()"
  "fst (bump_cleanup_attempts bid t) = Inr ()"
  "fst (set_status_if_generation now bid g s e t) = Inr (\<exists>b\<in>set (tb_books t). bo_id b = bid \<and> live b \<and> bo_generation b = g)"
  by (simp_all add: update_book_document_profile_def set_status_def set_status_if_generation_def
      mark_book_deleted_def write_book_cleanup_def bump_cleanup_attempts_def Let_def)

lemmas edit_steps = rows_edits atomically_ok [OF edits_succeed(1)] atomically_ok [OF edits_succeed(2)]
  atomically_ok [OF edits_succeed(3)] atomically_ok [OF edits_succeed(4)] atomically_ok [OF edits_succeed(5)]
  atomically_ok [OF edits_succeed(6)]

lemma exec_frame: "\<not> touches_books step \<Longrightarrow> tb_books (store_exec u (now, step) t) = tb_books t"
  by (induction step; (simp; fail)?; unfold store_exec_def prod.case store_op.case;
      rule books_kept, rule books_same books_same_exchange books_same_ops)

lemma exec_implements:
  assumes "tables_ok t"
  shows "book_spec u now step (book_rows t) (book_rows (store_exec u (now, step) t))"
proof (cases "touches_books step")
  case False
  then show ?thesis using book_spec.other [OF False, of u now "book_rows t"] rows_kept [OF exec_frame [OF False], of u now t] by simp
next
  case True
  note exec = store_exec_def atomically_def
  show ?thesis
  proof (cases step)
    case (OpSaveBook b)
    then show ?thesis using book_spec.save [of u now b "book_rows t"] rows_merged [of "un_lower u" b t]
      by (simp add: exec save_book_def)
  next
    case (OpSaveBookAndOutbox b r x)
    then show ?thesis
      using rows_save_and_outbox [of "un_lower u" b r x t] book_spec.save_outbox [of u now b r x "book_rows t"]
        book_spec.save_conflict [of u now b _ x "book_rows t"] by (auto simp: store_exec_def)
  next
    case (OpClaimCleanup k)
    obtain S where S: "card S \<le> default_limit k" "\<forall>i\<in>S. \<exists>b. book_rows t i = Some b \<and> pending_cleanup b"
      "book_rows (snd (claim_books_pending_cleanup (un_lower u) now k t)) = started now S (book_rows t)"
      using rows_claim assms unfolding tables_ok_def keys_ok_def by metis
    then show ?thesis using book_spec.claim [OF S(1,2), of u now] OpClaimCleanup
      by (simp add: exec claim_books_pending_cleanup_def Let_def)
  next
    case (OpReplaceChunks bid cs)
    then show ?thesis
      using rows_replace [of u now bid cs t] book_spec.replace [of u now bid cs "book_rows t"]
        book_spec.replace_conflict [of u now bid cs "book_rows t"] by (auto simp: store_exec_def)
  next
    case (OpDeleteBook bid)
    have "tb_books (delete_book_rows bid t') = filter (\<lambda>b. bo_id b \<noteq> bid) (tb_books t')" for t'
      by (auto simp: delete_book_rows_def filter_id_conv intro!: sym [of "filter _ _"])
    then have "book_rows (snd (delete_book bid t)) = (book_rows t)(bid := None)"
      by (auto simp: delete_book_def book_rows_def find_filter_key fun_eq_iff)
    then show ?thesis using book_spec.delete [of u now bid "book_rows t"] OpDeleteBook by (simp add: exec delete_book_def)
  next
    case (OpUpdateProfile bid p)
    then show ?thesis using book_spec.profile [of u now bid p "book_rows t"] by (simp add: store_exec_def edit_steps)
  next
    case (OpSetStatus bid s e)
    then show ?thesis using book_spec.status [of u now bid s e "book_rows t"] by (simp add: store_exec_def edit_steps)
  next
    case (OpSetStatusIfGeneration bid g s e)
    then show ?thesis using book_spec.status_if [of u now bid g s e "book_rows t"] by (simp add: store_exec_def edit_steps)
  next
    case (OpMarkDeleted bid cs)
    then show ?thesis using book_spec.mark_deleted [of u now bid cs "book_rows t"] by (simp add: store_exec_def edit_steps)
  next
    case (OpWriteCleanup bid cs e)
    then show ?thesis using book_spec.write_cleanup [of u now bid cs e "book_rows t"] by (simp add: store_exec_def edit_steps)
  next
    case (OpBumpAttempts bid)
    then show ?thesis using book_spec.bump [of u now bid "book_rows t"] by (simp add: store_exec_def edit_steps)
  qed (use True in simp_all)
qed

section \<open>Properties\<close>

text \<open>
  C18: the books of the tables refine the specification: whatever operations run on an empty store, and
  in whatever order, the map from IDs to book rows goes through a run of \<open>book_spec\<close>.
\<close>

theorem books_refine_spec:
  "book_runs u steps Map.empty (book_rows (fold (store_exec u) steps empty_tables))"
proof -
  have "book_runs u steps (book_rows t) (book_rows (fold (store_exec u) steps t))" if "tables_ok t" for t
    using that
  proof (induction steps arbitrary: t)
    case Nil
    show ?case by (simp add: book_runs_Nil)
  next
    case (Cons st steps)
    obtain now step where st: "st = (now, step)" by (cases st)
    have "tables_ok (store_exec u (now, step) t)" by (rule store_exec_ok [OF Cons.prems])
    from Cons.IH [OF this] exec_implements [OF Cons.prems, of u now step] show ?case
      by (auto simp: st intro: book_runs_Cons)
  qed
  moreover have "tables_ok empty_tables" using tables_always_ok [of u "[]"] by simp
  moreover have "book_rows empty_tables = Map.empty" by (simp add: book_rows_def empty_tables_def fun_eq_iff)
  ultimately show ?thesis by metis
qed

end
