(* ===== verification/BookApp.thy ===== *)
theory BookApp
  imports BookFacts Paths
begin

text \<open>
  The book service (\<open>backend/services/book/internal/app\<close>): uploads, updates, deletions, the outbox that
  hands books to the ingest service, the cleanup worker and the idempotency of uploads and
  reprocessing.  The store is \<open>BookStore\<close> behind \<open>db_call\<close>.  The object store, the search index and the
  ingest service are other programs: the outcome of each call to them is taken from a schedule, an
  exhausted schedule meaning success; a call of unknown outcome takes effect and reports an error.
  Random IDs and the clock (one reading per handler) are inputs; the MIME type of an upload, which only
  the object store sees, is left out.
\<close>

section \<open>State\<close>

datatype call_outcome = CallOk | CallFailed gostr | CallUnknown gostr

record book_app =
  ba_db :: "tables db"
  ba_objects :: "gostr set"
  ba_object_calls :: "call_outcome list"
  ba_indexed :: "gostr set"               \<comment> \<open>books with points in the search index\<close>
  ba_search_calls :: "call_outcome list"
  ba_enqueued :: "(gostr \<times> int) list"     \<comment> \<open>requests the ingest service accepted\<close>
  ba_enqueue_calls :: "call_outcome list"

text \<open>\<open>bc_search\<close>: whether the search client is configured.\<close>

record book_config =
  bc_unicode :: unicode
  bc_sha :: "gostr \<Rightarrow> gostr"                   \<comment> \<open>SHA-256, in hexadecimal\<close>
  bc_db_text :: "gostr db_error \<Rightarrow> gostr"       \<comment> \<open>the text of a database error\<close>
  bc_json_error :: gostr                       \<comment> \<open>the text of a decoding error\<close>
  bc_json_quoted :: "gostr \<Rightarrow> bool"
  bc_max_upload_bytes :: int
  bc_allowed_extensions :: "gostr set"
  bc_search :: bool

datatype app_err = ErrText gostr | ErrDb "gostr db_error" | ErrWrap gostr app_err | ErrStaleGeneration

fun err_text :: "book_config \<Rightarrow> app_err \<Rightarrow> gostr" where
  "err_text c (ErrText s) = s"
| "err_text c (ErrDb e) = bc_db_text c e"
| "err_text c (ErrWrap s e) = s @ lit '': '' @ err_text c e"
| "err_text c ErrStaleGeneration = lit ''stale book generation''"

text \<open>A call of the store, and a call of the object store, the search index or the ingest service.\<close>

definition store_call :: "'a op \<Rightarrow> book_app \<Rightarrow> (app_err + 'a) \<times> book_app" where
  "store_call f a =
     (let (r, d) = db_call f (ba_db a) in
      (case r of Inl e \<Rightarrow> Inl (ErrDb e) | Inr x \<Rightarrow> Inr x, a\<lparr>ba_db := d\<rparr>))"

definition next_outcome :: "call_outcome list \<Rightarrow> call_outcome \<times> call_outcome list" where
  "next_outcome os = (case os of [] \<Rightarrow> (CallOk, []) | x # xs \<Rightarrow> (x, xs))"

definition call_result :: "call_outcome \<Rightarrow> app_err + unit" where
  "call_result x = (case x of CallOk \<Rightarrow> Inr () | CallFailed e \<Rightarrow> Inl (ErrText e) | CallUnknown e \<Rightarrow> Inl (ErrText e))"

definition takes_effect :: "call_outcome \<Rightarrow> bool" where
  "takes_effect x \<longleftrightarrow> (case x of CallFailed _ \<Rightarrow> False | _ \<Rightarrow> True)"

definition put_object :: "gostr \<Rightarrow> book_app \<Rightarrow> (app_err + unit) \<times> book_app" where
  "put_object key a =
     (let (x, xs) = next_outcome (ba_object_calls a) in
      (call_result x,
       a\<lparr>ba_object_calls := xs, ba_objects := (if takes_effect x then insert key (ba_objects a) else ba_objects a)\<rparr>))"

definition delete_object :: "gostr \<Rightarrow> book_app \<Rightarrow> (app_err + unit) \<times> book_app" where
  "delete_object key a =
     (let (x, xs) = next_outcome (ba_object_calls a) in
      (call_result x,
       a\<lparr>ba_object_calls := xs, ba_objects := (if takes_effect x then ba_objects a - {key} else ba_objects a)\<rparr>))"

definition delete_by_book :: "gostr \<Rightarrow> book_app \<Rightarrow> (app_err + unit) \<times> book_app" where
  "delete_by_book bid a =
     (let (x, xs) = next_outcome (ba_search_calls a) in
      (call_result x,
       a\<lparr>ba_search_calls := xs, ba_indexed := (if takes_effect x then ba_indexed a - {bid} else ba_indexed a)\<rparr>))"

definition ingest_enqueue :: "gostr \<Rightarrow> int \<Rightarrow> book_app \<Rightarrow> (app_err + unit) \<times> book_app" where
  "ingest_enqueue bid gen a =
     (let (x, xs) = next_outcome (ba_enqueue_calls a) in
      (call_result x,
       a\<lparr>ba_enqueue_calls := xs,
         ba_enqueued := (if takes_effect x then ba_enqueued a @ [(bid, gen)] else ba_enqueued a)\<rparr>))"

section \<open>File names\<close>

text \<open>The title of a file whose name has none, in Chinese ``untitled book''.\<close>

definition title_from_name :: "gostr \<Rightarrow> gostr" where
  "title_from_name name =
     (let base = file_base name; title = trim_space (trim_suffix base (file_ext base)) in
      if title = [] then [26410, 21629, 21517, 20070, 31821] else title)"

definition safe_rune :: "rune \<Rightarrow> bool" where
  "safe_rune r \<longleftrightarrow> (97 \<le> r \<and> r \<le> 122) \<or> (65 \<le> r \<and> r \<le> 90) \<or> (48 \<le> r \<and> r \<le> 57) \<or> r = 46 \<or> r = 45 \<or> r = 95"

fun sanitize_loop :: "bool \<Rightarrow> gostr \<Rightarrow> gostr" where
  "sanitize_loop last_us [] = []"
| "sanitize_loop last_us (r # s) =
     (if safe_rune r then r # sanitize_loop False s
      else if last_us then sanitize_loop True s
      else 95 # sanitize_loop True s)"

definition trim_underscores :: "gostr \<Rightarrow> gostr" where
  "trim_underscores s = rev (dropWhile (\<lambda>r. r = 95) (rev (dropWhile (\<lambda>r. r = 95) s)))"

definition sanitize_filename :: "gostr \<Rightarrow> gostr" where
  "sanitize_filename name0 =
     (let name = trim_space name0 in if name = [] then [] else trim_underscores (sanitize_loop False name))"

definition build_storage_key :: "gostr \<Rightarrow> gostr \<Rightarrow> gostr" where
  "build_storage_key book_id filename =
     (let name = sanitize_filename (file_base filename) in
      path_join [lit ''books'', book_id, if name = [] then lit ''book'' else name])"

definition normalize_max_bytes :: "int \<Rightarrow> int" where
  "normalize_max_bytes v = (if v \<le> 0 then 50 * 1024 * 1024 else v)"

definition normalize_extensions :: "(rune \<Rightarrow> rune) \<Rightarrow> gostr list \<Rightarrow> gostr set" where
  "normalize_extensions lw exts =
     (let es = (if exts = [] then map lit [''.pdf'', ''.epub'', ''.txt''] else exts) in
      set (map (\<lambda>e. if has_prefix e (lit ''.'') then e else lit ''.'' @ e)
             (filter (\<lambda>e. e \<noteq> []) (map (\<lambda>e. to_lower lw (trim_space e)) es))))"

definition is_extension_allowed :: "book_config \<Rightarrow> gostr \<Rightarrow> bool" where
  "is_extension_allowed c filename \<longleftrightarrow>
     bc_allowed_extensions c = {} \<or>
     to_lower (un_lower (bc_unicode c)) (file_ext filename) \<in> bc_allowed_extensions c"

section \<open>Metadata\<close>

definition normalize_primary_category :: "(rune \<Rightarrow> rune) \<Rightarrow> gostr \<Rightarrow> app_err + gostr" where
  "normalize_primary_category lw value =
     (let normalized = normalize_book_primary_category lw value in
      if trim_space value \<noteq> [] \<and> normalized = lit ''other'' \<and> trim_space (to_lower lw value) \<noteq> lit ''other''
      then Inl (ErrText (lit ''invalid primary category'')) else Inr normalized)"

fun tags_loop :: "(rune \<Rightarrow> rune) \<Rightarrow> gostr set \<Rightarrow> gostr list \<Rightarrow> gostr list \<Rightarrow> app_err + gostr list" where
  "tags_loop lw seen out [] = Inr out"
| "tags_loop lw seen out (raw # rest) =
     (let tag = join (str_fields (trim_space raw)) [32] in
      if tag = [] then tags_loop lw seen out rest
      else if 24 < length tag then Inl (ErrText (lit ''tag too long''))
      else if to_lower lw tag \<in> seen then tags_loop lw seen out rest
      else if 5 < length (out @ [tag]) then Inl (ErrText (lit ''too many tags''))
      else tags_loop lw (insert (to_lower lw tag) seen) (out @ [tag]) rest)"

definition normalize_book_tags :: "(rune \<Rightarrow> rune) \<Rightarrow> gostr list \<Rightarrow> app_err + gostr list" where
  "normalize_book_tags lw tags = tags_loop lw {} [] tags"

definition normalize_book_title :: "gostr \<Rightarrow> app_err + gostr" where
  "normalize_book_title value =
     (let title = join (str_fields (trim_space value)) [32] in
      if title = [] then Inl (ErrText (lit ''title required''))
      else if 120 < length title then Inl (ErrText (lit ''title too long''))
      else Inr title)"

definition detect_book_format :: "(rune \<Rightarrow> rune) \<Rightarrow> gostr \<Rightarrow> gostr" where
  "detect_book_format lw filename =
     (let ext = to_lower lw (trim_space (file_ext filename)) in
      if ext = lit ''.pdf'' then lit ''pdf'' else if ext = lit ''.epub'' then lit ''epub''
      else if ext = lit ''.txt'' then lit ''txt'' else [])"

section \<open>Idempotency\<close>

definition hash_strings :: "(gostr \<Rightarrow> gostr) \<Rightarrow> gostr list \<Rightarrow> gostr" where
  "hash_strings sha parts = sha (concat (map (\<lambda>p. trim_space p @ [0]) parts))"

definition upload_request_hash :: "book_config \<Rightarrow> gostr \<Rightarrow> gostr \<Rightarrow> int \<Rightarrow> gostr \<Rightarrow> gostr list \<Rightarrow> gostr" where
  "upload_request_hash c owner filename nbytes category tags =
     hash_strings (bc_sha c) ([owner, file_base (trim_space filename), itoa nbytes, trim_space category] @ tags)"

datatype begun = Began idem_record | Replayed idem_record book

definition lw_of :: "book_config \<Rightarrow> rune \<Rightarrow> rune" where
  "lw_of c = un_lower (bc_unicode c)"

text \<open>The book of a completed record.\<close>

definition replay_book :: "book_config \<Rightarrow> idem_record \<Rightarrow> book_app \<Rightarrow> (app_err + begun) \<times> book_app" where
  "replay_book c record a =
     (case store_call (get_book (lw_of c) (ir_resource_id record)) a of
        (Inl e, a1) \<Rightarrow> (Inl e, a1)
      | (Inr None, a1) \<Rightarrow> (Inl (ErrText (lit ''idempotent resource not found'')), a1)
      | (Inr (Some b), a1) \<Rightarrow> (Inr (Replayed record b), a1))"

definition different_request :: app_err where
  "different_request = ErrText (lit ''idempotency key reused with different request'')"

definition in_progress :: app_err where
  "in_progress = ErrText (lit ''idempotent request already in progress'')"

text \<open>A new record; when it cannot be saved, another request may have saved one.\<close>

definition start_record ::
  "book_config \<Rightarrow> gotime \<Rightarrow> gostr \<Rightarrow> gostr \<Rightarrow> gostr \<Rightarrow> gostr \<Rightarrow> gostr \<Rightarrow> book_app \<Rightarrow> (app_err + begun) \<times> book_app" where
  "start_record c now new_id scope actor key request_hash a =
     (let record = \<lparr>ir_id = new_id, ir_scope = scope, ir_actor_id = trim_space actor, ir_key = key,
                    ir_request_hash = request_hash, ir_resource_type = [], ir_resource_id = [], ir_status_code = 0,
                    ir_state = IdemProcessing, ir_response = [], ir_created_at = now, ir_updated_at = now\<rparr>
      in case store_call (save_idempotency_record record) a of
           (Inr _, a1) \<Rightarrow> (Inr (Began record), a1)
         | (Inl e, a1) \<Rightarrow>
             (case store_call (get_idempotency_record scope actor key) a1 of
                (Inl _, a2) \<Rightarrow> (Inl e, a2)
              | (Inr None, a2) \<Rightarrow> (Inl e, a2)
              | (Inr (Some current), a2) \<Rightarrow>
                  if ir_request_hash current \<noteq> request_hash then (Inl different_request, a2)
                  else if ir_state current = IdemCompleted then replay_book c current a2
                  else (Inl in_progress, a2)))"

definition begin_book_idempotency ::
  "book_config \<Rightarrow> gotime \<Rightarrow> gostr \<Rightarrow> gostr \<Rightarrow> gostr \<Rightarrow> gostr \<Rightarrow> gostr \<Rightarrow> book_app \<Rightarrow> (app_err + begun) \<times> book_app" where
  "begin_book_idempotency c now new_id scope actor key0 request_hash a =
     (let key = trim_space key0 in
      if key = [] then (Inl (ErrText (lit ''idempotency key required'')), a)
      else
        case store_call (get_idempotency_record scope actor key) a of
          (Inl e, a1) \<Rightarrow> (Inl e, a1)
        | (Inr (Some record), a1) \<Rightarrow>
            if ir_request_hash record \<noteq> request_hash then (Inl different_request, a1)
            else
              (case ir_state record of
                 IdemCompleted \<Rightarrow> replay_book c record a1
               | IdemProcessing \<Rightarrow> (Inl in_progress, a1)
               | IdemFailed \<Rightarrow>
                   let record' = record\<lparr>ir_state := IdemProcessing, ir_status_code := 0, ir_updated_at := now,
                                        ir_resource_id := [], ir_resource_type := []\<rparr>
                   in case store_call (save_idempotency_record record') a1 of
                        (Inl e, a2) \<Rightarrow> (Inl e, a2)
                      | (Inr _, a2) \<Rightarrow> (Inr (Began record'), a2))
        | (Inr None, a1) \<Rightarrow> start_record c now new_id scope actor key request_hash a1)"

definition completed_record :: "gotime \<Rightarrow> gostr \<Rightarrow> gostr \<Rightarrow> int \<Rightarrow> idem_record \<Rightarrow> idem_record" where
  "completed_record now rtype rid code record =
     record\<lparr>ir_state := IdemCompleted, ir_resource_type := rtype, ir_resource_id := rid,
            ir_status_code := code, ir_updated_at := now\<rparr>"

definition complete_book_idempotency ::
  "gotime \<Rightarrow> idem_record \<Rightarrow> gostr \<Rightarrow> gostr \<Rightarrow> int \<Rightarrow> book_app \<Rightarrow> (app_err + unit) \<times> book_app" where
  "complete_book_idempotency now record rtype rid code =
     store_call (save_idempotency_record (completed_record now (trim_space rtype) (trim_space rid) code record))"

definition mark_book_idempotency_failed ::
  "gotime \<Rightarrow> idem_record \<Rightarrow> int \<Rightarrow> book_app \<Rightarrow> (app_err + unit) \<times> book_app" where
  "mark_book_idempotency_failed now record code a =
     (if trim_space (ir_id record) = [] then (Inr (), a)
      else store_call (save_idempotency_record
             (record\<lparr>ir_state := IdemFailed, ir_status_code := code, ir_updated_at := now\<rparr>)) a)"

definition http_status_from_err :: "book_config \<Rightarrow> app_err \<Rightarrow> int" where
  "http_status_from_err c e =
     (let msg = to_lower (lw_of c) (trim_space (err_text c e)) in
      if str_contains msg (lit ''required'') \<or> str_contains msg (lit ''invalid'') \<or>
         str_contains msg (lit ''unsupported'') \<or> str_contains msg (lit ''too large'') then 400
      else if str_contains msg (lit ''not found'') then 404
      else 500)"

section \<open>The outbox\<close>

definition ingest_topic :: gostr where
  "ingest_topic = lit ''ingest.enqueue''"

definition build_ingest_outbox_message :: "gotime \<Rightarrow> gostr \<Rightarrow> gostr \<Rightarrow> int \<Rightarrow> outbox_message" where
  "build_ingest_outbox_message now new_id bid gen =
     \<lparr>om_id = new_id, om_topic = ingest_topic, om_resource_type = lit ''book'', om_resource_id = bid,
      om_payload = Some (bid, gen), om_attempts = 0, om_last_error = [], om_available_at = now,
      om_locked_at = None, om_dispatched_at = None, om_created_at = now, om_updated_at = now\<rparr>"

text \<open>A value of an \<open>int64\<close>, which wraps around.\<close>

definition int64 :: "int \<Rightarrow> int" where
  "int64 x = (x + 2 ^ 63) mod 2 ^ 64 - 2 ^ 63"

definition backoff_for_attempt :: "int \<Rightarrow> duration" where
  "backoff_for_attempt attempt =
     (if attempt \<le> 1 then 2 * second
      else let delay = int64 (int64 (attempt * attempt) * second) in
        if 5 * 60 * second < delay then 5 * 60 * second else delay)"

definition dispatch_one :: "book_config \<Rightarrow> gotime \<Rightarrow> outbox_message \<Rightarrow> book_app \<Rightarrow> book_app" where
  "dispatch_one c now item a =
     (case om_payload item of
        None \<Rightarrow> snd (store_call (release_outbox_message now (om_id item) (bc_json_error c) (now + 60 * 60 * second)) a)
      | Some (bid, gen) \<Rightarrow>
          (case ingest_enqueue bid gen a of
             (Inl e, a1) \<Rightarrow>
               snd (store_call (release_outbox_message now (om_id item) (err_text c e)
                      (now + backoff_for_attempt (om_attempts item))) a1)
           | (Inr _, a1) \<Rightarrow> snd (store_call (mark_outbox_dispatched now (om_id item)) a1)))"

definition dispatch_pending_ingest_outbox :: "book_config \<Rightarrow> gotime \<Rightarrow> int \<Rightarrow> book_app \<Rightarrow> book_app" where
  "dispatch_pending_ingest_outbox c now limit a =
     (case store_call (claim_outbox_messages now ingest_topic limit (30 * second)) a of
        (Inl _, a1) \<Rightarrow> a1
      | (Inr items, a1) \<Rightarrow> fold (dispatch_one c now) items a1)"

section \<open>Uploads\<close>

definition check_upload ::
  "book_config \<Rightarrow> gostr \<Rightarrow> int \<Rightarrow> gostr \<Rightarrow> gostr list \<Rightarrow> app_err + (gostr \<times> gostr list)" where
  "check_upload c filename nbytes category tags =
     (if filename = [] then Inl (ErrText (lit ''filename required''))
      else if \<not> is_extension_allowed c filename then Inl (ErrText (lit ''unsupported file type''))
      else if 0 < bc_max_upload_bytes c \<and> 0 < nbytes \<and> bc_max_upload_bytes c < nbytes then
        Inl (ErrText (lit ''file too large''))
      else
        case normalize_primary_category (lw_of c) category of
          Inl e \<Rightarrow> Inl e
        | Inr cat \<Rightarrow>
            (case normalize_book_tags (lw_of c) tags of Inl e \<Rightarrow> Inl e | Inr ts \<Rightarrow> Inr (cat, ts)))"

definition new_book ::
  "book_config \<Rightarrow> gotime \<Rightarrow> gostr \<Rightarrow> gostr \<Rightarrow> gostr \<Rightarrow> int \<Rightarrow> gostr \<Rightarrow> gostr list \<Rightarrow> book" where
  "new_book c now bid owner filename nbytes category tags =
     \<lparr>bo_id = bid, bo_owner_id = owner, bo_title = title_from_name filename,
      bo_original_filename = file_base filename, bo_primary_category = category, bo_tags = tags,
      bo_format = detect_book_format (lw_of c) filename, bo_language = lit ''unknown'', bo_document_type = [],
      bo_document_summary = [], bo_first_page_text = [], bo_keywords = [], bo_entities = [], bo_facts = [],
      bo_storage_key = build_storage_key bid filename, bo_status = BookQueued, bo_error_message = [],
      bo_size_bytes = nbytes, bo_created_at = now, bo_updated_at = now, bo_deleted_at = None,
      bo_cleanup_status = None, bo_cleanup_error = [], bo_cleanup_attempts = 0, bo_cleanup_updated_at = None,
      bo_generation = 1\<rparr>"

text \<open>\<open>ids\<close>: the IDs of the record, the book and the outbox message.  The result says whether it is a replay.\<close>

definition upload_book ::
  "book_config \<Rightarrow> gotime \<Rightarrow> gostr \<times> gostr \<times> gostr \<Rightarrow> gostr \<Rightarrow> gostr \<Rightarrow> int \<Rightarrow> gostr \<Rightarrow> gostr list \<Rightarrow> gostr \<Rightarrow>
   book_app \<Rightarrow> (app_err + (book \<times> bool)) \<times> book_app" where
  "upload_book c now ids owner filename nbytes category0 tags0 key a =
     (let (rid, bid, mid) = ids in
      case check_upload c filename nbytes category0 tags0 of
        Inl e \<Rightarrow> (Inl e, a)
      | Inr (category, tags) \<Rightarrow>
          (case begin_book_idempotency c now rid (lit ''book.upload'') owner key
                  (upload_request_hash c owner filename nbytes category tags) a of
             (Inl e, a1) \<Rightarrow> (Inl e, a1)
           | (Inr (Replayed _ b), a1) \<Rightarrow> (Inr (b, True), a1)
           | (Inr (Began record), a1) \<Rightarrow>
               let book = new_book c now bid owner filename nbytes category tags in
               (case put_object (bo_storage_key book) a1 of
                  (Inl e, a2) \<Rightarrow>
                    (Inl (ErrWrap (lit ''save file'') e),
                     snd (mark_book_idempotency_failed now record (http_status_from_err c e) a2))
                | (Inr _, a2) \<Rightarrow>
                    (case store_call (save_book_and_outbox (lw_of c) book
                            (Some (completed_record now (lit ''book'') bid 201 record))
                            (Some (build_ingest_outbox_message now mid bid 1))) a2 of
                       (Inl e, a3) \<Rightarrow>
                         let a4 = snd (delete_object (bo_storage_key book) a3) in
                         (Inl (ErrWrap (lit ''save book'') e),
                          snd (mark_book_idempotency_failed now record (http_status_from_err c e) a4))
                     | (Inr _, a3) \<Rightarrow>
                         (Inr (book, False), dispatch_pending_ingest_outbox c now 1 a3)))))"

section \<open>Reading and changing books\<close>

definition app_list_books ::
  "book_config \<Rightarrow> gostr \<Rightarrow> bool \<Rightarrow> book_list_options \<Rightarrow> book_app \<Rightarrow> (app_err + book list) \<times> book_app" where
  "app_list_books c user_id is_admin opts a =
     (let lw = lw_of c;
          opts' = opts\<lparr>bl_query := trim_space (bl_query opts), bl_status := trim_space (to_lower lw (bl_status opts)),
             bl_primary_category := trim_space (to_lower lw (bl_primary_category opts)),
             bl_tag := trim_space (bl_tag opts), bl_format := trim_space (to_lower lw (bl_format opts)),
             bl_language := trim_space (to_lower lw (bl_language opts)),
             bl_owner_id := (if is_admin then bl_owner_id opts else user_id)\<rparr>
      in case store_call (list_books_with_options lw (bc_json_quoted c) opts') a of
           (Inl e, a1) \<Rightarrow> (Inl e, a1)
         | (Inr (items, _), a1) \<Rightarrow> (Inr items, a1))"

definition book_not_found :: app_err where
  "book_not_found = ErrText (lit ''book not found'')"

text \<open>The book with an ID, or the error that it is not found.\<close>

definition need_book :: "book_config \<Rightarrow> gostr \<Rightarrow> book_app \<Rightarrow> (app_err + book) \<times> book_app" where
  "need_book c bid a =
     (case store_call (get_book (lw_of c) bid) a of
        (Inl e, a1) \<Rightarrow> (Inl e, a1)
      | (Inr None, a1) \<Rightarrow> (Inl book_not_found, a1)
      | (Inr (Some b), a1) \<Rightarrow> (Inr b, a1))"

definition edit_book ::
  "book_config \<Rightarrow> gotime \<Rightarrow> gostr \<Rightarrow> gostr \<Rightarrow> gostr list \<Rightarrow> book \<Rightarrow> app_err + book" where
  "edit_book c now title category tags b =
     (case normalize_book_title title of
        Inl e \<Rightarrow> Inl e
      | Inr t \<Rightarrow>
     (case normalize_primary_category (lw_of c) category of
        Inl e \<Rightarrow> Inl e
      | Inr cat \<Rightarrow>
     (case normalize_book_tags (lw_of c) tags of
        Inl e \<Rightarrow> Inl e
      | Inr ts \<Rightarrow>
          Inr (b\<lparr>bo_title := t, bo_primary_category := cat, bo_tags := ts, bo_updated_at := now\<rparr>))))"

text \<open>\<open>UpdateBook\<close> reads the book and then saves it: two calls, given apart because others may come between.\<close>

definition update_book_save :: "book_config \<Rightarrow> book \<Rightarrow> book_app \<Rightarrow> (app_err + book) \<times> book_app" where
  "update_book_save c b a =
     (case store_call (save_book (lw_of c) b) a of
        (Inl e, a1) \<Rightarrow> (Inl (ErrWrap (lit ''save book'') e), a1)
      | (Inr _, a1) \<Rightarrow> (Inr b, a1))"

definition update_book ::
  "book_config \<Rightarrow> gotime \<Rightarrow> gostr \<Rightarrow> gostr \<Rightarrow> gostr \<Rightarrow> gostr list \<Rightarrow> book_app \<Rightarrow> (app_err + book) \<times> book_app" where
  "update_book c now bid title category tags a =
     (case need_book c bid a of
        (Inl e, a1) \<Rightarrow> (Inl e, a1)
      | (Inr b, a1) \<Rightarrow>
          (case edit_book c now title category tags b of
             Inl e \<Rightarrow> (Inl e, a1)
           | Inr b' \<Rightarrow> update_book_save c b' a1))"

text \<open>\<open>presign\<close> is the object store's answer to the key and the file name.\<close>

definition get_download_url ::
  "book_config \<Rightarrow> (gostr \<Rightarrow> gostr \<Rightarrow> app_err + gostr) \<Rightarrow> gostr \<Rightarrow> book_app \<Rightarrow> (app_err + (gostr \<times> gostr)) \<times> book_app" where
  "get_download_url c presign bid a =
     (case need_book c bid a of
        (Inl e, a1) \<Rightarrow> (Inl e, a1)
      | (Inr b, a1) \<Rightarrow>
          (if trim_space (bo_storage_key b) = [] then Inl (ErrText (lit ''storage key missing''))
           else case presign (bo_storage_key b) (bo_original_filename b) of
                  Inl e \<Rightarrow> Inl e
                | Inr url \<Rightarrow> Inr (url, bo_original_filename b), a1))"

definition update_status ::
  "gotime \<Rightarrow> gostr \<Rightarrow> book_status \<Rightarrow> gostr \<Rightarrow> int \<Rightarrow> book_app \<Rightarrow> (app_err + unit) \<times> book_app" where
  "update_status now bid status err_msg gen a =
     (if 0 < gen then
        (case store_call (set_status_if_generation now bid gen status err_msg) a of
           (Inl e, a1) \<Rightarrow> (Inl e, a1)
         | (Inr applied, a1) \<Rightarrow> (if applied then Inr () else Inl ErrStaleGeneration, a1))
      else store_call (set_status now bid status err_msg) a)"

record index_summary =
  ix_book_id :: gostr
  ix_total :: nat
  ix_pending :: nat
  ix_synced :: nat
  ix_failed :: nat
  ix_items :: "chunk_index_status list"

definition count_status :: "chunk_index_status \<Rightarrow> index_summary \<Rightarrow> index_summary" where
  "count_status item sm =
     (let s1 = sm\<lparr>ix_total := ix_total sm + 1\<rparr> in
      if ci_open_search item = SyncFailed \<or> ci_qdrant item = SyncFailed then s1\<lparr>ix_failed := ix_failed s1 + 1\<rparr>
      else if ci_open_search item = SyncSynced \<and> ci_qdrant item = SyncSynced then s1\<lparr>ix_synced := ix_synced s1 + 1\<rparr>
      else s1\<lparr>ix_pending := ix_pending s1 + 1\<rparr>)"

definition get_book_index_status_summary ::
  "book_config \<Rightarrow> gostr \<Rightarrow> book_app \<Rightarrow> (app_err + index_summary) \<times> book_app" where
  "get_book_index_status_summary c bid a =
     (case need_book c bid a of
        (Inl e, a1) \<Rightarrow> (Inl e, a1)
      | (Inr b, a1) \<Rightarrow>
          (case store_call (list_chunk_index_statuses_by_book (bo_id b)) a1 of
             (Inl e, a2) \<Rightarrow> (Inl e, a2)
           | (Inr items, a2) \<Rightarrow>
               (Inr (fold count_status items
                  \<lparr>ix_book_id = bo_id b, ix_total = 0, ix_pending = 0, ix_synced = 0, ix_failed = 0, ix_items = items\<rparr>), a2)))"

section \<open>Deleting and cleaning up\<close>

text \<open>\<open>UpdateBookCleanup\<close> as a call: its statements are calls of their own.\<close>

definition cleanup_call ::
  "gotime \<Rightarrow> gostr \<Rightarrow> cleanup_status \<Rightarrow> gostr \<Rightarrow> bool \<Rightarrow> book_app \<Rightarrow> (app_err + unit) \<times> book_app" where
  "cleanup_call now bid status err_msg increment a =
     (let (r, d) = update_book_cleanup now bid status err_msg increment (ba_db a) in
      (case r of Inl e \<Rightarrow> Inl (ErrDb e) | Inr x \<Rightarrow> Inr x, a\<lparr>ba_db := d\<rparr>))"

definition app_delete_book :: "book_config \<Rightarrow> gotime \<Rightarrow> gostr \<Rightarrow> book_app \<Rightarrow> (app_err + unit) \<times> book_app" where
  "app_delete_book c now bid a =
     (case store_call (get_book_including_deleted (lw_of c) bid) a of
        (Inl e, a1) \<Rightarrow> (Inl e, a1)
      | (Inr None, a1) \<Rightarrow> (Inr (), a1)
      | (Inr (Some b), a1) \<Rightarrow>
          if bo_deleted_at b \<noteq> None then
            (if bo_cleanup_status b = Some CleanupFailed then cleanup_call now bid CleanupQueued [] False a1
             else (Inr (), a1))
          else store_call (mark_book_deleted now bid CleanupQueued) a1)"

definition cleanup_deleted_book :: "book_config \<Rightarrow> gotime \<Rightarrow> book \<Rightarrow> book_app \<Rightarrow> book_app" where
  "cleanup_deleted_book c now b a =
     (let fail = (\<lambda>e a. snd (cleanup_call now (bo_id b) CleanupFailed (err_text c e) False a)) in
      case (if bc_search c then delete_by_book (bo_id b) a else (Inr (), a)) of
        (Inl e, a1) \<Rightarrow> fail e a1
      | (Inr _, a1) \<Rightarrow>
     (case delete_object (bo_storage_key b) a1 of
        (Inl e, a2) \<Rightarrow> fail e a2
      | (Inr _, a2) \<Rightarrow>
     (case store_call (delete_book (bo_id b)) a2 of
        (Inl e, a3) \<Rightarrow> fail e a3
      | (Inr _, a3) \<Rightarrow> a3)))"

definition cleanup_deleted_books :: "book_config \<Rightarrow> gotime \<Rightarrow> book_app \<Rightarrow> book_app" where
  "cleanup_deleted_books c now a =
     (case store_call (claim_books_pending_cleanup (lw_of c) now 10) a of
        (Inl _, a1) \<Rightarrow> a1
      | (Inr books, a1) \<Rightarrow> fold (cleanup_deleted_book c now) books a1)"

section \<open>Reprocessing\<close>

text \<open>The next generation, an \<open>int64\<close>.\<close>

definition next_generation :: "int \<Rightarrow> int" where
  "next_generation g =
     (let g' = int64 (g + 1) in if g' \<le> 0 then 1 else g')"

definition requeued_book :: "gotime \<Rightarrow> book \<Rightarrow> book" where
  "requeued_book now b =
     b\<lparr>bo_status := BookQueued, bo_error_message := [], bo_updated_at := now,
       bo_generation := next_generation (bo_generation b)\<rparr>"

text \<open>\<open>ids\<close>: the IDs of the record and the outbox message.\<close>

definition reprocess_book ::
  "book_config \<Rightarrow> gotime \<Rightarrow> gostr \<times> gostr \<Rightarrow> gostr \<Rightarrow> gostr \<Rightarrow> gostr \<Rightarrow> book_app \<Rightarrow> (app_err + (book \<times> bool)) \<times> book_app" where
  "reprocess_book c now ids actor bid key a =
     (let (rid, mid) = ids in
      case need_book c bid a of
        (Inl e, a0) \<Rightarrow> (Inl e, a0)
      | (Inr _, a0) \<Rightarrow>
     (case begin_book_idempotency c now rid (lit ''book.reprocess'') actor key
             (hash_strings (bc_sha c) [bid, lit ''{}'']) a0 of
        (Inl e, a1) \<Rightarrow> (Inl e, a1)
      | (Inr (Replayed _ b), a1) \<Rightarrow> (Inr (b, True), a1)
      | (Inr (Began record), a1) \<Rightarrow>
     (case need_book c bid a1 of
        (Inl e, a2) \<Rightarrow> (Inl e, a2)
      | (Inr current, a2) \<Rightarrow>
          if bo_status current = BookQueued \<or> bo_status current = BookProcessing then
            (Inr (current, False), snd (complete_book_idempotency now record (lit ''book'') (bo_id current) 200 a2))
          else
            let b = requeued_book now current in
            (case store_call (save_book_and_outbox (lw_of c) b
                    (Some (completed_record now (lit ''book'') (bo_id b) 200 record))
                    (Some (build_ingest_outbox_message now mid (bo_id b) (bo_generation b)))) a2 of
               (Inl e, a3) \<Rightarrow> (Inl e, snd (mark_book_idempotency_failed now record (http_status_from_err c e) a3))
             | (Inr _, a3) \<Rightarrow>
                 (case need_book c bid (dispatch_pending_ingest_outbox c now 1 a3) of
                    (Inl e, a4) \<Rightarrow> (Inl e, a4)
                  | (Inr updated, a4) \<Rightarrow> (Inr (updated, False), a4))))))"

definition repair_book_index ::
  "book_config \<Rightarrow> gotime \<Rightarrow> gostr \<times> gostr \<Rightarrow> gostr \<Rightarrow> gostr \<Rightarrow> gostr \<Rightarrow> book_app \<Rightarrow> (app_err + (book \<times> bool)) \<times> book_app" where
  "repair_book_index c now ids actor bid key a =
     (case get_book_index_status_summary c bid a of
        (Inl e, a1) \<Rightarrow> (Inl e, a1)
      | (Inr _, a1) \<Rightarrow> reprocess_book c now ids actor bid key a1)"

end
