(* ===== verification/BookAppFacts.thy ===== *)
theory BookAppFacts
  imports BookApp BookSpec
begin

text \<open>
  The facts on the book service: what a call of the store can do to the tables, dispatching, uploads and
  their idempotency, cleanup, and the properties of the operations.
\<close>

section \<open>Calls\<close>

lemma store_call_frame [simp]:
  "ba_objects (snd (store_call f a)) = ba_objects a"
  "ba_object_calls (snd (store_call f a)) = ba_object_calls a"
  "ba_indexed (snd (store_call f a)) = ba_indexed a"
  "ba_search_calls (snd (store_call f a)) = ba_search_calls a"
  "ba_enqueued (snd (store_call f a)) = ba_enqueued a"
  "ba_enqueue_calls (snd (store_call f a)) = ba_enqueue_calls a"
  by (simp_all add: store_call_def split: prod.splits)

definition tabs :: "book_app \<Rightarrow> tables" where
  "tabs a = fst (ba_db a)"

text \<open>Whatever happens to a call, the tables are the old ones or those its statement leaves.\<close>

lemma store_call_tabs:
  assumes "\<And>x t'. f (tabs a) = (Inr x, t') \<Longrightarrow> P t'" "P (tabs a)"
  shows "P (tabs (snd (store_call f a)))"
proof -
  obtain t os where d: "ba_db a = (t, os)" by (cases "ba_db a")
  have "P (fst (snd (db_call f (t, os))))"
    by (rule db_call_inv) (use assms d in \<open>auto simp: tabs_def\<close>)
  moreover obtain r t' os' where "db_call f (t, os) = (r, (t', os'))" by (metis surj_pair)
  ultimately show ?thesis by (simp add: store_call_def tabs_def d)
qed

lemma store_call_ok:
  assumes "store_call f a = (Inr x, a')"
  shows "f (tabs a) = (Inr x, tabs a')"
proof -
  obtain t os where d: "ba_db a = (t, os)" by (cases "ba_db a")
  obtain r t' os' where c: "db_call f (t, os) = (r, (t', os'))" by (metis surj_pair)
  have "r = Inr x" "a' = a\<lparr>ba_db := (t', os')\<rparr>" using assms by (auto simp: store_call_def d c split: sum.splits)
  then show ?thesis using db_call_result [of f t os x t' os'] c d by (simp add: tabs_def)
qed

lemma store_call_query:
  "(\<And>x t'. f (tabs a) = (Inr x, t') \<Longrightarrow> t' = tabs a) \<Longrightarrow> tabs (snd (store_call f a)) = tabs a"
  by (rule store_call_tabs [where P = "\<lambda>t. t = tabs a"]) auto

text \<open>Without faults, a call is its statement.\<close>

definition healthy :: "book_app \<Rightarrow> bool" where
  "healthy a \<longleftrightarrow> snd (ba_db a) = []"

lemma store_call_healthy:
  assumes "healthy a" "f (tabs a) = (Inr x, t')"
  shows "store_call f a = (Inr x, a\<lparr>ba_db := (t', [])\<rparr>)"
  using assms by (cases "ba_db a") (simp add: store_call_def healthy_def tabs_def)

lemma tabs_set [simp]: "tabs (a\<lparr>ba_db := (t, os)\<rparr>) = t"
  by (simp add: tabs_def)

lemma healthy_set [simp]: "healthy (a\<lparr>ba_db := (t, [])\<rparr>)"
  by (simp add: healthy_def)

lemma update_where_none: "(\<And>r. r \<in> set rows \<Longrightarrow> \<not> P r) \<Longrightarrow> update_where P f rows = rows"
  by (simp add: update_where_def map_idI)

lemma ingest_enqueue_frame [simp]: "ba_db (snd (ingest_enqueue bid gen a)) = ba_db a"
  by (simp add: ingest_enqueue_def split: prod.splits)

lemma ingest_enqueue_grows: "set (ba_enqueued a) \<subseteq> set (ba_enqueued (snd (ingest_enqueue bid gen a)))"
  by (auto simp: ingest_enqueue_def split: prod.splits)

lemma ingest_enqueue_ok: "fst (ingest_enqueue bid gen a) = Inr () \<Longrightarrow> (bid, gen) \<in> set (ba_enqueued (snd (ingest_enqueue bid gen a)))"
  by (auto simp: ingest_enqueue_def call_result_def takes_effect_def split: prod.splits call_outcome.splits)

section \<open>Dispatching\<close>

text \<open>Every dispatched message is a request that the ingest service accepted; the IDs are trimmed.\<close>

definition delivered_set :: "(gostr \<times> int) set \<Rightarrow> tables \<Rightarrow> bool" where
  "delivered_set accepted t \<longleftrightarrow>
     (\<forall>m\<in>set (tb_outbox t). trim_space (om_id m) = om_id m \<and>
        (om_dispatched_at m \<noteq> None \<longrightarrow> (\<forall>p. om_payload m = Some p \<longrightarrow> p \<in> accepted)))"

definition delivered :: "book_app \<Rightarrow> bool" where
  "delivered a \<longleftrightarrow> delivered_set (set (ba_enqueued a)) (tabs a)"

definition matches :: "outbox_message \<Rightarrow> tables \<Rightarrow> bool" where
  "matches item t \<longleftrightarrow> trim_space (om_id item) = om_id item \<and>
     (\<forall>m\<in>set (tb_outbox t). om_id m = om_id item \<longrightarrow> om_payload m = om_payload item)"

lemma call_delivered:
  assumes "delivered a"
    and "\<And>x t'. f (tabs a) = (Inr x, t') \<Longrightarrow> delivered_set (set (ba_enqueued a)) t'"
  shows "delivered (snd (store_call f a))"
  using store_call_tabs [where P = "delivered_set (set (ba_enqueued a))" and f = f and a = a] assms by (simp add: delivered_def)

lemma release_delivered: "delivered a \<Longrightarrow> delivered (snd (store_call (release_outbox_message now i e x) a))"
  by (rule call_delivered) (auto simp: release_outbox_message_def delivered_def delivered_set_def update_where_set)

lemma mark_delivered:
  assumes "delivered a" "matches item (tabs a)" "\<And>p. om_payload item = Some p \<Longrightarrow> p \<in> set (ba_enqueued a)"
  shows "delivered (snd (store_call (mark_outbox_dispatched now (om_id item)) a))"
  by (rule call_delivered)
    (use assms in \<open>auto simp: mark_outbox_dispatched_def delivered_def delivered_set_def matches_def update_where_set\<close>)

lemma release_matches: "matches item (tabs a) \<Longrightarrow> matches item (tabs (snd (store_call (release_outbox_message now i e x) a)))"
  by (rule store_call_tabs [where P = "matches item"])
    (auto simp: release_outbox_message_def matches_def update_where_set)

lemma mark_matches: "matches item (tabs a) \<Longrightarrow> matches item (tabs (snd (store_call (mark_outbox_dispatched now i) a)))"
  by (rule store_call_tabs [where P = "matches item"])
    (auto simp: mark_outbox_dispatched_def matches_def update_where_set)

lemma tabs_enqueue [simp]: "tabs (snd (ingest_enqueue bid gen a)) = tabs a"
  by (simp add: tabs_def)

lemma dispatch_one_keeps:
  assumes "delivered a" "matches item (tabs a)"
  shows "delivered (dispatch_one c now item a)"
proof (cases "om_payload item")
  case None
  then show ?thesis using release_delivered [OF assms(1)] by (simp add: dispatch_one_def)
next
  case (Some p)
  obtain bid gen where p: "p = (bid, gen)" by (cases p)
  obtain r a1 where e: "ingest_enqueue bid gen a = (r, a1)" by (metis surj_pair)
  have d1: "delivered a1" and m1: "matches item (tabs a1)"
    using assms ingest_enqueue_grows [of a bid gen] tabs_enqueue [of bid gen a] e by (auto simp: delivered_def delivered_set_def)
  show ?thesis
  proof (cases r)
    case (Inl x)
    then show ?thesis using release_delivered [OF d1] e by (simp add: dispatch_one_def Some p)
  next
    case (Inr u)
    have "(bid, gen) \<in> set (ba_enqueued a1)" using ingest_enqueue_ok [of bid gen a] e Inr by simp
    then show ?thesis using mark_delivered [OF d1 m1] e Inr by (simp add: dispatch_one_def Some p)
  qed
qed

lemma dispatch_one_tabs:
  assumes "\<And>b i e x. P (tabs b) \<Longrightarrow> P (tabs (snd (store_call (release_outbox_message now i e x) b)))"
    and "\<And>b i. P (tabs b) \<Longrightarrow> P (tabs (snd (store_call (mark_outbox_dispatched now i) b)))"
    and "P (tabs a)"
  shows "P (tabs (dispatch_one c now item a))"
proof (cases "om_payload item")
  case None
  then show ?thesis using assms by (simp add: dispatch_one_def)
next
  case (Some p)
  obtain r a1 where e: "ingest_enqueue (fst p) (snd p) a = (r, a1)" by (metis surj_pair)
  then have "P (tabs a1)" using tabs_enqueue [of "fst p" "snd p" a] assms(3) by simp
  then show ?thesis using assms(1,2) e by (cases r) (simp_all add: dispatch_one_def Some case_prod_beta)
qed

lemma dispatch_one_matches:
  "matches item (tabs a) \<Longrightarrow> matches item (tabs (dispatch_one c now other a))"
  by (rule dispatch_one_tabs) (auto intro: release_matches mark_matches)

lemma dispatch_fold_delivered:
  "delivered a \<Longrightarrow> (\<And>item. item \<in> set items \<Longrightarrow> matches item (tabs a)) \<Longrightarrow>
   delivered (fold (dispatch_one c now) items a)"
  by (induction items arbitrary: a) (auto intro: dispatch_one_keeps dispatch_one_matches)

lemma dispatch_delivered:
  assumes "delivered a" "distinct (map om_id (tb_outbox (tabs a)))"
  shows "delivered (dispatch_pending_ingest_outbox c now limit a)"
proof -
  obtain r a1 where c: "store_call (claim_outbox_messages now ingest_topic limit (30 * second)) a = (r, a1)" by (metis surj_pair)
  have "delivered (snd (store_call (claim_outbox_messages now ingest_topic limit (30 * second)) a))"
    by (rule call_delivered)
      (use assms(1) in \<open>auto simp: claim_outbox_messages_def delivered_def delivered_set_def update_where_set lock_message_def Let_def\<close>)
  then have d1: "delivered a1" using c by simp
  show ?thesis
  proof (cases r)
    case (Inl e)
    then show ?thesis using d1 c by (simp add: dispatch_pending_ingest_outbox_def)
  next
    case (Inr items)
    from store_call_ok [OF c [unfolded Inr]]
    obtain rows where rows: "items = map (lock_message now) rows" "set rows \<subseteq> set (tb_outbox (tabs a))"
      "tb_outbox (tabs a1) = update_where (\<lambda>m. om_id m \<in> om_id ` set rows) (lock_message now) (tb_outbox (tabs a))"
      by (elim claim_rows)
    have same: "m = m'" if "m \<in> set (tb_outbox (tabs a))" "m' \<in> set (tb_outbox (tabs a))" "om_id m = om_id m'" for m m'
      using assms(2) that by (auto simp: distinct_map inj_on_def)
    have "matches item (tabs a1)" if item: "item \<in> set items" for item
    proof -
      obtain row where row: "row \<in> set (tb_outbox (tabs a))" "item = lock_message now row" using item rows(1,2) by auto
      have "om_payload m = om_payload row" if m: "m \<in> set (tb_outbox (tabs a1))" "om_id m = om_id row" for m
      proof -
        obtain m0 where "m0 \<in> set (tb_outbox (tabs a))" "om_id m0 = om_id m" "om_payload m0 = om_payload m"
          using m(1) unfolding rows(3) update_where_set by (auto simp: lock_message_def split: if_splits)
        then show ?thesis using same [of m0 row] row(1) m(2) by auto
      qed
      moreover have "trim_space (om_id row) = om_id row" using assms(1) row(1) by (simp add: delivered_def delivered_set_def)
      ultimately show ?thesis by (simp add: matches_def row(2) lock_message_def)
    qed
    then show ?thesis using dispatch_fold_delivered [OF d1] c Inr by (simp add: dispatch_pending_ingest_outbox_def)
  qed
qed

text \<open>What the three statements on the outbox keep, dispatching keeps.\<close>

lemma dispatch_tabs:
  assumes rel: "\<And>b i e x. P (tabs b) \<Longrightarrow> P (tabs (snd (store_call (release_outbox_message now i e x) b)))"
    and mark: "\<And>b i. P (tabs b) \<Longrightarrow> P (tabs (snd (store_call (mark_outbox_dispatched now i) b)))"
    and claim: "\<And>b. P (tabs b) \<Longrightarrow> P (tabs (snd (store_call (claim_outbox_messages now ingest_topic limit (30 * second)) b)))"
    and a: "P (tabs a)"
  shows "P (tabs (dispatch_pending_ingest_outbox c now limit a))"
proof -
  obtain r a1 where c: "store_call (claim_outbox_messages now ingest_topic limit (30 * second)) a = (r, a1)" by (metis surj_pair)
  then have p: "P (tabs a1)" using claim [OF a] by simp
  have "P (tabs (fold (dispatch_one c now) items b))" if "P (tabs b)" for items b
    using that by (induction items arbitrary: b) (simp_all add: dispatch_one_tabs [where P = P, OF rel mark])
  then show ?thesis using c p by (cases r) (simp_all add: dispatch_pending_ingest_outbox_def)
qed

lemma outbox_call_frame:
  assumes "\<And>t x t'. f t = (Inr x, t') \<Longrightarrow> \<exists>os. t' = t\<lparr>tb_outbox := os\<rparr>" "\<exists>os. tabs b = t0\<lparr>tb_outbox := os\<rparr>"
  shows "\<exists>os. tabs (snd (store_call f b)) = t0\<lparr>tb_outbox := os\<rparr>"
proof (rule store_call_tabs [where P = "\<lambda>t. \<exists>os. t = t0\<lparr>tb_outbox := os\<rparr>"])
  fix x t' assume "f (tabs b) = (Inr x, t')"
  then obtain os where "t' = (tabs b)\<lparr>tb_outbox := os\<rparr>" using assms(1) by blast
  then show "\<exists>os. t' = t0\<lparr>tb_outbox := os\<rparr>" using assms(2) by auto
qed (rule assms(2))

lemma dispatch_frame: "\<exists>os. tabs (dispatch_pending_ingest_outbox c now limit a) = (tabs a)\<lparr>tb_outbox := os\<rparr>"
proof (rule dispatch_tabs [where P = "\<lambda>t. \<exists>os. t = (tabs a)\<lparr>tb_outbox := os\<rparr>"])
  show "\<exists>os. tabs a = (tabs a)\<lparr>tb_outbox := os\<rparr>" by (rule exI [of _ "tb_outbox (tabs a)"]) simp
  fix b i e x assume b: "\<exists>os. tabs b = (tabs a)\<lparr>tb_outbox := os\<rparr>"
  show "\<exists>os. tabs (snd (store_call (release_outbox_message now i e x) b)) = (tabs a)\<lparr>tb_outbox := os\<rparr>"
    by (rule outbox_call_frame [OF _ b]) (auto simp: release_outbox_message_def)
  show "\<exists>os. tabs (snd (store_call (mark_outbox_dispatched now i) b)) = (tabs a)\<lparr>tb_outbox := os\<rparr>"
    by (rule outbox_call_frame [OF _ b]) (auto simp: mark_outbox_dispatched_def)
  show "\<exists>os. tabs (snd (store_call (claim_outbox_messages now ingest_topic limit (30 * second)) b)) = (tabs a)\<lparr>tb_outbox := os\<rparr>"
    by (rule outbox_call_frame [OF _ b]) (auto simp: claim_outbox_messages_def Let_def)
qed

lemma dispatch_tables_ok: "tables_ok (tabs a) \<Longrightarrow> tables_ok (tabs (dispatch_pending_ingest_outbox c now limit a))"
  by (rule dispatch_tabs [where P = tables_ok]) (rule store_call_tabs [where P = tables_ok]; (erule (1) simple_ops_ok | assumption))+

section \<open>Beginning a request\<close>

lemma get_idempotency_tabs: "tabs (snd (store_call (get_idempotency_record scope actor key) a)) = tabs a"
  by (rule store_call_query) (simp add: get_idempotency_record_def)

lemma get_book_tabs: "tabs (snd (store_call (get_book lw bid) a)) = tabs a"
  by (rule store_call_query) (simp add: get_book_def)

lemma save_idem_tabs:
  assumes "tables_ok (tabs a)"
  shows "tables_ok (tabs (snd (store_call (save_idempotency_record r) a))) \<and>
    tb_books (tabs (snd (store_call (save_idempotency_record r) a))) = tb_books (tabs a)"
proof (rule store_call_tabs [where P = "\<lambda>t. tables_ok t \<and> tb_books t = tb_books (tabs a)"])
  fix x t' assume "save_idempotency_record r (tabs a) = (Inr x, t')"
  then show "tables_ok t' \<and> tb_books t' = tb_books (tabs a)"
    using save_idem_ok [OF assms] books_same(1) [of r "tabs a"] by (metis snd_conv)
qed (use assms in simp)

lemma not_began_replay: "replay_book c idem a \<noteq> (Inr (Began r), a1)"
  by (auto simp: replay_book_def split: prod.splits sum.splits option.splits)

lemma start_began:
  assumes "start_record c now rid scope actor key h a = (Inr (Began idem), a1)" "tables_ok (tabs a)"
  shows "idem_triple (idem_to_model idem) = (trim_space scope, trim_space actor, trim_space key) \<and>
    ir_request_hash idem = h \<and> tables_ok (tabs a1) \<and> tb_books (tabs a1) = tb_books (tabs a)"
proof -
  define rec where "rec = \<lparr>ir_id = rid, ir_scope = scope, ir_actor_id = trim_space actor, ir_key = key,
    ir_request_hash = h, ir_resource_type = [], ir_resource_id = [], ir_status_code = 0,
    ir_state = IdemProcessing, ir_response = [], ir_created_at = now, ir_updated_at = now\<rparr>"
  obtain r a2 where c: "store_call (save_idempotency_record rec) a = (r, a2)" by (metis surj_pair)
  have ok: "tables_ok (tabs a2) \<and> tb_books (tabs a2) = tb_books (tabs a)" using save_idem_tabs [OF assms(2), of rec] c by simp
  have "idem = rec \<and> a1 = a2"
    using assms(1) unfolding start_record_def rec_def [symmetric] Let_def c
    by (auto simp: not_began_replay split: sum.splits prod.splits option.splits if_splits)
  then show ?thesis using ok by (simp add: rec_def idem_triple_def idem_to_model_def)
qed

lemma begin_began:
  assumes "begin_book_idempotency c now rid scope actor key h a = (Inr (Began idem), a1)" "tables_ok (tabs a)"
  shows "idem_triple (idem_to_model idem) = (trim_space scope, trim_space actor, trim_space key) \<and>
    ir_request_hash idem = h \<and> tables_ok (tabs a1) \<and> tb_books (tabs a1) = tb_books (tabs a) \<and> trim_space key \<noteq> []"
proof -
  have key: "trim_space key \<noteq> []" using assms(1) by (auto simp: begin_book_idempotency_def)
  obtain r a2 where c: "store_call (get_idempotency_record scope actor (trim_space key)) a = (r, a2)" by (metis surj_pair)
  have t2: "tabs a2 = tabs a" using get_idempotency_tabs [of scope actor "trim_space key" a] c by simp
  show ?thesis
  proof (cases r)
    case (Inl e)
    then show ?thesis using assms(1) c key by (simp add: begin_book_idempotency_def)
  next
    case (Inr found)
    show ?thesis
    proof (cases found)
      case None
      then have "start_record c now rid scope actor (trim_space key) h a2 = (Inr (Began idem), a1)"
        using assms(1) c Inr key by (simp add: begin_book_idempotency_def)
      from start_began [OF this] show ?thesis using assms(2) t2 key by simp
    next
      case (Some old)
      have old: "idem_triple old = (trim_space scope, trim_space actor, trim_space key)"
        using store_call_ok [OF c [unfolded Inr Some]]
        by (auto simp: get_idempotency_record_def find_Some_iff dest: sym)
      define rec where "rec = old\<lparr>ir_state := IdemProcessing, ir_status_code := 0, ir_updated_at := now,
        ir_resource_id := [], ir_resource_type := []\<rparr>"
      obtain r3 a3 where c3: "store_call (save_idempotency_record rec) a2 = (r3, a3)" by (metis surj_pair)
      have ok: "tables_ok (tabs a3) \<and> tb_books (tabs a3) = tb_books (tabs a)"
        using save_idem_tabs [of a2 rec] c3 t2 assms(2) by simp
      have "idem = rec \<and> a1 = a3 \<and> ir_request_hash old = h"
        using assms(1) c Inr Some key c3
        by (auto simp: begin_book_idempotency_def rec_def [symmetric] not_began_replay Let_def
            split: idem_state.splits sum.splits if_splits)
      then show ?thesis using ok old key by (simp add: rec_def idem_triple_def idem_to_model_def)
    qed
  qed
qed

text \<open>After an upsert of a record, the record is found under its scope, actor and key.\<close>

lemma saved_record:
  assumes "save_idempotency_record r t = (Inr x, t')"
  shows "\<exists>r'\<in>set (tb_idempotency t'). r' = idem_to_model r \<or> r' = (idem_to_model r)\<lparr>ir_created_at := ir_created_at r'\<rparr>"
proof -
  define m where "m = idem_to_model r"
  have t': "tb_idempotency t' = upsert ir_id assign_idem m (tb_idempotency t)"
    using assms by (auto simp: save_idempotency_record_def m_def Let_def split: if_splits)
  show ?thesis
  proof (cases "ir_id m \<in> set (map ir_id (tb_idempotency t))")
    case True
    then obtain old where old: "old \<in> set (tb_idempotency t)" "ir_id old = ir_id m" by auto
    then have "assign_idem old m \<in> set (tb_idempotency t')"
      using True by (force simp: t' upsert_def update_where_set)
    moreover have "assign_idem old m = m\<lparr>ir_created_at := ir_created_at (assign_idem old m)\<rparr>"
      using old(2) by (simp add: assign_idem_def)
    ultimately show ?thesis unfolding m_def by blast
  next
    case False
    then show ?thesis by (auto simp: t' upsert_def m_def)
  qed
qed

lemma saved_book:
  assumes "bo_id b \<notin> bo_id ` set (tb_books t)"
  shows "tb_books (snd (save_book lw b t)) = tb_books t @ [book_to_model lw b]"
  using assms by (simp add: save_book_def upsert_def book_to_model_def)

lemma save_book_and_outbox_effect:
  assumes "save_book_and_outbox lw b (Some r) (Some m) t = (Inr x, t')"
  obtains t2 where "save_idempotency_record r (snd (save_book lw b t)) = (Inr (), t2)" "t' = add_outbox m t2"
  using assms unfolding save_book_and_outbox_def by (auto simp: Let_def split: prod.splits sum.splits)

section \<open>Uploading\<close>

lemma put_object_tabs [simp]: "tabs (snd (put_object key a)) = tabs a"
  by (simp add: put_object_def tabs_def split: prod.splits)

lemma upload_steps:
  assumes "upload_book c now (rid, bid, mid) owner filename n category0 tags0 key a = (Inr (b, False), a')"
  obtains category tags idem a1 a2 a3 where
    "check_upload c filename n category0 tags0 = Inr (category, tags)"
    "begin_book_idempotency c now rid (lit ''book.upload'') owner key
       (upload_request_hash c owner filename n category tags) a = (Inr (Began idem), a1)"
    "b = new_book c now bid owner filename n category tags"
    "put_object (bo_storage_key b) a1 = (Inr (), a2)"
    "store_call (save_book_and_outbox (lw_of c) b (Some (completed_record now (lit ''book'') bid 201 idem))
       (Some (build_ingest_outbox_message now mid bid 1))) a2 = (Inr (), a3)"
    "a' = dispatch_pending_ingest_outbox c now 1 a3"
  using assms unfolding upload_book_def
  by (auto simp: Let_def split: sum.splits prod.splits begun.splits)

lemma trim_lit_book [simp]: "trim_space (lit ''book'') = lit ''book''" "trim_space (lit ''book.upload'') = lit ''book.upload''"
  by (simp_all add: trim_space_fix lit_Cons is_space_def)

lemma upload_done:
  assumes "upload_book c now (rid, bid, mid) owner filename n category0 tags0 key a = (Inr (b, False), a')"
    and ok: "tables_ok (tabs a)" and fresh: "bid \<notin> bo_id ` set (tb_books (tabs a))"
  obtains category tags r where
    "check_upload c filename n category0 tags0 = Inr (category, tags)" "trim_space key \<noteq> []"
    "b = new_book c now bid owner filename n category tags"
    "tb_books (tabs a') = tb_books (tabs a) @ [book_to_model (lw_of c) b]"
    "r \<in> set (tb_idempotency (tabs a'))" "idem_triple r = (lit ''book.upload'', trim_space owner, trim_space key)"
    "ir_request_hash r = trim_space (upload_request_hash c owner filename n category tags)"
    "ir_state r = IdemCompleted" "ir_resource_id r = trim_space bid" "tables_ok (tabs a')"
proof -
  from assms(1) obtain category tags idem a1 a2 a3 where
    chk: "check_upload c filename n category0 tags0 = Inr (category, tags)"
    and beg: "begin_book_idempotency c now rid (lit ''book.upload'') owner key
       (upload_request_hash c owner filename n category tags) a = (Inr (Began idem), a1)"
    and b: "b = new_book c now bid owner filename n category tags"
    and put: "put_object (bo_storage_key b) a1 = (Inr (), a2)"
    and save: "store_call (save_book_and_outbox (lw_of c) b (Some (completed_record now (lit ''book'') bid 201 idem))
       (Some (build_ingest_outbox_message now mid bid 1))) a2 = (Inr (), a3)"
    and a': "a' = dispatch_pending_ingest_outbox c now 1 a3" by (rule upload_steps)
  have r: "idem_triple (idem_to_model idem) = (lit ''book.upload'', trim_space owner, trim_space key)"
    "ir_request_hash idem = upload_request_hash c owner filename n category tags"
    "tables_ok (tabs a1)" "tb_books (tabs a1) = tb_books (tabs a)" "trim_space key \<noteq> []"
    using begin_began [OF beg ok] by auto
  have t2: "tabs a2 = tabs a1" using put_object_tabs [of "bo_storage_key b" a1] put by simp
  have bid: "bo_id b = bid" by (simp add: b new_book_def)
  note eff = store_call_ok [OF save]
  obtain t3 where t3: "save_idempotency_record (completed_record now (lit ''book'') bid 201 idem) (snd (save_book (lw_of c) b (tabs a2))) = (Inr (), t3)"
    "tabs a3 = add_outbox (build_ingest_outbox_message now mid bid 1) t3"
    by (rule save_book_and_outbox_effect [OF eff])
  have "tb_books t3 = tb_books (snd (save_book (lw_of c) b (tabs a2)))"
    using books_same(1) [of "completed_record now (lit ''book'') bid 201 idem" "snd (save_book (lw_of c) b (tabs a2))"] t3(1) by simp
  then have books3: "tb_books (tabs a3) = tb_books (tabs a) @ [book_to_model (lw_of c) b]"
    using saved_book [of b "tabs a2" "lw_of c"] fresh bid r(4) t2 t3(2) by simp
  have idem3: "tb_idempotency (tabs a3) = tb_idempotency t3" using t3(2) by (simp add: add_outbox_def Let_def)
  obtain rec where rec: "rec \<in> set (tb_idempotency t3)"
    "rec = idem_to_model (completed_record now (lit ''book'') bid 201 idem) \<or>
     rec = (idem_to_model (completed_record now (lit ''book'') bid 201 idem))\<lparr>ir_created_at := ir_created_at rec\<rparr>"
    using saved_record [OF t3(1)] by blast
  have fields: "idem_triple x = idem_triple (idem_to_model idem) \<and> ir_request_hash x = trim_space (ir_request_hash idem) \<and>
    ir_state x = IdemCompleted \<and> ir_resource_id x = trim_space bid"
    if "x = idem_to_model (completed_record now (lit ''book'') bid 201 idem) \<or>
      x = (idem_to_model (completed_record now (lit ''book'') bid 201 idem))\<lparr>ir_created_at := z\<rparr>" for x z
    using that by (auto simp: idem_triple_def idem_to_model_def completed_record_def)
  obtain os where fr: "tabs a' = (tabs a3)\<lparr>tb_outbox := os\<rparr>" using dispatch_frame a' by metis
  have ok3: "tables_ok (tabs a3)" using save_book_and_outbox_ok [OF _ eff] r(3) t2 by simp
  have ok': "tables_ok (tabs a')" unfolding a' by (rule dispatch_tables_ok [OF ok3])
  show ?thesis
    by (rule that [OF chk r(5) b, of rec]) (use books3 fr idem3 rec(1) fields [OF rec(2)] r ok' in simp_all)
qed

lemma query_healthy:
  assumes "healthy a" "f (tabs a) = (Inr x, tabs a)"
  shows "store_call f a = (Inr x, a)"
proof -
  have "a\<lparr>ba_db := (tabs a, [])\<rparr> = a" using assms(1) by (cases a; cases "ba_db a") (simp add: tabs_def healthy_def)
  then show ?thesis using store_call_healthy [of a f x "tabs a"] assms by simp
qed

definition retry_answer :: "book_config \<Rightarrow> bool \<Rightarrow> book \<Rightarrow> app_err + (book \<times> bool)" where
  "retry_answer c same b =
     (if same then Inr (book_from_model (lw_of c) (book_to_model (lw_of c) b), True) else Inl different_request)"

lemma backoff_exact:
  assumes "attempt \<le> 96038"
  shows "backoff_for_attempt attempt = (if attempt \<le> 1 then 2 * second else min (attempt * attempt * second) (5 * 60 * second))"
proof (cases "attempt \<le> 1")
  case True
  then show ?thesis by (simp add: backoff_for_attempt_def)
next
  case False
  have "attempt * attempt \<le> 96038 * 96038" using False assms by (intro mult_mono) auto
  moreover have "0 \<le> attempt * attempt" by simp
  ultimately have "int64 (attempt * attempt) = attempt * attempt" "int64 (attempt * attempt * second) = attempt * attempt * second"
    by (simp_all add: int64_def second_def)
  then show ?thesis using False by (simp add: backoff_for_attempt_def Let_def min_def)
qed

section \<open>Cleaning up\<close>

text \<open>A deleted book whose cleanup has started but not ended is left for good.\<close>

definition stuck :: "gostr \<Rightarrow> tables \<Rightarrow> bool" where
  "stuck bid t \<longleftrightarrow> tables_ok t \<and>
     (\<exists>b\<in>set (tb_books t). bo_id b = bid \<and> bo_deleted_at b \<noteq> None \<and> bo_cleanup_status b = Some CleanupRunning)"

lemma stuck_not_due:
  assumes "distinct (map bo_id rows)" "b \<in> set rows" "bo_cleanup_status b = Some CleanupRunning"
  shows "bo_id b \<notin> bo_id ` set (books_to_clean n rows)"
proof
  assume "bo_id b \<in> bo_id ` set (books_to_clean n rows)"
  then obtain b' where b': "b' \<in> set (books_to_clean n rows)" "bo_id b' = bo_id b" by auto
  then have "b' \<in> set rows" "pending_cleanup b'"
    using set_take_subset [of "default_limit n" "sort_key bo_cleanup_updated_at (filter pending_cleanup rows)"]
    by (auto simp: books_to_clean_def)
  moreover from this have "b' = b" using assms(1,2) b'(2) by (auto simp: distinct_map inj_on_def)
  ultimately show False using assms(3) by (simp add: pending_cleanup_def)
qed

lemma stuck_update:
  assumes "stuck bid t" "tables_ok t'" "tb_books t' = update_where P f (tb_books t)"
    "\<And>b. bo_id b = bid \<Longrightarrow> b \<in> set (tb_books t) \<Longrightarrow> \<not> P b"
  shows "stuck bid t'"
proof -
  obtain b where b: "b \<in> set (tb_books t)" "bo_id b = bid" "bo_deleted_at b \<noteq> None" "bo_cleanup_status b = Some CleanupRunning"
    using assms(1) by (auto simp: stuck_def)
  then have "b \<in> set (tb_books t')" using assms(4) [OF b(2,1)] by (force simp: assms(3) update_where_set)
  then show ?thesis using b assms(2) by (auto simp: stuck_def)
qed

lemma stuck_call:
  assumes "stuck bid (tabs a)" "\<And>x t'. f (tabs a) = (Inr x, t') \<Longrightarrow> stuck bid t'"
  shows "stuck bid (tabs (snd (store_call f a)))"
  by (rule store_call_tabs [where P = "stuck bid"]) (use assms in auto)

lemma stuck_cleanup_call:
  assumes "stuck bid (tabs a)" "other \<noteq> bid"
  shows "stuck bid (tabs (snd (cleanup_call now other status msg False a)))"
proof -
  have "stuck bid (tabs (snd (store_call (write_book_cleanup now other status msg) a)))"
  proof (rule stuck_call [OF assms(1)])
    fix x t' assume e: "write_book_cleanup now other status msg (tabs a) = (Inr x, t')"
    show "stuck bid t'"
      by (rule stuck_update [OF assms(1) simple_ops_ok(6) [OF _ e], where P = "\<lambda>b. bo_id b = other"])
        (use assms e in \<open>auto simp: stuck_def write_book_cleanup_def\<close>)
  qed
  then show ?thesis by (simp add: cleanup_call_def update_book_cleanup_def store_call_def case_prod_beta split: sum.splits)
qed

lemma delete_object_tabs [simp]: "tabs (snd (delete_object key a)) = tabs a"
  by (simp add: delete_object_def tabs_def split: prod.splits)

lemma delete_by_book_tabs [simp]: "tabs (snd (delete_by_book key a)) = tabs a"
  by (simp add: delete_by_book_def tabs_def split: prod.splits)

lemma stuck_delete_call:
  assumes "stuck bid (tabs a)" "other \<noteq> bid"
  shows "stuck bid (tabs (snd (store_call (delete_book other) a)))"
proof (rule stuck_call [OF assms(1)])
  fix x t' assume e: "delete_book other (tabs a) = (Inr x, t')"
  have "tables_ok t'" using delete_book_ok [OF _ e] assms(1) by (simp add: stuck_def)
  moreover have "tb_books t' = filter (\<lambda>b. bo_id b \<noteq> other) (tb_books (tabs a))"
  proof -
    have keep: "tb_books (delete_messages P t) = tb_books t" "tb_books (delete_conversations Q t) = tb_books t"
      "tb_books (delete_chunks R t) = tb_books t" for P Q R t
      by (simp_all add: delete_messages_def delete_conversations_def delete_chunks_def Let_def)
    have "tb_books (delete_book_rows other t) = filter (\<lambda>b. bo_id b \<noteq> other) (tb_books t)" for t
      by (auto simp: delete_book_rows_def keep filter_id_conv intro!: sym [of "filter _ _"])
    then show ?thesis using e by (auto simp: delete_book_def keep)
  qed
  ultimately show "stuck bid t'" using assms by (auto simp: stuck_def)
qed

lemma stuck_cleanup_one:
  assumes "stuck bid (tabs a)" "bo_id b \<noteq> bid"
  shows "stuck bid (tabs (cleanup_deleted_book c now b a))"
proof -
  have fail: "stuck bid (tabs (snd (cleanup_call now (bo_id b) CleanupFailed msg False x)))" if "stuck bid (tabs x)" for msg x
    by (rule stuck_cleanup_call [OF that assms(2)])
  obtain r1 a1 where 1: "(if bc_search c then delete_by_book (bo_id b) a else (Inr (), a)) = (r1, a1)" by (metis surj_pair)
  have "tabs (snd (if bc_search c then delete_by_book (bo_id b) a else (Inr (), a))) = tabs a" by simp
  then have s1: "stuck bid (tabs a1)" unfolding 1 using assms(1) by simp
  obtain r2 a2 where 2: "delete_object (bo_storage_key b) a1 = (r2, a2)" by (metis surj_pair)
  have "tabs (snd (delete_object (bo_storage_key b) a1)) = tabs a1" by simp
  then have s2: "stuck bid (tabs a2)" unfolding 2 using s1 by simp
  obtain r3 a3 where 3: "store_call (delete_book (bo_id b)) a2 = (r3, a3)" by (metis surj_pair)
  then have s3: "stuck bid (tabs a3)" using stuck_delete_call [OF s2 assms(2)] by simp
  show ?thesis
    using fail [OF s1] fail [OF s2] fail [OF s3] s3
    by (cases r1; cases r2; cases r3) (simp_all add: cleanup_deleted_book_def 1 2 3 Let_def)
qed

lemma stuck_cleanup:
  assumes "stuck bid (tabs a)"
  shows "stuck bid (tabs (cleanup_deleted_books c now a))"
proof -
  obtain row where row: "row \<in> set (tb_books (tabs a))" "bo_id row = bid" "bo_cleanup_status row = Some CleanupRunning"
    and dist: "distinct (map bo_id (tb_books (tabs a)))"
    using assms by (auto simp: stuck_def tables_ok_def keys_ok_def)
  have due: "bid \<notin> bo_id ` set (books_to_clean 10 (tb_books (tabs a)))"
    using stuck_not_due [OF dist row(1,3)] row(2) by simp
  obtain r a1 where c: "store_call (claim_books_pending_cleanup (lw_of c) now 10) a = (r, a1)" by (metis surj_pair)
  have "stuck bid (tabs (snd (store_call (claim_books_pending_cleanup (lw_of c) now 10) a)))"
  proof (rule stuck_call [OF assms])
    fix x t' assume e: "claim_books_pending_cleanup (lw_of c) now 10 (tabs a) = (Inr x, t')"
    show "stuck bid t'"
      by (rule stuck_update [OF assms simple_ops_ok(4) [OF _ e],
            where P = "\<lambda>b. bo_id b \<in> set (map bo_id (books_to_clean 10 (tb_books (tabs a))))" and f = "start_cleanup now"])
        (use assms e due in \<open>auto simp: stuck_def claim_books_pending_cleanup_def Let_def\<close>)
  qed
  then have s1: "stuck bid (tabs a1)" using c by simp
  show ?thesis
  proof (cases r)
    case (Inl e)
    then show ?thesis using c s1 by (simp add: cleanup_deleted_books_def)
  next
    case (Inr bs)
    have "bs = map (\<lambda>b. book_from_model (lw_of c) (start_cleanup now b)) (books_to_clean 10 (tb_books (tabs a)))"
      using store_call_ok [OF c [unfolded Inr]] by (simp add: claim_books_pending_cleanup_def Let_def)
    then have ids: "bo_id ` set bs = bo_id ` set (books_to_clean 10 (tb_books (tabs a)))"
      by (simp add: image_image book_from_model_def start_cleanup_def)
    have "stuck bid (tabs (fold (cleanup_deleted_book c now) xs x))" if "stuck bid (tabs x)" "bid \<notin> bo_id ` set xs" for xs x
      using that by (induction xs arbitrary: x) (auto simp: stuck_cleanup_one)
    then show ?thesis using c s1 Inr ids due by (simp add: cleanup_deleted_books_def)
  qed
qed

lemma app_delete_other:
  assumes "stuck bid (tabs a)"
  shows "stuck bid (tabs (snd (app_delete_book c now other a)))"
proof -
  obtain r a1 where c: "store_call (get_book_including_deleted (lw_of c) other) a = (r, a1)" by (metis surj_pair)
  have t1: "tabs a1 = tabs a"
    using store_call_query [of "get_book_including_deleted (lw_of c) other" a] c by (simp add: get_book_including_deleted_def)
  then have s1: "stuck bid (tabs a1)" using assms by simp
  have mark: "stuck bid (tabs (snd (store_call (mark_book_deleted now other CleanupQueued) a1)))"
  proof (rule stuck_call [OF s1])
    fix x t' assume e: "mark_book_deleted now other CleanupQueued (tabs a1) = (Inr x, t')"
    have dist: "distinct (map bo_id (tb_books (tabs a1)))" using s1 by (simp add: stuck_def tables_ok_def keys_ok_def)
    obtain row where "row \<in> set (tb_books (tabs a1))" "bo_id row = bid" "bo_deleted_at row \<noteq> None" using s1 by (auto simp: stuck_def)
    then have "\<not> live b" if "b \<in> set (tb_books (tabs a1))" "bo_id b = bid" for b
      using dist that by (auto simp: distinct_map inj_on_def live_def)
    then show "stuck bid t'"
      by (intro stuck_update [OF s1 simple_ops_ok(5) [OF _ e], where P = "\<lambda>b. bo_id b = other \<and> live b"])
        (use s1 e in \<open>auto simp: stuck_def mark_book_deleted_def\<close>)
  qed
  have requeue: "stuck bid (tabs (snd (cleanup_call now other CleanupQueued [] False a1)))" if "other \<noteq> bid"
    by (rule stuck_cleanup_call [OF s1 that])
  have own: "bo_cleanup_status b \<noteq> Some CleanupFailed" if "r = Inr (Some b)" "other = bid" for b
  proof -
    have dist: "distinct (map bo_id (tb_books (tabs a)))" using assms by (simp add: stuck_def tables_ok_def keys_ok_def)
    obtain row where row: "row \<in> set (tb_books (tabs a))" "bo_id row = bid" "bo_cleanup_status row = Some CleanupRunning"
      using assms by (auto simp: stuck_def)
    have "List.find (\<lambda>x. bo_id x = bid) (tb_books (tabs a)) = Some row"
      by (rule find_unique [OF dist, where Q = "\<lambda>_. True"]) (use row in simp_all)
    then have "b = book_from_model (lw_of c) row"
      using store_call_ok [of "get_book_including_deleted (lw_of c) other" a "Some b" a1] c \<open>r = Inr (Some b)\<close> \<open>other = bid\<close>
      by (simp add: get_book_including_deleted_def)
    then show ?thesis using row(3) by (simp add: book_from_model_def)
  qed
  show ?thesis
  proof (cases r)
    case (Inl e)
    then show ?thesis using c s1 by (simp add: app_delete_book_def)
  next
    case (Inr x)
    show ?thesis
      using c s1 mark requeue own by (cases x; cases "other = bid") (auto simp: app_delete_book_def Inr)
  qed
qed

datatype cleanup_event = Tick gotime | DeleteRequest gotime gostr

fun run_cleanup :: "book_config \<Rightarrow> cleanup_event \<Rightarrow> book_app \<Rightarrow> book_app" where
  "run_cleanup c (Tick now) a = cleanup_deleted_books c now a"
| "run_cleanup c (DeleteRequest now bid) a = snd (app_delete_book c now bid a)"

lemmas outcome_defs = next_outcome_def call_result_def takes_effect_def

text \<open>A commit of unknown outcome did happen; the caller sees an error.\<close>

lemma store_call_unknown:
  assumes "ba_db a = (t, DbUnknown # os)"
  shows "store_call f a = (Inl (ErrDb DbDown), a\<lparr>ba_db := (snd (atomically f t), os)\<rparr>)"
  using assms by (simp add: store_call_def)

lemma store_call_fine:
  assumes "ba_db a = (t, os)" "os = [] \<or> (\<exists>os'. os = DbOk # os')" "f t = (Inr x, t')"
  shows "store_call f a = (Inr x, a\<lparr>ba_db := (t', tl os)\<rparr>)"
  using assms by (auto simp: store_call_def atomically_def)

section \<open>Properties\<close>

text \<open>
  C31: an upload is done once.  After a successful upload, any later request of the same owner with the
  same key is answered from the record: the request that asks for the same gets the book that was saved,
  one that asks for something else is refused, and neither changes anything.
\<close>

theorem upload_retry:
  assumes up: "upload_book c now (rid, bid, mid) owner filename n category tags key a = (Inr (b, False), a')"
    and ok: "tables_ok (tabs a)" and fresh: "bid \<notin> bo_id ` set (tb_books (tabs a))" "trim_space bid = bid"
    and sha: "\<And>x. trim_space (bc_sha c x) = bc_sha c x"
    and chk: "check_upload c filename n category tags = Inr request"
    and chk2: "check_upload c filename2 n2 category2 tags2 = Inr request2"
    and later: "healthy a2" "tabs a2 = tabs a'"
  shows "upload_book c now2 ids2 owner filename2 n2 category2 tags2 key a2 =
    (retry_answer c (upload_request_hash c owner filename2 n2 (fst request2) (snd request2) =
       upload_request_hash c owner filename n (fst request) (snd request)) b, a2)"
proof -
  obtain cat ts r where
    chk': "check_upload c filename n category tags = Inr (cat, ts)" and key: "trim_space key \<noteq> []"
    and b: "b = new_book c now bid owner filename n cat ts"
    and books: "tb_books (tabs a') = tb_books (tabs a) @ [book_to_model (lw_of c) b]"
    and r: "r \<in> set (tb_idempotency (tabs a'))" "idem_triple r = (lit ''book.upload'', trim_space owner, trim_space key)"
    and hash: "ir_request_hash r = trim_space (upload_request_hash c owner filename n cat ts)"
    and st: "ir_state r = IdemCompleted" "ir_resource_id r = trim_space bid" and ok': "tables_ok (tabs a')"
    by (rule upload_done [OF up ok fresh(1)])
  have req: "request = (cat, ts)" using chk chk' by simp
  have h: "ir_request_hash r = upload_request_hash c owner filename n cat ts"
    using hash sha by (simp add: upload_request_hash_def hash_strings_def)
  have dist: "distinct (map idem_triple (tb_idempotency (tabs a2)))" "distinct (map bo_id (tb_books (tabs a2)))"
    using ok' later(2) by (simp_all add: tables_ok_def keys_ok_def)
  have "List.find (\<lambda>x. idem_triple x = (lit ''book.upload'', trim_space owner, trim_space key)) (tb_idempotency (tabs a2)) = Some r"
    by (rule find_unique [OF dist(1), where Q = "\<lambda>_. True"]) (use r later(2) in simp_all)
  then have get: "store_call (get_idempotency_record (lit ''book.upload'') owner (trim_space key)) a2 = (Inr (Some r), a2)"
    by (intro query_healthy [OF later(1)]) (simp add: get_idempotency_record_def trims)
  have live: "live (book_to_model (lw_of c) b)" "bo_id (book_to_model (lw_of c) b) = bid"
    by (simp_all add: live_def book_to_model_def b new_book_def)
  have "List.find (\<lambda>x. live x \<and> bo_id x = bid) (tb_books (tabs a2)) = Some (book_to_model (lw_of c) b)"
    by (rule find_unique [OF dist(2), where Q = live]) (use books live later(2) in auto)
  then have book: "store_call (get_book (lw_of c) (ir_resource_id r)) a2 =
      (Inr (Some (book_from_model (lw_of c) (book_to_model (lw_of c) b))), a2)"
    by (intro query_healthy [OF later(1)]) (simp add: get_book_def st fresh(2))
  obtain cat2 ts2 where req2: "request2 = (cat2, ts2)" by (cases request2)
  obtain x y z where ids: "ids2 = (x, y, z)" by (cases ids2)
  have "begin_book_idempotency c now2 x (lit ''book.upload'') owner key
      (upload_request_hash c owner filename2 n2 cat2 ts2) a2 =
    (if upload_request_hash c owner filename2 n2 cat2 ts2 = upload_request_hash c owner filename n cat ts
     then (Inr (Replayed r (book_from_model (lw_of c) (book_to_model (lw_of c) b))), a2)
     else (Inl different_request, a2))"
    using key get book h st by (auto simp: begin_book_idempotency_def replay_book_def Let_def)
  then show ?thesis
    using chk2 by (simp add: upload_book_def ids req2 req retry_answer_def)
qed

text \<open>
  When the connection is lost after the commit of an upload, the caller gets an error and the record
  is marked as failed, but the book stays listed and queued while its file has been deleted.
\<close>

theorem upload_unknown_commit:
  assumes chk: "check_upload c filename n category0 tags0 = Inr (category, tags)"
    and key: "trim_space key \<noteq> []" and rid: "trim_space rid \<noteq> []"
    and db: "ba_db a = (t, [DbOk, DbOk, DbUnknown])" and t: "tb_idempotency t = []" "tb_books t = []"
    and objs: "ba_object_calls a = []"
    and up: "upload_book c now (rid, bid, mid) owner filename n category0 tags0 key a = (result, a')"
  shows "result = Inl (ErrWrap (lit ''save book'') (ErrDb DbDown)) \<and>
    (\<exists>b. tb_books (tabs a') = [b] \<and> bo_id b = bid \<and> live b \<and> bo_status b = BookQueued \<and> bo_storage_key b \<notin> ba_objects a') \<and>
    (\<exists>r. tb_idempotency (tabs a') = [r] \<and> ir_state r = IdemFailed)"
proof -
  define h where "h = upload_request_hash c owner filename n category tags"
  define idem where "idem = \<lparr>ir_id = rid, ir_scope = lit ''book.upload'', ir_actor_id = trim_space owner, ir_key = trim_space key,
    ir_request_hash = h, ir_resource_type = [], ir_resource_id = [], ir_status_code = 0,
    ir_state = IdemProcessing, ir_response = [], ir_created_at = now, ir_updated_at = now\<rparr>"
  define b where "b = new_book c now bid owner filename n category tags"
  define key' where "key' = bo_storage_key b"
  define closed where "closed = completed_record now (lit ''book'') bid 201 idem"
  define msg where "msg = build_ingest_outbox_message now mid bid 1"
  define t1 where "t1 = t\<lparr>tb_idempotency := [idem_to_model idem]\<rparr>"
  define a1 where "a1 = a\<lparr>ba_db := (t1, [DbUnknown])\<rparr>"
  define a2 where "a2 = a1\<lparr>ba_objects := insert key' (ba_objects a)\<rparr>"
  define t3 where "t3 = add_outbox msg (t1\<lparr>tb_books := [book_to_model (lw_of c) b],
    tb_idempotency := [assign_idem (idem_to_model idem) (idem_to_model closed)]\<rparr>)"
  define a3 where "a3 = a2\<lparr>ba_db := (t3, [])\<rparr>"
  define a4 where "a4 = a3\<lparr>ba_objects := ba_objects a - {key'}\<rparr>"
  define failed where "failed = idem\<lparr>ir_state := IdemFailed, ir_status_code := http_status_from_err c (ErrDb DbDown), ir_updated_at := now\<rparr>"
  define t5 where "t5 = t3\<lparr>tb_idempotency := [assign_idem (assign_idem (idem_to_model idem) (idem_to_model closed)) (idem_to_model failed)]\<rparr>"
  define a5 where "a5 = a4\<lparr>ba_db := (t5, [])\<rparr>"
  have save1: "save_idempotency_record idem t = (Inr (), t1)"
    by (simp add: save_idempotency_record_def t upsert_def t1_def)
  have get: "store_call (get_idempotency_record (lit ''book.upload'') owner (trim_space key)) a =
      (Inr None, a\<lparr>ba_db := (t, [DbOk, DbUnknown])\<rparr>)"
    by (subst store_call_fine [OF db]) (simp_all add: get_idempotency_record_def t)
  have st: "store_call (save_idempotency_record idem) (a\<lparr>ba_db := (t, [DbOk, DbUnknown])\<rparr>) = (Inr (), a1)"
    by (subst store_call_fine [of _ t "[DbOk, DbUnknown]" _ "()" t1]) (simp_all add: a1_def save1)
  have beg: "begin_book_idempotency c now rid (lit ''book.upload'') owner key h a = (Inr (Began idem), a1)"
    using st by (simp add: begin_book_idempotency_def key get start_record_def idem_def [symmetric] Let_def)
  have put: "put_object key' a1 = (Inr (), a2)"
    by (simp add: put_object_def a1_def a2_def objs outcome_defs)
  have ids: "ir_id (idem_to_model closed) = ir_id (idem_to_model idem)" "idem_triple (idem_to_model closed) = idem_triple (idem_to_model idem)"
    by (simp_all add: closed_def completed_record_def idem_to_model_def idem_triple_def)
  have "atomically (save_book_and_outbox (lw_of c) b (Some closed) (Some msg)) t1 = (Inr (), t3)"
    by (simp add: atomically_def save_book_and_outbox_def save_book_def save_idempotency_record_def t1_def t3_def t upsert_def
        update_where_def ids Let_def)
  then have save2: "store_call (save_book_and_outbox (lw_of c) b (Some closed) (Some msg)) a2 = (Inl (ErrDb DbDown), a3)"
    by (subst store_call_unknown [of _ t1 "[]"]) (simp_all add: a2_def a1_def a3_def)
  have del: "delete_object key' a3 = (Inr (), a4)"
    by (simp add: delete_object_def a4_def a3_def a2_def a1_def objs outcome_defs)
  have t3i: "tb_idempotency t3 = [assign_idem (idem_to_model idem) (idem_to_model closed)]"
    by (simp add: t3_def add_outbox_def Let_def)
  have ids2: "ir_id (assign_idem (idem_to_model idem) (idem_to_model closed)) = ir_id (idem_to_model failed)"
    by (simp add: failed_def assign_idem_def idem_to_model_def)
  have "save_idempotency_record failed t3 = (Inr (), t5)"
    by (simp add: save_idempotency_record_def t3i ids2 upsert_def update_where_def t5_def)
  then have mark: "mark_book_idempotency_failed now idem (http_status_from_err c (ErrDb DbDown)) a4 = (Inr (), a5)"
    unfolding mark_book_idempotency_failed_def failed_def [symmetric]
    by (simp add: store_call_healthy healthy_def tabs_def a4_def a3_def a5_def idem_def rid)
  have run: "result = Inl (ErrWrap (lit ''save book'') (ErrDb DbDown)) \<and> a' = a5"
    using up unfolding upload_book_def
    by (simp add: chk h_def [symmetric] beg b_def [symmetric] key'_def [symmetric] put closed_def [symmetric]
        msg_def [symmetric] save2 del mark Let_def)
  have books: "tb_books t5 = [book_to_model (lw_of c) b]" by (simp add: t5_def t3_def add_outbox_def Let_def)
  have row: "bo_id (book_to_model (lw_of c) b) = bid" "live (book_to_model (lw_of c) b)"
    "bo_status (book_to_model (lw_of c) b) = BookQueued" "bo_storage_key (book_to_model (lw_of c) b) = key'"
    by (simp_all add: book_to_model_def key'_def b_def new_book_def live_def)
  have "ba_objects a5 = ba_objects a - {key'}" by (simp add: a5_def a4_def)
  moreover have "ir_state (assign_idem r (idem_to_model failed)) = IdemFailed" for r
    by (simp add: failed_def assign_idem_def idem_to_model_def)
  ultimately show ?thesis
    using run books row by (simp add: a5_def tabs_def t5_def)
qed

text \<open>
  A deleted book whose cleanup was started but whose end was not written is stuck: no later round of the
  cleanup worker and no request to delete a book takes it up again.
\<close>

theorem cleanup_running_stuck:
  assumes "stuck bid (tabs a)"
  shows "stuck bid (tabs (fold (run_cleanup c) evs a))"
  using assms
proof (induction evs arbitrary: a)
  case (Cons ev evs)
  then show ?case by (cases ev) (simp_all add: stuck_cleanup app_delete_other)
qed simp

text \<open>
  A status report of an ingest job whose generation no live row of the book has changes nothing and
  is not acknowledged, whatever happens to the connection.
\<close>

theorem stale_generation_rejected:
  assumes "0 < gen" "\<forall>b\<in>set (tb_books (tabs a)). bo_id b = bid \<and> bo_deleted_at b = None \<longrightarrow> bo_generation b \<noteq> gen"
  shows "tabs (snd (update_status now bid status msg gen a)) = tabs a \<and> fst (update_status now bid status msg gen a) \<noteq> Inr ()"
proof -
  have eq: "set_status_if_generation now bid gen status msg (tabs a) = (Inr False, tabs a)"
  proof -
    have no: "\<not> (bo_id b = bid \<and> live b \<and> bo_generation b = gen)" if "b \<in> set (tb_books (tabs a))" for b
      using assms(2) that by (auto simp: live_def)
    then have "update_where (\<lambda>b. bo_id b = bid \<and> live b \<and> bo_generation b = gen) f (tb_books (tabs a)) = tb_books (tabs a)" for f
      by (rule update_where_none)
    then show ?thesis using no by (auto simp: set_status_if_generation_def Let_def)
  qed
  obtain r a1 where c: "store_call (set_status_if_generation now bid gen status msg) a = (r, a1)" by (metis surj_pair)
  have "tabs a1 = tabs a" using store_call_query [of "set_status_if_generation now bid gen status msg" a] eq c by simp
  moreover have "r \<noteq> Inr True" using store_call_ok [of "set_status_if_generation now bid gen status msg" a True a1] eq c by auto
  ultimately show ?thesis using c assms(1) by (auto simp: update_status_def split: sum.splits)
qed

text \<open>
  \<open>UpdateBook\<close> saves the whole row it read, so what others changed in the row in between is lost:
  the status, the generation and even the deletion are those of the snapshot.
\<close>

theorem update_book_overwrites:
  assumes ok: "tables_ok (tabs a)" and row: "row \<in> set (tb_books (tabs a))" "bo_id row = bid"
    and read: "book_from_model (lw_of c) row = b"
    and edit: "edit_book c now title category tags b = Inr b'"
    and between: "tb_books (tabs a2) = update_where (\<lambda>x. bo_id x = bid) change (tb_books (tabs a))"
      "\<And>x. bo_id (change x) = bo_id x"
    and save: "update_book_save c b' a2 = (Inr b'', a3)"
  shows "\<exists>new\<in>set (tb_books (tabs a3)). bo_id new = bid \<and> bo_status new = bo_status row \<and>
    bo_generation new = bo_generation row \<and> bo_deleted_at new = bo_deleted_at row \<and> bo_cleanup_status new = bo_cleanup_status row"
proof -
  have b': "bo_id b' = bid" "bo_status b' = bo_status row" "bo_generation b' = bo_generation row"
    "bo_deleted_at b' = bo_deleted_at row" "bo_cleanup_status b' = bo_cleanup_status row"
    using edit read row(2) by (auto simp: edit_book_def book_from_model_def split: sum.splits)
  obtain r a4 where c4: "store_call (save_book (lw_of c) b') a2 = (r, a4)" by (metis surj_pair)
  have "r = Inr ()" "a4 = a3" using save c4 by (auto simp: update_book_save_def split: sum.splits)
  then have "save_book (lw_of c) b' (tabs a2) = (Inr (), tabs a3)" using store_call_ok [of "save_book (lw_of c) b'" a2 "()" a3] c4 by simp
  then have t3: "tb_books (tabs a3) = upsert bo_id assign_book (book_to_model (lw_of c) b') (tb_books (tabs a2))"
    unfolding save_book_def by (metis prod.inject tables.select_convs(1) tables.surjective tables.update_convs(1))
  have old: "change row \<in> set (tb_books (tabs a2))" "bo_id (change row) = bid"
    using row between by (auto simp: update_where_set)
  have "assign_book (change row) (book_to_model (lw_of c) b') \<in> set (tb_books (tabs a3))"
  proof -
    have hit: "bo_id (book_to_model (lw_of c) b') \<in> set (map bo_id (tb_books (tabs a2)))" using old b'(1) by (auto simp: book_to_model_def)
    then have "tb_books (tabs a3) = update_where (\<lambda>r. bo_id r = bid) (\<lambda>r. assign_book r (book_to_model (lw_of c) b')) (tb_books (tabs a2))"
      using b'(1) by (simp add: t3 upsert_def book_to_model_def)
    then show ?thesis using old by (auto simp: update_where_set)
  qed
  then show ?thesis
    by (rule rev_bexI) (simp add: assign_book_def book_to_model_def b' old(2))
qed

text \<open>
  An outbox message is marked as dispatched only when the ingest service accepted its request, in
  any number of rounds and with any failures of the database and of the service.
\<close>

theorem dispatch_marks_accepted:
  assumes "delivered a" "tables_ok (tabs a)"
  shows "delivered (fold (\<lambda>(now, limit). dispatch_pending_ingest_outbox c now limit) rounds a)"
  using assms
proof (induction rounds arbitrary: a)
  case (Cons r rounds)
  have "delivered (dispatch_pending_ingest_outbox c (fst r) (snd r) a)"
    using Cons.prems by (intro dispatch_delivered) (simp_all add: tables_ok_def keys_ok_def)
  from Cons.IH [OF this dispatch_tables_ok [OF Cons.prems(2)]] show ?case by (simp add: case_prod_beta)
qed simp

text \<open>
  The delay before the next attempt to dispatch is between two seconds and five minutes up to the
  attempt 96038; at the next one the square in nanoseconds overflows and the delay is negative.
\<close>

theorem backoff_bounds:
  "2 * second \<le> backoff_for_attempt (min attempt 96038) \<and> backoff_for_attempt (min attempt 96038) \<le> 5 * 60 * second \<and>
   backoff_for_attempt 96039 < 0"
proof (intro conjI)
  define k where "k = min attempt (96038 :: int)"
  have k: "k \<le> 96038" by (simp add: k_def)
  have "2 * 1 \<le> k * k" if "\<not> k \<le> 1" using that by (intro mult_mono) auto
  then have "2 * second \<le> k * k * second" if "\<not> k \<le> 1" using that by (simp add: second_def)
  then show "2 * second \<le> backoff_for_attempt (min attempt 96038)"
    "backoff_for_attempt (min attempt 96038) \<le> 5 * 60 * second"
    unfolding k_def [symmetric] backoff_exact [OF k] by (auto simp: second_def)
  show "backoff_for_attempt 96039 < 0"
    by (simp add: backoff_for_attempt_def int64_def second_def)
qed

section \<open>Witnesses\<close>

definition demo_config :: book_config where
  "demo_config = \<lparr>bc_unicode = demo_unicode, bc_sha = (\<lambda>_. [120]), bc_db_text = (\<lambda>_. [100]), bc_json_error = [106],
     bc_json_quoted = (\<lambda>_. False), bc_max_upload_bytes = 10, bc_allowed_extensions = {}, bc_search = False\<rparr>"

definition demo_app :: "tables \<Rightarrow> db_outcome list \<Rightarrow> book_app" where
  "demo_app t os = \<lparr>ba_db = (t, os), ba_objects = {}, ba_object_calls = [], ba_indexed = {}, ba_search_calls = [],
     ba_enqueued = [], ba_enqueue_calls = []\<rparr>"

lemma demo_check: "check_upload demo_config [97] 1 [] [] = Inr (lit ''other'', [])"
  by (simp add: check_upload_def demo_config_def is_extension_allowed_def normalize_primary_category_def normalize_book_tags_def
      normalize_book_primary_category_def lw_of_def to_lower_def trims Let_def)

abbreviation demo_upload :: "db_outcome list \<Rightarrow> (app_err + (book \<times> bool)) \<times> book_app" where
  "demo_upload os \<equiv> upload_book demo_config 5 ([102], [100], [101]) [98] [97] 1 [] [] [99] (demo_app empty_tables os)"

lemmas demo_run = upload_book_def demo_check begin_book_idempotency_def start_record_def store_call_def get_idempotency_record_def
  demo_app_def empty_tables_def save_idempotency_record_def idem_to_model_def upsert_def put_object_def outcome_defs
  save_book_and_outbox_def save_book_def completed_record_def trims is_space_def
  build_ingest_outbox_message_def idem_triple_def add_outbox_def update_where_def assign_idem_def atomically_def

lemma demo_upload_ok: "fst (demo_upload []) = Inr (new_book demo_config 5 [100] [98] [97] 1 (lit ''other'') [], False)"
  by (simp add: demo_run Let_def)

theorem upload_retry_witness:
  "fst (upload_book demo_config 9 ([1], [2], [3]) [98] [97] 1 [] [] [99] (demo_app (tabs (snd (demo_upload []))) [])) =
   retry_answer demo_config True (new_book demo_config 5 [100] [98] [97] 1 (lit ''other'') [])"
proof -
  define a' where "a' = snd (demo_upload [])"
  have up: "demo_upload [] = (Inr (new_book demo_config 5 [100] [98] [97] 1 (lit ''other'') [], False), a')"
    using demo_upload_ok by (simp add: a'_def prod_eq_iff)
  have "tables_ok (tabs (demo_app empty_tables []))"
    using tables_always_ok [of demo_unicode "[]"] by (simp add: demo_app_def tabs_def)
  moreover have "[100] \<notin> bo_id ` set (tb_books (tabs (demo_app empty_tables [])))"
    by (simp add: demo_app_def tabs_def empty_tables_def)
  moreover have "trim_space [100] = [100::nat]" "trim_space (bc_sha demo_config x) = bc_sha demo_config x" for x
    by (simp_all add: demo_config_def trims is_space_def)
  moreover have "healthy (demo_app (tabs a') [])" "tabs (demo_app (tabs a') []) = tabs a'"
    by (simp_all add: healthy_def demo_app_def tabs_def)
  ultimately show ?thesis
    using upload_retry [OF up _ _ _ _ demo_check demo_check, of "demo_app (tabs a') []" 9 "([1], [2], [3])"]
    by (simp add: a'_def)
qed

theorem stale_generation_rejected_witness:
  "fst (update_status 9 [1] BookReady [] 2 (demo_app demo_tables [])) \<noteq> Inr ()"
  using stale_generation_rejected [of 2 "demo_app demo_tables []" "[1]" 9 BookReady "[]"]
  by (simp add: demo_app_def tabs_def demo_tables_def demo_book_def)

theorem upload_unknown_commit_witness:
  "\<exists>b. tb_books (tabs (snd (demo_upload [DbOk, DbOk, DbUnknown]))) = [b] \<and> live b \<and>
     bo_storage_key b \<notin> ba_objects (snd (demo_upload [DbOk, DbOk, DbUnknown]))"
proof -
  obtain result a' where up: "demo_upload [DbOk, DbOk, DbUnknown] = (result, a')" by (metis surj_pair)
  show ?thesis
    using upload_unknown_commit [OF demo_check _ _ _ _ _ _ up, of empty_tables] up
    by (auto simp: demo_app_def empty_tables_def trims is_space_def)
qed

theorem dispatch_marks_accepted_witness:
  "delivered (fold (\<lambda>(now, limit). dispatch_pending_ingest_outbox demo_config now limit) [(5, 1), (9, 2)] (demo_app demo_tables [DbOk, DbUnknown]))"
proof (rule dispatch_marks_accepted)
  show "tables_ok (tabs (demo_app demo_tables [DbOk, DbUnknown]))" by (simp add: demo_app_def tabs_def demo_tables_ok)
qed (simp add: demo_app_def tabs_def delivered_def delivered_set_def demo_tables_def demo_message_def trims is_space_def)

theorem update_book_overwrites_witness:
  "\<exists>b'. fst (update_book demo_config 9 [1] [98] [] [] (demo_app demo_tables [])) = Inr b' \<and>
     (\<exists>new\<in>set (tb_books (tabs (snd (update_book_save demo_config b'
         (demo_app (snd (mark_book_deleted 8 [1] CleanupQueued demo_tables)) []))))).
        bo_id new = [1] \<and> bo_deleted_at new = None)"
proof -
  let ?a = "demo_app demo_tables []"
  let ?b = "book_from_model (lw_of demo_config) demo_book"
  define b' where "b' = ?b\<lparr>bo_title := [98], bo_primary_category := lit ''other'', bo_tags := [], bo_updated_at := 9\<rparr>"
  have edit: "edit_book demo_config 9 [98] [] [] ?b = Inr b'"
    by (simp add: edit_book_def normalize_book_title_def normalize_primary_category_def normalize_book_tags_def
      normalize_book_primary_category_def lw_of_def to_lower_def trims is_space_def str_fields.simps trim_left_def b'_def demo_config_def Let_def)
  have up: "fst (update_book demo_config 9 [1] [98] [] [] ?a) = Inr b'"
    using edit by (simp add: update_book_def need_book_def store_call_def get_book_def demo_app_def demo_tables_def live_def
      demo_book_def update_book_save_def save_book_def)
  define a2 where "a2 = demo_app (snd (mark_book_deleted 8 [1] CleanupQueued demo_tables)) []"
  define f where "f = (\<lambda>b. if live b then b\<lparr>bo_deleted_at := Some 8, bo_cleanup_status := Some CleanupQueued, bo_cleanup_error := [],
    bo_cleanup_updated_at := Some 8, bo_updated_at := 8\<rparr> else b)"
  have ok: "tables_ok (tabs ?a)" by (simp add: demo_app_def tabs_def demo_tables_ok)
  have row: "demo_book \<in> set (tb_books (tabs ?a))" "bo_id demo_book = [1]" by (simp_all add: demo_app_def tabs_def demo_tables_def demo_book_def)
  have btw: "tb_books (tabs a2) = update_where (\<lambda>x. bo_id x = [1]) f (tb_books (tabs ?a))"
    by (simp add: a2_def demo_app_def tabs_def mark_book_deleted_def demo_tables_def update_where_def f_def)
  obtain a3 where save: "update_book_save demo_config b' a2 = (Inr b', a3)"
    by (simp add: update_book_save_def store_call_def save_book_def a2_def demo_app_def)
  have "bo_id (f x) = bo_id x" for x by (simp add: f_def)
  from update_book_overwrites [OF ok row refl edit btw this save] up save show ?thesis
    by (auto simp: a2_def demo_book_def)
qed

definition lost_cleanup :: book_app where
  "lost_cleanup = cleanup_deleted_books demo_config 8
     (demo_app (snd (mark_book_deleted 5 [1] CleanupQueued demo_tables)) [DbOk, DbLost, DbLost])"

theorem cleanup_running_stuck_witness:
  "stuck [1] (tabs (fold (run_cleanup demo_config) [Tick 20, DeleteRequest 30 [1], Tick 40] lost_cleanup))"
proof (rule cleanup_running_stuck)
  have "tables_ok (snd (mark_book_deleted 5 [1] CleanupQueued demo_tables))"
    using simple_ops_ok(5) [OF demo_tables_ok, of 5 "[1]" CleanupQueued "()"] by (simp add: mark_book_deleted_def)
  then have "tables_ok (snd (claim_books_pending_cleanup (lw_of demo_config) 8 10 (snd (mark_book_deleted 5 [1] CleanupQueued demo_tables))))"
    using simple_ops_ok(4) by (metis (no_types, lifting) claim_books_pending_cleanup_def snd_conv)
  moreover have "tabs lost_cleanup = snd (claim_books_pending_cleanup (lw_of demo_config) 8 10 (snd (mark_book_deleted 5 [1] CleanupQueued demo_tables)))"
    by (simp add: lost_cleanup_def cleanup_deleted_books_def store_call_def demo_app_def claim_books_pending_cleanup_def
        mark_book_deleted_def demo_tables_def empty_tables_def update_where_def live_def demo_book_def books_to_clean_def
        pending_cleanup_def default_limit_def demo_config_def cleanup_deleted_book_def delete_object_def outcome_defs
        cleanup_call_def update_book_cleanup_def atomically_def tabs_def Let_def)
  ultimately have "tables_ok (tabs lost_cleanup)" by simp
  then show "stuck [1] (tabs lost_cleanup)"
    by (simp add: stuck_def, simp add: lost_cleanup_def cleanup_deleted_books_def store_call_def demo_app_def claim_books_pending_cleanup_def
        mark_book_deleted_def demo_tables_def empty_tables_def update_where_def live_def demo_book_def books_to_clean_def
        pending_cleanup_def default_limit_def demo_config_def cleanup_deleted_book_def delete_object_def outcome_defs
        cleanup_call_def update_book_cleanup_def atomically_def tabs_def start_cleanup_def Let_def)
qed

end
