(* ===== verification/BookServer.thy ===== *)
theory BookServer
  imports BookAppFacts ServiceTokens
begin

text \<open>
  The HTTP interface of the book service (\<open>backend/services/book/internal/server/server.go\<close>): routes,
  authentication, the check that a book belongs to the user, and the answers.  A request holds what the
  handlers read of it: method, path (as the multiplexer cleaned it), headers, query, and the decoded body,
  \<open>None\<close> when it cannot be decoded.  The answers of the auth service and of the token verifier are functions of
  the token.  Request IDs, logs and the headers of the middleware are left out.
\<close>

section \<open>Requests and answers\<close>

record upload_form =
  uf_file :: "(gostr \<times> int) option"       \<comment> \<open>name and size\<close>
  uf_primary_category :: gostr
  uf_tags :: "gostr list"

record book_request =
  rq_method :: gostr
  rq_path :: gostr
  rq_authorization :: gostr
  rq_idempotency_key :: gostr
  rq_query :: "gostr \<Rightarrow> gostr"
  rq_length :: int
  rq_form :: "upload_form option"
  rq_update :: "(gostr \<times> gostr \<times> gostr list) option"    \<comment> \<open>title, category, tags\<close>
  rq_status :: "(gostr \<times> gostr \<times> int) option"           \<comment> \<open>status, error message, generation\<close>

datatype book_body =
    BodyError gostr gostr | BodyStatus gostr | BodyBook book | BodyBooks "book list" | BodySummary index_summary
  | BodyFile gostr gostr | BodyPlain gostr

record book_response =
  rs_status :: int
  rs_body :: book_body
  rs_replayed :: bool

record auth_user =
  au_id :: gostr
  au_admin :: bool

text \<open>\<open>None\<close>: no auth client, no token verifier.\<close>

record 'k book_server =
  bv_me :: "(gostr \<Rightarrow> auth_user option) option"
  bv_token_ok :: "(gostr \<Rightarrow> bool) option"
  bv_internal :: "'k service_verifier"
  bv_max_upload_bytes :: int

definition new_book_server ::
  "(gostr \<Rightarrow> session_err + 'k) \<Rightarrow> (gostr \<Rightarrow> auth_user option) option \<Rightarrow> (gostr \<Rightarrow> bool) option \<Rightarrow> gostr \<Rightarrow>
   (gostr \<times> gostr) list \<Rightarrow> gostr \<Rightarrow> int \<Rightarrow> session_err + 'k book_server" where
  "new_book_server load_pub me token_ok key_path key_map key_id max_bytes =
     (case new_service_verifier load_pub
             \<lparr>vo_public_key_path = trim_space key_path, vo_key_map = key_map, vo_default_key_id = key_id,
              vo_audience = lit ''book'', vo_issuers = [lit ''ingest-service'', lit ''indexer-service''],
              vo_leeway = 15 * second\<rparr> of
        Inl e \<Rightarrow> Inl e
      | Inr v \<Rightarrow>
          Inr \<lparr>bv_me = me, bv_token_ok = token_ok, bv_internal = v,
               bv_max_upload_bytes = (if max_bytes \<le> 0 then 50 * 1024 * 1024 else max_bytes)\<rparr>)"

definition error_code_for_book :: "(rune \<Rightarrow> rune) \<Rightarrow> int \<Rightarrow> gostr \<Rightarrow> gostr" where
  "error_code_for_book lw status msg =
     (let m = to_lower lw (trim_space msg) in
      if m = lit ''auth client not configured'' \<or> m = lit ''internal auth not configured'' then lit ''SYSTEM_INTERNAL_ERROR''
      else if m = lit ''unauthorized'' then lit ''AUTH_INVALID_TOKEN''
      else if m = lit ''forbidden'' then lit ''BOOK_FORBIDDEN''
      else if m = lit ''book not found'' then lit ''BOOK_NOT_FOUND''
      else if m = lit ''file too large'' then lit ''BOOK_FILE_TOO_LARGE''
      else if m = lit ''filename required'' \<or> str_contains m (lit ''file is required'') then lit ''BOOK_FILE_REQUIRED''
      else if str_contains m (lit ''unsupported file type'') then lit ''BOOK_UNSUPPORTED_FILE_TYPE''
      else if m = lit ''invalid form data'' then lit ''BOOK_INVALID_UPLOAD_FORM''
      else if m = lit ''invalid json body'' then lit ''BOOK_INVALID_REQUEST''
      else if m = lit ''invalid status'' then lit ''BOOK_INVALID_STATUS''
      else if m = lit ''failed to generate download url'' then lit ''BOOK_DOWNLOAD_URL_FAILED''
      else if m = lit ''idempotency key required'' then lit ''IDEMPOTENCY_KEY_REQUIRED''
      else if str_contains m (lit ''idempotency key reused'') then lit ''IDEMPOTENCY_KEY_REUSED''
      else if str_contains m (lit ''idempotent request already in progress'') then lit ''IDEMPOTENT_REQUEST_IN_PROGRESS''
      else if m = lit ''method not allowed'' then lit ''SYSTEM_METHOD_NOT_ALLOWED''
      else if m = lit ''not found'' then lit ''SYSTEM_NOT_FOUND''
      else if status = 400 then lit ''BOOK_INVALID_REQUEST''
      else if status = 401 then lit ''AUTH_INVALID_TOKEN''
      else if status = 403 then lit ''BOOK_FORBIDDEN''
      else if status = 404 then lit ''BOOK_NOT_FOUND''
      else if status = 405 then lit ''SYSTEM_METHOD_NOT_ALLOWED''
      else if 500 \<le> status then lit ''SYSTEM_INTERNAL_ERROR''
      else lit ''REQUEST_ERROR'')"

definition write_json :: "int \<Rightarrow> book_body \<Rightarrow> book_response" where
  "write_json status body = \<lparr>rs_status = status, rs_body = body, rs_replayed = False\<rparr>"

definition write_error :: "book_config \<Rightarrow> int \<Rightarrow> gostr \<Rightarrow> book_response" where
  "write_error c status msg = write_json status (BodyError (error_code_for_book (lw_of c) status msg) msg)"

definition internal_error :: "book_config \<Rightarrow> book_response" where
  "internal_error c = write_error c 500 (lit ''internal error'')"

definition resp_not_found :: "book_config \<Rightarrow> gostr \<Rightarrow> book_response" where
  "resp_not_found c msg = write_error c 404 msg"

definition method_not_allowed :: "book_config \<Rightarrow> book_response" where
  "method_not_allowed c = write_error c 405 (lit ''method not allowed'')"

text \<open>The token of the header, without trimming the header first.\<close>

definition book_bearer_token :: "gostr \<Rightarrow> gostr option" where
  "book_bearer_token header =
     (if \<not> has_prefix header (lit ''Bearer '') then None
      else let token = trim_space (trim_prefix header (lit ''Bearer '')) in if token = [] then None else Some token)"

definition parse_book_status :: "(rune \<Rightarrow> rune) \<Rightarrow> gostr \<Rightarrow> book_status option" where
  "parse_book_status lw s =
     (let t = to_lower lw (trim_space s) in
      if t = lit ''queued'' then Some BookQueued
      else if t = lit ''processing'' then Some BookProcessing
      else if t = lit ''ready'' then Some BookReady
      else if t = lit ''failed'' then Some BookFailed
      else None)"

section \<open>Handlers\<close>

type_synonym handler = "book_app \<Rightarrow> book_response \<times> book_app"

text \<open>The ID of a path below a prefix, and what follows the first slash (\<open>strings.SplitN\<close>).\<close>

definition split_path :: "gostr \<Rightarrow> gostr \<times> gostr option" where
  "split_path path =
     (takeWhile (\<lambda>r. r \<noteq> 47) path, if 47 \<in> set path then Some (drop 1 (dropWhile (\<lambda>r. r \<noteq> 47) path)) else None)"

text \<open>Each handler on one book reads it, refuses users that neither own it nor are administrators, and goes on.\<close>

definition with_book ::
  "book_config \<Rightarrow> (gostr \<Rightarrow> book_app \<Rightarrow> (app_err + book option) \<times> book_app) \<Rightarrow> auth_user \<Rightarrow> gostr \<Rightarrow> (book \<Rightarrow> handler) \<Rightarrow> handler" where
  "with_book c get user bid k a =
     (case get bid a of
        (Inl _, a1) \<Rightarrow> (internal_error c, a1)
      | (Inr None, a1) \<Rightarrow> (resp_not_found c (lit ''book not found''), a1)
      | (Inr (Some b), a1) \<Rightarrow>
          if bo_owner_id b \<noteq> au_id user \<and> \<not> au_admin user then (write_error c 403 (lit ''forbidden''), a1)
          else k b a1)"

definition app_get_book :: "book_config \<Rightarrow> gostr \<Rightarrow> book_app \<Rightarrow> (app_err + book option) \<times> book_app" where
  "app_get_book c bid = store_call (get_book (lw_of c) bid)"

definition app_get_book_including_deleted :: "book_config \<Rightarrow> gostr \<Rightarrow> book_app \<Rightarrow> (app_err + book option) \<times> book_app" where
  "app_get_book_including_deleted c bid = store_call (get_book_including_deleted (lw_of c) bid)"

text \<open>The status of a failed request with an idempotency key.\<close>

definition failed_request :: "book_config \<Rightarrow> app_err \<Rightarrow> book_response" where
  "failed_request c e =
     (let msg = err_text c e; lower = to_lower (lw_of c) (trim_space msg) in
      write_error c (if str_contains lower (lit ''different request'') \<or> str_contains lower (lit ''in progress'') then 409 else 400) msg)"

definition handle_reprocess_book ::
  "book_config \<Rightarrow> gotime \<Rightarrow> gostr \<times> gostr \<Rightarrow> book_request \<Rightarrow> auth_user \<Rightarrow> gostr \<Rightarrow> handler" where
  "handle_reprocess_book c now ids r user bid =
     (if rq_method r \<noteq> lit ''POST'' then Pair (method_not_allowed c)
      else with_book c (app_get_book c) user bid (\<lambda>_ a.
        if trim_space (rq_idempotency_key r) = [] then (write_error c 400 (lit ''idempotency key required''), a)
        else
          case reprocess_book c now ids (au_id user) bid (trim_space (rq_idempotency_key r)) a of
            (Inl e, a1) \<Rightarrow> (failed_request c e, a1)
          | (Inr (b, replayed), a1) \<Rightarrow> ((write_json 200 (BodyBook b))\<lparr>rs_replayed := replayed\<rparr>, a1)))"

definition handle_repair_book_index ::
  "book_config \<Rightarrow> gotime \<Rightarrow> gostr \<times> gostr \<Rightarrow> book_request \<Rightarrow> auth_user \<Rightarrow> gostr \<Rightarrow> handler" where
  "handle_repair_book_index c now ids r user bid =
     (if rq_method r \<noteq> lit ''POST'' then Pair (method_not_allowed c)
      else with_book c (app_get_book c) user bid (\<lambda>_ a.
        if trim_space (rq_idempotency_key r) = [] then (write_error c 400 (lit ''idempotency key required''), a)
        else
          case repair_book_index c now ids (au_id user) bid (trim_space (rq_idempotency_key r)) a of
            (Inl e, a1) \<Rightarrow> (failed_request c e, a1)
          | (Inr (b, replayed), a1) \<Rightarrow> ((write_json 200 (BodyBook b))\<lparr>rs_replayed := replayed\<rparr>, a1)))"

definition handle_book_index_status :: "book_config \<Rightarrow> book_request \<Rightarrow> auth_user \<Rightarrow> gostr \<Rightarrow> handler" where
  "handle_book_index_status c r user bid =
     (if rq_method r \<noteq> lit ''GET'' then Pair (method_not_allowed c)
      else with_book c (app_get_book c) user bid (\<lambda>_ a.
        case get_book_index_status_summary c bid a of
          (Inl e, a1) \<Rightarrow> (write_error c 500 (err_text c e), a1)
        | (Inr sm, a1) \<Rightarrow> (write_json 200 (BodySummary sm), a1)))"

type_synonym presign = "gostr \<Rightarrow> gostr \<Rightarrow> app_err + gostr"

definition handle_download_book :: "book_config \<Rightarrow> presign \<Rightarrow> book_request \<Rightarrow> auth_user \<Rightarrow> gostr \<Rightarrow> handler" where
  "handle_download_book c presign r user bid =
     (if rq_method r \<noteq> lit ''GET'' then Pair (method_not_allowed c)
      else with_book c (app_get_book c) user bid (\<lambda>_ a.
        case get_download_url c presign bid a of
          (Inl _, a1) \<Rightarrow> (write_error c 500 (lit ''failed to generate download URL''), a1)
        | (Inr (url, name), a1) \<Rightarrow> (write_json 200 (BodyFile url name), a1)))"

definition handle_book_by_id ::
  "book_config \<Rightarrow> presign \<Rightarrow> gotime \<Rightarrow> gostr \<times> gostr \<Rightarrow> book_request \<Rightarrow> auth_user \<Rightarrow> handler" where
  "handle_book_by_id c presign now ids r user a =
     (let (bid, action) = split_path (trim_prefix (rq_path r) (lit ''/books/'')) in
      if bid = [] then (resp_not_found c (lit ''not found''), a)
      else if action = Some (lit ''download'') then handle_download_book c presign r user bid a
      else if action = Some (lit ''reprocess'') then handle_reprocess_book c now ids r user bid a
      else if action = Some (lit ''index-status'') then handle_book_index_status c r user bid a
      else if action = Some (lit ''repair-index'') then handle_repair_book_index c now ids r user bid a
      else if action \<noteq> None then (resp_not_found c (lit ''not found''), a)
      else if rq_method r = lit ''GET'' then
        with_book c (app_get_book c) user bid (\<lambda>b a1. (write_json 200 (BodyBook b), a1)) a
      else if rq_method r = lit ''DELETE'' then
        with_book c (app_get_book_including_deleted c) user bid (\<lambda>_ a1.
          case app_delete_book c now bid a1 of
            (Inl e, a2) \<Rightarrow> (write_error c 500 (err_text c e), a2)
          | (Inr _, a2) \<Rightarrow> (write_json 200 (BodyStatus (lit ''deleted'')), a2)) a
      else if rq_method r = lit ''PATCH'' then
        (case rq_update r of
           None \<Rightarrow> (write_error c 400 (lit ''invalid JSON body''), a)
         | Some (title, category, tags) \<Rightarrow>
             with_book c (app_get_book c) user bid (\<lambda>_ a1.
               case update_book c now bid title category tags a1 of
                 (Inl e, a2) \<Rightarrow> (write_error c 400 (err_text c e), a2)
               | (Inr b, a2) \<Rightarrow> (write_json 200 (BodyBook b), a2)) a)
      else (method_not_allowed c, a))"

definition handle_upload_book ::
  "'k book_server \<Rightarrow> book_config \<Rightarrow> gotime \<Rightarrow> gostr \<times> gostr \<times> gostr \<Rightarrow> book_request \<Rightarrow> auth_user \<Rightarrow> handler" where
  "handle_upload_book srv c now ids r user a =
     (if 0 < bv_max_upload_bytes srv \<and> bv_max_upload_bytes srv < rq_length r then
        (write_error c 400 (lit ''invalid form data''), a)
      else
        case rq_form r of
          None \<Rightarrow> (write_error c 400 (lit ''invalid form data''), a)
        | Some form \<Rightarrow>
            (case uf_file form of
               None \<Rightarrow> (write_error c 400 (lit ''file is required (field: file)''), a)
             | Some (name, nbytes) \<Rightarrow>
                 if trim_space (rq_idempotency_key r) = [] then (write_error c 400 (lit ''idempotency key required''), a)
                 else
                   case upload_book c now ids (au_id user) name nbytes (uf_primary_category form) (uf_tags form)
                          (trim_space (rq_idempotency_key r)) a of
                     (Inl e, a1) \<Rightarrow> (failed_request c e, a1)
                   | (Inr (b, True), a1) \<Rightarrow> ((write_json 200 (BodyBook b))\<lparr>rs_replayed := True\<rparr>, a1)
                   | (Inr (b, False), a1) \<Rightarrow> (write_json 201 (BodyBook b), a1)))"

definition handle_list_books :: "book_config \<Rightarrow> book_request \<Rightarrow> auth_user \<Rightarrow> handler" where
  "handle_list_books c r user a =
     (let q = (\<lambda>k. trim_space (rq_query r (lit k))) in
      case app_list_books c (au_id user) (au_admin user)
             \<lparr>bl_query = q ''query'', bl_owner_id = q ''ownerId'', bl_status = q ''status'',
              bl_primary_category = q ''primaryCategory'', bl_tag = q ''tag'', bl_format = q ''format'',
              bl_language = q ''language'', bl_sort_by = q ''sortBy'', bl_sort_order = q ''sortOrder'',
              bl_page = 0, bl_page_size = 0\<rparr> a of
        (Inl _, a1) \<Rightarrow> (internal_error c, a1)
      | (Inr books, a1) \<Rightarrow> (write_json 200 (BodyBooks books), a1))"

definition handle_books ::
  "'k book_server \<Rightarrow> book_config \<Rightarrow> gotime \<Rightarrow> gostr \<times> gostr \<times> gostr \<Rightarrow> book_request \<Rightarrow> auth_user \<Rightarrow> handler" where
  "handle_books srv c now ids r user =
     (if rq_method r = lit ''POST'' then handle_upload_book srv c now ids r user
      else if rq_method r = lit ''GET'' then handle_list_books c r user
      else Pair (method_not_allowed c))"

text \<open>The interface of the other services.\<close>

definition handle_internal_file :: "book_config \<Rightarrow> presign \<Rightarrow> gostr \<Rightarrow> handler" where
  "handle_internal_file c presign bid a =
     (case get_download_url c presign bid a of
        (Inl _, a1) \<Rightarrow> (resp_not_found c (lit ''book not found''), a1)
      | (Inr (url, name), a1) \<Rightarrow> (write_json 200 (BodyFile url name), a1))"

definition handle_internal_status :: "book_config \<Rightarrow> gotime \<Rightarrow> (gostr \<times> gostr \<times> int) option \<Rightarrow> gostr \<Rightarrow> handler" where
  "handle_internal_status c now body bid a =
     (case body of
        None \<Rightarrow> (write_error c 400 (lit ''invalid JSON body''), a)
      | Some (status, msg, gen) \<Rightarrow>
          (case parse_book_status (lw_of c) status of
             None \<Rightarrow> (write_error c 400 (lit ''invalid status''), a)
           | Some st \<Rightarrow>
               (case update_status now bid st msg gen a of
                  (Inl e, a1) \<Rightarrow>
                    (if e = ErrStaleGeneration then
                       write_json 409 (BodyError (lit ''BOOK_STALE_GENERATION'') (err_text c e))
                     else internal_error c, a1)
                | (Inr _, a1) \<Rightarrow> (write_json 200 (BodyStatus (lit ''updated'')), a1))))"

definition handle_internal_book :: "book_config \<Rightarrow> presign \<Rightarrow> gotime \<Rightarrow> book_request \<Rightarrow> handler" where
  "handle_internal_book c presign now r a =
     (case split_on 47 (trim_prefix (rq_path r) (lit ''/internal/books/'')) of
        [bid, action] \<Rightarrow>
          if bid = [] \<or> action = [] then (resp_not_found c (lit ''not found''), a)
          else if action = lit ''file'' then
            (if rq_method r \<noteq> lit ''GET'' then (method_not_allowed c, a) else handle_internal_file c presign bid a)
          else if action = lit ''status'' then
            (if rq_method r \<noteq> lit ''PATCH'' then (method_not_allowed c, a)
             else handle_internal_status c now (rq_status r) bid a)
          else (resp_not_found c (lit ''not found''), a)
      | _ \<Rightarrow> (resp_not_found c (lit ''not found''), a))"

section \<open>Authentication and routes\<close>

definition with_user :: "'k book_server \<Rightarrow> book_config \<Rightarrow> book_request \<Rightarrow> (auth_user \<Rightarrow> handler) \<Rightarrow> handler" where
  "with_user srv c r next_handler a =
     (case bv_me srv of
        None \<Rightarrow> (write_error c 500 (lit ''auth client not configured''), a)
      | Some me \<Rightarrow>
          (case book_bearer_token (rq_authorization r) of
             None \<Rightarrow> (write_error c 401 (lit ''unauthorized''), a)
           | Some token \<Rightarrow>
               if (case bv_token_ok srv of None \<Rightarrow> False | Some ok \<Rightarrow> \<not> ok token) then
                 (write_error c 401 (lit ''unauthorized''), a)
               else
                 case me token of
                   None \<Rightarrow> (write_error c 401 (lit ''unauthorized''), a)
                 | Some user \<Rightarrow> next_handler user a))"

definition with_internal :: "'k jwt_parse \<Rightarrow> 'k book_server \<Rightarrow> book_config \<Rightarrow> gotime \<Rightarrow> book_request \<Rightarrow> handler \<Rightarrow> handler" where
  "with_internal jparse srv c now r next_handler a =
     (case bearer_token (rq_authorization r) of
        None \<Rightarrow> (write_error c 401 (lit ''unauthorized''), a)
      | Some token \<Rightarrow>
          (case service_verify jparse (bv_internal srv) now token of
             Inl _ \<Rightarrow> (write_error c 401 (lit ''unauthorized''), a)
           | Inr _ \<Rightarrow> next_handler a))"

definition book_routes ::
  "'k jwt_parse \<Rightarrow> 'k book_server \<Rightarrow> book_config \<Rightarrow> presign \<Rightarrow> gotime \<Rightarrow> gostr \<times> gostr \<times> gostr \<Rightarrow> book_request \<Rightarrow> handler" where
  "book_routes jparse srv c presign now ids r =
     (let (rid, bid, mid) = ids in
      if rq_path r = lit ''/healthz'' then Pair (write_json 200 (BodyStatus (lit ''ok'')))
      else if has_prefix (rq_path r) (lit ''/internal/books/'') then
        with_internal jparse srv c now r (handle_internal_book c presign now r)
      else if rq_path r = lit ''/internal/books'' then
        Pair \<lparr>rs_status = 301, rs_body = BodyPlain (lit ''/internal/books/''), rs_replayed = False\<rparr>
      else if rq_path r = lit ''/books'' then with_user srv c r (handle_books srv c now ids r)
      else if has_prefix (rq_path r) (lit ''/books/'') then with_user srv c r (handle_book_by_id c presign now (rid, mid) r)
      else Pair \<lparr>rs_status = 404, rs_body = BodyPlain (lit ''404 page not found''), rs_replayed = False\<rparr>)"

end
