(* ===== verification/BookServerFacts.thy ===== *)
theory BookServerFacts
  imports BookServer
begin

text \<open>
  Users and their books: what every request of the book service keeps of the books of other users, and
  what its answers show.
\<close>

section \<open>The books of others\<close>

text \<open>The rows that do not belong to a user.\<close>

definition foreign :: "gostr \<Rightarrow> tables \<Rightarrow> gostr \<Rightarrow> book option" where
  "foreign u t i = (case book_rows t i of None \<Rightarrow> None | Some b \<Rightarrow> if bo_owner_id b = u then None else Some b)"

text \<open>Book IDs are not blank and have no surrounding white space.\<close>

definition named :: "tables \<Rightarrow> bool" where
  "named t \<longleftrightarrow> list_all (\<lambda>b. bo_id b \<noteq> [] \<and> trim_space (bo_id b) = bo_id b) (tb_books t)"

text \<open>The requests that a user has completed are about books of the user.\<close>

definition own_records :: "gostr \<Rightarrow> (gostr \<Rightarrow> book option) \<Rightarrow> tables \<Rightarrow> bool" where
  "own_records u m t \<longleftrightarrow> list_all (\<lambda>r. ir_actor_id r = u \<longrightarrow> m (ir_resource_id r) = None) (tb_idempotency t)"

text \<open>The tables that a user can reach when the books of others are \<open>m\<close>.\<close>

definition user_view :: "gostr \<Rightarrow> (gostr \<Rightarrow> book option) \<Rightarrow> tables \<Rightarrow> bool" where
  "user_view u m t \<longleftrightarrow> tables_ok t \<and> named t \<and> own_records u m t \<and> foreign u t = m"

definition good_record :: "gostr \<Rightarrow> (gostr \<Rightarrow> book option) \<Rightarrow> idem_record \<Rightarrow> bool" where
  "good_record u m r \<longleftrightarrow> (trim_space (ir_actor_id r) = u \<longrightarrow> m (trim_space (ir_resource_id r)) = None)"

lemma rows_in: "book_rows t i = Some b \<Longrightarrow> b \<in> set (tb_books t) \<and> bo_id b = i"
  unfolding book_rows_def find_Some_iff by auto

lemma view_no_blank: "user_view u m t \<Longrightarrow> m [] = None"
  using rows_in [of t "[]"] by (fastforce simp: user_view_def foreign_def named_def list_all_iff split: option.splits)

lemma view_row:
  assumes "user_view u m t" "b \<in> set (tb_books t)"
  shows "m (bo_id b) = None \<longleftrightarrow> bo_owner_id b = u" "trim_space (bo_id b) = bo_id b" "bo_id b \<noteq> []"
proof -
  have "distinct (map bo_id (tb_books t))" using assms(1) by (simp add: user_view_def tables_ok_def keys_ok_def)
  then have "book_rows t (bo_id b) = Some b"
    unfolding book_rows_def using find_unique [of bo_id "tb_books t" b "\<lambda>x. bo_id x = bo_id b" "\<lambda>x. True"] assms(2) by simp
  then show "m (bo_id b) = None \<longleftrightarrow> bo_owner_id b = u" using assms(1) by (auto simp: user_view_def foreign_def split: if_splits)
  show "trim_space (bo_id b) = bo_id b" "bo_id b \<noteq> []" using assms by (auto simp: user_view_def named_def list_all_iff)
qed

section \<open>Statements\<close>

lemma view_edit:
  assumes "user_view u m t" "m bid = None" "tables_ok t'" "tb_idempotency t' = tb_idempotency t"
    and "tb_books t' = update_where (\<lambda>b. bo_id b = bid \<and> P b) f (tb_books t)"
    and "\<And>b. bo_id (f b) = bo_id b" "\<And>b. bo_owner_id (f b) = bo_owner_id b"
  shows "user_view u m t'"
proof -
  have "foreign u t' i = foreign u t i" for i
    using assms(1,2) by (auto simp: foreign_def rows_edited [OF assms(5,6)] edited_def assms(7) user_view_def split: option.split)
  then have f: "foreign u t' = foreign u t" by (rule ext)
  have "named t'" using assms(1) by (auto simp: named_def list_all_iff assms(5,6) update_where_set user_view_def)
  then show ?thesis using assms(1,3,4) f by (simp add: user_view_def own_records_def)
qed

lemma view_save_book:
  assumes "user_view u m t" "m (bo_id b) = None" "bo_owner_id b = u" "trim_space (bo_id b) = bo_id b" "bo_id b \<noteq> []"
  shows "user_view u m (snd (save_book lw b t))"
proof -
  have owner: "bo_owner_id (book_to_model lw b) = u" "bo_owner_id (assign_book old (book_to_model lw b)) = u" for old
    using assms(3) by (simp_all add: book_to_model_def assign_book_def)
  have "foreign u (snd (save_book lw b t)) i = foreign u t i" for i
    using assms(1,2) by (auto simp: foreign_def rows_merged merged_def owner user_view_def split: option.split)
  then have f: "foreign u (snd (save_book lw b t)) = foreign u t" by (rule ext)
  have "named (snd (save_book lw b t))"
    using assms by (auto simp: named_def list_all_iff save_book_def upsert_def update_where_set user_view_def assign_book_def
        book_to_model_def)
  moreover have "tables_ok (snd (save_book lw b t))"
    using assms(1) save_book_ok [of t lw b "()" "snd (save_book lw b t)"] by (simp add: user_view_def save_book_def)
  moreover have "tb_idempotency (snd (save_book lw b t)) = tb_idempotency t" by (simp add: save_book_def)
  ultimately show ?thesis using assms(1) f by (simp add: user_view_def own_records_def)
qed

lemma view_same_books:
  assumes "user_view u m t" "tables_ok t'" "tb_books t' = tb_books t"
    and "\<And>r. r \<in> set (tb_idempotency t') \<Longrightarrow> ir_actor_id r = u \<Longrightarrow> m (ir_resource_id r) = None"
  shows "user_view u m t'"
proof -
  have "foreign u t' = foreign u t" using rows_kept [OF assms(3)] by (simp add: foreign_def fun_eq_iff)
  then show ?thesis using assms by (simp add: user_view_def named_def own_records_def list_all_iff)
qed

lemma view_records: "user_view u m t \<Longrightarrow> r \<in> set (tb_idempotency t) \<Longrightarrow> ir_actor_id r = u \<Longrightarrow> m (ir_resource_id r) = None"
  by (auto simp: user_view_def own_records_def list_all_iff)

lemma view_save_idem:
  assumes "user_view u m t" "good_record u m r" "save_idempotency_record r t = (Inr x, t')"
  shows "user_view u m t'"
proof (rule view_same_books [OF assms(1)])
  show "tables_ok t'" using save_idem_ok [OF _ assms(3)] assms(1) by (simp add: user_view_def)
  show "tb_books t' = tb_books t" using books_same(1) [of r t] assms(3) by simp
  fix s assume s: "s \<in> set (tb_idempotency t')" "ir_actor_id s = u"
  define q where "q = idem_to_model r"
  have t': "tb_idempotency t' = upsert ir_id assign_idem q (tb_idempotency t)"
    using assms(3) by (auto simp: save_idempotency_record_def q_def Let_def split: if_splits)
  have "s \<in> set (tb_idempotency t) \<or> ir_actor_id s = ir_actor_id q \<and> ir_resource_id s = ir_resource_id q"
    using s(1) unfolding t' upsert_def by (auto simp: update_where_set assign_idem_def split: if_splits)
  then have "s \<in> set (tb_idempotency t) \<or> ir_actor_id s = trim_space (ir_actor_id r) \<and> ir_resource_id s = trim_space (ir_resource_id r)"
    by (simp add: q_def idem_to_model_def)
  then show "m (ir_resource_id s) = None"
    using view_records [OF assms(1) _ s(2)] s(2) assms(2) by (auto simp: good_record_def)
qed

lemma view_outbox:
  assumes "user_view u m t" "t' = t\<lparr>tb_outbox := os\<rparr>" "tables_ok t'"
  shows "user_view u m t'"
  by (rule view_same_books [OF assms(1,3)]) (use assms(1,2) view_records [OF assms(1)] in simp_all)

lemma view_save_and_outbox:
  assumes "user_view u m t" "m (bo_id b) = None" "bo_owner_id b = u" "trim_space (bo_id b) = bo_id b" "bo_id b \<noteq> []"
    and "good_record u m r" "save_book_and_outbox lw b (Some r) (Some msg) t = (Inr x, t')"
  shows "user_view u m t'"
proof -
  obtain t2 where t2: "save_idempotency_record r (snd (save_book lw b t)) = (Inr (), t2)" "t' = add_outbox msg t2"
    using assms(7) by (rule save_book_and_outbox_effect)
  have v2: "user_view u m t2" using view_save_idem [OF view_save_book [OF assms(1-5)] assms(6) t2(1)] .
  have "tables_ok t'" using save_book_and_outbox_ok [OF _ assms(7)] assms(1) by (simp add: user_view_def)
  moreover have "tb_books t' = tb_books t2" "tb_idempotency t' = tb_idempotency t2"
    unfolding t2(2) by (simp_all add: add_outbox_def Let_def)
  ultimately show ?thesis using view_same_books [OF v2, of t'] view_records [OF v2] by simp
qed

section \<open>Calls\<close>

lemma view_call:
  assumes "user_view u m (tabs a)" "\<And>x t'. f (tabs a) = (Inr x, t') \<Longrightarrow> user_view u m t'"
  shows "user_view u m (tabs (snd (store_call f a)))"
  using store_call_tabs [where P = "user_view u m" and f = f and a = a] assms by blast

lemma view_dispatch: "user_view u m (tabs a) \<Longrightarrow> user_view u m (tabs (dispatch_pending_ingest_outbox c now k a))"
  using dispatch_frame [of c now k a] dispatch_tables_ok [of a c now k] view_outbox [of u m "tabs a"]
  by (auto simp: user_view_def)

lemma get_own_book:
  assumes "user_view u m (tabs a)" "store_call (get_book lw bid) a = (Inr (Some b), a1)"
  shows "tabs a1 = tabs a" "bo_id b = bid" "m bid = None \<longleftrightarrow> bo_owner_id b = u" "trim_space bid = bid" "bid \<noteq> []"
proof -
  show t: "tabs a1 = tabs a" using get_book_tabs [of lw bid a] assms(2) by simp
  obtain row where "List.find (\<lambda>b. BookStore.live b \<and> bo_id b = bid) (tb_books (tabs a)) = Some row" "b = book_from_model lw row"
    using store_call_ok [OF assms(2)] by (auto simp: get_book_def)
  then have row: "row \<in> set (tb_books (tabs a))" "bo_id row = bid" "bo_id b = bid" "bo_owner_id b = bo_owner_id row"
    by (auto simp: find_Some_iff book_from_model_def)
  then show "bo_id b = bid" "m bid = None \<longleftrightarrow> bo_owner_id b = u" "trim_space bid = bid" "bid \<noteq> []"
    using view_row [OF assms(1) row(1)] by auto
qed

lemma need_book_row:
  assumes "user_view u m (tabs a)" "need_book c bid a = (Inr b, a1)" "m bid = None"
  shows "list_ex (\<lambda>row. bo_owner_id row = u \<and> bo_storage_key row = bo_storage_key b \<and>
    bo_original_filename row = bo_original_filename b) (tb_books (tabs a1))"
proof -
  have g: "store_call (get_book (lw_of c) bid) a = (Inr (Some b), a1)"
    using assms(2) 
    by (cases "store_call (get_book (lw_of c) bid) a") (auto simp: need_book_def split: sum.splits option.splits)
  then obtain row where "List.find (\<lambda>b. BookStore.live b \<and> bo_id b = bid) (tb_books (tabs a)) = Some row" "b = book_from_model (lw_of c) row"
    using store_call_ok [OF g] by (auto simp: get_book_def)
  then have "row \<in> set (tb_books (tabs a1))" "bo_owner_id b = bo_owner_id row" "bo_storage_key row = bo_storage_key b"
      "bo_original_filename row = bo_original_filename b"
    using get_own_book(1) [OF assms(1) g] by (auto simp: find_Some_iff book_from_model_def)
  then show ?thesis using get_own_book(3) [OF assms(1) g] assms(3) by (auto simp: list_ex_iff)
qed

lemma get_own_book_including_deleted:
  assumes "user_view u m (tabs a)" "store_call (get_book_including_deleted lw bid) a = (Inr (Some b), a1)"
  shows "m bid = None \<longleftrightarrow> bo_owner_id b = u"
proof -
  obtain row where "List.find (\<lambda>b. bo_id b = bid) (tb_books (tabs a)) = Some row" "b = book_from_model lw row"
    using store_call_ok [OF assms(2)] by (auto simp: get_book_including_deleted_def)
  then have row: "row \<in> set (tb_books (tabs a))" "bo_id row = bid" "bo_owner_id b = bo_owner_id row"
    by (auto simp: find_Some_iff book_from_model_def)
  then show ?thesis using view_row [OF assms(1) row(1)] by auto
qed

lemma get_including_deleted_tabs: "tabs (snd (store_call (get_book_including_deleted lw bid) a)) = tabs a"
  by (rule store_call_query) (simp add: get_book_including_deleted_def)

lemma get_own_record:
  assumes "user_view u m (tabs a)" "store_call (get_idempotency_record scope u key) a = (Inr (Some r), a1)" "trim_space u = u"
  shows "m (ir_resource_id r) = None" "ir_actor_id r = u" "r \<in> set (tb_idempotency (tabs a))"
proof -
  have "List.find (\<lambda>r. idem_triple r = (trim_space scope, trim_space u, trim_space key)) (tb_idempotency (tabs a)) = Some r"
    using store_call_ok [OF assms(2)] unfolding get_idempotency_record_def by (metis prod.inject sum.inject(2))
  then show "r \<in> set (tb_idempotency (tabs a))" "ir_actor_id r = u" using assms(3) by (auto simp: find_Some_iff idem_triple_def)
  then show "m (ir_resource_id r) = None" using view_records [OF assms(1)] by blast
qed

section \<open>Operations\<close>

text \<open>A begun request: a replayed book of the user, or a record about one.\<close>

fun begun_ok :: "gostr \<Rightarrow> (gostr \<Rightarrow> book option) \<Rightarrow> app_err + begun \<Rightarrow> bool" where
  "begun_ok u m (Inr (Replayed r b)) \<longleftrightarrow> bo_owner_id b = u"
| "begun_ok u m (Inr (Began r)) \<longleftrightarrow> good_record u m r"
| "begun_ok u m (Inl e) \<longleftrightarrow> True"

lemma view_replay:
  assumes "user_view u m (tabs a)" "m (ir_resource_id r) = None" "replay_book c r a = (res, a1)"
  shows "user_view u m (tabs a1) \<and> begun_ok u m res"
proof -
  obtain q a2 where q: "store_call (get_book (lw_of c) (ir_resource_id r)) a = (q, a2)" by (metis surj_pair)
  have t: "tabs a2 = tabs a" using get_book_tabs [of "lw_of c" "ir_resource_id r" a] q by simp
  show ?thesis
    using assms q t get_own_book [OF assms(1)] by (auto simp: replay_book_def split: sum.splits option.splits)
qed

lemma view_start:
  assumes "user_view u m (tabs a)" "trim_space u = u" "start_record c now rid scope u key h a = (res, a1)"
  shows "user_view u m (tabs a1) \<and> begun_ok u m res"
proof -
  define rec where "rec = \<lparr>ir_id = rid, ir_scope = scope, ir_actor_id = trim_space u, ir_key = key,
    ir_request_hash = h, ir_resource_type = [], ir_resource_id = [], ir_status_code = 0,
    ir_state = IdemProcessing, ir_response = [], ir_created_at = now, ir_updated_at = now\<rparr>"
  have good: "good_record u m rec" using view_no_blank [OF assms(1)] by (simp add: good_record_def rec_def)
  obtain q a2 where q: "store_call (save_idempotency_record rec) a = (q, a2)" by (metis surj_pair)
  have v2: "user_view u m (tabs a2)"
    using view_call [of u m a "save_idempotency_record rec"] view_save_idem [OF assms(1) good] assms(1) q by simp
  show ?thesis
  proof (cases q)
    case (Inr x)
    then show ?thesis using assms(3) v2 good q by (auto simp: start_record_def rec_def [symmetric])
  next
    case (Inl e)
    obtain p a3 where p: "store_call (get_idempotency_record scope u key) a2 = (p, a3)" by (metis surj_pair)
    have t3: "tabs a3 = tabs a2" using get_idempotency_tabs [of scope u key a2] p by simp
    have v3: "user_view u m (tabs a3)" using v2 t3 by simp
    show ?thesis
    proof (cases "\<exists>cur. p = Inr (Some cur)")
      case True
      then obtain cur where cur: "p = Inr (Some cur)" by blast
      have "m (ir_resource_id cur) = None" using get_own_record [OF v2 _ assms(2)] p cur by blast
      then show ?thesis
        using assms(3) v3 view_replay [OF v3, of cur c res a1] Inl p cur q
        by (auto simp: start_record_def rec_def [symmetric] split: if_splits)
    next
      case False
      then show ?thesis
        using assms(3) v3 Inl p q by (auto simp: start_record_def rec_def [symmetric] split: sum.splits option.splits)
    qed
  qed
qed

lemma view_begin:
  assumes "user_view u m (tabs a)" "trim_space u = u"
    and "begin_book_idempotency c now rid scope u key h a = (res, a1)"
  shows "user_view u m (tabs a1) \<and> begun_ok u m res"
proof (cases "trim_space key = []")
  case True
  then show ?thesis using assms by (auto simp: begin_book_idempotency_def)
next
  case False
  obtain p a2 where p: "store_call (get_idempotency_record scope u (trim_space key)) a = (p, a2)" by (metis surj_pair)
  have t2: "tabs a2 = tabs a" using get_idempotency_tabs [of scope u "trim_space key" a] p by simp
  have v2: "user_view u m (tabs a2)" using assms(1) t2 by simp
  show ?thesis
  proof (cases "\<exists>cur. p = Inr (Some cur)")
    case True
    then obtain cur where cur: "p = Inr (Some cur)" by blast
    have m_cur: "m (ir_resource_id cur) = None" using get_own_record [OF assms(1) _ assms(2)] p cur by blast
    define fresh where "fresh = cur\<lparr>ir_state := IdemProcessing, ir_status_code := 0, ir_updated_at := now,
      ir_resource_id := [], ir_resource_type := []\<rparr>"
    have good: "good_record u m fresh" using view_no_blank [OF assms(1)] by (simp add: good_record_def fresh_def)
    obtain q a3 where q: "store_call (save_idempotency_record fresh) a2 = (q, a3)" by (metis surj_pair)
    have v3: "user_view u m (tabs a3)"
      using view_call [of u m a2 "save_idempotency_record fresh"] view_save_idem [OF v2 good] v2 q by simp
    show ?thesis
    proof (cases "ir_state cur")
      case IdemFailed
      then show ?thesis using assms(3) False v2 v3 good p cur q
        by (auto simp: begin_book_idempotency_def fresh_def [symmetric] Let_def split: if_splits sum.splits)
    qed (use assms(3) False v2 view_replay [OF v2 m_cur, of c res a1] p cur in
        \<open>auto simp: begin_book_idempotency_def Let_def split: if_splits\<close>)
  next
    case no: False
    then show ?thesis
      using assms(3) False v2 view_start [OF v2 assms(2), of c now rid scope "trim_space key" h res a1] p
      by (auto simp: begin_book_idempotency_def Let_def split: sum.splits option.splits)
  qed
qed

lemma view_save_record:
  "user_view u m (tabs a) \<Longrightarrow> good_record u m r \<Longrightarrow> user_view u m (tabs (snd (store_call (save_idempotency_record r) a)))"
  by (rule view_call) (auto intro: view_save_idem)

lemma view_mark_failed:
  "user_view u m (tabs a) \<Longrightarrow> good_record u m r \<Longrightarrow> user_view u m (tabs (snd (mark_book_idempotency_failed now r code a)))"
  using view_save_record [of u m a "r\<lparr>ir_state := IdemFailed, ir_status_code := code, ir_updated_at := now\<rparr>"]
  by (simp add: mark_book_idempotency_failed_def good_record_def)

lemma good_completed:
  "m (trim_space bid) = None \<Longrightarrow> good_record u m (completed_record now t bid code r)"
  by (simp add: good_record_def completed_record_def)

lemma view_save_call:
  assumes "user_view u m (tabs a)" "m (bo_id b) = None" "bo_owner_id b = u" "trim_space (bo_id b) = bo_id b" "bo_id b \<noteq> []"
  shows "user_view u m (tabs (snd (store_call (save_book_and_outbox lw b (Some (completed_record now t (bo_id b) code r)) (Some msg)) a)))"
  by (rule view_call [OF assms(1)])
    (rule view_save_and_outbox [OF assms(1-5) good_completed], use assms(2,4) in simp_all)

lemma view_upload:
  assumes "user_view u m (tabs a)" "trim_space u = u" "m bid = None" "trim_space bid = bid" "bid \<noteq> []"
    and "upload_book c now (rid, bid, mid) u name n category tags key a = (res, a')"
  shows "user_view u m (tabs a') \<and> (case res of Inl _ \<Rightarrow> True | Inr (b, _) \<Rightarrow> bo_owner_id b = u)"
proof (cases "check_upload c name n category tags")
  case (Inl e)
  then show ?thesis using assms by (auto simp: upload_book_def)
next
  case (Inr ok)
  obtain cat ts where ok: "ok = (cat, ts)" by (cases ok)
  define b where "b = new_book c now bid u name n cat ts"
  have b: "bo_id b = bid" "bo_owner_id b = u" by (simp_all add: b_def new_book_def)
  obtain q a1 where q: "begin_book_idempotency c now rid (lit ''book.upload'') u key (upload_request_hash c u name n cat ts) a = (q, a1)"
    by (metis surj_pair)
  note v1 = view_begin [OF assms(1,2) q]
  show ?thesis
  proof (cases "\<exists>r. q = Inr (Began r)")
    case True
    then obtain r where r: "q = Inr (Began r)" by blast
    then have good: "good_record u m r" using v1 by simp
    obtain p a2 where p: "put_object (bo_storage_key b) a1 = (p, a2)" by (metis surj_pair)
    have v2: "user_view u m (tabs a2)" using v1 put_object_tabs [of "bo_storage_key b" a1] p by simp
    define f where "f = save_book_and_outbox (lw_of c) b (Some (completed_record now (lit ''book'') bid 201 r))
       (Some (build_ingest_outbox_message now mid bid 1))"
    obtain s a3 where s: "store_call f a2 = (s, a3)" by (metis surj_pair)
    have v3: "user_view u m (tabs a3)"
      using view_save_call [OF v2, of b "lw_of c" now "lit ''book''" 201 r "build_ingest_outbox_message now mid bid 1"]
        b assms(3-5) s by (simp add: f_def)
    have v4: "user_view u m (tabs (snd (delete_object (bo_storage_key b) a3)))" using v3 by simp
    show ?thesis
      using assms(6) v2 v4 view_mark_failed [OF v2 good] view_mark_failed [OF v4 good] view_dispatch [OF v3] b(2)
      unfolding upload_book_def Let_def Inr ok prod.case sum.case q r begun.case b_def [symmetric] p f_def [symmetric] s
      by (auto simp: f_def [symmetric] s split: sum.splits)
  next
    case False
    then show ?thesis
      using assms(6) v1 unfolding upload_book_def Let_def Inr ok prod.case sum.case q by (auto split: sum.splits begun.splits)
  qed
qed

lemma need_book_view:
  assumes "user_view u m (tabs a)" "need_book c bid a = (res, a1)"
  shows "tabs a1 = tabs a \<and> user_view u m (tabs a1) \<and>
    (case res of Inl _ \<Rightarrow> True
     | Inr b \<Rightarrow> bo_id b = bid \<and> (m bid = None \<longleftrightarrow> bo_owner_id b = u) \<and> trim_space bid = bid \<and> bid \<noteq> [])"
proof -
  obtain q a2 where q: "store_call (get_book (lw_of c) bid) a = (q, a2)" by (metis surj_pair)
  have t: "tabs a2 = tabs a" using get_book_tabs [of "lw_of c" bid a] q by simp
  show ?thesis
  proof (cases "\<exists>b. q = Inr (Some b)")
    case True
    then obtain b where b: "q = Inr (Some b)" by blast
    then show ?thesis using assms q t get_own_book [OF assms(1) q [unfolded b]] by (auto simp: need_book_def)
  next
    case False
    then show ?thesis using assms q t by (auto simp: need_book_def split: sum.splits option.splits)
  qed
qed

lemma edit_book_same: "edit_book c now title cat tags b = Inr b' \<Longrightarrow> bo_id b' = bo_id b \<and> bo_owner_id b' = bo_owner_id b"
  by (auto simp: edit_book_def split: sum.splits)

lemma view_update:
  assumes "user_view u m (tabs a)" "m bid = None" "update_book c now bid title cat tags a = (res, a')"
  shows "user_view u m (tabs a') \<and> (case res of Inl _ \<Rightarrow> True | Inr b \<Rightarrow> bo_owner_id b = u)"
proof -
  obtain q a1 where q: "need_book c bid a = (q, a1)" by (metis surj_pair)
  note n = need_book_view [OF assms(1) q]
  show ?thesis
  proof (cases q)
    case (Inl e)
    then show ?thesis using assms q n by (auto simp: update_book_def)
  next
    case (Inr b)
    have b: "bo_id b = bid" "bo_owner_id b = u" "trim_space bid = bid" "bid \<noteq> []" using n assms(2) Inr by auto
    show ?thesis
    proof (cases "edit_book c now title cat tags b")
      case (Inl e)
      then show ?thesis using assms q n Inr by (auto simp: update_book_def split: sum.splits)
    next
      case e: (Inr b')
      obtain p a2 where p: "store_call (save_book (lw_of c) b') a1 = (p, a2)" by (metis surj_pair)
      have v1: "user_view u m (tabs a1)" using n by (elim conjE)
      have "user_view u m (tabs (snd (store_call (save_book (lw_of c) b') a1)))"
      proof (rule view_call [OF v1])
        fix x t' assume "save_book (lw_of c) b' (tabs a1) = (Inr x, t')"
        then show "user_view u m t'"
          using view_save_book [OF v1, of b' "lw_of c"] edit_book_same [OF e] b assms(2) by simp
      qed
      then show ?thesis
        using assms(3) q Inr e p edit_book_same [OF e] b by (auto simp: update_book_def update_book_save_def split: sum.splits)
    qed
  qed
qed

lemma view_edit_call:
  assumes "user_view u m (tabs a)" "m bid = None"
    and "\<And>t. f t = (Inr (), t\<lparr>tb_books := update_where (\<lambda>b. bo_id b = bid \<and> P b) g (tb_books t)\<rparr>)"
    and "\<And>b. bo_id (g b) = bo_id b" "\<And>b. bo_owner_id (g b) = bo_owner_id b"
  shows "user_view u m (tabs (snd (store_call f a)))"
proof (rule view_call [OF assms(1)])
  fix x t' assume "f (tabs a) = (Inr x, t')"
  then have t': "t' = (tabs a)\<lparr>tb_books := update_where (\<lambda>b. bo_id b = bid \<and> P b) g (tb_books (tabs a))\<rparr>" by (simp add: assms(3))
  have "tables_ok t'" unfolding t' using assms(1,4) tables_ok_update_books by (auto simp: user_view_def)
  then show "user_view u m t'" by (rule view_edit [OF assms(1,2), where P = P and f = g]) (simp_all add: t' assms(4,5))
qed

lemma view_mark_deleted:
  "user_view u m (tabs a) \<Longrightarrow> m bid = None \<Longrightarrow> user_view u m (tabs (snd (store_call (mark_book_deleted now bid cs) a)))"
  by (rule view_edit_call [where P = BookStore.live, OF _ _ mark_book_deleted_def]) simp_all

lemma view_cleanup:
  assumes "user_view u m (tabs a)" "m bid = None"
  shows "user_view u m (tabs (snd (cleanup_call now bid cs e False a)))"
proof -
  have "cleanup_call now bid cs e False a = store_call (write_book_cleanup now bid cs e) a"
    by (simp add: cleanup_call_def update_book_cleanup_def store_call_def case_prod_beta split: sum.splits)
  moreover have "user_view u m (tabs (snd (store_call (write_book_cleanup now bid cs e) a)))"
    by (rule view_edit_call [where P = "\<lambda>_. True" and g = "\<lambda>b. b\<lparr>bo_cleanup_status := Some cs, bo_cleanup_error := trim_space e,
          bo_cleanup_updated_at := Some now, bo_updated_at := now\<rparr>", OF assms]) (simp_all add: write_book_cleanup_def)
  ultimately show ?thesis by simp
qed

lemma view_delete:
  assumes "user_view u m (tabs a)" "m bid = None"
  shows "user_view u m (tabs (snd (app_delete_book c now bid a)))"
proof -
  obtain q a1 where q: "store_call (get_book_including_deleted (lw_of c) bid) a = (q, a1)" by (metis surj_pair)
  have v1: "user_view u m (tabs a1)" using get_including_deleted_tabs [of "lw_of c" bid a] q assms(1) by simp
  show ?thesis
    using q v1 view_cleanup [OF v1 assms(2)] view_mark_deleted [OF v1 assms(2)]
    by (auto simp: app_delete_book_def split: sum.splits option.splits)
qed

lemma view_reprocess:
  assumes "user_view u m (tabs a)" "trim_space u = u" "m bid = None"
    and "reprocess_book c now (rid, mid) u bid key a = (res, a')"
  shows "user_view u m (tabs a') \<and> (case res of Inl _ \<Rightarrow> True | Inr (b, _) \<Rightarrow> bo_owner_id b = u)"
proof -
  obtain q0 a0 where q0: "need_book c bid a = (q0, a0)" by (metis surj_pair)
  note n0 = need_book_view [OF assms(1) q0]
  show ?thesis
  proof (cases q0)
    case (Inl e)
    then show ?thesis using assms(4) q0 n0 by (auto simp: reprocess_book_def)
  next
    case i0: (Inr b0)
    obtain q1 a1 where q1: "begin_book_idempotency c now rid (lit ''book.reprocess'') u key (hash_strings (bc_sha c) [bid, lit ''{}'']) a0 = (q1, a1)"
      by (metis surj_pair)
    have v0: "user_view u m (tabs a0)" using n0 by (elim conjE)
    note v1 = view_begin [OF v0 assms(2) q1]
    show ?thesis
    proof (cases "\<exists>r. q1 = Inr (Began r)")
      case False
      then show ?thesis
        using assms(4) v1 unfolding reprocess_book_def Let_def prod.case q0 i0 sum.case q1 by (auto split: sum.splits begun.splits)
    next
      case True
      then obtain r where r: "q1 = Inr (Began r)" by blast
      have good: "good_record u m r" using v1 r by simp
      obtain q2 a2 where q2: "need_book c bid a1 = (q2, a2)" by (metis surj_pair)
      note n2 = need_book_view [OF v1 [THEN conjunct1] q2]
      then have v2: "user_view u m (tabs a2)" by (elim conjE)
      show ?thesis
      proof (cases q2)
        case (Inl e)
        then show ?thesis using assms(4) v2 unfolding reprocess_book_def Let_def prod.case q0 i0 sum.case q1 r begun.case q2 by auto
      next
        case i2: (Inr cur)
        have cur: "bo_id cur = bid" "bo_owner_id cur = u" "trim_space bid = bid" "bid \<noteq> []" using n2 i2 assms(3) by auto
        show ?thesis
        proof (cases "bo_status cur = BookQueued \<or> bo_status cur = BookProcessing")
          case True
          have "user_view u m (tabs (snd (complete_book_idempotency now r (lit ''book'') (bo_id cur) 200 a2)))"
            unfolding complete_book_idempotency_def by (rule view_save_record [OF v2 good_completed]) (use cur assms(3) in simp)
          then show ?thesis
            using assms(4) cur unfolding reprocess_book_def Let_def prod.case q0 i0 sum.case q1 r begun.case q2 i2 if_P [OF True] by auto
        next
          case busy: False
          define b where "b = requeued_book now cur"
          have b: "bo_id b = bid" "bo_owner_id b = u" using cur by (simp_all add: b_def requeued_book_def)
          define f where "f = save_book_and_outbox (lw_of c) b (Some (completed_record now (lit ''book'') (bo_id b) 200 r))
             (Some (build_ingest_outbox_message now mid (bo_id b) (bo_generation b)))"
          obtain p a3 where p: "store_call f a2 = (p, a3)" by (metis surj_pair)
          have v3: "user_view u m (tabs a3)"
            using view_save_call [OF v2, of b "lw_of c" now "lit ''book''" 200 r "build_ingest_outbox_message now mid bid (bo_generation b)"]
              b cur assms(3) p by (simp add: f_def)
          obtain q4 a4 where q4: "need_book c bid (dispatch_pending_ingest_outbox c now 1 a3) = (q4, a4)" by (metis surj_pair)
          note n4 = need_book_view [OF view_dispatch [OF v3] q4]
          show ?thesis
            using assms(4) v3 n4 view_mark_failed [OF v3 good] assms(3)
            unfolding reprocess_book_def Let_def prod.case q0 i0 sum.case q1 r begun.case q2 i2 if_not_P [OF busy]
              b_def [symmetric] f_def [symmetric] p
            by (auto simp: q4 split: sum.splits)
        qed
      qed
    qed
  qed
qed

lemma statuses_tabs: "tabs (snd (store_call (list_chunk_index_statuses_by_book bid) a)) = tabs a"
  by (rule store_call_query) (simp add: list_chunk_index_statuses_by_book_def)

lemma count_book [simp]: "ix_book_id (count_status i s) = ix_book_id s"
  by (simp add: count_status_def Let_def)

lemma count_books: "ix_book_id (fold count_status is s) = ix_book_id s"
  by (induction "is" arbitrary: s) simp_all

lemma view_summary:
  assumes "user_view u m (tabs a)" "get_book_index_status_summary c bid a = (res, a')"
  shows "user_view u m (tabs a') \<and> (case res of Inl _ \<Rightarrow> True | Inr s \<Rightarrow> ix_book_id s = bid)"
proof -
  obtain q a1 where q: "need_book c bid a = (q, a1)" by (metis surj_pair)
  note n = need_book_view [OF assms(1) q]
  obtain p a2 where p: "store_call (list_chunk_index_statuses_by_book bid) a1 = (p, a2)" by (metis surj_pair)
  have t: "tabs a2 = tabs a1" using statuses_tabs [of bid a1] p by simp
  show ?thesis
    using assms q n p t by (auto simp: get_book_index_status_summary_def count_books split: sum.splits)
qed

lemma view_repair:
  assumes "user_view u m (tabs a)" "trim_space u = u" "m bid = None"
    and "repair_book_index c now (rid, mid) u bid key a = (res, a')"
  shows "user_view u m (tabs a') \<and> (case res of Inl _ \<Rightarrow> True | Inr (b, _) \<Rightarrow> bo_owner_id b = u)"
proof -
  obtain q a1 where q: "get_book_index_status_summary c bid a = (q, a1)" by (metis surj_pair)
  note v = view_summary [OF assms(1) q]
  show ?thesis
    using assms(4) q v view_reprocess [OF v [THEN conjunct1] assms(2,3), of c now rid mid key res a']
    by (auto simp: repair_book_index_def split: sum.splits)
qed

section \<open>Requests of a user\<close>

text \<open>An answer shows nothing of the books \<open>m\<close> of others: its books are the user's, and a URL was signed for the file
  of a row of the book table \<open>bs\<close> that is the user's.\<close>

fun shows_own :: "gostr \<Rightarrow> (gostr \<Rightarrow> book option) \<Rightarrow> presign \<Rightarrow> book list \<Rightarrow> book_body \<Rightarrow> bool" where
  "shows_own u m sign bs (BodyBook b) \<longleftrightarrow> bo_owner_id b = u"
| "shows_own u m sign bs (BodyBooks items) \<longleftrightarrow> list_all (\<lambda>b. bo_owner_id b = u) items"
| "shows_own u m sign bs (BodySummary s) \<longleftrightarrow> m (ix_book_id s) = None"
| "shows_own u m sign bs (BodyFile url name) \<longleftrightarrow>
     list_ex (\<lambda>b. bo_owner_id b = u \<and> sign (bo_storage_key b) (bo_original_filename b) = Inr url \<and> name = bo_original_filename b) bs"
| "shows_own u m sign bs _ \<longleftrightarrow> True"

text \<open>A handler that a user may call: it keeps the books of others and shows none of them.\<close>

definition confined :: "gostr \<Rightarrow> (gostr \<Rightarrow> book option) \<Rightarrow> presign \<Rightarrow> handler \<Rightarrow> bool" where
  "confined u m sign h \<longleftrightarrow>
     (\<forall>a. user_view u m (tabs a) \<longrightarrow> user_view u m (tabs (snd (h a))) \<and> shows_own u m sign (tb_books (tabs (snd (h a)))) (rs_body (fst (h a))))"

lemma confinedI:
  "(\<And>a r a'. user_view u m (tabs a) \<Longrightarrow> h a = (r, a') \<Longrightarrow> user_view u m (tabs a') \<and> shows_own u m sign (tb_books (tabs a')) (rs_body r)) \<Longrightarrow>
   confined u m sign h"
  unfolding confined_def by (metis prod.collapse)

lemma confinedD:
  "confined u m sign h \<Longrightarrow> user_view u m (tabs a) \<Longrightarrow> h a = (r, a') \<Longrightarrow> user_view u m (tabs a') \<and> shows_own u m sign (tb_books (tabs a')) (rs_body r)"
  unfolding confined_def by (metis fst_conv snd_conv)

lemma bodies [simp]:
  "rs_body (write_json st bd) = bd" "rs_body (write_error c st msg) = BodyError (error_code_for_book (lw_of c) st msg) msg"
  "rs_body (failed_request c e) = BodyError (error_code_for_book (lw_of c) (rs_status (failed_request c e)) (err_text c e)) (err_text c e)"
  by (simp_all add: write_json_def write_error_def failed_request_def Let_def)

lemma error_bodies [simp]:
  "shows_own u m sign bs (rs_body (internal_error c))" "shows_own u m sign bs (rs_body (resp_not_found c msg))"
  "shows_own u m sign bs (rs_body (method_not_allowed c))"
  by (simp_all add: internal_error_def resp_not_found_def method_not_allowed_def)

lemma confined_error: "(\<And>bs. shows_own u m sign bs (rs_body r)) \<Longrightarrow> confined u m sign (Pair r)"
  by (rule confinedI) auto

lemma confined_with_book:
  assumes "\<not> au_admin user" "au_id user = u"
    and "\<And>a q a1. user_view u m (tabs a) \<Longrightarrow> get bid a = (q, a1) \<Longrightarrow>
      user_view u m (tabs a1) \<and> (\<forall>b. q = Inr (Some b) \<longrightarrow> m bid = None \<longleftrightarrow> bo_owner_id b = u)"
    and "\<And>b. m bid = None \<Longrightarrow> bo_owner_id b = u \<Longrightarrow> confined u m sign (k b)"
  shows "confined u m sign (with_book c get user bid k)"
proof (rule confinedI)
  fix a r a' assume v: "user_view u m (tabs a)" and h: "with_book c get user bid k a = (r, a')"
  obtain q a1 where q: "get bid a = (q, a1)" by (metis surj_pair)
  note g = assms(3) [OF v q]
  show "user_view u m (tabs a') \<and> shows_own u m sign (tb_books (tabs a')) (rs_body r)"
  proof (cases "\<exists>b. q = Inr (Some b) \<and> bo_owner_id b = u")
    case True
    then obtain b where b: "q = Inr (Some b)" "bo_owner_id b = u" by blast
    have "confined u m sign (k b)" by (rule assms(4)) (use g b in auto)
    then show ?thesis using confinedD [of u m sign "k b" a1 r a'] g h q b assms(1,2) by (simp add: with_book_def)
  next
    case False
    then show ?thesis using g h q assms(1,2) by (auto simp: with_book_def split: sum.splits option.splits)
  qed
qed

lemma get_confined:
  assumes "user_view u m (tabs a)" "app_get_book c bid a = (q, a1)"
  shows "user_view u m (tabs a1) \<and> (\<forall>b. q = Inr (Some b) \<longrightarrow> m bid = None \<longleftrightarrow> bo_owner_id b = u)"
  using assms get_book_tabs [of "lw_of c" bid a] get_own_book(3) [OF assms(1), of "lw_of c" bid] by (auto simp: app_get_book_def)

lemma get_deleted_confined:
  assumes "user_view u m (tabs a)" "app_get_book_including_deleted c bid a = (q, a1)"
  shows "user_view u m (tabs a1) \<and> (\<forall>b. q = Inr (Some b) \<longrightarrow> m bid = None \<longleftrightarrow> bo_owner_id b = u)"
  using assms get_including_deleted_tabs [of "lw_of c" bid a] get_own_book_including_deleted [OF assms(1), of "lw_of c" bid]
  by (auto simp: app_get_book_including_deleted_def)

lemma view_url:
  assumes "user_view u m (tabs a)" "m bid = None" "get_download_url c sign bid a = (res, a')"
  shows "user_view u m (tabs a') \<and>
    (case res of Inl _ \<Rightarrow> True | Inr (url, name) \<Rightarrow> list_ex (\<lambda>b. bo_owner_id b = u \<and> sign (bo_storage_key b) (bo_original_filename b) = Inr url \<and> name = bo_original_filename b) (tb_books (tabs a')))"
proof -
  obtain q a1 where q: "need_book c bid a = (q, a1)" by (metis surj_pair)
  note n = need_book_view [OF assms(1) q]
  show ?thesis
    using assms(2,3) q n need_book_row [OF assms(1) _ assms(2), of c]
    by (fastforce simp: get_download_url_def list_ex_iff split: sum.splits if_splits)
qed

text \<open>An operation and its answer.\<close>

lemma confined_op:
  assumes "\<And>a q a1. user_view u m (tabs a) \<Longrightarrow> f a = (q, a1) \<Longrightarrow> user_view u m (tabs a1) \<and> (case q of Inl _ \<Rightarrow> True | Inr x \<Rightarrow> P (tb_books (tabs a1)) x)"
    and "\<And>bs e. shows_own u m sign bs (rs_body (bad e))"
    and "\<And>x a1. P (tb_books (tabs a1)) x \<Longrightarrow> snd (good x a1) = a1 \<and> shows_own u m sign (tb_books (tabs a1)) (rs_body (fst (good x a1)))"
  shows "confined u m sign (\<lambda>a. case f a of (q, a1) \<Rightarrow> (case q of Inl e \<Rightarrow> (bad e, a1) | Inr x \<Rightarrow> good x a1))"
proof (rule confinedI)
  fix a r a' assume v: "user_view u m (tabs a)" and h: "(case f a of (q, a1) \<Rightarrow> (case q of Inl e \<Rightarrow> (bad e, a1) | Inr x \<Rightarrow> good x a1)) = (r, a')"
  obtain q a1 where q: "f a = (q, a1)" by (metis surj_pair)
  show "user_view u m (tabs a') \<and> shows_own u m sign (tb_books (tabs a')) (rs_body r)"
  proof (cases q)
    case (Inl e)
    then show ?thesis using h q assms(1) [OF v q] assms(2) by auto
  next
    case (Inr x)
    then have "P (tb_books (tabs a1)) x" "user_view u m (tabs a1)" using assms(1) [OF v q] by simp_all
    moreover have "good x a1 = (r, a')" using h q Inr by simp
    ultimately show ?thesis using assms(3) [of a1 x] by simp
  qed
qed

lemma confined_if: "confined u m sign h \<Longrightarrow> confined u m sign k \<Longrightarrow> confined u m sign (if P then h else k)"
  by simp

lemma confined_if_app:
  "confined u m sign h \<Longrightarrow> confined u m sign k \<Longrightarrow> confined u m sign (\<lambda>a. if P then h a else k a)"
  by (cases P) simp_all

lemma confined_pair: "(\<And>bs. shows_own u m sign bs (rs_body r)) \<Longrightarrow> confined u m sign (\<lambda>a. (r, a))"
  using confined_error [of u m sign r] by (simp add: eta_contract_eq)

lemma confined_download:
  assumes "\<not> au_admin user" "au_id user = u"
  shows "confined u m sign (handle_download_book c sign r user bid)"
  unfolding handle_download_book_def
  by (rule confined_if, simp add: confined_error, rule confined_with_book [OF assms get_confined], assumption+,
      rule confined_op [where P = "\<lambda>bs (url, name). list_ex (\<lambda>b. bo_owner_id b = u \<and> sign (bo_storage_key b) (bo_original_filename b) = Inr url \<and> name = bo_original_filename b) bs"],
      drule (2) view_url, auto split: sum.splits)

lemma confined_status:
  assumes "\<not> au_admin user" "au_id user = u"
  shows "confined u m sign (handle_book_index_status c r user bid)"
  unfolding handle_book_index_status_def
proof (rule confined_if, simp add: confined_error, rule confined_with_book [OF assms get_confined], assumption+)
  fix b assume "m bid = None"
  then show "confined u m sign (\<lambda>a. case get_book_index_status_summary c bid a of
      (Inl e, a1) \<Rightarrow> (write_error c 500 (err_text c e), a1) | (Inr sm, a1) \<Rightarrow> (write_json 200 (BodySummary sm), a1))"
    by (intro confined_op [where P = "\<lambda>_. \<lambda>s. ix_book_id s = bid"]) (rule view_summary, simp_all)
qed

text \<open>Answers with a book, and whether it is a replay.\<close>

lemma confined_book_answer:
  assumes "\<And>a q a1. user_view u m (tabs a) \<Longrightarrow> f a = (q, a1) \<Longrightarrow>
      user_view u m (tabs a1) \<and> (case q of Inl _ \<Rightarrow> True | Inr (b, _) \<Rightarrow> bo_owner_id b = u)"
  shows "confined u m sign (\<lambda>a. case f a of (q, a1) \<Rightarrow> (case q of Inl e \<Rightarrow> (failed_request c e, a1)
     | Inr x \<Rightarrow> (case x of (b, replayed) \<Rightarrow> ((write_json 200 (BodyBook b))\<lparr>rs_replayed := replayed\<rparr>, a1))))"
  by (rule confined_op [where P = "\<lambda>_. \<lambda>(b, _). bo_owner_id b = u", OF assms]) (auto simp: write_json_def)

lemma confined_reprocess:
  assumes "\<not> au_admin user" "au_id user = u" "trim_space u = u"
  shows "confined u m sign (handle_reprocess_book c now ids r user bid)"
  unfolding handle_reprocess_book_def
proof (rule confined_if, simp add: confined_error, rule confined_with_book [OF assms(1,2) get_confined], assumption+)
  fix b assume "m bid = None"
  then have "confined u m sign (\<lambda>a. case reprocess_book c now ids (au_id user) bid (trim_space (rq_idempotency_key r)) a of
      (q, a1) \<Rightarrow> (case q of Inl e \<Rightarrow> (failed_request c e, a1)
     | Inr x \<Rightarrow> (case x of (b, replayed) \<Rightarrow> ((write_json 200 (BodyBook b))\<lparr>rs_replayed := replayed\<rparr>, a1))))"
    using view_reprocess [OF _ assms(3), of m _ bid c now "fst ids" "snd ids"] assms(2) by (intro confined_book_answer) simp
  then show "confined u m sign (\<lambda>a. if trim_space (rq_idempotency_key r) = [] then (write_error c 400 (lit ''idempotency key required''), a)
      else case reprocess_book c now ids (au_id user) bid (trim_space (rq_idempotency_key r)) a of
        (Inl e, a1) \<Rightarrow> (failed_request c e, a1)
      | (Inr (b, replayed), a1) \<Rightarrow> ((write_json 200 (BodyBook b))\<lparr>rs_replayed := replayed\<rparr>, a1))"
    by (intro confined_if_app confined_pair) simp
qed

lemma confined_repair:
  assumes "\<not> au_admin user" "au_id user = u" "trim_space u = u"
  shows "confined u m sign (handle_repair_book_index c now ids r user bid)"
  unfolding handle_repair_book_index_def
proof (rule confined_if, simp add: confined_error, rule confined_with_book [OF assms(1,2) get_confined], assumption+)
  fix b assume "m bid = None"
  then have "confined u m sign (\<lambda>a. case repair_book_index c now ids (au_id user) bid (trim_space (rq_idempotency_key r)) a of
      (q, a1) \<Rightarrow> (case q of Inl e \<Rightarrow> (failed_request c e, a1)
     | Inr x \<Rightarrow> (case x of (b, replayed) \<Rightarrow> ((write_json 200 (BodyBook b))\<lparr>rs_replayed := replayed\<rparr>, a1))))"
    using view_repair [OF _ assms(3), of m _ bid c now "fst ids" "snd ids"] assms(2) by (intro confined_book_answer) simp
  then show "confined u m sign (\<lambda>a. if trim_space (rq_idempotency_key r) = [] then (write_error c 400 (lit ''idempotency key required''), a)
      else case repair_book_index c now ids (au_id user) bid (trim_space (rq_idempotency_key r)) a of
        (Inl e, a1) \<Rightarrow> (failed_request c e, a1)
      | (Inr (b, replayed), a1) \<Rightarrow> ((write_json 200 (BodyBook b))\<lparr>rs_replayed := replayed\<rparr>, a1))"
    by (intro confined_if_app confined_pair) simp
qed

lemma confined_delete:
  assumes "m bid = None"
  shows "confined u m sign (\<lambda>a1. case app_delete_book c now bid a1 of (Inl e, a2) \<Rightarrow> (write_error c 500 (err_text c e), a2)
     | (Inr _, a2) \<Rightarrow> (write_json 200 (BodyStatus (lit ''deleted'')), a2))"
proof (rule confined_op [where P = "\<lambda>_. \<lambda>_. True"])
  fix a q a1 assume "user_view u m (tabs a)" "app_delete_book c now bid a = (q, a1)"
  then show "user_view u m (tabs a1) \<and> (case q of Inl _ \<Rightarrow> True | Inr x \<Rightarrow> True)"
    using view_delete [where u = u and m = m and bid = bid and a = a and c = c and now = now] assms by (auto split: sum.split)
qed simp_all

lemma confined_update:
  assumes "m bid = None"
  shows "confined u m sign (\<lambda>a1. case update_book c now bid title cat tags a1 of (Inl e, a2) \<Rightarrow> (write_error c 400 (err_text c e), a2)
     | (Inr b, a2) \<Rightarrow> (write_json 200 (BodyBook b), a2))"
proof (rule confined_op [where P = "\<lambda>_. \<lambda>b. bo_owner_id b = u"])
  fix a q a1 assume "user_view u m (tabs a)" "update_book c now bid title cat tags a = (q, a1)"
  then show "user_view u m (tabs a1) \<and> (case q of Inl _ \<Rightarrow> True | Inr b \<Rightarrow> bo_owner_id b = u)"
    using view_update [where u = u and m = m and bid = bid and a = a] assms by blast
qed simp_all

lemma confined_by_id:
  assumes "\<not> au_admin user" "au_id user = u" "trim_space u = u"
  shows "confined u m sign (handle_book_by_id c sign now ids r user)"
proof -
  obtain bid action where p: "split_path (trim_prefix (rq_path r) (lit ''/books/'')) = (bid, action)" by (metis surj_pair)
  have get: "confined u m sign (with_book c (app_get_book c) user bid (\<lambda>b a1. (write_json 200 (BodyBook b), a1)))"
    by (rule confined_with_book [OF assms(1,2) get_confined], assumption+, rule confined_pair, simp)
  have del: "confined u m sign (with_book c (app_get_book_including_deleted c) user bid (\<lambda>_ a1.
      case app_delete_book c now bid a1 of (Inl e, a2) \<Rightarrow> (write_error c 500 (err_text c e), a2)
     | (Inr _, a2) \<Rightarrow> (write_json 200 (BodyStatus (lit ''deleted'')), a2)))"
    by (rule confined_with_book [OF assms(1,2) get_deleted_confined], assumption+, rule confined_delete)
  have upd: "confined u m sign (with_book c (app_get_book c) user bid (\<lambda>_ a1.
      case update_book c now bid title cat tags a1 of (Inl e, a2) \<Rightarrow> (write_error c 400 (err_text c e), a2)
     | (Inr b, a2) \<Rightarrow> (write_json 200 (BodyBook b), a2)))" for title cat tags
    by (rule confined_with_book [OF assms(1,2) get_confined], assumption+, rule confined_update)
  have patch: "confined u m sign (\<lambda>a. case rq_update r of None \<Rightarrow> (write_error c 400 (lit ''invalid JSON body''), a)
      | Some (title, cat, tags) \<Rightarrow> with_book c (app_get_book c) user bid (\<lambda>_ a1.
          case update_book c now bid title cat tags a1 of (Inl e, a2) \<Rightarrow> (write_error c 400 (err_text c e), a2)
         | (Inr b, a2) \<Rightarrow> (write_json 200 (BodyBook b), a2)) a)"
  proof (cases "rq_update r")
    case None
    then show ?thesis by (simp add: confined_pair)
  next
    case (Some q)
    then show ?thesis using upd by (cases q) simp
  qed
  show ?thesis
    unfolding handle_book_by_id_def p Let_def prod.case
    by (intro confined_if_app confined_pair error_bodies get del patch confined_download confined_reprocess confined_repair
        confined_status assms)
qed

lemma listed_found:
  assumes "list_books_with_options lw jq os t = (Inr (items, n), t')"
  shows "set items \<subseteq> book_from_model lw ` set (filter (book_matches lw os) (tb_books t))"
proof -
  have ordered: "set (order_books lw s d rows) = set rows" for s d rows by (simp add: order_books_def Let_def)
  have part: "set (take i (drop j xs)) \<subseteq> set xs" for i j and xs :: "book list"
    by (meson set_drop_subset set_take_subset subset_trans)
  show ?thesis
  proof
    fix b assume "b \<in> set items"
    then obtain row where row: "b = book_from_model lw row"
        "row \<in> set (order_books lw (bl_sort_by os) (bl_sort_order os) (filter (book_matches lw os) (tb_books t)))"
      using assms part by (fastforce simp: list_books_with_options_def Let_def split: if_splits prod.splits)
    then show "b \<in> book_from_model lw ` set (filter (book_matches lw os) (tb_books t))" unfolding ordered by blast
  qed
qed

lemma view_list:
  assumes "user_view u m (tabs a)" "trim_space u = u" "u \<noteq> []" "app_list_books c u False opts a = (res, a')"
  shows "user_view u m (tabs a') \<and> (case res of Inl _ \<Rightarrow> True | Inr bs \<Rightarrow> list_all (\<lambda>b. bo_owner_id b = u) bs)"
proof -
  obtain lw jq os where f: "app_list_books c u False opts a =
      (case store_call (list_books_with_options lw jq os) a of (Inl e, a1) \<Rightarrow> (Inl e, a1) | (Inr (items, _), a1) \<Rightarrow> (Inr items, a1))"
      and owner: "bl_owner_id os = u" unfolding app_list_books_def Let_def if_False by simp
  obtain q a1 where q: "store_call (list_books_with_options lw jq os) a = (q, a1)" by (metis surj_pair)
  have "tabs (snd (store_call (list_books_with_options lw jq os) a)) = tabs a"
    by (rule store_call_query) (auto simp: list_books_with_options_def Let_def split: if_splits prod.splits)
  then have t: "tabs a1 = tabs a" using q by simp
  have "list_all (\<lambda>b. bo_owner_id b = u) items" if "q = Inr (items, n)" for items n
  proof -
    have "list_books_with_options lw jq os (tabs a) = (Inr (items, n), tabs a1)" using store_call_ok q that by metis
    then have "set items \<subseteq> book_from_model lw ` set (filter (book_matches lw os) (tb_books (tabs a)))"
      by (rule listed_found)
    then show ?thesis using assms(2,3) owner by (auto simp: list_all_iff book_matches_def book_from_model_def Let_def)
  qed
  then show ?thesis using assms(1,4) f q t by (auto split: sum.splits)
qed

lemma confined_list:
  assumes "\<not> au_admin user" "au_id user = u" "trim_space u = u" "u \<noteq> []"
  shows "confined u m sign (handle_list_books c r user)"
  unfolding handle_list_books_def Let_def
  by (rule confined_op [where P = "\<lambda>_. list_all (\<lambda>b. bo_owner_id b = u)"])
    (use view_list [OF _ assms(3,4)] assms(1,2) in \<open>simp_all add: internal_error_def\<close>)

lemma confined_upload:
  assumes "\<not> au_admin user" "au_id user = u" "trim_space u = u" "m bid = None" "trim_space bid = bid" "bid \<noteq> []"
  shows "confined u m sign (handle_upload_book srv c now (rid, bid, mid) r user)"
proof (cases "\<exists>f name n. rq_form r = Some f \<and> uf_file f = Some (name, n)")
  case False
  then show ?thesis
    by (intro confinedI) (auto simp: handle_upload_book_def split: if_splits option.splits)
next
  case True
  then obtain f name n where f: "rq_form r = Some f" "uf_file f = Some (name, n)" by blast
  let ?op = "upload_book c now (rid, bid, mid) (au_id user) name n (uf_primary_category f) (uf_tags f) (trim_space (rq_idempotency_key r))"
  have "confined u m sign (\<lambda>a. case ?op a of (q, a1) \<Rightarrow> (case q of Inl e \<Rightarrow> (failed_request c e, a1)
      | Inr x \<Rightarrow> (case x of (b, replayed) \<Rightarrow>
          (if replayed then ((write_json 200 (BodyBook b))\<lparr>rs_replayed := True\<rparr>, a1) else (write_json 201 (BodyBook b), a1)))))"
  proof (rule confined_op [where P = "\<lambda>_. \<lambda>(b, _). bo_owner_id b = u"])
    fix a q a1 assume v: "user_view u m (tabs a)" and q: "?op a = (q, a1)"
    from view_upload [OF v assms(3-6) q [unfolded assms(2)]]
    show "user_view u m (tabs a1) \<and> (case q of Inl _ \<Rightarrow> True | Inr x \<Rightarrow> (case x of (b, _) \<Rightarrow> bo_owner_id b = u))" by simp
  qed (auto simp: write_json_def)
  moreover have "handle_upload_book srv c now (rid, bid, mid) r user = (\<lambda>a.
      if 0 < bv_max_upload_bytes srv \<and> bv_max_upload_bytes srv < rq_length r then (write_error c 400 (lit ''invalid form data''), a)
      else if trim_space (rq_idempotency_key r) = [] then (write_error c 400 (lit ''idempotency key required''), a)
      else case ?op a of (q, a1) \<Rightarrow> (case q of Inl e \<Rightarrow> (failed_request c e, a1)
        | Inr x \<Rightarrow> (case x of (b, replayed) \<Rightarrow>
            (if replayed then ((write_json 200 (BodyBook b))\<lparr>rs_replayed := True\<rparr>, a1) else (write_json 201 (BodyBook b), a1)))))"
    by (rule ext) (simp add: handle_upload_book_def f split: prod.split sum.split bool.split)
  ultimately show ?thesis by (simp only:) (intro confined_if_app confined_pair; simp)
qed

text \<open>What a request of a user that is not an administrator may do.\<close>

lemma confined_request:
  assumes "bv_me srv = Some me" "book_bearer_token (rq_authorization r) = Some token" "me token = Some \<lparr>au_id = u, au_admin = False\<rparr>"
    and "\<not> has_prefix (rq_path r) (lit ''/internal/books/'')" "trim_space u = u" "u \<noteq> []"
    and "m bid = None" "trim_space bid = bid" "bid \<noteq> []"
  shows "confined u m sign (book_routes jparse srv c sign now (rid, bid, mid) r)"
proof -
  let ?user = "\<lparr>au_id = u, au_admin = False\<rparr>"
  have with_user: "confined u m sign (with_user srv c r h)" if "confined u m sign (h ?user)" for h
  proof (rule confinedI)
    fix a q a' assume "user_view u m (tabs a)" "with_user srv c r h a = (q, a')"
    then show "user_view u m (tabs a') \<and> shows_own u m sign (tb_books (tabs a')) (rs_body q)"
      using confinedD [OF that, of a q a'] assms(1-3)
      by (auto simp: with_user_def split: if_splits option.splits)
  qed
  have books: "confined u m sign (handle_books srv c now (rid, bid, mid) r ?user)"
    unfolding handle_books_def
    by (intro confined_if confined_upload confined_list confined_error) (use assms in simp_all)
  have by_id: "confined u m sign (handle_book_by_id c sign now (rid, mid) r ?user)"
    by (rule confined_by_id) (use assms in simp_all)
  have plain: "confined u m sign (Pair \<lparr>rs_status = st, rs_body = BodyPlain s, rs_replayed = False\<rparr>)"
    "confined u m sign (Pair (write_json st (BodyStatus s)))" for st s
    by (simp_all add: confined_error)
  show ?thesis
    unfolding book_routes_def Let_def prod.case if_not_P [OF assms(4)]
    by (intro confined_if plain with_user books by_id)
qed

section \<open>Properties\<close>

text \<open>
  C1: users are confined to their own books.  Whatever request a user who is not an administrator sends to the
  public interface, and whatever fails while it is served, no row of another user's book changes; the answer
  holds books of the user only, its summary is about one of them, and its URL was signed for the storage key and
  the file name of a row of the book table whose owner is the user.
  What the request relies on (the tables are well formed, completed requests of the user are about the user's
  books) holds again afterwards.
\<close>

theorem book_users_confined:
  assumes "bv_me srv = Some me" and "book_bearer_token (rq_authorization r) = Some token"
    and "me token = Some \<lparr>au_id = u, au_admin = False\<rparr>" and "trim_space u = u" and "u \<noteq> []"
    and "\<not> has_prefix (rq_path r) (lit ''/internal/books/'')"
    and "foreign u (tabs a) bid = None" and "trim_space bid = bid" and "bid \<noteq> []"
    and "tables_ok (tabs a)" and "named (tabs a)" and "own_records u (foreign u (tabs a)) (tabs a)"
    and "book_routes jparse srv c sign now (rid, bid, mid) r a = (response, a')"
  shows "foreign u (tabs a') = foreign u (tabs a) \<and> shows_own u (foreign u (tabs a)) sign (tb_books (tabs a')) (rs_body response) \<and>
    tables_ok (tabs a') \<and> named (tabs a') \<and> own_records u (foreign u (tabs a)) (tabs a')"
proof -
  have "user_view u (foreign u (tabs a)) (tabs a)" using assms(10-12) by (simp add: user_view_def)
  from confinedD [OF confined_request [where m = "foreign u (tabs a)" and me = me, OF assms(1-3,6,4,5,7-9)] this assms(13)]
  show ?thesis by (auto simp: user_view_def)
qed

definition demo_book_server :: "nat book_server" where
  "demo_book_server = \<lparr>bv_me = Some (\<lambda>_. Some \<lparr>au_id = [5], au_admin = False\<rparr>), bv_token_ok = None,
     bv_internal = demo_service_verifier, bv_max_upload_bytes = 10\<rparr>"

definition demo_book_request :: "string \<Rightarrow> gostr \<Rightarrow> book_request" where
  "demo_book_request method path = \<lparr>rq_method = lit method, rq_path = path, rq_authorization = lit ''Bearer t'',
     rq_idempotency_key = [99], rq_query = (\<lambda>_. []), rq_length = 1, rq_form = None, rq_update = None, rq_status = None\<rparr>"

theorem book_users_confined_witness:
  "foreign [5] (tabs (snd (book_routes plain_parse demo_book_server demo_config (\<lambda>k n. Inr k) 3 ([102], [100], [101])
     (demo_book_request ''DELETE'' (lit ''/books/'' @ [1])) (demo_app demo_tables [DbUnknown])))) [1] = Some demo_book"
proof -
  let ?a = "demo_app demo_tables [DbUnknown]"
  let ?r = "demo_book_request ''DELETE'' (lit ''/books/'' @ [1])"
  obtain q a' where run: "book_routes plain_parse demo_book_server demo_config (\<lambda>k n. Inr k) 3 ([102], [100], [101]) ?r ?a = (q, a')"
    by (metis surj_pair)
  have t: "tabs ?a = demo_tables" by (simp add: demo_app_def tabs_def)
  have f: "foreign [5] demo_tables = [[1] \<mapsto> demo_book]"
    by (auto simp: foreign_def book_rows_def demo_tables_def demo_book_def)
  have "foreign [5] (tabs a') = foreign [5] (tabs ?a)"
  proof (rule book_users_confined [THEN conjunct1, OF _ _ _ _ _ _ _ _ _ _ _ _ run])
    show "book_bearer_token (rq_authorization ?r) = Some (lit ''t'')"
      by (simp add: book_bearer_token_def demo_book_request_def has_prefix_def trim_prefix_def trims lit_Cons)
    show "bv_me demo_book_server = Some (\<lambda>_. Some \<lparr>au_id = [5], au_admin = False\<rparr>)" by (simp add: demo_book_server_def)
    show "\<not> has_prefix (rq_path ?r) (lit ''/internal/books/'')" by (simp add: demo_book_request_def has_prefix_def lit_Cons)
    show "tables_ok (tabs ?a)" using demo_tables_ok t by simp
    show "named (tabs ?a)" unfolding t by (simp add: named_def demo_tables_def empty_tables_def demo_book_def trims is_space_def)
    show "own_records [5] (foreign [5] (tabs ?a)) (tabs ?a)" unfolding t by (simp add: own_records_def demo_tables_def empty_tables_def)
    show "foreign [5] (tabs ?a) [100] = None" unfolding t f by simp
  qed (simp_all add: trims is_space_def)
  then show ?thesis using run t f by simp
qed

end
