(* ===== verification/DocumentProfile.thy ===== *)
theory DocumentProfile
  imports PdfPages BookStore "HOL-Library.Sublist"
begin

text \<open>
  What the ingest service finds out about a document from its text
  (\<open>backend/services/ingest/internal/app/app.go\<close>): its type, summary, keywords, entities and facts.  The code
  searches with regular expressions of package \<open>regexp\<close>, which are leftmost-first; they are given here as
  syntax trees with a backtracking matcher that tries the same alternatives in the same order.  Chinese
  words are written as code points.
\<close>

section \<open>Regular expressions\<close>

text \<open>A literal, a character class repeated from a minimum up to a maximum of times, a sequence, a choice, a group.\<close>

datatype regex =
    RLit gostr | RRep "rune \<Rightarrow> bool" nat "nat option" | RSeq regex regex | RAlt regex regex | RGroup regex

text \<open>The matches at the start of a text, the preferred ones first: what was matched, and what the group matched.\<close>

fun rmatch :: "regex \<Rightarrow> gostr \<Rightarrow> (gostr \<times> gostr option) list" where
  "rmatch (RLit p) s = (if has_prefix s p then [(p, None)] else [])"
| "rmatch (RRep P lo hi) s =
     (let k = length (takeWhile P s); most = (case hi of None \<Rightarrow> k | Some h \<Rightarrow> min h k) in
      map (\<lambda>n. (take n s, None)) (rev [lo..<Suc most]))"
| "rmatch (RSeq a b) s =
     concat (map (\<lambda>(x, c). map (\<lambda>(y, d). (x @ y, if d = None then c else d)) (rmatch b (drop (length x) s))) (rmatch a s))"
| "rmatch (RAlt a b) s = rmatch a s @ rmatch b s"
| "rmatch (RGroup a) s = map (\<lambda>(x, _). (x, Some x)) (rmatch a s)"

text \<open>
  \<open>FindAllStringSubmatch(text, -1)\<close>: from left to right, each match after the end of the one before.  None of
  the patterns below matches the empty text.
\<close>

fun find_all :: "regex \<Rightarrow> gostr \<Rightarrow> (gostr \<times> gostr option) list" where
  "find_all r [] = []"
| "find_all r (c # s) =
     (case rmatch r (c # s) of
        [] \<Rightarrow> find_all r s
      | (x, g) # _ \<Rightarrow> (x, g) # find_all r (drop (length x - 1) s))"

fun has_group :: "regex \<Rightarrow> bool" where
  "has_group (RSeq a b) \<longleftrightarrow> has_group a \<or> has_group b"
| "has_group (RAlt a b) \<longleftrightarrow> has_group a \<or> has_group b"
| "has_group (RGroup a) \<longleftrightarrow> True"
| "has_group _ \<longleftrightarrow> False"

text \<open>The text of a match: that of its group when the pattern has one.\<close>

definition match_value :: "regex \<Rightarrow> gostr \<times> gostr option \<Rightarrow> gostr" where
  "match_value r m = trim_space (if has_group r then (case snd m of None \<Rightarrow> [] | Some g \<Rightarrow> g) else fst m)"

definition all_regex_submatches :: "gostr \<Rightarrow> regex \<Rightarrow> nat \<Rightarrow> gostr list" where
  "all_regex_submatches text r limit =
     (let values = filter (\<lambda>v. v \<noteq> []) (map (match_value r) (find_all r text)) in
      if 0 < limit then take limit values else values)"

definition first_regex_submatch :: "gostr \<Rightarrow> regex \<Rightarrow> gostr" where
  "first_regex_submatch text r = (case all_regex_submatches text r 1 of [] \<Rightarrow> [] | v # _ \<Rightarrow> v)"

definition last_regex_submatch :: "gostr \<Rightarrow> regex \<Rightarrow> gostr" where
  "last_regex_submatch text r = (let ms = find_all r text in if ms = [] then [] else match_value r (last ms))"

section \<open>The patterns\<close>

definition ascii_space :: "rune \<Rightarrow> bool" where "ascii_space r \<longleftrightarrow> r \<in> {9, 10, 12, 13, 32}"
definition ascii_digit :: "rune \<Rightarrow> bool" where "ascii_digit r \<longleftrightarrow> 48 \<le> r \<and> r \<le> 57"
definition ascii_letter :: "rune \<Rightarrow> bool" where "ascii_letter r \<longleftrightarrow> (65 \<le> r \<and> r \<le> 90) \<or> (97 \<le> r \<and> r \<le> 122)"

text \<open>\<open>\\s*\<close>, \<open>\\d{a,b}\<close>, \<open>[\\p{Han}]{a,b}\<close>, \<open>[\\p{Han}A-Za-z0-9]{a,b}\<close>.\<close>

definition spaces :: regex where "spaces = RRep ascii_space 0 None"
definition digits :: "nat \<Rightarrow> nat \<Rightarrow> regex" where "digits a b = RRep ascii_digit a (Some b)"
definition hans :: "unicode \<Rightarrow> nat \<Rightarrow> nat \<Rightarrow> regex" where "hans u a b = RRep (un_han u) a (Some b)"
definition words :: "unicode \<Rightarrow> nat \<Rightarrow> nat \<Rightarrow> regex" where
  "words u a b = RRep (\<lambda>r. un_han u r \<or> ascii_letter r \<or> ascii_digit r) a (Some b)"

fun rseq :: "regex list \<Rightarrow> regex" where
  "rseq [] = RLit []"
| "rseq [r] = r"
| "rseq (r # rs) = RSeq r (rseq rs)"

definition student_pattern :: "unicode \<Rightarrow> regex" where
  "student_pattern u = rseq [RLit [23398, 29983], spaces, RGroup (hans u 2 4)]"

definition school_pattern :: "unicode \<Rightarrow> regex" where
  "school_pattern u = rseq [RGroup (RSeq (hans u 2 30) (RAlt (RLit [22823, 23398]) (RAlt (RLit [23398, 38498]) (RLit [23398, 26657])))),
     spaces, RLit [23398, 26657]]"

definition department_pattern :: "unicode \<Rightarrow> regex" where
  "department_pattern u = rseq [RGroup (words u 2 20), spaces, RLit [37096, 38376]]"

definition position_pattern :: "unicode \<Rightarrow> regex" where
  "position_pattern u = rseq [RGroup (words u 2 20), spaces, RLit [23703, 20301]]"

definition date_pattern :: regex where
  "date_pattern = rseq [digits 4 4, spaces, RLit [24180], spaces, digits 1 2, spaces, RLit [26376], spaces, digits 1 2, spaces, RLit [26085]]"

definition number_pattern :: regex where
  "number_pattern = digits 12 18"

definition gender_pattern :: "unicode \<Rightarrow> regex" where
  "gender_pattern u = rseq [RLit [24615, 21035], spaces, RGroup (RRep (\<lambda>r. un_han u r \<or> ascii_letter r) 1 (Some 8))]"

definition start_pattern :: regex where
  "start_pattern = rseq [RLit [23454, 20064, 26102, 38388], RRep (\<lambda>r. r = 58 \<or> r = 65306) 0 (Some 1), spaces, RGroup date_pattern]"

definition end_pattern :: regex where
  "end_pattern = rseq [RLit [33267], spaces, RGroup date_pattern, spaces, RLit [25130, 27490]]"

section \<open>Entities and facts\<close>

definition normalize_summary_text :: "gostr \<Rightarrow> gostr" where
  "normalize_summary_text s = join (str_fields (trim_space s)) [32]"

definition normalize_chinese_date :: "gostr \<Rightarrow> gostr" where
  "normalize_chinese_date s = join (str_fields (trim_space s)) [32]"

fun dedupe_document_entities :: "gostr set \<Rightarrow> doc_entity list \<Rightarrow> doc_entity list" where
  "dedupe_document_entities seen [] = []"
| "dedupe_document_entities seen (e # es) =
     (let item = e\<lparr>de_type := trim_space (de_type e), de_value := trim_space (de_value e)\<rparr>; key = de_type item @ [0] @ de_value item in
      if de_type item = [] \<or> de_value item = [] \<or> key \<in> seen then dedupe_document_entities seen es
      else item # dedupe_document_entities (insert key seen) es)"

fun dedupe_document_facts :: "gostr set \<Rightarrow> doc_fact list \<Rightarrow> doc_fact list" where
  "dedupe_document_facts seen [] = []"
| "dedupe_document_facts seen (f # fs) =
     (let item = f\<lparr>df_key := trim_space (df_key f), df_value := trim_space (df_value f)\<rparr>; key = df_key item @ [0] @ df_value item in
      if df_key item = [] \<or> df_value item = [] \<or> key \<in> seen then dedupe_document_facts seen fs
      else item # dedupe_document_facts (insert key seen) fs)"

definition entity :: "string \<Rightarrow> gostr \<Rightarrow> gostr \<Rightarrow> gostr \<Rightarrow> doc_entity list" where
  "entity type label page value =
     (if value = [] then [] else [\<lparr>de_type = lit type, de_value = value, de_label = label, de_page = page\<rparr>])"

definition extract_document_entities :: "unicode \<Rightarrow> gostr \<Rightarrow> gostr \<Rightarrow> gostr \<Rightarrow> doc_entity list" where
  "extract_document_entities u filename text0 page =
     (let text = normalize_summary_text (filename @ [10] @ text0);
          first = first_regex_submatch text
      in dedupe_document_entities {}
           (entity ''person'' [23398, 29983] page (first (student_pattern u)) @
            entity ''organization'' [23398, 26657] page (first (school_pattern u)) @
            entity ''department'' [37096, 38376] page (first (department_pattern u)) @
            entity ''position'' [23703, 20301] page (first (position_pattern u)) @
            map (\<lambda>d. \<lparr>de_type = lit ''date'', de_value = normalize_chinese_date d, de_label = [26085, 26399], de_page = page\<rparr>)
              (all_regex_submatches text date_pattern 6) @
            entity ''identity_number'' [32534, 21495] page (first number_pattern)))"

definition fact :: "string \<Rightarrow> gostr \<Rightarrow> gostr \<Rightarrow> gostr \<Rightarrow> (gostr \<Rightarrow> gostr) \<Rightarrow> gostr \<Rightarrow> doc_fact list" where
  "fact key label page source f value =
     (if value = [] then []
      else [\<lparr>df_key = lit key, df_value = f value, df_label = label, df_page = page, df_source_ref = source\<rparr>])"

definition extract_document_facts :: "unicode \<Rightarrow> gostr \<Rightarrow> gostr \<Rightarrow> gostr \<Rightarrow> doc_fact list" where
  "extract_document_facts u text0 page source =
     (let text = normalize_summary_text text0; first = first_regex_submatch text; plain = (\<lambda>v. v) in
      dedupe_document_facts {}
        (fact ''student_name'' [23398, 29983, 22995, 21517] page source plain (first (student_pattern u)) @
         fact ''gender'' [24615, 21035] page source plain (first (gender_pattern u)) @
         fact ''school'' [23398, 26657] page source plain (first (school_pattern u)) @
         fact ''department'' [37096, 38376] page source plain (first (department_pattern u)) @
         fact ''position'' [23703, 20301] page source plain (first (position_pattern u)) @
         fact ''internship_start'' [23454, 20064, 24320, 22987, 26102, 38388] page source normalize_chinese_date (first start_pattern) @
         fact ''internship_end'' [23454, 20064, 32467, 26463, 26102, 38388] page source normalize_chinese_date (first end_pattern) @
         fact ''proof_date'' [35777, 26126, 26085, 26399] page source normalize_chinese_date (last_regex_submatch text date_pattern)))"

section \<open>Type, summary and keywords\<close>

fun first_text :: "chunk_payload list \<Rightarrow> gostr" where
  "first_text [] = []"
| "first_text (b # bs) = (let t = trim_space (cp_content b) in if t \<noteq> [] then t else first_text bs)"

definition first_meaningful_block_text :: "chunk_payload list \<Rightarrow> gostr" where
  "first_meaningful_block_text blocks =
     (let t = first_text (filter (\<lambda>b. trim_space (meta_get (cp_metadata b) (lit ''page'')) = lit ''1'') blocks) in
      if t \<noteq> [] then t else first_text blocks)"

definition join_leading_block_text :: "chunk_payload list \<Rightarrow> int \<Rightarrow> gostr" where
  "join_leading_block_text blocks limit =
     (if limit \<le> 0 then []
      else join (take (nat limit) (filter (\<lambda>t. t \<noteq> []) (map (\<lambda>b. trim_space (cp_content b)) blocks))) [10])"

definition type_rules :: "(gostr \<times> gostr list) list" where
  "type_rules =
     [(lit ''internship_certificate'', [[23454, 20064, 35777, 26126], [23454, 20064, 21333, 20301], [23454, 20064, 26102, 38388], [23454, 20064, 26399, 34920, 29616]]),
      (lit ''certificate'', [[35777, 26126], [20857, 35777, 26126], [29305, 27492, 35777, 26126]]),
      (lit ''resume'', [[31616, 21382], lit ''resume'', [24037, 20316, 32463, 21382], [25945, 32946, 32463, 21382]]),
      (lit ''contract'', [[21512, 21516], [21327, 35758], [30002, 26041], [20057, 26041]]),
      (lit ''invoice'', [[21457, 31080], lit ''invoice'', [31246, 21495], [20215, 31246, 21512, 35745]]),
      (lit ''report'', [[25253, 21578], lit ''report'', [25688, 35201], [32467, 35770]]),
      (lit ''book'', [[30446, 24405], lit ''contents'', lit ''chapter'', lit ''preface''])]"

definition infer_document_type :: "(rune \<Rightarrow> rune) \<Rightarrow> gostr \<Rightarrow> gostr \<Rightarrow> gostr" where
  "infer_document_type lw filename text =
     (let haystack = to_lower lw (filename @ [10] @ text) in
      case List.find (\<lambda>(kind, terms). \<exists>t\<in>set terms. str_contains haystack (to_lower lw t)) type_rules of
        None \<Rightarrow> lit ''document''
      | Some (kind, _) \<Rightarrow> kind)"

definition limit_runes :: "gostr \<Rightarrow> int \<Rightarrow> gostr" where
  "limit_runes text0 limit =
     (let text = trim_space text0 in if limit \<le> 0 \<or> int (length text) \<le> limit then text else take (nat limit) text)"

definition summarize_document :: "gostr \<Rightarrow> gostr \<Rightarrow> gostr" where
  "summarize_document filename0 text0 =
     (let text = normalize_summary_text text0; filename = trim_space filename0 in
      if text = [] then filename
      else if filename \<noteq> [] then limit_runes (trim_space (filename @ [65306, 32] @ text)) 520
      else limit_runes text 520)"

definition keyword_terms :: "gostr list" where
  "keyword_terms = [[23454, 20064, 35777, 26126], [23454, 20064], [24037, 31243, 30740, 21457], [20848, 24030, 29702, 24037, 22823, 23398], [35777, 26126], [21512, 21516], [31616, 21382], [25253, 21578]]"

text \<open>At most eight different keywords.\<close>

definition extract_document_keywords :: "gostr \<Rightarrow> gostr \<Rightarrow> gostr list" where
  "extract_document_keywords filename text =
     (let candidates = trim_suffix (file_base filename) (file_ext filename) #
            filter (\<lambda>t. str_contains text t \<or> str_contains filename t) keyword_terms
      in take 8 (uniq_loop {} candidates))"

definition build_book_document_profile :: "unicode \<Rightarrow> gostr \<Rightarrow> chunk_payload list \<Rightarrow> document_profile" where
  "build_book_document_profile u filename blocks =
     (let first_page = first_meaningful_block_text blocks;
          overview = trim_space (filename @ [10] @ first_page @ [10] @ join_leading_block_text blocks 4)
      in \<lparr>dp_type = infer_document_type (un_lower u) filename overview, dp_summary = summarize_document filename overview,
          dp_first_page = limit_runes first_page 2400, dp_keywords = extract_document_keywords filename overview,
          dp_entities = extract_document_entities u filename overview (lit ''1''),
          dp_facts = extract_document_facts u overview (lit ''1'') (lit ''page:1'')\<rparr>)"

section \<open>What the matcher finds\<close>

lemma str_fields_trim_left [simp]: "str_fields (trim_left s) = str_fields s"
  by (subst str_fields.simps, subst (2) str_fields.simps) (simp add: trim_left_def)

lemma str_fields_spaces:
  assumes "\<forall>r\<in>set t. is_space r"
  shows "str_fields (s @ t) = str_fields s"
proof (induction s rule: str_fields.induct)
  case (1 s)
  show ?case
  proof (cases "trim_left s")
    case Nil
    then have "\<forall>r\<in>set s. is_space r" by (simp add: trim_left_def dropWhile_eq_Nil_conv)
    then have "trim_left (s @ t) = []" using assms by (auto simp: trim_left_def dropWhile_eq_Nil_conv)
    then show ?thesis using Nil by (subst str_fields.simps, subst (2) str_fields.simps) simp
  next
    case (Cons r u)
    have left: "trim_left (s @ t) = (r # u) @ t"
    proof -
      have "dropWhile is_space s \<noteq> []" using Cons by (simp add: trim_left_def)
      then obtain x where "x \<in> set s" "\<not> is_space x" unfolding dropWhile_eq_Nil_conv by blast
      then show ?thesis using dropWhile_append1 [of x s is_space t] Cons by (simp add: trim_left_def)
    qed
    have ends: "takeWhile (\<lambda>r. \<not> is_space r) (w @ t) = takeWhile (\<lambda>r. \<not> is_space r) w \<and>
        dropWhile (\<lambda>r. \<not> is_space r) (w @ t) = dropWhile (\<lambda>r. \<not> is_space r) w @ t" for w
      by (induction w) (use assms in \<open>cases t; simp\<close>)+
    show ?thesis
      using "1.IH" [OF Cons] ends [of "r # u"] unfolding str_fields.simps [of "s @ t"] str_fields.simps [of s] left Cons
      by (simp del: takeWhile.simps dropWhile.simps)
  qed
qed

lemma str_fields_trim [simp]: "str_fields (trim_space s) = str_fields s"
proof -
  have "trim_right t @ rev (takeWhile is_space (rev t)) = t" for t
    unfolding trim_right_def by (metis rev_append rev_rev_ident takeWhile_dropWhile_id)
  moreover have "\<forall>r\<in>set (rev (takeWhile is_space (rev t))). is_space r" for t by (auto dest: set_takeWhileD)
  ultimately have "str_fields (trim_right t) = str_fields t" for t by (metis str_fields_spaces)
  then show ?thesis by (simp add: trim_space_def)
qed

lemma str_fields_again: "str_fields (join (str_fields s) [32]) = str_fields s"
  by (rule str_fields_join) (use str_fields_words in blast)

lemma rmatch_prefix: "(x, g) \<in> set (rmatch r s) \<Longrightarrow> prefix x s \<and> (case g of None \<Rightarrow> True | Some y \<Rightarrow> sublist y s)"
proof (induction r arbitrary: s x g)
  case (RLit p)
  then show ?case by (auto simp: has_prefix_def prefix_def split: if_splits intro: exI [of _ "drop (length p) s"])
      (metis append_take_drop_id)
next
  case (RRep P lo hi)
  then show ?case by (auto simp: Let_def take_is_prefix)
next
  case (RSeq a b)
  from RSeq.prems obtain y c z d where a: "(y, c) \<in> set (rmatch a s)" and b: "(z, d) \<in> set (rmatch b (drop (length y) s))"
    and x: "x = y @ z" "g = (if d = None then c else d)" by auto
  obtain rest where s: "s = y @ rest" using RSeq.IH(1) [OF a] by (auto simp: prefix_def)
  then have z: "prefix z rest" "case d of None \<Rightarrow> True | Some w \<Rightarrow> sublist w rest" using RSeq.IH(2) [OF b] by (cases d; simp)+
  have "prefix x s" using z(1) by (simp add: x(1) s)
  moreover have "case g of None \<Rightarrow> True | Some w \<Rightarrow> sublist w s"
    using z(2) RSeq.IH(1) [OF a] by (cases d) (auto simp: x(2) s sublist_append)
  ultimately show ?case by simp
next
  case (RAlt a b)
  then show ?case by auto
next
  case (RGroup a)
  then show ?case by (auto intro: prefix_imp_sublist)
qed

lemma find_all_sublist: "m \<in> set (find_all r s) \<Longrightarrow> sublist (fst m) s \<and> (case snd m of None \<Rightarrow> True | Some y \<Rightarrow> sublist y s)"
proof (induction s rule: find_all.induct)
  case (2 r c s)
  have shift: "sublist y (c # s)" if "sublist y (drop k s)" for y k
    using that by (metis Cons_eq_appendI append_Nil sublist_append_leftI sublist_drop sublist_order.order_trans)
  show ?case
  proof (cases "rmatch r (c # s)")
    case Nil
    then show ?thesis using 2 shift [of _ 0] by (cases "snd m") auto
  next
    case (Cons p ps)
    obtain x g where p: "p = (x, g)" by (cases p)
    have here: "prefix x (c # s)" "case g of None \<Rightarrow> True | Some y \<Rightarrow> sublist y (c # s)"
      using rmatch_prefix [of x g r "c # s"] Cons p by auto
    consider "m = (x, g)" | "m \<in> set (find_all r (drop (length x - 1) s))" using 2(3) Cons p by auto
    then show ?thesis
    proof cases
      case 1
      then show ?thesis using here by (auto intro: prefix_imp_sublist)
    next
      case m: 2
      then have "sublist (fst m) (drop (length x - 1) s) \<and> (case snd m of None \<Rightarrow> True | Some y \<Rightarrow> sublist y (drop (length x - 1) s))"
        using "2.IH"(2) [OF Cons, of x g] p by simp
      then show ?thesis using shift by (cases "snd m") auto
    qed
  qed
qed simp

text \<open>A value taken from a text has the words of a passage of the text.\<close>

definition quoted :: "gostr \<Rightarrow> gostr \<Rightarrow> bool" where
  "quoted text v \<longleftrightarrow> (\<exists>d. sublist d text \<and> str_fields v = str_fields d)"

lemma quoted_Nil: "quoted text []"
  unfolding quoted_def by (rule exI [of _ "[]"]) simp

lemma quoted_date: "quoted text v \<Longrightarrow> quoted text (normalize_chinese_date v)"
  by (simp add: quoted_def normalize_chinese_date_def str_fields_again)

lemma match_quoted: "m \<in> set (find_all r text) \<Longrightarrow> quoted text (match_value r m)"
proof -
  assume "m \<in> set (find_all r text)"
  from find_all_sublist [OF this] have "sublist (fst m) text" "\<And>g. snd m = Some g \<Longrightarrow> sublist g text" by auto
  then show ?thesis using quoted_Nil by (cases "snd m") (auto simp: match_value_def quoted_def)
qed

lemma all_quoted: "v \<in> set (all_regex_submatches text r k) \<Longrightarrow> quoted text v"
  using match_quoted by (auto simp: all_regex_submatches_def Let_def split: if_splits dest!: in_set_takeD)

lemma first_quoted: "quoted text (first_regex_submatch text r)"
  using all_quoted [of _ "text" r 1] quoted_Nil by (auto simp: first_regex_submatch_def split: list.splits)

lemma last_quoted: "quoted text (last_regex_submatch text r)"
  using match_quoted [OF last_in_set] quoted_Nil by (auto simp: last_regex_submatch_def Let_def)

lemma quoted_trim: "quoted text (trim_space v) \<longleftrightarrow> quoted text v"
  by (simp add: quoted_def)

section \<open>Well-formed profiles\<close>

lemma dedupe_facts:
  "f \<in> set (dedupe_document_facts seen fs) \<Longrightarrow>
   (\<exists>g\<in>set fs. df_value f = trim_space (df_value g) \<and> df_key f = trim_space (df_key g)) \<and>
   df_key f \<noteq> [] \<and> df_value f \<noteq> [] \<and> df_key f @ [0] @ df_value f \<notin> seen"
  by (induction fs arbitrary: seen) (auto simp: Let_def split: if_splits)

lemma dedupe_facts_distinct: "distinct (map (\<lambda>f. df_key f @ [0] @ df_value f) (dedupe_document_facts seen fs))"
  by (induction fs arbitrary: seen) (auto simp: Let_def dest!: dedupe_facts)

lemma dedupe_entities:
  "e \<in> set (dedupe_document_entities seen es) \<Longrightarrow>
   (\<exists>g\<in>set es. de_value e = trim_space (de_value g) \<and> de_type e = trim_space (de_type g)) \<and>
   de_type e \<noteq> [] \<and> de_value e \<noteq> [] \<and> de_type e @ [0] @ de_value e \<notin> seen"
  by (induction es arbitrary: seen) (auto simp: Let_def split: if_splits)

lemma dedupe_entities_distinct: "distinct (map (\<lambda>e. de_type e @ [0] @ de_value e) (dedupe_document_entities seen es))"
  by (induction es arbitrary: seen) (auto simp: Let_def dest!: dedupe_entities)

lemma fact_quoted: "quoted T (g v) \<Longrightarrow> list_all (\<lambda>f. quoted T (df_value f)) (fact key label page src g v)"
  by (simp add: fact_def)

lemma entity_quoted: "quoted T v \<Longrightarrow> list_all (\<lambda>e. quoted T (de_value e)) (entity kind label page v)"
  by (simp add: entity_def)

lemma dates_quoted:
  "list_all (\<lambda>e. quoted T (de_value e))
     (map (\<lambda>d. \<lparr>de_type = k, de_value = normalize_chinese_date d, de_label = l, de_page = page\<rparr>) (all_regex_submatches T r n))"
  using all_quoted quoted_date by (simp add: list_all_iff)

lemma deduped_facts:
  assumes "list_all (\<lambda>f. quoted T (df_value f)) fs"
  shows "list_all (\<lambda>f. quoted T (df_value f) \<and> df_value f \<noteq> []) (dedupe_document_facts {} fs)"
  using assms dedupe_facts [of _ "{}" fs] by (fastforce simp: list_all_iff quoted_trim)

lemma deduped_entities:
  assumes "list_all (\<lambda>e. quoted T (de_value e)) es"
  shows "list_all (\<lambda>e. quoted T (de_value e) \<and> de_value e \<noteq> []) (dedupe_document_entities {} es)"
  using assms dedupe_entities [of _ "{}" es] by (fastforce simp: list_all_iff quoted_trim)

text \<open>
  The facts and the entities of a document are quoted from its text.  Each value has the words of a
  passage of the text that was searched (with white space normalised), none is blank, and no key or type
  has the same value twice.
\<close>

theorem document_facts_quoted:
  "list_all (\<lambda>f. quoted (normalize_summary_text text) (df_value f) \<and> df_value f \<noteq> []) (extract_document_facts u text page src) \<and>
   distinct (map (\<lambda>f. df_key f @ [0] @ df_value f) (extract_document_facts u text page src)) \<and>
   list_all (\<lambda>e. quoted (normalize_summary_text (name @ [10] @ text)) (de_value e) \<and> de_value e \<noteq> [])
     (extract_document_entities u name text page) \<and>
   distinct (map (\<lambda>e. de_type e @ [0] @ de_value e) (extract_document_entities u name text page))"
proof (intro conjI)
  show "list_all (\<lambda>f. quoted (normalize_summary_text text) (df_value f) \<and> df_value f \<noteq> []) (extract_document_facts u text page src)"
    unfolding extract_document_facts_def Let_def
    by (rule deduped_facts, unfold list_all_append, intro conjI fact_quoted quoted_date first_quoted last_quoted)
  show "list_all (\<lambda>e. quoted (normalize_summary_text (name @ [10] @ text)) (de_value e) \<and> de_value e \<noteq> [])
      (extract_document_entities u name text page)"
    unfolding extract_document_entities_def Let_def
    by (rule deduped_entities, unfold list_all_append, intro conjI entity_quoted dates_quoted first_quoted)
qed (unfold extract_document_facts_def extract_document_entities_def Let_def, rule dedupe_facts_distinct,
    rule dedupe_entities_distinct)

lemma limit_runes_bound: "0 < n \<Longrightarrow> int (length (limit_runes s n)) \<le> n"
  by (auto simp: limit_runes_def Let_def)

text \<open>
  C36: a document profile is well formed: its summary has at most 520 runes and its first page 2400, its
  keywords are at most eight, different and not blank, and its type is one of the eight types.
\<close>

definition profile_ok :: "document_profile \<Rightarrow> bool" where
  "profile_ok p \<longleftrightarrow>
     length (dp_summary p) \<le> 520 \<and> length (dp_first_page p) \<le> 2400 \<and>
     length (dp_keywords p) \<le> 8 \<and> distinct (dp_keywords p) \<and>
     list_all (\<lambda>k. k \<noteq> [] \<and> trim_space k = k) (dp_keywords p) \<and>
     dp_type p \<in> insert (lit ''document'') (set (map fst type_rules)) \<and>
     distinct (map (\<lambda>f. df_key f @ [0] @ df_value f) (dp_facts p)) \<and>
     distinct (map (\<lambda>e. de_type e @ [0] @ de_value e) (dp_entities p))"

theorem document_profile_typed: "profile_ok (build_book_document_profile u filename blocks)"
proof -
  let ?rest = "[10] @ first_meaningful_block_text blocks @ [10] @ join_leading_block_text blocks 4"
  have blank: "trim_space filename = []" if "normalize_summary_text (trim_space (filename @ ?rest)) = []"
  proof -
    have "str_fields (filename @ ?rest) = []"
      using that str_fields_again [of "filename @ ?rest"] by (simp add: normalize_summary_text_def)
    then have "trim_left (filename @ ?rest) = []" by (subst (asm) str_fields.simps) (simp split: list.splits)
    then have "\<forall>r\<in>set filename. is_space r" by (simp add: trim_left_def dropWhile_eq_Nil_conv)
    then have "trim_left filename = []" by (simp add: trim_left_def dropWhile_eq_Nil_conv)
    then show ?thesis by (simp add: trim_space_def trim_right_def)
  qed
  have summary: "length (summarize_document filename (trim_space (filename @ ?rest))) \<le> 520"
    using blank limit_runes_bound [of 520] by (simp add: summarize_document_def Let_def)
  have kind: "infer_document_type lw name s \<in> insert (lit ''document'') (set (map fst type_rules))" for lw name s
  proof (cases "List.find (\<lambda>(kind, terms). \<exists>t\<in>set terms. str_contains (to_lower lw (name @ [10] @ s)) (to_lower lw t)) type_rules")
    case (Some p)
    then obtain i where "i < length type_rules" "p = type_rules ! i" unfolding find_Some_iff by blast
    then have "p \<in> set type_rules" by simp
    then have "fst p \<in> set (map fst type_rules)" by simp
    then show ?thesis unfolding infer_document_type_def Let_def Some by (simp add: case_prod_beta)
  qed (simp add: infer_document_type_def Let_def)
  have kws: "length (extract_document_keywords filename s) \<le> 8" "distinct (extract_document_keywords filename s)"
    "list_all (\<lambda>k. k \<noteq> [] \<and> trim_space k = k) (extract_document_keywords filename s)" for s
  proof -
    define cs where "cs = trim_suffix (file_base filename) (file_ext filename) #
        filter (\<lambda>t. str_contains s t \<or> str_contains filename t) keyword_terms"
    have k: "extract_document_keywords filename s = take 8 (uniq_loop {} cs)"
      unfolding extract_document_keywords_def Let_def cs_def ..
    show "length (extract_document_keywords filename s) \<le> 8" "distinct (extract_document_keywords filename s)"
      using uniq_loop_distinct [of "{}" cs] by (simp_all add: k)
    show "list_all (\<lambda>k. k \<noteq> [] \<and> trim_space k = k) (extract_document_keywords filename s)"
      using uniq_loop_set [of "{}" cs] by (auto simp: k list_all_iff dest!: in_set_takeD)
  qed
  have page: "length (limit_runes (first_meaningful_block_text blocks) 2400) \<le> 2400"
    using limit_runes_bound [of 2400 "first_meaningful_block_text blocks"] by simp
  show ?thesis
    unfolding profile_ok_def build_book_document_profile_def Let_def document_profile.simps
    by (intro conjI summary page kind kws)
      (unfold extract_document_facts_def extract_document_entities_def Let_def, rule dedupe_facts_distinct,
        rule dedupe_entities_distinct)
qed

end
