(* ===== verification/Ingest.thy ===== *)
theory Ingest
  imports DocumentProfile BookServer JobStore
begin

text \<open>
  The ingest service (\<open>backend/services/ingest/internal/app/app.go\<close>, \<open>clients.go\<close>): a job reports its
  progress to the book service, fetches the file, takes it apart, stores the profile and the chunks of the book
  and hands the book to the indexer.  The calls of the book service go through its routes and handlers
  (\<open>BookServer\<close>), with a service token; both services use one database.  Inputs are the outcome of each HTTP
  call (an exhausted schedule means success), the download with what the tools find in the file, hashes, JSON
  encoders and random IDs.  Book IDs are put into URLs as they are, as in the code; the IDs that the system
  generates are hexadecimal.
\<close>

section \<open>Chunks\<close>

record ingest_sizes =
  is_lexical_size :: int
  is_lexical_overlap :: int
  is_semantic_size :: int
  is_semantic_overlap :: int

record ingest_options =
  io_chunk_size :: int
  io_chunk_overlap :: int
  io_lexical_size :: int
  io_lexical_overlap :: int
  io_semantic_size :: int
  io_semantic_overlap :: int
  io_ocr_enabled :: bool
  io_pdf_min_runes :: int
  io_pdf_min_score :: real
  io_pdf_score_diff :: real

definition ingest_sizes_of :: "ingest_options \<Rightarrow> ingest_sizes" where
  "ingest_sizes_of o0 =
     (let s1 = (if io_semantic_size o0 \<le> 0 then io_chunk_size o0 else io_semantic_size o0);
          ov = (if io_semantic_overlap o0 \<le> 0 then io_chunk_overlap o0 else io_semantic_overlap o0)
      in \<lparr>is_lexical_size = (if io_lexical_size o0 \<le> 0 then 160 else io_lexical_size o0),
          is_lexical_overlap = (if io_lexical_overlap o0 < 0 then 0 else io_lexical_overlap o0),
          is_semantic_size = (if s1 \<le> 0 then 480 else s1),
          is_semantic_overlap = (if ov < 0 then 0 else ov)\<rparr>)"

definition ingest_pdf_config :: "ingest_options \<Rightarrow> pdf_config" where
  "ingest_pdf_config o0 =
     \<lparr>pc_ocr_enabled = io_ocr_enabled o0, pc_min_runes = (if io_pdf_min_runes o0 \<le> 0 then 80 else io_pdf_min_runes o0),
      pc_min_score = (if io_pdf_min_score o0 \<le> 0 then 0.45 else io_pdf_min_score o0),
      pc_score_diff = (if io_pdf_score_diff o0 < 0 then 0 else io_pdf_score_diff o0)\<rparr>"

record ingest_lib =
  il_unicode :: unicode
  il_sha :: "gostr \<Rightarrow> gostr"                         \<comment> \<open>SHA-256, in hexadecimal\<close>
  il_fmt3 :: "real \<Rightarrow> gostr"                         \<comment> \<open>three decimals\<close>
  il_entities_json :: "doc_entity list \<Rightarrow> gostr"
  il_facts_json :: "doc_fact list \<Rightarrow> gostr"

definition enrich_chunk_metadata :: "ingest_lib \<Rightarrow> metadata \<Rightarrow> gostr \<Rightarrow> nat \<Rightarrow> nat \<Rightarrow> gostr \<Rightarrow> metadata" where
  "enrich_chunk_metadata l base bid i n content =
     base(lit ''document_id'' \<mapsto> trim_space bid, lit ''chunk_index'' \<mapsto> itoa (int i), lit ''chunk_count'' \<mapsto> itoa (int n),
          lit ''content_runes'' \<mapsto> itoa (int (length content)), lit ''content_sha256'' \<mapsto> il_sha l content)"

text \<open>The metadata that the chunks of a block share.\<close>

definition block_metadata :: "ingest_lib \<Rightarrow> gostr \<Rightarrow> metadata \<Rightarrow> metadata" where
  "block_metadata l content m0 =
     (let page = trim_space (meta_get m0 (lit ''page''));
          m1 = (if page = lit ''1'' then m0(lit ''is_first_page'' \<mapsto> lit ''true'') else m0);
          source = trim_space (meta_get m1 (lit ''source_ref''));
          entities = extract_document_entities (il_unicode l) [] content page;
          m2 = (if entities \<noteq> [] then m1(lit ''entities'' \<mapsto> il_entities_json l entities) else m1);
          facts = extract_document_facts (il_unicode l) content page source;
          m3 = (if facts \<noteq> [] then m2(lit ''facts'' \<mapsto> il_facts_json l facts, lit ''has_structured_facts'' \<mapsto> lit ''true'') else m2);
          family = trim_space (meta_get m3 (lit ''chunk_family''))
      in m3(lit ''chunk_family'' \<mapsto> (if family = [] then il_sha l (source @ [10] @ content) else family)))"

definition tier_chunk ::
  "ingest_lib \<Rightarrow> gostr \<Rightarrow> gotime \<Rightarrow> (nat \<Rightarrow> gostr) \<Rightarrow> metadata \<Rightarrow> gostr \<Rightarrow> nat \<Rightarrow> nat \<times> gostr \<Rightarrow> chunk list \<Rightarrow> chunk list" where
  "tier_chunk l bid now new_id meta tier n part out =
     (let (idx, content) = part;
          m = meta(lit ''retrieval_tier'' \<mapsto> tier, lit ''chunk_profile'' \<mapsto> tier, lit ''tier_chunk_index'' \<mapsto> itoa (int idx),
                   lit ''tier_chunk_count'' \<mapsto> itoa (int n), lit ''chunk'' \<mapsto> itoa (int idx))
      in out @ [\<lparr>ch_id = new_id (length out), ch_book_id = bid, ch_content = content,
                 ch_metadata = enrich_chunk_metadata l m bid (length out) 0 content, ch_created_at = now\<rparr>])"

definition tier_chunks ::
  "ingest_lib \<Rightarrow> gostr \<Rightarrow> gotime \<Rightarrow> (nat \<Rightarrow> gostr) \<Rightarrow> metadata \<Rightarrow> gostr \<Rightarrow> gostr \<times> int \<times> int \<Rightarrow> chunk list \<Rightarrow> chunk list" where
  "tier_chunks l bid now new_id meta content tier out =
     (let (name, limit, overlap) = tier; parts = chunk_text_by_tokens (il_unicode l) content limit overlap in
      fold (tier_chunk l bid now new_id meta name (length parts)) (enumerate 0 parts) out)"

definition block_chunks ::
  "ingest_lib \<Rightarrow> ingest_sizes \<Rightarrow> gostr \<Rightarrow> gotime \<Rightarrow> (nat \<Rightarrow> gostr) \<Rightarrow> chunk_payload \<Rightarrow> chunk list \<Rightarrow> chunk list" where
  "block_chunks l s bid now new_id block out =
     (let content = trim_space (cp_content block) in
      if content = [] then out
      else fold (tier_chunks l bid now new_id (block_metadata l content (cp_metadata block)) content)
             [(lit ''lexical'', is_lexical_size s, is_lexical_overlap s), (lit ''semantic'', is_semantic_size s, is_semantic_overlap s)]
             out)"

definition build_retrieval_chunks ::
  "ingest_lib \<Rightarrow> ingest_sizes \<Rightarrow> gostr \<Rightarrow> gotime \<Rightarrow> (nat \<Rightarrow> gostr) \<Rightarrow> chunk_payload list \<Rightarrow> chunk list" where
  "build_retrieval_chunks l s bid now new_id blocks =
     (let out = fold (block_chunks l s bid now new_id) blocks [] in
      map (\<lambda>c. c\<lparr>ch_metadata := (ch_metadata c)(lit ''chunk_count'' \<mapsto> itoa (int (length out)))\<rparr>) out)"

section \<open>The other services\<close>

datatype ingest_err = IngErr gostr | IngStale

fun ing_text :: "ingest_err \<Rightarrow> gostr" where
  "ing_text (IngErr s) = s"
| "ing_text IngStale = lit ''stale book generation''"

text \<open>What a job needs of its surroundings; \<open>ie_download\<close> is the file behind a URL, or the error.\<close>

record ('k, 'p) ingest_env =
  ie_lib :: ingest_lib
  ie_sizes :: ingest_sizes
  ie_pdf :: pdf_config
  ie_parse :: "'k jwt_parse"
  ie_sign :: "'p jwt_sign"
  ie_date :: "gotime \<Rightarrow> gotime"
  ie_signer :: "'p signer"
  ie_sign_error :: "session_err \<Rightarrow> gostr"                \<comment> \<open>the text of an error\<close>
  ie_server :: "'k book_server"
  ie_book_config :: book_config
  ie_presign :: presign
  ie_status_line :: "int \<Rightarrow> gostr"                    \<comment> \<open>the text of an HTTP status\<close>
  ie_download :: "gostr \<Rightarrow> gostr \<Rightarrow> gostr + file_views"

text \<open>The book service with the shared database, the outcomes of calls to it, and the jobs of the indexer.\<close>

record ingest_world =
  iw_book :: book_app
  iw_calls :: "call_outcome list"
  iw_index_jobs :: "(gostr \<times> int) list"
  iw_index_calls :: "call_outcome list"

text \<open>
  \<open>bookClient.do\<close>: a request with a fresh token, and its answer.  An error status becomes an error, a conflict with the
  code of a stale generation the error that says so; of another conflict, the body has been read by then.
\<close>

definition read_answer :: "(rune \<Rightarrow> rune) \<Rightarrow> (int \<Rightarrow> gostr) \<Rightarrow> book_response \<Rightarrow> ingest_err + book_body" where
  "read_answer lw status_line resp =
     (let (code, msg) = (case rs_body resp of BodyError code msg \<Rightarrow> (code, msg) | _ \<Rightarrow> ([], [])) in
      if rs_status resp = 409 \<and> to_lower lw (trim_space code) = to_lower lw (lit ''BOOK_STALE_GENERATION'') then Inl IngStale
      else if 400 \<le> rs_status resp then
        Inl (IngErr (lit ''book service error: '' @
          (if rs_status resp = 409 \<or> msg = [] then status_line (rs_status resp) else msg)))
      else Inr (rs_body resp))"

definition book_client_do ::
  "('k, 'p) ingest_env \<Rightarrow> gotime \<Rightarrow> gostr \<Rightarrow> book_request \<Rightarrow> ingest_world \<Rightarrow> (ingest_err + book_body) \<times> ingest_world" where
  "book_client_do e now jti request w =
     (case service_sign (ie_date e) (ie_sign e) (ie_signer e) now jti (lit ''book'') of
        Inl er \<Rightarrow> (Inl (IngErr (ie_sign_error e er)), w)
      | Inr token \<Rightarrow>
          let r = request\<lparr>rq_authorization := lit ''Bearer '' @ token\<rparr>;
              (x, xs) = next_outcome (iw_calls w);
              (resp, b) = book_routes (ie_parse e) (ie_server e) (ie_book_config e) (ie_presign e) now ([], [], []) r (iw_book w)
          in (case x of CallOk \<Rightarrow> read_answer (lw_of (ie_book_config e)) (ie_status_line e) resp
              | CallFailed s \<Rightarrow> Inl (IngErr s) | CallUnknown s \<Rightarrow> Inl (IngErr s),
              w\<lparr>iw_calls := xs, iw_book := (if takes_effect x then b else iw_book w)\<rparr>))"

definition plain_request :: "string \<Rightarrow> gostr \<Rightarrow> book_request" where
  "plain_request method path =
     \<lparr>rq_method = lit method, rq_path = path, rq_authorization = [], rq_idempotency_key = [], rq_query = (\<lambda>_. []),
      rq_length = 0, rq_form = None, rq_update = None, rq_status = None\<rparr>"

definition fetch_file ::
  "('k, 'p) ingest_env \<Rightarrow> gotime \<Rightarrow> gostr \<Rightarrow> gostr \<Rightarrow> ingest_world \<Rightarrow> (ingest_err + (gostr \<times> gostr)) \<times> ingest_world" where
  "fetch_file e now jti bid w =
     (case book_client_do e now jti (plain_request ''GET'' (lit ''/internal/books/'' @ bid @ lit ''/file'')) w of
        (Inl er, w1) \<Rightarrow> (Inl er, w1)
      | (Inr (BodyFile url name), w1) \<Rightarrow> (if url = [] then Inl (IngErr (lit ''empty download url'')) else Inr (url, name), w1)
      | (Inr _, w1) \<Rightarrow> (Inl (IngErr (lit ''empty download url'')), w1))"

definition client_update_status ::
  "('k, 'p) ingest_env \<Rightarrow> gotime \<Rightarrow> gostr \<Rightarrow> gostr \<Rightarrow> int \<Rightarrow> book_status \<Rightarrow> gostr \<Rightarrow> ingest_world \<Rightarrow>
   (ingest_err + unit) \<times> ingest_world" where
  "client_update_status e now jti bid gen status msg w =
     (let r = (plain_request ''PATCH'' (lit ''/internal/books/'' @ bid @ lit ''/status''))\<lparr>rq_status := Some (status_text status, msg, gen)\<rparr>
      in case book_client_do e now jti r w of (Inl er, w1) \<Rightarrow> (Inl er, w1) | (Inr _, w1) \<Rightarrow> (Inr (), w1))"

definition index_enqueue :: "gostr \<Rightarrow> int \<Rightarrow> ingest_world \<Rightarrow> (ingest_err + unit) \<times> ingest_world" where
  "index_enqueue bid gen w =
     (let (x, xs) = next_outcome (iw_index_calls w) in
      (case x of CallOk \<Rightarrow> Inr () | CallFailed s \<Rightarrow> Inl (IngErr s) | CallUnknown s \<Rightarrow> Inl (IngErr s),
       w\<lparr>iw_index_calls := xs, iw_index_jobs := (if takes_effect x then iw_index_jobs w @ [(bid, gen)] else iw_index_jobs w)\<rparr>))"

text \<open>A call of the shared database.\<close>

definition ingest_store :: "book_config \<Rightarrow> 'a op \<Rightarrow> ingest_world \<Rightarrow> (ingest_err + 'a) \<times> ingest_world" where
  "ingest_store c f w =
     (let (r, b) = store_call f (iw_book w) in
      (case r of Inl e \<Rightarrow> Inl (IngErr (err_text c e)) | Inr x \<Rightarrow> Inr x, w\<lparr>iw_book := b\<rparr>))"

section \<open>A job\<close>

text \<open>The generation of a payload; \<open>decode\<close> is the JSON decoder.\<close>

definition generation_from_payload :: "(gostr \<Rightarrow> (gostr \<times> int) option) \<Rightarrow> gostr \<Rightarrow> int" where
  "generation_from_payload decode payload =
     (if payload = [] then 0 else case decode payload of None \<Rightarrow> 0 | Some (_, gen) \<Rightarrow> gen)"

definition ingest_job_request ::
  "(gostr \<times> int \<Rightarrow> gostr) \<Rightarrow> (gostr \<Rightarrow> gostr \<Rightarrow> 'w \<Rightarrow> (gostr + job_status) \<times> 'w) \<Rightarrow> gostr \<Rightarrow> int \<Rightarrow> 'w \<Rightarrow> (gostr + job_status) \<times> 'w" where
  "ingest_job_request encode enqueue_job bid gen w =
     (if trim_space bid = [] then (Inl (lit ''bookId required''), w)
      else enqueue_job bid (encode (trim_space bid, gen)) w)"

text \<open>A failed step reports the failure, whatever becomes of the report, and fails the job.\<close>

definition fail_job ::
  "('k, 'p) ingest_env \<Rightarrow> gotime \<Rightarrow> gostr \<Rightarrow> gostr \<Rightarrow> int \<Rightarrow> ingest_err \<Rightarrow> ingest_world \<Rightarrow> (ingest_err + unit) \<times> ingest_world" where
  "fail_job e now jti bid gen er w =
     (Inl er, snd (client_update_status e now jti bid gen BookFailed (ing_text er) w))"

text \<open>
  The first half of \<open>process\<close>, up to the content of the file: \<open>None\<close> for a job of a stale generation.  The second half
  writes; other requests may come between the two.
\<close>

definition ingest_load ::
  "('k, 'p) ingest_env \<Rightarrow> gotime \<Rightarrow> gostr \<Rightarrow> gostr \<Rightarrow> int \<Rightarrow> ingest_world \<Rightarrow>
   (ingest_err + (gostr \<times> chunk_payload list) option) \<times> ingest_world" where
  "ingest_load e now jti bid gen w =
     (let fail = (\<lambda>er w. case fail_job e now jti bid gen er w of (_, w') \<Rightarrow> (Inl er, w')) in
      case client_update_status e now jti bid gen BookProcessing [] w of
        (Inl er, w1) \<Rightarrow> if er = IngStale then (Inr None, w1) else fail er w1
      | (Inr _, w1) \<Rightarrow>
     (case fetch_file e now jti bid w1 of
        (Inl er, w2) \<Rightarrow> fail er w2
      | (Inr (url, name), w2) \<Rightarrow>
     (case ie_download e url name of
        Inl s \<Rightarrow> fail (IngErr s) w2
      | Inr views \<Rightarrow>
     (case parse_and_chunk (il_unicode (ie_lib e)) (il_fmt3 (ie_lib e)) (ie_pdf e) name views of
        Inl s \<Rightarrow> fail (IngErr s) w2
      | Inr blocks \<Rightarrow>
          if blocks = [] then fail (IngErr (lit ''no content extracted'')) w2
          else (Inr (Some (name, blocks)), w2)))))"

definition ingest_write ::
  "('k, 'p) ingest_env \<Rightarrow> gotime \<Rightarrow> gostr \<Rightarrow> (nat \<Rightarrow> gostr) \<Rightarrow> gostr \<Rightarrow> int \<Rightarrow> gostr \<times> chunk_payload list \<Rightarrow> ingest_world \<Rightarrow>
   (ingest_err + unit) \<times> ingest_world" where
  "ingest_write e now jti new_id bid gen file w =
     (let (name, blocks) = file;
          chunks = build_retrieval_chunks (ie_lib e) (ie_sizes e) bid now new_id blocks;
          u = il_unicode (ie_lib e); c = ie_book_config e
      in if chunks = [] then fail_job e now jti bid gen (IngErr (lit ''no retrieval chunks generated'')) w
      else
     (case ingest_store c (update_book_document_profile now bid (build_book_document_profile u name blocks)) w of
        (Inl er, w1) \<Rightarrow> fail_job e now jti bid gen er w1
      | (Inr _, w1) \<Rightarrow>
     (case ingest_store c (replace_chunks u now bid chunks) w1 of
        (Inl er, w2) \<Rightarrow> fail_job e now jti bid gen er w2
      | (Inr _, w2) \<Rightarrow>
     (case index_enqueue bid gen w2 of
        (Inl er, w3) \<Rightarrow> fail_job e now jti bid gen er w3
      | (Inr _, w3) \<Rightarrow> (Inr (), w3)))))"

definition ingest_process ::
  "('k, 'p) ingest_env \<Rightarrow> gotime \<Rightarrow> gostr \<Rightarrow> (nat \<Rightarrow> gostr) \<Rightarrow> gostr \<Rightarrow> int \<Rightarrow> ingest_world \<Rightarrow> (ingest_err + unit) \<times> ingest_world" where
  "ingest_process e now jti new_id bid gen w =
     (case ingest_load e now jti bid gen w of
        (Inl er, w1) \<Rightarrow> (Inl er, w1)
      | (Inr None, w1) \<Rightarrow> (Inr (), w1)
      | (Inr (Some file), w1) \<Rightarrow> ingest_write e now jti new_id bid gen file w1)"

section \<open>Calls of the book service\<close>

text \<open>An ID that can stand in a path.\<close>

definition plain_id :: "gostr \<Rightarrow> bool" where
  "plain_id bid \<longleftrightarrow> bid \<noteq> [] \<and> 47 \<notin> set bid"

lemma internal_path:
  assumes "plain_id bid" "47 \<notin> set (lit action)" "action \<noteq> ''''"
    and "rq_path r = lit ''/internal/books/'' @ bid @ lit (CHR ''/'' # action)"
  shows "book_routes jparse srv c sign now ids r a = with_internal jparse srv c now r (\<lambda>a.
      if lit action = lit ''file'' then (if rq_method r \<noteq> lit ''GET'' then (method_not_allowed c, a) else handle_internal_file c sign bid a)
      else if lit action = lit ''status'' then
        (if rq_method r \<noteq> lit ''PATCH'' then (method_not_allowed c, a) else handle_internal_status c now (rq_status r) bid a)
      else (resp_not_found c (lit ''not found''), a)) a"
proof -
  have "split_on 47 (bid @ lit (CHR ''/'' # action)) = [bid, lit action]"
    using assms(1,2) by (simp add: plain_id_def lit_Cons split_append split_no_sep)
  moreover have "lit action \<noteq> []" "bid \<noteq> []" using assms(1,3) by (cases action; simp add: lit_Cons plain_id_def)+
  ultimately have h: "handle_internal_book c sign now r = (\<lambda>a.
      if lit action = lit ''file'' then (if rq_method r \<noteq> lit ''GET'' then (method_not_allowed c, a) else handle_internal_file c sign bid a)
      else if lit action = lit ''status'' then
        (if rq_method r \<noteq> lit ''PATCH'' then (method_not_allowed c, a) else handle_internal_status c now (rq_status r) bid a)
      else (resp_not_found c (lit ''not found''), a))"
    by (simp add: fun_eq_iff handle_internal_book_def assms(4))
  have "rq_path r \<noteq> lit ''/healthz''" by (simp add: assms(4) lit_Cons)
  then show ?thesis
    unfolding book_routes_def h by (simp add: assms(4) case_prod_beta)
qed

text \<open>Whatever a call returns, the book service is as before or as its handler left it.\<close>

lemma client_do_book:
  assumes "book_client_do e now jti r w = (res, w')"
  shows "iw_index_jobs w' = iw_index_jobs w \<and> iw_index_calls w' = iw_index_calls w \<and>
    (iw_book w' = iw_book w \<or> (\<exists>auth. iw_book w' = snd (book_routes (ie_parse e) (ie_server e) (ie_book_config e) (ie_presign e) now
        ([], [], []) (r\<lparr>rq_authorization := auth\<rparr>) (iw_book w))))"
  using assms unfolding book_client_do_def
  by (auto simp: Let_def case_prod_beta takes_effect_def split: sum.splits call_outcome.splits if_splits)

lemma client_do_answer:
  assumes "book_client_do e now jti r w = (Inr body, w')"
  shows "\<exists>auth. read_answer (lw_of (ie_book_config e)) (ie_status_line e) (fst (book_routes (ie_parse e) (ie_server e) (ie_book_config e)
      (ie_presign e) now ([], [], []) (r\<lparr>rq_authorization := auth\<rparr>) (iw_book w))) = Inr body"
  using assms unfolding book_client_do_def
  by (auto simp: Let_def case_prod_beta split: sum.splits call_outcome.splits if_splits)

text \<open>A stale generation: no live row of the book has it.\<close>

definition stale :: "tables \<Rightarrow> gostr \<Rightarrow> int \<Rightarrow> bool" where
  "stale t bid gen \<longleftrightarrow> 0 < gen \<and> \<not> (\<exists>b\<in>set (tb_books t). bo_id b = bid \<and> BookStore.live b \<and> bo_generation b = gen)"

lemma stale_update:
  assumes "stale (tabs a) bid gen"
  shows "tabs (snd (update_status now bid st msg gen a)) = tabs a" "fst (update_status now bid st msg gen a) \<noteq> Inr ()"
proof -
  define f where "f = set_status_if_generation now bid gen st msg"
  have f: "f (tabs a) = (Inr False, tabs a)"
    using assms by (auto simp: f_def set_status_if_generation_def stale_def Let_def update_where_none)
  obtain q a1 where q: "store_call f a = (q, a1)" by (metis surj_pair)
  have "tabs (snd (store_call f a)) = tabs a" by (rule store_call_query) (simp add: f)
  then have t: "tabs a1 = tabs a" using q by simp
  have "q \<noteq> Inr True" using store_call_ok [of f a] f q by auto
  then have "fst (update_status now bid st msg gen a) \<noteq> Inr ()" "snd (update_status now bid st msg gen a) = a1"
    using assms q by (auto simp: update_status_def f_def [symmetric] stale_def split: sum.splits if_splits)
  then show "tabs (snd (update_status now bid st msg gen a)) = tabs a" "fst (update_status now bid st msg gen a) \<noteq> Inr ()"
    using t by auto
qed

lemma with_internal_cases:
  "with_internal jparse srv c now r h a = (write_error c 401 (lit ''unauthorized''), a) \<or> with_internal jparse srv c now r h a = h a"
  by (auto simp: with_internal_def split: option.split sum.split)

lemma status_route:
  assumes "plain_id bid" "rq_path r = lit ''/internal/books/'' @ bid @ lit ''/status''" "rq_method r = lit ''PATCH''"
  shows "book_routes jparse srv c sign now ids r a =
    with_internal jparse srv c now r (handle_internal_status c now (rq_status r) bid) a"
  by (subst internal_path [of bid "''status''"]) (use assms in \<open>simp_all add: lit_Cons with_internal_def split: option.split sum.split\<close>)

lemma file_route:
  assumes "plain_id bid" "rq_path r = lit ''/internal/books/'' @ bid @ lit ''/file''" "rq_method r = lit ''GET''"
  shows "book_routes jparse srv c sign now ids r a = with_internal jparse srv c now r (handle_internal_file c sign bid) a"
  by (subst internal_path [of bid "''file''"]) (use assms in \<open>simp_all add: lit_Cons with_internal_def split: option.split sum.split\<close>)

lemma stale_handler:
  assumes "stale (tabs a) bid gen"
  shows "tabs (snd (handle_internal_status c now (Some (s, msg, gen)) bid a)) = tabs a"
    and "400 \<le> rs_status (fst (handle_internal_status c now (Some (s, msg, gen)) bid a))"
proof -
  have "tabs (snd (handle_internal_status c now (Some (s, msg, gen)) bid a)) = tabs a \<and>
    400 \<le> rs_status (fst (handle_internal_status c now (Some (s, msg, gen)) bid a))"
  proof (cases "parse_book_status (lw_of c) s")
    case None
    then show ?thesis by (simp add: handle_internal_status_def write_error_def write_json_def)
  next
    case (Some st)
    obtain q a1 where q: "update_status now bid st msg gen a = (q, a1)" by (metis surj_pair)
    then show ?thesis
      using stale_update [OF assms, of now st msg] Some
      by (auto simp: handle_internal_status_def write_error_def write_json_def internal_error_def split: sum.split)
  qed
  then show "tabs (snd (handle_internal_status c now (Some (s, msg, gen)) bid a)) = tabs a"
    "400 \<le> rs_status (fst (handle_internal_status c now (Some (s, msg, gen)) bid a))" by auto
qed

lemma read_answer_error: "400 \<le> rs_status resp \<Longrightarrow> \<exists>er. read_answer lw sl resp = Inl er"
  by (auto simp: read_answer_def case_prod_beta)

lemma stale_call:
  assumes "plain_id bid" "stale (tabs (iw_book w)) bid gen" "book_client_do e now jti r w = (q, w1)"
    and r: "rq_path r = lit ''/internal/books/'' @ bid @ lit ''/status''" "rq_method r = lit ''PATCH''" "rq_status r = Some (s, msg, gen)"
  shows "tabs (iw_book w1) = tabs (iw_book w) \<and> iw_index_jobs w1 = iw_index_jobs w \<and> (\<exists>er. q = Inl er)"
proof -
  let ?run = "\<lambda>auth. book_routes (ie_parse e) (ie_server e) (ie_book_config e) (ie_presign e) now ([], [], []) (r\<lparr>rq_authorization := auth\<rparr>) (iw_book w)"
  have bad: "tabs (snd (?run auth)) = tabs (iw_book w) \<and> 400 \<le> rs_status (fst (?run auth))" for auth
  proof -
    have "?run auth = with_internal (ie_parse e) (ie_server e) (ie_book_config e) now (r\<lparr>rq_authorization := auth\<rparr>)
        (handle_internal_status (ie_book_config e) now (Some (s, msg, gen)) bid) (iw_book w)"
      by (subst status_route [OF assms(1)]) (simp_all add: r)
    then show ?thesis
      using with_internal_cases [of "ie_parse e" "ie_server e" "ie_book_config e" now "r\<lparr>rq_authorization := auth\<rparr>"
          "handle_internal_status (ie_book_config e) now (Some (s, msg, gen)) bid" "iw_book w"]
        stale_handler [OF assms(2), of "ie_book_config e" now s msg]
      by (auto simp: write_error_def write_json_def)
  qed
  have "\<exists>er. q = Inl er"
  proof (cases q)
    case (Inr body)
    obtain auth where "read_answer (lw_of (ie_book_config e)) (ie_status_line e) (fst (?run auth)) = Inr body"
      using client_do_answer [OF assms(3) [unfolded Inr]] by blast
    then show ?thesis using read_answer_error [of "fst (?run auth)" "lw_of (ie_book_config e)" "ie_status_line e"] bad [of auth] by simp
  qed simp
  then show ?thesis using client_do_book [OF assms(3)] bad by metis
qed

lemma stale_client:
  assumes "plain_id bid" "stale (tabs (iw_book w)) bid gen" "client_update_status e now jti bid gen st msg w = (res, w')"
  shows "tabs (iw_book w') = tabs (iw_book w) \<and> iw_index_jobs w' = iw_index_jobs w \<and> res \<noteq> Inr ()"
proof -
  let ?r = "(plain_request ''PATCH'' (lit ''/internal/books/'' @ bid @ lit ''/status''))\<lparr>rq_status := Some (status_text st, msg, gen)\<rparr>"
  obtain q w1 where q: "book_client_do e now jti ?r w = (q, w1)" by (metis surj_pair)
  have "w' = w1" "res = (case q of Inl er \<Rightarrow> Inl er | Inr _ \<Rightarrow> Inr ())"
    using assms(3) q by (auto simp: client_update_status_def Let_def split: sum.splits)
  then show ?thesis using stale_call [OF assms(1,2) q] by (auto simp: plain_request_def)
qed

section \<open>Chunks of a job\<close>

text \<open>What holds of a chunk at a position.\<close>

definition tier_of :: "gostr \<Rightarrow> bool" where
  "tier_of s \<longleftrightarrow> s = lit ''lexical'' \<or> s = lit ''semantic''"

definition typed_chunk :: "ingest_lib \<Rightarrow> gostr \<Rightarrow> gotime \<Rightarrow> (nat \<Rightarrow> gostr) \<Rightarrow> nat \<Rightarrow> chunk \<Rightarrow> bool" where
  "typed_chunk l bid now new_id i ch \<longleftrightarrow>
     ch_id ch = new_id i \<and> ch_book_id ch = bid \<and> ch_created_at ch = now \<and>
     ch_metadata ch (lit ''document_id'') = Some (trim_space bid) \<and>
     ch_metadata ch (lit ''chunk_index'') = Some (itoa (int i)) \<and>
     ch_metadata ch (lit ''content_runes'') = Some (itoa (int (length (ch_content ch)))) \<and>
     ch_metadata ch (lit ''content_sha256'') = Some (il_sha l (ch_content ch)) \<and>
     (\<exists>tier. ch_metadata ch (lit ''retrieval_tier'') = Some tier \<and> tier_of tier)"

definition typed_chunks :: "ingest_lib \<Rightarrow> gostr \<Rightarrow> gotime \<Rightarrow> (nat \<Rightarrow> gostr) \<Rightarrow> chunk list \<Rightarrow> bool" where
  "typed_chunks l bid now new_id chs \<longleftrightarrow> (\<forall>i<length chs. typed_chunk l bid now new_id i (chs ! i))"

lemma typed_tier_chunk:
  assumes "typed_chunks l bid now new_id out" "tier_of tier"
  shows "typed_chunks l bid now new_id (tier_chunk l bid now new_id meta tier n part out)"
proof -
  obtain idx content where part: "part = (idx, content)" by (cases part)
  show ?thesis
    using assms unfolding typed_chunks_def tier_chunk_def part
    by (auto simp: Let_def nth_append less_Suc_eq typed_chunk_def enrich_chunk_metadata_def lit_Cons)
qed

lemma fold_inv: "P out \<Longrightarrow> (\<And>x out. x \<in> set xs \<Longrightarrow> P out \<Longrightarrow> P (f x out)) \<Longrightarrow> P (fold f xs out)"
  by (induction xs arbitrary: out) auto

lemma typed_block_chunks:
  assumes "typed_chunks l bid now new_id out"
  shows "typed_chunks l bid now new_id (block_chunks l s bid now new_id block out)"
proof -
  have tier: "typed_chunks l bid now new_id (tier_chunks l bid now new_id meta content tier out')"
    if "typed_chunks l bid now new_id out'" "tier_of (fst tier)" for meta content tier out'
    unfolding tier_chunks_def Let_def case_prod_beta
    by (rule fold_inv [where P = "typed_chunks l bid now new_id"]) (use that typed_tier_chunk in auto)
  show ?thesis
    using assms by (auto simp: block_chunks_def Let_def tier_of_def intro!: tier)
qed

lemma typed_fold: "typed_chunks l bid now new_id (fold (block_chunks l s bid now new_id) blocks [])"
  by (rule fold_inv [where P = "typed_chunks l bid now new_id"]) (auto simp: typed_chunks_def [of l bid now new_id "[]"] intro: typed_block_chunks)

lemma chunks_of_build:
  "ch \<in> set (build_retrieval_chunks l s bid now new_id blocks) \<Longrightarrow> ch_book_id ch = bid \<and> ch_created_at ch = now"
  using typed_fold [of l bid now new_id s blocks]
  by (auto simp: build_retrieval_chunks_def Let_def typed_chunks_def typed_chunk_def in_set_conv_nth)

text \<open>All the chunks carry the time and the book of the job, so the list of a book's chunks has them in their order.\<close>

lemma listed_chunks:
  assumes "replace_chunks u now bid (build_retrieval_chunks l s bid now new_id blocks) t = (Inr x, t')"
  shows "fst (list_chunks_by_book bid t') = Inr (build_retrieval_chunks l s bid now new_id blocks)"
proof -
  let ?cs = "build_retrieval_chunks l s bid now new_id blocks"
  have book: "map (\<lambda>c. c\<lparr>ch_book_id := bid\<rparr>) ?cs = ?cs" by (rule map_idI) (simp add: chunks_of_build)
  have "map ch_created_at ?cs = replicate (length ?cs) now"
    by (rule replicate_eqI) (auto simp: chunks_of_build)
  then have "sorted (map ch_created_at ?cs)" by simp
  then have "sort_key ch_created_at ?cs = ?cs" by (rule sort_key_id_if_sorted)
  then show ?thesis using replace_chunks_effect [OF assms, of bid] book by simp
qed

text \<open>Reports and downloads do not touch the chunks.\<close>

definition same_chunks :: "ingest_world \<Rightarrow> ingest_world \<Rightarrow> bool" where
  "same_chunks w w' \<longleftrightarrow> tb_chunks (tabs (iw_book w')) = tb_chunks (tabs (iw_book w)) \<and> iw_index_jobs w' = iw_index_jobs w"

lemma chunks_update_status: "tb_chunks (tabs (snd (update_status now bid st msg gen a))) = tb_chunks (tabs a)"
proof -
  let ?P = "\<lambda>t. tb_chunks t = tb_chunks (tabs a)"
  have "?P (tabs (snd (store_call (set_status_if_generation now bid gen st msg) a)))"
    by (rule store_call_tabs [where P = ?P]) (auto simp: set_status_if_generation_def Let_def)
  moreover have "?P (tabs (snd (store_call (set_status now bid st msg) a)))"
    by (rule store_call_tabs [where P = ?P]) (auto simp: set_status_def)
  ultimately show ?thesis by (simp add: update_status_def case_prod_beta split: sum.splits)
qed

lemma same_chunks_call:
  assumes "book_client_do e now jti r w = (res, w')"
    and "\<And>auth. tb_chunks (tabs (snd (book_routes (ie_parse e) (ie_server e) (ie_book_config e) (ie_presign e) now ([], [], [])
      (r\<lparr>rq_authorization := auth\<rparr>) (iw_book w)))) = tb_chunks (tabs (iw_book w))"
  shows "same_chunks w w'"
  using client_do_book [OF assms(1)] assms(2) by (auto simp: same_chunks_def)

text \<open>A report leaves alone what the update of a status does.\<close>

lemma status_frame:
  assumes "plain_id bid" "client_update_status e now jti bid gen st msg w = (res, w')"
    and "\<And>a st. g (tabs (snd (update_status now bid st msg gen a))) = g (tabs a)"
  shows "g (tabs (iw_book w')) = g (tabs (iw_book w)) \<and> iw_index_jobs w' = iw_index_jobs w"
proof -
  let ?r = "(plain_request ''PATCH'' (lit ''/internal/books/'' @ bid @ lit ''/status''))\<lparr>rq_status := Some (status_text st, msg, gen)\<rparr>"
  obtain q w1 where q: "book_client_do e now jti ?r w = (q, w1)" by (metis surj_pair)
  have "g (tabs (snd (book_routes (ie_parse e) (ie_server e) (ie_book_config e) (ie_presign e) now ([], [], [])
      (?r\<lparr>rq_authorization := auth\<rparr>) (iw_book w)))) = g (tabs (iw_book w))" for auth
  proof -
    let ?h = "handle_internal_status (ie_book_config e) now (Some (status_text st, msg, gen)) bid"
    have "g (tabs (snd (?h (iw_book w)))) = g (tabs (iw_book w))"
      using assms(3) [of _ "iw_book w"] by (auto simp: handle_internal_status_def case_prod_beta split: option.split sum.split)
    then show ?thesis
      using with_internal_cases [of "ie_parse e" "ie_server e" "ie_book_config e" now "?r\<lparr>rq_authorization := auth\<rparr>" ?h "iw_book w"]
      by (subst status_route [OF assms(1)]) (auto simp: plain_request_def)
  qed
  then have "g (tabs (iw_book w1)) = g (tabs (iw_book w)) \<and> iw_index_jobs w1 = iw_index_jobs w"
    using client_do_book [OF q] by auto
  moreover have "w' = w1" using assms(2) q by (auto simp: client_update_status_def Let_def split: sum.splits)
  ultimately show ?thesis by simp
qed

lemma same_chunks_status:
  "plain_id bid \<Longrightarrow> client_update_status e now jti bid gen st msg w = (res, w') \<Longrightarrow> same_chunks w w'"
  unfolding same_chunks_def by (rule status_frame [where g = tb_chunks]) (simp_all add: chunks_update_status)

text \<open>The files of the books: for each row the book, the key of its file, its name, and whether the book is there.\<close>

definition book_files :: "tables \<Rightarrow> (gostr \<times> gostr \<times> gostr \<times> bool) list" where
  "book_files t = map (\<lambda>b. (bo_id b, bo_storage_key b, bo_original_filename b, BookStore.live b)) (tb_books t)"

lemma files_update_status: "book_files (tabs (snd (update_status now bid st msg gen a))) = book_files (tabs a)"
proof -
  let ?P = "\<lambda>t. book_files t = book_files (tabs a)"
  have upd: "book_files (t\<lparr>tb_books := update_where P (\<lambda>b. b\<lparr>bo_status := st, bo_error_message := msg, bo_updated_at := now\<rparr>) (tb_books t)\<rparr>) =
      book_files t" for P t
    by (auto simp: book_files_def update_where_def BookStore.live_def intro!: map_cong)
  have "?P (tabs (snd (store_call (set_status_if_generation now bid gen st msg) a)))"
    by (rule store_call_tabs [where P = ?P]) (auto simp: set_status_if_generation_def Let_def upd)
  moreover have "?P (tabs (snd (store_call (set_status now bid st msg) a)))"
    by (rule store_call_tabs [where P = ?P]) (auto simp: set_status_def upd)
  ultimately show ?thesis by (simp add: update_status_def case_prod_beta split: sum.splits)
qed

text \<open>What the parser finds in the file of a book that is there: the file behind the signed URL of its key and name.\<close>

definition file_blocks :: "('k, 'p) ingest_env \<Rightarrow> gostr \<Rightarrow> tables \<Rightarrow> gostr \<Rightarrow> chunk_payload list \<Rightarrow> bool" where
  "file_blocks e bid t name blocks \<longleftrightarrow>
     list_ex (\<lambda>(i, key, nm, there). i = bid \<and> there \<and> nm = name \<and>
       (case ie_presign e key name of
          Inl _ \<Rightarrow> False
        | Inr url \<Rightarrow>
            (case ie_download e url name of
               Inl _ \<Rightarrow> False
             | Inr views \<Rightarrow> parse_and_chunk (il_unicode (ie_lib e)) (il_fmt3 (ie_lib e)) (ie_pdf e) name views = Inr blocks)))
       (book_files t)"

lemma need_book_tabs: "tabs (snd (need_book c bid a)) = tabs a"
  using get_book_tabs [of "lw_of c" bid a] by (simp add: need_book_def case_prod_beta split: sum.splits option.splits)

lemma same_chunks_fetch:
  assumes "plain_id bid" "fetch_file e now jti bid w = (res, w')"
  shows "same_chunks w w'"
proof -
  let ?r = "plain_request ''GET'' (lit ''/internal/books/'' @ bid @ lit ''/file'')"
  obtain q w1 where q: "book_client_do e now jti ?r w = (q, w1)" by (metis surj_pair)
  have "same_chunks w w1"
  proof (rule same_chunks_call [OF q])
    fix auth
    let ?h = "handle_internal_file (ie_book_config e) (ie_presign e) bid"
    have "tabs (snd (?h (iw_book w))) = tabs (iw_book w)"
      by (simp add: handle_internal_file_def get_download_url_def need_book_tabs case_prod_beta Let_def split: option.split sum.split)
    then show "tb_chunks (tabs (snd (book_routes (ie_parse e) (ie_server e) (ie_book_config e) (ie_presign e) now ([], [], [])
        (?r\<lparr>rq_authorization := auth\<rparr>) (iw_book w)))) = tb_chunks (tabs (iw_book w))"
      using with_internal_cases [of "ie_parse e" "ie_server e" "ie_book_config e" now "?r\<lparr>rq_authorization := auth\<rparr>" ?h "iw_book w"]
      by (subst file_route [OF assms(1)]) (auto simp: plain_request_def)
  qed
  moreover have "w' = w1" using assms(2) q by (auto simp: fetch_file_def split: sum.splits book_body.splits)
  ultimately show ?thesis by simp
qed

lemma fetch_result:
  assumes "plain_id bid" "fetch_file e now jti bid w = (Inr (url, name), w')"
  shows "list_ex (\<lambda>(i, key, nm, there). i = bid \<and> there \<and> nm = name \<and> ie_presign e key name = Inr url) (book_files (tabs (iw_book w)))"
proof -
  let ?r = "plain_request ''GET'' (lit ''/internal/books/'' @ bid @ lit ''/file'')" and ?c = "ie_book_config e"
  have "book_client_do e now jti ?r w = (Inr (BodyFile url name), w')"
    using assms(2) by (auto simp: fetch_file_def split: prod.splits sum.splits book_body.splits if_splits)
  then obtain auth where "read_answer (lw_of ?c) (ie_status_line e) (fst (book_routes (ie_parse e) (ie_server e) ?c (ie_presign e) now
      ([], [], []) (?r\<lparr>rq_authorization := auth\<rparr>) (iw_book w))) = Inr (BodyFile url name)"
    using client_do_answer by blast
  then have "rs_body (fst (book_routes (ie_parse e) (ie_server e) ?c (ie_presign e) now
      ([], [], []) (?r\<lparr>rq_authorization := auth\<rparr>) (iw_book w))) = BodyFile url name"
    by (auto simp: read_answer_def case_prod_beta split: if_splits)
  then have "rs_body (fst (handle_internal_file ?c (ie_presign e) bid (iw_book w))) = BodyFile url name"
    using with_internal_cases [of "ie_parse e" "ie_server e" ?c now "?r\<lparr>rq_authorization := auth\<rparr>" "handle_internal_file ?c (ie_presign e) bid" "iw_book w"]
    by (subst (asm) file_route [OF assms(1)]) (auto simp: plain_request_def write_error_def write_json_def Let_def)
  then obtain a1 where "get_download_url ?c (ie_presign e) bid (iw_book w) = (Inr (url, name), a1)"
    by (auto simp: handle_internal_file_def resp_not_found_def write_error_def write_json_def Let_def split: prod.splits sum.splits)
  then obtain b a2 where b: "need_book ?c bid (iw_book w) = (Inr b, a2)" "ie_presign e (bo_storage_key b) (bo_original_filename b) = Inr url"
      "name = bo_original_filename b"
    by (auto simp: get_download_url_def split: prod.splits sum.splits if_splits)
  have "store_call (get_book (lw_of ?c) bid) (iw_book w) = (Inr (Some b), a2)"
    using b(1) by (cases "store_call (get_book (lw_of ?c) bid) (iw_book w)") (auto simp: need_book_def split: sum.splits option.splits)
  from store_call_ok [OF this] obtain row
    where "List.find (\<lambda>b. BookStore.live b \<and> bo_id b = bid) (tb_books (tabs (iw_book w))) = Some row" "b = book_from_model (lw_of ?c) row"
    by (auto simp: get_book_def)
  then have "row \<in> set (tb_books (tabs (iw_book w)))" "BookStore.live row" "bo_id row = bid" "bo_storage_key b = bo_storage_key row"
      "bo_original_filename b = bo_original_filename row"
    by (auto simp: find_Some_iff book_from_model_def)
  then show ?thesis using b(2,3) by (force simp: list_ex_iff book_files_def)
qed

lemma load_result:
  assumes "plain_id bid" "ingest_load e now jti bid gen w = (Inr (Some (name, blocks)), w')"
  shows "file_blocks e bid (tabs (iw_book w)) name blocks"
proof -
  obtain q w1 where q: "client_update_status e now jti bid gen BookProcessing [] w = (q, w1)" by (metis surj_pair)
  have files: "book_files (tabs (iw_book w1)) = book_files (tabs (iw_book w))"
    using status_frame [OF assms(1) q, where g = book_files] by (simp add: files_update_status)
  obtain f w2 where f: "fetch_file e now jti bid w1 = (f, w2)" by (metis surj_pair)
  obtain url views where u: "f = Inr (url, name)" "ie_download e url name = Inr views"
    "parse_and_chunk (il_unicode (ie_lib e)) (il_fmt3 (ie_lib e)) (ie_pdf e) name views = Inr blocks"
    using assms(2) by (auto simp: ingest_load_def q f Let_def split: sum.splits if_splits prod.splits)
  obtain key where "(bid, key, name, True) \<in> set (book_files (tabs (iw_book w)))" "ie_presign e key name = Inr url"
    using fetch_result [OF assms(1) f [unfolded u(1)]] by (auto simp: files list_ex_iff)
  then show ?thesis using u(2,3) by (force simp: file_blocks_def list_ex_iff)
qed

lemma same_chunks_trans: "same_chunks w w1 \<Longrightarrow> same_chunks w1 w2 \<Longrightarrow> same_chunks w w2"
  by (simp add: same_chunks_def)

lemma same_chunks_fail:
  assumes "plain_id bid" "fail_job e now jti bid gen er w = (res, w')"
  shows "same_chunks w w'"
  using assms same_chunks_status [OF assms(1), of e now jti gen BookFailed "ing_text er" w]
  by (metis fail_job_def snd_conv surj_pair)

lemma same_chunks_load:
  assumes "plain_id bid" "ingest_load e now jti bid gen w = (res, w')"
  shows "same_chunks w w'"
proof -
  obtain q w1 where q: "client_update_status e now jti bid gen BookProcessing [] w = (q, w1)" by (metis surj_pair)
  obtain f w2 where f: "fetch_file e now jti bid w1 = (f, w2)" by (metis surj_pair)
  have s1: "same_chunks w w1" by (rule same_chunks_status [OF assms(1) q])
  have s2: "same_chunks w w2" by (rule same_chunks_trans [OF s1 same_chunks_fetch [OF assms(1) f]])
  have fail: "same_chunks w v'" if "fail_job e now jti bid gen er v = (r, v')" "same_chunks w v" for er v r v'
    by (rule same_chunks_trans [OF that(2) same_chunks_fail [OF assms(1) that(1)]])
  have fail': "same_chunks w (snd (fail_job e now jti bid gen er v))" if "same_chunks w v" for er v
    using fail [OF _ that] by (metis surj_pair snd_conv)
  have "w' = w1 \<or> w' = w2 \<or> (\<exists>er. w' = snd (fail_job e now jti bid gen er w1)) \<or> (\<exists>er. w' = snd (fail_job e now jti bid gen er w2))"
    using assms(2) unfolding ingest_load_def Let_def q prod.case case_prod_beta
    by (auto simp: f split: sum.splits if_splits prod.splits)
  then show ?thesis using s1 s2 fail' by auto
qed

lemma ingest_store_result:
  assumes "ingest_store c f w = (r, w')"
  shows "iw_index_jobs w' = iw_index_jobs w" "iw_index_calls w' = iw_index_calls w"
    and "r = Inr x \<Longrightarrow> f (tabs (iw_book w)) = (Inr x, tabs (iw_book w'))"
    and "healthy (iw_book w) \<Longrightarrow> f (tabs (iw_book w)) = (Inr x, t') \<Longrightarrow> r = Inr x \<and> healthy (iw_book w') \<and> tabs (iw_book w') = t'"
proof -
  obtain q b where q: "store_call f (iw_book w) = (q, b)" by (metis surj_pair)
  have r: "w' = w\<lparr>iw_book := b\<rparr>" "r = (case q of Inl e \<Rightarrow> Inl (IngErr (err_text c e)) | Inr x \<Rightarrow> Inr x)"
    using assms q by (auto simp: ingest_store_def)
  show "iw_index_jobs w' = iw_index_jobs w" "iw_index_calls w' = iw_index_calls w" using r by auto
  show "f (tabs (iw_book w)) = (Inr x, tabs (iw_book w'))" if "r = Inr x"
    using that r store_call_ok [of f "iw_book w" x b] q by (auto split: sum.splits)
  show "r = Inr x \<and> healthy (iw_book w') \<and> tabs (iw_book w') = t'"
    if "healthy (iw_book w)" "f (tabs (iw_book w)) = (Inr x, t')"
    using store_call_healthy [where f = f, OF that] q r by auto
qed

lemma index_enqueue_result:
  assumes "index_enqueue bid gen w = (r, w')"
  shows "iw_book w' = iw_book w" "iw_index_jobs w' = iw_index_jobs w \<or> iw_index_jobs w' = iw_index_jobs w @ [(bid, gen)]"
    and "iw_index_calls w = [] \<Longrightarrow> r = Inr () \<and> iw_index_jobs w' = iw_index_jobs w @ [(bid, gen)]"
  using assms by (auto simp: index_enqueue_def case_prod_beta outcome_defs split: if_splits)

lemma ingest_write_stored:
  assumes "plain_id bid" "ingest_write e now jti new_id bid gen (name, blocks) w = (res, w')"
  shows "iw_index_jobs w' = iw_index_jobs w \<or>
    iw_index_jobs w' = iw_index_jobs w @ [(bid, gen)] \<and> build_retrieval_chunks (ie_lib e) (ie_sizes e) bid now new_id blocks \<noteq> [] \<and>
    fst (list_chunks_by_book bid (tabs (iw_book w'))) = Inr (build_retrieval_chunks (ie_lib e) (ie_sizes e) bid now new_id blocks)"
proof -
  let ?cs = "build_retrieval_chunks (ie_lib e) (ie_sizes e) bid now new_id blocks"
  let ?u = "il_unicode (ie_lib e)" and ?c = "ie_book_config e"
  obtain r1 w1 where w1: "ingest_store ?c (update_book_document_profile now bid (build_book_document_profile ?u name blocks)) w = (r1, w1)"
    by (metis surj_pair)
  obtain r2 w2 where w2: "ingest_store ?c (replace_chunks ?u now bid ?cs) w1 = (r2, w2)" by (metis surj_pair)
  obtain r3 w3 where w3: "index_enqueue bid gen w2 = (r3, w3)" by (metis surj_pair)
  note j = ingest_store_result(1) [OF w1] ingest_store_result(1) [OF w2] index_enqueue_result(2) [OF w3]
  have fail: "same_chunks v v'" if "(res, v') = fail_job e now jti bid gen er v" for er v v'
    by (rule same_chunks_fail [OF assms(1) that [symmetric]])
  consider er where "fail_job e now jti bid gen er w = (res, w')" | er where "fail_job e now jti bid gen er w1 = (res, w')"
    | er where "fail_job e now jti bid gen er w2 = (res, w')"
    | "?cs \<noteq> []" "r2 = Inr ()" "same_chunks w3 w'"
    using assms(2) unfolding ingest_write_def Let_def prod.case w1
    by (auto simp: w2 w3 same_chunks_def split: if_splits sum.splits intro: fail dest: same_chunks_fail [OF assms(1)])
  then show ?thesis
  proof cases
    case 4
    have "replace_chunks ?u now bid ?cs (tabs (iw_book w1)) = (Inr (), tabs (iw_book w2))"
      using ingest_store_result(3) [OF w2] 4(2) by blast
    then have "fst (list_chunks_by_book bid (tabs (iw_book w2))) = Inr ?cs" by (rule listed_chunks)
    moreover have "tb_chunks (tabs (iw_book w')) = tb_chunks (tabs (iw_book w2))"
      using 4(3) index_enqueue_result(1) [OF w3] by (simp add: same_chunks_def)
    ultimately have "fst (list_chunks_by_book bid (tabs (iw_book w'))) = Inr ?cs" by (simp add: list_chunks_by_book_def)
    then show ?thesis using j 4 by (auto simp: same_chunks_def)
  qed (use j same_chunks_fail [OF assms(1)] in \<open>fastforce simp: same_chunks_def\<close>)+
qed

text \<open>The second half of a job, when no call fails.\<close>

lemma write_without_faults:
  assumes "healthy (iw_book w)" and "iw_index_calls w = []"
    and "build_retrieval_chunks (ie_lib e) (ie_sizes e) bid now new_id blocks \<noteq> []"
    and "replace_chunks (il_unicode (ie_lib e)) now bid (build_retrieval_chunks (ie_lib e) (ie_sizes e) bid now new_id blocks)
      (snd (update_book_document_profile now bid (build_book_document_profile (il_unicode (ie_lib e)) name blocks) (tabs (iw_book w)))) =
      (Inr (), t')"
    and "ingest_write e now jti new_id bid gen (name, blocks) w = (res, w')"
  shows "res = Inr () \<and> tabs (iw_book w') = t' \<and> iw_index_jobs w' = iw_index_jobs w @ [(bid, gen)] \<and>
    fst (list_chunks_by_book bid (tabs (iw_book w'))) = Inr (build_retrieval_chunks (ie_lib e) (ie_sizes e) bid now new_id blocks)"
proof -
  let ?cs = "build_retrieval_chunks (ie_lib e) (ie_sizes e) bid now new_id blocks"
  let ?u = "il_unicode (ie_lib e)" and ?c = "ie_book_config e"
  let ?f = "update_book_document_profile now bid (build_book_document_profile ?u name blocks)"
  obtain r1 w1 where w1: "ingest_store ?c ?f w = (r1, w1)" by (metis surj_pair)
  obtain r2 w2 where w2: "ingest_store ?c (replace_chunks ?u now bid ?cs) w1 = (r2, w2)" by (metis surj_pair)
  obtain r3 w3 where w3: "index_enqueue bid gen w2 = (r3, w3)" by (metis surj_pair)
  have f: "?f (tabs (iw_book w)) = (Inr (), snd (?f (tabs (iw_book w))))" by (simp add: update_book_document_profile_def)
  have s1: "r1 = Inr ()" "healthy (iw_book w1)" "tabs (iw_book w1) = snd (?f (tabs (iw_book w)))"
    using ingest_store_result(4) [OF w1 assms(1) f] by auto
  have s2: "r2 = Inr ()" "tabs (iw_book w2) = t'"
    using ingest_store_result(4) [OF w2 s1(2)] assms(4) unfolding s1(3) by blast+
  have s3: "r3 = Inr ()" "iw_index_jobs w3 = iw_index_jobs w @ [(bid, gen)]" "iw_book w3 = iw_book w2"
    using index_enqueue_result [OF w3] ingest_store_result(1,2) [OF w1] ingest_store_result(1,2) [OF w2] assms(2) by auto
  have "res = Inr ()" "w' = w3"
    using assms(3,5) s1 s2 s3 w1 w2 w3 by (auto simp: ingest_write_def Let_def)
  moreover have "fst (list_chunks_by_book bid t') = Inr ?cs" by (rule listed_chunks [OF assms(4)])
  ultimately show ?thesis using s2 s3 by simp
qed

section \<open>Properties\<close>

text \<open>
  C8: the indexer hears of a book only once its chunks are stored.  Whatever calls fail, a job either hands nothing
  to the indexer, or one job for its book and generation; then the chunks of the book in the database are, in order,
  exactly those built from all the blocks that the parser finds in the file of the book, the file behind the URL signed
  for the key and the name in its row, and there is at least one.
\<close>

theorem indexed_after_stored:
  assumes "plain_id bid" and "ingest_process e now jti new_id bid gen w = (res, w')"
  shows "iw_index_jobs w' = iw_index_jobs w \<or>
    iw_index_jobs w' = iw_index_jobs w @ [(bid, gen)] \<and>
    (\<exists>name blocks. file_blocks e bid (tabs (iw_book w)) name blocks \<and>
       build_retrieval_chunks (ie_lib e) (ie_sizes e) bid now new_id blocks \<noteq> [] \<and>
       fst (list_chunks_by_book bid (tabs (iw_book w'))) = Inr (build_retrieval_chunks (ie_lib e) (ie_sizes e) bid now new_id blocks))"
proof -
  obtain q w1 where q: "ingest_load e now jti bid gen w = (q, w1)" by (metis surj_pair)
  have load: "same_chunks w w1" by (rule same_chunks_load [OF assms(1) q])
  show ?thesis
  proof (cases "\<exists>name blocks. q = Inr (Some (name, blocks))")
    case False
    then have "w' = w1" using assms(2) q by (auto simp: ingest_process_def split: sum.splits option.splits)
    then show ?thesis using load by (simp add: same_chunks_def)
  next
    case True
    then obtain name blocks where found: "q = Inr (Some (name, blocks))" by blast
    then have "ingest_write e now jti new_id bid gen (name, blocks) w1 = (res, w')"
      using assms(2) q by (simp add: ingest_process_def)
    from ingest_write_stored [OF assms(1) this] load load_result [OF assms(1) q [unfolded found]]
    show ?thesis by (auto simp: same_chunks_def)
  qed
qed

text \<open>
  C9: a job of a stale generation does nothing.  When the book has moved on to another generation, or is gone,
  the job leaves the database as it was and hands nothing to the indexer, whatever calls fail, and its report is
  not acknowledged.
\<close>

theorem stale_job_ignored:
  assumes "plain_id bid" and "stale (tabs (iw_book w)) bid gen"
    and "ingest_process e now jti new_id bid gen w = (res, w')"
  shows "tabs (iw_book w') = tabs (iw_book w) \<and> iw_index_jobs w' = iw_index_jobs w"
proof -
  obtain q w1 where q: "client_update_status e now jti bid gen BookProcessing [] w = (q, w1)" by (metis surj_pair)
  note s1 = stale_client [OF assms(1,2) q]
  obtain er where er: "q = Inl er" using s1 by (cases q) auto
  obtain p w2 where p: "client_update_status e now jti bid gen BookFailed (ing_text er) w1 = (p, w2)" by (metis surj_pair)
  have s2: "tabs (iw_book w2) = tabs (iw_book w) \<and> iw_index_jobs w2 = iw_index_jobs w"
    using stale_client [OF assms(1) _ p] s1 assms(2) by simp
  show ?thesis
    using assms(3) s1 s2 q p er
    by (auto simp: ingest_process_def ingest_load_def fail_job_def Let_def split: if_splits)
qed

text \<open>
  C38: the chunks of a job are numbered and described consistently: each has the book and the time of the job, the ID
  generated for its position, the position itself and the number of all chunks, the length and the hash of its content,
  and one of the two retrieval tiers.
\<close>

theorem retrieval_chunks_typed:
  "let chunks = build_retrieval_chunks l s bid now new_id blocks in
   typed_chunks l bid now new_id chunks \<and>
   list_all (\<lambda>ch. ch_metadata ch (lit ''chunk_count'') = Some (itoa (int (length chunks)))) chunks"
  using typed_fold [of l bid now new_id s blocks]
  by (auto simp: build_retrieval_chunks_def Let_def typed_chunks_def typed_chunk_def lit_Cons list_all_iff)

text \<open>
  C39: the writes of a job do not look at its generation.  When no call fails, a job that has loaded its file replaces the
  chunks of the book and hands an index job of its own generation over, whatever generation the book has by then (in
  the witness, another one).
\<close>

theorem ingest_write_unguarded:
  assumes "healthy (iw_book w)" and "iw_index_calls w = []"
    and "build_retrieval_chunks (ie_lib e) (ie_sizes e) bid now new_id blocks \<noteq> []"
    and "replace_chunks (il_unicode (ie_lib e)) now bid (build_retrieval_chunks (ie_lib e) (ie_sizes e) bid now new_id blocks)
      (snd (update_book_document_profile now bid (build_book_document_profile (il_unicode (ie_lib e)) name blocks) (tabs (iw_book w)))) =
      (Inr (), t')"
    and "ingest_write e now jti new_id bid gen (name, blocks) w = (res, w')"
  shows "res = Inr () \<and> tabs (iw_book w') = t' \<and> iw_index_jobs w' = iw_index_jobs w @ [(bid, gen)] \<and>
    fst (list_chunks_by_book bid (tabs (iw_book w'))) = Inr (build_retrieval_chunks (ie_lib e) (ie_sizes e) bid now new_id blocks)"
  by (rule write_without_faults [OF assms])

section \<open>Examples\<close>

declare One_nat_def [simp del]

definition demo_lib :: ingest_lib where
  "demo_lib = \<lparr>il_unicode = demo_unicode, il_sha = (\<lambda>_. [104]), il_fmt3 = (\<lambda>_. [48]), il_entities_json = (\<lambda>_. [101]),
     il_facts_json = (\<lambda>_. [102])\<rparr>"

definition demo_ingest :: "(nat, nat) ingest_env" where
  "demo_ingest = \<lparr>ie_lib = demo_lib, ie_sizes = \<lparr>is_lexical_size = 160, is_lexical_overlap = 0, is_semantic_size = 480, is_semantic_overlap = 0\<rparr>,
     ie_pdf = \<lparr>pc_ocr_enabled = False, pc_min_runes = 80, pc_min_score = 1, pc_score_diff = 0\<rparr>, ie_parse = plain_parse,
     ie_sign = plain_sign, ie_date = whole_seconds, ie_signer = demo_signer, ie_sign_error = (\<lambda>_. [115]),
     ie_server = \<lparr>bv_me = None, bv_token_ok = None, bv_internal = demo_service_verifier, bv_max_upload_bytes = 10\<rparr>,
     ie_book_config = demo_config, ie_presign = (\<lambda>k n. Inr k), ie_status_line = itoa, ie_download = (\<lambda>_ _. Inl [110])\<rparr>"

definition demo_world :: "db_outcome list \<Rightarrow> ingest_world" where
  "demo_world os = \<lparr>iw_book = demo_app demo_tables os, iw_calls = [], iw_index_jobs = [], iw_index_calls = []\<rparr>"

lemma demo_world_tabs [simp]: "tabs (iw_book (demo_world os)) = demo_tables" "iw_index_jobs (demo_world os) = []"
  by (simp_all add: demo_world_def demo_app_def tabs_def)

lemma demo_stale: "stale demo_tables [1] 7"
  by (simp add: stale_def demo_tables_def empty_tables_def demo_book_def)

theorem stale_job_ignored_witness:
  "let w' = snd (ingest_process demo_ingest 5 [106] (\<lambda>i. [i + 10]) [1] 7 (demo_world [DbUnknown])) in
   tabs (iw_book w') = demo_tables \<and> iw_index_jobs w' = []"
proof -
  obtain res w' where r: "ingest_process demo_ingest 5 [106] (\<lambda>i. [i + 10]) [1] 7 (demo_world [DbUnknown]) = (res, w')"
    by (metis surj_pair)
  have "plain_id [1]" by (simp add: plain_id_def)
  from stale_job_ignored [OF this _ r] show ?thesis using r by (simp add: demo_stale)
qed

lemma demo_parts:
  "chunk_text_by_tokens demo_unicode [97] 160 0 = [[97]]" "chunk_text_by_tokens demo_unicode [97] 480 0 = [[97]]"
  by (simp_all add: chunk_text_by_tokens_def build_sentence_units_def split_paragraphs_def split_sentences_def sentence_units_def
      split_by_runes_def emit_def units_to_text_def flush_sentence_def flush_paragraph_def str_fields.simps trim_left_def trim_right_def trims is_space_def is_sentence_end_def Let_def)

lemma demo_chunks:
  "\<exists>m1 m2. build_retrieval_chunks demo_lib (ie_sizes demo_ingest) [1] 5 (\<lambda>i. [i + 10]) [\<lparr>cp_content = [97], cp_metadata = m\<rparr>] =
     [\<lparr>ch_id = [10], ch_book_id = [1], ch_content = [97], ch_metadata = m1, ch_created_at = 5\<rparr>,
      \<lparr>ch_id = [11], ch_book_id = [1], ch_content = [97], ch_metadata = m2, ch_created_at = 5\<rparr>]"
  by (simp add: build_retrieval_chunks_def block_chunks_def tier_chunks_def tier_chunk_def demo_parts demo_lib_def demo_ingest_def
      trims is_space_def Let_def)

theorem ingest_write_unguarded_witness:
  "let r = ingest_write demo_ingest 5 [106] (\<lambda>i. [i + 10]) [1] 7 ([97], [\<lparr>cp_content = [97], cp_metadata = Map.empty\<rparr>]) (demo_world []) in
   stale (tabs (iw_book (demo_world []))) [1] 7 \<and> fst r = Inr () \<and> iw_index_jobs (snd r) = [([1], 7)] \<and>
   tb_chunks (tabs (iw_book (demo_world []))) = [] \<and>
   map ch_content (tb_chunks (tabs (iw_book (snd r)))) = [[97], [97]]"
proof -
  let ?bs = "[\<lparr>cp_content = [97], cp_metadata = Map.empty\<rparr>] :: chunk_payload list"
  obtain m1 m2 where c: "build_retrieval_chunks demo_lib (ie_sizes demo_ingest) [1] 5 (\<lambda>i. [i + 10]) ?bs =
     [\<lparr>ch_id = [10], ch_book_id = [1], ch_content = [97], ch_metadata = m1, ch_created_at = 5\<rparr>,
      \<lparr>ch_id = [11], ch_book_id = [1], ch_content = [97], ch_metadata = m2, ch_created_at = 5\<rparr>]"
    using demo_chunks by blast
  let ?t = "snd (update_book_document_profile 5 [1] (build_book_document_profile demo_unicode [97] ?bs) demo_tables)"
  let ?t' = "snd (replace_chunks demo_unicode 5 [1] (build_retrieval_chunks demo_lib (ie_sizes demo_ingest) [1] 5 (\<lambda>i. [i + 10]) ?bs) ?t)"
  have r: "replace_chunks demo_unicode 5 [1] (build_retrieval_chunks demo_lib (ie_sizes demo_ingest) [1] 5 (\<lambda>i. [i + 10]) ?bs) ?t = (Inr (), ?t')"
    and t: "map ch_content (tb_chunks ?t') = [[97], [97]]"
    by (simp_all add: c replace_chunks_def update_book_document_profile_def demo_tables_def empty_tables_def delete_chunks_def insert_rows_def
        pending_status_def demo_book_def update_where_def trims is_space_def BookStore.live_def Let_def)
  obtain res w' where w': "ingest_write demo_ingest 5 [106] (\<lambda>i. [i + 10]) [1] 7 ([97], ?bs) (demo_world []) = (res, w')"
    by (metis surj_pair)
  have e: "ie_lib demo_ingest = demo_lib" "il_unicode demo_lib = demo_unicode" by (simp_all add: demo_ingest_def demo_lib_def)
  have h: "healthy (iw_book (demo_world []))" "iw_index_calls (demo_world []) = []"
    by (simp_all add: demo_world_def demo_app_def healthy_def)
  note ok = ingest_write_unguarded [where e = demo_ingest and w = "demo_world []" and bid = "[1]" and gen = 7 and blocks = ?bs,
      unfolded e demo_world_tabs, OF h _ r w']
  have "res = Inr ()" "tabs (iw_book w') = ?t'" "iw_index_jobs w' = [([1], 7)]"
    using ok c by simp_all
  then show ?thesis using w' t demo_stale by (simp add: demo_tables_def empty_tables_def)
qed

text \<open>Tokens that the book service accepts, and a file of plain text.\<close>

definition demo_views :: file_views where
  "demo_views = \<lparr>fv_pdf_native = Inl [], fv_pdf_ocr = Inl [], fv_pdf_order = [], fv_epub = Inl [], fv_text = Inr [97]\<rparr>"

definition demo_ingest_ok :: "(nat, nat) ingest_env" where
  "demo_ingest_ok = demo_ingest\<lparr>ie_server := (ie_server demo_ingest)\<lparr>bv_internal := demo_service_verifier\<lparr>sv_audience := lit ''book''\<rparr>\<rparr>,
     ie_download := \<lambda>_ _. Inr demo_views\<rparr>"

text \<open>A call of the book service reaches the handler.\<close>

lemma demo_call_passes:
  assumes "iw_calls w = []"
    and "\<And>r auth. rq_authorization r = auth \<Longrightarrow> rq_path r = rq_path request \<Longrightarrow> rq_method r = rq_method request \<Longrightarrow> rq_status r = rq_status request \<Longrightarrow>
      book_routes plain_parse (ie_server demo_ingest_ok) demo_config (ie_presign demo_ingest_ok) 5 ([], [], []) r (iw_book w) =
      with_internal plain_parse (ie_server demo_ingest_ok) demo_config 5 r h (iw_book w)"
  shows "book_client_do demo_ingest_ok 5 [106] request w =
    (case h (iw_book w) of (resp, b) \<Rightarrow> (read_answer (lw_of demo_config) itoa resp, w\<lparr>iw_book := b\<rparr>))"
proof -
  define tok where "tok = plain_encode 7 (lit ''k'') (service_claims whole_seconds demo_signer 5 [106] (lit ''book''))"
  have signed: "service_sign whole_seconds plain_sign demo_signer 5 [106] (lit ''book'') = Inr tok"
    by (simp add: service_sign_def plain_sign_def tok_def demo_signer_def trim_space_fix lit_Cons is_space_def Let_def)
  let ?v = "demo_service_verifier\<lparr>sv_audience := lit ''book''\<rparr>"
  have ok: "\<exists>c. service_verify plain_parse ?v 5 tok = Inr c"
    using jwt_key_errors.service_accepts [OF plain_errors.jwt_key_errors_axioms signed, of ?v 5]
    by (auto simp: demo_service_verifier_def demo_signer_def trim_space_fix lit_Cons is_space_def second_def whole_seconds_def)
  have t: "trim_space tok = tok" "tok \<noteq> []" by (simp_all add: tok_def)
  have "trim_space (lit ''Bearer '' @ tok) = lit ''Bearer '' @ tok"
    by (rule trim_space_fix) (simp add: lit_Cons is_space_def tok_def plain_encode_def)
  then have bearer: "bearer_token (lit ''Bearer '' @ tok) = Some tok" using t by (simp add: bearer_token_def trim_prefix_def Let_def has_prefix_def lit_Cons)
  let ?r = "request\<lparr>rq_authorization := lit ''Bearer '' @ tok\<rparr>"
  have "book_routes plain_parse (ie_server demo_ingest_ok) demo_config (ie_presign demo_ingest_ok) 5 ([], [], []) ?r (iw_book w) = h (iw_book w)"
    using ok by (subst assms(2) [OF refl]) (auto simp: with_internal_def bearer demo_ingest_ok_def demo_ingest_def)
  then show ?thesis
    using signed assms(1)
    by (simp add: book_client_do_def demo_ingest_ok_def demo_ingest_def next_outcome_def takes_effect_def Let_def case_prod_beta)
qed

lemma demo_plain_id: "plain_id [1]"
  by (simp add: plain_id_def)

text \<open>The report that the job begins with, and the file.\<close>

lemma demo_started:
  "\<exists>b. client_update_status demo_ingest_ok 5 [106] [1] 1 BookProcessing [] (demo_world []) = (Inr (), (demo_world [])\<lparr>iw_book := b\<rparr>) \<and>
     healthy b \<and> tabs b = demo_tables\<lparr>tb_books := [demo_book\<lparr>bo_status := BookProcessing, bo_error_message := [], bo_updated_at := 5\<rparr>]\<rparr>"
proof -
  let ?a = "demo_app demo_tables []" and ?t = "snd (set_status_if_generation 5 [1] 1 BookProcessing [] demo_tables)"
  have t: "set_status_if_generation 5 [1] 1 BookProcessing [] demo_tables = (Inr True,
      demo_tables\<lparr>tb_books := [demo_book\<lparr>bo_status := BookProcessing, bo_error_message := [], bo_updated_at := 5\<rparr>]\<rparr>)"
    by (simp add: set_status_if_generation_def demo_tables_def demo_book_def update_where_def BookStore.live_def Let_def)
  have call: "store_call (set_status_if_generation 5 [1] 1 BookProcessing []) ?a = (Inr True, ?a\<lparr>ba_db := (?t, [])\<rparr>)"
    by (rule store_call_healthy) (simp_all add: demo_app_def healthy_def t tabs_def)
  have parse: "parse_book_status (lw_of demo_config) (status_text BookProcessing) = Some BookProcessing"
    by (simp add: parse_book_status_def lw_of_def demo_config_def demo_unicode_def to_lower_def lower_rune_def trim_space_fix is_space_def Let_def lit_Cons status_text_def)
  have h: "handle_internal_status demo_config 5 (Some (status_text BookProcessing, [], 1)) [1] ?a =
      (write_json 200 (BodyStatus (lit ''updated'')), ?a\<lparr>ba_db := (?t, [])\<rparr>)"
    by (simp add: handle_internal_status_def parse update_status_def call)
  have "client_update_status demo_ingest_ok 5 [106] [1] 1 BookProcessing [] (demo_world []) = (Inr (), (demo_world [])\<lparr>iw_book := ?a\<lparr>ba_db := (?t, [])\<rparr>\<rparr>)"
    unfolding client_update_status_def Let_def
    by (subst demo_call_passes [where h = "handle_internal_status demo_config 5 (Some (status_text BookProcessing, [], 1)) [1]"])
      (simp_all add: demo_world_def [of "[]"] status_route [OF demo_plain_id] plain_request_def h read_answer_def write_json_def)
  then show ?thesis
    by (intro exI [of _ "?a\<lparr>ba_db := (?t, [])\<rparr>"]) (simp add: healthy_def tabs_def t demo_world_def demo_app_def)
qed

definition demo_begun :: tables where
  "demo_begun = demo_tables\<lparr>tb_books := [demo_book\<lparr>bo_status := BookProcessing, bo_error_message := [], bo_updated_at := 5\<rparr>]\<rparr>"

lemma demo_fetched:
  assumes "healthy b" "tabs b = demo_begun"
  shows "\<exists>b'. fetch_file demo_ingest_ok 5 [106] [1] ((demo_world [])\<lparr>iw_book := b\<rparr>) = (Inr ([3], [97]), (demo_world [])\<lparr>iw_book := b'\<rparr>) \<and>
    healthy b' \<and> tabs b' = demo_begun"
proof -
  let ?row = "book_from_model (lw_of demo_config) (demo_book\<lparr>bo_status := BookProcessing, bo_error_message := [], bo_updated_at := 5\<rparr>)"
  have g: "get_book (lw_of demo_config) [1] (tabs b) = (Inr (Some ?row), demo_begun)"
    by (simp add: get_book_def assms(2) demo_begun_def demo_book_def BookStore.live_def)
  let ?b = "b\<lparr>ba_db := (demo_begun, [])\<rparr>"
  have call: "store_call (get_book (lw_of demo_config) [1]) b = (Inr (Some ?row), ?b)"
    by (rule store_call_healthy [where f = "get_book (lw_of demo_config) [1]"]) (rule assms(1), rule g)
  have h: "handle_internal_file demo_config (ie_presign demo_ingest_ok) [1] b = (write_json 200 (BodyFile [3] [97]), ?b)"
    by (simp add: handle_internal_file_def get_download_url_def need_book_def call book_from_model_def demo_book_def demo_ingest_ok_def
        demo_ingest_def trims is_space_def)
  have "fetch_file demo_ingest_ok 5 [106] [1] ((demo_world [])\<lparr>iw_book := b\<rparr>) = (Inr ([3], [97]), (demo_world [])\<lparr>iw_book := ?b\<rparr>)"
    unfolding fetch_file_def
    by (subst demo_call_passes [where h = "handle_internal_file demo_config (ie_presign demo_ingest_ok) [1]"])
      (simp_all add: demo_world_def [of "[]"] file_route [OF demo_plain_id] plain_request_def h read_answer_def write_json_def)
  then show ?thesis by (intro exI [of _ ?b]) (simp add: healthy_def tabs_def)
qed

lemma demo_normal: "normalize_text_preserve_newlines [97] = [97]"
  by (simp add: normalize_text_preserve_newlines_def line_breaks_def sanitize_text_runes_def sanitize_rune_def is_control_def clean_line_def
      str_fields.simps trim_left_def trim_right_def trims is_space_def Let_def)

text \<open>A job that is handed over.\<close>

lemma demo_job:
  "iw_index_jobs (snd (ingest_process demo_ingest_ok 5 [106] (\<lambda>i. [i + 10]) [1] 1 (demo_world []))) = [([1], 1)]"
proof -
  let ?w = "demo_world []"
  obtain b where b: "client_update_status demo_ingest_ok 5 [106] [1] 1 BookProcessing [] ?w = (Inr (), ?w\<lparr>iw_book := b\<rparr>)"
      "healthy b" "tabs b = demo_begun"
    using demo_started unfolding demo_begun_def by blast
  obtain b' where b': "fetch_file demo_ingest_ok 5 [106] [1] (?w\<lparr>iw_book := b\<rparr>) = (Inr ([3], [97]), ?w\<lparr>iw_book := b'\<rparr>)"
      "healthy b'" "tabs b' = demo_begun"
    using demo_fetched [OF b(2,3)] by blast
  obtain m where m: "parse_and_chunk demo_unicode (il_fmt3 demo_lib) (ie_pdf demo_ingest) [97] demo_views = Inr [\<lparr>cp_content = [97], cp_metadata = m\<rparr>]"
    by (simp add: parse_and_chunk_def parse_text_def demo_views_def demo_normal file_ext_def demo_unicode_def to_lower_def Let_def)
  let ?bs = "[\<lparr>cp_content = [97], cp_metadata = m\<rparr>]"
  have env: "ie_lib demo_ingest_ok = demo_lib" "ie_sizes demo_ingest_ok = ie_sizes demo_ingest" "ie_pdf demo_ingest_ok = ie_pdf demo_ingest"
    "ie_download demo_ingest_ok = (\<lambda>_ _. Inr demo_views)" "il_unicode demo_lib = demo_unicode"
    by (simp_all add: demo_ingest_ok_def demo_ingest_def demo_lib_def)
  have load: "ingest_load demo_ingest_ok 5 [106] [1] 1 ?w = (Inr (Some ([97], ?bs)), ?w\<lparr>iw_book := b'\<rparr>)"
    by (simp add: ingest_load_def b(1) b'(1) env m Let_def)
  obtain m1 m2 where c: "build_retrieval_chunks demo_lib (ie_sizes demo_ingest) [1] 5 (\<lambda>i. [i + 10]) ?bs =
     [\<lparr>ch_id = [10], ch_book_id = [1], ch_content = [97], ch_metadata = m1, ch_created_at = 5\<rparr>,
      \<lparr>ch_id = [11], ch_book_id = [1], ch_content = [97], ch_metadata = m2, ch_created_at = 5\<rparr>]"
    using demo_chunks by blast
  let ?t = "snd (update_book_document_profile 5 [1] (build_book_document_profile demo_unicode [97] ?bs) demo_begun)"
  let ?t' = "snd (replace_chunks demo_unicode 5 [1] (build_retrieval_chunks demo_lib (ie_sizes demo_ingest) [1] 5 (\<lambda>i. [i + 10]) ?bs) ?t)"
  have r: "replace_chunks demo_unicode 5 [1] (build_retrieval_chunks demo_lib (ie_sizes demo_ingest) [1] 5 (\<lambda>i. [i + 10]) ?bs) ?t = (Inr (), ?t')"
    by (simp add: c replace_chunks_def update_book_document_profile_def demo_begun_def demo_tables_def empty_tables_def delete_chunks_def insert_rows_def
        pending_status_def demo_book_def update_where_def trims is_space_def BookStore.live_def Let_def)
  obtain res w' where w': "ingest_write demo_ingest_ok 5 [106] (\<lambda>i. [i + 10]) [1] 1 ([97], ?bs) (?w\<lparr>iw_book := b'\<rparr>) = (res, w')"
    by (metis surj_pair)
  have book: "iw_book (?w\<lparr>iw_book := b'\<rparr>) = b'" by simp
  have "iw_index_jobs w' = iw_index_jobs (?w\<lparr>iw_book := b'\<rparr>) @ [([1], 1)]"
  proof (rule write_without_faults [THEN conjunct2, THEN conjunct2, THEN conjunct1, OF _ _ _ _ w'])
    show "healthy (iw_book (?w\<lparr>iw_book := b'\<rparr>))" "iw_index_calls (?w\<lparr>iw_book := b'\<rparr>) = []"
      using b'(2) by (simp_all add: demo_world_def)
    show "build_retrieval_chunks (ie_lib demo_ingest_ok) (ie_sizes demo_ingest_ok) [1] 5 (\<lambda>i. [i + 10]) ?bs \<noteq> []"
      by (simp add: env c)
    show "replace_chunks (il_unicode (ie_lib demo_ingest_ok)) 5 [1] (build_retrieval_chunks (ie_lib demo_ingest_ok) (ie_sizes demo_ingest_ok) [1] 5
        (\<lambda>i. [i + 10]) ?bs) (snd (update_book_document_profile 5 [1] (build_book_document_profile (il_unicode (ie_lib demo_ingest_ok)) [97] ?bs)
        (tabs (iw_book (?w\<lparr>iw_book := b'\<rparr>))))) = (Inr (), ?t')"
      using r by (simp only: env book b'(3))
  qed
  then show ?thesis by (simp add: ingest_process_def load w')
qed

text \<open>The job is handed over, and the chunks are those of the blocks of the file.\<close>

theorem indexed_after_stored_witness:
  "let w' = snd (ingest_process demo_ingest_ok 5 [106] (\<lambda>i. [i + 10]) [1] 1 (demo_world [])) in
   iw_index_jobs w' = [([1], 1)] \<and>
   (\<exists>name blocks. file_blocks demo_ingest_ok [1] demo_tables name blocks \<and>
      build_retrieval_chunks demo_lib (ie_sizes demo_ingest) [1] 5 (\<lambda>i. [i + 10]) blocks \<noteq> [] \<and>
      fst (list_chunks_by_book [1] (tabs (iw_book w'))) =
      Inr (build_retrieval_chunks demo_lib (ie_sizes demo_ingest) [1] 5 (\<lambda>i. [i + 10]) blocks))"
proof -
  obtain res w' where r: "ingest_process demo_ingest_ok 5 [106] (\<lambda>i. [i + 10]) [1] 1 (demo_world []) = (res, w')"
    by (metis surj_pair)
  have env: "ie_lib demo_ingest_ok = demo_lib" "ie_sizes demo_ingest_ok = ie_sizes demo_ingest"
    by (simp_all add: demo_ingest_ok_def demo_ingest_def)
  have j: "iw_index_jobs w' = [([1], 1)]" using demo_job r by simp
  from indexed_after_stored [OF demo_plain_id r] show ?thesis
    unfolding env demo_world_tabs r snd_conv Let_def j by simp
qed

end
