(* ===== verification/UserStore.thy ===== *)
theory UserStore
  imports BookFacts
begin

text \<open>
  The tables of users, identities, profiles and audit entries, and the operations of \<open>GormStore\<close> on them
  (\<open>backend/pkg/store/gorm_store.go\<close>, \<open>models.go\<close>, \<open>backend/pkg/domain/types.go\<close>).  The tables of the books are
  in the same database (\<open>BookStore\<close>); deleting a user reaches into them.  Two partial indexes make identities
  unique: \<open>(type, identifier)\<close> for e-mail addresses and phone numbers, \<open>(provider, identifier)\<close> for OAuth.
\<close>

section \<open>Rows\<close>

datatype user_role = RoleUser | RoleAdmin
datatype user_status = UserActive | UserDisabled
datatype identity_type = IdentityEmail | IdentityPhone | IdentityOAuth

text \<open>\<open>domain.User\<close>; the name, the avatar and the logins come from the profile and are not columns.\<close>

record user =
  us_id :: gostr
  us_email :: gostr
  us_password_hash :: gostr
  us_role :: user_role
  us_status :: user_status
  us_created_at :: gotime
  us_updated_at :: gotime
  us_display_name :: gostr
  us_avatar_url :: gostr
  us_last_login_at :: "gotime option"
  us_login_count :: int

record user_identity =
  ui_id :: gostr
  ui_user_id :: gostr
  ui_type :: identity_type
  ui_provider :: gostr
  ui_identifier :: gostr
  ui_verified_at :: "gotime option"
  ui_primary :: bool
  ui_created_at :: gotime
  ui_updated_at :: gotime

record user_profile =
  up_user_id :: gostr
  up_display_name :: gostr
  up_avatar_url :: gostr
  up_avatar_storage_key :: gostr
  up_avatar_content_type :: gostr
  up_admin_note :: gostr
  up_last_login_at :: "gotime option"
  up_login_count :: int
  up_last_login_ip :: gostr
  up_last_login_user_agent :: gostr
  up_created_at :: gotime
  up_updated_at :: gotime

text \<open>The values before and after an audited action are JSON objects, kept as their text.\<close>

record audit_entry =
  ae_id :: gostr
  ae_actor_id :: gostr
  ae_action :: gostr
  ae_target_type :: gostr
  ae_target_id :: gostr
  ae_before :: gostr
  ae_after :: gostr
  ae_request_id :: gostr
  ae_ip :: gostr
  ae_user_agent :: gostr
  ae_created_at :: gotime

record user_tables =
  ut_users :: "user list"
  ut_identities :: "user_identity list"
  ut_profiles :: "user_profile list"
  ut_audit :: "audit_entry list"
  ut_books :: tables

type_synonym 'a user_op = "(user_tables, gostr, 'a) statement"

text \<open>\<open>userToModel\<close> and back: what the table keeps of a user.\<close>

definition user_row :: "user \<Rightarrow> user" where
  "user_row u = u\<lparr>us_display_name := [], us_avatar_url := [], us_last_login_at := None, us_login_count := 0\<rparr>"

definition identity_row :: "user_identity \<Rightarrow> user_identity" where
  "identity_row i = i\<lparr>ui_provider := trim_space (ui_provider i)\<rparr>"

definition profile_row :: "user_profile \<Rightarrow> user_profile" where
  "profile_row p =
     p\<lparr>up_display_name := trim_space (up_display_name p), up_avatar_url := trim_space (up_avatar_url p),
       up_avatar_storage_key := trim_space (up_avatar_storage_key p),
       up_avatar_content_type := trim_space (up_avatar_content_type p), up_admin_note := trim_space (up_admin_note p),
       up_last_login_ip := trim_space (up_last_login_ip p),
       up_last_login_user_agent := trim_space (up_last_login_user_agent p)\<rparr>"

definition audit_row :: "audit_entry \<Rightarrow> audit_entry" where
  "audit_row e =
     e\<lparr>ae_id := trim_space (ae_id e), ae_actor_id := trim_space (ae_actor_id e), ae_action := trim_space (ae_action e),
       ae_target_type := trim_space (ae_target_type e), ae_target_id := trim_space (ae_target_id e),
       ae_request_id := trim_space (ae_request_id e), ae_ip := trim_space (ae_ip e),
       ae_user_agent := trim_space (ae_user_agent e)\<rparr>"

section \<open>Text that PostgreSQL stores\<close>

text \<open>
  A Go string may hold bytes that are not UTF-8, for example the beginning of a rune.  Such a byte \<open>b\<close> is the number
  \<open>1114112 + b\<close> of a string here, above every code point.  PostgreSQL refuses text with such a byte, or with the
  rune 0.
\<close>

definition bad_byte :: "nat \<Rightarrow> rune" where
  "bad_byte b = 1114112 + b"

definition text_ok :: "gostr \<Rightarrow> bool" where
  "text_ok s \<longleftrightarrow> list_all (\<lambda>r. 0 < r \<and> r < 1114112) s"

definition profile_text_ok :: "user_profile \<Rightarrow> bool" where
  "profile_text_ok p \<longleftrightarrow>
     list_all text_ok [up_display_name p, up_avatar_url p, up_avatar_storage_key p, up_avatar_content_type p, up_admin_note p,
                       up_last_login_ip p, up_last_login_user_agent p]"

definition encoding_error :: "gostr db_error" where
  "encoding_error = AppError (lit ''invalid byte sequence for encoding'')"

section \<open>Users\<close>

text \<open>The columns an upsert of a user assigns: all but the ID and the creation time.\<close>

definition assign_user :: "user \<Rightarrow> user \<Rightarrow> user" where
  "assign_user old new = new\<lparr>us_id := us_id old, us_created_at := us_created_at old\<rparr>"

definition save_user :: "user \<Rightarrow> unit user_op" where
  "save_user u t = (Inr (), t\<lparr>ut_users := upsert us_id assign_user (user_row u) (ut_users t)\<rparr>)"

definition get_user_by_id :: "gostr \<Rightarrow> user option user_op" where
  "get_user_by_id uid t = (Inr (List.find (\<lambda>u. us_id u = uid) (ut_users t)), t)"

definition user_count :: "nat user_op" where
  "user_count t = (Inr (length (ut_users t)), t)"

definition list_users :: "user list user_op" where
  "list_users t = (Inr (sort_key us_created_at (ut_users t)), t)"

section \<open>Identities\<close>

text \<open>The row that an identity conflicts with, in the index of its kind.\<close>

definition identity_conflict :: "user_identity \<Rightarrow> user_identity \<Rightarrow> bool" where
  "identity_conflict i row \<longleftrightarrow>
     (if ui_type i = IdentityOAuth
      then ui_type row = IdentityOAuth \<and> ui_provider row = ui_provider i \<and> ui_identifier row = ui_identifier i
      else ui_type row = ui_type i \<and> ui_identifier row = ui_identifier i)"

text \<open>\<open>ON CONFLICT DO NOTHING\<close>, where no row is an error.\<close>

definition insert_identity :: "user_identity \<Rightarrow> user_identity list \<Rightarrow> gostr db_error + user_identity list" where
  "insert_identity i0 rows =
     (let i = identity_row i0 in
      if list_ex (identity_conflict i) rows then Inl (AppError (lit ''identity already exists''))
      else insert_rows ui_id [i] rows)"

text \<open>\<open>ON CONFLICT DO UPDATE\<close>: an existing row goes over to the user of the new one.\<close>

definition assign_identity :: "user_identity \<Rightarrow> user_identity \<Rightarrow> user_identity" where
  "assign_identity old new =
     old\<lparr>ui_user_id := ui_user_id new, ui_verified_at := ui_verified_at new, ui_primary := ui_primary new,
         ui_updated_at := ui_updated_at new\<rparr>"

definition save_user_identity :: "user_identity \<Rightarrow> unit user_op" where
  "save_user_identity i0 t =
     (let i = identity_row i0; rows = ut_identities t;
          new = (if ui_type i = IdentityOAuth then insert_identity i0 rows
                 else if list_ex (identity_conflict i) rows
                   then Inr (update_where (identity_conflict i) (\<lambda>r. assign_identity r i) rows)
                 else insert_rows ui_id [i] rows)
      in case new of Inl e \<Rightarrow> (Inl e, t) | Inr rows' \<Rightarrow> (Inr (), t\<lparr>ut_identities := rows'\<rparr>))"

fun insert_identities :: "user_identity list \<Rightarrow> user_identity list \<Rightarrow> gostr db_error + user_identity list" where
  "insert_identities [] rows = Inr rows"
| "insert_identities (i # is) rows =
     (case insert_identity i rows of Inl e \<Rightarrow> Inl e | Inr rows' \<Rightarrow> insert_identities is rows')"

definition save_user_with_identities :: "user \<Rightarrow> user_identity list \<Rightarrow> unit user_op" where
  "save_user_with_identities u is t =
     (let (r, t1) = save_user u t in
      case r of Inl e \<Rightarrow> (Inl e, t1)
      | Inr _ \<Rightarrow>
          (case insert_identities is (ut_identities t1) of
             Inl e \<Rightarrow> (Inl e, t1)
           | Inr rows \<Rightarrow> (Inr (), t1\<lparr>ut_identities := rows\<rparr>)))"

definition has_user_identity :: "identity_type \<Rightarrow> gostr \<Rightarrow> bool user_op" where
  "has_user_identity ty ident t =
     (Inr (list_ex (\<lambda>i. ui_type i = ty \<and> ui_identifier i = ident) (ut_identities t)), t)"

text \<open>The first user, by ID, with an identity that satisfies \<open>P\<close>.\<close>

definition user_with_identity :: "(user_identity \<Rightarrow> bool) \<Rightarrow> user_tables \<Rightarrow> user option" where
  "user_with_identity P t =
     (case sort_key us_id (filter (\<lambda>u. list_ex (\<lambda>i. ui_user_id i = us_id u \<and> P i) (ut_identities t)) (ut_users t)) of
        [] \<Rightarrow> None | u # _ \<Rightarrow> Some u)"

definition get_user_by_identity :: "identity_type \<Rightarrow> gostr \<Rightarrow> user option user_op" where
  "get_user_by_identity ty ident t =
     (Inr (user_with_identity (\<lambda>i. ui_type i = ty \<and> ui_identifier i = ident) t), t)"

definition get_user_by_provider_identity :: "gostr \<Rightarrow> gostr \<Rightarrow> user option user_op" where
  "get_user_by_provider_identity provider ident t =
     (Inr (user_with_identity (\<lambda>i. ui_type i = IdentityOAuth \<and> ui_provider i = trim_space provider \<and> ui_identifier i = ident) t), t)"

text \<open>The IDs asked for, trimmed, without blanks and repetitions.\<close>

definition clean_ids :: "gostr list \<Rightarrow> gostr list" where
  "clean_ids ids = uniq_loop {} ids"

definition list_user_identities :: "gostr list \<Rightarrow> (gostr \<rightharpoonup> user_identity list) user_op" where
  "list_user_identities ids t =
     (let rows = sort_key (\<lambda>i. (\<not> ui_primary i, ui_created_at i)) (ut_identities t) in
      (Inr (\<lambda>uid. if uid \<in> set (clean_ids ids) then Some (filter (\<lambda>i. ui_user_id i = uid) rows) else None), t))"

definition delete_user_identity :: "gostr \<Rightarrow> identity_type \<Rightarrow> unit user_op" where
  "delete_user_identity uid ty t =
     (Inr (), t\<lparr>ut_identities := filter (\<lambda>i. \<not> (ui_user_id i = trim_space uid \<and> ui_type i = ty)) (ut_identities t)\<rparr>)"

section \<open>Profiles\<close>

definition assign_profile :: "user_profile \<Rightarrow> user_profile \<Rightarrow> user_profile" where
  "assign_profile old new = new\<lparr>up_user_id := up_user_id old, up_created_at := up_created_at old\<rparr>"

definition save_user_profile :: "user_profile \<Rightarrow> unit user_op" where
  "save_user_profile p t =
     (if \<not> profile_text_ok (profile_row p) then (Inl encoding_error, t)
      else (Inr (), t\<lparr>ut_profiles := upsert up_user_id assign_profile (profile_row p) (ut_profiles t)\<rparr>))"

definition get_user_profile :: "gostr \<Rightarrow> user_profile option user_op" where
  "get_user_profile uid t = (Inr (List.find (\<lambda>p. up_user_id p = trim_space uid) (ut_profiles t)), t)"

definition list_user_profiles :: "gostr list \<Rightarrow> (gostr \<rightharpoonup> user_profile) user_op" where
  "list_user_profiles ids t =
     (Inr (\<lambda>uid. if uid \<in> set (clean_ids ids) then List.find (\<lambda>p. up_user_id p = uid) (ut_profiles t) else None), t)"

definition new_profile :: "gostr \<Rightarrow> gotime \<Rightarrow> user_profile" where
  "new_profile uid now =
     \<lparr>up_user_id = uid, up_display_name = [], up_avatar_url = [], up_avatar_storage_key = [], up_avatar_content_type = [],
      up_admin_note = [], up_last_login_at = None, up_login_count = 0, up_last_login_ip = [], up_last_login_user_agent = [],
      up_created_at = now, up_updated_at = now\<rparr>"

definition count_login :: "user_profile \<Rightarrow> user_profile \<Rightarrow> user_profile" where
  "count_login old new =
     old\<lparr>up_last_login_at := up_last_login_at new, up_login_count := up_login_count old + 1,
         up_last_login_ip := up_last_login_ip new, up_last_login_user_agent := up_last_login_user_agent new,
         up_updated_at := up_updated_at new\<rparr>"

definition update_user_login_activity :: "gostr \<Rightarrow> gostr \<Rightarrow> gostr \<Rightarrow> gotime \<Rightarrow> unit user_op" where
  "update_user_login_activity uid0 ip agent at_time t =
     (let uid = trim_space uid0;
          p = (new_profile uid at_time)\<lparr>up_last_login_at := Some at_time, up_login_count := 1, up_last_login_ip := trim_space ip,
                 up_last_login_user_agent := trim_space agent\<rparr>
      in if uid = [] then (Inr (), t)
         else if \<not> profile_text_ok p then (Inl encoding_error, t)
         else (Inr (), t\<lparr>ut_profiles := upsert up_user_id count_login p (ut_profiles t)\<rparr>))"

section \<open>Deletion, lists and audit\<close>

definition delete_user :: "gostr \<Rightarrow> unit user_op" where
  "delete_user uid0 t =
     (let uid = trim_space uid0 in
      if uid = [] then (Inr (), t)
      else (Inr (),
        t\<lparr>ut_identities := filter (\<lambda>i. ui_user_id i \<noteq> uid) (ut_identities t),
          ut_profiles := filter (\<lambda>p. up_user_id p \<noteq> uid) (ut_profiles t),
          ut_books := delete_conversations (\<lambda>r. co_user_id (cr_conversation r) = uid)
            (delete_messages (\<lambda>m. me_user_id (mr_message m) = uid) (ut_books t)),
          ut_users := filter (\<lambda>u. us_id u \<noteq> uid) (ut_users t)\<rparr>))"

record user_list_options =
  ul_query :: gostr
  ul_role :: gostr
  ul_status :: gostr
  ul_sort_by :: gostr
  ul_sort_order :: gostr
  ul_page :: int
  ul_page_size :: int

definition role_text :: "user_role \<Rightarrow> gostr" where
  "role_text r = lit (case r of RoleUser \<Rightarrow> ''user'' | RoleAdmin \<Rightarrow> ''admin'')"

definition user_status_text :: "user_status \<Rightarrow> gostr" where
  "user_status_text s = lit (case s of UserActive \<Rightarrow> ''active'' | UserDisabled \<Rightarrow> ''disabled'')"

definition user_sort_column :: "(rune \<Rightarrow> rune) \<Rightarrow> gostr \<Rightarrow> gostr" where
  "user_sort_column lw value =
     (let v = to_lower lw (trim_space value) in
      if v = lit ''email'' then lit ''email''
      else if v = lit ''updatedat'' \<or> v = lit ''updated_at'' then lit ''updated_at''
      else lit ''created_at'')"

definition order_users :: "(rune \<Rightarrow> rune) \<Rightarrow> gostr \<Rightarrow> gostr \<Rightarrow> user list \<Rightarrow> user list" where
  "order_users lw sort_by dir rows =
     (let col = user_sort_column lw sort_by;
          up = (if col = lit ''email'' then sort_key us_email rows
                else if col = lit ''updated_at'' then sort_key us_updated_at rows
                else sort_key us_created_at rows)
      in if sort_descending lw dir then rev up else up)"

definition user_matches :: "(rune \<Rightarrow> rune) \<Rightarrow> user_list_options \<Rightarrow> user_tables \<Rightarrow> user \<Rightarrow> bool" where
  "user_matches lw opts t u \<longleftrightarrow>
     (let q = trim_space (ul_query opts); pat = [37] @ to_lower lw q @ [37] in
      q = [] \<or> like pat (to_lower lw (us_email u)) \<or> like pat (to_lower lw (us_id u)) \<or>
      list_ex (\<lambda>i. ui_user_id i = us_id u \<and> like pat (to_lower lw (ui_identifier i))) (ut_identities t) \<or>
      list_ex (\<lambda>p. up_user_id p = us_id u \<and> like pat (to_lower lw (up_display_name p))) (ut_profiles t)) \<and>
     (let v = trim_space (to_lower lw (ul_role opts)) in v = [] \<or> role_text (us_role u) = v) \<and>
     (let v = trim_space (to_lower lw (ul_status opts)) in v = [] \<or> user_status_text (us_status u) = v)"

definition shown_page :: "int \<Rightarrow> int \<Rightarrow> 'a list \<Rightarrow> 'a list" where
  "shown_page page0 size0 xs =
     (let (page, size) = normalize_page page0 size0 in take (nat size) (drop (nat ((page - 1) * size)) xs))"

definition list_users_with_options :: "(rune \<Rightarrow> rune) \<Rightarrow> user_list_options \<Rightarrow> (user list \<times> nat) user_op" where
  "list_users_with_options lw opts t =
     (let found = filter (user_matches lw opts t) (ut_users t) in
      (Inr (shown_page (ul_page opts) (ul_page_size opts) (order_users lw (ul_sort_by opts) (ul_sort_order opts) found),
            length found), t))"

definition insert_audit_entry :: "audit_entry \<Rightarrow> unit user_op" where
  "insert_audit_entry e t =
     (case insert_rows ae_id [audit_row e] (ut_audit t) of
        Inl er \<Rightarrow> (Inl er, t) | Inr rows \<Rightarrow> (Inr (), t\<lparr>ut_audit := rows\<rparr>))"

record audit_list_options =
  al_actor_id :: gostr
  al_action :: gostr
  al_target_type :: gostr
  al_target_id :: gostr
  al_from :: gotime
  al_until :: gotime
  al_page :: int
  al_page_size :: int

definition audit_matches :: "audit_list_options \<Rightarrow> audit_entry \<Rightarrow> bool" where
  "audit_matches opts e \<longleftrightarrow>
     (let v = trim_space (al_actor_id opts) in v = [] \<or> ae_actor_id e = v) \<and>
     (let v = trim_space (al_action opts) in v = [] \<or> ae_action e = v) \<and>
     (let v = trim_space (al_target_type opts) in v = [] \<or> ae_target_type e = v) \<and>
     (let v = trim_space (al_target_id opts) in v = [] \<or> ae_target_id e = v) \<and>
     (is_zero (al_from opts) \<or> al_from opts \<le> ae_created_at e) \<and>
     (is_zero (al_until opts) \<or> ae_created_at e \<le> al_until opts)"

definition list_admin_audit_logs :: "audit_list_options \<Rightarrow> (audit_entry list \<times> nat) user_op" where
  "list_admin_audit_logs opts t =
     (let found = filter (audit_matches opts) (ut_audit t) in
      (Inr (shown_page (al_page opts) (al_page_size opts) (rev (sort_key ae_created_at found)), length found), t))"

section \<open>Migration\<close>

text \<open>
  \<open>backfillUserEmailIdentities\<close>, which runs whenever a service opens the store: every user with a non-empty e-mail
  column gets an e-mail identity with it, unless the identity exists.  \<open>md5\<close> is the hash function and \<open>lw\<close>
  the \<open>lower\<close> of the database.
\<close>

definition sql_trim :: "gostr \<Rightarrow> gostr" where
  "sql_trim s = rev (dropWhile (\<lambda>r. r = 32) (rev (dropWhile (\<lambda>r. r = 32) s)))"

definition backfill_identity :: "(gostr \<Rightarrow> gostr) \<Rightarrow> (rune \<Rightarrow> rune) \<Rightarrow> gotime \<Rightarrow> user \<Rightarrow> user_identity" where
  "backfill_identity md5 lw now u =
     (let email = to_lower lw (sql_trim (us_email u));
          stamp = (\<lambda>x. if is_zero x then now else x)
      in \<lparr>ui_id = lit ''id_'' @ md5 (us_id u @ lit '':email:'' @ email), ui_user_id = us_id u, ui_type = IdentityEmail,
          ui_provider = [], ui_identifier = email, ui_verified_at = Some (stamp (us_updated_at u)), ui_primary = True,
          ui_created_at = stamp (us_created_at u), ui_updated_at = stamp (us_updated_at u)\<rparr>)"

fun backfill_rows :: "user_identity list \<Rightarrow> user_identity list \<Rightarrow> gostr db_error + user_identity list" where
  "backfill_rows [] rows = Inr rows"
| "backfill_rows (i # is) rows =
     (if list_ex (identity_conflict i) rows then backfill_rows is rows
      else case insert_rows ui_id [i] rows of Inl e \<Rightarrow> Inl e | Inr rows' \<Rightarrow> backfill_rows is rows')"

definition backfill_user_email_identities :: "(gostr \<Rightarrow> gostr) \<Rightarrow> (rune \<Rightarrow> rune) \<Rightarrow> gotime \<Rightarrow> unit user_op" where
  "backfill_user_email_identities md5 lw now t =
     (case backfill_rows (map (backfill_identity md5 lw now) (filter (\<lambda>u. sql_trim (us_email u) \<noteq> []) (ut_users t))) (ut_identities t) of
        Inl e \<Rightarrow> (Inl e, t)
      | Inr rows \<Rightarrow> (Inr (), t\<lparr>ut_identities := rows\<rparr>))"

end
