(* ===== verification/UserFacts.thy ===== *)
theory UserFacts
  imports UserStore
begin

text \<open>
  The user tables stay well formed: primary keys and identities are unique, and the tables of the books keep their
  invariant.  Every statement on its own, and what each one leaves alone.
\<close>

definition identity_key :: "user_identity \<Rightarrow> identity_type \<times> gostr \<times> gostr" where
  "identity_key i = (ui_type i, if ui_type i = IdentityOAuth then ui_provider i else [], ui_identifier i)"

lemma conflict_key: "identity_conflict i row \<longleftrightarrow> identity_key i = identity_key row"
  by (auto simp: identity_conflict_def identity_key_def)

definition users_ok :: "user_tables \<Rightarrow> bool" where
  "users_ok t \<longleftrightarrow>
     distinct (map us_id (ut_users t)) \<and> distinct (map ui_id (ut_identities t)) \<and>
     distinct (map identity_key (ut_identities t)) \<and> distinct (map up_user_id (ut_profiles t)) \<and>
     distinct (map ae_id (ut_audit t)) \<and> tables_ok (ut_books t)"

lemma save_user_ok:
  assumes "users_ok t" "save_user u t = (Inr x, t')"
  shows "users_ok t'"
proof -
  have "distinct (map us_id (upsert us_id assign_user (user_row u) (ut_users t)))"
    using assms(1) by (intro upsert_distinct) (auto simp: users_ok_def assign_user_def)
  then show ?thesis using assms by (auto simp: save_user_def users_ok_def)
qed

lemma insert_identity_ok:
  assumes "insert_identity i rows = Inr rows'" "distinct (map ui_id rows)" "distinct (map identity_key rows)"
  shows "distinct (map ui_id rows') \<and> distinct (map identity_key rows')"
  using assms by (auto simp: insert_identity_def insert_rows_def conflict_key list_ex_iff Let_def image_iff split: if_splits)

lemma insert_identities_ok:
  assumes "insert_identities is rows = Inr rows'" "distinct (map ui_id rows)" "distinct (map identity_key rows)"
  shows "distinct (map ui_id rows') \<and> distinct (map identity_key rows')"
  using assms
proof (induction "is" arbitrary: rows)
  case (Cons i "is")
  then show ?case using insert_identity_ok [of i rows] by (auto split: sum.splits)
qed simp

lemma save_user_with_identities_ok:
  assumes "users_ok t" "save_user_with_identities u is t = (Inr x, t')"
  shows "users_ok t'"
proof -
  obtain r t1 where r: "save_user u t = (r, t1)" by (metis surj_pair)
  have ok1: "users_ok t1" using save_user_ok [OF assms(1)] r by (auto simp: save_user_def)
  obtain rows where rows: "insert_identities is (ut_identities t1) = Inr rows" "t' = t1\<lparr>ut_identities := rows\<rparr>"
    using assms(2) r by (auto simp: save_user_with_identities_def Let_def split: sum.splits)
  show ?thesis using insert_identities_ok [OF rows(1)] ok1 rows(2) by (auto simp: users_ok_def)
qed

lemma save_user_identity_ok:
  assumes "users_ok t" "save_user_identity i t = (Inr x, t')"
  shows "users_ok t'"
proof -
  let ?rows = "ut_identities t"
  have d: "distinct (map ui_id ?rows)" "distinct (map identity_key ?rows)" using assms(1) by (auto simp: users_ok_def)
  have same: "map ui_id (update_where P (\<lambda>r. assign_identity r j) ?rows) = map ui_id ?rows"
    "map identity_key (update_where P (\<lambda>r. assign_identity r j) ?rows) = map identity_key ?rows" for P j
    by (auto simp: update_where_def assign_identity_def identity_key_def)
  obtain rows' where t': "t' = t\<lparr>ut_identities := rows'\<rparr>"
    and "insert_identity i ?rows = Inr rows' \<or> (\<exists>P j. rows' = update_where P (\<lambda>r. assign_identity r j) ?rows) \<or>
      \<not> list_ex (identity_conflict (identity_row i)) ?rows \<and> insert_rows ui_id [identity_row i] ?rows = Inr rows'"
    using assms(2) by (auto simp: save_user_identity_def Let_def split: sum.splits if_splits)
  then have "distinct (map ui_id rows') \<and> distinct (map identity_key rows')"
  proof (elim disjE exE)
    assume "insert_identity i ?rows = Inr rows'"
    then show ?thesis using d by (rule insert_identity_ok)
  next
    fix P j assume "rows' = update_where P (\<lambda>r. assign_identity r j) ?rows"
    then show ?thesis using d same by simp
  next
    assume "\<not> list_ex (identity_conflict (identity_row i)) ?rows \<and> insert_rows ui_id [identity_row i] ?rows = Inr rows'"
    then have "insert_identity i ?rows = Inr rows'" by (simp add: insert_identity_def Let_def)
    then show ?thesis using d by (rule insert_identity_ok)
  qed
  then show ?thesis using assms(1) t' by (auto simp: users_ok_def)
qed

lemma upsert_profile_ok:
  assumes "users_ok t" "\<And>r new. up_user_id (f r new) = up_user_id r"
  shows "users_ok (t\<lparr>ut_profiles := upsert up_user_id f p (ut_profiles t)\<rparr>)"
  using upsert_distinct [of up_user_id f p "ut_profiles t"] assms by (auto simp: users_ok_def)

lemma save_user_profile_ok: "users_ok t \<Longrightarrow> save_user_profile p t = (Inr x, t') \<Longrightarrow> users_ok t'"
  using upsert_profile_ok [of t assign_profile "profile_row p"] by (auto simp: save_user_profile_def assign_profile_def split: if_splits)

lemma update_user_login_activity_ok:
  "users_ok t \<Longrightarrow> update_user_login_activity uid ip agent at_time t = (Inr x, t') \<Longrightarrow> users_ok t'"
  using upsert_profile_ok [of t count_login] by (auto simp: update_user_login_activity_def count_login_def Let_def split: if_splits)

lemma delete_user_identity_ok: "users_ok t \<Longrightarrow> delete_user_identity uid ty t = (Inr x, t') \<Longrightarrow> users_ok t'"
  by (auto simp: delete_user_identity_def users_ok_def distinct_map_filter_key)

lemma delete_user_ok: "users_ok t \<Longrightarrow> delete_user uid t = (Inr x, t') \<Longrightarrow> users_ok t'"
  by (auto simp: delete_user_def users_ok_def distinct_map_filter_key delete_conversations_ok delete_messages_ok Let_def split: if_splits)

lemma insert_audit_entry_ok: "users_ok t \<Longrightarrow> insert_audit_entry e t = (Inr x, t') \<Longrightarrow> users_ok t'"
  by (auto simp: insert_audit_entry_def users_ok_def insert_rows_def split: if_splits)

lemma backfill_rows_ok:
  "backfill_rows is rows = Inr rows' \<Longrightarrow> distinct (map ui_id rows) \<Longrightarrow> distinct (map identity_key rows) \<Longrightarrow>
   distinct (map ui_id rows') \<and> distinct (map identity_key rows')"
proof (induction "is" arbitrary: rows)
  case (Cons i "is")
  show ?case
  proof (cases "list_ex (identity_conflict i) rows")
    case False
    obtain rows1 where r: "insert_rows ui_id [i] rows = Inr rows1" "backfill_rows is rows1 = Inr rows'"
      using Cons.prems(1) False by (auto split: sum.splits)
    have "distinct (map ui_id rows1) \<and> distinct (map identity_key rows1)"
      using r(1) False Cons.prems(2,3) by (auto simp: insert_rows_def conflict_key list_ex_iff image_iff split: if_splits)
    then show ?thesis using Cons.IH [OF r(2)] by blast
  qed (use Cons in simp)
qed simp

lemma backfill_ok: "users_ok t \<Longrightarrow> backfill_user_email_identities md5 lw now t = (Inr x, t') \<Longrightarrow> users_ok t'"
  using backfill_rows_ok [of _ "ut_identities t"]
  by (auto simp: backfill_user_email_identities_def users_ok_def split: sum.splits)

lemmas user_ops_ok =
  save_user_ok save_user_with_identities_ok save_user_identity_ok save_user_profile_ok update_user_login_activity_ok
  delete_user_identity_ok delete_user_ok insert_audit_entry_ok backfill_ok

text \<open>Queries.\<close>

lemmas user_queries =
  get_user_by_id_def user_count_def list_users_def has_user_identity_def get_user_by_identity_def
  get_user_by_provider_identity_def list_user_identities_def get_user_profile_def list_user_profiles_def
  list_users_with_options_def list_admin_audit_logs_def

lemma user_with_identity_found:
  assumes "user_with_identity P t = Some u"
  shows "u \<in> set (ut_users t)" "\<exists>i\<in>set (ut_identities t). ui_user_id i = us_id u \<and> P i"
proof -
  let ?found = "filter (\<lambda>u. list_ex (\<lambda>i. ui_user_id i = us_id u \<and> P i) (ut_identities t)) (ut_users t)"
  have "u \<in> set (sort_key us_id ?found)"
    using assms by (cases "sort_key us_id ?found") (auto simp: user_with_identity_def)
  then show "u \<in> set (ut_users t)" "\<exists>i\<in>set (ut_identities t). ui_user_id i = us_id u \<and> P i"
    by (auto simp: list_ex_iff)
qed

lemma filter_single: "distinct xs \<Longrightarrow> u \<in> set xs \<Longrightarrow> (\<And>v. v \<in> set xs \<Longrightarrow> P v \<longleftrightarrow> v = u) \<Longrightarrow> filter P xs = [u]"
proof (induction xs)
  case (Cons x xs)
  show ?case
  proof (cases "x = u")
    case True
    then have "filter P xs = []" using Cons.prems by (auto simp: filter_empty_conv)
    then show ?thesis using True Cons.prems by simp
  next
    case False
    then show ?thesis using Cons by auto
  qed
qed simp

text \<open>With unique users and identities there is at most one candidate.\<close>

lemma user_with_identity_unique:
  assumes "users_ok t" "i \<in> set (ut_identities t)" "P i" "\<And>j. j \<in> set (ut_identities t) \<Longrightarrow> P j \<Longrightarrow> identity_key j = identity_key i"
    and "u \<in> set (ut_users t)" "us_id u = ui_user_id i"
  shows "user_with_identity P t = Some u"
proof -
  have k: "inj_on identity_key (set (ut_identities t))" "inj_on us_id (set (ut_users t))"
    using assms(1) by (simp_all add: users_ok_def distinct_map)
  have inj: "j = i" if "j \<in> set (ut_identities t)" "P j" for j
    by (rule inj_onD [OF k(1) assms(4) [OF that] that(1) assms(2)])
  let ?c = "\<lambda>u. list_ex (\<lambda>i. ui_user_id i = us_id u \<and> P i) (ut_identities t)"
  have only: "?c v \<longleftrightarrow> v = u" if "v \<in> set (ut_users t)" for v
  proof -
    have "?c v \<longleftrightarrow> ui_user_id i = us_id v" unfolding list_ex_iff using assms(2,3) inj by blast
    then show ?thesis using inj_onD [OF k(2) _ that assms(5)] assms(6) by metis
  qed
  have "distinct (ut_users t)" using assms(1) by (auto simp: users_ok_def distinct_map)
  then have "filter ?c (ut_users t) = [u]" using assms(5) only by (rule filter_single)
  then show ?thesis by (simp add: user_with_identity_def)
qed

end
