(* ===== verification/AuthApp.thy ===== *)
theory AuthApp
  imports Steps UserStore Sessions RefreshTokens RedisRefresh BookApp
begin

text \<open>
  The auth service (\<open>backend/services/auth/internal/app/app.go\<close>): sign-up, login by password, by verified identity
  and by OAuth, refresh, logout, password changes, profiles, avatars and the administration of users.  It is written
  over the user tables (\<open>UserStore\<close>), a session store and a refresh token store; the stores are records of
  operations, and the instances are those of \<open>Sessions\<close>, \<open>RefreshTokens\<close> and \<open>RedisRefresh\<close>.  Inputs are the outcome
  of each database call and of each call of the object store, the clock (one reading per operation), random IDs and
  tokens, the password hash (bcrypt) and \<open>mail.ParseAddress\<close>.
\<close>

section \<open>Stores\<close>

text \<open>The revocation of a user's sessions and refresh tokens are optional interfaces.\<close>

record 's session_ops =
  sx_new :: "gotime \<Rightarrow> gostr \<Rightarrow> gostr \<Rightarrow> session_err + gostr"            \<comment> \<open>random ID, user\<close>
  sx_user :: "gotime \<Rightarrow> gostr \<Rightarrow> 's \<Rightarrow> (session_err + gostr) \<times> 's"
  sx_delete :: "gotime \<Rightarrow> gostr \<Rightarrow> 's \<Rightarrow> session_err option \<times> 's"
  sx_revoke_user :: "(gotime \<Rightarrow> gostr \<Rightarrow> gotime \<Rightarrow> 's \<Rightarrow> session_err option \<times> 's) option"

datatype refresh_fail = RefreshInvalid | RefreshReplay | RefreshOther gostr

record 'r refresh_ops =
  rx_new :: "gostr option \<Rightarrow> gostr option \<Rightarrow> gotime \<Rightarrow> gostr \<Rightarrow> duration \<Rightarrow> 'r \<Rightarrow> (refresh_fail + gostr) \<times> 'r"
  rx_rotate :: "gostr option \<Rightarrow> gotime \<Rightarrow> duration \<Rightarrow> gostr \<Rightarrow> 'r \<Rightarrow> (refresh_fail + gostr \<times> gostr) \<times> 'r"
  rx_delete :: "gotime \<Rightarrow> gostr \<Rightarrow> 'r \<Rightarrow> refresh_fail option \<times> 'r"
  rx_revoke_user :: "(gotime \<Rightarrow> gostr \<Rightarrow> 'r \<Rightarrow> refresh_fail option \<times> 'r) option"

definition jwt_session_ops ::
  "'k jwt_parse \<Rightarrow> 'p jwt_sign \<Rightarrow> (gotime \<Rightarrow> gotime) \<Rightarrow> ('k, 'p, 's) jwt_store \<Rightarrow> 's session_ops" where
  "jwt_session_ops jparse jsign ndate st =
     \<lparr>sx_new = new_session ndate jsign st, sx_user = get_user_id_by_token jparse st, sx_delete = delete_session jparse st,
      sx_revoke_user = Some (revoke_user_sessions st)\<rparr>"

fun mem_refresh_fail :: "refresh_err \<Rightarrow> refresh_fail" where
  "mem_refresh_fail ErrInvalidRefreshToken = RefreshInvalid"
| "mem_refresh_fail ErrRefreshTokenReplay = RefreshReplay"
| "mem_refresh_fail ErrRandom = RefreshOther (lit ''random'')"

text \<open>\<open>order\<close> is the order in which the runtime yields the elements of a set.\<close>

definition mem_refresh_ops :: "(gostr \<Rightarrow> gostr) \<Rightarrow> (gostr set \<Rightarrow> gostr list) \<Rightarrow> mem_refresh refresh_ops" where
  "mem_refresh_ops H order =
     \<lparr>rx_new = (\<lambda>rt rf now user ttl s. case mem_new_token H rt rf now user ttl s of
                  (Inl e, s') \<Rightarrow> (Inl (mem_refresh_fail e), s') | (Inr tok, s') \<Rightarrow> (Inr tok, s')),
      rx_rotate = (\<lambda>rt now ttl tok s. case mem_rotate H rt now ttl tok s of
                  (Inl e, s') \<Rightarrow> (Inl (mem_refresh_fail e), s') | (Inr x, s') \<Rightarrow> (Inr x, s')),
      rx_delete = (\<lambda>now tok s. (None, mem_delete_token H tok s)),
      rx_revoke_user = Some (\<lambda>now user s. (None, mem_revoke_user (order (user_family_ids s user)) s))\<rparr>"

fun redis_refresh_fail :: "(redis_refresh_err \<Rightarrow> gostr) \<Rightarrow> redis_refresh_err \<Rightarrow> refresh_fail" where
  "redis_refresh_fail f RrInvalid = RefreshInvalid"
| "redis_refresh_fail f RrReplay = RefreshReplay"
| "redis_refresh_fail f e = RefreshOther (f e)"

text \<open>Every try of a rotation uses the same random value here; \<open>tries\<close> bounds them.\<close>

definition redis_refresh_ops :: "'w redis \<Rightarrow> (gostr \<Rightarrow> gostr) \<Rightarrow> (redis_refresh_err \<Rightarrow> gostr) \<Rightarrow> nat \<Rightarrow> 'w refresh_ops" where
  "redis_refresh_ops rdo H f tries =
     \<lparr>rx_new = (\<lambda>rt rf now user ttl s. case redis_new_token rdo H rt rf now user ttl s of
                  (Inl e, s') \<Rightarrow> (Inl (redis_refresh_fail f e), s') | (Inr tok, s') \<Rightarrow> (Inr tok, s')),
      rx_rotate = (\<lambda>rt now ttl tok s. case redis_rotate rdo H (\<lambda>_. rt) now ttl tok tries s of
                  (Inl e, s') \<Rightarrow> (Inl (redis_refresh_fail f e), s') | (Inr x, s') \<Rightarrow> (Inr x, s')),
      rx_delete = (\<lambda>now tok s. case redis_delete_token rdo H now tok s of (e, s') \<Rightarrow> (map_option (redis_refresh_fail f) e, s')),
      rx_revoke_user = Some (\<lambda>now user s. case redis_revoke_user rdo now user s of (e, s') \<Rightarrow> (map_option (redis_refresh_fail f) e, s'))\<rparr>"

section \<open>State, configuration, errors\<close>

text \<open>Avatars are in an object store; \<open>aa_objects\<close> maps keys to the content and its type.\<close>

record ('s, 'r) auth_app =
  aa_db :: "user_tables db"
  aa_sessions :: 's
  aa_refresh :: 'r
  aa_objects :: "gostr \<rightharpoonup> nat list \<times> gostr"
  aa_object_calls :: "call_outcome list"

record ('s, 'r) auth_config =
  ac_lower :: "rune \<Rightarrow> rune"
  ac_is_upper :: "rune \<Rightarrow> bool"
  ac_is_lower :: "rune \<Rightarrow> bool"
  ac_is_digit :: "rune \<Rightarrow> bool"
  ac_is_special :: "rune \<Rightarrow> bool"                         \<comment> \<open>punctuation or symbol\<close>
  ac_hash_password :: "gostr \<Rightarrow> gostr + gostr"
  ac_check_password :: "gostr \<Rightarrow> gostr \<Rightarrow> bool"           \<comment> \<open>password, hash\<close>
  ac_parse_address :: "gostr \<Rightarrow> gostr option"
  ac_db_text :: "gostr db_error \<Rightarrow> gostr"
  ac_session_text :: "session_err \<Rightarrow> gostr"
  ac_refresh_text :: "refresh_fail \<Rightarrow> gostr"
  ac_detect :: "nat list \<Rightarrow> gostr"                        \<comment> \<open>\<open>http.DetectContentType\<close>\<close>
  ac_missing_object :: gostr                              \<comment> \<open>the error of the object store for an unknown key\<close>
  ac_sessions :: "'s session_ops"
  ac_refresh :: "'r refresh_ops"
  ac_refresh_ttl :: duration
  ac_avatars :: bool                                      \<comment> \<open>whether the object store is configured\<close>

text \<open>What an operation draws from the clock and the random source; an operation that needs several IDs takes them from different positions.\<close>

record auth_draws =
  ad_now :: gotime
  ad_ids :: "nat \<Rightarrow> gostr"
  ad_jti :: gostr
  ad_token :: "gostr option"
  ad_family :: "gostr option"

datatype auth_err =
    InvalidCredentials | UserIsDisabled | EmailAndPasswordRequired | EmailAlreadyExists | AuthIdentifierRequired
  | IdentifierAlreadyExists | UnsupportedIdentityType | RefreshTokenRequired | InvalidRefresh | EmailRequired
  | PasswordNotSet | CurrentPasswordRequired | NewPasswordRequired | NewPasswordMustDiffer
  | AuthText gostr                                        \<comment> \<open>other errors, by their text\<close>

type_synonym ('s, 'r, 'a) auth_op = "('s, 'r) auth_app \<Rightarrow> (auth_err + 'a) \<times> ('s, 'r) auth_app"

text \<open>A call of the database; the text of an error gets the words of \<open>fmt.Errorf\<close>.\<close>

definition users_call :: "'a user_op \<Rightarrow> ('s, 'r) auth_app \<Rightarrow> (gostr db_error + 'a) \<times> ('s, 'r) auth_app" where
  "users_call f w = (let (r, d) = db_call f (aa_db w) in (r, w\<lparr>aa_db := d\<rparr>))"

fun users_error :: "('s, 'r) auth_config \<Rightarrow> gostr db_error \<Rightarrow> gostr" where
  "users_error c (AppError s) = s"
| "users_error c e = ac_db_text c e"

definition users_or :: "('s, 'r) auth_config \<Rightarrow> string \<Rightarrow> 'a user_op \<Rightarrow> ('s, 'r, 'a) auth_op" where
  "users_or c what f w =
     (case users_call f w of
        (Inl e, w1) \<Rightarrow> (Inl (AuthText (lit what @ users_error c e)), w1)
      | (Inr x, w1) \<Rightarrow> (Inr x, w1))"

text \<open>\<open>strings.Contains\<close>.\<close>

definition says_exists :: "auth_err \<Rightarrow> bool" where
  "says_exists e = (case e of AuthText s \<Rightarrow> str_contains s (lit ''identity already exists'') | _ \<Rightarrow> False)"

section \<open>Validation and normalisation\<close>

definition validate_password :: "('s, 'r) auth_config \<Rightarrow> gostr \<Rightarrow> gostr option" where
  "validate_password c pw =
     (let cls = (\<lambda>r. if ac_is_upper c r then 0 else if ac_is_lower c r then 1 else if ac_is_digit c r then 2
                     else if ac_is_special c r then 3 else 4 :: nat)
      in if go_len pw < 12 then Some (lit ''password must be at least 12 characters'')
         else if 128 < go_len pw then Some (lit ''password must be at most 128 characters'')
         else if list_all (\<lambda>k. list_ex (\<lambda>r. cls r = k) pw) [0, 1, 2, 3] then None
         else Some (lit ''password must include upper, lower, digit, and special character''))"

definition check_new_password :: "('s, 'r) auth_config \<Rightarrow> gostr \<Rightarrow> ('s, 'r, unit) auth_op" where
  "check_new_password c pw = (case validate_password c pw of None \<Rightarrow> done_with () | Some e \<Rightarrow> fail_with (AuthText e))"

definition hash_or_fail :: "('s, 'r) auth_config \<Rightarrow> gostr \<Rightarrow> ('s, 'r, gostr) auth_op" where
  "hash_or_fail c pw =
     (case ac_hash_password c pw of Inl e \<Rightarrow> fail_with (AuthText (lit ''hash password: '' @ e)) | Inr h \<Rightarrow> done_with h)"

definition is_supported_identity_type :: "identity_type \<Rightarrow> bool" where
  "is_supported_identity_type ty \<longleftrightarrow> ty = IdentityEmail \<or> ty = IdentityPhone"

definition has_password :: "gostr \<Rightarrow> bool" where
  "has_password h \<longleftrightarrow> trim_space h \<noteq> []"

definition lower_email :: "('s, 'r) auth_config \<Rightarrow> gostr \<Rightarrow> gostr" where
  "lower_email c email = trim_space (to_lower (ac_lower c) email)"

definition normalize_oauth_provider :: "('s, 'r) auth_config \<Rightarrow> gostr \<Rightarrow> gostr" where
  "normalize_oauth_provider c provider =
     (let v = trim_space (to_lower (ac_lower c) provider) in
      if v = lit ''google'' \<or> v = lit ''microsoft'' then v else [])"

definition normalize_oauth_email :: "('s, 'r) auth_config \<Rightarrow> gostr \<Rightarrow> gostr" where
  "normalize_oauth_email c email0 =
     (let email = lower_email c email0 in
      if email = [] then []
      else case ac_parse_address c email of
             None \<Rightarrow> []
           | Some addr \<Rightarrow> if addr = [] \<or> 32 \<in> set addr then [] else to_lower (ac_lower c) addr)"

definition normalize_admin_email :: "('s, 'r) auth_config \<Rightarrow> gostr \<Rightarrow> gostr + gostr" where
  "normalize_admin_email c email0 =
     (let email = lower_email c email0 in
      if email = [] then Inr []
      else if ac_parse_address c email = Some email then Inr email
      else Inl (lit ''email format is invalid''))"

definition normalize_admin_phone :: "gostr \<Rightarrow> gostr + gostr" where
  "normalize_admin_phone phone =
     (let digits0 = filter (\<lambda>r. 48 \<le> r \<and> r \<le> 57) phone;
          digits1 = (if has_prefix digits0 (lit ''0086'') then trim_prefix digits0 (lit ''0086'') else digits0);
          digits = (if has_prefix digits1 (lit ''86'') \<and> length digits1 = 13 then trim_prefix digits1 (lit ''86'') else digits1)
      in if digits0 = [] then Inr []
         else if length digits \<noteq> 11 \<or> \<not> has_prefix digits (lit ''1'') then Inl (lit ''phone format is invalid'')
         else Inr (lit ''+86'' @ digits))"

text \<open>The bytes of a rune, and the first \<open>n\<close> bytes of a string, which may end inside a rune.\<close>

definition utf8 :: "rune \<Rightarrow> nat list" where
  "utf8 r =
     (if r < 128 then [r]
      else if r < 2048 then [192 + r div 64, 128 + r mod 64]
      else if r < 65536 then [224 + r div 4096, 128 + r div 64 mod 64, 128 + r mod 64]
      else [240 + r div 262144, 128 + r div 4096 mod 64, 128 + r div 64 mod 64, 128 + r mod 64])"

fun cut_bytes :: "nat \<Rightarrow> gostr \<Rightarrow> gostr" where
  "cut_bytes n [] = []"
| "cut_bytes n (r # s) =
     (if rune_len r \<le> n then r # cut_bytes (n - rune_len r) s else map bad_byte (take n (utf8 r)))"

definition sanitize_display_name :: "gostr \<Rightarrow> gostr" where
  "sanitize_display_name value0 = (let value = trim_space value0 in if 80 < go_len value then cut_bytes 80 value else value)"

definition normalize_avatar_url :: "gostr \<Rightarrow> gostr" where
  "normalize_avatar_url value0 =
     (let value = trim_space value0 in
      if 2048 < go_len value then []
      else if has_prefix value (lit ''http://'') \<or> has_prefix value (lit ''https://'') \<or> has_prefix value (lit ''/'') then value
      else [])"

definition effective_avatar_url :: "gostr \<Rightarrow> user_profile \<Rightarrow> gostr" where
  "effective_avatar_url uid p =
     (if trim_space (up_avatar_storage_key p) \<noteq> [] then lit ''/api/users/'' @ trim_space uid @ lit ''/avatar''
      else trim_space (up_avatar_url p))"

section \<open>Tokens and profiles\<close>

definition new_session_or :: "('s, 'r) auth_config \<Rightarrow> auth_draws \<Rightarrow> gostr \<Rightarrow> ('s, 'r, gostr) auth_op" where
  "new_session_or c d uid =
     (case sx_new (ac_sessions c) (ad_now d) (ad_jti d) uid of
        Inl e \<Rightarrow> fail_with (AuthText (lit ''issue access token: '' @ ac_session_text c e)) | Inr tok \<Rightarrow> done_with tok)"

definition issue_tokens :: "('s, 'r) auth_config \<Rightarrow> auth_draws \<Rightarrow> gostr \<Rightarrow> ('s, 'r, gostr \<times> gostr) auth_op" where
  "issue_tokens c d uid =
     andthen (new_session_or c d uid) (\<lambda>access w.
       case rx_new (ac_refresh c) (ad_token d) (ad_family d) (ad_now d) uid (ac_refresh_ttl c) (aa_refresh w) of
         (Inl e, s) \<Rightarrow> (Inl (AuthText (lit ''issue refresh token: '' @ ac_refresh_text c e)), w\<lparr>aa_refresh := s\<rparr>)
       | (Inr tok, s) \<Rightarrow> (Inr (access, tok), w\<lparr>aa_refresh := s\<rparr>))"

definition with_profile :: "user \<Rightarrow> user_profile \<Rightarrow> user" where
  "with_profile u p =
     u\<lparr>us_display_name := up_display_name p, us_avatar_url := effective_avatar_url (us_id u) p,
       us_last_login_at := up_last_login_at p, us_login_count := up_login_count p\<rparr>"

text \<open>\<open>userWithProfile\<close> without a profile at hand: it is fetched, and an error means none.\<close>

definition user_with_profile :: "user \<Rightarrow> ('s, 'r, user) auth_op" where
  "user_with_profile u w =
     (case users_call (get_user_profile (us_id u)) w of
        (Inr (Some p), w1) \<Rightarrow> (Inr (with_profile u p), w1)
      | (_, w1) \<Rightarrow> (Inr u, w1))"

definition issue_user_tokens :: "('s, 'r) auth_config \<Rightarrow> auth_draws \<Rightarrow> user \<Rightarrow> ('s, 'r, user \<times> gostr \<times> gostr) auth_op" where
  "issue_user_tokens c d u =
     andthen (user_with_profile u) (\<lambda>u1.
     andthen (issue_tokens c d (us_id u1)) (\<lambda>(access, refresh).
     done_with (u1, access, refresh)))"

record login_activity =
  la_ip :: gostr
  la_user_agent :: gostr

definition issue_login_tokens ::
  "('s, 'r) auth_config \<Rightarrow> auth_draws \<Rightarrow> login_activity \<Rightarrow> user \<Rightarrow> ('s, 'r, user \<times> gostr \<times> gostr) auth_op" where
  "issue_login_tokens c d activity u =
     andthen (users_or c ''record login activity: '' (update_user_login_activity (us_id u) (la_ip activity) (la_user_agent activity) (ad_now d))) (\<lambda>_.
     andthen (users_or c ''fetch profile: '' (get_user_profile (us_id u))) (\<lambda>found.
     let profile = (case found of Some p \<Rightarrow> p
                    | None \<Rightarrow> (new_profile (us_id u) (ad_now d))\<lparr>up_last_login_at := Some (ad_now d), up_login_count := 1\<rparr>)
     in issue_user_tokens c d (with_profile u profile)))"

definition save_profile_or :: "('s, 'r) auth_config \<Rightarrow> string \<Rightarrow> user_profile \<Rightarrow> ('s, 'r, unit) auth_op" where
  "save_profile_or c what p = users_or c what (save_user_profile p)"

definition ensure_user_profile ::
  "('s, 'r) auth_config \<Rightarrow> auth_draws \<Rightarrow> gostr \<Rightarrow> gostr \<Rightarrow> gostr \<Rightarrow> ('s, 'r, unit) auth_op" where
  "ensure_user_profile c d uid0 display_name avatar_url =
     (let uid = trim_space uid0; name = sanitize_display_name display_name; url = normalize_avatar_url avatar_url in
      if uid = [] then done_with ()
      else andthen (users_or c ''fetch profile: '' (get_user_profile uid)) (\<lambda>found.
        case found of
          None \<Rightarrow> save_profile_or c [] ((new_profile uid (ad_now d))\<lparr>up_display_name := name, up_avatar_url := url\<rparr>)
        | Some p \<Rightarrow>
            let named = trim_space (up_display_name p) = [] \<and> name \<noteq> [];
                p1 = (if named then p\<lparr>up_display_name := name\<rparr> else p);
                pictured = trim_space (up_avatar_url p1) = [] \<and> trim_space (up_avatar_storage_key p1) = [] \<and> url \<noteq> [];
                p2 = (if pictured then p1\<lparr>up_avatar_url := url\<rparr> else p1)
            in if \<not> named \<and> \<not> pictured then done_with ()
               else save_profile_or c [] (p2\<lparr>up_updated_at := ad_now d\<rparr>)))"

definition profile_for_update :: "('s, 'r) auth_config \<Rightarrow> auth_draws \<Rightarrow> gostr \<Rightarrow> ('s, 'r, user_profile) auth_op" where
  "profile_for_update c d uid =
     andthen (users_or c ''fetch profile: '' (get_user_profile uid)) (\<lambda>found.
     done_with (case found of Some p \<Rightarrow> p | None \<Rightarrow> new_profile uid (ad_now d)))"

section \<open>Sign-up\<close>

definition first_role :: "nat \<Rightarrow> user_role" where
  "first_role n = (if n = 0 then RoleAdmin else RoleUser)"

definition new_user :: "auth_draws \<Rightarrow> gostr \<Rightarrow> gostr \<Rightarrow> user_role \<Rightarrow> user" where
  "new_user d email hash role =
     \<lparr>us_id = ad_ids d 0, us_email = email, us_password_hash = hash, us_role = role, us_status = UserActive,
      us_created_at = ad_now d, us_updated_at = ad_now d, us_display_name = [], us_avatar_url = [],
      us_last_login_at = None, us_login_count = 0\<rparr>"

definition verified_identity :: "auth_draws \<Rightarrow> gostr \<Rightarrow> gostr \<Rightarrow> identity_type \<Rightarrow> gostr \<Rightarrow> gostr \<Rightarrow> bool \<Rightarrow> user_identity" where
  "verified_identity d new_id uid ty provider ident primary =
     \<lparr>ui_id = new_id, ui_user_id = uid, ui_type = ty, ui_provider = provider, ui_identifier = ident,
      ui_verified_at = Some (ad_now d), ui_primary = primary, ui_created_at = ad_now d, ui_updated_at = ad_now d\<rparr>"

definition create_user_with_identity ::
  "('s, 'r) auth_config \<Rightarrow> auth_draws \<Rightarrow> identity_type \<Rightarrow> gostr \<Rightarrow> gostr \<Rightarrow> user_role \<Rightarrow> ('s, 'r, user) auth_op" where
  "create_user_with_identity c d ty ident hash role =
     (let u = new_user d (if ty = IdentityEmail \<or> ty = IdentityPhone then ident else []) hash role in
      andthen (users_or c ''save user identity: ''
        (save_user_with_identities u [verified_identity d (ad_ids d 1) (us_id u) ty [] ident True])) (\<lambda>_. done_with u))"

text \<open>An error that says that the identity exists becomes the error of the caller.\<close>

definition or_exists :: "('s, 'r, 'a) auth_op \<Rightarrow> ('s, 'r, 'a) auth_op" where
  "or_exists m w =
     (case m w of
        (Inl e, w1) \<Rightarrow> (Inl (if says_exists e then IdentifierAlreadyExists else e), w1)
      | (Inr x, w1) \<Rightarrow> (Inr x, w1))"

definition sign_up_verified ::
  "('s, 'r) auth_config \<Rightarrow> auth_draws \<Rightarrow> identity_type \<Rightarrow> gostr \<Rightarrow> gostr \<Rightarrow> ('s, 'r, user \<times> gostr \<times> gostr) auth_op" where
  "sign_up_verified c d ty ident0 pw =
     (let ident = trim_space ident0 in
      if ident = [] \<or> pw = [] then fail_with EmailAndPasswordRequired
      else if \<not> is_supported_identity_type ty then fail_with UnsupportedIdentityType
      else andthen (check_new_password c pw) (\<lambda>_.
           andthen (users_or c ''check identity: '' (has_user_identity ty ident)) (\<lambda>taken.
           if taken then fail_with IdentifierAlreadyExists
           else andthen (users_or c ''count users: '' user_count) (\<lambda>n.
                andthen (hash_or_fail c pw) (\<lambda>hash.
                andthen (or_exists (create_user_with_identity c d ty ident hash (first_role n))) (\<lambda>u.
                issue_user_tokens c d u))))))"

definition sign_up :: "('s, 'r) auth_config \<Rightarrow> auth_draws \<Rightarrow> gostr \<Rightarrow> gostr \<Rightarrow> ('s, 'r, user \<times> gostr \<times> gostr) auth_op" where
  "sign_up c d email0 pw =
     (let email = lower_email c email0 in
      if email = [] \<or> pw = [] then fail_with EmailAndPasswordRequired else sign_up_verified c d IdentityEmail email pw)"

definition sign_up_passwordless_verified ::
  "('s, 'r) auth_config \<Rightarrow> auth_draws \<Rightarrow> identity_type \<Rightarrow> gostr \<Rightarrow> ('s, 'r, user \<times> gostr \<times> gostr) auth_op" where
  "sign_up_passwordless_verified c d ty ident0 =
     (let ident = trim_space ident0 in
      if ident = [] then fail_with AuthIdentifierRequired
      else if \<not> is_supported_identity_type ty then fail_with UnsupportedIdentityType
      else andthen (users_or c ''check identity: '' (has_user_identity ty ident)) (\<lambda>taken.
           if taken then fail_with IdentifierAlreadyExists
           else andthen (users_or c ''count users: '' user_count) (\<lambda>n.
                andthen (or_exists (create_user_with_identity c d ty ident [] (first_role n))) (\<lambda>u.
                issue_user_tokens c d u))))"

definition sign_up_passwordless :: "('s, 'r) auth_config \<Rightarrow> auth_draws \<Rightarrow> gostr \<Rightarrow> ('s, 'r, user \<times> gostr \<times> gostr) auth_op" where
  "sign_up_passwordless c d email0 =
     (let email = lower_email c email0 in
      if email = [] then fail_with EmailRequired else sign_up_passwordless_verified c d IdentityEmail email)"

section \<open>Login\<close>

definition login_with_password_by_identity ::
  "('s, 'r) auth_config \<Rightarrow> auth_draws \<Rightarrow> identity_type \<Rightarrow> gostr \<Rightarrow> gostr \<Rightarrow> login_activity \<Rightarrow>
   ('s, 'r, user \<times> gostr \<times> gostr) auth_op" where
  "login_with_password_by_identity c d ty ident pw activity =
     (if \<not> is_supported_identity_type ty then fail_with InvalidCredentials
      else andthen (users_or c ''fetch user: '' (get_user_by_identity ty (trim_space ident))) (\<lambda>found.
        case found of None \<Rightarrow> fail_with InvalidCredentials
        | Some u \<Rightarrow>
            if us_status u = UserDisabled then fail_with UserIsDisabled
            else if \<not> has_password (us_password_hash u) then fail_with PasswordNotSet
            else if \<not> ac_check_password c pw (us_password_hash u) then fail_with InvalidCredentials
            else issue_login_tokens c d activity u))"

definition no_activity :: login_activity where
  "no_activity = \<lparr>la_ip = [], la_user_agent = []\<rparr>"

definition login :: "('s, 'r) auth_config \<Rightarrow> auth_draws \<Rightarrow> gostr \<Rightarrow> gostr \<Rightarrow> ('s, 'r, user \<times> gostr \<times> gostr) auth_op" where
  "login c d email pw = login_with_password_by_identity c d IdentityEmail (lower_email c email) pw no_activity"

definition login_by_identity ::
  "('s, 'r) auth_config \<Rightarrow> auth_draws \<Rightarrow> identity_type \<Rightarrow> gostr \<Rightarrow> login_activity \<Rightarrow> ('s, 'r, user \<times> gostr \<times> gostr) auth_op" where
  "login_by_identity c d ty ident activity =
     (if \<not> is_supported_identity_type ty then fail_with InvalidCredentials
      else andthen (users_or c ''fetch user: '' (get_user_by_identity ty (trim_space ident))) (\<lambda>found.
        case found of None \<Rightarrow> fail_with InvalidCredentials
        | Some u \<Rightarrow>
            if us_status u = UserDisabled then fail_with UserIsDisabled else issue_login_tokens c d activity u))"

definition login_by_email :: "('s, 'r) auth_config \<Rightarrow> auth_draws \<Rightarrow> gostr \<Rightarrow> ('s, 'r, user \<times> gostr \<times> gostr) auth_op" where
  "login_by_email c d email = login_by_identity c d IdentityEmail (lower_email c email) no_activity"

record oauth_input =
  oi_provider :: gostr
  oi_subject :: gostr
  oi_email :: gostr
  oi_email_verified :: bool
  oi_display_name :: gostr
  oi_avatar_url :: gostr
  oi_activity :: login_activity

definition create_oauth_user ::
  "('s, 'r) auth_config \<Rightarrow> auth_draws \<Rightarrow> gostr \<Rightarrow> gostr \<Rightarrow> gostr \<Rightarrow> bool \<Rightarrow> user_role \<Rightarrow> gostr \<Rightarrow> gostr \<Rightarrow> ('s, 'r, user) auth_op" where
  "create_oauth_user c d provider subject email verified role display_name avatar_url =
     (let u = new_user d (if verified then email else []) [] role;
          ids = verified_identity d (ad_ids d 1) (us_id u) IdentityOAuth provider subject (\<not> verified \<or> email = []) #
                (if verified \<and> email \<noteq> [] then [verified_identity d (ad_ids d 2) (us_id u) IdentityEmail [] email True] else [])
      in andthen (users_or c ''save oauth user identities: '' (save_user_with_identities u ids)) (\<lambda>_.
         andthen (ensure_user_profile c d (us_id u) display_name avatar_url) (\<lambda>_. done_with u)))"

text \<open>After a conflict: the user who has the identity by now.\<close>

definition oauth_conflict ::
  "('s, 'r) auth_config \<Rightarrow> auth_draws \<Rightarrow> string \<Rightarrow> gostr \<Rightarrow> gostr \<Rightarrow> login_activity \<Rightarrow> auth_err \<Rightarrow>
   ('s, 'r, user \<times> gostr \<times> gostr) auth_op" where
  "oauth_conflict c d what provider subject activity e =
     andthen (users_or c what (get_user_by_provider_identity provider subject)) (\<lambda>found.
     case found of None \<Rightarrow> fail_with e
     | Some u \<Rightarrow> if us_status u = UserDisabled then fail_with UserIsDisabled else issue_login_tokens c d activity u)"

text \<open>The account with the verified address gets the OAuth identity.\<close>

definition link_oauth ::
  "('s, 'r) auth_config \<Rightarrow> auth_draws \<Rightarrow> gostr \<Rightarrow> gostr \<Rightarrow> oauth_input \<Rightarrow> user \<Rightarrow> ('s, 'r, user \<times> gostr \<times> gostr) auth_op" where
  "link_oauth c d provider subject input u w =
     (if us_status u = UserDisabled then fail_with UserIsDisabled w
      else case users_or c ''save oauth identity: ''
          (save_user_identity (verified_identity d (ad_ids d 0) (us_id u) IdentityOAuth provider subject False)) w of
        (Inl e, w1) \<Rightarrow>
          if says_exists e
          then oauth_conflict c d ''fetch oauth identity after conflict: '' provider subject (oi_activity input) e w1
          else (Inl e, w1)
      | (Inr _, w1) \<Rightarrow>
          andthen (ensure_user_profile c d (us_id u) (oi_display_name input) (oi_avatar_url input)) (\<lambda>_.
          issue_login_tokens c d (oi_activity input) u) w1)"

definition oauth_new_user ::
  "('s, 'r) auth_config \<Rightarrow> auth_draws \<Rightarrow> gostr \<Rightarrow> gostr \<Rightarrow> gostr \<Rightarrow> oauth_input \<Rightarrow> ('s, 'r, user \<times> gostr \<times> gostr) auth_op" where
  "oauth_new_user c d provider subject email input =
     andthen (users_or c ''count users: '' user_count) (\<lambda>n w.
     case create_oauth_user c d provider subject email (oi_email_verified input) (first_role n) (oi_display_name input) (oi_avatar_url input) w of
       (Inl e, w1) \<Rightarrow>
         if says_exists e
         then oauth_conflict c d ''fetch oauth identity after create conflict: '' provider subject (oi_activity input)
                IdentifierAlreadyExists w1
         else (Inl e, w1)
     | (Inr u, w1) \<Rightarrow> issue_login_tokens c d (oi_activity input) u w1)"

definition complete_oauth_login ::
  "('s, 'r) auth_config \<Rightarrow> auth_draws \<Rightarrow> oauth_input \<Rightarrow> ('s, 'r, user \<times> gostr \<times> gostr) auth_op" where
  "complete_oauth_login c d input =
     (let provider = normalize_oauth_provider c (oi_provider input);
          subject = trim_space (oi_subject input);
          email = normalize_oauth_email c (oi_email input)
      in if provider = [] \<or> subject = [] then fail_with AuthIdentifierRequired
         else andthen (users_or c ''fetch oauth identity: '' (get_user_by_provider_identity provider subject)) (\<lambda>found.
           case found of
             Some u \<Rightarrow>
               if us_status u = UserDisabled then fail_with UserIsDisabled
               else andthen (ensure_user_profile c d (us_id u) (oi_display_name input) (oi_avatar_url input)) (\<lambda>_.
                    issue_login_tokens c d (oi_activity input) u)
           | None \<Rightarrow>
               if oi_email_verified input \<and> email \<noteq> []
               then andthen (users_or c ''fetch email identity: '' (get_user_by_identity IdentityEmail email)) (\<lambda>owner.
                 case owner of Some u \<Rightarrow> link_oauth c d provider subject input u
                 | None \<Rightarrow> oauth_new_user c d provider subject email input)
               else oauth_new_user c d provider subject email input))"

section \<open>Sessions\<close>

definition user_from_token :: "('s, 'r) auth_config \<Rightarrow> auth_draws \<Rightarrow> gostr \<Rightarrow> ('s, 'r) auth_app \<Rightarrow> user option \<times> ('s, 'r) auth_app" where
  "user_from_token c d token w =
     (case sx_user (ac_sessions c) (ad_now d) token (aa_sessions w) of
        (Inl _, s) \<Rightarrow> (None, w\<lparr>aa_sessions := s\<rparr>)
      | (Inr uid, s) \<Rightarrow>
          (case users_call (get_user_by_id uid) (w\<lparr>aa_sessions := s\<rparr>) of
             (Inr (Some u), w1) \<Rightarrow>
               if us_status u = UserDisabled then (None, w1)
               else (case user_with_profile u w1 of (Inr u1, w2) \<Rightarrow> (Some u1, w2) | (Inl _, w2) \<Rightarrow> (Some u, w2))
           | (_, w1) \<Rightarrow> (None, w1)))"

definition delete_refresh :: "('s, 'r) auth_config \<Rightarrow> auth_draws \<Rightarrow> gostr \<Rightarrow> ('s, 'r, unit) auth_op" where
  "delete_refresh c d token w =
     (case rx_delete (ac_refresh c) (ad_now d) token (aa_refresh w) of
        (Some e, s) \<Rightarrow> (Inl (AuthText (ac_refresh_text c e)), w\<lparr>aa_refresh := s\<rparr>)
      | (None, s) \<Rightarrow> (Inr (), w\<lparr>aa_refresh := s\<rparr>))"

definition revoke_refresh_token :: "('s, 'r) auth_config \<Rightarrow> auth_draws \<Rightarrow> gostr \<Rightarrow> ('s, 'r, unit) auth_op" where
  "revoke_refresh_token c d token0 =
     (let token = trim_space token0 in if token = [] then done_with () else delete_refresh c d token)"

definition logout :: "('s, 'r) auth_config \<Rightarrow> auth_draws \<Rightarrow> gostr \<Rightarrow> gostr \<Rightarrow> ('s, 'r, unit) auth_op" where
  "logout c d access refresh w =
     (case sx_delete (ac_sessions c) (ad_now d) access (aa_sessions w) of
        (Some e, s) \<Rightarrow> (Inl (AuthText (ac_session_text c e)), w\<lparr>aa_sessions := s\<rparr>)
      | (None, s) \<Rightarrow> revoke_refresh_token c d refresh (w\<lparr>aa_sessions := s\<rparr>))"

text \<open>The new refresh token is given up when the user may not have it; an error of that is ignored.\<close>

definition refresh_for ::
  "('s, 'r) auth_config \<Rightarrow> auth_draws \<Rightarrow> gostr \<Rightarrow> gostr \<Rightarrow> ('s, 'r, user \<times> gostr \<times> gostr) auth_op" where
  "refresh_for c d uid tok =
     andthen (users_or c ''fetch user: '' (get_user_by_id uid)) (\<lambda>found w.
     case found of
       Some u \<Rightarrow>
         if us_status u = UserDisabled then (Inl InvalidRefresh, snd (delete_refresh c d tok w))
         else (case new_session_or c d (us_id u) w of
                 (Inl e, w1) \<Rightarrow> (Inl e, snd (delete_refresh c d tok w1))
               | (Inr access, w1) \<Rightarrow> (Inr (u, access, tok), w1))
     | None \<Rightarrow> (Inl InvalidRefresh, snd (delete_refresh c d tok w)))"

definition refresh :: "('s, 'r) auth_config \<Rightarrow> auth_draws \<Rightarrow> gostr \<Rightarrow> ('s, 'r, user \<times> gostr \<times> gostr) auth_op" where
  "refresh c d token0 w =
     (let token = trim_space token0 in
      if token = [] then (Inl RefreshTokenRequired, w)
      else case rx_rotate (ac_refresh c) (ad_token d) (ad_now d) (ac_refresh_ttl c) token (aa_refresh w) of
             (Inl RefreshInvalid, s) \<Rightarrow> (Inl InvalidRefresh, w\<lparr>aa_refresh := s\<rparr>)
           | (Inl RefreshReplay, s) \<Rightarrow> (Inl InvalidRefresh, w\<lparr>aa_refresh := s\<rparr>)
           | (Inl (RefreshOther e), s) \<Rightarrow> (Inl (AuthText (lit ''resolve refresh token: '' @ e)), w\<lparr>aa_refresh := s\<rparr>)
           | (Inr (uid, tok), s) \<Rightarrow> refresh_for c d uid tok (w\<lparr>aa_refresh := s\<rparr>))"

definition app_has_user_identity :: "('s, 'r) auth_config \<Rightarrow> identity_type \<Rightarrow> gostr \<Rightarrow> ('s, 'r, bool) auth_op" where
  "app_has_user_identity c ty ident0 =
     (let ident = trim_space ident0 in
      if ident = [] then fail_with AuthIdentifierRequired
      else if \<not> is_supported_identity_type ty then fail_with UnsupportedIdentityType
      else users_or c [] (has_user_identity ty ident))"

definition has_user_email :: "('s, 'r) auth_config \<Rightarrow> gostr \<Rightarrow> ('s, 'r, bool) auth_op" where
  "has_user_email c email0 =
     (let email = lower_email c email0 in
      if email = [] then fail_with EmailRequired else users_or c [] (has_user_identity IdentityEmail email))"

definition can_login_with_password_identity :: "('s, 'r) auth_config \<Rightarrow> identity_type \<Rightarrow> gostr \<Rightarrow> ('s, 'r, bool) auth_op" where
  "can_login_with_password_identity c ty ident0 =
     (let ident = trim_space ident0 in
      if ident = [] then fail_with AuthIdentifierRequired
      else if \<not> is_supported_identity_type ty then fail_with UnsupportedIdentityType
      else andthen (users_or c ''fetch user: '' (get_user_by_identity ty ident)) (\<lambda>found.
        done_with (case found of None \<Rightarrow> False
                   | Some u \<Rightarrow> us_status u \<noteq> UserDisabled \<and> has_password (us_password_hash u))))"

definition can_login_with_password :: "('s, 'r) auth_config \<Rightarrow> gostr \<Rightarrow> ('s, 'r, bool) auth_op" where
  "can_login_with_password c email0 =
     (let email = lower_email c email0 in
      if email = [] then fail_with EmailRequired else can_login_with_password_identity c IdentityEmail email)"

section \<open>Passwords\<close>

definition revoke_all_user_tokens :: "('s, 'r) auth_config \<Rightarrow> auth_draws \<Rightarrow> gostr \<Rightarrow> gotime \<Rightarrow> ('s, 'r, unit) auth_op" where
  "revoke_all_user_tokens c d uid since w =
     (if uid = [] then (Inr (), w)
      else case sx_revoke_user (ac_sessions c) of
        None \<Rightarrow> (Inl (AuthText (lit ''session store does not support user token revocation'')), w)
      | Some f \<Rightarrow>
     (case f (ad_now d) uid since (aa_sessions w) of
        (Some e, s) \<Rightarrow> (Inl (AuthText (ac_session_text c e)), w\<lparr>aa_sessions := s\<rparr>)
      | (None, s) \<Rightarrow>
          (case rx_revoke_user (ac_refresh c) of
             None \<Rightarrow> (Inl (AuthText (lit ''refresh token store does not support user token revocation'')), w\<lparr>aa_sessions := s\<rparr>)
           | Some g \<Rightarrow>
               (case g (ad_now d) uid (aa_refresh w) of
                  (Some e, r) \<Rightarrow> (Inl (AuthText (ac_refresh_text c e)), w\<lparr>aa_sessions := s, aa_refresh := r\<rparr>)
                | (None, r) \<Rightarrow> (Inr (), w\<lparr>aa_sessions := s, aa_refresh := r\<rparr>)))))"

text \<open>\<open>fmt.Errorf\<close> with a prefix.\<close>

definition wrap_error :: "string \<Rightarrow> (auth_err \<Rightarrow> gostr) \<Rightarrow> ('s, 'r, 'a) auth_op \<Rightarrow> ('s, 'r, 'a) auth_op" where
  "wrap_error what f m w = (case m w of (Inl e, w1) \<Rightarrow> (Inl (AuthText (lit what @ f e)), w1) | (Inr x, w1) \<Rightarrow> (Inr x, w1))"

definition text_of :: "auth_err \<Rightarrow> gostr" where
  "text_of e = (case e of AuthText s \<Rightarrow> s | _ \<Rightarrow> [])"

text \<open>The common end of both: the new hash is saved, then the sessions and refresh tokens of the user are revoked.\<close>

definition save_password ::
  "('s, 'r) auth_config \<Rightarrow> auth_draws \<Rightarrow> user \<Rightarrow> gostr \<Rightarrow> gostr \<Rightarrow> ('s, 'r, unit) auth_op" where
  "save_password c d u uid hash =
     andthen (users_or c ''update password: '' (save_user (u\<lparr>us_password_hash := hash, us_updated_at := ad_now d\<rparr>))) (\<lambda>_.
     wrap_error ''revoke user tokens: '' text_of (revoke_all_user_tokens c d uid (ad_now d)))"

definition change_password ::
  "('s, 'r) auth_config \<Rightarrow> auth_draws \<Rightarrow> gostr \<Rightarrow> gostr \<Rightarrow> gostr \<Rightarrow> ('s, 'r, unit) auth_op" where
  "change_password c d uid current new_pw =
     (if trim_space new_pw = [] then fail_with NewPasswordRequired
      else andthen (check_new_password c new_pw) (\<lambda>_.
           andthen (users_or c ''fetch user: '' (get_user_by_id uid)) (\<lambda>found.
           case found of None \<Rightarrow> fail_with (AuthText (lit ''user not found''))
           | Some u \<Rightarrow>
               if us_status u = UserDisabled then fail_with (AuthText (lit ''user disabled''))
               else if has_password (us_password_hash u) \<and> trim_space current = [] then fail_with CurrentPasswordRequired
               else if has_password (us_password_hash u) \<and> \<not> ac_check_password c current (us_password_hash u)
                 then fail_with InvalidCredentials
               else if has_password (us_password_hash u) \<and> current = new_pw then fail_with NewPasswordMustDiffer
               else andthen (hash_or_fail c new_pw) (\<lambda>hash. save_password c d u uid hash))))"

definition reset_password_by_identity ::
  "('s, 'r) auth_config \<Rightarrow> auth_draws \<Rightarrow> identity_type \<Rightarrow> gostr \<Rightarrow> gostr \<Rightarrow> ('s, 'r, unit) auth_op" where
  "reset_password_by_identity c d ty ident0 new_pw =
     (let ident = trim_space ident0 in
      if ident = [] then fail_with AuthIdentifierRequired
      else if \<not> is_supported_identity_type ty then fail_with UnsupportedIdentityType
      else if trim_space new_pw = [] then fail_with NewPasswordRequired
      else andthen (check_new_password c new_pw) (\<lambda>_.
           andthen (users_or c ''fetch user: '' (get_user_by_identity ty ident)) (\<lambda>found.
           case found of None \<Rightarrow> fail_with InvalidCredentials
           | Some u \<Rightarrow>
               if us_status u = UserDisabled then fail_with UserIsDisabled
               else if has_password (us_password_hash u) \<and> ac_check_password c new_pw (us_password_hash u)
                 then fail_with NewPasswordMustDiffer
               else andthen (hash_or_fail c new_pw) (\<lambda>hash. save_password c d u (us_id u) hash))))"

definition reset_password_by_email :: "('s, 'r) auth_config \<Rightarrow> auth_draws \<Rightarrow> gostr \<Rightarrow> gostr \<Rightarrow> ('s, 'r, unit) auth_op" where
  "reset_password_by_email c d email0 new_pw =
     (let email = lower_email c email0 in
      if email = [] then fail_with EmailRequired else reset_password_by_identity c d IdentityEmail email new_pw)"

section \<open>Profiles and avatars\<close>

text \<open>\<open>UpdateMyEmail\<close>, split before its writes, so that other requests may come between.\<close>

definition check_my_email :: "('s, 'r) auth_config \<Rightarrow> user \<Rightarrow> gostr \<Rightarrow> ('s, 'r, unit) auth_op" where
  "check_my_email c u email =
     andthen (users_or c ''check email: '' (get_user_by_identity IdentityEmail email)) (\<lambda>found.
     case found of Some o1 \<Rightarrow> if us_id o1 \<noteq> us_id u then fail_with EmailAlreadyExists else done_with () | None \<Rightarrow> done_with ())"

definition save_my_email :: "('s, 'r) auth_config \<Rightarrow> auth_draws \<Rightarrow> user \<Rightarrow> gostr \<Rightarrow> ('s, 'r, user) auth_op" where
  "save_my_email c d u email =
     (let u1 = u\<lparr>us_email := email, us_updated_at := ad_now d\<rparr> in
      andthen (users_or c ''update user: '' (save_user u1)) (\<lambda>_.
      andthen (users_or c ''update email identity: ''
        (save_user_identity (verified_identity d (ad_ids d 0) (us_id u) IdentityEmail [] email True))) (\<lambda>_.
      user_with_profile u1)))"

definition update_my_email :: "('s, 'r) auth_config \<Rightarrow> auth_draws \<Rightarrow> user \<Rightarrow> gostr \<Rightarrow> ('s, 'r, user) auth_op" where
  "update_my_email c d u email0 =
     (let email = lower_email c email0 in
      if email = [] then fail_with EmailRequired
      else if email = us_email u then done_with u
      else andthen (check_my_email c u email) (\<lambda>_. save_my_email c d u email))"

definition adminless_user :: "('s, 'r) auth_config \<Rightarrow> gostr \<Rightarrow> ('s, 'r, user) auth_op" where
  "adminless_user c uid =
     andthen (users_or c ''fetch user: '' (get_user_by_id uid)) (\<lambda>found.
     case found of None \<Rightarrow> fail_with (AuthText (lit ''user not found'')) | Some u \<Rightarrow> user_with_profile u)"

definition update_my_profile ::
  "('s, 'r) auth_config \<Rightarrow> auth_draws \<Rightarrow> user \<Rightarrow> gostr option \<Rightarrow> gostr option \<Rightarrow> ('s, 'r, user) auth_op" where
  "update_my_profile c d u email display_name =
     andthen (case email of None \<Rightarrow> done_with u | Some e \<Rightarrow> update_my_email c d u e) (\<lambda>u1.
     andthen (case display_name of None \<Rightarrow> done_with ()
              | Some name \<Rightarrow>
                  andthen (profile_for_update c d (us_id u1)) (\<lambda>p.
                  save_profile_or c ''update profile: ''
                    (p\<lparr>up_display_name := sanitize_display_name name, up_updated_at := ad_now d\<rparr>))) (\<lambda>_.
     adminless_user c (us_id u1)))"

definition max_avatar_bytes :: nat where
  "max_avatar_bytes = 5 * 1024 * 1024"

definition avatar_content_type :: "('s, 'r) auth_config \<Rightarrow> nat list \<Rightarrow> gostr \<Rightarrow> gostr + gostr \<times> gostr" where
  "avatar_content_type c data filename =
     (let detected = ac_detect c (take 512 data) in
      if data = [] then Inl (lit ''avatar file is empty'')
      else if detected = lit ''image/jpeg'' then Inr (detected, lit ''.jpg'')
      else if detected = lit ''image/png'' then Inr (detected, lit ''.png'')
      else if detected = lit ''image/gif'' then Inr (detected, lit ''.gif'')
      else if detected = lit ''image/webp'' then Inr (detected, lit ''.webp'')
      else if to_lower (ac_lower c) (file_ext filename) = lit ''.webp'' \<and> take 4 data = lit ''RIFF'' \<and> 12 < length data \<and>
              take 4 (drop 8 data) = lit ''WEBP''
        then Inr (lit ''image/webp'', lit ''.webp'')
      else Inl (lit ''avatar must be jpg, png, webp, or gif''))"

definition put_avatar :: "gostr \<Rightarrow> nat list \<Rightarrow> gostr \<Rightarrow> ('s, 'r, unit) auth_op" where
  "put_avatar key data ty w =
     (let (x, xs) = next_outcome (aa_object_calls w) in
      (case x of CallOk \<Rightarrow> Inr () | CallFailed e \<Rightarrow> Inl (AuthText e) | CallUnknown e \<Rightarrow> Inl (AuthText e),
       w\<lparr>aa_object_calls := xs, aa_objects := (if takes_effect x then (aa_objects w)(key \<mapsto> (data, ty)) else aa_objects w)\<rparr>))"

definition delete_avatar :: "gostr \<Rightarrow> ('s, 'r) auth_app \<Rightarrow> ('s, 'r) auth_app" where
  "delete_avatar key w =
     (let (x, xs) = next_outcome (aa_object_calls w) in
      w\<lparr>aa_object_calls := xs, aa_objects := (if takes_effect x then (aa_objects w)(key := None) else aa_objects w)\<rparr>)"

definition upload_user_avatar ::
  "('s, 'r) auth_config \<Rightarrow> auth_draws \<Rightarrow> user \<Rightarrow> nat list \<Rightarrow> gostr \<Rightarrow> ('s, 'r, user) auth_op" where
  "upload_user_avatar c d u data filename =
     (if \<not> ac_avatars c then fail_with (AuthText (lit ''avatar storage is not configured''))
      else if max_avatar_bytes < length data then fail_with (AuthText (lit ''avatar exceeds 5MB limit''))
      else case avatar_content_type c data filename of
        Inl e \<Rightarrow> fail_with (AuthText e)
      | Inr (ty, ext) \<Rightarrow>
          andthen (profile_for_update c d (us_id u)) (\<lambda>p.
          let old = trim_space (up_avatar_storage_key p);
              key = lit ''avatars/'' @ us_id u @ lit ''/'' @ ad_ids d 0 @ ext
          in andthen (put_avatar key data ty) (\<lambda>_ w.
          case save_profile_or c ''save avatar profile: ''
              (p\<lparr>up_avatar_storage_key := key, up_avatar_content_type := ty, up_updated_at := ad_now d\<rparr>) w of
            (Inl e, w1) \<Rightarrow> (Inl e, delete_avatar key w1)
          | (Inr _, w1) \<Rightarrow> adminless_user c (us_id u) (if old \<noteq> [] \<and> old \<noteq> key then delete_avatar old w1 else w1))))"

definition user_avatar :: "('s, 'r) auth_config \<Rightarrow> gostr \<Rightarrow> ('s, 'r, nat list \<times> gostr) auth_op" where
  "user_avatar c uid =
     (if \<not> ac_avatars c then fail_with (AuthText (lit ''avatar storage is not configured''))
      else andthen (users_or c ''fetch profile: '' (get_user_profile uid)) (\<lambda>found w.
        case found of None \<Rightarrow> (Inl (AuthText (lit ''avatar not found'')), w)
        | Some p \<Rightarrow>
            if trim_space (up_avatar_storage_key p) = [] then (Inl (AuthText (lit ''avatar not found'')), w)
            else let (x, xs) = next_outcome (aa_object_calls w); w1 = w\<lparr>aa_object_calls := xs\<rparr> in
              (case x of
                 CallFailed e \<Rightarrow> (Inl (AuthText e), w1)
               | CallUnknown e \<Rightarrow> (Inl (AuthText e), w1)
               | CallOk \<Rightarrow>
                   (case aa_objects w (up_avatar_storage_key p) of
                      None \<Rightarrow> (Inl (AuthText (ac_missing_object c)), w1)
                    | Some (data, ty) \<Rightarrow>
                        (Inr (data, if trim_space ty \<noteq> [] then ty
                                    else if trim_space (up_avatar_content_type p) \<noteq> [] then up_avatar_content_type p
                                    else lit ''application/octet-stream''), w1)))))"

section \<open>Administration\<close>

record admin_user =
  au_user_id :: gostr
  au_email :: gostr
  au_phone :: gostr
  au_display_name :: gostr
  au_avatar_url :: gostr
  au_admin_note :: gostr
  au_login_methods :: "gostr list"
  au_oauth_providers :: "gostr list"
  au_email_verified :: bool
  au_phone_verified :: bool
  au_password_set :: bool
  au_last_login_at :: "gotime option"
  au_login_count :: int
  au_role :: user_role
  au_status :: user_status
  au_created_at :: gotime
  au_updated_at :: gotime

definition add_new :: "gostr \<Rightarrow> gostr list \<Rightarrow> gostr list" where
  "add_new x xs = (if x \<in> set xs then xs else xs @ [x])"

text \<open>One identity of the user, added to what the row shows.\<close>

definition show_identity :: "user_identity \<Rightarrow> admin_user \<Rightarrow> admin_user" where
  "show_identity i a =
     (case ui_type i of
        IdentityEmail \<Rightarrow>
          a\<lparr>au_email := (if au_email a = [] then ui_identifier i else au_email a),
            au_email_verified := (au_email_verified a \<or> ui_verified_at i \<noteq> None),
            au_login_methods := add_new (lit ''email'') (au_login_methods a)\<rparr>
      | IdentityPhone \<Rightarrow>
          a\<lparr>au_phone := (if au_phone a = [] then ui_identifier i else au_phone a),
            au_phone_verified := (au_phone_verified a \<or> ui_verified_at i \<noteq> None),
            au_login_methods := add_new (lit ''phone'') (au_login_methods a)\<rparr>
      | IdentityOAuth \<Rightarrow>
          (let provider = trim_space (ui_provider i) in
           if provider = [] then a
           else a\<lparr>au_oauth_providers := add_new provider (au_oauth_providers a),
                  au_login_methods := add_new provider (au_login_methods a)\<rparr>))"

definition at_sign :: "gostr \<Rightarrow> bool" where
  "at_sign s \<longleftrightarrow> 64 \<in> set s"

definition admin_row :: "user_identity list \<Rightarrow> user_profile option \<Rightarrow> user \<Rightarrow> admin_user" where
  "admin_row is p0 u =
     (let p = (case p0 of Some p \<Rightarrow> p | None \<Rightarrow> new_profile [] zero_time);
          a = fold show_identity is
            \<lparr>au_user_id = us_id u, au_email = [], au_phone = [], au_display_name = up_display_name p,
             au_avatar_url = effective_avatar_url (us_id u) p, au_admin_note = up_admin_note p, au_login_methods = [],
             au_oauth_providers = [], au_email_verified = False, au_phone_verified = False,
             au_password_set = has_password (us_password_hash u), au_last_login_at = up_last_login_at p,
             au_login_count = up_login_count p, au_role = us_role u, au_status = us_status u,
             au_created_at = us_created_at u, au_updated_at = us_updated_at u\<rparr>
      in a\<lparr>au_email := (if au_email a = [] \<and> at_sign (us_email u) then us_email u else au_email a),
           au_phone := (if au_phone a = [] \<and> us_email u \<noteq> [] \<and> \<not> at_sign (us_email u) then us_email u else au_phone a)\<rparr>)"

definition admin_users_from_users :: "('s, 'r) auth_config \<Rightarrow> user list \<Rightarrow> ('s, 'r, admin_user list) auth_op" where
  "admin_users_from_users c us =
     (let ids = map us_id us in
      andthen (users_or c ''fetch user identities: '' (list_user_identities ids)) (\<lambda>idents.
      andthen (users_or c ''fetch user profiles: '' (list_user_profiles ids)) (\<lambda>profiles.
      done_with (map (\<lambda>u. admin_row (case idents (us_id u) of None \<Rightarrow> [] | Some is \<Rightarrow> is) (profiles (us_id u)) u) us))))"

definition app_list_users_with_options ::
  "('s, 'r) auth_config \<Rightarrow> user_list_options \<Rightarrow> ('s, 'r, admin_user list \<times> nat) auth_op" where
  "app_list_users_with_options c opts =
     andthen (users_or c [] (list_users_with_options (ac_lower c) opts)) (\<lambda>(us, n).
     andthen (admin_users_from_users c us) (\<lambda>as. done_with (as, n)))"

definition admin_get_user :: "('s, 'r) auth_config \<Rightarrow> gostr \<Rightarrow> ('s, 'r, admin_user) auth_op" where
  "admin_get_user c uid0 =
     (let uid = trim_space uid0 in
      if uid = [] then fail_with (AuthText (lit ''user id required''))
      else andthen (users_or c ''fetch user: '' (get_user_by_id uid)) (\<lambda>found.
        case found of None \<Rightarrow> fail_with (AuthText (lit ''user not found''))
        | Some u \<Rightarrow> andthen (admin_users_from_users c [u]) (\<lambda>as. done_with (hd as))))"

definition first_of_type :: "identity_type \<Rightarrow> user_identity list \<Rightarrow> gostr" where
  "first_of_type ty is =
     (case List.find (\<lambda>i. ui_type i = ty \<and> ui_identifier i \<noteq> []) is of None \<Rightarrow> [] | Some i \<Rightarrow> ui_identifier i)"

definition current_user_contact_identities :: "user_identity list \<Rightarrow> user \<Rightarrow> gostr \<times> gostr" where
  "current_user_contact_identities is u =
     (let email = first_of_type IdentityEmail is; phone = first_of_type IdentityPhone is in
      (if email = [] \<and> at_sign (us_email u) then us_email u else email,
       if phone = [] \<and> us_email u \<noteq> [] \<and> \<not> at_sign (us_email u) then us_email u else phone))"

definition has_remaining_login_identity :: "user_identity list \<Rightarrow> bool \<Rightarrow> bool \<Rightarrow> gostr \<Rightarrow> gostr \<Rightarrow> bool" where
  "has_remaining_login_identity is new_email new_phone final_email final_phone \<longleftrightarrow>
     final_email \<noteq> [] \<or> final_phone \<noteq> [] \<or>
     list_ex (\<lambda>i. case ui_type i of IdentityOAuth \<Rightarrow> True | IdentityEmail \<Rightarrow> \<not> new_email | IdentityPhone \<Rightarrow> \<not> new_phone) is"

record admin_edit =
  ax_role :: "user_role option"
  ax_status :: "user_status option"
  ax_email :: "gostr option"
  ax_phone :: "gostr option"
  ax_display_name :: "gostr option"
  ax_avatar_url :: "gostr option"
  ax_admin_note :: "gostr option"

text \<open>A new address or number, normalised: it must not be another user's.\<close>

definition check_admin_identity ::
  "('s, 'r) auth_config \<Rightarrow> string \<Rightarrow> identity_type \<Rightarrow> user \<Rightarrow> gostr + gostr \<Rightarrow> ('s, 'r, gostr) auth_op" where
  "check_admin_identity c what ty target normalized =
     (case normalized of Inl e \<Rightarrow> fail_with (AuthText e)
      | Inr value \<Rightarrow>
          if value = [] then done_with value
          else andthen (users_or c what (get_user_by_identity ty value)) (\<lambda>found.
            case found of Some o1 \<Rightarrow> if us_id o1 \<noteq> us_id target then fail_with IdentifierAlreadyExists else done_with value
            | None \<Rightarrow> done_with value))"

definition write_admin_identity ::
  "('s, 'r) auth_config \<Rightarrow> auth_draws \<Rightarrow> string \<Rightarrow> string \<Rightarrow> gostr \<Rightarrow> identity_type \<Rightarrow> user \<Rightarrow> gostr \<Rightarrow> ('s, 'r, unit) auth_op" where
  "write_admin_identity c d what_del what_save new_id ty target value =
     (if value = [] then users_or c what_del (delete_user_identity (us_id target) ty)
      else users_or c what_save (save_user_identity (verified_identity d new_id (us_id target) ty [] value True)))"

definition edit_profile :: "admin_edit \<Rightarrow> user_profile \<Rightarrow> user_profile" where
  "edit_profile x p =
     (let p1 = (case ax_display_name x of None \<Rightarrow> p | Some name \<Rightarrow> p\<lparr>up_display_name := sanitize_display_name name\<rparr>);
          p2 = (case ax_avatar_url x of None \<Rightarrow> p1
                | Some url \<Rightarrow> if trim_space (up_avatar_storage_key p1) = [] then p1\<lparr>up_avatar_url := normalize_avatar_url url\<rparr> else p1)
      in case ax_admin_note x of None \<Rightarrow> p2 | Some note \<Rightarrow> p2\<lparr>up_admin_note := trim_space note\<rparr>)"

text \<open>What an administrator may not do to the own account.\<close>

definition self_edit_error :: "user \<Rightarrow> user \<Rightarrow> admin_edit \<Rightarrow> auth_err option" where
  "self_edit_error admin target x =
     (if us_id target \<noteq> us_id admin then None
      else if (case ax_role x of None \<Rightarrow> False | Some r \<Rightarrow> r \<noteq> us_role admin) then Some (AuthText (lit ''cannot change own role''))
      else if ax_status x = Some UserDisabled then Some (AuthText (lit ''cannot disable self''))
      else None)"

text \<open>The second half of \<open>AdminUpdateUser\<close>, which writes.  The user is saved before the profile and the identities.\<close>

definition write_admin_update ::
  "('s, 'r) auth_config \<Rightarrow> auth_draws \<Rightarrow> admin_edit \<Rightarrow> user \<Rightarrow> user_profile \<Rightarrow> gostr option \<Rightarrow> gostr option \<Rightarrow>
   ('s, 'r, admin_user) auth_op" where
  "write_admin_update c d x target profile email phone =
     andthen (users_or c ''update user: '' (save_user target)) (\<lambda>_.
     andthen (if ax_display_name x \<noteq> None \<or> ax_avatar_url x \<noteq> None \<or> ax_admin_note x \<noteq> None
              then save_profile_or c ''update profile: '' (profile\<lparr>up_updated_at := ad_now d\<rparr>) else done_with ()) (\<lambda>_.
     andthen (case email of None \<Rightarrow> done_with ()
              | Some v \<Rightarrow> write_admin_identity c d ''delete email identity: '' ''update email identity: '' (ad_ids d 0) IdentityEmail target v) (\<lambda>_.
     andthen (case phone of None \<Rightarrow> done_with ()
              | Some v \<Rightarrow> write_admin_identity c d ''delete phone identity: '' ''update phone identity: '' (ad_ids d 1) IdentityPhone target v) (\<lambda>_.
     andthen (if ax_status x = Some UserDisabled
              then wrap_error ''revoke disabled user tokens: '' text_of (revoke_all_user_tokens c d (us_id target) (ad_now d))
              else done_with ()) (\<lambda>_.
     andthen (admin_users_from_users c [target]) (\<lambda>as. done_with (hd as)))))))"

definition admin_update_user ::
  "('s, 'r) auth_config \<Rightarrow> auth_draws \<Rightarrow> user \<Rightarrow> gostr \<Rightarrow> admin_edit \<Rightarrow> ('s, 'r, admin_user) auth_op" where
  "admin_update_user c d admin uid x =
     andthen (users_or c ''fetch user: '' (get_user_by_id uid)) (\<lambda>found.
     case found of None \<Rightarrow> fail_with (AuthText (lit ''user not found''))
     | Some target0 \<Rightarrow>
     (case self_edit_error admin target0 x of Some e \<Rightarrow> fail_with e
      | None \<Rightarrow>
     let target1 = target0\<lparr>us_role := (case ax_role x of None \<Rightarrow> us_role target0 | Some r \<Rightarrow> r),
                          us_status := (case ax_status x of None \<Rightarrow> us_status target0 | Some s \<Rightarrow> s)\<rparr>
     in andthen (profile_for_update c d (us_id target1)) (\<lambda>profile0.
     andthen (users_or c ''fetch user identities: '' (list_user_identities [us_id target1])) (\<lambda>idents.
     let mine = (case idents (us_id target1) of None \<Rightarrow> [] | Some is \<Rightarrow> is);
         (email0, phone0) = current_user_contact_identities mine target1
     in andthen (case ax_email x of None \<Rightarrow> done_with None
              | Some e \<Rightarrow> andthen (check_admin_identity c ''check email identity: '' IdentityEmail target1 (normalize_admin_email c e))
                           (\<lambda>v. done_with (Some v))) (\<lambda>email.
     andthen (case ax_phone x of None \<Rightarrow> done_with None
              | Some p \<Rightarrow> andthen (check_admin_identity c ''check phone identity: '' IdentityPhone target1 (normalize_admin_phone p))
                           (\<lambda>v. done_with (Some v))) (\<lambda>phone.
     let final_email = (case email of None \<Rightarrow> email0 | Some v \<Rightarrow> v);
         final_phone = (case phone of None \<Rightarrow> phone0 | Some v \<Rightarrow> v)
     in if (email \<noteq> None \<or> phone \<noteq> None) \<and>
           \<not> has_remaining_login_identity mine (email \<noteq> None) (phone \<noteq> None) final_email final_phone
        then fail_with (AuthText (lit ''user must have at least one login identity''))
        else write_admin_update c d x
               (target1\<lparr>us_updated_at := ad_now d, us_email := (if final_email = [] then final_phone else final_email)\<rparr>)
               (edit_profile x profile0) email phone))))))"

definition admin_delete_user :: "('s, 'r) auth_config \<Rightarrow> auth_draws \<Rightarrow> user \<Rightarrow> gostr \<Rightarrow> ('s, 'r, unit) auth_op" where
  "admin_delete_user c d admin uid0 =
     (let uid = trim_space uid0 in
      if uid = [] then fail_with (AuthText (lit ''user id required''))
      else andthen (users_or c ''fetch user: '' (get_user_by_id uid)) (\<lambda>found.
        case found of None \<Rightarrow> fail_with (AuthText (lit ''user not found''))
        | Some target \<Rightarrow>
            if us_id target = us_id admin then fail_with (AuthText (lit ''cannot delete self''))
            else andthen (wrap_error ''revoke deleted user tokens: '' text_of (revoke_all_user_tokens c d (us_id target) (ad_now d))) (\<lambda>_.
                 users_or c ''delete user: '' (delete_user (us_id target)))))"

definition save_admin_audit_log :: "('s, 'r) auth_config \<Rightarrow> auth_draws \<Rightarrow> audit_entry \<Rightarrow> ('s, 'r, audit_entry) auth_op" where
  "save_admin_audit_log c d e0 =
     (let e1 = e0\<lparr>ae_actor_id := trim_space (ae_actor_id e0), ae_action := trim_space (ae_action e0),
                  ae_target_type := trim_space (ae_target_type e0), ae_target_id := trim_space (ae_target_id e0)\<rparr>;
          e = e1\<lparr>ae_id := (if trim_space (ae_id e1) = [] then ad_ids d 0 else ae_id e1),
                 ae_created_at := (if is_zero (ae_created_at e1) then ad_now d else ae_created_at e1)\<rparr>
      in if ae_actor_id e1 = [] \<or> ae_action e1 = [] \<or> ae_target_type e1 = [] \<or> ae_target_id e1 = []
         then fail_with (AuthText (lit ''actorId, action, targetType and targetId are required''))
         else andthen (users_or c ''save admin audit log: '' (insert_audit_entry e)) (\<lambda>_. done_with e))"

end
