(* ===== verification/AuthFacts.thy ===== *)
theory AuthFacts
  imports AuthApp UserFacts
begin

text \<open>
  What the operations of the auth service do to the tables.  \<open>keeps\<close> is an invariant of an operation whatever calls
  fail, \<open>gives\<close> says what holds of its result; both follow the steps of an operation.
\<close>

named_theorems keeps_rules

definition users_of :: "('s, 'r) auth_app \<Rightarrow> user_tables" where
  "users_of w = fst (aa_db w)"

definition keeps :: "(user_tables \<Rightarrow> bool) \<Rightarrow> ('s, 'r, 'a) auth_op \<Rightarrow> bool" where
  "keeps P m \<longleftrightarrow> (\<forall>w. P (users_of w) \<longrightarrow> P (users_of (snd (m w))))"

lemma keepsD: "keeps P m \<Longrightarrow> P (users_of w) \<Longrightarrow> m w = (r, w') \<Longrightarrow> P (users_of w')"
  by (metis keeps_def snd_conv)

lemma keepsI: "(\<And>w r w'. P (users_of w) \<Longrightarrow> m w = (r, w') \<Longrightarrow> P (users_of w')) \<Longrightarrow> keeps P m"
  by (metis keeps_def surj_pair snd_conv)

lemma users_call_keeps:
  assumes "\<And>t x t'. P t \<Longrightarrow> f t = (Inr x, t') \<Longrightarrow> P t'" "P (users_of w)"
  shows "P (users_of (snd (users_call f w)))"
proof -
  obtain t os where d: "aa_db w = (t, os)" by (cases "aa_db w")
  have "P (fst (snd (db_call f (t, os))))" by (rule db_call_inv) (use assms d in \<open>auto simp: users_of_def\<close>)
  then show ?thesis by (simp add: users_call_def users_of_def d case_prod_beta)
qed

lemma users_call_ok:
  assumes "users_call f w = (Inr x, w')"
  shows "f (users_of w) = (Inr x, users_of w')"
proof -
  obtain t os where d: "aa_db w = (t, os)" by (cases "aa_db w")
  obtain r t' os' where c: "db_call f (t, os) = (r, (t', os'))" by (metis surj_pair)
  have "r = Inr x" "w' = w\<lparr>aa_db := (t', os')\<rparr>" using assms by (auto simp: users_call_def d c)
  then show ?thesis using db_call_result [of f t os x t' os'] c d by (simp add: users_of_def)
qed

lemma users_or_ok: "users_or c what f w = (Inr x, w') \<Longrightarrow> f (users_of w) = (Inr x, users_of w')"
  using users_call_ok [of f w] by (auto simp: users_or_def split: sum.splits prod.splits)

lemma keeps_call:
  assumes "\<And>t x t'. P t \<Longrightarrow> f t = (Inr x, t') \<Longrightarrow> P t'"
  shows "keeps P (users_or c what f)"
proof (rule keepsI)
  fix w r w' assume p: "P (users_of w)" and r: "users_or c what f w = (r, w')"
  have "P (users_of (snd (users_call f w)))" using users_call_keeps [of P f w] assms p by blast
  then show "P (users_of w')" using r by (auto simp: users_or_def split: sum.splits prod.splits)
qed

lemma keeps_andthen [keeps_rules]:
  assumes "keeps P m" "\<And>x. keeps P (k x)"
  shows "keeps P (andthen m k)"
proof (rule keepsI)
  fix w r w' assume p: "P (users_of w)" and r: "andthen m k w = (r, w')"
  obtain q w1 where m: "m w = (q, w1)" by (metis surj_pair)
  show "P (users_of w')"
    using keepsD [OF assms(1) p m] keepsD [OF assms(2)] m r by (cases q) (auto simp: andthen_def)
qed

lemma keeps_simple [keeps_rules]:
  "keeps P (done_with x)" "keeps P (fail_with e)" "keeps P (check_new_password c pw)" "keeps P (hash_or_fail c pw)"
  "keeps P (new_session_or c d uid)"
  by (auto simp: keeps_def done_with_def fail_with_def check_new_password_def hash_or_fail_def new_session_or_def
      split: option.split sum.split)

lemma keeps_split [keeps_rules]:
  "(b \<Longrightarrow> keeps P m) \<Longrightarrow> (\<not> b \<Longrightarrow> keeps P m') \<Longrightarrow> keeps P (if b then m else m')"
  "keeps P m1 \<Longrightarrow> (\<And>x. keeps P (k1 x)) \<Longrightarrow> keeps P (case o1 of None \<Rightarrow> m1 | Some x \<Rightarrow> k1 x)"
  "(\<And>x y. keeps P (k2 x y)) \<Longrightarrow> keeps P (case p of (x, y) \<Rightarrow> k2 x y)"
  "(\<And>e. keeps P (k3 e)) \<Longrightarrow> (\<And>x. keeps P (k4 x)) \<Longrightarrow> keeps P (case s of Inl e \<Rightarrow> k3 e | Inr x \<Rightarrow> k4 x)"
  by (auto split: option.split prod.split sum.split)

lemma keeps_let [keeps_rules]: "(\<And>x. x = v \<Longrightarrow> keeps P (k x)) \<Longrightarrow> keeps P (Let v k)"
  by simp

lemma issue_tokens_frame: "aa_db (snd (issue_tokens c d uid w)) = aa_db w"
  by (auto simp: issue_tokens_def andthen_def new_session_or_def fail_with_def done_with_def split: sum.split prod.split)

lemma keeps_stores [keeps_rules]:
  "keeps P (issue_tokens c d uid)" "keeps P (delete_refresh c d tok)" "keeps P (revoke_refresh_token c d tok)"
  "keeps P (revoke_all_user_tokens c d uid since)"
  by (auto simp: keeps_def users_of_def issue_tokens_frame delete_refresh_def revoke_refresh_token_def Let_def
      revoke_all_user_tokens_def done_with_def split: option.split prod.split sum.split)

lemma keeps_wrap [keeps_rules]: "keeps P m \<Longrightarrow> keeps P (wrap_error what f m)" "keeps P m \<Longrightarrow> keeps P (or_exists m)"
  by (auto simp: keeps_def wrap_error_def or_exists_def case_prod_beta split: sum.split)

lemma user_with_profile_frame: "users_of (snd (user_with_profile u w)) = users_of w"
proof -
  have "users_of (snd (users_call (get_user_profile (us_id u)) w)) = users_of w"
    by (rule users_call_keeps [where P = "\<lambda>t. t = users_of w"]) (auto simp: get_user_profile_def)
  then show ?thesis by (simp add: user_with_profile_def case_prod_beta split: sum.split option.split)
qed

lemma keeps_profile [keeps_rules]: "keeps P (user_with_profile u)"
  by (simp add: keeps_def user_with_profile_frame)

lemma keeps_objects [keeps_rules]: "keeps P (put_avatar key data ty)"
  by (simp add: keeps_def put_avatar_def users_of_def Let_def case_prod_beta)

lemma delete_avatar_users [simp]: "users_of (delete_avatar key w) = users_of w"
  by (simp add: delete_avatar_def users_of_def Let_def case_prod_beta)

section \<open>Operations keep the invariant\<close>

text \<open>An invariant that every statement keeps.\<close>

definition stable :: "(user_tables \<Rightarrow> bool) \<Rightarrow> bool" where
  "stable P \<longleftrightarrow>
     (\<forall>u t. P t \<longrightarrow> P (snd (save_user u t))) \<and>
     (\<forall>u is t x t'. P t \<longrightarrow> save_user_with_identities u is t = (Inr x, t') \<longrightarrow> P t') \<and>
     (\<forall>i t x t'. P t \<longrightarrow> save_user_identity i t = (Inr x, t') \<longrightarrow> P t') \<and>
     (\<forall>p t x t'. P t \<longrightarrow> save_user_profile p t = (Inr x, t') \<longrightarrow> P t') \<and>
     (\<forall>uid ip agent at_time t x t'. P t \<longrightarrow> update_user_login_activity uid ip agent at_time t = (Inr x, t') \<longrightarrow> P t') \<and>
     (\<forall>uid ty t. P t \<longrightarrow> P (snd (delete_user_identity uid ty t))) \<and>
     (\<forall>uid t. P t \<longrightarrow> P (snd (delete_user uid t))) \<and>
     (\<forall>e t x t'. P t \<longrightarrow> insert_audit_entry e t = (Inr x, t') \<longrightarrow> P t')"

lemma stable_users_ok: "stable users_ok"
  unfolding stable_def
proof (intro conjI allI impI)
  fix t u assume "users_ok t" then show "users_ok (snd (save_user u t))" using save_user_ok [of t u "()"] by (simp add: save_user_def)
next
  fix t uid ty assume "users_ok t" then show "users_ok (snd (delete_user_identity uid ty t))"
    using delete_user_identity_ok [of t uid ty "()"] by (simp add: delete_user_identity_def)
next
  fix t uid assume ok: "users_ok t"
  have "fst (delete_user uid t) = Inr ()" by (simp add: delete_user_def Let_def)
  then show "users_ok (snd (delete_user uid t))" using delete_user_ok [OF ok] by (metis prod.collapse)
qed (erule (1) user_ops_ok)+

lemma stableD:
  assumes "stable P"
  shows "P t \<Longrightarrow> save_user u t = (Inr x, t') \<Longrightarrow> P t'"
    and "P t \<Longrightarrow> save_user_with_identities u is t = (Inr x, t') \<Longrightarrow> P t'"
    and "P t \<Longrightarrow> save_user_identity i t = (Inr x, t') \<Longrightarrow> P t'"
    and "P t \<Longrightarrow> save_user_profile p t = (Inr x, t') \<Longrightarrow> P t'"
    and "P t \<Longrightarrow> update_user_login_activity uid ip agent at_time t = (Inr x, t') \<Longrightarrow> P t'"
    and "P t \<Longrightarrow> delete_user_identity uid ty t = (Inr x, t') \<Longrightarrow> P t'"
    and "P t \<Longrightarrow> delete_user uid t = (Inr x, t') \<Longrightarrow> P t'"
    and "P t \<Longrightarrow> insert_audit_entry e t = (Inr x, t') \<Longrightarrow> P t'"
  using assms unfolding stable_def by (metis snd_conv)+

lemma queries_keep [keeps_rules]:
  "keeps P (users_or c what (get_user_by_id uid))" "keeps P (users_or c what user_count)" "keeps P (users_or c what list_users)"
  "keeps P (users_or c what (has_user_identity ty ident))" "keeps P (users_or c what (get_user_by_identity ty ident))"
  "keeps P (users_or c what (get_user_by_provider_identity prov ident))" "keeps P (users_or c what (list_user_identities ids))"
  "keeps P (users_or c what (get_user_profile uid))" "keeps P (users_or c what (list_user_profiles ids))"
  "keeps P (users_or c what (list_users_with_options lw opts))" "keeps P (users_or c what (list_admin_audit_logs aopts))"
  by (rule keeps_call; simp add: user_queries Let_def)+

lemma writes_keep:
  "stable P \<Longrightarrow> keeps P (users_or c what (save_user u))"
  "stable P \<Longrightarrow> keeps P (users_or c what (save_user_with_identities u is))"
  "stable P \<Longrightarrow> keeps P (users_or c what (save_user_identity i))"
  "stable P \<Longrightarrow> keeps P (users_or c what (save_user_profile p))"
  "stable P \<Longrightarrow> keeps P (users_or c what (update_user_login_activity uid ip agent at_time))"
  "stable P \<Longrightarrow> keeps P (users_or c what (delete_user_identity uid ty))"
  "stable P \<Longrightarrow> keeps P (users_or c what (delete_user uid))"
  "stable P \<Longrightarrow> keeps P (users_or c what (insert_audit_entry e))"
  by (rule keeps_call; erule (2) stableD)+

text \<open>Operations that look at the result of a step.\<close>

lemma keeps_catch [keeps_rules]:
  assumes "keeps P m" "\<And>e. keeps P (g e)" "\<And>x. keeps P (h x)"
  shows "keeps P (\<lambda>w. case m w of (Inl e, w1) \<Rightarrow> g e w1 | (Inr x, w1) \<Rightarrow> h x w1)"
proof (rule keepsI)
  fix w r w' assume p: "P (users_of w)" and r: "(case m w of (Inl e, w1) \<Rightarrow> g e w1 | (Inr x, w1) \<Rightarrow> h x w1) = (r, w')"
  obtain q w1 where m: "m w = (q, w1)" by (metis surj_pair)
  have p1: "P (users_of w1)" by (rule keepsD [OF assms(1) p m])
  show "P (users_of w')"
  proof (cases q)
    case (Inl e)
    then have "g e w1 = (r, w')" using r m by simp
    then show ?thesis by (rule keepsD [OF assms(2) p1])
  next
    case (Inr x)
    then have "h x w1 = (r, w')" using r m by simp
    then show ?thesis by (rule keepsD [OF assms(3) p1])
  qed
qed

lemma keeps_fun [keeps_rules]:
  "keeps P (\<lambda>w. (r, w))"
  "(b \<Longrightarrow> keeps P m) \<Longrightarrow> (\<not> b \<Longrightarrow> keeps P m') \<Longrightarrow> keeps P (\<lambda>w. if b then m w else m' w)"
  "keeps P m1 \<Longrightarrow> (\<And>x. keeps P (k1 x)) \<Longrightarrow> keeps P (\<lambda>w. case o1 of None \<Rightarrow> m1 w | Some x \<Rightarrow> k1 x w)"
  "keeps P m \<Longrightarrow> keeps P (\<lambda>w. (r, snd (m w)))"
  by (auto simp: keeps_def split: option.split)

locale stable_invariant =
  fixes P :: "user_tables \<Rightarrow> bool"
  assumes s: "stable P"
begin

lemma profile_ops_keep:
  "keeps P (save_profile_or c what p)" "keeps P (ensure_user_profile c d uid name url)" "keeps P (profile_for_update c d uid)"
  unfolding save_profile_or_def ensure_user_profile_def profile_for_update_def
  by (intro keeps_rules writes_keep s)+

lemma issue_keep:
  "keeps P (issue_user_tokens c d u)" "keeps P (issue_login_tokens c d activity u)"
  "keeps P (create_user_with_identity c d ty ident hash role)"
  unfolding issue_user_tokens_def issue_login_tokens_def create_user_with_identity_def
  by (intro keeps_rules writes_keep s)+

lemmas step_rules = keeps_rules writes_keep s profile_ops_keep issue_keep

lemma sign_up_keeps:
  "keeps P (sign_up_verified c d ty ident pw)" "keeps P (sign_up_passwordless_verified c d ty ident)"
  unfolding sign_up_verified_def sign_up_passwordless_verified_def by (intro step_rules)+

lemma login_keeps:
  "keeps P (login_with_password_by_identity c d ty ident pw activity)" "keeps P (login_by_identity c d ty ident activity)"
  unfolding login_with_password_by_identity_def login_by_identity_def by (intro step_rules)+

lemma oauth_keeps:
  "keeps P (oauth_conflict c d what prov subject activity e)" "keeps P (link_oauth c d prov subject input u)"
  "keeps P (create_oauth_user c d prov subject email verified role name url)" "keeps P (oauth_new_user c d prov subject email input)"
proof -
  show a: "keeps P (oauth_conflict c d what prov subject activity e)" for what activity e
    unfolding oauth_conflict_def by (intro step_rules)
  show b: "keeps P (create_oauth_user c d prov subject email verified role name url)" for email verified role name url
    unfolding create_oauth_user_def by (intro step_rules)
  show "keeps P (link_oauth c d prov subject input u)" unfolding link_oauth_def by (intro step_rules a)
  show "keeps P (oauth_new_user c d prov subject email input)" unfolding oauth_new_user_def by (intro step_rules a b)
qed

lemma complete_oauth_keeps: "keeps P (complete_oauth_login c d input)"
  unfolding complete_oauth_login_def by (intro step_rules oauth_keeps)

lemma refresh_keeps: "keeps P (refresh c d token)"
proof (rule keepsI)
  fix w r w' assume p: "P (users_of w)" and r: "refresh c d token w = (r, w')"
  have for1: "keeps P (refresh_for c d uid tok)" for uid tok
    unfolding refresh_for_def by (intro step_rules)
  have same: "P (users_of (w\<lparr>aa_refresh := s\<rparr>))" for s using p by (simp add: users_of_def)
  show "P (users_of w')"
    using r p keepsD [OF for1 same] same
    by (auto simp: refresh_def Let_def split: if_splits prod.splits sum.splits refresh_fail.splits)
qed

lemma password_keeps:
  "keeps P (change_password c d uid cur new_pw)" "keeps P (reset_password_by_identity c d ty ident new_pw)"
proof -
  have save: "keeps P (save_password c d u uid hash)" for u uid hash unfolding save_password_def by (intro step_rules)
  show "keeps P (change_password c d uid cur new_pw)" "keeps P (reset_password_by_identity c d ty ident new_pw)"
    unfolding change_password_def reset_password_by_identity_def by (intro step_rules save)+
qed

lemma my_profile_keeps:
  "keeps P (check_my_email c u email)" "keeps P (save_my_email c d u email)" "keeps P (update_my_email c d u email0)"
  "keeps P (adminless_user c uid)" "keeps P (update_my_profile c d u new_email name)"
proof -
  show a: "keeps P (check_my_email c u email)" for u email unfolding check_my_email_def by (intro step_rules)
  show b: "keeps P (save_my_email c d u email)" for u email unfolding save_my_email_def by (intro step_rules)
  show e: "keeps P (update_my_email c d u email0)" for email0 unfolding update_my_email_def by (intro step_rules a b)
  show g: "keeps P (adminless_user c uid)" for uid unfolding adminless_user_def by (intro step_rules)
  show "keeps P (update_my_profile c d u new_email name)" unfolding update_my_profile_def by (intro step_rules e g)
qed

lemma avatar_keeps: "keeps P (upload_user_avatar c d u data filename)"
proof -
  have del: "keeps P (\<lambda>w. adminless_user c uid (if b then delete_avatar key w else w))" for uid b key
    using my_profile_keeps(4) [of c uid] by (auto simp: keeps_def)
  have gone: "keeps P (\<lambda>w. (Inl e, delete_avatar key w))" for e key by (simp add: keeps_def)
  show ?thesis unfolding upload_user_avatar_def by (intro step_rules del gone)
qed

lemma admin_keeps:
  "keeps P (admin_users_from_users c us)" "keeps P (admin_update_user c d admin uid x)" "keeps P (admin_delete_user c d admin uid)"
  "keeps P (save_admin_audit_log c d entry)"
proof -
  show a: "keeps P (admin_users_from_users c us)" for us unfolding admin_users_from_users_def by (intro step_rules)
  have b: "keeps P (check_admin_identity c what ty target v)" for what ty target v
    unfolding check_admin_identity_def by (intro step_rules)
  have g: "keeps P (write_admin_identity c d wd ws i ty target v)" for wd ws i ty target v
    unfolding write_admin_identity_def by (intro step_rules)
  have h: "keeps P (write_admin_update c d x target p email phone)" for target p email phone
    unfolding write_admin_update_def by (intro step_rules a g)
  show "keeps P (admin_update_user c d admin uid x)"
    unfolding admin_update_user_def by (intro step_rules a b h)
  show "keeps P (admin_delete_user c d admin uid)" unfolding admin_delete_user_def by (intro step_rules)
  show "keeps P (save_admin_audit_log c d entry)" unfolding save_admin_audit_log_def by (intro step_rules)
qed

end

interpretation users_ok: stable_invariant users_ok
  by unfold_locales (rule stable_users_ok)

section \<open>Results of operations\<close>

text \<open>When the operation succeeds from tables with \<open>P\<close>, the result and the tables satisfy \<open>Q\<close>.\<close>

definition gives :: "(user_tables \<Rightarrow> bool) \<Rightarrow> ('s, 'r, 'a) auth_op \<Rightarrow> ('a \<Rightarrow> user_tables \<Rightarrow> bool) \<Rightarrow> bool" where
  "gives P m Q \<longleftrightarrow> (\<forall>w x w'. P (users_of w) \<longrightarrow> m w = (Inr x, w') \<longrightarrow> Q x (users_of w'))"

named_theorems gives_rules

lemma givesD: "gives P m Q \<Longrightarrow> P (users_of w) \<Longrightarrow> m w = (Inr x, w') \<Longrightarrow> Q x (users_of w')"
  unfolding gives_def by blast

lemma gives_andthen:
  assumes "gives P m R" "\<And>x. gives (R x) (k x) Q"
  shows "gives P (andthen m k) Q"
  unfolding gives_def
proof (intro allI impI)
  fix w x w' assume p: "P (users_of w)" and r: "andthen m k w = (Inr x, w')"
  obtain q w1 where m: "m w = (q, w1)" by (metis surj_pair)
  obtain y where y: "q = Inr y" "k y w1 = (Inr x, w')" using r m by (auto simp: andthen_def split: sum.splits)
  have "R y (users_of w1)" by (rule givesD [OF assms(1) p]) (use m y in simp)
  then show "Q x (users_of w')" using y(2) by (rule givesD [OF assms(2)])
qed

lemma gives_skip [gives_rules]:
  assumes "\<And>x. gives P (k x) Q" "keeps P m"
  shows "gives P (andthen m k) Q"
proof (rule gives_andthen [where R = "\<lambda>_. P"])
  show "gives P m (\<lambda>_. P)" unfolding gives_def using keepsD [OF assms(2)] by blast
qed (rule assms(1))

lemma gives_fail [gives_rules]: "gives P (fail_with e) Q"
  by (simp add: gives_def fail_with_def)

lemma gives_if [gives_rules]: "(b \<Longrightarrow> gives P m Q) \<Longrightarrow> (\<not> b \<Longrightarrow> gives P m' Q) \<Longrightarrow> gives P (if b then m else m') Q"
  by simp

lemma gives_option [gives_rules]:
  "gives P m1 Q \<Longrightarrow> (\<And>x. o1 = Some x \<Longrightarrow> gives P (k1 x) Q) \<Longrightarrow> gives P (case o1 of None \<Rightarrow> m1 | Some x \<Rightarrow> k1 x) Q"
  by (cases o1) simp_all

lemma gives_call:
  assumes "\<And>t x t'. P t \<Longrightarrow> f t = (Inr x, t') \<Longrightarrow> Q x t'"
  shows "gives P (users_or c what f) Q"
  unfolding gives_def
proof (intro allI impI)
  fix w x w' assume "P (users_of w)" "users_or c what f w = (Inr x, w')"
  then show "Q x (users_of w')" using assms [of "users_of w" x "users_of w'"] users_or_ok [of c what f w x w'] by simp
qed

text \<open>A user of the tables who may log in, as far as tokens are concerned.\<close>

definition entitled :: "user \<Rightarrow> user_tables \<Rightarrow> bool" where
  "entitled u t \<longleftrightarrow>
     (\<exists>row\<in>set (ut_users t). us_id row = us_id u \<and> us_status row = UserActive \<and> us_role row = us_role u \<and>
        us_password_hash row = us_password_hash u)"

lemma entitled_profile [simp]: "entitled (with_profile u p) t \<longleftrightarrow> entitled u t"
  by (simp add: entitled_def with_profile_def)

lemma entitled_row: "u \<in> set (ut_users t) \<Longrightarrow> us_status u = UserActive \<Longrightarrow> entitled u t"
  by (auto simp: entitled_def)

lemma issue_user_gives: "gives (entitled u) (issue_user_tokens c d u) (\<lambda>(u', _, _). entitled u')"
  unfolding gives_def
proof (intro allI impI)
  fix w x w' assume p: "entitled u (users_of w)" and r: "issue_user_tokens c d u w = (Inr x, w')"
  obtain u1 w1 where u1: "user_with_profile u w = (Inr u1, w1)" "\<exists>p. u1 = u \<or> u1 = with_profile u p"
  proof -
    obtain q v where q: "users_call (get_user_profile (us_id u)) w = (q, v)" by (metis surj_pair)
    show ?thesis
    proof (cases "\<exists>p. q = Inr (Some p)")
      case True
      then obtain p where "q = Inr (Some p)" by blast
      then show ?thesis using that [of "with_profile u p" v] q by (auto simp: user_with_profile_def)
    next
      case False
      then have "user_with_profile u w = (Inr u, v)" using q by (auto simp: user_with_profile_def split: sum.split option.split)
      then show ?thesis using that [of u v] by blast
    qed
  qed
  obtain q w2 where q: "issue_tokens c d (us_id u1) w1 = (q, w2)" by (metis surj_pair)
  have "users_of w1 = users_of w" using user_with_profile_frame [of u w] u1 by simp
  moreover have "users_of w2 = users_of w1" using issue_tokens_frame [of c d "us_id u1" w1] q by (simp add: users_of_def)
  moreover have "\<exists>a b. x = (u1, a, b) \<and> w' = w2"
    using r u1(1) q by (auto simp: issue_user_tokens_def andthen_def done_with_def split: sum.splits prod.splits)
  ultimately show "(case x of (u', _, _) \<Rightarrow> entitled u') (users_of w')" using p u1(2) by auto
qed

lemma entitled_profiles: "ut_users t' = ut_users t \<Longrightarrow> entitled u t' = entitled u t"
  by (simp add: entitled_def)

lemma profile_writes_entitled:
  "keeps (entitled u) (users_or c what (update_user_login_activity uid ip agent at_time))"
  "keeps (entitled u) (users_or c what (save_user_profile p))"
  by (rule keeps_call; auto simp: entitled_def update_user_login_activity_def save_user_profile_def Let_def split: if_splits)+

lemma ensure_entitled: "keeps (entitled u) (ensure_user_profile c d uid name url)"
  unfolding ensure_user_profile_def save_profile_or_def by (intro keeps_rules profile_writes_entitled)

lemma issue_login_gives: "gives (entitled u) (issue_login_tokens c d activity u) (\<lambda>(u', _, _). entitled u')"
  unfolding issue_login_tokens_def
proof (intro gives_rules keeps_rules profile_writes_entitled)
  fix x found
  have "gives (entitled v) (issue_user_tokens c d v) (\<lambda>(u', _, _). entitled u')" for v by (rule issue_user_gives)
  then show "gives (entitled u) (let profile = case found of None \<Rightarrow>
      new_profile (us_id u) (ad_now d)\<lparr>up_last_login_at := Some (ad_now d), up_login_count := 1\<rparr> | Some p \<Rightarrow> p
      in issue_user_tokens c d (with_profile u profile)) (\<lambda>(u', _, _). entitled u')"
    unfolding Let_def gives_def by (metis entitled_profile)
qed

lemma gives_weaken: "gives P m Q \<Longrightarrow> (\<And>t. P' t \<Longrightarrow> P t) \<Longrightarrow> gives P' m Q"
  unfolding gives_def by blast

definition found_entitled :: "user option \<Rightarrow> user_tables \<Rightarrow> bool" where
  "found_entitled found t \<longleftrightarrow> (\<forall>u. found = Some u \<longrightarrow> us_status u \<noteq> UserDisabled \<longrightarrow> entitled u t)"

lemma found_in: "(\<And>u. found = Some u \<Longrightarrow> u \<in> set (ut_users t)) \<Longrightarrow> found_entitled found t"
  unfolding found_entitled_def using entitled_row by (metis user_status.exhaust)

lemma lookups_give:
  "gives P (users_or c what (get_user_by_identity ty ident)) found_entitled"
  "gives P (users_or c what (get_user_by_provider_identity prov ident)) found_entitled"
  "gives P (users_or c what (get_user_by_id uid)) found_entitled"
  by (rule gives_call, rule found_in,
      auto simp: get_user_by_identity_def get_user_by_provider_identity_def get_user_by_id_def find_Some_iff
        dest: user_with_identity_found(1))+

abbreviation granted :: "user \<times> gostr \<times> gostr \<Rightarrow> user_tables \<Rightarrow> bool" where
  "granted \<equiv> \<lambda>(u, _, _). entitled u"

lemma active_gives:
  assumes "gives (entitled u) k Q"
  shows "gives (found_entitled (Some u)) (if us_status u = UserDisabled then fail_with e else k) Q"
  by (intro gives_rules gives_weaken [OF assms]) (simp add: found_entitled_def)

lemma login_gives:
  "gives P (login_with_password_by_identity c d ty ident pw activity) granted"
  "gives P (login_by_identity c d ty ident activity) granted"
  unfolding login_with_password_by_identity_def login_by_identity_def
  by (intro gives_if gives_fail gives_andthen [OF lookups_give(1)] gives_option active_gives issue_login_gives; simp only:;
      intro gives_if gives_fail gives_weaken [OF issue_login_gives]; simp add: found_entitled_def)+

lemma created_entitled:
  "gives P (users_or c what (save_user_with_identities (new_user d email hash role) is)) (\<lambda>_. entitled (new_user d email hash role))"
proof (rule gives_call)
  fix t x t' assume "save_user_with_identities (new_user d email hash role) is t = (Inr x, t')"
  then have "ut_users t' = upsert us_id assign_user (user_row (new_user d email hash role)) (ut_users t)"
    by (auto simp: save_user_with_identities_def save_user_def Let_def split: sum.splits)
  then have t': "ut_users t' = upsert us_id assign_user (user_row (new_user d email hash role)) (ut_users t)" .
  let ?n = "user_row (new_user d email hash role)"
  have "\<exists>row\<in>set (ut_users t'). row = ?n \<or> (\<exists>x. row = assign_user x ?n \<and> us_id x = us_id ?n)"
  proof (cases "us_id ?n \<in> us_id ` set (ut_users t)")
    case True
    then obtain x where x: "x \<in> set (ut_users t)" "us_id x = us_id ?n" by force
    then have "assign_user x ?n \<in> set (ut_users t')" using True unfolding t' by (auto simp: upsert_def update_where_def)
    then show ?thesis using x(2) by blast
  qed (simp add: t' upsert_def)
  then obtain row where row: "row \<in> set (ut_users t')" "row = ?n \<or> (\<exists>x. row = assign_user x ?n \<and> us_id x = us_id ?n)" by blast
  then show "entitled (new_user d email hash role) t'"
    unfolding entitled_def by (intro bexI [OF _ row(1)]) (auto simp: user_row_def assign_user_def new_user_def)
qed

lemma create_gives:
  "gives P (create_user_with_identity c d ty ident hash role) entitled"
  "gives P (or_exists (create_user_with_identity c d ty ident hash role)) entitled"
proof -
  show a: "gives P (create_user_with_identity c d ty ident hash role) entitled"
    unfolding create_user_with_identity_def Let_def
    by (rule gives_andthen [OF created_entitled]) (simp add: gives_def done_with_def)
  show "gives P (or_exists (create_user_with_identity c d ty ident hash role)) entitled"
    unfolding gives_def using givesD [OF a] by (auto simp: or_exists_def split: sum.splits prod.splits)
qed

lemma sign_up_gives:
  "gives P (sign_up_verified c d ty ident pw) granted" "gives P (sign_up_passwordless_verified c d ty ident) granted"
proof -
  have a: "gives P' (andthen (or_exists (create_user_with_identity c d ty i h role)) (issue_user_tokens c d)) granted" for P' i h role
    by (rule gives_andthen [OF create_gives(2)]) (rule issue_user_gives)
  have b: "gives P' (andthen m k) Q" if "\<And>x. gives (\<lambda>_. True) (k x) Q" for P' and m :: "('s, 'r, 'e) auth_op" and k Q
    by (rule gives_andthen [where R = "\<lambda>_ _. True"]) (simp_all add: gives_def that [unfolded gives_def])
  show "gives P (sign_up_verified c d ty ident pw) granted"
    unfolding sign_up_verified_def Let_def by (intro gives_if gives_fail a | rule b)+
  show "gives P (sign_up_passwordless_verified c d ty ident) granted"
    unfolding sign_up_passwordless_verified_def Let_def by (intro gives_if gives_fail a | rule b)+
qed

lemma gives_catch:
  assumes "gives P m R" "\<And>e. gives (\<lambda>_. True) (g e) Q" "\<And>x. gives (R x) (h x) Q"
  shows "gives P (\<lambda>w. case m w of (Inl e, w1) \<Rightarrow> g e w1 | (Inr x, w1) \<Rightarrow> h x w1) Q"
  unfolding gives_def
proof (intro allI impI)
  fix w x w' assume p: "P (users_of w)" and r: "(case m w of (Inl e, w1) \<Rightarrow> g e w1 | (Inr x, w1) \<Rightarrow> h x w1) = (Inr x, w')"
  obtain q w1 where m: "m w = (q, w1)" by (metis surj_pair)
  show "Q x (users_of w')"
  proof (cases q)
    case (Inl e)
    then have "g e w1 = (Inr x, w')" using r m by simp
    then show ?thesis by (rule givesD [OF assms(2) TrueI])
  next
    case (Inr y)
    then have "h y w1 = (Inr x, w')" using r m by simp
    moreover have "R y (users_of w1)" by (rule givesD [OF assms(1) p]) (use m Inr in simp)
    ultimately show ?thesis by (intro givesD [OF assms(3)])
  qed
qed

lemma gives_fun:
  "gives P (\<lambda>w. (Inl e, f w)) Q"
  "(b \<Longrightarrow> gives P m Q) \<Longrightarrow> (\<not> b \<Longrightarrow> gives P m' Q) \<Longrightarrow> gives P (\<lambda>w. if b then m w else m' w) Q"
  by (auto simp: gives_def)

lemma oauth_conflict_gives: "gives P (oauth_conflict c d what prov subject activity e) granted"
  unfolding oauth_conflict_def
  by (rule gives_andthen [OF lookups_give(2)]; intro gives_option gives_fail gives_if gives_weaken [OF issue_login_gives])
    (simp add: found_entitled_def)

lemma ensure_then_login:
  "gives (entitled u) (andthen (ensure_user_profile c d uid name url) (\<lambda>_. issue_login_tokens c d activity u)) granted"
  by (rule gives_skip [OF issue_login_gives ensure_entitled])

lemma save_identity_entitled: "gives (entitled u) (users_or c what (save_user_identity i)) (\<lambda>_. entitled u)"
  by (rule gives_call) (auto simp: entitled_def save_user_identity_def Let_def split: sum.splits)

lemma link_oauth_gives: "gives (found_entitled (Some u)) (link_oauth c d prov subject input u) granted"
  unfolding link_oauth_def
proof (intro gives_fun gives_if gives_fail [unfolded fail_with_def])
  assume active: "us_status u \<noteq> UserDisabled"
  show "gives (found_entitled (Some u)) (\<lambda>w. case users_or c ''save oauth identity: ''
      (save_user_identity (verified_identity d (ad_ids d 0) (us_id u) IdentityOAuth prov subject False)) w of
        (Inl e, w1) \<Rightarrow> if says_exists e
          then oauth_conflict c d ''fetch oauth identity after conflict: '' prov subject (oi_activity input) e w1 else (Inl e, w1)
      | (Inr _, w1) \<Rightarrow> andthen (ensure_user_profile c d (us_id u) (oi_display_name input) (oi_avatar_url input))
          (\<lambda>_. issue_login_tokens c d (oi_activity input) u) w1) granted"
    by (rule gives_weaken [where P = "entitled u"],
        intro gives_catch [OF save_identity_entitled] gives_fun oauth_conflict_gives ensure_then_login)
      (use active in \<open>simp add: found_entitled_def\<close>)
qed (simp add: gives_def fail_with_def)

lemma create_oauth_gives:
  "gives P (create_oauth_user c d prov subject email verified role name url) entitled"
  unfolding create_oauth_user_def Let_def
  by (rule gives_andthen [OF created_entitled], rule gives_skip [OF _ ensure_entitled]) (simp add: gives_def done_with_def)

lemma oauth_new_user_gives: "gives P (oauth_new_user c d prov subject email input) granted"
  unfolding oauth_new_user_def
  by (rule gives_andthen [where R = "\<lambda>_ _. True"], simp add: gives_def,
      intro gives_catch [OF create_oauth_gives] gives_fun oauth_conflict_gives issue_login_gives)

lemma complete_oauth_gives: "gives P (complete_oauth_login c d input) granted"
proof -
  have link: "gives (found_entitled o1) (link_oauth c d prov subject input u) granted" if "o1 = Some u" for o1 u prov subject
    using that link_oauth_gives by simp
  have again: "gives (found_entitled o1) (andthen (ensure_user_profile c d uid name url) (\<lambda>_. issue_login_tokens c d act u)) granted"
    if "o1 = Some u" "us_status u \<noteq> UserDisabled" for o1 u uid name url act
    using that by (intro gives_weaken [OF ensure_then_login]) (simp add: found_entitled_def)
  show ?thesis
    unfolding complete_oauth_login_def Let_def
    by (intro gives_if gives_fail gives_andthen [OF lookups_give(2)] gives_andthen [OF lookups_give(1)] gives_option
        oauth_new_user_gives link again) assumption+
qed

lemma refresh_for_gives: "gives P (refresh_for c d uid tok) granted"
  unfolding refresh_for_def
proof (rule gives_andthen [OF lookups_give(3)])
  fix found
  show "gives (found_entitled found) (\<lambda>w. case found of None \<Rightarrow> (Inl InvalidRefresh, snd (delete_refresh c d tok w))
      | Some u \<Rightarrow> if us_status u = UserDisabled then (Inl InvalidRefresh, snd (delete_refresh c d tok w))
          else case new_session_or c d (us_id u) w of (Inl e, w1) \<Rightarrow> (Inl e, snd (delete_refresh c d tok w1))
               | (Inr access, w1) \<Rightarrow> (Inr (u, access, tok), w1)) granted"
    by (cases found)
      (auto simp: gives_def found_entitled_def new_session_or_def fail_with_def done_with_def split: sum.splits)
qed

lemma refresh_gives: "gives P (refresh c d token) granted"
  unfolding gives_def
proof (intro allI impI)
  fix w x w' assume r: "refresh c d token w = (Inr x, w')"
  obtain uid tok s where "refresh_for c d uid tok (w\<lparr>aa_refresh := s\<rparr>) = (Inr x, w')"
    using r by (auto simp: refresh_def Let_def split: if_splits prod.splits sum.splits refresh_fail.splits)
  then show "granted x (users_of w')"
    by (rule givesD [where P = "\<lambda>_. True", OF refresh_for_gives, rotated]) simp
qed

section \<open>Sequences of operations\<close>

datatype grant_call =
    GrantSignUp identity_type gostr gostr
  | GrantPasswordless identity_type gostr
  | GrantPassword identity_type gostr gostr login_activity
  | GrantIdentity identity_type gostr login_activity
  | GrantOAuth oauth_input
  | GrantRefresh gostr

text \<open>The operations that issue tokens.\<close>

fun grant :: "('s, 'r) auth_config \<Rightarrow> auth_draws \<Rightarrow> grant_call \<Rightarrow> ('s, 'r, user \<times> gostr \<times> gostr) auth_op" where
  "grant c d (GrantSignUp ty ident pw) = sign_up_verified c d ty ident pw"
| "grant c d (GrantPasswordless ty ident) = sign_up_passwordless_verified c d ty ident"
| "grant c d (GrantPassword ty ident pw act) = login_with_password_by_identity c d ty ident pw act"
| "grant c d (GrantIdentity ty ident act) = login_by_identity c d ty ident act"
| "grant c d (GrantOAuth input) = complete_oauth_login c d input"
| "grant c d (GrantRefresh token) = refresh c d token"

datatype auth_call =
    CallGrant grant_call
  | CallChangePassword gostr gostr gostr
  | CallResetPassword identity_type gostr gostr
  | CallMyProfile user "gostr option" "gostr option"
  | CallAvatar user "nat list" gostr
  | CallAdminUpdate user gostr admin_edit
  | CallAdminDelete user gostr
  | CallAudit audit_entry

text \<open>The world after a call.\<close>

fun auth_exec :: "('s, 'r) auth_config \<Rightarrow> auth_draws \<times> auth_call \<Rightarrow> ('s, 'r) auth_app \<Rightarrow> ('s, 'r) auth_app" where
  "auth_exec c (d, CallGrant g) w = snd (grant c d g w)"
| "auth_exec c (d, CallChangePassword uid cur new_pw) w = snd (change_password c d uid cur new_pw w)"
| "auth_exec c (d, CallResetPassword ty ident new_pw) w = snd (reset_password_by_identity c d ty ident new_pw w)"
| "auth_exec c (d, CallMyProfile u email name) w = snd (update_my_profile c d u email name w)"
| "auth_exec c (d, CallAvatar u data filename) w = snd (upload_user_avatar c d u data filename w)"
| "auth_exec c (d, CallAdminUpdate admin uid x) w = snd (admin_update_user c d admin uid x w)"
| "auth_exec c (d, CallAdminDelete admin uid) w = snd (admin_delete_user c d admin uid w)"
| "auth_exec c (d, CallAudit e) w = snd (save_admin_audit_log c d e w)"

definition empty_user_tables :: user_tables where
  "empty_user_tables = \<lparr>ut_users = [], ut_identities = [], ut_profiles = [], ut_audit = [], ut_books = empty_tables\<rparr>"

definition empty_auth_app :: "db_outcome list \<Rightarrow> call_outcome list \<Rightarrow> 's \<Rightarrow> 'r \<Rightarrow> ('s, 'r) auth_app" where
  "empty_auth_app os cs s r =
     \<lparr>aa_db = (empty_user_tables, os), aa_sessions = s, aa_refresh = r, aa_objects = Map.empty, aa_object_calls = cs\<rparr>"

lemma grant_gives: "gives P (grant c d g) granted"
  by (cases g) (simp_all add: sign_up_gives login_gives complete_oauth_gives refresh_gives)

lemma keeps_snd: "keeps P m \<Longrightarrow> P (users_of w) \<Longrightarrow> P (users_of (snd (m w)))"
  by (simp add: keeps_def)

context stable_invariant begin

lemma grant_keeps: "keeps P (grant c d g)"
  by (cases g) (simp_all add: sign_up_keeps login_keeps complete_oauth_keeps refresh_keeps)

lemma exec_keeps: "P (users_of w) \<Longrightarrow> P (users_of (auth_exec c (d, call) w))"
  by (cases call)
    (simp_all add: keeps_snd [OF grant_keeps] keeps_snd [OF password_keeps(1)] keeps_snd [OF password_keeps(2)]
      keeps_snd [OF my_profile_keeps(5)] keeps_snd [OF avatar_keeps] keeps_snd [OF admin_keeps(2)] keeps_snd [OF admin_keeps(3)]
      keeps_snd [OF admin_keeps(4)])

lemma run_keeps: "P (users_of w) \<Longrightarrow> P (users_of (fold (auth_exec c) calls w))"
  by (induction calls arbitrary: w) (auto simp: exec_keeps)

end

end
