(* ===== verification/AuthProps.thy ===== *)
theory AuthProps
  imports AuthFacts RefreshFamilies
begin

text \<open>
  The properties of the auth service: the invariant of its tables over every run, who may get tokens, what a new
  password ends, what an administrator cannot do to the own account, and where the service does not do what it means to.
\<close>

section \<open>Steps of an operation\<close>

lemma check_new_password_Inr [simp]: "check_new_password c pw w = (Inr x, w') \<longleftrightarrow> validate_password c pw = None \<and> w' = w"
  by (auto simp: check_new_password_def done_with_def fail_with_def split: option.splits)

lemma hash_Inr [simp]: "hash_or_fail c pw w = (Inr h, w') \<longleftrightarrow> ac_hash_password c pw = Inr h \<and> w' = w"
  by (auto simp: hash_or_fail_def done_with_def fail_with_def split: sum.splits)

text \<open>A call leaves the stores alone; a query that succeeds leaves the tables alone too.\<close>

lemma users_or_frame:
  assumes "users_or c what f w = (r, w')"
  shows "aa_sessions w' = aa_sessions w" "aa_refresh w' = aa_refresh w"
  using assms by (auto simp: users_or_def users_call_def split: sum.splits prod.splits)

lemma get_user_by_id_Inr:
  assumes "users_or c what (get_user_by_id uid) w = (Inr found, w')"
  shows "found = List.find (\<lambda>u. us_id u = uid) (ut_users (users_of w))" "users_of w' = users_of w"
  using users_or_ok [OF assms] by (auto simp: get_user_by_id_def)

lemma get_user_by_identity_Inr:
  assumes "users_or c what (get_user_by_identity ty ident) w = (Inr found, w')"
  shows "found = user_with_identity (\<lambda>i. ui_type i = ty \<and> ui_identifier i = ident) (users_of w)" "users_of w' = users_of w"
  using users_or_ok [OF assms] by (auto simp: get_user_by_identity_def)

lemma users_call_healthy:
  assumes "snd (aa_db w) = []" "f (users_of w) = (Inr x, t')"
  shows "users_or c what f w = (Inr x, w\<lparr>aa_db := (t', [])\<rparr>)"
  using assms by (cases "aa_db w") (simp add: users_or_def users_call_def users_of_def)

lemma healthy_query:
  assumes "snd (aa_db w) = []" "f (users_of w) = (Inr x, users_of w)"
  shows "users_or c what f w = (Inr x, w)"
proof -
  obtain t where d: "aa_db w = (t, [])" using assms(1) by (cases "aa_db w") simp
  have "w\<lparr>aa_db := (t, [])\<rparr> = w" using d by simp
  then show ?thesis using users_call_healthy [where f = f and x = x and t' = "users_of w", OF assms] d by (simp add: users_of_def)
qed

lemma users_call_healthy_error:
  assumes "snd (aa_db w) = []" "f (users_of w) = (Inl e, t')"
  shows "users_or c what f w = (Inl (AuthText (lit what @ users_error c e)), w)"
proof -
  obtain t where d: "aa_db w = (t, [])" using assms(1) by (cases "aa_db w") simp
  have "w\<lparr>aa_db := (t, [])\<rparr> = w" using d by simp
  then show ?thesis using assms(2) d by (simp add: users_or_def users_call_def users_of_def)
qed

lemma users_of_set [simp]: "users_of (w\<lparr>aa_db := (t, os)\<rparr>) = t" "users_of (w\<lparr>aa_sessions := s\<rparr>) = users_of w"
  "users_of (w\<lparr>aa_refresh := r\<rparr>) = users_of w"
  by (simp_all add: users_of_def)

text \<open>A new password: the row has the new hash, and both stores have been told.\<close>

lemma save_user_rows: "save_user u t = (x, t') \<Longrightarrow> ut_users t' = upsert us_id assign_user (user_row u) (ut_users t)"
  by (auto simp: save_user_def)

lemma save_password_done:
  assumes "save_password c d u uid hash w = (Inr (), w')" "uid \<noteq> []"
  shows "\<exists>f g. sx_revoke_user (ac_sessions c) = Some f \<and> rx_revoke_user (ac_refresh c) = Some g \<and>
      f (ad_now d) uid (ad_now d) (aa_sessions w) = (None, aa_sessions w') \<and>
      g (ad_now d) uid (aa_refresh w) = (None, aa_refresh w')"
    and "\<exists>row\<in>set (ut_users (users_of w')). us_id row = us_id u \<and> us_password_hash row = hash"
proof -
  let ?u = "u\<lparr>us_password_hash := hash, us_updated_at := ad_now d\<rparr>"
  obtain y w1 where s: "users_or c ''update password: '' (save_user ?u) w = (Inr y, w1)"
    and v: "wrap_error ''revoke user tokens: '' text_of (revoke_all_user_tokens c d uid (ad_now d)) w1 = (Inr (), w')"
    using assms(1) by (auto simp: save_password_def andthen_Inr)
  have fr: "aa_sessions w1 = aa_sessions w" "aa_refresh w1 = aa_refresh w" using users_or_frame [OF s] by auto
  have v': "revoke_all_user_tokens c d uid (ad_now d) w1 = (Inr (), w')"
    using v by (auto simp: wrap_error_def split: sum.splits prod.splits)
  then obtain f g where "sx_revoke_user (ac_sessions c) = Some f" "rx_revoke_user (ac_refresh c) = Some g"
    "f (ad_now d) uid (ad_now d) (aa_sessions w1) = (None, aa_sessions w')" "g (ad_now d) uid (aa_refresh w1) = (None, aa_refresh w')"
    and db: "aa_db w' = aa_db w1"
    using assms(2) unfolding revoke_all_user_tokens_def by (auto split: option.splits prod.splits)
  then show "\<exists>f g. sx_revoke_user (ac_sessions c) = Some f \<and> rx_revoke_user (ac_refresh c) = Some g \<and>
      f (ad_now d) uid (ad_now d) (aa_sessions w) = (None, aa_sessions w') \<and>
      g (ad_now d) uid (aa_refresh w) = (None, aa_refresh w')"
    using fr by auto
  have t: "ut_users (users_of w') = upsert us_id assign_user (user_row ?u) (ut_users (users_of w))"
    using users_or_ok [OF s] db by (metis save_user_rows users_of_def)
  show "\<exists>row\<in>set (ut_users (users_of w')). us_id row = us_id u \<and> us_password_hash row = hash"
  proof (cases "us_id u \<in> us_id ` set (ut_users (users_of w))")
    case True
    then obtain x where "x \<in> set (ut_users (users_of w))" "us_id x = us_id u" by force
    then have "assign_user x (user_row ?u) \<in> set (ut_users (users_of w'))" "us_id (assign_user x (user_row ?u)) = us_id u"
      using True unfolding t by (auto simp: upsert_def update_where_def user_row_def assign_user_def)
    moreover have "us_password_hash (assign_user x (user_row ?u)) = hash" by (simp add: assign_user_def user_row_def)
    ultimately show ?thesis by blast
  next
    case False
    then have "user_row ?u \<in> set (ut_users (users_of w'))" unfolding t by (auto simp: upsert_def user_row_def)
    then show ?thesis by (auto simp: user_row_def intro!: bexI [of _ "user_row ?u"])
  qed
qed

lemma change_password_done:
  assumes "change_password c d uid cur new_pw w = (Inr (), w')"
  shows "\<exists>u hash w1. List.find (\<lambda>u. us_id u = uid) (ut_users (users_of w)) = Some u \<and> ac_hash_password c new_pw = Inr hash \<and>
    aa_sessions w1 = aa_sessions w \<and> aa_refresh w1 = aa_refresh w \<and> save_password c d u uid hash w1 = (Inr (), w')"
proof -
  obtain found w1 where g: "users_or c ''fetch user: '' (get_user_by_id uid) w = (Inr found, w1)"
    and k: "(case found of None \<Rightarrow> fail_with (AuthText (lit ''user not found''))
           | Some u \<Rightarrow>
               if us_status u = UserDisabled then fail_with (AuthText (lit ''user disabled''))
               else if has_password (us_password_hash u) \<and> trim_space cur = [] then fail_with CurrentPasswordRequired
               else if has_password (us_password_hash u) \<and> \<not> ac_check_password c cur (us_password_hash u)
                 then fail_with InvalidCredentials
               else if has_password (us_password_hash u) \<and> cur = new_pw then fail_with NewPasswordMustDiffer
               else andthen (hash_or_fail c new_pw) (\<lambda>hash. save_password c d u uid hash)) w1 = (Inr (), w')"
    using assms unfolding change_password_def by (auto simp: andthen_Inr split: if_splits)
  obtain u where u: "found = Some u" using k by (cases found) auto
  then have "\<exists>hash. ac_hash_password c new_pw = Inr hash \<and> save_password c d u uid hash w1 = (Inr (), w')"
    using k by (auto simp: andthen_Inr split: if_splits)
  then show ?thesis using u get_user_by_id_Inr [OF g] users_or_frame [OF g] by auto
qed

section \<open>An example\<close>

text \<open>One active user with an e-mail identity; \<open>h\<close> and the password is the hash.\<close>

definition demo_hash :: "gostr \<Rightarrow> gostr" where
  "demo_hash pw = lit ''h'' @ pw"

definition demo_auth :: "'s session_ops \<Rightarrow> 'r refresh_ops \<Rightarrow> ('s, 'r) auth_config" where
  "demo_auth ss rs =
     \<lparr>ac_lower = id, ac_is_upper = (\<lambda>r. 65 \<le> r \<and> r \<le> 90), ac_is_lower = (\<lambda>r. 97 \<le> r \<and> r \<le> 122),
      ac_is_digit = (\<lambda>r. 48 \<le> r \<and> r \<le> 57), ac_is_special = (\<lambda>r. r = 33), ac_hash_password = (\<lambda>pw. Inr (demo_hash pw)),
      ac_check_password = (\<lambda>pw h. h = demo_hash pw), ac_parse_address = Some, ac_db_text = (\<lambda>_. lit ''database''),
      ac_session_text = (\<lambda>_. lit ''session''), ac_refresh_text = (\<lambda>_. lit ''refresh''), ac_detect = (\<lambda>_. lit ''image/png''),
      ac_missing_object = lit ''missing'', ac_sessions = ss, ac_refresh = rs, ac_refresh_ttl = 100, ac_avatars = False\<rparr>"

lemma demo_auth_fields [simp]:
  "ac_lower (demo_auth ss rs) = id" "ac_hash_password (demo_auth ss rs) pw = Inr (demo_hash pw)"
  "ac_check_password (demo_auth ss rs) pw h \<longleftrightarrow> h = demo_hash pw" "ac_sessions (demo_auth ss rs) = ss"
  "ac_refresh (demo_auth ss rs) = rs" "ac_refresh_ttl (demo_auth ss rs) = 100"
  by (simp_all add: demo_auth_def)

definition demo_draws :: "gotime \<Rightarrow> auth_draws" where
  "demo_draws now = \<lparr>ad_now = now, ad_ids = (\<lambda>i. [49 + i]), ad_jti = lit ''j'', ad_token = Some (lit ''t1''), ad_family = Some (lit ''g'')\<rparr>"

definition demo_user :: user where
  "demo_user =
     \<lparr>us_id = lit ''u'', us_email = lit ''a'', us_password_hash = demo_hash (lit ''Old!''), us_role = RoleUser, us_status = UserActive,
      us_created_at = 0, us_updated_at = 0, us_display_name = [], us_avatar_url = [], us_last_login_at = None, us_login_count = 0\<rparr>"

definition demo_identity :: user_identity where
  "demo_identity =
     \<lparr>ui_id = lit ''i'', ui_user_id = lit ''u'', ui_type = IdentityEmail, ui_provider = [], ui_identifier = lit ''a'',
      ui_verified_at = Some 0, ui_primary = True, ui_created_at = 0, ui_updated_at = 0\<rparr>"

definition demo_users :: user_tables where
  "demo_users = empty_user_tables\<lparr>ut_users := [demo_user], ut_identities := [demo_identity]\<rparr>"

definition demo_auth_app :: "'s \<Rightarrow> 'r \<Rightarrow> ('s, 'r) auth_app" where
  "demo_auth_app s r = (empty_auth_app [] [] s r)\<lparr>aa_db := (demo_users, [])\<rparr>"

definition demo_password :: gostr where
  "demo_password = lit ''Abcdefghij1!''"

lemma demo_password_ok: "validate_password (demo_auth ss rs) demo_password = None" "trim_space demo_password = demo_password"
    "demo_password \<noteq> []"
  by (simp_all add: validate_password_def demo_auth_def demo_password_def lit_Cons go_len_def rune_len_def Let_def is_space_def trim_space_fix)

lemmas demo_auth_simps =
  demo_auth_app_def empty_auth_app_def demo_users_def empty_user_tables_def demo_user_def demo_identity_def demo_draws_def

lemma demo_trims:
  "trim_space (lit ''a'') = lit ''a''" "trim_space (lit ''u'') = lit ''u''" "trim_space (lit ''Old!'') = lit ''Old!''"
  "trim_space (demo_hash (lit ''Old!'')) \<noteq> []" "lit ''Old!'' \<noteq> []" "lit ''u'' \<noteq> []" "lit ''a'' \<noteq> []"
  by (simp_all add: trim_space_fix lit_Cons is_space_def demo_hash_def)

text \<open>The definitions that a login and a change of the password go through.\<close>

lemmas demo_tables_simps =
  demo_auth_simps users_of_def get_user_by_identity_def user_with_identity_def get_user_profile_def
  update_user_login_activity_def profile_text_ok_def profile_row_def new_profile_def upsert_def count_login_def
  get_user_by_id_def save_user_def

lemmas demo_op_simps =
  Let_def atomically_def issue_login_tokens_def issue_user_tokens_def with_profile_def effective_avatar_url_def user_with_profile_def
  issue_tokens_def new_session_or_def fail_with_def done_with_def no_activity_def has_password_def
  mem_new_token_def new_memory_refresh_store_def text_ok_def demo_trims

text \<open>Without bounds on the calls, sessions with the plain library and revocations in Redis, refresh tokens in memory.\<close>

type_synonym demo_redis = "keyspace \<times> bool option list"

abbreviation demo_jwts :: "demo_redis session_ops" where
  "demo_jwts \<equiv> jwt_session_ops plain_parse plain_sign whole_seconds (demo_sessions (redis_ops faulty_redis itoa parse_int))"

lemma demo_jwts_fields [simp]:
  "sx_new demo_jwts now jti uid = new_session whole_seconds plain_sign (demo_sessions (redis_ops faulty_redis itoa parse_int)) now jti uid"
  "sx_revoke_user demo_jwts = Some (revoke_user_sessions (demo_sessions (redis_ops faulty_redis itoa parse_int)))"
  by (simp_all add: jwt_session_ops_def)

lemma demo_new_session [simp]:
  "\<exists>tok. new_session whole_seconds plain_sign (demo_sessions (redis_ops faulty_redis itoa parse_int)) now jti uid = Inr tok"
  by (simp add: new_session_def demo_sessions_def plain_sign_def)

abbreviation demo_refreshes :: "mem_refresh refresh_ops" where
  "demo_refreshes \<equiv> mem_refresh_ops id (\<lambda>s. if s = {} then [] else [lit ''f''])"

lemma demo_refreshes_fields [simp]:
  "rx_revoke_user demo_refreshes = Some (\<lambda>now user s. (None, mem_revoke_user (if user_family_ids s user = {} then [] else [lit ''f'']) s))"
  "rx_new demo_refreshes rt rf now user ttl s =
     (case mem_new_token id rt rf now user ttl s of (Inl e, s') \<Rightarrow> (Inl (mem_refresh_fail e), s') | (Inr tok, s') \<Rightarrow> (Inr tok, s'))"
  by (simp_all add: mem_refresh_ops_def)

section \<open>Properties\<close>

text \<open>
  The tables of the auth service stay well formed.  Whatever operations run in whatever order and whichever
  database calls fail or lose their reply, user IDs, identity IDs and profiles are unique, no e-mail address, phone
  number or OAuth subject belongs to two identities, and the tables of the books keep their keys and references.
\<close>

theorem auth_tables_invariant:
  "users_ok (users_of (fold (auth_exec c) calls (empty_auth_app os cs s r)))"
  by (rule users_ok.run_keeps)
    (simp add: users_ok_def empty_auth_app_def users_of_def empty_user_tables_def empty_tables_def tables_ok_def keys_ok_def refs_ok_def)

text \<open>
  C11: tokens are issued to active users only.  Whenever a sign-up, a login by password, by a verified identity or by
  OAuth, or a refresh hands out a pair of tokens, the table has the user, active and with the role that is reported,
  whichever calls fail.
\<close>

theorem tokens_for_active_users:
  assumes "grant c d g w = (Inr (u, access, token), w')"
  shows "\<exists>row\<in>set (ut_users (users_of w')). us_id row = us_id u \<and> us_status row = UserActive \<and> us_role row = us_role u"
  using givesD [OF grant_gives [of "\<lambda>_. True" c d g] TrueI assms] by (auto simp: entitled_def)

text \<open>A login of the example's user.\<close>

definition demo_login :: grant_call where
  "demo_login = GrantPassword IdentityEmail (lit ''a'') (lit ''Old!'') no_activity"

lemma demo_login_runs:
  "\<exists>u x w'. grant (demo_auth demo_jwts demo_refreshes) (demo_draws 5) demo_login
     (demo_auth_app (Map.empty, []) new_memory_refresh_store) = (Inr (u, x), w') \<and> us_id u = lit ''u'' \<and>
     ut_users (users_of w') = [demo_user]"
proof -
  obtain tok where "new_session whole_seconds plain_sign (demo_sessions (redis_ops faulty_redis itoa parse_int)) 5 (lit ''j'') (lit ''u'') = Inr tok"
    using demo_new_session by blast
  then show ?thesis
    by (simp add: demo_login_def login_with_password_by_identity_def is_supported_identity_type_def andthen_def users_or_def
        users_call_def demo_tables_simps demo_op_simps)
qed

theorem tokens_for_active_users_witness:
  "\<exists>row\<in>set (ut_users (users_of (snd (grant (demo_auth demo_jwts demo_refreshes) (demo_draws 5) demo_login
     (demo_auth_app (Map.empty, []) new_memory_refresh_store))))). us_id row = lit ''u'' \<and> us_status row = UserActive"
proof -
  obtain u access token w' where r: "grant (demo_auth demo_jwts demo_refreshes) (demo_draws 5) demo_login
      (demo_auth_app (Map.empty, []) new_memory_refresh_store) = (Inr (u, access, token), w')" "us_id u = lit ''u''"
    using demo_login_runs by force
  show ?thesis using tokens_for_active_users [OF r(1)] r by auto
qed

text \<open>
  C10: a changed password ends the old sessions.  After a successful change, with the refresh tokens in the Redis store as
  in production, whatever calls that store has had since it was empty and whichever of its commands failed, and with JWT
  sessions that are revoked in Redis: until the user logs in again, and through any further calls of that store, no refresh
  token, whatever it is, is exchanged for tokens of the user; every access token of the user issued at or before the change
  is rejected for good; and the row has the hash of the new password.  The clock does not go back, and all refresh tokens
  have the one lifetime of the configuration.
\<close>

theorem password_change_ends_sessions:
  fixes st :: "('k, 'p, 'w) jwt_store" and jsign :: "'p jwt_sign" and rdo' :: "'r redis"
  assumes "jwt_library jparse jsign ndate pub_of content sgnd" and "redis_time rdo ks fmt prs"
    and "js_revoker st = Some (redis_ops rdo fmt prs)" and "redis_revoker_inv ks prs (aa_sessions w)"
    and "ac_sessions c = jwt_session_ops jparse jsign ndate st" and "ac_refresh c = redis_refresh_ops rdo' H f tries"
    and "redis_server rdo' ks'" and "ks' w0 = Map.empty" and "aa_refresh w = fold (refresh_exec rdo' H) calls w0"
    and "sorted (map call_time calls @ ad_now d # map call_time later @ [t2])" and "list_all (call_lives (ac_refresh_ttl c)) (calls @ later)"
    and "0 < ac_refresh_ttl c"
    and "valid_time (ad_now d)" and "\<not> is_zero (ad_now d)" and "trim_space uid \<noteq> []"
    and "change_password c d uid cur new_pw w = (Inr (), w')"
    and "session_run jparse st T (ad_now d) (aa_sessions w') t1 s"
    and "parse_and_verify jparse st t tok = Inr claims" and "trim_space (c_sub claims) = trim_space uid"
    and "\<And>i. c_iat claims = Some i \<Longrightarrow> i \<le> ad_now d" and "list_all (not_login uid) later"
  shows "(\<exists>er. fst (get_user_id_by_token jparse st t tok s) = Inl er) \<and>
    (case fst (rx_rotate (ac_refresh c) rnd t2 ttl rtok (fold (refresh_exec rdo' H) later (aa_refresh w'))) of Inl _ \<Rightarrow> True | Inr (v, _) \<Rightarrow> v \<noteq> uid) \<and>
    (\<exists>row\<in>set (ut_users (users_of w')). us_id row = uid \<and> ac_hash_password c new_pw = Inr (us_password_hash row))"
proof -
  obtain u hash w1 where u: "List.find (\<lambda>u. us_id u = uid) (ut_users (users_of w)) = Some u" "ac_hash_password c new_pw = Inr hash"
    "aa_sessions w1 = aa_sessions w" "aa_refresh w1 = aa_refresh w" "save_password c d u uid hash w1 = (Inr (), w')"
    using change_password_done [OF assms(16)] by blast
  have uid: "uid \<noteq> []" using assms(15) by auto
  obtain f' g where fg: "sx_revoke_user (ac_sessions c) = Some f'" "rx_revoke_user (ac_refresh c) = Some g"
    "f' (ad_now d) uid (ad_now d) (aa_sessions w) = (None, aa_sessions w')" "g (ad_now d) uid (aa_refresh w) = (None, aa_refresh w')"
    using save_password_done(1) [OF u(5) uid] u(3,4) by auto
  have rev: "revoke_user_sessions st (ad_now d) uid (ad_now d) (aa_sessions w) = (None, aa_sessions w')"
    using fg(1,3) by (simp add: assms(5) jwt_session_ops_def)
  have "redis_revoke_user rdo' (ad_now d) uid (fold (refresh_exec rdo' H) calls w0) = (None, aa_refresh w')"
    using fg(2,4) by (auto simp: assms(6,9) redis_refresh_ops_def split: prod.splits)
  from redis_server.revoked_user_refused [OF assms(7,8,10-12,21) this, where rnds = "\<lambda>_. rnd" and ttl' = ttl and tok = rtok and tries = tries]
  have "case fst (rx_rotate (ac_refresh c) rnd t2 ttl rtok (fold (refresh_exec rdo' H) later (aa_refresh w'))) of Inl _ \<Rightarrow> True | Inr (v, _) \<Rightarrow> v \<noteq> uid"
    by (auto simp: assms(6) redis_refresh_ops_def split: sum.splits prod.splits)
  moreover have "\<exists>er. fst (get_user_id_by_token jparse st t tok s) = Inl er"
    by (rule sessions.user_revocation_rejects [OF sessions_redis [OF assms(1-3)] assms(4,13,13,14,15) rev assms(17-20)])
  moreover have "us_id u = uid" using u(1) by (auto simp: find_Some_iff)
  ultimately show ?thesis using save_password_done(2) [OF u(5) uid] u(2) by auto
qed

text \<open>A Redis store that has issued one token, to the user of the example, who changes the password at second 50; at second 60 someone
  presents the token.\<close>

definition demo_issued :: refresh_call where
  "demo_issued = CallNew (Some [116]) (Some [102]) 5 (lit ''u'') (3600 * second)"

definition demo_presented :: refresh_call where
  "demo_presented = CallRotate (\<lambda>_. Some [121]) (60 * second) (3600 * second) [116] 3"

abbreviation demo_redis_refreshes :: "demo_redis refresh_ops" where
  "demo_redis_refreshes \<equiv> redis_refresh_ops faulty_redis id (\<lambda>_. []) 3"

abbreviation demo_change_config :: "(demo_redis, demo_redis) auth_config" where
  "demo_change_config \<equiv> (demo_auth demo_jwts demo_redis_refreshes)\<lparr>ac_refresh_ttl := 3600 * second\<rparr>"

abbreviation demo_change_app :: "(demo_redis, mem_refresh) auth_app" where
  "demo_change_app \<equiv> demo_auth_app (Map.empty, []) demo_store"

abbreviation demo_redis_change_app :: "(demo_redis, demo_redis) auth_app" where
  "demo_redis_change_app \<equiv> demo_auth_app (Map.empty, []) (fold (refresh_exec faulty_redis id) [demo_issued] (Map.empty, []))"

lemma calm_revoke_families: "\<exists>K'. revoke_families faulty_redis now user fids (K, []) = (None, (K', []))"
proof (induction fids arbitrary: K)
  case (Cons fid fids)
  have "\<exists>K1. redis_revoke_family faulty_redis now fid user (K, []) = (None, (K1, []))"
    by (simp add: redis_revoke_family_def revoked_user_def)
  then show ?case using Cons.IH by fastforce
qed simp

lemma calm_revoke_user: "\<exists>K'. redis_revoke_user faulty_redis now user (K, []) = (None, (K', []))"
proof -
  let ?fids = "reply_members (rrun now (SMembers (user_families_key user)) K)"
  obtain K' where "revoke_families faulty_redis now user ?fids (K, []) = (None, (K', []))" using calm_revoke_families by blast
  then show ?thesis by (simp add: redis_revoke_user_def)
qed

lemma demo_change_runs:
  "\<exists>w'. change_password demo_change_config (demo_draws (50 * second)) (lit ''u'') (lit ''Old!'') demo_password demo_redis_change_app = (Inr (), w')"
proof -
  have pw: "lit ''Old!'' \<noteq> demo_password" by (simp add: demo_password_def lit_Cons)
  have rev: "revoke_user_sessions (demo_sessions (redis_ops faulty_redis itoa parse_int)) (50 * second) (lit ''u'') (50 * second) (Map.empty, []) =
     (None, (Map.empty(user_revocation_cutoff_key (lit ''u'') \<mapsto> (VStr (itoa (50 * second)), None)), []))"
    by (simp add: revoke_user_sessions_def redis_ops_def revoker_of_def redis_revoker_user_def until_def
        live_def is_zero_def zero_time_def second_def trim_space_fix is_space_def lit_Cons)
  obtain K where K: "fold (refresh_exec faulty_redis id) [demo_issued] (Map.empty, []) = (K, [])"
    by (simp add: demo_issued_def redis_new_token_def)
  obtain K' where K': "redis_revoke_user faulty_redis (50 * second) (lit ''u'') (K, []) = (None, (K', []))" using calm_revoke_user by blast
  have ok: "validate_password ((demo_auth ss rs)\<lparr>ac_refresh_ttl := x\<rparr>) demo_password = None" for ss rs x 
    by (simp add: validate_password_def demo_auth_def demo_password_def lit_Cons go_len_def rune_len_def)
  show ?thesis
    unfolding K
    by (simp add: pw rev ok demo_password_ok(2,3) K' redis_refresh_ops_def change_password_def check_new_password_def hash_or_fail_def save_password_def wrap_error_def
        revoke_all_user_tokens_def andthen_def users_or_def users_call_def demo_tables_simps demo_op_simps)
qed

theorem password_change_ends_sessions_witness:
  "\<exists>w'. change_password demo_change_config (demo_draws (50 * second)) (lit ''u'') (lit ''Old!'') demo_password demo_redis_change_app = (Inr (), w') \<and>
    (\<exists>er. fst (get_user_id_by_token plain_parse (demo_sessions (redis_ops faulty_redis itoa parse_int)) (100 * second) demo_jwt
       (aa_sessions w')) = Inl er) \<and>
    (case fst (rx_rotate demo_redis_refreshes (Some [120]) (100 * second) (3600 * second) [116]
       (fold (refresh_exec faulty_redis id) [demo_presented] (aa_refresh w'))) of
       Inl _ \<Rightarrow> True | Inr (v, _) \<Rightarrow> v \<noteq> lit ''u'')"
proof -
  obtain w' where w': "change_password demo_change_config (demo_draws (50 * second)) (lit ''u'') (lit ''Old!'') demo_password
      demo_redis_change_app = (Inr (), w')"
    using demo_change_runs by blast
  have "(\<exists>er. fst (get_user_id_by_token plain_parse (demo_sessions (redis_ops faulty_redis itoa parse_int)) (100 * second) demo_jwt
       (aa_sessions w')) = Inl er) \<and>
    (case fst (rx_rotate (ac_refresh demo_change_config) (Some [120]) (100 * second) (3600 * second) [116]
       (fold (refresh_exec faulty_redis id) [demo_presented] (aa_refresh w'))) of
       Inl _ \<Rightarrow> True | Inr (v, _) \<Rightarrow> v \<noteq> lit ''u'') \<and>
    (\<exists>row\<in>set (ut_users (users_of w')). us_id row = lit ''u'' \<and>
       ac_hash_password demo_change_config demo_password = Inr (us_password_hash row))"
  proof (rule password_change_ends_sessions [OF _ _ _ _ _ _ _ _ _ _ _ _ _ _ _ w', where st = "demo_sessions (redis_ops faulty_redis itoa parse_int)"
        and claims = demo_claims and T = "{}" and rdo' = faulty_redis and ks' = fst and ?w0.0 = "(Map.empty, [])" and calls = "[demo_issued]" and later = "[demo_presented]"
        and H = id and f = "\<lambda>_. []" and tries = 3])
    show "parse_and_verify plain_parse (demo_sessions (redis_ops faulty_redis itoa parse_int)) (100 * second) demo_jwt = Inr demo_claims"
      by (rule demo_verified) (simp_all add: second_def)
    show "jwt_library plain_parse plain_sign whole_seconds (\<lambda>k. k) plain_content plain_signed" by (rule plain.jwt_library_axioms)
    show "redis_time faulty_redis fst itoa parse_int" by (rule frt.redis_time_axioms)
    show "redis_server faulty_redis fst" by (rule redis_server_faulty)
    show "ac_sessions demo_change_config = demo_jwts" "ac_refresh demo_change_config = demo_redis_refreshes"
      by simp_all
    show "session_run plain_parse (demo_sessions (redis_ops faulty_redis itoa parse_int)) {} (ad_now (demo_draws (50 * second))) (aa_sessions w')
        (ad_now (demo_draws (50 * second))) (aa_sessions w')" by (rule run_refl)
  qed (auto simp: demo_simps demo_auth_simps redis_revoker_inv_def cutoff_entry_def demo_claims_def second_def demo_issued_def demo_presented_def
      valid_time_def zero_time_def is_zero_def trim_space_fix is_space_def lit_Cons)
  then show ?thesis using w' by auto
qed

section \<open>After a failed revocation\<close>

text \<open>Saving a user changes its row only, so the same identity leads to the new row.\<close>

lemma saved_user_found:
  assumes "users_ok t" "user_with_identity P t = Some u" "us_id u' = us_id u"
    and "\<And>i j. P i \<Longrightarrow> P j \<Longrightarrow> identity_key i = identity_key j"
  shows "user_with_identity P (t\<lparr>ut_users := upsert us_id assign_user (user_row u') (ut_users t)\<rparr>) = Some (assign_user u (user_row u'))"
proof -
  let ?t = "t\<lparr>ut_users := upsert us_id assign_user (user_row u') (ut_users t)\<rparr>"
  obtain i where i: "i \<in> set (ut_identities t)" "ui_user_id i = us_id u" "P i" and u: "u \<in> set (ut_users t)"
    using user_with_identity_found [OF assms(2)] by blast
  have ok: "users_ok ?t" using save_user_ok [OF assms(1), of u' "()"] by (simp add: save_user_def)
  have row: "assign_user u (user_row u') \<in> set (ut_users ?t)"
    using u assms(3) by (auto simp: upsert_def update_where_def user_row_def image_iff intro!: bexI [of _ u])
  show ?thesis
  proof (rule user_with_identity_unique [where P = P and i = i, OF ok _ i(3) _ row])
    show "i \<in> set (ut_identities ?t)" using i(1) by simp
    show "identity_key k = identity_key i" if "P k" for k using that i(3) by (rule assms(4))
    show "us_id (assign_user u (user_row u')) = ui_user_id i" using i(2) by (simp add: assign_user_def)
  qed
qed

lemma supported_keys:
  "is_supported_identity_type ty \<Longrightarrow> ui_type i = ty \<and> ui_identifier i = ident \<Longrightarrow> ui_type j = ty \<and> ui_identifier j = ident \<Longrightarrow>
   identity_key i = identity_key j"
  by (auto simp: identity_key_def is_supported_identity_type_def)

text \<open>
  C15: a reset cannot be repeated after its revocation failed.  When the new password is saved and the revocation of
  the user's sessions fails, the reset reports an error; from then on a reset to the same password is refused because
  it must differ, and neither the sessions nor the refresh tokens of the user are revoked by it.
\<close>

theorem reset_retry_keeps_sessions:
  assumes "users_ok (users_of w)" "snd (aa_db w) = []" "is_supported_identity_type ty" "trim_space ident = ident" "ident \<noteq> []"
    and "user_with_identity (\<lambda>i. ui_type i = ty \<and> ui_identifier i = ident) (users_of w) = Some u"
    and "us_status u = UserActive" "us_id u \<noteq> []" "\<not> ac_check_password c pw (us_password_hash u)"
    and "validate_password c pw = None" "trim_space pw \<noteq> []" "ac_hash_password c pw = Inr h" "ac_check_password c pw h" "has_password h"
    and "sx_revoke_user (ac_sessions c) = Some f" "f (ad_now d) (us_id u) (ad_now d) (aa_sessions w) = (Some e, s1)"
  shows "\<exists>msg w1. reset_password_by_identity c d ty ident pw w = (Inl (AuthText msg), w1) \<and> aa_sessions w1 = s1 \<and>
    aa_refresh w1 = aa_refresh w \<and> reset_password_by_identity c d' ty ident pw w1 = (Inl NewPasswordMustDiffer, w1)"
proof -
  let ?P = "\<lambda>i. ui_type i = ty \<and> ui_identifier i = ident" and ?u = "u\<lparr>us_password_hash := h, us_updated_at := ad_now d\<rparr>"
  let ?t = "users_of w\<lparr>ut_users := upsert us_id assign_user (user_row ?u) (ut_users (users_of w))\<rparr>"
  define w1 where "w1 = w\<lparr>aa_db := (?t, []), aa_sessions := s1\<rparr>"
  note healthy = users_call_healthy [OF assms(2)]
  have get: "users_or c ''fetch user: '' (get_user_by_identity ty ident) w = (Inr (Some u), w)"
    by (rule healthy_query [OF assms(2)]) (simp add: get_user_by_identity_def assms(6))
  have save: "users_or c ''update password: '' (save_user ?u) w = (Inr (), w\<lparr>aa_db := (?t, [])\<rparr>)"
    by (rule healthy) (simp add: save_user_def)
  have r1: "\<exists>msg. reset_password_by_identity c d ty ident pw w = (Inl (AuthText msg), w1)"
    using assms(3-5,7-16) get save
    by (simp add: reset_password_by_identity_def check_new_password_def hash_or_fail_def save_password_def wrap_error_def text_of_def
        revoke_all_user_tokens_def andthen_def done_with_def w1_def)
  have "user_with_identity ?P ?t = Some (assign_user u (user_row ?u))"
    by (rule saved_user_found [OF assms(1,6)]) (use assms(3) supported_keys in auto)
  then have get1: "users_or c ''fetch user: '' (get_user_by_identity ty ident) w1 = (Inr (Some (assign_user u (user_row ?u))), w1)"
    by (intro healthy_query) (simp_all add: get_user_by_identity_def w1_def)
  have "reset_password_by_identity c d' ty ident pw w1 = (Inl NewPasswordMustDiffer, w1)"
    using assms(3-5,7,10-14) get1
    by (simp add: reset_password_by_identity_def check_new_password_def andthen_def done_with_def fail_with_def
        assign_user_def user_row_def)
  then show ?thesis using r1 by (auto simp: w1_def)
qed

lemma demo_users_ok: "users_ok demo_users"
  by (simp add: users_ok_def demo_users_def empty_user_tables_def empty_tables_def tables_ok_def keys_ok_def refs_ok_def)

lemma demo_found:
  "user_with_identity (\<lambda>i. ui_type i = IdentityEmail \<and> ui_identifier i = lit ''a'') demo_users = Some demo_user"
  by (simp add: user_with_identity_def demo_users_def demo_identity_def demo_user_def)

theorem reset_retry_keeps_sessions_witness:
  "\<exists>msg w1. reset_password_by_identity (demo_auth demo_jwts demo_refreshes) (demo_draws 9) IdentityEmail (lit ''a'') demo_password
      (demo_auth_app (Map.empty, [Some False]) demo_store) = (Inl (AuthText msg), w1) \<and> aa_sessions w1 = (Map.empty, []) \<and>
    aa_refresh w1 = demo_store \<and>
    reset_password_by_identity (demo_auth demo_jwts demo_refreshes) (demo_draws 10) IdentityEmail (lit ''a'') demo_password w1 =
      (Inl NewPasswordMustDiffer, w1)"
proof -
  let ?w = "demo_auth_app (Map.empty, [Some False]) demo_store :: (demo_redis, mem_refresh) auth_app"
  obtain e where fail: "revoke_user_sessions (demo_sessions (redis_ops faulty_redis itoa parse_int)) 9 (lit ''u'') 9 (Map.empty, [Some False]) =
      (Some e, (Map.empty, []))"
    by (simp add: revoke_user_sessions_def redis_ops_def revoker_of_def redis_revoker_user_def until_def
        live_def is_zero_def zero_time_def trim_space_fix is_space_def lit_Cons)
  have w: "users_of ?w = demo_users" "snd (aa_db ?w) = []" "aa_sessions ?w = (Map.empty, [Some False])" "aa_refresh ?w = demo_store"
    by (simp_all add: users_of_def demo_auth_app_def empty_auth_app_def)
  have "\<exists>msg w1. reset_password_by_identity (demo_auth demo_jwts demo_refreshes) (demo_draws 9) IdentityEmail (lit ''a'') demo_password
      ?w = (Inl (AuthText msg), w1) \<and> aa_sessions w1 = (Map.empty, []) \<and> aa_refresh w1 = aa_refresh ?w \<and>
    reset_password_by_identity (demo_auth demo_jwts demo_refreshes) (demo_draws 10) IdentityEmail (lit ''a'') demo_password w1 =
      (Inl NewPasswordMustDiffer, w1)"
    by (rule reset_retry_keeps_sessions [where u = demo_user and f = "revoke_user_sessions (demo_sessions (redis_ops faulty_redis itoa parse_int))"
          and h = "demo_hash demo_password" and e = e])
      (use demo_users_ok demo_found fail w demo_password_ok demo_trims in
        \<open>auto simp: is_supported_identity_type_def demo_user_def demo_draws_def has_password_def demo_hash_def trim_space_fix lit_Cons is_space_def demo_password_def\<close>)
  then show ?thesis using w by simp
qed

section \<open>Names that cannot be stored\<close>

lemma refused_profile:
  assumes "snd (aa_db w) = []" "\<not> profile_text_ok (profile_row p)"
  shows "save_profile_or c [] p w = (Inl (AuthText (lit ''invalid byte sequence for encoding'')), w)"
  using users_call_healthy_error [OF assms(1), of "save_user_profile p" encoding_error "users_of w" c "[]"] assms(2)
  by (simp add: save_profile_or_def save_user_profile_def encoding_error_def)

lemma named_refused: "\<not> text_ok (trim_space name) \<Longrightarrow> \<not> profile_text_ok (profile_row (p\<lparr>up_display_name := name\<rparr>))"
  by (simp add: profile_text_ok_def profile_row_def)

text \<open>
  C16: a long name locks an OAuth user out.  A name that is cut inside a rune is not valid text, so the profile of a user
  without a name cannot be saved, and every login by OAuth with that name fails after the user was found, with the tables
  and stores as before.
\<close>

theorem oauth_name_locks_out:
  assumes "snd (aa_db w) = []" "normalize_oauth_provider c (oi_provider input) \<noteq> []" "trim_space (oi_subject input) \<noteq> []"
    and "get_user_by_provider_identity (normalize_oauth_provider c (oi_provider input)) (trim_space (oi_subject input)) (users_of w) =
      (Inr (Some u), users_of w)"
    and "us_status u = UserActive" "trim_space (us_id u) \<noteq> []"
    and "\<And>p. p \<in> set (ut_profiles (users_of w)) \<Longrightarrow> up_user_id p = trim_space (us_id u) \<Longrightarrow> trim_space (up_display_name p) = []"
    and "\<not> text_ok (trim_space (sanitize_display_name (oi_display_name input)))"
  shows "complete_oauth_login c d input w = (Inl (AuthText (lit ''invalid byte sequence for encoding'')), w)"
proof -
  let ?name = "sanitize_display_name (oi_display_name input)" and ?url = "normalize_avatar_url (oi_avatar_url input)"
  let ?found = "List.find (\<lambda>p. up_user_id p = trim_space (us_id u)) (ut_profiles (users_of w))"
  have name: "?name \<noteq> []" using assms(8) by (auto simp: text_ok_def)
  have prof: "users_or c ''fetch profile: '' (get_user_profile (trim_space (us_id u))) w = (Inr ?found, w)"
    by (rule healthy_query [OF assms(1)]) (simp add: get_user_profile_def)
  have bad: "save_profile_or c [] (p\<lparr>up_display_name := ?name\<rparr>) w = (Inl (AuthText (lit ''invalid byte sequence for encoding'')), w)"
    "save_profile_or c [] (p\<lparr>up_display_name := ?name, up_avatar_url := url\<rparr>) w = (Inl (AuthText (lit ''invalid byte sequence for encoding'')), w)"
    "save_profile_or c [] (p\<lparr>up_display_name := ?name, up_updated_at := now\<rparr>) w = (Inl (AuthText (lit ''invalid byte sequence for encoding'')), w)"
    "save_profile_or c [] (p\<lparr>up_display_name := ?name, up_avatar_url := url, up_updated_at := now\<rparr>) w =
      (Inl (AuthText (lit ''invalid byte sequence for encoding'')), w)" for p url now
    using assms(8) by (intro refused_profile [OF assms(1)]; simp add: profile_text_ok_def profile_row_def)+
  have ensure: "ensure_user_profile c d (us_id u) (oi_display_name input) (oi_avatar_url input) w =
      (Inl (AuthText (lit ''invalid byte sequence for encoding'')), w)"
  proof (cases ?found)
    case None
    then show ?thesis using assms(6) prof bad by (simp add: ensure_user_profile_def andthen_def Let_def)
  next
    case (Some p)
    then have "trim_space (up_display_name p) = []" using assms(7) by (auto simp: find_Some_iff)
    then show ?thesis using assms(6) prof bad Some name by (simp add: ensure_user_profile_def andthen_def Let_def)
  qed
  have got: "users_or c ''fetch oauth identity: '' (get_user_by_provider_identity (normalize_oauth_provider c (oi_provider input))
      (trim_space (oi_subject input))) w = (Inr (Some u), w)"
    by (rule healthy_query [OF assms(1)]) (rule assms(4))
  show ?thesis using assms(2,3,5) got ensure by (simp add: complete_oauth_login_def andthen_def Let_def)
qed

definition demo_oauth :: oauth_input where
  "demo_oauth =
     \<lparr>oi_provider = lit ''google'', oi_subject = lit ''s'', oi_email = [], oi_email_verified = False,
      oi_display_name = replicate 27 20013, oi_avatar_url = [], oi_activity = no_activity\<rparr>"

definition demo_oauth_app :: "'s \<Rightarrow> 'r \<Rightarrow> ('s, 'r) auth_app" where
  "demo_oauth_app s r = (demo_auth_app s r)\<lparr>aa_db := (demo_users\<lparr>ut_identities :=
     [demo_identity\<lparr>ui_type := IdentityOAuth, ui_provider := lit ''google'', ui_identifier := lit ''s''\<rparr>]\<rparr>, [])\<rparr>"

text \<open>27 characters of 3 bytes: 80 bytes end after 2 bytes of the last.\<close>

lemma cut_bytes_replicate:
  "rune_len r = 3 \<Longrightarrow> cut_bytes (3 * k + 2) (replicate (Suc k) r) = replicate k r @ map bad_byte (take 2 (utf8 r))"
proof (induction k)
  case (Suc k)
  have "3 * Suc k + 2 - 3 = 3 * k + 2" by simp
  then show ?case using Suc by (simp del: mult_Suc_right)
qed (simp add: numeral_2_eq_2)

lemma demo_name_cut: "\<not> text_ok (trim_space (sanitize_display_name (oi_display_name demo_oauth)))"
proof -
  have cut: "sanitize_display_name (oi_display_name demo_oauth) = replicate 26 20013 @ [bad_byte 228, bad_byte 184]"
  proof -
    have t: "trim_space (replicate 27 20013) = replicate 27 20013" by (rule trim_space_fix) (simp add: is_space_def)
    have l: "go_len (replicate n 20013) = 3 * n" for n by (induction n) (simp_all add: go_len_def rune_len_def)
    have e: "(80::nat) = 3 * 26 + 2" "(27::nat) = Suc 26" by simp_all
    have "cut_bytes 80 (replicate 27 20013) = replicate 26 20013 @ map bad_byte (take 2 (utf8 20013))"
      unfolding e by (rule cut_bytes_replicate) (simp add: rune_len_def)
    moreover have "map bad_byte (take 2 (utf8 20013)) = [bad_byte 228, bad_byte 184]" by (simp add: utf8_def)
    ultimately have "cut_bytes 80 (replicate 27 20013) = replicate 26 20013 @ [bad_byte 228, bad_byte 184]" by simp
    then show ?thesis using t l by (simp add: demo_oauth_def sanitize_display_name_def)
  qed
  have "trim_space (replicate 26 20013 @ [bad_byte 228, bad_byte 184]) = replicate 26 20013 @ [bad_byte 228, bad_byte 184]"
    by (rule trim_space_fix) (simp add: is_space_def bad_byte_def)
  then show ?thesis by (simp add: cut text_ok_def bad_byte_def)
qed

theorem oauth_name_locks_out_witness:
  "complete_oauth_login (demo_auth demo_jwts demo_refreshes) (demo_draws 9) demo_oauth (demo_oauth_app (Map.empty, []) demo_store) =
     (Inl (AuthText (lit ''invalid byte sequence for encoding'')), demo_oauth_app (Map.empty, []) demo_store)"
proof (rule oauth_name_locks_out [where u = demo_user])
  show "\<not> text_ok (trim_space (sanitize_display_name (oi_display_name demo_oauth)))" by (rule demo_name_cut)
qed (auto simp: demo_oauth_app_def demo_oauth_def demo_auth_app_def empty_auth_app_def users_of_def get_user_by_provider_identity_def
    user_with_identity_def normalize_oauth_provider_def demo_users_def demo_user_def demo_identity_def empty_user_tables_def
    to_lower_def lower_rune_def trim_space_fix is_space_def lit_Cons Let_def)

section \<open>A changed address\<close>

text \<open>Saving an identity leaves the identities with another key alone.\<close>

lemma save_identity_others:
  assumes "save_user_identity i t = (Inr x, t')" "j \<in> set (ut_identities t)" "identity_key j \<noteq> identity_key (identity_row i)"
  shows "j \<in> set (ut_identities t')"
  using assms
  by (auto simp: save_user_identity_def insert_identity_def insert_rows_def update_where_def conflict_key image_iff Let_def
      split: if_splits sum.splits intro!: bexI [of _ j])

lemma save_identity_users: "save_user_identity i t = (Inr x, t') \<Longrightarrow> ut_users t' = ut_users t"
  by (auto simp: save_user_identity_def Let_def split: sum.splits)

lemma saved_user_id: "us_id u \<in> us_id ` set (upsert us_id assign_user (user_row u) rows)"
proof (cases "us_id u \<in> us_id ` set rows")
  case True
  then obtain r where "r \<in> set rows" "us_id r = us_id u" by force
  then have "assign_user r (user_row u) \<in> set (upsert us_id assign_user (user_row u) rows)"
    using True by (auto simp: upsert_def update_where_def user_row_def)
  then show ?thesis by (rule rev_image_eqI) (use \<open>us_id r = us_id u\<close> in \<open>simp add: assign_user_def\<close>)
qed (simp add: upsert_def user_row_def)

lemma save_user_identities: "save_user u t = (x, t') \<Longrightarrow> ut_identities t' = ut_identities t"
  by (auto simp: save_user_def)

lemma update_my_email_done:
  assumes "update_my_email c d u new w = (Inr u', w')" "lower_email c new \<noteq> us_email u"
  shows "\<exists>t1 x. ut_users t1 = upsert us_id assign_user (user_row (u\<lparr>us_email := lower_email c new, us_updated_at := ad_now d\<rparr>))
      (ut_users (users_of w)) \<and> ut_identities t1 = ut_identities (users_of w) \<and>
    save_user_identity (verified_identity d (ad_ids d 0) (us_id u) IdentityEmail [] (lower_email c new) True) t1 = (Inr x, users_of w')"
proof -
  let ?u = "u\<lparr>us_email := lower_email c new, us_updated_at := ad_now d\<rparr>"
  obtain w1 where c1: "check_my_email c u (lower_email c new) w = (Inr (), w1)"
    and s1: "save_my_email c d u (lower_email c new) w1 = (Inr u', w')"
    using assms by (auto simp: update_my_email_def Let_def andthen_Inr split: if_splits)
  have same: "users_of w1 = users_of w"
  proof -
    obtain found w2 where g: "users_or c ''check email: '' (get_user_by_identity IdentityEmail (lower_email c new)) w = (Inr found, w2)"
      and k: "(case found of None \<Rightarrow> done_with () | Some o1 \<Rightarrow> if us_id o1 \<noteq> us_id u then fail_with EmailAlreadyExists else done_with ()) w2 =
        (Inr (), w1)"
      using c1 unfolding check_my_email_def andthen_Inr by blast
    have "w1 = w2" using k by (auto split: option.splits if_splits)
    then show ?thesis using get_user_by_identity_Inr(2) [OF g] by simp
  qed
  obtain y w2 z w3 where s2: "users_or c ''update user: '' (save_user ?u) w1 = (Inr y, w2)"
    and s3: "users_or c ''update email identity: ''
      (save_user_identity (verified_identity d (ad_ids d 0) (us_id u) IdentityEmail [] (lower_email c new) True)) w2 = (Inr z, w3)"
    and s4: "user_with_profile ?u w3 = (Inr u', w')"
    using s1 by (auto simp: save_my_email_def Let_def andthen_Inr)
  have "users_of w' = users_of w3" using user_with_profile_frame [of ?u w3] s4 by simp
  moreover have "save_user ?u (users_of w) = (Inr y, users_of w2)" using users_or_ok [OF s2] same by simp
  moreover have "ut_users (users_of w2) = upsert us_id assign_user (user_row ?u) (ut_users (users_of w)) \<and>
      ut_identities (users_of w2) = ut_identities (users_of w)"
    if "save_user ?u (users_of w) = (Inr y, users_of w2)" using that by (metis save_user_rows save_user_identities)
  ultimately show ?thesis using users_or_ok [OF s3] by metis
qed

text \<open>
  C17: the old address keeps working after a change of the e-mail address.  When a user has changed the own address, the
  old one, still a verified identity, leads to the same user as before.
\<close>

theorem old_address_still_logs_in:
  assumes "users_ok (users_of w)" "update_my_email c d u new w = (Inr u', w')" "lower_email c new \<noteq> us_email u"
    and "user_with_identity (\<lambda>i. ui_type i = IdentityEmail \<and> ui_identifier i = old) (users_of w) = Some v" "us_id v = us_id u"
    and "old \<noteq> lower_email c new"
  shows "\<exists>row. get_user_by_identity IdentityEmail old (users_of w') = (Inr (Some row), users_of w') \<and> us_id row = us_id u"
proof -
  let ?P = "\<lambda>i. ui_type i = IdentityEmail \<and> ui_identifier i = old" and ?u = "u\<lparr>us_email := lower_email c new, us_updated_at := ad_now d\<rparr>"
  obtain t1 x where t1: "ut_users t1 = upsert us_id assign_user (user_row ?u) (ut_users (users_of w))"
      "ut_identities t1 = ut_identities (users_of w)"
    and save: "save_user_identity (verified_identity d (ad_ids d 0) (us_id u) IdentityEmail [] (lower_email c new) True) t1 = (Inr x, users_of w')"
    using update_my_email_done [OF assms(2,3)] by blast
  obtain i where i: "i \<in> set (ut_identities (users_of w))" "ui_user_id i = us_id u" "?P i"
    using user_with_identity_found(2) [OF assms(4)] assms(5) by auto
  have key: "identity_key k = identity_key i" if "?P k" for k
    by (rule supported_keys [OF _ that i(3)]) (simp add: is_supported_identity_type_def)
  have there: "i \<in> set (ut_identities (users_of w'))"
    by (rule save_identity_others [OF save]) (use i t1 assms(6) in \<open>auto simp: identity_key_def verified_identity_def identity_row_def\<close>)
  have ok: "users_ok (users_of w')" by (rule keepsD [OF users_ok.my_profile_keeps(3) assms(1,2)])
  have "us_id u \<in> us_id ` set (ut_users (users_of w'))"
    using saved_user_id [of ?u "ut_users (users_of w)"] save_identity_users [OF save] t1(1) by simp
  then obtain row where row: "row \<in> set (ut_users (users_of w'))" "us_id row = us_id u" by force
  have "user_with_identity ?P (users_of w') = Some row"
    by (rule user_with_identity_unique [where P = ?P and i = i, OF ok there i(3) _ row(1)]) (use key row(2) i(2) in auto)
  then show ?thesis using row(2) by (simp add: get_user_by_identity_def)
qed

theorem old_address_still_logs_in_witness:
  "\<exists>u' w'. update_my_email (demo_auth demo_jwts demo_refreshes) (demo_draws 9) demo_user (lit ''b'') demo_change_app = (Inr u', w') \<and>
     (\<exists>row. get_user_by_identity IdentityEmail (lit ''a'') (users_of w') = (Inr (Some row), users_of w') \<and> us_id row = lit ''u'')"
proof -
  have new: "lower_email (demo_auth demo_jwts demo_refreshes) (lit ''b'') = lit ''b''"
    by (simp add: lower_email_def to_lower_def lower_rune_def trim_space_fix is_space_def lit_Cons)
  have ab: "lit ''b'' \<noteq> lit ''a''" "lit ''b'' \<noteq> []" "lit ''i'' \<noteq> [49]" by (simp_all add: lit_Cons)
  obtain u' w' where run: "update_my_email (demo_auth demo_jwts demo_refreshes) (demo_draws 9) demo_user (lit ''b'') demo_change_app = (Inr u', w')"
    using ab by (simp add: update_my_email_def new check_my_email_def save_my_email_def andthen_def users_or_def users_call_def demo_tables_simps
        demo_op_simps save_user_identity_def identity_row_def verified_identity_def identity_conflict_def insert_rows_def user_row_def update_where_def assign_user_def)
  have "\<exists>row. get_user_by_identity IdentityEmail (lit ''a'') (users_of w') = (Inr (Some row), users_of w') \<and> us_id row = us_id demo_user"
    by (rule old_address_still_logs_in [OF _ run, where v = demo_user])
      (use demo_users_ok demo_found ab in \<open>simp_all add: new demo_auth_app_def empty_auth_app_def users_of_def demo_user_def\<close>)
  then show ?thesis using run by (simp add: demo_user_def)
qed

end
