(* ===== verification/SearchIndex.thy ===== *)
theory SearchIndex
  imports PdfPages Retrieval BookApp
begin

text \<open>
  The clients of the two search indexes: \<open>Client\<close> of \<open>backend/pkg/retrieval/qdrant.go\<close> (dense and sparse vectors) and
  \<open>OpenSearchClient\<close> of \<open>opensearch.go\<close> (words).  A server is a function from requests to replies; the locales
  \<open>qdrant_server\<close> and \<open>opensearch_server\<close> state what the code relies on, and both clients implement the interface
  \<open>book_index\<close>, on which the indexer rests.  SHA-1 UUIDs, \<open>%.0f\<close> and the JSON decoder are parameters.
\<close>

section \<open>Requests and replies\<close>

text \<open>No reply, or a status with the body, as text and, if it is JSON, decoded.\<close>

datatype http_reply = NoReply gostr | Reply int gostr "json option"

datatype index_err = IndexApi int gostr | IndexOther gostr

text \<open>\<open>do\<close> of both clients.\<close>

definition index_do :: "('c \<Rightarrow> 's \<Rightarrow> http_reply \<times> 's) \<Rightarrow> 'c \<Rightarrow> 's \<Rightarrow> (index_err + json option) \<times> 's" where
  "index_do srv cmd s =
     (case srv cmd s of
        (NoReply e, s') \<Rightarrow> (Inl (IndexOther e), s')
      | (Reply st body js, s') \<Rightarrow> (if 400 \<le> st then Inl (IndexApi st body) else Inr js, s'))"

definition ignore_reply :: "(index_err + 'a) \<times> 's \<Rightarrow> (index_err + unit) \<times> 's" where
  "ignore_reply x = (case x of (Inl e, s) \<Rightarrow> (Inl e, s) | (Inr _, s) \<Rightarrow> (Inr (), s))"

text \<open>\<open>Error\<close> of an error; \<open>line\<close> is the text of a status.\<close>

definition index_error_text :: "(int \<Rightarrow> gostr) \<Rightarrow> index_err \<Rightarrow> gostr" where
  "index_error_text line e =
     (case e of IndexOther s \<Rightarrow> s
      | IndexApi st body \<Rightarrow>
          lit ''qdrant error ('' @ itoa st @ lit ''): '' @ (if trim_space body = [] then line st else trim_space body))"

record index_lib =
  xl_lower :: "rune \<Rightarrow> rune"
  xl_status_line :: "int \<Rightarrow> gostr"
  xl_uuid :: "gostr \<Rightarrow> gostr"                        \<comment> \<open>SHA-1 UUID in the namespace of the points\<close>
  xl_fmt0 :: "real \<Rightarrow> gostr"                         \<comment> \<open>\<open>%.0f\<close>\<close>

text \<open>\<open>anyString\<close> of a value.\<close>

fun any_string :: "(real \<Rightarrow> gostr) \<Rightarrow> json option \<Rightarrow> gostr" where
  "any_string fmt0 (Some (JStr s)) = trim_space s"
| "any_string fmt0 (Some (JNum x)) = trim_space (fmt0 x)"
| "any_string fmt0 _ = []"

fun any_number :: "json option \<Rightarrow> real" where
  "any_number (Some (JNum x)) = x"
| "any_number _ = 0"

text \<open>What a query returns.\<close>

record search_point =
  sp_id :: gostr
  sp_payload :: "(gostr \<times> json) list"
  sp_score :: real

section \<open>Qdrant\<close>

record index_point =
  xp_id :: gostr
  xp_dense :: "real list"
  xp_sparse :: sparse_vector
  xp_payload :: metadata

datatype qd_request =
    QdEnsure gostr int
  | QdUpsert gostr "(gostr \<times> index_point) list"       \<comment> \<open>the points with their UUIDs\<close>
  | QdDelete gostr gostr                                \<comment> \<open>by the book of the payload\<close>
  | QdDense gostr gostr "real list" int                 \<comment> \<open>book, vector, limit\<close>
  | QdSparse gostr gostr sparse_vector int

type_synonym 's qdrant = "qd_request \<Rightarrow> 's \<Rightarrow> http_reply \<times> 's"

record qdrant_client =
  qc_collection :: gostr
  qc_dense_size :: int

text \<open>\<open>strings.TrimRight\<close> of slashes.\<close>

definition trim_slashes :: "gostr \<Rightarrow> gostr" where
  "trim_slashes s = rev (dropWhile (\<lambda>r. r = 47) (rev s))"

definition new_qdrant_client :: "gostr \<Rightarrow> gostr \<Rightarrow> int \<Rightarrow> gostr + qdrant_client" where
  "new_qdrant_client base0 collection0 dense_size =
     (let base = trim_slashes (trim_space base0); collection = trim_space collection0 in
      if base = [] then Inl (lit ''qdrant base url required'')
      else if collection = [] then Inl (lit ''qdrant collection required'')
      else if dense_size \<le> 0 then Inl (lit ''qdrant dense size required'')
      else Inr \<lparr>qc_collection = collection, qc_dense_size = dense_size\<rparr>)"

definition ensure_collection :: "index_lib \<Rightarrow> 's qdrant \<Rightarrow> qdrant_client \<Rightarrow> 's \<Rightarrow> (index_err + unit) \<times> 's" where
  "ensure_collection l srv c s =
     (case index_do srv (QdEnsure (qc_collection c) (qc_dense_size c)) s of
        (Inl (IndexApi st body), s') \<Rightarrow>
          (let b = to_lower (xl_lower l) body in
           if st = 409 \<and> (str_contains b (lit ''already exists'') \<or> str_contains b (lit ''collection'')) then (Inr (), s')
           else (Inl (IndexApi st body), s'))
      | (Inl e, s') \<Rightarrow> (Inl e, s')
      | (Inr _, s') \<Rightarrow> (Inr (), s'))"

text \<open>The name that the UUID of a point is made of.\<close>

definition point_name :: "gostr \<Rightarrow> metadata \<Rightarrow> gostr" where
  "point_name source payload =
     (let get = (\<lambda>k. trim_space (meta_get payload k));
          base0 = (if get (lit ''chunk_id'') \<noteq> [] then get (lit ''chunk_id'') else trim_space source);
          base1 = (if base0 = [] then get (lit ''content_sha256'') else base0);
          base = (if get (lit ''book_id'') \<noteq> [] then get (lit ''book_id'') @ lit '':'' @ base1 else base1)
      in if base = [] then lit ''onebookai-qdrant-point'' else base)"

definition qdrant_point_id :: "index_lib \<Rightarrow> gostr \<Rightarrow> metadata \<Rightarrow> gostr" where
  "qdrant_point_id l source payload = xl_uuid l (point_name source payload)"

definition point_entry :: "index_lib \<Rightarrow> index_point \<Rightarrow> gostr \<times> index_point" where
  "point_entry l p = (qdrant_point_id l (xp_id p) (xp_payload p), p)"

definition upsert_points ::
  "index_lib \<Rightarrow> 's qdrant \<Rightarrow> qdrant_client \<Rightarrow> index_point list \<Rightarrow> 's \<Rightarrow> (index_err + unit) \<times> 's" where
  "upsert_points l srv c ps s =
     (if ps = [] then (Inr (), s)
      else ignore_reply (index_do srv (QdUpsert (qc_collection c) (map (point_entry l) ps)) s))"

definition qdrant_missing :: "index_lib \<Rightarrow> index_err \<Rightarrow> bool" where
  "qdrant_missing l e \<longleftrightarrow>
     str_contains (to_lower (xl_lower l) (index_error_text (xl_status_line l) e)) (lit ''not found'') \<or>
     (case e of IndexApi st _ \<Rightarrow> st = 404 | _ \<Rightarrow> False)"

definition qdrant_delete_by_book ::
  "index_lib \<Rightarrow> 's qdrant \<Rightarrow> qdrant_client \<Rightarrow> gostr \<Rightarrow> 's \<Rightarrow> (index_err + unit) \<times> 's" where
  "qdrant_delete_by_book l srv c bid0 s =
     (let bid = trim_space bid0 in
      if bid = [] then (Inr (), s)
      else case ignore_reply (index_do srv (QdDelete (qc_collection c) bid) s) of
             (Inl e, s') \<Rightarrow> (if qdrant_missing l e then Inr () else Inl e, s')
           | (Inr _, s') \<Rightarrow> (Inr (), s'))"

definition parse_qdrant_point :: "index_lib \<Rightarrow> json \<Rightarrow> search_point list" where
  "parse_qdrant_point l item =
     (case item of
        JObj row \<Rightarrow>
          (let pid = any_string (xl_fmt0 l) (map_of row (lit ''id''));
               score = any_number (map_of row (lit ''score''))
           in case map_of row (lit ''payload'') of
                Some (JObj m) \<Rightarrow>
                  (let chunk_id = any_string (xl_fmt0 l) (map_of m (lit ''chunk_id'')) in
                   [\<lparr>sp_id = (if chunk_id \<noteq> [] then chunk_id else pid), sp_payload = m, sp_score = score\<rparr>])
              | _ \<Rightarrow> [\<lparr>sp_id = pid, sp_payload = [], sp_score = score\<rparr>])
      | _ \<Rightarrow> [])"

definition parse_qdrant_points :: "index_lib \<Rightarrow> json list \<Rightarrow> search_point list" where
  "parse_qdrant_points l items = concat (map (parse_qdrant_point l) items)"

definition query_response_points :: "index_lib \<Rightarrow> json option \<Rightarrow> search_point list" where
  "query_response_points l result =
     (case result of
        Some (JArr items) \<Rightarrow> parse_qdrant_points l items
      | Some (JObj m) \<Rightarrow>
          (case map_of m (lit ''points'') of Some (JArr items) \<Rightarrow> parse_qdrant_points l items
           | _ \<Rightarrow> (case map_of m (lit ''result'') of Some (JArr items) \<Rightarrow> parse_qdrant_points l items | _ \<Rightarrow> []))
      | _ \<Rightarrow> [])"

definition qdrant_query ::
  "index_lib \<Rightarrow> 's qdrant \<Rightarrow> qd_request \<Rightarrow> 's \<Rightarrow> (index_err + search_point list) \<times> 's" where
  "qdrant_query l srv cmd s =
     (case index_do srv cmd s of
        (Inl (IndexApi st body), s') \<Rightarrow> (if st = 404 then Inr [] else Inl (IndexApi st body), s')
      | (Inl e, s') \<Rightarrow> (Inl e, s')
      | (Inr (Some (JObj m)), s') \<Rightarrow> (Inr (query_response_points l (map_of m (lit ''result''))), s')
      | (Inr (Some JNull), s') \<Rightarrow> (Inr [], s')
      | (Inr _, s') \<Rightarrow> (Inl (IndexOther (lit ''invalid JSON'')), s'))"

definition query_dense ::
  "index_lib \<Rightarrow> 's qdrant \<Rightarrow> qdrant_client \<Rightarrow> gostr \<Rightarrow> real list \<Rightarrow> int \<Rightarrow> 's \<Rightarrow> (index_err + search_point list) \<times> 's" where
  "query_dense l srv c bid vec limit s =
     (if vec = [] \<or> limit \<le> 0 then (Inr [], s) else qdrant_query l srv (QdDense (qc_collection c) (trim_space bid) vec limit) s)"

definition query_sparse ::
  "index_lib \<Rightarrow> 's qdrant \<Rightarrow> qdrant_client \<Rightarrow> gostr \<Rightarrow> sparse_vector \<Rightarrow> int \<Rightarrow> 's \<Rightarrow> (index_err + search_point list) \<times> 's" where
  "query_sparse l srv c bid vec limit s =
     (if sv_indices vec = [] \<or> sv_values vec = [] \<or> limit \<le> 0 then (Inr [], s)
      else qdrant_query l srv (QdSparse (qc_collection c) (trim_space bid) vec limit) s)"

section \<open>OpenSearch\<close>

record lexical_document =
  ld_id :: gostr
  ld_content :: gostr
  ld_terms :: gostr
  ld_payload :: metadata

datatype os_request =
    OsEnsure gostr
  | OsDelete gostr gostr                                \<comment> \<open>index, book\<close>
  | OsBulk gostr "(gostr \<times> metadata) list"
  | OsSearch gostr gostr gostr int                      \<comment> \<open>index, book or nothing, terms, limit\<close>
  | OsDropIndex gostr
  | OsList gostr

type_synonym 's opensearch = "os_request \<Rightarrow> 's \<Rightarrow> http_reply \<times> 's"

record opensearch_client =
  oc_index :: gostr
  oc_username :: gostr

definition new_opensearch_client :: "gostr \<Rightarrow> gostr \<Rightarrow> gostr \<Rightarrow> gostr + opensearch_client" where
  "new_opensearch_client base0 index0 user =
     (let base = trim_slashes (trim_space base0); ix = trim_space index0 in
      if base = [] then Inl (lit ''opensearch base url required'')
      else if ix = [] then Inl (lit ''opensearch index required'')
      else Inr \<lparr>oc_index = ix, oc_username = trim_space user\<rparr>)"

definition ensure_index :: "index_lib \<Rightarrow> 's opensearch \<Rightarrow> opensearch_client \<Rightarrow> 's \<Rightarrow> (index_err + unit) \<times> 's" where
  "ensure_index l srv c s =
     (case index_do srv (OsEnsure (oc_index c)) s of
        (Inl (IndexApi st body), s') \<Rightarrow>
          (if st = 400 \<and> str_contains (to_lower (xl_lower l) body) (lit ''already_exists'') then (Inr (), s')
           else (Inl (IndexApi st body), s'))
      | (Inl e, s') \<Rightarrow> (Inl e, s')
      | (Inr _, s') \<Rightarrow> (Inr (), s'))"

text \<open>An error with status 404 counts as success with \<open>x\<close>.\<close>

definition allow_missing :: "'a \<Rightarrow> (index_err + 'a) \<times> 's \<Rightarrow> (index_err + 'a) \<times> 's" where
  "allow_missing x r =
     (case r of (Inl (IndexApi st body), s) \<Rightarrow> (if st = 404 then Inr x else Inl (IndexApi st body), s) | _ \<Rightarrow> r)"

definition opensearch_delete_by_book :: "'s opensearch \<Rightarrow> opensearch_client \<Rightarrow> gostr \<Rightarrow> 's \<Rightarrow> (index_err + unit) \<times> 's" where
  "opensearch_delete_by_book srv c bid0 s =
     (let bid = trim_space bid0 in
      if bid = [] then (Inr (), s)
      else allow_missing () (ignore_reply (index_do srv (OsDelete (oc_index c) bid) s)))"

text \<open>The fields that are copied from the payload.\<close>

definition payload_fields :: "gostr list" where
  "payload_fields =
     [lit ''book_id'', lit ''chunk_family'', lit ''section_id'', lit ''title'', lit ''section_title'', lit ''keywords'', lit ''tags'',
      lit ''block_type'', lit ''language'', lit ''is_first_page'', lit ''entities'', lit ''facts'']"

definition document_source :: "lexical_document \<Rightarrow> metadata" where
  "document_source d =
     (\<lambda>k. if k \<in> set payload_fields then Some (trim_space (meta_get (ld_payload d) k))
          else if k = lit ''chunk_id'' then Some (ld_id d)
          else if k = lit ''content_text'' then Some (ld_content d)
          else if k = lit ''content_terms'' then Some (ld_terms d) else None)"

definition index_documents ::
  "'s opensearch \<Rightarrow> opensearch_client \<Rightarrow> lexical_document list \<Rightarrow> 's \<Rightarrow> (index_err + unit) \<times> 's" where
  "index_documents srv c docs s =
     (if docs = [] then (Inr (), s)
      else case index_do srv (OsBulk (oc_index c) (map (\<lambda>d. (ld_id d, document_source d)) docs)) s of
        (Inl e, s') \<Rightarrow> (Inl e, s')
      | (Inr (Some (JObj m)), s') \<Rightarrow>
          (case map_of m (lit ''errors'') of
             Some (JBool True) \<Rightarrow> (Inl (IndexOther (lit ''opensearch bulk index reported partial errors'')), s')
           | Some (JBool False) \<Rightarrow> (Inr (), s')
           | Some JNull \<Rightarrow> (Inr (), s')
           | None \<Rightarrow> (Inr (), s')
           | Some _ \<Rightarrow> (Inl (IndexOther (lit ''invalid JSON'')), s'))
      | (Inr (Some JNull), s') \<Rightarrow> (Inr (), s')
      | (Inr _, s') \<Rightarrow> (Inl (IndexOther (lit ''invalid JSON'')), s'))"

text \<open>The decoder of a hit: a score of JSON null is 0, a source that is missing or null has no fields.\<close>

definition decode_hit :: "json \<Rightarrow> (real \<times> (gostr \<times> json) list) option" where
  "decode_hit h =
     (case h of
        JNull \<Rightarrow> Some (0, [])
      | JObj m \<Rightarrow>
          (case map_of m (lit ''_id'') of
             Some (JBool _) \<Rightarrow> None | Some (JNum _) \<Rightarrow> None | Some (JArr _) \<Rightarrow> None | Some (JObj _) \<Rightarrow> None
           | _ \<Rightarrow>
          (case (case map_of m (lit ''_score'') of None \<Rightarrow> Some 0 | Some JNull \<Rightarrow> Some 0 | Some (JNum x) \<Rightarrow> Some x | Some _ \<Rightarrow> None) of
             None \<Rightarrow> None
           | Some score \<Rightarrow>
               (case map_of m (lit ''_source'') of
                  None \<Rightarrow> Some (score, []) | Some JNull \<Rightarrow> Some (score, []) | Some (JObj src) \<Rightarrow> Some (score, src) | Some _ \<Rightarrow> None)))
      | _ \<Rightarrow> None)"

fun decode_all :: "('a \<Rightarrow> 'b option) \<Rightarrow> 'a list \<Rightarrow> 'b list option" where
  "decode_all f [] = Some []"
| "decode_all f (x # xs) =
     (case f x of None \<Rightarrow> None | Some y \<Rightarrow> (case decode_all f xs of None \<Rightarrow> None | Some ys \<Rightarrow> Some (y # ys)))"

text \<open>A member of an object that is decoded into a struct or a slice: missing and null are empty.\<close>

definition json_member :: "json option \<Rightarrow> gostr \<Rightarrow> json option option" where
  "json_member j k =
     (case j of None \<Rightarrow> Some None | Some JNull \<Rightarrow> Some None | Some (JObj m) \<Rightarrow> Some (map_of m k) | Some _ \<Rightarrow> None)"

definition decode_hits :: "json option \<Rightarrow> (real \<times> (gostr \<times> json) list) list option" where
  "decode_hits j =
     (case j of None \<Rightarrow> None
      | Some _ \<Rightarrow>
     (case json_member j (lit ''hits'') of None \<Rightarrow> None
      | Some outer \<Rightarrow>
     (case json_member outer (lit ''hits'') of
        None \<Rightarrow> None
      | Some None \<Rightarrow> Some []
      | Some (Some JNull) \<Rightarrow> Some []
      | Some (Some (JArr hs)) \<Rightarrow> decode_all decode_hit hs
      | Some (Some _) \<Rightarrow> None)))"

definition hit_point :: "index_lib \<Rightarrow> real \<times> (gostr \<times> json) list \<Rightarrow> search_point" where
  "hit_point l h =
     (let (score, src) = h; get = (\<lambda>k. any_string (xl_fmt0 l) (map_of src k)) in
      \<lparr>sp_id = get (lit ''chunk_id''), sp_payload = map (\<lambda>k. (k, JStr (get k))) (lit ''chunk_id'' # payload_fields), sp_score = score\<rparr>)"

definition query_bm25 ::
  "index_lib \<Rightarrow> 's opensearch \<Rightarrow> opensearch_client \<Rightarrow> gostr \<Rightarrow> gostr \<Rightarrow> int \<Rightarrow> 's \<Rightarrow> (index_err + search_point list) \<times> 's" where
  "query_bm25 l srv c bid terms0 limit s =
     (let terms = trim_space terms0 in
      if terms = [] \<or> limit \<le> 0 then (Inr [], s)
      else allow_missing []
        (case index_do srv (OsSearch (oc_index c) (trim_space bid) terms limit) s of
           (Inl e, s') \<Rightarrow> (Inl e, s')
         | (Inr js, s') \<Rightarrow>
             (case decode_hits js of
                None \<Rightarrow> (Inl (IndexOther (lit ''invalid JSON'')), s')
              | Some hs \<Rightarrow> (Inr (map (hit_point l) hs), s'))))"

definition delete_index :: "'s opensearch \<Rightarrow> opensearch_client \<Rightarrow> 's \<Rightarrow> (index_err + unit) \<times> 's" where
  "delete_index srv c s = allow_missing () (ignore_reply (index_do srv (OsDropIndex (oc_index c)) s))"

definition decode_index_name :: "json \<Rightarrow> gostr option" where
  "decode_index_name j =
     (case json_member (Some j) (lit ''index'') of
        None \<Rightarrow> None | Some None \<Rightarrow> Some [] | Some (Some JNull) \<Rightarrow> Some [] | Some (Some (JStr s)) \<Rightarrow> Some s | Some (Some _) \<Rightarrow> None)"

definition list_indices_by_prefix :: "'s opensearch \<Rightarrow> gostr \<Rightarrow> 's \<Rightarrow> (index_err + gostr list) \<times> 's" where
  "list_indices_by_prefix srv pre0 s =
     (let pre = trim_space pre0 in
      if pre = [] then (Inr [], s)
      else allow_missing []
        (case index_do srv (OsList pre) s of
           (Inl e, s') \<Rightarrow> (Inl e, s')
         | (Inr (Some (JArr rows)), s') \<Rightarrow>
             (case decode_all decode_index_name rows of
                None \<Rightarrow> (Inl (IndexOther (lit ''invalid JSON'')), s')
              | Some names \<Rightarrow> (Inr (filter (\<lambda>n. n \<noteq> []) (map trim_space names)), s'))
         | (Inr (Some JNull), s') \<Rightarrow> (Inr [], s')
         | (Inr _, s') \<Rightarrow> (Inl (IndexOther (lit ''invalid JSON'')), s')))"

section \<open>What a client relies on\<close>

text \<open>The entries without those of a book.\<close>

definition without_book :: "('e \<Rightarrow> gostr) \<Rightarrow> gostr \<Rightarrow> (gostr \<rightharpoonup> 'e) \<Rightarrow> gostr \<rightharpoonup> 'e" where
  "without_book of_book bid m = (\<lambda>i. case m i of None \<Rightarrow> None | Some e \<Rightarrow> if of_book e = bid then None else Some e)"

definition book_entries :: "('e \<Rightarrow> gostr) \<Rightarrow> gostr \<Rightarrow> (gostr \<rightharpoonup> 'e) \<Rightarrow> (gostr \<times> 'e) set" where
  "book_entries of_book bid m = {(i, e). m i = Some e \<and> of_book e = bid}"

lemma without_book_entries [simp]: "book_entries of_book bid (without_book of_book bid m) = {}"
  by (auto simp: book_entries_def without_book_def split: option.splits if_splits)

text \<open>An index of entries that belong to books: what it holds after a success, and what a failure leaves alone.\<close>

locale book_index =
  fixes put :: "'p list \<Rightarrow> 's \<Rightarrow> (index_err + unit) \<times> 's"
    and drop_book :: "gostr \<Rightarrow> 's \<Rightarrow> (index_err + unit) \<times> 's"
    and contents :: "'s \<Rightarrow> gostr \<rightharpoonup> 'e"
    and entry :: "'p \<Rightarrow> gostr \<times> 'e"
    and of_book :: "'e \<Rightarrow> gostr"
  assumes put_ok: "put xs s = (Inr (), s') \<Longrightarrow> contents s' = contents s ++ map_of (rev (map entry xs))"
    and put_frame: "put xs s = (r, s') \<Longrightarrow> i \<notin> (fst \<circ> entry) ` set xs \<Longrightarrow> contents s' i = contents s i"
    and drop_ok: "drop_book bid s = (Inr (), s') \<Longrightarrow> trim_space bid \<noteq> [] \<Longrightarrow> contents s' = without_book of_book (trim_space bid) (contents s)"
    and drop_frame: "drop_book bid s = (r, s') \<Longrightarrow> contents s' i \<noteq> contents s i \<Longrightarrow>
      \<exists>e. contents s i = Some e \<and> of_book e = trim_space bid"
begin

text \<open>With unique IDs the book then has the entries that were put and no others.\<close>

lemma reindexed:
  assumes "contents s' = without_book of_book bid m ++ map_of (rev (map entry xs))"
    and "distinct (map (fst \<circ> entry) xs)" "\<And>x. x \<in> set xs \<Longrightarrow> of_book (snd (entry x)) = bid"
  shows "book_entries of_book bid (contents s') = entry ` set xs"
proof -
  let ?new = "map_of (rev (map entry xs))"
  have "map fst (rev (map entry xs)) = rev (map (fst \<circ> entry) xs)" by (simp add: rev_map)
  then have d: "distinct (map fst (rev (map entry xs)))" using assms(2) by (metis distinct_rev)
  have new: "?new i = Some e \<longleftrightarrow> (i, e) \<in> entry ` set xs" for i e
    using map_of_eq_Some_iff [OF d, of i e] by auto
  have old: "without_book of_book bid m i = Some e \<Longrightarrow> of_book e \<noteq> bid" for i e
    by (auto simp: without_book_def split: option.splits if_splits)
  show ?thesis
  proof (intro set_eqI iffI)
    fix p assume p: "p \<in> book_entries of_book bid (contents s')"
    obtain i e where ie: "p = (i, e)" by (cases p)
    then have "contents s' i = Some e" "of_book e = bid" using p by (auto simp: book_entries_def)
    then show "p \<in> entry ` set xs" using old new ie unfolding assms(1) by (auto simp: map_add_Some_iff)
  next
    fix p assume p: "p \<in> entry ` set xs"
    obtain i e where ie: "p = (i, e)" by (cases p)
    then have "?new i = Some e" using p new by simp
    moreover have "of_book e = bid"
    proof -
      obtain x where "x \<in> set xs" "entry x = (i, e)" using p ie by (metis imageE)
      then show ?thesis using assms(3) [of x] by simp
    qed
    ultimately show "p \<in> book_entries of_book bid (contents s')"
      using ie unfolding book_entries_def assms(1) by (auto simp: map_add_Some_iff)
  qed
qed

end

definition point_book :: "index_point \<Rightarrow> gostr" where
  "point_book p = meta_get (xp_payload p) (lit ''book_id'')"

definition source_book :: "metadata \<Rightarrow> gostr" where
  "source_book m = meta_get m (lit ''book_id'')"

definition reply_missing :: "index_lib \<Rightarrow> http_reply \<Rightarrow> bool" where
  "reply_missing l r = (case r of NoReply e \<Rightarrow> qdrant_missing l (IndexOther e) | Reply st body _ \<Rightarrow> 400 \<le> st \<and> qdrant_missing l (IndexApi st body))"

text \<open>
  A Qdrant server, as far as the points of one collection go: a successful request has taken effect (\<open>wait=true\<close>), a
  failed one may have, and whoever says that something was not found has no points.
\<close>

locale qdrant_server =
  fixes l :: index_lib and srv :: "'s qdrant" and c :: qdrant_client and contents :: "'s \<Rightarrow> gostr \<rightharpoonup> index_point"
  assumes upsert_ok: "srv (QdUpsert (qc_collection c) ps) s = (Reply st body js, s') \<Longrightarrow> st < 400 \<Longrightarrow> contents s' = contents s ++ map_of (rev ps)"
    and upsert_frame: "srv (QdUpsert (qc_collection c) ps) s = (r, s') \<Longrightarrow> i \<notin> fst ` set ps \<Longrightarrow> contents s' i = contents s i"
    and delete_ok: "srv (QdDelete (qc_collection c) bid) s = (Reply st body js, s') \<Longrightarrow> st < 400 \<Longrightarrow>
      contents s' = without_book point_book bid (contents s)"
    and delete_missing: "srv (QdDelete (qc_collection c) bid) s = (r, s') \<Longrightarrow> reply_missing l r \<Longrightarrow> contents s = Map.empty \<and> contents s' = Map.empty"
    and delete_frame: "srv (QdDelete (qc_collection c) bid) s = (r, s') \<Longrightarrow> contents s' i \<noteq> contents s i \<Longrightarrow>
      \<exists>e. contents s i = Some e \<and> point_book e = bid"
    and ensure_frame: "srv (QdEnsure (qc_collection c) n) s = (r, s') \<Longrightarrow> contents s' = contents s"
begin

lemma upsert_points_cases:
  assumes "upsert_points l srv c ps s = (r, s')" "ps \<noteq> []"
  shows "\<exists>q. srv (QdUpsert (qc_collection c) (map (point_entry l) ps)) s = (q, s') \<and>
    (r = Inr () \<longrightarrow> (\<exists>st body js. q = Reply st body js \<and> st < 400))"
  using assms by (auto simp: upsert_points_def ignore_reply_def index_do_def split: prod.splits http_reply.splits if_splits)

lemma delete_cases:
  assumes "qdrant_delete_by_book l srv c bid s = (r, s')" "trim_space bid \<noteq> []"
  shows "\<exists>q. srv (QdDelete (qc_collection c) (trim_space bid)) s = (q, s') \<and>
    (r = Inr () \<longrightarrow> reply_missing l q \<or> (\<exists>st body js. q = Reply st body js \<and> st < 400))"
  using assms
  by (auto simp: qdrant_delete_by_book_def ignore_reply_def index_do_def reply_missing_def Let_def
      split: prod.splits http_reply.splits if_splits)

lemma ensure_collection_frame: "ensure_collection l srv c s = (r, s') \<Longrightarrow> contents s' = contents s"
  using ensure_frame [of "qc_dense_size c" s]
  by (auto simp: ensure_collection_def index_do_def Let_def split: prod.splits http_reply.splits if_splits)

end

sublocale qdrant_server \<subseteq> points: book_index "upsert_points l srv c" "qdrant_delete_by_book l srv c" contents "point_entry l" point_book
proof
  fix xs s s' assume r: "upsert_points l srv c xs s = (Inr (), s')"
  show "contents s' = contents s ++ map_of (rev (map (point_entry l) xs))"
  proof (cases "xs = []")
    case False
    show ?thesis using upsert_points_cases [OF r False] upsert_ok by blast
  qed (use r in \<open>simp add: upsert_points_def\<close>)
next
  fix xs s r s' i assume r: "upsert_points l srv c xs s = (r, s')" "i \<notin> (fst \<circ> point_entry l) ` set xs"
  show "contents s' i = contents s i"
  proof (cases "xs = []")
    case False
    then obtain q where "srv (QdUpsert (qc_collection c) (map (point_entry l) xs)) s = (q, s')" using upsert_points_cases [OF r(1)] by blast
    then show ?thesis by (rule upsert_frame) (use r(2) in \<open>simp add: image_comp\<close>)
  qed (use r in \<open>simp add: upsert_points_def\<close>)
next
  fix bid s s' assume r: "qdrant_delete_by_book l srv c bid s = (Inr (), s')" "trim_space bid \<noteq> []"
  obtain q where q: "srv (QdDelete (qc_collection c) (trim_space bid)) s = (q, s')"
    "reply_missing l q \<or> (\<exists>st body js. q = Reply st body js \<and> st < 400)" using delete_cases [OF r] by blast
  then show "contents s' = without_book point_book (trim_space bid) (contents s)"
    using delete_ok delete_missing [OF q(1)] by (auto simp: without_book_def)
next
  fix bid s r s' i assume r: "qdrant_delete_by_book l srv c bid s = (r, s')" "contents s' i \<noteq> contents s i"
  show "\<exists>e. contents s i = Some e \<and> point_book e = trim_space bid"
  proof (cases "trim_space bid = []")
    case False
    then show ?thesis using delete_cases [OF r(1)] delete_frame r(2) by blast
  qed (use r in \<open>simp add: qdrant_delete_by_book_def\<close>)
qed

context qdrant_server begin

lemmas put_points_ok = points.put_ok
lemmas put_points_frame = points.put_frame
lemmas drop_points_ok = points.drop_ok
lemmas drop_points_frame = points.drop_frame
lemmas points_reindexed = points.reindexed

end

text \<open>The same for OpenSearch: the documents of one index.  A bulk request may fail for some documents.\<close>

locale opensearch_server =
  fixes srv :: "'s opensearch" and c :: opensearch_client and contents :: "'s \<Rightarrow> gostr \<rightharpoonup> metadata"
  assumes bulk_ok: "srv (OsBulk (oc_index c) ds) s = (Reply st body (Some j), s') \<Longrightarrow> st < 400 \<Longrightarrow>
      (\<And>m. j = JObj m \<Longrightarrow> map_of m (lit ''errors'') \<noteq> Some (JBool True)) \<Longrightarrow> contents s' = contents s ++ map_of (rev ds)"
    and bulk_frame: "srv (OsBulk (oc_index c) ds) s = (r, s') \<Longrightarrow> i \<notin> fst ` set ds \<Longrightarrow> contents s' i = contents s i"
    and delete_ok: "srv (OsDelete (oc_index c) bid) s = (Reply st body js, s') \<Longrightarrow> st < 400 \<Longrightarrow>
      contents s' = without_book source_book bid (contents s)"
    and delete_missing: "srv (OsDelete (oc_index c) bid) s = (Reply 404 body js, s') \<Longrightarrow> contents s = Map.empty \<and> contents s' = Map.empty"
    and delete_frame: "srv (OsDelete (oc_index c) bid) s = (r, s') \<Longrightarrow> contents s' i \<noteq> contents s i \<Longrightarrow>
      \<exists>e. contents s i = Some e \<and> source_book e = bid"
    and ensure_frame: "srv (OsEnsure (oc_index c)) s = (r, s') \<Longrightarrow> contents s' = contents s"
begin

lemma index_documents_cases:
  assumes "index_documents srv c ds s = (r, s')" "ds \<noteq> []"
  shows "\<exists>q. srv (OsBulk (oc_index c) (map (\<lambda>d. (ld_id d, document_source d)) ds)) s = (q, s') \<and>
    (r = Inr () \<longrightarrow> (\<exists>st body j. q = Reply st body (Some j) \<and> st < 400 \<and> (\<forall>m. j = JObj m \<longrightarrow> map_of m (lit ''errors'') \<noteq> Some (JBool True))))"
  using assms
  by (auto simp: index_documents_def index_do_def split: prod.splits http_reply.splits if_splits sum.splits option.splits json.splits bool.splits)

lemma delete_cases:
  assumes "opensearch_delete_by_book srv c bid s = (r, s')" "trim_space bid \<noteq> []"
  shows "\<exists>q. srv (OsDelete (oc_index c) (trim_space bid)) s = (q, s') \<and>
    (r = Inr () \<longrightarrow> (\<exists>st body js. q = Reply st body js \<and> (st = 404 \<or> st < 400)))"
  using assms
  by (auto simp: opensearch_delete_by_book_def allow_missing_def ignore_reply_def index_do_def Let_def
      split: prod.splits http_reply.splits if_splits sum.splits index_err.splits)

lemma ensure_index_frame: "ensure_index l srv c s = (r, s') \<Longrightarrow> contents s' = contents s"
  using ensure_frame [of s]
  by (auto simp: ensure_index_def index_do_def Let_def split: prod.splits http_reply.splits if_splits)

end

definition document_entry :: "lexical_document \<Rightarrow> gostr \<times> metadata" where
  "document_entry d = (ld_id d, document_source d)"

sublocale opensearch_server \<subseteq> documents: book_index "index_documents srv c" "opensearch_delete_by_book srv c" contents document_entry source_book
proof
  have entry: "map (\<lambda>d. (ld_id d, document_source d)) ds = map document_entry ds" for ds by (simp add: document_entry_def)
  fix xs s s' assume r: "index_documents srv c xs s = (Inr (), s')"
  show "contents s' = contents s ++ map_of (rev (map document_entry xs))"
  proof (cases "xs = []")
    case False
    obtain st body j where q: "srv (OsBulk (oc_index c) (map document_entry xs)) s = (Reply st body (Some j), s')" "st < 400"
      and e: "\<forall>m. j = JObj m \<longrightarrow> map_of m (lit ''errors'') \<noteq> Some (JBool True)"
      using index_documents_cases [OF r False] unfolding entry by blast
    show ?thesis by (rule bulk_ok [OF q]) (use e in blast)
  qed (use r in \<open>simp add: index_documents_def\<close>)
next
  fix xs s r s' i assume r: "index_documents srv c xs s = (r, s')" "i \<notin> (fst \<circ> document_entry) ` set xs"
  show "contents s' i = contents s i"
  proof (cases "xs = []")
    case False
    then obtain q where "srv (OsBulk (oc_index c) (map (\<lambda>d. (ld_id d, document_source d)) xs)) s = (q, s')"
      using index_documents_cases [OF r(1)] by blast
    then show ?thesis by (rule bulk_frame) (use r(2) in \<open>simp add: image_comp document_entry_def comp_def\<close>)
  qed (use r in \<open>simp add: index_documents_def\<close>)
next
  fix bid s s' assume r: "opensearch_delete_by_book srv c bid s = (Inr (), s')" "trim_space bid \<noteq> []"
  obtain st body js where q: "srv (OsDelete (oc_index c) (trim_space bid)) s = (Reply st body js, s')" "st = 404 \<or> st < 400"
    using delete_cases [OF r] by blast
  then show "contents s' = without_book source_book (trim_space bid) (contents s)"
    using delete_ok [OF q(1)] delete_missing [of "trim_space bid" s body js s'] by (auto simp: without_book_def)
next
  fix bid s r s' i assume r: "opensearch_delete_by_book srv c bid s = (r, s')" "contents s' i \<noteq> contents s i"
  show "\<exists>e. contents s i = Some e \<and> source_book e = trim_space bid"
  proof (cases "trim_space bid = []")
    case False
    then show ?thesis using delete_cases [OF r(1)] delete_frame r(2) by blast
  qed (use r in \<open>simp add: opensearch_delete_by_book_def\<close>)
qed

context opensearch_server begin

lemmas put_documents_ok = documents.put_ok
lemmas put_documents_frame = documents.put_frame
lemmas drop_documents_ok = documents.drop_ok
lemmas drop_documents_frame = documents.drop_frame
lemmas documents_reindexed = documents.reindexed

end

section \<open>Servers that satisfy this\<close>

text \<open>
  The entries and a schedule: \<open>None\<close> for a success, otherwise whether the request took effect before the connection
  broke.  An exhausted schedule means success.
\<close>

type_synonym 'e faulty_index = "(gostr \<rightharpoonup> 'e) \<times> bool option list"

definition faulty_reply :: "json option \<Rightarrow> (gostr \<rightharpoonup> 'e) \<Rightarrow> 'e faulty_index \<Rightarrow> http_reply \<times> 'e faulty_index" where
  "faulty_reply js m s =
     (case s of
        (old, []) \<Rightarrow> (Reply 200 [] js, (m, []))
      | (old, None # fs) \<Rightarrow> (Reply 200 [] js, (m, fs))
      | (old, Some b # fs) \<Rightarrow> (NoReply [], (if b then m else old, fs)))"

fun faulty_qdrant :: "index_point faulty_index qdrant" where
  "faulty_qdrant (QdUpsert coll ps) s = faulty_reply (Some (JObj [])) (fst s ++ map_of (rev ps)) s"
| "faulty_qdrant (QdDelete coll bid) s = faulty_reply (Some (JObj [])) (without_book point_book bid (fst s)) s"
| "faulty_qdrant cmd s = faulty_reply (Some (JObj [])) (fst s) s"

fun faulty_opensearch :: "metadata faulty_index opensearch" where
  "faulty_opensearch (OsBulk ix ds) s = faulty_reply (Some (JObj [])) (fst s ++ map_of (rev ds)) s"
| "faulty_opensearch (OsDelete ix bid) s = faulty_reply (Some (JObj [])) (without_book source_book bid (fst s)) s"
| "faulty_opensearch cmd s = faulty_reply (Some (JObj [])) (fst s) s"

lemma faulty_reply_cases:
  assumes "faulty_reply js m s = (r, s')"
  shows "(fst s' = m \<and> r = Reply 200 [] js) \<or> ((fst s' = m \<or> fst s' = fst s) \<and> r = NoReply [])"
  using assms by (auto simp: faulty_reply_def split: prod.splits list.splits option.splits if_splits)

lemma silent_not_missing: "\<not> reply_missing l (NoReply [])" "\<not> reply_missing l (Reply 200 [] js)"
  by (simp_all add: reply_missing_def qdrant_missing_def index_error_text_def to_lower_def lit_Cons)

interpretation fq: qdrant_server l faulty_qdrant c fst for l c
proof
  fix ps s st body js s' assume "faulty_qdrant (QdUpsert (qc_collection c) ps) s = (Reply st body js, s')"
  then show "fst s' = fst s ++ map_of (rev ps)" using faulty_reply_cases by fastforce
next
  fix ps s r s' i assume "faulty_qdrant (QdUpsert (qc_collection c) ps) s = (r, s')" "i \<notin> fst ` set ps"
  moreover have "map_of (rev ps) i = None" if "i \<notin> fst ` set ps" using that by (simp add: map_of_eq_None_iff)
  ultimately show "fst s' i = fst s i"
    using faulty_reply_cases [of "Some (JObj [])" "fst s ++ map_of (rev ps)" s r s'] by (auto simp: map_add_def)
next
  fix bid s st body js s' assume "faulty_qdrant (QdDelete (qc_collection c) bid) s = (Reply st body js, s')"
  then show "fst s' = without_book point_book bid (fst s)" using faulty_reply_cases by fastforce
next
  fix bid s r s' assume "faulty_qdrant (QdDelete (qc_collection c) bid) s = (r, s')" "reply_missing l r"
  then show "fst s = Map.empty \<and> fst s' = Map.empty"
    using faulty_reply_cases [of "Some (JObj [])" "without_book point_book bid (fst s)" s r s'] silent_not_missing [of l] by auto
next
  fix bid s r s' i assume "faulty_qdrant (QdDelete (qc_collection c) bid) s = (r, s')" "fst s' i \<noteq> fst s i"
  then show "\<exists>e. fst s i = Some e \<and> point_book e = bid"
    using faulty_reply_cases [of "Some (JObj [])" "without_book point_book bid (fst s)" s r s']
    by (auto simp: without_book_def split: option.splits if_splits)
next
  fix n s r s' assume "faulty_qdrant (QdEnsure (qc_collection c) n) s = (r, s')"
  then show "fst s' = fst s" using faulty_reply_cases [of "Some (JObj [])" "fst s" s r s'] by auto
qed

interpretation fo: opensearch_server faulty_opensearch c fst for c
proof
  fix ds s st body j s' assume "faulty_opensearch (OsBulk (oc_index c) ds) s = (Reply st body (Some j), s')"
  then show "fst s' = fst s ++ map_of (rev ds)" using faulty_reply_cases by fastforce
next
  fix ds s r s' i assume "faulty_opensearch (OsBulk (oc_index c) ds) s = (r, s')" "i \<notin> fst ` set ds"
  moreover have "map_of (rev ds) i = None" if "i \<notin> fst ` set ds" using that by (simp add: map_of_eq_None_iff)
  ultimately show "fst s' i = fst s i"
    using faulty_reply_cases [of "Some (JObj [])" "fst s ++ map_of (rev ds)" s r s'] by (auto simp: map_add_def)
next
  fix bid s st body js s' assume "faulty_opensearch (OsDelete (oc_index c) bid) s = (Reply st body js, s')"
  then show "fst s' = without_book source_book bid (fst s)" using faulty_reply_cases by fastforce
next
  fix bid s body js s' assume "faulty_opensearch (OsDelete (oc_index c) bid) s = (Reply 404 body js, s')"
  then show "fst s = Map.empty \<and> fst s' = Map.empty"
    using faulty_reply_cases [of "Some (JObj [])" "without_book source_book bid (fst s)" s "Reply 404 body js" s'] by auto
next
  fix bid s r s' i assume "faulty_opensearch (OsDelete (oc_index c) bid) s = (r, s')" "fst s' i \<noteq> fst s i"
  then show "\<exists>e. fst s i = Some e \<and> source_book e = bid"
    using faulty_reply_cases [of "Some (JObj [])" "without_book source_book bid (fst s)" s r s']
    by (auto simp: without_book_def split: option.splits if_splits)
next
  fix s r s' assume "faulty_opensearch (OsEnsure (oc_index c)) s = (r, s')"
  then show "fst s' = fst s" using faulty_reply_cases [of "Some (JObj [])" "fst s" s r s'] by auto
qed

end
