(* ===== verification/Indexer.thy ===== *)
theory Indexer
  imports Steps SearchIndex Ingest
begin

text \<open>
  The indexer (\<open>backend/services/indexer/internal/app/app.go\<close>) and its embedding client (\<open>backend/pkg/ai/ollama.go\<close>):
  a job reports its progress to the book service, empties both indexes of the book, embeds the semantic chunks in
  batches into Qdrant, writes the lexical ones to OpenSearch, and reports the book as ready.  The client of the book
  service is that of \<open>Ingest\<close>, whose code is the same.  The batches run concurrently in the code; here they run one after
  the other in an order that is an input.
\<close>

section \<open>Embeddings\<close>

datatype ol_request =
    OlEmbed gostr "gostr list" int                      \<comment> \<open>model, inputs, dimensions\<close>
  | OlLegacy gostr gostr

type_synonym 's ollama = "ol_request \<Rightarrow> 's \<Rightarrow> http_reply \<times> 's"

definition embed_error_text :: "json option \<Rightarrow> gostr" where
  "embed_error_text js =
     (case js of Some (JObj m) \<Rightarrow> (case map_of m (lit ''error'') of Some (JStr s) \<Rightarrow> s | _ \<Rightarrow> []) | _ \<Rightarrow> [])"

text \<open>\<open>doJSON\<close>: the status and the error, or the decoded reply.\<close>

definition ollama_do :: "(int \<Rightarrow> gostr) \<Rightarrow> 's ollama \<Rightarrow> ol_request \<Rightarrow> 's \<Rightarrow> (int \<times> gostr + json) \<times> 's" where
  "ollama_do line srv cmd s =
     (case srv cmd s of
        (NoReply e, s') \<Rightarrow> (Inl (0, e), s')
      | (Reply st body js, s') \<Rightarrow>
          (if 400 \<le> st
           then Inl (st, lit ''ollama api error: '' @ (if embed_error_text js \<noteq> [] then embed_error_text js else line st))
           else (case js of None \<Rightarrow> Inl (st, lit ''invalid JSON'') | Some j \<Rightarrow> Inr j), s'))"

definition decode_number :: "json \<Rightarrow> real option" where
  "decode_number j = (case j of JNum x \<Rightarrow> Some x | JNull \<Rightarrow> Some 0 | _ \<Rightarrow> None)"

definition decode_vector :: "json option \<Rightarrow> real list option" where
  "decode_vector j = (case j of None \<Rightarrow> Some [] | Some JNull \<Rightarrow> Some [] | Some (JArr xs) \<Rightarrow> decode_all decode_number xs | Some _ \<Rightarrow> None)"

definition decode_vectors :: "json option \<Rightarrow> real list list option" where
  "decode_vectors j =
     (case j of None \<Rightarrow> Some [] | Some JNull \<Rightarrow> Some [] | Some (JArr xs) \<Rightarrow> decode_all (\<lambda>x. decode_vector (Some x)) xs | Some _ \<Rightarrow> None)"

text \<open>The two fields of a reply: \<open>embeddings\<close> and \<open>embedding\<close>.\<close>

definition decode_embeddings :: "json \<Rightarrow> (real list list \<times> real list) option" where
  "decode_embeddings j =
     (case (json_member (Some j) (lit ''embeddings''), json_member (Some j) (lit ''embedding'')) of
        (Some a, Some b) \<Rightarrow>
          (case (decode_vectors a, decode_vector b) of (Some vs, Some v) \<Rightarrow> Some (vs, v) | _ \<Rightarrow> None)
      | _ \<Rightarrow> None)"

definition ollama_embeddings ::
  "(int \<Rightarrow> gostr) \<Rightarrow> 's ollama \<Rightarrow> ol_request \<Rightarrow> 's \<Rightarrow> (int \<times> gostr + real list list \<times> real list) \<times> 's" where
  "ollama_embeddings line srv cmd s =
     (case ollama_do line srv cmd s of
        (Inl e, s') \<Rightarrow> (Inl e, s')
      | (Inr j, s') \<Rightarrow> (case decode_embeddings j of None \<Rightarrow> Inl (200, lit ''invalid JSON'') | Some x \<Rightarrow> Inr x, s'))"

definition embed_legacy :: "(int \<Rightarrow> gostr) \<Rightarrow> 's ollama \<Rightarrow> gostr \<Rightarrow> gostr \<Rightarrow> 's \<Rightarrow> (gostr + real list) \<times> 's" where
  "embed_legacy line srv model text s =
     (case ollama_embeddings line srv (OlLegacy model text) s of
        (Inl (_, e), s') \<Rightarrow> (Inl e, s')
      | (Inr (_, v), s') \<Rightarrow> (if v = [] then Inl (lit ''ollama embedding response missing embedding'') else Inr v, s'))"

text \<open>A status 404 or 405 means a server that has the old interface only.\<close>

definition old_interface :: "int \<Rightarrow> bool" where
  "old_interface st \<longleftrightarrow> st = 404 \<or> st = 405"

definition ollama_embed_text ::
  "(int \<Rightarrow> gostr) \<Rightarrow> 's ollama \<Rightarrow> gostr \<Rightarrow> int \<Rightarrow> gostr \<Rightarrow> 's \<Rightarrow> (gostr + real list) \<times> 's" where
  "ollama_embed_text line srv model0 dimensions text s =
     (let model = trim_space model0 in
      if model = [] then (Inl (lit ''ollama embedding model required''), s)
      else if trim_space text = [] then (Inl (lit ''embedding text required''), s)
      else case ollama_embeddings line srv (OlEmbed model [text] (max 0 dimensions)) s of
        (Inl (st, e), s') \<Rightarrow> if old_interface st then embed_legacy line srv model text s' else (Inl e, s')
      | (Inr (vs, v), s') \<Rightarrow>
          (case vs of x # _ \<Rightarrow> Inr x
           | [] \<Rightarrow> if v \<noteq> [] then Inr v else Inl (lit ''ollama embed response missing embeddings''), s'))"

fun embed_one_by_one :: "(gostr \<Rightarrow> 's \<Rightarrow> (gostr + real list) \<times> 's) \<Rightarrow> gostr list \<Rightarrow> 's \<Rightarrow> (gostr + real list list) \<times> 's" where
  "embed_one_by_one f [] s = (Inr [], s)"
| "embed_one_by_one f (t # ts) s =
     (case f t s of
        (Inl e, s1) \<Rightarrow> (Inl e, s1)
      | (Inr v, s1) \<Rightarrow> (case embed_one_by_one f ts s1 of (Inl e, s2) \<Rightarrow> (Inl e, s2) | (Inr vs, s2) \<Rightarrow> (Inr (v # vs), s2)))"

definition ollama_embed_texts ::
  "(int \<Rightarrow> gostr) \<Rightarrow> 's ollama \<Rightarrow> gostr \<Rightarrow> int \<Rightarrow> gostr list \<Rightarrow> 's \<Rightarrow> (gostr + real list list) \<times> 's" where
  "ollama_embed_texts line srv model0 dimensions texts s =
     (let model = trim_space model0 in
      if model = [] then (Inl (lit ''ollama embedding model required''), s)
      else if texts = [] then (Inl (lit ''embedding texts required''), s)
      else case ollama_embeddings line srv (OlEmbed model texts (max 0 dimensions)) s of
        (Inl (st, e), s') \<Rightarrow>
          if old_interface st then embed_one_by_one (ollama_embed_text line srv model dimensions) texts s' else (Inl e, s')
      | (Inr (vs, v), s') \<Rightarrow>
          (if vs \<noteq> [] then Inr vs
           else if v \<noteq> [] \<and> length texts = 1 then Inr [v]
           else Inl (lit ''ollama embed response missing embeddings''), s'))"

section \<open>What is indexed\<close>

definition split_chunks_by_tier :: "chunk list \<Rightarrow> chunk list \<times> chunk list" where
  "split_chunks_by_tier cs =
     (let lexical = (\<lambda>c. trim_space (meta_get (ch_metadata c) (lit ''retrieval_tier'')) = lit ''lexical'') in
      (filter (\<lambda>c. \<not> lexical c) cs, filter lexical cs))"

definition indexed_ids :: "chunk list \<Rightarrow> gostr list" where
  "indexed_ids cs = map ch_id (filter (\<lambda>c. trim_space (ch_id c) \<noteq> []) cs)"

definition first_non_blank :: "gostr list \<Rightarrow> gostr" where
  "first_non_blank vs = (case filter (\<lambda>v. v \<noteq> []) (map trim_space vs) of [] \<Rightarrow> [] | v # _ \<Rightarrow> v)"

definition indexed_language :: "unicode \<Rightarrow> chunk \<Rightarrow> gostr" where
  "indexed_language u c =
     (let l = trim_space (meta_get (ch_metadata c) (lit ''language'')) in if l = [] then detect_language u (ch_content c) else l)"

text \<open>The fields that both payloads have.\<close>

definition chunk_payload_fields :: "unicode \<Rightarrow> chunk \<Rightarrow> metadata" where
  "chunk_payload_fields u c =
     (let get = (\<lambda>k. meta_get (ch_metadata c) (lit k)) in
      [lit ''chunk_id'' \<mapsto> ch_id c, lit ''book_id'' \<mapsto> ch_book_id c, lit ''chunk_family'' \<mapsto> trim_space (get ''chunk_family''),
       lit ''section_id'' \<mapsto> trim_space (get ''section_id''),
       lit ''block_type'' \<mapsto> first_non_blank [get ''block_type'', get ''source_type''],
       lit ''language'' \<mapsto> indexed_language u c, lit ''is_first_page'' \<mapsto> trim_space (get ''is_first_page''),
       lit ''entities'' \<mapsto> trim_space (get ''entities''), lit ''facts'' \<mapsto> trim_space (get ''facts'')])"

definition chunk_point :: "unicode \<Rightarrow> chunk \<Rightarrow> real list \<Rightarrow> index_point" where
  "chunk_point u c v =
     \<lparr>xp_id = ch_id c, xp_dense = v, xp_sparse = build_sparse_vector u (ch_content c) (indexed_language u c),
      xp_payload = chunk_payload_fields u c\<rparr>"

definition chunk_document :: "unicode \<Rightarrow> chunk \<Rightarrow> lexical_document" where
  "chunk_document u c =
     (let get = (\<lambda>k. meta_get (ch_metadata c) (lit k)) in
      \<lparr>ld_id = ch_id c, ld_content = ch_content c, ld_terms = join (tokenize u (ch_content c) (indexed_language u c)) (lit '' ''),
       ld_payload = (chunk_payload_fields u c)
         (lit ''title'' \<mapsto> trim_space (get ''title''),
          lit ''section_title'' \<mapsto> first_non_blank [get ''section_title'', get ''section'', get ''section_path''],
          lit ''keywords'' \<mapsto> trim_space (get ''keywords''), lit ''tags'' \<mapsto> trim_space (get ''tags''))\<rparr>)"

section \<open>The environment of a job\<close>

record ('k, 'p, 'q, 'o, 'm) index_env =
  xe_base :: "('k, 'p) ingest_env"                      \<comment> \<open>the client of the book service, and the database\<close>
  xe_unicode :: unicode
  xe_lib :: index_lib
  xe_qdrant :: "'q qdrant"
  xe_points :: qdrant_client
  xe_opensearch :: "'o opensearch"
  xe_words :: opensearch_client
  xe_ollama :: "'m ollama"
  xe_model :: gostr
  xe_dim :: int
  xe_batch_size :: int

record ('q, 'o, 'm) index_world =
  xw_base :: ingest_world
  xw_qdrant :: 'q
  xw_opensearch :: 'o
  xw_model :: 'm

type_synonym ('q, 'o, 'm, 'a) index_op = "('q, 'o, 'm) index_world \<Rightarrow> (ingest_err + 'a) \<times> ('q, 'o, 'm) index_world"

definition on_base :: "(ingest_world \<Rightarrow> (ingest_err + 'a) \<times> ingest_world) \<Rightarrow> ('q, 'o, 'm, 'a) index_op" where
  "on_base f w = (let (r, b) = f (xw_base w) in (r, w\<lparr>xw_base := b\<rparr>))"

definition index_fail :: "index_lib \<Rightarrow> index_err + 'a \<Rightarrow> ingest_err + 'a" where
  "index_fail l r = (case r of Inl e \<Rightarrow> Inl (IngErr (index_error_text (xl_status_line l) e)) | Inr x \<Rightarrow> Inr x)"

definition on_points :: "('k, 'p, 'q, 'o, 'm) index_env \<Rightarrow> ('q \<Rightarrow> (index_err + 'a) \<times> 'q) \<Rightarrow> ('q, 'o, 'm, 'a) index_op" where
  "on_points e f w = (let (r, s) = f (xw_qdrant w) in (index_fail (xe_lib e) r, w\<lparr>xw_qdrant := s\<rparr>))"

definition on_words :: "('k, 'p, 'q, 'o, 'm) index_env \<Rightarrow> ('o \<Rightarrow> (index_err + 'a) \<times> 'o) \<Rightarrow> ('q, 'o, 'm, 'a) index_op" where
  "on_words e f w = (let (r, s) = f (xw_opensearch w) in (index_fail (xe_lib e) r, w\<lparr>xw_opensearch := s\<rparr>))"

definition on_model :: "('m \<Rightarrow> (gostr + 'a) \<times> 'm) \<Rightarrow> ('q, 'o, 'm, 'a) index_op" where
  "on_model f w = (let (r, s) = f (xw_model w) in (case r of Inl e \<Rightarrow> Inl (IngErr e) | Inr x \<Rightarrow> Inr x, w\<lparr>xw_model := s\<rparr>))"

section \<open>Batches\<close>

text \<open>The loop that cuts the chunks into batches; it would not end for a batch size 0.\<close>

partial_function (option) batch_loop :: "nat \<Rightarrow> 'a list \<Rightarrow> nat \<Rightarrow> 'a list list option" where
  "batch_loop k xs i =
     (if i < length xs
      then Option.bind (batch_loop k xs (i + k)) (\<lambda>bs. Some (take k (drop i xs) # bs))
      else Some [])"

definition batch_size :: "int \<Rightarrow> nat" where
  "batch_size configured = (if configured \<le> 0 then 1 else nat configured)"

definition embed_batch :: "('k, 'p, 'q, 'o, 'm) index_env \<Rightarrow> gostr list \<Rightarrow> 'm \<Rightarrow> (gostr + real list list) \<times> 'm" where
  "embed_batch e texts =
     (if 1 < length texts then ollama_embed_texts (xl_status_line (xe_lib e)) (xe_ollama e) (xe_model e) (xe_dim e) texts
      else embed_one_by_one (ollama_embed_text (xl_status_line (xe_lib e)) (xe_ollama e) (xe_model e) (xe_dim e)) texts)"

text \<open>The points of a batch, up to the first embedding of another dimension.\<close>

fun batch_points :: "unicode \<Rightarrow> int \<Rightarrow> (chunk \<times> real list) list \<Rightarrow> gostr + index_point list" where
  "batch_points u dimension [] = Inr []"
| "batch_points u dimension ((c, v) # rest) =
     (if 0 < dimension \<and> int (length v) \<noteq> dimension
      then Inl (lit ''embedding dimension mismatch: got '' @ itoa (int (length v)))
      else case batch_points u dimension rest of Inl e \<Rightarrow> Inl e | Inr ps \<Rightarrow> Inr (chunk_point u c v # ps))"

definition store_batch :: "('k, 'p, 'q, 'o, 'm) index_env \<Rightarrow> chunk list \<Rightarrow> real list list \<Rightarrow> ('q, 'o, 'm, unit) index_op" where
  "store_batch e batch vectors =
     (if length vectors \<noteq> length batch
      then fail_with (IngErr (lit ''embedding count mismatch: got '' @ itoa (int (length vectors)) @ lit '', want '' @ itoa (int (length batch))))
      else case batch_points (xe_unicode e) (xe_dim e) (zip batch vectors) of
        Inl er \<Rightarrow> fail_with (IngErr er)
      | Inr ps \<Rightarrow> on_points e (upsert_points (xe_lib e) (xe_qdrant e) (xe_points e) ps))"

definition process_batch :: "('k, 'p, 'q, 'o, 'm) index_env \<Rightarrow> chunk list \<Rightarrow> ('q, 'o, 'm, unit) index_op" where
  "process_batch e batch =
     (if batch = [] then done_with ()
      else andthen (on_model (embed_batch e (map ch_content batch))) (store_batch e batch))"

text \<open>All batches run, and the first error is the result of the group.\<close>

fun run_batches :: "('k, 'p, 'q, 'o, 'm) index_env \<Rightarrow> chunk list list \<Rightarrow> ('q, 'o, 'm, unit) index_op" where
  "run_batches e [] w = (Inr (), w)"
| "run_batches e (b # bs) w =
     (let (r, w1) = process_batch e b w; (r', w2) = run_batches e bs w1
      in (case r of Inl er \<Rightarrow> Inl er | Inr _ \<Rightarrow> r', w2))"

definition embed_and_store ::
  "('k, 'p, 'q, 'o, 'm) index_env \<Rightarrow> (chunk list list \<Rightarrow> chunk list list) \<Rightarrow> chunk list \<Rightarrow> ('q, 'o, 'm, unit) index_op" where
  "embed_and_store e arrange cs =
     (if cs = [] then done_with ()
      else run_batches e (arrange (case batch_loop (batch_size (xe_batch_size e)) cs 0 of None \<Rightarrow> [] | Some bs \<Rightarrow> bs)))"

definition index_lexical :: "('k, 'p, 'q, 'o, 'm) index_env \<Rightarrow> chunk list \<Rightarrow> ('q, 'o, 'm, unit) index_op" where
  "index_lexical e cs =
     (if cs = [] then done_with ()
      else on_words e (index_documents (xe_opensearch e) (xe_words e) (map (chunk_document (xe_unicode e)) cs)))"

section \<open>A job\<close>

definition index_book_config :: "('k, 'p, 'q, 'o, 'm) index_env \<Rightarrow> book_config" where
  "index_book_config e = ie_book_config (xe_base e)"

text \<open>The name that is recorded: no embedder of the repository has the method \<open>ModelName\<close>.\<close>

definition cfg_embedding_model :: gostr where
  "cfg_embedding_model = []"

definition mark_index ::
  "('k, 'p, 'q, 'o, 'm) index_env \<Rightarrow> gotime \<Rightarrow> chunk list \<Rightarrow> index_backend \<Rightarrow> sync_status \<Rightarrow> gostr \<Rightarrow> ('q, 'o, 'm, unit) index_op" where
  "mark_index e now cs backend status msg =
     on_base (ingest_store (index_book_config e)
       (update_chunk_index_status now (indexed_ids cs) backend status cfg_embedding_model (xe_dim e) msg))"

text \<open>A step whose failure is noted at the chunks before it is reported, whatever becomes of the note.\<close>

definition or_mark_failed ::
  "('k, 'p, 'q, 'o, 'm) index_env \<Rightarrow> gotime \<Rightarrow> chunk list \<Rightarrow> index_backend \<Rightarrow> ('q, 'o, 'm, unit) index_op \<Rightarrow> ('q, 'o, 'm, unit) index_op" where
  "or_mark_failed e now cs backend m w =
     (case m w of
        (Inl er, w1) \<Rightarrow> (Inl er, snd (mark_index e now cs backend SyncFailed (ing_text er) w1))
      | (Inr _, w1) \<Rightarrow> (Inr (), w1))"

definition report_status ::
  "('k, 'p, 'q, 'o, 'm) index_env \<Rightarrow> gotime \<Rightarrow> gostr \<Rightarrow> gostr \<Rightarrow> int \<Rightarrow> book_status \<Rightarrow> gostr \<Rightarrow> ('q, 'o, 'm, unit) index_op" where
  "report_status e now jti bid gen status msg = on_base (client_update_status (xe_base e) now jti bid gen status msg)"

definition empty_indexes :: "('k, 'p, 'q, 'o, 'm) index_env \<Rightarrow> gostr \<Rightarrow> ('q, 'o, 'm, unit) index_op" where
  "empty_indexes e bid =
     andthen (on_points e (ensure_collection (xe_lib e) (xe_qdrant e) (xe_points e))) (\<lambda>_.
     andthen (on_words e (ensure_index (xe_lib e) (xe_opensearch e) (xe_words e))) (\<lambda>_.
     andthen (on_points e (qdrant_delete_by_book (xe_lib e) (xe_qdrant e) (xe_points e) bid)) (\<lambda>_.
     on_words e (opensearch_delete_by_book (xe_opensearch e) (xe_words e) bid))))"

definition fill_indexes ::
  "('k, 'p, 'q, 'o, 'm) index_env \<Rightarrow> gotime \<Rightarrow> (chunk list list \<Rightarrow> chunk list list) \<Rightarrow> chunk list \<Rightarrow> chunk list \<Rightarrow> ('q, 'o, 'm, unit) index_op" where
  "fill_indexes e now arrange semantic lexical =
     andthen (or_mark_failed e now semantic Qdrant (embed_and_store e arrange semantic)) (\<lambda>_.
     andthen (mark_index e now semantic Qdrant SyncSynced []) (\<lambda>_.
     andthen (or_mark_failed e now lexical OpenSearch (index_lexical e lexical)) (\<lambda>_.
     mark_index e now lexical OpenSearch SyncSynced [])))"

text \<open>All of \<open>process\<close> after the first report, up to the first error.\<close>

definition index_steps ::
  "('k, 'p, 'q, 'o, 'm) index_env \<Rightarrow> gotime \<Rightarrow> gostr \<Rightarrow> (chunk list list \<Rightarrow> chunk list list) \<Rightarrow> gostr \<Rightarrow> int \<Rightarrow> ('q, 'o, 'm, unit) index_op" where
  "index_steps e now jti arrange bid gen =
     andthen (on_base (ingest_store (index_book_config e) (list_chunks_by_book bid))) (\<lambda>cs.
     if cs = [] then fail_with (IngErr (lit ''no chunks to index''))
     else let (semantic, lexical) = split_chunks_by_tier cs in
       if semantic = [] then fail_with (IngErr (lit ''no semantic chunks to index''))
       else andthen (empty_indexes e bid) (\<lambda>_.
            andthen (fill_indexes e now arrange semantic lexical) (\<lambda>_.
            report_status e now jti bid gen BookReady [])))"

text \<open>Every error but that of a stale generation is reported, whatever becomes of the report.\<close>

definition index_process ::
  "('k, 'p, 'q, 'o, 'm) index_env \<Rightarrow> gotime \<Rightarrow> gostr \<Rightarrow> (chunk list list \<Rightarrow> chunk list list) \<Rightarrow> gostr \<Rightarrow> int \<Rightarrow> ('q, 'o, 'm, unit) index_op" where
  "index_process e now jti arrange bid gen w =
     (let failed = (\<lambda>er w. (Inl er, snd (report_status e now jti bid gen BookFailed (ing_text er) w))) in
      case report_status e now jti bid gen BookProcessing [] w of
        (Inl er, w1) \<Rightarrow> (if er = IngStale then (Inr (), w1) else failed er w1)
      | (Inr _, w1) \<Rightarrow>
          (case index_steps e now jti arrange bid gen w1 of (Inl er, w2) \<Rightarrow> failed er w2 | (Inr _, w2) \<Rightarrow> (Inr (), w2)))"

section \<open>The interface of the indexer\<close>

text \<open>\<open>Enqueue\<close> and the generation of a payload are the same code as in the ingest service.\<close>

definition index_job_request ::
  "(gostr \<times> int \<Rightarrow> gostr) \<Rightarrow> (gostr \<Rightarrow> gostr \<Rightarrow> 'w \<Rightarrow> (gostr + job_status) \<times> 'w) \<Rightarrow> gostr \<Rightarrow> int \<Rightarrow> 'w \<Rightarrow> (gostr + job_status) \<times> 'w" where
  "index_job_request encode enqueue_job bid gen w =
     (if trim_space bid = [] then (Inl (lit ''bookId required''), w)
      else enqueue_job bid (encode (trim_space bid, gen)) w)"

definition index_generation :: "(gostr \<Rightarrow> (gostr \<times> int) option) \<Rightarrow> gostr \<Rightarrow> int" where
  "index_generation decode payload =
     (if payload = [] then 0 else case decode payload of None \<Rightarrow> 0 | Some (_, gen) \<Rightarrow> gen)"

end
