(* ===== verification/IndexerProps.thy ===== *)
theory IndexerProps
  imports Indexer
begin

text \<open>
  The indexer: the batches cover the chunks, a job that succeeds leaves exactly the chunks of its book in both
  indexes, and a job of a stale generation touches neither.
\<close>

section \<open>Batches\<close>

lemma batch_loop_total:
  assumes "0 < k"
  shows "\<exists>bs. batch_loop k xs i = Some bs \<and> concat bs = drop i xs \<and> length bs = (length xs - i + k - 1) div k \<and>
    list_all (\<lambda>b. b \<noteq> [] \<and> length b \<le> k) bs"
proof (induction "length xs - i" arbitrary: i rule: less_induct)
  case less
  show ?case
  proof (cases "i < length xs")
    case False
    then show ?thesis using assms by (subst batch_loop.simps) (simp add: div_eq_0_iff)
  next
    case True
    then obtain bs where bs: "batch_loop k xs (i + k) = Some bs" "concat bs = drop (i + k) xs"
      "length bs = (length xs - (i + k) + k - 1) div k" "list_all (\<lambda>b. b \<noteq> [] \<and> length b \<le> k) bs"
      using less [of "i + k"] diff_less_mono2 [of i "i + k" "length xs"] True assms by auto
    have "drop i xs = take k (drop i xs) @ drop (i + k) xs" by (metis add.commute append_take_drop_id drop_drop)
    moreover have "(length xs - i + k - 1) div k = Suc ((length xs - (i + k) + k - 1) div k)"
    proof (cases "i + k \<le> length xs")
      case True
      then have e: "length xs - i + k - 1 = (length xs - (i + k) + k - 1) + k" using assms by simp
      show ?thesis unfolding e using assms by (simp only: div_add_self2)
    next
      case False
      then have e: "length xs - i + k - 1 = (length xs - i - 1) + k" and l: "length xs - i - 1 < k" using True assms by simp_all
      have "(length xs - (i + k) + k - 1) div k = 0" using False assms by simp
      then show ?thesis unfolding e using l assms by (simp add: div_add_self2)
    qed
    ultimately show ?thesis using True assms bs by (subst batch_loop.simps) auto
  qed
qed

lemma batch_size_positive [simp]: "0 < batch_size n"
  by (simp add: batch_size_def)

text \<open>
  C25: the loop that cuts the chunks into batches ends, whatever batch size is configured: after as many rounds as there
  are batches, with every chunk in exactly one batch, in order, and no batch empty or too large.
\<close>

theorem batches_end:
  "\<exists>bs. batch_loop (batch_size configured) xs 0 = Some bs \<and> concat bs = xs \<and>
     length bs = (length xs + batch_size configured - 1) div batch_size configured \<and>
     list_all (\<lambda>b. b \<noteq> [] \<and> length b \<le> batch_size configured) bs"
  using batch_loop_total [OF batch_size_positive, of configured xs 0] by simp

section \<open>A successful job\<close>

lemma on_parts_Inr:
  "on_base f w = (Inr x, w') \<longleftrightarrow> (\<exists>b. f (xw_base w) = (Inr x, b) \<and> w' = w\<lparr>xw_base := b\<rparr>)"
  "on_points e g w = (Inr x, w') \<longleftrightarrow> (\<exists>s. g (xw_qdrant w) = (Inr x, s) \<and> w' = w\<lparr>xw_qdrant := s\<rparr>)"
  "on_words e h w = (Inr x, w') \<longleftrightarrow> (\<exists>s. h (xw_opensearch w) = (Inr x, s) \<and> w' = w\<lparr>xw_opensearch := s\<rparr>)"
  "on_model m w = (Inr x, w') \<longleftrightarrow> (\<exists>s. m (xw_model w) = (Inr x, s) \<and> w' = w\<lparr>xw_model := s\<rparr>)"
  by (auto simp: on_base_def on_points_def on_words_def on_model_def index_fail_def split: prod.splits sum.splits)

lemma batch_points_Inr:
  "batch_points u n cvs = Inr ps \<Longrightarrow> ps = map (\<lambda>(c, v). chunk_point u c v) cvs \<and> (\<forall>(c, v)\<in>set cvs. 0 < n \<longrightarrow> int (length v) = n)"
proof (induction cvs arbitrary: ps)
  case (Cons cv cvs)
  obtain c v where cv: "cv = (c, v)" by (cases cv)
  obtain rest where "batch_points u n cvs = Inr rest" "ps = chunk_point u c v # rest" "\<not> (0 < n \<and> int (length v) \<noteq> n)"
    using Cons.prems cv by (auto split: if_splits sum.splits)
  then show ?case using Cons.IH [of rest] cv by auto
qed simp

definition chunk_entry :: "('k, 'p, 'q, 'o, 'm) index_env \<Rightarrow> (chunk \<Rightarrow> real list) \<Rightarrow> chunk \<Rightarrow> gostr \<times> index_point" where
  "chunk_entry e f c = point_entry (xe_lib e) (chunk_point (xe_unicode e) c (f c))"

definition vectors_fit :: "('k, 'p, 'q, 'o, 'm) index_env \<Rightarrow> (chunk \<Rightarrow> real list) \<Rightarrow> chunk set \<Rightarrow> bool" where
  "vectors_fit e f cs \<longleftrightarrow> 0 < xe_dim e \<longrightarrow> (\<forall>c\<in>cs. int (length (f c)) = xe_dim e)"

lemma zip_function:
  assumes "distinct cs" "length vs = length cs"
  shows "\<exists>f. zip cs vs = map (\<lambda>c. (c, f c)) cs"
proof -
  let ?f = "\<lambda>c. the (map_of (zip cs vs) c)"
  have "zip cs vs = map (\<lambda>c. (c, ?f c)) cs"
  proof (rule nth_equalityI)
    fix i assume "i < length (zip cs vs)"
    then show "zip cs vs ! i = map (\<lambda>c. (c, the (map_of (zip cs vs) c))) cs ! i"
      using assms by (simp add: map_of_zip_nth)
  qed (use assms in simp)
  then show ?thesis by (rule exI [of _ ?f])
qed

lemma process_batch_done:
  assumes "qdrant_server (xe_lib e) (xe_qdrant e) (xe_points e) contents" "process_batch e b w = (Inr (), w')" "distinct b"
  shows "\<exists>f. contents (xw_qdrant w') = contents (xw_qdrant w) ++ map_of (rev (map (chunk_entry e f) b)) \<and>
    vectors_fit e f (set b) \<and> xw_base w' = xw_base w \<and> xw_opensearch w' = xw_opensearch w"
proof (cases "b = []")
  case True
  then show ?thesis using assms(2) by (simp add: process_batch_def vectors_fit_def)
next
  case False
  obtain vs m w1 where m: "w1 = w\<lparr>xw_model := m\<rparr>" and st: "store_batch e b vs w1 = (Inr (), w')"
    using assms(2) False by (auto simp: process_batch_def andthen_Inr on_parts_Inr)
  obtain ps where len: "length vs = length b" and ps: "batch_points (xe_unicode e) (xe_dim e) (zip b vs) = Inr ps"
    and up: "on_points e (upsert_points (xe_lib e) (xe_qdrant e) (xe_points e) ps) w1 = (Inr (), w')"
    using st by (auto simp: store_batch_def split: if_splits sum.splits)
  obtain f where f: "zip b vs = map (\<lambda>c. (c, f c)) b" using zip_function [OF assms(3) len] by blast
  obtain s where s: "upsert_points (xe_lib e) (xe_qdrant e) (xe_points e) ps (xw_qdrant w1) = (Inr (), s)" "w' = w1\<lparr>xw_qdrant := s\<rparr>"
    using up by (auto simp: on_parts_Inr)
  have "contents s = contents (xw_qdrant w1) ++ map_of (rev (map (point_entry (xe_lib e)) ps))"
    by (rule qdrant_server.put_points_ok [OF assms(1) s(1)])
  moreover have "map (point_entry (xe_lib e)) ps = map (chunk_entry e f) b"
    using batch_points_Inr [OF ps] by (simp add: f chunk_entry_def comp_def)
  moreover have "vectors_fit e f (set b)" using batch_points_Inr [OF ps] by (auto simp: f vectors_fit_def)
  ultimately show ?thesis using m s(2) by (intro exI [of _ f]) simp
qed

lemma run_batches_done:
  assumes "qdrant_server (xe_lib e) (xe_qdrant e) (xe_points e) contents" "run_batches e bs w = (Inr (), w')" "distinct (concat bs)"
  shows "\<exists>f. contents (xw_qdrant w') = contents (xw_qdrant w) ++ map_of (rev (map (chunk_entry e f) (concat bs))) \<and>
    vectors_fit e f (set (concat bs)) \<and> xw_base w' = xw_base w \<and> xw_opensearch w' = xw_opensearch w"
  using assms(2,3)
proof (induction bs arbitrary: w)
  case (Cons b bs)
  obtain w1 where w1: "process_batch e b w = (Inr (), w1)" "run_batches e bs w1 = (Inr (), w')"
    using Cons.prems(1) by (auto split: prod.splits sum.splits)
  obtain f where f: "contents (xw_qdrant w1) = contents (xw_qdrant w) ++ map_of (rev (map (chunk_entry e f) b))" "vectors_fit e f (set b)"
    "xw_base w1 = xw_base w" "xw_opensearch w1 = xw_opensearch w"
    using process_batch_done [OF assms(1) w1(1)] Cons.prems(2) by auto
  obtain g where g: "contents (xw_qdrant w') = contents (xw_qdrant w1) ++ map_of (rev (map (chunk_entry e g) (concat bs)))"
    "vectors_fit e g (set (concat bs))" "xw_base w' = xw_base w1" "xw_opensearch w' = xw_opensearch w1"
    using Cons.IH [OF w1(2)] Cons.prems(2) by auto
  let ?h = "\<lambda>c. if c \<in> set b then f c else g c"
  have "set b \<inter> set (concat bs) = {}" using Cons.prems(2) by auto
  then have "map (chunk_entry e ?h) b = map (chunk_entry e f) b" "map (chunk_entry e ?h) (concat bs) = map (chunk_entry e g) (concat bs)"
    by (auto simp: chunk_entry_def)
  then have both: "map (chunk_entry e ?h) (concat (b # bs)) = map (chunk_entry e f) b @ map (chunk_entry e g) (concat bs)" by simp
  have "contents (xw_qdrant w') = contents (xw_qdrant w) ++ map_of (rev (map (chunk_entry e ?h) (concat (b # bs))))"
    unfolding both using f(1) g(1) by simp
  moreover have "vectors_fit e ?h (set (concat (b # bs)))" using f(2) g(2) by (auto simp: vectors_fit_def)
  ultimately show ?case using f(3,4) g(3,4) by (intro exI [of _ ?h]) simp
qed (simp add: vectors_fit_def)

lemma mset_concat_schedule: "mset (arrange bs) = mset bs \<Longrightarrow> mset (concat (arrange bs)) = mset (concat bs)"
  by (metis mset_concat mset_map sum_mset_sum_list)

text \<open>The order in which the batches run does not matter.\<close>

lemma embed_done:
  assumes "qdrant_server (xe_lib e) (xe_qdrant e) (xe_points e) contents" "embed_and_store e arrange cs w = (Inr (), w')"
    and "\<And>bs. mset (arrange bs) = mset bs" "distinct cs"
  shows "\<exists>f order. contents (xw_qdrant w') = contents (xw_qdrant w) ++ map_of (rev (map (chunk_entry e f) order)) \<and> mset order = mset cs \<and>
    vectors_fit e f (set cs) \<and> xw_base w' = xw_base w \<and> xw_opensearch w' = xw_opensearch w"
proof (cases "cs = []")
  case True
  then show ?thesis using assms(2) by (auto simp: embed_and_store_def vectors_fit_def)
next
  case False
  obtain bs where bs: "batch_loop (batch_size (xe_batch_size e)) cs 0 = Some bs" "concat bs = cs"
    using batch_loop_total [OF batch_size_positive, of "xe_batch_size e" cs 0] by auto
  have run: "run_batches e (arrange bs) w = (Inr (), w')" using assms(2) False bs(1) by (simp add: embed_and_store_def)
  have order: "mset (concat (arrange bs)) = mset cs" using mset_concat_schedule [of arrange bs, OF assms(3)] bs(2) by simp
  then have "distinct (concat (arrange bs))" using assms(4) mset_eq_imp_distinct_iff by blast
  moreover have "set (concat (arrange bs)) = set cs" using order by (metis set_mset_mset)
  ultimately show ?thesis using run_batches_done [OF assms(1) run] order by metis
qed

definition book_chunks :: "gostr \<Rightarrow> tables \<Rightarrow> chunk list" where
  "book_chunks bid t = sort_key ch_created_at (filter (\<lambda>c. ch_book_id c = bid) (tb_chunks t))"

lemma payload_ids [simp]:
  "meta_get (chunk_payload_fields u c) (lit ''chunk_id'') = ch_id c" "meta_get (chunk_payload_fields u c) (lit ''book_id'') = ch_book_id c"
  by (simp_all add: chunk_payload_fields_def meta_get_def lit_Cons Let_def)

lemma chunk_entry_book: "point_book (snd (chunk_entry e f c)) = ch_book_id c"
  by (simp add: chunk_entry_def point_entry_def point_book_def chunk_point_def)

lemma chunk_document_book: "source_book (snd (document_entry (chunk_document u c))) = trim_space (ch_book_id c)"
proof -
  have "meta_get (ld_payload (chunk_document u c)) (lit ''book_id'') = ch_book_id c"
    by (simp add: chunk_document_def Let_def meta_get_def chunk_payload_fields_def lit_Cons)
  then show ?thesis by (simp add: document_entry_def source_book_def document_source_def meta_get_def payload_fields_def)
qed

lemma chunk_entry_name:
  assumes "ch_book_id c \<noteq> []" "trim_space (ch_book_id c) = ch_book_id c" "trim_space (ch_id c) = ch_id c" "ch_id c \<noteq> []"
  shows "fst (chunk_entry e f c) = xl_uuid (xe_lib e) (ch_book_id c @ 58 # ch_id c)"
proof -
  have "lit '':'' = [58]" by (simp add: lit_Cons)
  then show ?thesis using assms by (simp add: chunk_entry_def point_entry_def qdrant_point_id_def point_name_def chunk_point_def Let_def)
qed

lemma tier_parts:
  assumes "split_chunks_by_tier cs = (sem, lexical)"
  shows "set sem \<union> set lexical = set cs" "distinct (map ch_id cs) \<Longrightarrow> distinct (map ch_id sem) \<and> distinct (map ch_id lexical)"
  using assms by (auto simp: split_chunks_by_tier_def Let_def distinct_map_filter)

lemma base_only: "mark_index e now cs b st msg w = (Inr x, w') \<Longrightarrow> xw_qdrant w' = xw_qdrant w \<and> xw_opensearch w' = xw_opensearch w"
  by (auto simp: mark_index_def on_parts_Inr)

lemma or_mark_Inr: "or_mark_failed e now cs b m w = (Inr x, w') \<longleftrightarrow> m w = (Inr (), w')"
  by (auto simp: or_mark_failed_def split: prod.splits sum.splits)

lemma empty_indexes_done:
  assumes "qdrant_server (xe_lib e) (xe_qdrant e) (xe_points e) contents" "opensearch_server (xe_opensearch e) (xe_words e) docs"
    and "empty_indexes e bid w = (Inr (), w')" "trim_space bid = bid" "bid \<noteq> []"
  shows "contents (xw_qdrant w') = without_book point_book bid (contents (xw_qdrant w)) \<and>
    docs (xw_opensearch w') = without_book source_book bid (docs (xw_opensearch w)) \<and> xw_base w' = xw_base w"
proof -
  obtain q1 o1 q2 o2 where "ensure_collection (xe_lib e) (xe_qdrant e) (xe_points e) (xw_qdrant w) = (Inr (), q1)"
    and "ensure_index (xe_lib e) (xe_opensearch e) (xe_words e) (xw_opensearch w) = (Inr (), o1)"
    and dq: "qdrant_delete_by_book (xe_lib e) (xe_qdrant e) (xe_points e) bid q1 = (Inr (), q2)"
    and d2: "opensearch_delete_by_book (xe_opensearch e) (xe_words e) bid o1 = (Inr (), o2)"
    and w': "w' = w\<lparr>xw_qdrant := q2, xw_opensearch := o2\<rparr>"
    using assms(3) by (auto simp: empty_indexes_def andthen_Inr on_parts_Inr)
  then have "contents q1 = contents (xw_qdrant w)" "docs o1 = docs (xw_opensearch w)"
    using qdrant_server.ensure_collection_frame [OF assms(1)] opensearch_server.ensure_index_frame [OF assms(2)] by blast+
  then show ?thesis
    using qdrant_server.drop_points_ok [OF assms(1) dq] opensearch_server.drop_documents_ok [OF assms(2) d2] assms(4,5) w' by simp
qed

lemma fill_indexes_done:
  assumes "qdrant_server (xe_lib e) (xe_qdrant e) (xe_points e) contents" "opensearch_server (xe_opensearch e) (xe_words e) docs"
    and "fill_indexes e now arrange sem lexical w = (Inr (), w')" "\<And>bs. mset (arrange bs) = mset bs" "distinct sem"
  shows "\<exists>f order. contents (xw_qdrant w') = contents (xw_qdrant w) ++ map_of (rev (map (chunk_entry e f) order)) \<and> mset order = mset sem \<and>
    vectors_fit e f (set sem) \<and>
    docs (xw_opensearch w') = docs (xw_opensearch w) ++ map_of (rev (map document_entry (map (chunk_document (xe_unicode e)) lexical)))"
proof -
  obtain w1 w2 w3 where w1: "embed_and_store e arrange sem w = (Inr (), w1)" and w2: "mark_index e now sem Qdrant SyncSynced [] w1 = (Inr (), w2)"
    and w3: "index_lexical e lexical w2 = (Inr (), w3)" and w4: "mark_index e now lexical OpenSearch SyncSynced [] w3 = (Inr (), w')"
    using assms(3) by (auto simp: fill_indexes_def andthen_Inr or_mark_Inr)
  have filled: "docs (xw_opensearch w3) = docs (xw_opensearch w2) ++ map_of (rev (map document_entry (map (chunk_document (xe_unicode e)) lexical))) \<and>
    xw_qdrant w3 = xw_qdrant w2"
  proof (cases "lexical = []")
    case False
    then obtain s where s: "index_documents (xe_opensearch e) (xe_words e) (map (chunk_document (xe_unicode e)) lexical) (xw_opensearch w2) = (Inr (), s)"
      "w3 = w2\<lparr>xw_opensearch := s\<rparr>" using w3 by (auto simp: index_lexical_def on_parts_Inr)
    then show ?thesis using opensearch_server.put_documents_ok [OF assms(2) s(1)] by simp
  qed (use w3 in \<open>simp add: index_lexical_def\<close>)
  obtain f order where f: "contents (xw_qdrant w1) = contents (xw_qdrant w) ++ map_of (rev (map (chunk_entry e f) order))" "mset order = mset sem"
    "vectors_fit e f (set sem)" "xw_opensearch w1 = xw_opensearch w"
    using embed_done [OF assms(1) w1 assms(4,5)] by blast
  show ?thesis
    using f filled base_only [OF w2] base_only [OF w4] by (intro exI [of _ f] exI [of _ order]) simp
qed

lemma index_steps_done:
  assumes "index_steps e now jti arrange bid gen w = (Inr (), w')"
  shows "\<exists>w1 w2 w3. tabs (iw_book (xw_base w1)) = tabs (iw_book (xw_base w)) \<and> xw_qdrant w1 = xw_qdrant w \<and> xw_opensearch w1 = xw_opensearch w \<and>
    empty_indexes e bid w1 = (Inr (), w2) \<and>
    fill_indexes e now arrange (fst (split_chunks_by_tier (book_chunks bid (tabs (iw_book (xw_base w))))))
      (snd (split_chunks_by_tier (book_chunks bid (tabs (iw_book (xw_base w)))))) w2 = (Inr (), w3) \<and>
    xw_qdrant w' = xw_qdrant w3 \<and> xw_opensearch w' = xw_opensearch w3"
proof -
  obtain cs w1 where r: "on_base (ingest_store (index_book_config e) (list_chunks_by_book bid)) w = (Inr cs, w1)"
    and k: "(if cs = [] then fail_with (IngErr (lit ''no chunks to index''))
      else let (semantic, lexical) = split_chunks_by_tier cs in
       if semantic = [] then fail_with (IngErr (lit ''no semantic chunks to index''))
       else andthen (empty_indexes e bid) (\<lambda>_. andthen (fill_indexes e now arrange semantic lexical) (\<lambda>_.
            report_status e now jti bid gen BookReady []))) w1 = (Inr (), w')"
    using assms unfolding index_steps_def andthen_Inr by blast
  obtain b where b: "ingest_store (index_book_config e) (list_chunks_by_book bid) (xw_base w) = (Inr cs, b)" "w1 = w\<lparr>xw_base := b\<rparr>"
    using r by (auto simp: on_parts_Inr)
  have "list_chunks_by_book bid (tabs (iw_book (xw_base w))) = (Inr cs, tabs (iw_book b))" by (rule ingest_store_result(3) [OF b(1) refl])
  then have cs: "cs = book_chunks bid (tabs (iw_book (xw_base w)))" "tabs (iw_book b) = tabs (iw_book (xw_base w))"
    by (auto simp: list_chunks_by_book_def book_chunks_def)
  obtain sem lexical where sp: "split_chunks_by_tier cs = (sem, lexical)" by (metis surj_pair)
  obtain w2 w3 where "empty_indexes e bid w1 = (Inr (), w2)" "fill_indexes e now arrange sem lexical w2 = (Inr (), w3)"
    "report_status e now jti bid gen BookReady [] w3 = (Inr (), w')"
    using k sp by (auto simp: andthen_Inr split: if_splits)
  then show ?thesis
    using b(2) cs sp by (intro exI [of _ w1] exI [of _ w2] exI [of _ w3]) (auto simp: report_status_def on_parts_Inr)
qed

section \<open>Properties\<close>

text \<open>
  C22: a book that was indexed is searchable as it is stored.  When a job ends well, either its generation was stale and
  both indexes are untouched, or the points of the book in Qdrant are exactly its semantic chunks, each with a vector of
  the configured dimension, and its documents in OpenSearch are exactly its lexical chunks: nothing of an earlier
  generation is left, in whatever order the batches ran.
\<close>

theorem indexed_exactly:
  assumes "qdrant_server (xe_lib e) (xe_qdrant e) (xe_points e) contents" "opensearch_server (xe_opensearch e) (xe_words e) docs"
    and "inj (xl_uuid (xe_lib e))" "\<And>bs. mset (arrange bs) = mset bs"
    and "plain_id bid" "trim_space bid = bid" "distinct (map ch_id (tb_chunks (tabs (iw_book (xw_base w)))))"
    and "list_all (\<lambda>c. ch_id c \<noteq> [] \<and> trim_space (ch_id c) = ch_id c) (tb_chunks (tabs (iw_book (xw_base w))))"
    and "index_process e now jti arrange bid gen w = (Inr (), w')"
  shows "(xw_qdrant w' = xw_qdrant w \<and> xw_opensearch w' = xw_opensearch w \<and>
      client_update_status (xe_base e) now jti bid gen BookProcessing [] (xw_base w) = (Inl IngStale, xw_base w')) \<or>
    (\<exists>f. let (semantic, lexical) = split_chunks_by_tier (book_chunks bid (tabs (iw_book (xw_base w)))) in
      vectors_fit e f (set semantic) \<and>
      book_entries point_book bid (contents (xw_qdrant w')) = chunk_entry e f ` set semantic \<and>
      book_entries source_book bid (docs (xw_opensearch w')) = (document_entry \<circ> chunk_document (xe_unicode e)) ` set lexical)"
proof -
  obtain q b where q: "client_update_status (xe_base e) now jti bid gen BookProcessing [] (xw_base w) = (q, b)" by (metis surj_pair)
  have rep: "report_status e now jti bid gen BookProcessing [] w = (q, w\<lparr>xw_base := b\<rparr>)"
    by (simp add: report_status_def on_base_def q)
  show ?thesis
  proof (cases q)
    case (Inl er)
    then have "er = IngStale" "w' = w\<lparr>xw_base := b\<rparr>" using assms(9) rep by (auto simp: index_process_def Let_def split: if_splits)
    then show ?thesis using q Inl by simp
  next
    case (Inr y)
    let ?w = "w\<lparr>xw_base := b\<rparr>" and ?cs = "book_chunks bid (tabs (iw_book (xw_base w)))"
    have steps: "index_steps e now jti arrange bid gen ?w = (Inr (), w')"
      using assms(9) rep Inr by (auto simp: index_process_def Let_def split: prod.splits sum.splits)
    have "same_chunks (xw_base w) b" by (rule same_chunks_status [OF assms(5) q])
    then have cs: "book_chunks bid (tabs (iw_book (xw_base ?w))) = ?cs" by (simp add: same_chunks_def book_chunks_def)
    obtain sem lexical where sp: "split_chunks_by_tier ?cs = (sem, lexical)" by (metis surj_pair)
    obtain w1 w2 w3 where w: "xw_qdrant w1 = xw_qdrant ?w" "xw_opensearch w1 = xw_opensearch ?w" "empty_indexes e bid w1 = (Inr (), w2)"
      "fill_indexes e now arrange sem lexical w2 = (Inr (), w3)" "xw_qdrant w' = xw_qdrant w3" "xw_opensearch w' = xw_opensearch w3"
      using index_steps_done [OF steps] unfolding cs sp fst_conv snd_conv by blast
    have bid: "bid \<noteq> []" using assms(5) by (simp add: plain_id_def)
    have in_book: "c \<in> set ?cs \<Longrightarrow> ch_book_id c = bid \<and> ch_id c \<noteq> [] \<and> trim_space (ch_id c) = ch_id c" for c
      using assms(8) by (auto simp: book_chunks_def list_all_iff)
    have "distinct (map ch_id ?cs)" using assms(7) by (auto simp: book_chunks_def distinct_map intro: inj_on_subset)
    then have d: "distinct (map ch_id sem)" "distinct (map ch_id lexical)" and sub: "set sem \<subseteq> set ?cs" "set lexical \<subseteq> set ?cs"
      using tier_parts [OF sp] by auto
    have gone: "contents (xw_qdrant w2) = without_book point_book bid (contents (xw_qdrant w))"
      "docs (xw_opensearch w2) = without_book source_book bid (docs (xw_opensearch w))"
      using empty_indexes_done [OF assms(1,2) w(3) assms(6) bid] w(1,2) by auto
    have "distinct sem" using d(1) by (simp add: distinct_map)
    then obtain f order where f: "contents (xw_qdrant w3) = contents (xw_qdrant w2) ++ map_of (rev (map (chunk_entry e f) order))"
      "mset order = mset sem" "vectors_fit e f (set sem)"
      "docs (xw_opensearch w3) = docs (xw_opensearch w2) ++ map_of (rev (map document_entry (map (chunk_document (xe_unicode e)) lexical)))"
      using fill_indexes_done [OF assms(1,2) w(4) assms(4)] by blast
    have order: "set order = set sem" using f(2) by (metis set_mset_mset)
    let ?pts = "map (\<lambda>c. chunk_point (xe_unicode e) c (f c)) order" and ?docs = "map (chunk_document (xe_unicode e)) lexical"
    have ids: "map (fst \<circ> chunk_entry e f) order = map (\<lambda>c. xl_uuid (xe_lib e) (bid @ 58 # ch_id c)) order"
      using chunk_entry_name [of _ e f] in_book sub(1) order bid assms(6) by (auto intro!: map_cong)
    have "distinct (map ch_id order)" using d(1) f(2) by (metis mset_eq_imp_distinct_iff mset_map)
    then have dist: "distinct (map (fst \<circ> chunk_entry e f) order)"
      unfolding ids using assms(3) by (auto simp: distinct_map inj_on_def)
    have "book_entries point_book bid (contents (xw_qdrant w3)) = point_entry (xe_lib e) ` set ?pts"
    proof (rule qdrant_server.points_reindexed [OF assms(1), where m = "contents (xw_qdrant w)"])
      have e1: "map (point_entry (xe_lib e)) ?pts = map (chunk_entry e f) order" by (simp add: chunk_entry_def)
      show "contents (xw_qdrant w3) = without_book point_book bid (contents (xw_qdrant w)) ++ map_of (rev (map (point_entry (xe_lib e)) ?pts))"
        unfolding e1 using f(1) gone(1) by simp
      have "map (fst \<circ> point_entry (xe_lib e)) ?pts = map (fst \<circ> chunk_entry e f) order" by (simp add: chunk_entry_def)
      then show "distinct (map (fst \<circ> point_entry (xe_lib e)) ?pts)" using dist by (rule ssubst)
      show "point_book (snd (point_entry (xe_lib e) x)) = bid" if "x \<in> set ?pts" for x
        using that chunk_entry_book [of e f] in_book sub(1) order by (auto simp: chunk_entry_def)
    qed
    moreover have "point_entry (xe_lib e) ` set ?pts = chunk_entry e f ` set sem" using order by (simp add: image_image chunk_entry_def)
    moreover have "book_entries source_book bid (docs (xw_opensearch w3)) = document_entry ` set ?docs"
    proof (rule opensearch_server.documents_reindexed [OF assms(2), where m = "docs (xw_opensearch w)"])
      show "docs (xw_opensearch w3) = without_book source_book bid (docs (xw_opensearch w)) ++ map_of (rev (map document_entry ?docs))"
        using f(4) gone(2) by simp
      show "distinct (map (fst \<circ> document_entry) ?docs)"
        using d(2) by (simp add: document_entry_def chunk_document_def comp_def Let_def)
      show "source_book (snd (document_entry x)) = bid" if "x \<in> set ?docs" for x
        using that chunk_document_book in_book sub(2) assms(6) by auto
    qed
    ultimately show ?thesis using f(3) sp w(5,6) by (auto simp: image_comp)
  qed
qed

text \<open>
  A job of an old generation does nothing.  When the book was replaced or deleted since the job was queued, the
  tables and both indexes are as before, whatever fails, and the job counts as done unless its report failed on the way.
\<close>

theorem index_stale_ignored:
  assumes "plain_id bid" "stale (tabs (iw_book (xw_base w))) bid gen"
  shows "let (r, w') = index_process e now jti arrange bid gen w in
    tabs (iw_book (xw_base w')) = tabs (iw_book (xw_base w)) \<and> xw_qdrant w' = xw_qdrant w \<and> xw_opensearch w' = xw_opensearch w \<and>
    (r = Inr () \<longleftrightarrow> fst (client_update_status (xe_base e) now jti bid gen BookProcessing [] (xw_base w)) = Inl IngStale)"
proof -
  obtain q b where q: "client_update_status (xe_base e) now jti bid gen BookProcessing [] (xw_base w) = (q, b)" by (metis surj_pair)
  have b: "tabs (iw_book b) = tabs (iw_book (xw_base w))" and "q \<noteq> Inr ()" using stale_client [OF assms q] by auto
  then obtain er where er: "q = Inl er" by (cases q) auto
  obtain q2 b2 where q2: "client_update_status (xe_base e) now jti bid gen BookFailed (ing_text er) b = (q2, b2)" by (metis surj_pair)
  have "tabs (iw_book b2) = tabs (iw_book b)" using stale_client [OF assms(1) _ q2] assms(2) b by simp
  then show ?thesis using q q2 er b by (simp add: index_process_def report_status_def on_base_def Let_def)
qed

section \<open>Examples\<close>

definition demo_index_base :: "(nat, nat) ingest_env" where
  "demo_index_base = demo_ingest\<lparr>ie_server := (ie_server demo_ingest)\<lparr>bv_internal := demo_service_verifier\<lparr>sv_audience := lit ''book''\<rparr>\<rparr>\<rparr>"

definition demo_semantic :: chunk where
  "demo_semantic = \<lparr>ch_id = [110], ch_book_id = [1], ch_content = [97], ch_metadata = Map.empty, ch_created_at = 0\<rparr>"

definition demo_lexical :: chunk where
  "demo_lexical = demo_semantic\<lparr>ch_id := [111], ch_metadata := [lit ''retrieval_tier'' \<mapsto> lit ''lexical'']\<rparr>"

definition demo_index_tables :: tables where
  "demo_index_tables = demo_tables\<lparr>tb_chunks := [demo_semantic, demo_lexical]\<rparr>"

text \<open>A model with one dimension.\<close>

fun demo_ollama :: "unit ollama" where
  "demo_ollama (OlEmbed model texts n) s =
     (Reply 200 [] (Some (JObj [(lit ''embeddings'', JArr (map (\<lambda>_. JArr [JNum 1]) texts))])), s)"
| "demo_ollama (OlLegacy model text) s = (Reply 404 [] None, s)"

definition demo_index :: "(nat, nat, index_point faulty_index, metadata faulty_index, unit) index_env" where
  "demo_index =
     \<lparr>xe_base = demo_index_base, xe_unicode = demo_unicode,
      xe_lib = \<lparr>xl_lower = id, xl_status_line = itoa, xl_uuid = id, xl_fmt0 = (\<lambda>_. [48])\<rparr>,
      xe_qdrant = faulty_qdrant, xe_points = \<lparr>qc_collection = [99], qc_dense_size = 1\<rparr>,
      xe_opensearch = faulty_opensearch, xe_words = \<lparr>oc_index = [99], oc_username = []\<rparr>,
      xe_ollama = demo_ollama, xe_model = [109], xe_dim = 1, xe_batch_size = 0\<rparr>"

definition demo_index_world :: "(index_point faulty_index, metadata faulty_index, unit) index_world" where
  "demo_index_world =
     \<lparr>xw_base = \<lparr>iw_book = demo_app demo_index_tables [], iw_calls = [], iw_index_jobs = [], iw_index_calls = []\<rparr>,
      xw_qdrant = (Map.empty, []), xw_opensearch = (Map.empty, []), xw_model = ()\<rparr>"

text \<open>A report of a status reaches the handler.\<close>

lemma demo_report:
  assumes "iw_calls w = []"
  shows "client_update_status demo_index_base 5 [106] [1] gen st msg w =
    (let (resp, b) = handle_internal_status demo_config 5 (Some (status_text st, msg, gen)) [1] (iw_book w) in
     (case read_answer (lw_of demo_config) itoa resp of Inl er \<Rightarrow> Inl er | Inr _ \<Rightarrow> Inr (), w\<lparr>iw_book := b\<rparr>))"
proof -
  define tok where "tok = plain_encode 7 (lit ''k'') (service_claims whole_seconds demo_signer 5 [106] (lit ''book''))"
  have signed: "service_sign whole_seconds plain_sign demo_signer 5 [106] (lit ''book'') = Inr tok"
    by (simp add: service_sign_def plain_sign_def tok_def demo_signer_def trim_space_fix lit_Cons is_space_def Let_def)
  let ?v = "demo_service_verifier\<lparr>sv_audience := lit ''book''\<rparr>"
  have ok: "\<exists>c. service_verify plain_parse ?v 5 tok = Inr c"
    using jwt_key_errors.service_accepts [OF plain_errors.jwt_key_errors_axioms signed, of ?v 5]
    by (auto simp: demo_service_verifier_def demo_signer_def trim_space_fix lit_Cons is_space_def second_def whole_seconds_def)
  have t: "trim_space tok = tok" "tok \<noteq> []" by (simp_all add: tok_def)
  have "trim_space (lit ''Bearer '' @ tok) = lit ''Bearer '' @ tok"
    by (rule trim_space_fix) (simp add: lit_Cons is_space_def tok_def plain_encode_def)
  then have bearer: "bearer_token (lit ''Bearer '' @ tok) = Some tok" using t by (simp add: bearer_token_def trim_prefix_def Let_def has_prefix_def lit_Cons)
  let ?r = "(plain_request ''PATCH'' (lit ''/internal/books/'' @ [1] @ lit ''/status''))\<lparr>rq_status := Some (status_text st, msg, gen)\<rparr>"
  have route: "book_routes plain_parse (ie_server demo_index_base) demo_config (ie_presign demo_index_base) 5 ([], [], [])
      (?r\<lparr>rq_authorization := lit ''Bearer '' @ tok\<rparr>) a = handle_internal_status demo_config 5 (Some (status_text st, msg, gen)) [1] a" for a
    using ok by (subst status_route [of "[1]"])
      (auto simp: plain_id_def plain_request_def with_internal_def bearer demo_index_base_def demo_ingest_def)
  show ?thesis
    using signed route assms
    by (simp add: client_update_status_def book_client_do_def demo_index_base_def demo_ingest_def next_outcome_def takes_effect_def
        Let_def case_prod_beta split: sum.splits)
qed

text \<open>A world in which every call succeeds, and steps that stay in such worlds.\<close>

declare One_nat_def [simp del]

definition demo_good :: "(index_point faulty_index, metadata faulty_index, unit) index_world \<Rightarrow> bool" where
  "demo_good w \<longleftrightarrow> iw_calls (xw_base w) = [] \<and> healthy (iw_book (xw_base w)) \<and>
     (\<exists>b. tb_books (tabs (iw_book (xw_base w))) = [b] \<and> bo_id b = [1] \<and> BookStore.live b \<and> bo_generation b = 1) \<and>
     tb_chunks (tabs (iw_book (xw_base w))) = [demo_semantic, demo_lexical] \<and> snd (xw_qdrant w) = [] \<and> snd (xw_opensearch w) = []"

definition demo_fine :: "(index_point faulty_index, metadata faulty_index, unit, 'a) index_op \<Rightarrow> 'a \<Rightarrow> bool" where
  "demo_fine f x \<longleftrightarrow> (\<forall>w. demo_good w \<longrightarrow> (\<exists>w'. f w = (Inr x, w') \<and> demo_good w'))"

lemma demo_fine_step: "demo_fine f x \<Longrightarrow> demo_good w \<Longrightarrow> \<exists>w'. f w = (Inr x, w') \<and> demo_good w'"
  by (simp add: demo_fine_def)

lemma demo_fine_then: "demo_fine f x \<Longrightarrow> demo_fine (g x) y \<Longrightarrow> demo_fine (andthen f g) y"
  unfolding demo_fine_def andthen_def by fastforce

lemma demo_fine_report: "demo_fine (report_status demo_index 5 [106] [1] 1 st msg) ()"
  unfolding demo_fine_def
proof (intro allI impI)
  fix w assume g: "demo_good w"
  obtain b where b: "tb_books (tabs (iw_book (xw_base w))) = [b]" "bo_id b = [1]" "BookStore.live b" "bo_generation b = 1"
    using g by (auto simp: demo_good_def)
  let ?a = "iw_book (xw_base w)"
  let ?t = "snd (set_status_if_generation 5 [1] 1 st msg (tabs ?a))"
  have call: "store_call (set_status_if_generation 5 [1] 1 st msg) ?a = (Inr True, ?a\<lparr>ba_db := (?t, [])\<rparr>)"
    by (rule store_call_healthy) (use g b in \<open>simp_all add: demo_good_def set_status_if_generation_def Let_def\<close>)
  have parse: "parse_book_status (lw_of demo_config) (status_text st) = Some st"
    by (cases st) (simp_all add: parse_book_status_def lw_of_def demo_config_def demo_unicode_def to_lower_def lower_rune_def trim_space_fix is_space_def Let_def lit_Cons status_text_def)
  have h: "handle_internal_status demo_config 5 (Some (status_text st, msg, 1)) [1] ?a =
      (write_json 200 (BodyStatus (lit ''updated'')), ?a\<lparr>ba_db := (?t, [])\<rparr>)"
    by (simp add: handle_internal_status_def parse update_status_def call)
  have "report_status demo_index 5 [106] [1] 1 st msg w = (Inr (), w\<lparr>xw_base := (xw_base w)\<lparr>iw_book := ?a\<lparr>ba_db := (?t, [])\<rparr>\<rparr>\<rparr>)"
    using g demo_report [of "xw_base w" 1 st msg]
    by (simp add: report_status_def on_base_def demo_index_def demo_good_def h read_answer_def write_json_def)
  moreover have "demo_good (w\<lparr>xw_base := (xw_base w)\<lparr>iw_book := ?a\<lparr>ba_db := (?t, [])\<rparr>\<rparr>\<rparr>)"
    using g b by (auto simp: demo_good_def set_status_if_generation_def Let_def BookStore.live_def update_where_def)
  ultimately show "\<exists>w'. report_status demo_index 5 [106] [1] 1 st msg w = (Inr (), w') \<and> demo_good w'" by blast
qed

lemma demo_fine_mark:
  assumes "backend = Qdrant \<or> backend = OpenSearch"
  shows "demo_fine (mark_index demo_index 5 cs backend st msg) ()"
  unfolding demo_fine_def
proof (intro allI impI)
  fix w assume g: "demo_good w"
  let ?f = "update_chunk_index_status 5 (indexed_ids cs) backend st cfg_embedding_model 1 msg"
  let ?a = "iw_book (xw_base w)"
  obtain r t where f0: "?f (tabs ?a) = (r, t)" by (cases "?f (tabs ?a)")
  have eff: "fst (?f T) = Inr ()" "tb_books (snd (?f T)) = tb_books T" "tb_chunks (snd (?f T)) = tb_chunks T" for T
    using assms by (auto simp: update_chunk_index_status_def Let_def)
  have f: "?f (tabs ?a) = (Inr (), t)" and t: "tb_books t = tb_books (tabs ?a)" "tb_chunks t = tb_chunks (tabs ?a)"
    using f0 eff [of "tabs ?a"] by simp_all
  have "store_call ?f ?a = (Inr (), ?a\<lparr>ba_db := (t, [])\<rparr>)"
    by (rule store_call_healthy) (use g f in \<open>simp_all add: demo_good_def\<close>)
  then have "mark_index demo_index 5 cs backend st msg w = (Inr (), w\<lparr>xw_base := (xw_base w)\<lparr>iw_book := ?a\<lparr>ba_db := (t, [])\<rparr>\<rparr>\<rparr>)"
    by (simp add: mark_index_def on_base_def ingest_store_def demo_index_def)
  moreover have "demo_good (w\<lparr>xw_base := (xw_base w)\<lparr>iw_book := ?a\<lparr>ba_db := (t, [])\<rparr>\<rparr>\<rparr>)"
    using g t by (auto simp: demo_good_def)
  ultimately show "\<exists>w'. mark_index demo_index 5 cs backend st msg w = (Inr (), w') \<and> demo_good w'" by blast
qed

lemma demo_fine_noted: "demo_fine m () \<Longrightarrow> demo_fine (or_mark_failed demo_index 5 cs backend m) ()"
  unfolding demo_fine_def or_mark_failed_def by fastforce

lemma demo_no_faults: "snd s = [] \<Longrightarrow> faulty_reply js m s = (Reply 200 [] js, (m, []))"
  by (cases s) (simp add: faulty_reply_def)

lemma demo_fine_points:
  assumes "\<And>s. snd s = [] \<Longrightarrow> \<exists>s'. f s = (Inr x, s') \<and> snd s' = []"
  shows "demo_fine (on_points e f) x"
  unfolding demo_fine_def
proof (intro allI impI)
  fix w assume g: "demo_good w"
  then obtain s' where "f (xw_qdrant w) = (Inr x, s')" "snd s' = []" using assms [of "xw_qdrant w"] by (auto simp: demo_good_def)
  then show "\<exists>w'. on_points e f w = (Inr x, w') \<and> demo_good w'" using g by (simp add: on_points_def index_fail_def demo_good_def)
qed

lemma demo_fine_words:
  assumes "\<And>s. snd s = [] \<Longrightarrow> \<exists>s'. f s = (Inr x, s') \<and> snd s' = []"
  shows "demo_fine (on_words e f) x"
  unfolding demo_fine_def
proof (intro allI impI)
  fix w assume g: "demo_good w"
  then obtain s' where "f (xw_opensearch w) = (Inr x, s')" "snd s' = []" using assms [of "xw_opensearch w"] by (auto simp: demo_good_def)
  then show "\<exists>w'. on_words e f w = (Inr x, w') \<and> demo_good w'" using g by (simp add: on_words_def index_fail_def demo_good_def)
qed

lemma demo_servers: "xe_qdrant demo_index = faulty_qdrant" "xe_opensearch demo_index = faulty_opensearch"
  by (simp_all add: demo_index_def)

lemma demo_fine_empty: "demo_fine (empty_indexes demo_index [1]) ()"
proof -
  have trim: "trim_space [1] = [1]" by (rule trim_word1) (simp add: is_space_def)
  show ?thesis
    unfolding empty_indexes_def demo_servers
    by (intro demo_fine_then demo_fine_points demo_fine_words)
      (simp_all add: ensure_collection_def ensure_index_def qdrant_delete_by_book_def opensearch_delete_by_book_def trim
        ignore_reply_def index_do_def demo_no_faults allow_missing_def)
qed

lemma demo_fine_lexical: "demo_fine (index_lexical demo_index [demo_lexical]) ()"
  unfolding index_lexical_def demo_servers
  by (simp, rule demo_fine_words) (simp add: index_documents_def index_do_def demo_no_faults)

lemma demo_fine_embed: "demo_fine (embed_and_store demo_index (\<lambda>bs. bs) [demo_semantic]) ()"
proof -
  have loop: "batch_loop (batch_size (xe_batch_size demo_index)) [demo_semantic] 0 = Some [[demo_semantic]]"
    by (subst batch_loop.simps) (simp add: batch_size_def demo_index_def batch_loop.simps)
  have model: "embed_batch demo_index [[97]] s = (Inr [[1]], s)" for s
    by (simp add: embed_batch_def demo_index_def ollama_embed_text_def ollama_embeddings_def ollama_do_def decode_embeddings_def
        json_member_def decode_vectors_def decode_vector_def decode_number_def trim_space_fix is_space_def Let_def lit_Cons)
  have "demo_fine (on_model (embed_batch demo_index [[97]])) [[1]]"
    by (simp add: demo_fine_def on_model_def model demo_good_def)
  moreover have "demo_fine (store_batch demo_index [demo_semantic] [[1]]) ()"
  proof -
    obtain ps where ps: "batch_points (xe_unicode demo_index) (xe_dim demo_index) (zip [demo_semantic] [[1]]) = Inr ps"
      by (simp add: demo_index_def)
    show ?thesis
      unfolding store_batch_def ps demo_servers
      by (simp, rule demo_fine_points) (auto simp: upsert_points_def index_do_def ignore_reply_def demo_no_faults prod_eq_iff)
  qed
  ultimately have "demo_fine (process_batch demo_index [demo_semantic]) ()"
    by (simp add: process_batch_def demo_semantic_def demo_fine_then)
  then show ?thesis
    unfolding demo_fine_def embed_and_store_def loop by fastforce
qed

lemma demo_fine_run: "demo_fine (index_process demo_index 5 [106] (\<lambda>bs. bs) [1] 1) ()"
proof -
  have split: "split_chunks_by_tier [demo_semantic, demo_lexical] = ([demo_semantic], [demo_lexical])"
    by (simp add: split_chunks_by_tier_def demo_lexical_def demo_semantic_def meta_get_def trim_space_fix is_space_def lit_Cons)
  have "demo_fine (on_base (ingest_store (index_book_config demo_index) (list_chunks_by_book [1]))) [demo_semantic, demo_lexical]"
    unfolding demo_fine_def
  proof (intro allI impI)
    fix w assume g: "demo_good w"
    let ?a = "iw_book (xw_base w)"
    have "store_call (list_chunks_by_book [1]) ?a = (Inr [demo_semantic, demo_lexical], ?a\<lparr>ba_db := (tabs ?a, [])\<rparr>)"
      by (rule store_call_healthy)
        (use g in \<open>simp_all add: demo_good_def list_chunks_by_book_def demo_semantic_def demo_lexical_def\<close>)
    then have "on_base (ingest_store (index_book_config demo_index) (list_chunks_by_book [1])) w =
        (Inr [demo_semantic, demo_lexical], w\<lparr>xw_base := (xw_base w)\<lparr>iw_book := ?a\<lparr>ba_db := (tabs ?a, [])\<rparr>\<rparr>\<rparr>)"
      by (simp add: on_base_def ingest_store_def)
    moreover have "demo_good (w\<lparr>xw_base := (xw_base w)\<lparr>iw_book := ?a\<lparr>ba_db := (tabs ?a, [])\<rparr>\<rparr>\<rparr>)"
      using g by (auto simp: demo_good_def)
    ultimately show "\<exists>w'. on_base (ingest_store (index_book_config demo_index) (list_chunks_by_book [1])) w =
        (Inr [demo_semantic, demo_lexical], w') \<and> demo_good w'" by blast
  qed
  moreover have "demo_fine (fill_indexes demo_index 5 (\<lambda>bs. bs) [demo_semantic] [demo_lexical]) ()"
    unfolding fill_indexes_def
    by (rule demo_fine_then demo_fine_noted demo_fine_embed demo_fine_lexical demo_fine_mark disjI1 disjI2 refl)+
  ultimately have "demo_fine (index_steps demo_index 5 [106] (\<lambda>bs. bs) [1] 1) ()"
    unfolding index_steps_def
    by (intro demo_fine_then) (auto simp: split intro!: demo_fine_then demo_fine_empty demo_fine_report)
  then show ?thesis
    using demo_fine_report [of BookProcessing "[]"] unfolding demo_fine_def index_process_def by (fastforce simp: Let_def)
qed

theorem indexed_exactly_witness:
  "\<exists>w'. index_process demo_index 5 [106] (\<lambda>bs. bs) [1] 1 demo_index_world = (Inr (), w') \<and>
     book_entries source_book [1] (fst (xw_opensearch w')) = {document_entry (chunk_document demo_unicode demo_lexical)}"
proof -
  have g: "demo_good demo_index_world"
    by (simp add: demo_good_def demo_index_world_def demo_app_def healthy_def tabs_def demo_index_tables_def demo_tables_def empty_tables_def
        demo_book_def BookStore.live_def)
  obtain w' where w': "index_process demo_index 5 [106] (\<lambda>bs. bs) [1] 1 demo_index_world = (Inr (), w')"
    using demo_fine_step [OF demo_fine_run g] by blast
  have tabs: "tabs (iw_book (xw_base demo_index_world)) = demo_index_tables" by (simp add: demo_index_world_def demo_app_def tabs_def)
  obtain q b where q: "client_update_status (xe_base demo_index) 5 [106] [1] 1 BookProcessing [] (xw_base demo_index_world) = (q, b)"
    by (metis surj_pair)
  then have "q = Inr ()"
    using demo_fine_step [OF demo_fine_report g, of BookProcessing "[]"] unfolding report_status_def on_base_def q by simp
  then have started: "client_update_status (xe_base demo_index) 5 [106] [1] 1 BookProcessing [] (xw_base demo_index_world) \<noteq> (Inl IngStale, x)" for x
    using q by simp
  have cs: "split_chunks_by_tier (book_chunks [1] demo_index_tables) = ([demo_semantic], [demo_lexical])"
    by (simp add: split_chunks_by_tier_def book_chunks_def demo_index_tables_def demo_lexical_def demo_semantic_def meta_get_def
        trim_space_fix is_space_def lit_Cons)
  have "xe_unicode demo_index = demo_unicode" by (simp add: demo_index_def)
  moreover have "inj (xl_uuid (xe_lib demo_index))" "plain_id [1]" "trim_space [1] = [1]"
    by (simp_all add: demo_index_def plain_id_def trim_space_fix is_space_def)
  moreover have "distinct (map ch_id (tb_chunks demo_index_tables))"
    "list_all (\<lambda>c. ch_id c \<noteq> [] \<and> trim_space (ch_id c) = ch_id c) (tb_chunks demo_index_tables)"
    by (simp_all add: demo_index_tables_def demo_lexical_def demo_semantic_def trim_space_fix is_space_def)
  ultimately show ?thesis
    using indexed_exactly [where e = demo_index and w = demo_index_world and arrange = "\<lambda>bs. bs" and now = 5 and jti = "[106]" and bid = "[1]"
        and gen = 1 and contents = fst and docs = fst and w' = w'] w' started
    by (auto simp: tabs cs demo_servers fq.qdrant_server_axioms fo.opensearch_server_axioms)
qed

theorem index_stale_ignored_witness:
  "let (r, w') = index_process demo_index 5 [106] (\<lambda>bs. bs) [1] 7 demo_index_world in
     tabs (iw_book (xw_base w')) = demo_index_tables \<and> xw_qdrant w' = (Map.empty, []) \<and> xw_opensearch w' = (Map.empty, [])"
proof -
  have tabs: "tabs (iw_book (xw_base demo_index_world)) = demo_index_tables" by (simp add: demo_index_world_def demo_app_def tabs_def)
  have "stale demo_index_tables [1] 7"
    by (simp add: stale_def demo_index_tables_def demo_tables_def empty_tables_def demo_book_def)
  moreover have "plain_id [1]" by (simp add: plain_id_def)
  ultimately show ?thesis
    using index_stale_ignored [of "[1]" demo_index_world 7 demo_index 5 "[106]" "\<lambda>bs. bs"]
    by (simp add: tabs case_prod_beta Let_def) (simp add: demo_index_world_def)
qed

end
