(* ===== verification/IndexStatus.thy ===== *)
theory IndexStatus
  imports IndexerProps BookAppFacts
begin

text \<open>
  What the book service reports of an index job: the job marks each chunk in one of the two indexes only, so the summary
  of \<open>GetBookIndexStatusSummary\<close> never counts a chunk as synced.
\<close>

section \<open>What a job keeps\<close>

text \<open>A condition on the tables that the steps of a job keep, whatever fails.\<close>

definition job_keeps :: "(tables \<Rightarrow> bool) \<Rightarrow> ('q, 'o, 'm, 'a) index_op \<Rightarrow> bool" where
  "job_keeps P m \<longleftrightarrow> (\<forall>w. P (tabs (iw_book (xw_base w))) \<longrightarrow> P (tabs (iw_book (xw_base (snd (m w))))))"

lemma keeps_then: "job_keeps P m \<Longrightarrow> (\<And>x. job_keeps P (k x)) \<Longrightarrow> job_keeps P (andthen m k)"
  by (simp add: job_keeps_def andthen_def case_prod_beta split: sum.split)

lemma keeps_elsewhere:
  "job_keeps P (done_with x)" "job_keeps P (fail_with er)" "job_keeps P (on_points e f)" "job_keeps P (on_words e g)" "job_keeps P (on_model m)"
  by (simp_all add: job_keeps_def done_with_def fail_with_def on_points_def on_words_def on_model_def case_prod_beta)

lemma keeps_store:
  assumes "\<And>x t t'. P t \<Longrightarrow> f t = (Inr x, t') \<Longrightarrow> P t'"
  shows "job_keeps P (on_base (ingest_store c f))"
  unfolding job_keeps_def
proof (intro allI impI)
  fix w :: "('q, 'o, 'm) index_world" assume "P (tabs (iw_book (xw_base w)))"
  then have "P (tabs (snd (store_call f (iw_book (xw_base w)))))"
    by (intro store_call_tabs [where P = P]) (use assms in blast)+
  then show "P (tabs (iw_book (xw_base (snd (on_base (ingest_store c f) w)))))"
    by (simp add: on_base_def ingest_store_def case_prod_beta)
qed

lemma keeps_noted:
  assumes "job_keeps P m" "\<And>msg. job_keeps P (mark_index e now cs b SyncFailed msg)"
  shows "job_keeps P (or_mark_failed e now cs b m)"
  using assms by (simp add: job_keeps_def or_mark_failed_def case_prod_beta split: sum.split)

lemma keeps_batches: "job_keeps P (run_batches e bs)"
proof -
  have one: "job_keeps P (process_batch e b)" for b
    by (auto simp: process_batch_def store_batch_def keeps_elsewhere intro!: keeps_then split: sum.split)
  show ?thesis
    unfolding job_keeps_def
  proof (rule allI, induction bs)
    case (Cons b bs w)
    have "P (tabs (iw_book (xw_base w))) \<longrightarrow> P (tabs (iw_book (xw_base (snd (process_batch e b w)))))"
      using one [of b] by (simp add: job_keeps_def)
    then show ?case using Cons.IH [of "snd (process_batch e b w)"] by (simp add: Let_def case_prod_beta)
  qed simp
qed

text \<open>A report of a status writes to the books only.\<close>

lemma status_keeps:
  assumes "plain_id bid" "\<And>bs. P (t0\<lparr>tb_books := bs\<rparr>)" "tabs (iw_book w) = t0"
  shows "P (tabs (iw_book (snd (client_update_status e now jti bid gen st msg w))))"
proof -
  let ?Q = "\<lambda>t. \<exists>bs. t = t0\<lparr>tb_books := bs\<rparr>"
  let ?r = "(plain_request ''PATCH'' (lit ''/internal/books/'' @ bid @ lit ''/status''))\<lparr>rq_status := Some (status_text st, msg, gen)\<rparr>"
  let ?h = "handle_internal_status (ie_book_config e) now (Some (status_text st, msg, gen)) bid"
  have start: "?Q (tabs (iw_book w))" using assms(3) by (intro exI [of _ "tb_books t0"]) simp
  have "?Q (tabs (snd (update_status now bid s m g (iw_book w))))" for s m g
  proof -
    have "?Q (tabs (snd (store_call (set_status_if_generation now bid g s m) (iw_book w))))"
      by (rule store_call_tabs [where P = ?Q]) (use assms(3) start in \<open>auto simp: set_status_if_generation_def Let_def\<close>)
    moreover have "?Q (tabs (snd (store_call (set_status now bid s m) (iw_book w))))"
      by (rule store_call_tabs [where P = ?Q]) (use assms(3) start in \<open>auto simp: set_status_def\<close>)
    ultimately show ?thesis by (simp add: update_status_def case_prod_beta split: sum.splits)
  qed
  then have handled: "?Q (tabs (snd (?h (iw_book w))))"
    using start by (simp add: handle_internal_status_def case_prod_beta split: option.split sum.split)
  obtain q w1 where q: "book_client_do e now jti ?r w = (q, w1)" by (metis surj_pair)
  have "?Q (tabs (iw_book w1))"
  proof (cases "iw_book w1 = iw_book w")
    case False
    then obtain auth where "iw_book w1 = snd (book_routes (ie_parse e) (ie_server e) (ie_book_config e) (ie_presign e) now
        ([], [], []) (?r\<lparr>rq_authorization := auth\<rparr>) (iw_book w))" using client_do_book [OF q] by blast
    moreover have "book_routes (ie_parse e) (ie_server e) (ie_book_config e) (ie_presign e) now ([], [], [])
        (?r\<lparr>rq_authorization := auth\<rparr>) (iw_book w) =
      with_internal (ie_parse e) (ie_server e) (ie_book_config e) now (?r\<lparr>rq_authorization := auth\<rparr>) ?h (iw_book w)"
      by (subst status_route [OF assms(1)]) (simp_all add: plain_request_def)
    ultimately show ?thesis
      using with_internal_cases [of "ie_parse e" "ie_server e" "ie_book_config e" now "?r\<lparr>rq_authorization := auth\<rparr>" ?h "iw_book w"] handled start
      by auto
  qed (use start in simp)
  then show ?thesis using assms(2) q by (auto simp: client_update_status_def Let_def split: sum.split)
qed

section \<open>Chunks are marked in one index only\<close>

text \<open>No lexical chunk is synced in Qdrant, and no other chunk in OpenSearch.\<close>

definition half_synced :: "gostr \<Rightarrow> gostr set \<Rightarrow> tables \<Rightarrow> bool" where
  "half_synced bid lexical t \<longleftrightarrow> (\<forall>i\<in>set (tb_index_statuses t). ci_book_id i = bid \<longrightarrow>
     (if ci_chunk_id i \<in> lexical then ci_qdrant i \<noteq> SyncSynced else ci_open_search i \<noteq> SyncSynced))"

lemma half_synced_books: "half_synced bid lexical (t\<lparr>tb_books := bs\<rparr>) = half_synced bid lexical t"
  by (simp add: half_synced_def)

lemma keeps_mark:
  assumes "\<And>x. x \<in> set (uniq_loop {} (indexed_ids cs)) \<Longrightarrow> x \<in> lexical \<longleftrightarrow> b = OpenSearch" "b = Qdrant \<or> b = OpenSearch"
  shows "job_keeps (half_synced bid lexical) (mark_index e now cs b st msg)"
  unfolding mark_index_def
proof (rule keeps_store)
  fix x t t' assume h: "half_synced bid lexical t"
    and u: "update_chunk_index_status now (indexed_ids cs) b st cfg_embedding_model (xe_dim e) msg t = (Inr x, t')"
  show "half_synced bid lexical t'"
  proof (cases "uniq_loop {} (indexed_ids cs) = []")
    case True
    then show ?thesis using h u by (auto simp: update_chunk_index_status_def Let_def)
  next
    case False
    from assms(2) show ?thesis
    proof
      assume b: "b = Qdrant"
      then show ?thesis
        using h u False assms(1) by (auto simp: update_chunk_index_status_def Let_def half_synced_def update_where_def sync_error_def)
    next
      assume b: "b = OpenSearch"
      then show ?thesis
        using h u False assms(1) by (auto simp: update_chunk_index_status_def Let_def half_synced_def update_where_def sync_error_def)
    qed
  qed
qed

definition lexical_ids :: "gostr \<Rightarrow> tables \<Rightarrow> gostr set" where
  "lexical_ids bid t = set (map ch_id (snd (split_chunks_by_tier (book_chunks bid t))))"

definition clean_chunk_ids :: "tables \<Rightarrow> bool" where
  "clean_chunk_ids t \<longleftrightarrow> distinct (map ch_id (tb_chunks t)) \<and> list_all (\<lambda>c. trim_space (ch_id c) = ch_id c) (tb_chunks t)"

lemma tier_ids:
  assumes "clean_chunk_ids t" "split_chunks_by_tier (book_chunks bid t) = (sem, lexical)"
  shows "x \<in> set (uniq_loop {} (indexed_ids sem)) \<Longrightarrow> x \<notin> lexical_ids bid t"
    and "x \<in> set (uniq_loop {} (indexed_ids lexical)) \<Longrightarrow> x \<in> lexical_ids bid t"
proof -
  have sub: "set sem \<union> set lexical \<subseteq> set (tb_chunks t)" "set sem \<inter> set lexical = {}"
    using tier_parts(1) [OF assms(2)] assms(2) by (auto simp: book_chunks_def split_chunks_by_tier_def Let_def)
  have ids: "set (uniq_loop {} (indexed_ids cs)) \<subseteq> ch_id ` set cs" if "set cs \<subseteq> set (tb_chunks t)" for cs
    using assms(1) that by (auto simp: uniq_loop_set indexed_ids_def clean_chunk_ids_def list_all_iff subset_eq)
  have inj: "inj_on ch_id (set (tb_chunks t))" using assms(1) by (simp add: clean_chunk_ids_def distinct_map)
  show "x \<in> set (uniq_loop {} (indexed_ids sem)) \<Longrightarrow> x \<notin> lexical_ids bid t"
    using ids [of sem] sub inj by (fastforce simp: lexical_ids_def assms(2) dest: inj_onD)
  show "x \<in> set (uniq_loop {} (indexed_ids lexical)) \<Longrightarrow> x \<in> lexical_ids bid t"
    using ids [of lexical] sub by (auto simp: lexical_ids_def assms(2))
qed

lemma keeps_report: "plain_id bid \<Longrightarrow> job_keeps (half_synced b lexical) (report_status e now jti bid gen st msg)"
  unfolding job_keeps_def report_status_def on_base_def
  by (auto simp: half_synced_books case_prod_beta intro!: status_keeps [where P = "half_synced b lexical", OF _ _ refl])

lemma steps_half_synced:
  fixes w :: "('q, 'o, 'm) index_world"
  assumes "plain_id bid" "clean_chunk_ids t" "book_chunks bid (tabs (iw_book (xw_base w))) = book_chunks bid t"
    and "half_synced bid (lexical_ids bid t) (tabs (iw_book (xw_base w)))"
  shows "half_synced bid (lexical_ids bid t) (tabs (iw_book (xw_base (snd (index_steps e now jti arrange bid gen w)))))"
proof -
  let ?P = "half_synced bid (lexical_ids bid t)" and ?m = "on_base (ingest_store (index_book_config e) (list_chunks_by_book bid))"
  obtain sem lexical where sp: "split_chunks_by_tier (book_chunks bid t) = (sem, lexical)" by (metis surj_pair)
  have marks: "job_keeps ?P (mark_index e now sem Qdrant st msg)" "job_keeps ?P (mark_index e now lexical OpenSearch st msg)" for st msg
    by (rule keeps_mark; use tier_ids [OF assms(2) sp] in auto)+
  have fill: "job_keeps ?P (fill_indexes e now arrange sem lexical)"
    unfolding fill_indexes_def embed_and_store_def index_lexical_def
    by (intro keeps_then keeps_noted marks) (auto simp: keeps_elsewhere keeps_batches)
  have empty: "job_keeps ?P (empty_indexes e bid)"
    unfolding empty_indexes_def by (intro keeps_then) (simp_all add: keeps_elsewhere)
  obtain r w1 where r: "?m w = (r, w1)" by (metis surj_pair)
  have "job_keeps ?P ?m" by (rule keeps_store) (auto simp: list_chunks_by_book_def)
  then have w1: "?P (tabs (iw_book (xw_base w1)))" using assms(4) r by (auto simp: job_keeps_def)
  have cs: "cs = book_chunks bid t" if rc: "r = Inr cs" for cs
  proof -
    obtain b where b: "ingest_store (index_book_config e) (list_chunks_by_book bid) (xw_base w) = (Inr cs, b)"
      using r unfolding rc on_parts_Inr by blast
    have "list_chunks_by_book bid (tabs (iw_book (xw_base w))) = (Inr cs, tabs (iw_book b))" by (rule ingest_store_result(3) [OF b refl])
    then show ?thesis using assms(3) by (auto simp: list_chunks_by_book_def book_chunks_def)
  qed
  have rest: "job_keeps ?P (if book_chunks bid t = [] then fail_with (IngErr (lit ''no chunks to index''))
      else let (semantic, lexical) = split_chunks_by_tier (book_chunks bid t) in
       if semantic = [] then fail_with (IngErr (lit ''no semantic chunks to index''))
       else andthen (empty_indexes e bid) (\<lambda>_. andthen (fill_indexes e now arrange semantic lexical) (\<lambda>_.
            report_status e now jti bid gen BookReady [])))"
    using assms(1) by (auto simp: sp keeps_elsewhere intro!: keeps_then fill empty keeps_report)
  show ?thesis
  proof (cases r)
    case (Inl er)
    then show ?thesis using r w1 by (simp add: index_steps_def andthen_def)
  next
    case (Inr cs')
    show ?thesis
      using rest w1 unfolding index_steps_def andthen_def [of ?m] r Inr cs [OF Inr] job_keeps_def by simp
  qed
qed

lemma process_half_synced:
  assumes "plain_id bid" "clean_chunk_ids (tabs (iw_book (xw_base w)))"
    and "half_synced bid (lexical_ids bid (tabs (iw_book (xw_base w)))) (tabs (iw_book (xw_base w)))"
  shows "half_synced bid (lexical_ids bid (tabs (iw_book (xw_base w)))) (tabs (iw_book (xw_base (snd (index_process e now jti arrange bid gen w)))))"
proof -
  let ?t = "tabs (iw_book (xw_base w))" let ?P = "half_synced bid (lexical_ids bid ?t)"
  obtain q b where q: "client_update_status (xe_base e) now jti bid gen BookProcessing [] (xw_base w) = (q, b)" by (metis surj_pair)
  have rep: "report_status e now jti bid gen BookProcessing [] w = (q, w\<lparr>xw_base := b\<rparr>)"
    by (simp add: report_status_def on_base_def q)
  have w1: "?P (tabs (iw_book (xw_base (w\<lparr>xw_base := b\<rparr>))))"
    using keeps_report [OF assms(1), of bid "lexical_ids bid ?t" e now jti gen BookProcessing "[]"] assms(3) rep
    by (auto simp: job_keeps_def)
  have failed: "?P (tabs (iw_book (xw_base (snd (report_status e now jti bid gen BookFailed msg v)))))"
    if "?P (tabs (iw_book (xw_base v)))" for msg v
    using keeps_report [OF assms(1), of bid "lexical_ids bid ?t" e now jti gen BookFailed msg] that by (simp add: job_keeps_def)
  show ?thesis
  proof (cases q)
    case (Inl er)
    then show ?thesis using rep w1 failed by (simp add: index_process_def Let_def)
  next
    case (Inr x)
    have "same_chunks (xw_base w) b" by (rule same_chunks_status [OF assms(1) q])
    then have "book_chunks bid (tabs (iw_book (xw_base (w\<lparr>xw_base := b\<rparr>)))) = book_chunks bid ?t"
      by (simp add: same_chunks_def book_chunks_def)
    from steps_half_synced [OF assms(1,2) this w1]
    have "?P (tabs (iw_book (xw_base (snd (index_steps e now jti arrange bid gen (w\<lparr>xw_base := b\<rparr>))))))" .
    then show ?thesis using rep Inr failed by (simp add: index_process_def Let_def case_prod_beta split: sum.split)
  qed
qed

section \<open>The summary\<close>

lemma half_synced_summary:
  "(\<And>i. i \<in> set items \<Longrightarrow> ci_qdrant i \<noteq> SyncSynced \<or> ci_open_search i \<noteq> SyncSynced) \<Longrightarrow>
   ix_synced (fold count_status items sm) = ix_synced sm"
  by (induction items arbitrary: sm) (auto simp: count_status_def Let_def)

text \<open>
  C23: a book that was indexed is never reported as synced.  From the states that \<open>ReplaceChunks\<close> leaves, in which every
  chunk is pending in both indexes, the summary after an index job counts no chunk as synced, even when the job ended
  well and both indexes are complete: a chunk is only ever marked in the index of its tier.
\<close>

theorem summary_never_synced:
  assumes "plain_id bid" "clean_chunk_ids (tabs (iw_book (xw_base w)))"
    and "list_all (\<lambda>i. ci_open_search i = SyncPending \<and> ci_qdrant i = SyncPending)
      (filter (\<lambda>i. ci_book_id i = bid) (tb_index_statuses (tabs (iw_book (xw_base w)))))"
    and "index_process e now jti arrange bid gen w = (r, w')"
    and "get_book_index_status_summary c bid (iw_book (xw_base w')) = (Inr sm, a)"
  shows "ix_synced sm = 0"
proof -
  let ?t = "tabs (iw_book (xw_base w))" and ?a = "iw_book (xw_base w')"
  have "half_synced bid (lexical_ids bid ?t) ?t"
    using assms(3) by (auto simp: half_synced_def list_all_iff)
  then have h: "half_synced bid (lexical_ids bid ?t) (tabs ?a)"
    using process_half_synced [OF assms(1,2), of e now jti arrange gen] assms(4) by simp
  obtain b a1 items a2 where b: "need_book c bid ?a = (Inr b, a1)"
    and items: "store_call (list_chunk_index_statuses_by_book (bo_id b)) a1 = (Inr items, a2)"
    and sm: "sm = fold count_status items \<lparr>ix_book_id = bo_id b, ix_total = 0, ix_pending = 0, ix_synced = 0, ix_failed = 0, ix_items = items\<rparr>"
    using assms(5) unfolding get_book_index_status_summary_def by (auto split: prod.splits sum.splits)
  have t: "tabs a1 = tabs ?a" using need_book_tabs [of c bid ?a] b by simp
  have id: "bo_id b = bid"
  proof -
    obtain a1' where "store_call (get_book (lw_of c) bid) ?a = (Inr (Some b), a1')"
      using b by (auto simp: need_book_def split: prod.splits sum.splits option.splits)
    from store_call_ok [OF this] show ?thesis
      by (auto simp: get_book_def find_Some_iff book_from_model_def)
  qed
  have "items = sort_key ci_updated_at (filter (\<lambda>i. ci_book_id i = bid) (tb_index_statuses (tabs ?a)))"
    using store_call_ok [OF items] unfolding list_chunk_index_statuses_by_book_def t id by (metis Pair_inject sum.inject(2))
  then have "ci_qdrant i \<noteq> SyncSynced \<or> ci_open_search i \<noteq> SyncSynced" if "i \<in> set items" for i
    using h that by (auto simp: half_synced_def split: if_splits)
  then show ?thesis unfolding sm by (subst half_synced_summary) simp_all
qed


section \<open>Example\<close>

definition demo_pending_world :: "(index_point faulty_index, metadata faulty_index, unit) index_world" where
  "demo_pending_world = demo_index_world\<lparr>xw_base := (xw_base demo_index_world)\<lparr>iw_book :=
     demo_app (demo_index_tables\<lparr>tb_index_statuses := [pending_status 0 [1] demo_semantic, pending_status 0 [1] demo_lexical]\<rparr>) []\<rparr>\<rparr>"

theorem summary_never_synced_witness:
  "\<exists>w' sm a. index_process demo_index 5 [106] (\<lambda>bs. bs) [1] 1 demo_pending_world = (Inr (), w') \<and>
     get_book_index_status_summary demo_config [1] (iw_book (xw_base w')) = (Inr sm, a) \<and> ix_synced sm = 0"
proof -
  have tabs: "tabs (iw_book (xw_base demo_pending_world)) =
      demo_index_tables\<lparr>tb_index_statuses := [pending_status 0 [1] demo_semantic, pending_status 0 [1] demo_lexical]\<rparr>"
    by (simp add: demo_pending_world_def demo_app_def tabs_def)
  have g: "demo_good demo_pending_world"
    unfolding demo_good_def tabs
    by (simp add: demo_pending_world_def demo_index_world_def demo_app_def healthy_def demo_index_tables_def demo_tables_def empty_tables_def
        demo_book_def BookStore.live_def)
  obtain w' where w': "index_process demo_index 5 [106] (\<lambda>bs. bs) [1] 1 demo_pending_world = (Inr (), w')" and g': "demo_good w'"
    using demo_fine_step [OF demo_fine_run g] by blast
  obtain b where b: "tb_books (tabs (iw_book (xw_base w'))) = [b]" "bo_id b = [1]" "BookStore.live b"
    using g' by (auto simp: demo_good_def)
  let ?a = "iw_book (xw_base w')"
  have h: "healthy ?a" using g' by (simp add: demo_good_def)
  have "store_call (get_book (lw_of demo_config) [1]) ?a =
      (Inr (Some (book_from_model (lw_of demo_config) b)), ?a\<lparr>ba_db := (tabs ?a, [])\<rparr>)"
    by (rule store_call_healthy [OF h]) (simp add: get_book_def b)
  then have "need_book demo_config [1] ?a = (Inr (book_from_model (lw_of demo_config) b), ?a\<lparr>ba_db := (tabs ?a, [])\<rparr>)"
    by (simp add: need_book_def)
  moreover have "store_call (list_chunk_index_statuses_by_book i) (?a\<lparr>ba_db := (tabs ?a, [])\<rparr>) =
      (Inr (sort_key ci_updated_at (filter (\<lambda>x. ci_book_id x = i) (tb_index_statuses (tabs ?a)))),
       ?a\<lparr>ba_db := (tabs ?a, [])\<rparr>\<lparr>ba_db := (tabs ?a, [])\<rparr>)" for i
    by (rule store_call_healthy) (simp_all add: list_chunk_index_statuses_by_book_def)
  ultimately obtain sm a where sm: "get_book_index_status_summary demo_config [1] ?a = (Inr sm, a)"
    by (simp add: get_book_index_status_summary_def)
  have "plain_id [1]" by (simp add: plain_id_def)
  moreover have "clean_chunk_ids (tabs (iw_book (xw_base demo_pending_world)))"
    by (simp add: tabs clean_chunk_ids_def demo_index_tables_def demo_lexical_def demo_semantic_def trim_space_fix is_space_def)
  ultimately have "ix_synced sm = 0"
    using summary_never_synced [OF _ _ _ w' sm] by (simp add: tabs pending_status_def)
  then show ?thesis using w' sm by blast
qed

end
