(* ===== verification/ChatText.thy ===== *)
theory ChatText
  imports Retrieval BookStore
begin

text \<open>
  What the chat service decides from texts alone: the route of a question (\<open>router.go\<close>), titles, histories and the place of
  a chunk (\<open>app.go\<close>), and the overview of a document (\<open>overview.go\<close>,
    all in \<open>backend/services/chat/internal/app\<close>).  The
  Chinese words of the code are lists of code points.  \<open>strings.EqualFold\<close> with an ASCII word is equality of the lower
  cases.
\<close>

section \<open>Texts\<close>

text \<open>The replacer of \<open>normalizeRouterText\<close>: line breaks and tabs, and the wide punctuation marks.\<close>

definition router_rune :: "rune \<Rightarrow> rune" where
  "router_rune r =
     (if r = 10 \<or> r = 9 then 32 else if r = 65292 then 44 else if r = 12290 then 46 else if r = 65311 then 63
      else if r = 65281 then 33 else if r = 65306 then 58 else if r = 65288 then 40 else if r = 65289 then 41 else r)"

definition normalize_router_text :: "unicode \<Rightarrow> gostr \<Rightarrow> gostr" where
  "normalize_router_text u s =
     to_lower (un_lower u) (join (str_fields (map router_rune (trim_space s))) (lit '' ''))"

definition mentions :: "unicode \<Rightarrow> gostr \<Rightarrow> gostr list \<Rightarrow> bool" where
  "mentions u question terms \<longleftrightarrow> list_ex (\<lambda>t. str_contains question (normalize_router_text u t)) terms"

definition is_one_of :: "unicode \<Rightarrow> gostr \<Rightarrow> gostr list \<Rightarrow> bool" where
  "is_one_of u question terms \<longleftrightarrow> list_ex (\<lambda>t. question = normalize_router_text u t) terms"

definition first_non_empty :: "gostr list \<Rightarrow> gostr" where
  "first_non_empty vs = (case filter (\<lambda>v. v \<noteq> []) (map trim_space vs) of [] \<Rightarrow> [] | v # _ \<Rightarrow> v)"

text \<open>A text cut to a number of runes, with an ellipsis, from the start, and from the end.\<close>

definition truncate_runes :: "gostr \<Rightarrow> int \<Rightarrow> gostr" where
  "truncate_runes s limit =
     (let t = trim_space s in if limit \<le> 0 \<or> int (length t) \<le> limit then t else take (nat limit) t @ [8230])"

definition limit_overview_runes :: "gostr \<Rightarrow> int \<Rightarrow> gostr" where
  "limit_overview_runes s limit =
     (let t = trim_space s in if limit \<le> 0 \<or> int (length t) \<le> limit then t else take (nat limit) t)"

definition limit_rewrite_context_runes :: "gostr \<Rightarrow> int \<Rightarrow> gostr" where
  "limit_rewrite_context_runes s limit =
     (let t = trim_space s in if limit \<le> 0 \<or> int (length t) \<le> limit then t else drop (length t - nat limit) t)"

section \<open>Messages\<close>

record chat_source =
  cs_label :: gostr
  cs_location :: gostr
  cs_snippet :: gostr
  cs_chunk_id :: gostr
  cs_source_ref :: gostr
  cs_score :: real
  cs_language :: gostr
  cs_source_reason :: gostr
  cs_evidence_type :: gostr

definition from_assistant :: "unicode \<Rightarrow> message \<Rightarrow> bool" where
  "from_assistant u m \<longleftrightarrow> to_lower (un_lower u) (trim_space (me_role m)) = lit ''assistant''"

definition has_recent_assistant_reply :: "unicode \<Rightarrow> message list \<Rightarrow> bool" where
  "has_recent_assistant_reply u history \<longleftrightarrow> list_ex (\<lambda>m. from_assistant u m \<and> trim_space (me_content m) \<noteq> []) history"

text \<open>The sources of a message are stored as JSON; \<open>sources\<close> decodes them.\<close>

definition latest_assistant_sources :: "unicode \<Rightarrow> (message \<Rightarrow> chat_source list) \<Rightarrow> message list \<Rightarrow> chat_source list" where
  "latest_assistant_sources u sources history =
     (case List.find (\<lambda>m. from_assistant u m \<and> sources m \<noteq> []) (rev history) of None \<Rightarrow> [] | Some m \<Rightarrow> sources m)"

definition latest_assistant_chunk_ids :: "unicode \<Rightarrow> (message \<Rightarrow> chat_source list) \<Rightarrow> message list \<Rightarrow> gostr list" where
  "latest_assistant_chunk_ids u sources history = uniq_loop {} (map cs_chunk_id (latest_assistant_sources u sources history))"

definition shown_role :: "unicode \<Rightarrow> gostr \<Rightarrow> gostr" where
  "shown_role u role =
     (let r = to_lower (un_lower u) (trim_space role) in
      if r = lit ''user'' then [29992, 25143] else if r = lit ''assistant'' then [21161, 25163] else if r = [] then [28040, 24687] else r)"

definition build_history :: "unicode \<Rightarrow> message list \<Rightarrow> gostr" where
  "build_history u messages =
     trim_space (concat (map (\<lambda>m. shown_role u (me_role m) @ lit '': '' @ me_content m @ [10]) messages))"

definition recent_history_for_retrieval_rewrite :: "unicode \<Rightarrow> message list \<Rightarrow> int \<Rightarrow> int \<Rightarrow> gostr" where
  "recent_history_for_retrieval_rewrite u history max_messages max_runes =
     (if max_messages \<le> 0 \<or> max_runes \<le> 0 then []
      else
        let selected = rev (take (nat max_messages) (filter (\<lambda>m. trim_space (me_content m) \<noteq> []) (rev history)));
            shown = build_history u selected
        in if selected = [] then []
           else if int (length shown) \<le> max_runes then shown else drop (length shown - nat max_runes) shown)"

definition title_prefixes :: "gostr list" where
  "title_prefixes =
     [[35831, 38382, 19968, 19979], [35831, 38382], [40635, 28902, 20320], [40635, 28902], [24110, 25105], [21487, 20197, 24110, 25105],
       [33021, 24110, 25105], [25105, 24819, 38382, 19968, 19979], [25105, 24819, 38382], [25105, 24819, 20102, 35299, 19968, 19979],
       [25105, 24819, 20102, 35299], [35831, 20320], [35831],
      [20851, 20110], [26377, 20851]]"

definition default_conversation_title :: gostr where
  "default_conversation_title = [26032, 23545, 35805]"

definition generate_conversation_title :: "gostr \<Rightarrow> gostr" where
  "generate_conversation_title question =
     (let t0 = trim_space (map (\<lambda>r. if r = 10 then 32 else r) question) in
      if t0 = [] then default_conversation_title
      else
        let t1 = (case List.find (has_prefix t0) title_prefixes of None \<Rightarrow> t0 | Some p \<Rightarrow> trim_space (trim_prefix t0 p));
            t2 = trim_space (trim_suffix (trim_suffix (trim_suffix (trim_suffix t1 [21527]) [21602]) [65311]) [63])
        in if t2 = [] then default_conversation_title
           else if 24 < length t2 then take 24 t2 @ [8230] else t2)"

section \<open>Chunks\<close>

definition get_field :: "metadata \<Rightarrow> string \<Rightarrow> gostr" where
  "get_field m k = trim_space (meta_get m (lit k))"

definition chunk_location :: "metadata \<Rightarrow> gostr" where
  "chunk_location m =
     (let ref = get_field m ''source_ref'' in
      if ref \<noteq> [] then
        (if 58 \<in> set ref
         then trim_space (takeWhile (\<lambda>r. r \<noteq> 58) ref @ lit '' '' @ tl (dropWhile (\<lambda>r. r \<noteq> 58) ref))
         else ref)
      else if get_field m ''page'' \<noteq> [] then lit ''page '' @ get_field m ''page''
      else if get_field m ''section_path'' \<noteq> [] then get_field m ''section_path''
      else if get_field m ''section'' \<noteq> [] then get_field m ''section''
      else if get_field m ''chunk_index'' \<noteq> [] then lit ''chunk '' @ get_field m ''chunk_index''
      else if get_field m ''chunk'' \<noteq> [] then lit ''chunk '' @ get_field m ''chunk''
      else [])"

definition chunk_index :: "chunk \<Rightarrow> int" where
  "chunk_index c =
     (let raw = get_field (ch_metadata c) ''chunk_index'' in
      if raw = [] then 2 ^ 30 else case atoi raw of None \<Rightarrow> 2 ^ 30 | Some i \<Rightarrow> i)"

section \<open>Routes\<close>

datatype query_route = RouteRag | RouteDocumentOverview | RouteHistoryOnly | RouteOutOfScopeReject

definition route_text :: "query_route \<Rightarrow> gostr" where
  "route_text r =
     (case r of RouteRag \<Rightarrow> lit ''rag'' | RouteDocumentOverview \<Rightarrow> lit ''document_overview''
      | RouteHistoryOnly \<Rightarrow> lit ''history_only'' | RouteOutOfScopeReject \<Rightarrow> lit ''out_of_scope_reject'')"

definition overview_questions :: "gostr list" where
  "overview_questions =
     [[36825, 26159, 20160, 20040], [36825, 20010, 26159, 20160, 20040], [36825, 26159, 21861], [36825, 26159, 24178, 20160, 20040, 30340],
       [36825, 20010, 25991, 20214, 26159, 20160, 20040], [36825, 20221, 25991, 20214, 26159, 20160, 20040], [36825, 26159, 20160, 20040,
       25991, 20214], [36825, 26159, 20160, 20040, 36164, 26009],
      [36825, 20221, 36164, 26009, 26159, 20160, 20040], [36825, 20010, 112, 100, 102, 26159, 20160, 20040], [36825, 26412, 20070, 26159,
        20160, 20040]]"

definition overview_patterns :: "gostr list" where
  "overview_patterns = [[36825, 26159, 20160, 20040], [36825, 20010, 25991, 20214], [36825, 20221, 25991, 20214], [36825, 20010, 25991,
    26723], [36825, 20221, 25991, 26723], [36825, 20221, 36164, 26009]]"

definition is_document_overview_question :: "unicode \<Rightarrow> gostr \<Rightarrow> bool" where
  "is_document_overview_question u question \<longleftrightarrow>
     question \<noteq> [] \<and>
     (is_one_of u question overview_questions \<or> (length question \<le> 40 \<and> mentions u question overview_patterns))"

definition conversation_references :: "gostr list" where
  "conversation_references =
     [[19978, 38754], [21069, 38754], [21018, 25165], [36825, 27573], [19978, 19968, 27573], [19978, 19968, 26465], [19978, 19968, 20010,
       22238, 31572], [21069, 19968, 20010, 22238, 31572], [36825, 37324], [36825, 20010, 35828, 27861], [36825, 20010, 32467, 35770]]"

definition looks_like_conversation_reference :: "unicode \<Rightarrow> gostr \<Rightarrow> bool" where
  "looks_like_conversation_reference u question = mentions u question conversation_references"

definition follow_up_questions :: "gostr list" where
  "follow_up_questions =
     [[20877, 35814, 32454, 19968, 28857], [20877, 35814, 32454, 19968, 20123], [23637, 24320, 35762, 35762], [23637, 24320, 19968, 28857],
       [32487, 32493], [32487, 32493, 35828], [25509, 30528, 35828], [25442, 20010, 35828, 27861], [25442, 19968, 31181, 35828, 27861],
       [31616, 21333, 35299, 37322, 19968, 19979],
      [36890, 20439, 35299, 37322, 19968, 19979], [32763, 35793, 19968, 19979], [24635, 32467, 19968, 19979], [20030, 20010, 20363, 23376],
        [36825, 26159, 20160, 20040, 24847, 24605], [19978, 19968, 27573, 26159, 20160, 20040, 24847, 24605], [19978, 19968, 26465, 26159,
        20160, 20040, 24847, 24605], [21018, 25165, 37027, 27573, 26159, 20160, 20040, 24847, 24605]]"

definition follow_up_prefixes :: "gostr list" where
  "follow_up_prefixes = [[20877, 35814, 32454], [23637, 24320], [32487, 32493], [25509, 30528], [25442, 20010], [25442, 19968, 31181],
    [32763, 35793], [24635, 32467], [20030, 20010, 20363, 23376], [35299, 37322, 19968, 19979]]"

definition is_history_only_follow_up :: "unicode \<Rightarrow> gostr \<Rightarrow> bool" where
  "is_history_only_follow_up u question \<longleftrightarrow>
     question \<noteq> [] \<and>
     (is_one_of u question follow_up_questions \<or>
      list_ex (\<lambda>p. has_prefix question (normalize_router_text u p)) follow_up_prefixes \<or>
      (length question \<le> 48 \<and> looks_like_conversation_reference u question))"

definition document_anchors :: "gostr list" where
  "document_anchors = [[36825, 26412, 20070], [20070, 37324], [20070, 20013], [25991, 20013], [25991, 37324], [21069, 25991], [19978,
    25991], [31456, 33410], [31532], [39029], [20316, 32773]]"

definition has_document_anchor :: "unicode \<Rightarrow> gostr \<Rightarrow> bool" where
  "has_document_anchor u question = mentions u question document_anchors"

definition realtime_terms :: "gostr list" where
  "realtime_terms =
     [[22825, 27668], [28201, 24230], [32929, 20215], [27719, 29575], [26032, 38395], [28909, 25628], [27604, 20998], [25112, 32489],
       [27604, 36187, 32467, 26524], [35841, 36194, 20102], [27833, 20215], [33322, 29677], [36335, 20917]]"

definition time_terms :: "gostr list" where
  "time_terms = [[20170, 22825], [20170, 26085], [29616, 22312], [23454, 26102], [26368, 26032], [21018, 21018], [26368, 36817], [30446,
    21069], [26126, 22825], [26152, 22825]]"

definition is_clearly_out_of_scope_realtime :: "unicode \<Rightarrow> gostr \<Rightarrow> bool" where
  "is_clearly_out_of_scope_realtime u question \<longleftrightarrow>
     mentions u question realtime_terms \<and>
     (mentions u question time_terms \<or> is_one_of u question [[21271, 20140, 30340, 22825, 27668, 24590, 20040, 26679], [20170, 22825,
       32929, 20215, 22810, 23569], [26368, 26032, 26032, 38395, 26159, 20160, 20040]])"

definition decide_query_route :: "unicode \<Rightarrow> gostr \<Rightarrow> message list \<Rightarrow> query_route \<times> gostr" where
  "decide_query_route u question history =
     (let normalized = normalize_router_text u question in
      if normalized = [] then (RouteRag, lit ''empty'')
      else if has_recent_assistant_reply u history \<and> is_history_only_follow_up u normalized
      then (RouteHistoryOnly, lit ''follow_up'')
      else if is_document_overview_question u normalized then (RouteDocumentOverview, lit ''document_overview'')
      else if is_clearly_out_of_scope_realtime u normalized \<and> \<not> has_document_anchor u normalized \<and>
              \<not> looks_like_conversation_reference u normalized
      then (RouteOutOfScopeReject, lit ''out_of_scope_realtime'')
      else (RouteRag, lit ''default''))"

section \<open>The overview of a document\<close>

definition readable_document_type :: "gostr \<Rightarrow> gostr" where
  "readable_document_type kind =
     (case map_of
        [(lit ''internship_certificate'', [23454, 20064, 35777, 26126]), (lit ''certificate'', [35777, 26126, 26448, 26009]),
          (lit ''resume'', [31616, 21382]),
         (lit ''contract'', [21512, 21516, 47, 21327, 35758]), (lit ''invoice'', [21457, 31080]), (lit ''report'', [25253, 21578]),
           (lit ''book'', [20070, 31821, 47, 38271, 25991, 26723]),
         (lit ''document'', [25991, 26723])] (trim_space kind) of
        None \<Rightarrow> [] | Some t \<Rightarrow> t)"

definition infer_overview_type_from_text :: "unicode \<Rightarrow> gostr \<Rightarrow> gostr" where
  "infer_overview_type_from_text u s =
     (let t = to_lower (un_lower u) s in
      if str_contains t [23454, 20064, 35777, 26126] then [23454, 20064, 35777, 26126]
      else if str_contains t [35777, 26126] \<or> str_contains t [20857, 35777, 26126] then [35777, 26126, 26448, 26009]
      else if str_contains t [31616, 21382] \<or> str_contains t (lit ''resume'') then [31616, 21382]
      else if str_contains t [21512, 21516] \<or> str_contains t [21327, 35758] then [21512, 21516, 47, 21327, 35758]
      else if str_contains t [25253, 21578] \<or> str_contains t (lit ''report'') then [25253, 21578]
      else [25991, 26723])"

definition first_overview_chunk_text :: "chunk list \<Rightarrow> gostr" where
  "first_overview_chunk_text cs = first_non_empty (map ch_content cs)"

definition overview_tier_rank :: "chunk \<Rightarrow> nat" where
  "overview_tier_rank c =
     (let tier = get_field (ch_metadata c) ''retrieval_tier'' in
      if tier = lit ''semantic'' then 0 else if tier = lit ''lexical'' then 1 else 2)"

definition overview_less :: "chunk \<Rightarrow> chunk \<Rightarrow> bool" where
  "overview_less a b \<longleftrightarrow>
     (if chunk_index a = chunk_index b then overview_tier_rank a < overview_tier_rank b else chunk_index a < chunk_index b)"

text \<open>The first chunk of each family, up to the limit; \<open>k\<close> chunks are still wanted.\<close>

fun overview_loop :: "gostr set \<Rightarrow> nat \<Rightarrow> chunk list \<Rightarrow> chunk list" where
  "overview_loop seen k [] = []"
| "overview_loop seen k (c # cs) =
     (let family0 = get_field (ch_metadata c) ''chunk_family''; family = (if family0 = [] then ch_id c else family0) in
      if family \<in> seen then overview_loop seen k cs
      else c # (if k \<le> 1 then [] else overview_loop (insert family seen) (k - 1) cs))"

definition select_overview_chunks :: "chunk list \<Rightarrow> int \<Rightarrow> chunk list" where
  "select_overview_chunks cs limit =
     (if limit \<le> 0 \<or> cs = [] then []
      else
        let near = filter (\<lambda>c. trim_space (ch_content c) \<noteq> [] \<and>
                     (get_field (ch_metadata c) ''page'' = lit ''1'' \<or> chunk_index c \<le> 8)) cs
        in overview_loop {} (nat limit) (slice_stable overview_less (if near = [] then cs else near)))"

definition overview_source :: "nat \<times> chunk \<Rightarrow> chat_source" where
  "overview_source ic =
     (let (i, c) = ic; s = trim_space (ch_content c) in
      \<lparr>cs_label = lit ''['' @ itoa (int i + 1) @ lit '']'', cs_location = chunk_location (ch_metadata c),
       cs_snippet = (if 240 < length s then limit_overview_runes s 240 @ lit ''...'' else s), cs_chunk_id = ch_id c,
       cs_source_ref = get_field (ch_metadata c) ''source_ref'', cs_score = 0, cs_language = get_field (ch_metadata c) ''language'',
       cs_source_reason = [], cs_evidence_type = []\<rparr>)"

definition build_overview_sources :: "book \<Rightarrow> chunk list \<Rightarrow> chat_source list" where
  "build_overview_sources b cs =
     (if cs = [] \<and> trim_space (bo_document_summary b) \<noteq> [] then
        [\<lparr>cs_label = lit ''[1]'', cs_location = lit ''document metadata'',
          cs_snippet = limit_overview_runes (bo_document_summary b) 240, cs_chunk_id = [], cs_source_ref = lit ''book:metadata'',
          cs_score = 0, cs_language = trim_space (bo_language b), cs_source_reason = [], cs_evidence_type = []\<rparr>]
      else []) @ map overview_source (enumerate 0 cs)"

definition overview_chunk_line :: "nat \<times> chunk \<Rightarrow> gostr" where
  "overview_chunk_line ic =
     (let (i, c) = ic; location = chunk_location (ch_metadata c) in
      [10] @ lit ''['' @ itoa (int i + 1) @ lit '']'' @ (if location \<noteq> [] then lit '' ('' @ location @ lit '')'' else []) @ lit '' '' @
      limit_overview_runes (ch_content c) 700)"

definition build_document_overview_context :: "book \<Rightarrow> chunk list \<Rightarrow> gostr" where
  "build_document_overview_context b cs =
     [26631, 39064, 65306] @ first_non_empty [bo_title b, bo_original_filename b] @ [10, 21407, 22987, 25991, 20214, 21517,
       65306] @ bo_original_filename b @
     (if trim_space (bo_document_type b) \<noteq> [] then [10, 25991, 26723, 31867, 22411,
       65306] @ readable_document_type (bo_document_type b) else []) @
     (if bo_keywords b \<noteq> [] then [10, 20851, 38190, 35789, 65306] @ join (bo_keywords b) [12289] else []) @
     (if trim_space (bo_document_summary b) \<noteq> [] then [10, 25991, 26723, 25688, 35201, 65306] @ bo_document_summary b else []) @
     (if trim_space (bo_first_page_text b) \<noteq> [] then [10, 39318, 39029, 25991, 26412,
       65306] @ limit_overview_runes (bo_first_page_text b) 900 else []) @
     concat (map overview_chunk_line (enumerate 0 cs))"

definition fallback_document_overview_answer :: "unicode \<Rightarrow> book \<Rightarrow> chunk list \<Rightarrow> gostr" where
  "fallback_document_overview_answer u b cs =
     (let kind0 = readable_document_type (bo_document_type b);
          kind = (if kind0 = []
                  then infer_overview_type_from_text u
                         (bo_original_filename b @ [10] @ bo_document_summary b @ [10] @ first_overview_chunk_text cs)
                  else kind0);
          subject = first_non_empty [bo_title b, bo_original_filename b, [36825, 20221, 25991, 26723]]
      in if kind = [] \<or> kind = [25991, 26723]
         then subject @ [32, 26159, 19968, 20221, 25991, 26723, 65292, 20027, 35201, 20869, 23481, 21487, 20174, 25991, 20214, 21517,
           21644, 39318, 39029, 20869, 23481, 21028, 26029, 12290]
         else
           let summary0 = trim_space (bo_document_summary b);
               summary1 = (if summary0 = [] then first_overview_chunk_text cs else summary0);
               summary = limit_overview_runes (join (str_fields summary1) (lit '' '')) 160;
               citation = (if cs \<noteq> [] \<or> trim_space (bo_document_summary b) \<noteq> [] then [65288, 20381, 25454, 91, 49, 93,
                 65289] else [])
           in if summary = [] then subject @ [32, 26159, 19968, 20221] @ kind @ [12290] @ citation
              else subject @ [32, 26159, 19968, 20221] @ kind @ [65292, 20027, 35201, 20869, 23481, 26159, 65306] @ summary @ citation)"

end
