(* ===== verification/ChatPlan.thy ===== *)
theory ChatPlan
  imports ChatText SearchIndex Indexer
begin

text \<open>
  How the chat service plans and finds evidence (\<open>retrieval_pipeline.go\<close> and \<open>expert_pipeline.go\<close> in
  \<open>backend/services/chat/internal/app\<close>): the plan of a question, its queries, the searches over the two indexes, the choice
  of evidence, the prompts and the checks of an answer.  The language model, the embedding server and the indexes are
  functions, inputs of a request.
\<close>

section \<open>Configuration and environment\<close>

record chat_config =
  cc_top_k :: int
  cc_dense_recall :: int
  cc_lexical_recall :: int
  cc_dense_weight :: real
  cc_lexical_weight :: real
  cc_fusion_top_k :: int
  cc_history_limit :: int
  cc_rerank_top_n :: int
  cc_mode :: gostr
  cc_context_budget :: int
  cc_min_evidence :: int
  cc_rewrite :: bool
  cc_multi :: bool
  cc_abstain :: bool

text \<open>The defaults of \<open>New\<close>.\<close>

definition new_chat_config :: "chat_config \<Rightarrow> chat_config" where
  "new_chat_config c =
     (let positive = (\<lambda>x d. if x \<le> (0 :: int) then d else x); unset = cc_dense_weight c \<le> 0 \<and> cc_lexical_weight c \<le> 0 in
      c\<lparr>cc_top_k := positive (cc_top_k c) 5, cc_dense_recall := positive (cc_dense_recall c) 40,
        cc_lexical_recall := positive (cc_lexical_recall c) 60, cc_fusion_top_k := positive (cc_fusion_top_k c) 30,
        cc_dense_weight := (if unset then 45 / 100 else cc_dense_weight c),
        cc_lexical_weight := (if unset then 55 / 100 else cc_lexical_weight c),
        cc_history_limit := (if cc_history_limit c < 0 then 0 else cc_history_limit c),
        cc_rerank_top_n := positive (cc_rerank_top_n c) 12,
        cc_mode := (if trim_space (cc_mode c) = [] then lit ''hybrid_best'' else trim_space (cc_mode c)),
        cc_context_budget := positive (cc_context_budget c) 2200, cc_min_evidence := positive (cc_min_evidence c) 2\<rparr>)"

text \<open>What a request sees of the rest of the world; \<open>cn_generate\<close> takes the system prompt and the user prompt.\<close>

record chat_env =
  cn_config :: chat_config
  cn_unicode :: unicode
  cn_generate :: "gostr \<Rightarrow> gostr \<Rightarrow> gostr + gostr"
  cn_json_strings :: "gostr \<Rightarrow> gostr list option"        \<comment> \<open>a JSON array of strings\<close>
  cn_embed :: "gostr \<Rightarrow> gostr + real list"
  cn_lib :: index_lib
  cn_qdrant :: "qd_request \<Rightarrow> http_reply"
  cn_points :: qdrant_client
  cn_opensearch :: "os_request \<Rightarrow> http_reply"
  cn_words :: opensearch_client
  cn_rerank :: "rerank option"
  cn_iteration :: "hit_map \<Rightarrow> hit_map"
  cn_chunks :: bool                                    \<comment> \<open>whether the read of chunks within the pipeline succeeds\<close>
  cn_stream :: "(gostr \<Rightarrow> gostr \<Rightarrow> gostr list \<times> (gostr + gostr)) option"  \<comment> \<open>a model that streams: the chunks, then the text\<close>
  cn_sources :: "message \<Rightarrow> chat_source list"            \<comment> \<open>decodes the sources of a message\<close>

definition unique_retrieval_queries :: "gostr list \<Rightarrow> gostr list" where
  "unique_retrieval_queries items = uniq_loop {} items"

definition normalize_retrieval_queries :: "unicode \<Rightarrow> gostr list \<Rightarrow> gostr list" where
  "normalize_retrieval_queries u items = unique_retrieval_queries (filter (\<lambda>q. q \<noteq> []) (map (normalize_text u) items))"

section \<open>Questions\<close>

definition complex_terms :: "gostr list" where
  "complex_terms =
     [[20026, 20160, 20040], [21407, 22240], [20998, 26512], [35780, 20215], [27604, 36739], [21306, 21035], [24635, 32467], [27010,
       25324], [20027, 35201], [35814, 32454], [23637, 24320], [22914, 20309], [24590, 20040], [24433, 21709], [24847, 20041], [20851, 31995]]"

definition fact_terms :: "gostr list" where
  "fact_terms =
     [[35841], [21738, 20301], [21738, 20010], [20160, 20040, 26102, 38388], [20160, 20040, 26102, 20505], [20309, 26102], [22810, 23569],
       [22995, 21517], [21517, 23383], [23398, 29983], [21516, 23398], [20154, 21592], [21333, 20301], [23398, 26657],
      [37096, 38376], [23703, 20301], [26085, 26399], [26102, 38388], [22320, 28857], [32534, 21495], [21495, 30721], [30005, 35805], [37038, 31665]]"

definition is_single_fact_question :: "unicode \<Rightarrow> gostr \<Rightarrow> bool" where
  "is_single_fact_question u question \<longleftrightarrow>
     (let normalized = normalize_router_text u question in
      normalized \<noteq> [] \<and> length normalized \<le> 42 \<and> \<not> mentions u normalized complex_terms \<and> mentions u normalized fact_terms)"

definition context_terms :: "gostr list" where
  "context_terms =
     [[35841], [20160, 20040], [21738, 20010], [21738, 20301], [22810, 23569], [20960], [20160, 20040, 26102, 20505], [20309, 26102],
       [23398, 29983], [21516, 23398], [20154, 21592], [22995, 21517], [26102, 38388], [21333, 20301], [23703, 20301],
      [37096, 38376], [23427], [20182], [22905], [36825, 20010], [36825, 20221], [35813]]"

definition needs_conversation_aware_retrieval :: "unicode \<Rightarrow> gostr \<Rightarrow> message list \<Rightarrow> bool" where
  "needs_conversation_aware_retrieval u question history \<longleftrightarrow>
     (let normalized = normalize_router_text u question in
      normalized \<noteq> [] \<and> has_recent_assistant_reply u history \<and>
      (looks_like_conversation_reference u normalized \<or> (length normalized \<le> 36 \<and> mentions u normalized context_terms)))"

definition required_evidence_count :: "unicode \<Rightarrow> int \<Rightarrow> gostr \<Rightarrow> gostr \<Rightarrow> int" where
  "required_evidence_count u minimum question retrieval_question =
     (let m = (if minimum \<le> 0 then 2 else minimum) in
      if is_single_fact_question u question \<or> is_single_fact_question u retrieval_question then 1 else m)"

definition classify_question_type :: "unicode \<Rightarrow> query_route \<Rightarrow> gostr \<Rightarrow> gostr \<Rightarrow> message list \<Rightarrow> gostr" where
  "classify_question_type u route question standalone history =
     (let fact = is_single_fact_question u question \<or> is_single_fact_question u standalone;
          normalized = normalize_router_text u (question @ lit '' '' @ standalone)
      in case route of
           RouteDocumentOverview \<Rightarrow> lit ''overview''
         | RouteHistoryOnly \<Rightarrow> lit ''follow_up''
         | RouteOutOfScopeReject \<Rightarrow> lit ''out_of_scope''
         | RouteRag \<Rightarrow>
             (if has_recent_assistant_reply u history \<and> needs_conversation_aware_retrieval u question history
              then (if fact then lit ''single_fact'' else lit ''follow_up'')
              else if fact then lit ''single_fact''
              else if mentions u normalized [[24635, 32467], [27010, 25324], [20027, 35201, 20869, 23481], [35762, 20160, 20040], [31616,
                20171]] then lit ''summary''
              else if mentions u normalized [[20026, 20160, 20040], [21407, 22240], [20998, 26512], [35780, 20215], [27604, 36739], [21306,
                21035], [24433, 21709], [24847, 20041]] then lit ''analysis''
              else lit ''rag''))"

text \<open>A rewritten question: quotes and back ticks are cut off, and only the first line counts.\<close>

definition trim_cutset :: "gostr \<Rightarrow> gostr \<Rightarrow> gostr" where
  "trim_cutset cutset s = rev (dropWhile (\<lambda>r. r \<in> set cutset) (rev (dropWhile (\<lambda>r. r \<in> set cutset) s)))"

definition clean_standalone_retrieval_question :: "gostr \<Rightarrow> gostr" where
  "clean_standalone_retrieval_question s =
     (let t1 = trim_cutset [34, 39, 8220, 8221, 8216, 8217] (trim_cutset [96, 32, 9, 13, 10] (trim_space s));
          t2 = (if 13 \<in> set t1 \<or> 10 \<in> set t1 then trim_space (takeWhile (\<lambda>r. r \<noteq> 13 \<and> r \<noteq> 10) t1) else t1);
          t3 = trim_space (trim_prefix (trim_prefix t2 [38382, 39064, 65306]) [25913, 20889, 65306])
      in if t3 = [] \<or> str_contains t3 [26080, 27861] \<or> str_contains t3 [35777, 25454, 19981, 36275] then [] else take 180 t3)"

definition fallback_contextual_retrieval_question :: "unicode \<Rightarrow> book \<Rightarrow> gostr \<Rightarrow> gostr \<Rightarrow> gostr" where
  "fallback_contextual_retrieval_question u b question history_text =
     join (normalize_retrieval_queries u
       [trim_space (bo_title b), trim_space (bo_original_filename b), limit_rewrite_context_runes history_text 700, trim_space question])
       (lit '' '')"

definition rewrite_prompt :: "book \<Rightarrow> gostr \<Rightarrow> gostr \<Rightarrow> gostr" where
  "rewrite_prompt b history_text question =
     [20070, 21517, 65306] @ first_non_empty [bo_title b, bo_original_filename b] @ [10, 25991, 20214, 21517,
       65306] @ bo_original_filename b @ [10, 23545, 35805, 21382, 21490, 65306, 10] @ history_text @
     [10, 10, 24403, 21069, 38382, 39064, 65306] @ question @
     [10, 10, 35831, 25226, 24403, 21069, 38382, 39064, 25913, 20889, 25104, 19968, 20010, 21487, 30452, 25509, 26816, 32034, 25991, 26723,
       20869, 23481, 30340, 29420, 31435, 20013, 25991, 38382, 39064, 12290, 21482, 36755, 20986, 25913, 20889, 21518, 30340, 38382, 39064,
       65292, 19981, 35201, 35299, 37322, 12290]"

definition rewrite_system_prompt :: gostr where
  "rewrite_system_prompt = [20320, 36127, 36131, 25226, 22810, 36718, 23545, 35805, 20013, 30340, 30465, 30053, 36861, 38382, 25913, 20889,
    25104, 29420, 31435, 26816, 32034, 38382, 39064, 12290, 24517, 39035, 20445, 30041, 29992, 25143, 21407, 22987, 24847, 22270, 65292,
    19981, 22238, 31572, 38382, 39064, 12290]"

definition contextualize_retrieval_question :: "chat_env \<Rightarrow> book \<Rightarrow> gostr \<Rightarrow> message list \<Rightarrow> gostr" where
  "contextualize_retrieval_question e b question0 history =
     (let u = cn_unicode e; question = trim_space question0;
          history_text = recent_history_for_retrieval_rewrite u history 4 1400
      in if question = [] \<or> \<not> needs_conversation_aware_retrieval u question history \<or> history_text = [] then question
         else case cn_generate e rewrite_system_prompt (rewrite_prompt b history_text question) of
           Inl _ \<Rightarrow> fallback_contextual_retrieval_question u b question history_text
         | Inr out \<Rightarrow>
             (let rewritten = clean_standalone_retrieval_question out in
              if rewritten \<noteq> [] then rewritten else fallback_contextual_retrieval_question u b question history_text))"

text \<open>\<open>Rewrite\<close> of the model-based rewriter; an error of the model or of the decoder means no rewrites.\<close>

definition model_rewrites :: "chat_env \<Rightarrow> gostr \<Rightarrow> gostr \<Rightarrow> gostr list option" where
  "model_rewrites e query language =
     (case cn_generate e (lit ''You rewrite search queries. Output valid JSON only.'')
             (lit ''Language: '' @ language @ [10] @ lit ''Question: '' @ query @ [10] @
              lit ''Return a JSON array with up to 3 short search rewrites.'') of
        Inl _ \<Rightarrow> None
      | Inr out \<Rightarrow> cn_json_strings e (trim_space out))"

definition build_retrieval_queries :: "chat_env \<Rightarrow> gostr \<Rightarrow> gostr list" where
  "build_retrieval_queries e question =
     (let u = cn_unicode e; c = cn_config e; normalized = normalize_text u question;
          queries = (if cc_multi c then build_query_variants u normalized else [normalized]);
          rewrites = (if cc_rewrite c
                      then (case model_rewrites e normalized (detect_language u normalized) of
                              None \<Rightarrow> [] | Some rs \<Rightarrow> normalize_retrieval_queries u rs)
                      else [])
      in if normalized = [] then []
         else if rewrites = [] then unique_retrieval_queries queries
         else if cc_multi c then unique_retrieval_queries (unique_retrieval_queries (queries @ rewrites))
         else unique_retrieval_queries [hd rewrites])"

text \<open>The facts of the document that a question asks for.\<close>

definition fact_keys_for_question :: "unicode \<Rightarrow> gostr \<Rightarrow> gostr list" where
  "fact_keys_for_question u question =
     (let normalized = normalize_router_text u question; has = list_ex (str_contains normalized) in
      uniq_loop {}
        ((if has [[23398, 29983], [22995, 21517], [35841]] then [lit ''student_name''] else []) @
         (if has [[23454, 20064, 26102, 38388], [20160, 20040, 26102, 20505], [20309, 26102], [26085, 26399], [26102, 38388]]
          then [lit ''internship_start'', lit ''internship_end'', lit ''proof_date''] else []) @
         (if has [[37096, 38376]] then [lit ''department''] else []) @ (if has [[23703, 20301]] then [lit ''position''] else []) @
         (if has [[23398, 26657]] then [lit ''school''] else [])))"

definition contains_string :: "gostr list \<Rightarrow> gostr \<Rightarrow> bool" where
  "contains_string items target \<longleftrightarrow> trim_space target \<in> trim_space ` set items"

definition append_document_fact_queries :: "unicode \<Rightarrow> gostr list \<Rightarrow> book \<Rightarrow> gostr \<Rightarrow> gostr list" where
  "append_document_fact_queries u queries b question =
     queries @ map (\<lambda>f. trim_space (df_label f @ lit '' '' @ df_value f))
       (filter (\<lambda>f. contains_string (fact_keys_for_question u question) (df_key f)) (bo_facts b))"

section \<open>The plan\<close>

record query_plan =
  qp_route :: query_route
  qp_type :: gostr
  qp_original :: gostr
  qp_standalone :: gostr
  qp_queries :: "gostr list"
  qp_required :: int
  qp_reuse :: "gostr list"
  qp_needs_retrieval :: bool
  qp_needs_history :: bool

definition build_query_plan :: "chat_env \<Rightarrow> book \<Rightarrow> gostr \<Rightarrow> message list \<Rightarrow> query_plan" where
  "build_query_plan e b question history =
     (let u = cn_unicode e; minimum = cc_min_evidence (cn_config e);
          route = fst (decide_query_route u question history);
          standalone = (if route = RouteRag then contextualize_retrieval_question e b question history else trim_space question);
          kind = classify_question_type u route question standalone history;
          r0 = required_evidence_count u minimum question standalone;
          r1 = (if kind = lit ''analysis'' \<and> r0 < minimum then minimum else r0);
          r2 = (if kind = lit ''summary'' \<and> r1 < 2 then 2 else r1);
          required = (if route = RouteDocumentOverview then 1 else r2);
          queries = (if route = RouteRag
                     then append_document_fact_queries u (build_retrieval_queries e standalone) b standalone else [])
      in \<lparr>qp_route = route, qp_type = kind, qp_original = trim_space question, qp_standalone = standalone,
          qp_queries = unique_retrieval_queries queries, qp_required = required,
          qp_reuse = latest_assistant_chunk_ids u (cn_sources e) history, qp_needs_retrieval = (route = RouteRag),
          qp_needs_history = (needs_conversation_aware_retrieval u question history \<or> route = RouteHistoryOnly)\<rparr>)"


section \<open>Searching\<close>

definition chat_any_string :: "index_lib \<Rightarrow> json option \<Rightarrow> gostr" where
  "chat_any_string l v = (case v of Some (JStr s) \<Rightarrow> s | Some (JNum x) \<Rightarrow> xl_fmt0 l x | _ \<Rightarrow> [])"

definition point_fields :: "gostr list" where
  "point_fields =
     map lit [''source_type'', ''source_ref'', ''page'', ''section_path'', ''section_id'', ''chunk_family'', ''retrieval_tier'',
       ''content_sha256'', ''language'', ''title'', ''section_title'', ''block_type'', ''is_first_page'', ''entities'', ''facts'']"

definition point_metadata :: "index_lib \<Rightarrow> (gostr \<times> json) list \<Rightarrow> metadata" where
  "point_metadata l payload =
     (\<lambda>k. if k \<in> set point_fields then Some (trim_space (chat_any_string l (map_of payload k))) else None)"

definition zero_chunk :: chunk where
  "zero_chunk = \<lparr>ch_id = [], ch_book_id = [], ch_content = [], ch_metadata = Map.empty, ch_created_at = zero_time\<rparr>"

definition point_hit :: "index_lib \<Rightarrow> gostr \<Rightarrow> search_point \<Rightarrow> stage_hit" where
  "point_hit l stage p =
     \<lparr>sh_chunk_id = trim_space (sp_id p),
      sh_book_id = trim_space (chat_any_string l (map_of (sp_payload p) (lit ''book_id''))), sh_score = sp_score p, sh_stage = stage,
      sh_content = trim_space (chat_any_string l (map_of (sp_payload p) (lit ''content_text''))),
      sh_metadata = point_metadata l (sp_payload p), sh_chunk = zero_chunk\<rparr>"

definition points_to_stage_hits :: "index_lib \<Rightarrow> search_point list \<Rightarrow> gostr \<Rightarrow> stage_hit list" where
  "points_to_stage_hits l points stage = map (point_hit l stage) points"

definition index_answer :: "chat_env \<Rightarrow> (index_err + search_point list) \<times> unit \<Rightarrow> gostr \<Rightarrow> gostr + stage_hit list" where
  "index_answer e r stage =
     (case fst r of Inl er \<Rightarrow> Inl (index_error_text (xl_status_line (cn_lib e)) er)
      | Inr points \<Rightarrow> Inr (points_to_stage_hits (cn_lib e) points stage))"

definition dense_search :: "chat_env \<Rightarrow> book \<Rightarrow> search" where
  "dense_search e b query language top_k =
     (case cn_embed e query of
        Inl er \<Rightarrow> Inl er
      | Inr vec \<Rightarrow>
          index_answer e (query_dense (cn_lib e) (\<lambda>cmd s. (cn_qdrant e cmd, s)) (cn_points e) (bo_id b) vec top_k ()) (lit ''dense''))"

definition lexical_search :: "chat_env \<Rightarrow> book \<Rightarrow> search" where
  "lexical_search e b query language top_k =
     index_answer e
       (query_bm25 (cn_lib e) (\<lambda>cmd s. (cn_opensearch e cmd, s)) (cn_words e) (bo_id b)
         (join (tokenize (cn_unicode e) query language) (lit '' '')) top_k ())
       (lit ''lexical'')"

definition chunk_loader :: "chat_env \<Rightarrow> tables \<Rightarrow> gostr list \<Rightarrow> gostr + (gostr \<Rightarrow> chunk option)" where
  "chunk_loader e t ids =
     (case fst (get_chunks_by_ids ids t) of
        Inl _ \<Rightarrow> Inl (lit ''chunks unavailable'')
      | Inr cs \<Rightarrow> if cn_chunks e then Inr (map_of (rev (map (\<lambda>c. (ch_id c, c)) cs))) else Inl (lit ''chunks unavailable''))"

definition chat_pipeline :: "chat_env \<Rightarrow> book \<Rightarrow> tables \<Rightarrow> pipeline" where
  "chat_pipeline e b t =
     \<lparr>pl_rewrite = None, pl_dense = Some (dense_search e b), pl_lexical = Some (lexical_search e b),
      pl_chunk_loader = Some (chunk_loader e t), pl_reranker = cn_rerank e\<rparr>"

definition chat_options :: "chat_config \<Rightarrow> book \<Rightarrow> gostr \<Rightarrow> gostr list \<Rightarrow> pipeline_options" where
  "chat_options c b question queries =
     \<lparr>po_query = question, po_queries = queries, po_book_id = bo_id b, po_mode = cc_mode c, po_top_k = cc_top_k c,
      po_dense_top_k = cc_dense_recall c, po_lexical_top_k = cc_lexical_recall c, po_dense_weight = cc_dense_weight c,
      po_lexical_weight = cc_lexical_weight c, po_fusion_top_k = cc_fusion_top_k c, po_rerank_top_n = cc_rerank_top_n c,
      po_context_budget = cc_context_budget c\<rparr>"

record retrieval_hit =
  rh_chunk_id :: gostr
  rh_source_ref :: gostr
  rh_score :: real
  rh_stage :: gostr
  rh_snippet :: gostr

definition debug_hit :: "gostr \<Rightarrow> stage_hit \<Rightarrow> retrieval_hit" where
  "debug_hit stage h =
     \<lparr>rh_chunk_id = sh_chunk_id h, rh_source_ref = get_field (sh_metadata h) ''source_ref'', rh_score = sh_score h, rh_stage = stage,
      rh_snippet = truncate_runes
        (if trim_space (sh_content h) = [] then trim_space (ch_content (sh_chunk h)) else trim_space (sh_content h)) 180\<rparr>"

definition stage_hits_to_debug :: "stage_hit list \<Rightarrow> gostr \<Rightarrow> int \<Rightarrow> retrieval_hit list" where
  "stage_hits_to_debug hits stage limit =
     map (debug_hit stage) (if limit \<le> 0 \<or> int (length hits) < limit then hits else take (nat limit) hits)"

record evidence =
  ev_chunk_id :: gostr
  ev_page :: gostr
  ev_location :: gostr
  ev_snippet :: gostr
  ev_score :: real
  ev_reason :: gostr
  ev_type :: gostr

record retrieval_debug =
  rd_language :: gostr
  rd_queries :: "gostr list"
  rd_plan :: "query_plan option"
  rd_selected :: "gostr list"
  rd_evidence :: "evidence list"
  rd_reason :: gostr
  rd_dense :: "retrieval_hit list"
  rd_lexical :: "retrieval_hit list"
  rd_fused :: "retrieval_hit list"
  rd_reranked :: "retrieval_hit list"

definition retrieve_evidence_with_queries ::
  "chat_env \<Rightarrow> book \<Rightarrow> tables \<Rightarrow> gostr \<Rightarrow> gostr list \<Rightarrow> stage_hit list \<times> retrieval_debug" where
  "retrieve_evidence_with_queries e b t question queries =
     (let c = cn_config e;
          r = run (cn_unicode e) (cn_iteration e) (chat_pipeline e b t) (chat_options c b question queries)
      in (pr_final r,
          \<lparr>rd_language = pr_language r, rd_queries = pr_queries r, rd_plan = None, rd_selected = [], rd_evidence = [], rd_reason = [],
           rd_dense = stage_hits_to_debug (pr_dense r) (lit ''dense'') (cc_rerank_top_n c),
           rd_lexical = stage_hits_to_debug (pr_lexical r) (lit ''lexical'') (cc_rerank_top_n c),
           rd_fused = stage_hits_to_debug (pr_fused r) (lit ''fusion'') (cc_rerank_top_n c),
           rd_reranked = stage_hits_to_debug (pr_reranked r) (lit ''rerank'') (cc_top_k c)\<rparr>))"

definition retrieve_evidence_for_plan ::
  "chat_env \<Rightarrow> book \<Rightarrow> tables \<Rightarrow> query_plan \<Rightarrow> stage_hit list \<times> retrieval_debug" where
  "retrieve_evidence_for_plan e b t plan =
     (let question = (if trim_space (qp_standalone plan) = [] then trim_space (qp_original plan) else trim_space (qp_standalone plan));
          queries = (if qp_queries plan = [] then build_retrieval_queries e question else qp_queries plan)
      in retrieve_evidence_with_queries e b t question queries)"

section \<open>Evidence\<close>

definition document_profile_hit :: "book \<Rightarrow> stage_hit list" where
  "document_profile_hit b =
     (let summary = trim_space (bo_document_summary b);
          m = [lit ''source_ref'' \<mapsto> lit ''book:metadata'', lit ''page'' \<mapsto> [], lit ''language'' \<mapsto> trim_space (bo_language b)];
          c = \<lparr>ch_id = trim_space (bo_id b) @ lit '':document_profile'', ch_book_id = bo_id b, ch_content = summary,
               ch_metadata = m, ch_created_at = zero_time\<rparr>
      in if summary = [] then []
         else [\<lparr>sh_chunk_id = ch_id c, sh_book_id = bo_id b, sh_score = 11 / 10, sh_stage = lit ''document_profile'',
                sh_content = summary, sh_metadata = m, sh_chunk = c\<rparr>])"

definition chunk_hit :: "gostr \<Rightarrow> real \<Rightarrow> chunk \<Rightarrow> stage_hit" where
  "chunk_hit stage score c =
     \<lparr>sh_chunk_id = ch_id c, sh_book_id = ch_book_id c, sh_score = score, sh_stage = stage, sh_content = ch_content c,
      sh_metadata = ch_metadata c, sh_chunk = c\<rparr>"

text \<open>The first chunk that holds the value of a fact, or is at its place.\<close>

definition fact_matches :: "doc_fact \<Rightarrow> chunk \<Rightarrow> bool" where
  "fact_matches f c \<longleftrightarrow>
     str_contains (ch_content c) (df_value f) \<or>
     (trim_space (df_source_ref f) \<noteq> [] \<and> trim_space (df_source_ref f) = get_field (ch_metadata c) ''source_ref'') \<or>
     (trim_space (df_page f) \<noteq> [] \<and> trim_space (df_page f) = get_field (ch_metadata c) ''page'')"

definition fact_question_keys :: "unicode \<Rightarrow> query_plan \<Rightarrow> gostr list" where
  "fact_question_keys u plan =
     (let keys = fact_keys_for_question u (qp_standalone plan) in
      if keys = [] then fact_keys_for_question u (qp_original plan) else keys)"

definition fact_hits :: "gostr list \<Rightarrow> book \<Rightarrow> chunk list \<Rightarrow> stage_hit list" where
  "fact_hits keys b cs =
     concat (map (\<lambda>f. case List.find (fact_matches f) cs of None \<Rightarrow> [] | Some c \<Rightarrow> [chunk_hit (lit ''structured_fact'') (12 / 10) c])
       (filter (\<lambda>f. contains_string keys (df_key f) \<and> trim_space (df_value f) \<noteq> []) (bo_facts b)))"

definition evidence_key :: "stage_hit \<Rightarrow> gostr" where
  "evidence_key h =
     (let id0 = trim_space (ch_id (sh_chunk h)); id = (if id0 = [] then trim_space (sh_chunk_id h) else id0);
          family = get_field (ch_metadata (sh_chunk h)) ''chunk_family''
      in if id = [] then [] else if family \<noteq> [] then family else id)"

fun unique_evidence_loop :: "gostr set \<Rightarrow> nat \<Rightarrow> stage_hit list \<Rightarrow> stage_hit list" where
  "unique_evidence_loop seen k [] = []"
| "unique_evidence_loop seen k (h # hs) =
     (if evidence_key h = [] \<or> evidence_key h \<in> seen then unique_evidence_loop seen k hs
      else h # (if k \<le> 1 then [] else unique_evidence_loop (insert (evidence_key h) seen) (k - 1) hs))"

definition select_unique_evidence_hits :: "stage_hit list \<Rightarrow> int \<Rightarrow> stage_hit list" where
  "select_unique_evidence_hits hits limit = unique_evidence_loop {} (if limit \<le> 0 then 5 else nat limit) hits"

definition hit_to_evidence :: "stage_hit \<Rightarrow> evidence" where
  "hit_to_evidence h =
     (let c = sh_chunk h; stage = sh_stage h;
          (kind, reason) =
            (if stage = lit ''structured_fact'' then (lit ''structured_fact'', lit ''matched structured document fact'')
             else if stage = lit ''document_profile'' then (lit ''document_profile'', lit ''document profile summary'')
             else if stage = lit ''previous_citation'' then (lit ''previous_citation'', lit ''reused previous cited evidence'')
             else if stage = lit ''rerank'' \<or> stage = lit ''fusion'' then (lit ''chunk'', lit ''ranked as relevant evidence'')
             else (lit ''chunk'', lit ''hybrid retrieval''))
      in \<lparr>ev_chunk_id = ch_id c, ev_page = get_field (ch_metadata c) ''page'', ev_location = chunk_location (ch_metadata c),
          ev_snippet = truncate_runes (ch_content c) 240, ev_score = sh_score h, ev_reason = reason, ev_type = kind\<rparr>)"

text \<open>The last piece of evidence of a chunk.\<close>

definition evidence_of :: "evidence list \<Rightarrow> gostr \<Rightarrow> gostr \<times> gostr" where
  "evidence_of evs i = (case List.find (\<lambda>x. ev_chunk_id x = i) (rev evs) of None \<Rightarrow> ([],
    []) | Some x \<Rightarrow> (ev_reason x, ev_type x))"

definition context_block :: "evidence list \<Rightarrow> nat \<times> stage_hit \<Rightarrow> gostr" where
  "context_block evs ih =
     (let (i, h) = ih; c = sh_chunk h; location = chunk_location (ch_metadata c); reason = fst (evidence_of evs (ch_id c)) in
      lit ''['' @ itoa (int i + 1) @ lit '']'' @ (if location \<noteq> [] then lit '' ('' @ location @ lit '')'' else []) @
      (if reason \<noteq> [] then lit '' {'' @ reason @ lit ''}'' else []) @ lit '' '' @ ch_content c @ [10, 10])"

definition hit_source :: "evidence list \<Rightarrow> nat \<times> stage_hit \<Rightarrow> chat_source" where
  "hit_source evs ih =
     (let (i, h) = ih; c = sh_chunk h; (reason, kind) = evidence_of evs (ch_id c) in
      \<lparr>cs_label = lit ''['' @ itoa (int i + 1) @ lit '']'', cs_location = chunk_location (ch_metadata c),
       cs_snippet = truncate_runes (ch_content c) 240, cs_chunk_id = ch_id c, cs_source_ref = get_field (ch_metadata c) ''source_ref'',
       cs_score = sh_score h, cs_language = get_field (ch_metadata c) ''language'', cs_source_reason = reason, cs_evidence_type = kind\<rparr>)"

definition build_context_with_evidence :: "stage_hit list \<Rightarrow> evidence list \<Rightarrow> gostr \<times> chat_source list" where
  "build_context_with_evidence hits evs =
     (concat (map (context_block evs) (enumerate 0 hits)), map (hit_source evs) (enumerate 0 hits))"

definition sources_to_evidence :: "chat_source list \<Rightarrow> gostr \<Rightarrow> evidence list" where
  "sources_to_evidence sources kind =
     map (\<lambda>s. \<lparr>ev_chunk_id = cs_chunk_id s, ev_page = [], ev_location = cs_location s, ev_snippet = cs_snippet s,
       ev_score = cs_score s,
               ev_reason = first_non_empty [cs_source_reason s, kind], ev_type = first_non_empty [cs_evidence_type s, kind]\<rparr>) sources"

definition selected_chunk_ids :: "evidence list \<Rightarrow> gostr list" where
  "selected_chunk_ids evs = uniq_loop {} (map ev_chunk_id evs)"

section \<open>Checks and prompts\<close>

record validation =
  va_passed :: bool
  va_reason :: gostr

definition validate_evidence_selection :: "query_plan \<Rightarrow> stage_hit list \<Rightarrow> chat_source list \<Rightarrow> bool \<Rightarrow> validation" where
  "validate_evidence_selection plan hits citations abstain =
     (if \<not> abstain then \<lparr>va_passed = True, va_reason = lit ''abstain disabled''\<rparr>
      else if int (length hits) < qp_required plan \<or> int (length citations) < qp_required plan
      then \<lparr>va_passed = False,
            va_reason = [24403, 21069, 38382, 39064, 31867, 22411, 32] @ qp_type plan @ [32, 33267, 23569, 38656, 35201,
              32] @ itoa (qp_required plan) @ [32, 26465, 21487, 24341, 29992, 35777, 25454, 65292, 20294, 21482, 25214, 21040, 32] @
              itoa (int (length citations)) @ [32, 26465]\<rparr>
      else \<lparr>va_passed = True, va_reason = [24050, 36873, 35777, 25454, 28385, 36275, 22238, 31572, 31574, 30053]\<rparr>)"

definition insufficient_words :: gostr where
  "insufficient_words = [35777, 25454, 19981, 36275]"

definition default_abstain_answer :: gostr where
  "default_abstain_answer = insufficient_words @ [65292, 24403, 21069, 26080, 27861, 22522, 20110, 24050, 19978, 20256, 20869, 23481,
    32473, 20986, 21487, 38752, 22238, 31572, 12290]"

definition missing_evidence :: gostr where
  "missing_evidence = [10, 10, 32570, 23569, 35777, 25454, 21407, 22240, 65306]"

definition out_of_scope_abstain_answer :: gostr where
  "out_of_scope_abstain_answer = [24403, 21069, 38382, 39064, 36229, 20986, 24050, 19978, 20256, 20869, 23481, 21644, 24403, 21069, 20250,
    35805, 33539, 22260, 65292, 26080, 27861, 22522, 20110, 20070, 20869, 35777, 25454, 32473, 20986, 21487, 38752, 22238, 31572, 12290]"

definition abstain_answer_for_plan :: "gostr \<Rightarrow> gostr" where
  "abstain_answer_for_plan reason =
     default_abstain_answer @ missing_evidence @ (if trim_space reason = [] then [26410, 25214, 21040, 36275, 22815, 21487, 24341, 29992,
       35777, 25454] else trim_space reason)"

definition answer_requirement_for_plan :: "query_plan \<Rightarrow> gostr" where
  "answer_requirement_for_plan plan =
     (if qp_type plan = lit ''single_fact''
      then [35201, 27714, 65306, 22238, 31572, 21333, 28857, 20107, 23454, 65307, 22914, 26524, 35777, 25454, 20013, 33021, 30452, 25509,
        23450, 20301, 31572, 26696, 65292, 29992, 19968, 21477, 35805, 22238, 31572, 24182, 24341, 29992, 32534, 21495, 65307, 19981,
        35201, 23637, 24320, 26080, 20851, 20869, 23481, 12290]
      else if qp_type plan = lit ''summary''
      then [35201, 27714, 65306, 27010, 25324, 25972, 20221, 25991, 26723, 65307, 24517, 39035, 35206, 30422, 26680, 24515, 23545, 35937,
        12289, 29992, 36884, 21644, 20851, 38190, 26102, 38388, 47, 20107, 23454, 65307, 24341, 29992, 22810, 20010, 30456, 20851, 32534,
        21495, 65307, 19981, 35201, 21482, 24635, 32467, 19968, 20010, 23616, 37096, 29255, 27573, 12290]
      else if qp_type plan = lit ''analysis'' then [35201, 27714, 65306, 21482, 22522, 20110, 22810, 26465, 35777, 25454, 20570, 20998,
        26512, 65307, 35777, 25454, 19981, 36275, 21017, 26126, 30830, 25298, 31572, 24182, 35828, 26126, 32570, 23569, 21738, 31867,
        20381, 25454, 12290]
      else [35201, 27714, 65306, 21482, 22522, 20110, 35777, 25454, 22238, 31572, 65307, 24341, 29992, 30456, 20851, 32534, 21495, 65307,
        35777, 25454, 19981, 36275, 21017, 26126, 30830, 25298, 31572, 12290])"

definition build_structured_answer_prompt :: "book \<Rightarrow> query_plan \<Rightarrow> gostr \<Rightarrow> gostr \<Rightarrow> gostr \<Rightarrow> gostr" where
  "build_structured_answer_prompt b plan history_text context_text requirement =
     [25991, 26723, 26631, 39064, 65306] @ first_non_empty [bo_title b, bo_original_filename b] @
     (if trim_space (bo_document_type b) \<noteq> [] then [10, 25991, 26723, 31867, 22411,
       65306] @ readable_document_type (bo_document_type b) else []) @
     (if trim_space (bo_document_summary b) \<noteq> [] then [10, 25991, 26723, 25688, 35201, 65306] @ bo_document_summary b else []) @
     [10, 10, 21407, 22987, 38382, 39064, 65306] @ qp_original plan @ [10, 29420, 31435, 26816, 32034, 38382, 39064,
       65306] @ qp_standalone plan @ [10, 38382, 39064, 31867, 22411, 65306] @ qp_type plan @
     (if history_text \<noteq> [] then [10, 10, 26368, 36817, 23545, 35805, 65306, 10] @ history_text else []) @ [10, 10, 36873, 20013,
       35777, 25454, 65306, 10] @ context_text @ [10] @ requirement"

text \<open>\<open>Validate\<close>: an answer must share words with what it cites, unless it says that there is no evidence.\<close>

definition says_insufficient :: "unicode \<Rightarrow> gostr \<Rightarrow> bool" where
  "says_insufficient u answer \<longleftrightarrow>
     str_contains answer insufficient_words \<or> str_contains (to_lower (un_lower u) answer) (lit ''insufficient'')"

definition validation_token_overlap :: "gostr list \<Rightarrow> gostr list \<Rightarrow> real" where
  "validation_token_overlap left right =
     (let right_set = uniq_loop {} right; seen = uniq_loop {} left in
      if left = [] \<or> right = [] \<or> right_set = [] \<or> seen = [] then 0
      else real (length (filter (\<lambda>t. t \<in> set right_set) seen)) / real (length seen))"

definition validate_grounding :: "unicode \<Rightarrow> gostr \<Rightarrow> gostr \<Rightarrow> chat_source list \<Rightarrow> bool" where
  "validate_grounding u question answer0 citations \<longleftrightarrow>
     (let answer = trim_space answer0; language = detect_language u (question @ [10] @ answer) in
      if answer = [] then False
      else if says_insufficient u answer then True
      else if citations = [] then False
      else 8 / 100 \<le> validation_token_overlap (tokenize u answer language)
                        (concat (map (\<lambda>c. tokenize u (cs_snippet c) language) citations)))"

end
