(* ===== verification/ChatApp.thy ===== *)
theory ChatApp
  imports ChatPlan BookServer
begin

text \<open>
  The chat service (\<open>backend/services/chat/internal/app/app.go\<close>, \<open>idempotency.go\<close>,
    and the parts of \<open>overview.go\<close> and
  \<open>expert_pipeline.go\<close> that read the database): a question is answered from the history, from the first chunks of the
  document or from retrieved evidence, and the exchange is stored with the idempotency record of the request.  The state
  is the database and what was streamed to the client; the rest of the world is the environment of the request.  The
  history limit is far from the bounds of \<open>int\<close>.
\<close>

section \<open>State\<close>

record chat_app =
  ca_db :: "tables db"
  ca_sent :: "gostr list"                              \<comment> \<open>streamed to the client\<close>

type_synonym 'a chat_op = "chat_app \<Rightarrow> (app_err + 'a) \<times> chat_app"

definition chat_tabs :: "chat_app \<Rightarrow> tables" where
  "chat_tabs a = fst (ca_db a)"

definition chat_call :: "'a op \<Rightarrow> 'a chat_op" where
  "chat_call f a =
     (let (r, d) = db_call f (ca_db a) in (case r of Inl e \<Rightarrow> Inl (ErrDb e) | Inr x \<Rightarrow> Inr x, a\<lparr>ca_db := d\<rparr>))"

definition wrap_error :: "string \<Rightarrow> 'a chat_op \<Rightarrow> 'a chat_op" where
  "wrap_error what m a = (case m a of (Inl e, a1) \<Rightarrow> (Inl (ErrWrap (lit what) e), a1) | (Inr x, a1) \<Rightarrow> (Inr x, a1))"

definition chat_forbidden :: app_err where "chat_forbidden = ErrText (lit ''forbidden'')"
definition book_not_ready :: app_err where "book_not_ready = ErrText (lit ''book not ready'')"
definition conversation_not_found :: app_err where "conversation_not_found = ErrText (lit ''conversation not found'')"
definition conversation_forbidden :: app_err where "conversation_forbidden = ErrText (lit ''conversation forbidden'')"

record answer_trace =
  at_plan :: query_plan
  at_evidence :: "evidence list"
  at_validation :: validation

record chat_answer =
  an_conversation :: conversation
  an_question :: gostr
  an_answer :: gostr
  an_citations :: "chat_source list"
  an_abstained :: bool
  an_created_at :: gotime
  an_debug :: "retrieval_debug option"

text \<open>The JSON codecs and the hash of the service; a request has an environment of its own.\<close>

record chat_codec =
  cx_sha :: "gostr \<Rightarrow> gostr"
  cx_write_answer :: "chat_answer \<Rightarrow> gostr + gostr"
  cx_read_answer :: "gostr \<Rightarrow> gostr + chat_answer"
  cx_write_sources :: "chat_source list \<Rightarrow> gostr"
  cx_write_question :: "query_plan \<Rightarrow> gostr"           \<comment> \<open>the metadata of a question\<close>
  cx_write_trace :: "answer_trace \<Rightarrow> doc_entity list \<Rightarrow> gostr list \<Rightarrow> gostr"

text \<open>A question; a streaming client may refuse a chunk.\<close>

record chat_request =
  cr_user :: auth_user
  cr_book :: book
  cr_question :: gostr
  cr_conversation_id :: gostr
  cr_key :: gostr
  cr_debug :: bool
  cr_stream :: "(gostr \<Rightarrow> bool) option"
  cr_now :: gotime
  cr_new_record :: gostr
  cr_new_conversation :: gostr
  cr_new_messages :: "gostr \<times> gostr"

section \<open>Conversations\<close>

text \<open>Loading a conversation for a user, which five operations begin with.\<close>

definition own_conversation :: "auth_user \<Rightarrow> gostr \<Rightarrow> conversation chat_op" where
  "own_conversation user cid =
     andthen (wrap_error ''load conversation'' (chat_call (get_conversation cid))) (\<lambda>r.
       case r of
         None \<Rightarrow> fail_with conversation_not_found
       | Some c \<Rightarrow> if co_user_id c \<noteq> au_id user \<and> \<not> au_admin user then fail_with conversation_forbidden else done_with c)"

definition chat_list_conversations :: "auth_user \<Rightarrow> int \<Rightarrow> conversation list chat_op" where
  "chat_list_conversations user limit =
     (if trim_space (au_id user) = [] then fail_with (ErrText (lit ''user id required''))
      else wrap_error ''list conversations''
        (chat_call (list_conversations_by_user (au_id user) (if limit \<le> 0 \<or> 100 < limit then 30 else limit))))"

definition conversation_id_required :: app_err where
  "conversation_id_required = ErrText (lit ''conversation id required'')"

definition rename_conversation :: "gotime \<Rightarrow> auth_user \<Rightarrow> gostr \<Rightarrow> gostr \<Rightarrow> conversation chat_op" where
  "rename_conversation now user cid0 title0 =
     (let cid = trim_space cid0; title = take 80 (join (str_fields (trim_space title0)) (lit '' '')) in
      if cid = [] then fail_with conversation_id_required
      else if trim_space title0 = [] then fail_with (ErrText (lit ''conversation title required''))
      else andthen (own_conversation user cid) (\<lambda>c.
           andthen (wrap_error ''rename conversation'' (chat_call (update_conversation now cid title zero_time))) (\<lambda>_.
           done_with (c\<lparr>co_title := title, co_updated_at := now\<rparr>))))"

definition chat_delete_conversation :: "auth_user \<Rightarrow> gostr \<Rightarrow> unit chat_op" where
  "chat_delete_conversation user cid0 =
     (let cid = trim_space cid0 in
      if cid = [] then fail_with conversation_id_required
      else andthen (own_conversation user cid) (\<lambda>_. wrap_error ''delete conversation'' (chat_call (delete_conversation cid))))"

definition get_conversation_book_id :: "auth_user \<Rightarrow> gostr \<Rightarrow> gostr chat_op" where
  "get_conversation_book_id user cid0 =
     (let cid = trim_space cid0 in
      if cid = [] then fail_with conversation_id_required
      else andthen (own_conversation user cid) (\<lambda>c. done_with (co_book_id c)))"

definition chat_list_messages :: "auth_user \<Rightarrow> gostr \<Rightarrow> int \<Rightarrow> message list chat_op" where
  "chat_list_messages user cid0 limit =
     (let cid = trim_space cid0 in
      if cid = [] then fail_with conversation_id_required
      else andthen (own_conversation user cid) (\<lambda>_.
           wrap_error ''list conversation messages''
             (chat_call (list_conversation_messages cid (if limit \<le> 0 \<or> 500 < limit then 200 else limit)))))"

definition ensure_conversation :: "chat_request \<Rightarrow> (conversation \<times> bool) chat_op" where
  "ensure_conversation r =
     (let cid = trim_space (cr_conversation_id r); now = cr_now r in
      if cid \<noteq> [] then andthen (own_conversation (cr_user r) cid) (\<lambda>c. done_with (c, False))
      else done_with
        (\<lparr>co_id = cr_new_conversation r, co_user_id = au_id (cr_user r), co_book_id = bo_id (cr_book r),
          co_title = generate_conversation_title (cr_question r), co_last_message_at = Some now, co_created_at = now,
          co_updated_at = now\<rparr>, True))"

section \<open>Idempotency\<close>

datatype chat_begun = ChatBegun "idem_record option" | ChatReplayed chat_answer

definition chat_scope :: gostr where "chat_scope = lit ''chat.ask''"

definition replay_answer :: "chat_codec \<Rightarrow> idem_record \<Rightarrow> chat_begun chat_op" where
  "replay_answer x record =
     (if ir_response record = [] then fail_with (ErrText (lit ''idempotent response not found''))
      else case cx_read_answer x (ir_response record) of Inl er \<Rightarrow> fail_with (ErrText er) | Inr an \<Rightarrow> done_with (ChatReplayed an))"

definition chat_request_hash :: "chat_codec \<Rightarrow> chat_request \<Rightarrow> gostr" where
  "chat_request_hash x r =
     hash_strings (cx_sha x) [trim_space (bo_id (cr_book r)), trim_space (cr_conversation_id r), trim_space (cr_question r)]"

text \<open>A new record; when it cannot be saved, another request may have saved one.\<close>

definition started_record :: "chat_codec \<Rightarrow> chat_request \<Rightarrow> idem_record" where
  "started_record x r =
     \<lparr>ir_id = cr_new_record r, ir_scope = chat_scope, ir_actor_id = trim_space (au_id (cr_user r)), ir_key = trim_space (cr_key r),
      ir_request_hash = chat_request_hash x r, ir_resource_type = [], ir_resource_id = [], ir_status_code = 0,
      ir_state = IdemProcessing, ir_response = [], ir_created_at = cr_now r, ir_updated_at = cr_now r\<rparr>"

definition start_chat_record :: "chat_codec \<Rightarrow> chat_request \<Rightarrow> chat_begun chat_op" where
  "start_chat_record x r a =
     (case chat_call (save_idempotency_record (started_record x r)) a of
        (Inr _, a1) \<Rightarrow> (Inr (ChatBegun (Some (started_record x r))), a1)
      | (Inl e, a1) \<Rightarrow>
          (case chat_call (get_idempotency_record chat_scope (au_id (cr_user r)) (trim_space (cr_key r))) a1 of
             (Inl _, a2) \<Rightarrow> (Inl e, a2)
           | (Inr None, a2) \<Rightarrow> (Inl e, a2)
           | (Inr (Some current), a2) \<Rightarrow>
               if ir_request_hash current \<noteq> chat_request_hash x r then (Inl different_request, a2)
               else if ir_state current = IdemCompleted then replay_answer x current a2
               else (Inl in_progress, a2)))"

definition begin_chat_idempotency :: "chat_codec \<Rightarrow> chat_request \<Rightarrow> chat_begun chat_op" where
  "begin_chat_idempotency x r =
     (let key = trim_space (cr_key r) in
      if key = [] then done_with (ChatBegun None)
      else andthen (chat_call (get_idempotency_record chat_scope (trim_space (au_id (cr_user r))) key)) (\<lambda>found.
        case found of
          None \<Rightarrow> start_chat_record x r
        | Some record \<Rightarrow>
            if ir_request_hash record \<noteq> chat_request_hash x r then fail_with different_request
            else case ir_state record of
                   IdemCompleted \<Rightarrow> replay_answer x record
                 | IdemProcessing \<Rightarrow> fail_with in_progress
                 | IdemFailed \<Rightarrow>
                     (let record' = record\<lparr>ir_state := IdemProcessing, ir_status_code := 0, ir_resource_id := [],
                                          ir_resource_type := [], ir_response := [], ir_updated_at := cr_now r\<rparr>
                      in andthen (chat_call (save_idempotency_record record')) (\<lambda>_. done_with (ChatBegun (Some record'))))))"

section \<open>The text of an answer\<close>

text \<open>The chunks that a client takes, and whether it took all of them.\<close>

fun deliver :: "(gostr \<Rightarrow> bool) \<Rightarrow> gostr list \<Rightarrow> gostr list \<times> bool" where
  "deliver ok [] = ([], True)"
| "deliver ok (c # cs) = (if ok c then (let (sent, fine) = deliver ok cs in (c # sent, fine)) else ([], False))"

definition client_gone :: gostr where "client_gone = lit ''client gone''"

definition generate_answer_text ::
  "chat_env \<Rightarrow> (gostr \<Rightarrow> bool) option \<Rightarrow> gostr \<Rightarrow> gostr \<Rightarrow> chat_app \<Rightarrow> (gostr + gostr) \<times> chat_app" where
  "generate_answer_text e stream system_prompt user_prompt a =
     (case (stream, cn_stream e) of
        (Some ok, Some gen) \<Rightarrow>
          (let (chunks, result) = gen system_prompt user_prompt; (sent, fine) = deliver ok chunks
           in (if fine then result else Inl client_gone, a\<lparr>ca_sent := ca_sent a @ sent\<rparr>))
      | _ \<Rightarrow>
          (case cn_generate e system_prompt user_prompt of
             Inl er \<Rightarrow> (Inl er, a)
           | Inr out \<Rightarrow>
               (let t = trim_space out in
                case stream of
                  None \<Rightarrow> (Inr t, a)
                | Some ok \<Rightarrow>
                    (if t = [] then (Inr t, a)
                     else if ok t then (Inr t, a\<lparr>ca_sent := ca_sent a @ [t]\<rparr>) else (Inl client_gone, a)))))"

text \<open>What a route makes of a question.\<close>

record outcome =
  oc_answer :: gostr
  oc_citations :: "chat_source list"
  oc_abstained :: bool
  oc_trace :: answer_trace
  oc_debug :: "retrieval_debug option"

definition validation_reason :: "bool \<Rightarrow> string \<Rightarrow> gostr" where
  "validation_reason abstained success = (if abstained then lit ''answer abstained'' else lit success)"

definition history_outcome :: "query_plan \<Rightarrow> gostr \<Rightarrow> chat_source list \<Rightarrow> bool \<Rightarrow> outcome" where
  "history_outcome plan answer citations abstained =
     \<lparr>oc_answer = answer, oc_citations = citations, oc_abstained = abstained,
      oc_trace = \<lparr>at_plan = plan, at_evidence = [],
        at_validation = \<lparr>va_passed = (\<not> abstained), va_reason = validation_reason abstained ''history only answer''\<rparr>\<rparr>,
      oc_debug = None\<rparr>"

definition history_prompts :: "bool \<Rightarrow> book \<Rightarrow> gostr \<Rightarrow> gostr \<Rightarrow> gostr \<times> gostr" where
  "history_prompts abstain b question history_text =
     ((if abstain then [20320, 26159, 19968, 20010, 24310, 32493, 24403, 21069, 20250, 35805, 19978, 19979, 25991, 30340, 35835, 20070,
       21161, 25163, 12290, 21482, 20351, 29992, 32473, 23450, 23545, 35805, 21382, 21490, 65292, 19981, 35201, 34394, 26500, 26032, 30340,
       20107, 23454, 12290]
       else [20320, 26159, 19968, 20010, 24310, 32493, 24403, 21069, 20250, 35805, 19978, 19979, 25991, 30340, 35835, 20070, 21161, 25163,
         12290, 21482, 20351, 29992, 32473, 23450, 23545, 35805, 21382, 21490, 65292, 19981, 35201, 34394, 26500, 26032, 30340, 20107,
         23454, 65307, 22312, 20449, 24687, 19981, 36275, 26102, 21487, 20197, 32473, 20986, 35880, 24910, 22238, 31572, 65292, 20294,
         35201, 26126, 30830, 19981, 30830, 23450, 24615, 12290]),
      [20070, 21517, 65306] @ bo_title b @ [10, 23545, 35805, 21382, 21490, 65306, 10] @ history_text @ [10, 10, 24403, 21069, 38382,
        39064, 65306] @ question @ [10, 10] @
      (if abstain then [35201, 27714, 65306, 21482, 22522, 20110, 24403, 21069, 23545, 35805, 21382, 21490, 32487, 32493, 22238, 31572,
        65292, 19981, 35201, 24341, 20837, 23545, 35805, 22806, 30693, 35782, 65307, 22914, 26524, 21382, 21490, 19981, 36275, 20197,
        25903, 25745, 22238, 31572, 65292, 23601, 26126, 30830, 35828, 26126, 35777, 25454, 19981, 36275, 12290]
       else [35201, 27714, 65306, 21482, 22522, 20110, 24403, 21069, 23545, 35805, 21382, 21490, 32487, 32493, 22238, 31572, 65292, 19981,
         35201, 24341, 20837, 23545, 35805, 22806, 30693, 35782, 65307, 22914, 26524, 21382, 21490, 19981, 36275, 65292, 20063, 21487,
         20197, 32473, 20986, 35880, 24910, 30340, 26368, 20339, 21162, 21147, 22238, 31572, 65292, 24182, 26126, 30830, 35828, 26126,
         19981, 30830, 23450, 24615, 12290]))"

definition answer_from_history ::
  "chat_env \<Rightarrow> chat_request \<Rightarrow> query_plan \<Rightarrow> message list \<Rightarrow> outcome chat_op" where
  "answer_from_history e r plan history a =
     (let abstain = cc_abstain (cn_config e); history_text = build_history (cn_unicode e) history;
          refused = history_outcome plan default_abstain_answer [] True
      in if trim_space history_text = [] then (Inr refused, a)
         else
           let (system_prompt, user_prompt) = history_prompts abstain (cr_book r) (cr_question r) history_text in
           case generate_answer_text e (cr_stream r) system_prompt user_prompt a of
             (g, a1) \<Rightarrow>
               (case (g, cr_stream r) of
                  (Inl er, Some _) \<Rightarrow> (Inl (ErrText er), a1)
                | _ \<Rightarrow>
                    (let answer = (case g of Inl _ \<Rightarrow> default_abstain_answer | Inr t \<Rightarrow> trim_space t) in
                     if trim_space answer = [] \<or> (abstain \<and> says_insufficient (cn_unicode e) answer) then (Inr refused, a1)
                     else (Inr (history_outcome plan answer (latest_assistant_sources (cn_unicode e) (cn_sources e) history) False), a1))))"

definition overview_outcome :: "query_plan \<Rightarrow> gostr \<Rightarrow> chat_source list \<Rightarrow> bool \<Rightarrow> outcome" where
  "overview_outcome plan answer citations abstained =
     \<lparr>oc_answer = answer, oc_citations = citations, oc_abstained = abstained,
      oc_trace = \<lparr>at_plan = plan, at_evidence = sources_to_evidence citations (lit ''document_overview''),
        at_validation = \<lparr>va_passed = (\<not> abstained), va_reason = validation_reason abstained ''document overview answer''\<rparr>\<rparr>,
      oc_debug = None\<rparr>"

definition overview_system_prompt :: gostr where
  "overview_system_prompt = [20320, 26159, 19968, 20010, 25991, 26723, 27010, 35272, 21161, 25163, 12290, 21482, 26681, 25454, 32473,
    23450, 30340, 25991, 20214, 20449, 24687, 21644, 39318, 39029, 47, 24320, 22836, 20869, 23481, 21028, 26029, 25991, 26723, 26159,
    20160, 20040, 65292, 24182, 29992, 31616, 27905, 20013, 25991, 22238, 31572, 12290]"

definition overview_user_prompt :: "book \<Rightarrow> gostr \<Rightarrow> chunk list \<Rightarrow> gostr" where
  "overview_user_prompt b question cs =
     [29992, 25143, 38382, 39064, 65306] @ question @ [10, 10, 25991, 26723, 20449, 24687, 65306, 10] @ build_document_overview_context b cs @
     [10, 10, 35201, 27714, 65306, 22238, 31572, 36825, 20221, 25991, 26723, 26159, 20160, 20040, 12289, 26680, 24515, 29992, 36884, 26159,
       20160, 20040, 65307, 22914, 26524, 33021, 21028, 26029, 25991, 26723, 31867, 22411, 65292, 20808, 35828, 31867, 22411, 65307, 24341,
       29992, 35777, 25454, 32534, 21495, 12290]"

text \<open>A streaming client gets the answer that is made without the model.\<close>

definition answer_document_overview :: "chat_env \<Rightarrow> chat_request \<Rightarrow> query_plan \<Rightarrow> outcome chat_op" where
  "answer_document_overview e r plan =
     (let b = cr_book r; u = cn_unicode e in
      andthen (wrap_error ''load document overview chunks'' (chat_call (list_chunks_by_book (bo_id b)))) (\<lambda>chunks a.
        let cs = select_overview_chunks chunks 4; citations = build_overview_sources b cs;
            fallback = fallback_document_overview_answer u b cs
        in if citations = [] \<and> trim_space (bo_document_summary b) = [] \<and> trim_space (bo_original_filename b) = [] \<and>
              trim_space (bo_title b) = []
           then (Inr (overview_outcome plan default_abstain_answer [] True), a)
           else case cr_stream r of
             Some ok \<Rightarrow>
               (if ok fallback then (Inr (overview_outcome plan fallback citations False), a\<lparr>ca_sent := ca_sent a @ [fallback]\<rparr>)
                else (Inl (ErrText client_gone), a))
           | None \<Rightarrow>
               (let answer = (case cn_generate e overview_system_prompt (overview_user_prompt b (cr_question r) cs) of
                                Inl _ \<Rightarrow> [] | Inr t \<Rightarrow> trim_space t)
                in (Inr (overview_outcome plan (if answer = [] \<or> says_insufficient u answer then fallback else answer) citations False), a))))"

definition reject_out_of_scope :: "query_plan \<Rightarrow> outcome" where
  "reject_out_of_scope plan =
     \<lparr>oc_answer = out_of_scope_abstain_answer @ [10, 10, 32570, 23569, 35777, 25454, 21407, 22240, 65306, 36825, 20010, 38382,
       39064, 36229, 20986, 24403, 21069, 19978, 20256, 25991, 26723, 21644, 20250, 35805, 19978, 19979, 25991, 12290], oc_citations = [],
      oc_abstained = True,
      oc_trace = \<lparr>at_plan = plan, at_evidence = [], at_validation = \<lparr>va_passed = False,
        va_reason = lit ''out of scope''\<rparr>\<rparr>,
      oc_debug = None\<rparr>"

section \<open>Answers from evidence\<close>

definition fact_backed_hits :: "chat_env \<Rightarrow> book \<Rightarrow> query_plan \<Rightarrow> stage_hit list chat_op" where
  "fact_backed_hits e b plan =
     (let keys = fact_question_keys (cn_unicode e) plan in
      if keys = [] \<or> bo_facts b = [] then done_with []
      else andthen (chat_call (list_chunks_by_book (bo_id b))) (\<lambda>cs. done_with (fact_hits keys b cs)))"

definition reused_hits :: "query_plan \<Rightarrow> stage_hit list chat_op" where
  "reused_hits plan =
     (if qp_reuse plan = [] then done_with []
      else andthen (chat_call (get_chunks_by_ids (qp_reuse plan))) (\<lambda>cs.
           done_with (map (chunk_hit (lit ''previous_citation'') (105 / 100)) cs)))"

definition select_evidence :: "chat_env \<Rightarrow> book \<Rightarrow> query_plan \<Rightarrow> stage_hit list \<Rightarrow> (stage_hit list \<times> evidence list) chat_op" where
  "select_evidence e b plan retrieved =
     andthen (reused_hits plan) (\<lambda>reused.
     andthen (if qp_type plan = lit ''single_fact'' then fact_backed_hits e b plan else done_with []) (\<lambda>facts.
       let candidates = facts @ (if qp_type plan = lit ''summary'' then document_profile_hit b else []) @ retrieved @ reused;
           selected = select_unique_evidence_hits candidates (cc_top_k (cn_config e))
       in done_with (selected, map hit_to_evidence selected)))"

definition evidence_prompts :: "bool \<Rightarrow> book \<Rightarrow> query_plan \<Rightarrow> gostr \<Rightarrow> gostr \<Rightarrow> gostr \<times> gostr" where
  "evidence_prompts abstain b plan history_text context_text =
     (if abstain
      then ([20320, 26159, 19968, 20010, 20005, 26684, 22522, 20110, 35777, 25454, 22238, 31572, 30340, 25991, 26723, 19987, 23478, 12290,
        19981, 35201, 20351, 29992, 35777, 25454, 22806, 30693, 35782, 12290, 27599, 20010, 32467, 35770, 37117, 24517, 39035, 21487,
        30001, 25552, 20379, 35777, 25454, 25903, 25345, 65307, 24341, 29992, 30456, 20851, 32534, 21495, 12290],
            build_structured_answer_prompt b plan history_text context_text (answer_requirement_for_plan plan))
      else ([20320, 26159, 19968, 20010, 20248, 20808, 22522, 20110, 35777, 25454, 22238, 31572, 30340, 35835, 20070, 21161, 25163, 12290,
        21487, 20197, 22312, 35777, 25454, 19981, 36275, 26102, 32473, 20986, 35880, 24910, 30340, 26368, 20339, 21162, 21147, 22238,
        31572, 65292, 20294, 24517, 39035, 26126, 30830, 19981, 30830, 23450, 24615, 65292, 19988, 19981, 35201, 34394, 26500, 24341,
        29992, 25110, 25226, 35777, 25454, 22806, 20449, 24687, 35828, 25104, 30830, 23450, 20107, 23454, 12290],
            build_structured_answer_prompt b plan history_text context_text
              [35201, 27714, 65306, 20248, 20808, 22522, 20110, 35777, 25454, 22238, 31572, 65307, 24341, 29992, 30456, 20851, 32534,
                21495, 65307, 35777, 25454, 19981, 36275, 26102, 21487, 20197, 32473, 20986, 35880, 24910, 30340, 26368, 20339, 21162,
                21147, 22238, 31572, 65292, 24182, 26126, 30830, 35828, 26126, 19981, 30830, 23450, 24615, 65292, 20294, 19981, 35201,
                32534, 36896, 24341, 29992, 12290]))"

definition enrich_retrieval_debug :: "retrieval_debug \<Rightarrow> answer_trace \<Rightarrow> retrieval_debug" where
  "enrich_retrieval_debug d tr =
     d\<lparr>rd_plan := Some (at_plan tr), rd_evidence := at_evidence tr, rd_selected := selected_chunk_ids (at_evidence tr),
       rd_reason := va_reason (at_validation tr),
       rd_queries := (if qp_queries (at_plan tr) \<noteq> [] then qp_queries (at_plan tr) else rd_queries d)\<rparr>"

definition evidence_outcome ::
  "query_plan \<Rightarrow> retrieval_debug \<Rightarrow> gostr \<Rightarrow> chat_source list \<Rightarrow> bool \<Rightarrow> evidence list \<Rightarrow> validation \<Rightarrow> outcome" where
  "evidence_outcome plan d answer citations abstained evs v0 =
     (let v = (if \<not> abstained \<and> va_reason v0 = []
               then \<lparr>va_passed = True, va_reason = lit ''selected evidence satisfies answer policy''\<rparr> else v0);
          tr = \<lparr>at_plan = plan, at_evidence = evs, at_validation = v\<rparr>
      in \<lparr>oc_answer = answer, oc_citations = citations, oc_abstained = abstained, oc_trace = tr,
          oc_debug = Some (enrich_retrieval_debug d tr)\<rparr>)"

definition no_usable_answer :: validation where
  "no_usable_answer = \<lparr>va_passed = False, va_reason = [27169, 22411, 27809, 26377, 29983, 25104, 21487, 29992, 22238, 31572]\<rparr>"

definition not_grounded :: validation where
  "not_grounded = \<lparr>va_passed = False, va_reason = [22238, 31572, 27809, 26377, 20805, 20998, 32465, 23450, 21040, 24050, 36873,
    35777, 25454]\<rparr>"

text \<open>The checks of a text that the model wrote, or of the refusal that stands in for it.\<close>

definition conclude ::
  "chat_env \<Rightarrow> query_plan \<Rightarrow> retrieval_debug \<Rightarrow> gostr \<Rightarrow> gostr \<Rightarrow> chat_source list \<Rightarrow> evidence list \<Rightarrow> validation \<Rightarrow> outcome" where
  "conclude e plan d question answer citations evs v =
     (if trim_space answer = []
      then evidence_outcome plan d (abstain_answer_for_plan (va_reason no_usable_answer)) citations True evs no_usable_answer
      else if cc_abstain (cn_config e) \<and> \<not> validate_grounding (cn_unicode e) question answer citations
      then evidence_outcome plan d (abstain_answer_for_plan (va_reason not_grounded)) [] True [] not_grounded
      else evidence_outcome plan d answer citations False evs v)"

definition answer_from_evidence :: "chat_env \<Rightarrow> chat_request \<Rightarrow> query_plan \<Rightarrow> message list \<Rightarrow> outcome chat_op" where
  "answer_from_evidence e r plan history a0 =
     (let (retrieved, d) = retrieve_evidence_for_plan e (cr_book r) (chat_tabs a0) plan in
      andthen (select_evidence e (cr_book r) plan retrieved) (\<lambda>(selected, evs) a.
        let abstain = cc_abstain (cn_config e);
            (context_text, citations) = build_context_with_evidence selected evs;
            v = validate_evidence_selection plan selected citations abstain;
            refusal = abstain_answer_for_plan (va_reason v)
        in if \<not> va_passed v then (Inr (evidence_outcome plan d refusal citations True evs v), a)
           else
             let (system_prompt, user_prompt) =
                   evidence_prompts abstain (cr_book r) plan (build_history (cn_unicode e) history) context_text in
             case generate_answer_text e (cr_stream r) system_prompt user_prompt a of
               (g, a1) \<Rightarrow>
                 (case (g, cr_stream r) of
                    (Inl er, Some _) \<Rightarrow> (Inl (ErrText er), a1)
                  | _ \<Rightarrow>
                      (Inr (conclude e plan d (cr_question r) (case g of Inl _ \<Rightarrow> refusal | Inr t \<Rightarrow> trim_space t) citations evs v),
                       a1))) a0)"

section \<open>A question\<close>

definition answer_by_route :: "chat_env \<Rightarrow> chat_request \<Rightarrow> message list \<Rightarrow> outcome chat_op" where
  "answer_by_route e r history =
     (let plan = build_query_plan e (cr_book r) (cr_question r) history in
      case qp_route plan of
        RouteHistoryOnly \<Rightarrow> answer_from_history e r plan history
      | RouteDocumentOverview \<Rightarrow> answer_document_overview e r plan
      | RouteOutOfScopeReject \<Rightarrow>
          (if cc_abstain (cn_config e) then done_with (reject_out_of_scope plan) else answer_from_evidence e r plan history)
      | RouteRag \<Rightarrow> answer_from_evidence e r plan history)"

definition load_history :: "chat_env \<Rightarrow> conversation \<Rightarrow> message list chat_op" where
  "load_history e c =
     (let limit = cc_history_limit (cn_config e) in
      if 0 < limit then wrap_error ''load history'' (chat_call (list_conversation_messages (co_id c) (limit * 2))) else done_with [])"

definition answer_of :: "chat_request \<Rightarrow> conversation \<Rightarrow> outcome \<Rightarrow> chat_answer" where
  "answer_of r c oc =
     \<lparr>an_conversation = c\<lparr>co_last_message_at := Some (cr_now r), co_updated_at := cr_now r\<rparr>, an_question = cr_question r,
      an_answer = oc_answer oc, an_citations = oc_citations oc, an_abstained = oc_abstained oc, an_created_at = cr_now r,
      an_debug = (if cr_debug r then oc_debug oc else None)\<rparr>"

definition user_message :: "chat_codec \<Rightarrow> chat_request \<Rightarrow> conversation \<Rightarrow> outcome \<Rightarrow> message" where
  "user_message x r c oc =
     \<lparr>me_id = fst (cr_new_messages r), me_conversation_id = co_id c, me_user_id = au_id (cr_user r), me_book_id = bo_id (cr_book r),
      me_role = lit ''user'', me_content = cr_question r, me_sources = cx_write_sources x [],
      me_metadata = cx_write_question x (at_plan (oc_trace oc)), me_created_at = cr_now r\<rparr>"

definition assistant_message :: "chat_codec \<Rightarrow> chat_request \<Rightarrow> conversation \<Rightarrow> outcome \<Rightarrow> message" where
  "assistant_message x r c oc =
     \<lparr>me_id = snd (cr_new_messages r), me_conversation_id = co_id c, me_user_id = au_id (cr_user r), me_book_id = bo_id (cr_book r),
      me_role = lit ''assistant'', me_content = oc_answer oc, me_sources = cx_write_sources x (oc_citations oc),
      me_metadata = cx_write_trace x (oc_trace oc) (bo_entities (cr_book r)) (selected_chunk_ids (at_evidence (oc_trace oc))),
      me_created_at = cr_now r\<rparr>"

definition save_exchange ::
  "chat_codec \<Rightarrow> chat_request \<Rightarrow> idem_record option \<Rightarrow> conversation \<times> bool \<Rightarrow> outcome \<Rightarrow> chat_answer chat_op" where
  "save_exchange x r record cc oc =
     (let (c, create) = cc; an = answer_of r c oc;
          save = (\<lambda>rec. andthen (wrap_error ''save conversation exchange'' (chat_call
                   (save_conversation_exchange (cr_now r) c create (user_message x r c oc) (assistant_message x r c oc) rec)))
                   (\<lambda>_. done_with an))
      in case record of
           None \<Rightarrow> save None
         | Some rc \<Rightarrow>
             if trim_space (ir_id rc) = [] then save None
             else case cx_write_answer x an of
               Inl er \<Rightarrow> fail_with (ErrWrap (lit ''marshal chat response'') (ErrText er))
             | Inr js \<Rightarrow> save (Some ((completed_record (cr_now r) (lit ''conversation'') (co_id c) 200 rc)\<lparr>ir_response := js\<rparr>)))"

text \<open>The answer, and whether it is the answer of an earlier request.\<close>

definition ask_question :: "chat_codec \<Rightarrow> chat_env \<Rightarrow> chat_request \<Rightarrow> (chat_answer \<times> bool) chat_op" where
  "ask_question x e r =
     (if bo_owner_id (cr_book r) \<noteq> au_id (cr_user r) \<and> \<not> au_admin (cr_user r) then fail_with chat_forbidden
      else if bo_status (cr_book r) \<noteq> BookReady then fail_with book_not_ready
      else if trim_space (cr_question r) = [] then fail_with (ErrText (lit ''question required''))
      else andthen (begin_chat_idempotency x r) (\<lambda>begun.
        case begun of
          ChatReplayed an \<Rightarrow> done_with (an, True)
        | ChatBegun record \<Rightarrow>
            andthen (ensure_conversation r) (\<lambda>cc.
            andthen (load_history e (fst cc)) (\<lambda>history.
            andthen (answer_by_route e r history) (\<lambda>oc.
            andthen (save_exchange x r record cc oc) (\<lambda>an. done_with (an, False)))))))"

end
