(* ===== verification/ChatFacts.thy ===== *)
theory ChatFacts
  imports ChatApp BookAppFacts
begin

text \<open>What the operations of the chat service do to the tables, whatever fails.\<close>

section \<open>Calls of the store\<close>

lemma chat_call_tabs:
  assumes "\<And>x t'. f (chat_tabs a) = (Inr x, t') \<Longrightarrow> P t'" "P (chat_tabs a)"
  shows "P (chat_tabs (snd (chat_call f a)))"
proof -
  obtain t os where d: "ca_db a = (t, os)" by (cases "ca_db a")
  have "P (fst (snd (db_call f (t, os))))"
    by (rule db_call_inv) (use assms d in \<open>auto simp: chat_tabs_def\<close>)
  moreover obtain r t' os' where "db_call f (t, os) = (r, (t', os'))" by (metis surj_pair)
  ultimately show ?thesis by (simp add: chat_call_def chat_tabs_def d)
qed

lemma chat_call_ok:
  assumes "chat_call f a = (Inr x, a')"
  shows "f (chat_tabs a) = (Inr x, chat_tabs a')"
proof -
  obtain t os where d: "ca_db a = (t, os)" by (cases "ca_db a")
  obtain r t' os' where c: "db_call f (t, os) = (r, (t', os'))" by (metis surj_pair)
  have "r = Inr x" "a' = a\<lparr>ca_db := (t', os')\<rparr>" using assms by (auto simp: chat_call_def d c split: sum.splits)
  then show ?thesis using db_call_result [of f t os x t' os'] c d by (simp add: chat_tabs_def)
qed

lemma wrap_error_snd [simp]: "snd (wrap_error s m a) = snd (m a)"
  by (simp add: wrap_error_def case_prod_beta split: sum.split)

lemma wrap_error_Inr [simp]: "wrap_error s m a = (Inr x, a') \<longleftrightarrow> m a = (Inr x, a')"
  by (auto simp: wrap_error_def split: prod.splits sum.splits)

text \<open>A condition that an operation keeps, on the state or on the tables.\<close>

definition app_keeps :: "(chat_app \<Rightarrow> bool) \<Rightarrow> 'a chat_op \<Rightarrow> bool" where
  "app_keeps P m \<longleftrightarrow> (\<forall>a. P a \<longrightarrow> P (snd (m a)))"

definition chat_keeps :: "(tables \<Rightarrow> bool) \<Rightarrow> 'a chat_op \<Rightarrow> bool" where
  "chat_keeps P m \<longleftrightarrow> (\<forall>a. P (chat_tabs a) \<longrightarrow> P (chat_tabs (snd (m a))))"

lemma chat_app_keeps: "chat_keeps P m = app_keeps (\<lambda>a. P (chat_tabs a)) m"
  by (simp add: chat_keeps_def app_keeps_def)

lemma app_keeps_D: "app_keeps P m \<Longrightarrow> P a \<Longrightarrow> m a = (q, a') \<Longrightarrow> P a'"
  unfolding app_keeps_def by (drule spec [of _ a]) simp

lemma app_keeps_then:
  assumes "app_keeps P m" "\<And>x a a'. P a \<Longrightarrow> m a = (Inr x, a') \<Longrightarrow> app_keeps P (k x)"
  shows "app_keeps P (andthen m k)"
  unfolding app_keeps_def
proof (intro allI impI)
  fix a assume a: "P a"
  obtain r a1 where m: "m a = (r, a1)" by (metis surj_pair)
  then have "P a1" using assms(1) a by (auto simp: app_keeps_def)
  then show "P (snd (andthen m k a))"
    using assms(2) [OF a] m by (cases r) (auto simp: andthen_def app_keeps_def)
qed

lemma app_keeps_simple [simp]: "app_keeps P (done_with x)" "app_keeps P (fail_with er)" "app_keeps P (wrap_error s m) = app_keeps P m"
  by (simp_all add: app_keeps_def done_with_def fail_with_def)

lemma chat_keeps_then:
  "chat_keeps P m \<Longrightarrow> (\<And>x a a'. P (chat_tabs a) \<Longrightarrow> m a = (Inr x, a') \<Longrightarrow> chat_keeps P (k x)) \<Longrightarrow> chat_keeps P (andthen m k)"
  unfolding chat_app_keeps by (rule app_keeps_then) auto

lemma chat_keeps_simple [simp]: "chat_keeps P (done_with x)" "chat_keeps P (fail_with er)"
  by (simp_all add: chat_keeps_def done_with_def fail_with_def)

lemma chat_keeps_wrap [simp]: "chat_keeps P (wrap_error s m) = chat_keeps P m"
  by (simp add: chat_keeps_def)

lemma chat_keeps_call: "(\<And>x t t'. P t \<Longrightarrow> f t = (Inr x, t') \<Longrightarrow> P t') \<Longrightarrow> chat_keeps P (chat_call f)"
  unfolding chat_keeps_def by (blast intro: chat_call_tabs)

lemma query_get [simp]: "snd (get_conversation cid t) = t" "snd (list_conversations_by_user uid n t) = t"
  "snd (list_conversation_messages cid n t) = t" "snd (get_idempotency_record s u k t) = t" "snd (list_chunks_by_book bid t) = t"
  "snd (get_chunks_by_ids ids t) = t"
  by (simp_all add: get_conversation_def list_conversations_by_user_def list_conversation_messages_def get_idempotency_record_def
      list_chunks_by_book_def get_chunks_by_ids_def Let_def)

lemma chat_keeps_query: "(\<And>t. snd (f t) = t) \<Longrightarrow> chat_keeps P (chat_call f)"
  by (rule chat_keeps_call) (metis snd_conv)

text \<open>The answers are made without writing: they read chunks and send text to the client.\<close>

definition reading :: "(chat_app \<Rightarrow> bool) \<Rightarrow> bool" where
  "reading P \<longleftrightarrow> (\<forall>a s. P a \<longrightarrow> P (a\<lparr>ca_sent := s\<rparr>)) \<and>
     (\<forall>f :: chunk list op. (\<forall>t. snd (f t) = t) \<longrightarrow> app_keeps P (chat_call f))"

lemma reading_query: "reading P \<Longrightarrow> app_keeps P (chat_call (list_chunks_by_book bid))" "reading P \<Longrightarrow> app_keeps P (chat_call (get_chunks_by_ids ids))"
  by (simp_all add: reading_def)

lemma reading_sent: "reading P \<Longrightarrow> P a \<Longrightarrow> P (a\<lparr>ca_sent := s\<rparr>)"
  by (simp add: reading_def)

lemma generate_sends: "\<exists>s. snd (generate_answer_text e str sp up a) = a\<lparr>ca_sent := s\<rparr>"
proof -
  have "\<exists>s. a = a\<lparr>ca_sent := s\<rparr>" by (rule exI [of _ "ca_sent a"]) simp
  then show ?thesis
    by (auto simp: generate_answer_text_def Let_def case_prod_beta split: option.split sum.split)
qed

lemma generate_keeps: "reading P \<Longrightarrow> P a \<Longrightarrow> generate_answer_text e str sp up a = (g, a') \<Longrightarrow> P a'"
  using generate_sends [of e str sp up a] by (auto simp: reading_def)

lemma app_keeps_select: "reading P \<Longrightarrow> app_keeps P (select_evidence e b plan retrieved)"
  unfolding select_evidence_def reused_hits_def fact_backed_hits_def Let_def
  by (auto intro!: app_keeps_then simp: reading_query)

lemma app_keeps_history: "reading P \<Longrightarrow> app_keeps P (answer_from_history e r plan history)"
  unfolding app_keeps_def
proof (intro allI impI)
  fix a assume P: "reading P" "P a"
  obtain sp up where p: "history_prompts (cc_abstain (cn_config e)) (cr_book r) (cr_question r) (build_history (cn_unicode e) history) = (sp, up)"
    by (metis surj_pair)
  obtain g a1 where g: "generate_answer_text e (cr_stream r) sp up a = (g, a1)" by (metis surj_pair)
  have "P a1" by (rule generate_keeps [OF P g])
  then show "P (snd (answer_from_history e r plan history a))"
    unfolding answer_from_history_def Let_def p prod.case g using P by (auto split: sum.split option.split)
qed

lemma app_keeps_overview: "reading P \<Longrightarrow> app_keeps P (answer_document_overview e r plan)"
  unfolding answer_document_overview_def Let_def
proof (rule app_keeps_then)
  assume "reading P"
  then show "app_keeps P (wrap_error ''load document overview chunks'' (chat_call (list_chunks_by_book (bo_id (cr_book r)))))"
    by (simp add: reading_query)
qed (auto simp: app_keeps_def intro: reading_sent split: option.split)

lemma app_keeps_evidence: "reading P \<Longrightarrow> app_keeps P (answer_from_evidence e r plan history)"
  unfolding app_keeps_def
proof (intro allI impI)
  fix a assume P: "reading P" "P a"
  obtain retrieved d where rd: "retrieve_evidence_for_plan e (cr_book r) (chat_tabs a) plan = (retrieved, d)" by (metis surj_pair)
  obtain s a1 where s: "select_evidence e (cr_book r) plan retrieved a = (s, a1)" by (metis surj_pair)
  have a1: "P a1" using app_keeps_select [OF P(1)] P(2) s by (metis app_keeps_def snd_conv)
  show "P (snd (answer_from_evidence e r plan history a))"
  proof (cases s)
    case (Inl er)
    then show ?thesis using a1 s rd by (simp add: answer_from_evidence_def andthen_def)
  next
    case (Inr se)
    obtain selected evs where se: "se = (selected, evs)" by (metis surj_pair)
    obtain ctx cits where cc: "build_context_with_evidence selected evs = (ctx, cits)" by (metis surj_pair)
    obtain sp up where p: "evidence_prompts (cc_abstain (cn_config e)) (cr_book r) plan (build_history (cn_unicode e) history) ctx = (sp, up)"
      by (metis surj_pair)
    obtain g a2 where g: "generate_answer_text e (cr_stream r) sp up a1 = (g, a2)" by (metis surj_pair)
    have "P a2" by (rule generate_keeps [OF P(1) a1 g])
    then show ?thesis
      unfolding answer_from_evidence_def Let_def rd prod.case andthen_def s Inr se sum.case cc p g
      using a1 by (auto split: sum.split option.split)
  qed
qed

lemma app_keeps_answer: "reading P \<Longrightarrow> app_keeps P (answer_by_route e r history)"
  by (simp add: answer_by_route_def Let_def app_keeps_history app_keeps_overview app_keeps_evidence split: query_route.split)

lemma reading_tabs: "reading (\<lambda>a. P (chat_tabs a))"
  unfolding reading_def
proof (intro conjI allI impI)
  fix a s assume "P (chat_tabs a)"
  then show "P (chat_tabs (a\<lparr>ca_sent := s\<rparr>))" by (simp add: chat_tabs_def)
next
  fix f :: "chunk list op" assume "\<forall>t. snd (f t) = t"
  then show "app_keeps (\<lambda>a. P (chat_tabs a)) (chat_call f)" by (simp add: chat_app_keeps [symmetric] chat_keeps_query)
qed

lemma keeps_answer: "chat_keeps P (answer_by_route e r history)"
  unfolding chat_app_keeps by (rule app_keeps_answer [OF reading_tabs])

lemma keeps_select: "chat_keeps P (select_evidence e b plan retrieved)"
  unfolding chat_app_keeps by (rule app_keeps_select [OF reading_tabs])

section \<open>What belongs to a user\<close>

definition own_conversations :: "gostr \<Rightarrow> tables \<Rightarrow> conversation_row list" where
  "own_conversations v t = filter (\<lambda>r. co_user_id (cr_conversation r) = v) (tb_conversations t)"

definition own_ids :: "gostr \<Rightarrow> tables \<Rightarrow> gostr set" where
  "own_ids v t = (\<lambda>r. co_id (cr_conversation r)) ` set (own_conversations v t)"

definition own_messages :: "gostr \<Rightarrow> tables \<Rightarrow> message_row list" where
  "own_messages v t = filter (\<lambda>m. mr_conversation_id m \<in> Some ` own_ids v t) (tb_messages t)"

text \<open>The tables are well formed, and the user has these conversations with these messages.\<close>

definition sees :: "gostr \<Rightarrow> conversation_row list \<Rightarrow> message_row list \<Rightarrow> tables \<Rightarrow> bool" where
  "sees v cs ms t \<longleftrightarrow> tables_ok t \<and> own_conversations v t = cs \<and> own_messages v t = ms"

lemma sees_ids: "sees v cs ms t \<Longrightarrow> own_ids v t = (\<lambda>r. co_id (cr_conversation r)) ` set cs"
  by (simp add: sees_def own_ids_def)

lemma own_update:
  assumes "\<And>r. co_user_id (cr_conversation (f r)) = co_user_id (cr_conversation r)"
    and "\<And>r. r \<in> set (tb_conversations t) \<Longrightarrow> p r \<Longrightarrow> co_user_id (cr_conversation r) \<noteq> v"
  shows "own_conversations v (t\<lparr>tb_conversations := update_where p f (tb_conversations t)\<rparr>) = own_conversations v t"
proof -
  have "filter (\<lambda>r. co_user_id (cr_conversation r) = v) (map (\<lambda>r. if p r then f r else r) rs) =
      filter (\<lambda>r. co_user_id (cr_conversation r) = v) rs" if "set rs \<subseteq> set (tb_conversations t)" for rs
    using that assms by (induction rs) auto
  then show ?thesis by (simp add: own_conversations_def update_where_def)
qed

lemma own_messages_same:
  "own_conversations v t' = own_conversations v t \<Longrightarrow>
   filter (\<lambda>m. mr_conversation_id m \<in> Some ` own_ids v t) (tb_messages t') =
   filter (\<lambda>m. mr_conversation_id m \<in> Some ` own_ids v t) (tb_messages t) \<Longrightarrow>
   own_messages v t' = own_messages v t"
  by (simp add: own_messages_def own_ids_def)

lemma not_own: "r \<in> set (tb_conversations t) \<Longrightarrow> co_id (cr_conversation r) \<notin> own_ids v t \<Longrightarrow> co_user_id (cr_conversation r) \<noteq> v"
  by (auto simp: own_ids_def own_conversations_def)

lemma sees_update_conversation:
  assumes "sees v cs ms t" "cid \<notin> own_ids v t" "update_conversation now cid title w t = (Inr x, t')"
  shows "sees v cs ms t'"
proof -
  have "tables_ok t'" using assms by (auto simp: sees_def update_conversation_def touch_conversation_def intro!: tables_ok_conversations)
  moreover have t': "t' = t\<lparr>tb_conversations := update_where (\<lambda>r. co_id (cr_conversation r) = cid)
        (touch_conversation now title (if is_zero w then None else Some w)) (tb_conversations t)\<rparr>"
    using assms(3) by (auto simp: update_conversation_def)
  have own: "own_conversations v t' = own_conversations v t"
    unfolding t' by (rule own_update) (use not_own assms(2) in \<open>auto simp: touch_conversation_def\<close>)
  moreover have "own_messages v t' = own_messages v t" by (rule own_messages_same [OF own]) (simp add: t')
  ultimately show ?thesis using assms(1) by (simp add: sees_def)
qed

lemma sees_delete_conversation:
  assumes "sees v cs ms t" "trim_space cid \<notin> own_ids v t" "delete_conversation cid t = (Inr x, t')"
  shows "sees v cs ms t'"
proof (cases "trim_space cid = []")
  case True
  then show ?thesis using assms by (simp add: delete_conversation_def)
next
  case False
  let ?c = "trim_space cid"
  have t': "t' = delete_conversations (\<lambda>r. co_id (cr_conversation r) = ?c) (delete_messages (\<lambda>m. mr_conversation_id m = Some ?c) t)"
    using assms(3) False by (simp add: delete_conversation_def Let_def)
  have conv: "tb_conversations t' = filter (\<lambda>r. co_id (cr_conversation r) \<noteq> ?c) (tb_conversations t)"
    by (simp add: t' delete_conversations_def delete_messages_def Let_def)
  have own: "own_conversations v t' = own_conversations v t"
  proof -
    have "co_id (cr_conversation r) \<noteq> ?c" if "r \<in> set (tb_conversations t)" "co_user_id (cr_conversation r) = v" for r
      using not_own [OF that(1), of v] that(2) assms(2) by auto
    then show ?thesis by (auto simp: own_conversations_def conv intro!: filter_cong)
  qed
  have "filter (\<lambda>m. mr_conversation_id m \<in> Some ` own_ids v t) (tb_messages t') =
      filter (\<lambda>m. mr_conversation_id m \<in> Some ` own_ids v t) (tb_messages t)"
    using assms(2) by (auto simp: t' delete_conversations_def delete_messages_def Let_def intro!: filter_cong)
  then have "own_messages v t' = own_messages v t" by (rule own_messages_same [OF own])
  moreover have "tables_ok t'" using delete_conversation_ok assms(1,3) by (auto simp: sees_def)
  ultimately show ?thesis using assms(1) own by (simp add: sees_def)
qed

lemma sees_save_idem:
  assumes "sees v cs ms t" "save_idempotency_record r t = (Inr x, t')"
  shows "sees v cs ms t'"
proof -
  have "tables_ok t'" by (rule save_idem_ok [OF _ assms(2)]) (use assms(1) in \<open>simp add: sees_def\<close>)
  then show ?thesis
    using assms by (auto simp: sees_def own_conversations_def own_messages_def own_ids_def save_idempotency_record_def Let_def split: if_splits)
qed

lemma insert_message_tables:
  "insert_message row t = (Inr x, t') \<Longrightarrow> t' = t\<lparr>tb_messages := tb_messages t @ [row]\<rparr>"
  by (auto simp: insert_message_def insert_rows_def split: if_splits sum.splits)

lemma insert_conversation_tables:
  "insert_conversation row t = (Inr x, t') \<Longrightarrow>
   t' = t\<lparr>tb_conversations := tb_conversations t @ [row]\<rparr> \<and> co_id (cr_conversation row) \<notin> (\<lambda>r. co_id (cr_conversation r)) ` set (tb_conversations t)"
  by (auto simp: insert_conversation_def insert_rows_def split: if_splits sum.splits)

text \<open>What an exchange adds.\<close>

lemma save_exchange_tables:
  assumes "save_conversation_exchange now c create m1 m2 rec t = (Inr x, t')"
  shows "\<exists>rows ids. t' = t\<lparr>tb_conversations :=
      update_where (\<lambda>r. co_id (cr_conversation r) = co_id c) (touch_conversation now (co_title c) (Some (me_created_at m2)))
        (tb_conversations t @ rows),
      tb_messages := tb_messages t @ [message_to_model m1, message_to_model m2], tb_idempotency := ids\<rparr> \<and>
    rows = (if create then [conversation_to_model c] else []) \<and>
    (create \<longrightarrow> co_id c \<notin> (\<lambda>r. co_id (cr_conversation r)) ` set (tb_conversations t)) \<and>
    (case rec of None \<Rightarrow> ids = tb_idempotency t
     | Some r \<Rightarrow> ids = upsert ir_id assign_idem (idem_to_model r) (tb_idempotency t))"
proof -
  obtain y1 t1 where t1: "(if create then create_conversation c t else (Inr (), t)) = (Inr y1, t1)"
    using assms by (auto simp: save_conversation_exchange_def split: sum.splits prod.splits)
  obtain y2 t2 where t2: "insert_message (message_to_model m1) t1 = (Inr y2, t2)"
    using assms t1 by (auto simp: save_conversation_exchange_def split: sum.splits prod.splits)
  obtain y3 t3 where t3: "insert_message (message_to_model m2) t2 = (Inr y3, t3)"
    using assms t1 t2 by (auto simp: save_conversation_exchange_def split: sum.splits prod.splits)
  let ?t4 = "t3\<lparr>tb_conversations := update_where (\<lambda>r. co_id (cr_conversation r) = co_id c)
      (touch_conversation now (co_title c) (Some (me_created_at m2))) (tb_conversations t3)\<rparr>"
  have rest: "(case rec of None \<Rightarrow> (Inr (), ?t4) | Some r \<Rightarrow> save_idempotency_record r ?t4) = (Inr x, t')"
    using assms t1 t2 t3 by (simp add: save_conversation_exchange_def Let_def)
  have id: "co_id (cr_conversation (conversation_to_model c)) = co_id c" by (simp add: conversation_to_model_def)
  have t1': "t1 = t\<lparr>tb_conversations := tb_conversations t @ (if create then [conversation_to_model c] else [])\<rparr>"
    "create \<Longrightarrow> co_id c \<notin> (\<lambda>r. co_id (cr_conversation r)) ` set (tb_conversations t)"
    using t1 insert_conversation_tables [of "conversation_to_model c" t] by (auto simp: create_conversation_def id split: if_splits)
  have t3': "t3 = t1\<lparr>tb_messages := tb_messages t1 @ [message_to_model m1, message_to_model m2]\<rparr>"
    using insert_message_tables [OF t2] insert_message_tables [OF t3] by simp
  show ?thesis
  proof (cases rec)
    case None
    then show ?thesis using rest t1' t3'
      by (intro exI [of _ "if create then [conversation_to_model c] else []"] exI [of _ "tb_idempotency t"]) auto
  next
    case (Some r)
    then have "t' = ?t4\<lparr>tb_idempotency := upsert ir_id assign_idem (idem_to_model r) (tb_idempotency t)\<rparr>"
      using rest t1' t3' by (auto simp: save_idempotency_record_def Let_def split: if_splits)
    then show ?thesis using t1' t3' Some
      by (intro exI [of _ "if create then [conversation_to_model c] else []"]
          exI [of _ "upsert ir_id assign_idem (idem_to_model r) (tb_idempotency t)"]) auto
  qed
qed

lemma sees_exchange:
  assumes "sees v cs ms t" "save_conversation_exchange now c create m1 m2 rec t = (Inr x, t')"
    and "me_conversation_id m1 = co_id c" "me_conversation_id m2 = co_id c" "trim_space (co_id c) = co_id c"
    and "if create then co_user_id c \<noteq> v else co_id c \<notin> own_ids v t"
  shows "sees v cs ms t'"
proof -
  obtain rows ids where t': "t' = t\<lparr>tb_conversations :=
      update_where (\<lambda>r. co_id (cr_conversation r) = co_id c) (touch_conversation now (co_title c) (Some (me_created_at m2)))
        (tb_conversations t @ rows),
      tb_messages := tb_messages t @ [message_to_model m1, message_to_model m2], tb_idempotency := ids\<rparr>"
    and rows: "rows = (if create then [conversation_to_model c] else [])"
    and new: "create \<longrightarrow> co_id c \<notin> (\<lambda>r. co_id (cr_conversation r)) ` set (tb_conversations t)"
    using save_exchange_tables [OF assms(2)] by blast
  have ids: "co_id c \<notin> own_ids v t" using assms(6) new by (auto simp: own_ids_def own_conversations_def split: if_splits)
  let ?t1 = "t\<lparr>tb_conversations := tb_conversations t @ rows\<rparr>"
  have own1: "own_conversations v ?t1 = own_conversations v t"
    using assms(6) by (auto simp: own_conversations_def rows conversation_to_model_def)
  have own2: "own_conversations v (?t1\<lparr>tb_conversations := update_where (\<lambda>r. co_id (cr_conversation r) = co_id c)
      (touch_conversation now (co_title c) (Some (me_created_at m2))) (tb_conversations ?t1)\<rparr>) = own_conversations v ?t1"
    by (rule own_update) (use not_own [of _ ?t1 v] ids own1 in \<open>auto simp: touch_conversation_def own_ids_def\<close>)
  have own: "own_conversations v t' = own_conversations v t"
    unfolding own1 [symmetric] own2 [symmetric] by (simp add: t' own_conversations_def)
  have "mr_conversation_id (message_to_model m) \<notin> Some ` own_ids v t" if "me_conversation_id m = co_id c" for m
    using ids assms(5) that by (auto simp: message_to_model_def)
  then have "own_messages v t' = own_messages v t"
    using assms(3,4) by (intro own_messages_same [OF own]) (simp add: t')
  moreover have "tables_ok t'" by (rule save_conversation_exchange_ok [OF _ assms(2)]) (use assms(1) in \<open>simp add: sees_def\<close>)
  ultimately show ?thesis using assms(1) own by (simp add: sees_def)
qed

section \<open>Users and their conversations\<close>

lemma own_conversation_result:
  assumes "own_conversation user cid a = (Inr c, a')" "tables_ok (chat_tabs a)"
  shows "chat_tabs a' = chat_tabs a" "co_id c = cid" "co_user_id c \<noteq> au_id user \<Longrightarrow> au_admin user"
    "co_user_id c \<noteq> v \<Longrightarrow> cid \<notin> own_ids v (chat_tabs a)"
proof -
  obtain q where q: "chat_call (get_conversation cid) a = (Inr (Some c), q)" and ok: "co_user_id c = au_id user \<or> au_admin user" and a': "a' = q"
    using assms(1) by (auto simp: own_conversation_def andthen_Inr split: option.splits if_splits)
  have g: "get_conversation cid (chat_tabs a) = (Inr (Some c), chat_tabs a')" using chat_call_ok [OF q] a' by simp
  then obtain row where row: "List.find (\<lambda>r. co_id (cr_conversation r) = cid) (tb_conversations (chat_tabs a)) = Some row"
    and c: "c = conversation_from_model row"
    by (auto simp: get_conversation_def)
  then have r: "row \<in> set (tb_conversations (chat_tabs a))" "co_id (cr_conversation row) = cid"
    by (auto simp: find_Some_iff)
  show "chat_tabs a' = chat_tabs a" using g by (simp add: get_conversation_def)
  show "co_id c = cid" using r c by (simp add: conversation_from_model_def)
  show "co_user_id c \<noteq> au_id user \<Longrightarrow> au_admin user" using ok by auto
  show "cid \<notin> own_ids v (chat_tabs a)" if "co_user_id c \<noteq> v"
  proof
    assume "cid \<in> own_ids v (chat_tabs a)"
    then obtain row' where r': "row' \<in> set (tb_conversations (chat_tabs a))" "co_user_id (cr_conversation row') = v"
      "co_id (cr_conversation row') = cid"
      by (auto simp: own_ids_def own_conversations_def)
    have "distinct (map (\<lambda>r. co_id (cr_conversation r)) (tb_conversations (chat_tabs a)))"
      using assms(2) by (simp add: tables_ok_def keys_ok_def)
    then have "row' = row" using r r' by (auto simp: distinct_map dest: inj_onD)
    then show False using r' c that by (simp add: conversation_from_model_def)
  qed
qed

lemma own_conversation_row:
  assumes "own_conversation user cid a = (Inr c, a')" "tables_ok (chat_tabs a)" "\<not> au_admin user"
  obtains row where "row \<in> set (own_conversations (au_id user) (chat_tabs a))" "co_id (cr_conversation row) = cid"
    "c = conversation_from_model row"
proof -
  obtain q where "chat_call (get_conversation cid) a = (Inr (Some c), q)"
    using assms(1) by (auto simp: own_conversation_def andthen_Inr split: option.splits if_splits)
  from chat_call_ok [OF this] obtain row
    where row: "List.find (\<lambda>r. co_id (cr_conversation r) = cid) (tb_conversations (chat_tabs a)) = Some row" "c = conversation_from_model row"
    by (auto simp: get_conversation_def)
  then have "row \<in> set (tb_conversations (chat_tabs a))" "co_id (cr_conversation row) = cid" by (auto simp: find_Some_iff)
  moreover have "co_user_id (cr_conversation row) = au_id user"
    using row(2) own_conversation_result(3) [OF assms(1,2)] assms(3) by (auto simp: conversation_from_model_def)
  ultimately show ?thesis using that row(2) by (simp add: own_conversations_def)
qed

lemma own_conversation_own:
  assumes "own_conversation user cid a = (Inr c, a')" "tables_ok (chat_tabs a)" "\<not> au_admin user"
  shows "co_user_id c = au_id user" "co_id c = cid" "cid \<in> own_ids (au_id user) (chat_tabs a)" "chat_tabs a' = chat_tabs a"
proof -
  show c: "co_user_id c = au_id user" "co_id c = cid" "chat_tabs a' = chat_tabs a"
    using own_conversation_result [OF assms(1,2)] assms(3) by auto
  from own_conversation_row [OF assms] show "cid \<in> own_ids (au_id user) (chat_tabs a)" by (metis own_ids_def imageI)
qed

lemma keeps_own: "chat_keeps P (own_conversation user cid)"
  unfolding own_conversation_def
  by (intro chat_keeps_then) (auto simp: chat_keeps_query split: option.split)

lemma keeps_idem_call: "chat_keeps (sees v cs ms) (chat_call (save_idempotency_record r))"
  by (rule chat_keeps_call) (rule sees_save_idem)

lemma keeps_replay [simp]: "chat_keeps P (replay_answer x r)"
  by (simp add: replay_answer_def split: sum.split)

text \<open>Beginning a request writes no more than its record.\<close>

lemma keeps_start_of:
  assumes "\<And>q. chat_keeps P (chat_call (save_idempotency_record q))"
  shows "chat_keeps P (start_chat_record x r)"
  unfolding chat_keeps_def
proof (intro allI impI)
  fix a assume a: "P (chat_tabs a)"
  obtain q a1 where q: "chat_call (save_idempotency_record (started_record x r)) a = (q, a1)" by (metis surj_pair)
  then have a1: "P (chat_tabs a1)" using assms a by (metis chat_keeps_def snd_conv)
  let ?get = "chat_call (get_idempotency_record chat_scope (au_id (cr_user r)) (trim_space (cr_key r)))"
  obtain g a2 where g: "?get a1 = (g, a2)" by (metis surj_pair)
  have "chat_keeps P ?get" by (simp add: chat_keeps_query)
  then have a2: "P (chat_tabs a2)" using g a1 by (metis chat_keeps_def snd_conv)
  have "P (chat_tabs (snd (replay_answer x rc a2)))" for rc using keeps_replay a2 by (auto simp: chat_keeps_def)
  then show "P (chat_tabs (snd (start_chat_record x r a)))"
    using a1 a2 by (simp add: start_chat_record_def q g split: sum.split option.split)
qed

lemma keeps_begin_of:
  assumes "\<And>q. chat_keeps P (chat_call (save_idempotency_record q))"
  shows "chat_keeps P (begin_chat_idempotency x r)"
  unfolding begin_chat_idempotency_def Let_def
  by (auto intro!: chat_keeps_then keeps_start_of assms simp: chat_keeps_query split: option.split idem_state.split)

lemma keeps_begin: "chat_keeps (sees v cs ms) (begin_chat_idempotency x r)"
  by (rule keeps_begin_of [OF keeps_idem_call])

lemma keeps_save_exchange:
  assumes "trim_space (co_id c) = co_id c" "if create then co_user_id c \<noteq> v else co_id c \<notin> (\<lambda>r. co_id (cr_conversation r)) ` set cs"
  shows "chat_keeps (sees v cs ms) (save_exchange x r rec (c, create) oc)"
proof -
  have "chat_keeps (sees v cs ms) (chat_call (save_conversation_exchange (cr_now r) c create (user_message x r c oc) (assistant_message x r c oc) rc))"
    for rc
  proof (rule chat_keeps_call)
    fix y t t' assume s: "sees v cs ms t"
      and e: "save_conversation_exchange (cr_now r) c create (user_message x r c oc) (assistant_message x r c oc) rc t = (Inr y, t')"
    show "sees v cs ms t'"
      by (rule sees_exchange [OF s e]) (use assms sees_ids [OF s] in \<open>simp_all add: user_message_def assistant_message_def\<close>)
  qed
  then show ?thesis
    unfolding save_exchange_def Let_def prod.case
    by (auto intro!: chat_keeps_then split: option.split sum.split)
qed

text \<open>A request of a user other than \<open>v\<close>, with IDs for new rows that the generator of IDs makes.\<close>

datatype chat_step =
    StepAsk chat_codec chat_env chat_request
  | StepConversations int
  | StepRename gotime gostr gostr
  | StepDelete gostr
  | StepBookId gostr
  | StepMessages gostr int

text \<open>What a step answers, and the state after it; an error shows nothing.\<close>

datatype chat_output =
    OutAnswer chat_answer bool
  | OutConversations "conversation list"
  | OutConversation conversation
  | OutBookId gostr
  | OutMessages "message list"
  | OutNothing

definition answered_with :: "('a \<Rightarrow> chat_output) \<Rightarrow> (app_err + 'a) \<times> chat_app \<Rightarrow> chat_output \<times> chat_app" where
  "answered_with f q = (case fst q of Inl _ \<Rightarrow> OutNothing | Inr y \<Rightarrow> f y, snd q)"

fun chat_exec :: "auth_user \<Rightarrow> chat_step \<Rightarrow> chat_app \<Rightarrow> chat_output \<times> chat_app" where
  "chat_exec user (StepAsk x e r) a =
     answered_with (\<lambda>(an, replayed). OutAnswer an replayed) (ask_question x e (r\<lparr>cr_user := user\<rparr>) a)"
| "chat_exec user (StepConversations limit) a = answered_with OutConversations (chat_list_conversations user limit a)"
| "chat_exec user (StepRename now cid title) a = answered_with OutConversation (rename_conversation now user cid title a)"
| "chat_exec user (StepDelete cid) a = answered_with (\<lambda>_. OutNothing) (chat_delete_conversation user cid a)"
| "chat_exec user (StepBookId cid) a = answered_with OutBookId (get_conversation_book_id user cid a)"
| "chat_exec user (StepMessages cid limit) a = answered_with OutMessages (chat_list_messages user cid limit a)"

lemma snd_answered [simp]: "snd (answered_with f q) = snd q"
  by (simp add: answered_with_def)

lemma answered_cases:
  assumes "answered_with f q = (out, a')" "out \<noteq> OutNothing"
  obtains y where "q = (Inr y, a')" "out = f y"
  using assms by (cases q) (auto simp: answered_with_def split: sum.splits)

text \<open>
  What a step may show to its user \<open>u\<close>, between the tables \<open>t\<close> before it and \<open>t'\<close> after it: a conversation of the user,
  the book or the messages of the conversation of the user that was asked for, an answer about a book of the user in
  such a conversation, or the answer that the user's own record of the earlier request holds.
\<close>

fun shows_its_own :: "gostr \<Rightarrow> tables \<Rightarrow> tables \<Rightarrow> chat_step \<Rightarrow> chat_output \<Rightarrow> bool" where
  "shows_its_own u t t' s OutNothing \<longleftrightarrow> True"
| "shows_its_own u t t' (StepAsk x e r) (OutAnswer an replayed) \<longleftrightarrow>
     bo_owner_id (cr_book r) = u \<and>
     (if replayed
      then list_ex (\<lambda>q. ir_scope q = chat_scope \<and> ir_actor_id q = trim_space u \<and> ir_key q = trim_space (cr_key r) \<and>
             cx_read_answer x (ir_response q) = Inr an) (tb_idempotency t')
      else co_user_id (an_conversation an) = u \<and>
        co_id (an_conversation an) \<in> (if trim_space (cr_conversation_id r) = [] then {cr_new_conversation r} else own_ids u t))"
| "shows_its_own u t t' (StepConversations limit) (OutConversations cs) \<longleftrightarrow>
     list_all (\<lambda>c. co_user_id c = u \<and> co_id c \<in> own_ids u t) cs"
| "shows_its_own u t t' (StepRename now cid title) (OutConversation c) \<longleftrightarrow>
     co_user_id c = u \<and> co_id c = trim_space cid \<and> co_id c \<in> own_ids u t"
| "shows_its_own u t t' (StepBookId cid) (OutBookId bid) \<longleftrightarrow>
     list_ex (\<lambda>row. co_id (cr_conversation row) = trim_space cid \<and> co_book_id (conversation_from_model row) = bid) (own_conversations u t)"
| "shows_its_own u t t' (StepMessages cid limit) (OutMessages ms) \<longleftrightarrow>
     trim_space cid \<in> own_ids u t \<and> list_all (\<lambda>m. me_conversation_id m = trim_space cid) ms"
| "shows_its_own u t t' s out \<longleftrightarrow> False"

definition chat_step_ok :: "chat_step \<Rightarrow> bool" where
  "chat_step_ok s \<longleftrightarrow> (case s of StepAsk x e r \<Rightarrow> trim_space (cr_new_conversation r) = cr_new_conversation r | _ \<Rightarrow> True)"

lemma keeps_ask:
  assumes "\<not> au_admin (cr_user r)" "au_id (cr_user r) \<noteq> v" "trim_space (cr_new_conversation r) = cr_new_conversation r"
  shows "chat_keeps (sees v cs ms) (ask_question x e r)"
proof -
  let ?P = "sees v cs ms"
  have rest: "chat_keeps ?P (andthen (load_history e (fst cc)) (\<lambda>history.
      andthen (answer_by_route e r history) (\<lambda>oc. andthen (save_exchange x r rc cc oc) (\<lambda>an. done_with (an, False)))))"
    if cc: "?P (chat_tabs a)" "ensure_conversation r a = (Inr cc, a')" for rc a cc a'
  proof -
    obtain c create where ccd: "cc = (c, create)" by (metis surj_pair)
    have ok: "trim_space (co_id c) = co_id c \<and> (if create then co_user_id c \<noteq> v else co_id c \<notin> (\<lambda>r. co_id (cr_conversation r)) ` set cs)"
    proof (cases "trim_space (cr_conversation_id r) = []")
      case True
      then show ?thesis using cc(2) assms(2,3) ccd by (auto simp: ensure_conversation_def Let_def)
    next
      case False
      then have own: "own_conversation (cr_user r) (trim_space (cr_conversation_id r)) a = (Inr c, a')" "\<not> create"
        using cc(2) ccd by (auto simp: ensure_conversation_def Let_def andthen_Inr)
      have t: "tables_ok (chat_tabs a)" using cc(1) by (simp add: sees_def)
      have "co_user_id c = au_id (cr_user r)" using own_conversation_result(3) [OF own(1) t] assms(1) by auto
      then have "co_id c \<notin> (\<lambda>r. co_id (cr_conversation r)) ` set cs"
        using own_conversation_result(2,4) [OF own(1) t] assms(2) sees_ids [OF cc(1)] by auto
      then show ?thesis using own_conversation_result(2) [OF own(1) t] own(2) by auto
    qed
    show ?thesis
      unfolding load_history_def Let_def ccd fst_conv
      by (intro chat_keeps_then keeps_answer keeps_save_exchange) (use ok in \<open>auto simp: chat_keeps_query\<close>)
  qed
  have ens: "chat_keeps ?P (ensure_conversation r)"
    unfolding ensure_conversation_def Let_def by (auto intro!: chat_keeps_then keeps_own)
  show ?thesis
    unfolding ask_question_def
    by (auto intro!: chat_keeps_then keeps_begin ens rest split: chat_begun.split)
qed

section \<open>Without faults\<close>

lemma chat_call_calm:
  assumes "ca_db a = (t, [])"
  shows "chat_call f a = (case f t of (Inl e, _) \<Rightarrow> (Inl (ErrDb e), a) | (Inr x, t') \<Rightarrow> (Inr x, a\<lparr>ca_db := (t', [])\<rparr>))"
  using assms by (simp add: chat_call_def split: prod.split sum.split)

text \<open>While nothing fails, answering leaves the database alone.\<close>

lemma calm_reading: "reading (\<lambda>a :: chat_app. ca_db a = (t, []))"
  unfolding reading_def app_keeps_def
proof (intro conjI allI impI)
  fix f :: "chunk list op" and a :: chat_app assume "\<forall>t. snd (f t) = t" "ca_db a = (t, [])"
  moreover obtain r t' where "f t = (r, t')" by (metis surj_pair)
  ultimately show "ca_db (snd (chat_call f a)) = (t, [])"
    by (cases r) (auto simp: chat_call_calm dest: spec [of _ t])
qed simp

lemma calm_query:
  assumes "\<And>t. snd (f t) = t"
  shows "app_keeps (\<lambda>a :: chat_app. ca_db a = (t, [])) (chat_call f)"
  unfolding app_keeps_def
proof (intro allI impI)
  fix a :: chat_app assume a: "ca_db a = (t, [])"
  obtain r t' where "f t = (r, t')" by (metis surj_pair)
  then show "ca_db (snd (chat_call f a)) = (t, [])" using a assms [of t] by (cases r) (auto simp: chat_call_calm)
qed

lemma calm_ensure: "app_keeps (\<lambda>a :: chat_app. ca_db a = (t, [])) (ensure_conversation r)"
  unfolding ensure_conversation_def own_conversation_def Let_def
  by (auto intro!: app_keeps_then simp: calm_query split: option.split)

lemma calm_history: "app_keeps (\<lambda>a :: chat_app. ca_db a = (t, [])) (load_history e c)"
  by (simp add: load_history_def Let_def calm_query)

end
