(* ===== verification/ChatProps.thy ===== *)
theory ChatProps
  imports ChatFacts
begin

text \<open>
  The properties of the chat service: users and their conversations, what an exchange writes, what an answer rests on, and
  what becomes of a request that fails.
\<close>

section \<open>Users\<close>

lemma keeps_exec:
  assumes "\<not> au_admin user" "au_id user \<noteq> v" "chat_step_ok s" "sees v cs ms (chat_tabs a)"
  shows "sees v cs ms (chat_tabs (snd (chat_exec user s a)))"
proof -
  have own: "chat_keeps (sees v cs ms) (andthen (own_conversation user cid) k)"
    if k: "\<And>c. cid \<notin> (\<lambda>r. co_id (cr_conversation r)) ` set cs \<Longrightarrow> chat_keeps (sees v cs ms) (k c)" for cid and k :: "conversation \<Rightarrow> 'x chat_op"
  proof (rule chat_keeps_then [OF keeps_own])
    fix c b b' assume b: "sees v cs ms (chat_tabs b)" "own_conversation user cid b = (Inr c, b')"
    have t: "tables_ok (chat_tabs b)" using b(1) by (simp add: sees_def)
    have "co_user_id c = au_id user" using own_conversation_result(3) [OF b(2) t] assms(1) by auto
    then show "chat_keeps (sees v cs ms) (k c)"
      using own_conversation_result(4) [OF b(2) t, of v] assms(2) sees_ids [OF b(1)] k by auto
  qed
  have upd: "chat_keeps (sees v cs ms) (chat_call (update_conversation now cid title w))"
    if "cid \<notin> (\<lambda>r. co_id (cr_conversation r)) ` set cs" for now cid title w
    by (rule chat_keeps_call) (metis sees_update_conversation sees_ids that)
  have del: "chat_keeps (sees v cs ms) (chat_call (delete_conversation (trim_space cid)))"
    if "trim_space cid \<notin> (\<lambda>r. co_id (cr_conversation r)) ` set cs" for cid
    by (rule chat_keeps_call) (metis sees_delete_conversation sees_ids that trim_space_idem)
  have "chat_keeps (sees v cs ms) (rename_conversation now user cid title)" for now cid title
    by (auto simp: rename_conversation_def Let_def intro!: own chat_keeps_then upd)
  moreover have "chat_keeps (sees v cs ms) (chat_delete_conversation user cid)" for cid
    by (auto simp: chat_delete_conversation_def Let_def intro!: own del)
  moreover have "chat_keeps (sees v cs ms) (get_conversation_book_id user cid)" for cid
    by (auto simp: get_conversation_book_id_def Let_def intro!: own)
  moreover have "chat_keeps (sees v cs ms) (chat_list_messages user cid limit)" for cid limit
    by (auto simp: chat_list_messages_def Let_def chat_keeps_query intro!: own)
  moreover have "chat_keeps (sees v cs ms) (chat_list_conversations user limit)" for limit
    by (simp add: chat_list_conversations_def chat_keeps_query)
  moreover have "chat_keeps (sees v cs ms) (ask_question x e (r\<lparr>cr_user := user\<rparr>))"
    if "trim_space (cr_new_conversation r) = cr_new_conversation r" for x e r
    by (rule keeps_ask) (use assms(1,2) that in simp_all)
  ultimately show ?thesis
    using assms(3,4) by (cases s) (simp_all add: chat_keeps_def chat_step_ok_def Let_def)
qed

lemma latest_messages_set: "m \<in> set (latest_messages n rows) \<Longrightarrow> \<exists>r\<in>set rows. m = message_from_model r"
  by (auto simp: latest_messages_def dest!: in_set_takeD)

text \<open>The messages that an exchange adds.\<close>

definition exchange :: "chat_codec \<Rightarrow> chat_request \<Rightarrow> conversation \<Rightarrow> outcome \<Rightarrow> message_row list" where
  "exchange x r c oc = [message_to_model (user_message x r c oc), message_to_model (assistant_message x r c oc)]"

lemma saved_messages:
  assumes "save_conversation_exchange now c create (user_message x r c oc) (assistant_message x r c oc) rec t = (Inr y, t')"
  shows "tb_messages t' = tb_messages t @ exchange x r c oc"
  using save_exchange_tables [OF assms] by (auto simp: exchange_def)

lemma save_exchange_messages:
  assumes "save_exchange x r rec (c, create) oc a = (q, a')"
  shows "case q of Inl _ \<Rightarrow> tb_messages (chat_tabs a') \<in> {tb_messages (chat_tabs a), tb_messages (chat_tabs a) @ exchange x r c oc}
    | Inr an \<Rightarrow> an = answer_of r c oc \<and> tb_messages (chat_tabs a') = tb_messages (chat_tabs a) @ exchange x r c oc"
proof -
  let ?call = "\<lambda>rc. chat_call (save_conversation_exchange (cr_now r) c create (user_message x r c oc) (assistant_message x r c oc) rc)"
  have any: "tb_messages (chat_tabs (snd (?call rc a))) \<in> {tb_messages (chat_tabs a), tb_messages (chat_tabs a) @ exchange x r c oc}" for rc
    by (rule chat_call_tabs) (auto dest: saved_messages)
  have ok: "tb_messages (chat_tabs a1) = tb_messages (chat_tabs a) @ exchange x r c oc" if "?call rc a = (Inr y, a1)" for rc y a1
    by (rule saved_messages [OF chat_call_ok [OF that]])
  have step: "case q of Inl _ \<Rightarrow> tb_messages (chat_tabs a') \<in> {tb_messages (chat_tabs a), tb_messages (chat_tabs a) @ exchange x r c oc}
    | Inr an \<Rightarrow> an = answer_of r c oc \<and> tb_messages (chat_tabs a') = tb_messages (chat_tabs a) @ exchange x r c oc"
    if "andthen (wrap_error s (?call rc)) (\<lambda>_. done_with (answer_of r c oc)) a = (q, a')" for rc s
  proof -
    obtain p a1 where p: "?call rc a = (p, a1)" by (metis surj_pair)
    show ?thesis using that any [of rc] ok [of rc _ a1] p
      by (cases p) (auto simp: andthen_def wrap_error_def done_with_def)
  qed
  have "(\<exists>er. q = Inl er \<and> a' = a) \<or>
      (\<exists>rc. andthen (wrap_error ''save conversation exchange'' (?call rc)) (\<lambda>_. done_with (answer_of r c oc)) a = (q, a'))"
    using assms unfolding save_exchange_def Let_def prod.case
    by (auto simp: fail_with_def split: option.splits if_splits sum.splits)
  then show ?thesis
  proof (elim disjE exE conjE)
    fix rc assume "andthen (wrap_error ''save conversation exchange'' (?call rc)) (\<lambda>_. done_with (answer_of r c oc)) a = (q, a')"
    then show ?thesis by (rule step)
  qed simp
qed

text \<open>A replayed answer is read from the record of the user for the key; beginning leaves the conversations alone.\<close>

lemma chat_scope_trim [simp]: "trim_space chat_scope = chat_scope"
  by (simp add: chat_scope_def lit_def trims is_space_def)

lemma begin_replayed:
  assumes "begin_chat_idempotency x r a = (Inr (ChatReplayed an), a')"
  shows "list_ex (\<lambda>q. ir_scope q = chat_scope \<and> ir_actor_id q = trim_space (au_id (cr_user r)) \<and> ir_key q = trim_space (cr_key r) \<and>
    cx_read_answer x (ir_response q) = Inr an) (tb_idempotency (chat_tabs a'))"
proof -
  have found: "ir_scope q = chat_scope \<and> ir_actor_id q = trim_space (au_id (cr_user r)) \<and> ir_key q = trim_space (cr_key r) \<and>
      q \<in> set (tb_idempotency (chat_tabs b'))"
    if "chat_call (get_idempotency_record chat_scope u (trim_space (cr_key r))) b = (Inr (Some q), b')"
      "trim_space u = trim_space (au_id (cr_user r))" for u b b' q
    using chat_call_ok [OF that(1)] that(2) by (auto simp: get_idempotency_record_def find_Some_iff idem_triple_def)
  have replay: "cx_read_answer x (ir_response q) = Inr an \<and> b' = b" if "replay_answer x q b = (Inr (ChatReplayed an), b')" for q b b'
    using that by (auto simp: replay_answer_def done_with_def fail_with_def split: if_splits sum.splits)
  obtain g a1 where g: "chat_call (get_idempotency_record chat_scope (trim_space (au_id (cr_user r))) (trim_space (cr_key r))) a = (Inr g, a1)"
    using assms by (auto simp: begin_chat_idempotency_def Let_def andthen_Inr done_with_def split: if_splits)
  show ?thesis
  proof (cases g)
    case (Some q)
    then have "replay_answer x q a1 = (Inr (ChatReplayed an), a')"
      using assms g by (auto simp: begin_chat_idempotency_def Let_def andthen_def done_with_def fail_with_def split: if_splits idem_state.splits
          sum.splits prod.splits)
    then show ?thesis using found [OF g [unfolded Some]] replay [of q a1 a'] by (auto simp: list_ex_iff)
  next
    case None
    then have start: "start_chat_record x r a1 = (Inr (ChatReplayed an), a')"
      using assms g by (auto simp: begin_chat_idempotency_def Let_def andthen_def done_with_def split: if_splits)
    obtain q a2 a3 where q: "chat_call (get_idempotency_record chat_scope (au_id (cr_user r)) (trim_space (cr_key r))) a2 = (Inr (Some q), a3)"
        "replay_answer x q a3 = (Inr (ChatReplayed an), a')"
      using start by (auto simp: start_chat_record_def split: prod.splits sum.splits option.splits if_splits)
    then show ?thesis using found [OF q(1)] replay [OF q(2)] by (auto simp: list_ex_iff)
  qed
qed

lemma ask_shows:
  assumes "\<not> au_admin (cr_user r)" "tables_ok (chat_tabs a)" "ask_question x e r a = (Inr (an, replayed), a')"
  shows "shows_its_own (au_id (cr_user r)) (chat_tabs a) (chat_tabs a') (StepAsk x e r) (OutAnswer an replayed)"
proof -
  let ?u = "au_id (cr_user r)"
  have book: "bo_owner_id (cr_book r) = ?u" using assms(1,3) by (auto simp: ask_question_def fail_with_def split: if_splits)
  obtain begun a1 where b: "begin_chat_idempotency x r a = (Inr begun, a1)"
    using assms(3) by (auto simp: ask_question_def andthen_Inr fail_with_def split: if_splits)
  show ?thesis
  proof (cases begun)
    case (ChatReplayed an')
    then have "an' = an" "replayed" "a' = a1"
      using assms(3) b by (auto simp: ask_question_def andthen_def done_with_def fail_with_def split: if_splits)
    then show ?thesis using begin_replayed [of x r a an a1] b book ChatReplayed by simp
  next
    case (ChatBegun rc)
    have s: "sees ?u (own_conversations ?u (chat_tabs a)) (own_messages ?u (chat_tabs a)) (chat_tabs a)"
      using assms(2) by (simp add: sees_def)
    have "sees ?u (own_conversations ?u (chat_tabs a)) (own_messages ?u (chat_tabs a)) (chat_tabs a1)"
      using keeps_begin s b by (metis chat_keeps_def snd_conv)
    then have t1: "tables_ok (chat_tabs a1)" "own_ids ?u (chat_tabs a1) = own_ids ?u (chat_tabs a)"
      by (simp_all add: sees_def own_ids_def)
    obtain c create a2 where c: "ensure_conversation r a1 = (Inr (c, create), a2)"
      and save: "\<exists>oc a3 a4. save_exchange x r rc (c, create) oc a3 = (Inr an, a4) \<and> \<not> replayed"
      using assms(3) b ChatBegun
      by (auto simp: ask_question_def andthen_Inr fail_with_def done_with_def split: if_splits) blast+
    obtain oc a3 a4 where "save_exchange x r rc (c, create) oc a3 = (Inr an, a4)" and fresh: "\<not> replayed" using save by blast
    from save_exchange_messages [OF this(1)] have an: "co_user_id (an_conversation an) = co_user_id c" "co_id (an_conversation an) = co_id c"
      by (simp_all add: answer_of_def)
    show ?thesis
    proof (cases "trim_space (cr_conversation_id r) = []")
      case True
      then show ?thesis using c an book fresh by (auto simp: ensure_conversation_def Let_def done_with_def)
    next
      case False
      then have own: "own_conversation (cr_user r) (trim_space (cr_conversation_id r)) a1 = (Inr c, a2)"
        using c by (auto simp: ensure_conversation_def Let_def andthen_Inr)
      show ?thesis using own_conversation_own [OF own t1(1) assms(1)] False an book fresh t1(2) by simp
    qed
  qed
qed

text \<open>What a step shows belongs to its user.\<close>

lemma step_shows:
  assumes "\<not> au_admin user" "tables_ok (chat_tabs a)" "chat_exec user s a = (out, a')"
  shows "shows_its_own (au_id user) (chat_tabs a) (chat_tabs a') s out"
proof (cases "out = OutNothing")
  case False
  note own = own_conversation_own [OF _ assms(2,1)]
  show ?thesis
  proof (cases s)
    case (StepAsk x e r)
    then obtain y where "ask_question x e (r\<lparr>cr_user := user\<rparr>) a = (Inr y, a')" "out = (\<lambda>(an, rp). OutAnswer an rp) y"
      using answered_cases [OF assms(3) [unfolded StepAsk chat_exec.simps] False] by metis
    then show ?thesis using ask_shows [of "r\<lparr>cr_user := user\<rparr>" a x e "fst y" "snd y" a'] assms(1,2) StepAsk by (cases y) (simp split: if_splits)
  next
    case (StepConversations limit)
    then obtain cs where cs: "chat_list_conversations user limit a = (Inr cs, a')" "out = OutConversations cs"
      using answered_cases [OF assms(3) [unfolded StepConversations chat_exec.simps] False] by metis
    then obtain n where "chat_call (list_conversations_by_user (au_id user) n) a = (Inr cs, a')"
      by (auto simp: chat_list_conversations_def fail_with_def split: if_splits)
    from chat_call_ok [OF this] show ?thesis
      using cs(2) StepConversations
      by (auto simp: list_conversations_by_user_def conversation_from_model_def list_all_iff own_ids_def own_conversations_def dest!: in_set_takeD)
  next
    case (StepRename now cid title)
    then obtain c where c: "rename_conversation now user cid title a = (Inr c, a')" "out = OutConversation c"
      using answered_cases [OF assms(3) [unfolded StepRename chat_exec.simps] False] by metis
    then obtain c0 b where "own_conversation user (trim_space cid) a = (Inr c0, b)" "co_user_id c = co_user_id c0" "co_id c = co_id c0"
      by (auto simp: rename_conversation_def Let_def andthen_Inr fail_with_def done_with_def split: if_splits)
    then show ?thesis using own [of "trim_space cid" c0 b] c(2) StepRename by simp
  next
    case (StepDelete cid)
    then show ?thesis using assms(3) False by (auto simp: answered_with_def split: sum.splits)
  next
    case (StepBookId cid)
    then obtain bid where bid: "get_conversation_book_id user cid a = (Inr bid, a')" "out = OutBookId bid"
      using answered_cases [OF assms(3) [unfolded StepBookId chat_exec.simps] False] by metis
    then obtain c b where c: "own_conversation user (trim_space cid) a = (Inr c, b)" "bid = co_book_id c"
      by (auto simp: get_conversation_book_id_def Let_def andthen_Inr fail_with_def done_with_def split: if_splits)
    show ?thesis using own_conversation_row [OF c(1) assms(2,1)] c(2) bid(2) StepBookId by (auto simp: list_ex_iff)
  next
    case (StepMessages cid limit)
    then obtain ms where ms: "chat_list_messages user cid limit a = (Inr ms, a')" "out = OutMessages ms"
      using answered_cases [OF assms(3) [unfolded StepMessages chat_exec.simps] False] by metis
    then obtain c0 b n where c: "own_conversation user (trim_space cid) a = (Inr c0, b)"
      and l: "chat_call (list_conversation_messages (trim_space cid) n) b = (Inr ms, a')"
      by (auto simp: chat_list_messages_def Let_def andthen_Inr fail_with_def split: if_splits)
    have "me_conversation_id m = trim_space cid" if "m \<in> set ms" for m
    proof -
      have "\<exists>r\<in>set (filter (\<lambda>r. mr_conversation_id r = Some (trim_space cid)) (tb_messages (chat_tabs b))). m = message_from_model r"
        using chat_call_ok [OF l] that by (auto simp: list_conversation_messages_def Let_def split: if_splits dest!: latest_messages_set)
      then show ?thesis by (auto simp: message_from_model_def)
    qed
    then show ?thesis using own [OF c] ms(2) StepMessages by (simp add: list_all_iff)
  qed
qed simp

text \<open>The state after a run of steps of several users.\<close>

definition chat_run :: "(auth_user \<times> chat_step) list \<Rightarrow> chat_app \<Rightarrow> chat_app" where
  "chat_run steps a = fold (\<lambda>(u, s) a. snd (chat_exec u s a)) steps a"

lemma run_sees:
  assumes "list_all (\<lambda>(u, s). \<not> au_admin u \<and> au_id u \<noteq> v \<and> chat_step_ok s) steps" "sees v cs ms (chat_tabs a)"
  shows "sees v cs ms (chat_tabs (chat_run steps a))"
  using assms
proof (induction steps arbitrary: a)
  case (Cons us steps)
  obtain u s where us: "us = (u, s)" by (metis surj_pair)
  have "sees v cs ms (chat_tabs (snd (chat_exec u s a)))"
    by (rule keeps_exec) (use Cons.prems us in auto)
  then show ?case using Cons.IH Cons.prems(1) us by (simp add: chat_run_def)
qed (simp add: chat_run_def)

text \<open>
  C2: the conversations of a user are the user's own.  Whatever other users who are not administrators ask, rename, delete
  or list, in any order and whatever fails on the way, the conversations of a user and the messages in them stay as they
  are; and what any request of a user who is not an administrator then shows is the user's own: a conversation that it
  lists or renames, the conversation whose book or messages it reads, the book and the conversation of an answer; and an
  answer that is replayed is the one that the user's own record of the key holds.
\<close>

theorem chat_users_confined:
  assumes "tables_ok (chat_tabs a)" "list_all (\<lambda>(u, s). \<not> au_admin u \<and> au_id u \<noteq> v \<and> chat_step_ok s) steps" "\<not> au_admin u"
  shows "let b = chat_run steps a; (out, b') = chat_exec u s b in
    own_conversations v (chat_tabs b) = own_conversations v (chat_tabs a) \<and> own_messages v (chat_tabs b) = own_messages v (chat_tabs a) \<and>
    shows_its_own (au_id u) (chat_tabs b) (chat_tabs b') s out"
proof -
  let ?b = "chat_run steps a"
  have s: "sees v (own_conversations v (chat_tabs a)) (own_messages v (chat_tabs a)) (chat_tabs ?b)"
    by (rule run_sees [OF assms(2)]) (use assms(1) in \<open>simp add: sees_def\<close>)
  obtain out b' where e: "chat_exec u s ?b = (out, b')" by (metis surj_pair)
  have ok: "tables_ok (chat_tabs ?b)" using s by (simp add: sees_def)
  show ?thesis
    using s step_shows [OF assms(3) ok e] by (simp add: e sees_def Let_def)
qed

section \<open>Requests that fail\<close>

definition chat_record_of :: "chat_request \<Rightarrow> tables \<Rightarrow> idem_record option" where
  "chat_record_of r t =
     List.find (\<lambda>q. idem_triple q = (chat_scope, trim_space (au_id (cr_user r)), trim_space (cr_key r))) (tb_idempotency t)"

text \<open>What an operation that fails leaves behind.\<close>

definition fails_in :: "(chat_app \<Rightarrow> bool) \<Rightarrow> 'a chat_op \<Rightarrow> bool" where
  "fails_in P m \<longleftrightarrow> (\<forall>a er a'. P a \<longrightarrow> m a = (Inl er, a') \<longrightarrow> P a')"

lemma fails_in_keeps: "app_keeps P m \<Longrightarrow> fails_in P m"
  unfolding app_keeps_def fails_in_def by (metis snd_conv)

lemma fails_in_then:
  assumes "app_keeps P m" "\<And>x. fails_in P (k x)"
  shows "fails_in P (andthen m k)"
  unfolding fails_in_def
proof (intro allI impI)
  fix a er a' assume a: "P a" "andthen m k a = (Inl er, a')"
  obtain q a1 where m: "m a = (q, a1)" by (metis surj_pair)
  then have "P a1" using assms(1) a(1) by (auto simp: app_keeps_def)
  then show "P a'" using assms(2) a(2) m by (cases q) (auto simp: andthen_def fails_in_def)
qed

lemma fails_in_last: "fails_in P m \<Longrightarrow> fails_in P (andthen m (\<lambda>x. done_with (f x)))"
  by (auto simp: fails_in_def andthen_def done_with_def split: sum.splits prod.splits)

lemma fails_in_wrap: "fails_in P m \<Longrightarrow> fails_in P (wrap_error s m)"
  by (auto simp: fails_in_def wrap_error_def split: sum.splits prod.splits)

lemma fails_in_fail: "fails_in P (fail_with er)"
  by (simp add: fails_in_def fail_with_def)

lemma calm_fails: "fails_in (\<lambda>a :: chat_app. ca_db a = (t, [])) (chat_call f)"
  by (auto simp: fails_in_def chat_call_calm split: sum.splits prod.splits)

lemma calm_save: "fails_in (\<lambda>a :: chat_app. ca_db a = (t, [])) (save_exchange x r rec cc oc)"
proof -
  obtain c create where cc: "cc = (c, create)" by (metis surj_pair)
  show ?thesis
    unfolding save_exchange_def cc Let_def prod.case
    by (auto intro!: fails_in_last fails_in_wrap calm_fails fails_in_fail split: option.split sum.split)
qed

text \<open>The record that a request begins with.\<close>

abbreviation new_chat_record :: "chat_codec \<Rightarrow> chat_request \<Rightarrow> idem_record" where
  "new_chat_record x r \<equiv> idem_to_model (started_record x r)"

lemma record_started:
  "ir_id (new_chat_record x r) = trim_space (cr_new_record r)" "ir_scope (new_chat_record x r) = chat_scope"
  "ir_actor_id (new_chat_record x r) = trim_space (au_id (cr_user r))" "ir_key (new_chat_record x r) = trim_space (cr_key r)"
  "ir_request_hash (new_chat_record x r) = trim_space (chat_request_hash x r)" "ir_state (new_chat_record x r) = IdemProcessing"
  by (simp_all add: idem_to_model_def started_record_def)

lemma calm_get_record:
  assumes "ca_db a = (t, [])"
  shows "chat_call (get_idempotency_record chat_scope (trim_space (au_id (cr_user r))) (trim_space (cr_key r))) a =
      (Inr (chat_record_of r t), a)"
  using assms by (simp add: chat_call_calm get_idempotency_record_def chat_record_of_def)

lemma calm_begin:
  assumes "ca_db a = (t, [])" "trim_space (cr_key r) \<noteq> []" "chat_record_of r t = None"
    "trim_space (cr_new_record r) \<notin> ir_id ` set (tb_idempotency t)"
  shows "begin_chat_idempotency x r a = (Inr (ChatBegun (Some (started_record x r))),
      a\<lparr>ca_db := (t\<lparr>tb_idempotency := tb_idempotency t @ [new_chat_record x r]\<rparr>, [])\<rparr>)"
proof -
  have "idem_triple q \<noteq> idem_triple (new_chat_record x r)" if "q \<in> set (tb_idempotency t)" for q
    using assms(3) that by (auto simp: chat_record_of_def find_None_iff idem_triple_def record_started)
  then have "save_idempotency_record (started_record x r) t = (Inr (), t\<lparr>tb_idempotency := tb_idempotency t @ [new_chat_record x r]\<rparr>)"
    using assms(4) by (auto simp: save_idempotency_record_def Let_def upsert_def record_started)
  then have "start_chat_record x r a = (Inr (ChatBegun (Some (started_record x r))),
      a\<lparr>ca_db := (t\<lparr>tb_idempotency := tb_idempotency t @ [new_chat_record x r]\<rparr>, [])\<rparr>)"
    by (simp add: start_chat_record_def chat_call_calm [OF assms(1)])
  then show ?thesis
    using assms(2,3) by (simp add: begin_chat_idempotency_def Let_def andthen_def calm_get_record [OF assms(1)])
qed

text \<open>The record of a key that was new.\<close>

lemma record_of_new:
  assumes "chat_record_of r t = None" "idem_triple q = (chat_scope, trim_space (au_id (cr_user r)), trim_space (cr_key r))"
    "cr_user r' = cr_user r" "cr_key r' = cr_key r" "tb_idempotency t' = tb_idempotency t @ [q]"
  shows "chat_record_of r' t' = Some q"
  using assms by (simp add: chat_record_of_def find_append split: option.split)

text \<open>A request whose record is still being processed.\<close>

lemma calm_repeat:
  assumes "ca_db b = (t, [])" "trim_space (cr_key r) \<noteq> []" "chat_record_of r t = Some q"
    "ir_request_hash q = chat_request_hash x r" "ir_state q = IdemProcessing"
  shows "begin_chat_idempotency x r b = (Inl in_progress, b)"
  using assms by (simp add: begin_chat_idempotency_def Let_def andthen_def calm_get_record [OF assms(1)] fail_with_def)

text \<open>
  C19: a question that fails locks its idempotency key.  Even on a database without faults, when a request with a new key
  ends in an error (an unknown conversation, a model that fails, a client that goes away), its record stays in the state
  processing: nothing marks it failed, as the uploads of the book service do.  Every repetition of the request, at
  whatever time and with whatever model, is told that the request is in progress, and changes nothing.
\<close>

theorem failed_question_locks_key:
  assumes "ca_db a = (t, [])" "ask_question x e r a = (Inl er, a')"
    and "bo_owner_id (cr_book r) = au_id (cr_user r)" "bo_status (cr_book r) = BookReady" "trim_space (cr_question r) \<noteq> []"
    and "trim_space (cr_key r) \<noteq> []" "chat_record_of r t = None"
    and "trim_space (cr_new_record r) \<notin> ir_id ` set (tb_idempotency t)"
    and "trim_space (chat_request_hash x r) = chat_request_hash x r"
    and "ca_db b = ca_db a'"
  shows "ask_question x e' (r\<lparr>cr_debug := d, cr_stream := str, cr_now := now, cr_new_record := rid, cr_new_conversation := cid,
      cr_new_messages := mids\<rparr>) b = (Inl in_progress, b)"
proof -
  let ?r = "r\<lparr>cr_debug := d, cr_stream := str, cr_now := now, cr_new_record := rid, cr_new_conversation := cid, cr_new_messages := mids\<rparr>"
  let ?t = "t\<lparr>tb_idempotency := tb_idempotency t @ [new_chat_record x r]\<rparr>"
  have start: "begin_chat_idempotency x r a = (Inr (ChatBegun (Some (started_record x r))), a\<lparr>ca_db := (?t, [])\<rparr>)"
    by (rule calm_begin [OF assms(1,6,7,8)])
  have "fails_in (\<lambda>a :: chat_app. ca_db a = (?t, [])) (andthen (ensure_conversation r) (\<lambda>cc.
      andthen (load_history e (fst cc)) (\<lambda>history. andthen (answer_by_route e r history) (\<lambda>oc.
      andthen (save_exchange x r (Some (started_record x r)) cc oc) (\<lambda>an. done_with (an, False))))))" (is "fails_in ?P ?m")
    by (intro fails_in_then calm_ensure calm_history app_keeps_answer [OF calm_reading] fails_in_last calm_save)
  moreover have "?m (a\<lparr>ca_db := (?t, [])\<rparr>) = (Inl er, a')"
    using assms(2-5) start by (simp add: ask_question_def andthen_def)
  moreover have "?P (a\<lparr>ca_db := (?t, [])\<rparr>)" by simp
  ultimately have "?P a'" unfolding fails_in_def by blast
  then have b: "ca_db b = (?t, [])" using assms(10) by simp
  have q: "chat_record_of ?r ?t = Some (new_chat_record x r)"
    by (rule record_of_new [OF assms(7)]) (simp_all add: idem_triple_def record_started)
  have "begin_chat_idempotency x ?r b = (Inl in_progress, b)"
    using assms(6,9) by (intro calm_repeat [OF b _ q]) (simp_all add: record_started chat_request_hash_def)
  then show ?thesis using assms(3-5) by (simp add: ask_question_def andthen_def)
qed

text \<open>A user, a book that is ready, and a question about it in a conversation that does not exist.\<close>

definition demo_user :: auth_user where
  "demo_user = \<lparr>au_id = [2], au_admin = False\<rparr>"

definition demo_codec :: chat_codec where
  "demo_codec = \<lparr>cx_sha = (\<lambda>s. [104]), cx_write_answer = (\<lambda>_. Inr [97]), cx_read_answer = (\<lambda>_. Inl [101]), cx_write_sources = (\<lambda>_. []),
     cx_write_question = (\<lambda>_. []), cx_write_trace = (\<lambda>_ _ _. [])\<rparr>"

definition demo_question :: chat_request where
  "demo_question = \<lparr>cr_user = demo_user, cr_book = demo_book\<lparr>bo_status := BookReady\<rparr>, cr_question = [113], cr_conversation_id = [99],
     cr_key = [107], cr_debug = False, cr_stream = None, cr_now = 5, cr_new_record = [110], cr_new_conversation = [111],
     cr_new_messages = ([112], [114])\<rparr>"

definition demo_chat :: "tables \<Rightarrow> chat_app" where
  "demo_chat t = \<lparr>ca_db = (t, []), ca_sent = []\<rparr>"

lemma demo_letter: "98 \<le> n \<Longrightarrow> n \<le> 122 \<Longrightarrow> trim_space [n] = [n]" "trim_space [2] = [2]"
  by (rule trim_word1, simp add: is_space_def)+

lemmas demo_chat_simps = demo_user_def demo_codec_def demo_question_def demo_chat_def demo_book_def demo_letter

lemma demo_question_fails:
  "\<exists>a'. ask_question demo_codec e demo_question (demo_chat empty_tables) = (Inl conversation_not_found, a')"
proof -
  have none: "chat_record_of demo_question empty_tables = None"
    by (simp add: chat_record_of_def empty_tables_def)
  have "begin_chat_idempotency demo_codec demo_question (demo_chat empty_tables) =
      (Inr (ChatBegun (Some (started_record demo_codec demo_question))),
      (demo_chat empty_tables)\<lparr>ca_db := (empty_tables\<lparr>tb_idempotency := [new_chat_record demo_codec demo_question]\<rparr>, [])\<rparr>)"
    using calm_begin [of "demo_chat empty_tables" empty_tables demo_question demo_codec] none
    by (auto simp: demo_chat_simps empty_tables_def)
  then show ?thesis
    by (simp add: ask_question_def andthen_def demo_chat_simps ensure_conversation_def own_conversation_def wrap_error_def
        chat_call_def get_conversation_def empty_tables_def fail_with_def)
qed

text \<open>Every repetition of that question, in every environment.\<close>

theorem failed_question_locks_key_witness:
  "\<forall>e e'. \<exists>a'. ask_question demo_codec e demo_question (demo_chat empty_tables) = (Inl conversation_not_found, a') \<and>
     ask_question demo_codec e' (demo_question\<lparr>cr_debug := True, cr_stream := None, cr_now := 9, cr_new_record := [115],
       cr_new_conversation := [116], cr_new_messages := ([117], [118])\<rparr>) a' = (Inl in_progress, a')"
proof (intro allI)
  fix e e' :: chat_env
  obtain a' where a': "ask_question demo_codec e demo_question (demo_chat empty_tables) = (Inl conversation_not_found, a')"
    using demo_question_fails by blast
  show "\<exists>a'. ask_question demo_codec e demo_question (demo_chat empty_tables) = (Inl conversation_not_found, a') \<and>
     ask_question demo_codec e' (demo_question\<lparr>cr_debug := True, cr_stream := None, cr_now := 9, cr_new_record := [115],
       cr_new_conversation := [116], cr_new_messages := ([117], [118])\<rparr>) a' = (Inl in_progress, a')"
    by (intro exI [of _ a'] conjI a' failed_question_locks_key [where t = empty_tables, OF _ a' _ _ _ _ _ _ _ refl])
      (simp_all add: demo_chat_simps chat_record_of_def empty_tables_def chat_request_hash_def hash_strings_def)
qed

text \<open>Another user's conversation, which a user tries to delete and then to read.\<close>

definition demo_conversation :: conversation where
  "demo_conversation = \<lparr>co_id = [99], co_user_id = [3], co_book_id = [1], co_title = [116], co_last_message_at = None, co_created_at = 0,
     co_updated_at = 0\<rparr>"

definition demo_conversation_tables :: tables where
  "demo_conversation_tables = demo_tables\<lparr>tb_conversations := [conversation_to_model demo_conversation]\<rparr>"

theorem chat_users_confined_witness:
  "let b = chat_run [(demo_user, StepDelete [99]), (demo_user, StepRename 7 [99] [120])] (demo_chat demo_conversation_tables);
       (out, b') = chat_exec demo_user (StepBookId [99]) b in
    own_conversations [3] (chat_tabs b) = [conversation_to_model demo_conversation] \<and>
    shows_its_own [2] (chat_tabs b) (chat_tabs b') (StepBookId [99]) out"
proof -
  let ?a = "demo_chat demo_conversation_tables" and ?s = "[(demo_user, StepDelete [99]), (demo_user, StepRename 7 [99] [120])]"
  have one: "own_conversations [3] (chat_tabs ?a) = [conversation_to_model demo_conversation]"
    by (simp add: own_conversations_def demo_chat_def chat_tabs_def demo_conversation_tables_def conversation_to_model_def demo_conversation_def)
  have ok: "tables_ok (chat_tabs ?a)"
    using demo_tables_ok
    by (simp add: tables_ok_def keys_ok_def refs_ok_def demo_chat_def chat_tabs_def demo_conversation_tables_def demo_tables_def
        empty_tables_def conversation_to_model_def demo_conversation_def demo_book_def trims is_space_def)
  have steps: "list_all (\<lambda>(u, s). \<not> au_admin u \<and> au_id u \<noteq> [3] \<and> chat_step_ok s) ?s" "\<not> au_admin demo_user"
    by (simp_all add: demo_user_def chat_step_ok_def)
  show ?thesis
    using chat_users_confined [of ?a "[3]" ?s demo_user "StepBookId [99]", OF ok steps] one by (simp add: Let_def demo_user_def)
qed

section \<open>Requests that succeed\<close>

lemma fold_update_where: "update_where p f (rows @ [q]) = rows @ [f q]" if "p q" "\<And>x. x \<in> set rows \<Longrightarrow> \<not> p x"
  using that by (induction rows) (auto simp: update_where_def)

text \<open>The row that stands for an answer.\<close>

definition answered_record :: "chat_codec \<Rightarrow> chat_request \<Rightarrow> gostr \<Rightarrow> gostr \<Rightarrow> idem_record" where
  "answered_record x r cid js =
     (idem_to_model ((completed_record (cr_now r) (lit ''conversation'') cid 200 (started_record x r))\<lparr>ir_response := js\<rparr>))"

lemma answered_fields:
  "ir_id (answered_record x r cid js) = trim_space (cr_new_record r)"
  "idem_triple (answered_record x r cid js) = (chat_scope, trim_space (au_id (cr_user r)), trim_space (cr_key r))"
  "ir_request_hash (answered_record x r cid js) = trim_space (chat_request_hash x r)"
  "ir_state (answered_record x r cid js) = IdemCompleted" "ir_response (answered_record x r cid js) = js"
  "ir_created_at (answered_record x r cid js) = cr_now r"
  by (simp_all add: answered_record_def completed_record_def idem_to_model_def started_record_def idem_triple_def)

lemma calm_saved:
  assumes "save_exchange x r (Some (started_record x r)) cc oc a = (Inr an, a')"
    and "ca_db a = (t, [])" "tb_idempotency t = ids @ [new_chat_record x r]" "trim_space (cr_new_record r) \<notin> ir_id ` set ids"
    and "trim_space (cr_new_record r) \<noteq> []"
  shows "\<exists>t' cid js. ca_db a' = (t', []) \<and> cx_write_answer x an = Inr js \<and> tb_idempotency t' = ids @ [answered_record x r cid js]"
proof -
  obtain c create where cc: "cc = (c, create)" by (metis surj_pair)
  let ?an = "answer_of r c oc"
  have id: "trim_space (ir_id (started_record x r)) \<noteq> []" using assms(5) by (simp add: started_record_def)
  obtain js where js: "cx_write_answer x ?an = Inr js"
    using assms(1) id by (cases "cx_write_answer x ?an") (auto simp: save_exchange_def cc Let_def)
  let ?done = "(completed_record (cr_now r) (lit ''conversation'') (co_id c) 200 (started_record x r))\<lparr>ir_response := js\<rparr>"
  have call: "chat_call (save_conversation_exchange (cr_now r) c create (user_message x r c oc) (assistant_message x r c oc) (Some ?done)) a
      = (Inr (), a')" and an: "an = ?an"
    using assms(1) id js by (auto simp: save_exchange_def cc Let_def andthen_Inr)
  obtain t' where t': "ca_db a' = (t', [])"
    "save_conversation_exchange (cr_now r) c create (user_message x r c oc) (assistant_message x r c oc) (Some ?done) t = (Inr (), t')"
    using call by (auto simp: chat_call_calm [OF assms(2)] split: sum.splits prod.splits)
  have m: "idem_to_model ?done = answered_record x r (co_id c) js" by (simp add: answered_record_def)
  have "tb_idempotency t' = upsert ir_id assign_idem (answered_record x r (co_id c) js) (ids @ [new_chat_record x r])"
    using save_exchange_tables [OF t'(2)] by (auto simp: assms(3) m)
  also have "\<dots> = ids @ [assign_idem (new_chat_record x r) (answered_record x r (co_id c) js)]"
    using assms(4) by (force simp: upsert_def answered_fields record_started intro!: fold_update_where)
  also have "assign_idem (new_chat_record x r) (answered_record x r (co_id c) js) = answered_record x r (co_id c) js"
    by (simp add: assign_idem_def answered_record_def idem_to_model_def completed_record_def started_record_def)
  finally show ?thesis using t'(1) js an by blast
qed

text \<open>What the hash of a request is made of.\<close>

definition request_parts :: "chat_request \<Rightarrow> gostr list" where
  "request_parts r = [trim_space (bo_id (cr_book r)), trim_space (cr_conversation_id r), trim_space (cr_question r)]"

definition hashed_text :: "chat_request \<Rightarrow> gostr" where
  "hashed_text r = concat (map (\<lambda>p. p @ [0]) (request_parts r))"

lemma hash_of_text: "chat_request_hash x r = cx_sha x (hashed_text r)"
  by (simp add: chat_request_hash_def hash_strings_def hashed_text_def request_parts_def)

lemma ended_inj:
  assumes "(0 :: rune) \<notin> set p" "0 \<notin> set q"
  shows "p @ 0 # xs = q @ 0 # ys \<longleftrightarrow> p = q \<and> xs = ys"
  using assms
proof (induction p arbitrary: q)
  case Nil
  then show ?case by (cases q) auto
next
  case (Cons c p)
  then show ?case by (cases q) auto
qed

lemma hashed_text_inj:
  assumes "list_all (\<lambda>p. 0 \<notin> set p) (request_parts r @ request_parts r')"
  shows "hashed_text r' = hashed_text r \<longleftrightarrow> request_parts r' = request_parts r"
  using assms by (simp add: hashed_text_def request_parts_def ended_inj)

text \<open>
  C20: the answer of a question is given again for its key.  On a database without faults, when a request with a new key is
  answered, every later request of the user with that key, in whatever environment, for whatever book of the user that is
  ready, is given the answer that was stored, marked as a replay, if book, conversation and question are the same up to
  surrounding blanks, and is refused as a different request if one of them differs; it asks no model and changes nothing.
  The hash must not collide on the two requests, and their parts hold no NUL, which ends each of them in the hashed text.
\<close>

theorem answered_question_replayed:
  assumes "ca_db a = (t, [])" "ask_question x e r a = (Inr (an, rep), a')"
    and "trim_space (cr_key r) \<noteq> []" "chat_record_of r t = None"
    and "trim_space (cr_new_record r) \<notin> ir_id ` set (tb_idempotency t)" "trim_space (cr_new_record r) \<noteq> []"
    and "trim_space (chat_request_hash x r) = chat_request_hash x r"
    and "\<And>js. cx_write_answer x an = Inr js \<Longrightarrow> js \<noteq> [] \<and> cx_read_answer x js = Inr an"
    and "ca_db b = ca_db a'" "cr_user r' = cr_user r" "trim_space (cr_key r') = trim_space (cr_key r)"
    and "bo_owner_id (cr_book r') = au_id (cr_user r')" "bo_status (cr_book r') = BookReady" "trim_space (cr_question r') \<noteq> []"
    and "inj_on (cx_sha x) {hashed_text r, hashed_text r'}" "list_all (\<lambda>p. 0 \<notin> set p) (request_parts r @ request_parts r')"
  shows "ask_question x e' r' b = (if request_parts r' = request_parts r then Inr (an, True) else Inl different_request, b)"
proof -
  let ?t = "t\<lparr>tb_idempotency := tb_idempotency t @ [new_chat_record x r]\<rparr>"
  have start: "begin_chat_idempotency x r a = (Inr (ChatBegun (Some (started_record x r))), a\<lparr>ca_db := (?t, [])\<rparr>)"
    by (rule calm_begin [OF assms(1,3,4,5)])
  have ok: "\<not> (bo_owner_id (cr_book r) \<noteq> au_id (cr_user r) \<and> \<not> au_admin (cr_user r))" "bo_status (cr_book r) = BookReady"
    using assms(2) by (auto simp: ask_question_def split: if_splits)
  obtain cc a1 history a2 oc a3 where run: "ensure_conversation r (a\<lparr>ca_db := (?t, [])\<rparr>) = (Inr cc, a1)"
    "load_history e (fst cc) a1 = (Inr history, a2)" "answer_by_route e r history a2 = (Inr oc, a3)"
    "save_exchange x r (Some (started_record x r)) cc oc a3 = (Inr an, a')"
    using assms(2) start ok by (auto simp: ask_question_def andthen_Inr split: if_splits)
  have "ca_db a1 = (?t, [])" using app_keeps_D [OF calm_ensure _ run(1), of ?t] by simp
  then have "ca_db a2 = (?t, [])" by (rule app_keeps_D [OF calm_history _ run(2)])
  then have a3: "ca_db a3 = (?t, [])" by (rule app_keeps_D [OF app_keeps_answer [OF calm_reading] _ run(3)])
  obtain t' cid js where t': "ca_db a' = (t', [])" "cx_write_answer x an = Inr js"
    "tb_idempotency t' = tb_idempotency t @ [answered_record x r cid js]"
    using calm_saved [OF run(4) a3 _ assms(5,6)] by auto
  let ?q = "answered_record x r cid js"
  have "chat_record_of r' t' = Some ?q"
    using record_of_new [OF assms(4) answered_fields(2) refl refl t'(3)] assms(10,11) by (simp add: chat_record_of_def)
  moreover have "ca_db b = (t', [])" using t'(1) assms(9) by simp
  ultimately have "chat_call (get_idempotency_record chat_scope (trim_space (au_id (cr_user r'))) (trim_space (cr_key r'))) b = (Inr (Some ?q), b)"
    by (simp add: calm_get_record)
  then have "begin_chat_idempotency x r' b =
      (if chat_request_hash x r' = chat_request_hash x r then Inr (ChatReplayed an) else Inl different_request, b)"
    using assms(3,7,8,11) t'(2)
    by (simp add: begin_chat_idempotency_def Let_def andthen_def answered_fields fail_with_def replay_answer_def done_with_def)
  moreover have "chat_request_hash x r' = chat_request_hash x r \<longleftrightarrow> request_parts r' = request_parts r"
    using assms(15) hashed_text_inj [OF assms(16)] by (auto simp: hash_of_text inj_on_def)
  ultimately show ?thesis using assms(12-14) by (auto simp: ask_question_def andthen_def done_with_def)
qed

text \<open>Text of small letters and Han characters is normal.\<close>

definition plain :: "rune \<Rightarrow> bool" where
  "plain r \<longleftrightarrow> (97 \<le> r \<and> r \<le> 122) \<or> (19968 \<le> r \<and> r \<le> 40959)"

lemma normalize_plain: 
  assumes "list_all plain (r # s)"
  shows "normalize_router_text demo_unicode (r # s) = r # s"
proof -
  have p: "\<not> is_space q" "router_rune q = q" "lower_rune id q = q" if "q \<in> set (r # s)" for q
    using that assms by (auto simp: list_all_iff plain_def is_space_def router_rune_def lower_rune_def)
  have "trim_space (r # s) = r # s"
    using p(1) [of r] p(1) [of "last s"]
    by (cases "s = []") (simp_all add: trim_space_def trim_left_def trim_right_def dropWhile_eq_self_iff hd_append hd_rev)
  moreover have "map router_rune (r # s) = r # s" using p(2) by (intro map_idI) auto
  moreover have "str_fields (r # s) = [r # s]"
  proof -
    have "is_word (r # s)" using p(1) by (auto simp: is_word_def)
    then show ?thesis using str_fields_Cons_word [of "r # s" "[]"] by simp
  qed
  moreover have "to_lower (un_lower demo_unicode) (r # s) = r # s"
    unfolding to_lower_def demo_unicode_def using p(3) by (intro map_idI) auto
  ultimately show ?thesis by (simp add: normalize_router_text_def)
qed
lemma normalize_pdf: "normalize_router_text demo_unicode [36825, 20010, 112, 100, 102, 26159, 20160, 20040] = [36825, 20010, 112, 100, 102, 26159, 20160, 20040]"
  by (rule normalize_plain) (simp add: plain_def)
lemma demo_route: "fst (decide_query_route demo_unicode [20170,22825,22825,27668] []) = RouteOutOfScopeReject"
  by (simp add: Let_def decide_query_route_def normalize_plain plain_def 
    has_recent_assistant_reply_def is_document_overview_question_def is_one_of_def mentions_def overview_questions_def overview_patterns_def
    is_clearly_out_of_scope_realtime_def realtime_terms_def time_terms_def has_document_anchor_def document_anchors_def
    looks_like_conversation_reference_def conversation_references_def has_prefix_def)

text \<open>Whether it is going to be fine today, which no book tells.\<close>

definition demo_weather :: chat_request where
  "demo_weather = demo_question\<lparr>cr_question := [20170, 22825, 22825, 27668], cr_conversation_id := []\<rparr>"

definition demo_chat_config :: chat_config where
  "demo_chat_config = \<lparr>cc_top_k = 5, cc_dense_recall = 5, cc_lexical_recall = 5, cc_dense_weight = 1, cc_lexical_weight = 1,
     cc_fusion_top_k = 5, cc_history_limit = 0, cc_rerank_top_n = 5, cc_mode = [], cc_context_budget = 100, cc_min_evidence = 1,
     cc_rewrite = False, cc_multi = False, cc_abstain = True\<rparr>"

definition demo_answer :: chat_answer where
  "demo_answer =
     \<lparr>an_conversation = \<lparr>co_id = [111], co_user_id = [2], co_book_id = [1], co_title = generate_conversation_title (cr_question demo_weather),
        co_last_message_at = Some 5, co_created_at = 5, co_updated_at = 5\<rparr>, an_question = cr_question demo_weather,
      an_answer = oc_answer (reject_out_of_scope (undefined :: query_plan)), an_citations = [], an_abstained = True, an_created_at = 5, an_debug = None\<rparr>"

lemma demo_weather_answered:
  assumes "cx_write_answer x demo_answer = Inr js" "cn_config e = demo_chat_config" "cn_unicode e = demo_unicode"
  shows "\<exists>a'. ask_question x e demo_weather (demo_chat demo_tables) = (Inr (demo_answer, False), a')"
proof -
  let ?c = "an_conversation demo_answer"
  have none: "chat_record_of demo_weather demo_tables = None"
    by (simp add: chat_record_of_def demo_tables_def empty_tables_def)
  let ?t = "demo_tables\<lparr>tb_idempotency := [new_chat_record x demo_weather]\<rparr>"
  let ?b = "(demo_chat demo_tables)\<lparr>ca_db := (?t, [])\<rparr>"
  have start: "begin_chat_idempotency x demo_weather (demo_chat demo_tables) = (Inr (ChatBegun (Some (started_record x demo_weather))), ?b)"
    using calm_begin [of "demo_chat demo_tables" demo_tables demo_weather x] none
    by (simp add: demo_weather_def demo_chat_simps demo_tables_def empty_tables_def)
  have ensure: "ensure_conversation demo_weather ?b = (Inr (?c, True), ?b)"
    by (simp add: ensure_conversation_def demo_answer_def demo_weather_def demo_chat_simps done_with_def)
  have route: "qp_route (build_query_plan e (cr_book demo_weather) (cr_question demo_weather) []) = RouteOutOfScopeReject"
    by (simp add: build_query_plan_def Let_def assms(3) demo_route demo_weather_def)
  let ?oc = "reject_out_of_scope (build_query_plan e (cr_book demo_weather) (cr_question demo_weather) [])"
  have oc: "answer_by_route e demo_weather [] ?b = (Inr ?oc, ?b)"
    by (simp add: answer_by_route_def Let_def route assms(2) demo_chat_config_def done_with_def)
  have an: "answer_of demo_weather ?c ?oc = demo_answer"
    by (simp add: answer_of_def demo_answer_def demo_weather_def demo_chat_simps reject_out_of_scope_def)
  let ?rec = "(completed_record 5 (lit ''conversation'') (co_id ?c) 200 (started_record x demo_weather))\<lparr>ir_response := js\<rparr>"
  have "\<exists>t'. save_conversation_exchange 5 ?c True (user_message x demo_weather ?c ?oc) (assistant_message x demo_weather ?c ?oc) (Some ?rec) ?t = (Inr (), t')"
    by (simp add: save_conversation_exchange_def create_conversation_def insert_conversation_def insert_rows_def conversation_to_model_def
        insert_message_def message_to_model_def user_message_def assistant_message_def demo_answer_def demo_weather_def demo_chat_simps
        demo_tables_def empty_tables_def save_idempotency_record_def idem_to_model_def started_record_def completed_record_def Let_def)
  then obtain t' where t': "save_conversation_exchange 5 ?c True (user_message x demo_weather ?c ?oc) (assistant_message x demo_weather ?c ?oc)
      (Some ?rec) ?t = (Inr (), t')"
    by blast
  have save: "\<exists>a'. save_exchange x demo_weather (Some (started_record x demo_weather)) (?c, True) ?oc ?b = (Inr demo_answer, a')"
  proof -
    have five: "cr_now demo_weather = 5" "trim_space (ir_id (started_record x demo_weather)) \<noteq> []"
      by (simp_all add: started_record_def demo_weather_def demo_chat_simps)
    have db: "ca_db ?b = (?t, [])" by simp
    show ?thesis
      using t' assms(1) five by (simp add: save_exchange_def Let_def an andthen_def wrap_error_def chat_call_calm [OF db] done_with_def)
  qed
  have ok: "bo_owner_id (cr_book demo_weather) = au_id (cr_user demo_weather)" "bo_status (cr_book demo_weather) = BookReady"
    "trim_space (cr_question demo_weather) \<noteq> []"
    by (simp_all add: demo_weather_def demo_chat_simps trims is_space_def)
  have history: "load_history e ?c ?b = (Inr [], ?b)"
    by (simp add: load_history_def assms(2) demo_chat_config_def done_with_def)
  show ?thesis
    using save by (auto simp: ask_question_def ok start ensure history oc andthen_def done_with_def)
qed

text \<open>The same question again, and another question with its key.\<close>

theorem answered_question_replayed_witness:
  "\<forall>e. let e1 = e\<lparr>cn_config := demo_chat_config, cn_unicode := demo_unicode\<rparr>;
        x = demo_codec\<lparr>cx_read_answer := \<lambda>_. Inr demo_answer, cx_sha := \<lambda>s. s\<rparr> in
     \<exists>a'. ask_question x e1 demo_weather (demo_chat demo_tables) = (Inr (demo_answer, False), a') \<and>
       ask_question x e (demo_weather\<lparr>cr_now := 9, cr_debug := True\<rparr>) a' = (Inr (demo_answer, True), a') \<and>
       ask_question x e (demo_weather\<lparr>cr_question := [35841]\<rparr>) a' = (Inl different_request, a')"
proof
  fix e :: chat_env
  let ?e = "e\<lparr>cn_config := demo_chat_config, cn_unicode := demo_unicode\<rparr>"
  let ?x = "demo_codec\<lparr>cx_read_answer := \<lambda>_. Inr demo_answer, cx_sha := \<lambda>s. s\<rparr>"
  obtain a' where a': "ask_question ?x ?e demo_weather (demo_chat demo_tables) = (Inr (demo_answer, False), a')"
    using demo_weather_answered [of ?x "[97]" ?e] by (auto simp: demo_codec_def)
  have again: "ask_question ?x e r' a' = (if request_parts r' = request_parts demo_weather then Inr (demo_answer, True) else Inl different_request, a')"
    if "r' = demo_weather\<lparr>cr_now := 9, cr_debug := True\<rparr> \<or> r' = demo_weather\<lparr>cr_question := [35841]\<rparr>" for r'
    using that
    by (intro answered_question_replayed [where t = demo_tables, OF _ a'])
      (auto simp: demo_weather_def demo_chat_simps chat_record_of_def demo_tables_def empty_tables_def chat_request_hash_def
        hash_strings_def request_parts_def trims is_space_def)
  show "let e1 = ?e; x = ?x in
     \<exists>a'. ask_question x e1 demo_weather (demo_chat demo_tables) = (Inr (demo_answer, False), a') \<and>
       ask_question x e (demo_weather\<lparr>cr_now := 9, cr_debug := True\<rparr>) a' = (Inr (demo_answer, True), a') \<and>
       ask_question x e (demo_weather\<lparr>cr_question := [35841]\<rparr>) a' = (Inl different_request, a')"
    unfolding Let_def
  proof (intro exI [of _ a'] conjI a')
    show "ask_question ?x e (demo_weather\<lparr>cr_now := 9, cr_debug := True\<rparr>) a' = (Inr (demo_answer, True), a')"
      by (subst again) (simp_all add: request_parts_def)
    have "request_parts (demo_weather\<lparr>cr_question := [35841]\<rparr>) \<noteq> request_parts demo_weather"
      by (simp add: request_parts_def demo_weather_def trims is_space_def)
    then show "ask_question ?x e (demo_weather\<lparr>cr_question := [35841]\<rparr>) a' = (Inl different_request, a')"
      by (subst again) simp_all
  qed
qed

text \<open>What becomes of the messages.\<close>

lemma frame_of: "chat_keeps (\<lambda>t. tb_messages t = ms) m \<Longrightarrow> tb_messages (chat_tabs a) = ms \<Longrightarrow> m a = (q, a') \<Longrightarrow> tb_messages (chat_tabs a') = ms"
  unfolding chat_app_keeps by (rule app_keeps_D)


lemma messages_own: "chat_keeps (\<lambda>t. tb_messages t = ms) (own_conversation user cid)"
  by (rule keeps_own)

lemma messages_ensure: "chat_keeps (\<lambda>t. tb_messages t = ms) (ensure_conversation r)"
  by (auto simp: ensure_conversation_def Let_def intro!: chat_keeps_then messages_own)

lemma messages_history: "chat_keeps (\<lambda>t. tb_messages t = ms) (load_history e c)"
  by (simp add: load_history_def Let_def chat_keeps_query)

lemma messages_save_record: "chat_keeps (\<lambda>t. tb_messages t = ms) (chat_call (save_idempotency_record q))"
  by (rule chat_keeps_call) (auto simp: save_idempotency_record_def Let_def split: if_splits)

lemma messages_begin: "chat_keeps (\<lambda>t. tb_messages t = ms) (begin_chat_idempotency x r)"
  by (rule keeps_begin_of [OF messages_save_record])

text \<open>The messages after a request.\<close>

definition stored :: "chat_codec \<Rightarrow> chat_request \<Rightarrow> message_row list \<Rightarrow> (app_err + chat_answer \<times> bool) \<times> chat_app \<Rightarrow> bool" where
  "stored x r ms qa =
     (let (q, a') = qa; ms' = tb_messages (chat_tabs a') in
      case q of
        Inr (an, True) \<Rightarrow> ms' = ms
      | Inr (an, False) \<Rightarrow> (\<exists>c oc. an = answer_of r c oc \<and> ms' = ms @ exchange x r c oc)
      | Inl _ \<Rightarrow> ms' = ms \<or> (\<exists>c oc. ms' = ms @ exchange x r c oc))"

lemma stored_then:
  assumes "chat_keeps (\<lambda>t. tb_messages t = ms) m" "tb_messages (chat_tabs a) = ms"
    and "\<And>y a1. tb_messages (chat_tabs a1) = ms \<Longrightarrow> stored x r ms (k y a1)"
  shows "stored x r ms (andthen m k a)"
proof -
  obtain q a1 where q: "m a = (q, a1)" by (metis surj_pair)
  then have "tb_messages (chat_tabs a1) = ms" by (rule frame_of [OF assms(1,2)])
  then show ?thesis using assms(3) q by (cases q) (simp_all add: andthen_def stored_def)
qed

lemma stored_save:
  assumes "tb_messages (chat_tabs a) = ms"
  shows "stored x r ms (andthen (save_exchange x r rc cc oc) (\<lambda>an. done_with (an, False)) a)"
proof -
  obtain c create where cc: "cc = (c, create)" by (metis surj_pair)
  obtain q a' where "save_exchange x r rc (c, create) oc a = (q, a')" by (metis surj_pair)
  with save_exchange_messages [OF this] show ?thesis
    using assms by (cases q) (auto simp: andthen_def cc done_with_def stored_def, blast)
qed

lemma stored_ask: "stored x r (tb_messages (chat_tabs a)) (ask_question x e r a)" (is "stored x r ?ms _")
proof -
  have rest: "stored x r ?ms (andthen (ensure_conversation r) (\<lambda>cc. andthen (load_history e (fst cc)) (\<lambda>history.
      andthen (answer_by_route e r history) (\<lambda>oc. andthen (save_exchange x r rc cc oc) (\<lambda>an. done_with (an, False))))) b)"
    if "tb_messages (chat_tabs b) = ?ms" for rc b
    by (intro stored_then [OF messages_ensure that] stored_then [OF messages_history] stored_then [OF keeps_answer] stored_save)
  have "stored x r ?ms (andthen (begin_chat_idempotency x r) (\<lambda>begun. case begun of
      ChatReplayed an \<Rightarrow> done_with (an, True)
    | ChatBegun rc \<Rightarrow> andthen (ensure_conversation r) (\<lambda>cc. andthen (load_history e (fst cc)) (\<lambda>history.
      andthen (answer_by_route e r history) (\<lambda>oc. andthen (save_exchange x r rc cc oc) (\<lambda>an. done_with (an, False)))))) a)"
  proof (rule stored_then [OF messages_begin refl])
    fix begun a1 assume "tb_messages (chat_tabs a1) = ?ms"
    then show "stored x r ?ms ((case begun of
        ChatReplayed an \<Rightarrow> done_with (an, True)
      | ChatBegun rc \<Rightarrow> andthen (ensure_conversation r) (\<lambda>cc. andthen (load_history e (fst cc)) (\<lambda>history.
        andthen (answer_by_route e r history) (\<lambda>oc. andthen (save_exchange x r rc cc oc) (\<lambda>an. done_with (an, False)))))) a1)"
      by (cases begun) (simp_all add: rest, simp add: stored_def done_with_def)
  qed
  then show ?thesis by (simp add: ask_question_def stored_def fail_with_def)
qed

text \<open>
  C3: an exchange is stored as a whole, with the answer that is returned.  Whatever fails on the way, a request leaves the
  messages that were stored as they are and in their order.  When it is answered, the question and that very answer, with
  its citations, stand after them as the messages of the conversation of the answer; a replay adds none; and after an
  error either none was added or, when the reply of the database was lost, the whole exchange.
\<close>

theorem exchange_whole:
  "let ms = tb_messages (chat_tabs a); (q, a') = ask_question x e r a; ms' = tb_messages (chat_tabs a') in
   case q of
     Inr (an, True) \<Rightarrow> ms' = ms
   | Inr (an, False) \<Rightarrow> (\<exists>c oc. an = answer_of r c oc \<and> ms' = ms @ exchange x r c oc)
   | Inl _ \<Rightarrow> ms' = ms \<or> (\<exists>c oc. ms' = ms @ exchange x r c oc)"
  using stored_ask [of x r a e] by (simp only: stored_def Let_def)

section \<open>What answers rest on\<close>

text \<open>An answer from evidence: too little evidence, or the text of the model or of the refusal that stands in for it.\<close>

lemma evidence_cases:
  assumes "answer_from_evidence e r plan history a0 = (Inr oc, a')"
  obtains (few) d evs cits sel v where "v = validate_evidence_selection plan sel cits (cc_abstain (cn_config e))" "\<not> va_passed v"
      "oc = evidence_outcome plan d (abstain_answer_for_plan (va_reason v)) cits True evs v"
    | (enough) d evs cits sel v g sp up a where "v = validate_evidence_selection plan sel cits (cc_abstain (cn_config e))" "va_passed v"
      "generate_answer_text e (cr_stream r) sp up a = (g, a')"
      "oc = conclude e plan d (cr_question r) (case g of Inl _ \<Rightarrow> abstain_answer_for_plan (va_reason v) | Inr t \<Rightarrow> trim_space t) cits evs v"
proof -
  obtain retrieved d where rd: "retrieve_evidence_for_plan e (cr_book r) (chat_tabs a0) plan = (retrieved, d)" by (metis surj_pair)
  obtain sel evs a1 where s: "select_evidence e (cr_book r) plan retrieved a0 = (Inr (sel, evs), a1)"
    using assms by (auto simp: answer_from_evidence_def rd andthen_Inr)
  obtain ctx cits where cc: "build_context_with_evidence sel evs = (ctx, cits)" by (metis surj_pair)
  obtain sp up where p: "evidence_prompts (cc_abstain (cn_config e)) (cr_book r) plan (build_history (cn_unicode e) history) ctx = (sp, up)"
    by (metis surj_pair)
  obtain g a2 where g: "generate_answer_text e (cr_stream r) sp up a1 = (g, a2)" by (metis surj_pair)
  let ?v = "validate_evidence_selection plan sel cits (cc_abstain (cn_config e))"
  have "(if \<not> va_passed ?v then (Inr (evidence_outcome plan d (abstain_answer_for_plan (va_reason ?v)) cits True evs ?v), a1)
      else case (g, cr_stream r) of (Inl er, Some _) \<Rightarrow> (Inl (ErrText er), a2)
        | _ \<Rightarrow> (Inr (conclude e plan d (cr_question r)
              (case g of Inl _ \<Rightarrow> abstain_answer_for_plan (va_reason ?v) | Inr t \<Rightarrow> trim_space t) cits evs ?v), a2)) = (Inr oc, a')"
    using assms unfolding answer_from_evidence_def Let_def rd prod.case andthen_def s sum.case cc p g by simp
  then show thesis
  proof (cases "va_passed ?v")
    case False
    then have "oc = evidence_outcome plan d (abstain_answer_for_plan (va_reason ?v)) cits True evs ?v"
      using \<open>(if \<not> va_passed ?v then _ else _) = _\<close> by simp
    with False show thesis by (rule few [OF refl])
  next
    case True
    then have "a' = a2 \<and> oc = conclude e plan d (cr_question r)
        (case g of Inl _ \<Rightarrow> abstain_answer_for_plan (va_reason ?v) | Inr t \<Rightarrow> trim_space t) cits evs ?v"
      using \<open>(if \<not> va_passed ?v then _ else _) = _\<close> by (auto split: sum.splits option.splits)
    then show thesis using enough [OF refl True] g by blast
  qed
qed

lemma contains_prefix: "str_contains (p @ s) p"
  by (cases "p @ s") (auto simp del: append_eq_Cons_conv Cons_eq_append_conv dest: arg_cong [of _ _ "\<lambda>t. has_prefix t p"])

lemma refusal_prefix: "has_prefix (abstain_answer_for_plan reason) default_abstain_answer"
  by (simp add: abstain_answer_for_plan_def)

lemma outcome_fields [simp]:
  "oc_answer (evidence_outcome plan d t cits ab evs v) = t" "oc_citations (evidence_outcome plan d t cits ab evs v) = cits"
  "oc_abstained (evidence_outcome plan d t cits ab evs v) = ab"
  "at_validation (oc_trace (evidence_outcome plan d t cits True evs v)) = v"
  "va_reason v \<noteq> [] \<Longrightarrow> at_validation (oc_trace (evidence_outcome plan d t cits ab evs v)) = v"
  "oc_answer (history_outcome plan t cits ab) = t" "oc_abstained (history_outcome plan t cits ab) = ab"
  "oc_answer (overview_outcome plan t cits ab) = t" "oc_abstained (overview_outcome plan t cits ab) = ab"
  by (simp_all add: evidence_outcome_def history_outcome_def overview_outcome_def Let_def)

lemma enough_citations: "va_passed (validate_evidence_selection plan sel cits True) \<Longrightarrow> qp_required plan \<le> int (length cits)"
  by (auto simp: validate_evidence_selection_def split: if_splits)

text \<open>The chunks that a description of a document is made of, and whether anything is known of it.\<close>

definition overview_chunks :: "book \<Rightarrow> tables \<Rightarrow> chunk list" where
  "overview_chunks b t = (case fst (list_chunks_by_book (bo_id b) t) of Inl _ \<Rightarrow> [] | Inr cs \<Rightarrow> select_overview_chunks cs 4)"

definition nothing_known :: "book \<Rightarrow> chunk list \<Rightarrow> bool" where
  "nothing_known b cs \<longleftrightarrow> build_overview_sources b cs = [] \<and> trim_space (bo_document_summary b) = [] \<and>
     trim_space (bo_original_filename b) = [] \<and> trim_space (bo_title b) = []"

text \<open>What the answer of a route must be, when it is no refusal; \<open>t\<close> are the tables.\<close>

definition route_promise :: "chat_env \<Rightarrow> chat_request \<Rightarrow> message list \<Rightarrow> tables \<Rightarrow> outcome \<Rightarrow> bool" where
  "route_promise e r history t oc =
     (let b = cr_book r; plan = build_query_plan e b (cr_question r) history; u = cn_unicode e; answer = trim_space (oc_answer oc);
          language = detect_language u (cr_question r @ [10] @ answer); cs = overview_chunks b t in
      case qp_route plan of
        RouteHistoryOnly \<Rightarrow>
          answer \<noteq> [] \<and> \<not> says_insufficient u (oc_answer oc) \<and> trim_space (build_history u history) \<noteq> [] \<and>
          oc_citations oc = latest_assistant_sources u (cn_sources e) history
      | RouteDocumentOverview \<Rightarrow>
          \<not> nothing_known b cs \<and> oc_citations oc = build_overview_sources b cs \<and>
          (oc_answer oc = fallback_document_overview_answer u b cs \<or> (answer \<noteq> [] \<and> \<not> says_insufficient u (oc_answer oc)))
      | RouteOutOfScopeReject \<Rightarrow> False
      | RouteRag \<Rightarrow>
          answer \<noteq> [] \<and> qp_required plan \<le> int (length (oc_citations oc)) \<and>
          (if says_insufficient u answer then True
           else oc_citations oc \<noteq> [] \<and>
             8 / 100 \<le> validation_token_overlap (tokenize u answer language)
                        (concat (map (\<lambda>c. tokenize u (cs_snippet c) language) (oc_citations oc)))))"

definition is_refusal :: "gostr \<Rightarrow> bool" where
  "is_refusal t \<longleftrightarrow> has_prefix t default_abstain_answer \<or> has_prefix t out_of_scope_abstain_answer"

lemma history_cases:
  assumes "answer_from_history e r plan history a = (Inr oc, a')" "cc_abstain (cn_config e)"
  shows "if oc_abstained oc then oc_answer oc = default_abstain_answer
    else trim_space (oc_answer oc) \<noteq> [] \<and> \<not> says_insufficient (cn_unicode e) (oc_answer oc) \<and>
      trim_space (build_history (cn_unicode e) history) \<noteq> [] \<and>
      oc_citations oc = latest_assistant_sources (cn_unicode e) (cn_sources e) history"
proof -
  obtain sp up where p: "history_prompts (cc_abstain (cn_config e)) (cr_book r) (cr_question r) (build_history (cn_unicode e) history) = (sp, up)"
    by (metis surj_pair)
  obtain g a1 where g: "generate_answer_text e (cr_stream r) sp up a = (g, a1)" by (metis surj_pair)
  show ?thesis
    using assms unfolding answer_from_history_def Let_def p prod.case g
    by (auto simp: history_outcome_def split: if_splits sum.splits option.splits)
qed

lemma overview_cases:
  assumes "answer_document_overview e r plan a = (Inr oc, a')"
  shows "let b = cr_book r; cs = overview_chunks b (chat_tabs a); u = cn_unicode e in
    if oc_abstained oc then oc_answer oc = default_abstain_answer
    else \<not> nothing_known b cs \<and> oc_citations oc = build_overview_sources b cs \<and>
      (oc_answer oc = fallback_document_overview_answer u b cs \<or> (trim_space (oc_answer oc) \<noteq> [] \<and> \<not> says_insufficient u (oc_answer oc)))"
proof -
  obtain chunks a1 where q: "chat_call (list_chunks_by_book (bo_id (cr_book r))) a = (Inr chunks, a1)"
    using assms by (auto simp: answer_document_overview_def Let_def andthen_Inr)
  have cs: "select_overview_chunks chunks 4 = overview_chunks (cr_book r) (chat_tabs a)"
    using chat_call_ok [OF q] by (simp add: overview_chunks_def)
  show ?thesis
    using assms
    unfolding answer_document_overview_def Let_def andthen_def wrap_error_def q prod.case sum.case cs nothing_known_def [symmetric]
    by (auto simp: overview_outcome_def nothing_known_def split: if_splits sum.splits option.splits)
qed

text \<open>
  C4: when refusals are enabled, an answer is a refusal, which is one of the two texts that say so, or rests on something,
  by its route.  An answer from retrieval is not blank, has at least the citations that its plan requires and, unless it
  says itself that the evidence is insufficient, shares at least 8 percent of its words with the snippets it cites.  An
  answer that continues a conversation is not blank and does not say that the evidence is insufficient, there is a history,
  and its citations are those of the last answer.  The description of a document cites exactly the chunks it is made of (or
  its stored summary, when there are none), is made only of a document of which something is known, and is the text that
  the service composes itself or a text of the model that is not blank and does not say that the evidence is insufficient.
  A question about the weather or the news is never answered.
\<close>

theorem answers_grounded:
  "case fst (answer_by_route (e\<lparr>cn_config := (cn_config e)\<lparr>cc_abstain := True\<rparr>\<rparr>) r history a) of
     Inl _ \<Rightarrow> True
   | Inr oc \<Rightarrow> if oc_abstained oc then is_refusal (oc_answer oc)
               else route_promise (e\<lparr>cn_config := (cn_config e)\<lparr>cc_abstain := True\<rparr>\<rparr>) r history (chat_tabs a) oc"
proof -
  let ?e = "e\<lparr>cn_config := (cn_config e)\<lparr>cc_abstain := True\<rparr>\<rparr>"
  let ?plan = "build_query_plan ?e (cr_book r) (cr_question r) history"
  have abst: "cc_abstain (cn_config ?e)" by simp
  have evidence: "if oc_abstained oc then is_refusal (oc_answer oc) else route_promise ?e r history (chat_tabs a) oc"
    if "answer_from_evidence ?e r ?plan history a = (Inr oc, a')" "qp_route ?plan = RouteRag" for oc a'
    using that(1)
  proof (cases rule: evidence_cases)
    case few
    then show ?thesis by (simp add: is_refusal_def refusal_prefix)
  next
    case (enough d evs cits sel v g sp up a1)
    then have "qp_required ?plan \<le> int (length cits)" using enough_citations abst by simp
    then show ?thesis
      using that(2) unfolding enough(4) conclude_def route_promise_def Let_def
      by (simp add: abst is_refusal_def refusal_prefix validate_grounding_def Let_def)
  qed
  have refused: "is_refusal default_abstain_answer" using has_prefix_append [of default_abstain_answer "[]"] by (simp add: is_refusal_def)
  obtain q a' where q: "answer_by_route ?e r history a = (q, a')" by (metis surj_pair)
  show ?thesis
  proof (cases q)
    case (Inr oc)
    show ?thesis
    proof (cases "qp_route ?plan")
      case RouteRag
      then show ?thesis using q Inr evidence by (simp add: answer_by_route_def Let_def)
    next
      case RouteDocumentOverview
      then have "answer_document_overview ?e r ?plan a = (Inr oc, a')" using q Inr by (simp add: answer_by_route_def Let_def)
      from overview_cases [OF this] show ?thesis using q Inr refused RouteDocumentOverview by (auto simp: route_promise_def Let_def)
    next
      case RouteHistoryOnly
      then have "answer_from_history ?e r ?plan history a = (Inr oc, a')" using q Inr by (simp add: answer_by_route_def Let_def)
      from history_cases [OF this abst] show ?thesis using q Inr refused RouteHistoryOnly
        by (simp add: route_promise_def Let_def split: if_splits)
    next
      case RouteOutOfScopeReject
      then show ?thesis using q Inr
        by (auto simp: answer_by_route_def Let_def done_with_def reject_out_of_scope_def is_refusal_def)
    qed
  qed (simp add: q)
qed

text \<open>The text that stands in for an answer that the model did not give, although the evidence is enough.\<close>

definition enough_evidence :: gostr where
  "enough_evidence = [24050, 36873, 35777, 25454, 28385, 36275, 22238, 31572, 31574, 30053]"

lemma stand_in:
  "abstain_answer_for_plan enough_evidence = default_abstain_answer @ missing_evidence @ enough_evidence"
  "trim_space (abstain_answer_for_plan enough_evidence) = abstain_answer_for_plan enough_evidence"
  "abstain_answer_for_plan enough_evidence \<noteq> []"
  by (simp_all add: abstain_answer_for_plan_def default_abstain_answer_def insufficient_words_def missing_evidence_def enough_evidence_def
      trims is_space_def)

lemma stand_in_grounded: "validate_grounding u question (abstain_answer_for_plan enough_evidence) cits"
proof -
  have "str_contains (abstain_answer_for_plan enough_evidence) insufficient_words"
    unfolding stand_in(1) default_abstain_answer_def append_assoc by (rule contains_prefix)
  then show ?thesis using stand_in(2,3) by (simp add: validate_grounding_def Let_def says_insufficient_def)
qed

lemma failing_model:
  assumes "cc_abstain (cn_config e)" "cn_generate e = (\<lambda>_ _. Inl er)" "cr_stream r = None"
    and "select_evidence e (cr_book r) plan (fst (retrieve_evidence_for_plan e (cr_book r) (chat_tabs a) plan)) a = (Inr (sel, evs), a1)"
    and "build_context_with_evidence sel evs = (ctx, cits)" "va_passed (validate_evidence_selection plan sel cits True)"
  obtains d v where "v = \<lparr>va_passed = True, va_reason = enough_evidence\<rparr>"
    "answer_from_evidence e r plan history a =
       (Inr (evidence_outcome plan d (abstain_answer_for_plan enough_evidence) cits False evs v), a1)"
proof -
  let ?v = "\<lparr>va_passed = True, va_reason = enough_evidence\<rparr>"
  have v: "validate_evidence_selection plan sel cits True = ?v"
    using assms(6) by (simp add: validate_evidence_selection_def enough_evidence_def split: if_splits)
  obtain retrieved d where rd: "retrieve_evidence_for_plan e (cr_book r) (chat_tabs a) plan = (retrieved, d)" by (metis surj_pair)
  have se: "select_evidence e (cr_book r) plan retrieved a = (Inr (sel, evs), a1)" using assms(4) by (simp add: rd)
  have on: "cc_abstain (cn_config e) = True" using assms(1) by simp
  obtain sp up where p: "evidence_prompts True (cr_book r) plan (build_history (cn_unicode e) history) ctx = (sp, up)"
    by (metis surj_pair)
  have g: "generate_answer_text e None sp up a1 = (Inl er, a1)" by (simp add: generate_answer_text_def assms(2))
  have c: "conclude e plan d (cr_question r) (abstain_answer_for_plan enough_evidence) cits evs ?v =
      evidence_outcome plan d (abstain_answer_for_plan enough_evidence) cits False evs ?v"
    by (simp add: conclude_def stand_in(2,3) stand_in_grounded)
  have "answer_from_evidence e r plan history a =
      (Inr (evidence_outcome plan d (abstain_answer_for_plan enough_evidence) cits False evs ?v), a1)"
    unfolding answer_from_evidence_def Let_def rd prod.case andthen_def se sum.case assms(5) on v assms(3) p g
    by (simp add: c)
  then show thesis by (rule that [OF refl])
qed

text \<open>
  C21: a model that fails is reported as an answer.  When a question of the owner of a ready book is sent to retrieval, the
  evidence that is selected passes its check, and the model then fails, without a streaming client, the exchange that is
  stored and the answer that is returned is the refusal, with the reason that the evidence is enough as the reason why
  evidence is missing; but it is not marked as a refusal, its validation is marked as passed, and it carries all citations.
\<close>

theorem generator_failure_answered:
  assumes "cc_abstain (cn_config e)" "cn_generate e = (\<lambda>_ _. Inl er)" "cr_stream r = None"
    and "bo_owner_id (cr_book r) = au_id (cr_user r)" "bo_status (cr_book r) = BookReady" "trim_space (cr_question r) \<noteq> []"
    and "begin_chat_idempotency x r a = (Inr (ChatBegun rc), a1)" "ensure_conversation r a1 = (Inr (c, create), a2)"
    and "load_history e c a2 = (Inr history, a3)"
    and "plan = build_query_plan e (cr_book r) (cr_question r) history" "qp_route plan = RouteRag"
    and "select_evidence e (cr_book r) plan (fst (retrieve_evidence_for_plan e (cr_book r) (chat_tabs a3) plan)) a3 = (Inr (sel, evs), a4)"
    and "cits = snd (build_context_with_evidence sel evs)" "va_passed (validate_evidence_selection plan sel cits True)"
  shows "\<exists>oc. oc_answer oc = default_abstain_answer @ missing_evidence @ enough_evidence \<and>
    \<not> oc_abstained oc \<and> va_passed (at_validation (oc_trace oc)) \<and> oc_citations oc = cits \<and>
    (case ask_question x e r a of
       (Inl er', a') \<Rightarrow> save_exchange x r rc (c, create) oc a4 = (Inl er', a')
     | (Inr (an, replayed), a') \<Rightarrow> \<not> replayed \<and> an = answer_of r c oc \<and>
         tb_messages (chat_tabs a') = tb_messages (chat_tabs a) @ exchange x r c oc)"
proof -
  obtain d v where v: "v = \<lparr>va_passed = True, va_reason = enough_evidence\<rparr>"
    and oc: "answer_from_evidence e r plan history a3 = (Inr (evidence_outcome plan d
       (abstain_answer_for_plan enough_evidence) cits False evs v), a4)"
  proof -
    have "build_context_with_evidence sel evs = (fst (build_context_with_evidence sel evs), cits)" by (simp add: assms(13))
    from failing_model [OF assms(1-3,12) this assms(14), where history = history] show ?thesis using that by blast
  qed
  let ?oc = "evidence_outcome plan d (abstain_answer_for_plan enough_evidence) cits False evs v"
  have route: "answer_by_route e r history a3 = (Inr ?oc, a4)"
    using oc assms(11) by (simp add: answer_by_route_def Let_def assms(10))
  have "tb_messages (chat_tabs a1) = tb_messages (chat_tabs a)" by (rule frame_of [OF messages_begin refl assms(7)])
  then have "tb_messages (chat_tabs a2) = tb_messages (chat_tabs a)" by (rule frame_of [OF messages_ensure _ assms(8)])
  then have "tb_messages (chat_tabs a3) = tb_messages (chat_tabs a)" by (rule frame_of [OF messages_history _ assms(9)])
  then have ms: "tb_messages (chat_tabs a4) = tb_messages (chat_tabs a)" by (rule frame_of [OF keeps_select _ assms(12)])
  obtain q a' where q: "save_exchange x r rc (c, create) ?oc a4 = (q, a')" by (metis surj_pair)
  have ask: "ask_question x e r a = (case q of Inl er' \<Rightarrow> (Inl er', a') | Inr an \<Rightarrow> (Inr (an, False), a'))"
    using assms(4-9) route q by (simp add: ask_question_def andthen_def done_with_def split: sum.split)
  have "case ask_question x e r a of
       (Inl er', a') \<Rightarrow> save_exchange x r rc (c, create) ?oc a4 = (Inl er', a')
     | (Inr (an, replayed), a') \<Rightarrow> \<not> replayed \<and> an = answer_of r c ?oc \<and>
         tb_messages (chat_tabs a') = tb_messages (chat_tabs a) @ exchange x r c ?oc"
    using save_exchange_messages [OF q] q ms by (cases q) (auto simp: ask)
  moreover have "va_passed (at_validation (oc_trace ?oc))" by (simp add: v enough_evidence_def)
  ultimately show ?thesis by (intro exI [of _ ?oc]) (simp add: stand_in(1))
qed

declare One_nat_def [simp del]

text \<open>Who it is about, asked of a book that knows the name of a student, which a chunk of it holds.\<close>

definition demo_fact :: doc_fact where
  "demo_fact = \<lparr>df_key = lit ''student_name'', df_value = [29579], df_label = [], df_page = [], df_source_ref = []\<rparr>"

definition demo_fact_chunk :: chunk where
  "demo_fact_chunk = \<lparr>ch_id = [99], ch_book_id = [1], ch_content = [29579], ch_metadata = (\<lambda>_. None), ch_created_at = 0\<rparr>"

definition demo_who :: chat_request where
  "demo_who = demo_question\<lparr>cr_question := [35841], cr_conversation_id := [], cr_key := [],
     cr_book := demo_book\<lparr>bo_status := BookReady, bo_facts := [demo_fact]\<rparr>\<rparr>"

definition demo_fact_tables :: tables where
  "demo_fact_tables = demo_tables\<lparr>tb_chunks := [demo_fact_chunk]\<rparr>"

definition demo_fact_hit :: stage_hit where
  "demo_fact_hit = chunk_hit (lit ''structured_fact'') (12 / 10) demo_fact_chunk"

text \<open>An environment whose model fails, and that takes one piece of evidence.\<close>

definition demo_failing :: "gostr \<Rightarrow> chat_env \<Rightarrow> chat_env" where
  "demo_failing er e = e\<lparr>cn_config := demo_chat_config\<lparr>cc_top_k := 1\<rparr>, cn_unicode := demo_unicode, cn_generate := \<lambda>_ _. Inl er\<rparr>"

lemma who_normal: "normalize_router_text demo_unicode [35841] = [35841]"
  by (rule normalize_plain) (simp add: plain_def)

lemma who_route: "fst (decide_query_route demo_unicode [35841] []) = RouteRag"
  by (simp add: Let_def decide_query_route_def normalize_plain plain_def has_recent_assistant_reply_def
    is_document_overview_question_def is_one_of_def mentions_def overview_questions_def overview_patterns_def
    is_clearly_out_of_scope_realtime_def realtime_terms_def has_prefix_def)

lemma who_fact: "is_single_fact_question demo_unicode [35841]"
  by (simp add: is_single_fact_question_def who_normal normalize_plain plain_def mentions_def complex_terms_def fact_terms_def has_prefix_def)

lemma student_name_trim: "trim_space (lit ''student_name'') = lit ''student_name''" "lit ''student_name'' \<noteq> []"
  by (simp_all add: lit_def trims is_space_def)

lemma who_keys: "fact_keys_for_question demo_unicode [35841] = [lit ''student_name'']"
  by (simp add: fact_keys_for_question_def who_normal Let_def has_prefix_def student_name_trim)

lemma who_plan:
  "qp_route (build_query_plan (demo_failing er e) b [35841] []) = RouteRag"
  "qp_type (build_query_plan (demo_failing er e) b [35841] []) = lit ''single_fact''"
  "qp_standalone (build_query_plan (demo_failing er e) b [35841] []) = [35841]"
  "qp_reuse (build_query_plan (demo_failing er e) b [35841] []) = []"
  "qp_required (build_query_plan (demo_failing er e) b [35841] []) = 1"
proof -
  have needs: "\<not> needs_conversation_aware_retrieval demo_unicode [35841] []"
    by (simp add: needs_conversation_aware_retrieval_def Let_def has_recent_assistant_reply_def)
  have u: "cn_unicode (demo_failing er e) = demo_unicode" by (simp add: demo_failing_def)
  have alone: "contextualize_retrieval_question (demo_failing er e) b [35841] [] = [35841]"
    by (simp add: contextualize_retrieval_question_def Let_def u needs trims is_space_def)
  note simps = build_query_plan_def Let_def u who_route alone who_fact needs classify_question_type_def required_evidence_count_def
      latest_assistant_chunk_ids_def latest_assistant_sources_def has_recent_assistant_reply_def
  show "qp_route (build_query_plan (demo_failing er e) b [35841] []) = RouteRag" by (simp add: simps)
  show "qp_type (build_query_plan (demo_failing er e) b [35841] []) = lit ''single_fact''" by (simp add: simps)
  show "qp_standalone (build_query_plan (demo_failing er e) b [35841] []) = [35841]" by (simp add: simps)
  show "qp_reuse (build_query_plan (demo_failing er e) b [35841] []) = []" by (simp add: simps uniq_loop.simps)
  show "qp_required (build_query_plan (demo_failing er e) b [35841] []) = 1" by (simp add: simps lit_def demo_failing_def demo_chat_config_def)
qed

lemma who_selected:
  "select_evidence (demo_failing er e) (cr_book demo_who) (build_query_plan (demo_failing er e) (cr_book demo_who) [35841] []) retrieved
     (demo_chat demo_fact_tables) =
   (Inr ([demo_fact_hit], [hit_to_evidence demo_fact_hit]), demo_chat demo_fact_tables)"
proof -
  let ?e = "demo_failing er e" and ?b = "cr_book demo_who" and ?a = "demo_chat demo_fact_tables"
  let ?plan = "build_query_plan ?e ?b [35841] []"
  have db: "ca_db ?a = (demo_fact_tables, [])" by (simp add: demo_chat_def)
  have b: "bo_facts ?b = [demo_fact]" "bo_id ?b = [1]" by (simp_all add: demo_who_def demo_book_def)
  have read: "chat_call (list_chunks_by_book [1]) ?a = (Inr [demo_fact_chunk], ?a)"
    by (subst chat_call_calm [OF db]) (simp add: list_chunks_by_book_def demo_fact_tables_def demo_fact_chunk_def demo_chat_def)
  have hits: "fact_hits [lit ''student_name''] ?b [demo_fact_chunk] = [demo_fact_hit]"
    by (simp add: fact_hits_def b demo_fact_def contains_string_def fact_matches_def demo_fact_chunk_def demo_fact_hit_def has_prefix_def trims is_space_def)
  have u: "cn_unicode ?e = demo_unicode" by (simp add: demo_failing_def)
  have keys: "fact_question_keys (cn_unicode ?e) ?plan = [lit ''student_name'']"
    by (simp add: fact_question_keys_def who_plan(3) u who_keys Let_def)
  have facts: "fact_backed_hits ?e ?b ?plan ?a = (Inr [demo_fact_hit], ?a)"
    by (simp add: fact_backed_hits_def keys b andthen_def read hits done_with_def)
  have key: "evidence_key demo_fact_hit \<noteq> []"
    by (simp add: evidence_key_def demo_fact_hit_def chunk_hit_def demo_fact_chunk_def get_field_def meta_get_def trims is_space_def Let_def)
  have one: "cc_top_k (cn_config ?e) = 1" by (simp add: demo_failing_def)
  have "select_unique_evidence_hits ([demo_fact_hit] @ xs) 1 = [demo_fact_hit]" for xs
    using key by (simp add: select_unique_evidence_hits_def)
  then show ?thesis
    by (simp add: select_evidence_def reused_hits_def who_plan(2,4) andthen_def done_with_def facts one Let_def)
qed

text \<open>The exchange of a new conversation with any outcome is stored.\<close>

lemma who_saved:
  "\<exists>a'. save_exchange demo_codec demo_who None
     (\<lparr>co_id = [111], co_user_id = [2], co_book_id = [1], co_title = title, co_last_message_at = Some 5, co_created_at = 5,
       co_updated_at = 5\<rparr>, True) oc (demo_chat demo_fact_tables) =
     (Inr (answer_of demo_who \<lparr>co_id = [111], co_user_id = [2], co_book_id = [1], co_title = title, co_last_message_at = Some 5,
       co_created_at = 5, co_updated_at = 5\<rparr> oc), a')"
proof -
  let ?c = "\<lparr>co_id = [111], co_user_id = [2], co_book_id = [1], co_title = title, co_last_message_at = Some 5, co_created_at = 5,
    co_updated_at = 5\<rparr>"
  have db: "ca_db (demo_chat demo_fact_tables) = (demo_fact_tables, [])" by (simp add: demo_chat_def)
  have "\<exists>t'. save_conversation_exchange 5 ?c True (user_message demo_codec demo_who ?c oc) (assistant_message demo_codec demo_who ?c oc) None
      demo_fact_tables = (Inr (), t')"
    by (simp add: save_conversation_exchange_def create_conversation_def insert_conversation_def insert_rows_def conversation_to_model_def
        insert_message_def message_to_model_def user_message_def assistant_message_def demo_who_def demo_chat_simps demo_fact_tables_def
        demo_tables_def empty_tables_def Let_def)
  then obtain t' where "save_conversation_exchange 5 ?c True (user_message demo_codec demo_who ?c oc)
      (assistant_message demo_codec demo_who ?c oc) None demo_fact_tables = (Inr (), t')"
    by blast
  moreover have "cr_now demo_who = 5" by (simp add: demo_who_def demo_question_def)
  ultimately show ?thesis
    by (simp add: save_exchange_def Let_def andthen_def wrap_error_def chat_call_calm [OF db] done_with_def)
qed

theorem generator_failure_answered_witness:
  "\<forall>er e. \<exists>an a'. ask_question demo_codec (demo_failing er e) demo_who (demo_chat demo_fact_tables) = (Inr (an, False), a') \<and>
     \<not> an_abstained an \<and> an_answer an = default_abstain_answer @ missing_evidence @ enough_evidence \<and>
     an_citations an = [hit_source [hit_to_evidence demo_fact_hit] (0, demo_fact_hit)]"
proof (intro allI)
  fix er e
  let ?e = "demo_failing er e" and ?a = "demo_chat demo_fact_tables"
  let ?c = "\<lparr>co_id = [111], co_user_id = [2], co_book_id = [1], co_title = generate_conversation_title [35841], co_last_message_at = Some 5,
    co_created_at = 5, co_updated_at = 5\<rparr>"
  let ?evs = "[hit_to_evidence demo_fact_hit]" and ?cits = "[hit_source [hit_to_evidence demo_fact_hit] (0, demo_fact_hit)]"
  have q: "cr_question demo_who = [35841]" by (simp add: demo_who_def)
  have cits: "snd (build_context_with_evidence [demo_fact_hit] ?evs) = ?cits"
    by (simp add: build_context_with_evidence_def)
  have "\<exists>oc. oc_answer oc = default_abstain_answer @ missing_evidence @ enough_evidence \<and>
    \<not> oc_abstained oc \<and> va_passed (at_validation (oc_trace oc)) \<and> oc_citations oc = ?cits \<and>
    (case ask_question demo_codec ?e demo_who ?a of
       (Inl er', a') \<Rightarrow> save_exchange demo_codec demo_who None (?c, True) oc ?a = (Inl er', a')
     | (Inr (an, replayed), a') \<Rightarrow> \<not> replayed \<and> an = answer_of demo_who ?c oc \<and>
         tb_messages (chat_tabs a') = tb_messages (chat_tabs ?a) @ exchange demo_codec demo_who ?c oc)"
  proof (rule generator_failure_answered [where history = "[]" and sel = "[demo_fact_hit]" and evs = ?evs and er = er and ?a1.0 = ?a and ?a2.0 = ?a
        and ?a3.0 = ?a and plan = "build_query_plan ?e (cr_book demo_who) [35841] []"])
    show "cc_abstain (cn_config ?e)" "cn_generate ?e = (\<lambda>_ _. Inl er)" "load_history ?e ?c ?a = (Inr [], ?a)"
      by (simp_all add: demo_failing_def demo_chat_config_def load_history_def done_with_def)
    show "cr_stream demo_who = None" "bo_owner_id (cr_book demo_who) = au_id (cr_user demo_who)" "bo_status (cr_book demo_who) = BookReady"
      "trim_space (cr_question demo_who) \<noteq> []"
      by (simp_all add: demo_who_def demo_question_def demo_user_def demo_book_def trims is_space_def)
    show "begin_chat_idempotency demo_codec demo_who ?a = (Inr (ChatBegun None), ?a)"
      by (simp add: begin_chat_idempotency_def demo_who_def done_with_def)
    show "ensure_conversation demo_who ?a = (Inr (?c, True), ?a)"
      by (simp add: ensure_conversation_def demo_who_def demo_question_def demo_user_def demo_book_def done_with_def)
    show "build_query_plan ?e (cr_book demo_who) [35841] [] = build_query_plan ?e (cr_book demo_who) (cr_question demo_who) []"
      by (simp only: q)
    show "qp_route (build_query_plan ?e (cr_book demo_who) [35841] []) = RouteRag" by (rule who_plan(1))
    show "va_passed (validate_evidence_selection (build_query_plan ?e (cr_book demo_who) [35841] []) [demo_fact_hit] ?cits True)"
      by (simp add: validate_evidence_selection_def who_plan(5) One_nat_def)
  qed (rule who_selected, rule cits [symmetric])
  then obtain oc where oc: "oc_answer oc = default_abstain_answer @ missing_evidence @ enough_evidence" "\<not> oc_abstained oc"
      "oc_citations oc = ?cits"
    and ask: "case ask_question demo_codec ?e demo_who ?a of
       (Inl er', a') \<Rightarrow> save_exchange demo_codec demo_who None (?c, True) oc ?a = (Inl er', a')
     | (Inr (an, replayed), a') \<Rightarrow> \<not> replayed \<and> an = answer_of demo_who ?c oc \<and>
         tb_messages (chat_tabs a') = tb_messages (chat_tabs ?a) @ exchange demo_codec demo_who ?c oc"
    by (elim exE conjE) (rule that)
  obtain p a' where p: "ask_question demo_codec ?e demo_who ?a = (p, a')" by (metis surj_pair)
  then obtain an where "p = Inr (an, False)" "an = answer_of demo_who ?c oc"
    using ask who_saved [of "generate_conversation_title [35841]" oc] by (cases p) auto
  then show "\<exists>an a'. ask_question demo_codec ?e demo_who ?a = (Inr (an, False), a') \<and>
     \<not> an_abstained an \<and> an_answer an = default_abstain_answer @ missing_evidence @ enough_evidence \<and> an_citations an = ?cits"
    using p oc by (intro exI [of _ an] exI [of _ a']) (simp add: answer_of_def)
qed

end
