(* ===== verification/Spec2Isabelle.thy ===== *)
theory Spec2Isabelle
  imports Prelude Steps Paths RefreshTokens RedisApi TokenRevoker Sessions Base64 ServiceTokens Sql JobStore RabbitQueue RedisQueue
    RateLimit OtpStore OtpRace RedisRefresh RefreshFamilies ClientIp Language Chunking PdfPages Retrieval BookStore BookFacts BookSpec BookApp BookAppFacts BookServer BookServerFacts DocumentProfile Ingest
    UserStore UserFacts AuthApp AuthFacts AuthProps SearchIndex Indexer IndexerProps IndexStatus ChatText ChatPlan ChatApp ChatFacts ChatProps
begin

text \<open>
  \<^bold>\<open>OneBook AI: a verification library of the back end\<close>

  The program is a set of Go services under \<open>src/backend\<close> that share packages (\<open>pkg/\<close>, \<open>internal/\<close>) and a PostgreSQL
  database, and use Redis, RabbitMQ, Qdrant, OpenSearch and Ollama.  A user registers with the \<^emph>\<open>auth service\<close>, which issues
  a short-lived JWT and a rotating refresh token.  The \<^emph>\<open>book service\<close> takes an upload, stores the book and an outbox
  message in one transaction, and a dispatcher hands the message to the \<^emph>\<open>ingest service\<close>, which queues a job; the job
  fetches the file, cuts it into chunks, replaces the chunks of the book and queues a job of the \<^emph>\<open>indexer\<close>, which embeds
  the chunks into Qdrant and writes them to OpenSearch, and reports the book as ready.  The \<^emph>\<open>chat service\<close> answers
  questions from the chunks that the \<^emph>\<open>retrieval pipeline\<close> finds.  The services speak HTTP with service tokens, and a
  \<^emph>\<open>gateway\<close> in front of them speaks to the browser.

  \<^bold>\<open>Theories, and the code they model\<close>

  \<^item> Shared: \<open>Prelude\<close> (Go strings as lists of code points, package \<open>strings\<close>, sorting, lists), \<open>Paths\<close> (\<open>path\<close> and
    \<open>filepath\<close>), \<open>Base64\<close>, \<open>Sql\<close> (a call of the database takes effect as a whole or not at all, and its reply may be lost), \<open>Steps\<close> (steps that may fail),
    \<open>RedisApi\<close> (the commands of Redis as an interface, interpreted on a server with faults).
  \<^item> Users: \<open>UserStore\<close> (tables of users, identities, profiles, audit; \<open>pkg/store/gorm_store.go\<close>), \<open>AuthApp\<close>
    (\<open>services/auth/internal/app/app.go\<close>, \<open>pkg/auth/password.go\<close>), \<open>RefreshTokens\<close> and \<open>RedisRefresh\<close>
    (\<open>refresh_token_store.go\<close>), \<open>TokenRevoker\<close> (\<open>token_revoker.go\<close>), \<open>Sessions\<close> (\<open>session_jwt.go\<close>), \<open>ServiceTokens\<close>
    (\<open>internal/servicetoken\<close>, \<open>internal/usertoken\<close>), \<open>OtpStore\<close> and \<open>OtpRace\<close> (one-time codes of the auth
    server, each operation as a whole, and the verification one Redis command at a time for requests that overlap), \<open>RateLimit\<close>
    (\<open>internal/ratelimit\<close>, the security alerter), \<open>ClientIp\<close> (\<open>internal/util/client_ip.go\<close>).
  \<^item> Books: \<open>BookStore\<close> (the tables of books, chunks, index states, conversations, idempotency records and the outbox;
    \<open>gorm_store.go\<close>, \<open>pkg/domain\<close>), \<open>BookApp\<close> (\<open>services/book/internal/app\<close>), \<open>BookServer\<close>
    (\<open>services/book/internal/server\<close>).
  \<^item> Ingestion: \<open>Chunking\<close> and \<open>PdfPages\<close> (\<open>services/ingest/internal/app/parser.go\<close>), \<open>DocumentProfile\<close> and \<open>Ingest\<close>
    (\<open>app.go\<close>, \<open>clients.go\<close> of the ingest service), \<open>JobStore\<close>, \<open>RabbitQueue\<close>, \<open>RedisQueue\<close> (\<open>pkg/queue\<close>).
  \<^item> Search: \<open>Language\<close> (\<open>pkg/retrieval/language.go\<close>), \<open>Retrieval\<close> (\<open>pipeline.go\<close>, \<open>reranker.go\<close>), \<open>SearchIndex\<close>
    (\<open>qdrant.go\<close>, \<open>opensearch.go\<close>), \<open>Indexer\<close> (\<open>services/indexer/internal/app\<close>, \<open>pkg/ai/ollama.go\<close>).
  \<^item> Chat: \<open>ChatText\<close> (\<open>services/chat/internal/app/router.go\<close>, \<open>overview.go\<close>), \<open>ChatPlan\<close> (\<open>expert_pipeline.go\<close>,
    \<open>retrieval_pipeline.go\<close>), \<open>ChatApp\<close> (\<open>app.go\<close>, \<open>idempotency.go\<close>).
  Each component has its state as a record, its data as datatypes or records with the fields of the Go types, and one
  definition for each function or method, composed as the code composes them.  A service is run on the state of what it
  owns and calls: for instance the world of an index job holds the database, the handlers of the book service, both
  indexes and the model, so that a step of one service is seen by the others.

  \<^bold>\<open>What the lemmas show\<close>

  \<^item> \<open>UserFacts\<close>, \<open>AuthFacts\<close>, \<open>AuthProps\<close>: the tables keep their keys and references over every run of the auth service
    (which the constraints of the database enforce; the lemmas rest on it); tokens are only issued for active users; a new
    password ends the sessions and the refresh tokens, the latter in the Redis store, of which \<open>RefreshFamilies\<close> shows that
    every living family is listed under its user; and where the service fails its users.
  \<^item> \<open>RefreshTokens\<close>, \<open>RedisRefresh\<close>, \<open>TokenRevoker\<close>, \<open>Sessions\<close>, \<open>OtpStore\<close>, \<open>RateLimit\<close>: step relations over the
    operations with invariants by rule induction: a refresh token is used once, a replay revokes the family, a logged out
    token stays rejected, a window lets no more requests through than its limit; the Redis ones under failing commands.
  \<^item> \<open>OtpRace\<close>: a request alone does what \<open>OtpStore\<close> says; requests interleaved in any order accept a code once if none of
    them is past its check when the code is deleted, and twice, or with any number of guesses, if they overlap.
  \<^item> \<open>ClientIp\<close>: behind trusted proxies a client cannot choose the address it is counted under.
  \<^item> \<open>ServiceTokens\<close>: what one service signs, the other accepts, and no other audience does.
  \<^item> \<open>BookFacts\<close>, \<open>BookSpec\<close>, \<open>BookAppFacts\<close>: the invariant of the tables, the refinement of a specification on a map from
    IDs to rows, exclusive claims of outbox messages, idempotent uploads, cleanup.  \<open>BookServerFacts\<close>: no request of a user
    who is no administrator reads or changes the book of another user, or gets a URL to its file.
  \<^item> \<open>JobStore\<close>, \<open>RabbitQueue\<close>, \<open>RedisQueue\<close>: what a delivered message does to its job, and when one is lost.
  \<^item> \<open>Chunking\<close>, \<open>PdfPages\<close>, \<open>DocumentProfile\<close>, \<open>Ingest\<close>: the chunks are runs of the sentences of the text, within their bounds, and
    cover it, pages do not
    depend on the iteration of maps, every fact is quoted from the text, the indexer only gets a job when the chunks
    are stored, and a job of an old generation does nothing.
  \<^item> \<open>Language\<close>, \<open>Retrieval\<close>: normal forms, sparse vectors, the fusion formula, the bounds and the sources of the results.
    \<open>SearchIndex\<close>, \<open>IndexerProps\<close>, \<open>IndexStatus\<close>: the batches end, a finished job leaves exactly the chunks of the book in both
    indexes, and what the book service then reports of it.
  \<^item> \<open>ChatFacts\<close>, \<open>ChatProps\<close>: users only reach and are only shown their own conversations and answers, an exchange is
    stored as a whole with the answer that is returned, what an answer of each route rests on, and what becomes of requests
    that fail or are repeated.
  Properties of the program stand after a text that names their claim.  Several of them state a flaw: they are theorems
  about the code as it is, and the text says what the code seems to intend.

  \<^bold>\<open>Interfaces\<close>

  A locale states what a client needs of a provider and is interpreted on the provider's model: the Redis server
  (\<open>RedisApi\<close>, on a server that loses replies), the JWT library (\<open>Sessions\<close>, \<open>ServiceTokens\<close>, on an encoding that can be
  read back), the two indexes (\<open>book_index\<close>, from which \<open>qdrant_server\<close> and \<open>opensearch_server\<close> follow by \<open>sublocale\<close>),
  and the others named in their theories.

  \<^bold>\<open>Conventions, bounds and fuel\<close>

  \<^item> A Go string is a list of code points.  Bytes that are not valid UTF-8 only occur where a name is cut at a byte
    (\<open>AuthApp\<close>); there they are numbers from 1114112 on.  Machine integers are \<open>int\<close> with the wrap-around written out where
    it can happen (\<open>backoff_for_attempt\<close>), hashes of tokens are 32-bit words, and \<open>float64\<close> is a real number, so rounding
    is not modelled.  A JSON object is an association list.
  \<^item> A handler reads the clock once: \<open>now\<close> is an argument, as are random IDs.  PostgreSQL rounds times to microseconds;
    the model keeps them.  \<open>strings.EqualFold\<close> with an ASCII word is equality after \<open>strings.ToLower\<close>.
  \<^item> Errors are values of sum types.  Calls that can fail take their outcome from a schedule (a list, where the empty list
    means that all calls succeed); a call may take effect although its reply is lost.
  \<^item> Loops are structural recursions, recursions with a measure, or partial functions into \<open>option\<close> with a theorem that
    they return (\<open>batch_loop\<close>, the chunking loops).  The only fuel is the number of tries of a Redis rotation (the code has a
    deadline of three seconds instead); every property holds for each number.
  \<^item> Transactions are atomic and calls of different requests interleave between them.  An operation on
    Redis is one function that sends its commands in turn; where other requests may come between them and it matters, the
    commands are the steps of a relation (\<open>OtpRace\<close>).  \<open>SKIP LOCKED\<close> is modelled as the
    claims one after the other, \<open>errgroup\<close> as its tasks in any order, the iteration over a Go map as any order, and
    \<open>sort.SliceStable\<close> with an ordering that is not transitive as insertion sort.
  \<^item> Code that is not under \<open>src\<close> is a parameter with its documented behaviour as a named hypothesis: bcrypt, the JWT
    library, PEM files, \<open>unicode\<close> tables, SHA-256 and SHA-1 UUIDs (injective where it matters), \<open>time.ParseDuration\<close>,
    \<open>mail.ParseAddress\<close>, the JSON decoder, HTTP transport, the servers.

  \<^bold>\<open>Not modelled\<close>

  \<^item> The gateway (\<open>services/gateway\<close>): its handlers forward requests to the other services over their clients and set
    cookies; the OAuth providers talk to third parties.
  \<^item> The HTTP servers of auth, ingest, indexer and chat, which decode a request, call the modelled operation and encode its
    result (the server of the book service is modelled, as the example of the kind that holds the authorisation), the
    clients with which the chat service asks for the user and the book, and the senders of mail and SMS.
  \<^item> The evaluation centre (\<open>internal/eval\<close>, \<open>services/auth/internal/app/eval_center.go\<close>, the tables of evaluation
    runs, \<open>cmd/rag_eval\<close>) and the overview of the administrators: reports for developers, no part of the service.
  \<^item> The generators of \<open>pkg/ai\<close> (Gemini, OpenAI), object and file storage, configuration, logging, request IDs, CORS and
    security headers, the \<open>main\<close> packages: input and output without decisions of their own.
  \<^item> Running external tools and services (\<open>pdftotext\<close>, PaddleOCR, EPUB and HTML libraries), the goroutines that only feed
    messages to the modelled handlers, database migrations (but for the one that writes identities), timeouts.
\<close>

end
